(* ===== verification/Prelude.thy ===== *)
theory Prelude
  imports Main "HOL-Library.Word" "HOL-Library.Sublist"
begin

text \<open>
  The vocabulary the component theories share: the machine integer types of the C++ sources, the
  big-endian byte splittings the radio's wire protocol is made of, buffers filled by a callee, the
  C++ rule for signed division, and the fact collections the proofs are steered with.

  The collections: \<open>wp\<close> holds the weakest-precondition equations of the effect combinators (theory
  \<open>Effects\<close>), \<open>wp_intro\<close> the introduction rules for calls into another component, \<open>enum_value\<close> the
  numeric values of the enumerators, and \<open>be_simps\<close> the big-endian round trips.
\<close>

named_theorems wp "weakest-precondition equations of the effect combinators"
named_theorems wp_intro "weakest-precondition rules for component calls"
named_theorems enum_value "numeric values of enumerators and register addresses"
named_theorems be_simps "big-endian splitting and joining"

unbundle bit_operations_syntax

type_synonym u8 = "8 word"
type_synonym u16 = "16 word"
type_synonym u32 = "32 word"
type_synonym u64 = "64 word"
type_synonym bytes = "u8 list"

section \<open>Big-endian byte sequences\<close>

text \<open>The two bytes of a 16-bit value, most significant first: the pair of statements
  \<^verbatim>\<open>buf[i] = (uint8_t)((v >> 8) & 0x00FF); buf[i+1] = (uint8_t)(v & 0x00FF);\<close> of the driver.\<close>

definition be16 :: "u16 \<Rightarrow> bytes" where
  "be16 v = [ucast (drop_bit 8 v AND 0x00FF), ucast (v AND 0x00FF)]"

definition of_be16 :: "u8 \<Rightarrow> u8 \<Rightarrow> u16" where
  "of_be16 hi lo = push_bit 8 (ucast hi) OR ucast lo"

definition be24 :: "u32 \<Rightarrow> bytes" where
  "be24 v = [ucast (drop_bit 16 v AND 0xFF), ucast (drop_bit 8 v AND 0xFF), ucast (v AND 0xFF)]"

definition of_be24 :: "u8 \<Rightarrow> u8 \<Rightarrow> u8 \<Rightarrow> u32" where
  "of_be24 a b c = push_bit 16 (ucast a) OR push_bit 8 (ucast b) OR ucast c"

definition be32 :: "u32 \<Rightarrow> bytes" where
  "be32 v = [ucast (drop_bit 24 v), ucast (drop_bit 16 v), ucast (drop_bit 8 v), ucast v]"

definition of_be32 :: "u8 \<Rightarrow> u8 \<Rightarrow> u8 \<Rightarrow> u8 \<Rightarrow> u32" where
  "of_be32 a b c d = push_bit 24 (ucast a) OR push_bit 16 (ucast b) OR push_bit 8 (ucast c) OR ucast d"

lemma and_255: "v AND 255 = take_bit 8 (v :: 'a::len word)"
  by (simp add: take_bit_eq_mask mask_eq_exp_minus_1)

lemma length_be [simp]:
  "length (be16 v) = 2" "length (be24 w) = 3" "length (be32 w) = 4"
  by (simp_all add: be16_def be24_def be32_def)

lemma of_be16_split:
  "of_be16 (ucast (drop_bit 8 v AND 0x00FF)) (ucast (v AND 0x00FF)) = v"
  unfolding of_be16_def and_255
  by (rule bit_word_eqI) (auto simp: bit_simps)

lemma of_be24_split:
  "of_be24 (ucast (drop_bit 16 v AND 0xFF)) (ucast (drop_bit 8 v AND 0xFF)) (ucast (v AND 0xFF))
     = take_bit 24 v"
  unfolding of_be24_def and_255
  by (rule bit_word_eqI, rename_tac n, case_tac "16 \<le> n") (auto simp: bit_simps)

lemma of_be32_split:
  "of_be32 (ucast (drop_bit 24 v)) (ucast (drop_bit 16 v)) (ucast (drop_bit 8 v)) (ucast v) = v"
  unfolding of_be32_def
  by (rule bit_word_eqI, rename_tac n, case_tac "16 \<le> n"; case_tac "24 \<le> n") (auto simp: bit_simps)

lemma of_be16_be16 [be_simps]: "be16 v = [hi, lo] \<Longrightarrow> of_be16 hi lo = v"
  using of_be16_split [of v] by (auto simp: be16_def)

lemma of_be24_be24 [be_simps]: "be24 v = [a, b, c] \<Longrightarrow> of_be24 a b c = take_bit 24 v"
  using of_be24_split [of v] by (auto simp: be24_def)

lemma of_be32_be32 [be_simps]: "be32 v = [a, b, c, d] \<Longrightarrow> of_be32 a b c d = v"
  using of_be32_split [of v] by (auto simp: be32_def)

lemma be16_inject: "be16 v = be16 w \<longleftrightarrow> v = w"
proof
  assume eq: "be16 v = be16 w"
  obtain hi lo where v: "be16 v = [hi, lo]"
    by (simp add: be16_def)
  with eq have "be16 w = [hi, lo]" by simp
  with v show "v = w"
    by (metis of_be16_be16)
qed simp

section \<open>Buffers filled by a callee\<close>

text \<open>A receive buffer is a function from positions to bytes: whatever the callee stored at each
  index. \<open>buffer_slice\<close> is the \<^verbatim>\<open>memcpy\<close> of \<open>n\<close> bytes out of it, starting at \<open>off\<close>.\<close>

type_synonym rx_buffer = "nat \<Rightarrow> u8"

definition buffer_slice :: "rx_buffer \<Rightarrow> nat \<Rightarrow> nat \<Rightarrow> bytes" where
  "buffer_slice b off n = map (\<lambda>i. b (off + i)) [0..<n]"

lemma length_buffer_slice [simp]: "length (buffer_slice b off n) = n"
  by (simp add: buffer_slice_def)

lemma nth_buffer_slice [simp]: "i < n \<Longrightarrow> buffer_slice b off n ! i = b (off + i)"
  by (simp add: buffer_slice_def)

section \<open>Integer conversions\<close>

text \<open>C++ integer division truncates towards zero.\<close>

definition cdiv :: "int \<Rightarrow> int \<Rightarrow> int" where
  "cdiv a b = sgn a * sgn b * (\<bar>a\<bar> div \<bar>b\<bar>)"

lemma cdiv_nonneg: "0 \<le> a \<Longrightarrow> 0 < b \<Longrightarrow> cdiv a b = a div b"
  by (cases "a = 0") (simp_all add: cdiv_def)

lemma cdiv_neg: "a < 0 \<Longrightarrow> 0 < b \<Longrightarrow> cdiv a b = - ((- a) div b)"
  by (simp add: cdiv_def)

text \<open>A \<^verbatim>\<open>bool\<close> converted to an integer byte.\<close>

definition byte_of_bool :: "bool \<Rightarrow> u8" where
  "byte_of_bool b = (if b then 1 else 0)"

section \<open>Lists\<close>

lemma prefix_singleton: "prefix xs [x] \<longleftrightarrow> xs = [] \<or> xs = [x]"
  by (cases xs) auto

lemma set_takeWhileD2: "x \<in> set (takeWhile P xs) \<Longrightarrow> P x"
  by (induction xs) (auto split: if_splits)

lemma hd_dropWhile_not: "dropWhile P xs \<noteq> [] \<Longrightarrow> \<not> P (hd (dropWhile P xs))"
  by (induction xs) auto

end
