(* ===== verification/Effects.thy ===== *)
theory Effects
  imports Prelude
begin

text \<open>
  The effects of the C++ code: mutable state, exceptions, loops that may never end and mutexes.
  A computation maps a state to the way it ends: with a value, with an exception (the state at the
  throw is kept, as C++ keeps it), by locking a \<^verbatim>\<open>std::mutex\<close> its own thread already holds
  (\<open>Deadlock\<close>), or not at all (\<open>None\<close>: some loop runs forever).

  \<open>wp m Q E s\<close> is the weakest precondition for partial correctness: started in \<open>s\<close>, \<open>m\<close> does not
  deadlock, establishes \<open>Q\<close> if it returns and \<open>E\<close> if it throws. That a computation does return is
  stated separately, as an equation \<open>m s = Some (Ret v s')\<close>.
\<close>

section \<open>Computations\<close>

datatype exn = system_error string | runtime_error string

datatype ('a, 's) outcome = Ret 'a 's | Throw exn 's | Deadlock

type_synonym ('s, 'a) M = "'s \<Rightarrow> ('a, 's) outcome option"

definition retM :: "'a \<Rightarrow> ('s, 'a) M" where
  "retM a = (\<lambda>s. Some (Ret a s))"

definition bindM :: "('s, 'a) M \<Rightarrow> ('a \<Rightarrow> ('s, 'b) M) \<Rightarrow> ('s, 'b) M" where
  "bindM m f = (\<lambda>s. case m s of
       None \<Rightarrow> None
     | Some (Ret a s') \<Rightarrow> f a s'
     | Some (Throw e s') \<Rightarrow> Some (Throw e s')
     | Some Deadlock \<Rightarrow> Some Deadlock)"

definition throwM :: "exn \<Rightarrow> ('s, 'a) M" where
  "throwM e = (\<lambda>s. Some (Throw e s))"

definition getsM :: "('s \<Rightarrow> 'a) \<Rightarrow> ('s, 'a) M" where
  "getsM f = (\<lambda>s. Some (Ret (f s) s))"

definition modifyM :: "('s \<Rightarrow> 's) \<Rightarrow> ('s, unit) M" where
  "modifyM f = (\<lambda>s. Some (Ret () (f s)))"

definition whenM :: "bool \<Rightarrow> ('s, unit) M \<Rightarrow> ('s, unit) M" where
  "whenM b m = (if b then m else retM ())"

text \<open>A block of statements run in order.\<close>

primrec seqM :: "('s, unit) M list \<Rightarrow> ('s, unit) M" where
  "seqM [] = retM ()"
| "seqM (m # ms) = bindM m (\<lambda>_. seqM ms)"

text \<open>\<^verbatim>\<open>try { m } catch (...) { h }\<close>.\<close>

definition tryM :: "('s, 'a) M \<Rightarrow> ('s, 'a) M \<Rightarrow> ('s, 'a) M" where
  "tryM m h = (\<lambda>s. case m s of
       Some (Throw e s') \<Rightarrow> h s'
     | r \<Rightarrow> r)"

text \<open>Running a destructor on the way out of a scope, on the normal and on the exceptional path.\<close>

definition finallyM :: "('s, 'a) M \<Rightarrow> ('s \<Rightarrow> 's) \<Rightarrow> ('s, 'a) M" where
  "finallyM m c = (\<lambda>s. case m s of
       None \<Rightarrow> None
     | Some (Ret a s') \<Rightarrow> Some (Ret a (c s'))
     | Some (Throw e s') \<Rightarrow> Some (Throw e (c s'))
     | Some Deadlock \<Rightarrow> Some Deadlock)"

text \<open>Locking a mutex that is held never returns in a single thread: the caller waits for itself.\<close>

definition lockM :: "('s \<Rightarrow> bool) \<Rightarrow> ((bool \<Rightarrow> bool) \<Rightarrow> 's \<Rightarrow> 's) \<Rightarrow> ('s, unit) M" where
  "lockM held upd = (\<lambda>s. if held s then Some Deadlock else Some (Ret () (upd (\<lambda>_. True) s)))"

text \<open>\<^verbatim>\<open>std::lock_guard<std::mutex> lg(L); m\<close>.\<close>

definition lock_guardM :: "('s \<Rightarrow> bool) \<Rightarrow> ((bool \<Rightarrow> bool) \<Rightarrow> 's \<Rightarrow> 's) \<Rightarrow> ('s, 'a) M \<Rightarrow> ('s, 'a) M" where
  "lock_guardM held upd m = bindM (lockM held upd) (\<lambda>_. finallyM m (upd (\<lambda>_. False)))"

text \<open>Running a computation on the second component of a pair.\<close>

definition lift_sndM :: "('e, 'a) M \<Rightarrow> ('b \<times> 'e, 'a) M" where
  "lift_sndM m = (\<lambda>(b, e). case m e of
       None \<Rightarrow> None
     | Some (Ret a e') \<Rightarrow> Some (Ret a (b, e'))
     | Some (Throw x e') \<Rightarrow> Some (Throw x (b, e'))
     | Some Deadlock \<Rightarrow> Some Deadlock)"

text \<open>A member function run on an object of its own: the object is the result, and is lost when the
  function throws.\<close>

definition with_local :: "'b \<Rightarrow> ('b \<times> 'e, unit) M \<Rightarrow> ('e, 'b) M" where
  "with_local b m = (\<lambda>e. case m (b, e) of
       None \<Rightarrow> None
     | Some (Ret _ (b', e')) \<Rightarrow> Some (Ret b' e')
     | Some (Throw x (b', e')) \<Rightarrow> Some (Throw x e')
     | Some Deadlock \<Rightarrow> Some Deadlock)"

section \<open>Laws of sequencing\<close>

lemma bind_assoc: "bindM (bindM m f) g = bindM m (\<lambda>x. bindM (f x) g)"
  by (auto simp: bindM_def fun_eq_iff split: option.split outcome.split)

lemma bind_ret_left [simp]: "bindM (retM a) f = f a"
  by (simp add: bindM_def retM_def)

lemma bind_ret_right [simp]: "bindM m retM = m"
  by (auto simp: bindM_def retM_def fun_eq_iff split: option.split outcome.split)

lemma seq_append: "seqM (xs @ ys) = bindM (seqM xs) (\<lambda>_. seqM ys)"
  by (induction xs) (simp_all add: bind_assoc)

section \<open>Weakest preconditions\<close>

definition wp :: "('s, 'a) M \<Rightarrow> ('a \<Rightarrow> 's \<Rightarrow> bool) \<Rightarrow> (exn \<Rightarrow> 's \<Rightarrow> bool) \<Rightarrow> 's \<Rightarrow> bool" where
  "wp m Q E s = (case m s of
       None \<Rightarrow> True
     | Some (Ret a s') \<Rightarrow> Q a s'
     | Some (Throw e s') \<Rightarrow> E e s'
     | Some Deadlock \<Rightarrow> False)"

lemma wp_ret [wp]: "wp (retM a) Q E s = Q a s"
  by (simp add: wp_def retM_def)

lemma wp_bind [wp]: "wp (bindM m f) Q E s = wp m (\<lambda>a. wp (f a) Q E) E s"
  by (simp add: wp_def bindM_def split: option.split outcome.split)

lemma wp_throw [wp]: "wp (throwM e) Q E s = E e s"
  by (simp add: wp_def throwM_def)

lemma wp_gets [wp]: "wp (getsM f) Q E s = Q (f s) s"
  by (simp add: wp_def getsM_def)

lemma wp_modify [wp]: "wp (modifyM f) Q E s = Q () (f s)"
  by (simp add: wp_def modifyM_def)

lemma wp_when [wp]: "wp (whenM b m) Q E s = (if b then wp m Q E s else Q () s)"
  by (simp add: whenM_def wp_ret)

lemma wp_seq_Nil [wp]: "wp (seqM []) Q E s = Q () s"
  by (simp add: wp_ret)

lemma wp_seq_Cons [wp]: "wp (seqM (m # ms)) Q E s = wp m (\<lambda>_. wp (seqM ms) Q E) E s"
  by (simp add: wp_bind)

lemma wp_try [wp]: "wp (tryM m h) Q E s = wp m Q (\<lambda>_. wp h Q E) s"
  by (simp add: wp_def tryM_def split: option.split outcome.split)

lemma wp_finally [wp]:
  "wp (finallyM m c) Q E s = wp m (\<lambda>a s'. Q a (c s')) (\<lambda>e s'. E e (c s')) s"
  by (simp add: wp_def finallyM_def split: option.split outcome.split)

lemma wp_lock [wp]: "wp (lockM held upd) Q E s = (\<not> held s \<and> Q () (upd (\<lambda>_. True) s))"
  by (simp add: wp_def lockM_def)

lemma wp_lock_guard [wp]:
  "wp (lock_guardM held upd m) Q E s =
     (\<not> held s \<and> wp m (\<lambda>a s'. Q a (upd (\<lambda>_. False) s')) (\<lambda>e s'. E e (upd (\<lambda>_. False) s'))
                     (upd (\<lambda>_. True) s))"
  by (simp add: lock_guardM_def wp)

lemma wp_lift_snd [wp]:
  "wp (lift_sndM m) Q E (b, e) = wp m (\<lambda>a e'. Q a (b, e')) (\<lambda>x e'. E x (b, e')) e"
  by (simp add: wp_def lift_sndM_def split: option.split outcome.split)

lemma wp_with_local [wp]:
  "wp (with_local b m) Q E e = wp m (\<lambda>_ (b', e'). Q b' e') (\<lambda>x (b', e'). E x e') (b, e)"
  by (simp add: wp_def with_local_def split: option.split outcome.split prod.split)

lemma wp_mono:
  assumes "wp m Q E s"
    and "\<And>a s'. Q a s' \<Longrightarrow> Q' a s'" and "\<And>e s'. E e s' \<Longrightarrow> E' e s'"
  shows "wp m Q' E' s"
  using assms by (simp add: wp_def split: option.splits outcome.splits)

lemma wp_bindI:
  "wp m P E s \<Longrightarrow> (\<And>a s'. P a s' \<Longrightarrow> wp (f a) Q E s') \<Longrightarrow> wp (bindM m f) Q E s"
  unfolding wp_bind by (rule wp_mono)

lemma wp_conj: "wp m Q E s \<Longrightarrow> wp m Q' E' s \<Longrightarrow>
  wp m (\<lambda>a s'. Q a s' \<and> Q' a s') (\<lambda>e s'. E e s' \<and> E' e s') s"
  by (simp add: wp_def split: option.splits outcome.splits)

lemma wp_if [wp]: "wp (if b then m else n) Q E s = (if b then wp m Q E s else wp n Q E s)"
  by simp

lemma wp_RetD: "wp m Q E s \<Longrightarrow> m s = Some (Ret a s') \<Longrightarrow> Q a s'"
  by (simp add: wp_def)

lemma wp_ThrowD: "wp m Q E s \<Longrightarrow> m s = Some (Throw e s') \<Longrightarrow> E e s'"
  by (simp add: wp_def)

lemma wp_DeadlockD: "wp m Q E s \<Longrightarrow> m s \<noteq> Some Deadlock"
  by (auto simp: wp_def)

section \<open>Total correctness\<close>

text \<open>\<open>twp m Q s\<close>: started in \<open>s\<close>, \<open>m\<close> returns (it neither throws nor hangs) and establishes \<open>Q\<close>.\<close>

named_theorems twp "total weakest-precondition equations of the effect combinators"

definition twp :: "('s, 'a) M \<Rightarrow> ('a \<Rightarrow> 's \<Rightarrow> bool) \<Rightarrow> 's \<Rightarrow> bool" where
  "twp m Q s \<longleftrightarrow> (\<exists>a s'. m s = Some (Ret a s') \<and> Q a s')"

lemma twp_basic [twp]:
  "twp (retM a) Q s = Q a s" "twp (getsM f) Q s = Q (f s) s" "twp (modifyM g) Q' s = Q' () (g s)"
  by (simp_all add: twp_def retM_def getsM_def modifyM_def)

lemma twp_throw [twp]: "twp (throwM e) Q s = False"
  by (simp add: twp_def throwM_def)

lemma twp_bind [twp]: "twp (bindM m f) Q s = twp m (\<lambda>a. twp (f a) Q) s"
  by (auto simp: twp_def bindM_def split: option.splits outcome.splits)

lemma twp_when [twp]: "twp (whenM b m) Q s = (if b then twp m Q s else Q () s)"
  by (simp add: whenM_def twp_basic)

lemma twp_seq_Nil [twp]: "twp (seqM []) Q s = Q () s"
  by (simp add: twp_basic)

lemma twp_seq_Cons [twp]: "twp (seqM (m # ms)) Q s = twp m (\<lambda>_. twp (seqM ms) Q) s"
  by (simp add: twp_bind)

lemma twp_finally [twp]: "twp (finallyM m c) Q s = twp m (\<lambda>a s'. Q a (c s')) s"
  by (auto simp: twp_def finallyM_def split: option.splits outcome.splits)

lemma twp_lock_guard [twp]:
  "twp (lock_guardM held upd m) Q s =
     (\<not> held s \<and> twp m (\<lambda>a s'. Q a (upd (\<lambda>_. False) s')) (upd (\<lambda>_. True) s))"
  by (auto simp: lock_guardM_def twp_bind twp_finally lockM_def twp_def [of "\<lambda>s. if _ s then _ s else _ s"])

lemma twp_lift_snd [twp]: "twp (lift_sndM m) Q (b, e) = twp m (\<lambda>a e'. Q a (b, e')) e"
  by (auto simp: twp_def lift_sndM_def split: option.splits outcome.splits)

lemma twp_with_local [twp]: "twp (with_local b m) Q e = twp m (\<lambda>_ (b', e'). Q b' e') (b, e)"
  by (auto simp: twp_def with_local_def split: option.splits outcome.splits)

lemma twp_if [twp]: "twp (if b then m else n) Q s = (if b then twp m Q s else twp n Q s)"
  by simp

lemma twp_try: "twp m Q s \<Longrightarrow> twp (tryM m n) Q s"
  by (auto simp: twp_def tryM_def)

lemma twp_mono: "twp m Q s \<Longrightarrow> (\<And>a s'. Q a s' \<Longrightarrow> Q' a s') \<Longrightarrow> twp m Q' s"
  by (auto simp: twp_def)

lemma twp_wp: "twp m P s \<Longrightarrow> wp m Q E s \<Longrightarrow> twp m (\<lambda>a s'. P a s' \<and> Q a s') s"
  by (auto simp: twp_def wp_def)

section \<open>Computations that always end\<close>

text \<open>Code without loops ends from every state: it returns, throws or blocks on a mutex.\<close>

named_theorems halts "computations that end from every state"

definition halts :: "('s, 'a) M \<Rightarrow> bool" where
  "halts m \<longleftrightarrow> (\<forall>s. m s \<noteq> None)"

lemma halts_basic [halts]:
  "halts (retM a)" "halts (throwM e)" "halts (getsM f)" "halts (modifyM g)"
  by (simp_all add: halts_def retM_def throwM_def getsM_def modifyM_def)

lemma halts_bind [halts]: "halts m \<Longrightarrow> (\<And>a. halts (f a)) \<Longrightarrow> halts (bindM m f)"
  by (auto simp: halts_def bindM_def split: option.split outcome.split)

lemma halts_when [halts]: "halts m \<Longrightarrow> halts (whenM b m)"
  by (simp add: whenM_def halts_basic)

lemma halts_seq [halts]: "halts (seqM [])" "halts m \<Longrightarrow> halts (seqM ms) \<Longrightarrow> halts (seqM (m # ms))"
  by (simp_all add: halts_basic halts_bind)

lemma halts_if [halts]: "(b \<Longrightarrow> halts m) \<Longrightarrow> (\<not> b \<Longrightarrow> halts n) \<Longrightarrow> halts (if b then m else n)"
  by simp

lemma halts_lift_snd [halts]: "halts m \<Longrightarrow> halts (lift_sndM m)"
  by (auto simp: halts_def lift_sndM_def split: option.split outcome.split)

lemma halts_with_local [halts]: "halts m \<Longrightarrow> halts (with_local b m)"
  by (auto simp: halts_def with_local_def split: option.split outcome.split)

end
