(* ===== verification/SX128x_Types.thy ===== *)
theory SX128x_Types
  imports Prelude
begin

text \<open>
  The data of the SX128x driver (\<^verbatim>\<open>Sx1280Radio/ThirdParty/sx128x/SX128x.hpp\<close>): register addresses
  and masks, the enumerations with the values their enumerators have on the wire, and the structs
  the driver is configured with and reports in.

  An enumeration is a datatype with the source's enumerators, and \<open><Enum>_value\<close> gives the byte an
  enumerator is sent as. Six enumerations can hold a byte that is no enumerator: the packet type
  (read back from the chip by \<^verbatim>\<open>GetPacketType\<close>), and the five modulation parameters without an
  enumerator 0, in a struct initialised with \<^verbatim>\<open>{}\<close>. Those have one more constructor, named
  \<open>..._RAW\<close>, that carries the byte.
\<close>

section \<open>Registers and constants\<close>

definition AUTO_TX_OFFSET :: u16 where [enum_value]: "AUTO_TX_OFFSET = 33"
definition REG_LR_FIRMWARE_VERSION_MSB :: u16 where [enum_value]: "REG_LR_FIRMWARE_VERSION_MSB = 0x0153"
definition REG_LR_CRCSEEDBASEADDR :: u16 where [enum_value]: "REG_LR_CRCSEEDBASEADDR = 0x09C8"
definition REG_LR_CRCPOLYBASEADDR :: u16 where [enum_value]: "REG_LR_CRCPOLYBASEADDR = 0x09C6"
definition REG_LR_WHITSEEDBASEADDR :: u16 where [enum_value]: "REG_LR_WHITSEEDBASEADDR = 0x09C5"
definition REG_LR_RANGINGIDCHECKLENGTH :: u16 where [enum_value]: "REG_LR_RANGINGIDCHECKLENGTH = 0x0931"
definition REG_LR_DEVICERANGINGADDR :: u16 where [enum_value]: "REG_LR_DEVICERANGINGADDR = 0x0916"
definition REG_LR_REQUESTRANGINGADDR :: u16 where [enum_value]: "REG_LR_REQUESTRANGINGADDR = 0x0912"
definition REG_LR_RANGINGRESULTCONFIG :: u16 where [enum_value]: "REG_LR_RANGINGRESULTCONFIG = 0x0924"
definition MASK_RANGINGMUXSEL :: u8 where [enum_value]: "MASK_RANGINGMUXSEL = 0xCF"
definition REG_LR_RANGINGRESULTBASEADDR :: u16 where [enum_value]: "REG_LR_RANGINGRESULTBASEADDR = 0x0961"
definition REG_LR_RANGINGRERXTXDELAYCAL :: u16 where [enum_value]: "REG_LR_RANGINGRERXTXDELAYCAL = 0x092C"
definition REG_LR_RANGINGFILTERWINDOWSIZE :: u16 where [enum_value]: "REG_LR_RANGINGFILTERWINDOWSIZE = 0x091E"
definition REG_LR_RANGINGRESULTCLEARREG :: u16 where [enum_value]: "REG_LR_RANGINGRESULTCLEARREG = 0x0923"
definition REG_RANGING_RSSI :: u16 where [enum_value]: "REG_RANGING_RSSI = 0x0964"
definition DEFAULT_RANGING_FILTER_SIZE :: u8 where [enum_value]: "DEFAULT_RANGING_FILTER_SIZE = 127"
definition REG_LR_PACKETPARAMS :: u16 where [enum_value]: "REG_LR_PACKETPARAMS = 0x903"
definition REG_LR_PAYLOADLENGTH :: u16 where [enum_value]: "REG_LR_PAYLOADLENGTH = 0x901"
definition REG_LR_SYNCWORDBASEADDRESS1 :: u16 where [enum_value]: "REG_LR_SYNCWORDBASEADDRESS1 = 0x09CE"
definition REG_LR_SYNCWORDBASEADDRESS2 :: u16 where [enum_value]: "REG_LR_SYNCWORDBASEADDRESS2 = 0x09D3"
definition REG_LR_SYNCWORDBASEADDRESS3 :: u16 where [enum_value]: "REG_LR_SYNCWORDBASEADDRESS3 = 0x09D8"
definition REG_LR_ESTIMATED_FREQUENCY_ERROR_MSB :: u16 where [enum_value]: "REG_LR_ESTIMATED_FREQUENCY_ERROR_MSB = 0x0954"
definition REG_LR_ESTIMATED_FREQUENCY_ERROR_MASK :: u32 where [enum_value]: "REG_LR_ESTIMATED_FREQUENCY_ERROR_MASK = 0x0FFFFF"
definition REG_LR_SYNCWORDTOLERANCE :: u16 where [enum_value]: "REG_LR_SYNCWORDTOLERANCE = 0x09CD"
definition REG_LR_PREAMBLELENGTH :: u16 where [enum_value]: "REG_LR_PREAMBLELENGTH = 0x09C1"
definition MASK_FORCE_PREAMBLELENGTH :: u8 where [enum_value]: "MASK_FORCE_PREAMBLELENGTH = 0x8F"
definition REG_LR_BLE_ACCESS_ADDRESS :: u16 where [enum_value]: "REG_LR_BLE_ACCESS_ADDRESS = 0x09CF"
definition BLE_ADVERTIZER_ACCESS_ADDRESS :: u32 where [enum_value]: "BLE_ADVERTIZER_ACCESS_ADDRESS = 0x8E89BED6"
definition REG_LNA_REGIME :: u16 where [enum_value]: "REG_LNA_REGIME = 0x0891"
definition MASK_LNA_REGIME :: u8 where [enum_value]: "MASK_LNA_REGIME = 0xC0"
definition REG_ENABLE_MANUAL_GAIN_CONTROL :: u16 where [enum_value]: "REG_ENABLE_MANUAL_GAIN_CONTROL = 0x089F"
definition MASK_MANUAL_GAIN_CONTROL :: u8 where [enum_value]: "MASK_MANUAL_GAIN_CONTROL = 0x80"
definition REG_DEMOD_DETECTION :: u16 where [enum_value]: "REG_DEMOD_DETECTION = 0x0895"
definition MASK_DEMOD_DETECTION :: u8 where [enum_value]: "MASK_DEMOD_DETECTION = 0xFE"
definition REG_MANUAL_GAIN_VALUE :: u16 where [enum_value]: "REG_MANUAL_GAIN_VALUE = 0x089E"
definition MASK_MANUAL_GAIN_VALUE :: u8 where [enum_value]: "MASK_MANUAL_GAIN_VALUE = 0xF0"
definition XTAL_FREQ :: nat where [enum_value]: "XTAL_FREQ = 52000000"

section \<open>Enumerations\<close>

datatype (plugins only: code size) RadioOperatingModes_t = MODE_SLEEP | MODE_CALIBRATION
    | MODE_STDBY_RC | MODE_STDBY_XOSC | MODE_FS | MODE_RX | MODE_TX | MODE_CAD

datatype (plugins only: code size) RadioStandbyModes_t = STDBY_RC | STDBY_XOSC
primrec RadioStandbyModes_value :: "RadioStandbyModes_t \<Rightarrow> u8" where
  "RadioStandbyModes_value STDBY_RC = 0x00"
| "RadioStandbyModes_value STDBY_XOSC = 0x01"

datatype (plugins only: code size) RadioRegulatorModes_t = USE_LDO | USE_DCDC
primrec RadioRegulatorModes_value :: "RadioRegulatorModes_t \<Rightarrow> u8" where
  "RadioRegulatorModes_value USE_LDO = 0x00"
| "RadioRegulatorModes_value USE_DCDC = 0x01"

datatype (plugins only: code size) RadioPacketTypes_t = PACKET_TYPE_GFSK | PACKET_TYPE_LORA
    | PACKET_TYPE_RANGING | PACKET_TYPE_FLRC | PACKET_TYPE_BLE | PACKET_TYPE_NONE
    | PACKET_TYPE_RAW u8
primrec RadioPacketTypes_value :: "RadioPacketTypes_t \<Rightarrow> u8" where
  "RadioPacketTypes_value PACKET_TYPE_GFSK = 0x00"
| "RadioPacketTypes_value PACKET_TYPE_LORA = 0x01"
| "RadioPacketTypes_value PACKET_TYPE_RANGING = 0x02"
| "RadioPacketTypes_value PACKET_TYPE_FLRC = 0x03"
| "RadioPacketTypes_value PACKET_TYPE_BLE = 0x04"
| "RadioPacketTypes_value PACKET_TYPE_NONE = 0x0F"
| "RadioPacketTypes_value (PACKET_TYPE_RAW b) = b"

datatype (plugins only: code size) RadioRampTimes_t = RADIO_RAMP_02_US | RADIO_RAMP_04_US
    | RADIO_RAMP_06_US | RADIO_RAMP_08_US | RADIO_RAMP_10_US | RADIO_RAMP_12_US
    | RADIO_RAMP_16_US | RADIO_RAMP_20_US
primrec RadioRampTimes_value :: "RadioRampTimes_t \<Rightarrow> u8" where
  "RadioRampTimes_value RADIO_RAMP_02_US = 0x00"
| "RadioRampTimes_value RADIO_RAMP_04_US = 0x20"
| "RadioRampTimes_value RADIO_RAMP_06_US = 0x40"
| "RadioRampTimes_value RADIO_RAMP_08_US = 0x60"
| "RadioRampTimes_value RADIO_RAMP_10_US = 0x80"
| "RadioRampTimes_value RADIO_RAMP_12_US = 0xA0"
| "RadioRampTimes_value RADIO_RAMP_16_US = 0xC0"
| "RadioRampTimes_value RADIO_RAMP_20_US = 0xE0"

datatype (plugins only: code size) RadioLoRaCadSymbols_t = LORA_CAD_01_SYMBOL
    | LORA_CAD_02_SYMBOLS | LORA_CAD_04_SYMBOLS | LORA_CAD_08_SYMBOLS | LORA_CAD_16_SYMBOLS
primrec RadioLoRaCadSymbols_value :: "RadioLoRaCadSymbols_t \<Rightarrow> u8" where
  "RadioLoRaCadSymbols_value LORA_CAD_01_SYMBOL = 0x00"
| "RadioLoRaCadSymbols_value LORA_CAD_02_SYMBOLS = 0x20"
| "RadioLoRaCadSymbols_value LORA_CAD_04_SYMBOLS = 0x40"
| "RadioLoRaCadSymbols_value LORA_CAD_08_SYMBOLS = 0x60"
| "RadioLoRaCadSymbols_value LORA_CAD_16_SYMBOLS = 0x80"

datatype (plugins only: code size) RadioGfskBleBitrates_t = GFSK_BLE_BR_2_000_BW_2_4
    | GFSK_BLE_BR_1_600_BW_2_4 | GFSK_BLE_BR_1_000_BW_2_4 | GFSK_BLE_BR_1_000_BW_1_2
    | GFSK_BLE_BR_0_800_BW_2_4 | GFSK_BLE_BR_0_800_BW_1_2 | GFSK_BLE_BR_0_500_BW_1_2
    | GFSK_BLE_BR_0_500_BW_0_6 | GFSK_BLE_BR_0_400_BW_1_2 | GFSK_BLE_BR_0_400_BW_0_6
    | GFSK_BLE_BR_0_250_BW_0_6 | GFSK_BLE_BR_0_250_BW_0_3 | GFSK_BLE_BR_0_125_BW_0_3
    | GFSK_BLE_BR_RAW u8
primrec RadioGfskBleBitrates_value :: "RadioGfskBleBitrates_t \<Rightarrow> u8" where
  "RadioGfskBleBitrates_value GFSK_BLE_BR_2_000_BW_2_4 = 0x04"
| "RadioGfskBleBitrates_value GFSK_BLE_BR_1_600_BW_2_4 = 0x28"
| "RadioGfskBleBitrates_value GFSK_BLE_BR_1_000_BW_2_4 = 0x4C"
| "RadioGfskBleBitrates_value GFSK_BLE_BR_1_000_BW_1_2 = 0x45"
| "RadioGfskBleBitrates_value GFSK_BLE_BR_0_800_BW_2_4 = 0x70"
| "RadioGfskBleBitrates_value GFSK_BLE_BR_0_800_BW_1_2 = 0x69"
| "RadioGfskBleBitrates_value GFSK_BLE_BR_0_500_BW_1_2 = 0x8D"
| "RadioGfskBleBitrates_value GFSK_BLE_BR_0_500_BW_0_6 = 0x86"
| "RadioGfskBleBitrates_value GFSK_BLE_BR_0_400_BW_1_2 = 0xB1"
| "RadioGfskBleBitrates_value GFSK_BLE_BR_0_400_BW_0_6 = 0xAA"
| "RadioGfskBleBitrates_value GFSK_BLE_BR_0_250_BW_0_6 = 0xCE"
| "RadioGfskBleBitrates_value GFSK_BLE_BR_0_250_BW_0_3 = 0xC7"
| "RadioGfskBleBitrates_value GFSK_BLE_BR_0_125_BW_0_3 = 0xEF"
| "RadioGfskBleBitrates_value (GFSK_BLE_BR_RAW b) = b"

datatype (plugins only: code size) RadioGfskBleModIndexes_t = GFSK_BLE_MOD_IND_0_35
    | GFSK_BLE_MOD_IND_0_50 | GFSK_BLE_MOD_IND_0_75 | GFSK_BLE_MOD_IND_1_00
    | GFSK_BLE_MOD_IND_1_25 | GFSK_BLE_MOD_IND_1_50 | GFSK_BLE_MOD_IND_1_75
    | GFSK_BLE_MOD_IND_2_00 | GFSK_BLE_MOD_IND_2_25 | GFSK_BLE_MOD_IND_2_50
    | GFSK_BLE_MOD_IND_2_75 | GFSK_BLE_MOD_IND_3_00 | GFSK_BLE_MOD_IND_3_25
    | GFSK_BLE_MOD_IND_3_50 | GFSK_BLE_MOD_IND_3_75 | GFSK_BLE_MOD_IND_4_00
primrec RadioGfskBleModIndexes_value :: "RadioGfskBleModIndexes_t \<Rightarrow> u8" where
  "RadioGfskBleModIndexes_value GFSK_BLE_MOD_IND_0_35 = 0x00"
| "RadioGfskBleModIndexes_value GFSK_BLE_MOD_IND_0_50 = 0x01"
| "RadioGfskBleModIndexes_value GFSK_BLE_MOD_IND_0_75 = 0x02"
| "RadioGfskBleModIndexes_value GFSK_BLE_MOD_IND_1_00 = 0x03"
| "RadioGfskBleModIndexes_value GFSK_BLE_MOD_IND_1_25 = 0x04"
| "RadioGfskBleModIndexes_value GFSK_BLE_MOD_IND_1_50 = 0x05"
| "RadioGfskBleModIndexes_value GFSK_BLE_MOD_IND_1_75 = 0x06"
| "RadioGfskBleModIndexes_value GFSK_BLE_MOD_IND_2_00 = 0x07"
| "RadioGfskBleModIndexes_value GFSK_BLE_MOD_IND_2_25 = 0x08"
| "RadioGfskBleModIndexes_value GFSK_BLE_MOD_IND_2_50 = 0x09"
| "RadioGfskBleModIndexes_value GFSK_BLE_MOD_IND_2_75 = 0x0A"
| "RadioGfskBleModIndexes_value GFSK_BLE_MOD_IND_3_00 = 0x0B"
| "RadioGfskBleModIndexes_value GFSK_BLE_MOD_IND_3_25 = 0x0C"
| "RadioGfskBleModIndexes_value GFSK_BLE_MOD_IND_3_50 = 0x0D"
| "RadioGfskBleModIndexes_value GFSK_BLE_MOD_IND_3_75 = 0x0E"
| "RadioGfskBleModIndexes_value GFSK_BLE_MOD_IND_4_00 = 0x0F"

datatype (plugins only: code size) RadioFlrcBitrates_t = FLRC_BR_1_300_BW_1_2
    | FLRC_BR_1_040_BW_1_2 | FLRC_BR_0_650_BW_0_6 | FLRC_BR_0_520_BW_0_6 | FLRC_BR_0_325_BW_0_3
    | FLRC_BR_0_260_BW_0_3 | FLRC_BR_RAW u8
primrec RadioFlrcBitrates_value :: "RadioFlrcBitrates_t \<Rightarrow> u8" where
  "RadioFlrcBitrates_value FLRC_BR_1_300_BW_1_2 = 0x45"
| "RadioFlrcBitrates_value FLRC_BR_1_040_BW_1_2 = 0x69"
| "RadioFlrcBitrates_value FLRC_BR_0_650_BW_0_6 = 0x86"
| "RadioFlrcBitrates_value FLRC_BR_0_520_BW_0_6 = 0xAA"
| "RadioFlrcBitrates_value FLRC_BR_0_325_BW_0_3 = 0xC7"
| "RadioFlrcBitrates_value FLRC_BR_0_260_BW_0_3 = 0xEB"
| "RadioFlrcBitrates_value (FLRC_BR_RAW b) = b"

datatype (plugins only: code size) RadioFlrcCodingRates_t = FLRC_CR_1_2 | FLRC_CR_3_4
    | FLRC_CR_1_0
primrec RadioFlrcCodingRates_value :: "RadioFlrcCodingRates_t \<Rightarrow> u8" where
  "RadioFlrcCodingRates_value FLRC_CR_1_2 = 0x00"
| "RadioFlrcCodingRates_value FLRC_CR_3_4 = 0x02"
| "RadioFlrcCodingRates_value FLRC_CR_1_0 = 0x04"

datatype (plugins only: code size) RadioModShapings_t = RADIO_MOD_SHAPING_BT_OFF
    | RADIO_MOD_SHAPING_BT_1_0 | RADIO_MOD_SHAPING_BT_0_5
primrec RadioModShapings_value :: "RadioModShapings_t \<Rightarrow> u8" where
  "RadioModShapings_value RADIO_MOD_SHAPING_BT_OFF = 0x00"
| "RadioModShapings_value RADIO_MOD_SHAPING_BT_1_0 = 0x10"
| "RadioModShapings_value RADIO_MOD_SHAPING_BT_0_5 = 0x20"

datatype (plugins only: code size) RadioLoRaSpreadingFactors_t = LORA_SF5 | LORA_SF6 | LORA_SF7
    | LORA_SF8 | LORA_SF9 | LORA_SF10 | LORA_SF11 | LORA_SF12 | LORA_SF_RAW u8
primrec RadioLoRaSpreadingFactors_value :: "RadioLoRaSpreadingFactors_t \<Rightarrow> u8" where
  "RadioLoRaSpreadingFactors_value LORA_SF5 = 0x50"
| "RadioLoRaSpreadingFactors_value LORA_SF6 = 0x60"
| "RadioLoRaSpreadingFactors_value LORA_SF7 = 0x70"
| "RadioLoRaSpreadingFactors_value LORA_SF8 = 0x80"
| "RadioLoRaSpreadingFactors_value LORA_SF9 = 0x90"
| "RadioLoRaSpreadingFactors_value LORA_SF10 = 0xA0"
| "RadioLoRaSpreadingFactors_value LORA_SF11 = 0xB0"
| "RadioLoRaSpreadingFactors_value LORA_SF12 = 0xC0"
| "RadioLoRaSpreadingFactors_value (LORA_SF_RAW b) = b"

datatype (plugins only: code size) RadioLoRaBandwidths_t = LORA_BW_0200 | LORA_BW_0400
    | LORA_BW_0800 | LORA_BW_1600 | LORA_BW_RAW u8
primrec RadioLoRaBandwidths_value :: "RadioLoRaBandwidths_t \<Rightarrow> u8" where
  "RadioLoRaBandwidths_value LORA_BW_0200 = 0x34"
| "RadioLoRaBandwidths_value LORA_BW_0400 = 0x26"
| "RadioLoRaBandwidths_value LORA_BW_0800 = 0x18"
| "RadioLoRaBandwidths_value LORA_BW_1600 = 0x0A"
| "RadioLoRaBandwidths_value (LORA_BW_RAW b) = b"

datatype (plugins only: code size) RadioLoRaCodingRates_t = LORA_CR_4_5 | LORA_CR_4_6
    | LORA_CR_4_7 | LORA_CR_4_8 | LORA_CR_LI_4_5 | LORA_CR_LI_4_6 | LORA_CR_LI_4_7
    | LORA_CR_RAW u8
primrec RadioLoRaCodingRates_value :: "RadioLoRaCodingRates_t \<Rightarrow> u8" where
  "RadioLoRaCodingRates_value LORA_CR_4_5 = 0x01"
| "RadioLoRaCodingRates_value LORA_CR_4_6 = 0x02"
| "RadioLoRaCodingRates_value LORA_CR_4_7 = 0x03"
| "RadioLoRaCodingRates_value LORA_CR_4_8 = 0x04"
| "RadioLoRaCodingRates_value LORA_CR_LI_4_5 = 0x05"
| "RadioLoRaCodingRates_value LORA_CR_LI_4_6 = 0x06"
| "RadioLoRaCodingRates_value LORA_CR_LI_4_7 = 0x07"
| "RadioLoRaCodingRates_value (LORA_CR_RAW b) = b"

datatype (plugins only: code size) RadioPreambleLengths_t = PREAMBLE_LENGTH_04_BITS
    | PREAMBLE_LENGTH_08_BITS | PREAMBLE_LENGTH_12_BITS | PREAMBLE_LENGTH_16_BITS
    | PREAMBLE_LENGTH_20_BITS | PREAMBLE_LENGTH_24_BITS | PREAMBLE_LENGTH_28_BITS
    | PREAMBLE_LENGTH_32_BITS
primrec RadioPreambleLengths_value :: "RadioPreambleLengths_t \<Rightarrow> u8" where
  "RadioPreambleLengths_value PREAMBLE_LENGTH_04_BITS = 0x00"
| "RadioPreambleLengths_value PREAMBLE_LENGTH_08_BITS = 0x10"
| "RadioPreambleLengths_value PREAMBLE_LENGTH_12_BITS = 0x20"
| "RadioPreambleLengths_value PREAMBLE_LENGTH_16_BITS = 0x30"
| "RadioPreambleLengths_value PREAMBLE_LENGTH_20_BITS = 0x40"
| "RadioPreambleLengths_value PREAMBLE_LENGTH_24_BITS = 0x50"
| "RadioPreambleLengths_value PREAMBLE_LENGTH_28_BITS = 0x60"
| "RadioPreambleLengths_value PREAMBLE_LENGTH_32_BITS = 0x70"

datatype (plugins only: code size) RadioFlrcSyncWordLengths_t = FLRC_NO_SYNCWORD
    | FLRC_SYNCWORD_LENGTH_4_BYTE
primrec RadioFlrcSyncWordLengths_value :: "RadioFlrcSyncWordLengths_t \<Rightarrow> u8" where
  "RadioFlrcSyncWordLengths_value FLRC_NO_SYNCWORD = 0x00"
| "RadioFlrcSyncWordLengths_value FLRC_SYNCWORD_LENGTH_4_BYTE = 0x04"

datatype (plugins only: code size) RadioSyncWordLengths_t = GFSK_SYNCWORD_LENGTH_1_BYTE
    | GFSK_SYNCWORD_LENGTH_2_BYTE | GFSK_SYNCWORD_LENGTH_3_BYTE | GFSK_SYNCWORD_LENGTH_4_BYTE
    | GFSK_SYNCWORD_LENGTH_5_BYTE
primrec RadioSyncWordLengths_value :: "RadioSyncWordLengths_t \<Rightarrow> u8" where
  "RadioSyncWordLengths_value GFSK_SYNCWORD_LENGTH_1_BYTE = 0x00"
| "RadioSyncWordLengths_value GFSK_SYNCWORD_LENGTH_2_BYTE = 0x02"
| "RadioSyncWordLengths_value GFSK_SYNCWORD_LENGTH_3_BYTE = 0x04"
| "RadioSyncWordLengths_value GFSK_SYNCWORD_LENGTH_4_BYTE = 0x06"
| "RadioSyncWordLengths_value GFSK_SYNCWORD_LENGTH_5_BYTE = 0x08"

datatype (plugins only: code size) RadioSyncWordRxMatchs_t = RADIO_RX_MATCH_SYNCWORD_OFF
    | RADIO_RX_MATCH_SYNCWORD_1 | RADIO_RX_MATCH_SYNCWORD_2 | RADIO_RX_MATCH_SYNCWORD_1_2
    | RADIO_RX_MATCH_SYNCWORD_3 | RADIO_RX_MATCH_SYNCWORD_1_3 | RADIO_RX_MATCH_SYNCWORD_2_3
    | RADIO_RX_MATCH_SYNCWORD_1_2_3
primrec RadioSyncWordRxMatchs_value :: "RadioSyncWordRxMatchs_t \<Rightarrow> u8" where
  "RadioSyncWordRxMatchs_value RADIO_RX_MATCH_SYNCWORD_OFF = 0x00"
| "RadioSyncWordRxMatchs_value RADIO_RX_MATCH_SYNCWORD_1 = 0x10"
| "RadioSyncWordRxMatchs_value RADIO_RX_MATCH_SYNCWORD_2 = 0x20"
| "RadioSyncWordRxMatchs_value RADIO_RX_MATCH_SYNCWORD_1_2 = 0x30"
| "RadioSyncWordRxMatchs_value RADIO_RX_MATCH_SYNCWORD_3 = 0x40"
| "RadioSyncWordRxMatchs_value RADIO_RX_MATCH_SYNCWORD_1_3 = 0x50"
| "RadioSyncWordRxMatchs_value RADIO_RX_MATCH_SYNCWORD_2_3 = 0x60"
| "RadioSyncWordRxMatchs_value RADIO_RX_MATCH_SYNCWORD_1_2_3 = 0x70"

datatype (plugins only: code size) RadioPacketLengthModes_t = RADIO_PACKET_FIXED_LENGTH
    | RADIO_PACKET_VARIABLE_LENGTH
primrec RadioPacketLengthModes_value :: "RadioPacketLengthModes_t \<Rightarrow> u8" where
  "RadioPacketLengthModes_value RADIO_PACKET_FIXED_LENGTH = 0x00"
| "RadioPacketLengthModes_value RADIO_PACKET_VARIABLE_LENGTH = 0x20"

datatype (plugins only: code size) RadioCrcTypes_t = RADIO_CRC_OFF | RADIO_CRC_1_BYTES
    | RADIO_CRC_2_BYTES | RADIO_CRC_3_BYTES
primrec RadioCrcTypes_value :: "RadioCrcTypes_t \<Rightarrow> u8" where
  "RadioCrcTypes_value RADIO_CRC_OFF = 0x00"
| "RadioCrcTypes_value RADIO_CRC_1_BYTES = 0x10"
| "RadioCrcTypes_value RADIO_CRC_2_BYTES = 0x20"
| "RadioCrcTypes_value RADIO_CRC_3_BYTES = 0x30"

datatype (plugins only: code size) RadioWhiteningModes_t = RADIO_WHITENING_ON
    | RADIO_WHITENING_OFF
primrec RadioWhiteningModes_value :: "RadioWhiteningModes_t \<Rightarrow> u8" where
  "RadioWhiteningModes_value RADIO_WHITENING_ON = 0x00"
| "RadioWhiteningModes_value RADIO_WHITENING_OFF = 0x08"

datatype (plugins only: code size) RadioLoRaPacketLengthsModes_t = LORA_PACKET_VARIABLE_LENGTH
    | LORA_PACKET_FIXED_LENGTH
primrec RadioLoRaPacketLengthsModes_value :: "RadioLoRaPacketLengthsModes_t \<Rightarrow> u8" where
  "RadioLoRaPacketLengthsModes_value LORA_PACKET_VARIABLE_LENGTH = 0x00"
| "RadioLoRaPacketLengthsModes_value LORA_PACKET_FIXED_LENGTH = 0x80"

datatype (plugins only: code size) RadioLoRaCrcModes_t = LORA_CRC_ON | LORA_CRC_OFF
primrec RadioLoRaCrcModes_value :: "RadioLoRaCrcModes_t \<Rightarrow> u8" where
  "RadioLoRaCrcModes_value LORA_CRC_ON = 0x20"
| "RadioLoRaCrcModes_value LORA_CRC_OFF = 0x00"

datatype (plugins only: code size) RadioLoRaIQModes_t = LORA_IQ_NORMAL | LORA_IQ_INVERTED
primrec RadioLoRaIQModes_value :: "RadioLoRaIQModes_t \<Rightarrow> u8" where
  "RadioLoRaIQModes_value LORA_IQ_NORMAL = 0x40"
| "RadioLoRaIQModes_value LORA_IQ_INVERTED = 0x00"

datatype (plugins only: code size) RadioRangingIdCheckLengths_t = RANGING_IDCHECK_LENGTH_08_BITS
    | RANGING_IDCHECK_LENGTH_16_BITS | RANGING_IDCHECK_LENGTH_24_BITS
    | RANGING_IDCHECK_LENGTH_32_BITS
primrec RadioRangingIdCheckLengths_value :: "RadioRangingIdCheckLengths_t \<Rightarrow> u8" where
  "RadioRangingIdCheckLengths_value RANGING_IDCHECK_LENGTH_08_BITS = 0x00"
| "RadioRangingIdCheckLengths_value RANGING_IDCHECK_LENGTH_16_BITS = 0x01"
| "RadioRangingIdCheckLengths_value RANGING_IDCHECK_LENGTH_24_BITS = 0x02"
| "RadioRangingIdCheckLengths_value RANGING_IDCHECK_LENGTH_32_BITS = 0x03"

datatype (plugins only: code size) RadioRangingResultTypes_t = RANGING_RESULT_RAW
    | RANGING_RESULT_AVERAGED | RANGING_RESULT_DEBIASED | RANGING_RESULT_FILTERED
primrec RadioRangingResultTypes_value :: "RadioRangingResultTypes_t \<Rightarrow> u8" where
  "RadioRangingResultTypes_value RANGING_RESULT_RAW = 0x00"
| "RadioRangingResultTypes_value RANGING_RESULT_AVERAGED = 0x01"
| "RadioRangingResultTypes_value RANGING_RESULT_DEBIASED = 0x02"
| "RadioRangingResultTypes_value RANGING_RESULT_FILTERED = 0x03"

datatype (plugins only: code size) RadioBleConnectionStates_t = BLE_PAYLOAD_LENGTH_MAX_31_BYTES
    | BLE_PAYLOAD_LENGTH_MAX_37_BYTES | BLE_TX_TEST_MODE | BLE_PAYLOAD_LENGTH_MAX_255_BYTES
primrec RadioBleConnectionStates_value :: "RadioBleConnectionStates_t \<Rightarrow> u8" where
  "RadioBleConnectionStates_value BLE_PAYLOAD_LENGTH_MAX_31_BYTES = 0x00"
| "RadioBleConnectionStates_value BLE_PAYLOAD_LENGTH_MAX_37_BYTES = 0x20"
| "RadioBleConnectionStates_value BLE_TX_TEST_MODE = 0x40"
| "RadioBleConnectionStates_value BLE_PAYLOAD_LENGTH_MAX_255_BYTES = 0x80"

datatype (plugins only: code size) RadioBleCrcTypes_t = BLE_CRC_OFF | BLE_CRC_3B
primrec RadioBleCrcTypes_value :: "RadioBleCrcTypes_t \<Rightarrow> u8" where
  "RadioBleCrcTypes_value BLE_CRC_OFF = 0x00"
| "RadioBleCrcTypes_value BLE_CRC_3B = 0x10"

datatype (plugins only: code size) RadioBleTestPayloads_t = BLE_PRBS_9 | BLE_PRBS_15
    | BLE_EYELONG_1_0 | BLE_EYELONG_0_1 | BLE_EYESHORT_1_0 | BLE_EYESHORT_0_1 | BLE_ALL_1
    | BLE_ALL_0
primrec RadioBleTestPayloads_value :: "RadioBleTestPayloads_t \<Rightarrow> u8" where
  "RadioBleTestPayloads_value BLE_PRBS_9 = 0x00"
| "RadioBleTestPayloads_value BLE_PRBS_15 = 0x0C"
| "RadioBleTestPayloads_value BLE_EYELONG_1_0 = 0x04"
| "RadioBleTestPayloads_value BLE_EYELONG_0_1 = 0x18"
| "RadioBleTestPayloads_value BLE_EYESHORT_1_0 = 0x08"
| "RadioBleTestPayloads_value BLE_EYESHORT_0_1 = 0x1C"
| "RadioBleTestPayloads_value BLE_ALL_1 = 0x10"
| "RadioBleTestPayloads_value BLE_ALL_0 = 0x14"

datatype (plugins only: code size) RadioIrqMasks_t = IRQ_RADIO_NONE | IRQ_TX_DONE | IRQ_RX_DONE
    | IRQ_SYNCWORD_VALID | IRQ_SYNCWORD_ERROR | IRQ_HEADER_VALID | IRQ_HEADER_ERROR
    | IRQ_CRC_ERROR | IRQ_RANGING_SLAVE_RESPONSE_DONE | IRQ_RANGING_SLAVE_REQUEST_DISCARDED
    | IRQ_RANGING_MASTER_RESULT_VALID | IRQ_RANGING_MASTER_TIMEOUT
    | IRQ_RANGING_SLAVE_REQUEST_VALID | IRQ_CAD_DONE | IRQ_CAD_DETECTED | IRQ_RX_TX_TIMEOUT
    | IRQ_PREAMBLE_DETECTED | IRQ_RADIO_ALL
primrec RadioIrqMasks_value :: "RadioIrqMasks_t \<Rightarrow> u16" where
  "RadioIrqMasks_value IRQ_RADIO_NONE = 0x0000"
| "RadioIrqMasks_value IRQ_TX_DONE = 0x0001"
| "RadioIrqMasks_value IRQ_RX_DONE = 0x0002"
| "RadioIrqMasks_value IRQ_SYNCWORD_VALID = 0x0004"
| "RadioIrqMasks_value IRQ_SYNCWORD_ERROR = 0x0008"
| "RadioIrqMasks_value IRQ_HEADER_VALID = 0x0010"
| "RadioIrqMasks_value IRQ_HEADER_ERROR = 0x0020"
| "RadioIrqMasks_value IRQ_CRC_ERROR = 0x0040"
| "RadioIrqMasks_value IRQ_RANGING_SLAVE_RESPONSE_DONE = 0x0080"
| "RadioIrqMasks_value IRQ_RANGING_SLAVE_REQUEST_DISCARDED = 0x0100"
| "RadioIrqMasks_value IRQ_RANGING_MASTER_RESULT_VALID = 0x0200"
| "RadioIrqMasks_value IRQ_RANGING_MASTER_TIMEOUT = 0x0400"
| "RadioIrqMasks_value IRQ_RANGING_SLAVE_REQUEST_VALID = 0x0800"
| "RadioIrqMasks_value IRQ_CAD_DONE = 0x1000"
| "RadioIrqMasks_value IRQ_CAD_DETECTED = 0x2000"
| "RadioIrqMasks_value IRQ_RX_TX_TIMEOUT = 0x4000"
| "RadioIrqMasks_value IRQ_PREAMBLE_DETECTED = 0x8000"
| "RadioIrqMasks_value IRQ_RADIO_ALL = 0xFFFF"

datatype (plugins only: code size) RadioTickSizes_t = RADIO_TICK_SIZE_0015_US
    | RADIO_TICK_SIZE_0062_US | RADIO_TICK_SIZE_1000_US | RADIO_TICK_SIZE_4000_US
primrec RadioTickSizes_value :: "RadioTickSizes_t \<Rightarrow> u8" where
  "RadioTickSizes_value RADIO_TICK_SIZE_0015_US = 0x00"
| "RadioTickSizes_value RADIO_TICK_SIZE_0062_US = 0x01"
| "RadioTickSizes_value RADIO_TICK_SIZE_1000_US = 0x02"
| "RadioTickSizes_value RADIO_TICK_SIZE_4000_US = 0x03"

datatype (plugins only: code size) RadioRangingRoles_t = RADIO_RANGING_ROLE_SLAVE
    | RADIO_RANGING_ROLE_MASTER
primrec RadioRangingRoles_value :: "RadioRangingRoles_t \<Rightarrow> u8" where
  "RadioRangingRoles_value RADIO_RANGING_ROLE_SLAVE = 0x00"
| "RadioRangingRoles_value RADIO_RANGING_ROLE_MASTER = 0x01"

datatype (plugins only: code size) RadioLnaSettings_t = LNA_LOW_POWER_MODE
    | LNA_HIGH_SENSITIVITY_MODE

datatype (plugins only: code size) IrqRangingCode_t = IRQ_RANGING_SLAVE_ERROR_CODE
    | IRQ_RANGING_SLAVE_VALID_CODE | IRQ_RANGING_MASTER_ERROR_CODE
    | IRQ_RANGING_MASTER_VALID_CODE

datatype (plugins only: code size) IrqErrorCode_t = IRQ_HEADER_ERROR_CODE
    | IRQ_SYNCWORD_ERROR_CODE | IRQ_CRC_ERROR_CODE | IRQ_RANGING_ON_LORA_ERROR_CODE

datatype (plugins only: code size) RadioCommands_t = RADIO_GET_STATUS | RADIO_WRITE_REGISTER
    | RADIO_READ_REGISTER | RADIO_WRITE_BUFFER | RADIO_READ_BUFFER | RADIO_SET_SLEEP
    | RADIO_SET_STANDBY | RADIO_SET_FS | RADIO_SET_TX | RADIO_SET_RX | RADIO_SET_RXDUTYCYCLE
    | RADIO_SET_CAD | RADIO_SET_TXCONTINUOUSWAVE | RADIO_SET_TXCONTINUOUSPREAMBLE
    | RADIO_SET_PACKETTYPE | RADIO_GET_PACKETTYPE | RADIO_SET_RFFREQUENCY | RADIO_SET_TXPARAMS
    | RADIO_SET_CADPARAMS | RADIO_SET_BUFFERBASEADDRESS | RADIO_SET_MODULATIONPARAMS
    | RADIO_SET_PACKETPARAMS | RADIO_GET_RXBUFFERSTATUS | RADIO_GET_PACKETSTATUS
    | RADIO_GET_RSSIINST | RADIO_SET_DIOIRQPARAMS | RADIO_GET_IRQSTATUS | RADIO_CLR_IRQSTATUS
    | RADIO_CALIBRATE | RADIO_SET_REGULATORMODE | RADIO_SET_SAVECONTEXT | RADIO_SET_AUTOTX
    | RADIO_SET_AUTOFS | RADIO_SET_LONGPREAMBLE | RADIO_SET_UARTSPEED | RADIO_SET_RANGING_ROLE
primrec RadioCommands_value :: "RadioCommands_t \<Rightarrow> u8" where
  "RadioCommands_value RADIO_GET_STATUS = 0xC0"
| "RadioCommands_value RADIO_WRITE_REGISTER = 0x18"
| "RadioCommands_value RADIO_READ_REGISTER = 0x19"
| "RadioCommands_value RADIO_WRITE_BUFFER = 0x1A"
| "RadioCommands_value RADIO_READ_BUFFER = 0x1B"
| "RadioCommands_value RADIO_SET_SLEEP = 0x84"
| "RadioCommands_value RADIO_SET_STANDBY = 0x80"
| "RadioCommands_value RADIO_SET_FS = 0xC1"
| "RadioCommands_value RADIO_SET_TX = 0x83"
| "RadioCommands_value RADIO_SET_RX = 0x82"
| "RadioCommands_value RADIO_SET_RXDUTYCYCLE = 0x94"
| "RadioCommands_value RADIO_SET_CAD = 0xC5"
| "RadioCommands_value RADIO_SET_TXCONTINUOUSWAVE = 0xD1"
| "RadioCommands_value RADIO_SET_TXCONTINUOUSPREAMBLE = 0xD2"
| "RadioCommands_value RADIO_SET_PACKETTYPE = 0x8A"
| "RadioCommands_value RADIO_GET_PACKETTYPE = 0x03"
| "RadioCommands_value RADIO_SET_RFFREQUENCY = 0x86"
| "RadioCommands_value RADIO_SET_TXPARAMS = 0x8E"
| "RadioCommands_value RADIO_SET_CADPARAMS = 0x88"
| "RadioCommands_value RADIO_SET_BUFFERBASEADDRESS = 0x8F"
| "RadioCommands_value RADIO_SET_MODULATIONPARAMS = 0x8B"
| "RadioCommands_value RADIO_SET_PACKETPARAMS = 0x8C"
| "RadioCommands_value RADIO_GET_RXBUFFERSTATUS = 0x17"
| "RadioCommands_value RADIO_GET_PACKETSTATUS = 0x1D"
| "RadioCommands_value RADIO_GET_RSSIINST = 0x1F"
| "RadioCommands_value RADIO_SET_DIOIRQPARAMS = 0x8D"
| "RadioCommands_value RADIO_GET_IRQSTATUS = 0x15"
| "RadioCommands_value RADIO_CLR_IRQSTATUS = 0x97"
| "RadioCommands_value RADIO_CALIBRATE = 0x89"
| "RadioCommands_value RADIO_SET_REGULATORMODE = 0x96"
| "RadioCommands_value RADIO_SET_SAVECONTEXT = 0xD5"
| "RadioCommands_value RADIO_SET_AUTOTX = 0x98"
| "RadioCommands_value RADIO_SET_AUTOFS = 0x9E"
| "RadioCommands_value RADIO_SET_LONGPREAMBLE = 0x9B"
| "RadioCommands_value RADIO_SET_UARTSPEED = 0x9D"
| "RadioCommands_value RADIO_SET_RANGING_ROLE = 0xA3"

datatype (plugins only: code size) GpioPinFunction_t = GPIO_PIN_RESET | GPIO_PIN_BUSY
    | GPIO_PIN_DIO1 | GPIO_PIN_DIO2 | GPIO_PIN_DIO3
text \<open>The byte read back from the chip as a packet type: an enumerator where one has that value.\<close>

definition packet_type_of_byte :: "u8 \<Rightarrow> RadioPacketTypes_t" where
  "packet_type_of_byte b =
     (if b = 0x00 then PACKET_TYPE_GFSK else if b = 0x01 then PACKET_TYPE_LORA
      else if b = 0x02 then PACKET_TYPE_RANGING else if b = 0x03 then PACKET_TYPE_FLRC
      else if b = 0x04 then PACKET_TYPE_BLE else if b = 0x0F then PACKET_TYPE_NONE
      else PACKET_TYPE_RAW b)"

section \<open>Structs\<close>

record TickTime_t =
  PeriodBase :: RadioTickSizes_t
  PeriodBaseCount :: u16

subsection \<open>Modulation parameters\<close>

record GfskModulation =
  mod_Gfsk_BitrateBandwidth :: RadioGfskBleBitrates_t
  mod_Gfsk_ModulationIndex :: RadioGfskBleModIndexes_t
  mod_Gfsk_ModulationShaping :: RadioModShapings_t

record LoRaModulation =
  mod_LoRa_SpreadingFactor :: RadioLoRaSpreadingFactors_t
  mod_LoRa_Bandwidth :: RadioLoRaBandwidths_t
  mod_LoRa_CodingRate :: RadioLoRaCodingRates_t

record FlrcModulation =
  mod_Flrc_BitrateBandwidth :: RadioFlrcBitrates_t
  mod_Flrc_CodingRate :: RadioFlrcCodingRates_t
  mod_Flrc_ModulationShaping :: RadioModShapings_t

record BleModulation =
  mod_Ble_BitrateBandwidth :: RadioGfskBleBitrates_t
  mod_Ble_ModulationIndex :: RadioGfskBleModIndexes_t
  mod_Ble_ModulationShaping :: RadioModShapings_t

record ModulationParams_t =
  mod_PacketType :: RadioPacketTypes_t
  mod_Gfsk :: GfskModulation
  mod_LoRa :: LoRaModulation
  mod_Flrc :: FlrcModulation
  mod_Ble :: BleModulation

text \<open>The value of \<^verbatim>\<open>ModulationParams_t{}\<close>: every byte zero.\<close>

definition ModulationParams_zero :: ModulationParams_t where
  "ModulationParams_zero =
     \<lparr>mod_PacketType = PACKET_TYPE_GFSK,
      mod_Gfsk = \<lparr>mod_Gfsk_BitrateBandwidth = GFSK_BLE_BR_RAW 0,
                  mod_Gfsk_ModulationIndex = GFSK_BLE_MOD_IND_0_35,
                  mod_Gfsk_ModulationShaping = RADIO_MOD_SHAPING_BT_OFF\<rparr>,
      mod_LoRa = \<lparr>mod_LoRa_SpreadingFactor = LORA_SF_RAW 0, mod_LoRa_Bandwidth = LORA_BW_RAW 0,
                  mod_LoRa_CodingRate = LORA_CR_RAW 0\<rparr>,
      mod_Flrc = \<lparr>mod_Flrc_BitrateBandwidth = FLRC_BR_RAW 0, mod_Flrc_CodingRate = FLRC_CR_1_2,
                  mod_Flrc_ModulationShaping = RADIO_MOD_SHAPING_BT_OFF\<rparr>,
      mod_Ble = \<lparr>mod_Ble_BitrateBandwidth = GFSK_BLE_BR_RAW 0,
                 mod_Ble_ModulationIndex = GFSK_BLE_MOD_IND_0_35,
                 mod_Ble_ModulationShaping = RADIO_MOD_SHAPING_BT_OFF\<rparr>\<rparr>"

subsection \<open>Packet parameters\<close>

record GfskPacket =
  pkt_Gfsk_PreambleLength :: RadioPreambleLengths_t
  pkt_Gfsk_SyncWordLength :: RadioSyncWordLengths_t
  pkt_Gfsk_SyncWordMatch :: RadioSyncWordRxMatchs_t
  pkt_Gfsk_HeaderType :: RadioPacketLengthModes_t
  pkt_Gfsk_PayloadLength :: u8
  pkt_Gfsk_CrcLength :: RadioCrcTypes_t
  pkt_Gfsk_Whitening :: RadioWhiteningModes_t

record LoRaPacket =
  pkt_LoRa_PreambleLength :: u8
  pkt_LoRa_HeaderType :: RadioLoRaPacketLengthsModes_t
  pkt_LoRa_PayloadLength :: u8
  pkt_LoRa_Crc :: RadioLoRaCrcModes_t
  pkt_LoRa_InvertIQ :: RadioLoRaIQModes_t

record FlrcPacket =
  pkt_Flrc_PreambleLength :: RadioPreambleLengths_t
  pkt_Flrc_SyncWordLength :: RadioFlrcSyncWordLengths_t
  pkt_Flrc_SyncWordMatch :: RadioSyncWordRxMatchs_t
  pkt_Flrc_HeaderType :: RadioPacketLengthModes_t
  pkt_Flrc_PayloadLength :: u8
  pkt_Flrc_CrcLength :: RadioCrcTypes_t
  pkt_Flrc_Whitening :: RadioWhiteningModes_t

record BlePacket =
  pkt_Ble_ConnectionState :: RadioBleConnectionStates_t
  pkt_Ble_CrcLength :: RadioBleCrcTypes_t
  pkt_Ble_BleTestPayload :: RadioBleTestPayloads_t
  pkt_Ble_Whitening :: RadioWhiteningModes_t

record PacketParams_t =
  pkt_PacketType :: RadioPacketTypes_t
  pkt_Gfsk :: GfskPacket
  pkt_LoRa :: LoRaPacket
  pkt_Flrc :: FlrcPacket
  pkt_Ble :: BlePacket

text \<open>The value of \<^verbatim>\<open>PacketParams_t{}\<close>: every byte zero.\<close>

definition PacketParams_zero :: PacketParams_t where
  "PacketParams_zero =
     \<lparr>pkt_PacketType = PACKET_TYPE_GFSK,
      pkt_Gfsk = \<lparr>pkt_Gfsk_PreambleLength = PREAMBLE_LENGTH_04_BITS,
                  pkt_Gfsk_SyncWordLength = GFSK_SYNCWORD_LENGTH_1_BYTE,
                  pkt_Gfsk_SyncWordMatch = RADIO_RX_MATCH_SYNCWORD_OFF,
                  pkt_Gfsk_HeaderType = RADIO_PACKET_FIXED_LENGTH, pkt_Gfsk_PayloadLength = 0,
                  pkt_Gfsk_CrcLength = RADIO_CRC_OFF, pkt_Gfsk_Whitening = RADIO_WHITENING_ON\<rparr>,
      pkt_LoRa = \<lparr>pkt_LoRa_PreambleLength = 0, pkt_LoRa_HeaderType = LORA_PACKET_VARIABLE_LENGTH,
                  pkt_LoRa_PayloadLength = 0, pkt_LoRa_Crc = LORA_CRC_OFF,
                  pkt_LoRa_InvertIQ = LORA_IQ_INVERTED\<rparr>,
      pkt_Flrc = \<lparr>pkt_Flrc_PreambleLength = PREAMBLE_LENGTH_04_BITS,
                  pkt_Flrc_SyncWordLength = FLRC_NO_SYNCWORD,
                  pkt_Flrc_SyncWordMatch = RADIO_RX_MATCH_SYNCWORD_OFF,
                  pkt_Flrc_HeaderType = RADIO_PACKET_FIXED_LENGTH, pkt_Flrc_PayloadLength = 0,
                  pkt_Flrc_CrcLength = RADIO_CRC_OFF, pkt_Flrc_Whitening = RADIO_WHITENING_ON\<rparr>,
      pkt_Ble = \<lparr>pkt_Ble_ConnectionState = BLE_PAYLOAD_LENGTH_MAX_31_BYTES,
                 pkt_Ble_CrcLength = BLE_CRC_OFF, pkt_Ble_BleTestPayload = BLE_PRBS_9,
                 pkt_Ble_Whitening = RADIO_WHITENING_ON\<rparr>\<rparr>"

subsection \<open>Packet status\<close>

text \<open>The error byte of the GFSK, FLRC and BLE status is the same bit field; signed RSSI and SNR
  bytes are kept as integers. The union of \<^verbatim>\<open>PacketStatus_t\<close> is a datatype: the member last written.\<close>

record ErrorStatus =
  SyncError :: bool
  LengthError :: bool
  CrcError :: bool
  AbortError :: bool
  HeaderReceived :: bool
  PacketReceived :: bool
  PacketControlerBusy :: bool

datatype PacketStatusBody =
    Gfsk_status (Gfsk_RssiSync: int) (Gfsk_ErrorStatus: ErrorStatus)
      (Gfsk_RxNoAck: bool) (Gfsk_PacketSent: bool) (Gfsk_SyncAddrStatus: u8)
  | LoRa_status (LoRa_RssiPkt: int) (LoRa_SnrPkt: int)
  | Flrc_status (Flrc_RssiSync: int) (Flrc_ErrorStatus: ErrorStatus)
      (Flrc_RxPid: u8) (Flrc_RxNoAck: bool) (Flrc_RxPidErr: bool) (Flrc_PacketSent: bool)
      (Flrc_SyncAddrStatus: u8)
  | Ble_status (Ble_RssiSync: int) (Ble_ErrorStatus: ErrorStatus) (Ble_PacketSent: bool)
      (Ble_SyncAddrStatus: u8)
  | Zeroed_status

record PacketStatus_t =
  ps_packetType :: RadioPacketTypes_t
  ps_body :: PacketStatusBody

definition PacketStatus_zero :: PacketStatus_t where
  "PacketStatus_zero = \<lparr>ps_packetType = PACKET_TYPE_GFSK, ps_body = Zeroed_status\<rparr>"

subsection \<open>Calibration, sleep and chip status\<close>

record CalibrationParams_t =
  RC64KEnable :: bool
  RC13MEnable :: bool
  PLLEnable :: bool
  ADCPulseEnable :: bool
  ADCBulkNEnable :: bool
  ADCBulkPEnable :: bool

record SleepParams_t =
  WakeUpRTC :: bool
  InstructionRamRetention :: bool
  DataBufferRetention :: bool
  DataRamRetention :: bool

text \<open>The union of the status byte and its bit fields: the byte, and the fields read from it.\<close>

record RadioStatus_t =
  status_Value :: u8

definition status_CpuBusy :: "RadioStatus_t \<Rightarrow> bool" where
  "status_CpuBusy st = bit (status_Value st) 0"

definition status_DmaBusy :: "RadioStatus_t \<Rightarrow> bool" where
  "status_DmaBusy st = bit (status_Value st) 1"

definition status_CmdStatus :: "RadioStatus_t \<Rightarrow> u8" where
  "status_CmdStatus st = drop_bit 2 (status_Value st) AND 0x07"

definition status_ChipMode :: "RadioStatus_t \<Rightarrow> u8" where
  "status_ChipMode st = drop_bit 5 (status_Value st)"

section \<open>Callbacks\<close>

text \<open>
  The nine \<^verbatim>\<open>std::function\<close> slots. A stored function is a closure of some type \<open>'cb\<close>; an empty
  \<^verbatim>\<open>std::function\<close> is \<open>None\<close>. What calling a closure does is a parameter of \<^verbatim>\<open>ProcessIrqs\<close>.
\<close>

record 'cb RadioCallbacks_t =
  txDone :: "'cb option"
  rxDone :: "'cb option"
  rxSyncWordDone :: "'cb option"
  rxHeaderDone :: "'cb option"
  txTimeout :: "'cb option"
  rxTimeout :: "'cb option"
  rxError :: "'cb option"
  rangingDone :: "'cb option"
  cadDone :: "'cb option"

definition no_callbacks :: "'cb RadioCallbacks_t" where
  "no_callbacks = \<lparr>txDone = None, rxDone = None, rxSyncWordDone = None, rxHeaderDone = None,
     txTimeout = None, rxTimeout = None, rxError = None, rangingDone = None, cadDone = None\<rparr>"

text \<open>The argument a callback is called with.\<close>

datatype callback_arg = NoArg | ErrorArg IrqErrorCode_t | RangingArg IrqRangingCode_t | CadArg bool

section \<open>Facts about the encodings\<close>

lemma packet_type_of_byte_value:
  "RadioPacketTypes_value (packet_type_of_byte b) = b"
  by (simp add: packet_type_of_byte_def)

lemma RadioTickSizes_value_inject: "RadioTickSizes_value a = RadioTickSizes_value b \<longleftrightarrow> a = b"
  by (cases a; cases b) simp_all

text \<open>Every interrupt mask but the two pseudo masks is a single bit.\<close>

primrec irq_bit :: "RadioIrqMasks_t \<Rightarrow> nat option" where
  "irq_bit IRQ_RADIO_NONE = None"
| "irq_bit IRQ_TX_DONE = Some 0"
| "irq_bit IRQ_RX_DONE = Some 1"
| "irq_bit IRQ_SYNCWORD_VALID = Some 2"
| "irq_bit IRQ_SYNCWORD_ERROR = Some 3"
| "irq_bit IRQ_HEADER_VALID = Some 4"
| "irq_bit IRQ_HEADER_ERROR = Some 5"
| "irq_bit IRQ_CRC_ERROR = Some 6"
| "irq_bit IRQ_RANGING_SLAVE_RESPONSE_DONE = Some 7"
| "irq_bit IRQ_RANGING_SLAVE_REQUEST_DISCARDED = Some 8"
| "irq_bit IRQ_RANGING_MASTER_RESULT_VALID = Some 9"
| "irq_bit IRQ_RANGING_MASTER_TIMEOUT = Some 10"
| "irq_bit IRQ_RANGING_SLAVE_REQUEST_VALID = Some 11"
| "irq_bit IRQ_CAD_DONE = Some 12"
| "irq_bit IRQ_CAD_DETECTED = Some 13"
| "irq_bit IRQ_RX_TX_TIMEOUT = Some 14"
| "irq_bit IRQ_PREAMBLE_DETECTED = Some 15"
| "irq_bit IRQ_RADIO_ALL = None"

lemma irq_bit_value: "irq_bit m = Some n \<Longrightarrow> RadioIrqMasks_value m = push_bit n 1"
  by (cases m) auto

lemma irq_bit_less: "irq_bit m = Some n \<Longrightarrow> n < 16"
  by (cases m) auto

lemma and_push_bit_1_eq:
  "((w :: 'a::len word) AND push_bit n 1 = push_bit n 1) \<longleftrightarrow> bit w n \<or> LENGTH('a) \<le> n"
proof -
  have "(w AND push_bit n 1 = push_bit n 1) \<longleftrightarrow> (\<forall>k < LENGTH('a). k = n \<longrightarrow> bit w k)"
    by (auto simp: bit_eq_iff bit_simps)
  then show ?thesis by auto
qed

end
