(* ===== verification/SX128x_Bus.thy ===== *)
theory SX128x_Bus
  imports Effects SX128x_Types
begin

text \<open>
  The lower half of the SX128x driver (\<^verbatim>\<open>SX128x.cpp\<close>, from \<^verbatim>\<open>HalSpiRead\<close> on): the driver object,
  the virtual HAL methods a subclass supplies, busy-waiting, and the SPI framing of commands,
  registers and the data buffer. Every bus operation takes the mutex \<^verbatim>\<open>IOLock\<close>.

  The HAL is a record of functions, as the C++ class calls it through its virtual table. A HAL method
  works on the derived object and the world behind it (\<open>'e\<close>), never on the private members of the
  base class. A receive buffer is a function from positions to bytes. Transfer lengths never exceed
  258 bytes, so the \<^verbatim>\<open>uint16_t\<close> length arithmetic of the source cannot wrap and lengths are those of
  the lists. Debug printing (\<^verbatim>\<open>SX1280_DEBUG\<close> is 0) is left out.

  The locale \<open>hal_obs\<close> is the interface between driver and HAL: what each method adds to an
  observable trace. The wire format of every driver command is proved from it once; the locale
  \<open>hal_live\<close> adds what is needed for the operations to return.
\<close>

section \<open>The driver object and its virtual methods\<close>

record 'cb SX128x =
  IOLock :: bool
  IOLock2 :: bool
  OperatingMode :: RadioOperatingModes_t
  PacketType :: RadioPacketTypes_t
  LoRaBandwidth :: RadioLoRaBandwidths_t
  CurrentModParams :: ModulationParams_t
  CurrentPacketParams :: PacketParams_t
  callbacks :: "'cb RadioCallbacks_t"

definition SX128x_new :: "'cb SX128x" where
  "SX128x_new = \<lparr>IOLock = False, IOLock2 = False, OperatingMode = MODE_STDBY_RC,
     PacketType = PACKET_TYPE_NONE, LoRaBandwidth = LORA_BW_1600,
     CurrentModParams = ModulationParams_zero, CurrentPacketParams = PacketParams_zero,
     callbacks = no_callbacks\<rparr>"

text \<open>The virtual methods, and what else the driver takes from its surroundings:
  \<^verbatim>\<open>std::this_thread::sleep_for\<close> in microseconds, which lets time pass in the world, and the bytes an
  uninitialised local array happens to hold.\<close>

record 'e hal =
  HalGpioRead :: "GpioPinFunction_t \<Rightarrow> ('e, u8) M"
  HalGpioWrite :: "GpioPinFunction_t \<Rightarrow> u8 \<Rightarrow> ('e, unit) M"
  HalSpiTransfer :: "bytes \<Rightarrow> ('e, rx_buffer) M"
  HalPreTx :: "('e, unit) M"
  HalPreRx :: "('e, unit) M"
  HalPostTx :: "('e, unit) M"
  HalPostRx :: "('e, unit) M"
  sleep_for :: "nat \<Rightarrow> 'e \<Rightarrow> 'e"
  stack_garbage :: rx_buffer

type_synonym ('cb, 'e, 'a) drv = "('cb SX128x \<times> 'e, 'a) M"

abbreviation virt :: "('e, 'a) M \<Rightarrow> ('cb, 'e, 'a) drv" where
  "virt \<equiv> lift_sndM"

definition get_field :: "('cb SX128x \<Rightarrow> 'a) \<Rightarrow> ('cb, 'e, 'a) drv" where
  "get_field f = getsM (\<lambda>(b, e). f b)"

definition set_field :: "('cb SX128x \<Rightarrow> 'cb SX128x) \<Rightarrow> ('cb, 'e, unit) drv" where
  "set_field f = modifyM (\<lambda>(b, e). (f b, e))"

definition with_IOLock :: "('cb, 'e, 'a) drv \<Rightarrow> ('cb, 'e, 'a) drv" where
  "with_IOLock = lock_guardM (\<lambda>(b, e). IOLock b) (\<lambda>f (b, e). (IOLock_update f b, e))"

definition with_IOLock2 :: "('cb, 'e, 'a) drv \<Rightarrow> ('cb, 'e, 'a) drv" where
  "with_IOLock2 = lock_guardM (\<lambda>(b, e). IOLock2 b) (\<lambda>f (b, e). (IOLock2_update f b, e))"

section \<open>Busy-waiting\<close>

text \<open>The loop of \<^verbatim>\<open>WaitOnBusy\<close> and \<^verbatim>\<open>WaitOnBusyLong\<close>, which differ in the time they sleep between two
  reads of the busy pin. It has no bound: \<open>None\<close> when the pin never goes low.\<close>

partial_function (option) wait_while_busy :: "'e hal \<Rightarrow> nat \<Rightarrow> 'e \<Rightarrow> (unit, 'e) outcome option" where
  "wait_while_busy h us e = (case HalGpioRead h GPIO_PIN_BUSY e of
       None \<Rightarrow> None
     | Some (Ret v e') \<Rightarrow>
         if v \<noteq> 0 then wait_while_busy h us (sleep_for h us e') else Some (Ret () e')
     | Some (Throw x e') \<Rightarrow> Some (Throw x e')
     | Some Deadlock \<Rightarrow> Some Deadlock)"

definition WaitOnBusy :: "'e hal \<Rightarrow> ('cb, 'e, unit) drv" where
  "WaitOnBusy h = virt (wait_while_busy h 10)"

definition WaitOnBusyLong :: "'e hal \<Rightarrow> ('cb, 'e, unit) drv" where
  "WaitOnBusyLong h = virt (wait_while_busy h 1000)"

section \<open>SPI transfers\<close>

definition HalSpiRead :: "'e hal \<Rightarrow> nat \<Rightarrow> ('cb, 'e, bytes) drv" where
  "HalSpiRead h n = bindM (virt (HalSpiTransfer h (replicate n 0)))
     (\<lambda>buf_in. retM (buffer_slice buf_in 0 n))"

definition HalSpiWrite :: "'e hal \<Rightarrow> bytes \<Rightarrow> ('cb, 'e, unit) drv" where
  "HalSpiWrite h buffer_out = bindM (virt (HalSpiTransfer h buffer_out)) (\<lambda>_. retM ())"

definition sleep_ms :: "'e hal \<Rightarrow> nat \<Rightarrow> ('cb, 'e, unit) drv" where
  "sleep_ms h n = modifyM (\<lambda>(b, e). (b, sleep_for h (1000 * n) e))"

definition Reset :: "'e hal \<Rightarrow> ('cb, 'e, unit) drv" where
  "Reset h = with_IOLock (seqM
     [virt (HalGpioWrite h GPIO_PIN_RESET 0), sleep_ms h 10,
      virt (HalGpioWrite h GPIO_PIN_RESET 1), sleep_ms h 10])"

definition Wakeup :: "'e hal \<Rightarrow> ('cb, 'e, unit) drv" where
  "Wakeup h = with_IOLock (seqM
     [HalSpiWrite h [RadioCommands_value RADIO_GET_STATUS, 0],
      WaitOnBusyLong h])"

definition WriteCommand :: "'e hal \<Rightarrow> RadioCommands_t \<Rightarrow> bytes \<Rightarrow> ('cb, 'e, unit) drv" where
  "WriteCommand h opcode buffer = with_IOLock (seqM
     [WaitOnBusy h,
      HalSpiWrite h (RadioCommands_value opcode # buffer),
      whenM (opcode \<noteq> RADIO_SET_SLEEP) (WaitOnBusy h)])"

definition ReadCommand :: "'e hal \<Rightarrow> RadioCommands_t \<Rightarrow> nat \<Rightarrow> ('cb, 'e, bytes) drv" where
  "ReadCommand h opcode n = with_IOLock (
     bindM (WaitOnBusy h) (\<lambda>_.
     bindM (if opcode = RADIO_GET_STATUS
            then bindM (virt (HalSpiTransfer h [RadioCommands_value opcode, 0, 0]))
                   (\<lambda>buf_in. retM [buf_in 0])
            else bindM (virt (HalSpiTransfer h (RadioCommands_value opcode # replicate (1 + n) 0)))
                   (\<lambda>buf_in. retM (buffer_slice buf_in 2 n)))
     (\<lambda>buffer. bindM (WaitOnBusy h) (\<lambda>_. retM buffer))))"

definition WriteRegisters :: "'e hal \<Rightarrow> u16 \<Rightarrow> bytes \<Rightarrow> ('cb, 'e, unit) drv" where
  "WriteRegisters h address buffer = with_IOLock (seqM
     [WaitOnBusy h,
      HalSpiWrite h ([RadioCommands_value RADIO_WRITE_REGISTER,
                      ucast (drop_bit 8 (address AND 0xFF00)), ucast (address AND 0x00FF)] @ buffer),
      WaitOnBusy h])"

definition WriteRegister :: "'e hal \<Rightarrow> u16 \<Rightarrow> u8 \<Rightarrow> ('cb, 'e, unit) drv" where
  "WriteRegister h address value = WriteRegisters h address [value]"

definition ReadRegisters :: "'e hal \<Rightarrow> u16 \<Rightarrow> nat \<Rightarrow> ('cb, 'e, bytes) drv" where
  "ReadRegisters h address n = with_IOLock (
     bindM (WaitOnBusy h) (\<lambda>_.
     bindM (virt (HalSpiTransfer h
              ([RadioCommands_value RADIO_READ_REGISTER,
                ucast (drop_bit 8 (address AND 0xFF00)), ucast (address AND 0x00FF)]
               @ replicate (1 + n) 0)))
     (\<lambda>buf_in. bindM (WaitOnBusy h) (\<lambda>_. retM (buffer_slice buf_in 4 n)))))"

definition ReadRegister :: "'e hal \<Rightarrow> u16 \<Rightarrow> ('cb, 'e, u8) drv" where
  "ReadRegister h address = bindM (ReadRegisters h address 1) (\<lambda>data. retM (data ! 0))"

definition WriteBuffer :: "'e hal \<Rightarrow> u8 \<Rightarrow> bytes \<Rightarrow> ('cb, 'e, unit) drv" where
  "WriteBuffer h offset buffer = with_IOLock (seqM
     [WaitOnBusy h,
      HalSpiWrite h ([RadioCommands_value RADIO_WRITE_BUFFER, offset] @ buffer),
      WaitOnBusy h])"

definition ReadBuffer :: "'e hal \<Rightarrow> u8 \<Rightarrow> u8 \<Rightarrow> ('cb, 'e, bytes) drv" where
  "ReadBuffer h offset n = with_IOLock (
     bindM (WaitOnBusy h) (\<lambda>_.
     bindM (virt (HalSpiTransfer h
              ([RadioCommands_value RADIO_READ_BUFFER, offset] @ replicate (1 + unat n) 0)))
     (\<lambda>buf_in. bindM (WaitOnBusy h) (\<lambda>_. retM (buffer_slice buf_in 3 (unat n))))))"

section \<open>Reading and writing the driver's own members\<close>

lemma wp_get_field [wp]: "wp (get_field f) Q E (b, e) = Q (f b) (b, e)"
  by (simp add: get_field_def wp)

lemma wp_set_field [wp]: "wp (set_field f) Q E (b, e) = Q () (f b, e)"
  by (simp add: set_field_def wp)

lemma wp_with_IOLock [wp]:
  "wp (with_IOLock m) Q E (b, e) =
     (\<not> IOLock b \<and> wp m (\<lambda>a (b', e'). Q a (b'\<lparr>IOLock := False\<rparr>, e'))
                         (\<lambda>x (b', e'). E x (b'\<lparr>IOLock := False\<rparr>, e')) (b\<lparr>IOLock := True\<rparr>, e))"
  by (simp add: with_IOLock_def wp case_prod_unfold)

lemma wp_with_IOLock2 [wp]:
  "wp (with_IOLock2 m) Q E (b, e) =
     (\<not> IOLock2 b \<and> wp m (\<lambda>a (b', e'). Q a (b'\<lparr>IOLock2 := False\<rparr>, e'))
                          (\<lambda>x (b', e'). E x (b'\<lparr>IOLock2 := False\<rparr>, e')) (b\<lparr>IOLock2 := True\<rparr>, e))"
  by (simp add: with_IOLock2_def wp case_prod_unfold)

lemma IOLock_idle [simp]: "\<not> IOLock b \<Longrightarrow> b\<lparr>IOLock := False\<rparr> = b"
  by simp

lemma IOLock2_idle [simp]: "\<not> IOLock2 b \<Longrightarrow> b\<lparr>IOLock2 := False\<rparr> = b"
  by simp

lemma wp_sleep_ms [wp]: "wp (sleep_ms h n) Q E (b, e) = Q () (b, sleep_for h (1000 * n) e)"
  by (simp add: sleep_ms_def wp)

section \<open>Frames\<close>

text \<open>The SPI frames of the bus operations, as the radio sees them.\<close>

definition command_frame :: "RadioCommands_t \<Rightarrow> bytes \<Rightarrow> bytes" where
  "command_frame op params = RadioCommands_value op # params"

definition query_frame :: "RadioCommands_t \<Rightarrow> nat \<Rightarrow> bytes" where
  "query_frame op n = RadioCommands_value op # replicate (1 + n) 0"

definition write_register_frame :: "u16 \<Rightarrow> bytes \<Rightarrow> bytes" where
  "write_register_frame address values = RadioCommands_value RADIO_WRITE_REGISTER # be16 address @ values"

definition read_register_frame :: "u16 \<Rightarrow> nat \<Rightarrow> bytes" where
  "read_register_frame address n =
     RadioCommands_value RADIO_READ_REGISTER # be16 address @ replicate (1 + n) 0"

definition write_buffer_frame :: "u8 \<Rightarrow> bytes \<Rightarrow> bytes" where
  "write_buffer_frame offset payload = [RadioCommands_value RADIO_WRITE_BUFFER, offset] @ payload"

definition read_buffer_frame :: "u8 \<Rightarrow> nat \<Rightarrow> bytes" where
  "read_buffer_frame offset n = [RadioCommands_value RADIO_READ_BUFFER, offset] @ replicate (1 + n) 0"

lemma register_address_bytes:
  "[ucast (drop_bit 8 (address AND 0xFF00)), ucast (address AND 0x00FF)] = be16 (address :: u16)"
proof -
  have "(0xFF00 :: u16) = push_bit 8 (mask 8)"
    by (simp add: mask_eq_exp_minus_1)
  then have "drop_bit 8 (address AND 0xFF00) = drop_bit 8 address AND 0x00FF"
    by (auto simp: bit_eq_iff bit_simps and_255)
  then show ?thesis by (simp add: be16_def)
qed

section \<open>The observable behaviour of a HAL\<close>

text \<open>The four hooks around a change of direction.\<close>

datatype hal_hook = PreTx | PreRx | PostTx | PostRx

primrec run_hook :: "'e hal \<Rightarrow> hal_hook \<Rightarrow> ('e, unit) M" where
  "run_hook h PreTx = HalPreTx h"
| "run_hook h PreRx = HalPreRx h"
| "run_hook h PostTx = HalPostTx h"
| "run_hook h PostRx = HalPostRx h"

text \<open>From \<open>e\<close> to \<open>e'\<close> the trace grows by \<open>os\<close>, and what the hooks will do stays the same.\<close>

definition advances ::
  "('e \<Rightarrow> 'o list) \<Rightarrow> (hal_hook \<Rightarrow> 'e \<Rightarrow> 'o list) \<Rightarrow> 'o list \<Rightarrow> 'e \<Rightarrow> 'e \<Rightarrow> bool" where
  "advances obs hook os e e' \<longleftrightarrow> obs e' = obs e @ os \<and> (\<forall>k. hook k e' = hook k e)"

lemma advances_refl [simp, intro]: "advances obs hook [] e e"
  by (simp add: advances_def)

lemma advances_trans [trans]:
  "advances obs hook os e e' \<Longrightarrow> advances obs hook os' e' e'' \<Longrightarrow> advances obs hook (os @ os') e e''"
  by (simp add: advances_def)

lemma advances_Nil_trans:
  "advances obs hook [] e e' \<Longrightarrow> advances obs hook os e' e'' \<Longrightarrow> advances obs hook os e e''"
  by (simp add: advances_def)

text \<open>
  The interface the driver relies on. \<open>obs\<close> is the trace of what reaches the outside: an SPI frame
  \<open>f\<close> shows as \<open>spi f\<close>, a level \<open>v\<close> on the reset pin as \<open>rst v\<close>, a hook as \<open>hook k\<close>. Reading a pin and
  sleeping show nothing. A method that throws has still done its output, and none of them deadlocks.
\<close>

locale hal_obs =
  fixes h :: "'e hal" and obs :: "'e \<Rightarrow> 'o list" and spi :: "bytes \<Rightarrow> 'o" and rst :: "u8 \<Rightarrow> 'o"
    and hook :: "hal_hook \<Rightarrow> 'e \<Rightarrow> 'o list"
  assumes obs_read: "wp (HalGpioRead h p)
      (\<lambda>_. advances obs hook [] e) (\<lambda>_. advances obs hook [] e) e"
    and obs_reset: "wp (HalGpioWrite h GPIO_PIN_RESET v)
      (\<lambda>_. advances obs hook [rst v] e) (\<lambda>_. advances obs hook [rst v] e) e"
    and obs_spi: "wp (HalSpiTransfer h out)
      (\<lambda>_. advances obs hook [spi out] e) (\<lambda>_. advances obs hook [spi out] e) e"
    and obs_hook: "wp (run_hook h k)
      (\<lambda>_. advances obs hook (hook k e) e) (\<lambda>_. advances obs hook (hook k e) e) e"
    and obs_sleep: "advances obs hook [] e (sleep_for h us e)"
begin

lemma wp_spi [wp_intro]:
  assumes "\<And>a e'. advances obs hook [spi out] e e' \<Longrightarrow> Q a e'"
    and "\<And>x e'. advances obs hook [spi out] e e' \<Longrightarrow> E x e'"
  shows "wp (HalSpiTransfer h out) Q E e"
  using obs_spi by (rule wp_mono) (fact assms)+

lemma wp_reset [wp_intro]:
  assumes "\<And>e'. advances obs hook [rst v] e e' \<Longrightarrow> Q () e'"
    and "\<And>x e'. advances obs hook [rst v] e e' \<Longrightarrow> E x e'"
  shows "wp (HalGpioWrite h GPIO_PIN_RESET v) Q E e"
  using obs_reset by (rule wp_mono) (use assms in auto)

lemma wp_run_hook:
  assumes "\<And>e'. advances obs hook (hook k e) e e' \<Longrightarrow> Q () e'"
    and "\<And>x e'. advances obs hook (hook k e) e e' \<Longrightarrow> E x e'"
  shows "wp (run_hook h k) Q E e"
  using obs_hook by (rule wp_mono) (use assms in auto)

lemmas wp_hooks [wp_intro] =
  wp_run_hook [of PreTx, simplified] wp_run_hook [of PreRx, simplified]
  wp_run_hook [of PostTx, simplified] wp_run_hook [of PostRx, simplified]

lemma wait_while_busy_advances:
  assumes "wait_while_busy h us e = Some r"
  shows "case r of Ret _ e' \<Rightarrow> advances obs hook [] e e' | Throw _ e' \<Rightarrow> advances obs hook [] e e'
           | Deadlock \<Rightarrow> False"
proof (rule wait_while_busy.raw_induct
    [where P = "\<lambda>h' us' e r. h' = h \<longrightarrow> (case r of Ret _ e' \<Rightarrow> advances obs hook [] e e'
        | Throw _ e' \<Rightarrow> advances obs hook [] e e' | Deadlock \<Rightarrow> False)",
     OF _ assms, THEN mp, OF _ refl], rule impI)
  fix f h' us e r
  assume IH: "\<And>h' us e r. f h' us e = Some r \<Longrightarrow> h' = h \<longrightarrow> (case r of
      Ret _ e' \<Rightarrow> advances obs hook [] e e' | Throw _ e' \<Rightarrow> advances obs hook [] e e'
    | Deadlock \<Rightarrow> False)"
    and step: "(case HalGpioRead h' GPIO_PIN_BUSY e of None \<Rightarrow> None
      | Some (Ret v e') \<Rightarrow> if v \<noteq> 0 then f h' us (sleep_for h' us e') else Some (Ret () e')
      | Some (Throw x e') \<Rightarrow> Some (Throw x e') | Some Deadlock \<Rightarrow> Some Deadlock) = Some r"
    and h': "h' = h"
  from obs_read [of GPIO_PIN_BUSY e] step
  show "case r of Ret _ e' \<Rightarrow> advances obs hook [] e e' | Throw _ e' \<Rightarrow> advances obs hook [] e e'
          | Deadlock \<Rightarrow> False"
    unfolding h'
    by (fastforce simp: wp_def split: option.splits outcome.splits if_splits
        dest: IH dest!: obs_sleep [THEN advances_Nil_trans] elim: advances_Nil_trans)
qed

lemma wp_wait [wp_intro]:
  assumes "\<And>e'. advances obs hook [] e e' \<Longrightarrow> Q () e'"
    and "\<And>x e'. advances obs hook [] e e' \<Longrightarrow> E x e'"
  shows "wp (wait_while_busy h us) Q E e"
proof -
  have "wp (wait_while_busy h us) (\<lambda>_. advances obs hook [] e) (\<lambda>_. advances obs hook [] e) e"
    using wait_while_busy_advances [of us e]
    by (auto simp: wp_def split: option.splits outcome.splits)
  then show ?thesis
    by (rule wp_mono) (use assms in auto)
qed

text \<open>One bus cycle: wait, transfer one frame, wait. Every bus operation is such a cycle under
  \<^verbatim>\<open>IOLock\<close>; one that throws has sent the frame or nothing.\<close>

lemma wp_cycle:
  assumes "\<And>a e'. advances obs hook [spi f] e e' \<Longrightarrow> Q a e'"
    and "\<And>x os e'. prefix os [spi f] \<Longrightarrow> advances obs hook os e e' \<Longrightarrow> E x e'"
  shows "wp (wait_while_busy h us)
           (\<lambda>_. wp (HalSpiTransfer h f) (\<lambda>a. wp (wait_while_busy h us) (\<lambda>_. Q a) E) E) E e"
proof -
  have E0: "\<And>x e'. advances obs hook [] e e' \<Longrightarrow> E x e'"
    and E1: "\<And>x e'. advances obs hook [spi f] e e' \<Longrightarrow> E x e'"
    by (rule assms(2); simp)+
  show ?thesis
    by (intro wp_wait wp_spi; (rule assms(1) E0 E1)?) (simp_all add: advances_def)
qed

lemmas bus_defs = WaitOnBusy_def WaitOnBusyLong_def HalSpiWrite_def WriteCommand_def ReadCommand_def
  WriteRegisters_def ReadRegisters_def WriteBuffer_def ReadBuffer_def

lemmas frame_defs = command_frame_def query_frame_def write_register_frame_def
  read_register_frame_def write_buffer_frame_def read_buffer_frame_def

lemma wp_WriteCommand [wp_intro]:
  assumes "\<not> IOLock b"
    and "\<And>e'. advances obs hook [spi (command_frame op buf)] e e' \<Longrightarrow> Q () (b, e')"
    and "\<And>x os e'. prefix os [spi (command_frame op buf)] \<Longrightarrow> advances obs hook os e e' \<Longrightarrow> E x (b, e')"
  shows "wp (WriteCommand h op buf) Q E (b, e)"
proof (cases "op = RADIO_SET_SLEEP")
  case True
  have E0: "\<And>x e'. advances obs hook [] e e' \<Longrightarrow> E x (b, e')"
    and E1: "\<And>x e'. advances obs hook [spi (command_frame op buf)] e e' \<Longrightarrow> E x (b, e')"
    by (rule assms(3); simp)+
  show ?thesis
    unfolding bus_defs command_frame_def [symmetric] using assms(1) True
    by (simp add: wp)
       (intro wp_wait wp_spi;
        (rule assms(2) [unfolded True] E0 [unfolded True] E1 [unfolded True]; simp add: advances_def)?)
next
  case False
  then show ?thesis
    unfolding bus_defs command_frame_def [symmetric] using assms
    by (simp add: wp) (rule wp_cycle; simp)
qed

lemma wp_ReadCommand [wp_intro]:
  assumes "\<not> IOLock b" and "op \<noteq> RADIO_GET_STATUS"
    and "\<And>r e'. length r = n \<Longrightarrow> advances obs hook [spi (query_frame op n)] e e' \<Longrightarrow> Q r (b, e')"
    and "\<And>x os e'. prefix os [spi (query_frame op n)] \<Longrightarrow> advances obs hook os e e' \<Longrightarrow> E x (b, e')"
  shows "wp (ReadCommand h op n) Q E (b, e)"
  unfolding bus_defs query_frame_def [symmetric] using assms
  by (simp add: wp) (rule wp_cycle; simp)

lemma wp_ReadCommand_status:
  assumes "\<not> IOLock b"
    and "\<And>r e'. length r = 1 \<Longrightarrow>
           advances obs hook [spi (query_frame RADIO_GET_STATUS 1)] e e' \<Longrightarrow> Q r (b, e')"
    and "\<And>x os e'. prefix os [spi (query_frame RADIO_GET_STATUS 1)] \<Longrightarrow>
           advances obs hook os e e' \<Longrightarrow> E x (b, e')"
  shows "wp (ReadCommand h RADIO_GET_STATUS 1) Q E (b, e)"
proof -
  have "[RadioCommands_value RADIO_GET_STATUS, 0, 0] = query_frame RADIO_GET_STATUS 1"
    by (simp add: query_frame_def numeral_2_eq_2)
  then show ?thesis
    unfolding bus_defs using assms
    by (simp add: wp del: RadioCommands_value.simps) (rule wp_cycle; simp)
qed

lemma wp_WriteRegisters [wp_intro]:
  assumes "\<not> IOLock b"
    and "\<And>e'. advances obs hook [spi (write_register_frame address vs)] e e' \<Longrightarrow> Q () (b, e')"
    and "\<And>x os e'. prefix os [spi (write_register_frame address vs)] \<Longrightarrow>
           advances obs hook os e e' \<Longrightarrow> E x (b, e')"
  shows "wp (WriteRegisters h address vs) Q E (b, e)"
proof -
  have "[RadioCommands_value RADIO_WRITE_REGISTER, ucast (drop_bit 8 (address AND 0xFF00)),
         ucast (address AND 0x00FF)] @ vs = write_register_frame address vs"
    by (simp add: write_register_frame_def flip: register_address_bytes)
  then show ?thesis
    unfolding bus_defs using assms
    by (simp add: wp del: RadioCommands_value.simps append.simps) (rule wp_cycle; simp)
qed

lemma wp_WriteRegister [wp_intro]:
  assumes "\<not> IOLock b"
    and "\<And>e'. advances obs hook [spi (write_register_frame address [v])] e e' \<Longrightarrow> Q () (b, e')"
    and "\<And>x os e'. prefix os [spi (write_register_frame address [v])] \<Longrightarrow>
           advances obs hook os e e' \<Longrightarrow> E x (b, e')"
  shows "wp (WriteRegister h address v) Q E (b, e)"
  unfolding WriteRegister_def using assms by (rule wp_WriteRegisters)

lemma wp_ReadRegisters [wp_intro]:
  assumes "\<not> IOLock b"
    and "\<And>r e'. length r = n \<Longrightarrow>
           advances obs hook [spi (read_register_frame address n)] e e' \<Longrightarrow> Q r (b, e')"
    and "\<And>x os e'. prefix os [spi (read_register_frame address n)] \<Longrightarrow>
           advances obs hook os e e' \<Longrightarrow> E x (b, e')"
  shows "wp (ReadRegisters h address n) Q E (b, e)"
proof -
  have "[RadioCommands_value RADIO_READ_REGISTER, ucast (drop_bit 8 (address AND 0xFF00)),
         ucast (address AND 0x00FF)] @ replicate (1 + n) 0 = read_register_frame address n"
    by (simp add: read_register_frame_def flip: register_address_bytes)
  then show ?thesis
    unfolding bus_defs using assms
    by (simp add: wp del: RadioCommands_value.simps append.simps replicate_Suc One_nat_def plus_1_eq_Suc)
       (rule wp_cycle; simp)
qed

lemma wp_ReadRegister [wp_intro]:
  assumes "\<not> IOLock b"
    and "\<And>v e'. advances obs hook [spi (read_register_frame address 1)] e e' \<Longrightarrow> Q v (b, e')"
    and "\<And>x os e'. prefix os [spi (read_register_frame address 1)] \<Longrightarrow>
           advances obs hook os e e' \<Longrightarrow> E x (b, e')"
  shows "wp (ReadRegister h address) Q E (b, e)"
  unfolding ReadRegister_def using assms by (simp add: wp) (rule wp_ReadRegisters; simp add: wp)

lemma wp_WriteBuffer [wp_intro]:
  assumes "\<not> IOLock b"
    and "\<And>e'. advances obs hook [spi (write_buffer_frame off payload)] e e' \<Longrightarrow> Q () (b, e')"
    and "\<And>x os e'. prefix os [spi (write_buffer_frame off payload)] \<Longrightarrow>
           advances obs hook os e e' \<Longrightarrow> E x (b, e')"
  shows "wp (WriteBuffer h off payload) Q E (b, e)"
  unfolding bus_defs write_buffer_frame_def [symmetric] using assms
  by (simp add: wp) (rule wp_cycle; simp)

lemma wp_ReadBuffer [wp_intro]:
  assumes "\<not> IOLock b"
    and "\<And>r e'. length r = unat n \<Longrightarrow>
           advances obs hook [spi (read_buffer_frame off (unat n))] e e' \<Longrightarrow> Q r (b, e')"
    and "\<And>x os e'. prefix os [spi (read_buffer_frame off (unat n))] \<Longrightarrow>
           advances obs hook os e e' \<Longrightarrow> E x (b, e')"
  shows "wp (ReadBuffer h off n) Q E (b, e)"
  unfolding bus_defs read_buffer_frame_def [symmetric] using assms
  by (simp add: wp) (rule wp_cycle; simp)

lemma wp_Reset [wp_intro]:
  assumes "\<not> IOLock b"
    and "\<And>e'. advances obs hook [rst 0, rst 1] e e' \<Longrightarrow> Q () (b, e')"
    and "\<And>x os e'. prefix os [rst 0, rst 1] \<Longrightarrow> advances obs hook os e e' \<Longrightarrow> E x (b, e')"
  shows "wp (Reset h) Q E (b, e)"
proof -
  have E1: "\<And>x e'. advances obs hook [rst 0] e e' \<Longrightarrow> E x (b, e')"
    and E2: "\<And>x e'. advances obs hook [rst 0, rst 1] e e' \<Longrightarrow> E x (b, e')"
    by (rule assms(3); simp)+
  show ?thesis
    unfolding Reset_def using assms(1) obs_sleep
    by (simp add: wp)
       (intro wp_reset; (rule assms(2) E1 E2)?; simp add: advances_def)
qed

lemma wp_Wakeup [wp_intro]:
  assumes "\<not> IOLock b"
    and "\<And>e'. advances obs hook [spi (command_frame RADIO_GET_STATUS [0])] e e' \<Longrightarrow> Q () (b, e')"
    and "\<And>x e'. advances obs hook [spi (command_frame RADIO_GET_STATUS [0])] e e' \<Longrightarrow> E x (b, e')"
  shows "wp (Wakeup h) Q E (b, e)"
  unfolding Wakeup_def bus_defs command_frame_def [symmetric] using assms(1)
  by (simp add: wp) (intro wp_wait wp_spi; (rule assms(2,3))?; simp add: advances_def)

end

section \<open>Mutexes and termination\<close>

text \<open>
  \<open>keeps t P m s\<close>: started in \<open>s\<close>, \<open>m\<close> never locks a mutex it holds and ends, if it does, in a state
  with \<open>P\<close>; with \<open>t\<close> it moreover does end, and without throwing.

  \<open>lock_neutral t ok m\<close>: started with \<^verbatim>\<open>IOLock\<close> free, \<open>m\<close> keeps \<^verbatim>\<open>IOLock\<close> free, \<^verbatim>\<open>IOLock2\<close> as it was, and the
  condition \<open>ok\<close> on the outside. \<open>lock_free t ok m\<close> is the same for the operations that take \<^verbatim>\<open>IOLock2\<close>
  themselves: both mutexes are free before and after. The two readings, deadlock freedom on any HAL and
  termination on a live one, share all their proofs through the locale \<open>hal_steady\<close>.
\<close>

definition keeps :: "bool \<Rightarrow> ('s \<Rightarrow> bool) \<Rightarrow> ('s, 'a) M \<Rightarrow> 's \<Rightarrow> bool" where
  "keeps t P m s = (if t then twp m (\<lambda>_. P) s else wp m (\<lambda>_. P) (\<lambda>_. P) s)"

lemma keeps_simps [simp]:
  "keeps t P (retM a) s = P s" "keeps t P (getsM f) s = P s" "keeps t P (modifyM g) s = P (g s)"
  by (simp_all add: keeps_def wp twp)

lemma keeps_bind:
  "keeps t P m s \<Longrightarrow> (\<And>a s'. P s' \<Longrightarrow> keeps t P (f a) s') \<Longrightarrow> keeps t P (bindM m f) s"
  unfolding keeps_def by (auto simp: wp twp elim: wp_mono twp_mono split: if_splits)

lemma keeps_mono: "keeps t P m s \<Longrightarrow> (\<And>s'. P s' \<Longrightarrow> Q s') \<Longrightarrow> keeps t Q m s"
  unfolding keeps_def by (auto elim: wp_mono twp_mono split: if_splits)

lemma keeps_virt: "keeps t P (virt m) (b, e) = keeps t (\<lambda>e'. P (b, e')) m e"
  by (simp add: keeps_def wp twp)

lemma keeps_with_IOLock:
  "keeps t P (with_IOLock m) (b, e) =
     (\<not> IOLock b \<and> keeps t (\<lambda>(b', e'). P (b'\<lparr>IOLock := False\<rparr>, e')) m (b\<lparr>IOLock := True\<rparr>, e))"
  by (simp add: keeps_def with_IOLock_def wp twp case_prod_unfold)

lemma keeps_with_IOLock2:
  "keeps t P (with_IOLock2 m) (b, e) =
     (\<not> IOLock2 b \<and> keeps t (\<lambda>(b', e'). P (b'\<lparr>IOLock2 := False\<rparr>, e')) m (b\<lparr>IOLock2 := True\<rparr>, e))"
  by (simp add: keeps_def with_IOLock2_def wp twp case_prod_unfold)

definition locks :: "bool \<Rightarrow> ('e \<Rightarrow> bool) \<Rightarrow> 'cb SX128x \<times> 'e \<Rightarrow> bool" where
  "locks l ok s \<longleftrightarrow> \<not> IOLock (fst s) \<and> IOLock2 (fst s) = l \<and> ok (snd s)"

definition lock_neutral :: "bool \<Rightarrow> ('e \<Rightarrow> bool) \<Rightarrow> ('cb, 'e, 'a) drv \<Rightarrow> bool" where
  "lock_neutral t ok m \<longleftrightarrow> (\<forall>l s. locks l ok s \<longrightarrow> keeps t (locks l ok) m s)"

definition lock_free :: "bool \<Rightarrow> ('e \<Rightarrow> bool) \<Rightarrow> ('cb, 'e, 'a) drv \<Rightarrow> bool" where
  "lock_free t ok m \<longleftrightarrow> (\<forall>s. locks False ok s \<longrightarrow> keeps t (locks False ok) m s)"

text \<open>A computation that leaves the driver object alone, as the bodies of the bus operations do.\<close>

definition on_bus :: "bool \<Rightarrow> ('e \<Rightarrow> bool) \<Rightarrow> ('cb, 'e, 'a) drv \<Rightarrow> bool" where
  "on_bus t ok m \<longleftrightarrow> (\<forall>b e. ok e \<longrightarrow> keeps t (\<lambda>(b', e'). b' = b \<and> ok e') m (b, e))"

named_theorems lock_intro "operations that leave the mutexes as they found them"

lemma on_bus_ret: "on_bus t ok (retM a)"
  by (simp add: on_bus_def)

lemma on_bus_bind: "on_bus t ok m \<Longrightarrow> (\<And>a. on_bus t ok (f a)) \<Longrightarrow> on_bus t ok (bindM m f)"
  unfolding on_bus_def by (fastforce intro: keeps_bind)

lemma on_bus_when: "on_bus t ok m \<Longrightarrow> on_bus t ok (whenM c m)"
  by (simp add: whenM_def on_bus_ret)

lemma on_bus_seq: "on_bus t ok (seqM [])" "on_bus t ok m \<Longrightarrow> on_bus t ok (seqM ms) \<Longrightarrow> on_bus t ok (seqM (m # ms))"
  by (simp_all add: on_bus_ret on_bus_bind)

lemma on_bus_if: "on_bus t ok m \<Longrightarrow> on_bus t ok n \<Longrightarrow> on_bus t ok (if c then m else n)"
  by simp

lemma on_bus_virt: "(\<And>e. ok e \<Longrightarrow> keeps t ok m e) \<Longrightarrow> on_bus t ok (virt m)"
  by (simp add: on_bus_def keeps_virt)

lemma lock_neutral_with_IOLock: "on_bus t ok m \<Longrightarrow> lock_neutral t ok (with_IOLock m)"
  unfolding on_bus_def lock_neutral_def locks_def
  by (fastforce simp: keeps_with_IOLock elim: keeps_mono)

lemma lock_neutral_on_bus: "on_bus t ok m \<Longrightarrow> lock_neutral t ok m"
  unfolding on_bus_def lock_neutral_def locks_def by (fastforce elim: keeps_mono)

lemma lock_neutral_ret [lock_intro]: "lock_neutral t ok (retM a)"
  by (simp add: lock_neutral_def)

lemma lock_neutral_get [lock_intro]: "lock_neutral t ok (get_field f)"
  by (simp add: lock_neutral_def get_field_def)

lemma lock_neutral_set [lock_intro]:
  "(\<And>b. IOLock (f b) = IOLock b \<and> IOLock2 (f b) = IOLock2 b) \<Longrightarrow> lock_neutral t ok (set_field f)"
  by (simp add: lock_neutral_def locks_def set_field_def split_paired_all)

lemma lock_neutral_bind [lock_intro]:
  "lock_neutral t ok m \<Longrightarrow> (\<And>a. lock_neutral t ok (f a)) \<Longrightarrow> lock_neutral t ok (bindM m f)"
  unfolding lock_neutral_def by (blast intro: keeps_bind)

lemma lock_free_bind [lock_intro]:
  "lock_free t ok m \<Longrightarrow> (\<And>a. lock_free t ok (f a)) \<Longrightarrow> lock_free t ok (bindM m f)"
  unfolding lock_free_def by (blast intro: keeps_bind)

lemma lock_free_neutral: "lock_neutral t ok m \<Longrightarrow> lock_free t ok m"
  unfolding lock_neutral_def lock_free_def by blast

lemma lock_neutral_when [lock_intro]: "lock_neutral t ok m \<Longrightarrow> lock_neutral t ok (whenM c m)"
  by (simp add: whenM_def lock_neutral_ret)

lemma lock_free_when [lock_intro]: "lock_free t ok m \<Longrightarrow> lock_free t ok (whenM c m)"
  by (simp add: whenM_def lock_free_neutral lock_neutral_ret)

lemma lock_neutral_seq_Cons [lock_intro]:
  "lock_neutral t ok m \<Longrightarrow> lock_neutral t ok (seqM ms) \<Longrightarrow> lock_neutral t ok (seqM (m # ms))"
  by (auto intro: lock_intro)

lemma lock_neutral_seq_Nil [lock_intro]: "lock_neutral t ok (seqM [])"
  by (auto intro: lock_intro)

lemma lock_free_seq_Cons [lock_intro]:
  "lock_free t ok m \<Longrightarrow> lock_free t ok (seqM ms) \<Longrightarrow> lock_free t ok (seqM (m # ms))"
  by (auto intro: lock_intro)

lemma lock_free_seq_Nil [lock_intro]: "lock_free t ok (seqM [])"
  by (auto intro: lock_intro lock_free_neutral)

lemma lock_free_seq: "(\<And>m. m \<in> set ms \<Longrightarrow> lock_free t ok m) \<Longrightarrow> lock_free t ok (seqM ms)"
  by (induction ms) (auto intro: lock_intro lock_free_neutral)

lemma lock_neutral_if [lock_intro]:
  "(c \<Longrightarrow> lock_neutral t ok m) \<Longrightarrow> (\<not> c \<Longrightarrow> lock_neutral t ok n) \<Longrightarrow> lock_neutral t ok (if c then m else n)"
  by simp

lemma lock_free_if: "lock_free t ok m \<Longrightarrow> lock_free t ok n \<Longrightarrow> lock_free t ok (if c then m else n)"
  by simp

lemma lock_neutral_case_option [lock_intro]:
  "lock_neutral t ok m \<Longrightarrow> (\<And>x. lock_neutral t ok (f x)) \<Longrightarrow>
   lock_neutral t ok (case v of None \<Rightarrow> m | Some x \<Rightarrow> f x)"
  by (cases v) simp_all

lemma lock_neutral_case_prod [lock_intro]:
  "(\<And>x y. lock_neutral t ok (f x y)) \<Longrightarrow> lock_neutral t ok (case v of (x, y) \<Rightarrow> f x y)"
  by (cases v) simp

lemma lock_free_with_IOLock2 [lock_intro]:
  assumes "lock_neutral t ok m"
  shows "lock_free t ok (with_IOLock2 m)"
  unfolding lock_free_def
proof (intro allI impI)
  fix s :: "'b SX128x \<times> 'a"
  obtain b e where s: "s = (b, e)" by (cases s)
  assume "locks False ok s"
  then have "locks True ok (b\<lparr>IOLock2 := True\<rparr>, e)" and "\<not> IOLock2 b"
    by (simp_all add: s locks_def)
  with assms have "keeps t (locks True ok) m (b\<lparr>IOLock2 := True\<rparr>, e)"
    by (simp add: lock_neutral_def)
  then show "keeps t (locks False ok) (with_IOLock2 m) s"
    unfolding s keeps_with_IOLock2 using \<open>\<not> IOLock2 b\<close>
    by (auto simp: locks_def elim!: keeps_mono)
qed

text \<open>The interface for these proofs: the primitives of the HAL keep \<open>ok\<close>.\<close>

locale hal_steady =
  fixes h :: "'e hal" and t :: bool and ok :: "'e \<Rightarrow> bool"
  assumes steady_wait: "ok e \<Longrightarrow> keeps t ok (wait_while_busy h us) e"
    and steady_reset: "ok e \<Longrightarrow> keeps t ok (HalGpioWrite h GPIO_PIN_RESET v) e"
    and steady_spi: "ok e \<Longrightarrow> keeps t ok (HalSpiTransfer h out) e"
    and steady_hook: "ok e \<Longrightarrow> keeps t ok (run_hook h k) e"
    and steady_sleep: "ok e \<Longrightarrow> ok (sleep_for h us e)"
begin

lemma on_bus_prims:
  "on_bus t ok (WaitOnBusy h)" "on_bus t ok (WaitOnBusyLong h)"
  "on_bus t ok (virt (HalGpioWrite h GPIO_PIN_RESET v))" "on_bus t ok (virt (HalSpiTransfer h out))"
  "on_bus t ok (sleep_ms h n)" "on_bus t ok (virt (run_hook h k))"
  unfolding WaitOnBusy_def WaitOnBusyLong_def
  by (simp_all add: on_bus_virt steady_wait steady_reset steady_spi steady_hook)
     (simp add: on_bus_def sleep_ms_def steady_sleep)

lemmas on_bus_intro = on_bus_prims on_bus_ret on_bus_bind on_bus_when on_bus_seq on_bus_if

lemma lock_neutral_hooks [lock_intro]:
  "lock_neutral t ok (virt (HalPreTx h))" "lock_neutral t ok (virt (HalPreRx h))"
  "lock_neutral t ok (virt (HalPostTx h))" "lock_neutral t ok (virt (HalPostRx h))"
  using on_bus_prims(6) [of PreTx, THEN lock_neutral_on_bus] on_bus_prims(6) [of PreRx, THEN lock_neutral_on_bus]
    on_bus_prims(6) [of PostTx, THEN lock_neutral_on_bus] on_bus_prims(6) [of PostRx, THEN lock_neutral_on_bus]
  by simp_all

lemma lock_neutral_bus [lock_intro]:
  "lock_neutral t ok (WriteCommand h op buf)" "lock_neutral t ok (ReadCommand h op n)"
  "lock_neutral t ok (WriteRegisters h a vs)" "lock_neutral t ok (ReadRegisters h a n)"
  "lock_neutral t ok (WriteBuffer h off p)" "lock_neutral t ok (ReadBuffer h off l)"
  "lock_neutral t ok (Reset h)" "lock_neutral t ok (Wakeup h)"
  unfolding WriteCommand_def ReadCommand_def WriteRegisters_def ReadRegisters_def WriteBuffer_def
    ReadBuffer_def Reset_def Wakeup_def HalSpiWrite_def
  by (intro lock_neutral_with_IOLock on_bus_intro)+

lemma lock_neutral_register [lock_intro]:
  "lock_neutral t ok (WriteRegister h a v)" "lock_neutral t ok (ReadRegister h a)"
  unfolding WriteRegister_def ReadRegister_def by (intro lock_intro lock_neutral_bus)+

end

text \<open>Any HAL is steady for partial correctness.\<close>

sublocale hal_obs \<subseteq> steady: hal_steady h False "\<lambda>_. True"
  by unfold_locales (auto simp: keeps_def intro!: wp_intro intro: wp_run_hook)

section \<open>HALs on which the operations return\<close>

text \<open>
  \<open>ok\<close> describes the states in which the hardware and the operating system answer; \<open>budget\<close> bounds
  how often the busy pin can still be read high. Under these laws no bus operation throws and every
  busy-wait ends.
\<close>

locale hal_live =
  fixes h :: "'e hal" and ok :: "'e \<Rightarrow> bool" and budget :: "'e \<Rightarrow> nat"
  assumes live_busy: "ok e \<Longrightarrow> \<exists>v e'. HalGpioRead h GPIO_PIN_BUSY e = Some (Ret v e') \<and> ok e' \<and>
        (v \<noteq> 0 \<longrightarrow> budget (sleep_for h us e') < budget e)"
    and live_reset: "ok e \<Longrightarrow> twp (HalGpioWrite h GPIO_PIN_RESET v) (\<lambda>_. ok) e"
    and live_spi: "ok e \<Longrightarrow> twp (HalSpiTransfer h out) (\<lambda>_. ok) e"
    and live_hook: "ok e \<Longrightarrow> twp (run_hook h k) (\<lambda>_. ok) e"
    and live_sleep: "ok e \<Longrightarrow> ok (sleep_for h us e)"
begin

lemma wait_while_busy_returns: "ok e \<Longrightarrow> twp (wait_while_busy h us) (\<lambda>_. ok) e"
proof (induction "budget e" arbitrary: e rule: less_induct)
  case less
  from live_busy [OF less.prems] obtain v e' where
    rd: "HalGpioRead h GPIO_PIN_BUSY e = Some (Ret v e')" and ok: "ok e'"
    and dec: "v \<noteq> 0 \<Longrightarrow> budget (sleep_for h us e') < budget e"
    by blast
  show ?case
  proof (cases "v = 0")
    case True
    with rd ok show ?thesis
      by (simp add: twp_def wait_while_busy.simps)
  next
    case False
    with less.hyps [OF dec] live_sleep [OF ok] rd show ?thesis
      by (simp add: twp_def wait_while_busy.simps [of h us e])
  qed
qed

end

sublocale hal_live \<subseteq> steady: hal_steady h True ok
  by unfold_locales (simp_all add: keeps_def wait_while_busy_returns live_reset live_spi live_hook live_sleep)

context hal_live
begin

lemma hal_steady_live: "hal_steady h True ok"
  by (rule steady.hal_steady_axioms)

end

end
