(* ===== verification/SX128x_Commands.thy ===== *)
theory SX128x_Commands
  imports SX128x_Bus
begin

text \<open>
  The commands of the SX128x driver (\<^verbatim>\<open>SX128x.cpp\<close>, from \<^verbatim>\<open>Init\<close> to \<^verbatim>\<open>GetLoRaBandwidth\<close>): mode changes,
  modem configuration, status queries, register tweaks and ranging. Each definition is one member
  function. Pointer arguments read by the callee are functions from positions to bytes, out
  parameters are results.

  The frequency conversion of \<^verbatim>\<open>SetRfFrequency\<close> divides two doubles and truncates; the model truncates
  the exact quotient, which \<open>rf_steps_of_double\<close> shows to be the same for every correctly rounded
  division. The ranging and frequency-error queries end in a floating-point formula over integers;
  the model returns those integers.
\<close>

section \<open>Initialisation and status\<close>

text \<open>The table \<^verbatim>\<open>RadioRegsInit\<close> has no entries.\<close>

definition RadioRegsInit :: "(u16 \<times> u8) list" where
  "RadioRegsInit = []"

definition SetRegistersDefault :: "'e hal \<Rightarrow> ('cb, 'e, unit) drv" where
  "SetRegistersDefault h = seqM (map (\<lambda>(a, v). WriteRegister h a v) RadioRegsInit)"

definition Init :: "'e hal \<Rightarrow> ('cb, 'e, unit) drv" where
  "Init h = seqM [Reset h, Wakeup h, SetRegistersDefault h]"

definition GetFirmwareVersion :: "'e hal \<Rightarrow> ('cb, 'e, u16) drv" where
  "GetFirmwareVersion h =
     bindM (ReadRegister h REG_LR_FIRMWARE_VERSION_MSB) (\<lambda>msb.
     bindM (ReadRegister h (REG_LR_FIRMWARE_VERSION_MSB + 1)) (\<lambda>lsb.
     retM (of_be16 msb lsb)))"

definition GetStatus :: "'e hal \<Rightarrow> ('cb, 'e, RadioStatus_t) drv" where
  "GetStatus h = bindM (ReadCommand h RADIO_GET_STATUS 1) (\<lambda>stat. retM \<lparr>status_Value = stat ! 0\<rparr>)"

definition GetOpMode :: "('cb, 'e, RadioOperatingModes_t) drv" where
  "GetOpMode = get_field OperatingMode"

section \<open>Operating modes\<close>

definition set_mode :: "RadioOperatingModes_t \<Rightarrow> ('cb, 'e, unit) drv" where
  "set_mode m = set_field (\<lambda>b. b\<lparr>OperatingMode := m\<rparr>)"

definition sleep_byte :: "SleepParams_t \<Rightarrow> u8" where
  "sleep_byte c = push_bit 3 (byte_of_bool (WakeUpRTC c)) OR
     push_bit 2 (byte_of_bool (InstructionRamRetention c)) OR
     push_bit 1 (byte_of_bool (DataBufferRetention c)) OR byte_of_bool (DataRamRetention c)"

definition SetSleep :: "'e hal \<Rightarrow> SleepParams_t \<Rightarrow> ('cb, 'e, unit) drv" where
  "SetSleep h sleepConfig = seqM
     [set_mode MODE_SLEEP, WriteCommand h RADIO_SET_SLEEP [sleep_byte sleepConfig]]"

definition SetStandby :: "'e hal \<Rightarrow> RadioStandbyModes_t \<Rightarrow> ('cb, 'e, unit) drv" where
  "SetStandby h standbyConfig = with_IOLock2 (seqM
     [WriteCommand h RADIO_SET_STANDBY [RadioStandbyModes_value standbyConfig],
      if standbyConfig = STDBY_RC then set_mode MODE_STDBY_RC else set_mode MODE_STDBY_XOSC])"

definition SetFs :: "'e hal \<Rightarrow> ('cb, 'e, unit) drv" where
  "SetFs h = seqM [WriteCommand h RADIO_SET_FS [], set_mode MODE_FS]"

definition ClearIrqStatus :: "'e hal \<Rightarrow> u16 \<Rightarrow> ('cb, 'e, unit) drv" where
  "ClearIrqStatus h irqMask = WriteCommand h RADIO_CLR_IRQSTATUS (be16 irqMask)"

definition SetPacketType :: "'e hal \<Rightarrow> RadioPacketTypes_t \<Rightarrow> ('cb, 'e, unit) drv" where
  "SetPacketType h packetType = seqM
     [set_field (\<lambda>b. b\<lparr>PacketType := packetType\<rparr>),
      WriteCommand h RADIO_SET_PACKETTYPE [RadioPacketTypes_value packetType]]"

definition GetPacketType :: "'e hal \<Rightarrow> bool \<Rightarrow> ('cb, 'e, RadioPacketTypes_t) drv" where
  "GetPacketType h returnLocalCopy =
     (if returnLocalCopy then get_field PacketType
      else bindM (ReadCommand h RADIO_GET_PACKETTYPE 1) (\<lambda>r.
           bindM (set_field (\<lambda>b. b\<lparr>PacketType := packet_type_of_byte (r ! 0)\<rparr>)) (\<lambda>_.
           retM (packet_type_of_byte (r ! 0)))))"

definition SetRangingRole :: "'e hal \<Rightarrow> RadioRangingRoles_t \<Rightarrow> ('cb, 'e, unit) drv" where
  "SetRangingRole h role = WriteCommand h RADIO_SET_RANGING_ROLE [RadioRangingRoles_value role]"

definition timeout_bytes :: "TickTime_t \<Rightarrow> bytes" where
  "timeout_bytes timeout = RadioTickSizes_value (PeriodBase timeout) # be16 (PeriodBaseCount timeout)"

definition SetTx :: "'e hal \<Rightarrow> TickTime_t \<Rightarrow> ('cb, 'e, unit) drv" where
  "SetTx h timeout = with_IOLock2 (seqM
     [ClearIrqStatus h (RadioIrqMasks_value IRQ_RADIO_ALL),
      bindM (GetPacketType h True) (\<lambda>t.
        whenM (t = PACKET_TYPE_RANGING) (SetRangingRole h RADIO_RANGING_ROLE_MASTER)),
      virt (HalPostRx h),
      virt (HalPreTx h),
      WriteCommand h RADIO_SET_TX (timeout_bytes timeout),
      set_mode MODE_TX])"

definition SetRx :: "'e hal \<Rightarrow> TickTime_t \<Rightarrow> ('cb, 'e, unit) drv" where
  "SetRx h timeout = with_IOLock2 (seqM
     [ClearIrqStatus h (RadioIrqMasks_value IRQ_RADIO_ALL),
      bindM (GetPacketType h True) (\<lambda>t.
        whenM (t = PACKET_TYPE_RANGING) (SetRangingRole h RADIO_RANGING_ROLE_SLAVE)),
      virt (HalPostTx h),
      virt (HalPreRx h),
      WriteCommand h RADIO_SET_RX (timeout_bytes timeout),
      set_mode MODE_RX])"

definition SetRxDutyCycle :: "'e hal \<Rightarrow> RadioTickSizes_t \<Rightarrow> u16 \<Rightarrow> u16 \<Rightarrow> ('cb, 'e, unit) drv" where
  "SetRxDutyCycle h periodBase periodBaseCountRx periodBaseCountSleep = seqM
     [virt (HalPostTx h),
      virt (HalPreRx h),
      WriteCommand h RADIO_SET_RXDUTYCYCLE
        (RadioTickSizes_value periodBase # be16 periodBaseCountRx @ be16 periodBaseCountSleep),
      set_mode MODE_RX]"

definition SetCad :: "'e hal \<Rightarrow> ('cb, 'e, unit) drv" where
  "SetCad h = with_IOLock2 (seqM
     [virt (HalPostTx h), virt (HalPreRx h), WriteCommand h RADIO_SET_CAD [], set_mode MODE_CAD])"

definition SetTxContinuousWave :: "'e hal \<Rightarrow> ('cb, 'e, unit) drv" where
  "SetTxContinuousWave h = with_IOLock2 (seqM
     [virt (HalPostRx h), virt (HalPreTx h), WriteCommand h RADIO_SET_TXCONTINUOUSWAVE []])"

definition SetTxContinuousPreamble :: "'e hal \<Rightarrow> ('cb, 'e, unit) drv" where
  "SetTxContinuousPreamble h = with_IOLock2 (seqM
     [virt (HalPostRx h), virt (HalPreTx h), WriteCommand h RADIO_SET_TXCONTINUOUSPREAMBLE []])"

section \<open>Modem configuration\<close>

text \<open>\<^verbatim>\<open>(uint32_t)((double)rfFrequency / FREQ_STEP)\<close> with
  \<^verbatim>\<open>FREQ_STEP = (double)XTAL_FREQ / pow(2.0, 18.0)\<close>.\<close>

definition rf_steps :: "u32 \<Rightarrow> u32" where
  "rf_steps rfFrequency = of_nat (unat rfFrequency * 2 ^ 18 div XTAL_FREQ)"

definition SetRfFrequency :: "'e hal \<Rightarrow> u32 \<Rightarrow> ('cb, 'e, unit) drv" where
  "SetRfFrequency h rfFrequency = WriteCommand h RADIO_SET_RFFREQUENCY (be24 (rf_steps rfFrequency))"

definition SetTxParams :: "'e hal \<Rightarrow> u8 \<Rightarrow> RadioRampTimes_t \<Rightarrow> ('cb, 'e, unit) drv" where
  "SetTxParams h dbm rampTime =
     WriteCommand h RADIO_SET_TXPARAMS [dbm + 18, RadioRampTimes_value rampTime]"

definition SetCadParams :: "'e hal \<Rightarrow> RadioLoRaCadSymbols_t \<Rightarrow> ('cb, 'e, unit) drv" where
  "SetCadParams h cadSymbolNum = seqM
     [WriteCommand h RADIO_SET_CADPARAMS [RadioLoRaCadSymbols_value cadSymbolNum], set_mode MODE_CAD]"

definition SetBufferBaseAddresses :: "'e hal \<Rightarrow> u8 \<Rightarrow> u8 \<Rightarrow> ('cb, 'e, unit) drv" where
  "SetBufferBaseAddresses h txBaseAddress rxBaseAddress =
     WriteCommand h RADIO_SET_BUFFERBASEADDRESS [txBaseAddress, rxBaseAddress]"

text \<open>The bytes of the switch in \<^verbatim>\<open>SetModulationParams\<close>; \<open>garbage\<close> is what the local array held before,
  which is sent when no case matches.\<close>

definition modulation_bytes :: "rx_buffer \<Rightarrow> ModulationParams_t \<Rightarrow> bytes" where
  "modulation_bytes garbage p = (case mod_PacketType p of
       PACKET_TYPE_GFSK \<Rightarrow>
         [RadioGfskBleBitrates_value (mod_Gfsk_BitrateBandwidth (mod_Gfsk p)),
          RadioGfskBleModIndexes_value (mod_Gfsk_ModulationIndex (mod_Gfsk p)),
          RadioModShapings_value (mod_Gfsk_ModulationShaping (mod_Gfsk p))]
     | PACKET_TYPE_LORA \<Rightarrow>
         [RadioLoRaSpreadingFactors_value (mod_LoRa_SpreadingFactor (mod_LoRa p)),
          RadioLoRaBandwidths_value (mod_LoRa_Bandwidth (mod_LoRa p)),
          RadioLoRaCodingRates_value (mod_LoRa_CodingRate (mod_LoRa p))]
     | PACKET_TYPE_RANGING \<Rightarrow>
         [RadioLoRaSpreadingFactors_value (mod_LoRa_SpreadingFactor (mod_LoRa p)),
          RadioLoRaBandwidths_value (mod_LoRa_Bandwidth (mod_LoRa p)),
          RadioLoRaCodingRates_value (mod_LoRa_CodingRate (mod_LoRa p))]
     | PACKET_TYPE_FLRC \<Rightarrow>
         [RadioFlrcBitrates_value (mod_Flrc_BitrateBandwidth (mod_Flrc p)),
          RadioFlrcCodingRates_value (mod_Flrc_CodingRate (mod_Flrc p)),
          RadioModShapings_value (mod_Flrc_ModulationShaping (mod_Flrc p))]
     | PACKET_TYPE_BLE \<Rightarrow>
         [RadioGfskBleBitrates_value (mod_Ble_BitrateBandwidth (mod_Ble p)),
          RadioGfskBleModIndexes_value (mod_Ble_ModulationIndex (mod_Ble p)),
          RadioModShapings_value (mod_Ble_ModulationShaping (mod_Ble p))]
     | PACKET_TYPE_NONE \<Rightarrow> [0, 0, 0]
     | PACKET_TYPE_RAW _ \<Rightarrow> buffer_slice garbage 0 3)"

definition SetModulationParams :: "'e hal \<Rightarrow> ModulationParams_t \<Rightarrow> ('cb, 'e, unit) drv" where
  "SetModulationParams h modParams = seqM
     [bindM (get_field PacketType) (\<lambda>t.
        whenM (t \<noteq> mod_PacketType modParams) (SetPacketType h (mod_PacketType modParams))),
      whenM (mod_PacketType modParams = PACKET_TYPE_LORA \<or> mod_PacketType modParams = PACKET_TYPE_RANGING)
        (set_field (\<lambda>b. b\<lparr>LoRaBandwidth := mod_LoRa_Bandwidth (mod_LoRa modParams)\<rparr>)),
      WriteCommand h RADIO_SET_MODULATIONPARAMS (modulation_bytes (stack_garbage h) modParams),
      set_field (\<lambda>b. b\<lparr>CurrentModParams := modParams\<rparr>)]"

definition packet_bytes :: "rx_buffer \<Rightarrow> PacketParams_t \<Rightarrow> bytes" where
  "packet_bytes garbage p = (case pkt_PacketType p of
       PACKET_TYPE_GFSK \<Rightarrow>
         [RadioPreambleLengths_value (pkt_Gfsk_PreambleLength (pkt_Gfsk p)),
          RadioSyncWordLengths_value (pkt_Gfsk_SyncWordLength (pkt_Gfsk p)),
          RadioSyncWordRxMatchs_value (pkt_Gfsk_SyncWordMatch (pkt_Gfsk p)),
          RadioPacketLengthModes_value (pkt_Gfsk_HeaderType (pkt_Gfsk p)),
          pkt_Gfsk_PayloadLength (pkt_Gfsk p),
          RadioCrcTypes_value (pkt_Gfsk_CrcLength (pkt_Gfsk p)),
          RadioWhiteningModes_value (pkt_Gfsk_Whitening (pkt_Gfsk p))]
     | PACKET_TYPE_LORA \<Rightarrow>
         [pkt_LoRa_PreambleLength (pkt_LoRa p),
          RadioLoRaPacketLengthsModes_value (pkt_LoRa_HeaderType (pkt_LoRa p)),
          pkt_LoRa_PayloadLength (pkt_LoRa p),
          RadioLoRaCrcModes_value (pkt_LoRa_Crc (pkt_LoRa p)),
          RadioLoRaIQModes_value (pkt_LoRa_InvertIQ (pkt_LoRa p)), 0, 0]
     | PACKET_TYPE_RANGING \<Rightarrow>
         [pkt_LoRa_PreambleLength (pkt_LoRa p),
          RadioLoRaPacketLengthsModes_value (pkt_LoRa_HeaderType (pkt_LoRa p)),
          pkt_LoRa_PayloadLength (pkt_LoRa p),
          RadioLoRaCrcModes_value (pkt_LoRa_Crc (pkt_LoRa p)),
          RadioLoRaIQModes_value (pkt_LoRa_InvertIQ (pkt_LoRa p)), 0, 0]
     | PACKET_TYPE_FLRC \<Rightarrow>
         [RadioPreambleLengths_value (pkt_Flrc_PreambleLength (pkt_Flrc p)),
          RadioFlrcSyncWordLengths_value (pkt_Flrc_SyncWordLength (pkt_Flrc p)),
          RadioSyncWordRxMatchs_value (pkt_Flrc_SyncWordMatch (pkt_Flrc p)),
          RadioPacketLengthModes_value (pkt_Flrc_HeaderType (pkt_Flrc p)),
          pkt_Flrc_PayloadLength (pkt_Flrc p),
          RadioCrcTypes_value (pkt_Flrc_CrcLength (pkt_Flrc p)),
          RadioWhiteningModes_value (pkt_Flrc_Whitening (pkt_Flrc p))]
     | PACKET_TYPE_BLE \<Rightarrow>
         [RadioBleConnectionStates_value (pkt_Ble_ConnectionState (pkt_Ble p)),
          RadioBleCrcTypes_value (pkt_Ble_CrcLength (pkt_Ble p)),
          RadioBleTestPayloads_value (pkt_Ble_BleTestPayload (pkt_Ble p)),
          RadioWhiteningModes_value (pkt_Ble_Whitening (pkt_Ble p)), 0, 0, 0]
     | PACKET_TYPE_NONE \<Rightarrow> [0, 0, 0, 0, 0, 0, 0]
     | PACKET_TYPE_RAW _ \<Rightarrow> buffer_slice garbage 0 7)"

definition SetPacketParams :: "'e hal \<Rightarrow> PacketParams_t \<Rightarrow> ('cb, 'e, unit) drv" where
  "SetPacketParams h packetParams = seqM
     [bindM (get_field PacketType) (\<lambda>t.
        whenM (t \<noteq> pkt_PacketType packetParams) (SetPacketType h (pkt_PacketType packetParams))),
      WriteCommand h RADIO_SET_PACKETPARAMS (packet_bytes (stack_garbage h) packetParams),
      set_field (\<lambda>b. b\<lparr>CurrentPacketParams := packetParams\<rparr>)]"

text \<open>Reading a register, changing it and writing it back.\<close>

definition modify_register :: "'e hal \<Rightarrow> u16 \<Rightarrow> (u8 \<Rightarrow> u8) \<Rightarrow> ('cb, 'e, unit) drv" where
  "modify_register h address f = bindM (ReadRegister h address) (\<lambda>v. WriteRegister h address (f v))"

definition ForcePreambleLength :: "'e hal \<Rightarrow> RadioPreambleLengths_t \<Rightarrow> ('cb, 'e, unit) drv" where
  "ForcePreambleLength h preambleLength = modify_register h REG_LR_PREAMBLELENGTH
     (\<lambda>v. (v AND MASK_FORCE_PREAMBLELENGTH) OR RadioPreambleLengths_value preambleLength)"

section \<open>Status queries\<close>

definition GetRxBufferStatus :: "'e hal \<Rightarrow> ('cb, 'e, u8 \<times> u8) drv" where
  "GetRxBufferStatus h =
     bindM (ReadCommand h RADIO_GET_RXBUFFERSTATUS 2) (\<lambda>status.
     bindM (GetPacketType h True) (\<lambda>t.
     bindM (if t = PACKET_TYPE_LORA
            then bindM (ReadRegister h REG_LR_PACKETPARAMS) (\<lambda>r. retM (drop_bit 7 r = 1))
            else retM False) (\<lambda>fixed_header.
     bindM (if fixed_header then ReadRegister h REG_LR_PAYLOADLENGTH
            else if t = PACKET_TYPE_BLE then retM (status ! 0 + 2)
            else retM (status ! 0)) (\<lambda>rxPayloadLength.
     retM (rxPayloadLength, status ! 1)))))"

definition error_status :: "u8 \<Rightarrow> ErrorStatus" where
  "error_status b = \<lparr>SyncError = bit b 6, LengthError = bit b 5, CrcError = bit b 4,
     AbortError = bit b 3, HeaderReceived = bit b 2, PacketReceived = bit b 1,
     PacketControlerBusy = bit b 0\<rparr>"

text \<open>The RSSI expression \<^verbatim>\<open>-(b / 2)\<close> and the SNR expression of the LoRa case.\<close>

definition rssi_of_byte :: "u8 \<Rightarrow> int" where
  "rssi_of_byte b = - (uint b div 2)"

definition snr_of_byte :: "u8 \<Rightarrow> int" where
  "snr_of_byte b = (if uint b < 128 then cdiv (uint b) 4 else cdiv (uint b - 256) 4)"

text \<open>The switch of \<^verbatim>\<open>GetPacketStatus\<close> on the five status bytes. A packet type that is no enumerator
  leaves the union as the caller passed it.\<close>

definition decode_packet_status :: "RadioPacketTypes_t \<Rightarrow> bytes \<Rightarrow> PacketStatusBody \<Rightarrow> PacketStatusBody" where
  "decode_packet_status t status old = (case t of
       PACKET_TYPE_GFSK \<Rightarrow>
         Gfsk_status (rssi_of_byte (status ! 1)) (error_status (status ! 2))
           (bit (status ! 3) 5) (bit (status ! 3) 0) (status ! 4 AND 0x07)
     | PACKET_TYPE_LORA \<Rightarrow> LoRa_status (rssi_of_byte (status ! 0)) (snr_of_byte (status ! 1))
     | PACKET_TYPE_RANGING \<Rightarrow> LoRa_status (rssi_of_byte (status ! 0)) (snr_of_byte (status ! 1))
     | PACKET_TYPE_FLRC \<Rightarrow>
         Flrc_status (rssi_of_byte (status ! 1)) (error_status (status ! 2))
           (drop_bit 6 (status ! 3) AND 0x03) (bit (status ! 3) 5) (bit (status ! 3) 4)
           (bit (status ! 3) 0) (status ! 4 AND 0x07)
     | PACKET_TYPE_BLE \<Rightarrow>
         Ble_status (rssi_of_byte (status ! 1)) (error_status (status ! 2))
           (bit (status ! 3) 0) (status ! 4 AND 0x07)
     | PACKET_TYPE_NONE \<Rightarrow> Zeroed_status
     | PACKET_TYPE_RAW _ \<Rightarrow> old)"

definition GetPacketStatus :: "'e hal \<Rightarrow> PacketStatus_t \<Rightarrow> ('cb, 'e, PacketStatus_t) drv" where
  "GetPacketStatus h packetStatus =
     bindM (ReadCommand h RADIO_GET_PACKETSTATUS 5) (\<lambda>status.
     bindM (GetPacketType h True) (\<lambda>t.
     retM \<lparr>ps_packetType = t, ps_body = decode_packet_status t status (ps_body packetStatus)\<rparr>))"

definition GetRssiInst :: "'e hal \<Rightarrow> ('cb, 'e, int) drv" where
  "GetRssiInst h = bindM (ReadCommand h RADIO_GET_RSSIINST 1) (\<lambda>r. retM (cdiv (- uint (r ! 0)) 2))"

section \<open>Interrupts, calibration, regulator, automatic modes\<close>

definition SetDioIrqParams :: "'e hal \<Rightarrow> u16 \<Rightarrow> u16 \<Rightarrow> u16 \<Rightarrow> u16 \<Rightarrow> ('cb, 'e, unit) drv" where
  "SetDioIrqParams h irqMask dio1Mask dio2Mask dio3Mask =
     WriteCommand h RADIO_SET_DIOIRQPARAMS
       (be16 irqMask @ be16 dio1Mask @ be16 dio2Mask @ be16 dio3Mask)"

definition GetIrqStatus :: "'e hal \<Rightarrow> ('cb, 'e, u16) drv" where
  "GetIrqStatus h = bindM (ReadCommand h RADIO_GET_IRQSTATUS 2)
     (\<lambda>irqStatus. retM (of_be16 (irqStatus ! 0) (irqStatus ! 1)))"

definition calibration_byte :: "CalibrationParams_t \<Rightarrow> u8" where
  "calibration_byte c = push_bit 5 (byte_of_bool (ADCBulkPEnable c)) OR
     push_bit 4 (byte_of_bool (ADCBulkNEnable c)) OR push_bit 3 (byte_of_bool (ADCPulseEnable c)) OR
     push_bit 2 (byte_of_bool (PLLEnable c)) OR push_bit 1 (byte_of_bool (RC13MEnable c)) OR
     byte_of_bool (RC64KEnable c)"

definition Calibrate :: "'e hal \<Rightarrow> CalibrationParams_t \<Rightarrow> ('cb, 'e, unit) drv" where
  "Calibrate h calibParam = WriteCommand h RADIO_CALIBRATE [calibration_byte calibParam]"

definition SetRegulatorMode :: "'e hal \<Rightarrow> RadioRegulatorModes_t \<Rightarrow> ('cb, 'e, unit) drv" where
  "SetRegulatorMode h mode = WriteCommand h RADIO_SET_REGULATORMODE [RadioRegulatorModes_value mode]"

definition SetSaveContext :: "'e hal \<Rightarrow> ('cb, 'e, unit) drv" where
  "SetSaveContext h = WriteCommand h RADIO_SET_SAVECONTEXT []"

definition SetAutoTx :: "'e hal \<Rightarrow> u16 \<Rightarrow> ('cb, 'e, unit) drv" where
  "SetAutoTx h time = WriteCommand h RADIO_SET_AUTOTX (be16 (time - AUTO_TX_OFFSET))"

definition StopAutoTx :: "'e hal \<Rightarrow> ('cb, 'e, unit) drv" where
  "StopAutoTx h = WriteCommand h RADIO_SET_AUTOTX [0, 0]"

definition SetAutoFs :: "'e hal \<Rightarrow> bool \<Rightarrow> ('cb, 'e, unit) drv" where
  "SetAutoFs h enableAutoFs = WriteCommand h RADIO_SET_AUTOFS [byte_of_bool enableAutoFs]"

definition SetLongPreamble :: "'e hal \<Rightarrow> bool \<Rightarrow> ('cb, 'e, unit) drv" where
  "SetLongPreamble h enable = WriteCommand h RADIO_SET_LONGPREAMBLE [byte_of_bool enable]"

section \<open>Payloads\<close>

definition SetPayload :: "'e hal \<Rightarrow> bytes \<Rightarrow> u8 \<Rightarrow> ('cb, 'e, unit) drv" where
  "SetPayload h payload offset = WriteBuffer h offset payload"

text \<open>The result: the return code, the value stored through \<^verbatim>\<open>size\<close>, and the bytes stored in the
  caller's buffer, if any.\<close>

definition GetPayload :: "'e hal \<Rightarrow> u8 \<Rightarrow> ('cb, 'e, u8 \<times> u8 \<times> bytes option) drv" where
  "GetPayload h maxSize =
     bindM (GetRxBufferStatus h) (\<lambda>(n, offset).
     if n > maxSize then retM (1, n, None)
     else bindM (ReadBuffer h offset n) (\<lambda>payload. retM (0, n, Some payload)))"

definition SendPayload :: "'e hal \<Rightarrow> bytes \<Rightarrow> TickTime_t \<Rightarrow> u8 \<Rightarrow> ('cb, 'e, unit) drv" where
  "SendPayload h payload timeout offset = seqM [SetPayload h payload offset, SetTx h timeout]"

section \<open>Sync words, checksums, whitening\<close>

text \<open>The base address and length \<^verbatim>\<open>SetSyncWord\<close> chooses, \<open>None\<close> for its early \<^verbatim>\<open>return 1\<close>.\<close>

definition sync_word_slot :: "RadioPacketTypes_t \<Rightarrow> u8 \<Rightarrow> (u16 \<times> nat) option" where
  "sync_word_slot t syncWordIdx = (case t of
       PACKET_TYPE_GFSK \<Rightarrow>
         (if syncWordIdx = 1 then Some (REG_LR_SYNCWORDBASEADDRESS1, 5)
          else if syncWordIdx = 2 then Some (REG_LR_SYNCWORDBASEADDRESS2, 5)
          else if syncWordIdx = 3 then Some (REG_LR_SYNCWORDBASEADDRESS3, 5)
          else None)
     | PACKET_TYPE_FLRC \<Rightarrow>
         (if syncWordIdx = 1 then Some (REG_LR_SYNCWORDBASEADDRESS1 + 1, 4)
          else if syncWordIdx = 2 then Some (REG_LR_SYNCWORDBASEADDRESS2 + 1, 4)
          else if syncWordIdx = 3 then Some (REG_LR_SYNCWORDBASEADDRESS3 + 1, 4)
          else None)
     | PACKET_TYPE_BLE \<Rightarrow>
         (if syncWordIdx = 1 then Some (REG_LR_SYNCWORDBASEADDRESS1 + 1, 4) else None)
     | _ \<Rightarrow> None)"

definition SetSyncWord :: "'e hal \<Rightarrow> u8 \<Rightarrow> rx_buffer \<Rightarrow> ('cb, 'e, u8) drv" where
  "SetSyncWord h syncWordIdx syncWord =
     bindM (GetPacketType h True) (\<lambda>t. case sync_word_slot t syncWordIdx of
         None \<Rightarrow> retM 1
       | Some (addr, syncwordSize) \<Rightarrow>
           bindM (WriteRegisters h addr (buffer_slice syncWord 0 syncwordSize)) (\<lambda>_. retM 0))"

definition SetSyncWordErrorTolerance :: "'e hal \<Rightarrow> u8 \<Rightarrow> ('cb, 'e, unit) drv" where
  "SetSyncWordErrorTolerance h ErrorBits = modify_register h REG_LR_SYNCWORDTOLERANCE
     (\<lambda>v. (v AND 0xF0) OR (ErrorBits AND 0x0F))"

definition SetCrcSeed :: "'e hal \<Rightarrow> rx_buffer \<Rightarrow> ('cb, 'e, u8) drv" where
  "SetCrcSeed h seed =
     bindM (GetPacketType h True) (\<lambda>t.
     if t = PACKET_TYPE_GFSK \<or> t = PACKET_TYPE_FLRC
     then bindM (WriteRegisters h REG_LR_CRCSEEDBASEADDR (buffer_slice seed 0 2)) (\<lambda>_. retM 1)
     else if t = PACKET_TYPE_BLE
     then bindM (seqM [WriteRegister h 0x9C7 (seed 2), WriteRegister h 0x9C8 (seed 1),
                       WriteRegister h 0x9C9 (seed 0)]) (\<lambda>_. retM 1)
     else retM 0)"

definition SetBleAccessAddress :: "'e hal \<Rightarrow> u32 \<Rightarrow> ('cb, 'e, unit) drv" where
  "SetBleAccessAddress h accessAddress = seqM
     [WriteRegister h REG_LR_BLE_ACCESS_ADDRESS (ucast (drop_bit 24 accessAddress AND 0xFF)),
      WriteRegister h (REG_LR_BLE_ACCESS_ADDRESS + 1) (ucast (drop_bit 16 accessAddress AND 0xFF)),
      WriteRegister h (REG_LR_BLE_ACCESS_ADDRESS + 2) (ucast (drop_bit 8 accessAddress AND 0xFF)),
      WriteRegister h (REG_LR_BLE_ACCESS_ADDRESS + 3) (ucast (accessAddress AND 0xFF))]"

definition SetBleAdvertizerAccessAddress :: "'e hal \<Rightarrow> ('cb, 'e, unit) drv" where
  "SetBleAdvertizerAccessAddress h = SetBleAccessAddress h BLE_ADVERTIZER_ACCESS_ADDRESS"

definition SetCrcPolynomial :: "'e hal \<Rightarrow> u16 \<Rightarrow> ('cb, 'e, unit) drv" where
  "SetCrcPolynomial h polynomial =
     bindM (GetPacketType h True) (\<lambda>t.
     whenM (t = PACKET_TYPE_GFSK \<or> t = PACKET_TYPE_FLRC)
       (WriteRegisters h REG_LR_CRCPOLYBASEADDR (be16 polynomial)))"

definition SetWhiteningSeed :: "'e hal \<Rightarrow> u8 \<Rightarrow> ('cb, 'e, unit) drv" where
  "SetWhiteningSeed h seed =
     bindM (GetPacketType h True) (\<lambda>t.
     whenM (t = PACKET_TYPE_GFSK \<or> t = PACKET_TYPE_FLRC \<or> t = PACKET_TYPE_BLE)
       (WriteRegister h REG_LR_WHITSEEDBASEADDR seed))"

section \<open>Receiver gain\<close>

definition EnableManualGain :: "'e hal \<Rightarrow> ('cb, 'e, unit) drv" where
  "EnableManualGain h = seqM
     [modify_register h REG_ENABLE_MANUAL_GAIN_CONTROL (\<lambda>v. v OR MASK_MANUAL_GAIN_CONTROL),
      modify_register h REG_DEMOD_DETECTION (\<lambda>v. v AND MASK_DEMOD_DETECTION)]"

definition DisableManualGain :: "'e hal \<Rightarrow> ('cb, 'e, unit) drv" where
  "DisableManualGain h = seqM
     [modify_register h REG_ENABLE_MANUAL_GAIN_CONTROL (\<lambda>v. v AND NOT MASK_MANUAL_GAIN_CONTROL),
      modify_register h REG_DEMOD_DETECTION (\<lambda>v. v OR NOT MASK_DEMOD_DETECTION)]"

definition SetManualGainValue :: "'e hal \<Rightarrow> u8 \<Rightarrow> ('cb, 'e, unit) drv" where
  "SetManualGainValue h gain = modify_register h REG_MANUAL_GAIN_VALUE
     (\<lambda>v. (v AND MASK_MANUAL_GAIN_VALUE) OR gain)"

definition SetLNAGainSetting :: "'e hal \<Rightarrow> RadioLnaSettings_t \<Rightarrow> ('cb, 'e, unit) drv" where
  "SetLNAGainSetting h lnaSetting = (case lnaSetting of
       LNA_HIGH_SENSITIVITY_MODE \<Rightarrow> modify_register h REG_LNA_REGIME (\<lambda>v. v OR MASK_LNA_REGIME)
     | LNA_LOW_POWER_MODE \<Rightarrow> modify_register h REG_LNA_REGIME (\<lambda>v. v AND NOT MASK_LNA_REGIME))"

section \<open>Ranging\<close>

definition when_ranging :: "'e hal \<Rightarrow> ('cb, 'e, unit) drv \<Rightarrow> ('cb, 'e, unit) drv" where
  "when_ranging h m = bindM (GetPacketType h True) (\<lambda>t. whenM (t = PACKET_TYPE_RANGING) m)"

definition SetRangingIdLength :: "'e hal \<Rightarrow> RadioRangingIdCheckLengths_t \<Rightarrow> ('cb, 'e, unit) drv" where
  "SetRangingIdLength h len = when_ranging h (modify_register h REG_LR_RANGINGIDCHECKLENGTH
     (\<lambda>v. push_bit 6 (RadioRangingIdCheckLengths_value len AND 0x03) OR (v AND 0x3F)))"

definition SetDeviceRangingAddress :: "'e hal \<Rightarrow> u32 \<Rightarrow> ('cb, 'e, unit) drv" where
  "SetDeviceRangingAddress h address =
     when_ranging h (WriteRegisters h REG_LR_DEVICERANGINGADDR (be32 address))"

definition SetRangingRequestAddress :: "'e hal \<Rightarrow> u32 \<Rightarrow> ('cb, 'e, unit) drv" where
  "SetRangingRequestAddress h address =
     when_ranging h (WriteRegisters h REG_LR_REQUESTRANGINGADDR (be32 address))"

definition complement2 :: "u32 \<Rightarrow> nat \<Rightarrow> int" where
  "complement2 num bitCnt =
     (if uint num \<ge> 2 * 2 ^ (bitCnt - 2) then sint num - 2 * 2 ^ (bitCnt - 1) else sint num)"

definition GetLoRaBandwidth :: "('cb, 'e, int) drv" where
  "GetLoRaBandwidth = bindM (get_field LoRaBandwidth) (\<lambda>bw. retM (case bw of
       LORA_BW_0200 \<Rightarrow> 203125 | LORA_BW_0400 \<Rightarrow> 406250 | LORA_BW_0800 \<Rightarrow> 812500
     | LORA_BW_1600 \<Rightarrow> 1625000 | LORA_BW_RAW _ \<Rightarrow> 0))"

text \<open>The operands of the conversion at the end of \<^verbatim>\<open>GetRangingResult\<close>:
  \<open>Ranging_raw c w\<close> is the double \<^verbatim>\<open>c / w * 36621.09375\<close>, \<open>Ranging_filtered v\<close> is \<^verbatim>\<open>v * 20.0 / 100.0\<close>,
  \<open>Ranging_none\<close> is \<^verbatim>\<open>0.0\<close>.\<close>

datatype ranging_result = Ranging_none | Ranging_raw int int | Ranging_filtered u32

definition select_ranging_result :: "'e hal \<Rightarrow> RadioRangingResultTypes_t \<Rightarrow> ('cb, 'e, unit) drv" where
  "select_ranging_result h resultType = seqM
     [SetStandby h STDBY_XOSC,
      modify_register h 0x97F (\<lambda>v. v OR push_bit 1 1),
      modify_register h REG_LR_RANGINGRESULTCONFIG
        (\<lambda>v. (v AND MASK_RANGINGMUXSEL) OR
             push_bit 4 (RadioRangingResultTypes_value resultType AND 0x03))]"

definition GetRangingResult :: "'e hal \<Rightarrow> RadioRangingResultTypes_t \<Rightarrow> ('cb, 'e, ranging_result) drv" where
  "GetRangingResult h resultType =
     bindM (GetPacketType h True) (\<lambda>t.
     if t = PACKET_TYPE_RANGING then
       bindM (select_ranging_result h resultType) (\<lambda>_.
       bindM (ReadRegister h REG_LR_RANGINGRESULTBASEADDR) (\<lambda>b2.
       bindM (ReadRegister h (REG_LR_RANGINGRESULTBASEADDR + 1)) (\<lambda>b1.
       bindM (ReadRegister h (REG_LR_RANGINGRESULTBASEADDR + 2)) (\<lambda>b0.
       bindM (SetStandby h STDBY_RC) (\<lambda>_.
       bindM GetLoRaBandwidth (\<lambda>bw.
       retM (if resultType = RANGING_RESULT_RAW then Ranging_raw (complement2 (of_be24 b2 b1 b0) 24) bw
             else Ranging_filtered (of_be24 b2 b1 b0))))))))
     else retM Ranging_none)"

definition GetRangingPowerDeltaThresholdIndicator :: "'e hal \<Rightarrow> ('cb, 'e, u8) drv" where
  "GetRangingPowerDeltaThresholdIndicator h =
     bindM (select_ranging_result h RANGING_RESULT_RAW) (\<lambda>_. ReadRegister h REG_RANGING_RSSI)"

definition SetRangingCalibration :: "'e hal \<Rightarrow> u16 \<Rightarrow> ('cb, 'e, unit) drv" where
  "SetRangingCalibration h cal = when_ranging h (seqM
     [WriteRegister h REG_LR_RANGINGRERXTXDELAYCAL (ucast (drop_bit 8 cal AND 0xFF)),
      WriteRegister h (REG_LR_RANGINGRERXTXDELAYCAL + 1) (ucast (cal AND 0xFF))])"

definition RangingClearFilterResult :: "'e hal \<Rightarrow> ('cb, 'e, unit) drv" where
  "RangingClearFilterResult h =
     bindM (ReadRegister h REG_LR_RANGINGRESULTCLEARREG) (\<lambda>regVal. seqM
       [WriteRegister h REG_LR_RANGINGRESULTCLEARREG (regVal OR push_bit 5 1),
        WriteRegister h REG_LR_RANGINGRESULTCLEARREG (regVal AND NOT (push_bit 5 1))])"

definition RangingSetFilterNumSamples :: "'e hal \<Rightarrow> u8 \<Rightarrow> ('cb, 'e, unit) drv" where
  "RangingSetFilterNumSamples h num = WriteRegister h REG_LR_RANGINGFILTERWINDOWSIZE
     (if num < DEFAULT_RANGING_FILTER_SIZE then DEFAULT_RANGING_FILTER_SIZE else num)"

text \<open>The operands of the conversion at the end of \<^verbatim>\<open>GetFrequencyError\<close>: \<open>Some (c, w)\<close> is the double
  \<^verbatim>\<open>1.55 * c / (1600.0 / w * 1000.0)\<close>, \<open>None\<close> is \<^verbatim>\<open>0.0\<close>.\<close>

definition GetFrequencyError :: "'e hal \<Rightarrow> ('cb, 'e, (int \<times> int) option) drv" where
  "GetFrequencyError h =
     bindM (GetPacketType h True) (\<lambda>t.
     if t = PACKET_TYPE_LORA \<or> t = PACKET_TYPE_RANGING then
       bindM (ReadRegister h REG_LR_ESTIMATED_FREQUENCY_ERROR_MSB) (\<lambda>b2.
       bindM (ReadRegister h (REG_LR_ESTIMATED_FREQUENCY_ERROR_MSB + 1)) (\<lambda>b1.
       bindM (ReadRegister h (REG_LR_ESTIMATED_FREQUENCY_ERROR_MSB + 2)) (\<lambda>b0.
       bindM GetLoRaBandwidth (\<lambda>bw.
       retM (Some (complement2 (of_be24 b2 b1 b0 AND REG_LR_ESTIMATED_FREQUENCY_ERROR_MASK) 20, bw))))))
     else retM None)"

end
