(* ===== verification/SX128x_Irq.thy ===== *)
theory SX128x_Irq
  imports SX128x_Commands
begin

text \<open>
  Interrupt processing of the SX128x driver (\<^verbatim>\<open>SX128x::ProcessIrqs\<close>). Under \<^verbatim>\<open>IOLock2\<close> the driver reads
  the interrupt register and clears it; then, with the mutex released, it calls the HAL hooks and the
  callbacks that the packet type and the operating mode prescribe.

  \<open>invoke c a\<close> is what calling the stored closure \<open>c\<close> with argument \<open>a\<close> does; a callback may use the
  driver again. \<open>irq_actions\<close> is the reference table of what an interrupt leads to, and
  \<open>ProcessIrqs_actions\<close> shows the nested switches to implement it.
\<close>

section \<open>The code\<close>

definition irq_set :: "u16 \<Rightarrow> RadioIrqMasks_t \<Rightarrow> bool" where
  "irq_set irqRegs m \<longleftrightarrow> (irqRegs AND RadioIrqMasks_value m) = RadioIrqMasks_value m"

text \<open>\<^verbatim>\<open>if (slot) slot(arg);\<close>\<close>

definition call_back :: "('cb \<Rightarrow> callback_arg \<Rightarrow> ('cb, 'e, unit) drv) \<Rightarrow>
    ('cb RadioCallbacks_t \<Rightarrow> 'cb option) \<Rightarrow> callback_arg \<Rightarrow> ('cb, 'e, unit) drv" where
  "call_back invoke slot arg = bindM (get_field (\<lambda>b. slot (callbacks b))) (\<lambda>f. case f of
       None \<Rightarrow> retM ()
     | Some c \<Rightarrow> invoke c arg)"

definition process_gfsk :: "'e hal \<Rightarrow> ('cb \<Rightarrow> callback_arg \<Rightarrow> ('cb, 'e, unit) drv) \<Rightarrow>
    RadioOperatingModes_t \<Rightarrow> u16 \<Rightarrow> ('cb, 'e, unit) drv" where
  "process_gfsk h invoke mode irqRegs = (case mode of
     MODE_RX \<Rightarrow> seqM
       [whenM (irq_set irqRegs IRQ_RX_DONE)
          (if irq_set irqRegs IRQ_CRC_ERROR
           then call_back invoke rxError (ErrorArg IRQ_CRC_ERROR_CODE)
           else if irq_set irqRegs IRQ_SYNCWORD_ERROR
           then call_back invoke rxError (ErrorArg IRQ_SYNCWORD_ERROR_CODE)
           else call_back invoke rxDone NoArg),
        whenM (irq_set irqRegs IRQ_SYNCWORD_VALID) (call_back invoke rxSyncWordDone NoArg),
        whenM (irq_set irqRegs IRQ_SYNCWORD_ERROR)
          (call_back invoke rxError (ErrorArg IRQ_SYNCWORD_ERROR_CODE)),
        whenM (irq_set irqRegs IRQ_RX_TX_TIMEOUT)
          (seqM [virt (HalPostRx h), call_back invoke rxTimeout NoArg]),
        whenM (irq_set irqRegs IRQ_TX_DONE)
          (seqM [virt (HalPostTx h), call_back invoke txDone NoArg])]
   | MODE_TX \<Rightarrow> seqM
       [whenM (irq_set irqRegs IRQ_TX_DONE)
          (seqM [virt (HalPostTx h), call_back invoke txDone NoArg]),
        whenM (irq_set irqRegs IRQ_RX_TX_TIMEOUT)
          (seqM [virt (HalPostTx h), call_back invoke txTimeout NoArg])]
   | _ \<Rightarrow> retM ())"

definition process_lora :: "'e hal \<Rightarrow> ('cb \<Rightarrow> callback_arg \<Rightarrow> ('cb, 'e, unit) drv) \<Rightarrow>
    RadioOperatingModes_t \<Rightarrow> u16 \<Rightarrow> ('cb, 'e, unit) drv" where
  "process_lora h invoke mode irqRegs = (case mode of
     MODE_RX \<Rightarrow> seqM
       [whenM (irq_set irqRegs IRQ_RX_DONE)
          (if irq_set irqRegs IRQ_CRC_ERROR
           then call_back invoke rxError (ErrorArg IRQ_CRC_ERROR_CODE)
           else call_back invoke rxDone NoArg),
        whenM (irq_set irqRegs IRQ_HEADER_VALID) (call_back invoke rxHeaderDone NoArg),
        whenM (irq_set irqRegs IRQ_HEADER_ERROR)
          (call_back invoke rxError (ErrorArg IRQ_HEADER_ERROR_CODE)),
        whenM (irq_set irqRegs IRQ_RX_TX_TIMEOUT)
          (seqM [virt (HalPostRx h), call_back invoke rxTimeout NoArg]),
        whenM (irq_set irqRegs IRQ_RANGING_SLAVE_REQUEST_DISCARDED)
          (call_back invoke rxError (ErrorArg IRQ_RANGING_ON_LORA_ERROR_CODE))]
   | MODE_TX \<Rightarrow> seqM
       [whenM (irq_set irqRegs IRQ_TX_DONE)
          (seqM [virt (HalPostTx h), call_back invoke txDone NoArg]),
        whenM (irq_set irqRegs IRQ_RX_TX_TIMEOUT)
          (seqM [virt (HalPostTx h), call_back invoke txTimeout NoArg])]
   | MODE_CAD \<Rightarrow>
       (if irq_set irqRegs IRQ_CAD_DONE
        then (if irq_set irqRegs IRQ_CAD_DETECTED
              then call_back invoke cadDone (CadArg True)
              else call_back invoke cadDone (CadArg False))
        else whenM (irq_set irqRegs IRQ_RX_TX_TIMEOUT)
               (seqM [virt (HalPostRx h), call_back invoke rxTimeout NoArg]))
   | _ \<Rightarrow> retM ())"

definition process_ranging :: "'e hal \<Rightarrow> ('cb \<Rightarrow> callback_arg \<Rightarrow> ('cb, 'e, unit) drv) \<Rightarrow>
    RadioOperatingModes_t \<Rightarrow> u16 \<Rightarrow> ('cb, 'e, unit) drv" where
  "process_ranging h invoke mode irqRegs = (case mode of
     MODE_RX \<Rightarrow> seqM
       [whenM (irq_set irqRegs IRQ_RANGING_SLAVE_REQUEST_DISCARDED)
          (call_back invoke rangingDone (RangingArg IRQ_RANGING_SLAVE_ERROR_CODE)),
        whenM (irq_set irqRegs IRQ_RANGING_SLAVE_REQUEST_VALID)
          (call_back invoke rangingDone (RangingArg IRQ_RANGING_SLAVE_VALID_CODE)),
        whenM (irq_set irqRegs IRQ_RANGING_SLAVE_RESPONSE_DONE)
          (call_back invoke rangingDone (RangingArg IRQ_RANGING_SLAVE_VALID_CODE)),
        whenM (irq_set irqRegs IRQ_RX_TX_TIMEOUT)
          (call_back invoke rangingDone (RangingArg IRQ_RANGING_SLAVE_ERROR_CODE)),
        whenM (irq_set irqRegs IRQ_HEADER_VALID) (call_back invoke rxHeaderDone NoArg),
        whenM (irq_set irqRegs IRQ_HEADER_ERROR)
          (call_back invoke rxError (ErrorArg IRQ_HEADER_ERROR_CODE))]
   | MODE_TX \<Rightarrow> seqM
       [whenM (irq_set irqRegs IRQ_RANGING_MASTER_TIMEOUT)
          (seqM [virt (HalPostTx h),
                 call_back invoke rangingDone (RangingArg IRQ_RANGING_MASTER_ERROR_CODE)]),
        whenM (irq_set irqRegs IRQ_RANGING_MASTER_RESULT_VALID)
          (seqM [virt (HalPostTx h),
                 call_back invoke rangingDone (RangingArg IRQ_RANGING_MASTER_VALID_CODE)])]
   | _ \<Rightarrow> retM ())"

text \<open>The part of \<^verbatim>\<open>ProcessIrqs\<close> that holds \<^verbatim>\<open>IOLock2\<close>.\<close>

definition fetch_irqs :: "'e hal \<Rightarrow> ('cb, 'e, RadioPacketTypes_t \<times> u16) drv" where
  "fetch_irqs h = with_IOLock2 (
     bindM (GetPacketType h True) (\<lambda>packetType.
     bindM (GetIrqStatus h) (\<lambda>irqRegs.
     bindM (ClearIrqStatus h (RadioIrqMasks_value IRQ_RADIO_ALL)) (\<lambda>_.
     retM (packetType, irqRegs)))))"

definition ProcessIrqs :: "'e hal \<Rightarrow> ('cb \<Rightarrow> callback_arg \<Rightarrow> ('cb, 'e, unit) drv) \<Rightarrow>
    ('cb, 'e, unit) drv" where
  "ProcessIrqs h invoke =
     bindM (fetch_irqs h) (\<lambda>(packetType, irqRegs).
     bindM (get_field OperatingMode) (\<lambda>mode.
     case packetType of
       PACKET_TYPE_GFSK \<Rightarrow> process_gfsk h invoke mode irqRegs
     | PACKET_TYPE_FLRC \<Rightarrow> process_gfsk h invoke mode irqRegs
     | PACKET_TYPE_BLE \<Rightarrow> process_gfsk h invoke mode irqRegs
     | PACKET_TYPE_LORA \<Rightarrow> process_lora h invoke mode irqRegs
     | PACKET_TYPE_RANGING \<Rightarrow> process_ranging h invoke mode irqRegs
     | _ \<Rightarrow> retM ()))"

section \<open>The reference table\<close>

datatype cb_slot = TxDone | RxDone | RxSyncWordDone | RxHeaderDone | TxTimeout | RxTimeout
  | RxError IrqErrorCode_t | RangingDone IrqRangingCode_t | CadDone bool

datatype irq_action = Hook hal_hook | Notify cb_slot

text \<open>One line per interrupt source: its condition and the actions it leads to, in order.\<close>

definition irq_table :: "RadioPacketTypes_t \<Rightarrow> RadioOperatingModes_t \<Rightarrow> (RadioIrqMasks_t \<Rightarrow> bool) \<Rightarrow>
    (bool \<times> irq_action list) list" where
  "irq_table t m on =
    (if (t = PACKET_TYPE_GFSK \<or> t = PACKET_TYPE_FLRC \<or> t = PACKET_TYPE_BLE) \<and> m = MODE_RX then
       [(on IRQ_RX_DONE \<and> on IRQ_CRC_ERROR, [Notify (RxError IRQ_CRC_ERROR_CODE)]),
        (on IRQ_RX_DONE \<and> \<not> on IRQ_CRC_ERROR \<and> on IRQ_SYNCWORD_ERROR,
           [Notify (RxError IRQ_SYNCWORD_ERROR_CODE)]),
        (on IRQ_RX_DONE \<and> \<not> on IRQ_CRC_ERROR \<and> \<not> on IRQ_SYNCWORD_ERROR, [Notify RxDone]),
        (on IRQ_SYNCWORD_VALID, [Notify RxSyncWordDone]),
        (on IRQ_SYNCWORD_ERROR, [Notify (RxError IRQ_SYNCWORD_ERROR_CODE)]),
        (on IRQ_RX_TX_TIMEOUT, [Hook PostRx, Notify RxTimeout]),
        (on IRQ_TX_DONE, [Hook PostTx, Notify TxDone])]
     else if t = PACKET_TYPE_LORA \<and> m = MODE_RX then
       [(on IRQ_RX_DONE \<and> on IRQ_CRC_ERROR, [Notify (RxError IRQ_CRC_ERROR_CODE)]),
        (on IRQ_RX_DONE \<and> \<not> on IRQ_CRC_ERROR, [Notify RxDone]),
        (on IRQ_HEADER_VALID, [Notify RxHeaderDone]),
        (on IRQ_HEADER_ERROR, [Notify (RxError IRQ_HEADER_ERROR_CODE)]),
        (on IRQ_RX_TX_TIMEOUT, [Hook PostRx, Notify RxTimeout]),
        (on IRQ_RANGING_SLAVE_REQUEST_DISCARDED, [Notify (RxError IRQ_RANGING_ON_LORA_ERROR_CODE)])]
     else if t = PACKET_TYPE_RANGING \<and> m = MODE_RX then
       [(on IRQ_RANGING_SLAVE_REQUEST_DISCARDED, [Notify (RangingDone IRQ_RANGING_SLAVE_ERROR_CODE)]),
        (on IRQ_RANGING_SLAVE_REQUEST_VALID, [Notify (RangingDone IRQ_RANGING_SLAVE_VALID_CODE)]),
        (on IRQ_RANGING_SLAVE_RESPONSE_DONE, [Notify (RangingDone IRQ_RANGING_SLAVE_VALID_CODE)]),
        (on IRQ_RX_TX_TIMEOUT, [Notify (RangingDone IRQ_RANGING_SLAVE_ERROR_CODE)]),
        (on IRQ_HEADER_VALID, [Notify RxHeaderDone]),
        (on IRQ_HEADER_ERROR, [Notify (RxError IRQ_HEADER_ERROR_CODE)])]
     else if t = PACKET_TYPE_RANGING \<and> m = MODE_TX then
       [(on IRQ_RANGING_MASTER_TIMEOUT, [Hook PostTx, Notify (RangingDone IRQ_RANGING_MASTER_ERROR_CODE)]),
        (on IRQ_RANGING_MASTER_RESULT_VALID,
           [Hook PostTx, Notify (RangingDone IRQ_RANGING_MASTER_VALID_CODE)])]
     else if (t = PACKET_TYPE_GFSK \<or> t = PACKET_TYPE_FLRC \<or> t = PACKET_TYPE_BLE \<or> t = PACKET_TYPE_LORA)
             \<and> m = MODE_TX then
       [(on IRQ_TX_DONE, [Hook PostTx, Notify TxDone]),
        (on IRQ_RX_TX_TIMEOUT, [Hook PostTx, Notify TxTimeout])]
     else if t = PACKET_TYPE_LORA \<and> m = MODE_CAD then
       [(on IRQ_CAD_DONE, [Notify (CadDone (on IRQ_CAD_DETECTED))]),
        (\<not> on IRQ_CAD_DONE \<and> on IRQ_RX_TX_TIMEOUT, [Hook PostRx, Notify RxTimeout])]
     else [])"

definition irq_actions :: "RadioPacketTypes_t \<Rightarrow> RadioOperatingModes_t \<Rightarrow> u16 \<Rightarrow> irq_action list" where
  "irq_actions t m irqRegs = concat (map snd (filter fst (irq_table t m (irq_set irqRegs))))"

primrec notify :: "('cb \<Rightarrow> callback_arg \<Rightarrow> ('cb, 'e, unit) drv) \<Rightarrow> cb_slot \<Rightarrow> ('cb, 'e, unit) drv" where
  "notify invoke TxDone = call_back invoke txDone NoArg"
| "notify invoke RxDone = call_back invoke rxDone NoArg"
| "notify invoke RxSyncWordDone = call_back invoke rxSyncWordDone NoArg"
| "notify invoke RxHeaderDone = call_back invoke rxHeaderDone NoArg"
| "notify invoke TxTimeout = call_back invoke txTimeout NoArg"
| "notify invoke RxTimeout = call_back invoke rxTimeout NoArg"
| "notify invoke (RxError c) = call_back invoke rxError (ErrorArg c)"
| "notify invoke (RangingDone c) = call_back invoke rangingDone (RangingArg c)"
| "notify invoke (CadDone f) = call_back invoke cadDone (CadArg f)"

primrec run_action :: "'e hal \<Rightarrow> ('cb \<Rightarrow> callback_arg \<Rightarrow> ('cb, 'e, unit) drv) \<Rightarrow> irq_action \<Rightarrow>
    ('cb, 'e, unit) drv" where
  "run_action h invoke (Hook k) = virt (run_hook h k)"
| "run_action h invoke (Notify c) = notify invoke c"

section \<open>The code implements the table\<close>

lemma process_irqs_cases:
  "(case t of
       PACKET_TYPE_GFSK \<Rightarrow> process_gfsk h invoke m r
     | PACKET_TYPE_FLRC \<Rightarrow> process_gfsk h invoke m r
     | PACKET_TYPE_BLE \<Rightarrow> process_gfsk h invoke m r
     | PACKET_TYPE_LORA \<Rightarrow> process_lora h invoke m r
     | PACKET_TYPE_RANGING \<Rightarrow> process_ranging h invoke m r
     | _ \<Rightarrow> retM ()) = seqM (map (run_action h invoke) (irq_actions t m r))"
  by (cases t; cases m)
     (simp_all add: irq_actions_def irq_table_def process_gfsk_def process_lora_def
        process_ranging_def whenM_def bind_assoc)

text \<open>Interrupt processing is: read and clear the interrupt register, then run the actions of the table.\<close>

lemma ProcessIrqs_eq_actions:
  "ProcessIrqs h invoke =
     bindM (fetch_irqs h) (\<lambda>(packetType, irqRegs).
     bindM (get_field OperatingMode) (\<lambda>mode.
     seqM (map (run_action h invoke) (irq_actions packetType mode irqRegs))))"
  by (simp add: ProcessIrqs_def process_irqs_cases)

lemma irq_set_bit: "irq_bit m = Some n \<Longrightarrow> irq_set r m \<longleftrightarrow> bit r n"
  using irq_bit_value [of m n] irq_bit_less [of m n] and_push_bit_1_eq [of r n] by (simp add: irq_set_def)

section \<open>Properties\<close>


text \<open>
  In LoRa, a reception is reported exactly when the radio listens, the reception bit is set and the
  checksum error bit is not.
\<close>

theorem lora_reception:
  "Notify RxDone \<in> set (irq_actions PACKET_TYPE_LORA mode r) \<longleftrightarrow> mode = MODE_RX \<and> bit r 1 \<and> \<not> bit r 6"
  by (cases mode) (simp_all add: irq_actions_def irq_table_def irq_set_bit)

text \<open>
  Whatever ends a transmission, for every packet type, the hook that switches the power amplifier off
  runs immediately before the user is told.
\<close>

theorem amplifier_off_before_notification:
  assumes "irq_actions t MODE_TX r = before @ Notify c # after"
  shows "before \<noteq> [] \<and> last before = Hook PostTx"
  using assms
  by (cases t) (auto simp: irq_actions_def irq_table_def Cons_eq_append_conv append_eq_Cons_conv split: if_splits)

theorem amplifier_off_before_notification_witness:
  "irq_actions PACKET_TYPE_LORA MODE_TX 1 = [Hook PostTx] @ Notify TxDone # [] \<and>
   last [Hook PostTx] = Hook PostTx"
proof -
  have e: "irq_actions PACKET_TYPE_LORA MODE_TX 1 = [Hook PostTx] @ Notify TxDone # []"
    by (simp add: irq_actions_def irq_table_def irq_set_def)
  show ?thesis
    using amplifier_off_before_notification [OF e] e by simp
qed

end
