(* ===== verification/SX128x_Api.thy ===== *)
theory SX128x_Api
  imports SX128x_Irq Complex_Main
begin

text \<open>
  What holds of every public operation of the SX128x driver: the mutex discipline, the operating mode
  the driver records, the wire format of the commands, and the functional facts about the encodings
  and decodings they use. A call of a public member function is a value of \<open>api_call\<close>; \<open>run_api\<close>
  performs it. The locale \<open>hal_obs\<close> carries the proofs, so they hold for every HAL that keeps the
  interface, in particular for the Linux one.
\<close>

section \<open>The public operations as data\<close>

datatype (plugins only: code size) api_call =
    A_Init | A_GetFirmwareVersion | A_GetStatus | A_SetSleep SleepParams_t
  | A_SetStandby RadioStandbyModes_t | A_SetFs | A_SetTx TickTime_t | A_SetRx TickTime_t
  | A_SetRxDutyCycle RadioTickSizes_t u16 u16 | A_SetCad | A_SetTxContinuousWave
  | A_SetTxContinuousPreamble | A_SetPacketType RadioPacketTypes_t | A_GetPacketType bool
  | A_SetRfFrequency u32 | A_SetTxParams u8 RadioRampTimes_t | A_SetCadParams RadioLoRaCadSymbols_t
  | A_SetBufferBaseAddresses u8 u8 | A_SetModulationParams ModulationParams_t
  | A_SetPacketParams PacketParams_t | A_ForcePreambleLength RadioPreambleLengths_t
  | A_GetRxBufferStatus | A_GetPacketStatus PacketStatus_t | A_GetRssiInst
  | A_SetDioIrqParams u16 u16 u16 u16 | A_GetIrqStatus | A_ClearIrqStatus u16
  | A_Calibrate CalibrationParams_t | A_SetRegulatorMode RadioRegulatorModes_t | A_SetSaveContext
  | A_SetAutoTx u16 | A_StopAutoTx | A_SetAutoFs bool | A_SetLongPreamble bool
  | A_SetPayload bytes u8 | A_GetPayload u8 | A_SendPayload bytes TickTime_t u8
  | A_SetSyncWord u8 rx_buffer | A_SetSyncWordErrorTolerance u8 | A_SetCrcSeed rx_buffer
  | A_SetBleAccessAddress u32 | A_SetBleAdvertizerAccessAddress | A_SetCrcPolynomial u16
  | A_SetWhiteningSeed u8 | A_EnableManualGain | A_DisableManualGain | A_SetManualGainValue u8
  | A_SetLNAGainSetting RadioLnaSettings_t | A_SetRangingIdLength RadioRangingIdCheckLengths_t
  | A_SetDeviceRangingAddress u32 | A_SetRangingRequestAddress u32
  | A_GetRangingResult RadioRangingResultTypes_t | A_GetRangingPowerDeltaThresholdIndicator
  | A_SetRangingCalibration u16 | A_RangingClearFilterResult | A_RangingSetFilterNumSamples u8
  | A_GetFrequencyError | A_ProcessIrqs

definition discard :: "('s, 'a) M \<Rightarrow> ('s, unit) M" where
  "discard m = bindM m (\<lambda>_. retM ())"

primrec run_api :: "'e hal \<Rightarrow> ('cb \<Rightarrow> callback_arg \<Rightarrow> ('cb, 'e, unit) drv) \<Rightarrow> api_call \<Rightarrow>
    ('cb, 'e, unit) drv" where
  "run_api h iv A_Init = Init h"
| "run_api h iv A_GetFirmwareVersion = discard (GetFirmwareVersion h)"
| "run_api h iv A_GetStatus = discard (GetStatus h)"
| "run_api h iv (A_SetSleep c) = SetSleep h c"
| "run_api h iv (A_SetStandby c) = SetStandby h c"
| "run_api h iv A_SetFs = SetFs h"
| "run_api h iv (A_SetTx t) = SetTx h t"
| "run_api h iv (A_SetRx t) = SetRx h t"
| "run_api h iv (A_SetRxDutyCycle p r s) = SetRxDutyCycle h p r s"
| "run_api h iv A_SetCad = SetCad h"
| "run_api h iv A_SetTxContinuousWave = SetTxContinuousWave h"
| "run_api h iv A_SetTxContinuousPreamble = SetTxContinuousPreamble h"
| "run_api h iv (A_SetPacketType t) = SetPacketType h t"
| "run_api h iv (A_GetPacketType l) = discard (GetPacketType h l)"
| "run_api h iv (A_SetRfFrequency f) = SetRfFrequency h f"
| "run_api h iv (A_SetTxParams p r) = SetTxParams h p r"
| "run_api h iv (A_SetCadParams n) = SetCadParams h n"
| "run_api h iv (A_SetBufferBaseAddresses t r) = SetBufferBaseAddresses h t r"
| "run_api h iv (A_SetModulationParams p) = SetModulationParams h p"
| "run_api h iv (A_SetPacketParams p) = SetPacketParams h p"
| "run_api h iv (A_ForcePreambleLength p) = ForcePreambleLength h p"
| "run_api h iv A_GetRxBufferStatus = discard (GetRxBufferStatus h)"
| "run_api h iv (A_GetPacketStatus p) = discard (GetPacketStatus h p)"
| "run_api h iv A_GetRssiInst = discard (GetRssiInst h)"
| "run_api h iv (A_SetDioIrqParams i d1 d2 d3) = SetDioIrqParams h i d1 d2 d3"
| "run_api h iv A_GetIrqStatus = discard (GetIrqStatus h)"
| "run_api h iv (A_ClearIrqStatus i) = ClearIrqStatus h i"
| "run_api h iv (A_Calibrate c) = Calibrate h c"
| "run_api h iv (A_SetRegulatorMode m) = SetRegulatorMode h m"
| "run_api h iv A_SetSaveContext = SetSaveContext h"
| "run_api h iv (A_SetAutoTx t) = SetAutoTx h t"
| "run_api h iv A_StopAutoTx = StopAutoTx h"
| "run_api h iv (A_SetAutoFs f) = SetAutoFs h f"
| "run_api h iv (A_SetLongPreamble f) = SetLongPreamble h f"
| "run_api h iv (A_SetPayload p off) = SetPayload h p off"
| "run_api h iv (A_GetPayload n) = discard (GetPayload h n)"
| "run_api h iv (A_SendPayload p t off) = SendPayload h p t off"
| "run_api h iv (A_SetSyncWord i w) = discard (SetSyncWord h i w)"
| "run_api h iv (A_SetSyncWordErrorTolerance n) = SetSyncWordErrorTolerance h n"
| "run_api h iv (A_SetCrcSeed s) = discard (SetCrcSeed h s)"
| "run_api h iv (A_SetBleAccessAddress a) = SetBleAccessAddress h a"
| "run_api h iv A_SetBleAdvertizerAccessAddress = SetBleAdvertizerAccessAddress h"
| "run_api h iv (A_SetCrcPolynomial p) = SetCrcPolynomial h p"
| "run_api h iv (A_SetWhiteningSeed s) = SetWhiteningSeed h s"
| "run_api h iv A_EnableManualGain = EnableManualGain h"
| "run_api h iv A_DisableManualGain = DisableManualGain h"
| "run_api h iv (A_SetManualGainValue g) = SetManualGainValue h g"
| "run_api h iv (A_SetLNAGainSetting l) = SetLNAGainSetting h l"
| "run_api h iv (A_SetRangingIdLength l) = SetRangingIdLength h l"
| "run_api h iv (A_SetDeviceRangingAddress a) = SetDeviceRangingAddress h a"
| "run_api h iv (A_SetRangingRequestAddress a) = SetRangingRequestAddress h a"
| "run_api h iv (A_GetRangingResult t) = discard (GetRangingResult h t)"
| "run_api h iv A_GetRangingPowerDeltaThresholdIndicator =
     discard (GetRangingPowerDeltaThresholdIndicator h)"
| "run_api h iv (A_SetRangingCalibration c) = SetRangingCalibration h c"
| "run_api h iv A_RangingClearFilterResult = RangingClearFilterResult h"
| "run_api h iv (A_RangingSetFilterNumSamples n) = RangingSetFilterNumSamples h n"
| "run_api h iv A_GetFrequencyError = discard (GetFrequencyError h)"
| "run_api h iv A_ProcessIrqs = ProcessIrqs h iv"

lemmas api_defs = Init_def SetRegistersDefault_def RadioRegsInit_def GetFirmwareVersion_def
  GetStatus_def SetSleep_def SetStandby_def SetFs_def ClearIrqStatus_def SetPacketType_def
  GetPacketType_def SetRangingRole_def SetTx_def SetRx_def SetRxDutyCycle_def SetCad_def
  SetTxContinuousWave_def SetTxContinuousPreamble_def SetRfFrequency_def SetTxParams_def
  SetCadParams_def SetBufferBaseAddresses_def SetModulationParams_def SetPacketParams_def
  modify_register_def ForcePreambleLength_def GetRxBufferStatus_def GetPacketStatus_def
  GetRssiInst_def SetDioIrqParams_def GetIrqStatus_def Calibrate_def SetRegulatorMode_def
  SetSaveContext_def SetAutoTx_def StopAutoTx_def SetAutoFs_def SetLongPreamble_def SetPayload_def
  GetPayload_def SendPayload_def SetSyncWord_def SetSyncWordErrorTolerance_def SetCrcSeed_def
  SetBleAccessAddress_def SetBleAdvertizerAccessAddress_def SetCrcPolynomial_def
  SetWhiteningSeed_def EnableManualGain_def DisableManualGain_def SetManualGainValue_def
  SetLNAGainSetting_def when_ranging_def SetRangingIdLength_def SetDeviceRangingAddress_def
  SetRangingRequestAddress_def GetLoRaBandwidth_def select_ranging_result_def GetRangingResult_def
  GetRangingPowerDeltaThresholdIndicator_def SetRangingCalibration_def RangingClearFilterResult_def
  RangingSetFilterNumSamples_def GetFrequencyError_def set_mode_def discard_def fetch_irqs_def

section \<open>Mutexes\<close>

lemma lock_neutral_discard [lock_intro]: "lock_neutral t ok m \<Longrightarrow> lock_neutral t ok (discard m)"
  by (auto simp: discard_def intro: lock_intro)

context hal_steady
begin

lemma lock_neutral_modify_register [lock_intro]: "lock_neutral t ok (modify_register h a f)"
  by (auto simp: modify_register_def intro!: lock_intro)

lemma lock_neutral_local_type [lock_intro]: "lock_neutral t ok (GetPacketType h l)"
  by (auto simp: GetPacketType_def intro!: lock_intro)

lemma lock_neutral_set_mode [lock_intro]: "lock_neutral t ok (set_mode m)"
  by (auto simp: set_mode_def intro!: lock_intro)

lemma lock_neutral_when_ranging [lock_intro]: "lock_neutral t ok m \<Longrightarrow> lock_neutral t ok (when_ranging h m)"
  by (auto simp: when_ranging_def intro!: lock_intro)

lemma lock_neutral_SetPacketType [lock_intro]: "lock_neutral t ok (SetPacketType h ty)"
  by (auto simp: SetPacketType_def intro!: lock_intro)

lemma lock_neutral_GetRxBufferStatus [lock_intro]: "lock_neutral t ok (GetRxBufferStatus h)"
  by (auto simp: GetRxBufferStatus_def intro!: lock_intro)

lemma lock_neutral_GetLoRaBandwidth [lock_intro]: "lock_neutral t ok GetLoRaBandwidth"
  by (auto simp: GetLoRaBandwidth_def intro!: lock_intro)

lemma lock_free_modes [lock_intro]:
  "lock_free t ok (SetStandby h c)" "lock_free t ok (SetTx h tm)" "lock_free t ok (SetRx h tm)" "lock_free t ok (SetCad h)"
  "lock_free t ok (SetTxContinuousWave h)" "lock_free t ok (SetTxContinuousPreamble h)" "lock_free t ok (fetch_irqs h)"
  unfolding SetStandby_def SetTx_def SetRx_def SetCad_def SetTxContinuousWave_def
    SetTxContinuousPreamble_def fetch_irqs_def ClearIrqStatus_def SetRangingRole_def GetIrqStatus_def
  by (intro lock_intro; simp)+

lemma lock_free_notify [lock_intro]:
  assumes "\<And>c a. lock_free t ok (iv c a)"
  shows "lock_free t ok (notify iv s)"
proof -
  have "lock_free t ok (case f of None \<Rightarrow> retM () | Some c \<Rightarrow> iv c arg)" for f arg
    by (cases f) (simp_all add: assms lock_free_neutral lock_neutral_ret)
  then have "lock_free t ok (call_back iv slot arg)" for slot arg
    unfolding call_back_def by (blast intro: lock_free_bind lock_free_neutral lock_neutral_get)
  then show ?thesis by (cases s) simp_all
qed

lemma lock_free_run_hook: "lock_free t ok (virt (run_hook h k))"
  by (cases k) (simp_all add: lock_free_neutral lock_neutral_hooks)

lemma lock_free_run_action [lock_intro]:
  "(\<And>c a. lock_free t ok (iv c a)) \<Longrightarrow> lock_free t ok (run_action h iv act)"
  by (cases act) (simp_all add: lock_free_notify lock_free_run_hook)

lemma lock_free_ProcessIrqs [lock_intro]:
  assumes "\<And>c a. lock_free t ok (iv c a)"
  shows "lock_free t ok (ProcessIrqs h iv)"
  unfolding ProcessIrqs_eq_actions case_prod_beta
  by (intro lock_free_bind lock_free_modes lock_free_seq lock_free_neutral [OF lock_neutral_get])
     (auto intro: lock_free_run_action assms)

text \<open>Reading the ranging result passes through \<^verbatim>\<open>SetStandby\<close>, which takes \<^verbatim>\<open>IOLock2\<close> itself.\<close>

lemma lock_free_select_ranging_result: "lock_free t ok (select_ranging_result h r)"
  unfolding select_ranging_result_def
  by (intro lock_free_seq_Cons lock_free_seq_Nil lock_free_modes
      lock_free_neutral [OF lock_neutral_modify_register])

lemma lock_free_ranging_queries [lock_intro]:
  "lock_free t ok (GetRangingResult h r)" "lock_free t ok (GetRangingPowerDeltaThresholdIndicator h)"
proof -
  note steps = lock_free_bind lock_free_select_ranging_result lock_free_modes
    lock_free_neutral [OF lock_neutral_register(2)] lock_free_neutral [OF lock_neutral_local_type]
    lock_free_neutral [OF lock_neutral_GetLoRaBandwidth] lock_free_neutral [OF lock_neutral_ret]
  show "lock_free t ok (GetRangingResult h r)"
    unfolding GetRangingResult_def by (intro steps lock_free_if)
  show "lock_free t ok (GetRangingPowerDeltaThresholdIndicator h)"
    unfolding GetRangingPowerDeltaThresholdIndicator_def by (intro steps)
qed

lemma lock_free_discard [lock_intro]: "lock_free t ok m \<Longrightarrow> lock_free t ok (discard m)"
  unfolding discard_def by (intro lock_free_bind lock_free_neutral [OF lock_neutral_ret])

lemma lock_free_SendPayload: "lock_free t ok (SendPayload h p tm off)"
  unfolding SendPayload_def SetPayload_def
  by (intro lock_free_seq_Cons lock_free_seq_Nil lock_free_modes
      lock_free_neutral [OF lock_neutral_bus(5)])

lemma lock_neutral_SetLNAGainSetting: "lock_neutral t ok (SetLNAGainSetting h s)"
  unfolding SetLNAGainSetting_def by (cases s) (simp_all add: lock_neutral_modify_register)

lemmas lock_free_ops = lock_free_modes lock_free_ProcessIrqs lock_free_discard
  lock_free_ranging_queries lock_free_SendPayload lock_free_neutral [OF lock_neutral_SetLNAGainSetting]

text \<open>No public operation deadlocks on the driver's own mutexes, whatever the hardware answers.\<close>

lemma lock_free_run_api:
  assumes a: "\<And>c a. lock_free t ok (iv c a)"
  shows "lock_free t ok (run_api h iv call)"
  apply (cases call; (simp add: a lock_free_ops; fail)?)
                      apply (simp_all only: run_api.simps)
                      apply (unfold api_defs)
                      apply ((rule lock_free_neutral, (intro lock_intro; simp add: lock_intro))+)
  done

end

section \<open>What reaches the outside\<close>

text \<open>The traces of the operations that change the direction of the radio. \<open>hk\<close> is what the hooks do.\<close>

definition idle :: "'cb SX128x \<Rightarrow> bool" where
  "idle b \<longleftrightarrow> \<not> IOLock b \<and> \<not> IOLock2 b"

definition role_trace :: "(bytes \<Rightarrow> 'o) \<Rightarrow> RadioPacketTypes_t \<Rightarrow> RadioRangingRoles_t \<Rightarrow> 'o list" where
  "role_trace spi t role = (if t = PACKET_TYPE_RANGING
     then [spi (command_frame RADIO_SET_RANGING_ROLE [RadioRangingRoles_value role])] else [])"

definition set_tx_trace :: "(bytes \<Rightarrow> 'o) \<Rightarrow> (hal_hook \<Rightarrow> 'o list) \<Rightarrow> RadioPacketTypes_t \<Rightarrow> TickTime_t \<Rightarrow> 'o list" where
  "set_tx_trace spi hk t timeout =
     [spi (command_frame RADIO_CLR_IRQSTATUS [0xFF, 0xFF])] @ role_trace spi t RADIO_RANGING_ROLE_MASTER
     @ hk PostRx @ hk PreTx @ [spi (command_frame RADIO_SET_TX (timeout_bytes timeout))]"

definition set_rx_trace :: "(bytes \<Rightarrow> 'o) \<Rightarrow> (hal_hook \<Rightarrow> 'o list) \<Rightarrow> RadioPacketTypes_t \<Rightarrow> TickTime_t \<Rightarrow> 'o list" where
  "set_rx_trace spi hk t timeout =
     [spi (command_frame RADIO_CLR_IRQSTATUS [0xFF, 0xFF])] @ role_trace spi t RADIO_RANGING_ROLE_SLAVE
     @ hk PostTx @ hk PreRx @ [spi (command_frame RADIO_SET_RX (timeout_bytes timeout))]"

lemma all_irqs [simp]: "be16 0xFFFF = [0xFF, 0xFF]"
  by (simp add: be16_def)

text \<open>No interrupt status leads to more than one reception.\<close>

definition rx_dones :: "irq_action list \<Rightarrow> nat" where
  "rx_dones as = length (filter (\<lambda>a. a = Notify RxDone) as)"

lemma rx_dones_le: "rx_dones (irq_actions t m r) \<le> 1"
  by (cases t; cases m) (simp_all add: rx_dones_def irq_actions_def irq_table_def)

context hal_obs
begin

lemma wp_SetTx:
  assumes "idle b"
    and "\<And>e'. advances obs hook (set_tx_trace spi (\<lambda>k. hook k e) (PacketType b) tm) e e' \<Longrightarrow>
           Q () (b\<lparr>OperatingMode := MODE_TX\<rparr>, e')"
    and "\<And>x os e'. advances obs hook os e e' \<Longrightarrow> E x (b, e')"
  shows "wp (SetTx h tm) Q E (b, e)"
  using assms
  unfolding SetTx_def ClearIrqStatus_def GetPacketType_def SetRangingRole_def set_mode_def
  by (auto simp: wp idle_def set_tx_trace_def role_trace_def advances_def intro!: wp_intro)

lemma wp_SetRx:
  assumes "idle b"
    and "\<And>e'. advances obs hook (set_rx_trace spi (\<lambda>k. hook k e) (PacketType b) tm) e e' \<Longrightarrow>
           Q () (b\<lparr>OperatingMode := MODE_RX\<rparr>, e')"
    and "\<And>x os e'. advances obs hook os e e' \<Longrightarrow> E x (b, e')"
  shows "wp (SetRx h tm) Q E (b, e)"
  using assms
  unfolding SetRx_def ClearIrqStatus_def GetPacketType_def SetRangingRole_def set_mode_def
  by (auto simp: wp idle_def set_rx_trace_def role_trace_def advances_def intro!: wp_intro)

lemma wp_SendPayload:
  assumes "idle b"
    and "\<And>e'. advances obs hook (spi (write_buffer_frame off payload) #
             set_tx_trace spi (\<lambda>k. hook k e) (PacketType b) tm) e e' \<Longrightarrow>
           Q () (b\<lparr>OperatingMode := MODE_TX\<rparr>, e')"
    and "\<And>x os e'. advances obs hook os e e' \<Longrightarrow> E x (b, e')"
  shows "wp (SendPayload h payload tm off) Q E (b, e)"
  using assms unfolding SendPayload_def SetPayload_def
  by (auto simp: wp idle_def advances_def intro!: wp_intro wp_SetTx)

lemma wp_SetDioIrqParams:
  assumes "idle b"
    and "\<And>e'. advances obs hook [spi (command_frame RADIO_SET_DIOIRQPARAMS
             (be16 m @ be16 d1 @ be16 d2 @ be16 d3))] e e' \<Longrightarrow> Q () (b, e')"
    and "\<And>x os e'. advances obs hook os e e' \<Longrightarrow> E x (b, e')"
  shows "wp (SetDioIrqParams h m d1 d2 d3) Q E (b, e)"
  using assms unfolding SetDioIrqParams_def by (auto simp: idle_def intro!: wp_intro)

lemma wp_fetch_irqs:
  assumes "idle b"
    and "\<And>r e'. advances obs hook [spi (query_frame RADIO_GET_IRQSTATUS 2),
             spi (command_frame RADIO_CLR_IRQSTATUS [0xFF, 0xFF])] e e' \<Longrightarrow> Q (PacketType b, r) (b, e')"
    and "\<And>x os e'. advances obs hook os e e' \<Longrightarrow> E x (b, e')"
  shows "wp (fetch_irqs h) Q E (b, e)"
  using assms unfolding fetch_irqs_def GetPacketType_def GetIrqStatus_def ClearIrqStatus_def
  by (auto simp: wp idle_def advances_def intro!: wp_intro)

text \<open>
  Interrupt processing delivers at most one packet: a family of conditions \<open>I\<close> that the hooks and the
  callbacks keep, and that a reception may advance by one, is advanced by one at most.
\<close>

lemma wp_run_actions:
  assumes "\<And>k j s. I j s \<Longrightarrow> wp (virt (run_hook h k)) (\<lambda>_. I j) (\<lambda>_. I j) s"
    and "\<And>c j s. c \<noteq> RxDone \<Longrightarrow> I j s \<Longrightarrow> wp (notify iv c) (\<lambda>_. I j) (\<lambda>_. I j) s"
    and "\<And>j s. I j s \<Longrightarrow> wp (notify iv RxDone) (\<lambda>_. I (Suc j)) (\<lambda>_. I (Suc j)) s"
    and mono: "\<And>j k s. I j s \<Longrightarrow> j \<le> k \<Longrightarrow> I k s"
    and "I j s"
  shows "wp (seqM (map (run_action h iv) as)) (\<lambda>_. I (j + rx_dones as)) (\<lambda>_. I (j + rx_dones as)) s"
  using assms(5)
proof (induction as arbitrary: j s)
  case (Cons a as)
  let ?k = "if a = Notify RxDone then Suc j else j"
  have "wp (run_action h iv a) (\<lambda>_. I ?k) (\<lambda>_. I ?k) s"
    using Cons.prems assms(1-3) by (cases a) simp_all
  then have "wp (run_action h iv a)
      (\<lambda>_. wp (seqM (map (run_action h iv) as)) (\<lambda>_. I (?k + rx_dones as)) (\<lambda>_. I (?k + rx_dones as)))
      (\<lambda>_. I (?k + rx_dones as)) s"
    by (rule wp_mono) (use Cons.IH mono in auto)
  moreover have "?k + rx_dones as = j + rx_dones (a # as)"
    by (simp add: rx_dones_def)
  ultimately show ?case by (simp add: wp_bind)
qed (simp add: wp rx_dones_def)

lemma wp_ProcessIrqs:
  assumes "idle b"
    and "\<And>e' os. advances obs hook os e e' \<Longrightarrow> I 0 (b, e')"
    and "\<And>k j s. I j s \<Longrightarrow> wp (virt (run_hook h k)) (\<lambda>_. I j) (\<lambda>_. I j) s"
    and "\<And>c j s. c \<noteq> RxDone \<Longrightarrow> I j s \<Longrightarrow> wp (notify iv c) (\<lambda>_. I j) (\<lambda>_. I j) s"
    and "\<And>j s. I j s \<Longrightarrow> wp (notify iv RxDone) (\<lambda>_. I (Suc j)) (\<lambda>_. I (Suc j)) s"
    and mono: "\<And>j k s. I j s \<Longrightarrow> j \<le> k \<Longrightarrow> I k s"
  shows "wp (ProcessIrqs h iv) (\<lambda>_. I 1) (\<lambda>_. I 1) (b, e)"
proof -
  have "wp (seqM (map (run_action h iv) (irq_actions t m r))) (\<lambda>_. I 1) (\<lambda>_. I 1) (b, e')"
    if "I 0 (b, e')" for t m r e'
    by (rule wp_mono [OF wp_run_actions [of I iv, OF assms(3-5) mono that]])
       (use mono rx_dones_le in auto)
  then show ?thesis
    unfolding ProcessIrqs_eq_actions wp_bind
    by (intro wp_fetch_irqs [OF assms(1)]) (auto simp: wp assms(2) intro: mono [of 0])
qed

end

section \<open>Encodings and decodings\<close>

lemma signed_take_bit_cases:
  assumes "0 \<le> k" "k < 2 ^ Suc n"
  shows "signed_take_bit n k = (if 2 ^ n \<le> k then k - 2 ^ Suc n else (k :: int))"
proof -
  have "(k + 2 ^ n) mod 2 ^ Suc n = (if 2 ^ n \<le> k then k - 2 ^ n else k + 2 ^ n)"
  proof (cases "2 ^ n \<le> k")
    case True
    have "(k + 2 ^ n) mod 2 ^ Suc n = (k - 2 ^ n + 2 ^ Suc n) mod 2 ^ Suc n"
      by (simp add: add.commute)
    also have "\<dots> = (k - 2 ^ n) mod 2 ^ Suc n"
      by (rule mod_add_self2)
    finally show ?thesis using True assms by simp
  qed (use assms in simp)
  then show ?thesis
    by (simp add: signed_take_bit_eq_take_bit_shift take_bit_eq_mod)
qed

lemma sint_u8: "sint (b :: u8) = (if uint b < 128 then uint b else uint b - 256)"
  using signed_take_bit_cases [of "uint b" 7] uint_lt2p [of b] by (simp add: sint_uint)

lemma floor_unique_near:
  fixes x :: real
  assumes "0 < d" "\<bar>x - real n / real d\<bar> < 1 / real d" "n mod d = 0 \<Longrightarrow> x \<ge> real n / real d"
  shows "\<lfloor>x\<rfloor> = int (n div d)"
proof -
  let ?q = "n div d" and ?r = "n mod d"
  have n: "real n = real ?q * real d + real ?r"
    by (metis div_mult_mod_eq of_nat_add of_nat_mult)
  then have q: "real n / real d = real ?q + real ?r / real d"
    using assms(1) by (simp add: field_simps)
  have r: "real ?r \<le> real d - 1"
    using assms(1) by (metis Suc_leI Suc_eq_plus1 add_le_imp_le_diff mod_less_divisor of_nat_1 of_nat_diff of_nat_le_iff One_nat_def)
  have "real ?r / real d + 1 / real d \<le> 1"
    using assms(1) r by (simp add: field_simps)
  then have "x < real ?q + 1"
    using assms(2) q by linarith
  moreover have "real ?q \<le> x"
  proof (cases "?r = 0")
    case True
    with assms(3) q show ?thesis by simp
  next
    case False
    then have "1 / real d \<le> real ?r / real d"
      using assms(1) by (simp add: field_simps Suc_leI)
    then show ?thesis using assms(2) q by linarith
  qed
  ultimately show ?thesis by linarith
qed

text \<open>
  \<^verbatim>\<open>complement2\<close> reads the low \<open>n\<close> bits of a register value as a two's complement number. The driver
  calls it with 24 bits for ranging results and 20 bits for the frequency error.
\<close>

theorem complement2_correct:
  assumes "2 \<le> n" "n \<le> 31" "uint num < 2 ^ n"
  shows "complement2 num n = signed_take_bit (n - 1) (uint num)"
proof -
  obtain m where m: "n = Suc (Suc m)"
    using assms(1) by (metis add_2_eq_Suc le_Suc_ex)
  have "uint num < 2 ^ 31"
    using assms(2,3) power_increasing [of n 31 "2::int"] by linarith
  then have "sint num = uint num"
    using signed_take_bit_cases [of "uint num" 31] by (simp add: sint_uint)
  then show ?thesis
    using assms(3) signed_take_bit_cases [of "uint num" "Suc m"] by (simp add: complement2_def m)
qed

theorem complement2_correct_witness:
  "complement2 0xFFFFFF 24 = signed_take_bit 23 (uint (0xFFFFFF :: u32)) \<and> complement2 0xFFFFFF 24 = - 1"
  using complement2_correct [of 24 "0xFFFFFF"] by (simp add: complement2_def)

text \<open>
  \<^verbatim>\<open>SetRfFrequency\<close> truncates a quotient of doubles. For every value \<open>x\<close> a correctly rounded division
  can produce (relative error at most \<open>2\<^sup>-\<^sup>5\<^sup>3\<close>, and exact when the quotient is an integer), the truncation is
  the exact integer quotient the model sends.
\<close>

theorem rf_steps_of_double:
  assumes "\<bar>x - real (unat rf) * 2 ^ 18 / 52000000\<bar> \<le> real (unat rf) * 2 ^ 18 / 52000000 / 2 ^ 53"
    and "52000000 dvd unat rf * 2 ^ 18 \<Longrightarrow> x = real (unat rf) * 2 ^ 18 / 52000000"
  shows "\<lfloor>x\<rfloor> = int (unat (rf_steps rf))"
proof -
  have rf: "unat rf < 2 ^ 32"
    using unsigned_less [of rf] by simp
  have "unat rf * 2 ^ 18 div 52000000 < 2 ^ 32"
    using rf by simp
  then have steps: "unat (rf_steps rf) = unat rf * 2 ^ 18 div 52000000"
    by (simp add: rf_steps_def XTAL_FREQ_def unat_of_nat)
  have "real (unat rf) < 2 ^ 32"
    using rf by (metis of_nat_less_numeral_power_cancel_iff)
  then have "real (unat rf) * 2 ^ 18 / 52000000 / 2 ^ 53 < 1 / 52000000"
    by (simp add: field_simps)
  then have "\<bar>x - real (unat rf * 2 ^ 18) / real 52000000\<bar> < 1 / real 52000000"
    using assms(1) by simp
  then show ?thesis
    unfolding steps using assms(2) by (intro floor_unique_near) auto
qed

theorem rf_steps_of_double_witness:
  "\<lfloor>real (unat (2400000000 :: u32)) * 2 ^ 18 / 52000000\<rfloor> = int (unat (rf_steps 2400000000)) \<and>
   rf_steps 2400000000 = 12098953"
  using rf_steps_of_double [of "real (unat (2400000000 :: u32)) * 2 ^ 18 / 52000000" "2400000000"]
  by (simp add: rf_steps_def XTAL_FREQ_def)

text \<open>
  The LoRa packet status decodes to a signal strength between -127 and 0 dBm and a signal-to-noise
  ratio between -32 and 31 dB, the signed byte divided by four towards zero, whatever the radio sends.
\<close>

theorem rssi_snr_bounds:
  "- 127 \<le> rssi_of_byte b \<and> rssi_of_byte b \<le> 0 \<and> - 32 \<le> snr_of_byte b \<and> snr_of_byte b \<le> 31 \<and>
   snr_of_byte b = cdiv (sint b) 4"
proof -
  have "0 \<le> uint b" "uint b < 256"
    using uint_lt2p [of b] by simp_all
  then show ?thesis
    unfolding rssi_of_byte_def snr_of_byte_def sint_u8
    by (cases "uint b < 128"; simp add: cdiv_nonneg cdiv_neg; linarith)
qed

end
