(* ===== verification/Linux_Hal.thy ===== *)
theory Linux_Hal
  imports SX128x_Api "HOL-Library.Multiset"
begin

text \<open>
  The Linux implementation of the radio's HAL (\<^verbatim>\<open>Sx1280Radio/Hal/LinuxSx1280Radio\<close>): opening the SPI
  device and the GPIO lines, transferring frames with \<^verbatim>\<open>SPI_IOC_MESSAGE\<close>, reading and driving lines
  with libgpiod, and driving the power amplifier's enable line around a transmission.

  The kernel and libgpiod are a parameter: \<open>os c w\<close> is the answer to the call \<open>c\<close> in the world \<open>w\<close>, an
  integer (a return code, a file descriptor, or a pointer with 0 for \<^verbatim>\<open>nullptr\<close>), the bytes received
  when \<open>c\<close> is an SPI message, and the world after it. Every call is appended to a log together with its
  answer; what the HAL does to the outside is what it logs.

  The members of \<open>Impl\<close> do not change after its constructor, so \<open>linux_hal os i\<close> is the virtual table of
  a radio object with \<^verbatim>\<open>m_impl = i\<close>. It is an instance of \<open>hal_obs\<close> whatever the kernel answers, and of
  \<open>hal_live\<close> for a kernel that answers without errors and a busy line that falls.
\<close>

section \<open>Configuration\<close>

datatype RadioRole = TxOnly | RxOnly | TxRx

datatype TxEnableBehavior = NoTxEnable | StaticAsserted | StaticDeasserted | AssertDuringTxOnly

record LinuxSpiConfig =
  device_path :: string
  speed_hz :: u32
  spi_mode :: u8
  bits_per_word :: u8

definition LinuxSpiConfig_default :: LinuxSpiConfig where
  "LinuxSpiConfig_default = \<lparr>device_path = ''/dev/spidev0.0'', speed_hz = 1000000, spi_mode = 0,
     bits_per_word = 8\<rparr>"

record LinuxGpioChipConfig =
  chip_path :: string

definition LinuxGpioChipConfig_default :: LinuxGpioChipConfig where
  "LinuxGpioChipConfig_default = \<lparr>chip_path = ''/dev/gpiochip0''\<rparr>"

record LinuxSx1280PinConfig =
  reset_line :: u32
  busy_line :: u32
  has_dio1 :: bool
  dio1_line :: u32
  has_dio2 :: bool
  dio2_line :: u32
  has_dio3 :: bool
  dio3_line :: u32
  has_tx_enable :: bool
  tx_enable_line :: u32
  tx_enable_active_high :: bool
  tx_enable_behavior :: TxEnableBehavior

definition LinuxSx1280PinConfig_default :: LinuxSx1280PinConfig where
  "LinuxSx1280PinConfig_default = \<lparr>reset_line = 0, busy_line = 0, has_dio1 = False, dio1_line = 0,
     has_dio2 = False, dio2_line = 0, has_dio3 = False, dio3_line = 0, has_tx_enable = False,
     tx_enable_line = 0, tx_enable_active_high = True, tx_enable_behavior = NoTxEnable\<rparr>"

record LinuxSx1280RadioConfig =
  cfg_spi :: LinuxSpiConfig
  cfg_gpio :: LinuxGpioChipConfig
  cfg_pins :: LinuxSx1280PinConfig

definition LinuxSx1280RadioConfig_default :: LinuxSx1280RadioConfig where
  "LinuxSx1280RadioConfig_default = \<lparr>cfg_spi = LinuxSpiConfig_default,
     cfg_gpio = LinuxGpioChipConfig_default, cfg_pins = LinuxSx1280PinConfig_default\<rparr>"

section \<open>The operating system\<close>

datatype line_value = LINE_VALUE_INACTIVE | LINE_VALUE_ACTIVE

datatype line_direction = LINE_DIRECTION_INPUT | LINE_DIRECTION_OUTPUT

datatype spi_ioctl = WR_MODE u8 | RD_MODE | WR_BITS_PER_WORD u8 | RD_BITS_PER_WORD
  | WR_MAX_SPEED_HZ u32 | RD_MAX_SPEED_HZ

text \<open>The calls the HAL makes. \<open>C_spi_message fd out speed bits\<close> is \<^verbatim>\<open>ioctl(fd, SPI_IOC_MESSAGE(1), &transfer)\<close>
  with the fields of the transfer that the code fills in. \<open>C_sleep\<close> is \<^verbatim>\<open>std::this_thread::sleep_for\<close>.\<close>

datatype (plugins only: code size) os_call =
    C_open string | C_close int | C_spi_ioctl int spi_ioctl | C_spi_message int bytes u32 u8
  | C_chip_open string | C_chip_close int
  | C_settings_new | C_settings_set_direction int line_direction
  | C_settings_set_output_value int line_value | C_settings_free int
  | C_line_config_new | C_line_config_add int u32 int | C_line_config_free int
  | C_request_config_new | C_request_config_set_consumer int string | C_request_config_free int
  | C_chip_request_lines int int int
  | C_request_get_value int u32 | C_request_set_value int u32 line_value | C_request_release int
  | C_sleep nat

type_synonym 'w os = "os_call \<Rightarrow> 'w \<Rightarrow> int \<times> rx_buffer \<times> 'w"

text \<open>The state a radio runs in: the world behind the operating system, the log of calls, and the
  state of the program that owns the radio, which the radio's callbacks may change.\<close>

record ('w, 'x) sys =
  world :: 'w
  io_log :: "(os_call \<times> int) list"
  app :: 'x

definition os_answer :: "'w os \<Rightarrow> os_call \<Rightarrow> ('w, 'x) sys \<Rightarrow> int \<times> rx_buffer \<times> ('w, 'x) sys" where
  "os_answer os c s = (case os c (world s) of (r, buf, w) \<Rightarrow>
     (r, buf, s\<lparr>world := w, io_log := io_log s @ [(c, r)]\<rparr>))"

definition syscall :: "'w os \<Rightarrow> os_call \<Rightarrow> (('w, 'x) sys, int \<times> rx_buffer) M" where
  "syscall os c = (\<lambda>s. case os_answer os c s of (r, buf, s') \<Rightarrow> Some (Ret (r, buf) s'))"

definition oscall :: "'w os \<Rightarrow> os_call \<Rightarrow> (('w, 'x) sys, int) M" where
  "oscall os c = bindM (syscall os c) (\<lambda>(r, _). retM r)"

text \<open>A call whose result is dropped, and one whose negative result throws.\<close>

definition osdo :: "'w os \<Rightarrow> os_call \<Rightarrow> (('w, 'x) sys, unit) M" where
  "osdo os c = bindM (syscall os c) (\<lambda>_. retM ())"

definition throwSystemError :: "string \<Rightarrow> ('s, 'a) M" where
  "throwSystemError message = throwM (system_error message)"

definition throwRuntimeError :: "string \<Rightarrow> ('s, 'a) M" where
  "throwRuntimeError message = throwM (runtime_error message)"

section \<open>Requesting GPIO lines\<close>

definition assertedLineValue :: "bool \<Rightarrow> bool \<Rightarrow> line_value" where
  "assertedLineValue active_high asserted =
     (let raw_high = (if asserted then active_high else \<not> active_high)
      in if raw_high then LINE_VALUE_ACTIVE else LINE_VALUE_INACTIVE)"

definition requestInputLine :: "'w os \<Rightarrow> int \<Rightarrow> u32 \<Rightarrow> string \<Rightarrow> (('w, 'x) sys, int) M" where
  "requestInputLine os chip offset consumer =
     bindM (oscall os C_settings_new) (\<lambda>settings.
     if settings = 0 then throwRuntimeError ''failed to allocate GPIO line settings'' else
     bindM (oscall os (C_settings_set_direction settings LINE_DIRECTION_INPUT)) (\<lambda>r.
     if r < 0 then
       bindM (osdo os (C_settings_free settings)) (\<lambda>_.
       throwSystemError ''failed to set GPIO input direction'') else
     bindM (oscall os C_line_config_new) (\<lambda>line_config.
     if line_config = 0 then
       bindM (osdo os (C_settings_free settings)) (\<lambda>_.
       throwRuntimeError ''failed to allocate GPIO line config'') else
     bindM (oscall os (C_line_config_add line_config offset settings)) (\<lambda>r.
     if r < 0 then
       bindM (osdo os (C_line_config_free line_config)) (\<lambda>_.
       bindM (osdo os (C_settings_free settings)) (\<lambda>_.
       throwSystemError ''failed to add GPIO input line settings'')) else
     bindM (oscall os C_request_config_new) (\<lambda>request_config.
     if request_config = 0 then
       bindM (osdo os (C_line_config_free line_config)) (\<lambda>_.
       bindM (osdo os (C_settings_free settings)) (\<lambda>_.
       throwRuntimeError ''failed to allocate GPIO request config'')) else
     bindM (osdo os (C_request_config_set_consumer request_config consumer)) (\<lambda>_.
     bindM (oscall os (C_chip_request_lines chip request_config line_config)) (\<lambda>request.
     bindM (osdo os (C_request_config_free request_config)) (\<lambda>_.
     bindM (osdo os (C_line_config_free line_config)) (\<lambda>_.
     bindM (osdo os (C_settings_free settings)) (\<lambda>_.
     if request = 0 then throwSystemError ''failed to request GPIO input line''
     else retM request))))))))))"

definition requestOutputLine :: "'w os \<Rightarrow> int \<Rightarrow> u32 \<Rightarrow> line_value \<Rightarrow> string \<Rightarrow> (('w, 'x) sys, int) M" where
  "requestOutputLine os chip offset initial_value consumer =
     bindM (oscall os C_settings_new) (\<lambda>settings.
     if settings = 0 then throwRuntimeError ''failed to allocate GPIO line settings'' else
     bindM (oscall os (C_settings_set_direction settings LINE_DIRECTION_OUTPUT)) (\<lambda>r.
     if r < 0 then
       bindM (osdo os (C_settings_free settings)) (\<lambda>_.
       throwSystemError ''failed to set GPIO output direction'') else
     bindM (oscall os (C_settings_set_output_value settings initial_value)) (\<lambda>r.
     if r < 0 then
       bindM (osdo os (C_settings_free settings)) (\<lambda>_.
       throwSystemError ''failed to set GPIO output initial value'') else
     bindM (oscall os C_line_config_new) (\<lambda>line_config.
     if line_config = 0 then
       bindM (osdo os (C_settings_free settings)) (\<lambda>_.
       throwRuntimeError ''failed to allocate GPIO line config'') else
     bindM (oscall os (C_line_config_add line_config offset settings)) (\<lambda>r.
     if r < 0 then
       bindM (osdo os (C_line_config_free line_config)) (\<lambda>_.
       bindM (osdo os (C_settings_free settings)) (\<lambda>_.
       throwSystemError ''failed to add GPIO output line settings'')) else
     bindM (oscall os C_request_config_new) (\<lambda>request_config.
     if request_config = 0 then
       bindM (osdo os (C_line_config_free line_config)) (\<lambda>_.
       bindM (osdo os (C_settings_free settings)) (\<lambda>_.
       throwRuntimeError ''failed to allocate GPIO request config'')) else
     bindM (osdo os (C_request_config_set_consumer request_config consumer)) (\<lambda>_.
     bindM (oscall os (C_chip_request_lines chip request_config line_config)) (\<lambda>request.
     bindM (osdo os (C_request_config_free request_config)) (\<lambda>_.
     bindM (osdo os (C_line_config_free line_config)) (\<lambda>_.
     bindM (osdo os (C_settings_free settings)) (\<lambda>_.
     if request = 0 then throwSystemError ''failed to request GPIO output line''
     else retM request)))))))))))"

definition getRequestedLineValue :: "'w os \<Rightarrow> int \<Rightarrow> u32 \<Rightarrow> (('w, 'x) sys, int) M" where
  "getRequestedLineValue os request offset =
     bindM (oscall os (C_request_get_value request offset)) (\<lambda>value.
     if value < 0 then throwSystemError ''failed to read GPIO line value'' else retM value)"

definition setRequestedLineValue :: "'w os \<Rightarrow> int \<Rightarrow> u32 \<Rightarrow> line_value \<Rightarrow> (('w, 'x) sys, unit) M" where
  "setRequestedLineValue os request offset value =
     bindM (oscall os (C_request_set_value request offset value)) (\<lambda>r.
     if r < 0 then throwSystemError ''failed to write GPIO line value'' else retM ())"

section \<open>The implementation object\<close>

record Impl =
  hal_config :: LinuxSx1280RadioConfig
  spi_fd :: int
  gpio_chip :: int
  reset_request :: int
  busy_request :: int
  dio1_request :: int
  dio2_request :: int
  dio3_request :: int
  tx_enable_request :: int

definition Impl_init :: "LinuxSx1280RadioConfig \<Rightarrow> Impl" where
  "Impl_init cfg = \<lparr>hal_config = cfg, spi_fd = -1, gpio_chip = 0, reset_request = 0, busy_request = 0,
     dio1_request = 0, dio2_request = 0, dio3_request = 0, tx_enable_request = 0\<rparr>"

abbreviation pins_of :: "Impl \<Rightarrow> LinuxSx1280PinConfig" where
  "pins_of i \<equiv> cfg_pins (hal_config i)"

definition setTxEnable :: "'w os \<Rightarrow> Impl \<Rightarrow> bool \<Rightarrow> (('w, 'x) sys, unit) M" where
  "setTxEnable os i asserted =
     (if \<not> has_tx_enable (pins_of i) \<or> tx_enable_request i = 0 then retM ()
      else setRequestedLineValue os (tx_enable_request i) (tx_enable_line (pins_of i))
             (assertedLineValue (tx_enable_active_high (pins_of i)) asserted))"

definition validateConfig :: "LinuxSx1280RadioConfig \<Rightarrow> ('s, unit) M" where
  "validateConfig c =
     (if device_path (cfg_spi c) = [] then throwRuntimeError ''SPI device path cannot be empty''
      else if chip_path (cfg_gpio c) = [] then throwRuntimeError ''GPIO chip path cannot be empty''
      else if \<not> has_tx_enable (cfg_pins c) \<and> tx_enable_behavior (cfg_pins c) \<noteq> NoTxEnable
      then throwRuntimeError ''TX enable behavior requires has_tx_enable=true''
      else retM ())"

text \<open>The member functions of the constructor work on the object under construction.\<close>

type_synonym ('w, 'x, 'a) ctor = "(Impl \<times> ('w, 'x) sys, 'a) M"

definition member :: "(Impl \<Rightarrow> 'a) \<Rightarrow> ('w, 'x, 'a) ctor" where
  "member f = getsM (\<lambda>(i, s). f i)"

definition set_member :: "(Impl \<Rightarrow> Impl) \<Rightarrow> ('w, 'x, unit) ctor" where
  "set_member f = modifyM (\<lambda>(i, s). (f i, s))"

text \<open>One of the six \<^verbatim>\<open>ioctl\<close> calls of \<^verbatim>\<open>openSpi\<close>. The values read back are not used.\<close>

definition spi_setup :: "'w os \<Rightarrow> spi_ioctl \<Rightarrow> string \<Rightarrow> ('w, 'x, unit) ctor" where
  "spi_setup os request message =
     bindM (member spi_fd) (\<lambda>fd.
     bindM (lift_sndM (oscall os (C_spi_ioctl fd request))) (\<lambda>r.
     if r < 0 then throwSystemError message else retM ()))"

definition openSpi :: "'w os \<Rightarrow> ('w, 'x, unit) ctor" where
  "openSpi os =
     bindM (member (\<lambda>i. cfg_spi (hal_config i))) (\<lambda>c.
     bindM (lift_sndM (oscall os (C_open (device_path c)))) (\<lambda>fd.
     bindM (set_member (\<lambda>i. i\<lparr>spi_fd := fd\<rparr>)) (\<lambda>_.
     if fd < 0 then throwSystemError (''failed to open SPI device: '' @ device_path c)
     else seqM
       [spi_setup os (WR_MODE (spi_mode c)) ''failed to set SPI mode'',
        spi_setup os RD_MODE ''failed to read SPI mode'',
        spi_setup os (WR_BITS_PER_WORD (bits_per_word c)) ''failed to set SPI bits per word'',
        spi_setup os RD_BITS_PER_WORD ''failed to read SPI bits per word'',
        spi_setup os (WR_MAX_SPEED_HZ (speed_hz c)) ''failed to set SPI max speed'',
        spi_setup os RD_MAX_SPEED_HZ ''failed to read SPI max speed''])))"

definition openGpioChip :: "'w os \<Rightarrow> ('w, 'x, unit) ctor" where
  "openGpioChip os =
     bindM (member (\<lambda>i. chip_path (cfg_gpio (hal_config i)))) (\<lambda>path.
     bindM (lift_sndM (oscall os (C_chip_open path))) (\<lambda>chip.
     bindM (set_member (\<lambda>i. i\<lparr>gpio_chip := chip\<rparr>)) (\<lambda>_.
     if chip = 0 then throwSystemError (''failed to open GPIO chip: '' @ path) else retM ())))"

text \<open>Requesting one line and storing the request in the member \<open>upd\<close> sets.\<close>

definition store_input :: "'w os \<Rightarrow> (LinuxSx1280PinConfig \<Rightarrow> u32) \<Rightarrow> string \<Rightarrow> (int \<Rightarrow> Impl \<Rightarrow> Impl) \<Rightarrow>
    ('w, 'x, unit) ctor" where
  "store_input os line consumer upd =
     bindM (member (\<lambda>i. (gpio_chip i, line (pins_of i)))) (\<lambda>(chip, offset).
     bindM (lift_sndM (requestInputLine os chip offset consumer)) (\<lambda>request.
     set_member (upd request)))"

definition store_output :: "'w os \<Rightarrow> (LinuxSx1280PinConfig \<Rightarrow> u32) \<Rightarrow> line_value \<Rightarrow> string \<Rightarrow>
    (int \<Rightarrow> Impl \<Rightarrow> Impl) \<Rightarrow> ('w, 'x, unit) ctor" where
  "store_output os line initial consumer upd =
     bindM (member (\<lambda>i. (gpio_chip i, line (pins_of i)))) (\<lambda>(chip, offset).
     bindM (lift_sndM (requestOutputLine os chip offset initial consumer)) (\<lambda>request.
     set_member (upd request)))"

definition requestGpioLines :: "'w os \<Rightarrow> ('w, 'x, unit) ctor" where
  "requestGpioLines os =
     bindM (member pins_of) (\<lambda>pins. seqM
       [store_output os reset_line LINE_VALUE_ACTIVE ''sx1280-reset'' (\<lambda>r i. i\<lparr>reset_request := r\<rparr>),
        store_input os busy_line ''sx1280-busy'' (\<lambda>r i. i\<lparr>busy_request := r\<rparr>),
        whenM (has_dio1 pins)
          (store_input os dio1_line ''sx1280-dio1'' (\<lambda>r i. i\<lparr>dio1_request := r\<rparr>)),
        whenM (has_dio2 pins)
          (store_input os dio2_line ''sx1280-dio2'' (\<lambda>r i. i\<lparr>dio2_request := r\<rparr>)),
        whenM (has_dio3 pins)
          (store_input os dio3_line ''sx1280-dio3'' (\<lambda>r i. i\<lparr>dio3_request := r\<rparr>)),
        whenM (has_tx_enable pins)
          (store_output os tx_enable_line (assertedLineValue (tx_enable_active_high pins) False)
             ''sx1280-tx-enable'' (\<lambda>r i. i\<lparr>tx_enable_request := r\<rparr>))])"

definition applyInitialTxEnableState :: "'w os \<Rightarrow> ('w, 'x, unit) ctor" where
  "applyInitialTxEnableState os =
     bindM (member id) (\<lambda>i.
     if \<not> has_tx_enable (pins_of i) \<or> tx_enable_request i = 0 then retM ()
     else lift_sndM (case tx_enable_behavior (pins_of i) of
         NoTxEnable \<Rightarrow> setTxEnable os i False
       | AssertDuringTxOnly \<Rightarrow> setTxEnable os i False
       | StaticAsserted \<Rightarrow> setTxEnable os i True
       | StaticDeasserted \<Rightarrow> setTxEnable os i False))"

text \<open>The constructor. When it throws, the members are plain handles and the destructor does not run:
  what was opened stays open.\<close>

definition Impl_new :: "'w os \<Rightarrow> LinuxSx1280RadioConfig \<Rightarrow> (('w, 'x) sys, Impl) M" where
  "Impl_new os cfg = with_local (Impl_init cfg) (seqM
     [validateConfig cfg, openSpi os, openGpioChip os, requestGpioLines os,
      applyInitialTxEnableState os])"

definition release_request :: "'w os \<Rightarrow> int \<Rightarrow> (('w, 'x) sys, unit) M" where
  "release_request os request = whenM (request \<noteq> 0) (osdo os (C_request_release request))"

definition Impl_destroy :: "'w os \<Rightarrow> Impl \<Rightarrow> (('w, 'x) sys, unit) M" where
  "Impl_destroy os i = seqM
     [release_request os (reset_request i), release_request os (busy_request i),
      release_request os (dio1_request i), release_request os (dio2_request i),
      release_request os (dio3_request i), release_request os (tx_enable_request i),
      whenM (gpio_chip i \<noteq> 0) (osdo os (C_chip_close (gpio_chip i))),
      whenM (spi_fd i \<ge> 0) (osdo os (C_close (spi_fd i)))]"

section \<open>The virtual methods\<close>

text \<open>A line compared with \<^verbatim>\<open>GPIOD_LINE_VALUE_ACTIVE\<close>, whose value is 1.\<close>

definition read_active :: "'w os \<Rightarrow> int \<Rightarrow> u32 \<Rightarrow> (('w, 'x) sys, u8) M" where
  "read_active os request offset =
     bindM (getRequestedLineValue os request offset) (\<lambda>v. retM (byte_of_bool (v = 1)))"

definition readInputLine :: "'w os \<Rightarrow> Impl \<Rightarrow> GpioPinFunction_t \<Rightarrow> (('w, 'x) sys, u8) M" where
  "readInputLine os i func = (case func of
       GPIO_PIN_BUSY \<Rightarrow> read_active os (busy_request i) (busy_line (pins_of i))
     | GPIO_PIN_DIO1 \<Rightarrow>
         (if \<not> has_dio1 (pins_of i) \<or> dio1_request i = 0 then retM 0
          else read_active os (dio1_request i) (dio1_line (pins_of i)))
     | GPIO_PIN_DIO2 \<Rightarrow>
         (if \<not> has_dio2 (pins_of i) \<or> dio2_request i = 0 then retM 0
          else read_active os (dio2_request i) (dio2_line (pins_of i)))
     | GPIO_PIN_DIO3 \<Rightarrow>
         (if \<not> has_dio3 (pins_of i) \<or> dio3_request i = 0 then retM 0
          else read_active os (dio3_request i) (dio3_line (pins_of i)))
     | GPIO_PIN_RESET \<Rightarrow> read_active os (reset_request i) (reset_line (pins_of i)))"

definition writeOutputLine :: "'w os \<Rightarrow> Impl \<Rightarrow> GpioPinFunction_t \<Rightarrow> u8 \<Rightarrow> (('w, 'x) sys, unit) M" where
  "writeOutputLine os i func value = (case func of
       GPIO_PIN_RESET \<Rightarrow>
         setRequestedLineValue os (reset_request i) (reset_line (pins_of i))
           (if value \<noteq> 0 then LINE_VALUE_ACTIVE else LINE_VALUE_INACTIVE)
     | _ \<Rightarrow> throwRuntimeError ''attempted to write to an input GPIO line'')"

definition spi_transfer :: "'w os \<Rightarrow> Impl \<Rightarrow> bytes \<Rightarrow> (('w, 'x) sys, rx_buffer) M" where
  "spi_transfer os i buffer_out =
     bindM (syscall os (C_spi_message (spi_fd i) buffer_out (speed_hz (cfg_spi (hal_config i)))
              (bits_per_word (cfg_spi (hal_config i))))) (\<lambda>(r, buffer_in).
     if r < 0 then throwSystemError ''failed to perform SPI transfer'' else retM buffer_in)"

definition pre_tx :: "'w os \<Rightarrow> Impl \<Rightarrow> (('w, 'x) sys, unit) M" where
  "pre_tx os i = (case tx_enable_behavior (pins_of i) of
       NoTxEnable \<Rightarrow> retM () | StaticAsserted \<Rightarrow> retM () | StaticDeasserted \<Rightarrow> retM ()
     | AssertDuringTxOnly \<Rightarrow> setTxEnable os i True)"

definition pre_rx :: "'w os \<Rightarrow> Impl \<Rightarrow> (('w, 'x) sys, unit) M" where
  "pre_rx os i = (case tx_enable_behavior (pins_of i) of
       NoTxEnable \<Rightarrow> retM () | StaticAsserted \<Rightarrow> retM () | StaticDeasserted \<Rightarrow> retM ()
     | AssertDuringTxOnly \<Rightarrow> setTxEnable os i False)"

definition post_tx :: "'w os \<Rightarrow> Impl \<Rightarrow> (('w, 'x) sys, unit) M" where
  "post_tx os i = (case tx_enable_behavior (pins_of i) of
       NoTxEnable \<Rightarrow> retM ()
     | StaticAsserted \<Rightarrow> setTxEnable os i True
     | StaticDeasserted \<Rightarrow> setTxEnable os i False
     | AssertDuringTxOnly \<Rightarrow> setTxEnable os i False)"

definition post_rx :: "'w os \<Rightarrow> Impl \<Rightarrow> (('w, 'x) sys, unit) M" where
  "post_rx os i = (case tx_enable_behavior (pins_of i) of
       NoTxEnable \<Rightarrow> retM ()
     | StaticAsserted \<Rightarrow> setTxEnable os i True
     | StaticDeasserted \<Rightarrow> setTxEnable os i False
     | AssertDuringTxOnly \<Rightarrow> setTxEnable os i False)"

definition os_sleep :: "'w os \<Rightarrow> nat \<Rightarrow> ('w, 'x) sys \<Rightarrow> ('w, 'x) sys" where
  "os_sleep os us s = snd (snd (os_answer os (C_sleep us) s))"

text \<open>The virtual table of a \<^verbatim>\<open>LinuxSx1280Radio\<close> whose implementation object is \<open>i\<close>. What an
  uninitialised array holds is left open.\<close>

definition linux_hal :: "'w os \<Rightarrow> rx_buffer \<Rightarrow> Impl \<Rightarrow> ('w, 'x) sys hal" where
  "linux_hal os garbage i = \<lparr>HalGpioRead = readInputLine os i, HalGpioWrite = writeOutputLine os i,
     HalSpiTransfer = spi_transfer os i, HalPreTx = pre_tx os i, HalPreRx = pre_rx os i,
     HalPostTx = post_tx os i, HalPostRx = post_rx os i, sleep_for = os_sleep os,
     stack_garbage = garbage\<rparr>"

definition pinFunctionToLine :: "Impl \<Rightarrow> GpioPinFunction_t \<Rightarrow> u32" where
  "pinFunctionToLine i func = (case func of
       GPIO_PIN_RESET \<Rightarrow> reset_line (pins_of i)
     | GPIO_PIN_BUSY \<Rightarrow> busy_line (pins_of i)
     | GPIO_PIN_DIO1 \<Rightarrow> dio1_line (pins_of i)
     | GPIO_PIN_DIO2 \<Rightarrow> dio2_line (pins_of i)
     | GPIO_PIN_DIO3 \<Rightarrow> dio3_line (pins_of i))"

text \<open>The labels \<^verbatim>\<open>GPIO_PIN_RESET\<close> and \<^verbatim>\<open>GPIO_PIN_BUSY\<close> fall through to \<^verbatim>\<open>GPIO_PIN_DIO1\<close>.\<close>

definition isPinConfigured :: "Impl \<Rightarrow> GpioPinFunction_t \<Rightarrow> bool" where
  "isPinConfigured i func = (case func of
       GPIO_PIN_RESET \<Rightarrow> has_dio1 (pins_of i)
     | GPIO_PIN_BUSY \<Rightarrow> has_dio1 (pins_of i)
     | GPIO_PIN_DIO1 \<Rightarrow> has_dio1 (pins_of i)
     | GPIO_PIN_DIO2 \<Rightarrow> has_dio2 (pins_of i)
     | GPIO_PIN_DIO3 \<Rightarrow> has_dio3 (pins_of i))"

section \<open>What a call leaves behind\<close>

text \<open>Calls that do something to the outside: all but reading a line and sleeping.\<close>

definition is_output :: "os_call \<Rightarrow> bool" where
  "is_output c = (case c of C_request_get_value _ _ \<Rightarrow> False | C_sleep _ \<Rightarrow> False | _ \<Rightarrow> True)"

definition outputs :: "('w, 'x) sys \<Rightarrow> os_call list" where
  "outputs s = filter is_output (map fst (io_log s))"

lemma wp_syscall:
  assumes "\<And>r buf w. Q (r, buf) (s\<lparr>world := w, io_log := io_log s @ [(c, r)]\<rparr>)"
  shows "wp (syscall os c) Q E s"
  using assms by (simp add: wp_def syscall_def os_answer_def split: prod.split)

lemma wp_oscall [wp_intro]:
  assumes "\<And>r w. Q r (s\<lparr>world := w, io_log := io_log s @ [(c, r)]\<rparr>)"
  shows "wp (oscall os c) Q E s"
  unfolding oscall_def wp_bind by (rule wp_syscall) (simp add: wp assms)

lemma wp_osdo [wp_intro]:
  assumes "\<And>r w. Q () (s\<lparr>world := w, io_log := io_log s @ [(c, r)]\<rparr>)"
  shows "wp (osdo os c) Q E s"
  unfolding osdo_def wp_bind by (rule wp_syscall) (simp add: wp assms)

lemma wp_throwError [wp]:
  "wp (throwSystemError m) Q E s = E (system_error m) s"
  "wp (throwRuntimeError m) Q E s = E (runtime_error m) s"
  by (simp_all add: throwSystemError_def throwRuntimeError_def wp)

lemma wp_member [wp]: "wp (member f) Q E (i, s) = Q (f i) (i, s)"
  by (simp add: member_def wp)

lemma wp_set_member [wp]: "wp (set_member f) Q E (i, s) = Q () (f i, s)"
  by (simp add: set_member_def wp)

section \<open>Resources\<close>

text \<open>The objects the kernel and libgpiod hand out. \<open>live\<close> counts, from the log, those handed out and
  not given back.\<close>

datatype resource = R_fd | R_chip | R_settings | R_line_config | R_request_config | R_request

definition acquires :: "os_call \<Rightarrow> int \<Rightarrow> (resource \<times> int) multiset" where
  "acquires c r = (case c of
       C_open _ \<Rightarrow> if r < 0 then {#} else {#(R_fd, r)#}
     | C_chip_open _ \<Rightarrow> if r = 0 then {#} else {#(R_chip, r)#}
     | C_settings_new \<Rightarrow> if r = 0 then {#} else {#(R_settings, r)#}
     | C_line_config_new \<Rightarrow> if r = 0 then {#} else {#(R_line_config, r)#}
     | C_request_config_new \<Rightarrow> if r = 0 then {#} else {#(R_request_config, r)#}
     | C_chip_request_lines _ _ _ \<Rightarrow> if r = 0 then {#} else {#(R_request, r)#}
     | _ \<Rightarrow> {#})"

definition releases :: "os_call \<Rightarrow> (resource \<times> int) multiset" where
  "releases c = (case c of
       C_close fd \<Rightarrow> {#(R_fd, fd)#}
     | C_chip_close p \<Rightarrow> {#(R_chip, p)#}
     | C_settings_free p \<Rightarrow> {#(R_settings, p)#}
     | C_line_config_free p \<Rightarrow> {#(R_line_config, p)#}
     | C_request_config_free p \<Rightarrow> {#(R_request_config, p)#}
     | C_request_release p \<Rightarrow> {#(R_request, p)#}
     | _ \<Rightarrow> {#})"

definition live_step :: "(resource \<times> int) multiset \<Rightarrow> os_call \<times> int \<Rightarrow> (resource \<times> int) multiset" where
  "live_step m cr = m + acquires (fst cr) (snd cr) - releases (fst cr)"

definition live :: "('w, 'x) sys \<Rightarrow> (resource \<times> int) multiset" where
  "live s = foldl live_step {#} (io_log s)"

lemma live_append [simp]:
  "live (s\<lparr>world := w, io_log := io_log s' @ cs\<rparr>) = foldl live_step (live s') cs"
  by (simp add: live_def)

section \<open>The HAL keeps the driver's interface\<close>

text \<open>A radio as its owner sees it: the owner's own state and the resources held, which no HAL method
  changes, and the calls that reached the outside.\<close>

datatype 'x observation = Owner 'x "(resource \<times> int) multiset" | Did os_call

definition seen :: "('w, 'x) sys \<Rightarrow> 'x observation list" where
  "seen s = Owner (app s) (live s) # map Did (outputs s)"

definition does :: "os_call list \<Rightarrow> ('w, 'x) sys \<Rightarrow> ('w, 'x) sys \<Rightarrow> bool" where
  "does cs s s' \<longleftrightarrow> app s' = app s \<and> live s' = live s \<and> outputs s' = outputs s @ cs"

definition spi_message :: "Impl \<Rightarrow> bytes \<Rightarrow> os_call" where
  "spi_message i out = C_spi_message (spi_fd i) out (speed_hz (cfg_spi (hal_config i)))
     (bits_per_word (cfg_spi (hal_config i)))"

definition reset_level :: "Impl \<Rightarrow> u8 \<Rightarrow> os_call" where
  "reset_level i v = C_request_set_value (reset_request i) (reset_line (pins_of i))
     (if v \<noteq> 0 then LINE_VALUE_ACTIVE else LINE_VALUE_INACTIVE)"

definition tx_enable_calls :: "Impl \<Rightarrow> bool \<Rightarrow> os_call list" where
  "tx_enable_calls i asserted =
     (if has_tx_enable (pins_of i) \<and> tx_enable_request i \<noteq> 0
      then [C_request_set_value (tx_enable_request i) (tx_enable_line (pins_of i))
              (assertedLineValue (tx_enable_active_high (pins_of i)) asserted)]
      else [])"

definition hook_calls :: "Impl \<Rightarrow> hal_hook \<Rightarrow> os_call list" where
  "hook_calls i k = (case tx_enable_behavior (pins_of i) of
       NoTxEnable \<Rightarrow> []
     | StaticAsserted \<Rightarrow> if k = PostTx \<or> k = PostRx then tx_enable_calls i True else []
     | StaticDeasserted \<Rightarrow> if k = PostTx \<or> k = PostRx then tx_enable_calls i False else []
     | AssertDuringTxOnly \<Rightarrow> tx_enable_calls i (k = PreTx))"

abbreviation linux_hook :: "Impl \<Rightarrow> hal_hook \<Rightarrow> ('w, 'x) sys \<Rightarrow> 'x observation list" where
  "linux_hook i k s \<equiv> map Did (hook_calls i k)"

lemma map_Did_eq [simp]: "map Did xs = map Did ys \<longleftrightarrow> xs = ys"
  by (rule inj_map_eq_map) (simp add: inj_def)

lemma advances_seen: "advances seen (linux_hook i) (map Did cs) s s' \<longleftrightarrow> does cs s s'"
  by (auto simp: advances_def seen_def does_def simp flip: map_append)

lemmas advances_seen_simps = advances_seen [of _ "[]", simplified] advances_seen [of _ "[_]", simplified]
  advances_seen

lemma advances_does: "advances seen hk os s s' \<Longrightarrow> app s' = app s \<and> live s' = live s"
  by (simp add: advances_def seen_def)

lemmas does_simps = does_def outputs_def is_output_def live_step_def acquires_def releases_def

lemma wp_setRequestedLineValue:
  "wp (setRequestedLineValue os req off v)
     (\<lambda>_. does [C_request_set_value req off v] s) (\<lambda>_. does [C_request_set_value req off v] s) s"
  by (auto simp: setRequestedLineValue_def wp does_simps intro!: wp_intro)

lemma wp_setTxEnable:
  "wp (setTxEnable os i b) (\<lambda>_. does (tx_enable_calls i b) s) (\<lambda>_. does (tx_enable_calls i b) s) s"
  using wp_setRequestedLineValue [of os "tx_enable_request i" "tx_enable_line (pins_of i)" _ s]
  by (simp add: setTxEnable_def tx_enable_calls_def wp does_def)

lemma wp_linux_hook:
  "wp (run_hook (linux_hal os g i) k) (\<lambda>_. does (hook_calls i k) s) (\<lambda>_. does (hook_calls i k) s) s"
  using wp_setTxEnable [of os i _ s]
  by (cases k; cases "tx_enable_behavior (pins_of i)")
     (simp_all add: linux_hal_def pre_tx_def pre_rx_def post_tx_def post_rx_def hook_calls_def wp does_def)

lemma wp_read_active:
  "wp (read_active os req off) (\<lambda>_. does [] s) (\<lambda>_. does [] s) s"
  by (auto simp: read_active_def getRequestedLineValue_def wp does_simps intro!: wp_intro)

interpretation linux: hal_obs "linux_hal os g i" seen "\<lambda>f. Did (spi_message i f)"
    "\<lambda>v. Did (reset_level i v)" "linux_hook i"
  for os :: "'w os" and g :: rx_buffer and i :: Impl
proof (unfold_locales, unfold advances_seen_simps)
  fix p v out k us and s :: "('w, 'x) sys"
  show "wp (HalGpioRead (linux_hal os g i) p) (\<lambda>_. does [] s) (\<lambda>_. does [] s) s"
    by (cases p) (simp_all add: linux_hal_def readInputLine_def wp_read_active wp does_def)
  show "wp (HalGpioWrite (linux_hal os g i) GPIO_PIN_RESET v)
          (\<lambda>_. does [reset_level i v] s) (\<lambda>_. does [reset_level i v] s) s"
    by (simp add: linux_hal_def writeOutputLine_def reset_level_def wp_setRequestedLineValue)
  show "wp (HalSpiTransfer (linux_hal os g i) out)
          (\<lambda>_. does [spi_message i out] s) (\<lambda>_. does [spi_message i out] s) s"
    unfolding linux_hal_def hal.simps spi_transfer_def wp_bind
    by (rule wp_syscall) (simp add: wp does_simps spi_message_def)
  show "wp (run_hook (linux_hal os g i) k)
          (\<lambda>_. does (hook_calls i k) s) (\<lambda>_. does (hook_calls i k) s) s"
    by (rule wp_linux_hook)
  show "does [] s (sleep_for (linux_hal os g i) us s)"
    by (simp add: linux_hal_def os_sleep_def os_answer_def does_simps split: prod.split)
qed

section \<open>Resources of the implementation object\<close>

lemma remove_added_below [simp]:
  "add_mset a (add_mset b m) - {#a#} = add_mset b m"
  "a \<noteq> b \<Longrightarrow> add_mset b (add_mset a m) - {#a#} = add_mset b m"
  "a \<noteq> b \<Longrightarrow> a \<noteq> c \<Longrightarrow> add_mset b (add_mset c (add_mset a m)) - {#a#} = add_mset b (add_mset c m)"
  by (simp_all add: multiset_eq_iff)

lemmas live_simps = live_step_def acquires_def releases_def throwSystemError_def throwRuntimeError_def

text \<open>The helper objects of a line request are freed on every path; the request itself is handed to
  the caller.\<close>

lemma wp_requestInputLine [wp_intro]:
  assumes "\<And>req s'. req \<noteq> 0 \<Longrightarrow> live s' = add_mset (R_request, req) (live s) \<Longrightarrow> app s' = app s \<Longrightarrow> Q req s'"
    and "\<And>x s'. live s' = live s \<Longrightarrow> app s' = app s \<Longrightarrow> E x s'"
  shows "wp (requestInputLine os chip off consumer) Q E s"
  unfolding requestInputLine_def
  by (auto simp: wp live_simps intro!: wp_intro assms)

lemma wp_requestOutputLine [wp_intro]:
  assumes "\<And>req s'. req \<noteq> 0 \<Longrightarrow> live s' = add_mset (R_request, req) (live s) \<Longrightarrow> app s' = app s \<Longrightarrow> Q req s'"
    and "\<And>x s'. live s' = live s \<Longrightarrow> app s' = app s \<Longrightarrow> E x s'"
  shows "wp (requestOutputLine os chip off v consumer) Q E s"
  unfolding requestOutputLine_def
  by (auto simp: wp live_simps intro!: wp_intro assms)

text \<open>What an implementation object holds.\<close>

definition held_request :: "int \<Rightarrow> (resource \<times> int) multiset" where
  "held_request r = (if r = 0 then {#} else {#(R_request, r)#})"

definition held :: "Impl \<Rightarrow> (resource \<times> int) multiset" where
  "held i = (if spi_fd i < 0 then {#} else {#(R_fd, spi_fd i)#})
     + (if gpio_chip i = 0 then {#} else {#(R_chip, gpio_chip i)#})
     + held_request (reset_request i) + held_request (busy_request i)
     + held_request (dio1_request i) + held_request (dio2_request i)
     + held_request (dio3_request i) + held_request (tx_enable_request i)"

text \<open>A completely constructed object: every handle its configuration asks for is there.\<close>

definition Impl_ok :: "LinuxSx1280RadioConfig \<Rightarrow> Impl \<Rightarrow> bool" where
  "Impl_ok cfg i \<longleftrightarrow> hal_config i = cfg \<and> 0 \<le> spi_fd i \<and> gpio_chip i \<noteq> 0 \<and> reset_request i \<noteq> 0
     \<and> busy_request i \<noteq> 0 \<and> (dio1_request i \<noteq> 0 \<longleftrightarrow> has_dio1 (cfg_pins cfg))
     \<and> (dio2_request i \<noteq> 0 \<longleftrightarrow> has_dio2 (cfg_pins cfg)) \<and> (dio3_request i \<noteq> 0 \<longleftrightarrow> has_dio3 (cfg_pins cfg))
     \<and> (tx_enable_request i \<noteq> 0 \<longleftrightarrow> has_tx_enable (cfg_pins cfg))
     \<and> device_path (cfg_spi cfg) \<noteq> [] \<and> chip_path (cfg_gpio cfg) \<noteq> []
     \<and> (has_tx_enable (cfg_pins cfg) \<or> tx_enable_behavior (cfg_pins cfg) = NoTxEnable)"

text \<open>The state of the constructor: the program's state is untouched and exactly the handles of the
  object under construction have been taken.\<close>

definition holding :: "('w, 'x) sys \<Rightarrow> Impl \<times> ('w, 'x) sys \<Rightarrow> bool" where
  "holding s0 is \<longleftrightarrow> app (snd is) = app s0 \<and> live (snd is) = live s0 + held (fst is)"

lemma wp_spi_setup [wp_intro]:
  assumes "holding s0 (i, s)" and "\<And>s'. holding s0 (i, s') \<Longrightarrow> Q () (i, s')"
    and "\<And>x s'. holding s0 (i, s') \<Longrightarrow> E x (i, s')"
  shows "wp (spi_setup os r m) Q E (i, s)"
  using assms(1) unfolding spi_setup_def
  by (auto simp: wp holding_def live_simps intro!: wp_intro assms(2,3))

lemma wp_openSpi [wp_intro]:
  assumes "holding s0 (i, s)" and "spi_fd i < 0"
    and "\<And>fd s'. 0 \<le> fd \<Longrightarrow> holding s0 (i\<lparr>spi_fd := fd\<rparr>, s') \<Longrightarrow> Q () (i\<lparr>spi_fd := fd\<rparr>, s')"
    and "\<And>x i' s'. holding s0 (i', s') \<Longrightarrow> E x (i', s')"
  shows "wp (openSpi os) Q E (i, s)"
  using assms(1,2) unfolding openSpi_def
  by (auto simp: wp holding_def held_def live_simps intro!: wp_intro assms(3,4)
      intro!: wp_spi_setup [of s0])

lemma wp_openGpioChip [wp_intro]:
  assumes "holding s0 (i, s)" and "gpio_chip i = 0"
    and "\<And>c s'. c \<noteq> 0 \<Longrightarrow> holding s0 (i\<lparr>gpio_chip := c\<rparr>, s') \<Longrightarrow> Q () (i\<lparr>gpio_chip := c\<rparr>, s')"
    and "\<And>x i' s'. holding s0 (i', s') \<Longrightarrow> E x (i', s')"
  shows "wp (openGpioChip os) Q E (i, s)"
  using assms(1,2) unfolding openGpioChip_def
  by (auto simp: wp holding_def held_def live_simps intro!: wp_intro assms(3,4))

lemma wp_store_input [wp_intro]:
  assumes "holding s0 (i, s)" and "\<And>r. r \<noteq> 0 \<Longrightarrow> held (upd r i) = add_mset (R_request, r) (held i)"
    and "\<And>r s'. r \<noteq> 0 \<Longrightarrow> holding s0 (upd r i, s') \<Longrightarrow> Q () (upd r i, s')"
    and "\<And>x i' s'. holding s0 (i', s') \<Longrightarrow> E x (i', s')"
  shows "wp (store_input os line consumer upd) Q E (i, s)"
  using assms(1,2) unfolding store_input_def
  by (auto simp: wp holding_def intro!: wp_intro assms(3,4))

lemma wp_store_output [wp_intro]:
  assumes "holding s0 (i, s)" and "\<And>r. r \<noteq> 0 \<Longrightarrow> held (upd r i) = add_mset (R_request, r) (held i)"
    and "\<And>r s'. r \<noteq> 0 \<Longrightarrow> holding s0 (upd r i, s') \<Longrightarrow> Q () (upd r i, s')"
    and "\<And>x i' s'. holding s0 (i', s') \<Longrightarrow> E x (i', s')"
  shows "wp (store_output os line v consumer upd) Q E (i, s)"
  using assms(1,2) unfolding store_output_def
  by (auto simp: wp holding_def intro!: wp_intro assms(3,4))

lemma wp_applyInitialTxEnableState [wp_intro]:
  assumes "holding s0 (i, s)" and "\<And>s'. holding s0 (i, s') \<Longrightarrow> Q () (i, s')"
    and "\<And>x i' s'. holding s0 (i', s') \<Longrightarrow> E x (i', s')"
  shows "wp (applyInitialTxEnableState os) Q E (i, s)"
  using assms(1) unfolding applyInitialTxEnableState_def setTxEnable_def setRequestedLineValue_def
  by (auto simp: wp holding_def live_simps split: TxEnableBehavior.split intro!: wp_intro assms(2,3))

lemma wp_validateConfig [wp]:
  "wp (validateConfig c) Q E s =
     (if device_path (cfg_spi c) = [] then E (runtime_error ''SPI device path cannot be empty'') s
      else if chip_path (cfg_gpio c) = [] then E (runtime_error ''GPIO chip path cannot be empty'') s
      else if \<not> has_tx_enable (cfg_pins c) \<and> tx_enable_behavior (cfg_pins c) \<noteq> NoTxEnable
      then E (runtime_error ''TX enable behavior requires has_tx_enable=true'') s
      else Q () s)"
  by (simp add: validateConfig_def wp)

lemma held_simps [simp]:
  "held (Impl_init cfg) = {#}"
  "reset_request i = 0 \<Longrightarrow> held (i\<lparr>reset_request := r\<rparr>) = held i + held_request r"
  "busy_request i = 0 \<Longrightarrow> held (i\<lparr>busy_request := r\<rparr>) = held i + held_request r"
  "dio1_request i = 0 \<Longrightarrow> held (i\<lparr>dio1_request := r\<rparr>) = held i + held_request r"
  "dio2_request i = 0 \<Longrightarrow> held (i\<lparr>dio2_request := r\<rparr>) = held i + held_request r"
  "dio3_request i = 0 \<Longrightarrow> held (i\<lparr>dio3_request := r\<rparr>) = held i + held_request r"
  "tx_enable_request i = 0 \<Longrightarrow> held (i\<lparr>tx_enable_request := r\<rparr>) = held i + held_request r"
  by (simp_all add: held_def held_request_def Impl_init_def)

text \<open>An optional line: the member keeps its \<^verbatim>\<open>nullptr\<close> exactly when the line is not configured.\<close>

lemma wp_when_store:
  assumes "upd 0 i = i" and "holding s0 (i, s)"
    and "\<And>r. r \<noteq> 0 \<Longrightarrow> held (upd r i) = add_mset (R_request, r) (held i)"
    and "\<And>r s'. (r \<noteq> 0 \<longleftrightarrow> c) \<Longrightarrow> holding s0 (upd r i, s') \<Longrightarrow> Q () (upd r i, s')"
    and "\<And>x i' s'. holding s0 (i', s') \<Longrightarrow> E x (i', s')"
  shows "wp (whenM c (store_input os line consumer upd)) Q E (i, s)"
    "wp (whenM c (store_output os line v consumer upd)) Q E (i, s)"
  using assms(4) [of 0 s] assms(1,2,3) wp_store_input [of s0 i s upd Q E, OF assms(2,3) assms(4,5)]
    wp_store_output [of s0 i s upd Q E, OF assms(2,3) assms(4,5)] by (auto simp: wp)

lemma wp_requestGpioLines:
  assumes "holding s0 (i, s)" and "reset_request i = 0" "busy_request i = 0" "dio1_request i = 0"
    "dio2_request i = 0" "dio3_request i = 0" "tx_enable_request i = 0"
    and Q: "\<And>r b d1 d2 d3 t s'. \<lbrakk>r \<noteq> 0; b \<noteq> 0; d1 \<noteq> 0 \<longleftrightarrow> has_dio1 (pins_of i);
          d2 \<noteq> 0 \<longleftrightarrow> has_dio2 (pins_of i); d3 \<noteq> 0 \<longleftrightarrow> has_dio3 (pins_of i);
          t \<noteq> 0 \<longleftrightarrow> has_tx_enable (pins_of i);
          holding s0 (i\<lparr>reset_request := r, busy_request := b, dio1_request := d1, dio2_request := d2,
            dio3_request := d3, tx_enable_request := t\<rparr>, s')\<rbrakk> \<Longrightarrow>
        Q () (i\<lparr>reset_request := r, busy_request := b, dio1_request := d1, dio2_request := d2,
            dio3_request := d3, tx_enable_request := t\<rparr>, s')"
    and E: "\<And>x i' s'. holding s0 (i', s') \<Longrightarrow> E x (i', s')"
  shows "wp (requestGpioLines os) Q E (i, s)"
  unfolding requestGpioLines_def wp_bind wp_member wp_seq_Cons wp_seq_Nil
  by (rule wp_store_output [of s0] wp_store_input [of s0] wp_when_store [of _ _ s0] Q E
      | simp add: assms(1-7) held_request_def; fail | assumption)+

lemma wp_Impl_new [wp_intro]:
  assumes "\<And>i s'. Impl_ok cfg i \<Longrightarrow> app s' = app s \<Longrightarrow> live s' = live s + held i \<Longrightarrow> Q i s'"
    and "\<And>x i s'. app s' = app s \<Longrightarrow> live s' = live s + held i \<Longrightarrow> E x s'"
  shows "wp (Impl_new os cfg) Q E s"
proof -
  have finished: "Q i s'" if "holding s (i, s')" "Impl_ok cfg i" for i s'
    using that by (intro assms) (auto simp: holding_def)
  have broken: "E x s'" if "holding s (i, s')" for x i s'
    using that by (intro assms(2) [of s' i]) (auto simp: holding_def)
  have start: "holding s (Impl_init cfg, s)"
    by (simp add: holding_def)
  show ?thesis
    unfolding Impl_new_def wp_with_local wp_seq_Cons wp_seq_Nil wp_validateConfig case_prod_conv
    using broken [OF start]
    by (auto intro!: wp_openSpi [of s] wp_openGpioChip [of s] wp_requestGpioLines [of s]
          wp_applyInitialTxEnableState [of s] start finished)
       (auto simp: Impl_init_def Impl_ok_def elim: broken)
qed

lemma wp_release_request [wp_intro]:
  assumes "\<And>s'. app s' = app s \<Longrightarrow> live s' = live s - held_request r \<Longrightarrow> Q () s'"
  shows "wp (release_request os r) Q E s"
  unfolding release_request_def
  by (auto simp: wp live_simps held_request_def intro!: wp_intro assms)

lemma wp_Impl_destroy [wp_intro]:
  assumes "\<And>s'. app s' = app s \<Longrightarrow> live s' = live s - held i \<Longrightarrow> Q () s'"
  shows "wp (Impl_destroy os i) Q E s"
proof -
  have eq: "live s' = live s - held i" if "live s' = live s - held_request (reset_request i)
      - held_request (busy_request i) - held_request (dio1_request i) - held_request (dio2_request i)
      - held_request (dio3_request i) - held_request (tx_enable_request i)
      - (if gpio_chip i = 0 then {#} else {#(R_chip, gpio_chip i)#})
      - (if spi_fd i < 0 then {#} else {#(R_fd, spi_fd i)#})" for s' :: "('a, 'b) sys"
    using that by (simp add: held_def ac_simps)
  show ?thesis
    unfolding Impl_destroy_def
    by (auto simp: wp live_simps intro!: wp_intro assms eq)
qed

section \<open>Liveness\<close>

text \<open>
  What the radio needs of the kernel for its operations to return: in the states \<open>okw\<close> the calls of
  the HAL succeed and lead to such states again, and \<open>budget\<close> bounds the number of times the busy line
  can still be read high, sleeping in between.
\<close>

definition answers :: "'w os \<Rightarrow> ('w \<Rightarrow> bool) \<Rightarrow> os_call \<Rightarrow> 'w \<Rightarrow> bool" where
  "answers os okw c w = (case os c w of (r, _, w') \<Rightarrow> 0 \<le> r \<and> okw w')"

definition busy_falls :: "'w os \<Rightarrow> Impl \<Rightarrow> ('w \<Rightarrow> nat) \<Rightarrow> 'w \<Rightarrow> bool" where
  "busy_falls os i budget w =
     (case os (C_request_get_value (busy_request i) (busy_line (pins_of i))) w of (r, _, w') \<Rightarrow>
        r = 1 \<longrightarrow> (\<forall>us. budget (snd (snd (os (C_sleep us) w'))) < budget w))"

definition kernel_ok :: "'w os \<Rightarrow> Impl \<Rightarrow> ('w \<Rightarrow> bool) \<Rightarrow> ('w \<Rightarrow> nat) \<Rightarrow> bool" where
  "kernel_ok os i okw budget \<longleftrightarrow> (\<forall>w. okw w \<longrightarrow>
     (\<forall>out. answers os okw (spi_message i out) w) \<and> (\<forall>v. answers os okw (reset_level i v) w) \<and>
     (\<forall>b. \<forall>c \<in> set (tx_enable_calls i b). answers os okw c w) \<and>
     answers os okw (C_request_get_value (busy_request i) (busy_line (pins_of i))) w \<and>
     busy_falls os i budget w \<and> (\<forall>us. okw (snd (snd (os (C_sleep us) w)))))"

lemma twp_syscall:
  "twp (syscall os c) Q s = (case os c (world s) of (r, buf, w) \<Rightarrow>
     Q (r, buf) (s\<lparr>world := w, io_log := io_log s @ [(c, r)]\<rparr>))"
  by (simp add: twp_def syscall_def os_answer_def split: prod.split)

lemma twp_oscall:
  assumes "answers os okw c (world s)"
    and "\<And>r w. 0 \<le> r \<Longrightarrow> okw w \<Longrightarrow> Q r (s\<lparr>world := w, io_log := io_log s @ [(c, r)]\<rparr>)"
  shows "twp (oscall os c) Q s"
  using assms by (auto simp: answers_def oscall_def twp twp_syscall split: prod.splits)

lemma twp_setTxEnable:
  assumes "\<And>c. c \<in> set (tx_enable_calls i b) \<Longrightarrow> answers os okw c (world s)" and "okw (world s)"
  shows "twp (setTxEnable os i b) (\<lambda>_ s'. okw (world s')) s"
  using assms unfolding setTxEnable_def setRequestedLineValue_def
  by (auto simp: twp tx_enable_calls_def intro!: twp_oscall)

lemma linux_live:
  assumes "kernel_ok os i okw budget"
  shows "hal_live (linux_hal os g i :: ('w, 'x) sys hal) (\<lambda>s. okw (world s)) (\<lambda>s. budget (world s))"
proof
  fix s :: "('w, 'x) sys" and us v out k
  assume ok: "okw (world s)"
  note k = assms [unfolded kernel_ok_def, rule_format, OF ok]
  show "\<exists>v s'. HalGpioRead (linux_hal os g i) GPIO_PIN_BUSY s = Some (Ret v s') \<and> okw (world s') \<and>
      (v \<noteq> 0 \<longrightarrow> budget (world (sleep_for (linux_hal os g i) us s')) < budget (world s))"
    using k ok
    by (auto simp: linux_hal_def readInputLine_def read_active_def getRequestedLineValue_def oscall_def
        syscall_def os_answer_def os_sleep_def answers_def busy_falls_def bindM_def retM_def
        byte_of_bool_def split: prod.splits)
       (metis snd_conv)
  show "twp (HalGpioWrite (linux_hal os g i) GPIO_PIN_RESET v) (\<lambda>_ s. okw (world s)) s"
    using k by (auto simp: linux_hal_def writeOutputLine_def setRequestedLineValue_def twp
        simp flip: reset_level_def intro!: twp_oscall [of os okw])
  show "twp (HalSpiTransfer (linux_hal os g i) out) (\<lambda>_ s. okw (world s)) s"
    using k [THEN conjunct1, rule_format, of out] unfolding linux_hal_def hal.simps spi_transfer_def
    by (auto simp: twp twp_syscall spi_message_def answers_def split: prod.splits)
  show "twp (run_hook (linux_hal os g i) k) (\<lambda>_ s. okw (world s)) s"
    using k ok twp_setTxEnable [of i _ os okw s]
    by (cases k; cases "tx_enable_behavior (pins_of i)")
       (simp_all add: linux_hal_def pre_tx_def pre_rx_def post_tx_def post_rx_def twp)
  show "okw (world (sleep_for (linux_hal os g i) us s))"
    using k by (simp add: linux_hal_def os_sleep_def os_answer_def case_prod_unfold)
qed

text \<open>
  A kernel on which a whole program can run: every call succeeds, handles are not null, and the busy
  line of every radio falls.
\<close>

definition hands_out :: "os_call \<Rightarrow> bool" where
  "hands_out c = (case c of C_chip_open _ \<Rightarrow> True | C_settings_new \<Rightarrow> True | C_line_config_new \<Rightarrow> True
     | C_request_config_new \<Rightarrow> True | C_chip_request_lines _ _ _ \<Rightarrow> True | _ \<Rightarrow> False)"

definition good_kernel :: "'w os \<Rightarrow> ('w \<Rightarrow> bool) \<Rightarrow> ('w \<Rightarrow> nat) \<Rightarrow> bool" where
  "good_kernel os okw budget \<longleftrightarrow> (\<forall>w. okw w \<longrightarrow> (\<forall>i. busy_falls os i budget w) \<and>
     (\<forall>c. case os c w of (r, _, w') \<Rightarrow> okw w' \<and> 0 \<le> r \<and> (hands_out c \<longrightarrow> r \<noteq> 0)))"

lemma good_kernel_answers:
  "good_kernel os okw budget \<Longrightarrow> okw w \<Longrightarrow> os c w = (r, buf, w') \<Longrightarrow>
     okw w' \<and> 0 \<le> r \<and> (hands_out c \<longrightarrow> r \<noteq> 0)"
  unfolding good_kernel_def by (metis (mono_tags, lifting) case_prod_conv)

lemma good_kernel_ok:
  assumes "good_kernel os okw budget"
  shows "kernel_ok os i okw budget"
proof -
  have "answers os okw c w" if "okw w" for c w
    using good_kernel_answers [OF assms that, of c] by (auto simp: answers_def split: prod.split)
  moreover have "okw (snd (snd (os c w)))" if "okw w" for c w
    using good_kernel_answers [OF assms that, of c] by (cases "os c w") auto
  ultimately show ?thesis
    using assms by (simp add: kernel_ok_def good_kernel_def)
qed

lemma twp_good_oscall:
  assumes "good_kernel os okw budget" "okw (world s)"
    and "\<And>r s'. okw (world s') \<Longrightarrow> 0 \<le> r \<Longrightarrow> (hands_out c \<Longrightarrow> r \<noteq> 0) \<Longrightarrow> Q r s'"
  shows "twp (oscall os c) Q s" "(\<And>r s'. okw (world s') \<Longrightarrow> Q' () s') \<Longrightarrow> twp (osdo os c) Q' s"
  using good_kernel_answers [OF assms(1,2), of c] assms(3)
  by (auto simp: oscall_def osdo_def twp twp_syscall split: prod.split)

lemma twp_requestInputLine:
  assumes "good_kernel os okw budget" "okw (world s)"
    and "\<And>req s'. okw (world s') \<Longrightarrow> Q req s'"
  shows "twp (requestInputLine os chip off consumer) Q s"
  unfolding requestInputLine_def
  by (auto simp: twp hands_out_def intro!: twp_good_oscall [OF assms(1)] assms(2,3))

lemma twp_requestOutputLine:
  assumes "good_kernel os okw budget" "okw (world s)"
    and "\<And>req s'. okw (world s') \<Longrightarrow> Q req s'"
  shows "twp (requestOutputLine os chip off v consumer) Q s"
  unfolding requestOutputLine_def
  by (auto simp: twp hands_out_def intro!: twp_good_oscall [OF assms(1)] assms(2,3))

lemma twp_ctor [twp]:
  "twp (member f) Q (i, s) = Q (f i) (i, s)" "twp (set_member g) Q' (i, s) = Q' () (g i, s)"
  by (simp_all add: member_def set_member_def twp)

lemma twp_spi_setup:
  assumes "good_kernel os okw budget" "okw (world s)" and "\<And>s'. okw (world s') \<Longrightarrow> Q () (i, s')"
  shows "twp (spi_setup os r m) Q (i, s)"
  unfolding spi_setup_def by (auto simp: twp intro!: twp_good_oscall [OF assms(1)] assms(2,3))

lemma twp_openSpi:
  assumes "good_kernel os okw budget" "okw (world s)" and "\<And>i' s'. okw (world s') \<Longrightarrow> Q () (i', s')"
  shows "twp (openSpi os) Q (i, s)"
  unfolding openSpi_def
  by (auto simp: twp intro!: twp_good_oscall [OF assms(1)] twp_spi_setup [OF assms(1)] assms(2,3))

lemma twp_openGpioChip:
  assumes "good_kernel os okw budget" "okw (world s)" and "\<And>i' s'. okw (world s') \<Longrightarrow> Q () (i', s')"
  shows "twp (openGpioChip os) Q (i, s)"
  unfolding openGpioChip_def
  by (auto simp: twp hands_out_def intro!: twp_good_oscall [OF assms(1)] assms(2,3))

lemma twp_store:
  assumes "good_kernel os okw budget" "okw (world s)" and "\<And>i' s'. okw (world s') \<Longrightarrow> Q () (i', s')"
  shows "twp (store_input os line consumer upd) Q (i, s)" "twp (store_output os line v consumer upd) Q (i, s)"
  unfolding store_input_def store_output_def
  by (auto simp: twp intro!: twp_requestInputLine [OF assms(1)] twp_requestOutputLine [OF assms(1)] assms(2,3))

lemma twp_requestGpioLines:
  assumes "good_kernel os okw budget" "okw (world s)" and "\<And>i' s'. okw (world s') \<Longrightarrow> Q () (i', s')"
  shows "twp (requestGpioLines os) Q (i, s)"
  unfolding requestGpioLines_def
  by (auto simp: twp intro!: twp_store [OF assms(1)] assms(2,3))

lemma twp_applyInitialTxEnableState:
  assumes "good_kernel os okw budget" "okw (world s)" and "\<And>i' s'. okw (world s') \<Longrightarrow> Q () (i', s')"
  shows "twp (applyInitialTxEnableState os) Q (i, s)"
  unfolding applyInitialTxEnableState_def setTxEnable_def setRequestedLineValue_def
  by (auto simp: twp split: TxEnableBehavior.split intro!: twp_good_oscall [OF assms(1)] assms(2,3))

text \<open>What the constructor's validation accepts.\<close>

definition valid_config :: "LinuxSx1280RadioConfig \<Rightarrow> bool" where
  "valid_config c \<longleftrightarrow> device_path (cfg_spi c) \<noteq> [] \<and> chip_path (cfg_gpio c) \<noteq> [] \<and>
     (has_tx_enable (cfg_pins c) \<or> tx_enable_behavior (cfg_pins c) = NoTxEnable)"

lemma twp_Impl_new:
  assumes "good_kernel os okw budget" "okw (world s)" "valid_config cfg"
    and "\<And>i s'. Impl_ok cfg i \<Longrightarrow> okw (world s') \<Longrightarrow> app s' = app s \<Longrightarrow> live s' = live s + held i \<Longrightarrow> Q i s'"
  shows "twp (Impl_new os cfg) Q s"
proof -
  have "twp (Impl_new os cfg) (\<lambda>_ s'. okw (world s')) s"
    using assms(3) unfolding Impl_new_def validateConfig_def valid_config_def
    by (auto simp: twp intro!: twp_openSpi [OF assms(1)] twp_openGpioChip [OF assms(1)]
        twp_requestGpioLines [OF assms(1)] twp_applyInitialTxEnableState [OF assms(1)] assms(2))
  moreover have "wp (Impl_new os cfg)
      (\<lambda>i s'. Impl_ok cfg i \<and> app s' = app s \<and> live s' = live s + held i) (\<lambda>_ _. True) s"
    by (rule wp_Impl_new) simp_all
  ultimately have "twp (Impl_new os cfg) (\<lambda>i s'. okw (world s') \<and> Impl_ok cfg i \<and> app s' = app s \<and>
      live s' = live s + held i) s"
    by (rule twp_wp)
  then show ?thesis
    by (rule twp_mono) (auto intro: assms(4))
qed

section \<open>A bench\<close>

text \<open>
  A concrete kernel for evaluating the model: handles are numbered from 1, every call succeeds, the
  radio answers a frame with \<open>reply\<close> of it and then holds its busy line high for two readings.
\<close>

record bench =
  bench_busy :: nat
  bench_next :: int

definition bench_os :: "(bytes \<Rightarrow> rx_buffer) \<Rightarrow> bench os" where
  "bench_os reply c w = (case c of
       C_open _ \<Rightarrow> (bench_next w, \<lambda>_. 0, w\<lparr>bench_next := bench_next w + 1\<rparr>)
     | C_chip_open _ \<Rightarrow> (bench_next w, \<lambda>_. 0, w\<lparr>bench_next := bench_next w + 1\<rparr>)
     | C_settings_new \<Rightarrow> (bench_next w, \<lambda>_. 0, w\<lparr>bench_next := bench_next w + 1\<rparr>)
     | C_line_config_new \<Rightarrow> (bench_next w, \<lambda>_. 0, w\<lparr>bench_next := bench_next w + 1\<rparr>)
     | C_request_config_new \<Rightarrow> (bench_next w, \<lambda>_. 0, w\<lparr>bench_next := bench_next w + 1\<rparr>)
     | C_chip_request_lines _ _ _ \<Rightarrow> (bench_next w, \<lambda>_. 0, w\<lparr>bench_next := bench_next w + 1\<rparr>)
     | C_spi_message _ out _ _ \<Rightarrow> (int (length out), reply out, w\<lparr>bench_busy := 2\<rparr>)
     | C_request_get_value _ _ \<Rightarrow> (if bench_busy w > 0 then 1 else 0, \<lambda>_. 0, w)
     | C_sleep _ \<Rightarrow> (0, \<lambda>_. 0, w\<lparr>bench_busy := bench_busy w - 1\<rparr>)
     | _ \<Rightarrow> (0, \<lambda>_. 0, w))"

definition bench_start :: "'x \<Rightarrow> (bench, 'x) sys" where
  "bench_start x = \<lparr>world = \<lparr>bench_busy = 0, bench_next = 1\<rparr>, io_log = [], app = x\<rparr>"

lemma bench_good: "good_kernel (bench_os reply) (\<lambda>w. 0 < bench_next w) bench_busy"
  by (auto simp: good_kernel_def busy_falls_def bench_os_def hands_out_def split: os_call.splits)

lemma bench_kernel_ok: "kernel_ok (bench_os reply) i (\<lambda>_. True) bench_busy"
  by (auto simp: kernel_ok_def answers_def busy_falls_def bench_os_def spi_message_def reset_level_def
      tx_enable_calls_def)

interpretation bench: hal_live "linux_hal (bench_os reply) g i" "\<lambda>s. True" "\<lambda>s. bench_busy (world s)"
  for reply and g and i
  using linux_live [OF bench_kernel_ok] .

section \<open>The driver on Linux\<close>

lemma locks_idle: "locks False ok (b, e) \<longleftrightarrow> idle b \<and> ok e"
  by (auto simp: locks_def idle_def)

lemma trace_Did:
  "set_tx_trace (\<lambda>f. Did (spi_message i f)) (\<lambda>k. map Did (hook_calls i k)) t tm =
     map Did (set_tx_trace (spi_message i) (hook_calls i) t tm)"
  "set_rx_trace (\<lambda>f. Did (spi_message i f)) (\<lambda>k. map Did (hook_calls i k)) t tm =
     map Did (set_rx_trace (spi_message i) (hook_calls i) t tm)"
  by (simp_all add: set_tx_trace_def set_rx_trace_def role_trace_def)

lemma linux_wp_SetTx:
  assumes "idle b"
    and "\<And>s'. does (set_tx_trace (spi_message i) (hook_calls i) (PacketType b) tm) s s' \<Longrightarrow>
           Q () (b\<lparr>OperatingMode := MODE_TX\<rparr>, s')"
    and "\<And>x s'. app s' = app s \<Longrightarrow> live s' = live s \<Longrightarrow> E x (b, s')"
  shows "wp (SetTx (linux_hal os g i) tm) Q E (b, s)"
  by (rule linux.wp_SetTx [OF assms(1)])
     (auto simp: trace_Did advances_seen dest: advances_does intro: assms(2,3))

lemma linux_wp_SetRx:
  assumes "idle b"
    and "\<And>s'. does (set_rx_trace (spi_message i) (hook_calls i) (PacketType b) tm) s s' \<Longrightarrow>
           Q () (b\<lparr>OperatingMode := MODE_RX\<rparr>, s')"
    and "\<And>x s'. app s' = app s \<Longrightarrow> live s' = live s \<Longrightarrow> E x (b, s')"
  shows "wp (SetRx (linux_hal os g i) tm) Q E (b, s)"
  by (rule linux.wp_SetRx [OF assms(1)])
     (auto simp: trace_Did advances_seen dest: advances_does intro: assms(2,3))

lemma linux_wp_SendPayload:
  assumes "idle b"
    and "\<And>s'. does (spi_message i (write_buffer_frame off payload) #
           set_tx_trace (spi_message i) (hook_calls i) (PacketType b) tm) s s' \<Longrightarrow>
           Q () (b\<lparr>OperatingMode := MODE_TX\<rparr>, s')"
    and "\<And>x s'. app s' = app s \<Longrightarrow> live s' = live s \<Longrightarrow> E x (b, s')"
  shows "wp (SendPayload (linux_hal os g i) payload tm off) Q E (b, s)"
  by (rule linux.wp_SendPayload [OF assms(1)])
     (auto simp: trace_Did advances_seen [of _ "_ # _", simplified] dest: advances_does intro: assms(2,3))

lemma trace_ends:
  "cs @ set_tx_trace sp hk t tm =
     ((cs @ [sp (command_frame RADIO_CLR_IRQSTATUS [0xFF, 0xFF])] @
       role_trace sp t RADIO_RANGING_ROLE_MASTER @ hk PostRx) @ hk PreTx)
     @ [sp (command_frame RADIO_SET_TX (timeout_bytes tm))]"
  "cs @ set_rx_trace sp hk t tm =
     ((cs @ [sp (command_frame RADIO_CLR_IRQSTATUS [0xFF, 0xFF])] @
       role_trace sp t RADIO_RANGING_ROLE_SLAVE @ hk PostTx) @ hk PreRx)
     @ [sp (command_frame RADIO_SET_RX (timeout_bytes tm))]"
  by (simp_all add: set_tx_trace_def set_rx_trace_def)

text \<open>The level last written to the line that enables the power amplifier.\<close>

definition tx_enable_level :: "Impl \<Rightarrow> os_call list \<Rightarrow> line_value option" where
  "tx_enable_level i cs = fold (\<lambda>c l. case c of
       C_request_set_value r off v \<Rightarrow>
         if r = tx_enable_request i \<and> off = tx_enable_line (pins_of i) then Some v else l
     | _ \<Rightarrow> l) cs None"

lemma tx_enable_level_append [simp]:
  "tx_enable_level i (cs @ [spi_message i f]) = tx_enable_level i cs"
  "has_tx_enable (pins_of i) \<Longrightarrow> tx_enable_request i \<noteq> 0 \<Longrightarrow>
     tx_enable_level i (cs @ tx_enable_calls i b) = Some (assertedLineValue (tx_enable_active_high (pins_of i)) b)"
  by (simp_all add: tx_enable_level_def tx_enable_calls_def spi_message_def)

text \<open>An implementation object as the bench hands it out, for evaluation.\<close>

definition bench_impl :: Impl where
  "bench_impl = (Impl_init (LinuxSx1280RadioConfig_default\<lparr>cfg_pins := LinuxSx1280PinConfig_default\<lparr>
       has_tx_enable := True, tx_enable_line := 12, tx_enable_behavior := AssertDuringTxOnly\<rparr>\<rparr>))
     \<lparr>spi_fd := 1, gpio_chip := 2, reset_request := 6, busy_request := 10, tx_enable_request := 14\<rparr>"

text \<open>
  A call completes: on a kernel that answers, with a busy line that falls, it returns (no busy-wait runs
  forever, nothing is thrown), the mutexes are free again and the kernel still answers.
\<close>

definition completes :: "'w os \<Rightarrow> Impl \<Rightarrow> ('cb, ('w, 'x) sys, 'a) drv \<Rightarrow> 'cb SX128x \<times> ('w, 'x) sys \<Rightarrow> bool" where
  "completes os i m bs \<longleftrightarrow> (\<forall>okw budget. kernel_ok os i okw budget \<longrightarrow> okw (world (snd bs)) \<longrightarrow>
     twp m (\<lambda>_ (b', s'). idle b' \<and> okw (world s')) bs)"

lemma lock_free_api_linux:
  assumes "kernel_ok os i okw budget" and "\<And>c a. lock_free True (\<lambda>s. okw (world s)) (invoke c a)"
  shows "lock_free True (\<lambda>s. okw (world s)) (run_api (linux_hal os g i) invoke call)"
  using hal_live.hal_steady_live [OF linux_live [OF assms(1)]] assms(2)
  by (rule hal_steady.lock_free_run_api)

lemma completesI:
  fixes b :: "'cb SX128x" and s :: "('w, 'x) sys"
  assumes "idle b"
    and "\<And>okw. hal_steady (linux_hal os g i :: ('w, 'x) sys hal) True (\<lambda>s. okw (world s)) \<Longrightarrow>
      lock_free True (\<lambda>s. okw (world s)) m"
  shows "completes os i m (b, s)"
  unfolding completes_def
proof (intro allI impI)
  fix okw budget
  assume "kernel_ok os i okw budget" and w: "okw (world (snd (b, s)))"
  then have "lock_free True (\<lambda>s. okw (world s)) m"
    using assms(2) hal_live.hal_steady_live [OF linux_live] by blast
  then have "twp m (\<lambda>_. locks False (\<lambda>s. okw (world s))) (b, s)"
    using assms(1) w by (simp add: lock_free_def locks_idle keeps_def)
  then show "twp m (\<lambda>_ (b', s'). idle b' \<and> okw (world s')) (b, s)"
    by (rule twp_mono) (auto simp: locks_idle)
qed

lemma completes_run_api:
  fixes b :: "'cb SX128x" and s :: "('w, 'x) sys"
  assumes "idle b"
  shows "completes os i (run_api (linux_hal os g i) (\<lambda>_ _. retM ()) call) (b, s)"
proof (rule completesI [OF assms, of os g i])
  fix okw :: "'w \<Rightarrow> bool"
  assume "hal_steady (linux_hal os g i :: ('w, 'x) sys hal) True (\<lambda>s. okw (world s))"
  then show "lock_free True (\<lambda>s. okw (world s))
      (run_api (linux_hal os g i) (\<lambda>_ _. retM ()) call :: ('cb, ('w, 'x) sys, unit) drv)"
    by (rule hal_steady.lock_free_run_api) (simp add: lock_free_neutral lock_neutral_ret)
qed

lemma twp_discard: "twp (discard m) Q s = twp m (\<lambda>_. Q ()) s"
  by (simp add: twp_def discard_def bindM_def retM_def split: option.split outcome.split)

lemma completes_discard: "completes os i (discard m) bs \<Longrightarrow> completes os i m bs"
  by (simp add: completes_def twp_discard)

lemma completes_api:
  assumes "idle b"
  shows "completes os i (SetTx (linux_hal os g i) tm) (b, s)"
    "completes os i (SetRx (linux_hal os g i) tm) (b, s)"
    "completes os i (SendPayload (linux_hal os g i) payload tm off) (b, s)"
    "completes os i (SetTxParams (linux_hal os g i) dbm ramp) (b, s)"
    "completes os i (GetPayload (linux_hal os g i) n) (b, s)"
    "completes os i (SetSyncWord (linux_hal os g i) idx w) (b, s)"
  using completes_run_api [OF assms, of os i g "A_SetTx tm"] completes_run_api [OF assms, of os i g "A_SetRx tm"]
    completes_run_api [OF assms, of os i g "A_SendPayload payload tm off"]
    completes_run_api [OF assms, of os i g "A_SetTxParams dbm ramp"]
    completes_discard [OF completes_run_api [OF assms, of os i g "A_GetPayload n", simplified]]
    completes_discard [OF completes_run_api [OF assms, of os i g "A_SetSyncWord idx w", simplified]]
  by simp_all

lemma completes_bench:
  assumes "completes (bench_os reply) i m bs" "wp m Q E bs"
  shows "twp m Q bs"
proof -
  have "twp m (\<lambda>_ (b', s'). idle b' \<and> True) bs"
    using assms(1) bench_kernel_ok [of reply i] unfolding completes_def by blast
  from twp_wp [OF this assms(2)] show ?thesis
    by (rule twp_mono) simp
qed





text \<open>
  C25: With a power amplifier that is to be on during transmission only, the amplifier is enabled when the
  radio gets the command to transmit, which is the last thing sent, and it is disabled when the radio gets
  the command to receive.
\<close>

theorem amplifier_follows_direction:
  assumes "idle b" and "has_tx_enable (pins_of i)" and "tx_enable_request i \<noteq> 0"
    and "tx_enable_behavior (pins_of i) = AssertDuringTxOnly"
  shows "wp (SetTx (linux_hal os g i) timeout)
      (\<lambda>_ (b', s'). OperatingMode b' = MODE_TX \<and>
         last (outputs s') = spi_message i (command_frame RADIO_SET_TX (timeout_bytes timeout)) \<and>
         tx_enable_level i (outputs s') = Some (assertedLineValue (tx_enable_active_high (pins_of i)) True))
      (\<lambda>_ (b', s'). b' = b) (b, s) \<and>
    completes os i (SetTx (linux_hal os g i) timeout) (b, s) \<and>
    wp (SetRx (linux_hal os g i) timeout)
      (\<lambda>_ (b', s'). OperatingMode b' = MODE_RX \<and>
         last (outputs s') = spi_message i (command_frame RADIO_SET_RX (timeout_bytes timeout)) \<and>
         tx_enable_level i (outputs s') = Some (assertedLineValue (tx_enable_active_high (pins_of i)) False))
      (\<lambda>_ (b', s'). b' = b) (b, s) \<and>
    completes os i (SetRx (linux_hal os g i) timeout) (b, s)"
  using assms(2-4)
  by (intro conjI linux_wp_SetTx [OF assms(1)] linux_wp_SetRx [OF assms(1)] completes_api [OF assms(1)])
     (simp_all add: does_def trace_ends hook_calls_def del: append_assoc)

theorem amplifier_follows_direction_witness:
  "tx_enable_behavior (pins_of bench_impl) = AssertDuringTxOnly \<and>
   (\<exists>b' s'. SetTx (linux_hal (bench_os (\<lambda>_ _. 0)) (\<lambda>_. 0) bench_impl)
        \<lparr>PeriodBase = RADIO_TICK_SIZE_1000_US, PeriodBaseCount = 7\<rparr> (SX128x_new :: unit SX128x, bench_start ())
        = Some (Ret () (b', s')) \<and> tx_enable_level bench_impl (outputs s') = Some LINE_VALUE_ACTIVE)"
proof -
  have ok: "idle (SX128x_new :: unit SX128x)" "has_tx_enable (pins_of bench_impl)"
    "tx_enable_request bench_impl \<noteq> 0" "tx_enable_behavior (pins_of bench_impl) = AssertDuringTxOnly"
    "tx_enable_active_high (pins_of bench_impl)"
    by (simp_all add: idle_def SX128x_new_def bench_impl_def Impl_init_def LinuxSx1280PinConfig_default_def)
  note follows = amplifier_follows_direction [OF ok(1-4), where os = "bench_os (\<lambda>_ _. 0)" and g = "\<lambda>_. 0"
      and timeout = "\<lparr>PeriodBase = RADIO_TICK_SIZE_1000_US, PeriodBaseCount = 7\<rparr>" and s = "bench_start ()"]
  from completes_bench [OF follows [THEN conjunct2, THEN conjunct1] follows [THEN conjunct1]] ok(4,5)
  show ?thesis
    by (auto simp: twp_def assertedLineValue_def)
qed

text \<open>
  \<^verbatim>\<open>SendPayload\<close> writes the payload, unchanged and complete, into the radio's buffer and then switches
  the radio to transmission; if it throws, the operating mode is still the old one.
\<close>

theorem SendPayload_on_the_wire:
  assumes "idle b"
  shows "wp (SendPayload (linux_hal os g i) payload timeout off)
      (\<lambda>_ (b', s'). b' = b\<lparr>OperatingMode := MODE_TX\<rparr> \<and>
         does (spi_message i (write_buffer_frame off payload) #
               set_tx_trace (spi_message i) (hook_calls i) (PacketType b) timeout) s s')
      (\<lambda>_ (b', s'). b' = b \<and> app s' = app s) (b, s) \<and>
    completes os i (SendPayload (linux_hal os g i) payload timeout off) (b, s)"
  by (intro conjI linux_wp_SendPayload [OF assms] completes_api [OF assms]) simp_all

theorem SendPayload_on_the_wire_witness:
  "idle (SX128x_new :: unit SX128x) \<and>
   (\<exists>s'. SendPayload (linux_hal (bench_os (\<lambda>_ _. 0)) (\<lambda>_. 0) bench_impl) [1, 2, 3]
        \<lparr>PeriodBase = RADIO_TICK_SIZE_1000_US, PeriodBaseCount = 7\<rparr> 0 (SX128x_new :: unit SX128x, bench_start ())
        = Some (Ret () (SX128x_new\<lparr>OperatingMode := MODE_TX\<rparr>, s')) \<and>
      hd (outputs s') = C_spi_message 1 [0x1A, 0, 1, 2, 3] 1000000 8)"
proof -
  have idle: "idle (SX128x_new :: unit SX128x)"
    by (simp add: idle_def SX128x_new_def)
  note sent = SendPayload_on_the_wire [OF idle, where os = "bench_os (\<lambda>_ _. 0)" and g = "\<lambda>_. 0"
      and i = bench_impl and payload = "[1, 2, 3]" and off = 0 and s = "bench_start ()"
      and timeout = "\<lparr>PeriodBase = RADIO_TICK_SIZE_1000_US, PeriodBaseCount = 7\<rparr>"]
  from completes_bench [OF sent [THEN conjunct2] sent [THEN conjunct1]] idle show ?thesis
    by (auto simp: twp_def does_def outputs_def bench_start_def spi_message_def write_buffer_frame_def
          bench_impl_def Impl_init_def LinuxSx1280RadioConfig_default_def LinuxSpiConfig_default_def)
qed

text \<open>
  \<^verbatim>\<open>GetPayload\<close> never stores more than the caller's buffer holds: it returns 0 with exactly the reported
  number of bytes, at most \<open>maxSize\<close>, or 1 with nothing stored, and it leaves the driver as it was.
\<close>

theorem GetPayload_bounded:
  assumes "idle b"
  shows "wp (GetPayload (linux_hal os g i) maxSize)
      (\<lambda>(rc, n, data) (b', s'). b' = b \<and>
         (case data of None \<Rightarrow> rc = 1 \<and> n > maxSize | Some d \<Rightarrow> rc = 0 \<and> n \<le> maxSize \<and> length d = unat n))
      (\<lambda>_ (b', s'). b' = b) (b, s) \<and>
    completes os i (GetPayload (linux_hal os g i) maxSize) (b, s)"
proof (rule conjI [OF _ completes_api(5) [OF assms]])
  show "wp (GetPayload (linux_hal os g i) maxSize)
      (\<lambda>(rc, n, data) (b', s'). b' = b \<and>
         (case data of None \<Rightarrow> rc = 1 \<and> n > maxSize | Some d \<Rightarrow> rc = 0 \<and> n \<le> maxSize \<and> length d = unat n))
      (\<lambda>_ (b', s'). b' = b) (b, s)"
    using assms unfolding GetPayload_def GetRxBufferStatus_def GetPacketType_def
    by (auto simp: wp idle_def not_less intro!: linux.wp_ReadCommand linux.wp_ReadRegister linux.wp_ReadBuffer)
qed

theorem GetPayload_bounded_witness:
  "idle (SX128x_new :: unit SX128x) \<and>
   (\<exists>rc n data s'. GetPayload (linux_hal (bench_os (\<lambda>_ _. 9)) (\<lambda>_. 0) bench_impl) 8
        (SX128x_new :: unit SX128x, bench_start ()) = Some (Ret (rc, n, data) (SX128x_new, s')) \<and>
      (data = None \<longleftrightarrow> rc = 1) \<and> (rc = 0 \<longrightarrow> n \<le> 8 \<and> length (the data) = unat n))"
proof -
  have idle: "idle (SX128x_new :: unit SX128x)"
    by (simp add: idle_def SX128x_new_def)
  note got = GetPayload_bounded [OF idle, where os = "bench_os (\<lambda>_ _. 9)" and g = "\<lambda>_. 0"
      and i = bench_impl and maxSize = 8 and s = "bench_start ()"]
  from completes_bench [OF got [THEN conjunct2] got [THEN conjunct1]] idle show ?thesis
    by (fastforce simp: twp_def split: option.splits)
qed

text \<open>
  \<^verbatim>\<open>SetSyncWord\<close> either stores a sync word of the length the packet type prescribes at the register of
  the given slot and returns 0, or, for a slot or a packet type without sync words, returns 1 without
  having sent anything.
\<close>

theorem SetSyncWord_slots:
  assumes "idle b"
  shows "wp (SetSyncWord (linux_hal os g i) idx w)
      (\<lambda>rc (b', s'). b' = b \<and> (case sync_word_slot (PacketType b) idx of
           None \<Rightarrow> rc = 1 \<and> s' = s
         | Some (addr, n) \<Rightarrow> rc = 0 \<and> (n = 4 \<or> n = 5) \<and>
             does [spi_message i (write_register_frame addr (buffer_slice w 0 n))] s s'))
      (\<lambda>_ (b', s'). b' = b) (b, s) \<and>
    completes os i (SetSyncWord (linux_hal os g i) idx w) (b, s)"
proof (rule conjI [OF _ completes_api(6) [OF assms]])
  have len: "n = 4 \<or> n = 5" if "sync_word_slot t idx = Some (addr, n)" for t addr n
    using that by (auto simp: sync_word_slot_def split: RadioPacketTypes_t.splits if_splits)
  show "wp (SetSyncWord (linux_hal os g i) idx w)
      (\<lambda>rc (b', s'). b' = b \<and> (case sync_word_slot (PacketType b) idx of
           None \<Rightarrow> rc = 1 \<and> s' = s
         | Some (addr, n) \<Rightarrow> rc = 0 \<and> (n = 4 \<or> n = 5) \<and>
             does [spi_message i (write_register_frame addr (buffer_slice w 0 n))] s s'))
      (\<lambda>_ (b', s'). b' = b) (b, s)"
    using assms unfolding SetSyncWord_def GetPacketType_def
    by (auto simp: wp idle_def advances_seen_simps len split: option.split intro!: linux.wp_WriteRegisters)
qed

theorem SetSyncWord_slots_witness:
  "idle (SX128x_new\<lparr>PacketType := PACKET_TYPE_FLRC\<rparr> :: unit SX128x) \<and>
   sync_word_slot PACKET_TYPE_FLRC 4 = None \<and>
   (\<exists>b'. SetSyncWord (linux_hal (bench_os (\<lambda>_ _. 0)) (\<lambda>_. 0) bench_impl) 4 (\<lambda>_. 0)
      (SX128x_new\<lparr>PacketType := PACKET_TYPE_FLRC\<rparr> :: unit SX128x, bench_start ())
      = Some (Ret 1 (b', bench_start ())))"
proof -
  have idle: "idle (SX128x_new\<lparr>PacketType := PACKET_TYPE_FLRC\<rparr> :: unit SX128x)"
    by (simp add: idle_def SX128x_new_def)
  have slot: "sync_word_slot PACKET_TYPE_FLRC 4 = None"
    by (simp add: sync_word_slot_def)
  note set = SetSyncWord_slots [OF idle, where os = "bench_os (\<lambda>_ _. 0)" and g = "\<lambda>_. 0"
      and i = bench_impl and idx = 4 and w = "\<lambda>_. 0" and s = "bench_start ()"]
  from completes_bench [OF set [THEN conjunct2] set [THEN conjunct1]] idle slot show ?thesis
    by (auto simp: twp_def)
qed

text \<open>
  An output power between -18 and 13 dBm reaches the radio as a number between 0 and 31, eighteen
  above the power; outside that range the 8-bit addition of the source wraps.
\<close>

theorem SetTxParams_range:
  assumes "idle b" and "- 18 \<le> sint dbm" and "sint dbm \<le> 13"
  shows "wp (SetTxParams (linux_hal os g i) dbm ramp)
      (\<lambda>_ (b', s'). b' = b \<and> (\<exists>p. uint p = sint dbm + 18 \<and> uint p \<le> 31 \<and>
         does [spi_message i (command_frame RADIO_SET_TXPARAMS [p, RadioRampTimes_value ramp])] s s'))
      (\<lambda>_ (b', s'). b' = b) (b, s) \<and>
    completes os i (SetTxParams (linux_hal os g i) dbm ramp) (b, s)"
proof (rule conjI [OF _ completes_api(4) [OF assms(1)]])
  have "uint (dbm + 18) = uint (word_of_int (sint dbm + 18) :: u8)"
    by simp
  also have "\<dots> = sint dbm + 18"
    using assms(2,3) by (simp add: uint_word_of_int del: of_int_add)
  finally have "uint (dbm + 18) = sint dbm + 18" .
  then show "wp (SetTxParams (linux_hal os g i) dbm ramp)
      (\<lambda>_ (b', s'). b' = b \<and> (\<exists>p. uint p = sint dbm + 18 \<and> uint p \<le> 31 \<and>
         does [spi_message i (command_frame RADIO_SET_TXPARAMS [p, RadioRampTimes_value ramp])] s s'))
      (\<lambda>_ (b', s'). b' = b) (b, s)"
    using assms unfolding SetTxParams_def
    by (auto simp: idle_def advances_seen_simps intro!: linux.wp_WriteCommand exI [of _ "dbm + 18"])
qed

theorem SetTxParams_range_witness:
  "- 18 \<le> sint (10 :: u8) \<and>
   (\<exists>s'. SetTxParams (linux_hal (bench_os (\<lambda>_ _. 0)) (\<lambda>_. 0) bench_impl) 10 RADIO_RAMP_20_US
        (SX128x_new :: unit SX128x, bench_start ()) = Some (Ret () (SX128x_new, s')) \<and>
      outputs s' = [C_spi_message 1 [0x8E, 28, 0xE0] 1000000 8])"
proof -
  have idle: "idle (SX128x_new :: unit SX128x)"
    by (simp add: idle_def SX128x_new_def)
  have p: "p = 28" if "uint (p :: u8) = 28" for p
    using word_of_int_uint [of p] unfolding that by simp
  have range: "- 18 \<le> sint (10 :: u8)" "sint (10 :: u8) \<le> 13"
    by simp_all
  note set = SetTxParams_range [OF idle range, where os = "bench_os (\<lambda>_ _. 0)" and g = "\<lambda>_. 0"
      and i = bench_impl and ramp = RADIO_RAMP_20_US and s = "bench_start ()"]
  from completes_bench [OF set [THEN conjunct2] set [THEN conjunct1]] show ?thesis
    by (auto simp: twp_def does_def outputs_def bench_start_def spi_message_def command_frame_def
        bench_impl_def Impl_init_def LinuxSx1280RadioConfig_default_def LinuxSpiConfig_default_def dest!: p)
qed

section \<open>Radio objects\<close>

lemma halts_syscall [halts]:
  "halts (syscall os c)" "halts (oscall os c)" "halts (osdo os c)" "halts (throwSystemError msg)" "halts (throwRuntimeError msg)"
  by (auto simp: oscall_def osdo_def throwSystemError_def throwRuntimeError_def syscall_def halts_def bindM_def
      retM_def throwM_def split: prod.split option.split outcome.split)

lemma halts_member [halts]: "halts (member f)" "halts (set_member g)"
  by (simp_all add: member_def set_member_def halts)

lemma halts_request [halts]:
  "halts (requestInputLine os chip offset consumer)" "halts (requestOutputLine os chip offset level consumer)"
  unfolding requestInputLine_def requestOutputLine_def by (intro halts)+

lemma halts_store [halts]:
  "halts (store_input os line consumer upd)" "halts (store_output os line level consumer upd)"
  unfolding store_input_def store_output_def by (auto intro!: halts split: prod.split)

lemma halts_setTxEnable [halts]: "halts (setTxEnable os i b)"
  unfolding setTxEnable_def setRequestedLineValue_def by (intro halts)

lemma halts_Impl_new [halts]: "halts (Impl_new os cfg)"
  unfolding Impl_new_def validateConfig_def openSpi_def spi_setup_def openGpioChip_def requestGpioLines_def
    applyInitialTxEnableState_def
  by (intro halts) (auto split: TxEnableBehavior.split intro!: halts)

lemma halts_Impl_destroy [halts]: "halts (Impl_destroy os i)"
  unfolding Impl_destroy_def release_request_def by (intro halts)

text \<open>
  Constructing a radio object and destroying it gives back every file descriptor, chip handle and line
  request; in between the object has all the handles its configuration asks for. This holds whatever the
  kernel answers, and the two always end.
\<close>

theorem radio_object_balanced:
  "wp (bindM (Impl_new os cfg) (\<lambda>i. bindM (Impl_destroy os i) (\<lambda>_. retM i)))
     (\<lambda>i s'. Impl_ok cfg i \<and> live s' = live s \<and> app s' = app s) (\<lambda>_ s'. app s' = app s) s \<and>
   halts (bindM (Impl_new os cfg) (\<lambda>i. bindM (Impl_destroy os i) (\<lambda>_. retM i)))"
  by (auto simp: wp intro!: wp_intro halts)

text \<open>
  Requesting a GPIO line frees the settings, the line configuration and the request configuration on
  every path, also when a step fails; the request is the only object left, and only on success. Both always end.
\<close>

theorem line_request_frees_helpers:
  "wp (requestInputLine os chip offset consumer)
     (\<lambda>req s'. req \<noteq> 0 \<and> live s' = add_mset (R_request, req) (live s)) (\<lambda>_ s'. live s' = live s) s \<and>
   wp (requestOutputLine os chip offset level consumer)
     (\<lambda>req s'. req \<noteq> 0 \<and> live s' = add_mset (R_request, req) (live s)) (\<lambda>_ s'. live s' = live s) s \<and>
   halts (requestInputLine os chip offset consumer) \<and> halts (requestOutputLine os chip offset level consumer)"
  by (auto intro!: wp_intro halts)

text \<open>A bench whose GPIO chip cannot be opened.\<close>

definition chipless_os :: "bench os" where
  "chipless_os c w = (case c of C_chip_open _ \<Rightarrow> (0, \<lambda>_. 0, w) | _ \<Rightarrow> bench_os (\<lambda>_ _. 0) c w)"

text \<open>
  When the constructor throws, its destructor does not run: if the GPIO chip cannot be opened, the SPI
  device that was opened before stays open.
\<close>

theorem failed_constructor_leaks:
  "\<exists>s'. Impl_new chipless_os LinuxSx1280RadioConfig_default (bench_start ()) =
      Some (Throw (system_error ''failed to open GPIO chip: /dev/gpiochip0'') s') \<and>
    live s' = {#(R_fd, 1)#}"
  by (simp add: Impl_new_def with_local_def bindM_def retM_def throwM_def lift_sndM_def getsM_def modifyM_def
      validateConfig_def openSpi_def openGpioChip_def spi_setup_def member_def set_member_def oscall_def
      syscall_def os_answer_def chipless_os_def bench_os_def bench_start_def Impl_init_def
      throwSystemError_def LinuxSx1280RadioConfig_default_def LinuxSpiConfig_default_def
      LinuxGpioChipConfig_default_def LinuxSx1280PinConfig_default_def live_def live_simps)

end
