(* ===== verification/Node_Config.thy ===== *)
theory Node_Config
  imports Linux_Hal "HOL-Library.Char_ord"
begin

text \<open>
  The configuration of a node (\<^verbatim>\<open>Sx1280Radio/Config\<close>): the configuration structs with their defaults and
  the loader \<^verbatim>\<open>loadNodeConfigFromYaml\<close>, a line-oriented reader of the YAML subset the repository uses. The
  loader is a state machine over the lines of the file; its state is the current section, the current
  subsection and the configuration so far.

  Opening and reading the file is a parameter, a function from paths to contents. \<^verbatim>\<open>std::stoul\<close> and
  \<^verbatim>\<open>std::stol\<close> are modelled for 64-bit \<^verbatim>\<open>long\<close>, in base 10, with the sign, the leading white space and
  the trailing text they accept. An \<^verbatim>\<open>int8_t\<close> is the 8-bit word with its bit pattern.
\<close>

section \<open>Configuration records\<close>

record Sx1280RfConfig =
  rf_frequency_hz :: u32
  rf_tx_power_dbm :: u8
  rf_ramp_time :: RadioRampTimes_t
  rf_regulator_mode :: RadioRegulatorModes_t

record Sx1280LoRaConfig =
  lora_spreading_factor :: RadioLoRaSpreadingFactors_t
  lora_bandwidth :: RadioLoRaBandwidths_t
  lora_coding_rate :: RadioLoRaCodingRates_t
  lora_preamble_length :: u8
  lora_header_type :: RadioLoRaPacketLengthsModes_t
  lora_payload_length :: u8
  lora_crc :: RadioLoRaCrcModes_t
  lora_iq_mode :: RadioLoRaIQModes_t

definition to_modulation_params :: "Sx1280LoRaConfig \<Rightarrow> ModulationParams_t" where
  "to_modulation_params c = ModulationParams_zero\<lparr>mod_PacketType := PACKET_TYPE_LORA,
     mod_LoRa := (mod_LoRa ModulationParams_zero)\<lparr>mod_LoRa_SpreadingFactor := lora_spreading_factor c,
       mod_LoRa_Bandwidth := lora_bandwidth c, mod_LoRa_CodingRate := lora_coding_rate c\<rparr>\<rparr>"

definition to_packet_params :: "Sx1280LoRaConfig \<Rightarrow> PacketParams_t" where
  "to_packet_params c = PacketParams_zero\<lparr>pkt_PacketType := PACKET_TYPE_LORA,
     pkt_LoRa := (pkt_LoRa PacketParams_zero)\<lparr>pkt_LoRa_PreambleLength := lora_preamble_length c,
       pkt_LoRa_HeaderType := lora_header_type c, pkt_LoRa_PayloadLength := lora_payload_length c,
       pkt_LoRa_Crc := lora_crc c, pkt_LoRa_InvertIQ := lora_iq_mode c\<rparr>\<rparr>"

record Sx1280TimeoutConfig =
  tx_timeout :: TickTime_t
  rx_timeout :: TickTime_t
  continuous_rx :: bool

record Sx1280RuntimeConfig =
  rt_auto_fs :: bool
  rt_long_preamble :: bool
  rt_use_manual_gain :: bool
  rt_manual_gain_value :: u8
  rt_lna_setting :: RadioLnaSettings_t

record Sx1280Config =
  cfg_rf :: Sx1280RfConfig
  cfg_lora :: Sx1280LoRaConfig
  cfg_timeouts :: Sx1280TimeoutConfig
  cfg_runtime :: Sx1280RuntimeConfig

definition Sx1280RfConfig_default :: Sx1280RfConfig where
  "Sx1280RfConfig_default = \<lparr>rf_frequency_hz = 2400000000, rf_tx_power_dbm = 10,
     rf_ramp_time = RADIO_RAMP_20_US, rf_regulator_mode = USE_DCDC\<rparr>"

definition Sx1280LoRaConfig_default :: Sx1280LoRaConfig where
  "Sx1280LoRaConfig_default = \<lparr>lora_spreading_factor = LORA_SF7, lora_bandwidth = LORA_BW_0800,
     lora_coding_rate = LORA_CR_4_5, lora_preamble_length = 12,
     lora_header_type = LORA_PACKET_VARIABLE_LENGTH, lora_payload_length = 255,
     lora_crc = LORA_CRC_ON, lora_iq_mode = LORA_IQ_NORMAL\<rparr>"

definition ms_timeout :: "u16 \<Rightarrow> TickTime_t" where
  "ms_timeout n = \<lparr>PeriodBase = RADIO_TICK_SIZE_1000_US, PeriodBaseCount = n\<rparr>"

definition Sx1280TimeoutConfig_default :: Sx1280TimeoutConfig where
  "Sx1280TimeoutConfig_default = \<lparr>tx_timeout = ms_timeout 2000, rx_timeout = ms_timeout 2000,
     continuous_rx = True\<rparr>"

definition Sx1280RuntimeConfig_default :: Sx1280RuntimeConfig where
  "Sx1280RuntimeConfig_default = \<lparr>rt_auto_fs = True, rt_long_preamble = False,
     rt_use_manual_gain = False, rt_manual_gain_value = 0, rt_lna_setting = LNA_HIGH_SENSITIVITY_MODE\<rparr>"

definition Sx1280Config_default :: Sx1280Config where
  "Sx1280Config_default = \<lparr>cfg_rf = Sx1280RfConfig_default, cfg_lora = Sx1280LoRaConfig_default,
     cfg_timeouts = Sx1280TimeoutConfig_default, cfg_runtime = Sx1280RuntimeConfig_default\<rparr>"

datatype NodeConfigError = ErrNone | IoError | ParseError | InvalidSchema

datatype NodeRadioRole = RoleRx | RoleTx | RoleTxRx

record RadioHwConfig =
  hw :: LinuxSx1280RadioConfig
  hw_role :: NodeRadioRole

record NodeConfig =
  node_rx :: RadioHwConfig
  node_tx :: RadioHwConfig
  node_radio :: Sx1280Config

definition RadioHwConfig_default :: RadioHwConfig where
  "RadioHwConfig_default = \<lparr>hw = LinuxSx1280RadioConfig_default, hw_role = RoleTxRx\<rparr>"

definition NodeConfig_default :: NodeConfig where
  "NodeConfig_default = \<lparr>node_rx = RadioHwConfig_default, node_tx = RadioHwConfig_default,
     node_radio = Sx1280Config_default\<rparr>"

section \<open>Strings\<close>

definition newline :: char where "newline = CHR 0x0A"
definition quote :: char where "quote = CHR 0x22"
definition colon :: char where "colon = CHR 0x3A"
definition hash :: char where "hash = CHR 0x23"

text \<open>\<^verbatim>\<open>std::isspace\<close> in the C locale.\<close>

definition isspace :: "char \<Rightarrow> bool" where
  "isspace c \<longleftrightarrow> c = CHR '' '' \<or> c = CHR 0x09 \<or> c = newline \<or> c = CHR 0x0B \<or> c = CHR 0x0C \<or> c = CHR 0x0D"

definition trim_end :: "string \<Rightarrow> string" where
  "trim_end s = rev (dropWhile isspace (rev s))"

definition trim :: "string \<Rightarrow> string" where
  "trim s = trim_end (dropWhile isspace s)"

definition strip_quotes :: "string \<Rightarrow> string" where
  "strip_quotes v =
     (if 2 \<le> length v \<and> hd v = quote \<and> last v = quote then butlast (tl v) else v)"

text \<open>The strings \<^verbatim>\<open>std::getline\<close> delivers: a last line without a newline counts, an empty rest does not.\<close>

function getlines :: "string \<Rightarrow> string list" where
  "getlines s = (if s = [] then [] else
     takeWhile (\<lambda>c. c \<noteq> newline) s # getlines (drop 1 (dropWhile (\<lambda>c. c \<noteq> newline) s)))"
  by pat_completeness auto
termination
proof (relation "measure length")
  fix s :: string
  assume "s \<noteq> []"
  then show "(drop 1 (dropWhile (\<lambda>c. c \<noteq> newline) s), s) \<in> measure length"
    using length_dropWhile_le [of "\<lambda>c. c \<noteq> newline" s] by (cases s) (auto simp: le_diff_conv)
qed simp

declare getlines.simps [simp del]

section \<open>Numbers\<close>

definition isdigit :: "char \<Rightarrow> bool" where
  "isdigit c \<longleftrightarrow> 48 \<le> (of_char c :: nat) \<and> (of_char c :: nat) \<le> 57"

definition digits_value :: "string \<Rightarrow> nat" where
  "digits_value = foldl (\<lambda>a c. 10 * a + (of_char c - 48)) 0"

text \<open>The subject sequence of \<^verbatim>\<open>strtoul\<close> and \<^verbatim>\<open>strtol\<close>: the sign and the value of the digits, \<open>None\<close> when
  there is no digit (\<^verbatim>\<open>std::invalid_argument\<close>).\<close>

definition scan_number :: "string \<Rightarrow> (bool \<times> nat) option" where
  "scan_number v =
     (let s = dropWhile isspace v;
          neg = (s \<noteq> [] \<and> hd s = CHR ''-'');
          s' = (if s \<noteq> [] \<and> (hd s = CHR ''-'' \<or> hd s = CHR ''+'') then tl s else s);
          ds = takeWhile isdigit s'
      in if ds = [] then None else Some (neg, digits_value ds))"

text \<open>\<open>None\<close> for either exception. A minus sign negates in the unsigned type.\<close>

definition stoul :: "string \<Rightarrow> u64 option" where
  "stoul v = (case scan_number v of
       None \<Rightarrow> None
     | Some (neg, n) \<Rightarrow>
         if n \<ge> 2 ^ 64 then None else Some (if neg then - of_nat n else of_nat n))"

definition stol :: "string \<Rightarrow> int option" where
  "stol v = (case scan_number v of
       None \<Rightarrow> None
     | Some (neg, n) \<Rightarrow>
         let i = (if neg then - int n else int n)
         in if i < - (2 ^ 63) \<or> i \<ge> 2 ^ 63 then None else Some i)"

definition parse_bool :: "string \<Rightarrow> bool option" where
  "parse_bool v = (if v = ''true'' then Some True else if v = ''false'' then Some False else None)"

definition parse_uint32 :: "string \<Rightarrow> u32 option" where
  "parse_uint32 v = map_option ucast (stoul v)"

definition parse_uint8 :: "string \<Rightarrow> u8 option" where
  "parse_uint8 v = (case stoul v of
       None \<Rightarrow> None
     | Some tmp \<Rightarrow> if tmp > 0xFF then None else Some (ucast tmp))"

definition parse_int8 :: "string \<Rightarrow> u8 option" where
  "parse_int8 v = (case stol v of
       None \<Rightarrow> None
     | Some tmp \<Rightarrow> if tmp < -128 \<or> tmp > 127 then None else Some (word_of_int tmp))"

section \<open>Enumerations\<close>

definition parse_node_role :: "string \<Rightarrow> NodeRadioRole" where
  "parse_node_role v = (if v = ''rx'' then RoleRx else if v = ''tx'' then RoleTx else RoleTxRx)"

definition parse_tx_behavior :: "string \<Rightarrow> TxEnableBehavior" where
  "parse_tx_behavior v =
     (if v = ''none'' then NoTxEnable else if v = ''static_asserted'' then StaticAsserted
      else if v = ''static_deasserted'' then StaticDeasserted
      else if v = ''assert_during_tx'' then AssertDuringTxOnly else NoTxEnable)"

definition parse_spreading_factor :: "string \<Rightarrow> RadioLoRaSpreadingFactors_t" where
  "parse_spreading_factor v = (if v = ''sf7'' then LORA_SF7 else LORA_SF7)"

definition parse_bandwidth :: "string \<Rightarrow> RadioLoRaBandwidths_t" where
  "parse_bandwidth v = (if v = ''bw_0800'' then LORA_BW_0800 else LORA_BW_0800)"

definition parse_coding_rate :: "string \<Rightarrow> RadioLoRaCodingRates_t" where
  "parse_coding_rate v = (if v = ''cr_4_5'' then LORA_CR_4_5 else LORA_CR_4_5)"

definition parse_header_type :: "string \<Rightarrow> RadioLoRaPacketLengthsModes_t" where
  "parse_header_type v =
     (if v = ''variable_length'' then LORA_PACKET_VARIABLE_LENGTH else LORA_PACKET_VARIABLE_LENGTH)"

definition parse_crc_mode :: "string \<Rightarrow> RadioLoRaCrcModes_t" where
  "parse_crc_mode v =
     (if v = ''on'' then LORA_CRC_ON else if v = ''off'' then LORA_CRC_OFF else LORA_CRC_ON)"

definition parse_iq_mode :: "string \<Rightarrow> RadioLoRaIQModes_t" where
  "parse_iq_mode v = (if v = ''normal'' then LORA_IQ_NORMAL else LORA_IQ_NORMAL)"

definition parse_ramp_time :: "string \<Rightarrow> RadioRampTimes_t" where
  "parse_ramp_time v = (if v = ''20us'' then RADIO_RAMP_20_US else RADIO_RAMP_20_US)"

definition parse_regulator_mode :: "string \<Rightarrow> RadioRegulatorModes_t" where
  "parse_regulator_mode v = (if v = ''dcdc'' then USE_DCDC else USE_DCDC)"

definition parse_lna_setting :: "string \<Rightarrow> RadioLnaSettings_t" where
  "parse_lna_setting v =
     (if v = ''high_sensitivity'' then LNA_HIGH_SENSITIVITY_MODE else LNA_HIGH_SENSITIVITY_MODE)"

section \<open>The loader\<close>

datatype Section = SecNone | RadiosRx | RadiosTx | Lora | Timeouts | Runtime

datatype SubSection = SubNone | Spi | Gpio | Pins

record loader =
  cur_section :: Section
  cur_sub :: SubSection
  loaded :: NodeConfig

text \<open>\<^verbatim>\<open>parse_...(value, x)\<close>: the target is written when the value parses, and kept when it does not.\<close>

definition assign :: "'a option \<Rightarrow> ('a \<Rightarrow> 'c \<Rightarrow> 'c) \<Rightarrow> 'c \<Rightarrow> 'c" where
  "assign v upd c = (case v of None \<Rightarrow> c | Some x \<Rightarrow> upd x c)"

definition set_spi :: "string \<Rightarrow> string \<Rightarrow> LinuxSpiConfig \<Rightarrow> LinuxSpiConfig" where
  "set_spi key value c =
     (if key = ''device'' then c\<lparr>device_path := value\<rparr>
      else if key = ''speed_hz'' then assign (parse_uint32 value) (\<lambda>x c. c\<lparr>speed_hz := x\<rparr>) c
      else if key = ''mode'' then assign (parse_uint8 value) (\<lambda>x c. c\<lparr>spi_mode := x\<rparr>) c
      else if key = ''bits_per_word'' then assign (parse_uint8 value) (\<lambda>x c. c\<lparr>bits_per_word := x\<rparr>) c
      else c)"

definition set_gpio :: "string \<Rightarrow> string \<Rightarrow> LinuxGpioChipConfig \<Rightarrow> LinuxGpioChipConfig" where
  "set_gpio key value c = (if key = ''chip'' then c\<lparr>chip_path := value\<rparr> else c)"

definition set_pins :: "string \<Rightarrow> string \<Rightarrow> LinuxSx1280PinConfig \<Rightarrow> LinuxSx1280PinConfig" where
  "set_pins key value c =
     (if key = ''reset'' then assign (parse_uint32 value) (\<lambda>x c. c\<lparr>reset_line := x\<rparr>) c
      else if key = ''busy'' then assign (parse_uint32 value) (\<lambda>x c. c\<lparr>busy_line := x\<rparr>) c
      else if key = ''has_dio1'' then assign (parse_bool value) (\<lambda>x c. c\<lparr>has_dio1 := x\<rparr>) c
      else if key = ''dio1'' then assign (parse_uint32 value) (\<lambda>x c. c\<lparr>dio1_line := x\<rparr>) c
      else if key = ''has_dio2'' then assign (parse_bool value) (\<lambda>x c. c\<lparr>has_dio2 := x\<rparr>) c
      else if key = ''dio2'' then assign (parse_uint32 value) (\<lambda>x c. c\<lparr>dio2_line := x\<rparr>) c
      else if key = ''has_dio3'' then assign (parse_bool value) (\<lambda>x c. c\<lparr>has_dio3 := x\<rparr>) c
      else if key = ''dio3'' then assign (parse_uint32 value) (\<lambda>x c. c\<lparr>dio3_line := x\<rparr>) c
      else if key = ''has_tx_enable'' then assign (parse_bool value) (\<lambda>x c. c\<lparr>has_tx_enable := x\<rparr>) c
      else if key = ''tx_enable'' then assign (parse_uint32 value) (\<lambda>x c. c\<lparr>tx_enable_line := x\<rparr>) c
      else if key = ''tx_enable_active_high''
        then assign (parse_bool value) (\<lambda>x c. c\<lparr>tx_enable_active_high := x\<rparr>) c
      else if key = ''tx_enable_behavior'' then c\<lparr>tx_enable_behavior := parse_tx_behavior value\<rparr>
      else c)"

definition set_radio_hw :: "SubSection \<Rightarrow> string \<Rightarrow> string \<Rightarrow> RadioHwConfig \<Rightarrow> RadioHwConfig" where
  "set_radio_hw ss key value rhw = (case ss of
       SubNone \<Rightarrow> if key = ''role'' then rhw\<lparr>hw_role := parse_node_role value\<rparr> else rhw
     | Spi \<Rightarrow> rhw\<lparr>hw := (hw rhw)\<lparr>cfg_spi := set_spi key value (cfg_spi (hw rhw))\<rparr>\<rparr>
     | Gpio \<Rightarrow> rhw\<lparr>hw := (hw rhw)\<lparr>cfg_gpio := set_gpio key value (cfg_gpio (hw rhw))\<rparr>\<rparr>
     | Pins \<Rightarrow> rhw\<lparr>hw := (hw rhw)\<lparr>cfg_pins := set_pins key value (cfg_pins (hw rhw))\<rparr>\<rparr>)"

definition set_rf :: "string \<Rightarrow> string \<Rightarrow> Sx1280RfConfig \<Rightarrow> Sx1280RfConfig" where
  "set_rf key value c =
     (if key = ''frequency_hz'' then assign (parse_uint32 value) (\<lambda>x c. c\<lparr>rf_frequency_hz := x\<rparr>) c
      else if key = ''tx_power_dbm'' then assign (parse_int8 value) (\<lambda>x c. c\<lparr>rf_tx_power_dbm := x\<rparr>) c
      else if key = ''ramp_time'' then c\<lparr>rf_ramp_time := parse_ramp_time value\<rparr>
      else if key = ''regulator_mode'' then c\<lparr>rf_regulator_mode := parse_regulator_mode value\<rparr>
      else c)"

definition set_lora :: "string \<Rightarrow> string \<Rightarrow> Sx1280LoRaConfig \<Rightarrow> Sx1280LoRaConfig" where
  "set_lora key value c =
     (if key = ''spreading_factor'' then c\<lparr>lora_spreading_factor := parse_spreading_factor value\<rparr>
      else if key = ''bandwidth'' then c\<lparr>lora_bandwidth := parse_bandwidth value\<rparr>
      else if key = ''coding_rate'' then c\<lparr>lora_coding_rate := parse_coding_rate value\<rparr>
      else if key = ''preamble_length''
        then assign (parse_uint8 value) (\<lambda>x c. c\<lparr>lora_preamble_length := x\<rparr>) c
      else if key = ''header_type'' then c\<lparr>lora_header_type := parse_header_type value\<rparr>
      else if key = ''payload_length''
        then assign (parse_uint8 value) (\<lambda>x c. c\<lparr>lora_payload_length := x\<rparr>) c
      else if key = ''crc'' then c\<lparr>lora_crc := parse_crc_mode value\<rparr>
      else if key = ''iq_mode'' then c\<lparr>lora_iq_mode := parse_iq_mode value\<rparr>
      else c)"

definition clamp16 :: "u32 \<Rightarrow> u16" where
  "clamp16 v32 = (if v32 \<ge> 0xFFFF then 0xFFFF else ucast v32)"

definition set_timeouts :: "string \<Rightarrow> string \<Rightarrow> Sx1280TimeoutConfig \<Rightarrow> Sx1280TimeoutConfig" where
  "set_timeouts key value c =
     (if key = ''tx_ms''
        then assign (parse_uint32 value) (\<lambda>v32 c. c\<lparr>tx_timeout := ms_timeout (clamp16 v32)\<rparr>) c
      else if key = ''rx_ms''
        then assign (parse_uint32 value) (\<lambda>v32 c. c\<lparr>rx_timeout := ms_timeout (clamp16 v32)\<rparr>) c
      else if key = ''continuous_rx'' then assign (parse_bool value) (\<lambda>x c. c\<lparr>continuous_rx := x\<rparr>) c
      else c)"

definition set_runtime :: "string \<Rightarrow> string \<Rightarrow> Sx1280RuntimeConfig \<Rightarrow> Sx1280RuntimeConfig" where
  "set_runtime key value c =
     (if key = ''auto_fs'' then assign (parse_bool value) (\<lambda>x c. c\<lparr>rt_auto_fs := x\<rparr>) c
      else if key = ''long_preamble'' then assign (parse_bool value) (\<lambda>x c. c\<lparr>rt_long_preamble := x\<rparr>) c
      else if key = ''use_manual_gain''
        then assign (parse_bool value) (\<lambda>x c. c\<lparr>rt_use_manual_gain := x\<rparr>) c
      else if key = ''manual_gain_value''
        then assign (parse_uint8 value) (\<lambda>x c. c\<lparr>rt_manual_gain_value := x\<rparr>) c
      else if key = ''lna_setting'' then c\<lparr>rt_lna_setting := parse_lna_setting value\<rparr>
      else c)"

text \<open>The switch on the section.\<close>

definition set_key :: "Section \<Rightarrow> SubSection \<Rightarrow> string \<Rightarrow> string \<Rightarrow> NodeConfig \<Rightarrow> NodeConfig" where
  "set_key sec ss key value c = (case sec of
       RadiosRx \<Rightarrow> c\<lparr>node_rx := set_radio_hw ss key value (node_rx c)\<rparr>
     | RadiosTx \<Rightarrow> c\<lparr>node_tx := set_radio_hw ss key value (node_tx c)\<rparr>
     | Lora \<Rightarrow> c\<lparr>node_radio := (node_radio c)\<lparr>cfg_rf := set_rf key value (cfg_rf (node_radio c)),
                  cfg_lora := set_lora key value (cfg_lora (node_radio c))\<rparr>\<rparr>
     | Timeouts \<Rightarrow> c\<lparr>node_radio := (node_radio c)\<lparr>cfg_timeouts :=
                  set_timeouts key value (cfg_timeouts (node_radio c))\<rparr>\<rparr>
     | Runtime \<Rightarrow> c\<lparr>node_radio := (node_radio c)\<lparr>cfg_runtime :=
                  set_runtime key value (cfg_runtime (node_radio c))\<rparr>\<rparr>
     | SecNone \<Rightarrow> c)"

text \<open>The value of a key after the removal of a comment and of quotes.\<close>

definition clean_value :: "string \<Rightarrow> string" where
  "clean_value v =
     (let v1 = trim v;
          v2 = (if hash \<in> set v1 then trim (takeWhile (\<lambda>c. c \<noteq> hash) v1) else v1)
      in if v2 \<noteq> [] \<and> hd v2 = quote then strip_quotes v2 else v2)"

text \<open>What a line says, and what it does to the state of the loader.\<close>

datatype line_action = Skip | Radios | Enter Section | EnterSub SubSection | Key string string

definition read_line :: "string \<Rightarrow> line_action" where
  "read_line line =
     (let t = trim line in
      if t = [] \<or> hd t = hash then Skip
      else if t = ''radios:'' then Radios
      else if t = ''rx:'' then Enter RadiosRx
      else if t = ''tx:'' then Enter RadiosTx
      else if t = ''spi:'' then EnterSub Spi
      else if t = ''gpio:'' then EnterSub Gpio
      else if t = ''pins:'' then EnterSub Pins
      else if t = ''lora:'' then Enter Lora
      else if t = ''timeouts:'' then Enter Timeouts
      else if t = ''runtime:'' then Enter Runtime
      else if colon \<notin> set t then Skip
      else Key (trim (takeWhile (\<lambda>c. c \<noteq> colon) t))
               (clean_value (drop 1 (dropWhile (\<lambda>c. c \<noteq> colon) t))))"

definition do_line :: "line_action \<Rightarrow> loader \<Rightarrow> loader" where
  "do_line a st = (case a of
       Skip \<Rightarrow> st
     | Radios \<Rightarrow> st\<lparr>cur_section := SecNone, cur_sub := SubNone\<rparr>
     | Enter sec \<Rightarrow> st\<lparr>cur_section := sec, cur_sub := SubNone\<rparr>
     | EnterSub ss \<Rightarrow> st\<lparr>cur_sub := ss\<rparr>
     | Key key value \<Rightarrow> st\<lparr>loaded := set_key (cur_section st) (cur_sub st) key value (loaded st)\<rparr>)"

definition process_line :: "string \<Rightarrow> loader \<Rightarrow> loader" where
  "process_line line = do_line (read_line line)"

definition loader_init :: loader where
  "loader_init = \<lparr>cur_section = SecNone, cur_sub = SubNone, loaded = NodeConfig_default\<rparr>"

definition parse_config :: "string \<Rightarrow> NodeConfig" where
  "parse_config yaml = loaded (fold process_line (getlines yaml) loader_init)"

text \<open>The result: the error code, the value of \<^verbatim>\<open>out\<close> and the value of \<^verbatim>\<open>*error_out\<close> afterwards.\<close>

definition read_file_to_string :: "(string \<Rightarrow> string option) \<Rightarrow> string \<Rightarrow> string + string" where
  "read_file_to_string files path = (case files path of
       None \<Rightarrow> Inl (''failed to open config file: '' @ path)
     | Some contents \<Rightarrow> Inr contents)"

definition loadNodeConfigFromYaml :: "(string \<Rightarrow> string option) \<Rightarrow> string \<Rightarrow> NodeConfig \<Rightarrow>
    NodeConfigError \<times> NodeConfig \<times> string" where
  "loadNodeConfigFromYaml files path out = (case read_file_to_string files path of
       Inl message \<Rightarrow> (IoError, out, message)
     | Inr yaml \<Rightarrow> (ErrNone, parse_config yaml, []))"

section \<open>Lines\<close>

lemma getlines_Nil [simp]: "getlines [] = []"
  by (simp add: getlines.simps)

lemma getlines_line: "newline \<notin> set l \<Longrightarrow> getlines (l @ newline # r) = l # getlines r"
  by (subst getlines.simps) (auto simp: takeWhile_append dropWhile_append)

lemma getlines_unlines:
  "(\<And>l. l \<in> set ls \<Longrightarrow> newline \<notin> set l) \<Longrightarrow> getlines (concat (map (\<lambda>l. l @ [newline]) ls)) = ls"
  by (induction ls) (simp_all add: getlines_line)

lemma parse_config_unlines:
  assumes "\<And>l. l \<in> set ls \<Longrightarrow> newline \<notin> set l"
  shows "parse_config (concat (map (\<lambda>l. l @ [newline]) ls)) =
           loaded (fold do_line (map read_line ls) loader_init)"
proof -
  have "process_line = (\<lambda>l. do_line (read_line l))"
    by (simp add: fun_eq_iff process_line_def)
  then show ?thesis
    by (simp add: parse_config_def getlines_unlines [OF assms] fold_map comp_def)
qed

lemmas line_simps = read_line_def clean_value_def trim_def trim_end_def isspace_def newline_def
  hash_def quote_def strip_quotes_def colon_def

lemmas key_simps = do_line_def set_key_def set_radio_hw_def set_spi_def set_gpio_def set_pins_def
  set_rf_def set_lora_def set_timeouts_def set_runtime_def assign_def

lemmas value_simps = parse_uint32_def parse_uint8_def parse_int8_def parse_bool_def stoul_def stol_def
  scan_number_def isdigit_def digits_value_def parse_node_role_def parse_tx_behavior_def clamp16_def
  parse_crc_mode_def isspace_def newline_def

lemmas single_valued = parse_spreading_factor_def parse_bandwidth_def parse_coding_rate_def
  parse_header_type_def parse_iq_mode_def parse_ramp_time_def parse_regulator_mode_def
  parse_lna_setting_def

lemmas hw_defaults = RadioHwConfig_default_def LinuxSx1280RadioConfig_default_def
  LinuxSpiConfig_default_def LinuxGpioChipConfig_default_def LinuxSx1280PinConfig_default_def

lemmas radio_defaults = Sx1280Config_default_def Sx1280RfConfig_default_def Sx1280LoRaConfig_default_def
  Sx1280TimeoutConfig_default_def Sx1280RuntimeConfig_default_def ms_timeout_def

section \<open>The shipped configuration\<close>

text \<open>The lines of \<^verbatim>\<open>Sx1280Radio/Config/sx1280.yaml\<close>, in three blocks, and the configuration they stand for.\<close>

definition yaml_rx_lines :: "string list" where
  "yaml_rx_lines =
    [''# SX1280 dual-radio configuration for current RPi-based setup'',
     [],
     ''radios:'',
     ''  rx:'',
     ''    role: \"rx\"                # rx | tx | txrx'',
     ''    spi:'',
     ''      device: \"/dev/spidev0.0\"'',
     ''      speed_hz: 1000000'',
     ''      mode: 0'',
     ''      bits_per_word: 8'',
     ''    gpio:'',
     ''      chip: \"/dev/gpiochip4\"'',
     ''    pins:'',
     ''      reset: 22               # LORA_RX_RESET'',
     ''      busy: 23                # LORA_RX_BUSY'',
     ''      has_dio1: true'',
     ''      dio1: 24                # LORA_RX_INT'',
     ''      has_dio2: false'',
     ''      dio2: 0'',
     ''      has_dio3: false'',
     ''      dio3: 0'',
     ''      has_tx_enable: false'',
     ''      tx_enable: 0'',
     ''      tx_enable_active_high: true'',
     ''      tx_enable_behavior: \"none\"          # none | static_asserted | static_deasserted | assert_during_tx'',
     []]"

definition yaml_tx_lines :: "string list" where
  "yaml_tx_lines =
    [''  tx:'',
     ''    role: \"tx\"'',
     ''    spi:'',
     ''      device: \"/dev/spidev0.1\"'',
     ''      speed_hz: 1000000'',
     ''      mode: 0'',
     ''      bits_per_word: 8'',
     ''    gpio:'',
     ''      chip: \"/dev/gpiochip4\"'',
     ''    pins:'',
     ''      reset: 5                # LORA_TX_RESET'',
     ''      busy: 6                 # LORA_TX_BUSY'',
     ''      has_dio1: true'',
     ''      dio1: 25                # LORA_TX_INT'',
     ''      has_dio2: false'',
     ''      dio2: 0'',
     ''      has_dio3: false'',
     ''      dio3: 0'',
     ''      has_tx_enable: true'',
     ''      tx_enable: 12           # LORA_TX_EN'',
     ''      tx_enable_active_high: true'',
     ''      tx_enable_behavior: \"assert_during_tx\"'',
     []]"

definition yaml_radio_lines :: "string list" where
  "yaml_radio_lines =
    [''lora:'',
     ''  frequency_hz: 2400000000'',
     ''  tx_power_dbm: 10'',
     ''  ramp_time: \"20us\"           # -> SX128x::RADIO_RAMP_20_US'',
     ''  regulator_mode: \"dcdc\"      # -> SX128x::USE_DCDC'',
     [],
     ''  spreading_factor: \"sf7\"'',
     ''  bandwidth: \"bw_0800\"'',
     ''  coding_rate: \"cr_4_5\"'',
     [],
     ''  preamble_length: 12'',
     ''  header_type: \"variable_length\"'',
     ''  payload_length: 64'',
     ''  crc: \"on\"'',
     ''  iq_mode: \"normal\"'',
     [],
     ''timeouts:'',
     ''  tx_ms: 2000'',
     ''  rx_ms: 2000'',
     ''  continuous_rx: true'',
     [],
     ''runtime:'',
     ''  auto_fs: true'',
     ''  long_preamble: false'',
     ''  use_manual_gain: false'',
     ''  manual_gain_value: 0'',
     ''  lna_setting: \"high_sensitivity\"'']"

definition sx1280_yaml :: string where
  "sx1280_yaml = concat (map (\<lambda>l. l @ [newline]) (yaml_rx_lines @ yaml_tx_lines @ yaml_radio_lines))"

definition yaml_rx_radio :: RadioHwConfig where
  "yaml_rx_radio = \<lparr>hw = \<lparr>
     cfg_spi = \<lparr>device_path = ''/dev/spidev0.0'', speed_hz = 1000000, spi_mode = 0, bits_per_word = 8\<rparr>,
     cfg_gpio = \<lparr>chip_path = ''/dev/gpiochip4''\<rparr>,
     cfg_pins = \<lparr>reset_line = 22, busy_line = 23, has_dio1 = True, dio1_line = 24, has_dio2 = False,
       dio2_line = 0, has_dio3 = False, dio3_line = 0, has_tx_enable = False, tx_enable_line = 0,
       tx_enable_active_high = True, tx_enable_behavior = NoTxEnable\<rparr>\<rparr>, hw_role = RoleRx\<rparr>"

definition yaml_tx_radio :: RadioHwConfig where
  "yaml_tx_radio = \<lparr>hw = \<lparr>
     cfg_spi = \<lparr>device_path = ''/dev/spidev0.1'', speed_hz = 1000000, spi_mode = 0, bits_per_word = 8\<rparr>,
     cfg_gpio = \<lparr>chip_path = ''/dev/gpiochip4''\<rparr>,
     cfg_pins = \<lparr>reset_line = 5, busy_line = 6, has_dio1 = True, dio1_line = 25, has_dio2 = False,
       dio2_line = 0, has_dio3 = False, dio3_line = 0, has_tx_enable = True, tx_enable_line = 12,
       tx_enable_active_high = True, tx_enable_behavior = AssertDuringTxOnly\<rparr>\<rparr>, hw_role = RoleTx\<rparr>"

definition yaml_radio :: Sx1280Config where
  "yaml_radio = Sx1280Config_default\<lparr>cfg_lora := Sx1280LoRaConfig_default\<lparr>lora_payload_length := 64\<rparr>\<rparr>"

definition yaml_config :: NodeConfig where
  "yaml_config = \<lparr>node_rx = yaml_rx_radio, node_tx = yaml_tx_radio, node_radio = yaml_radio\<rparr>"

lemma yaml_rx_read:
  "map read_line yaml_rx_lines = [
     Skip, Skip, Radios, Enter RadiosRx, Key ''role'' ''rx'', EnterSub Spi,
     Key ''device'' ''/dev/spidev0.0'', Key ''speed_hz'' ''1000000'', Key ''mode'' ''0'',
     Key ''bits_per_word'' ''8'', EnterSub Gpio, Key ''chip'' ''/dev/gpiochip4'', EnterSub Pins,
     Key ''reset'' ''22'', Key ''busy'' ''23'', Key ''has_dio1'' ''true'', Key ''dio1'' ''24'',
     Key ''has_dio2'' ''false'', Key ''dio2'' ''0'', Key ''has_dio3'' ''false'',
     Key ''dio3'' ''0'', Key ''has_tx_enable'' ''false'', Key ''tx_enable'' ''0'',
     Key ''tx_enable_active_high'' ''true'', Key ''tx_enable_behavior'' ''none'', Skip]"
  by (simp add: yaml_rx_lines_def line_simps)

lemma yaml_tx_read:
  "map read_line yaml_tx_lines = [
     Enter RadiosTx, Key ''role'' ''tx'', EnterSub Spi, Key ''device'' ''/dev/spidev0.1'',
     Key ''speed_hz'' ''1000000'', Key ''mode'' ''0'', Key ''bits_per_word'' ''8'',
     EnterSub Gpio, Key ''chip'' ''/dev/gpiochip4'', EnterSub Pins, Key ''reset'' ''5'',
     Key ''busy'' ''6'', Key ''has_dio1'' ''true'', Key ''dio1'' ''25'',
     Key ''has_dio2'' ''false'', Key ''dio2'' ''0'', Key ''has_dio3'' ''false'',
     Key ''dio3'' ''0'', Key ''has_tx_enable'' ''true'', Key ''tx_enable'' ''12'',
     Key ''tx_enable_active_high'' ''true'', Key ''tx_enable_behavior'' ''assert_during_tx'',
     Skip]"
  by (simp add: yaml_tx_lines_def line_simps)

lemma yaml_radio_read:
  "map read_line yaml_radio_lines = [
     Enter Lora, Key ''frequency_hz'' ''2400000000'', Key ''tx_power_dbm'' ''10'',
     Key ''ramp_time'' ''20us'', Key ''regulator_mode'' ''dcdc'', Skip,
     Key ''spreading_factor'' ''sf7'', Key ''bandwidth'' ''bw_0800'',
     Key ''coding_rate'' ''cr_4_5'', Skip, Key ''preamble_length'' ''12'',
     Key ''header_type'' ''variable_length'', Key ''payload_length'' ''64'', Key ''crc'' ''on'',
     Key ''iq_mode'' ''normal'', Skip, Enter Timeouts, Key ''tx_ms'' ''2000'',
     Key ''rx_ms'' ''2000'', Key ''continuous_rx'' ''true'', Skip, Enter Runtime,
     Key ''auto_fs'' ''true'', Key ''long_preamble'' ''false'',
     Key ''use_manual_gain'' ''false'', Key ''manual_gain_value'' ''0'',
     Key ''lna_setting'' ''high_sensitivity'']"
  by (simp add: yaml_radio_lines_def line_simps)

lemma yaml_rx_loads:
  "fold do_line (map read_line yaml_rx_lines)
     \<lparr>cur_section = sec, cur_sub = ss, loaded = \<lparr>node_rx = RadioHwConfig_default, node_tx = x, node_radio = y\<rparr>\<rparr>
   = \<lparr>cur_section = RadiosRx, cur_sub = Pins, loaded = \<lparr>node_rx = yaml_rx_radio, node_tx = x, node_radio = y\<rparr>\<rparr>"
  unfolding yaml_rx_read hw_defaults by (simp add: key_simps value_simps yaml_rx_radio_def)

lemma yaml_tx_loads:
  "fold do_line (map read_line yaml_tx_lines)
     \<lparr>cur_section = sec, cur_sub = ss, loaded = \<lparr>node_rx = x, node_tx = RadioHwConfig_default, node_radio = y\<rparr>\<rparr>
   = \<lparr>cur_section = RadiosTx, cur_sub = Pins, loaded = \<lparr>node_rx = x, node_tx = yaml_tx_radio, node_radio = y\<rparr>\<rparr>"
  unfolding yaml_tx_read hw_defaults by (simp add: key_simps value_simps yaml_tx_radio_def)

lemma yaml_radio_loads:
  "fold do_line (map read_line yaml_radio_lines)
     \<lparr>cur_section = sec, cur_sub = ss, loaded = \<lparr>node_rx = x, node_tx = y, node_radio = Sx1280Config_default\<rparr>\<rparr>
   = \<lparr>cur_section = Runtime, cur_sub = SubNone, loaded = \<lparr>node_rx = x, node_tx = y, node_radio = yaml_radio\<rparr>\<rparr>"
  unfolding yaml_radio_read radio_defaults
  by (simp add: key_simps value_simps single_valued yaml_radio_def radio_defaults)

lemma yaml_lines_closed:
  "l \<in> set (yaml_rx_lines @ yaml_tx_lines @ yaml_radio_lines) \<Longrightarrow> newline \<notin> set l"
  by (auto simp: yaml_rx_lines_def yaml_tx_lines_def yaml_radio_lines_def newline_def)

lemma parse_shipped: "parse_config sx1280_yaml = yaml_config"
proof -
  have "parse_config sx1280_yaml = loaded (fold do_line
      (map read_line (yaml_rx_lines @ yaml_tx_lines @ yaml_radio_lines)) loader_init)"
    unfolding sx1280_yaml_def by (rule parse_config_unlines) (rule yaml_lines_closed)
  also have "\<dots> = yaml_config"
    by (simp add: loader_init_def NodeConfig_default_def yaml_rx_loads yaml_tx_loads yaml_radio_loads
        yaml_config_def del: list.map)
  finally show ?thesis .
qed

lemma shipped_valid: "valid_config (hw (node_rx yaml_config))" "valid_config (hw (node_tx yaml_config))"
  by (simp_all add: valid_config_def yaml_config_def yaml_rx_radio_def yaml_tx_radio_def)

end
