(* ===== verification/LoRa_Node.thy ===== *)
theory LoRa_Node
  imports Node_Config
begin

text \<open>
  The node (\<^verbatim>\<open>Sx1280Radio/Node/LoRaNode\<close>): two radios, one that listens and one that transmits, behind a
  small interface: \<^verbatim>\<open>start\<close>, \<^verbatim>\<open>stop\<close>, \<^verbatim>\<open>send\<close>, \<^verbatim>\<open>poll\<close>, \<^verbatim>\<open>setRxCallback\<close>.

  A radio object is the state of the driver together with the Linux implementation object. The only
  closure the node stores in a radio is the \<^verbatim>\<open>rxDone\<close> lambda of \<^verbatim>\<open>start\<close>; it is the value
  \<open>DeliverPacket\<close>, and \<open>deliver_packet\<close> is its body. It runs while \<^verbatim>\<open>poll\<close> is inside \<^verbatim>\<open>ProcessIrqs\<close> of the
  receiving radio, so its test of \<^verbatim>\<open>rx_radio\<close> succeeds and the radio it talks to is the one being
  processed. The user's receive callback is a parameter: \<open>on_rx c pkt\<close> is what calling the stored
  callback \<open>c\<close> with \<open>pkt\<close> does to the rest of the program.
\<close>

section \<open>Types\<close>

record LoRaNodeRxPacket =
  pkt_payload :: bytes
  pkt_rssi_dbm :: int
  pkt_snr_db :: int

datatype node_closure = DeliverPacket

record radio =
  base :: "node_closure SX128x"
  impl :: Impl

record 'c LoRaNode =
  node_config :: NodeConfig
  rx_callback :: "'c option"
  rx_radio :: "radio option"
  tx_radio :: "radio option"
  started :: bool

definition LoRaNode_new :: "NodeConfig \<Rightarrow> 'c LoRaNode" where
  "LoRaNode_new config = \<lparr>node_config = config, rx_callback = None, rx_radio = None, tx_radio = None,
     started = False\<rparr>"

type_synonym ('w, 'x, 'a) radio_op = "(node_closure, ('w, 'x) sys, 'a) drv"
type_synonym ('c, 'w, 'x, 'a) node_op = "('c LoRaNode \<times> ('w, 'x) sys, 'a) M"

text \<open>Everything outside the repository that a node runs on.\<close>

record ('c, 'w, 'x) platform =
  kernel :: "'w os"
  garbage :: rx_buffer
  on_rx :: "'c \<Rightarrow> LoRaNodeRxPacket \<Rightarrow> (('w, 'x) sys, unit) M"

abbreviation hal_of :: "('c, 'w, 'x) platform \<Rightarrow> Impl \<Rightarrow> ('w, 'x) sys hal" where
  "hal_of p i \<equiv> linux_hal (kernel p) (garbage p) i"

section \<open>Configuring a radio\<close>

definition configure_gain :: "'e hal \<Rightarrow> Sx1280RuntimeConfig \<Rightarrow> ('cb, 'e, unit) drv" where
  "configure_gain h c =
     (if rt_use_manual_gain c
      then seqM [EnableManualGain h, SetManualGainValue h (rt_manual_gain_value c)]
      else DisableManualGain h)"

definition configure_radio :: "'e hal \<Rightarrow> Sx1280Config \<Rightarrow> ('cb, 'e, unit) drv" where
  "configure_radio h radio_cfg = seqM
     [Init h,
      SetStandby h STDBY_RC,
      SetRegulatorMode h (rf_regulator_mode (cfg_rf radio_cfg)),
      SetPacketType h PACKET_TYPE_LORA,
      SetModulationParams h (to_modulation_params (cfg_lora radio_cfg)),
      SetPacketParams h (to_packet_params (cfg_lora radio_cfg)),
      SetRfFrequency h (rf_frequency_hz (cfg_rf radio_cfg)),
      SetTxParams h (rf_tx_power_dbm (cfg_rf radio_cfg)) (rf_ramp_time (cfg_rf radio_cfg)),
      SetBufferBaseAddresses h 0x00 0x00,
      SetAutoFs h (rt_auto_fs (cfg_runtime radio_cfg)),
      SetLongPreamble h (rt_long_preamble (cfg_runtime radio_cfg)),
      configure_gain h (cfg_runtime radio_cfg),
      SetLNAGainSetting h (rt_lna_setting (cfg_runtime radio_cfg))]"

section \<open>The receive callback\<close>

definition deliver_packet :: "'e hal \<Rightarrow> ('c \<Rightarrow> LoRaNodeRxPacket \<Rightarrow> ('e, unit) M) \<Rightarrow> 'c option \<Rightarrow>
    ('cb, 'e, unit) drv" where
  "deliver_packet h user cb =
     bindM (GetPacketStatus h PacketStatus_zero) (\<lambda>status.
     bindM (GetRxBufferStatus h) (\<lambda>(n, offset).
     bindM (if n > 0 then ReadBuffer h offset n else retM []) (\<lambda>buffer.
     let pkt = (if ps_packetType status = PACKET_TYPE_LORA
                then \<lparr>pkt_payload = buffer, pkt_rssi_dbm = LoRa_RssiPkt (ps_body status),
                      pkt_snr_db = LoRa_SnrPkt (ps_body status)\<rparr>
                else \<lparr>pkt_payload = buffer, pkt_rssi_dbm = 0, pkt_snr_db = 0\<rparr>)
     in case cb of None \<Rightarrow> retM () | Some c \<Rightarrow> virt (user c pkt))))"

text \<open>Calling the closure stored in a radio. \<^verbatim>\<open>rxDone\<close> takes no argument.\<close>

definition invoke_closure :: "('c, 'w, 'x) platform \<Rightarrow> Impl \<Rightarrow> 'c option \<Rightarrow> node_closure \<Rightarrow>
    callback_arg \<Rightarrow> ('w, 'x, unit) radio_op" where
  "invoke_closure p i cb f arg = (case f of DeliverPacket \<Rightarrow> deliver_packet (hal_of p i) (on_rx p) cb)"

section \<open>Operations on the two radios\<close>

text \<open>A method of the receiving or of the transmitting radio; nothing happens where there is none.\<close>

definition on_rx_radio :: "(Impl \<Rightarrow> ('w, 'x, unit) radio_op) \<Rightarrow> ('c, 'w, 'x, unit) node_op" where
  "on_rx_radio m = (\<lambda>(n, s). case rx_radio n of
       None \<Rightarrow> Some (Ret () (n, s))
     | Some r \<Rightarrow> (case m (impl r) (base r, s) of
           None \<Rightarrow> None
         | Some (Ret _ (b, s')) \<Rightarrow> Some (Ret () (n\<lparr>rx_radio := Some (r\<lparr>base := b\<rparr>)\<rparr>, s'))
         | Some (Throw e (b, s')) \<Rightarrow> Some (Throw e (n\<lparr>rx_radio := Some (r\<lparr>base := b\<rparr>)\<rparr>, s'))
         | Some Deadlock \<Rightarrow> Some Deadlock))"

definition on_tx_radio :: "(Impl \<Rightarrow> ('w, 'x, unit) radio_op) \<Rightarrow> ('c, 'w, 'x, unit) node_op" where
  "on_tx_radio m = (\<lambda>(n, s). case tx_radio n of
       None \<Rightarrow> Some (Ret () (n, s))
     | Some r \<Rightarrow> (case m (impl r) (base r, s) of
           None \<Rightarrow> None
         | Some (Ret _ (b, s')) \<Rightarrow> Some (Ret () (n\<lparr>tx_radio := Some (r\<lparr>base := b\<rparr>)\<rparr>, s'))
         | Some (Throw e (b, s')) \<Rightarrow> Some (Throw e (n\<lparr>tx_radio := Some (r\<lparr>base := b\<rparr>)\<rparr>, s'))
         | Some Deadlock \<Rightarrow> Some Deadlock))"

text \<open>\<^verbatim>\<open>std::unique_ptr::reset\<close> on a radio: its destructor releases what it holds.\<close>

definition destroy_radio :: "'w os \<Rightarrow> radio option \<Rightarrow> (('w, 'x) sys, unit) M" where
  "destroy_radio os r = (case r of None \<Rightarrow> retM () | Some r \<Rightarrow> Impl_destroy os (impl r))"

definition node_get :: "('c LoRaNode \<Rightarrow> 'a) \<Rightarrow> ('c, 'w, 'x, 'a) node_op" where
  "node_get f = getsM (\<lambda>(n, s). f n)"

definition node_set :: "('c LoRaNode \<Rightarrow> 'c LoRaNode) \<Rightarrow> ('c, 'w, 'x, unit) node_op" where
  "node_set f = modifyM (\<lambda>(n, s). (f n, s))"

text \<open>The common text of \<^verbatim>\<open>stop\<close> and of the handler in \<^verbatim>\<open>start\<close>.\<close>

definition stop :: "('c, 'w, 'x) platform \<Rightarrow> ('c, 'w, 'x, unit) node_op" where
  "stop p =
     bindM (node_get rx_radio) (\<lambda>r.
     bindM (lift_sndM (destroy_radio (kernel p) r)) (\<lambda>_.
     bindM (node_set (\<lambda>n. n\<lparr>rx_radio := None\<rparr>)) (\<lambda>_.
     bindM (node_get tx_radio) (\<lambda>r.
     bindM (lift_sndM (destroy_radio (kernel p) r)) (\<lambda>_.
     node_set (\<lambda>n. n\<lparr>tx_radio := None, started := False\<rparr>))))))"

section \<open>Starting\<close>

definition irq_mask :: u16 where
  "irq_mask = RadioIrqMasks_value IRQ_TX_DONE OR RadioIrqMasks_value IRQ_RX_DONE OR
     RadioIrqMasks_value IRQ_RX_TX_TIMEOUT OR RadioIrqMasks_value IRQ_CRC_ERROR OR
     RadioIrqMasks_value IRQ_HEADER_ERROR OR RadioIrqMasks_value IRQ_HEADER_VALID"

definition rx_start_timeout :: "Sx1280TimeoutConfig \<Rightarrow> TickTime_t" where
  "rx_start_timeout c =
     (if continuous_rx c then (rx_timeout c)\<lparr>PeriodBaseCount := 0xFFFF\<rparr> else rx_timeout c)"

text \<open>Unwinding: the destructors of the locals constructed so far run, then the exception goes on.\<close>

definition on_throw :: "('s, 'a) M \<Rightarrow> ('s, unit) M \<Rightarrow> ('s, 'a) M" where
  "on_throw m cleanup = (\<lambda>s. case m s of
       Some (Throw e s') \<Rightarrow> bindM cleanup (\<lambda>_. throwM e) s'
     | r \<Rightarrow> r)"

text \<open>Both radios constructed and configured, as the two local \<^verbatim>\<open>unique_ptr\<close>s.\<close>

definition make_radios :: "('c, 'w, 'x) platform \<Rightarrow> NodeConfig \<Rightarrow> (('w, 'x) sys, radio \<times> radio) M" where
  "make_radios p c =
     bindM (Impl_new (kernel p) (hw (node_rx c))) (\<lambda>rx.
     on_throw
       (bindM (Impl_new (kernel p) (hw (node_tx c))) (\<lambda>tx.
        on_throw
          (bindM (with_local SX128x_new (configure_radio (hal_of p rx) (node_radio c))) (\<lambda>rx_base.
           bindM (with_local SX128x_new (configure_radio (hal_of p tx) (node_radio c))) (\<lambda>tx_base.
           retM (\<lparr>base = rx_base\<lparr>callbacks := (callbacks rx_base)\<lparr>rxDone := Some DeliverPacket\<rparr>\<rparr>,
                  impl = rx\<rparr>,
                 \<lparr>base = tx_base, impl = tx\<rparr>))))
          (Impl_destroy (kernel p) tx)))
       (Impl_destroy (kernel p) rx))"

definition start_body :: "('c, 'w, 'x) platform \<Rightarrow> ('c, 'w, 'x, unit) node_op" where
  "start_body p =
     bindM (node_get node_config) (\<lambda>c.
     bindM (lift_sndM (make_radios p c)) (\<lambda>(rx, tx). seqM
       [node_set (\<lambda>n. n\<lparr>rx_radio := Some rx, tx_radio := Some tx\<rparr>),
        on_rx_radio (\<lambda>i. SetDioIrqParams (hal_of p i) irq_mask irq_mask 0 0),
        on_tx_radio (\<lambda>i. SetDioIrqParams (hal_of p i) irq_mask 0 0 0),
        on_rx_radio (\<lambda>i. SetRx (hal_of p i) (rx_start_timeout (cfg_timeouts (node_radio c)))),
        node_set (\<lambda>n. n\<lparr>started := True\<rparr>)]))"

definition start :: "('c, 'w, 'x) platform \<Rightarrow> ('c, 'w, 'x, bool) node_op" where
  "start p =
     bindM (node_get started) (\<lambda>already.
     if already then retM True
     else tryM (bindM (start_body p) (\<lambda>_. retM True)) (bindM (stop p) (\<lambda>_. retM False)))"

section \<open>Sending and receiving\<close>

definition send :: "('c, 'w, 'x) platform \<Rightarrow> bytes \<Rightarrow> ('c, 'w, 'x, bool) node_op" where
  "send p payload =
     bindM (node_get id) (\<lambda>n.
     if \<not> started n \<or> tx_radio n = None then retM False
     else if payload = [] then retM True
     else if length payload > 0xFF then retM False
     else bindM (on_tx_radio (\<lambda>i. SendPayload (hal_of p i) payload
                    (tx_timeout (cfg_timeouts (node_radio (node_config n)))) 0)) (\<lambda>_.
          retM True))"

definition poll :: "('c, 'w, 'x) platform \<Rightarrow> ('c, 'w, 'x, unit) node_op" where
  "poll p =
     bindM (node_get rx_callback) (\<lambda>cb. seqM
       [on_rx_radio (\<lambda>i. ProcessIrqs (hal_of p i) (invoke_closure p i cb)),
        on_tx_radio (\<lambda>i. ProcessIrqs (hal_of p i) (invoke_closure p i cb))])"

definition setRxCallback :: "'c option \<Rightarrow> ('c, 'w, 'x, unit) node_op" where
  "setRxCallback cb = node_set (\<lambda>n. n\<lparr>rx_callback := cb\<rparr>)"

text \<open>The destructor: the members go in the reverse order of their declaration.\<close>

definition LoRaNode_destroy :: "('c, 'w, 'x) platform \<Rightarrow> 'c LoRaNode \<Rightarrow> (('w, 'x) sys, unit) M" where
  "LoRaNode_destroy p n = seqM [destroy_radio (kernel p) (tx_radio n), destroy_radio (kernel p) (rx_radio n)]"

section \<open>What configuring a radio does\<close>

definition gain_frames :: "Sx1280RuntimeConfig \<Rightarrow> u8 \<Rightarrow> u8 \<Rightarrow> u8 \<Rightarrow> bytes list" where
  "gain_frames c v w x =
     (if rt_use_manual_gain c then
        [read_register_frame REG_ENABLE_MANUAL_GAIN_CONTROL 1,
         write_register_frame REG_ENABLE_MANUAL_GAIN_CONTROL [v OR MASK_MANUAL_GAIN_CONTROL],
         read_register_frame REG_DEMOD_DETECTION 1,
         write_register_frame REG_DEMOD_DETECTION [w AND MASK_DEMOD_DETECTION],
         read_register_frame REG_MANUAL_GAIN_VALUE 1,
         write_register_frame REG_MANUAL_GAIN_VALUE [(x AND MASK_MANUAL_GAIN_VALUE) OR rt_manual_gain_value c]]
      else
        [read_register_frame REG_ENABLE_MANUAL_GAIN_CONTROL 1,
         write_register_frame REG_ENABLE_MANUAL_GAIN_CONTROL [v AND NOT MASK_MANUAL_GAIN_CONTROL],
         read_register_frame REG_DEMOD_DETECTION 1,
         write_register_frame REG_DEMOD_DETECTION [w OR NOT MASK_DEMOD_DETECTION]])"

definition lna_frames :: "RadioLnaSettings_t \<Rightarrow> u8 \<Rightarrow> bytes list" where
  "lna_frames s v = [read_register_frame REG_LNA_REGIME 1, write_register_frame REG_LNA_REGIME
     [case s of LNA_HIGH_SENSITIVITY_MODE \<Rightarrow> v OR MASK_LNA_REGIME
      | LNA_LOW_POWER_MODE \<Rightarrow> v AND NOT MASK_LNA_REGIME]]"

text \<open>The frames a radio is configured with; \<open>v\<close>, \<open>w\<close>, \<open>x\<close> and \<open>y\<close> are the register values it reports.\<close>

definition config_frames :: "Sx1280Config \<Rightarrow> u8 \<Rightarrow> u8 \<Rightarrow> u8 \<Rightarrow> u8 \<Rightarrow> bytes list" where
  "config_frames c v w x y =
     [command_frame RADIO_GET_STATUS [0],
      command_frame RADIO_SET_STANDBY [RadioStandbyModes_value STDBY_RC],
      command_frame RADIO_SET_REGULATORMODE [RadioRegulatorModes_value (rf_regulator_mode (cfg_rf c))],
      command_frame RADIO_SET_PACKETTYPE [RadioPacketTypes_value PACKET_TYPE_LORA],
      command_frame RADIO_SET_MODULATIONPARAMS
        [RadioLoRaSpreadingFactors_value (lora_spreading_factor (cfg_lora c)),
         RadioLoRaBandwidths_value (lora_bandwidth (cfg_lora c)),
         RadioLoRaCodingRates_value (lora_coding_rate (cfg_lora c))],
      command_frame RADIO_SET_PACKETPARAMS
        [lora_preamble_length (cfg_lora c), RadioLoRaPacketLengthsModes_value (lora_header_type (cfg_lora c)),
         lora_payload_length (cfg_lora c), RadioLoRaCrcModes_value (lora_crc (cfg_lora c)),
         RadioLoRaIQModes_value (lora_iq_mode (cfg_lora c)), 0, 0],
      command_frame RADIO_SET_RFFREQUENCY (be24 (rf_steps (rf_frequency_hz (cfg_rf c)))),
      command_frame RADIO_SET_TXPARAMS
        [rf_tx_power_dbm (cfg_rf c) + 18, RadioRampTimes_value (rf_ramp_time (cfg_rf c))],
      command_frame RADIO_SET_BUFFERBASEADDRESS [0, 0],
      command_frame RADIO_SET_AUTOFS [byte_of_bool (rt_auto_fs (cfg_runtime c))],
      command_frame RADIO_SET_LONGPREAMBLE [byte_of_bool (rt_long_preamble (cfg_runtime c))]]
     @ gain_frames (cfg_runtime c) v w x @ lna_frames (rt_lna_setting (cfg_runtime c)) y"

definition configured :: "Sx1280Config \<Rightarrow> 'cb SX128x \<Rightarrow> 'cb SX128x" where
  "configured c b = b\<lparr>OperatingMode := MODE_STDBY_RC, PacketType := PACKET_TYPE_LORA,
     LoRaBandwidth := lora_bandwidth (cfg_lora c),
     CurrentModParams := to_modulation_params (cfg_lora c),
     CurrentPacketParams := to_packet_params (cfg_lora c)\<rparr>"

context hal_obs
begin

lemma wp_gain:
  assumes "idle b"
    and "\<And>v w x e'. advances obs hook (map spi (gain_frames c v w x)) e e' \<Longrightarrow> Q () (b, e')"
    and "\<And>x os e'. advances obs hook os e e' \<Longrightarrow> E x (b, e')"
  shows "wp (configure_gain h c) Q E (b, e)"
  using assms unfolding configure_gain_def EnableManualGain_def DisableManualGain_def SetManualGainValue_def modify_register_def
  by (auto simp: wp idle_def gain_frames_def advances_def intro!: wp_intro)

lemma wp_lna:
  assumes "idle b" and "\<And>y e'. advances obs hook (map spi (lna_frames s y)) e e' \<Longrightarrow> Q () (b, e')"
    and "\<And>x os e'. advances obs hook os e e' \<Longrightarrow> E x (b, e')"
  shows "wp (SetLNAGainSetting h s) Q E (b, e)"
  using assms unfolding SetLNAGainSetting_def modify_register_def
  by (cases s) (auto simp: wp idle_def lna_frames_def advances_def intro!: wp_intro)

lemma wp_configure_radio:
  assumes "idle b"
    and "\<And>v w x y e'. advances obs hook ([rst 0, rst 1] @ map spi (config_frames c v w x y)) e e' \<Longrightarrow>
           Q () (configured c b, e')"
    and "\<And>x os b' e'. idle b' \<Longrightarrow> advances obs hook os e e' \<Longrightarrow> E x (b', e')"
  shows "wp (configure_radio h c) Q E (b, e)"
  using assms
  unfolding configure_radio_def wp_seq_Cons wp_seq_Nil Init_def SetRegistersDefault_def RadioRegsInit_def
    SetStandby_def SetRegulatorMode_def SetPacketType_def SetModulationParams_def SetPacketParams_def
    SetRfFrequency_def SetTxParams_def SetBufferBaseAddresses_def SetAutoFs_def SetLongPreamble_def
    set_mode_def
  by (auto simp: wp idle_def configured_def config_frames_def to_modulation_params_def to_packet_params_def
      modulation_bytes_def packet_bytes_def advances_def intro!: wp_intro wp_gain wp_lna)

end

section \<open>Weakest preconditions of the node's primitives\<close>

lemma wp_node_get [wp]: "wp (node_get f) Q E (n, s) = Q (f n) (n, s)"
  by (simp add: node_get_def wp)

lemma wp_node_set [wp]: "wp (node_set f) Q E (n, s) = Q () (f n, s)"
  by (simp add: node_set_def wp)

lemma wp_on_throw [wp]:
  "wp (on_throw m c) Q E s = wp m Q (\<lambda>e. wp c (\<lambda>_. E e) E) s"
  by (simp add: wp_def on_throw_def bindM_def throwM_def split: option.split outcome.split)

lemma wp_on_rx_radio [wp]:
  "wp (on_rx_radio m) Q E (n, s) = (case rx_radio n of None \<Rightarrow> Q () (n, s) | Some r \<Rightarrow>
     wp (m (impl r)) (\<lambda>_ (b, s'). Q () (n\<lparr>rx_radio := Some (r\<lparr>base := b\<rparr>)\<rparr>, s'))
       (\<lambda>e (b, s'). E e (n\<lparr>rx_radio := Some (r\<lparr>base := b\<rparr>)\<rparr>, s')) (base r, s))"
  by (simp add: wp_def on_rx_radio_def split: option.split outcome.split prod.split)

lemma wp_on_tx_radio [wp]:
  "wp (on_tx_radio m) Q E (n, s) = (case tx_radio n of None \<Rightarrow> Q () (n, s) | Some r \<Rightarrow>
     wp (m (impl r)) (\<lambda>_ (b, s'). Q () (n\<lparr>tx_radio := Some (r\<lparr>base := b\<rparr>)\<rparr>, s'))
       (\<lambda>e (b, s'). E e (n\<lparr>tx_radio := Some (r\<lparr>base := b\<rparr>)\<rparr>, s')) (base r, s))"
  by (simp add: wp_def on_tx_radio_def split: option.split outcome.split prod.split)

definition radio_held :: "radio option \<Rightarrow> (resource \<times> int) multiset" where
  "radio_held r = (case r of None \<Rightarrow> {#} | Some r \<Rightarrow> held (impl r))"

lemma wp_destroy_radio [wp_intro]:
  assumes "\<And>s'. app s' = app s \<Longrightarrow> live s' = live s - radio_held r \<Longrightarrow> Q () s'"
  shows "wp (destroy_radio os r) Q E s"
  using assms by (auto simp: destroy_radio_def radio_held_def wp split: option.split intro!: wp_intro)

section \<open>The node's invariant\<close>

text \<open>
  Between two calls the mutexes of both radios are free, a started node has both radios, the receiver
  has the node's closure as its only callback and the transmitter has none, and both speak LoRa.
\<close>

definition radio_ok :: "node_closure option \<Rightarrow> radio \<Rightarrow> bool" where
  "radio_ok cb r \<longleftrightarrow> idle (base r) \<and> callbacks (base r) = no_callbacks\<lparr>rxDone := cb\<rparr> \<and>
     PacketType (base r) = PACKET_TYPE_LORA"

definition node_ok :: "'c LoRaNode \<Rightarrow> bool" where
  "node_ok n \<longleftrightarrow>
     (case rx_radio n of None \<Rightarrow> \<not> started n | Some r \<Rightarrow> radio_ok (Some DeliverPacket) r) \<and>
     (case tx_radio n of None \<Rightarrow> \<not> started n | Some r \<Rightarrow> radio_ok None r) \<and>
     (\<not> started n \<longrightarrow> rx_radio n = None \<and> tx_radio n = None)"

lemma node_ok_new: "node_ok (LoRaNode_new c)"
  by (simp add: node_ok_def LoRaNode_new_def)

lemma idle_new [simp]: "idle SX128x_new"
  by (simp add: idle_def SX128x_new_def)

lemma configured_simps [simp]:
  "idle (configured c b) = idle b" "callbacks (configured c b) = callbacks b"
  "PacketType (configured c b) = PACKET_TYPE_LORA" "OperatingMode (configured c b) = MODE_STDBY_RC"
  by (simp_all add: idle_def configured_def)

lemma idle_updates [simp]:
  "idle (b\<lparr>OperatingMode := m\<rparr>) = idle b" "idle (b\<lparr>callbacks := cb\<rparr>) = idle b"
  by (simp_all add: idle_def)

section \<open>Starting\<close>

text \<open>The two radios of a node that has been configured, before it listens.\<close>

definition made :: "NodeConfig \<Rightarrow> radio \<Rightarrow> radio \<Rightarrow> bool" where
  "made c rx tx \<longleftrightarrow> Impl_ok (hw (node_rx c)) (impl rx) \<and> Impl_ok (hw (node_tx c)) (impl tx) \<and>
     base rx = (configured (node_radio c) SX128x_new)\<lparr>callbacks := no_callbacks\<lparr>rxDone := Some DeliverPacket\<rparr>\<rparr> \<and>
     base tx = configured (node_radio c) SX128x_new"

lemma wp_configure_local:
  assumes "\<And>s'. app s' = app s \<Longrightarrow> live s' = live s \<Longrightarrow> Q (configured c SX128x_new) s'"
    and "\<And>x s'. app s' = app s \<Longrightarrow> live s' = live s \<Longrightarrow> E x s'"
  shows "wp (with_local SX128x_new (configure_radio (linux_hal os g i) c)) Q E s"
  unfolding wp_with_local
  by (rule linux.wp_configure_radio) (auto dest: advances_does intro: assms)

lemma wp_make_radios:
  assumes "\<And>rx tx s'. made c rx tx \<Longrightarrow> app s' = app s \<Longrightarrow>
             live s' = live s + held (impl rx) + held (impl tx) \<Longrightarrow> Q (rx, tx) s'"
    and "\<And>x leak s'. app s' = app s \<Longrightarrow> live s' = live s + held leak \<Longrightarrow> E x s'"
  shows "wp (make_radios p c) Q E s"
proof -
  have clean: "E x s'" if "app s' = app s" "live s' = live s" for x s'
    using assms(2) [of s' "Impl_init LinuxSx1280RadioConfig_default" x] that by simp
  have callbacks: "callbacks SX128x_new = no_callbacks"
    by (simp add: SX128x_new_def)
  show ?thesis
    unfolding make_radios_def wp_bind wp_on_throw wp_ret
    by (intro wp_Impl_new wp_configure_local wp_Impl_destroy assms(1) assms(2) clean)
       (auto simp: made_def callbacks elim: assms(2))
qed

lemma wp_stop [wp_intro]:
  assumes "\<And>s'. app s' = app s \<Longrightarrow> live s' = live s - radio_held (rx_radio n) - radio_held (tx_radio n) \<Longrightarrow>
      Q () (n\<lparr>rx_radio := None, tx_radio := None, started := False\<rparr>, s')"
  shows "wp (stop p) Q E (n, s)"
  using assms unfolding stop_def by (auto simp: wp intro!: wp_intro)

text \<open>The radios after the last steps of \<^verbatim>\<open>start\<close>: the receiver listens.\<close>

definition listening :: "NodeConfig \<Rightarrow> 'c LoRaNode \<Rightarrow> bool" where
  "listening c n \<longleftrightarrow> (\<exists>rx tx. made c rx tx \<and> tx_radio n = Some tx \<and>
     rx_radio n = Some (rx\<lparr>base := (base rx)\<lparr>OperatingMode := MODE_RX\<rparr>\<rparr>))"

lemma made_ok: "made c rx tx \<Longrightarrow> radio_ok (Some DeliverPacket) rx \<and> radio_ok None tx"
  by (auto simp: made_def radio_ok_def SX128x_new_def no_callbacks_def idle_def configured_def)

lemma listening_ok: "listening c n \<Longrightarrow> started n \<Longrightarrow> node_ok n"
  by (auto simp: listening_def node_ok_def radio_ok_def dest!: made_ok)

lemma wp_start_body:
  assumes "rx_radio n = None" "tx_radio n = None"
    and "\<And>n' s'. listening (node_config n) n' \<Longrightarrow> started n' \<Longrightarrow> node_config n' = node_config n \<Longrightarrow>
           rx_callback n' = rx_callback n \<Longrightarrow> app s' = app s \<Longrightarrow>
           live s' = live s + radio_held (rx_radio n') + radio_held (tx_radio n') \<Longrightarrow> Q () (n', s')"
    and "\<And>x leak n' s'. node_config n' = node_config n \<Longrightarrow> rx_callback n' = rx_callback n \<Longrightarrow>
           app s' = app s \<Longrightarrow>
           live s' = live s + held leak + radio_held (rx_radio n') + radio_held (tx_radio n') \<Longrightarrow>
           E x (n', s')"
  shows "wp (start_body p) Q E (n, s)"
proof -
  have throw: "E x (n\<lparr>rx_radio := Some rx, tx_radio := Some tx\<rparr>, s')"
    "E x (n\<lparr>tx_radio := Some tx, rx_radio := Some rx\<rparr>, s')"
    if "app s' = app s" "live s' = live s + held (impl rx) + held (impl tx)" for x rx tx s'
    by (rule assms(4) [where leak = "Impl_init LinuxSx1280RadioConfig_default"];
        simp add: that radio_held_def)+
  have leaked: "E x (n, s')" if "app s' = app s" "live s' = live s + held leak" for x leak s'
    using that by (intro assms(4) [of n s' leak x]) (simp_all add: radio_held_def assms(1,2))
  have idle: "idle (base rx)" "idle (base tx)" if "made c rx tx" for c rx tx
    using made_ok [OF that] by (simp_all add: radio_ok_def)
  show ?thesis
    unfolding start_body_def
    by (auto simp: wp assms(1,2) idle radio_held_def listening_def
        intro!: wp_make_radios linux.wp_SetDioIrqParams linux.wp_SetRx assms(3) throw
        intro: leaked dest!: advances_does)
       blast
qed

lemma wp_start:
  assumes "node_ok n"
  shows "wp (start p) (\<lambda>ok (n', s'). node_ok n' \<and> started n' = ok \<and> node_config n' = node_config n \<and>
           rx_callback n' = rx_callback n \<and> app s' = app s \<and>
           (started n \<longrightarrow> n' = n \<and> s' = s) \<and>
           (\<not> started n \<and> ok \<longrightarrow> listening (node_config n) n' \<and>
              live s' = live s + radio_held (rx_radio n') + radio_held (tx_radio n')) \<and>
           (\<not> ok \<longrightarrow> (\<exists>leak. live s' = live s + held leak)))
         (\<lambda>_ _. False) (n, s)"
proof (cases "started n")
  case True
  with assms show ?thesis by (simp add: start_def wp)
next
  case False
  with assms have none: "rx_radio n = None" "tx_radio n = None"
    by (simp_all add: node_ok_def)
  have stopped: "node_ok (n'\<lparr>rx_radio := None, tx_radio := None, started := False\<rparr>)" for n' :: "'a LoRaNode"
    by (simp add: node_ok_def)
  show ?thesis
    using False unfolding start_def
    by (auto simp: wp none stopped listening_ok
        intro!: wp_start_body [OF none] wp_stop)
       blast
qed

section \<open>Sending\<close>

lemma wp_send:
  assumes "node_ok n"
    and "\<And>r s'. started n \<Longrightarrow> payload \<noteq> [] \<Longrightarrow> length payload \<le> 255 \<Longrightarrow> tx_radio n = Some r \<Longrightarrow>
       does ([spi_message (impl r) (write_buffer_frame 0 payload)] @
             set_tx_trace (spi_message (impl r)) (hook_calls (impl r)) PACKET_TYPE_LORA
               (tx_timeout (cfg_timeouts (node_radio (node_config n))))) s s' \<Longrightarrow>
       Q True (n\<lparr>tx_radio := Some (r\<lparr>base := (base r)\<lparr>OperatingMode := MODE_TX\<rparr>\<rparr>)\<rparr>, s')"
    and "started n \<Longrightarrow> payload = [] \<Longrightarrow> Q True (n, s)"
    and "\<not> started n \<or> 255 < length payload \<Longrightarrow> Q False (n, s)"
    and "\<And>x s'. app s' = app s \<Longrightarrow> live s' = live s \<Longrightarrow> E x (n, s')"
  shows "wp (send p payload) Q E (n, s)"
proof (cases "started n \<and> payload \<noteq> [] \<and> length payload \<le> 255")
  case True
  then obtain r where r: "tx_radio n = Some r" and ok: "radio_ok None r"
    using assms(1) by (auto simp: node_ok_def split: option.splits)
  have trace: "map Did (spi_message (impl r) f # set_tx_trace (spi_message (impl r)) (hook_calls (impl r)) t tm)
      = Did (spi_message (impl r) f) #
        set_tx_trace (\<lambda>f. Did (spi_message (impl r) f)) (\<lambda>k. map Did (hook_calls (impl r) k)) t tm" for f t tm
    by (simp add: set_tx_trace_def role_trace_def)
  have same: "n\<lparr>tx_radio := Some r\<rparr> = n"
    using r by (cases n) auto
  have sent: "wp (SendPayload (hal_of p (impl r)) payload tm 0)
      (\<lambda>_ (b, s'). Q True (n\<lparr>tx_radio := Some (r\<lparr>base := b\<rparr>)\<rparr>, s'))
      (\<lambda>e (b, s'). E e (n\<lparr>tx_radio := Some (r\<lparr>base := b\<rparr>)\<rparr>, s')) (base r, s)"
    if "tm = tx_timeout (cfg_timeouts (node_radio (node_config n)))" for tm
    using ok True r assms(2) [of r] unfolding that
    by (intro linux.wp_SendPayload)
       (auto simp: radio_ok_def same trace [symmetric] advances_seen dest: advances_does intro!: assms(5)
          simp del: list.map)
  show ?thesis
    unfolding send_def using True r sent by (simp add: wp)
next
  case False
  then show ?thesis
    using assms(1,3,4) unfolding send_def by (auto simp: wp node_ok_def split: option.splits)
qed

section \<open>Polling\<close>

text \<open>
  Reading a packet: whatever the radio answers, the callback gets at most 255 bytes, and the driver
  object is as before.
\<close>

context hal_obs
begin
lemma wp_deliver_packet:
  assumes "idle b"
    and "\<And>os e'. advances obs hook os e e' \<Longrightarrow> P e'" and "\<And>e'. P e' \<Longrightarrow> R e'"
    and "\<And>c pkt e'. cb = Some c \<Longrightarrow> length (pkt_payload pkt) \<le> 255 \<Longrightarrow> P e' \<Longrightarrow>
           wp (user c pkt) (\<lambda>_. R) (\<lambda>_. R) e'"
  shows "wp (deliver_packet h user cb) (\<lambda>_ (b', e'). b' = b \<and> R e') (\<lambda>_ (b', e'). b' = b \<and> R e') (b, e)"
proof -
  have n: "unat n \<le> 255" for n :: u8
  proof -
    have "unat n < 2 ^ LENGTH(8)" by (rule unsigned_less)
    then show ?thesis by simp
  qed
  show ?thesis
    using assms(1,2,3)
    unfolding deliver_packet_def GetPacketStatus_def GetRxBufferStatus_def GetPacketType_def
    by (auto simp: wp idle_def Let_def advances_def n split: option.split
        intro!: wp_intro assms(4))
qed

end

lemma wp_notify_other:
  "callbacks b = no_callbacks\<lparr>rxDone := f\<rparr> \<Longrightarrow> c \<noteq> RxDone \<Longrightarrow> wp (notify iv c) Q E (b, e) = Q () (b, e)"
  by (cases c) (simp_all add: call_back_def wp no_callbacks_def)

lemma wp_call_rxDone:
  "callbacks b = no_callbacks\<lparr>rxDone := f\<rparr> \<Longrightarrow> wp (call_back iv rxDone NoArg) Q E (b, e) =
     (case f of None \<Rightarrow> Q () (b, e) | Some c \<Rightarrow> wp (iv c NoArg) Q E (b, e))"
  by (simp add: call_back_def wp split: option.split)

text \<open>
  What \<^verbatim>\<open>poll\<close> may do to the program that owns the node: \<open>J\<close> is a family of conditions on the system state
  that only looks at the owner's state and the resources, and that a call of the receive callback with
  a packet of at most 255 bytes may advance by one.
\<close>

definition poll_family :: "('c, 'w, 'x) platform \<Rightarrow> 'c option \<Rightarrow> (nat \<Rightarrow> ('w, 'x) sys \<Rightarrow> bool) \<Rightarrow> bool" where
  "poll_family p cb J \<longleftrightarrow>
     (\<forall>j s s'. J j s \<longrightarrow> app s' = app s \<longrightarrow> live s' = live s \<longrightarrow> J j s') \<and>
     (\<forall>j k s. J j s \<longrightarrow> j \<le> k \<longrightarrow> J k s) \<and>
     (\<forall>c pkt j s. cb = Some c \<longrightarrow> length (pkt_payload pkt) \<le> 255 \<longrightarrow> J j s \<longrightarrow>
        wp (on_rx p c pkt) (\<lambda>_. J (Suc j)) (\<lambda>_. J (Suc j)) s)"

lemma wp_radio_irqs:
  assumes r: "radio_ok f r" and J: "poll_family p cb J" "J k s"
  shows "wp (ProcessIrqs (hal_of p (impl r)) (invoke_closure p (impl r) cb))
           (\<lambda>_ (b, s'). b = base r \<and> J (if f = None then k else Suc k) s')
           (\<lambda>_ (b, s'). b = base r \<and> J (if f = None then k else Suc k) s') (base r, s)"
proof -
  let ?k = "\<lambda>j. if f = None then k else k + j"
  define I where "I = (\<lambda>j (b, s'). b = base r \<and> J (?k j) s')"
  have frame: "J j s'" if "J j s" "app s' = app s" "live s' = live s" for j s s'
    using J(1) that unfolding poll_family_def by blast
  have mono: "J j s" if "J i s" "i \<le> j" for i j s
    using J(1) that unfolding poll_family_def by blast
  have user: "wp (on_rx p c pkt) (\<lambda>_. J (Suc j)) (\<lambda>_. J (Suc j)) s"
    if "cb = Some c" "length (pkt_payload pkt) \<le> 255" "J j s" for c pkt j s
    using J(1) that unfolding poll_family_def by blast
  have I_frame: "I j (b, s')" if "I j (b, s)" "app s' = app s" "live s' = live s" for j b s s'
    using that by (auto simp: I_def intro: frame)
  have hook: "wp (virt (run_hook (hal_of p (impl r)) c)) (\<lambda>_. I j) (\<lambda>_. I j) s" if "I j s" for c j s
  proof -
    obtain b e where s: "s = (b, e)" by (cases s)
    show ?thesis
      unfolding s wp_lift_snd
      by (rule wp_mono [OF wp_linux_hook]) (use that s I_frame in \<open>auto simp: does_def\<close>)
  qed
  have quiet: "wp (notify (invoke_closure p (impl r) cb) c) (\<lambda>_. I j) (\<lambda>_. I j) s"
    if "c \<noteq> RxDone" "I j s" for c j s
    using that r by (cases s) (simp add: I_def wp_notify_other [of _ f] radio_ok_def)
  have rx: "wp (notify (invoke_closure p (impl r) cb) RxDone) (\<lambda>_. I (Suc j)) (\<lambda>_. I (Suc j)) s"
    if "I j s" for j s
  proof -
    obtain b e where s: "s = (b, e)" by (cases s)
    have b: "b = base r" and e: "J (?k j) e" using that by (simp_all add: s I_def)
    have "wp (deliver_packet (hal_of p (impl r)) (on_rx p) cb)
        (\<lambda>_ (b', e'). b' = base r \<and> J (k + Suc j) e') (\<lambda>_ (b', e'). b' = base r \<and> J (k + Suc j) e')
        (base r, e)" if "f \<noteq> None"
      using r e that user
      by (intro linux.wp_deliver_packet [where P = "J (k + j)"])
         (auto simp: radio_ok_def dest!: advances_does intro: frame mono)
    then show ?thesis
      using r e by (cases f; cases "the f")
        (simp_all add: s b I_def wp_call_rxDone [of _ f] radio_ok_def invoke_closure_def)
  qed
  have "wp (ProcessIrqs (hal_of p (impl r)) (invoke_closure p (impl r) cb)) (\<lambda>_. I 1) (\<lambda>_. I 1) (base r, s)"
    by (rule linux.wp_ProcessIrqs [where I = I, OF _ _ hook quiet rx])
       (use r in \<open>auto simp: I_def radio_ok_def dest!: advances_does intro: frame [OF J(2)] mono\<close>)
  then show ?thesis
    by (rule wp_mono) (auto simp: I_def)
qed

lemma wp_poll:
  assumes ok: "node_ok n" and J: "poll_family p (rx_callback n) J" "J 0 s"
  shows "wp (poll p) (\<lambda>_ (n', s'). n' = n \<and> J 1 s') (\<lambda>_ (n', s'). n' = n \<and> J 1 s') (n, s)"
proof -
  have mono: "J j s" if "J i s" "i \<le> j" for i j s
    using J(1) that unfolding poll_family_def by blast
  have rx: "wp (on_rx_radio (\<lambda>i. ProcessIrqs (hal_of p i) (invoke_closure p i (rx_callback n))))
      (\<lambda>_ (n', s'). n' = n \<and> J 1 s') (\<lambda>_ (n', s'). n' = n \<and> J 1 s') (n, s)"
  proof (cases "rx_radio n")
    case None
    then show ?thesis using mono [OF J(2), of 1] by (simp add: wp)
  next
    case (Some r)
    then have "radio_ok (Some DeliverPacket) r" and same: "n\<lparr>rx_radio := Some r\<rparr> = n"
      using ok by (auto simp: node_ok_def intro: LoRaNode.equality)
    from wp_radio_irqs [OF this(1) J] Some same show ?thesis
      by (auto simp: wp elim!: wp_mono)
  qed
  have tx: "wp (on_tx_radio (\<lambda>i. ProcessIrqs (hal_of p i) (invoke_closure p i (rx_callback n))))
      (\<lambda>_ (n', s'). n' = n \<and> J 1 s') (\<lambda>_ (n', s'). n' = n \<and> J 1 s') (n, s)" if "J 1 s" for s
  proof (cases "tx_radio n")
    case None
    then show ?thesis using that by (auto simp: wp)
  next
    case (Some r)
    then have "radio_ok None r" and same: "n\<lparr>tx_radio := Some r\<rparr> = n"
      using ok by (auto simp: node_ok_def intro: LoRaNode.equality)
    from wp_radio_irqs [OF this(1) J(1) that] Some same show ?thesis
      by (auto simp: wp elim!: wp_mono)
  qed
  show ?thesis
    unfolding poll_def wp_bind wp_node_get wp_seq_Cons wp_seq_Nil
    by (rule wp_mono [OF rx]) (auto intro: wp_mono [OF tx])
qed

section \<open>Progress\<close>

lemma twp_on_throw: "twp m Q s \<Longrightarrow> twp (on_throw m c) Q s"
  by (auto simp: twp_def on_throw_def)

lemma twp_node [twp]:
  "twp (node_get f) Q (n, s) = Q (f n) (n, s)" "twp (node_set g) Q' (n, s) = Q' () (g n, s)"
  by (simp_all add: node_get_def node_set_def twp)

lemma twp_on_radio [twp]:
  "twp (on_rx_radio m) Q (n, s) = (case rx_radio n of None \<Rightarrow> Q () (n, s) | Some r \<Rightarrow>
     twp (m (impl r)) (\<lambda>_ (b, s'). Q () (n\<lparr>rx_radio := Some (r\<lparr>base := b\<rparr>)\<rparr>, s')) (base r, s))"
  "twp (on_tx_radio m) Q (n, s) = (case tx_radio n of None \<Rightarrow> Q () (n, s) | Some r \<Rightarrow>
     twp (m (impl r)) (\<lambda>_ (b, s'). Q () (n\<lparr>tx_radio := Some (r\<lparr>base := b\<rparr>)\<rparr>, s')) (base r, s))"
  by (auto simp: twp_def on_rx_radio_def on_tx_radio_def split: option.splits outcome.splits prod.splits)

context hal_steady
begin

lemma lock_free_api: "lock_free t ok (run_api h (\<lambda>_ _. retM ()) call)"
  by (rule lock_free_run_api) (simp add: lock_free_neutral lock_neutral_ret)

lemma lock_free_configure_radio: "lock_free t ok (configure_radio h c)"
proof -
  note api = lock_free_api [of A_Init] lock_free_api [of "A_SetRegulatorMode m" for m]
    lock_free_api [of "A_SetModulationParams p" for p] lock_free_api [of "A_SetPacketParams p" for p]
    lock_free_api [of "A_SetRfFrequency f" for f] lock_free_api [of "A_SetTxParams p r" for p r]
    lock_free_api [of "A_SetBufferBaseAddresses p q" for p q] lock_free_api [of "A_SetAutoFs f" for f]
    lock_free_api [of "A_SetLongPreamble f" for f] lock_free_api [of A_EnableManualGain]
    lock_free_api [of A_DisableManualGain] lock_free_api [of "A_SetManualGainValue g" for g]
    lock_free_api [of "A_SetLNAGainSetting l" for l] lock_free_api [of "A_SetPacketType q" for q]
    lock_free_api [of "A_SetStandby q" for q]
  show ?thesis
    unfolding configure_radio_def configure_gain_def
    by (intro lock_free_seq_Cons lock_free_seq_Nil lock_free_if api [simplified run_api.simps])
qed

lemma lock_free_deliver_packet:
  assumes "\<And>c pkt e. ok e \<Longrightarrow> keeps t ok (user c pkt) e"
  shows "lock_free t ok (deliver_packet h user cb)"
proof -
  have user: "lock_neutral t ok (virt (user c pkt))" for c pkt
    by (rule lock_neutral_on_bus, rule on_bus_virt) (rule assms)
  show ?thesis
    unfolding deliver_packet_def GetPacketStatus_def Let_def
    by (intro lock_free_neutral lock_intro user)
qed

end

text \<open>Calls of a radio on a kernel on which everything works.\<close>

lemma twp_completes:
  assumes "good_kernel os okw budget" "okw (world s)" "completes os i m (b, s)" "wp m Q (\<lambda>_ _. True) (b, s)"
    and "\<And>v b' s'. Q v (b', s') \<Longrightarrow> idle b' \<Longrightarrow> okw (world s') \<Longrightarrow> R v (b', s')"
  shows "twp m R (b, s)"
proof -
  have "twp m (\<lambda>_ (b', s'). idle b' \<and> okw (world s')) (b, s)"
    using assms(2,3) good_kernel_ok [OF assms(1)] unfolding completes_def by fastforce
  from twp_wp [OF this assms(4)] show ?thesis
    by (rule twp_mono) (auto intro: assms(5))
qed

lemma twp_configure_local:
  assumes "good_kernel os okw budget" "okw (world s)"
    and "\<And>s'. okw (world s') \<Longrightarrow> Q (configured c SX128x_new) s'"
  shows "twp (with_local SX128x_new (configure_radio (linux_hal os g i) c)) Q s"
  unfolding twp_with_local
proof (rule twp_completes [OF assms(1,2)])
  show "completes os i (configure_radio (linux_hal os g i) c) (SX128x_new, s)"
    by (rule completesI [of _ os g i]) (simp_all add: hal_steady.lock_free_configure_radio)
  show "wp (configure_radio (linux_hal os g i) c) (\<lambda>_ (b, s'). b = configured c SX128x_new) (\<lambda>_ _. True) (SX128x_new, s)"
    by (rule linux.wp_configure_radio) simp_all
qed (auto intro: assms(3))

lemma twp_make_radios:
  assumes "good_kernel (kernel p) okw budget" "okw (world s)"
    and "valid_config (hw (node_rx c))" "valid_config (hw (node_tx c))"
    and "\<And>rx tx s'. made c rx tx \<Longrightarrow> okw (world s') \<Longrightarrow> app s' = app s \<Longrightarrow>
           live s' = live s + held (impl rx) + held (impl tx) \<Longrightarrow> Q (rx, tx) s'"
  shows "twp (make_radios p c) Q s"
proof -
  have total: "twp (make_radios p c) (\<lambda>_ s'. okw (world s')) s"
    unfolding make_radios_def twp_bind
    by (intro twp_Impl_new [OF assms(1)] twp_on_throw twp_configure_local [OF assms(1)] assms(2-4)
        | simp only: twp_bind twp_basic)+
  have spec: "wp (make_radios p c) (\<lambda>(rx, tx) s'. made c rx tx \<and> app s' = app s \<and>
      live s' = live s + held (impl rx) + held (impl tx)) (\<lambda>_ _. True) s"
    by (rule wp_make_radios) simp_all
  show ?thesis
    by (rule twp_mono [OF twp_wp [OF total spec]]) (auto intro: assms(5))
qed

lemma completes_SetDioIrqParams:
  "idle b \<Longrightarrow> completes os i (SetDioIrqParams (linux_hal os g i) m d1 d2 d3) (b, s)"
  using completes_run_api [of b os i g "A_SetDioIrqParams m d1 d2 d3" s] by simp

lemma twp_radio_steps:
  assumes "good_kernel os okw budget" "okw (world s)" "idle b"
  shows "(\<And>s'. okw (world s') \<Longrightarrow> Q () (b, s')) \<Longrightarrow> twp (SetDioIrqParams (linux_hal os g i) m d1 d2 d3) Q (b, s)"
    "(\<And>b' s'. okw (world s') \<Longrightarrow> Q () (b', s')) \<Longrightarrow> twp (SetRx (linux_hal os g i) tm) Q (b, s)"
  subgoal
    by (rule twp_completes [OF assms(1,2) completes_SetDioIrqParams [OF assms(3)],
          where Q = "\<lambda>_ (b', _). b' = b"]) (auto intro!: linux.wp_SetDioIrqParams assms(3))
  subgoal
    by (rule twp_completes [OF assms(1,2) completes_api(2) [OF assms(3)], where Q = "\<lambda>_ _. True"])
       (auto intro!: linux.wp_SetRx assms(3))
  done

lemma twp_start:
  assumes "good_kernel (kernel p) okw budget" "okw (world s)" "node_ok n"
    and "valid_config (hw (node_rx (node_config n)))" "valid_config (hw (node_tx (node_config n)))"
  shows "twp (start p) (\<lambda>ok (n', s'). ok \<and> okw (world s')) (n, s)"
proof (cases "started n")
  case True
  with assms(2) show ?thesis by (simp add: start_def twp)
next
  case False
  have idle: "idle (base rx)" "idle (base tx)" if "made c rx tx" for c rx tx
    using made_ok [OF that] by (simp_all add: radio_ok_def)
  have "twp (start_body p) (\<lambda>_ (n', s'). okw (world s')) (n, s)"
    unfolding start_body_def
    by (auto simp: twp idle intro!: twp_make_radios [OF assms(1)] twp_radio_steps [OF assms(1)] assms(2,4,5))
  then have "twp (bindM (start_body p) (\<lambda>_. retM True)) (\<lambda>ok (n', s'). ok \<and> okw (world s')) (n, s)"
    unfolding twp_bind by (rule twp_mono) (auto simp: twp)
  with False show ?thesis
    unfolding start_def by (subst twp_bind) (simp add: twp_node twp_if twp_try)
qed

lemma twp_good_when:
  assumes "good_kernel os okw budget" "okw (world s)" and "\<And>s'. okw (world s') \<Longrightarrow> Q () s'"
  shows "twp (whenM b (osdo os c)) Q s"
  using assms(2,3) by (auto simp: twp intro!: twp_good_oscall(2) [OF assms(1)])

lemma twp_destroy_radio:
  assumes "good_kernel os okw budget" "okw (world s)" and "\<And>s'. okw (world s') \<Longrightarrow> Q () s'"
  shows "twp (destroy_radio os r) Q s"
proof (cases r)
  case None
  with assms show ?thesis by (simp add: destroy_radio_def twp)
next
  case (Some x)
  have "twp (Impl_destroy os (impl x)) Q s"
    unfolding Impl_destroy_def release_request_def twp_seq_Cons twp_seq_Nil
    by (intro twp_good_when [OF assms(1)] assms(2,3))
  with Some show ?thesis by (simp add: destroy_radio_def)
qed

lemma twp_stop:
  assumes "good_kernel (kernel p) okw budget" "okw (world s)"
  shows "twp (stop p) (\<lambda>_ (n', s'). okw (world s')) (n, s)"
  unfolding stop_def by (auto simp: twp intro!: twp_destroy_radio [OF assms(1)] assms(2))

lemma twp_send:
  assumes "good_kernel (kernel p) okw budget" "okw (world s)" "node_ok n"
  shows "twp (send p payload) (\<lambda>_ (n', s'). okw (world s')) (n, s)"
proof (cases "started n \<and> payload \<noteq> [] \<and> length payload \<le> 255")
  case True
  then obtain r where r: "tx_radio n = Some r" and ok: "idle (base r)"
    using assms(3) by (auto simp: node_ok_def radio_ok_def split: option.splits)
  have "twp (SendPayload (hal_of p (impl r)) payload tm 0) (\<lambda>_ (b, s'). okw (world s')) (base r, s)" for tm
    by (rule twp_completes [OF assms(1,2) completes_api(3) [OF ok], where Q = "\<lambda>_ _. True"])
       (auto intro!: linux.wp_SendPayload ok)
  with True r show ?thesis
    unfolding send_def by (simp add: twp case_prod_unfold)
next
  case False
  with assms(2,3) show ?thesis
    unfolding send_def by (auto simp: twp node_ok_def split: option.splits)
qed

text \<open>A receive callback that returns, on a working kernel.\<close>

definition callback_returns :: "('c, 'w, 'x) platform \<Rightarrow> ('w \<Rightarrow> bool) \<Rightarrow> bool" where
  "callback_returns p okw \<longleftrightarrow> (\<forall>c pkt s. okw (world s) \<longrightarrow> twp (on_rx p c pkt) (\<lambda>_ s'. okw (world s')) s)"

lemma completes_ProcessIrqs:
  assumes "idle b" "callback_returns p okw" "kernel_ok (kernel p) i okw budget" "okw (world s)"
  shows "twp (ProcessIrqs (hal_of p i) (invoke_closure p i cb)) (\<lambda>_ (b', s'). idle b' \<and> okw (world s')) (b, s)"
proof -
  have steady: "hal_steady (hal_of p i) True (\<lambda>s. okw (world s))"
    by (rule hal_live.hal_steady_live [OF linux_live [OF assms(3)]])
  have "lock_free True (\<lambda>s. okw (world s)) (invoke_closure p i cb c a)" for c a
    using assms(2) hal_steady.lock_free_deliver_packet [OF steady, of "on_rx p" cb]
    by (cases c) (simp add: invoke_closure_def callback_returns_def keeps_def)
  then have "lock_free True (\<lambda>s. okw (world s)) (ProcessIrqs (hal_of p i) (invoke_closure p i cb))"
    by (rule hal_steady.lock_free_ProcessIrqs [OF steady])
  then have "twp (ProcessIrqs (hal_of p i) (invoke_closure p i cb)) (\<lambda>_. locks False (\<lambda>s. okw (world s))) (b, s)"
    using assms(1,4) by (simp add: lock_free_def locks_idle keeps_def)
  then show ?thesis
    by (rule twp_mono) (auto simp: locks_idle)
qed

lemma twp_poll:
  assumes "good_kernel (kernel p) okw budget" "okw (world s)" "node_ok n" "callback_returns p okw"
  shows "twp (poll p) (\<lambda>_ (n', s'). okw (world s')) (n, s)"
proof -
  have idle: "rx_radio n = Some r \<Longrightarrow> idle (base r)" "tx_radio n = Some r \<Longrightarrow> idle (base r)" for r
    using assms(3) by (auto simp: node_ok_def radio_ok_def)
  have irqs: "twp (ProcessIrqs (hal_of p i) (invoke_closure p i cb)) Q (b, s)"
    if "idle b" "okw (world s)" "\<And>b' s'. okw (world s') \<Longrightarrow> Q () (b', s')" for i cb b s Q
    by (rule twp_mono [OF completes_ProcessIrqs [OF that(1) assms(4) good_kernel_ok [OF assms(1)] that(2)]])
       (auto intro: that(3))
  show ?thesis
    unfolding poll_def using assms(2)
    by (auto simp: twp idle split: option.split intro!: irqs)
qed

section \<open>Properties of the node\<close>

text \<open>A call of the node completes: on a kernel on which everything works, and with a receive callback that
  returns, it returns.\<close>

definition node_completes :: "('c, 'w, 'x) platform \<Rightarrow> ('c, 'w, 'x, 'a) node_op \<Rightarrow> 'c LoRaNode \<times> ('w, 'x) sys \<Rightarrow> bool" where
  "node_completes p m ns \<longleftrightarrow> (\<forall>okw budget. good_kernel (kernel p) okw budget \<longrightarrow> callback_returns p okw \<longrightarrow>
     okw (world (snd ns)) \<longrightarrow> twp m (\<lambda>_ (n', s'). okw (world s')) ns)"

text \<open>A bench with a receive callback that keeps the packets, for evaluation.\<close>

definition record_packet :: "'c \<Rightarrow> LoRaNodeRxPacket \<Rightarrow> (('w, LoRaNodeRxPacket list) sys, unit) M" where
  "record_packet c pkt = modifyM (\<lambda>s. s\<lparr>app := app s @ [pkt]\<rparr>)"

definition bench_platform :: "(bytes \<Rightarrow> rx_buffer) \<Rightarrow> (unit, bench, LoRaNodeRxPacket list) platform" where
  "bench_platform reply = \<lparr>kernel = bench_os reply, garbage = (\<lambda>_. 0), on_rx = record_packet\<rparr>"

lemma bench_platform_completes:
  assumes "node_completes (bench_platform reply) m (n, bench_start x)" "wp m Q E (n, bench_start x)"
  shows "twp m Q (n, bench_start x)"
proof -
  have "twp m (\<lambda>_ (n', s'). 0 < bench_next (world s')) (n, bench_start x)"
    using assms(1) bench_good [of reply] unfolding node_completes_def
    by (fastforce simp: bench_platform_def callback_returns_def record_packet_def twp bench_start_def)
  from twp_wp [OF this assms(2)] show ?thesis
    by (rule twp_mono) simp
qed

text \<open>
  C21: Starting is all or nothing: \<^verbatim>\<open>start\<close> never lets an exception out; it returns true with two configured
  radios of which the receiver listens, holding exactly their handles, or false with no radio at all. A node that
  is already started is left alone.
\<close>

theorem start_all_or_nothing:
  assumes "node_ok n"
  shows "wp (start p) (\<lambda>ok (n', s'). node_ok n' \<and> started n' = ok \<and> node_config n' = node_config n \<and>
           rx_callback n' = rx_callback n \<and> app s' = app s \<and>
           (started n \<longrightarrow> n' = n \<and> s' = s) \<and>
           (\<not> started n \<and> ok \<longrightarrow> listening (node_config n) n' \<and>
              live s' = live s + radio_held (rx_radio n') + radio_held (tx_radio n')) \<and>
           (\<not> ok \<longrightarrow> (\<exists>leak. live s' = live s + held leak)))
         (\<lambda>_ _. False) (n, s)"
  by (rule wp_start [OF assms])

theorem start_all_or_nothing_witness:
  "node_ok (LoRaNode_new yaml_config :: unit LoRaNode) \<and>
   wp (start (bench_platform (\<lambda>_ _. 0))) (\<lambda>ok (n', s'). started n' = ok) (\<lambda>_ _. False)
     (LoRaNode_new yaml_config, bench_start [])"
  by (intro conjI node_ok_new wp_mono [OF start_all_or_nothing [OF node_ok_new]]) auto

text \<open>
  With valid hardware configurations and on a kernel on which everything works, \<^verbatim>\<open>start\<close> succeeds: it returns
  true and the node listens.
\<close>

theorem start_listens:
  assumes "good_kernel (kernel p) okw budget" "okw (world s)" "node_ok n" "\<not> started n"
    and "valid_config (hw (node_rx (node_config n)))" "valid_config (hw (node_tx (node_config n)))"
  shows "\<exists>n' s'. start p (n, s) = Some (Ret True (n', s')) \<and> listening (node_config n) n' \<and> started n' \<and>
    node_ok n' \<and> okw (world s') \<and> live s' = live s + radio_held (rx_radio n') + radio_held (tx_radio n')"
  using twp_wp [OF twp_start [OF assms(1,2,3,5,6)] wp_start [OF assms(3)]] assms(4)
  by (auto simp: twp_def)

theorem start_listens_witness:
  "good_kernel (bench_os (\<lambda>_ _. 0)) (\<lambda>w. 0 < bench_next w) bench_busy \<and>
   valid_config (hw (node_rx yaml_config)) \<and>
   (\<exists>n' s'. start (bench_platform (\<lambda>_ _. 0)) (LoRaNode_new yaml_config, bench_start [])
      = Some (Ret True (n', s')) \<and> listening yaml_config n')"
proof -
  have "good_kernel (kernel (bench_platform (\<lambda>_ _. 0))) (\<lambda>w. 0 < bench_next w) bench_busy"
    by (simp add: bench_platform_def bench_good)
  from start_listens [OF this, of "bench_start []" "LoRaNode_new yaml_config"] show ?thesis
    using bench_good [of "\<lambda>_ _. 0"]
    by (auto simp: bench_start_def node_ok_new LoRaNode_new_def shipped_valid node_ok_def)
qed

text \<open>
  C22: Configuring a radio resets it and then sends exactly the frames of \<open>config_frames\<close>, in that order: the values
  of the configuration reach the radio unchanged, and the registers that are modified keep the bits the mask
  leaves alone.
\<close>

theorem configure_on_the_wire:
  assumes "idle b"
  shows "wp (configure_radio (linux_hal os g i) c)
      (\<lambda>_ (b', s'). b' = configured c b \<and> (\<exists>v w x y.
         does ([reset_level i 0, reset_level i 1] @ map (spi_message i) (config_frames c v w x y)) s s'))
      (\<lambda>_ (b', s'). idle b' \<and> app s' = app s \<and> live s' = live s) (b, s) \<and>
    completes os i (configure_radio (linux_hal os g i) c) (b, s)"
proof
  have trace: "[Did (reset_level i 0), Did (reset_level i 1)] @ map (\<lambda>f. Did (spi_message i f)) fs =
      map Did ([reset_level i 0, reset_level i 1] @ map (spi_message i) fs)" for fs
    by simp
  show "wp (configure_radio (linux_hal os g i) c)
      (\<lambda>_ (b', s'). b' = configured c b \<and> (\<exists>v w x y.
         does ([reset_level i 0, reset_level i 1] @ map (spi_message i) (config_frames c v w x y)) s s'))
      (\<lambda>_ (b', s'). idle b' \<and> app s' = app s \<and> live s' = live s) (b, s)"
    using assms by (rule linux.wp_configure_radio)
      (auto simp only: trace advances_seen case_prod_conv dest: advances_does)
  show "completes os i (configure_radio (linux_hal os g i) c) (b, s)"
    by (rule completesI [OF assms, of os g i]) (rule hal_steady.lock_free_configure_radio)
qed

theorem configure_on_the_wire_witness:
  "idle (SX128x_new :: unit SX128x) \<and>
   (\<exists>s'. configure_radio (linux_hal (bench_os (\<lambda>_ _. 0)) (\<lambda>_. 0) bench_impl) yaml_radio
        (SX128x_new :: unit SX128x, bench_start ()) = Some (Ret () (configured yaml_radio SX128x_new, s')) \<and>
      take 4 (outputs s') = [C_request_set_value 6 0 LINE_VALUE_INACTIVE, C_request_set_value 6 0 LINE_VALUE_ACTIVE,
        C_spi_message 1 [0xC0, 0] 1000000 8, C_spi_message 1 [0x80, 0] 1000000 8])"
proof -
  note conf = configure_on_the_wire [OF idle_new, where os = "bench_os (\<lambda>_ _. 0)" and g = "\<lambda>_. 0"
      and i = bench_impl and c = yaml_radio and s = "bench_start ()"]
  from completes_bench [OF conf [THEN conjunct2] conf [THEN conjunct1]] show ?thesis
    by (auto simp: twp_def does_def outputs_def bench_start_def config_frames_def command_frame_def spi_message_def
        reset_level_def bench_impl_def Impl_init_def LinuxSx1280RadioConfig_default_def LinuxSpiConfig_default_def
        LinuxSx1280PinConfig_default_def)
qed

text \<open>
  \<^verbatim>\<open>send\<close> accepts exactly the payloads of at most 255 bytes of a started node. A non-empty one is written to the
  transmitting radio's buffer unchanged and transmission is started; otherwise nothing is sent and the node is as
  before. If a radio call throws, the node is as before and holds what it held.
\<close>

theorem send_limits:
  assumes "node_ok n"
  shows "wp (send p payload)
      (\<lambda>ok (n', s'). node_ok n' \<and> ok = (started n \<and> length payload \<le> 255) \<and>
         (if ok \<and> payload \<noteq> [] then \<exists>r. tx_radio n = Some r \<and>
            does (spi_message (impl r) (write_buffer_frame 0 payload) #
               set_tx_trace (spi_message (impl r)) (hook_calls (impl r)) PACKET_TYPE_LORA
                 (tx_timeout (cfg_timeouts (node_radio (node_config n))))) s s'
          else n' = n \<and> s' = s))
      (\<lambda>_ (n', s'). n' = n \<and> app s' = app s \<and> live s' = live s) (n, s) \<and>
    node_completes p (send p payload) (n, s)"
proof
  have ok: "node_ok (n\<lparr>tx_radio := Some (r\<lparr>base := (base r)\<lparr>OperatingMode := m\<rparr>\<rparr>)\<rparr>)"
    if "tx_radio n = Some r" "started n" for r m
    using assms that by (simp add: node_ok_def radio_ok_def split: option.splits)
  show "wp (send p payload)
      (\<lambda>ok (n', s'). node_ok n' \<and> ok = (started n \<and> length payload \<le> 255) \<and>
         (if ok \<and> payload \<noteq> [] then \<exists>r. tx_radio n = Some r \<and>
            does (spi_message (impl r) (write_buffer_frame 0 payload) #
               set_tx_trace (spi_message (impl r)) (hook_calls (impl r)) PACKET_TYPE_LORA
                 (tx_timeout (cfg_timeouts (node_radio (node_config n))))) s s'
          else n' = n \<and> s' = s))
      (\<lambda>_ (n', s'). n' = n \<and> app s' = app s \<and> live s' = live s) (n, s)"
    using assms by (intro wp_send) (auto simp: ok)
  show "node_completes p (send p payload) (n, s)"
    using assms twp_send by (fastforce simp: node_completes_def)
qed

theorem send_limits_witness:
  "node_ok (LoRaNode_new yaml_config :: unit LoRaNode) \<and>
   send (bench_platform (\<lambda>_ _. 0)) [1] (LoRaNode_new yaml_config, bench_start []) =
     Some (Ret False (LoRaNode_new yaml_config, bench_start []))"
proof -
  note sent = send_limits [OF node_ok_new, where p = "bench_platform (\<lambda>_ _. 0)" and payload = "[1]"
      and c1 = yaml_config and s = "bench_start []"]
  from bench_platform_completes [OF sent [THEN conjunct2] sent [THEN conjunct1]] show ?thesis
    by (auto simp: twp_def node_ok_new LoRaNode_new_def)
qed

text \<open>What a poll of a node with callback \<open>cb\<close> has done to a program that keeps the packets: at most \<open>j\<close> packets of
  at most 255 bytes arrived, none without a callback, and no handle was taken or given back.\<close>

definition heard :: "'c option \<Rightarrow> ('w, LoRaNodeRxPacket list) sys \<Rightarrow> nat \<Rightarrow> ('w, LoRaNodeRxPacket list) sys \<Rightarrow> bool" where
  "heard cb s0 j s \<longleftrightarrow> live s = live s0 \<and> (\<exists>pkts. app s = app s0 @ pkts \<and>
     length pkts \<le> (if cb = None then 0 else j) \<and> (\<forall>pkt \<in> set pkts. length (pkt_payload pkt) \<le> 255))"

lemma heard_refl: "heard cb s j s"
  by (simp add: heard_def)

lemma heard_mono: "heard cb s0 j s \<Longrightarrow> j \<le> k \<Longrightarrow> heard cb s0 k s"
  by (cases cb) (auto simp: heard_def)

lemma heard_frame: "heard cb s0 j s \<Longrightarrow> app s' = app s \<Longrightarrow> live s' = live s \<Longrightarrow> heard cb s0 j s'"
  by (simp add: heard_def)

lemma heard_record:
  assumes "heard (Some c) s0 j s" "length (pkt_payload pkt) \<le> 255"
  shows "wp (record_packet c' pkt) (\<lambda>_. heard (Some c) s0 (Suc j)) (\<lambda>_. heard (Some c) s0 (Suc j)) s"
proof -
  obtain pkts where pkts: "app s = app s0 @ pkts" "length pkts \<le> j" "\<forall>pkt \<in> set pkts. length (pkt_payload pkt) \<le> 255"
    and live: "live s = live s0"
    using assms(1) by (auto simp: heard_def)
  have "live (s\<lparr>app := x\<rparr>) = live s0" for x
    using live by (simp add: live_def)
  then show ?thesis
    using pkts assms(2) unfolding record_packet_def wp_modify heard_def
    by (intro conjI exI [of _ "pkts @ [pkt]"]) auto
qed

lemma poll_family_heard: "on_rx p = record_packet \<Longrightarrow> poll_family p cb (heard cb s0)"
  unfolding poll_family_def
proof (intro conjI allI impI)
  fix j k s s' c pkt
  show "heard cb s0 j s \<Longrightarrow> app s' = app s \<Longrightarrow> live s' = live s \<Longrightarrow> heard cb s0 j s'"
    by (rule heard_frame)
  show "heard cb s0 j s \<Longrightarrow> j \<le> k \<Longrightarrow> heard cb s0 k s"
    by (rule heard_mono)
  show "on_rx p = record_packet \<Longrightarrow> cb = Some c \<Longrightarrow> length (pkt_payload pkt) \<le> 255 \<Longrightarrow> heard cb s0 j s \<Longrightarrow>
      wp (on_rx p c pkt) (\<lambda>_. heard cb s0 (Suc j)) (\<lambda>_. heard cb s0 (Suc j)) s"
    by (simp add: heard_record)
qed

text \<open>
  One \<^verbatim>\<open>poll\<close> delivers at most one packet, of at most 255 bytes, to the receive callback, and none when no callback
  is installed; whatever the radios report, the node's state and its handles are unchanged, also when a call throws.
\<close>

theorem poll_at_most_one:
  assumes "node_ok n" and "on_rx p = record_packet"
  shows "wp (poll p) (\<lambda>_ (n', s'). n' = n \<and> heard (rx_callback n) s 1 s')
      (\<lambda>_ (n', s'). n' = n \<and> heard (rx_callback n) s 1 s') (n, s) \<and>
    node_completes p (poll p) (n, s)"
proof
  show "wp (poll p) (\<lambda>_ (n', s'). n' = n \<and> heard (rx_callback n) s 1 s')
      (\<lambda>_ (n', s'). n' = n \<and> heard (rx_callback n) s 1 s') (n, s)"
    by (rule wp_poll [OF assms(1) poll_family_heard [OF assms(2)] heard_refl])
  show "node_completes p (poll p) (n, s)"
    using assms(1) twp_poll by (fastforce simp: node_completes_def)
qed

theorem poll_at_most_one_witness:
  "node_ok (LoRaNode_new yaml_config :: unit LoRaNode) \<and>
   poll (bench_platform (\<lambda>_ _. 0)) (LoRaNode_new yaml_config, bench_start []) \<noteq> None \<and>
   wp (poll (bench_platform (\<lambda>_ _. 0))) (\<lambda>_ (n', s'). app s' = []) (\<lambda>_ (n', s'). app s' = [])
     (LoRaNode_new yaml_config, bench_start [])"
proof -
  have p: "on_rx (bench_platform (\<lambda>_ _. 0)) = record_packet"
    by (simp add: bench_platform_def)
  note polled = poll_at_most_one [OF node_ok_new p, where s = "bench_start []" and c1 = yaml_config]
  have "poll (bench_platform (\<lambda>_ _. 0)) (LoRaNode_new yaml_config, bench_start []) \<noteq> None"
    using bench_platform_completes [OF polled [THEN conjunct2] polled [THEN conjunct1]] by (auto simp: twp_def)
  moreover have "wp (poll (bench_platform (\<lambda>_ _. 0))) (\<lambda>_ (n', s'). app s' = []) (\<lambda>_ (n', s'). app s' = [])
      (LoRaNode_new yaml_config, bench_start [])"
    by (rule wp_mono [OF polled [THEN conjunct1]]) (auto simp: LoRaNode_new_def bench_start_def heard_def)
  ultimately show ?thesis
    by (simp add: node_ok_new)
qed

text \<open>
  Starting a node and stopping it again gives back every handle: when \<^verbatim>\<open>start\<close> succeeded, the node and its
  resources are exactly as before.
\<close>

theorem restart_balanced:
  assumes "node_ok n" "\<not> started n"
  shows "wp (bindM (start p) (\<lambda>ok. bindM (stop p) (\<lambda>_. retM ok)))
     (\<lambda>ok (n', s'). n' = n \<and> app s' = app s \<and> (ok \<longrightarrow> live s' = live s)) (\<lambda>_ _. False) (n, s) \<and>
   (valid_config (hw (node_rx (node_config n))) \<longrightarrow> valid_config (hw (node_tx (node_config n))) \<longrightarrow>
    node_completes p (bindM (start p) (\<lambda>ok. bindM (stop p) (\<lambda>_. retM ok))) (n, s))"
proof (intro conjI impI)
  have none: "rx_radio n = None" "tx_radio n = None"
    using assms by (simp_all add: node_ok_def)
  have cleared: "n'\<lparr>rx_radio := None, tx_radio := None, started := False\<rparr> = n"
    if "node_config n' = node_config n" "rx_callback n' = rx_callback n" for n' :: "'a LoRaNode"
    using that none assms(2) by (cases n; cases n') simp
  have down: "rx_radio n' = None \<and> tx_radio n' = None" if "node_ok n'" "\<not> started n'" for n' :: "'a LoRaNode"
    using that by (simp add: node_ok_def)
  show "wp (bindM (start p) (\<lambda>ok. bindM (stop p) (\<lambda>_. retM ok)))
     (\<lambda>ok (n', s'). n' = n \<and> app s' = app s \<and> (ok \<longrightarrow> live s' = live s)) (\<lambda>_ _. False) (n, s)"
    unfolding wp_bind wp_ret
    by (rule wp_mono [OF wp_start [OF assms(1)]])
       (use assms(2) cleared down in \<open>auto simp: wp intro!: wp_stop\<close>)
  assume "valid_config (hw (node_rx (node_config n)))" "valid_config (hw (node_tx (node_config n)))"
  then show "node_completes p (bindM (start p) (\<lambda>ok. bindM (stop p) (\<lambda>_. retM ok))) (n, s)"
    unfolding node_completes_def twp_bind
    using assms(1) by (auto simp: twp case_prod_unfold intro!: twp_mono [OF twp_start] twp_mono [OF twp_stop])
qed

theorem restart_balanced_witness:
  "node_ok (LoRaNode_new yaml_config :: unit LoRaNode) \<and>
   (\<exists>ok s'. bindM (start (bench_platform (\<lambda>_ _. 0))) (\<lambda>ok. bindM (stop (bench_platform (\<lambda>_ _. 0))) (\<lambda>_. retM ok))
      (LoRaNode_new yaml_config, bench_start []) = Some (Ret ok (LoRaNode_new yaml_config, s')) \<and>
      (ok \<longrightarrow> live s' = {#}))"
proof -
  have new: "\<not> started (LoRaNode_new yaml_config :: unit LoRaNode)"
    "node_config (LoRaNode_new yaml_config :: unit LoRaNode) = yaml_config"
    by (simp_all add: LoRaNode_new_def)
  note twice = restart_balanced [OF node_ok_new new(1), where p = "bench_platform (\<lambda>_ _. 0)" and s = "bench_start []"]
  have "live (bench_start []) = {#}"
    by (simp add: live_def bench_start_def)
  with bench_platform_completes [OF twice [THEN conjunct2, rule_format] twice [THEN conjunct1]] show ?thesis
    by (auto simp: twp_def node_ok_new new shipped_valid)
qed

end
