(* ===== verification/Fprime_Types.thy ===== *)
theory Fprime_Types
  imports Prelude "HOL-Library.Monad_Syntax"
begin

text \<open>
  The F Prime types that the link shares with the framing stack (\<^verbatim>\<open>lib/fprime/Fw\<close> and \<^verbatim>\<open>config/ComCfg.fpp\<close>): buffers,
  frame contexts, serialization results, and \<^verbatim>\<open>FW_ASSERT\<close>.

  A failed \<^verbatim>\<open>FW_ASSERT\<close> stops the program: a function with assertions returns an option, \<open>None\<close> for a failed one, and
  is written in the option monad. Sizes (\<^verbatim>\<open>FwSizeType\<close>, 64 bits, always the size of an object in memory) are natural
  numbers; every narrower integer keeps its width.
\<close>

section \<open>Buffers\<close>

text \<open>A \<^verbatim>\<open>Fw::Buffer\<close>: address (0 for \<^verbatim>\<open>nullptr\<close>), size, context, and the memory it points to.\<close>

record Fw_Buffer =
  buf_addr :: nat
  buf_size :: nat
  buf_context :: u32
  buf_memory :: bytes

definition Fw_Buffer_empty :: Fw_Buffer where
  "Fw_Buffer_empty = \<lparr>buf_addr = 0, buf_size = 0, buf_context = 0xFFFFFFFF, buf_memory = []\<rparr>"

definition isValid :: "Fw_Buffer \<Rightarrow> bool" where
  "isValid b \<longleftrightarrow> buf_addr b \<noteq> 0 \<and> buf_size b > 0"

text \<open>The bytes a buffer shows to its user.\<close>

definition buf_data :: "Fw_Buffer \<Rightarrow> bytes" where
  "buf_data b = take (buf_size b) (buf_memory b)"

section \<open>Communication\<close>

record FrameContext =
  ctx_comQueueIndex :: nat
  ctx_apid :: u16
  ctx_sequenceCount :: u16
  ctx_vcId :: u8

definition FrameContext_default :: FrameContext where
  "FrameContext_default = \<lparr>ctx_comQueueIndex = 0, ctx_apid = 0x00FF, ctx_sequenceCount = 0, ctx_vcId = 1\<rparr>"

definition SpacecraftId :: u16 where
  "SpacecraftId = 0x0044"

definition TmFrameFixedSize :: nat where
  "TmFrameFixedSize = 1024"

definition SPP_IDLE_PACKET :: u16 where
  "SPP_IDLE_PACKET = 0x07FF"

section \<open>Assertions and serialization results\<close>

definition FW_ASSERT :: "bool \<Rightarrow> unit option" where
  "FW_ASSERT b = (if b then Some () else None)"

lemma FW_ASSERT_simps [simp]:
  "FW_ASSERT True = Some ()" "FW_ASSERT False = None"
  "(FW_ASSERT b = Some u) = b" "(FW_ASSERT b = None) = (\<not> b)"
  by (simp_all add: FW_ASSERT_def)

lemma bind_FW_ASSERT [simp]:
  "(Option.bind (FW_ASSERT b) f = Some x) = (b \<and> f () = Some x)"
  "b \<Longrightarrow> Option.bind (FW_ASSERT b) f = f ()"
  by (simp_all add: FW_ASSERT_def)

datatype SerializeStatus =
    FW_SERIALIZE_OK
  | FW_SERIALIZE_FORMAT_ERROR
  | FW_SERIALIZE_NO_ROOM_LEFT
  | FW_DESERIALIZE_BUFFER_EMPTY
  | FW_DESERIALIZE_FORMAT_ERROR
  | FW_DESERIALIZE_SIZE_MISMATCH
  | FW_DESERIALIZE_TYPE_MISMATCH
  | FW_DESERIALIZE_IMMUTABLE

end
