(* ===== verification/LoRa_Adapter.thy ===== *)
theory LoRa_Adapter
  imports LoRa_Node Fprime_Types
begin

text \<open>
  The communication adapter (\<^verbatim>\<open>Sx1280Radio/ComAdapter/LoRaRadioAdapter\<close>): the F Prime component that
  connects the framing stack with the node. Its handlers are \<^verbatim>\<open>dataIn\<close> (a frame to transmit),
  \<^verbatim>\<open>dataReturnIn\<close> (a receive buffer comes back) and \<^verbatim>\<open>run\<close> (the scheduler tick that polls the node and
  forwards what was received).

  The components behind the output ports are a parameter: \<open>ports c w\<close> is what the call \<open>c\<close> does to the
  world, with the buffer that \<^verbatim>\<open>allocate\<close> returns. Every port call is logged with its answer. The receive
  queue and this log are the part of the program's state that the node's receive callback can reach, so
  they are the \<open>app\<close> of the radio's system state. The function-local static node of
  \<^verbatim>\<open>ensureNodeStarted\<close> is the member \<open>m_node\<close>: \<open>None\<close> before its first construction.
\<close>

section \<open>Ports\<close>

datatype port_call =
    Allocate nat
  | Deallocate Fw_Buffer
  | DataOut Fw_Buffer FrameContext
  | DataReturnOut nat Fw_Buffer FrameContext
  | ComStatusOut nat bool

record adapter_app =
  m_rxQueue :: "LoRaNodeRxPacket list"
  port_log :: "(port_call \<times> Fw_Buffer) list"

type_synonym 'w asys = "('w, adapter_app) sys"
type_synonym 'w ports = "port_call \<Rightarrow> 'w \<Rightarrow> Fw_Buffer \<times> 'w"

definition port_answer :: "'w ports \<Rightarrow> port_call \<Rightarrow> 'w asys \<Rightarrow> Fw_Buffer \<times> 'w asys" where
  "port_answer ports c s = (case ports c (world s) of (b, w) \<Rightarrow>
     (b, s\<lparr>world := w, app := (app s)\<lparr>port_log := port_log (app s) @ [(c, b)]\<rparr>\<rparr>))"

definition port_out :: "'w ports \<Rightarrow> port_call \<Rightarrow> 'w asys \<Rightarrow> 'w asys" where
  "port_out ports c s = snd (port_answer ports c s)"

section \<open>The component\<close>

datatype adapter_callback = EnqueuePacket

definition enqueue :: "adapter_callback \<Rightarrow> LoRaNodeRxPacket \<Rightarrow> ('w asys, unit) M" where
  "enqueue c pkt = modifyM (\<lambda>s. s\<lparr>app := (app s)\<lparr>m_rxQueue := m_rxQueue (app s) @ [pkt]\<rparr>\<rparr>)"

record LoRaRadioAdapter =
  m_nodeConfig :: NodeConfig
  m_node :: "adapter_callback LoRaNode option"
  m_started :: bool
  m_initialStatusSent :: bool

definition LoRaRadioAdapter_new :: LoRaRadioAdapter where
  "LoRaRadioAdapter_new = \<lparr>m_nodeConfig = NodeConfig_default, m_node = None, m_started = False,
     m_initialStatusSent = False\<rparr>"

text \<open>What the adapter runs on.\<close>

record 'w board =
  board_kernel :: "'w os"
  board_garbage :: rx_buffer
  board_files :: "'w \<Rightarrow> string \<Rightarrow> string option"
  board_ports :: "'w ports"

definition node_platform :: "'w board \<Rightarrow> (adapter_callback, 'w, adapter_app) platform" where
  "node_platform bd = \<lparr>kernel = board_kernel bd, garbage = board_garbage bd, on_rx = enqueue\<rparr>"

type_synonym ('w, 'a) adapter_op = "(LoRaRadioAdapter \<times> 'w asys, 'a) M"

definition ad_get :: "(LoRaRadioAdapter \<Rightarrow> 'a) \<Rightarrow> ('w, 'a) adapter_op" where
  "ad_get f = getsM (\<lambda>(a, s). f a)"

definition ad_set :: "(LoRaRadioAdapter \<Rightarrow> LoRaRadioAdapter) \<Rightarrow> ('w, unit) adapter_op" where
  "ad_set f = modifyM (\<lambda>(a, s). (f a, s))"

definition ad_port :: "'w board \<Rightarrow> port_call \<Rightarrow> ('w, unit) adapter_op" where
  "ad_port bd c = modifyM (\<lambda>(a, s). (a, port_out (board_ports bd) c s))"

text \<open>A method of the node; \<open>None\<close> is returned where the pointer is null.\<close>

definition on_node :: "(adapter_callback, 'w, adapter_app, 'a) node_op \<Rightarrow> ('w, 'a option) adapter_op" where
  "on_node m = (\<lambda>(a, s). case m_node a of
       None \<Rightarrow> Some (Ret None (a, s))
     | Some n \<Rightarrow> (case m (n, s) of
           None \<Rightarrow> None
         | Some (Ret v (n', s')) \<Rightarrow> Some (Ret (Some v) (a\<lparr>m_node := Some n'\<rparr>, s'))
         | Some (Throw e (n', s')) \<Rightarrow> Some (Throw e (a\<lparr>m_node := Some n'\<rparr>, s'))
         | Some Deadlock \<Rightarrow> Some Deadlock))"

definition kDefaultYamlPath :: string where
  "kDefaultYamlPath = ''Sx1280Radio/Config/sx1280.yaml''"

text \<open>\<^verbatim>\<open>static LoRaNode node(m_nodeConfig); m_node = &node;\<close>: constructed with the configuration of the
  first call that gets here.\<close>

definition construct_static_node :: "LoRaRadioAdapter \<Rightarrow> LoRaRadioAdapter" where
  "construct_static_node a = (case m_node a of
       None \<Rightarrow> a\<lparr>m_node := Some (LoRaNode_new (m_nodeConfig a))\<rparr>
     | Some n \<Rightarrow> a)"

definition load_config :: "'w board \<Rightarrow> ('w, NodeConfigError) adapter_op" where
  "load_config bd = (\<lambda>(a, s).
     case loadNodeConfigFromYaml (board_files bd (world s)) kDefaultYamlPath (m_nodeConfig a) of
       (err, c, message) \<Rightarrow> Some (Ret err (a\<lparr>m_nodeConfig := c\<rparr>, s)))"

definition ensureNodeStarted :: "'w board \<Rightarrow> ('w, bool) adapter_op" where
  "ensureNodeStarted bd =
     bindM (ad_get m_started) (\<lambda>st.
     if st then retM True
     else bindM (load_config bd) (\<lambda>err.
       if err \<noteq> ErrNone then retM False
       else bindM (ad_set construct_static_node) (\<lambda>_.
         bindM (on_node (setRxCallback (Some EnqueuePacket))) (\<lambda>_.
         bindM (on_node (start (node_platform bd))) (\<lambda>ok.
         if ok \<noteq> Some True then retM False
         else bindM (ad_set (\<lambda>a. a\<lparr>m_started := True\<rparr>)) (\<lambda>_. retM True))))))"

definition dataIn_handler :: "'w board \<Rightarrow> nat \<Rightarrow> Fw_Buffer \<Rightarrow> FrameContext \<Rightarrow> ('w, unit) adapter_op" where
  "dataIn_handler bd portNum sendBuffer context =
     bindM (ensureNodeStarted bd) (\<lambda>up.
     if \<not> up then seqM
       [ad_port bd (DataReturnOut portNum sendBuffer context),
        ad_port bd (ComStatusOut portNum False)]
     else
       bindM (on_node (send (node_platform bd) (take (buf_size sendBuffer) (buf_memory sendBuffer)))) (\<lambda>ok. seqM
         [ad_port bd (DataReturnOut portNum sendBuffer context),
          ad_port bd (ComStatusOut portNum (ok = Some True))]))"

definition dataReturnIn_handler :: "'w board \<Rightarrow> nat \<Rightarrow> Fw_Buffer \<Rightarrow> FrameContext \<Rightarrow> ('w, unit) adapter_op" where
  "dataReturnIn_handler bd portNum buffer context = ad_port bd (Deallocate buffer)"

definition comStatusInit :: "'w board \<Rightarrow> ('w, unit) adapter_op" where
  "comStatusInit bd =
     bindM (ad_get m_initialStatusSent) (\<lambda>sent.
     if sent then retM ()
     else bindM (ensureNodeStarted bd) (\<lambda>up.
       if \<not> up then retM ()
       else seqM [ad_port bd (ComStatusOut 0 True), ad_set (\<lambda>a. a\<lparr>m_initialStatusSent := True\<rparr>)]))"

text \<open>The body of the forwarding loop.\<close>

definition forward_packet :: "'w ports \<Rightarrow> LoRaNodeRxPacket \<Rightarrow> 'w asys \<Rightarrow> 'w asys" where
  "forward_packet ports pkt s =
     (let needed = length (pkt_payload pkt) in
      case port_answer ports (Allocate needed) s of (buffer, s1) \<Rightarrow>
        if \<not> isValid buffer \<or> buf_size buffer < needed
        then (if isValid buffer then port_out ports (Deallocate buffer) s1 else s1)
        else port_out ports
          (DataOut (buffer\<lparr>buf_memory := pkt_payload pkt @ drop needed (buf_memory buffer),
                           buf_size := needed\<rparr>) FrameContext_default) s1)"

lemma forward_packet_queue [simp]: "m_rxQueue (app (forward_packet ports pkt s)) = m_rxQueue (app s)"
  by (simp add: forward_packet_def port_answer_def port_out_def Let_def split: prod.split)

function forward_loop :: "'w ports \<Rightarrow> 'w asys \<Rightarrow> 'w asys" where
  "forward_loop ports s = (case m_rxQueue (app s) of
       [] \<Rightarrow> s
     | pkt # q \<Rightarrow> forward_loop ports (forward_packet ports pkt (s\<lparr>app := (app s)\<lparr>m_rxQueue := q\<rparr>\<rparr>)))"
  by pat_completeness auto
termination
  by (relation "measure (\<lambda>(ports, s). length (m_rxQueue (app s)))") simp_all

declare forward_loop.simps [simp del]

definition run_handler :: "'w board \<Rightarrow> nat \<Rightarrow> u32 \<Rightarrow> ('w, unit) adapter_op" where
  "run_handler bd portNum context =
     bindM (ensureNodeStarted bd) (\<lambda>up.
     if \<not> up then retM ()
     else seqM
       [comStatusInit bd,
        bindM (on_node (poll (node_platform bd))) (\<lambda>_. retM ()),
        modifyM (\<lambda>(a, s). (a, forward_loop (board_ports bd) s))])"

section \<open>Forwarding\<close>

text \<open>The payloads sent on \<^verbatim>\<open>dataOut\<close>, in order, and the buffers allocated and not yet handed on.\<close>

definition delivered :: "(port_call \<times> Fw_Buffer) list \<Rightarrow> bytes list" where
  "delivered plog = concat (map (\<lambda>(c, _). case c of
     DataOut b _ \<Rightarrow> [take (buf_size b) (buf_memory b)] | _ \<Rightarrow> []) plog)"

definition own_step :: "nat multiset \<Rightarrow> port_call \<times> Fw_Buffer \<Rightarrow> nat multiset" where
  "own_step m cb = (case fst cb of
       Allocate _ \<Rightarrow> if isValid (snd cb) then add_mset (buf_addr (snd cb)) m else m
     | Deallocate b \<Rightarrow> m - {#buf_addr b#}
     | DataOut b _ \<Rightarrow> m - {#buf_addr b#}
     | _ \<Rightarrow> m)"

definition owned :: "(port_call \<times> Fw_Buffer) list \<Rightarrow> nat multiset" where
  "owned plog = foldl own_step {#} plog"

text \<open>The answers to the framing stack: returned buffers and status messages.\<close>

definition statuses :: "(port_call \<times> Fw_Buffer) list \<Rightarrow> port_call list" where
  "statuses plog = filter (\<lambda>c. case c of ComStatusOut _ _ \<Rightarrow> True | DataReturnOut _ _ _ \<Rightarrow> True | _ \<Rightarrow> False) (map fst plog)"

lemma statuses_append [simp]: "statuses (xs @ ys) = statuses xs @ statuses ys"
  by (simp add: statuses_def)

lemma delivered_append [simp]: "delivered (xs @ ys) = delivered xs @ delivered ys"
  by (simp add: delivered_def)

lemma owned_append: "owned (xs @ ys) = foldl own_step (owned xs) ys"
  by (simp add: owned_def)

lemmas port_simps = port_answer_def port_out_def

lemma port_log_out [simp]:
  "map fst (port_log (app (port_out ports c s))) = map fst (port_log (app s)) @ [c]"
  "m_rxQueue (app (port_out ports c s)) = m_rxQueue (app s)"
  "io_log (port_out ports c s) = io_log s"
  by (simp_all add: port_simps split: prod.split)

lemma owned_port_out [simp]:
  "owned (port_log (app (port_out ports (DataReturnOut pn b ctx) s))) = owned (port_log (app s))"
  "owned (port_log (app (port_out ports (ComStatusOut pn ok) s))) = owned (port_log (app s))"
  by (simp_all add: port_simps owned_append own_step_def split: prod.split)

text \<open>One packet: the calls of the loop body.\<close>

lemma forward_packet_log:
  "\<exists>calls. port_log (app (forward_packet ports pkt s)) = port_log (app s) @ calls \<and>
     subseq (delivered calls) [pkt_payload pkt] \<and> foldl own_step m calls = m \<and> statuses calls = [] \<and>
     io_log (forward_packet ports pkt s) = io_log s"
  by (cases "ports (Allocate (length (pkt_payload pkt))) (world s)")
     (auto simp: forward_packet_def port_simps Let_def delivered_def own_step_def statuses_def split: prod.split)

lemma forward_loop_log:
  "\<exists>calls. port_log (app (forward_loop ports s)) = port_log (app s) @ calls \<and>
     subseq (delivered calls) (map pkt_payload (m_rxQueue (app s))) \<and>
     foldl own_step m calls = m \<and> statuses calls = [] \<and> m_rxQueue (app (forward_loop ports s)) = [] \<and>
     io_log (forward_loop ports s) = io_log s"
proof (induction ports s arbitrary: m rule: forward_loop.induct)
  case (1 ports s)
  show ?case
  proof (cases "m_rxQueue (app s)")
    case Nil
    then show ?thesis by (simp add: forward_loop.simps [of ports s] delivered_def statuses_def)
  next
    case (Cons pkt q)
    let ?s = "s\<lparr>app := (app s)\<lparr>m_rxQueue := q\<rparr>\<rparr>"
    obtain c1 where c1: "port_log (app (forward_packet ports pkt ?s)) = port_log (app s) @ c1"
      "subseq (delivered c1) [pkt_payload pkt]" "foldl own_step m c1 = m" "statuses c1 = []"
      "io_log (forward_packet ports pkt ?s) = io_log s"
      using forward_packet_log [of ports pkt ?s m] by auto
    obtain c2 where c2: "port_log (app (forward_loop ports s)) = port_log (app s) @ c1 @ c2"
      "subseq (delivered c2) (map pkt_payload q)" "foldl own_step m c2 = m" "statuses c2 = []"
      "m_rxQueue (app (forward_loop ports s)) = []" "io_log (forward_loop ports s) = io_log s"
      using 1 [OF Cons, of m] c1 Cons by (auto simp: forward_loop.simps [of ports s])
    have "subseq (delivered (c1 @ c2)) (map pkt_payload (pkt # q))"
      using list_emb_append_mono [OF c1(2) c2(2)] by simp
    then show ?thesis
      using c1 c2 Cons by (intro exI [of _ "c1 @ c2"]) simp
  qed
qed

section \<open>The handlers\<close>

lemma wp_ad [wp]:
  "wp (ad_get f) Q E (a, s) = Q (f a) (a, s)"
  "wp (ad_set g) Q' E (a, s) = Q' () (g a, s)"
  "wp (ad_port bd c) Q' E (a, s) = Q' () (a, port_out (board_ports bd) c s)"
  by (simp_all add: ad_get_def ad_set_def ad_port_def wp)

lemma wp_on_node [wp]:
  "wp (on_node m) Q E (a, s) = (case m_node a of None \<Rightarrow> Q None (a, s) | Some n \<Rightarrow>
     wp m (\<lambda>v (n', s'). Q (Some v) (a\<lparr>m_node := Some n'\<rparr>, s'))
       (\<lambda>e (n', s'). E e (a\<lparr>m_node := Some n'\<rparr>, s')) (n, s))"
  by (simp add: wp_def on_node_def split: option.split outcome.split prod.split)

lemma wp_load_config [wp]:
  "wp (load_config bd) Q E (a, s) =
     (case loadNodeConfigFromYaml (board_files bd (world s)) kDefaultYamlPath (m_nodeConfig a) of
        (err, c, message) \<Rightarrow> Q err (a\<lparr>m_nodeConfig := c\<rparr>, s))"
  by (simp add: wp_def load_config_def split: prod.split)

text \<open>The invariant: a started adapter has a started node with the adapter's callback, and the initial
  status is only sent by a started adapter.\<close>

definition adapter_ok :: "LoRaRadioAdapter \<Rightarrow> bool" where
  "adapter_ok a \<longleftrightarrow>
     (case m_node a of None \<Rightarrow> \<not> m_started a
      | Some n \<Rightarrow> node_ok n \<and> (m_started a \<longrightarrow> started n \<and> rx_callback n = Some EnqueuePacket)) \<and>
     (m_initialStatusSent a \<longrightarrow> m_started a)"

lemma adapter_ok_new: "adapter_ok LoRaRadioAdapter_new"
  by (simp add: adapter_ok_def LoRaRadioAdapter_new_def)

lemma wp_setRxCallback [wp]: "wp (setRxCallback cb) Q E (n, s) = Q () (n\<lparr>rx_callback := cb\<rparr>, s)"
  by (simp add: setRxCallback_def wp)

lemma node_ok_callback [simp]: "node_ok (n\<lparr>rx_callback := cb\<rparr>) = node_ok n"
  by (simp add: node_ok_def split: option.split)

text \<open>The handles the adapter's node refers to; they are handles the process really holds.\<close>

definition held_by :: "LoRaRadioAdapter \<Rightarrow> (resource \<times> int) multiset" where
  "held_by a = (case m_node a of None \<Rightarrow> {#} | Some n \<Rightarrow> radio_held (rx_radio n) + radio_held (tx_radio n))"

definition adapter_inv :: "LoRaRadioAdapter \<Rightarrow> 'w asys \<Rightarrow> bool" where
  "adapter_inv a s \<longleftrightarrow> adapter_ok a \<and> held_by a \<subseteq># live s"

lemma adapter_inv_ok: "adapter_inv a s \<Longrightarrow> adapter_ok a"
  by (simp add: adapter_inv_def)

lemma adapter_inv_live: "adapter_inv a s \<Longrightarrow> live s' = live s \<Longrightarrow> adapter_inv a s'"
  by (simp add: adapter_inv_def)

lemma live_same_log: "io_log s' = io_log s \<Longrightarrow> live s' = live s"
  by (simp add: live_def)

lemma live_port_out [simp]: "live (port_out ports c s) = live s"
  by (rule live_same_log) (simp add: port_simps split: prod.split)

lemma stopped_holds_nothing: "node_ok n \<Longrightarrow> \<not> started n \<Longrightarrow> rx_radio n = None \<and> tx_radio n = None"
  by (simp add: node_ok_def)

lemma node_ok_fresh:
  "node_ok \<lparr>node_config = c, rx_callback = cb, rx_radio = None, tx_radio = None, started = False\<rparr>"
  by (simp add: node_ok_def)

lemma wp_start_adapter:
  assumes "node_ok n" "radio_held (rx_radio n) + radio_held (tx_radio n) \<subseteq># live s"
    and "\<And>b n' s'. node_ok n' \<Longrightarrow> started n' = b \<Longrightarrow> rx_callback n' = rx_callback n \<Longrightarrow> app s' = app s \<Longrightarrow>
      radio_held (rx_radio n') + radio_held (tx_radio n') \<subseteq># live s' \<Longrightarrow> Q b (n', s')"
  shows "wp (start p) Q E (n, s)"
proof (rule wp_mono [OF wp_start [OF assms(1)]])
  fix b ns
  assume "case ns of (n', s') \<Rightarrow> node_ok n' \<and> started n' = b \<and> node_config n' = node_config n \<and>
      rx_callback n' = rx_callback n \<and> app s' = app s \<and> (started n \<longrightarrow> n' = n \<and> s' = s) \<and>
      (\<not> started n \<and> b \<longrightarrow> listening (node_config n) n' \<and>
         live s' = live s + radio_held (rx_radio n') + radio_held (tx_radio n')) \<and>
      (\<not> b \<longrightarrow> (\<exists>leak. live s' = live s + held leak))"
  then show "Q b ns"
    using assms(2) stopped_holds_nothing [of "fst ns"]
    by (cases b; cases "started n") (auto simp: radio_held_def ac_simps intro!: assms(3))
qed simp

lemma wp_ensureNodeStarted:
  assumes inv: "adapter_inv a s"
    and Q: "\<And>up a' s'. adapter_inv a' s' \<Longrightarrow> m_started a' = up \<Longrightarrow> m_initialStatusSent a' = m_initialStatusSent a \<Longrightarrow>
           (m_started a \<Longrightarrow> a' = a \<and> s' = s) \<Longrightarrow> app s' = app s \<Longrightarrow> Q up (a', s')"
  shows "wp (ensureNodeStarted bd) Q E (a, s)"
proof (cases "m_started a")
  case True
  then show ?thesis using assms by (simp add: ensureNodeStarted_def wp)
next
  case False
  then have fresh: "\<not> m_initialStatusSent a" and node: "m_node a = Some n \<Longrightarrow> node_ok n" for n
    using inv by (auto simp: adapter_inv_def adapter_ok_def split: option.splits)
  show ?thesis
    using False fresh node inv
    unfolding ensureNodeStarted_def
    by (auto simp: wp construct_static_node_def node_ok_new adapter_inv_def adapter_ok_def held_by_def
        LoRaNode_new_def radio_held_def node_ok_fresh split: prod.split option.split intro!: Q wp_start_adapter)
qed

lemma wp_send_started:
  assumes "node_ok n" "started n"
    and "\<And>n' s'. node_ok n' \<Longrightarrow> started n' \<Longrightarrow> rx_callback n' = rx_callback n \<Longrightarrow> app s' = app s \<Longrightarrow>
       live s' = live s \<Longrightarrow> radio_held (rx_radio n') = radio_held (rx_radio n) \<Longrightarrow>
       radio_held (tx_radio n') = radio_held (tx_radio n) \<Longrightarrow> Q (length payload \<le> 255) (n', s')"
    and "\<And>x s'. app s' = app s \<Longrightarrow> live s' = live s \<Longrightarrow> E x (n, s')"
  shows "wp (send p payload) Q E (n, s)"
proof -
  have ok: "node_ok (n\<lparr>tx_radio := Some (r\<lparr>base := (base r)\<lparr>OperatingMode := m\<rparr>\<rparr>)\<rparr>)"
    if "tx_radio n = Some r" for r m
    using assms(1,2) that by (simp add: node_ok_def radio_ok_def split: option.splits)
  have sent: "Q (length payload \<le> 255) (n\<lparr>tx_radio := Some (r\<lparr>base := (base r)\<lparr>OperatingMode := m\<rparr>\<rparr>)\<rparr>, s')"
    if "tx_radio n = Some r" "app s' = app s" "live s' = live s" for r m s'
    using that assms(2) by (intro assms(3) ok) (simp_all add: radio_held_def)
  show ?thesis
    using assms(3) [of n s] sent assms(1,2)
    by (intro wp_send) (auto simp: does_def intro: assms(4))
qed

lemma wp_dataIn:
  assumes inv: "adapter_inv a s"
    and Q: "\<And>a' s'. adapter_inv a' s' \<Longrightarrow> m_initialStatusSent a' = m_initialStatusSent a \<Longrightarrow>
       m_rxQueue (app s') = m_rxQueue (app s) \<Longrightarrow>
       map fst (port_log (app s')) = map fst (port_log (app s)) @ [DataReturnOut portNum b ctx,
         ComStatusOut portNum (m_started a' \<and> length (take (buf_size b) (buf_memory b)) \<le> 255)] \<Longrightarrow>
       owned (port_log (app s')) = owned (port_log (app s)) \<Longrightarrow> Q () (a', s')"
    and E: "\<And>x a' s'. adapter_inv a' s' \<Longrightarrow> m_initialStatusSent a' = m_initialStatusSent a \<Longrightarrow>
       m_started a' \<Longrightarrow> app s' = app s \<Longrightarrow> E x (a', s')"
  shows "wp (dataIn_handler bd portNum b ctx) Q E (a, s)"
  unfolding dataIn_handler_def wp_bind
proof (rule wp_ensureNodeStarted [OF inv])
  fix up a' and s' :: "('a, adapter_app) sys"
  assume a': "adapter_inv a' s'" "m_started a' = up" "m_initialStatusSent a' = m_initialStatusSent a"
    and s': "app s' = app s"
  show "wp (if \<not> up then seqM [ad_port bd (DataReturnOut portNum b ctx), ad_port bd (ComStatusOut portNum False)]
      else bindM (on_node (send (node_platform bd) (take (buf_size b) (buf_memory b))))
        (\<lambda>ok. seqM [ad_port bd (DataReturnOut portNum b ctx), ad_port bd (ComStatusOut portNum (ok = Some True))]))
      Q E (a', s')"
  proof (cases up)
    case False
    with a' s' show ?thesis
      by (auto simp: wp port_log_out intro!: Q elim: adapter_inv_live)
  next
    case True
    then obtain n where n: "m_node a' = Some n" "node_ok n" "started n" "rx_callback n = Some EnqueuePacket"
      using a' by (auto simp: adapter_inv_def adapter_ok_def split: option.splits)
    then have held: "radio_held (rx_radio n) + radio_held (tx_radio n) \<subseteq># live s'"
      and same: "a'\<lparr>m_node := Some n\<rparr> = a'"
      using a' by (auto simp: adapter_inv_def held_by_def intro: LoRaRadioAdapter.equality)
    have inv': "adapter_inv (a'\<lparr>m_node := Some n'\<rparr>) s''"
      if "node_ok n'" "started n'" "rx_callback n' = rx_callback n" "live s'' = live s'"
        "radio_held (rx_radio n') = radio_held (rx_radio n)" "radio_held (tx_radio n') = radio_held (tx_radio n)"
      for n' and s'' :: "('a, adapter_app) sys"
      using that n a' held by (simp add: adapter_inv_def adapter_ok_def held_by_def)
    show ?thesis
      using True a' s' n
      by (auto simp: wp port_log_out same intro!: wp_send_started Q E inv' elim: adapter_inv_live)
  qed
qed

text \<open>From \<open>s0\<close> to \<open>s\<close> only the initial status may have been sent, when it was \<open>due\<close>.\<close>

definition greeted :: "bool \<Rightarrow> 'w asys \<Rightarrow> 'w asys \<Rightarrow> bool" where
  "greeted due s0 s \<longleftrightarrow> m_rxQueue (app s) = m_rxQueue (app s0) \<and>
     (\<exists>calls. port_log (app s) = port_log (app s0) @ calls \<and> map fst calls = (if due then [ComStatusOut 0 True] else []))"

lemma greeted_same: "app s = app s0 \<Longrightarrow> greeted False s0 s"
  by (simp add: greeted_def)

lemma greeted_port: "app s = app s0 \<Longrightarrow> greeted True s0 (port_out ports (ComStatusOut 0 True) s)"
  by (simp add: greeted_def port_simps split: prod.split)

lemma wp_comStatusInit:
  assumes inv: "adapter_inv a s"
    and Q: "\<And>a' s'. adapter_inv a' s' \<Longrightarrow> m_initialStatusSent a' = (m_initialStatusSent a \<or> m_started a') \<Longrightarrow>
        (m_started a \<Longrightarrow> m_started a') \<Longrightarrow>
        greeted (\<not> m_initialStatusSent a \<and> m_initialStatusSent a') s s' \<Longrightarrow> Q () (a', s')"
  shows "wp (comStatusInit bd) Q E (a, s)"
proof (cases "m_initialStatusSent a")
  case True
  with inv show ?thesis
    by (auto simp: comStatusInit_def wp adapter_inv_def adapter_ok_def greeted_same intro!: Q)
next
  case False
  have sent: "adapter_inv (a'\<lparr>m_initialStatusSent := True\<rparr>) (port_out ports c s')"
    if "adapter_inv a' s'" "m_started a'" for a' ports c and s' :: "('a, adapter_app) sys"
    using that by (auto simp: adapter_inv_def adapter_ok_def held_by_def split: option.splits)
  show ?thesis
    using False unfolding comStatusInit_def
    by (auto simp: wp greeted_same greeted_port sent intro!: wp_ensureNodeStarted [OF inv] Q)
qed

text \<open>What \<^verbatim>\<open>poll\<close> may have received: at most \<open>j\<close> packets of at most 255 bytes behind the queue of \<open>s0\<close>.\<close>

definition received :: "'w asys \<Rightarrow> nat \<Rightarrow> 'w asys \<Rightarrow> bool" where
  "received s0 j s \<longleftrightarrow> port_log (app s) = port_log (app s0) \<and> live s = live s0 \<and>
     (\<exists>pkts. m_rxQueue (app s) = m_rxQueue (app s0) @ pkts \<and> length pkts \<le> j \<and>
        (\<forall>pkt \<in> set pkts. length (pkt_payload pkt) \<le> 255))"

lemma received_enqueue:
  assumes "received s0 j s" "length (pkt_payload pkt) \<le> 255"
  shows "received s0 (Suc j) (s\<lparr>app := (app s)\<lparr>m_rxQueue := m_rxQueue (app s) @ [pkt]\<rparr>\<rparr>)"
proof -
  obtain pkts where "m_rxQueue (app s) = m_rxQueue (app s0) @ pkts" "length pkts \<le> j"
      "\<forall>pkt \<in> set pkts. length (pkt_payload pkt) \<le> 255"
    using assms(1) by (auto simp: received_def)
  moreover have "live (s\<lparr>app := x\<rparr>) = live s" for x
    by (rule live_same_log) simp
  ultimately show ?thesis
    using assms unfolding received_def by (intro conjI exI [of _ "pkts @ [pkt]"]) auto
qed

lemma poll_family_received: "poll_family (node_platform bd) cb (received s0)"
  unfolding poll_family_def
proof (intro conjI allI impI)
  fix j k s s' c pkt
  show "received s0 j s \<Longrightarrow> app s' = app s \<Longrightarrow> live s' = live s \<Longrightarrow> received s0 j s'"
    by (simp add: received_def)
  show "received s0 j s \<Longrightarrow> j \<le> k \<Longrightarrow> received s0 k s"
    by (auto simp: received_def)
  show "length (pkt_payload pkt) \<le> 255 \<Longrightarrow> received s0 j s \<Longrightarrow>
      wp (on_rx (node_platform bd) c pkt) (\<lambda>_. received s0 (Suc j)) (\<lambda>_. received s0 (Suc j)) s"
    by (simp add: node_platform_def enqueue_def wp received_enqueue)
qed

lemma received_refl: "received s 0 s"
  by (simp add: received_def)

text \<open>
  The effect of a tick on the traffic of a started adapter: the initial status if it was due and no other answer to
  the framing stack; at most one new packet; of the packets waiting, a prefix has left the queue, and those of them
  that were delivered were delivered once, unchanged and in order; no buffer is kept.
\<close>

definition tick :: "bool \<Rightarrow> 'w asys \<Rightarrow> 'w asys \<Rightarrow> bool" where
  "tick due s0 s \<longleftrightarrow> (\<exists>pkts calls gone.
     length pkts \<le> 1 \<and> (\<forall>pkt \<in> set pkts. length (pkt_payload pkt) \<le> 255) \<and>
     port_log (app s) = port_log (app s0) @ calls \<and> statuses calls = (if due then [ComStatusOut 0 True] else []) \<and>
     m_rxQueue (app s0) @ pkts = gone @ m_rxQueue (app s) \<and> subseq (delivered calls) (map pkt_payload gone) \<and>
     owned (port_log (app s)) = owned (port_log (app s0)))"

lemma greeting_log:
  assumes "map fst calls = (if due then [ComStatusOut 0 True] else [])"
  shows "statuses calls = (if due then [ComStatusOut 0 True] else [])" "delivered calls = []"
    "foldl own_step m calls = m"
  using assms by (cases due; auto simp: statuses_def delivered_def own_step_def)+

lemma received_tick:
  assumes "greeted due s0 s1" "received s1 1 s"
  shows "tick due s0 s"
proof -
  obtain calls where calls: "port_log (app s1) = port_log (app s0) @ calls"
    "map fst calls = (if due then [ComStatusOut 0 True] else [])" "m_rxQueue (app s1) = m_rxQueue (app s0)"
    using assms(1) by (auto simp: greeted_def)
  obtain pkts where pkts: "m_rxQueue (app s) = m_rxQueue (app s1) @ pkts" "length pkts \<le> 1"
      "\<forall>pkt \<in> set pkts. length (pkt_payload pkt) \<le> 255" "port_log (app s) = port_log (app s1)"
    using assms(2) unfolding received_def by blast
  show ?thesis
    unfolding tick_def using calls pkts greeting_log [OF calls(2)]
    by (intro exI [of _ pkts] exI [of _ calls] exI [of _ "[]"]) (simp add: owned_append)
qed

lemma forward_tick:
  assumes "tick due s0 s"
  shows "tick due s0 (forward_loop ports s) \<and> m_rxQueue (app (forward_loop ports s)) = []"
proof -
  obtain pkts calls gone where t: "length pkts \<le> 1" "\<forall>pkt \<in> set pkts. length (pkt_payload pkt) \<le> 255"
     "port_log (app s) = port_log (app s0) @ calls" "statuses calls = (if due then [ComStatusOut 0 True] else [])"
     "m_rxQueue (app s0) @ pkts = gone @ m_rxQueue (app s)" "subseq (delivered calls) (map pkt_payload gone)"
     "owned (port_log (app s)) = owned (port_log (app s0))"
    using assms unfolding tick_def by blast
  obtain more where f: "port_log (app (forward_loop ports s)) = port_log (app s) @ more"
    "subseq (delivered more) (map pkt_payload (m_rxQueue (app s)))" "statuses more = []"
    "foldl own_step (owned (port_log (app s))) more = owned (port_log (app s))"
    "m_rxQueue (app (forward_loop ports s)) = []"
    using forward_loop_log [of ports s "owned (port_log (app s))"] by blast
  have "subseq (delivered (calls @ more)) (map pkt_payload (gone @ m_rxQueue (app s)))"
    using list_emb_append_mono [OF t(6) f(2)] by simp
  moreover have "owned (port_log (app (forward_loop ports s))) = owned (port_log (app s0))"
    using f(1,4) t(7) by (simp add: owned_append)
  ultimately show ?thesis
    unfolding tick_def using t f
    by (intro conjI exI [of _ pkts] exI [of _ "calls @ more"] exI [of _ "gone @ m_rxQueue (app s)"]) simp_all
qed

lemma live_forward_loop [simp]: "live (forward_loop ports s) = live s"
  using forward_loop_log [of ports s "{#}"] by (auto intro: live_same_log)

lemma tick_app: "app s = app s0 \<Longrightarrow> tick due s = tick due s0"
  by (simp add: tick_def fun_eq_iff)

lemma wp_run:
  assumes inv: "adapter_inv a s"
    and Q: "\<And>a' s'. adapter_inv a' s' \<Longrightarrow> m_started a' \<Longrightarrow> m_initialStatusSent a' \<Longrightarrow>
      tick (\<not> m_initialStatusSent a) s s' \<Longrightarrow> m_rxQueue (app s') = [] \<Longrightarrow> Q () (a', s')"
    and Q': "\<And>a' s'. adapter_inv a' s' \<Longrightarrow> \<not> m_started a' \<Longrightarrow> \<not> m_started a \<Longrightarrow> app s' = app s \<Longrightarrow> Q () (a', s')"
    and E: "\<And>x a' s'. adapter_inv a' s' \<Longrightarrow> m_started a' \<Longrightarrow> m_initialStatusSent a' \<Longrightarrow>
      tick (\<not> m_initialStatusSent a) s s' \<Longrightarrow> E x (a', s')"
  shows "wp (run_handler bd pn c) Q E (a, s)"
  unfolding run_handler_def wp_bind
proof (rule wp_ensureNodeStarted [OF inv])
  fix up a1 and s1 :: "('a, adapter_app) sys"
  assume a1: "adapter_inv a1 s1" "m_started a1 = up" "m_initialStatusSent a1 = m_initialStatusSent a"
    "m_started a \<Longrightarrow> a1 = a \<and> s1 = s" and s1: "app s1 = app s"
  show "wp (if \<not> up then retM () else seqM [comStatusInit bd,
      bindM (on_node (poll (node_platform bd))) (\<lambda>_. retM ()),
      modifyM (\<lambda>(a, s). (a, forward_loop (board_ports bd) s))]) Q E (a1, s1)"
  proof (cases up)
    case False
    with a1 s1 show ?thesis by (auto simp: wp intro!: Q')
  next
    case True
    have "wp (seqM [bindM (on_node (poll (node_platform bd))) (\<lambda>_. retM ()),
        modifyM (\<lambda>(a, s). (a, forward_loop (board_ports bd) s))]) Q E (a2, s2)"
      if a2: "adapter_inv a2 s2" "m_started a2" "m_initialStatusSent a2"
        and s2: "greeted (\<not> m_initialStatusSent a) s1 s2" for a2 s2
    proof -
      obtain n where n: "m_node a2 = Some n" "node_ok n"
        using a2 by (auto simp: adapter_inv_def adapter_ok_def split: option.splits)
      have same: "a2\<lparr>m_node := Some n\<rparr> = a2"
        using n(1) by (auto intro: LoRaRadioAdapter.equality)
      have t: "tick (\<not> m_initialStatusSent a) s s'" "adapter_inv a2 s'" if "received s2 1 s'" for s'
        using received_tick [OF s2 that] tick_app [OF s1] that
        by (auto simp: received_def intro: adapter_inv_live [OF a2(1)])
      have f: "tick (\<not> m_initialStatusSent a) s (forward_loop ports s')" "adapter_inv a2 (forward_loop ports s')"
        "m_rxQueue (app (forward_loop ports s')) = []" if "received s2 1 s'" for ports s'
        using forward_tick [OF t(1) [OF that], of ports] adapter_inv_live [OF t(2) [OF that] live_forward_loop]
        by simp_all
      show ?thesis
        unfolding wp_seq_Cons wp_bind wp_on_node n(1) option.case
        by (rule wp_mono [OF wp_poll [OF n(2) poll_family_received received_refl]])
           (use a2 t f in \<open>auto simp: wp same intro!: Q E\<close>)
    qed
    then show ?thesis
      using True a1
      by (subst if_not_P, simp, subst wp_seq_Cons)
         (auto simp del: seqM.simps intro!: wp_comStatusInit)
  qed
qed

end
