(* ===== verification/Adapter_Properties.thy ===== *)
theory Adapter_Properties
  imports LoRa_Adapter
begin

text \<open>
  What the adapter's handlers promise (\<^verbatim>\<open>Sx1280Radio/ComAdapter/LoRaRadioAdapter.cpp\<close>): that they return on a
  working board, what one call does, and examples on a bench board.
\<close>

section \<open>Progress\<close>

lemma twp_ad [twp]:
  "twp (ad_get f) Q (a, s) = Q (f a) (a, s)"
  "twp (ad_set g) Q' (a, s) = Q' () (g a, s)"
  "twp (ad_port bd c) Q' (a, s) = Q' () (a, port_out (board_ports bd) c s)"
  by (simp_all add: ad_get_def ad_set_def ad_port_def twp)

lemma twp_on_node [twp]:
  "twp (on_node m) Q (a, s) = (case m_node a of None \<Rightarrow> Q None (a, s) | Some n \<Rightarrow>
     twp m (\<lambda>v (n', s'). Q (Some v) (a\<lparr>m_node := Some n'\<rparr>, s')) (n, s))"
  by (auto simp: twp_def on_node_def split: option.splits outcome.splits prod.splits)

lemma twp_load_config [twp]:
  "twp (load_config bd) Q (a, s) =
     (case loadNodeConfigFromYaml (board_files bd (world s)) kDefaultYamlPath (m_nodeConfig a) of
        (err, c, message) \<Rightarrow> Q err (a\<lparr>m_nodeConfig := c\<rparr>, s))"
  by (auto simp: twp_def load_config_def split: prod.splits)

definition valid_node_config :: "NodeConfig \<Rightarrow> bool" where
  "valid_node_config c \<longleftrightarrow> valid_config (hw (node_rx c)) \<and> valid_config (hw (node_tx c))"

text \<open>
  A board on which everything works: the kernel answers, the components behind the ports keep it so, and the
  configuration file is there and describes valid hardware.
\<close>

definition good_board :: "'w board \<Rightarrow> ('w \<Rightarrow> bool) \<Rightarrow> ('w \<Rightarrow> nat) \<Rightarrow> bool" where
  "good_board bd okw budget \<longleftrightarrow> good_kernel (board_kernel bd) okw budget \<and>
     (\<forall>w. okw w \<longrightarrow> (\<forall>c. okw (snd (board_ports bd c w))) \<and>
        (\<exists>yaml. board_files bd w kDefaultYamlPath = Some yaml \<and> valid_node_config (parse_config yaml)))"

text \<open>The static node, if it exists, was made from a valid configuration.\<close>

definition ready :: "LoRaRadioAdapter \<Rightarrow> bool" where
  "ready a \<longleftrightarrow> (case m_node a of None \<Rightarrow> True | Some n \<Rightarrow> valid_node_config (node_config n))"

lemma good_board_load:
  assumes "good_board bd okw budget" "okw (world s)"
  obtains c where "loadNodeConfigFromYaml (board_files bd (world s)) kDefaultYamlPath out = (ErrNone, c, [])"
    "valid_node_config c"
  using assms unfolding good_board_def loadNodeConfigFromYaml_def read_file_to_string_def by fastforce

lemma good_board_kernel: "good_board bd okw budget \<Longrightarrow> good_kernel (kernel (node_platform bd)) okw budget"
  by (simp add: good_board_def node_platform_def)

lemma good_board_port:
  "good_board bd okw budget \<Longrightarrow> okw (world s) \<Longrightarrow> okw (world (port_out (board_ports bd) c s))"
  by (simp add: good_board_def port_simps case_prod_unfold)

lemma enqueue_returns: "callback_returns (node_platform bd) okw"
  by (simp add: callback_returns_def node_platform_def enqueue_def twp)

lemma good_board_answer:
  "good_board bd okw budget \<Longrightarrow> okw (world s) \<Longrightarrow> okw (world (snd (port_answer (board_ports bd) c s)))"
  using good_board_port unfolding port_out_def .

lemma good_board_forward_packet:
  assumes "good_board bd okw budget" "okw (world s)"
  shows "okw (world (forward_packet (board_ports bd) pkt s))"
  unfolding forward_packet_def Let_def case_prod_unfold
  using assms by (simp add: good_board_answer good_board_port)

lemma good_board_forward:
  assumes "good_board bd okw budget" "okw (world s)"
  shows "okw (world (forward_loop (board_ports bd) s))"
  using assms(2)
proof (induction "board_ports bd" s rule: forward_loop.induct)
  case (1 s)
  then show ?case
    by (cases "m_rxQueue (app s)")
       (simp_all add: forward_loop.simps [of _ s] good_board_forward_packet [OF assms(1)])
qed

text \<open>The handlers return on such a board, and leave it working.\<close>

lemma twp_ensureNodeStarted:
  assumes bd: "good_board bd okw budget" and s: "okw (world s)" and inv: "adapter_inv a s" "ready a"
    and Q: "\<And>a' s'. adapter_inv a' s' \<Longrightarrow> ready a' \<Longrightarrow> m_started a' \<Longrightarrow> okw (world s') \<Longrightarrow>
        m_initialStatusSent a' = m_initialStatusSent a \<Longrightarrow> app s' = app s \<Longrightarrow> Q True (a', s')"
  shows "twp (ensureNodeStarted bd) Q (a, s)"
proof -
  obtain c where c: "loadNodeConfigFromYaml (board_files bd (world s)) kDefaultYamlPath (m_nodeConfig a) = (ErrNone, c, [])"
    "valid_node_config c"
    using good_board_load [OF bd s] by blast
  have ok: "m_node a = Some n \<Longrightarrow> node_ok n \<and> valid_node_config (node_config n)" for n
    using inv by (auto simp: adapter_inv_def adapter_ok_def ready_def)
  have start: "twp (start (node_platform bd)) R (n, s)"
    if "node_ok n" "valid_node_config (node_config n)" and R: "\<And>n' s'. node_config n' = node_config n \<Longrightarrow> okw (world s') \<Longrightarrow> R True (n', s')" for n R
    using twp_wp [OF twp_start [OF good_board_kernel [OF bd] s that(1)] wp_start [OF that(1)]] that(2)
    by (auto simp: valid_node_config_def intro: R elim!: twp_mono)
  have "twp (ensureNodeStarted bd) (\<lambda>up (a', s'). up \<and> ready a' \<and> okw (world s')) (a, s)"
    using c ok s inv(2) unfolding ensureNodeStarted_def
    by (auto simp: twp construct_static_node_def setRxCallback_def ready_def node_ok_fresh LoRaNode_new_def
        split: option.split intro!: start)
  from twp_wp [OF this wp_ensureNodeStarted [OF inv(1), where E = "\<lambda>_ _. True" and
        Q = "\<lambda>up (a', s'). adapter_inv a' s' \<and> m_started a' = up \<and>
          m_initialStatusSent a' = m_initialStatusSent a \<and> app s' = app s"]]
  show ?thesis by (auto elim!: twp_mono intro: Q)
qed

lemma twp_send_adapter:
  assumes "good_board bd okw budget" "okw (world s)" "node_ok n"
    and "\<And>ok n' s'. node_config n' = node_config n \<Longrightarrow> okw (world s') \<Longrightarrow> Q ok (n', s')"
  shows "twp (send (node_platform bd) payload) Q (n, s)"
proof -
  have "wp (send (node_platform bd) payload) (\<lambda>_ (n', s'). node_config n' = node_config n) (\<lambda>_ _. True) (n, s)"
    by (rule wp_send [OF assms(3)]) simp_all
  from twp_wp [OF twp_send [OF good_board_kernel [OF assms(1)] assms(2,3)] this] show ?thesis
    by (auto elim!: twp_mono intro: assms(4))
qed

lemma twp_poll_adapter:
  assumes "good_board bd okw budget" "okw (world s)" "node_ok n"
    and "\<And>s'. okw (world s') \<Longrightarrow> Q () (n, s')"
  shows "twp (poll (node_platform bd)) Q (n, s)"
  using twp_wp [OF twp_poll [OF good_board_kernel [OF assms(1)] assms(2,3) enqueue_returns]
      wp_poll [OF assms(3) poll_family_received received_refl]]
  by (auto elim!: twp_mono intro: assms(4))

lemma adapter_inv_node:
  assumes "adapter_inv a s" "m_started a"
  obtains n where "m_node a = Some n" "node_ok n" "a\<lparr>m_node := Some n\<rparr> = a"
  using assms by (auto simp: adapter_inv_def adapter_ok_def split: option.splits intro: LoRaRadioAdapter.equality)

lemma twp_dataIn:
  assumes bd: "good_board bd okw budget" and s: "okw (world s)" and inv: "adapter_inv a s" "ready a"
  shows "twp (dataIn_handler bd pn b ctx) (\<lambda>_ (a', s'). m_started a' \<and> ready a' \<and> okw (world s')) (a, s)"
  unfolding dataIn_handler_def twp_bind
proof (rule twp_ensureNodeStarted [OF bd s inv])
  fix a' s'
  assume a': "adapter_inv a' s'" "ready a'" "m_started a'" "okw (world s')"
  then obtain n where n: "m_node a' = Some n" "node_ok n"
    by (elim adapter_inv_node)
  show "twp (if \<not> True then seqM [ad_port bd (DataReturnOut pn b ctx), ad_port bd (ComStatusOut pn False)]
      else bindM (on_node (send (node_platform bd) (take (buf_size b) (buf_memory b))))
        (\<lambda>ok. seqM [ad_port bd (DataReturnOut pn b ctx), ad_port bd (ComStatusOut pn (ok = Some True))]))
      (\<lambda>_ (a', s'). m_started a' \<and> ready a' \<and> okw (world s')) (a', s')"
    using a' n by (auto simp: twp ready_def intro!: twp_send_adapter [OF bd] good_board_port [OF bd])
qed

lemma twp_comStatusInit:
  assumes bd: "good_board bd okw budget" and s: "okw (world s)" and inv: "adapter_inv a s" "ready a"
    and Q: "\<And>a' s'. adapter_inv a' s' \<Longrightarrow> ready a' \<Longrightarrow> m_started a' \<Longrightarrow> okw (world s') \<Longrightarrow> Q () (a', s')"
  shows "twp (comStatusInit bd) Q (a, s)"
proof -
  have sent: "adapter_inv (a'\<lparr>m_initialStatusSent := True\<rparr>) (port_out ports c s')"
    if "adapter_inv a' s'" "m_started a'" for a' ports c and s' :: "('a, adapter_app) sys"
    using that by (auto simp: adapter_inv_def adapter_ok_def held_by_def split: option.splits)
  have "m_initialStatusSent a \<Longrightarrow> m_started a"
    using inv(1) by (simp add: adapter_inv_def adapter_ok_def)
  with s inv show ?thesis
    unfolding comStatusInit_def
    by (auto simp: twp intro!: Q twp_ensureNodeStarted [OF bd s inv] sent good_board_port [OF bd])
       (simp_all add: ready_def)
qed

lemma twp_run:
  assumes bd: "good_board bd okw budget" and s: "okw (world s)" and inv: "adapter_inv a s" "ready a"
  shows "twp (run_handler bd pn c) (\<lambda>_ (a', s'). m_started a' \<and> ready a' \<and> okw (world s')) (a, s)"
  unfolding run_handler_def twp_bind
proof (rule twp_ensureNodeStarted [OF bd s inv])
  fix a1 s1
  assume a1: "adapter_inv a1 s1" "ready a1" "m_started a1" "okw (world s1)"
  have polled: "twp (seqM [bindM (on_node (poll (node_platform bd))) (\<lambda>_. retM ()),
        modifyM (\<lambda>(a, s). (a, forward_loop (board_ports bd) s))])
      (\<lambda>_ (a', s'). m_started a' \<and> ready a' \<and> okw (world s')) (a2, s2)"
    if a2: "adapter_inv a2 s2" "ready a2" "m_started a2" "okw (world s2)" for a2 s2
  proof -
    obtain n where n: "m_node a2 = Some n" "node_ok n" "a2\<lparr>m_node := Some n\<rparr> = a2"
      using a2 by (elim adapter_inv_node)
    show ?thesis
      unfolding twp_seq_Cons twp_bind twp_on_node n(1) option.case
      using a2 n(2) by (auto simp: twp n(3) intro!: twp_poll_adapter [OF bd] good_board_forward [OF bd])
  qed
  show "twp (if \<not> True then retM () else seqM [comStatusInit bd,
      bindM (on_node (poll (node_platform bd))) (\<lambda>_. retM ()),
      modifyM (\<lambda>(a, s). (a, forward_loop (board_ports bd) s))])
     (\<lambda>_ (a', s'). m_started a' \<and> ready a' \<and> okw (world s')) (a1, s1)"
    by (subst if_not_P, simp, subst twp_seq_Cons)
       (rule twp_comStatusInit [OF bd a1(4,1,2)], rule polled)
qed

section \<open>A bench board\<close>

text \<open>The bench kernel, ports that always find a fresh buffer, and the shipped configuration file.\<close>

definition bench_ports :: "'w ports" where
  "bench_ports c w = (case c of
       Allocate n \<Rightarrow> (\<lparr>buf_addr = 4096, buf_size = n, buf_context = 0, buf_memory = replicate n 0\<rparr>, w)
     | _ \<Rightarrow> (\<lparr>buf_addr = 0, buf_size = 0, buf_context = 0, buf_memory = []\<rparr>, w))"

definition bench_board :: "(bytes \<Rightarrow> rx_buffer) \<Rightarrow> bench board" where
  "bench_board reply = \<lparr>board_kernel = bench_os reply, board_garbage = (\<lambda>_. 0),
     board_files = (\<lambda>_ _. Some sx1280_yaml), board_ports = bench_ports\<rparr>"

definition bench_sys :: "LoRaNodeRxPacket list \<Rightarrow> (bench, adapter_app) sys" where
  "bench_sys pkts = bench_start \<lparr>m_rxQueue = pkts, port_log = []\<rparr>"

lemma bench_board_good: "good_board (bench_board reply) (\<lambda>w. 0 < bench_next w) bench_busy"
  using bench_good [of reply]
  by (auto simp: good_board_def bench_board_def bench_ports_def valid_node_config_def parse_shipped shipped_valid
      split: port_call.split)

lemma bench_sys_okw [simp]: "0 < bench_next (world (bench_sys pkts))"
  by (simp add: bench_sys_def bench_start_def)

lemma bench_sys_app [simp]: "app (bench_sys pkts) = \<lparr>m_rxQueue = pkts, port_log = []\<rparr>"
  by (simp add: bench_sys_def bench_start_def)

lemma adapter_inv_new [simp]: "adapter_inv LoRaRadioAdapter_new s"
  by (simp add: adapter_inv_def adapter_ok_def held_by_def LoRaRadioAdapter_new_def)

lemma ready_new [simp]: "ready LoRaRadioAdapter_new"
  by (simp add: ready_def LoRaRadioAdapter_new_def)

text \<open>A handler returns on every board on which everything works, with a started adapter.\<close>

definition adapter_completes :: "'w board \<Rightarrow> ('w, 'a) adapter_op \<Rightarrow> LoRaRadioAdapter \<times> 'w asys \<Rightarrow> bool" where
  "adapter_completes bd m as \<longleftrightarrow> (\<forall>okw budget. good_board bd okw budget \<longrightarrow> okw (world (snd as)) \<longrightarrow>
     ready (fst as) \<longrightarrow> twp m (\<lambda>_ (a', s'). m_started a' \<and> ready a' \<and> okw (world s')) as)"

lemma adapter_completesD:
  assumes "adapter_completes bd m (a, s)" "wp m Q E (a, s)" "good_board bd okw budget" "okw (world s)" "ready a"
  shows "twp m (\<lambda>v (a', s'). Q v (a', s') \<and> m_started a' \<and> ready a') (a, s)"
proof -
  have "twp m (\<lambda>_ (a', s'). m_started a' \<and> ready a' \<and> okw (world s')) (a, s)"
    using assms unfolding adapter_completes_def by fastforce
  from twp_wp [OF this assms(2)] show ?thesis
    by (rule twp_mono) auto
qed

lemma wp_dataIn_post:
  assumes "adapter_inv a s"
  shows "wp (dataIn_handler bd pn b ctx)
      (\<lambda>_ (a', s'). adapter_inv a' s' \<and> m_initialStatusSent a' = m_initialStatusSent a \<and>
         m_rxQueue (app s') = m_rxQueue (app s) \<and> owned (port_log (app s')) = owned (port_log (app s)) \<and>
         map fst (port_log (app s')) = map fst (port_log (app s)) @ [DataReturnOut pn b ctx,
           ComStatusOut pn (m_started a' \<and> length (take (buf_size b) (buf_memory b)) \<le> 255)])
      (\<lambda>_ (a', s'). adapter_inv a' s' \<and> m_started a' \<and> m_initialStatusSent a' = m_initialStatusSent a \<and>
         app s' = app s) (a, s)"
  using assms by (auto intro!: wp_dataIn)

lemma wp_run_post:
  assumes "adapter_inv a s"
  shows "wp (run_handler bd pn c)
      (\<lambda>_ (a', s'). adapter_inv a' s' \<and>
         (if m_started a' then m_initialStatusSent a' \<and> tick (\<not> m_initialStatusSent a) s s' \<and> m_rxQueue (app s') = []
          else \<not> m_started a \<and> app s' = app s))
      (\<lambda>_ (a', s'). adapter_inv a' s' \<and> m_started a' \<and> m_initialStatusSent a' \<and>
         tick (\<not> m_initialStatusSent a) s s') (a, s)"
  using assms by (auto intro!: wp_run)

lemma twp_both:
  "twp m P s \<Longrightarrow> wp m Q E s \<Longrightarrow> (\<And>a s'. P a s' \<Longrightarrow> Q a s' \<Longrightarrow> R a s') \<Longrightarrow> twp m R s"
  by (rule twp_mono [OF twp_wp]) auto

section \<open>Properties\<close>

text \<open>
  A frame handed to \<^verbatim>\<open>dataIn\<close> is answered by exactly two port calls: the unchanged buffer goes back on
  \<^verbatim>\<open>dataReturnOut\<close>, then one status follows, SUCCESS exactly when the node is running and the frame has at most
  255 bytes. Nothing else is called, and the receive queue and the allocated buffers are left alone. If the operating system makes the
  transmission throw, neither call is made: the buffer is not returned. On a working board the handler returns.
\<close>

theorem dataIn_protocol:
  assumes "adapter_inv a s"
  shows "wp (dataIn_handler bd pn b ctx)
      (\<lambda>_ (a', s'). adapter_inv a' s' \<and> m_initialStatusSent a' = m_initialStatusSent a \<and>
         m_rxQueue (app s') = m_rxQueue (app s) \<and> owned (port_log (app s')) = owned (port_log (app s)) \<and>
         map fst (port_log (app s')) = map fst (port_log (app s)) @ [DataReturnOut pn b ctx,
           ComStatusOut pn (m_started a' \<and> length (take (buf_size b) (buf_memory b)) \<le> 255)])
      (\<lambda>_ (a', s'). adapter_inv a' s' \<and> m_started a' \<and> m_initialStatusSent a' = m_initialStatusSent a \<and>
         app s' = app s) (a, s) \<and>
    adapter_completes bd (dataIn_handler bd pn b ctx) (a, s)"
  using wp_dataIn_post [OF assms] twp_dataIn assms by (fastforce simp: adapter_completes_def)

theorem dataIn_protocol_witness:
  "\<exists>a' s'. dataIn_handler (bench_board (\<lambda>_ _. 0)) 0 \<lparr>buf_addr = 64, buf_size = 3, buf_context = 7, buf_memory = [1, 2, 3]\<rparr>
       FrameContext_default (LoRaRadioAdapter_new, bench_sys []) = Some (Ret () (a', s')) \<and>
     map fst (port_log (app s')) =
       [DataReturnOut 0 \<lparr>buf_addr = 64, buf_size = 3, buf_context = 7, buf_memory = [1, 2, 3]\<rparr> FrameContext_default,
        ComStatusOut 0 True]"
proof -
  note answered = dataIn_protocol [OF adapter_inv_new, where bd = "bench_board (\<lambda>_ _. 0)" and pn = 0
      and ctx = FrameContext_default and s = "bench_sys []"
      and b = "\<lparr>buf_addr = 64, buf_size = 3, buf_context = 7, buf_memory = [1, 2, 3]\<rparr>"]
  from adapter_completesD [OF answered [THEN conjunct2] answered [THEN conjunct1] bench_board_good] show ?thesis
    by (auto simp: twp_def)
qed



text \<open>
  C9: On a working board the link comes up by itself: whatever state the adapter is in, one tick starts the node and
  sends the initial status if it was still due, and a frame handed over next is returned and answered by a status
  that only depends on its length. Both handlers return.
\<close>

theorem link_comes_up:
  assumes bd: "good_board bd okw budget" and s: "okw (world s)" and inv: "adapter_inv a s" "ready a"
  shows "\<exists>a' s'. seqM [run_handler bd pn0 c, dataIn_handler bd pn b ctx] (a, s) = Some (Ret () (a', s')) \<and>
     m_started a' \<and> m_initialStatusSent a' \<and>
     statuses (port_log (app s')) = statuses (port_log (app s)) @
       (if m_initialStatusSent a then [] else [ComStatusOut 0 True]) @
       [DataReturnOut pn b ctx, ComStatusOut pn (length (take (buf_size b) (buf_memory b)) \<le> 255)]"
proof -
  let ?R = "\<lambda>a' s'. m_started a' \<and> m_initialStatusSent a' \<and>
     statuses (port_log (app s')) = statuses (port_log (app s)) @
       (if m_initialStatusSent a then [] else [ComStatusOut 0 True]) @
       [DataReturnOut pn b ctx, ComStatusOut pn (length (take (buf_size b) (buf_memory b)) \<le> 255)]"
  have sent: "twp (dataIn_handler bd pn b ctx) (\<lambda>_ (a', s'). ?R a' s') (a1, s1)"
    if "adapter_inv a1 s1" "m_initialStatusSent a1" "tick (\<not> m_initialStatusSent a) s s1" "ready a1" "okw (world s1)"
    for a1 s1
    by (rule twp_both [OF twp_dataIn [OF bd that(5,1,4)] wp_dataIn_post [OF that(1)]])
       (use that(2,3) in \<open>auto simp: statuses_def tick_def\<close>)
  have "twp (run_handler bd pn0 c) (\<lambda>_ (a1, s1). twp (dataIn_handler bd pn b ctx) (\<lambda>_ (a', s'). ?R a' s') (a1, s1)) (a, s)"
  proof (rule twp_both [OF twp_run [OF bd s inv] wp_run_post [OF inv(1)]], goal_cases)
    case (1 _ as)
    then show ?case
      using sent [of "fst as" "snd as"] by (cases as) (simp split: if_splits)
  qed
  then have "twp (seqM [run_handler bd pn0 c, dataIn_handler bd pn b ctx]) (\<lambda>_ (a', s'). ?R a' s') (a, s)"
    by (simp add: twp case_prod_unfold)
  then show ?thesis
    by (auto simp: twp_def)
qed

theorem link_comes_up_witness:
  "good_board (bench_board (\<lambda>_ _. 0)) (\<lambda>w. 0 < bench_next w) bench_busy \<and>
   (\<exists>a' s'. seqM [run_handler (bench_board (\<lambda>_ _. 0)) 0 0, dataIn_handler (bench_board (\<lambda>_ _. 0)) 0
        \<lparr>buf_addr = 64, buf_size = 2, buf_context = 7, buf_memory = [1, 2]\<rparr> FrameContext_default]
      (LoRaRadioAdapter_new, bench_sys []) = Some (Ret () (a', s')) \<and>
     statuses (port_log (app s')) = [ComStatusOut 0 True,
       DataReturnOut 0 \<lparr>buf_addr = 64, buf_size = 2, buf_context = 7, buf_memory = [1, 2]\<rparr> FrameContext_default,
       ComStatusOut 0 True])"
proof -
  have "\<not> m_initialStatusSent LoRaRadioAdapter_new"
    by (simp add: LoRaRadioAdapter_new_def)
  with link_comes_up [OF bench_board_good bench_sys_okw adapter_inv_new ready_new, of "\<lambda>_ _. 0" 0 0 0
      "\<lparr>buf_addr = 64, buf_size = 2, buf_context = 7, buf_memory = [1, 2]\<rparr>" FrameContext_default "[]"]
  show ?thesis
    by (simp add: bench_board_good statuses_def del: seqM.simps) blast
qed

text \<open>
  With ports that always find a large enough buffer nothing received is lost: the forwarding loop delivers
  exactly the payloads of the waiting packets, in order, and empties the queue.
\<close>

theorem forwarding_lossless:
  assumes "\<And>n w. isValid (fst (ports (Allocate n) w)) \<and> n \<le> buf_size (fst (ports (Allocate n) w))"
  shows "delivered (port_log (app (forward_loop ports s))) =
           delivered (port_log (app s)) @ map pkt_payload (m_rxQueue (app s)) \<and>
         m_rxQueue (app (forward_loop ports s)) = []"
  using assms
proof (induction ports s rule: forward_loop.induct)
  case (1 ports s)
  have one: "delivered (port_log (app (forward_packet ports pkt s))) = delivered (port_log (app s)) @ [pkt_payload pkt]"
    for pkt s
    using 1(2) [where n = "length (pkt_payload pkt)" and w = "world s"]
    by (auto simp: forward_packet_def port_simps delivered_def Let_def split: prod.splits)
  show ?case
    using 1 by (cases "m_rxQueue (app s)") (simp_all add: forward_loop.simps [of ports s] one)
qed

theorem forwarding_lossless_witness:
  "delivered (port_log (app (forward_loop
      (\<lambda>c w. (\<lparr>buf_addr = 4096, buf_size = (case c of Allocate n \<Rightarrow> n + 1 | _ \<Rightarrow> 1), buf_context = 0, buf_memory = []\<rparr>, w))
      (bench_sys [\<lparr>pkt_payload = [5, 6], pkt_rssi_dbm = 0, pkt_snr_db = 0\<rparr>,
                  \<lparr>pkt_payload = [7], pkt_rssi_dbm = 0, pkt_snr_db = 0\<rparr>])))) = [[5, 6], [7]]"
  by (subst forwarding_lossless [THEN conjunct1]) (simp_all add: isValid_def delivered_def)

end
