(* ===== verification/Link_History.thy ===== *)
theory Link_History
  imports Adapter_Properties
begin

text \<open>
  The adapter over its whole life: the states that any sequence of calls of its handlers can reach, and the
  protocol it speaks with the framing stack (\<^verbatim>\<open>Svc.Com\<close>): a step relation over the handlers of
  \<^verbatim>\<open>LoRaRadioAdapter.cpp\<close>, an abstract conversation that states the contract, and the refinement between them.
\<close>

section \<open>The reachable states\<close>

datatype adapter_event =
    DataIn nat Fw_Buffer FrameContext
  | DataReturnIn nat Fw_Buffer FrameContext
  | Tick nat u32

definition handle :: "'w board \<Rightarrow> adapter_event \<Rightarrow> ('w, unit) adapter_op" where
  "handle bd e = (case e of
       DataIn pn b ctx \<Rightarrow> dataIn_handler bd pn b ctx
     | DataReturnIn pn b ctx \<Rightarrow> dataReturnIn_handler bd pn b ctx
     | Tick pn c \<Rightarrow> run_handler bd pn c)"

text \<open>
  A history lists the calls with whether they returned; after a throw it goes on as it does where a caller catches
  the exception. Between two calls the world outside may change.
\<close>

type_synonym history = "(adapter_event \<times> bool) list"

inductive reaches :: "'w board \<Rightarrow> history \<Rightarrow> LoRaRadioAdapter \<Rightarrow> 'w asys \<Rightarrow> bool" for bd where
  booted: "app s = \<lparr>m_rxQueue = [], port_log = []\<rparr> \<Longrightarrow> reaches bd [] LoRaRadioAdapter_new s"
| elapses: "reaches bd h a s \<Longrightarrow> reaches bd h a (s\<lparr>world := w\<rparr>)"
| returns: "reaches bd h a s \<Longrightarrow> handle bd e (a, s) = Some (Ret () (a', s')) \<Longrightarrow> reaches bd (h @ [(e, True)]) a' s'"
| throws: "reaches bd h a s \<Longrightarrow> handle bd e (a, s) = Some (Throw x (a', s')) \<Longrightarrow> reaches bd (h @ [(e, False)]) a' s'"

section \<open>The conversation with the framing stack\<close>

text \<open>
  The contract: \<open>conversation h cs g\<close> says that \<open>cs\<close> is a lawful sequence of answers to the calls of \<open>h\<close>, and
  \<open>g\<close> that the initial status is among them. A frame that was handled is answered by its buffer and one status, right
  behind each other; once the link is open the status is decided by the length of the frame alone. Only a tick may open the link,
  by the one initial status. Nothing else is ever said.
\<close>

definition frame_length :: "Fw_Buffer \<Rightarrow> nat" where
  "frame_length b = length (take (buf_size b) (buf_memory b))"

inductive conversation :: "history \<Rightarrow> port_call list \<Rightarrow> bool \<Rightarrow> bool" where
  silence: "conversation [] [] False"
| frame: "conversation h cs g \<Longrightarrow> (ok \<Longrightarrow> frame_length b \<le> 255) \<Longrightarrow> (g \<Longrightarrow> frame_length b \<le> 255 \<Longrightarrow> ok) \<Longrightarrow>
    conversation (h @ [(DataIn pn b ctx, True)]) (cs @ [DataReturnOut pn b ctx, ComStatusOut pn ok]) g"
| lost_frame: "conversation h cs g \<Longrightarrow> conversation (h @ [(DataIn pn b ctx, False)]) cs g"
| buffer_back: "conversation h cs g \<Longrightarrow> conversation (h @ [(DataReturnIn pn b ctx, r)]) cs g"
| quiet_tick: "conversation h cs g \<Longrightarrow> conversation (h @ [(Tick pn c, r)]) cs g"
| greeting: "conversation h cs False \<Longrightarrow> conversation (h @ [(Tick pn c, r)]) (cs @ [ComStatusOut 0 True]) True"

text \<open>What a lawful conversation amounts to: the frames that came back, and the number of status messages.\<close>

definition handled_frames :: "history \<Rightarrow> (nat \<times> Fw_Buffer \<times> FrameContext) list" where
  "handled_frames h = concat (map (\<lambda>er. case er of (DataIn pn b ctx, True) \<Rightarrow> [(pn, b, ctx)] | _ \<Rightarrow> []) h)"

definition returned_frames :: "port_call list \<Rightarrow> (nat \<times> Fw_Buffer \<times> FrameContext) list" where
  "returned_frames cs = concat (map (\<lambda>c. case c of DataReturnOut pn b ctx \<Rightarrow> [(pn, b, ctx)] | _ \<Rightarrow> []) cs)"

definition status_count :: "port_call list \<Rightarrow> nat" where
  "status_count cs = length (filter (\<lambda>c. case c of ComStatusOut _ _ \<Rightarrow> True | _ \<Rightarrow> False) cs)"

lemma conversation_returns: "conversation h cs g \<Longrightarrow> returned_frames cs = handled_frames h"
  by (induction rule: conversation.induct)
     (auto simp: returned_frames_def handled_frames_def split: bool.split)

lemma conversation_counts:
  "conversation h cs g \<Longrightarrow> status_count cs = length (handled_frames h) + (if g then 1 else 0)"
  by (induction rule: conversation.induct)
     (auto simp: status_count_def handled_frames_def split: bool.split)

text \<open>The polls that a throw cut short; each may leave one packet waiting.\<close>

definition interrupted :: "history \<Rightarrow> nat" where
  "interrupted h = length (filter (\<lambda>er. case er of (Tick _ _, False) \<Rightarrow> True | _ \<Rightarrow> False) h)"

section \<open>The invariant of a history\<close>

definition lawful :: "history \<Rightarrow> LoRaRadioAdapter \<Rightarrow> 'w asys \<Rightarrow> bool" where
  "lawful h a s \<longleftrightarrow> adapter_inv a s \<and> conversation h (statuses (port_log (app s))) (m_initialStatusSent a) \<and>
     length (m_rxQueue (app s)) \<le> interrupted h \<and> (\<forall>pkt \<in> set (m_rxQueue (app s)). length (pkt_payload pkt) \<le> 255) \<and>
     owned (port_log (app s)) = {#}"

lemma interrupted_snoc [simp]:
  "interrupted (h @ [(DataIn pn b ctx, r)]) = interrupted h"
  "interrupted (h @ [(DataReturnIn pn b ctx, r)]) = interrupted h"
  "interrupted (h @ [(Tick pn c, r)]) = interrupted h + (if r then 0 else 1)"
  by (simp_all add: interrupted_def)

lemma handle_simps [simp]:
  "handle bd (DataIn pn b ctx) = dataIn_handler bd pn b ctx"
  "handle bd (DataReturnIn pn b ctx) = dataReturnIn_handler bd pn b ctx"
  "handle bd (Tick pn c) = run_handler bd pn c"
  by (simp_all add: handle_def)

lemma lawful_frame:
  assumes "lawful h a s"
  shows "wp (dataIn_handler bd pn b ctx) (\<lambda>_ (a', s'). lawful (h @ [(DataIn pn b ctx, True)]) a' s')
     (\<lambda>_ (a', s'). lawful (h @ [(DataIn pn b ctx, False)]) a' s') (a, s)"
proof (rule wp_mono [OF wp_dataIn_post], goal_cases)
  case 1
  then show ?case using assms by (simp add: lawful_def)
next
  case (2 _ as)
  obtain a' s' where as: "as = (a', s')" by fastforce
  have "m_initialStatusSent a' \<Longrightarrow> m_started a'"
    using 2 as by (simp add: adapter_inv_def adapter_ok_def)
  moreover have "statuses (port_log (app s')) = statuses (port_log (app s)) @ [DataReturnOut pn b ctx,
      ComStatusOut pn (m_started a' \<and> frame_length b \<le> 255)]"
    using 2 as by (simp add: statuses_def frame_length_def)
  ultimately show ?case
    using 2 as assms by (auto simp: lawful_def intro!: conversation.frame)
next
  case (3 x as)
  then show ?case using assms by (auto simp: lawful_def intro: conversation.lost_frame)
qed

lemma lawful_back:
  assumes "lawful h a s"
  shows "wp (dataReturnIn_handler bd pn b ctx) (\<lambda>_ (a', s'). lawful (h @ [(DataReturnIn pn b ctx, True)]) a' s')
     (\<lambda>_ (a', s'). lawful (h @ [(DataReturnIn pn b ctx, False)]) a' s') (a, s)"
  using assms
  by (auto simp: dataReturnIn_handler_def wp lawful_def port_simps owned_append own_step_def statuses_def
      adapter_inv_live [OF _ live_same_log] split: prod.split intro: conversation.buffer_back)

lemma lawful_tick:
  assumes "lawful h a s"
  shows "wp (run_handler bd pn c) (\<lambda>_ (a', s'). lawful (h @ [(Tick pn c, True)]) a' s')
     (\<lambda>_ (a', s'). lawful (h @ [(Tick pn c, False)]) a' s') (a, s)"
proof -
  have talk: "conversation (h @ [(Tick pn c, r)]) (statuses (port_log (app s'))) True"
    "owned (port_log (app s')) = {#}" "length (m_rxQueue (app s')) \<le> Suc (interrupted h)"
    "\<forall>pkt \<in> set (m_rxQueue (app s')). length (pkt_payload pkt) \<le> 255"
    if ticked: "tick (\<not> m_initialStatusSent a) s s'" for r s'
  proof -
    obtain pkts calls gone where t: "length pkts \<le> 1" "\<forall>pkt \<in> set pkts. length (pkt_payload pkt) \<le> 255"
       "port_log (app s') = port_log (app s) @ calls"
       "statuses calls = (if \<not> m_initialStatusSent a then [ComStatusOut 0 True] else [])"
       "m_rxQueue (app s) @ pkts = gone @ m_rxQueue (app s')" "owned (port_log (app s')) = owned (port_log (app s))"
      using ticked unfolding tick_def by blast
    have "length (m_rxQueue (app s')) \<le> length (m_rxQueue (app s) @ pkts)"
      "set (m_rxQueue (app s')) \<subseteq> set (m_rxQueue (app s) @ pkts)"
      unfolding t(5) by simp_all
    then show "length (m_rxQueue (app s')) \<le> Suc (interrupted h)"
      "\<forall>pkt \<in> set (m_rxQueue (app s')). length (pkt_payload pkt) \<le> 255"
      using t(1,2) assms by (auto simp: lawful_def)
    show "conversation (h @ [(Tick pn c, r)]) (statuses (port_log (app s'))) True"
      using t(3,4) assms
      by (auto simp: lawful_def intro: conversation.greeting conversation.quiet_tick split: if_splits)
    show "owned (port_log (app s')) = {#}"
      using t(6) assms by (simp add: lawful_def)
  qed
  have inv: "adapter_inv a s" and quiet: "conversation (h @ [(Tick pn c, True)]) (statuses (port_log (app s))) (m_initialStatusSent a)"
    using assms by (auto simp: lawful_def intro: conversation.quiet_tick)
  have unsent: "\<not> m_started a' \<Longrightarrow> \<not> m_initialStatusSent a'" if "adapter_inv a' s'" for a' s'
    using adapter_inv_ok [OF that] by (auto simp: adapter_ok_def)
  show ?thesis
  proof (rule wp_mono [OF wp_run_post [OF inv]], goal_cases)
    case (1 _ as)
    obtain a' s' where as: "as = (a', s')" by fastforce
    show ?case
    proof (cases "m_started a'")
      case True
      with 1 as have "m_initialStatusSent a'" "tick (\<not> m_initialStatusSent a) s s'" "m_rxQueue (app s') = []"
        "adapter_inv a' s'" by simp_all
      with talk as show ?thesis by (simp add: lawful_def)
    next
      case False
      with 1 as have same: "\<not> m_started a" "app s' = app s" "adapter_inv a' s'" by simp_all
      with unsent [OF inv] unsent [OF same(3)] False have "m_initialStatusSent a' = m_initialStatusSent a" by blast
      with same as assms quiet show ?thesis by (simp add: lawful_def)
    qed
  next
    case (2 x as)
    with talk show ?case by (auto simp: lawful_def)
  qed
qed

lemma lawful_handle:
  assumes "lawful h a s"
  shows "wp (handle bd e) (\<lambda>_ (a', s'). lawful (h @ [(e, True)]) a' s') (\<lambda>_ (a', s'). lawful (h @ [(e, False)]) a' s') (a, s)"
  using assms by (cases e) (simp_all add: lawful_frame lawful_back lawful_tick)

lemma reaches_lawful: "reaches bd h a s \<Longrightarrow> lawful h a s"
proof (induction rule: reaches.induct)
  case (booted s)
  then show ?case
    by (simp add: lawful_def statuses_def owned_def interrupted_def conversation.silence LoRaRadioAdapter_new_def [THEN arg_cong, of m_initialStatusSent])
next
  case (elapses h a s w)
  then show ?case
    using adapter_inv_live [OF _ live_same_log, of a s "s\<lparr>world := w\<rparr>"] by (simp add: lawful_def)
next
  case (returns h a s e a' s')
  then show ?case using wp_RetD [OF lawful_handle [OF returns.IH]] by fastforce
next
  case (throws h a s e x a' s')
  then show ?case using wp_ThrowD [OF lawful_handle [OF throws.IH]] by fastforce
qed

section \<open>Properties\<close>

text \<open>A history on the bench board: a tick brings the node up, then a frame is handed over.\<close>

definition bench_frame :: "nat \<Rightarrow> Fw_Buffer" where
  "bench_frame n = \<lparr>buf_addr = 64, buf_size = n, buf_context = 7, buf_memory = replicate n 42\<rparr>"

lemma bench_history:
  "\<exists>a s. reaches (bench_board reply) [(Tick 0 0, True), (DataIn 0 (bench_frame n) FrameContext_default, True)] a s"
proof -
  have "reaches (bench_board reply) [] LoRaRadioAdapter_new (bench_sys [])"
    by (rule reaches.booted) simp
  moreover obtain a1 s1 where one: "run_handler (bench_board reply) 0 0 (LoRaRadioAdapter_new, bench_sys []) = Some (Ret () (a1, s1))"
    and ok: "ready a1" "0 < bench_next (world s1)"
    using twp_run [OF bench_board_good bench_sys_okw adapter_inv_new ready_new, of reply 0 0 "[]"]
    by (auto simp: twp_def)
  ultimately have r1: "reaches (bench_board reply) [(Tick 0 0, True)] a1 s1"
    using reaches.returns [of "bench_board reply" "[]" _ _ "Tick 0 0"] by simp
  have "adapter_inv a1 s1"
    using reaches_lawful [OF r1] by (simp add: lawful_def)
  then obtain a2 s2 where "dataIn_handler (bench_board reply) 0 (bench_frame n) FrameContext_default (a1, s1) = Some (Ret () (a2, s2))"
    using twp_dataIn [OF bench_board_good ok(2) _ ok(1), of reply 0 "bench_frame n" FrameContext_default]
    by (auto simp: twp_def)
  with reaches.returns [OF r1, of "DataIn 0 (bench_frame n) FrameContext_default"] show ?thesis
    by auto
qed



text \<open>
  Over a whole history every frame whose handler returned comes back exactly once, unchanged and in order, on the
  port it came from; the number of status messages is that of these frames, plus one once the initial status was sent.
\<close>

theorem frames_come_back:
  assumes "reaches bd h a s"
  shows "returned_frames (statuses (port_log (app s))) = handled_frames h \<and>
         status_count (statuses (port_log (app s))) = length (handled_frames h) + (if m_initialStatusSent a then 1 else 0)"
proof -
  have "conversation h (statuses (port_log (app s))) (m_initialStatusSent a)"
    using reaches_lawful [OF assms] by (simp add: lawful_def)
  then show ?thesis
    by (simp add: conversation_returns conversation_counts)
qed

theorem frames_come_back_witness:
  "\<exists>a s. reaches (bench_board (\<lambda>_ _. 0)) [(Tick 0 0, True), (DataIn 0 (bench_frame 3) FrameContext_default, True)] a s \<and>
     returned_frames (statuses (port_log (app s))) = [(0, bench_frame 3, FrameContext_default)]"
proof -
  obtain a s where r: "reaches (bench_board (\<lambda>_ _. 0)) [(Tick 0 0, True), (DataIn 0 (bench_frame 3) FrameContext_default, True)] a s"
    using bench_history by blast
  with frames_come_back [OF r] show ?thesis
    by (auto simp: handled_frames_def)
qed



end
