(* ===== verification/Config_Properties.thy ===== *)
theory Config_Properties
  imports Node_Config
begin

text \<open>
  What the configuration loader guarantees: it reads back every configuration its format can express, it
  loads the shipped file, it fails only when the file cannot be opened, sections do not disturb each other,
  and numbers are read at the width of their field. \<open>render\<close> writes a configuration in the layout of
  \<^verbatim>\<open>sx1280.yaml\<close>; it is a specification, the repository has no writer.
\<close>

section \<open>Reading back what was written\<close>

text \<open>A number in decimal notation.\<close>

fun decimal :: "nat \<Rightarrow> string" where
  "decimal n = (if n < 10 then [char_of (48 + n)] else decimal (n div 10) @ [char_of (48 + n mod 10)])"

declare decimal.simps [simp del]

lemma of_char_digit: "d < 10 \<Longrightarrow> (of_char (char_of (48 + d) :: char) :: nat) = 48 + d"
  by simp

lemma decimal_digits: "c \<in> set (decimal n) \<Longrightarrow> isdigit c"
proof (induction n rule: decimal.induct)
  case (1 n)
  then show ?case
    by (cases "n < 10") (auto simp: decimal.simps [of n] isdigit_def)
qed

lemma decimal_nonempty [simp]: "decimal n \<noteq> []"
  by (simp add: decimal.simps [of n])

lemma digits_value_decimal: "digits_value (decimal n) = n"
proof (induction n rule: decimal.induct)
  case (1 n)
  then show ?case
    by (cases "n < 10") (simp_all add: decimal.simps [of n] digits_value_def)
qed

lemma isdigit_facts:
  "isdigit c \<Longrightarrow> \<not> isspace c" "isdigit c \<Longrightarrow> c \<noteq> CHR ''-''" "isdigit c \<Longrightarrow> c \<noteq> CHR ''+''"
  "isdigit c \<Longrightarrow> c \<noteq> hash" "isdigit c \<Longrightarrow> c \<noteq> newline" "isdigit c \<Longrightarrow> c \<noteq> quote"
  by (auto simp: isdigit_def isspace_def newline_def hash_def quote_def)

lemma scan_decimal:
  "scan_number (decimal n) = Some (False, n)" "scan_number (CHR ''-'' # decimal n) = Some (True, n)"
proof -
  obtain c s where d: "decimal n = c # s" by (cases "decimal n") simp_all
  then have c: "isdigit c" and s: "takeWhile isdigit s = s"
    using decimal_digits [of _ n] by (auto simp: takeWhile_eq_all_conv)
  show "scan_number (decimal n) = Some (False, n)" "scan_number (CHR ''-'' # decimal n) = Some (True, n)"
    using isdigit_facts(1-3) [OF c] digits_value_decimal [of n] c
    by (simp_all add: scan_number_def Let_def d s isspace_def newline_def)
qed

lemma stoul_decimal: "stoul (decimal n) = (if n < 2 ^ 64 then Some (of_nat n) else None)"
  by (simp add: stoul_def scan_decimal)

lemma ucast_nat: "n < 2 ^ 64 \<Longrightarrow> (ucast (of_nat n :: u64) :: 'a::len word) = of_nat n"
  by (simp add: unsigned_of_nat take_bit_nat_eq_self)

lemma parse_uint8_decimal: "parse_uint8 (decimal n) = (if n < 256 then Some (of_nat n) else None)"
proof -
  have "(of_nat n :: u64) > 0xFF \<longleftrightarrow> n \<ge> 256" if "n < 2 ^ 64"
    using that by (auto simp: word_less_nat_alt unat_of_nat)
  then show ?thesis
    by (auto simp: parse_uint8_def stoul_decimal ucast_nat)
qed

lemma parse_uint32_decimal: "n < 2 ^ 64 \<Longrightarrow> parse_uint32 (decimal n) = Some (of_nat n)"
  by (simp add: parse_uint32_def stoul_decimal ucast_nat)

definition signed_decimal :: "int \<Rightarrow> string" where
  "signed_decimal i = (if i < 0 then CHR ''-'' # decimal (nat (- i)) else decimal (nat i))"

lemma parse_int8_decimal:
  "parse_int8 (signed_decimal i) = (if -128 \<le> i \<and> i \<le> 127 then Some (word_of_int i) else None)"
  by (auto simp: parse_int8_def stol_def signed_decimal_def scan_decimal Let_def)

text \<open>A line with a key and a value, as \<^verbatim>\<open>sx1280.yaml\<close> writes it.\<close>

definition key_line :: "nat \<Rightarrow> string \<Rightarrow> string \<Rightarrow> string" where
  "key_line indent key value = replicate indent (CHR '' '') @ key @ [colon, CHR '' ''] @ value"

definition quoted :: "string \<Rightarrow> string" where
  "quoted s = quote # s @ [quote]"

definition plain :: "string \<Rightarrow> bool" where
  "plain key \<longleftrightarrow> key \<noteq> [] \<and> list_all (\<lambda>c. \<not> isspace c \<and> c \<noteq> colon \<and> c \<noteq> hash) key"

text \<open>A value that survives the trimming and the removal of comments.\<close>

definition plain_value :: "string \<Rightarrow> bool" where
  "plain_value v \<longleftrightarrow> v \<noteq> [] \<and> \<not> isspace (hd v) \<and> \<not> isspace (last v) \<and> hash \<notin> set v \<and> newline \<notin> set v"

lemma isspace_space [simp]: "isspace (CHR '' '')"
  by (simp add: isspace_def)

lemma dropWhile_replicate: "P x \<Longrightarrow> dropWhile P (replicate n x @ ys) = dropWhile P ys"
  by (induction n) simp_all

lemma dropWhile_hd: "xs \<noteq> [] \<Longrightarrow> \<not> P (hd xs) \<Longrightarrow> dropWhile P xs = xs"
  by (cases xs) simp_all

lemma trim_end_last: "xs \<noteq> [] \<Longrightarrow> \<not> isspace (last xs) \<Longrightarrow> trim_end xs = xs"
  by (simp add: trim_end_def dropWhile_hd hd_rev)

lemma trim_plain: "xs \<noteq> [] \<Longrightarrow> \<not> isspace (hd xs) \<Longrightarrow> \<not> isspace (last xs) \<Longrightarrow> trim xs = xs"
  by (simp add: trim_def dropWhile_hd trim_end_last)

lemma trim_indent: "trim (replicate n (CHR '' '') @ xs) = trim xs" "trim (CHR '' '' # xs) = trim xs"
  by (simp_all add: trim_def dropWhile_replicate)

lemma read_key_line:
  assumes "plain key" "plain_value v"
  shows "read_line (key_line n key v) = Key key (if hd v = quote then strip_quotes v else v)"
proof -
  let ?t = "key @ [colon, CHR '' ''] @ v"
  have key: "key \<noteq> []" "\<not> isspace (hd key)" "\<not> isspace (last key)" "hd key \<noteq> hash" "colon \<notin> set key"
    using assms(1) hd_in_set [of key] last_in_set [of key]
    by (auto simp: plain_def list_all_iff simp del: hd_in_set last_in_set)
  have v: "v \<noteq> []" "trim v = v" "hash \<notin> set v"
    using assms(2) by (auto simp: plain_value_def trim_plain)
  have t: "trim (key_line n key v) = ?t"
    using key v assms(2) by (simp add: key_line_def trim_indent trim_plain plain_value_def)
  have split: "takeWhile (\<lambda>c. c \<noteq> colon) ?t = key" "dropWhile (\<lambda>c. c \<noteq> colon) ?t = colon # CHR '' '' # v"
    using key(5) by (auto simp: takeWhile_append dropWhile_append)
  have header: "?t \<noteq> h" if "CHR '' '' \<notin> set h" for h
    using that by auto
  have "hd ?t = hd key" "colon \<in> set ?t"
    using key(1) by simp_all
  then show ?thesis
    unfolding read_line_def t Let_def split
    using key v by (simp add: header [simplified] trim_plain trim_indent clean_value_def)
qed

lemma plain_value_forms:
  "plain_value (decimal n)" "plain_value (signed_decimal i)"
  "hash \<notin> set s \<Longrightarrow> newline \<notin> set s \<Longrightarrow> plain_value (quoted s)"
  "hd (decimal n) \<noteq> quote" "hd (signed_decimal i) \<noteq> quote" "hd (quoted s) = quote"
  "strip_quotes (quoted s) = s"
proof -
  note digit = isdigit_facts [OF decimal_digits]
  show d: "plain_value (decimal n)" "hd (decimal n) \<noteq> quote" for n
    using digit [of "hd (decimal n)" n] digit [of "last (decimal n)" n] digit(4,5) [of _ n]
    by (auto simp: plain_value_def)
  show "plain_value (signed_decimal i)" "hd (signed_decimal i) \<noteq> quote"
    using d [of "nat i"] d(1) [of "nat (- i)"]
    by (auto simp: plain_value_def signed_decimal_def isspace_def hash_def newline_def quote_def)
  show "hash \<notin> set s \<Longrightarrow> newline \<notin> set s \<Longrightarrow> plain_value (quoted s)"
    by (simp add: plain_value_def quoted_def isspace_def hash_def newline_def quote_def)
  show "hd (quoted s) = quote" "strip_quotes (quoted s) = s"
    by (simp_all add: quoted_def strip_quotes_def)
qed

text \<open>The words of the enumerations.\<close>

definition bool_word :: "bool \<Rightarrow> string" where
  "bool_word b = (if b then ''true'' else ''false'')"

primrec role_word :: "NodeRadioRole \<Rightarrow> string" where
  "role_word RoleRx = ''rx''"
| "role_word RoleTx = ''tx''"
| "role_word RoleTxRx = ''txrx''"

primrec behavior_word :: "TxEnableBehavior \<Rightarrow> string" where
  "behavior_word NoTxEnable = ''none''"
| "behavior_word StaticAsserted = ''static_asserted''"
| "behavior_word StaticDeasserted = ''static_deasserted''"
| "behavior_word AssertDuringTxOnly = ''assert_during_tx''"

definition crc_word :: "RadioLoRaCrcModes_t \<Rightarrow> string" where
  "crc_word c = (if c = LORA_CRC_OFF then ''off'' else ''on'')"

lemma words_parse:
  "parse_bool (bool_word b) = Some b" "parse_node_role (role_word r) = r"
  "parse_tx_behavior (behavior_word t) = t" "parse_crc_mode (crc_word c) = c"
  subgoal by (simp add: parse_bool_def bool_word_def)
  subgoal by (cases r) (simp_all add: parse_node_role_def)
  subgoal by (cases t) (simp_all add: parse_tx_behavior_def)
  subgoal by (cases c) (simp_all add: parse_crc_mode_def crc_word_def)
  done

lemma words_plain:
  "plain_value (bool_word b)" "hd (bool_word b) \<noteq> quote"
  "hash \<notin> set (role_word r)" "newline \<notin> set (role_word r)"
  "hash \<notin> set (behavior_word t)" "newline \<notin> set (behavior_word t)"
  "hash \<notin> set (crc_word c)" "newline \<notin> set (crc_word c)"
  by (simp_all add: bool_word_def plain_value_def crc_word_def isspace_def hash_def newline_def quote_def)
     (cases r; cases t; simp add: hash_def newline_def)+

lemma numbers_parse:
  "parse_uint32 (decimal (unat (w :: u32))) = Some w" "parse_uint8 (decimal (unat (b :: u8))) = Some b"
  "parse_int8 (signed_decimal (sint (p :: u8))) = Some p"
proof -
  have "unat w < 2 ^ LENGTH(32)" "unat b < 2 ^ LENGTH(8)" by (rule unsigned_less)+
  then show "parse_uint32 (decimal (unat w)) = Some w" "parse_uint8 (decimal (unat b)) = Some b"
    by (simp_all add: parse_uint32_decimal parse_uint8_decimal)
  show "parse_int8 (signed_decimal (sint p)) = Some p"
    using sint_greater_eq [of p] sint_less [of p] by (simp add: parse_int8_decimal)
qed

text \<open>A configuration written the way \<^verbatim>\<open>sx1280.yaml\<close> is.\<close>

definition render_radio :: "string \<Rightarrow> RadioHwConfig \<Rightarrow> string list" where
  "render_radio header r =
     (let spi = cfg_spi (hw r); pins = cfg_pins (hw r) in
     [header,
      key_line 4 ''role'' (quoted (role_word (hw_role r))),
      ''    spi:'',
      key_line 6 ''device'' (quoted (device_path spi)),
      key_line 6 ''speed_hz'' (decimal (unat (speed_hz spi))),
      key_line 6 ''mode'' (decimal (unat (spi_mode spi))),
      key_line 6 ''bits_per_word'' (decimal (unat (bits_per_word spi))),
      ''    gpio:'',
      key_line 6 ''chip'' (quoted (chip_path (cfg_gpio (hw r)))),
      ''    pins:'',
      key_line 6 ''reset'' (decimal (unat (reset_line pins))),
      key_line 6 ''busy'' (decimal (unat (busy_line pins))),
      key_line 6 ''has_dio1'' (bool_word (has_dio1 pins)),
      key_line 6 ''dio1'' (decimal (unat (dio1_line pins))),
      key_line 6 ''has_dio2'' (bool_word (has_dio2 pins)),
      key_line 6 ''dio2'' (decimal (unat (dio2_line pins))),
      key_line 6 ''has_dio3'' (bool_word (has_dio3 pins)),
      key_line 6 ''dio3'' (decimal (unat (dio3_line pins))),
      key_line 6 ''has_tx_enable'' (bool_word (has_tx_enable pins)),
      key_line 6 ''tx_enable'' (decimal (unat (tx_enable_line pins))),
      key_line 6 ''tx_enable_active_high'' (bool_word (tx_enable_active_high pins)),
      key_line 6 ''tx_enable_behavior'' (quoted (behavior_word (tx_enable_behavior pins)))])"

definition render_lora :: "Sx1280RfConfig \<Rightarrow> Sx1280LoRaConfig \<Rightarrow> string list" where
  "render_lora rf lora =
     [''lora:'',
      key_line 2 ''frequency_hz'' (decimal (unat (rf_frequency_hz rf))),
      key_line 2 ''tx_power_dbm'' (signed_decimal (sint (rf_tx_power_dbm rf))),
      key_line 2 ''ramp_time'' (quoted ''20us''),
      key_line 2 ''regulator_mode'' (quoted ''dcdc''),
      key_line 2 ''spreading_factor'' (quoted ''sf7''),
      key_line 2 ''bandwidth'' (quoted ''bw_0800''),
      key_line 2 ''coding_rate'' (quoted ''cr_4_5''),
      key_line 2 ''preamble_length'' (decimal (unat (lora_preamble_length lora))),
      key_line 2 ''header_type'' (quoted ''variable_length''),
      key_line 2 ''payload_length'' (decimal (unat (lora_payload_length lora))),
      key_line 2 ''crc'' (quoted (crc_word (lora_crc lora))),
      key_line 2 ''iq_mode'' (quoted ''normal'')]"

definition render_rest :: "Sx1280TimeoutConfig \<Rightarrow> Sx1280RuntimeConfig \<Rightarrow> string list" where
  "render_rest timeouts runtime =
     [''timeouts:'',
      key_line 2 ''tx_ms'' (decimal (unat (PeriodBaseCount (tx_timeout timeouts)))),
      key_line 2 ''rx_ms'' (decimal (unat (PeriodBaseCount (rx_timeout timeouts)))),
      key_line 2 ''continuous_rx'' (bool_word (continuous_rx timeouts)),
      ''runtime:'',
      key_line 2 ''auto_fs'' (bool_word (rt_auto_fs runtime)),
      key_line 2 ''long_preamble'' (bool_word (rt_long_preamble runtime)),
      key_line 2 ''use_manual_gain'' (bool_word (rt_use_manual_gain runtime)),
      key_line 2 ''manual_gain_value'' (decimal (unat (rt_manual_gain_value runtime))),
      key_line 2 ''lna_setting'' (quoted ''high_sensitivity'')]"

definition render :: "NodeConfig \<Rightarrow> string list" where
  "render c = [''radios:''] @ render_radio ''  rx:'' (node_rx c) @ render_radio ''  tx:'' (node_tx c)
     @ render_lora (cfg_rf (node_radio c)) (cfg_lora (node_radio c))
     @ render_rest (cfg_timeouts (node_radio c)) (cfg_runtime (node_radio c))"

text \<open>What the format can express: paths without a comment sign or a line break, timeouts in
  milliseconds, and of the radio's enumerations the one value each that the loader knows, with both
  values for the checksum.\<close>

definition unlines :: "string list \<Rightarrow> string" where
  "unlines ls = concat (map (\<lambda>l. l @ [newline]) ls)"

definition path_ok :: "string \<Rightarrow> bool" where
  "path_ok s \<longleftrightarrow> hash \<notin> set s \<and> newline \<notin> set s"

definition representable_radio :: "RadioHwConfig \<Rightarrow> bool" where
  "representable_radio r \<longleftrightarrow> path_ok (device_path (cfg_spi (hw r))) \<and> path_ok (chip_path (cfg_gpio (hw r)))"

definition representable :: "NodeConfig \<Rightarrow> bool" where
  "representable c \<longleftrightarrow> representable_radio (node_rx c) \<and> representable_radio (node_tx c) \<and>
     (let r = node_radio c in
      rf_ramp_time (cfg_rf r) = RADIO_RAMP_20_US \<and> rf_regulator_mode (cfg_rf r) = USE_DCDC \<and>
      lora_spreading_factor (cfg_lora r) = LORA_SF7 \<and> lora_bandwidth (cfg_lora r) = LORA_BW_0800 \<and>
      lora_coding_rate (cfg_lora r) = LORA_CR_4_5 \<and>
      lora_header_type (cfg_lora r) = LORA_PACKET_VARIABLE_LENGTH \<and> lora_iq_mode (cfg_lora r) = LORA_IQ_NORMAL \<and>
      PeriodBase (tx_timeout (cfg_timeouts r)) = RADIO_TICK_SIZE_1000_US \<and>
      PeriodBase (rx_timeout (cfg_timeouts r)) = RADIO_TICK_SIZE_1000_US \<and>
      rt_lna_setting (cfg_runtime r) = LNA_HIGH_SENSITIVITY_MODE)"

lemma read_forms:
  assumes "plain key"
  shows "read_line (key_line n key (decimal m)) = Key key (decimal m)"
    "read_line (key_line n key (signed_decimal i)) = Key key (signed_decimal i)"
    "read_line (key_line n key (bool_word b)) = Key key (bool_word b)"
    "path_ok s \<Longrightarrow> read_line (key_line n key (quoted s)) = Key key s"
  using assms by (simp_all add: read_key_line plain_value_forms words_plain path_ok_def)

lemmas plain_simps = plain_def isspace_def newline_def colon_def hash_def path_ok_def

lemma words_path_ok: "path_ok (role_word r)" "path_ok (behavior_word t)" "path_ok (crc_word c)"
  by (simp_all add: path_ok_def words_plain)

lemma render_radio_read:
  assumes "representable_radio r" "read_line header = Enter sec"
  shows "map read_line (render_radio header r) =
     (let spi = cfg_spi (hw r); pins = cfg_pins (hw r) in
     [Enter sec, Key ''role'' (role_word (hw_role r)), EnterSub Spi, Key ''device'' (device_path spi),
      Key ''speed_hz'' (decimal (unat (speed_hz spi))), Key ''mode'' (decimal (unat (spi_mode spi))),
      Key ''bits_per_word'' (decimal (unat (bits_per_word spi))), EnterSub Gpio,
      Key ''chip'' (chip_path (cfg_gpio (hw r))), EnterSub Pins,
      Key ''reset'' (decimal (unat (reset_line pins))), Key ''busy'' (decimal (unat (busy_line pins))),
      Key ''has_dio1'' (bool_word (has_dio1 pins)), Key ''dio1'' (decimal (unat (dio1_line pins))),
      Key ''has_dio2'' (bool_word (has_dio2 pins)), Key ''dio2'' (decimal (unat (dio2_line pins))),
      Key ''has_dio3'' (bool_word (has_dio3 pins)), Key ''dio3'' (decimal (unat (dio3_line pins))),
      Key ''has_tx_enable'' (bool_word (has_tx_enable pins)),
      Key ''tx_enable'' (decimal (unat (tx_enable_line pins))),
      Key ''tx_enable_active_high'' (bool_word (tx_enable_active_high pins)),
      Key ''tx_enable_behavior'' (behavior_word (tx_enable_behavior pins))])"
proof -
  have sub: "read_line ''    spi:'' = EnterSub Spi" "read_line ''    gpio:'' = EnterSub Gpio"
    "read_line ''    pins:'' = EnterSub Pins"
    by (simp_all add: line_simps)
  have "plain ''role''" "plain ''device''" "plain ''speed_hz''" "plain ''mode''" "plain ''bits_per_word''"
    "plain ''chip''" "plain ''reset''" "plain ''busy''" "plain ''has_dio1''" "plain ''dio1''"
    "plain ''has_dio2''" "plain ''dio2''" "plain ''has_dio3''" "plain ''dio3''" "plain ''has_tx_enable''"
    "plain ''tx_enable''" "plain ''tx_enable_active_high''" "plain ''tx_enable_behavior''"
    by (simp_all add: plain_simps)
  then show ?thesis
    using assms by (simp add: render_radio_def Let_def read_forms words_path_ok sub representable_radio_def)
qed

lemma render_lora_read:
  "map read_line (render_lora rf lora) =
     [Enter Lora, Key ''frequency_hz'' (decimal (unat (rf_frequency_hz rf))),
      Key ''tx_power_dbm'' (signed_decimal (sint (rf_tx_power_dbm rf))), Key ''ramp_time'' ''20us'',
      Key ''regulator_mode'' ''dcdc'', Key ''spreading_factor'' ''sf7'', Key ''bandwidth'' ''bw_0800'',
      Key ''coding_rate'' ''cr_4_5'', Key ''preamble_length'' (decimal (unat (lora_preamble_length lora))),
      Key ''header_type'' ''variable_length'',
      Key ''payload_length'' (decimal (unat (lora_payload_length lora))), Key ''crc'' (crc_word (lora_crc lora)),
      Key ''iq_mode'' ''normal'']"
proof -
  have "plain ''frequency_hz''" "plain ''tx_power_dbm''" "plain ''ramp_time''" "plain ''regulator_mode''"
    "plain ''spreading_factor''" "plain ''bandwidth''" "plain ''coding_rate''" "plain ''preamble_length''"
    "plain ''header_type''" "plain ''payload_length''" "plain ''crc''" "plain ''iq_mode''"
    "path_ok ''20us''" "path_ok ''dcdc''" "path_ok ''sf7''" "path_ok ''bw_0800''" "path_ok ''cr_4_5''"
    "path_ok ''variable_length''" "path_ok ''normal''"
    by (simp_all add: plain_simps)
  moreover have "read_line ''lora:'' = Enter Lora"
    by (simp add: line_simps)
  ultimately show ?thesis
    by (simp add: render_lora_def read_forms words_path_ok)
qed

lemma render_rest_read:
  "map read_line (render_rest timeouts runtime) =
     [Enter Timeouts, Key ''tx_ms'' (decimal (unat (PeriodBaseCount (tx_timeout timeouts)))),
      Key ''rx_ms'' (decimal (unat (PeriodBaseCount (rx_timeout timeouts)))),
      Key ''continuous_rx'' (bool_word (continuous_rx timeouts)), Enter Runtime,
      Key ''auto_fs'' (bool_word (rt_auto_fs runtime)), Key ''long_preamble'' (bool_word (rt_long_preamble runtime)),
      Key ''use_manual_gain'' (bool_word (rt_use_manual_gain runtime)),
      Key ''manual_gain_value'' (decimal (unat (rt_manual_gain_value runtime))),
      Key ''lna_setting'' ''high_sensitivity'']"
proof -
  have "plain ''tx_ms''" "plain ''rx_ms''" "plain ''continuous_rx''" "plain ''auto_fs''" "plain ''long_preamble''"
    "plain ''use_manual_gain''" "plain ''manual_gain_value''" "plain ''lna_setting''" "path_ok ''high_sensitivity''"
    by (simp_all add: plain_simps)
  moreover have "read_line ''timeouts:'' = Enter Timeouts" "read_line ''runtime:'' = Enter Runtime"
    by (simp_all add: line_simps)
  ultimately show ?thesis
    by (simp add: render_rest_def read_forms)
qed

lemma clamp16_u16 [simp]: "clamp16 (ucast (n :: u16)) = n"
proof (cases "uint n = 65535")
  case True
  then have "n = 0xFFFF"
    using word_of_int_uint [of n] by simp
  then show ?thesis by (simp add: clamp16_def)
next
  case False
  moreover have "uint n < 2 ^ LENGTH(16)" by (rule uint_lt2p)
  moreover from this have "take_bit 32 (uint n) = uint n"
    by (intro take_bit_int_eq_self) simp_all
  ultimately show ?thesis
    by (auto simp: clamp16_def word_le_def unsigned_ucast_eq take_bit_word_eq_self)
qed

lemma render_rx_loads:
  assumes "representable_radio r"
  shows "fold do_line (map read_line (render_radio ''  rx:'' r))
      \<lparr>cur_section = sec, cur_sub = ss, loaded = \<lparr>node_rx = r0, node_tx = x, node_radio = y\<rparr>\<rparr>
    = \<lparr>cur_section = RadiosRx, cur_sub = Pins, loaded = \<lparr>node_rx = r, node_tx = x, node_radio = y\<rparr>\<rparr>"
proof -
  have "read_line ''  rx:'' = Enter RadiosRx" by (simp add: line_simps)
  from render_radio_read [OF assms this] show ?thesis
    by (simp add: Let_def key_simps words_parse numbers_parse)
qed

lemma render_tx_loads:
  assumes "representable_radio r"
  shows "fold do_line (map read_line (render_radio ''  tx:'' r))
      \<lparr>cur_section = sec, cur_sub = ss, loaded = \<lparr>node_rx = x, node_tx = r0, node_radio = y\<rparr>\<rparr>
    = \<lparr>cur_section = RadiosTx, cur_sub = Pins, loaded = \<lparr>node_rx = x, node_tx = r, node_radio = y\<rparr>\<rparr>"
proof -
  have "read_line ''  tx:'' = Enter RadiosTx" by (simp add: line_simps)
  from render_radio_read [OF assms this] show ?thesis
    by (simp add: Let_def key_simps words_parse numbers_parse)
qed

lemma render_radio_loads:
  assumes "representable c"
  shows "fold do_line (map read_line (render_lora (cfg_rf (node_radio c)) (cfg_lora (node_radio c))
        @ render_rest (cfg_timeouts (node_radio c)) (cfg_runtime (node_radio c))))
      \<lparr>cur_section = sec, cur_sub = ss, loaded = \<lparr>node_rx = x, node_tx = y, node_radio = Sx1280Config_default\<rparr>\<rparr>
    = \<lparr>cur_section = Runtime, cur_sub = SubNone, loaded = \<lparr>node_rx = x, node_tx = y, node_radio = node_radio c\<rparr>\<rparr>"
proof -
  have ms: "parse_uint32 (decimal (unat (n :: u16))) = Some (ucast n)" for n
  proof -
    have "unat n < 2 ^ LENGTH(16)" by (rule unsigned_less)
    then show ?thesis by (simp add: parse_uint32_decimal)
  qed
  show ?thesis
    using assms
    by (simp add: representable_def Let_def render_lora_read render_rest_read key_simps words_parse numbers_parse
        ms single_valued ms_timeout_def radio_defaults)
qed

lemmas rendered_values = plain_value_forms(1-3) words_plain(1) words_plain(3-8)

lemma render_closed:
  assumes "representable c" "l \<in> set (render c)"
  shows "newline \<notin> set l"
proof -
  have closed: "newline \<in> set (key_line n key v) \<longleftrightarrow> newline \<in> set key \<or> newline \<in> set v" for n key v
    by (auto simp: key_line_def newline_def colon_def)
  have numbers: "newline \<notin> set (decimal n)" "newline \<notin> set (signed_decimal i)" "newline \<notin> set (bool_word b)" for n i b
    using rendered_values(1,2,4) by (simp_all add: plain_value_def)
  have quoted: "newline \<in> set (quoted s) \<longleftrightarrow> newline \<in> set s" for s
    by (auto simp: quoted_def newline_def quote_def)
  have radio: "newline \<notin> set l" if "representable_radio r" "l \<in> set (render_radio h r)" "newline \<notin> set h" for r h
    using that unfolding render_radio_def Let_def list.set insert_iff empty_iff
    by (elim disjE FalseE; hypsubst)
       (simp_all add: closed numbers quoted rendered_values representable_radio_def path_ok_def, simp_all add: newline_def)
  have rest: "newline \<notin> set l" if "l \<in> set (render_lora a b)" for a b
    using that unfolding render_lora_def list.set insert_iff empty_iff
    by (elim disjE FalseE; hypsubst) (simp_all add: closed numbers quoted rendered_values, simp_all add: newline_def)
  have rest': "newline \<notin> set l" if "l \<in> set (render_rest a b)" for a b
    using that unfolding render_rest_def list.set insert_iff empty_iff
    by (elim disjE FalseE; hypsubst) (simp_all add: closed numbers quoted rendered_values, simp_all add: newline_def)
  show ?thesis
    using assms rest rest' radio [of "node_rx c" "''  rx:''"] radio [of "node_tx c" "''  tx:''"]
    by (auto simp: render_def representable_def newline_def)
qed

section \<open>Properties of the loader\<close>

text \<open>
  C27: The loader reads back what the format can express: writing any representable configuration in the
  layout of \<^verbatim>\<open>sx1280.yaml\<close> and loading the file gives exactly that configuration, whatever the target held
  before.
\<close>

theorem config_roundtrip:
  assumes "representable c" and "files path = Some (unlines (render c))"
  shows "loadNodeConfigFromYaml files path out = (ErrNone, c, [])"
proof -
  let ?init = "\<lparr>cur_section = SecNone, cur_sub = SubNone, loaded = NodeConfig_default\<rparr>"
  have "read_line ''radios:'' = Radios" by (simp add: line_simps)
  then have radios: "fold do_line (map read_line [''radios:'']) ?init = ?init"
    by (simp add: do_line_def)
  have "parse_config (unlines (render c)) = loaded (fold do_line (map read_line (render c)) loader_init)"
    unfolding unlines_def by (rule parse_config_unlines) (rule render_closed [OF assms(1)])
  also have "\<dots> = c"
    using assms(1) render_radio_loads [OF assms(1)]
    unfolding render_def loader_init_def map_append fold_append comp_def radios
    by (simp add: representable_def NodeConfig_default_def render_rx_loads render_tx_loads
        del: list.map)
  finally show ?thesis
    by (simp add: loadNodeConfigFromYaml_def read_file_to_string_def assms(2))
qed

theorem config_roundtrip_witness:
  "representable (yaml_config\<lparr>node_rx := yaml_rx_radio\<lparr>hw_role := RoleTxRx\<rparr>\<rparr>) \<and>
   loadNodeConfigFromYaml (\<lambda>_. Some (unlines (render (yaml_config\<lparr>node_rx := yaml_rx_radio\<lparr>hw_role := RoleTxRx\<rparr>\<rparr>))))
     ''node.yaml'' NodeConfig_default = (ErrNone, yaml_config\<lparr>node_rx := yaml_rx_radio\<lparr>hw_role := RoleTxRx\<rparr>\<rparr>, [])"
proof -
  have "representable (yaml_config\<lparr>node_rx := yaml_rx_radio\<lparr>hw_role := RoleTxRx\<rparr>\<rparr>)"
    by (simp add: representable_def representable_radio_def path_ok_def yaml_config_def yaml_rx_radio_def
        yaml_tx_radio_def yaml_radio_def radio_defaults hash_def newline_def)
  then show ?thesis by (simp add: config_roundtrip)
qed

text \<open>
  The shipped file \<^verbatim>\<open>sx1280.yaml\<close> loads without error and gives the two-radio configuration it
  describes; both radios pass the validation of the Linux implementation.
\<close>

theorem shipped_configuration:
  "loadNodeConfigFromYaml (\<lambda>_. Some sx1280_yaml) path out = (ErrNone, yaml_config, []) \<and>
   valid_config (hw (node_rx yaml_config)) \<and> valid_config (hw (node_tx yaml_config))"
  by (simp add: loadNodeConfigFromYaml_def read_file_to_string_def parse_shipped shipped_valid)

text \<open>
  Loading fails only when the file cannot be opened, and then the caller's configuration is untouched and
  the message names the path; in every other case the loader reports success and the result does not depend
  on what the caller's configuration was. The codes \<^verbatim>\<open>ParseError\<close> and \<^verbatim>\<open>InvalidSchema\<close> are never returned.
\<close>

theorem load_outcomes:
  "(case loadNodeConfigFromYaml files path out of (err, c, message) \<Rightarrow>
      (err = IoError \<longleftrightarrow> files path = None) \<and> err \<noteq> ParseError \<and> err \<noteq> InvalidSchema \<and>
      (err = IoError \<longrightarrow> c = out \<and> suffix path message) \<and>
      (err = ErrNone \<longrightarrow> message = [] \<and> loadNodeConfigFromYaml files path out' = (ErrNone, c, [])))"
  by (auto simp: loadNodeConfigFromYaml_def read_file_to_string_def suffix_def split: option.splits)

theorem load_outcomes_witness:
  "loadNodeConfigFromYaml (\<lambda>_. None) ''a.yaml'' yaml_config = (IoError, yaml_config, ''failed to open config file: a.yaml'')"
  using load_outcomes [of "\<lambda>_. None" "''a.yaml''" yaml_config NodeConfig_default]
  by (simp add: loadNodeConfigFromYaml_def read_file_to_string_def)

text \<open>The part of the configuration a section owns.\<close>

definition part :: "Section \<Rightarrow> NodeConfig \<Rightarrow> NodeConfig" where
  "part sec c = (case sec of
       RadiosRx \<Rightarrow> NodeConfig_default\<lparr>node_rx := node_rx c\<rparr>
     | RadiosTx \<Rightarrow> NodeConfig_default\<lparr>node_tx := node_tx c\<rparr>
     | Lora \<Rightarrow> NodeConfig_default\<lparr>node_radio := Sx1280Config_default
         \<lparr>cfg_rf := cfg_rf (node_radio c), cfg_lora := cfg_lora (node_radio c)\<rparr>\<rparr>
     | Timeouts \<Rightarrow> NodeConfig_default\<lparr>node_radio := Sx1280Config_default\<lparr>cfg_timeouts := cfg_timeouts (node_radio c)\<rparr>\<rparr>
     | Runtime \<Rightarrow> NodeConfig_default\<lparr>node_radio := Sx1280Config_default\<lparr>cfg_runtime := cfg_runtime (node_radio c)\<rparr>\<rparr>
     | SecNone \<Rightarrow> NodeConfig_default)"

lemma part_set_key: "sec \<noteq> sec' \<Longrightarrow> part sec (set_key sec' ss key value c) = part sec c"
  by (cases sec; cases sec') (simp_all add: part_def set_key_def)

lemma fold_do_line_part:
  assumes "Enter sec \<notin> set as" "cur_section st \<noteq> sec" "sec \<noteq> SecNone"
  shows "part sec (loaded (fold do_line as st)) = part sec (loaded st)"
  using assms(1,2)
proof (induction as arbitrary: st)
  case (Cons a as)
  have "cur_section (do_line a st) \<noteq> sec"
    using Cons.prems assms(3) by (cases a) (auto simp: do_line_def)
  moreover have "part sec (loaded (do_line a st)) = part sec (loaded st)"
    using Cons.prems(2) by (cases a) (simp_all add: do_line_def part_set_key)
  ultimately show ?case
    using Cons.IH [of "do_line a st"] Cons.prems(1) by simp
qed simp

text \<open>
  A line only ever changes the part of the configuration that belongs to the section it stands in: a section
  that a file never opens keeps its defaults, whatever else the file holds.
\<close>

theorem unopened_section_default:
  assumes "Enter sec \<notin> set (map read_line (getlines yaml))"
  shows "part sec (parse_config yaml) = part sec NodeConfig_default"
proof (cases "sec = SecNone")
  case False
  have "process_line = (\<lambda>l. do_line (read_line l))"
    by (simp add: fun_eq_iff process_line_def)
  then have "parse_config yaml = loaded (fold do_line (map read_line (getlines yaml)) loader_init)"
    by (simp add: parse_config_def fold_map comp_def)
  with False assms fold_do_line_part [OF assms, of loader_init] show ?thesis
    by (simp add: loader_init_def)
qed (simp add: part_def)

theorem unopened_section_default_witness:
  "Enter RadiosTx \<notin> set (map read_line (getlines (unlines yaml_rx_lines))) \<and>
   node_tx (parse_config (unlines yaml_rx_lines)) = RadioHwConfig_default"
proof -
  have "getlines (unlines yaml_rx_lines) = yaml_rx_lines"
    unfolding unlines_def by (rule getlines_unlines) (simp add: yaml_lines_closed)
  then have closed: "Enter RadiosTx \<notin> set (map read_line (getlines (unlines yaml_rx_lines)))"
    by (simp add: yaml_rx_read del: list.set_map)
  then show ?thesis
    using unopened_section_default [OF closed] by (simp add: part_def NodeConfig_default_def del: list.set_map)
qed

text \<open>
  Numbers are read at their width: a decimal number is accepted for an 8-bit field exactly when it fits, for
  a signed byte exactly when it lies between -128 and 127, and for a 32-bit field it is reduced modulo \<open>2 ^ 32\<close>
  as long as it fits \<^verbatim>\<open>unsigned long\<close>.
\<close>

theorem number_fields:
  "parse_uint8 (decimal n) = (if n < 256 then Some (of_nat n) else None) \<and>
   parse_int8 (signed_decimal i) = (if -128 \<le> i \<and> i \<le> 127 then Some (word_of_int i) else None) \<and>
   parse_uint32 (decimal n) = (if n < 2 ^ 64 then Some (of_nat (n mod 2 ^ 32)) else None)"
proof -
  have "(of_nat (n mod 2 ^ 32) :: u32) = of_nat n"
    unfolding word_of_nat_eq_iff by (simp add: take_bit_nat_def)
  then show ?thesis
    by (simp add: parse_uint8_decimal parse_int8_decimal parse_uint32_decimal parse_uint32_def stoul_decimal ucast_nat)
qed

end
