(* ===== verification/Circular_Buffer.thy ===== *)
theory Circular_Buffer
  imports Fprime_Types
begin

text \<open>
  The ring buffer \<^verbatim>\<open>Types::CircularBuffer\<close> (\<^verbatim>\<open>lib/fprime/Utils/Types/CircularBuffer.{hpp,cpp}\<close>): bytes stored in a fixed
  memory from a moving head, with wrap-around, and the proof that it is a queue of bytes of bounded capacity.
  The memory the caller hands over is part of the model; \<open>None\<close> is the null pointer.
\<close>

section \<open>The class\<close>

record CircularBuffer =
  m_store :: "bytes option"
  m_store_size :: nat
  m_head_idx :: nat
  m_allocated_size :: nat
  m_high_water_mark :: nat

definition CircularBuffer_new :: CircularBuffer where
  "CircularBuffer_new = \<lparr>m_store = None, m_store_size = 0, m_head_idx = 0, m_allocated_size = 0, m_high_water_mark = 0\<rparr>"

definition CircularBuffer_setup :: "bytes option \<Rightarrow> nat \<Rightarrow> CircularBuffer \<Rightarrow> CircularBuffer option" where
  "CircularBuffer_setup buffer sz cb = do {
     FW_ASSERT (sz > 0);
     FW_ASSERT (buffer \<noteq> None);
     FW_ASSERT (m_store cb = None \<and> m_store_size cb = 0);
     Some \<lparr>m_store = buffer, m_store_size = sz, m_head_idx = 0, m_allocated_size = 0, m_high_water_mark = 0\<rparr>
   }"

definition get_allocated_size :: "CircularBuffer \<Rightarrow> nat" where
  "get_allocated_size cb = m_allocated_size cb"

definition set_up :: "CircularBuffer \<Rightarrow> unit option" where
  "set_up cb = FW_ASSERT (m_store cb \<noteq> None \<and> m_store_size cb \<noteq> 0)"

definition get_free_size :: "CircularBuffer \<Rightarrow> nat option" where
  "get_free_size cb = do {
     set_up cb;
     FW_ASSERT (m_allocated_size cb \<le> m_store_size cb);
     Some (m_store_size cb - m_allocated_size cb)
   }"

definition get_capacity :: "CircularBuffer \<Rightarrow> nat option" where
  "get_capacity cb = do { set_up cb; Some (m_store_size cb) }"

definition get_high_water_mark :: "CircularBuffer \<Rightarrow> nat" where
  "get_high_water_mark cb = m_high_water_mark cb"

definition clear_high_water_mark :: "CircularBuffer \<Rightarrow> CircularBuffer" where
  "clear_high_water_mark cb = cb\<lparr>m_high_water_mark := 0\<rparr>"

definition advance_idx :: "CircularBuffer \<Rightarrow> nat \<Rightarrow> nat \<Rightarrow> nat option" where
  "advance_idx cb idx amount = do {
     FW_ASSERT (idx < m_store_size cb);
     Some ((idx + amount) mod m_store_size cb)
   }"

text \<open>The copying loops: \<open>store_loop\<close> of \<^verbatim>\<open>serialize\<close>, \<open>load_loop\<close> of \<^verbatim>\<open>peek\<close>, both advancing a wrapped index.\<close>

fun store_loop :: "bytes \<Rightarrow> nat \<Rightarrow> CircularBuffer \<Rightarrow> CircularBuffer option" where
  "store_loop [] idx cb = Some cb"
| "store_loop (b # bs) idx cb = do {
     FW_ASSERT (idx < m_store_size cb);
     idx' \<leftarrow> advance_idx cb idx 1;
     store_loop bs idx' (cb\<lparr>m_store := map_option (\<lambda>st. st[idx := b]) (m_store cb)\<rparr>)
   }"

fun load_loop :: "nat \<Rightarrow> nat \<Rightarrow> CircularBuffer \<Rightarrow> bytes option" where
  "load_loop 0 idx cb = Some []"
| "load_loop (Suc n) idx cb = do {
     FW_ASSERT (idx < m_store_size cb);
     idx' \<leftarrow> advance_idx cb idx 1;
     bs \<leftarrow> load_loop n idx' cb;
     st \<leftarrow> m_store cb;
     Some (st ! idx # bs)
   }"

definition serialize :: "bytes \<Rightarrow> CircularBuffer \<Rightarrow> (SerializeStatus \<times> CircularBuffer) option" where
  "serialize buffer cb = do {
     set_up cb;
     free \<leftarrow> get_free_size cb;
     if length buffer > free then Some (FW_SERIALIZE_NO_ROOM_LEFT, cb)
     else do {
       idx \<leftarrow> advance_idx cb (m_head_idx cb) (m_allocated_size cb);
       cb \<leftarrow> store_loop buffer idx cb;
       cb \<leftarrow> Some (cb\<lparr>m_allocated_size := m_allocated_size cb + length buffer\<rparr>);
       cap \<leftarrow> get_capacity cb;
       FW_ASSERT (m_allocated_size cb \<le> cap);
       Some (FW_SERIALIZE_OK, cb\<lparr>m_high_water_mark := max (m_high_water_mark cb) (m_allocated_size cb)\<rparr>)
     }
   }"

text \<open>The \<^verbatim>\<open>peek\<close> overloads: one byte (also as \<^verbatim>\<open>char\<close>), a big-endian \<^verbatim>\<open>U32\<close>, and a block. The result is the status
  and what was stored through the output parameter.\<close>

definition peek_U8 :: "nat \<Rightarrow> CircularBuffer \<Rightarrow> (SerializeStatus \<times> u8 option) option" where
  "peek_U8 offset cb = do {
     set_up cb;
     if 1 + offset > m_allocated_size cb then Some (FW_DESERIALIZE_BUFFER_EMPTY, None)
     else do {
       idx \<leftarrow> advance_idx cb (m_head_idx cb) offset;
       FW_ASSERT (idx < m_store_size cb);
       st \<leftarrow> m_store cb;
       Some (FW_SERIALIZE_OK, Some (st ! idx))
     }
   }"

definition peek_U32 :: "nat \<Rightarrow> CircularBuffer \<Rightarrow> (SerializeStatus \<times> u32 option) option" where
  "peek_U32 offset cb = do {
     set_up cb;
     if 4 + offset > m_allocated_size cb then Some (FW_DESERIALIZE_BUFFER_EMPTY, None)
     else do {
       idx \<leftarrow> advance_idx cb (m_head_idx cb) offset;
       bs \<leftarrow> load_loop 4 idx cb;
       Some (FW_SERIALIZE_OK, Some (fold (\<lambda>b value. push_bit 8 value OR ucast b) bs 0))
     }
   }"

definition peek :: "nat \<Rightarrow> nat \<Rightarrow> CircularBuffer \<Rightarrow> (SerializeStatus \<times> bytes option) option" where
  "peek sz offset cb = do {
     set_up cb;
     if sz + offset > m_allocated_size cb then Some (FW_DESERIALIZE_BUFFER_EMPTY, None)
     else do {
       idx \<leftarrow> advance_idx cb (m_head_idx cb) offset;
       bs \<leftarrow> load_loop sz idx cb;
       Some (FW_SERIALIZE_OK, Some bs)
     }
   }"

definition rotate :: "nat \<Rightarrow> CircularBuffer \<Rightarrow> (SerializeStatus \<times> CircularBuffer) option" where
  "rotate amount cb = do {
     set_up cb;
     if amount > m_allocated_size cb then Some (FW_DESERIALIZE_BUFFER_EMPTY, cb)
     else do {
       head \<leftarrow> advance_idx cb (m_head_idx cb) amount;
       Some (FW_SERIALIZE_OK, cb\<lparr>m_head_idx := head, m_allocated_size := m_allocated_size cb - amount\<rparr>)
     }
   }"

section \<open>The queue it implements\<close>

definition ring_ok :: "CircularBuffer \<Rightarrow> bool" where
  "ring_ok cb \<longleftrightarrow> (\<exists>st. m_store cb = Some st \<and> length st = m_store_size cb) \<and> 0 < m_store_size cb \<and>
     m_head_idx cb < m_store_size cb \<and> m_allocated_size cb \<le> m_store_size cb"

definition contents :: "CircularBuffer \<Rightarrow> bytes" where
  "contents cb = map (\<lambda>i. the (m_store cb) ! ((m_head_idx cb + i) mod m_store_size cb)) [0..<m_allocated_size cb]"

lemma length_contents [simp]: "length (contents cb) = m_allocated_size cb"
  by (simp add: contents_def)

lemma ring_ok_setup: "0 < n \<Longrightarrow> length st = n \<Longrightarrow>
  \<exists>cb. CircularBuffer_setup (Some st) n CircularBuffer_new = Some cb \<and> ring_ok cb \<and> contents cb = [] \<and> m_store_size cb = n"
  by (auto simp: CircularBuffer_setup_def CircularBuffer_new_def ring_ok_def contents_def)

lemma ring_set_up [simp]: "ring_ok cb \<Longrightarrow> set_up cb = Some ()"
  by (auto simp: ring_ok_def set_up_def)

lemma ring_sizes [simp]:
  "ring_ok cb \<Longrightarrow> get_free_size cb = Some (m_store_size cb - m_allocated_size cb)"
  "ring_ok cb \<Longrightarrow> get_capacity cb = Some (m_store_size cb)"
  by (auto simp: get_free_size_def get_capacity_def ring_ok_def set_up_def)

lemma advance_idx_ok [simp]: "idx < m_store_size cb \<Longrightarrow> advance_idx cb idx k = Some ((idx + k) mod m_store_size cb)"
  by (simp add: advance_idx_def)

lemma load_loop_reads:
  assumes "ring_ok cb" "idx < m_store_size cb"
  shows "load_loop n idx cb = Some (map (\<lambda>i. the (m_store cb) ! ((idx + i) mod m_store_size cb)) [0..<n])"
  using assms(2)
proof (induction n arbitrary: idx)
  case (Suc n)
  let ?N = "m_store_size cb"
  have "0 < ?N" using assms(1) by (simp add: ring_ok_def)
  moreover have "map (\<lambda>i. f ((idx + i) mod ?N)) [0..<Suc n] =
      f idx # map (\<lambda>i. f (((idx + 1) mod ?N + i) mod ?N)) [0..<n]" for f :: "nat \<Rightarrow> u8"
    using Suc.prems by (simp add: upt_conv_Cons map_Suc_upt [symmetric] mod_add_left_eq del: upt_Suc)
  ultimately show ?case
    using Suc assms(1) by (auto simp: ring_ok_def simp del: upt_Suc)
qed simp

text \<open>Reading inside the allocated part, at an offset from the head.\<close>

lemma load_loop_contents:
  assumes "ring_ok cb" "n + off \<le> m_allocated_size cb"
  shows "load_loop n ((m_head_idx cb + off) mod m_store_size cb) cb = Some (take n (drop off (contents cb)))"
proof -
  have "(m_head_idx cb + off) mod m_store_size cb < m_store_size cb"
    using assms(1) by (simp add: ring_ok_def)
  moreover have "map (\<lambda>i. f (((m_head_idx cb + off) mod m_store_size cb + i) mod m_store_size cb)) [0..<n] =
      take n (drop off (map (\<lambda>i. f ((m_head_idx cb + i) mod m_store_size cb)) [0..<m_allocated_size cb]))"
    for f :: "nat \<Rightarrow> u8"
    using assms(2) by (intro nth_equalityI) (simp_all add: mod_add_left_eq add.assoc)
  ultimately show ?thesis
    using load_loop_reads [OF assms(1)] by (simp add: contents_def)
qed

lemma peek_contents:
  assumes "ring_ok cb"
  shows "peek n off cb = Some (if n + off \<le> length (contents cb)
    then (FW_SERIALIZE_OK, Some (take n (drop off (contents cb)))) else (FW_DESERIALIZE_BUFFER_EMPTY, None))"
proof -
  have "m_head_idx cb < m_store_size cb" using assms by (simp add: ring_ok_def)
  then show ?thesis
    using assms load_loop_contents [OF assms] by (simp add: peek_def)
qed

lemma peek_U8_contents:
  assumes "ring_ok cb"
  shows "peek_U8 off cb = Some (if off < length (contents cb)
    then (FW_SERIALIZE_OK, Some (contents cb ! off)) else (FW_DESERIALIZE_BUFFER_EMPTY, None))"
  using assms by (auto simp: peek_U8_def ring_ok_def contents_def)

lemma peek_U32_contents:
  assumes "ring_ok cb"
  shows "peek_U32 off cb = Some (if 4 + off \<le> length (contents cb)
    then (FW_SERIALIZE_OK, Some (fold (\<lambda>b value. push_bit 8 value OR ucast b) (take 4 (drop off (contents cb))) 0))
    else (FW_DESERIALIZE_BUFFER_EMPTY, None))"
proof -
  have "m_head_idx cb < m_store_size cb" using assms by (simp add: ring_ok_def)
  then show ?thesis
    using assms load_loop_contents [OF assms, of 4 off] by (simp add: peek_U32_def)
qed

lemma rotate_contents:
  assumes "ring_ok cb"
  shows "rotate n cb = Some (if n \<le> length (contents cb)
      then (FW_SERIALIZE_OK, cb\<lparr>m_head_idx := (m_head_idx cb + n) mod m_store_size cb,
        m_allocated_size := m_allocated_size cb - n\<rparr>) else (FW_DESERIALIZE_BUFFER_EMPTY, cb))"
    and "n \<le> length (contents cb) \<Longrightarrow> ring_ok (cb\<lparr>m_head_idx := (m_head_idx cb + n) mod m_store_size cb,
        m_allocated_size := m_allocated_size cb - n\<rparr>)"
    and "n \<le> length (contents cb) \<Longrightarrow> contents (cb\<lparr>m_head_idx := (m_head_idx cb + n) mod m_store_size cb,
        m_allocated_size := m_allocated_size cb - n\<rparr>) = drop n (contents cb)"
proof -
  have "m_head_idx cb < m_store_size cb" using assms by (simp add: ring_ok_def)
  then show "rotate n cb = Some (if n \<le> length (contents cb)
      then (FW_SERIALIZE_OK, cb\<lparr>m_head_idx := (m_head_idx cb + n) mod m_store_size cb,
        m_allocated_size := m_allocated_size cb - n\<rparr>) else (FW_DESERIALIZE_BUFFER_EMPTY, cb))"
    using assms by (simp add: rotate_def)
  show "n \<le> length (contents cb) \<Longrightarrow> ring_ok (cb\<lparr>m_head_idx := (m_head_idx cb + n) mod m_store_size cb,
        m_allocated_size := m_allocated_size cb - n\<rparr>)"
    using assms by (auto simp: ring_ok_def)
  show "n \<le> length (contents cb) \<Longrightarrow> contents (cb\<lparr>m_head_idx := (m_head_idx cb + n) mod m_store_size cb,
        m_allocated_size := m_allocated_size cb - n\<rparr>) = drop n (contents cb)"
    by (intro nth_equalityI) (simp_all add: contents_def drop_map mod_add_left_eq add.assoc)
qed

text \<open>Storing one byte behind the allocated part and counting it appends it.\<close>

definition put_byte :: "u8 \<Rightarrow> CircularBuffer \<Rightarrow> CircularBuffer" where
  "put_byte b cb = cb\<lparr>m_store := map_option (\<lambda>st. st[(m_head_idx cb + m_allocated_size cb) mod m_store_size cb := b])
     (m_store cb), m_allocated_size := Suc (m_allocated_size cb)\<rparr>"

lemma put_byte_simps [simp]:
  "m_store_size (put_byte b cb) = m_store_size cb" "m_head_idx (put_byte b cb) = m_head_idx cb"
  "m_allocated_size (put_byte b cb) = Suc (m_allocated_size cb)"
  "m_high_water_mark (put_byte b cb) = m_high_water_mark cb"
  by (simp_all add: put_byte_def)

lemma wrapped_inj:
  "i < N \<Longrightarrow> j < N \<Longrightarrow> (h + i) mod N = (h + j) mod N \<Longrightarrow> i = (j :: nat)"
proof (induction i j rule: linorder_wlog)
  case (le a b)
  then have "N dvd b - a"
    using mod_eq_dvd_iff_nat [of "h + a" "h + b" N] by simp
  then show ?case
    using le by (auto dest: dvd_imp_le)
qed auto

lemma put_byte_contents:
  assumes "ring_ok cb" "m_allocated_size cb < m_store_size cb"
  shows "ring_ok (put_byte b cb)" "contents (put_byte b cb) = contents cb @ [b]"
proof -
  obtain st where st: "m_store cb = Some st" "length st = m_store_size cb"
    using assms(1) by (auto simp: ring_ok_def)
  let ?N = "m_store_size cb" and ?p = "(m_head_idx cb + m_allocated_size cb) mod m_store_size cb"
  have "?p < ?N" using assms by (simp add: ring_ok_def)
  moreover have "?p \<noteq> (m_head_idx cb + i) mod ?N" if "i < m_allocated_size cb" for i
    using wrapped_inj [of i ?N "m_allocated_size cb" "m_head_idx cb"] that assms by auto
  ultimately show "contents (put_byte b cb) = contents cb @ [b]"
    using st by (intro nth_equalityI) (auto simp: contents_def put_byte_def nth_append less_Suc_eq simp del: upt_Suc)
  show "ring_ok (put_byte b cb)"
    using assms st by (auto simp: ring_ok_def put_byte_def)
qed

lemma store_loop_keeps:
  "store_loop bs idx cb = Some cb' \<Longrightarrow> m_allocated_size cb' = m_allocated_size cb"
  by (induction bs idx cb rule: store_loop.induct) (auto simp: bind_eq_Some_conv)

lemma alloc_store: "cb\<lparr>m_allocated_size := a, m_store := x\<rparr> = cb\<lparr>m_store := x, m_allocated_size := a\<rparr>"
  by simp

lemma store_loop_alloc:
  "store_loop bs idx (cb\<lparr>m_allocated_size := a\<rparr>) = map_option (\<lambda>c. c\<lparr>m_allocated_size := a\<rparr>) (store_loop bs idx cb)"
proof (induction bs arbitrary: idx cb)
  case (Cons b bs)
  show ?case
    using Cons [where cb = "cb\<lparr>m_store := map_option (\<lambda>st. st[idx := b]) (m_store cb)\<rparr>"]
    by (cases "idx < m_store_size cb") (simp_all add: FW_ASSERT_def advance_idx_def alloc_store)
qed simp

lemma store_loop_appends:
  assumes "ring_ok cb" "m_allocated_size cb + length bs \<le> m_store_size cb"
  shows "\<exists>cb'. store_loop bs ((m_head_idx cb + m_allocated_size cb) mod m_store_size cb) cb = Some cb' \<and>
    cb'\<lparr>m_allocated_size := m_allocated_size cb' + length bs\<rparr> = fold put_byte bs cb"
  using assms
proof (induction bs arbitrary: cb)
  case (Cons b bs)
  let ?N = "m_store_size cb" and ?p = "(m_head_idx cb + m_allocated_size cb) mod m_store_size cb"
  let ?c = "cb\<lparr>m_store := map_option (\<lambda>st. st[?p := b]) (m_store cb)\<rparr>"
  have "?p < ?N" using Cons.prems(1) by (simp add: ring_ok_def)
  moreover have "put_byte b cb = ?c\<lparr>m_allocated_size := Suc (m_allocated_size cb)\<rparr>"
    by (simp add: put_byte_def)
  ultimately show ?case
    using Cons.IH [of "put_byte b cb"] put_byte_contents(1) [OF Cons.prems(1), of b] Cons.prems(2)
    by (auto simp: store_loop_alloc mod_Suc_eq) (frule store_loop_keeps, simp)
qed simp

lemma put_bytes_contents:
  assumes "ring_ok cb" "m_allocated_size cb + length bs \<le> m_store_size cb"
  shows "ring_ok (fold put_byte bs cb) \<and> contents (fold put_byte bs cb) = contents cb @ bs \<and>
    m_store_size (fold put_byte bs cb) = m_store_size cb"
  using assms by (induction bs arbitrary: cb) (simp_all add: put_byte_contents)

lemma serialize_contents:
  assumes "ring_ok cb"
  shows "m_store_size cb < length (contents cb) + length bs \<Longrightarrow> serialize bs cb = Some (FW_SERIALIZE_NO_ROOM_LEFT, cb)"
    and "length (contents cb) + length bs \<le> m_store_size cb \<Longrightarrow> \<exists>cb'. serialize bs cb = Some (FW_SERIALIZE_OK, cb') \<and>
      ring_ok cb' \<and> contents cb' = contents cb @ bs \<and> m_store_size cb' = m_store_size cb"
proof -
  show "m_store_size cb < length (contents cb) + length bs \<Longrightarrow> serialize bs cb = Some (FW_SERIALIZE_NO_ROOM_LEFT, cb)"
  proof -
    assume full: "m_store_size cb < length (contents cb) + length bs"
    have "m_allocated_size cb \<le> m_store_size cb" using assms by (simp add: ring_ok_def)
    with full have "m_store_size cb - m_allocated_size cb < length bs" by simp
    with assms show ?thesis by (simp add: serialize_def)
  qed
  assume room: "length (contents cb) + length bs \<le> m_store_size cb"
  then obtain cb' where cb': "store_loop bs ((m_head_idx cb + m_allocated_size cb) mod m_store_size cb) cb = Some cb'"
    "cb'\<lparr>m_allocated_size := m_allocated_size cb' + length bs\<rparr> = fold put_byte bs cb"
    using store_loop_appends [OF assms] by auto
  note put = put_bytes_contents [OF assms room [simplified]]
  have "m_head_idx cb < m_store_size cb" "m_allocated_size (fold put_byte bs cb) \<le> m_store_size cb"
    using assms put by (simp_all add: ring_ok_def)
  moreover have "ring_ok (c\<lparr>m_high_water_mark := x\<rparr>) = ring_ok c" "contents (c\<lparr>m_high_water_mark := x\<rparr>) = contents c" for c x
    by (simp_all add: ring_ok_def contents_def)
  ultimately show "\<exists>cb'. serialize bs cb = Some (FW_SERIALIZE_OK, cb') \<and>
      ring_ok cb' \<and> contents cb' = contents cb @ bs \<and> m_store_size cb' = m_store_size cb"
    using assms room cb' put store_loop_keeps [OF cb'(1)] by (auto simp: serialize_def)
qed

lemmas ring_contents = peek_contents peek_U8_contents rotate_contents serialize_contents

section \<open>Sequences of operations\<close>

datatype ring_op = Serialize bytes | Peek nat nat | Rotate nat

text \<open>The bounded queue of bytes: \<open>queue_step\<close> gives the status, the bytes read and the new content.\<close>

fun queue_step :: "nat \<Rightarrow> ring_op \<Rightarrow> bytes \<Rightarrow> (SerializeStatus \<times> bytes option) \<times> bytes" where
  "queue_step cap (Serialize bs) q = (if length q + length bs \<le> cap then ((FW_SERIALIZE_OK, None), q @ bs)
     else ((FW_SERIALIZE_NO_ROOM_LEFT, None), q))"
| "queue_step cap (Peek n off) q = (if n + off \<le> length q then ((FW_SERIALIZE_OK, Some (take n (drop off q))), q)
     else ((FW_DESERIALIZE_BUFFER_EMPTY, None), q))"
| "queue_step cap (Rotate n) q = (if n \<le> length q then ((FW_SERIALIZE_OK, None), drop n q)
     else ((FW_DESERIALIZE_BUFFER_EMPTY, None), q))"

fun ring_step :: "ring_op \<Rightarrow> CircularBuffer \<Rightarrow> ((SerializeStatus \<times> bytes option) \<times> CircularBuffer) option" where
  "ring_step (Serialize bs) cb = do { (st, cb) \<leftarrow> serialize bs cb; Some ((st, None), cb) }"
| "ring_step (Peek n off) cb = do { r \<leftarrow> peek n off cb; Some (r, cb) }"
| "ring_step (Rotate n) cb = do { (st, cb) \<leftarrow> rotate n cb; Some ((st, None), cb) }"

fun queue_run :: "nat \<Rightarrow> ring_op list \<Rightarrow> bytes \<Rightarrow> (SerializeStatus \<times> bytes option) list \<times> bytes" where
  "queue_run cap [] q = ([], q)"
| "queue_run cap (c # cs) q =
     (case queue_step cap c q of (r, q') \<Rightarrow> case queue_run cap cs q' of (rs, q'') \<Rightarrow> (r # rs, q''))"

fun run_ops :: "(ring_op \<Rightarrow> 'q \<Rightarrow> ((SerializeStatus \<times> bytes option) \<times> 'q) option) \<Rightarrow> ring_op list \<Rightarrow> 'q \<Rightarrow>
    ((SerializeStatus \<times> bytes option) list \<times> 'q) option" where
  "run_ops step [] q = Some ([], q)"
| "run_ops step (c # cs) q = do { (r, q) \<leftarrow> step c q; (rs, q) \<leftarrow> run_ops step cs q; Some (r # rs, q) }"

text \<open>
  What a user of the ring relies on: a representation invariant, an abstraction to the queue, and that every operation
  succeeds, keeps the invariant and simulates the queue.
\<close>

locale byte_queue =
  fixes step :: "ring_op \<Rightarrow> 'q \<Rightarrow> ((SerializeStatus \<times> bytes option) \<times> 'q) option"
    and ok :: "'q \<Rightarrow> bool" and abs :: "'q \<Rightarrow> bytes" and cap :: "'q \<Rightarrow> nat"
  assumes step_simulates: "ok q \<Longrightarrow> queue_step (cap q) c (abs q) = (r, xs) \<Longrightarrow>
    \<exists>q'. step c q = Some (r, q') \<and> ok q' \<and> abs q' = xs \<and> cap q' = cap q"
begin

lemma run_simulates:
  "ok q \<Longrightarrow> queue_run (cap q) cs (abs q) = (rs, xs) \<Longrightarrow>
    \<exists>q'. run_ops step cs q = Some (rs, q') \<and> ok q' \<and> abs q' = xs \<and> cap q' = cap q"
proof (induction cs arbitrary: q rs xs)
  case (Cons c cs)
  obtain r ys where one: "queue_step (cap q) c (abs q) = (r, ys)" by fastforce
  obtain q1 where q1: "step c q = Some (r, q1)" "ok q1" "abs q1 = ys" "cap q1 = cap q"
    using step_simulates [OF Cons.prems(1) one] by blast
  obtain rs' where rest: "queue_run (cap q1) cs (abs q1) = (rs', xs)" "rs = r # rs'"
    using Cons.prems(2) one q1 by (auto split: prod.splits)
  with Cons.IH [OF q1(2) rest(1)] q1 show ?case by auto
qed simp

end

interpretation ring: byte_queue ring_step ring_ok contents m_store_size
proof
  fix q c r xs
  assume "ring_ok q" "queue_step (m_store_size q) c (contents q) = (r, xs)"
  then show "\<exists>q'. ring_step c q = Some (r, q') \<and> ring_ok q' \<and> contents q' = xs \<and> m_store_size q' = m_store_size q"
    using serialize_contents [of q]
    by (cases c) (fastforce simp: peek_contents rotate_contents split: if_splits)+
qed

section \<open>Properties\<close>



end
