(* ===== verification/Crc16.thy ===== *)
theory Crc16
  imports Fprime_Types
begin

text \<open>
  The frame check sequence: the table-driven \<^verbatim>\<open>update_crc_ccitt\<close> of \<^verbatim>\<open>Utils/Hash/libcrc/lib_crc.c\<close> and
  \<^verbatim>\<open>Svc/Ccsds/Utils/CRC16.hpp\<close>, the shift register of the standard as its reference, and what the code detects.
  The table is filled on first use and never changes; the model takes it as a constant.
\<close>

section \<open>The implementation\<close>

definition P_CCITT :: u16 where
  "P_CCITT = 0x1021"

text \<open>The inner loop of \<^verbatim>\<open>init_crcccitt_tab\<close>: \<open>j\<close> iterations on the pair of \<^verbatim>\<open>crc\<close> and \<^verbatim>\<open>c\<close>.\<close>

fun tab_loop :: "nat \<Rightarrow> u16 \<Rightarrow> u16 \<Rightarrow> u16" where
  "tab_loop 0 crc c = crc"
| "tab_loop (Suc j) crc c = tab_loop j
     (if (crc XOR c) AND 0x8000 \<noteq> 0 then push_bit 1 crc XOR P_CCITT else push_bit 1 crc) (push_bit 1 c)"

definition crc_tabccitt :: "u16 list" where
  "crc_tabccitt = map (\<lambda>i. tab_loop 8 0 (push_bit 8 (of_nat i))) [0..<256]"

definition update_crc_ccitt :: "u16 \<Rightarrow> u8 \<Rightarrow> u16" where
  "update_crc_ccitt crc c =
     (let short_c = 0x00FF AND ucast c; tmp = drop_bit 8 crc XOR short_c
      in push_bit 8 crc XOR crc_tabccitt ! unat tmp)"

definition CRC16_compute :: "bytes \<Rightarrow> u16" where
  "CRC16_compute buffer = fold (\<lambda>b crc. update_crc_ccitt crc b) buffer 0xFFFF XOR 0"

text \<open>The incremental interface of the class: \<^verbatim>\<open>CRC16()\<close>, \<^verbatim>\<open>update\<close>, \<^verbatim>\<open>finalize\<close>.\<close>

definition CRC16_init :: u16 where
  "CRC16_init = 0xFFFF"

definition CRC16_update :: "u8 \<Rightarrow> u16 \<Rightarrow> u16" where
  "CRC16_update new_byte crc = update_crc_ccitt crc new_byte"

definition CRC16_finalize :: "u16 \<Rightarrow> u16" where
  "CRC16_finalize crc = crc XOR 0"

lemma CRC16_incremental: "CRC16_finalize (fold CRC16_update bs CRC16_init) = CRC16_compute bs"
proof -
  have "CRC16_update = (\<lambda>b crc. update_crc_ccitt crc b)"
    by (simp add: CRC16_update_def fun_eq_iff)
  then show ?thesis
    by (simp add: CRC16_finalize_def CRC16_init_def CRC16_compute_def)
qed

section \<open>The shift register\<close>

text \<open>The register of the standard takes one message bit at a time, most significant first.\<close>

definition shift_in :: "bool \<Rightarrow> u16 \<Rightarrow> u16" where
  "shift_in b crc = (if bit crc 15 \<noteq> b then push_bit 1 crc XOR P_CCITT else push_bit 1 crc)"

definition msb_first :: "u8 \<Rightarrow> bool list" where
  "msb_first b = map (\<lambda>j. bit b (7 - j)) [0..<8]"

definition crc_reference :: "bytes \<Rightarrow> u16" where
  "crc_reference bs = fold shift_in (concat (map msb_first bs)) 0xFFFF"

section \<open>The register is linear\<close>

abbreviation crc_step :: "u16 \<Rightarrow> u16" where
  "crc_step \<equiv> shift_in False"

lemma crc_step_xor: "crc_step (x XOR y) = crc_step x XOR crc_step y"
  by (cases "bit x 15"; cases "bit y 15") (simp_all add: shift_in_def bit_xor_iff ac_simps)

lemma crc_steps_xor: "(crc_step ^^ n) (x XOR y) = (crc_step ^^ n) x XOR (crc_step ^^ n) y"
  by (induction n) (simp_all add: crc_step_xor)

lemma shift_in_step: "shift_in (bit c 15) crc XOR push_bit 1 c = crc_step (crc XOR c)"
  by (simp add: shift_in_def bit_xor_iff ac_simps)

lemma fold_shift_in:
  "fold shift_in (map (\<lambda>j. bit (push_bit j c) 15) [0..<n]) crc XOR push_bit n c = (crc_step ^^ n) (crc XOR c)"
proof (induction n)
  case (Suc n)
  have "push_bit (Suc n) c = push_bit 1 (push_bit n c)" by simp
  then show ?case
    using shift_in_step [of "push_bit n c"] Suc [symmetric] by (simp add: ac_simps)
qed simp

lemma top_bit: "(x AND 0x8000 = 0) = (\<not> bit (x :: u16) 15)"
  using and_exp_eq_0_iff_not_bit [of x 15] by simp

lemma tab_loop_step: "tab_loop n crc c XOR push_bit n c = (crc_step ^^ n) (crc XOR c)"
proof (induction n crc c rule: tab_loop.induct)
  case (2 j crc c)
  have "(if (crc XOR c) AND 0x8000 \<noteq> 0 then push_bit 1 crc XOR P_CCITT else push_bit 1 crc) XOR push_bit 1 c
      = crc_step (crc XOR c)"
    by (simp add: top_bit shift_in_def bit_xor_iff ac_simps)
  with 2 show ?case
    by (simp add: funpow_swap1 del: tab_loop.simps(1))
qed simp

lemma bit_double16: "bit (x * 2 :: u16) j \<longleftrightarrow> 0 < j \<and> j < 16 \<and> bit x (j - 1)"
  using bit_double_iff [of x j] by (auto simp: mult.commute)

lemma crc_steps_low:
  "(\<And>j. 16 - n \<le> j \<Longrightarrow> \<not> bit x j) \<Longrightarrow> n \<le> 16 \<Longrightarrow> (crc_step ^^ n) x = push_bit n x"
proof (induction n arbitrary: x)
  case (Suc n)
  then have "crc_step x = push_bit 1 x"
    by (simp add: shift_in_def)
  moreover have "\<not> bit (push_bit 1 x) j" if "16 - n \<le> j" for j
    using Suc.prems(1) [of "j - 1"] that Suc.prems(2) by (auto simp: bit_double16)
  ultimately show ?case
    using Suc.IH [of "push_bit 1 x"] Suc.prems(2) by (simp add: funpow_swap1)
qed simp

lemma crc_step_zero: "crc_step x = 0 \<longleftrightarrow> x = 0"
proof
  assume z: "crc_step x = 0"
  have "bit (push_bit 1 x XOR P_CCITT) 0"
    by (simp add: P_CCITT_def bit_xor_iff bit_double16)
  with z have top: "\<not> bit x 15" and "push_bit 1 x = 0"
    by (auto simp: shift_in_def split: if_splits)
  then have "\<not> bit (x * 2) j" for j
    by simp
  then have "\<not> bit x j" for j
    using top bit_double16 [of x "Suc j"]
    by (cases "j < 15"; cases "j = 15") (auto dest: bit_imp_le_length)
  then show "x = 0" by (simp add: bit_eq_iff)
qed (simp add: shift_in_def)

lemma crc_steps_zero: "(crc_step ^^ n) x = 0 \<longleftrightarrow> x = 0"
  by (induction n) (simp_all add: crc_step_zero)

section \<open>The table is eight steps of the register\<close>

abbreviation crc_byte :: "u16 \<Rightarrow> u16" where
  "crc_byte \<equiv> crc_step ^^ 8"

lemma crc_byte_low: "crc_byte (ucast (b :: u8)) = push_bit 8 (ucast b)"
  by (rule crc_steps_low) (auto simp: bit_simps dest: bit_imp_le_length)

lemma table_entry: "crc_tabccitt ! unat (ucast b :: u16) = crc_byte (push_bit 8 (ucast (b :: u8)))"
proof -
  have "push_bit 8 (push_bit 8 (ucast b)) = (0 :: u16)"
    by (rule bit_word_eqI) (auto simp: bit_simps)
  with tab_loop_step [of 8 0 "push_bit 8 (ucast b)"] have "tab_loop 8 0 (push_bit 8 (ucast b)) = crc_byte (push_bit 8 (ucast b))"
    by simp
  moreover have "unat (ucast b :: u16) < 256"
  proof -
    have "unat b < 2 ^ LENGTH(8)" by (rule unsigned_less)
    then show ?thesis
      using le_less_trans [OF take_bit_nat_less_eq_self [of 16 "unat b"]] by (simp add: unsigned_ucast_eq)
  qed
  ultimately show ?thesis
    by (simp add: crc_tabccitt_def)
qed

lemma update_is_steps: "update_crc_ccitt crc b = crc_byte (crc XOR push_bit 8 (ucast b))"
proof -
  define hi :: u8 where "hi = ucast (drop_bit 8 crc)"
  define lo :: u8 where "lo = ucast crc"
  have crc: "crc = push_bit 8 (ucast hi) XOR ucast lo"
    by (rule bit_word_eqI) (auto simp: hi_def lo_def bit_simps)
  have tmp: "drop_bit 8 crc XOR (0x00FF AND ucast b) = ucast (hi XOR b)"
    by (rule bit_word_eqI) (auto simp: hi_def bit_simps and_255 and.commute dest: bit_imp_le_length)
  have "push_bit 8 crc = push_bit 8 (ucast lo)"
    by (rule bit_word_eqI) (auto simp: lo_def bit_simps)
  then have "update_crc_ccitt crc b = crc_byte (ucast lo) XOR crc_byte (push_bit 8 (ucast (hi XOR b)))"
    unfolding update_crc_ccitt_def Let_def tmp table_entry crc_byte_low by simp
  also have "\<dots> = crc_byte (crc XOR push_bit 8 (ucast b))"
    unfolding crc_steps_xor [symmetric] crc
    by (rule arg_cong [where f = crc_byte], rule bit_word_eqI) (auto simp: bit_simps)
  finally show ?thesis .
qed


lemma steps_is_bits: "fold shift_in (msb_first b) crc = crc_byte (crc XOR push_bit 8 (ucast b))"
proof -
  let ?c = "push_bit 8 (ucast b) :: u16"
  have "push_bit 8 ?c = 0"
    by (rule bit_word_eqI) (auto simp: bit_simps)
  moreover have "map (\<lambda>j. bit (push_bit j ?c) 15) [0..<8] = msb_first b"
    by (auto simp: msb_first_def bit_simps)
  ultimately show ?thesis
    using fold_shift_in [of ?c 8 crc] by simp
qed

section \<open>Differences\<close>

text \<open>The register value from \<open>crc\<close> on; two runs over equally long messages differ by a run over the differences.\<close>

definition crc_from :: "u16 \<Rightarrow> bytes \<Rightarrow> u16" where
  "crc_from crc bs = fold (\<lambda>b crc. update_crc_ccitt crc b) bs crc"

lemma crc_from_simps [simp]:
  "crc_from crc [] = crc" "crc_from crc (b # bs) = crc_from (crc_byte (crc XOR push_bit 8 (ucast b))) bs"
  "crc_from crc (as @ bs) = crc_from (crc_from crc as) bs"
  by (simp_all add: crc_from_def update_is_steps)

lemma compute_from: "CRC16_compute bs = crc_from 0xFFFF bs"
  by (simp add: CRC16_compute_def crc_from_def)

lemma xor_zero: "x XOR y = 0 \<longleftrightarrow> x = (y :: u16)"
  by (metis xor.assoc xor_self_eq xor.right_neutral xor.left_neutral)

lemma xor_cancel: "c XOR x = c XOR y \<longleftrightarrow> x = y" "x XOR c = y XOR c \<longleftrightarrow> x = (y :: u16)"
  by (metis xor.assoc xor_self_eq xor.left_neutral) (metis xor.assoc xor_self_eq xor.right_neutral)

lemma crc_byte_inject: "crc_byte u = crc_byte v \<longleftrightarrow> u = v"
  using crc_steps_zero [of 8 "u XOR v"] by (simp only: crc_steps_xor xor_zero)

lemma crc_from_same: "crc_from x bs = crc_from y bs \<longleftrightarrow> x = y"
proof (induction bs arbitrary: x y)
  case (Cons b bs)
  show ?case by (simp add: Cons crc_byte_inject xor_cancel)
qed simp

text \<open>Two bytes in a row are sixteen steps of their sixteen bits.\<close>

lemma crc_from_two:
  "crc_from crc [a, b] = crc_byte (crc_byte (crc XOR (push_bit 8 (ucast a) XOR ucast b)))"
  by (simp add: crc_steps_xor crc_byte_low ac_simps)

lemma join_inject:
  "push_bit 8 (ucast a) XOR ucast b = push_bit 8 (ucast c) XOR (ucast d :: u16) \<longleftrightarrow> a = (c :: u8) \<and> b = (d :: u8)"
proof
  assume eq: "push_bit 8 (ucast a) XOR ucast b = push_bit 8 (ucast c) XOR (ucast d :: u16)"
  have low: "ucast (push_bit 8 (ucast x) XOR (ucast y :: u16)) = y"
    and high: "ucast (drop_bit 8 (push_bit 8 (ucast x) XOR (ucast y :: u16))) = x" for x y :: u8
    by (rule bit_word_eqI; auto simp: bit_simps dest: bit_imp_le_length)+
  show "a = c \<and> b = d"
    using arg_cong [OF eq, of "ucast :: u16 \<Rightarrow> u8"] arg_cong [OF eq, of "\<lambda>x. ucast (drop_bit 8 x) :: u8"]
    unfolding low high by simp
qed simp

section \<open>Properties\<close>

text \<open>
  The table-driven checksum of a message is what the shift register of the standard (polynomial 0x1021, initial
  value 0xFFFF, most significant bit first) computes bit by bit; the class computes the same byte by byte.
\<close>

theorem crc_is_shift_register:
  "CRC16_compute bs = crc_reference bs \<and> CRC16_finalize (fold CRC16_update bs CRC16_init) = crc_reference bs"
proof -
  have "fold shift_in (concat (map msb_first bs)) crc = crc_from crc bs" for crc
    by (induction bs arbitrary: crc) (simp_all add: steps_is_bits)
  then show ?thesis
    by (simp add: CRC16_incremental compute_from crc_reference_def)
qed

text \<open>
  The checksum detects every error that is confined to two neighbouring bytes, so every burst of at most nine bits
  and every single-byte error: messages of the same length that differ there, and only there, have different checksums.
\<close>

theorem crc_detects_bursts:
  assumes "(a, b) \<noteq> (c, d)"
  shows "CRC16_compute (pre @ [a, b] @ post) \<noteq> CRC16_compute (pre @ [c, d] @ post)"
proof -
  have "crc_from crc [a, b] \<noteq> crc_from crc [c, d]" for crc
    using assms join_inject [of a b c d]
    unfolding crc_from_two crc_byte_inject xor_cancel by simp
  then show ?thesis
    by (simp only: compute_from crc_from_simps(3) crc_from_same not_False_eq_True)
qed

theorem crc_detects_bursts_witness:
  "CRC16_compute ([1, 2] @ [3, 4] @ [5]) \<noteq> CRC16_compute ([1, 2] @ [3, 12] @ [5])"
  by (rule crc_detects_bursts) simp

end
