(* ===== verification/Frame_Accumulator.thy ===== *)
theory Frame_Accumulator
  imports Circular_Buffer Crc16
begin

text \<open>
  The frame accumulator \<^verbatim>\<open>Svc/FrameAccumulator/FrameAccumulator.cpp\<close>, which turns the byte chunks that the radio
  delivers into frames. The frame detector (\<^verbatim>\<open>FrameDetector.hpp\<close>) and the components behind the output ports are
  parameters; the contract of a detector is the locale \<open>frame_detector\<close>, and the accumulator's lemmas are proved in it.
  The output ports work on a world \<open>'w\<close>; a call may end in a failed assertion of the callee.
\<close>

section \<open>The component\<close>

datatype DetectorStatus = FRAME_DETECTED | NO_FRAME_DETECTED | MORE_DATA_NEEDED

type_synonym detector = "CircularBuffer \<Rightarrow> (DetectorStatus \<times> nat) option"

record 'w accumulator_ports =
  acc_bufferAllocate :: "nat \<Rightarrow> 'w \<Rightarrow> (Fw_Buffer \<times> 'w) option"
  acc_bufferDeallocate :: "Fw_Buffer \<Rightarrow> 'w \<Rightarrow> 'w option"
  acc_dataOut :: "Fw_Buffer \<Rightarrow> FrameContext \<Rightarrow> 'w \<Rightarrow> 'w option"
  acc_dataReturnOut :: "Fw_Buffer \<Rightarrow> FrameContext \<Rightarrow> 'w \<Rightarrow> 'w option"
  acc_FrameDetectionSizeError :: "nat \<Rightarrow> 'w \<Rightarrow> 'w"
  acc_NoBufferAvailable :: "'w \<Rightarrow> 'w"

text \<open>\<^verbatim>\<open>(void)m_inRing.rotate(1)\<close> and the assertion behind it.\<close>

definition discard_byte :: "CircularBuffer \<Rightarrow> CircularBuffer option" where
  "discard_byte r = do {
     (st, r') \<leftarrow> rotate 1 r;
     FW_ASSERT (get_allocated_size r' = get_allocated_size r - 1);
     Some r'
   }"

text \<open>Taking a detected frame of \<open>n\<close> bytes out of the ring into an allocated buffer.\<close>

definition take_frame :: "nat \<Rightarrow> Fw_Buffer \<Rightarrow> CircularBuffer \<Rightarrow> (Fw_Buffer \<times> CircularBuffer) option" where
  "take_frame n buffer r = do {
     (st, data) \<leftarrow> peek n 0 r;
     FW_ASSERT (st = FW_SERIALIZE_OK);
     bs \<leftarrow> data;
     (st, r') \<leftarrow> rotate n r;
     FW_ASSERT (st = FW_SERIALIZE_OK);
     FW_ASSERT (get_allocated_size r' = get_allocated_size r - n);
     Some (buffer\<lparr>buf_memory := bs @ drop n (buf_memory buffer), buf_size := n\<rparr>, r')
   }"

text \<open>The loop of \<^verbatim>\<open>processRing\<close>; \<open>k\<close> iterations are left. The detector gets the ring as a constant, so that the
  assertion that it consumes nothing holds by construction.\<close>

fun ring_loop :: "detector \<Rightarrow> 'w accumulator_ports \<Rightarrow> nat \<Rightarrow> CircularBuffer \<Rightarrow> 'w \<Rightarrow> (CircularBuffer \<times> 'w) option" where
  "ring_loop detect p 0 r w = Some (r, w)"
| "ring_loop detect p (Suc k) r w = do {
     ringCapacity \<leftarrow> get_capacity r;
     if get_allocated_size r = 0 then Some (r, w)
     else do {
       (status, size_out) \<leftarrow> detect r;
       if size_out > ringCapacity then do {
         r' \<leftarrow> discard_byte r;
         ring_loop detect p k r' (acc_FrameDetectionSizeError p size_out w)
       }
       else case status of
         FRAME_DETECTED \<Rightarrow> do {
           FW_ASSERT (size_out \<noteq> 0);
           FW_ASSERT (size_out \<le> get_allocated_size r);
           (buffer, w) \<leftarrow> acc_bufferAllocate p size_out w;
           if isValid buffer then do {
             (buffer, r') \<leftarrow> take_frame size_out buffer r;
             w \<leftarrow> acc_dataOut p buffer FrameContext_default w;
             ring_loop detect p k r' w
           }
           else Some (r, acc_NoBufferAvailable p w)
         }
       | MORE_DATA_NEEDED \<Rightarrow> do {
           FW_ASSERT (size_out > get_allocated_size r);
           Some (r, w)
         }
       | NO_FRAME_DETECTED \<Rightarrow> do {
           r' \<leftarrow> discard_byte r;
           ring_loop detect p k r' w
         }
     }
   }"

definition processRing :: "detector \<Rightarrow> 'w accumulator_ports \<Rightarrow> CircularBuffer \<Rightarrow> 'w \<Rightarrow> (CircularBuffer \<times> 'w) option" where
  "processRing detect p r w = do {
     ringCapacity \<leftarrow> get_capacity r;
     ring_loop detect p ringCapacity r w
   }"

text \<open>The loop of \<^verbatim>\<open>processBuffer\<close>: at most \<open>k\<close> more iterations, with the bytes that remain; the result says what remains
  at the end.\<close>

fun buffer_loop :: "detector \<Rightarrow> 'w accumulator_ports \<Rightarrow> nat \<Rightarrow> bytes \<Rightarrow> CircularBuffer \<Rightarrow> 'w \<Rightarrow>
    (bytes \<times> CircularBuffer \<times> 'w) option" where
  "buffer_loop detect p 0 remaining r w = Some (remaining, r, w)"
| "buffer_loop detect p (Suc k) remaining r w = do {
     ringFreeSize \<leftarrow> get_free_size r;
     if remaining = [] \<or> ringFreeSize = 0 then Some (remaining, r, w)
     else do {
       (status, r) \<leftarrow> serialize (take ringFreeSize remaining) r;
       FW_ASSERT (status = FW_SERIALIZE_OK);
       (r, w) \<leftarrow> processRing detect p r w;
       buffer_loop detect p k (drop ringFreeSize remaining) r w
     }
   }"

definition processBuffer :: "detector \<Rightarrow> 'w accumulator_ports \<Rightarrow> Fw_Buffer \<Rightarrow> CircularBuffer \<Rightarrow> 'w \<Rightarrow> (CircularBuffer \<times> 'w) option" where
  "processBuffer detect p buffer r w = do {
     (remaining, r, w) \<leftarrow> buffer_loop detect p (buf_size buffer) (buf_data buffer) r w;
     free \<leftarrow> get_free_size r;
     FW_ASSERT (remaining = [] \<or> free = 0);
     Some (r, w)
   }"

definition accumulator_dataIn :: "detector \<Rightarrow> 'w accumulator_ports \<Rightarrow> Fw_Buffer \<Rightarrow> FrameContext \<Rightarrow> CircularBuffer \<Rightarrow> 'w \<Rightarrow>
    (CircularBuffer \<times> 'w) option" where
  "accumulator_dataIn detect p buffer context r w = do {
     (r, w) \<leftarrow> (if isValid buffer then processBuffer detect p buffer r w else Some (r, w));
     w \<leftarrow> acc_dataReturnOut p buffer context w;
     Some (r, w)
   }"

text \<open>\<^verbatim>\<open>configure\<close>: the allocator answers with memory, or none, and may change the size.\<close>

definition accumulator_configure :: "(nat \<Rightarrow> bytes option \<times> nat) \<Rightarrow> nat \<Rightarrow> CircularBuffer \<Rightarrow> CircularBuffer option" where
  "accumulator_configure allocate store_size r = do {
     let (data, store_size) = allocate store_size;
     FW_ASSERT (data \<noteq> None);
     CircularBuffer_setup data store_size r
   }"

definition accumulator_dataReturnIn :: "'w accumulator_ports \<Rightarrow> Fw_Buffer \<Rightarrow> FrameContext \<Rightarrow> 'w \<Rightarrow> 'w option" where
  "accumulator_dataReturnIn p fwBuffer context w = acc_bufferDeallocate p fwBuffer w"

section \<open>Scanning a byte sequence\<close>

text \<open>
  What the accumulator is to do with the bytes it has, for a detector that decides on the bytes from the current
  position: cut out frames, skip bytes that cannot begin one, keep what is still undecided.
\<close>

function scan :: "(bytes \<Rightarrow> (DetectorStatus \<times> nat) option) \<Rightarrow> nat \<Rightarrow> bytes \<Rightarrow> (bytes list \<times> bytes) option" where
  "scan decide cap xs = (if xs = [] then Some ([], []) else
     case decide xs of
       None \<Rightarrow> None
     | Some (status, n) \<Rightarrow>
         if n > cap then scan decide cap (tl xs)
         else (case status of
             FRAME_DETECTED \<Rightarrow> if 0 < n \<and> n \<le> length xs
               then map_option (\<lambda>(fs, rest). (take n xs # fs, rest)) (scan decide cap (drop n xs)) else None
           | MORE_DATA_NEEDED \<Rightarrow> if length xs < n then Some ([], xs) else None
           | NO_FRAME_DETECTED \<Rightarrow> scan decide cap (tl xs)))"
  by pat_completeness auto
termination
  by (relation "measure (\<lambda>(decide, cap, xs). length xs)") auto

declare scan.simps [simp del]

section \<open>The contract of a detector\<close>

text \<open>
  The expectations of \<^verbatim>\<open>FrameDetector.hpp\<close>, for a ring of capacity \<open>cap\<close>: the verdict depends on the bytes in the ring, a
  detected frame is there, more data are only asked for when they are missing; and a verdict stays when bytes
  are added, unless it was to wait for a frame that fits.
\<close>

locale frame_detector =
  fixes detect :: detector and decide :: "bytes \<Rightarrow> (DetectorStatus \<times> nat) option" and cap :: nat
  assumes on_contents: "ring_ok r \<Longrightarrow> m_store_size r = cap \<Longrightarrow> detect r = decide (contents r)"
    and frame_there: "length xs \<le> cap \<Longrightarrow> decide xs = Some (FRAME_DETECTED, n) \<Longrightarrow> 0 < n \<and> n \<le> length xs"
    and more_missing: "length xs \<le> cap \<Longrightarrow> decide xs = Some (MORE_DATA_NEEDED, n) \<Longrightarrow> length xs < n"
    and stable: "length (xs @ ys) \<le> cap \<Longrightarrow> xs \<noteq> [] \<Longrightarrow>
      (\<And>n. decide xs = Some (MORE_DATA_NEEDED, n) \<Longrightarrow> cap < n) \<Longrightarrow> decide (xs @ ys) = decide xs"
begin

lemma scan_Nil [simp]: "scan decide cap [] = Some ([], [])"
  by (simp add: scan.simps)

text \<open>The four things that can happen at a position.\<close>

lemma scan_cases:
  assumes "xs \<noteq> []" "length xs \<le> cap"
  obtains (assertion) "decide xs = None" "scan decide cap xs = None"
  | (skip) status n where "decide xs = Some (status, n)" "cap < n \<or> status = NO_FRAME_DETECTED"
      "scan decide cap xs = scan decide cap (tl xs)"
  | (frame) n where "decide xs = Some (FRAME_DETECTED, n)" "0 < n" "n \<le> length xs" "n \<le> cap"
      "scan decide cap xs = map_option (\<lambda>(fs, rest). (take n xs # fs, rest)) (scan decide cap (drop n xs))"
  | (wait) n where "decide xs = Some (MORE_DATA_NEEDED, n)" "length xs < n" "n \<le> cap"
      "scan decide cap xs = Some ([], xs)"
proof (cases "decide xs")
  case None
  with assms(1) show ?thesis by (intro assertion) (simp_all add: scan.simps [of _ _ xs])
next
  case (Some v)
  obtain status n where v: "v = (status, n)" by fastforce
  note scan = scan.simps [of decide cap xs]
  show ?thesis
  proof (cases "cap < n \<or> status = NO_FRAME_DETECTED")
    case True
    with assms Some v show ?thesis by (intro skip [of status n]) (auto simp: scan)
  next
    case False
    with assms Some v show ?thesis
      using frame [of n] wait [of n] frame_there [of xs n] more_missing [of xs n]
      by (cases status) (auto simp: scan)
  qed
qed

text \<open>The rest of a scan is settled: scanning it again finds nothing, and there is room for more.\<close>

lemma scan_settled:
  assumes "0 < cap" "scan decide cap xs = Some (fs, rest)" "length xs \<le> cap"
  shows "scan decide cap rest = Some ([], rest) \<and> length rest < cap \<and> length rest \<le> length xs"
  using assms(2,3)
proof (induction xs arbitrary: fs rule: length_induct)
  case (1 xs)
  show ?case
  proof (cases "xs = []")
    case False
    from False 1(3) show ?thesis
    proof (cases rule: scan_cases)
      case (skip status n)
      with 1 False have "scan decide cap (tl xs) = Some (fs, rest)" "length (tl xs) < length xs" "length (tl xs) \<le> cap"
        by simp_all
      with 1(1) have "scan decide cap rest = Some ([], rest) \<and> length rest < cap \<and> length rest \<le> length (tl xs)"
        by blast
      then show ?thesis by auto
    next
      case (frame n)
      with 1(2) obtain fs' where "scan decide cap (drop n xs) = Some (fs', rest)" "length (drop n xs) < length xs"
        by auto
      moreover have "length (drop n xs) \<le> cap" using 1(3) by simp
      ultimately have "scan decide cap rest = Some ([], rest) \<and> length rest < cap \<and> length rest \<le> length (drop n xs)"
        using 1(1) by blast
      then show ?thesis by auto
    qed (use 1 in auto)
  qed (use 1 assms(1) in auto)
qed

text \<open>Scanning in two parts, the second from where the first one stopped.\<close>

lemma scan_append:
  assumes "scan decide cap xs = Some (fs, rest)" "length (xs @ ys) \<le> cap"
  shows "scan decide cap (xs @ ys) = map_option (\<lambda>(fs', rest'). (fs @ fs', rest')) (scan decide cap (rest @ ys))"
  using assms
proof (induction xs arbitrary: fs rule: length_induct)
  case (1 xs)
  have len: "length xs \<le> cap" using 1(3) by simp
  show ?case
  proof (cases "xs = []")
    case True
    with 1(2) show ?thesis by (simp add: option.map_ident case_prod_unfold)
  next
    case False
    from False len show ?thesis
    proof (cases rule: scan_cases)
      case assertion
      with 1 show ?thesis by simp
    next
      case (skip status n)
      have "decide (xs @ ys) = Some (status, n)"
        using stable [OF 1(3) False] skip(1,2) by auto
      with False skip(2) have "scan decide cap (xs @ ys) = scan decide cap (tl xs @ ys)"
        by (auto simp: scan.simps [of _ _ "xs @ ys"])
      moreover have "scan decide cap (tl xs) = Some (fs, rest)" "length (tl xs) < length xs" "length (tl xs @ ys) \<le> cap"
        using 1(2,3) skip(3) False by auto
      ultimately show ?thesis using 1(1) by auto
    next
      case (frame n)
      have "decide (xs @ ys) = Some (FRAME_DETECTED, n)"
        using stable [OF 1(3) False] frame(1) by auto
      with False frame have one: "scan decide cap (xs @ ys) = map_option (\<lambda>(fs, rest). (take n xs # fs, rest))
          (scan decide cap (drop n xs @ ys))"
        by (simp add: scan.simps [of _ _ "xs @ ys"])
      obtain fs' where fs': "scan decide cap (drop n xs) = Some (fs', rest)" "fs = take n xs # fs'"
        using 1(2) frame(5) by auto
      moreover have "length (drop n xs) < length xs" "length (drop n xs @ ys) \<le> cap"
        using 1(3) frame(2,3) by auto
      ultimately show ?thesis
        using 1(1) one by (simp add: option.map_comp comp_def case_prod_unfold)
    next
      case (wait n)
      with 1(2) show ?thesis by (simp add: option.map_ident case_prod_unfold)
    qed
  qed
qed

lemma scan_append_None:
  assumes "scan decide cap xs = None" "length (xs @ ys) \<le> cap"
  shows "scan decide cap (xs @ ys) = None"
  using assms
proof (induction xs rule: length_induct)
  case (1 xs)
  have len: "length xs \<le> cap" and ne: "xs \<noteq> []" using 1(2,3) by auto
  note at = scan.simps [of decide cap "xs @ ys"]
  from ne len show ?case
  proof (cases rule: scan_cases)
    case assertion
    with stable [OF 1(3) ne] ne show ?thesis by (simp add: at)
  next
    case (skip status n)
    have "decide (xs @ ys) = Some (status, n)"
      using stable [OF 1(3) ne] skip(1,2) by auto
    with ne skip(2) have "scan decide cap (xs @ ys) = scan decide cap (tl xs @ ys)"
      by (auto simp: at)
    moreover have "scan decide cap (tl xs) = None" "length (tl xs) < length xs" "length (tl xs @ ys) \<le> cap"
      using 1(2,3) skip(3) ne by auto
    ultimately show ?thesis using 1(1) by auto
  next
    case (frame n)
    have "decide (xs @ ys) = Some (FRAME_DETECTED, n)"
      using stable [OF 1(3) ne] frame(1) by auto
    moreover have "scan decide cap (drop n xs) = None" "length (drop n xs) < length xs" "length (drop n xs @ ys) \<le> cap"
      using 1(2,3) frame by auto
    ultimately show ?thesis using 1(1) ne frame by (simp add: at)
  next
    case (wait n)
    with 1(2) show ?thesis by simp
  qed
qed

end

section \<open>The accumulator scans\<close>

text \<open>
  A byte stream fed byte by byte: the frames found so far and the undecided rest. This is the reference: it does not
  know how the stream was cut into buffers.
\<close>

fun feed :: "(bytes \<Rightarrow> (DetectorStatus \<times> nat) option) \<Rightarrow> nat \<Rightarrow> bytes \<Rightarrow> bytes \<Rightarrow> (bytes list \<times> bytes) option" where
  "feed decide cap rest [] = Some ([], rest)"
| "feed decide cap rest (b # bs) = do {
     (fs, rest) \<leftarrow> scan decide cap (rest @ [b]);
     (fs', rest) \<leftarrow> feed decide cap rest bs;
     Some (fs @ fs', rest)
   }"

lemma feed_append:
  "feed decide cap rest (as @ bs) = do {
     (fs, rest) \<leftarrow> feed decide cap rest as;
     (fs', rest) \<leftarrow> feed decide cap rest bs;
     Some (fs @ fs', rest)
   }"
  by (induction as arbitrary: rest) (auto split: prod.split bind_split)

context frame_detector
begin

text \<open>Feeding bytes one by one or in a block that fits gives the same.\<close>

lemma feed_scan:
  assumes "0 < cap" "scan decide cap rest = Some ([], rest)" "length (rest @ bs) \<le> cap"
  shows "feed decide cap rest bs = scan decide cap (rest @ bs)"
  using assms(2,3)
proof (induction bs arbitrary: rest)
  case (Cons b bs)
  show ?case
  proof (cases "scan decide cap (rest @ [b])")
    case None
    with scan_append_None [OF None, of bs] Cons.prems(2) show ?thesis by simp
  next
    case (Some v)
    then obtain fs rest' where v: "scan decide cap (rest @ [b]) = Some (fs, rest')" by (cases v) auto
    have set: "scan decide cap rest' = Some ([], rest')" "length (rest' @ bs) \<le> cap"
      using scan_settled [OF assms(1) v] Cons.prems(2) by auto
    show ?thesis
      using scan_append [OF v, of bs] Cons.prems(2) Cons.IH [OF set] v
      by (auto split: bind_split simp: map_option_case split: option.split)
  qed
qed simp

end

text \<open>
  What the accumulator needs of the components it sends frames to: when they are \<open>ready\<close> for the frames to come, a buffer for the
  first one, and that it is taken. \<open>taken w\<close> is what came out so far, \<open>result f\<close> what comes out of the frame \<open>f\<close>.
\<close>

locale frame_sink =
  fixes p :: "'w accumulator_ports" and ready :: "bytes list \<Rightarrow> 'w \<Rightarrow> bool" and result :: "bytes \<Rightarrow> 'o list"
    and taken :: "'w \<Rightarrow> 'o list" and cap :: nat
  assumes takes_frame: "ready (bs # fs) w \<Longrightarrow> 0 < length bs \<Longrightarrow> length bs \<le> cap \<Longrightarrow> \<exists>b w1 w2.
      acc_bufferAllocate p (length bs) w = Some (b, w1) \<and> isValid b \<and>
      acc_dataOut p (b\<lparr>buf_memory := bs @ drop (length bs) (buf_memory b), buf_size := length bs\<rparr>) FrameContext_default w1
        = Some w2 \<and> ready fs w2 \<and> taken w2 = taken w @ result bs"
    and reports: "ready fs w \<Longrightarrow> ready fs (acc_FrameDetectionSizeError p n w) \<and> taken (acc_FrameDetectionSizeError p n w) = taken w"

locale accumulator = frame_detector detect decide cap + frame_sink p ready result taken cap
  for detect decide cap and p :: "'w accumulator_ports" and ready and result :: "bytes \<Rightarrow> 'o list" and taken
begin

lemma discard_byte_contents:
  assumes "ring_ok r" "contents r \<noteq> []"
  shows "\<exists>r'. discard_byte r = Some r' \<and> ring_ok r' \<and> contents r' = tl (contents r) \<and> m_store_size r' = m_store_size r"
proof -
  have "1 \<le> length (contents r)"
    using assms(2) by (cases "contents r") auto
  then show ?thesis
    using rotate_contents [OF assms(1), of 1] by (simp add: discard_byte_def get_allocated_size_def drop_Suc)
qed

lemma take_frame_contents:
  assumes "ring_ok r" "n \<le> length (contents r)"
  shows "\<exists>r'. take_frame n b r = Some (b\<lparr>buf_memory := take n (contents r) @ drop n (buf_memory b), buf_size := n\<rparr>, r') \<and>
    ring_ok r' \<and> contents r' = drop n (contents r) \<and> m_store_size r' = m_store_size r"
  using rotate_contents [OF assms(1), of n] assms
  by (simp add: take_frame_def peek_contents get_allocated_size_def)

lemma ring_loop_scans:
  assumes "ring_ok r" "m_store_size r = cap" "ready (fs @ gs) w" "length (contents r) \<le> k"
    "scan decide cap (contents r) = Some (fs, rest)"
  shows "\<exists>r' w'. ring_loop detect p k r w = Some (r', w') \<and> ring_ok r' \<and> m_store_size r' = cap \<and> contents r' = rest \<and>
    ready gs w' \<and> taken w' = taken w @ concat (map result fs)"
  using assms
proof (induction k arbitrary: r w fs)
  case 0
  then have "contents r = []" by (simp add: contents_def)
  with 0 show ?case by simp
next
  case (Suc k)
  have len: "length (contents r) \<le> cap" using Suc.prems(1,2) by (simp add: ring_ok_def)
  show ?case
  proof (cases "contents r = []")
    case True
    then have "m_allocated_size r = 0" using length_contents [of r] by simp
    with Suc.prems True show ?thesis by (simp add: get_allocated_size_def)
  next
    case False
    then have alloc: "get_allocated_size r \<noteq> 0"
      by (auto simp: get_allocated_size_def contents_def)
    note verdict = on_contents [OF Suc.prems(1,2)]
    from False len show ?thesis
    proof (cases rule: scan_cases)
      case assertion
      with Suc.prems show ?thesis by simp
    next
      case (skip status n)
      obtain r' where r': "discard_byte r = Some r'" "ring_ok r'" "contents r' = tl (contents r)" "m_store_size r' = cap"
        using discard_byte_contents [OF Suc.prems(1) False] Suc.prems(2) by auto
      have "length (contents r') \<le> k" using Suc.prems(4) r'(3) by simp
      moreover have "scan decide cap (contents r') = Some (fs, rest)" using Suc.prems(5) skip(3) r'(3) by simp
      ultimately show ?thesis
        using Suc.IH [OF r'(2,4) Suc.prems(3)] Suc.IH [OF r'(2,4), where w = "acc_FrameDetectionSizeError p n w"]
          reports [OF Suc.prems(3), of n] skip(1,2) alloc verdict r'(1) Suc.prems(1,2)
        by (cases status; cases "cap < n") auto
    next
      case (frame n)
      let ?bs = "take n (contents r)"
      obtain fs' where fs': "scan decide cap (drop n (contents r)) = Some (fs', rest)" "fs = ?bs # fs'"
        using Suc.prems(5) frame(5) by auto
      obtain b w1 w2 where sent: "acc_bufferAllocate p n w = Some (b, w1)" "isValid b"
        "acc_dataOut p (b\<lparr>buf_memory := ?bs @ drop n (buf_memory b), buf_size := n\<rparr>) FrameContext_default w1 = Some w2"
        "ready (fs' @ gs) w2" "taken w2 = taken w @ result ?bs"
        using takes_frame [of ?bs "fs' @ gs" w] Suc.prems(3) frame fs'(2) by auto
      obtain r' where r': "take_frame n b r = Some (b\<lparr>buf_memory := ?bs @ drop n (buf_memory b), buf_size := n\<rparr>, r')"
        "ring_ok r'" "contents r' = drop n (contents r)" "m_store_size r' = cap"
        using take_frame_contents [OF Suc.prems(1) frame(3)] Suc.prems(2) by blast
      have "length (contents r') \<le> k" using Suc.prems(4) r'(3) frame(2) by simp
      with Suc.IH [OF r'(2,4) sent(4)] fs' r' sent frame alloc verdict Suc.prems(1,2) show ?thesis
        by (simp add: get_allocated_size_def)
    next
      case (wait n)
      then have "m_allocated_size r < n" by simp
      with wait(1,3,4) Suc.prems alloc verdict show ?thesis by (auto simp: get_allocated_size_def)
    qed
  qed
qed

lemma processRing_scans:
  assumes "ring_ok r" "m_store_size r = cap" "ready (fs @ gs) w" "scan decide cap (contents r) = Some (fs, rest)"
  shows "\<exists>r' w'. processRing detect p r w = Some (r', w') \<and> ring_ok r' \<and> m_store_size r' = cap \<and> contents r' = rest \<and>
    ready gs w' \<and> taken w' = taken w @ concat (map result fs)"
proof -
  have "length (contents r) \<le> cap" using assms(1,2) by (simp add: ring_ok_def)
  from ring_loop_scans [OF assms(1,2,3) this assms(4)] assms(1,2) show ?thesis
    by (simp add: processRing_def)
qed

text \<open>One iteration of \<^verbatim>\<open>processBuffer\<close>, and the whole loop: all bytes go in, and the frames are those of the stream.\<close>

lemma buffer_loop_feeds:
  assumes "ring_ok r" "m_store_size r = cap" "ready (fs @ gs) w" "scan decide cap (contents r) = Some ([], contents r)"
    "length bs \<le> k" "feed decide cap (contents r) bs = Some (fs, rest)"
  shows "\<exists>r' w'. buffer_loop detect p k bs r w = Some ([], r', w') \<and> ring_ok r' \<and> m_store_size r' = cap \<and>
    contents r' = rest \<and> scan decide cap rest = Some ([], rest) \<and> ready gs w' \<and> taken w' = taken w @ concat (map result fs)"
  using assms
proof (induction k arbitrary: r w bs fs)
  case 0
  then show ?case by simp
next
  case (Suc k)
  have cap: "0 < cap" "length (contents r) \<le> cap" using Suc.prems(1,2) by (simp_all add: ring_ok_def)
  let ?free = "cap - m_allocated_size r"
  have free: "0 < ?free" using scan_settled [OF cap(1) Suc.prems(4) cap(2)] by simp
  show ?case
  proof (cases "bs = []")
    case True
    with Suc.prems show ?thesis by simp
  next
    case False
    have room: "length (contents r) + length (take ?free bs) \<le> cap" using free by simp
    then obtain r1 where r1: "serialize (take ?free bs) r = Some (FW_SERIALIZE_OK, r1)" "ring_ok r1"
      "contents r1 = contents r @ take ?free bs" "m_store_size r1 = cap"
      using serialize_contents(2) [OF Suc.prems(1), of "take ?free bs"] Suc.prems(2) by auto
    have "feed decide cap (contents r) (take ?free bs @ drop ?free bs) = Some (fs, rest)" using Suc.prems(6) by simp
    then obtain fs1 rest1 fs2 where f: "feed decide cap (contents r) (take ?free bs) = Some (fs1, rest1)"
      "feed decide cap rest1 (drop ?free bs) = Some (fs2, rest)" "fs = fs1 @ fs2"
      unfolding feed_append by (auto simp: bind_eq_Some_conv)
    have scanned: "scan decide cap (contents r1) = Some (fs1, rest1)"
      using feed_scan [OF cap(1) Suc.prems(4), of "take ?free bs"] f(1) r1(3) room by simp
    obtain r2 w2 where r2: "processRing detect p r1 w = Some (r2, w2)" "ring_ok r2" "m_store_size r2 = cap"
      "contents r2 = rest1" "ready (fs2 @ gs) w2" "taken w2 = taken w @ concat (map result fs1)"
      using processRing_scans [OF r1(2,4) _ scanned, of "fs2 @ gs" w] Suc.prems(3) f(3) by auto
    have "scan decide cap (contents r2) = Some ([], contents r2)"
      using scan_settled [OF cap(1) scanned] r1(3) r2(4) room by simp
    moreover have "length (drop ?free bs) \<le> k" using Suc.prems(5) free by simp
    moreover have "feed decide cap (contents r2) (drop ?free bs) = Some (fs2, rest)" using f(2) r2(4) by simp
    ultimately show ?thesis
      using Suc.IH [OF r2(2,3,5)] r1(1) r2(1,6) f(3) free False Suc.prems(1,2) by fastforce
  qed
qed

lemma processBuffer_feeds:
  assumes "ring_ok r" "m_store_size r = cap" "ready (fs @ gs) w" "scan decide cap (contents r) = Some ([], contents r)"
    "feed decide cap (contents r) (buf_data b) = Some (fs, rest)"
  shows "\<exists>r' w'. processBuffer detect p b r w = Some (r', w') \<and> ring_ok r' \<and> m_store_size r' = cap \<and>
    contents r' = rest \<and> scan decide cap rest = Some ([], rest) \<and> ready gs w' \<and> taken w' = taken w @ concat (map result fs)"
proof -
  have "length (buf_data b) \<le> buf_size b" by (simp add: buf_data_def)
  from buffer_loop_feeds [OF assms(1-4) this assms(5)] show ?thesis
    by (auto simp: processBuffer_def)
qed

end

text \<open>A sequence of buffers handed to \<^verbatim>\<open>processBuffer\<close> one after the other.\<close>

fun process_buffers :: "detector \<Rightarrow> 'w accumulator_ports \<Rightarrow> Fw_Buffer list \<Rightarrow> CircularBuffer \<Rightarrow> 'w \<Rightarrow> (CircularBuffer \<times> 'w) option" where
  "process_buffers detect p [] r w = Some (r, w)"
| "process_buffers detect p (b # bs) r w = do {
     (r, w) \<leftarrow> processBuffer detect p b r w;
     process_buffers detect p bs r w
   }"

context accumulator
begin

lemma process_buffers_feeds:
  assumes "ring_ok r" "m_store_size r = cap" "ready (fs @ gs) w" "scan decide cap (contents r) = Some ([], contents r)"
    "feed decide cap (contents r) (concat (map buf_data bs)) = Some (fs, rest)"
  shows "\<exists>r' w'. process_buffers detect p bs r w = Some (r', w') \<and> ring_ok r' \<and> contents r' = rest \<and>
    ready gs w' \<and> taken w' = taken w @ concat (map result fs)"
  using assms
proof (induction bs arbitrary: r w fs)
  case (Cons b bs)
  then obtain fs1 rest1 fs2 where f: "feed decide cap (contents r) (buf_data b) = Some (fs1, rest1)"
    "feed decide cap rest1 (concat (map buf_data bs)) = Some (fs2, rest)" "fs = fs1 @ fs2"
    by (auto simp: feed_append bind_eq_Some_conv)
  obtain r1 w1 where one: "processBuffer detect p b r w = Some (r1, w1)" "ring_ok r1" "m_store_size r1 = cap"
    "contents r1 = rest1" "scan decide cap rest1 = Some ([], rest1)" "ready (fs2 @ gs) w1" "taken w1 = taken w @ concat (map result fs1)"
    using processBuffer_feeds [OF Cons.prems(1,2) _ Cons.prems(4) f(1), of "fs2 @ gs" w] Cons.prems(3) f(3) by auto
  with Cons.IH [OF one(2,3,6)] f show ?case by auto
qed auto

end

end
