(* ===== verification/Tc_Frames.thy ===== *)
theory Tc_Frames
  imports Frame_Accumulator
begin

text \<open>
  Telecommand frames: the detector \<^verbatim>\<open>Svc/FrameAccumulator/FrameDetector/CcsdsTcFrameDetector.cpp\<close> that the accumulator is
  configured with, and the deframer \<^verbatim>\<open>Svc/Ccsds/TcDeframer/TcDeframer.cpp\<close> behind it, with the header and trailer of
  \<^verbatim>\<open>Svc/Ccsds/Types/Types.fpp\<close>. The ports of the deframer are a parameter.
\<close>

section \<open>Header and trailer\<close>

record TCHeader =
  flagsAndScId :: u16
  vcIdAndLength :: u16
  frameSequenceNum :: u8

text \<open>Structures are serialized field by field, most significant byte first.\<close>

definition TCHeader_deserialize :: "bytes \<Rightarrow> TCHeader option" where
  "TCHeader_deserialize bs = (case bs of
       a # b # c # d # e # _ \<Rightarrow> Some \<lparr>flagsAndScId = of_be16 a b, vcIdAndLength = of_be16 c d, frameSequenceNum = e\<rparr>
     | _ \<Rightarrow> None)"

definition TCTrailer_deserialize :: "bytes \<Rightarrow> u16 option" where
  "TCTrailer_deserialize bs = (case bs of a # b # _ \<Rightarrow> Some (of_be16 a b) | _ \<Rightarrow> None)"

definition FrameLengthMask :: u16 where "FrameLengthMask = 0x03FF"
definition VcIdMask :: u16 where "VcIdMask = 0xFC00"
definition SpacecraftIdMask :: u16 where "SpacecraftIdMask = 0x03FF"

section \<open>The detector\<close>

definition m_expectedFlagsAndScIdToken :: u16 where
  "m_expectedFlagsAndScIdToken = push_bit 13 1 OR SpacecraftId"

text \<open>The checksum loop: \<open>n\<close> bytes from offset \<open>i\<close> on are peeked one by one.\<close>

fun crc_loop :: "nat \<Rightarrow> nat \<Rightarrow> CircularBuffer \<Rightarrow> u16 \<Rightarrow> u16 option" where
  "crc_loop 0 i data crc = Some crc"
| "crc_loop (Suc n) i data crc = do {
     (status, v) \<leftarrow> peek_U8 i data;
     FW_ASSERT (status = FW_SERIALIZE_OK);
     b \<leftarrow> v;
     crc_loop n (Suc i) data (CRC16_update b crc)
   }"

definition tc_detect :: detector where
  "tc_detect data =
     (if get_allocated_size data < 5 + 2 then Some (MORE_DATA_NEEDED, 5 + 2)
      else do {
        (status, header_data) \<leftarrow> peek 5 0 data;
        if status \<noteq> FW_SERIALIZE_OK then Some (NO_FRAME_DETECTED, 0)
        else do {
          bs \<leftarrow> header_data;
          header \<leftarrow> TCHeader_deserialize bs;
          if flagsAndScId header \<noteq> m_expectedFlagsAndScIdToken then Some (NO_FRAME_DETECTED, 0)
          else do {
            let expected_frame_length = unat (vcIdAndLength header AND FrameLengthMask) + 1;
            let data_to_crc_length = (of_nat expected_frame_length - 2 :: u16);
            if get_allocated_size data < expected_frame_length then Some (MORE_DATA_NEEDED, expected_frame_length)
            else do {
              crc \<leftarrow> crc_loop (unat data_to_crc_length) 0 data CRC16_init;
              let computed_fecf = CRC16_finalize crc;
              (status, trailer_data) \<leftarrow> peek 2 (unat data_to_crc_length) data;
              if status \<noteq> FW_SERIALIZE_OK then Some (NO_FRAME_DETECTED, 0)
              else do {
                bs \<leftarrow> trailer_data;
                transmitted_fecf \<leftarrow> TCTrailer_deserialize bs;
                if transmitted_fecf \<noteq> computed_fecf then Some (NO_FRAME_DETECTED, 0)
                else Some (FRAME_DETECTED, expected_frame_length)
              }
            }
          }
        }
      })"

section \<open>The deframer\<close>

datatype FrameError = SP_INVALID_LENGTH | TC_INVALID_SCID | TC_INVALID_LENGTH | TC_INVALID_VCID | TC_INVALID_CRC

datatype tc_event =
    InvalidSpacecraftId u16 u16
  | InvalidFrameLength u16 nat
  | InvalidVcId u8 u16
  | InvalidCrc u16 u16

record TcDeframer =
  m_vcId :: u16
  m_spacecraftId :: u16
  m_acceptAllVcid :: bool

definition TcDeframer_new :: "u16 \<Rightarrow> TcDeframer" where
  "TcDeframer_new garbage = \<lparr>m_vcId = garbage, m_spacecraftId = SpacecraftId, m_acceptAllVcid = True\<rparr>"

definition TcDeframer_configure :: "u16 \<Rightarrow> u16 \<Rightarrow> bool \<Rightarrow> TcDeframer \<Rightarrow> TcDeframer" where
  "TcDeframer_configure vcId spacecraftId acceptAllVcid d =
     d\<lparr>m_vcId := vcId, m_spacecraftId := spacecraftId, m_acceptAllVcid := acceptAllVcid\<rparr>"

record 'w tc_ports =
  tc_dataOut :: "Fw_Buffer \<Rightarrow> FrameContext \<Rightarrow> 'w \<Rightarrow> 'w option"
  tc_dataReturnOut :: "Fw_Buffer \<Rightarrow> FrameContext \<Rightarrow> 'w \<Rightarrow> 'w option"
  tc_errorNotify :: "(FrameError \<Rightarrow> 'w \<Rightarrow> 'w option) option"
  tc_log :: "tc_event \<Rightarrow> 'w \<Rightarrow> 'w"

definition errorNotifyHelper :: "'w tc_ports \<Rightarrow> FrameError \<Rightarrow> 'w \<Rightarrow> 'w option" where
  "errorNotifyHelper p e w = (case tc_errorNotify p of None \<Rightarrow> Some w | Some notify \<Rightarrow> notify e w)"

text \<open>An event, the notification, and the frame goes back.\<close>

definition drop_frame :: "'w tc_ports \<Rightarrow> tc_event \<Rightarrow> FrameError \<Rightarrow> Fw_Buffer \<Rightarrow> FrameContext \<Rightarrow> 'w \<Rightarrow> 'w option" where
  "drop_frame p event e data context w = do {
     w \<leftarrow> errorNotifyHelper p e (tc_log p event w);
     tc_dataReturnOut p data context w
   }"

text \<open>
  The checksum is computed over \<^verbatim>\<open>total_frame_length - 2\<close> bytes, an \<^verbatim>\<open>int\<close> converted to \<^verbatim>\<open>U32\<close>: for a length of 1 it would read
  far behind the buffer, which is undefined and modelled like a failed assertion. The new size is computed in \<^verbatim>\<open>int\<close>, too, and
  converted to 64 bits.
\<close>

definition TcDeframer_dataIn :: "'w tc_ports \<Rightarrow> TcDeframer \<Rightarrow> Fw_Buffer \<Rightarrow> FrameContext \<Rightarrow> 'w \<Rightarrow> 'w option" where
  "TcDeframer_dataIn p d data context w = do {
     FW_ASSERT (buf_size data > 5 + 2);
     header \<leftarrow> TCHeader_deserialize (buf_data data);
     let total_frame_length = (vcIdAndLength header AND FrameLengthMask) + 1;
     let vc_id = (ucast (drop_bit 10 (vcIdAndLength header AND VcIdMask)) :: u8);
     let spacecraft_id = flagsAndScId header AND SpacecraftIdMask;
     let total = unat total_frame_length;
     if spacecraft_id \<noteq> m_spacecraftId d then
       drop_frame p (InvalidSpacecraftId spacecraft_id (m_spacecraftId d)) TC_INVALID_SCID data context w
     else if buf_size data < total then
       drop_frame p (InvalidFrameLength total_frame_length (buf_size data)) TC_INVALID_LENGTH data context w
     else if \<not> m_acceptAllVcid d \<and> ucast vc_id \<noteq> m_vcId d then
       drop_frame p (InvalidVcId vc_id (m_vcId d)) TC_INVALID_VCID data context w
     else do {
       FW_ASSERT (total \<ge> 2);
       let computed_crc = CRC16_compute (take (total - 2) (buf_data data));
       transmitted_crc \<leftarrow> TCTrailer_deserialize (drop (total - 2) (buf_data data));
       if transmitted_crc \<noteq> computed_crc then
         drop_frame p (InvalidCrc computed_crc transmitted_crc) TC_INVALID_CRC data context w
       else tc_dataOut p (data\<lparr>buf_addr := buf_addr data + 5, buf_memory := drop 5 (buf_memory data),
              buf_size := (if total \<ge> 5 + 2 then total - 5 - 2 else 2 ^ 64 + total - 5 - 2)\<rparr>) context w
     }
   }"

definition TcDeframer_dataReturnIn :: "'w tc_ports \<Rightarrow> Fw_Buffer \<Rightarrow> FrameContext \<Rightarrow> 'w \<Rightarrow> 'w option" where
  "TcDeframer_dataReturnIn p fwBuffer context w = tc_dataReturnOut p fwBuffer context w"

section \<open>What the detector decides on\<close>

definition tc_length :: "bytes \<Rightarrow> nat" where
  "tc_length xs = unat (of_be16 (xs ! 2) (xs ! 3) AND FrameLengthMask) + 1"

definition tc_decide :: "bytes \<Rightarrow> (DetectorStatus \<times> nat) option" where
  "tc_decide xs =
     (if length xs < 7 then Some (MORE_DATA_NEEDED, 7)
      else if of_be16 (xs ! 0) (xs ! 1) \<noteq> m_expectedFlagsAndScIdToken then Some (NO_FRAME_DETECTED, 0)
      else if length xs < tc_length xs then Some (MORE_DATA_NEEDED, tc_length xs)
      else let k = unat (of_nat (tc_length xs) - 2 :: u16) in
        if length xs < k then None
        else if length xs < k + 2 then Some (NO_FRAME_DETECTED, 0)
        else if of_be16 (xs ! k) (xs ! (k + 1)) \<noteq> CRC16_compute (take k xs) then Some (NO_FRAME_DETECTED, 0)
        else Some (FRAME_DETECTED, tc_length xs))"

lemma crc_loop_contents:
  assumes "ring_ok r" "i \<le> length (contents r)"
  shows "crc_loop n i r crc = (if i + n \<le> length (contents r)
    then Some (fold CRC16_update (take n (drop i (contents r))) crc) else None)"
  using assms(2)
proof (induction n arbitrary: i crc)
  case 0
  then show ?case by simp
next
  case (Suc n)
  show ?case
  proof (cases "i < length (contents r)")
    case True
    then have "take (Suc n) (drop i (contents r)) = contents r ! i # take n (drop (Suc i) (contents r))"
      by (simp add: Cons_nth_drop_Suc [symmetric])
    with True Suc show ?thesis by (simp add: peek_U8_contents [OF assms(1)])
  next
    case False
    then show ?thesis by (simp add: peek_U8_contents [OF assms(1)])
  qed
qed

lemma header_take:
  assumes "5 \<le> length xs"
  shows "TCHeader_deserialize (take 5 xs) =
    Some \<lparr>flagsAndScId = of_be16 (xs ! 0) (xs ! 1), vcIdAndLength = of_be16 (xs ! 2) (xs ! 3), frameSequenceNum = xs ! 4\<rparr>"
    "TCHeader_deserialize xs = TCHeader_deserialize (take 5 xs)"
proof -
  obtain a b c d e ys where "xs = a # b # c # d # e # ys"
    using assms by (auto simp: numeral_eq_Suc Suc_le_length_iff)
  then show "TCHeader_deserialize (take 5 xs) =
    Some \<lparr>flagsAndScId = of_be16 (xs ! 0) (xs ! 1), vcIdAndLength = of_be16 (xs ! 2) (xs ! 3), frameSequenceNum = xs ! 4\<rparr>"
    "TCHeader_deserialize xs = TCHeader_deserialize (take 5 xs)"
    by (simp_all add: TCHeader_deserialize_def numeral_eq_Suc)
qed

lemma trailer_drop:
  assumes "k + 2 \<le> length xs"
  shows "TCTrailer_deserialize (drop k xs) = Some (of_be16 (xs ! k) (xs ! Suc k))"
    "TCTrailer_deserialize (take 2 (drop k xs)) = Some (of_be16 (xs ! k) (xs ! Suc k))"
proof -
  have "drop k xs = xs ! k # xs ! Suc k # drop (Suc (Suc k)) xs"
    using assms by (simp add: Cons_nth_drop_Suc)
  then show "TCTrailer_deserialize (drop k xs) = Some (of_be16 (xs ! k) (xs ! Suc k))"
    "TCTrailer_deserialize (take 2 (drop k xs)) = Some (of_be16 (xs ! k) (xs ! Suc k))"
    by (simp_all add: TCTrailer_deserialize_def numeral_eq_Suc)
qed

lemma tc_detect_contents:
  assumes "ring_ok r"
  shows "tc_detect r = tc_decide (contents r)"
proof (cases "length (contents r) < 7")
  case True
  then show ?thesis by (simp add: tc_detect_def tc_decide_def get_allocated_size_def)
next
  case False
  let ?xs = "contents r"
  let ?k = "unat (of_nat (tc_length ?xs) - 2 :: u16)"
  note parts = header_take(1) [of ?xs] peek_contents [OF assms]
  show ?thesis
    using False parts trailer_drop(2) [of ?k ?xs] CRC16_incremental [of "take ?k ?xs"]
    by (auto simp: tc_detect_def tc_decide_def get_allocated_size_def Let_def tc_length_def crc_loop_contents [OF assms])
qed

section \<open>The contract\<close>

lemma tc_length_bounds: "0 < tc_length xs" "tc_length xs \<le> 1024"
proof -
  have "of_be16 a b AND FrameLengthMask \<le> FrameLengthMask" for a b
    by (rule word_and_le1)
  then show "tc_length xs \<le> 1024"
    unfolding tc_length_def by (simp add: FrameLengthMask_def word_le_nat_alt)
qed (simp add: tc_length_def)

lemma tc_crc_length: "2 \<le> tc_length xs \<Longrightarrow> unat (of_nat (tc_length xs) - 2 :: u16) = tc_length xs - 2"
proof -
  assume "2 \<le> tc_length xs"
  then have "of_nat (tc_length xs) - 2 = (of_nat (tc_length xs - 2) :: u16)" by (simp add: of_nat_diff)
  then show ?thesis
    using tc_length_bounds(2) [of xs] by (simp add: unsigned_of_nat take_bit_nat_eq_self)
qed

text \<open>Frames of length 1 make the detector count from 65535: nothing that fits a smaller ring survives its assertion.\<close>

lemma unat_max16 [simp]: "unat (- 1 :: u16) = 65535"
  by (simp add: unsigned_minus_1_eq_mask mask_eq_exp_minus_1)

lemma tc_decide_prefix:
  assumes "7 \<le> length xs"
  shows "tc_length (xs @ ys) = tc_length xs" "(xs @ ys) ! 0 = xs ! 0" "(xs @ ys) ! 1 = xs ! 1"
  using assms by (auto simp: tc_length_def nth_append)

lemma tc_stable:
  assumes "length (xs @ ys) \<le> cap" "7 \<le> cap" "cap < 65535"
    and "\<And>n. tc_decide xs = Some (MORE_DATA_NEEDED, n) \<Longrightarrow> cap < n"
  shows "tc_decide (xs @ ys) = tc_decide xs"
proof -
  have long: "7 \<le> length xs"
    using assms(2,4) by (rule_tac ccontr) (simp add: tc_decide_def)
  note pre = tc_decide_prefix [OF long, of ys]
  show ?thesis
  proof (cases "of_be16 (xs ! 0) (xs ! 1) = m_expectedFlagsAndScIdToken")
    case False
    then show ?thesis using long pre by (simp add: tc_decide_def)
  next
    case token: True
    show ?thesis
    proof (cases "length xs < tc_length xs")
      case True
      then have "cap < tc_length xs"
        using assms(4) [of "tc_length xs"] token long by (simp add: tc_decide_def)
      then show ?thesis using True token long pre assms(1) by (simp add: tc_decide_def)
    next
      case False
      show ?thesis
      proof (cases "tc_length xs = 1")
        case True
        then show ?thesis using False token long pre assms(1,3) by (simp add: tc_decide_def Let_def)
      next
        case ne: False
        then have two: "2 \<le> tc_length xs" using tc_length_bounds(1) [of xs] by simp
        then obtain j where j: "tc_length xs = Suc (Suc j)" by (metis Suc_1 add_2_eq_Suc le_Suc_ex)
        have "unat (of_nat (tc_length xs) - 2 :: u16) = j" "xs \<noteq> []" using tc_crc_length [OF two] j long by auto
        with False token long pre j show ?thesis
          by (simp add: tc_decide_def nth_append Let_def del: of_nat_Suc)
      qed
    qed
  qed
qed

lemma tc_contract:
  assumes "7 \<le> cap" "cap < 65535"
  shows "frame_detector tc_detect tc_decide cap"
proof
  fix xs n
  assume len: "length xs \<le> cap" and frame: "tc_decide xs = Some (FRAME_DETECTED, n)"
  then show "0 < n \<and> n \<le> length xs"
    using tc_length_bounds(1) [of xs] by (auto simp: tc_decide_def Let_def split: if_splits)
next
  fix xs n
  assume "tc_decide xs = Some (MORE_DATA_NEEDED, n)"
  then show "length xs < n"
    by (auto simp: tc_decide_def Let_def split: if_splits)
qed (use tc_stable assms in \<open>auto simp: tc_detect_contents\<close>)

text \<open>The accumulator of the deployment has a ring of 2048 bytes.\<close>

definition frameAccumulatorSize :: nat where
  "frameAccumulatorSize = 2048"

interpretation tc: frame_detector tc_detect tc_decide frameAccumulatorSize
  by (rule tc_contract) (simp_all add: frameAccumulatorSize_def)

section \<open>Frames\<close>

text \<open>The frame a ground station sends for \<open>data\<close> on virtual channel \<open>vc\<close> (CCSDS 232.0-B, type BD).\<close>

definition tc_header :: "u8 \<Rightarrow> u8 \<Rightarrow> nat \<Rightarrow> bytes" where
  "tc_header vc sequence n = be16 m_expectedFlagsAndScIdToken @
     be16 (push_bit 10 (ucast vc) OR of_nat (n + 6)) @ [sequence]"

definition tc_frame :: "u8 \<Rightarrow> u8 \<Rightarrow> bytes \<Rightarrow> bytes" where
  "tc_frame vc sequence data =
     (let body = tc_header vc sequence (length data) @ data in body @ be16 (CRC16_compute body))"

lemma length_tc_header [simp]: "length (tc_header vc sequence n) = 5"
  by (simp add: tc_header_def)

lemma length_tc_frame [simp]: "length (tc_frame vc sequence data) = length data + 7"
  by (simp add: tc_frame_def Let_def)

lemma tc_frame_fields:
  assumes "length data \<le> 1017"
  shows "of_be16 (tc_frame vc sequence data ! 0) (tc_frame vc sequence data ! 1) = m_expectedFlagsAndScIdToken"
    "of_be16 (tc_frame vc sequence data ! 2) (tc_frame vc sequence data ! 3) = push_bit 10 (ucast vc) OR of_nat (length data + 6)"
    "tc_length (tc_frame vc sequence data) = length data + 7"
proof -
  let ?v = "push_bit 10 (ucast vc) OR of_nat (length data + 6) :: u16"
  obtain a b where ab: "be16 m_expectedFlagsAndScIdToken = [a, b]" by (simp add: be16_def)
  obtain c d where cd: "be16 ?v = [c, d]" by (simp add: be16_def)
  have "tc_frame vc sequence data = a # b # c # d # sequence # data @ be16 (CRC16_compute (tc_header vc sequence (length data) @ data))"
    by (simp add: tc_frame_def tc_header_def Let_def ab cd del: of_nat_add)
  then show "of_be16 (tc_frame vc sequence data ! 0) (tc_frame vc sequence data ! 1) = m_expectedFlagsAndScIdToken"
    and two: "of_be16 (tc_frame vc sequence data ! 2) (tc_frame vc sequence data ! 3) = ?v"
    using of_be16_be16 [OF ab] of_be16_be16 [OF cd] by (simp_all add: numeral_eq_Suc)
  have small: "length data + 6 < 2 ^ 10" using assms by simp
  then have "take_bit 10 (of_nat (length data + 6) :: u16) = of_nat (length data + 6)"
    by (simp only: take_bit_of_nat take_bit_nat_eq_self)
  moreover have "FrameLengthMask = mask 10"
    by (simp add: FrameLengthMask_def mask_eq_exp_minus_1)
  moreover have "take_bit 10 (push_bit 10 (ucast vc) :: u16) = 0"
    by (rule bit_word_eqI) (auto simp: bit_simps)
  ultimately have "take_bit 10 ?v = of_nat (length data + 6)" "?v AND FrameLengthMask = take_bit 10 ?v"
    by (simp_all only: take_bit_eq_mask bit.conj_disj_distrib2 or.left_neutral)
  then have "?v AND FrameLengthMask = of_nat (length data + 6)" by simp
  moreover have "unat (of_nat (length data + 6) :: u16) = length data + 6"
    using assms by (simp add: unsigned_of_nat take_bit_nat_eq_self del: of_nat_add)
  ultimately show "tc_length (tc_frame vc sequence data) = length data + 7"
    unfolding tc_length_def two by simp
qed

lemma tc_frame_crc:
  "take (length data + 5) (tc_frame vc sequence data) = tc_header vc sequence (length data) @ data"
  "of_be16 (tc_frame vc sequence data ! (length data + 5)) (tc_frame vc sequence data ! Suc (length data + 5)) =
     CRC16_compute (tc_header vc sequence (length data) @ data)"
proof -
  let ?body = "tc_header vc sequence (length data) @ data"
  obtain a b where ab: "be16 (CRC16_compute ?body) = [a, b]" by (simp add: be16_def)
  have frame: "tc_frame vc sequence data = ?body @ [a, b]" by (simp add: tc_frame_def Let_def ab)
  show "take (length data + 5) (tc_frame vc sequence data) = ?body"
    unfolding frame by simp
  have "length ?body = length data + 5" by simp
  then have "tc_frame vc sequence data ! (length data + 5) = a" "tc_frame vc sequence data ! Suc (length data + 5) = b"
    unfolding frame by (simp_all add: nth_append)
  then show "of_be16 (tc_frame vc sequence data ! (length data + 5)) (tc_frame vc sequence data ! Suc (length data + 5)) =
     CRC16_compute ?body"
    using of_be16_be16 [OF ab] by simp
qed

lemma tc_frame_detected:
  assumes "length data \<le> 1017"
  shows "tc_decide (tc_frame vc sequence data) = Some (FRAME_DETECTED, length data + 7)"
proof -
  note fields = tc_frame_fields [OF assms, of vc sequence]
  have "unat (of_nat (tc_length (tc_frame vc sequence data)) - 2 :: u16) = length data + 5"
    using tc_crc_length [of "tc_frame vc sequence data"] unfolding fields(3) by simp
  then show ?thesis
    using fields tc_frame_crc [where data = data and vc = vc and sequence = sequence] by (simp add: tc_decide_def Let_def)
qed

lemma tc_frames_fed:
  assumes "list_all (\<lambda>(vc, sequence, data). length data \<le> 1017) fs"
  shows "feed tc_decide frameAccumulatorSize [] (concat (map (\<lambda>(vc, sequence, data). tc_frame vc sequence data) fs)) =
    Some (map (\<lambda>(vc, sequence, data). tc_frame vc sequence data) fs, [])"
  using assms
proof (induction fs)
  case (Cons f fs)
  obtain vc sequence data where f: "f = (vc, sequence, data)" by (cases f) auto
  let ?f = "tc_frame vc sequence data"
  have small: "length data \<le> 1017" using Cons.prems f by simp
  have "scan tc_decide frameAccumulatorSize ?f = Some ([?f], [])"
    using tc_frame_detected [OF small, of vc sequence] small length_tc_frame [of vc sequence data]
    by (subst scan.simps) (auto simp: frameAccumulatorSize_def scan.simps [of _ _ "[]"] dest: arg_cong [where f = length])
  then have "feed tc_decide frameAccumulatorSize [] ?f = Some ([?f], [])"
    using tc.feed_scan [of "[]" ?f] tc.scan_Nil small by (simp add: frameAccumulatorSize_def)
  with Cons f show ?case by (simp add: feed_append)
qed simp

section \<open>Deframing\<close>

lemma tc_frame_channel:
  assumes "length data \<le> 1017" "vc < (64 :: u8)"
  shows "ucast (drop_bit 10 ((push_bit 10 (ucast vc) OR of_nat (length data + 6) :: u16) AND VcIdMask)) = vc"
proof -
  define v :: u16 where "v = of_nat (length data + 6)"
  have "length data + 6 < 2 ^ 10" using assms(1) by simp
  then have "take_bit 10 v = v"
    unfolding v_def by (simp only: take_bit_of_nat take_bit_nat_eq_self)
  then have low: "\<not> bit v (10 + i)" for i
    by (metis bit_take_bit_iff not_add_less1)
  have mask: "VcIdMask = push_bit 10 (mask 6)"
    by (simp add: VcIdMask_def mask_eq_exp_minus_1)
  have "take_bit 6 vc = vc"
    using assms(2) by (simp add: take_bit_eq_mod mod_word_less)
  then have high: "bit vc i \<Longrightarrow> i < 6" for i
    by (metis bit_take_bit_iff)
  show ?thesis
    unfolding v_def [symmetric] mask
    by (rule bit_word_eqI) (use low high in \<open>force simp: bit_simps\<close>)
qed

text \<open>The buffer that shows the data field of the frame in \<open>b\<close>.\<close>

definition data_field :: "Fw_Buffer \<Rightarrow> nat \<Rightarrow> Fw_Buffer" where
  "data_field b n = b\<lparr>buf_addr := buf_addr b + 5, buf_memory := drop 5 (buf_memory b), buf_size := n\<rparr>"

lemma token_scid: "m_expectedFlagsAndScIdToken AND SpacecraftIdMask = SpacecraftId"
  by (simp add: m_expectedFlagsAndScIdToken_def SpacecraftIdMask_def SpacecraftId_def)

lemma deframe_frame:
  assumes "0 < length data" "length data \<le> 1017" "vc < 64"
    and "m_spacecraftId d = SpacecraftId" "m_acceptAllVcid d \<or> m_vcId d = ucast vc"
    and "buf_size b = length data + 7" "buf_data b = tc_frame vc sequence data"
  shows "TcDeframer_dataIn p d b ctx w = tc_dataOut p (data_field b (length data)) ctx w"
    "buf_data (data_field b (length data)) = data"
proof -
  note fields = tc_frame_fields [OF assms(2), of vc sequence] and crc = tc_frame_crc [where data = data and vc = vc and sequence = sequence]
  let ?f = "tc_frame vc sequence data"
  let ?v = "push_bit 10 (ucast vc) OR of_nat (length data + 6) :: u16"
  have head: "TCHeader_deserialize ?f = Some \<lparr>flagsAndScId = m_expectedFlagsAndScIdToken, vcIdAndLength = ?v, frameSequenceNum = ?f ! 4\<rparr>"
    using header_take [of ?f] fields(1,2) by simp
  have "unat (?v AND FrameLengthMask) = length data + 6"
    using fields(3) unfolding tc_length_def fields(2) by simp
  then have total: "unat ((?v AND FrameLengthMask) + 1) = length data + 7"
    using assms(2) unat_add_lem [of "?v AND FrameLengthMask" 1] by simp
  have trailer: "TCTrailer_deserialize (drop (5 + length data) ?f) = Some (CRC16_compute (take (5 + length data) ?f))"
    using trailer_drop(1) [of "length data + 5" ?f] crc by (simp add: add.commute)
  show "TcDeframer_dataIn p d b ctx w = tc_dataOut p (data_field b (length data)) ctx w"
    unfolding TcDeframer_dataIn_def assms(6,7) head Let_def
    using assms total trailer tc_frame_channel [OF assms(2,3)]
    by (auto simp: token_scid data_field_def)
  have "drop 5 (take (length data + 7) (buf_memory b)) = drop 5 ?f"
    using assms(6,7) by (simp add: buf_data_def)
  moreover have "take (length data) (drop 5 ?f) = data"
    using crc(1) by (simp add: take_drop)
  ultimately have "take (length data) (drop 5 (take (length data + 7) (buf_memory b))) = data" by simp
  then show "buf_data (data_field b (length data)) = data"
    by (simp add: buf_data_def data_field_def take_drop min_def)
qed

section \<open>Properties\<close>

text \<open>
  Deframing inverts framing: from a buffer with the frame of a ground station, for this spacecraft and an accepted
  channel, the deframer passes on exactly the data that were framed, of 1 to 1017 bytes, in place, and nothing else.
\<close>

theorem deframing_inverts_framing:
  assumes "0 < length data" "length data \<le> 1017" "vc < 64"
    and "m_spacecraftId d = SpacecraftId" "m_acceptAllVcid d \<or> m_vcId d = ucast vc"
    and "buf_size b = length data + 7" "buf_data b = tc_frame vc sequence data"
  shows "\<exists>b'. TcDeframer_dataIn p d b ctx w = tc_dataOut p b' ctx w \<and> buf_data b' = data \<and>
    buf_addr b' = buf_addr b + 5 \<and> buf_size b' = length data \<and> buf_context b' = buf_context b"
  using deframe_frame [OF assms] by (intro exI [of _ "data_field b (length data)"]) (simp add: data_field_def)

theorem deframing_inverts_framing_witness:
  "\<exists>b'. TcDeframer_dataIn \<lparr>tc_dataOut = \<lambda>b _ w. Some (w @ [buf_data b]), tc_dataReturnOut = \<lambda>_ _ w. Some w,
       tc_errorNotify = None, tc_log = \<lambda>_ w. w\<rparr> (TcDeframer_new 0)
     \<lparr>buf_addr = 64, buf_size = 10, buf_context = 0, buf_memory = tc_frame 1 0 [1, 2, 3]\<rparr> FrameContext_default []
     = Some [buf_data b'] \<and> buf_data b' = [1, 2, 3]"
  using deframing_inverts_framing [of "[1, 2, 3]" 1 "TcDeframer_new 0"
      "\<lparr>buf_addr = 64, buf_size = 10, buf_context = 0, buf_memory = tc_frame 1 0 [1, 2, 3]\<rparr>" 0
      "\<lparr>tc_dataOut = \<lambda>b _ w. Some (w @ [buf_data b]), tc_dataReturnOut = \<lambda>_ _ w. Some w,
       tc_errorNotify = None, tc_log = \<lambda>_ w. w\<rparr>" FrameContext_default "[]"]
  by (auto simp: TcDeframer_new_def buf_data_def)

text \<open>
  C33: Seven bytes stop the program. A header for this spacecraft whose length field is zero makes the detector compute a
  checksum length of 65535 and run into its own assertion, in any ring smaller than that; and the shortest frame the detector
  accepts, one without data, is one the deframer asserts cannot occur.
\<close>

theorem short_frames_assert:
  assumes "ring_ok r" "m_store_size r < 65535" "7 \<le> length (contents r)"
    and "of_be16 (contents r ! 0) (contents r ! 1) = m_expectedFlagsAndScIdToken" "tc_length (contents r) = 1"
  shows "processRing tc_detect p r w = None \<and>
    tc_decide (tc_frame vc sequence []) = Some (FRAME_DETECTED, 7) \<and>
    (buf_size b = 7 \<longrightarrow> TcDeframer_dataIn q d b ctx w = None)"
proof -
  have len: "length (contents r) \<le> m_store_size r" using assms(1) by (simp add: ring_ok_def)
  then have "tc_decide (contents r) = None"
    using assms(2-5) by (simp add: tc_decide_def Let_def)
  moreover obtain k where "m_store_size r = Suc k" using assms(1) by (cases "m_store_size r") (auto simp: ring_ok_def)
  ultimately have "processRing tc_detect p r w = None"
    using assms(1,3) tc_detect_contents [OF assms(1)]
    by (auto simp: processRing_def get_allocated_size_def)
  then show ?thesis
    using tc_frame_detected [of "[]" vc sequence] by (simp add: TcDeframer_dataIn_def FW_ASSERT_def)
qed

text \<open>The ring of the deployment after seven bytes.\<close>

definition hostile_ring :: CircularBuffer where
  "hostile_ring = \<lparr>m_store = Some ([0x20, 0x44, 0, 0, 0, 0, 0] @ replicate 2041 0), m_store_size = 2048, m_head_idx = 0,
     m_allocated_size = 7, m_high_water_mark = 7\<rparr>"

lemma hostile_ring_contents: "contents hostile_ring = [0x20, 0x44, 0, 0, 0, 0, 0]"
  by (simp add: contents_def hostile_ring_def upt_rec nth_append)

theorem short_frames_assert_witness:
  "\<forall>(p :: unit accumulator_ports) w. processRing tc_detect p hostile_ring w = None"
proof (intro allI)
  fix p :: "unit accumulator_ports" and w
  have "ring_ok hostile_ring" "m_store_size hostile_ring < 65535"
    by (simp_all add: hostile_ring_def ring_ok_def)
  from short_frames_assert [OF this, of p w 0 0] show "processRing tc_detect p hostile_ring w = None"
    unfolding hostile_ring_contents
    by (simp add: tc_length_def FrameLengthMask_def of_be16_def m_expectedFlagsAndScIdToken_def SpacecraftId_def)
qed

end
