(* ===== verification/Buffer_Manager.thy ===== *)
theory Buffer_Manager
  imports Fprime_Types
begin

text \<open>
  The buffer manager \<^verbatim>\<open>Svc/BufferManager/BufferManagerComponentImpl.{hpp,cpp}\<close>, which lends the radio adapter and the
  framing stack their buffers: set-up of the pool from bins, lending the first free buffer that is large enough, taking
  back, and the telemetry counters. Memory comes from an allocator (\<^verbatim>\<open>Fw::MemAllocator\<close>), a parameter: \<open>alloc n\<close> is the
  address and the size it returns for a request of \<open>n\<close> bytes, and \<open>mem\<close> the bytes that are in the memory.
\<close>

section \<open>The component\<close>

record BufferBin =
  bin_bufferSize :: nat
  bin_numBuffers :: u16

record AllocatedBuffer =
  ab_buff :: Fw_Buffer
  ab_memory :: nat
  ab_size :: nat
  ab_allocated :: bool

record BufferManager =
  m_setup :: bool
  m_cleaned :: bool
  m_mgrId :: u16
  m_bufferBins :: "BufferBin list"
  m_buffers :: "AllocatedBuffer list option"
  m_numStructs :: u16
  m_highWater :: u32
  m_currBuffs :: u32
  m_noBuffs :: u32
  m_emptyBuffs :: u32

definition BufferManager_new :: BufferManager where
  "BufferManager_new = \<lparr>m_setup = False, m_cleaned = False, m_mgrId = 0, m_bufferBins = [], m_buffers = None, m_numStructs = 0,
     m_highWater = 0, m_currBuffs = 0, m_noBuffs = 0, m_emptyBuffs = 0\<rparr>"

text \<open>The first loop of \<^verbatim>\<open>setup\<close>: the number of tracking structures, which has to fit 16 bits, and the memory needed.\<close>

fun count_structs :: "nat \<Rightarrow> BufferBin list \<Rightarrow> u16 \<Rightarrow> nat \<Rightarrow> (u16 \<times> nat) option" where
  "count_structs sizeof_struct [] numStructs memorySize = Some (numStructs, memorySize)"
| "count_structs sizeof_struct (bin # bins) numStructs memorySize =
     (if bin_numBuffers bin = 0 then count_structs sizeof_struct bins numStructs memorySize
      else do {
        FW_ASSERT (0xFFFF - uint numStructs \<ge> uint (bin_numBuffers bin));
        count_structs sizeof_struct bins (numStructs + bin_numBuffers bin)
          (memorySize + bin_bufferSize bin * unat (bin_numBuffers bin) + sizeof_struct * unat (bin_numBuffers bin))
      })"

text \<open>The second loop: \<open>k\<close> structures of one bin, then bin after bin; \<open>bufferMem\<close> and \<open>currStruct\<close> move on.\<close>

definition make_struct :: "(nat \<Rightarrow> u8) \<Rightarrow> u16 \<Rightarrow> nat \<Rightarrow> u16 \<Rightarrow> nat \<Rightarrow> AllocatedBuffer" where
  "make_struct mem mgrId bufferSize currStruct bufferMem =
     \<lparr>ab_buff = \<lparr>buf_addr = bufferMem, buf_size = bufferSize,
        buf_context = push_bit 16 (ucast mgrId) OR ucast currStruct, buf_memory = map mem [bufferMem..<bufferMem + bufferSize]\<rparr>,
      ab_memory = bufferMem, ab_size = bufferSize, ab_allocated = False\<rparr>"

fun init_bin :: "(nat \<Rightarrow> u8) \<Rightarrow> u16 \<Rightarrow> nat \<Rightarrow> nat \<Rightarrow> u16 \<Rightarrow> nat \<Rightarrow> AllocatedBuffer list" where
  "init_bin mem mgrId bufferSize 0 currStruct bufferMem = []"
| "init_bin mem mgrId bufferSize (Suc k) currStruct bufferMem =
     make_struct mem mgrId bufferSize currStruct bufferMem #
       init_bin mem mgrId bufferSize k (currStruct + 1) (bufferMem + bufferSize)"

fun init_bins :: "(nat \<Rightarrow> u8) \<Rightarrow> u16 \<Rightarrow> BufferBin list \<Rightarrow> u16 \<Rightarrow> nat \<Rightarrow> AllocatedBuffer list" where
  "init_bins mem mgrId [] currStruct bufferMem = []"
| "init_bins mem mgrId (bin # bins) currStruct bufferMem =
     init_bin mem mgrId (bin_bufferSize bin) (unat (bin_numBuffers bin)) currStruct bufferMem @
     init_bins mem mgrId bins (currStruct + bin_numBuffers bin)
       (bufferMem + bin_bufferSize bin * unat (bin_numBuffers bin))"

definition BufferManager_setup :: "nat \<Rightarrow> (nat \<Rightarrow> nat \<times> nat) \<Rightarrow> (nat \<Rightarrow> u8) \<Rightarrow> u16 \<Rightarrow> BufferBin list \<Rightarrow> BufferManager \<Rightarrow>
    BufferManager option" where
  "BufferManager_setup sizeof_struct alloc mem mgrId bins m = do {
     (numStructs, memorySize) \<leftarrow> count_structs sizeof_struct bins 0 0;
     (memory, allocatedSize) \<leftarrow> Some (alloc memorySize);
     FW_ASSERT (memory \<noteq> 0 \<and> memorySize = allocatedSize);
     bufferMem \<leftarrow> Some (memory + sizeof_struct * unat numStructs);
     structs \<leftarrow> Some (init_bins mem mgrId bins 0 bufferMem);
     FW_ASSERT (bufferMem + sum_list (map ab_size structs) = memory + memorySize);
     FW_ASSERT (length structs = unat numStructs);
     Some (m\<lparr>m_setup := True, m_mgrId := mgrId, m_bufferBins := bins, m_buffers := Some structs, m_numStructs := numStructs\<rparr>)
   }"

text \<open>\<^verbatim>\<open>bufferGetCallee\<close>: the first free structure from index \<open>i\<close> on that is large enough.\<close>

fun find_buffer :: "nat \<Rightarrow> AllocatedBuffer list \<Rightarrow> nat \<Rightarrow> nat option" where
  "find_buffer sz [] i = None"
| "find_buffer sz (s # ss) i = (if \<not> ab_allocated s \<and> sz \<le> ab_size s then Some i else find_buffer sz ss (Suc i))"

definition bufferGetCallee :: "nat \<Rightarrow> BufferManager \<Rightarrow> (Fw_Buffer \<times> BufferManager) option" where
  "bufferGetCallee sz m = do {
     FW_ASSERT (m_setup m);
     structs \<leftarrow> m_buffers m;
     (case find_buffer sz (take (unat (m_numStructs m)) structs) 0 of
        Some i \<Rightarrow>
          let curr = m_currBuffs m + 1 in
          Some ((ab_buff (structs ! i))\<lparr>buf_size := sz\<rparr>,
            m\<lparr>m_buffers := Some (structs[i := (structs ! i)\<lparr>ab_allocated := True\<rparr>]), m_currBuffs := curr,
              m_highWater := (if curr > m_highWater m then curr else m_highWater m)\<rparr>)
      | None \<Rightarrow> Some (Fw_Buffer_empty, m\<lparr>m_noBuffs := m_noBuffs m + 1\<rparr>))
   }"

definition bufferSendIn :: "Fw_Buffer \<Rightarrow> BufferManager \<Rightarrow> BufferManager option" where
  "bufferSendIn fwBuffer m = do {
     FW_ASSERT (m_setup m);
     structs \<leftarrow> m_buffers m;
     if buf_addr fwBuffer = 0 \<and> buf_size fwBuffer = 0 then Some (m\<lparr>m_emptyBuffs := m_emptyBuffs m + 1\<rparr>)
     else do {
       let id = buf_context fwBuffer AND 0xFFFF;
       let mgrId = drop_bit 16 (buf_context fwBuffer);
       FW_ASSERT (id < ucast (m_numStructs m));
       FW_ASSERT (mgrId = ucast (m_mgrId m));
       let s = structs ! unat id;
       FW_ASSERT (ab_allocated s);
       FW_ASSERT (buf_addr fwBuffer \<ge> ab_memory s);
       FW_ASSERT (buf_addr fwBuffer < ab_memory s + ab_size s);
       FW_ASSERT (buf_size fwBuffer \<le> ab_size s);
       Some (m\<lparr>m_buffers := Some (structs[unat id := s\<lparr>ab_allocated := False\<rparr>]), m_currBuffs := m_currBuffs m - 1\<rparr>)
     }
   }"

text \<open>\<^verbatim>\<open>schedIn\<close> writes the counters to telemetry: high-water mark, current, total, refused, empty.\<close>

definition BufferManager_schedIn :: "BufferManager \<Rightarrow> u32 \<times> u32 \<times> u16 \<times> u32 \<times> u32" where
  "BufferManager_schedIn m = (m_highWater m, m_currBuffs m, m_numStructs m, m_noBuffs m, m_emptyBuffs m)"

definition BufferManager_cleanup :: "BufferManager \<Rightarrow> BufferManager option" where
  "BufferManager_cleanup m = do {
     FW_ASSERT (m_buffers m \<noteq> None);
     Some (if m_cleaned m then m else m\<lparr>m_cleaned := True, m_setup := False\<rparr>)
   }"

section \<open>The pool\<close>

definition context_of :: "u16 \<Rightarrow> nat \<Rightarrow> u32" where
  "context_of mgrId i = push_bit 16 (ucast mgrId) OR ucast (of_nat i :: u16)"

definition slot_ok :: "u16 \<Rightarrow> nat \<Rightarrow> AllocatedBuffer \<Rightarrow> bool" where
  "slot_ok mgrId i s \<longleftrightarrow> buf_addr (ab_buff s) = ab_memory s \<and> buf_size (ab_buff s) = ab_size s \<and>
     buf_context (ab_buff s) = context_of mgrId i \<and> length (buf_memory (ab_buff s)) = ab_size s"

text \<open>The memories of the structures lie one behind the other from \<open>base\<close> on.\<close>

fun chain :: "nat \<Rightarrow> AllocatedBuffer list \<Rightarrow> bool" where
  "chain base [] = True"
| "chain base (s # ss) = (ab_memory s = base \<and> chain (base + ab_size s) ss)"

definition slots :: "BufferManager \<Rightarrow> AllocatedBuffer list" where
  "slots m = (case m_buffers m of None \<Rightarrow> [] | Some ss \<Rightarrow> ss)"

definition lent :: "BufferManager \<Rightarrow> nat set" where
  "lent m = {i. i < length (slots m) \<and> ab_allocated (slots m ! i)}"

definition pool_ok :: "BufferManager \<Rightarrow> bool" where
  "pool_ok m \<longleftrightarrow> m_setup m \<and> m_buffers m \<noteq> None \<and> length (slots m) = unat (m_numStructs m) \<and>
     (\<forall>i < length (slots m). slot_ok (m_mgrId m) i (slots m ! i)) \<and>
     (\<forall>i < length (slots m). 0 < ab_size (slots m ! i)) \<and>
     (\<exists>base > 0. chain base (slots m)) \<and> unat (m_currBuffs m) = card (lent m)"

lemma lent_bounds: "finite (lent m)" "card (lent m) \<le> length (slots m)"
proof -
  have sub: "lent m \<subseteq> {..<length (slots m)}" by (auto simp: lent_def)
  then show "finite (lent m)" by (rule finite_subset) simp
  show "card (lent m) \<le> length (slots m)" using card_mono [OF _ sub] by simp
qed

lemma chain_base: "chain base ss \<Longrightarrow> i < length ss \<Longrightarrow> base \<le> ab_memory (ss ! i)"
  by (induction ss arbitrary: base i) (auto simp: nth_Cons split: nat.splits dest: le_trans [OF le_add1])

lemma chain_before:
  "chain base ss \<Longrightarrow> i < j \<Longrightarrow> j < length ss \<Longrightarrow> ab_memory (ss ! i) + ab_size (ss ! i) \<le> ab_memory (ss ! j)"
proof (induction ss arbitrary: base i j)
  case (Cons s ss)
  then show ?case
    using chain_base [of "base + ab_size s" ss "j - 1"] by (cases i; cases j) auto
qed simp

lemma chain_update: "chain base (ss[i := (ss ! i)\<lparr>ab_allocated := b\<rparr>]) = chain base ss"
  by (induction ss arbitrary: base i) (auto split: nat.split)

text \<open>The two halves of a context.\<close>

lemma context_of_parts:
  "context_of mgrId i AND 0xFFFF = ucast (of_nat i :: u16)" "drop_bit 16 (context_of mgrId i) = ucast mgrId"
proof -
  have mask: "x AND 0xFFFF = take_bit 16 x" for x :: u32
    by (simp add: take_bit_eq_mask mask_eq_exp_minus_1)
  show "context_of mgrId i AND 0xFFFF = ucast (of_nat i :: u16)"
    unfolding mask context_of_def by (rule bit_word_eqI) (auto simp: bit_simps dest: bit_imp_le_length)
  show "drop_bit 16 (context_of mgrId i) = ucast mgrId"
    unfolding context_of_def by (rule bit_word_eqI) (auto simp: bit_simps dest: bit_imp_le_length)
qed

lemma context_index:
  assumes "i < unat (n :: u16)"
  shows "unat (context_of mgrId i AND 0xFFFF) = i" "context_of mgrId i AND 0xFFFF < ucast n"
proof -
  have bound: "unat n < 2 ^ LENGTH(16)" by (rule unsigned_less)
  then have "unat (of_nat i :: u16) = i"
    using assms by (simp add: unsigned_of_nat take_bit_nat_eq_self)
  then have index: "unat (ucast (of_nat i :: u16) :: u32) = i"
    using assms bound by (simp add: unsigned_ucast_eq take_bit_nat_eq_self)
  then show "unat (context_of mgrId i AND 0xFFFF) = i"
    by (simp only: context_of_parts)
  have "unat (ucast n :: u32) = unat n"
    using bound by (simp add: unsigned_ucast_eq take_bit_nat_eq_self)
  with index assms show "context_of mgrId i AND 0xFFFF < ucast n"
    by (simp only: context_of_parts word_less_nat_alt)
qed

lemma find_buffer_Some:
  "find_buffer sz ss k = Some i \<Longrightarrow> k \<le> i \<and> i < k + length ss \<and> \<not> ab_allocated (ss ! (i - k)) \<and> sz \<le> ab_size (ss ! (i - k)) \<and>
     (\<forall>j. k \<le> j \<longrightarrow> j < i \<longrightarrow> ab_allocated (ss ! (j - k)) \<or> ab_size (ss ! (j - k)) < sz)"
  by (induction sz ss k rule: find_buffer.induct)
     (auto simp: nth_Cons' Suc_diff_le not_le split: if_splits)

lemma find_buffer_None:
  "find_buffer sz ss k = None \<Longrightarrow> s \<in> set ss \<Longrightarrow> ab_allocated s \<or> ab_size s < sz"
  by (induction sz ss k rule: find_buffer.induct) (auto split: if_splits)

lemma pool_slots: "pool_ok m \<Longrightarrow> m_buffers m = Some (slots m)"
  by (auto simp: pool_ok_def slots_def)

lemma slots_update [simp]: "slots (m\<lparr>m_buffers := Some ss\<rparr>) = ss"
  by (simp add: slots_def)

lemma slots_other [simp]:
  "slots (m\<lparr>m_currBuffs := a\<rparr>) = slots m" "slots (m\<lparr>m_highWater := a\<rparr>) = slots m"
  "slots (m\<lparr>m_noBuffs := a\<rparr>) = slots m" "slots (m\<lparr>m_emptyBuffs := a\<rparr>) = slots m"
  by (simp_all add: slots_def)

text \<open>Marking one slot of the pool as lent or free, with the counter adjusted.\<close>

definition mark :: "nat \<Rightarrow> bool \<Rightarrow> u32 \<Rightarrow> BufferManager \<Rightarrow> BufferManager" where
  "mark i b n m = m\<lparr>m_buffers := Some ((slots m)[i := (slots m ! i)\<lparr>ab_allocated := b\<rparr>]), m_currBuffs := n\<rparr>"

lemma slots_mark [simp]: "slots (mark i b n m) = (slots m)[i := (slots m ! i)\<lparr>ab_allocated := b\<rparr>]"
  by (simp add: mark_def slots_def)

lemma lent_mark:
  "i < length (slots m) \<Longrightarrow> lent (mark i b n m) = (if b then insert i (lent m) else lent m - {i})"
  by (auto simp: lent_def nth_list_update)

lemma pool_ok_mark:
  assumes "pool_ok m" "i < length (slots m)" "unat n = card (lent (mark i b n m))"
  shows "pool_ok (mark i b n m)"
proof -
  have "slot_ok mgr j ((slots m)[i := (slots m ! i)\<lparr>ab_allocated := b\<rparr>] ! j) = slot_ok mgr j (slots m ! j)" for mgr j
    using assms(2) by (cases "i = j") (simp_all add: slot_ok_def)
  moreover have "ab_size ((slots m)[i := (slots m ! i)\<lparr>ab_allocated := b\<rparr>] ! j) = ab_size (slots m ! j)" for j
    using assms(2) by (cases "i = j") simp_all
  ultimately show ?thesis
    using assms by (simp add: pool_ok_def chain_update) (simp add: mark_def)
qed

lemma pool_ok_stats [simp]:
  "pool_ok (m\<lparr>m_noBuffs := a\<rparr>) = pool_ok m" "pool_ok (m\<lparr>m_emptyBuffs := a\<rparr>) = pool_ok m"
  "pool_ok (m\<lparr>m_highWater := a\<rparr>) = pool_ok m"
  by (simp_all add: pool_ok_def lent_def)

lemma lent_stats [simp]:
  "lent (m\<lparr>m_noBuffs := a\<rparr>) = lent m" "lent (m\<lparr>m_emptyBuffs := a\<rparr>) = lent m" "lent (m\<lparr>m_highWater := a\<rparr>) = lent m"
  by (simp_all add: lent_def)

text \<open>The structure counter has 16 bits, so that the 32-bit counters of the pool cannot wrap.\<close>

lemma pool_count: "pool_ok m \<Longrightarrow> card (lent m) \<le> length (slots m) \<and> length (slots m) < 2 ^ 16"
proof -
  assume "pool_ok m"
  moreover have "unat (m_numStructs m) < 2 ^ LENGTH(16)" by (rule unsigned_less)
  ultimately show ?thesis using lent_bounds [of m] by (simp add: pool_ok_def)
qed

lemma get_refused:
  assumes "pool_ok m" "find_buffer sz (slots m) 0 = None"
  shows "bufferGetCallee sz m = Some (Fw_Buffer_empty, m\<lparr>m_noBuffs := m_noBuffs m + 1\<rparr>)"
  using assms pool_slots [OF assms(1)] by (simp add: bufferGetCallee_def pool_ok_def)

lemma get_granted:
  assumes "pool_ok m" "find_buffer sz (slots m) 0 = Some i"
  shows "\<exists>hw. bufferGetCallee sz m = Some ((ab_buff (slots m ! i))\<lparr>buf_size := sz\<rparr>,
      (mark i True (m_currBuffs m + 1) m)\<lparr>m_highWater := hw\<rparr>)"
    and "pool_ok (mark i True (m_currBuffs m + 1) m)" and "i \<notin> lent m" and "i < length (slots m)"
    and "sz \<le> ab_size (slots m ! i)" and "lent (mark i True (m_currBuffs m + 1) m) = insert i (lent m)"
proof -
  have i: "i < length (slots m)" "\<not> ab_allocated (slots m ! i)" "sz \<le> ab_size (slots m ! i)"
    using find_buffer_Some [OF assms(2)] by simp_all
  then show "i \<notin> lent m" "i < length (slots m)" "sz \<le> ab_size (slots m ! i)"
    "lent (mark i True (m_currBuffs m + 1) m) = insert i (lent m)"
    by (simp_all add: lent_mark) (simp add: lent_def)
  have "unat (m_currBuffs m) = card (lent m)" "card (insert i (lent m)) = Suc (card (lent m))"
    using assms(1) \<open>i \<notin> lent m\<close> lent_bounds(1) [of m] by (simp_all add: pool_ok_def)
  moreover have "unat (m_currBuffs m + 1) = Suc (unat (m_currBuffs m))"
    using pool_count [OF assms(1)] \<open>unat (m_currBuffs m) = card (lent m)\<close>
      unat_add_lem [of "m_currBuffs m" 1] by simp
  ultimately show "pool_ok (mark i True (m_currBuffs m + 1) m)"
    using pool_ok_mark [OF assms(1) i(1)] \<open>lent (mark i True (m_currBuffs m + 1) m) = insert i (lent m)\<close> by simp
  show "\<exists>hw. bufferGetCallee sz m = Some ((ab_buff (slots m ! i))\<lparr>buf_size := sz\<rparr>,
      (mark i True (m_currBuffs m + 1) m)\<lparr>m_highWater := hw\<rparr>)"
    using assms pool_slots [OF assms(1)]
    by (intro exI [of _ "if m_currBuffs m + 1 > m_highWater m then m_currBuffs m + 1 else m_highWater m"])
       (simp add: bufferGetCallee_def pool_ok_def Let_def mark_def)
qed

text \<open>A buffer that shows part of the memory of slot \<open>i\<close>: what a borrower may give back.\<close>

definition shows_slot :: "BufferManager \<Rightarrow> nat \<Rightarrow> Fw_Buffer \<Rightarrow> bool" where
  "shows_slot m i b \<longleftrightarrow> i < length (slots m) \<and> buf_context b = context_of (m_mgrId m) i \<and>
     ab_memory (slots m ! i) \<le> buf_addr b \<and> buf_addr b < ab_memory (slots m ! i) + ab_size (slots m ! i) \<and>
     buf_size b \<le> ab_size (slots m ! i)"

lemma slot_positive: "pool_ok m \<Longrightarrow> i < length (slots m) \<Longrightarrow> 0 < ab_memory (slots m ! i)"
  using chain_base by (fastforce simp: pool_ok_def)

lemma send_accepted:
  assumes "pool_ok m" "i \<in> lent m" "shows_slot m i b"
  shows "bufferSendIn b m = Some (mark i False (m_currBuffs m - 1) m)"
    and "pool_ok (mark i False (m_currBuffs m - 1) m)" and "lent (mark i False (m_currBuffs m - 1) m) = lent m - {i}"
proof -
  have i: "i < length (slots m)" "ab_allocated (slots m ! i)" "i < unat (m_numStructs m)"
    using assms(1,2) by (auto simp: lent_def pool_ok_def)
  have nonnull: "buf_addr b \<noteq> 0"
    using slot_positive [OF assms(1) i(1)] assms(3) by (auto simp: shows_slot_def)
  note ctx = context_index [OF i(3), of "m_mgrId m"] context_of_parts(2) [of "m_mgrId m" i]
  have "buf_context b = context_of (m_mgrId m) i" "m_setup m"
    using assms(1,3) by (simp_all add: shows_slot_def pool_ok_def)
  then show "bufferSendIn b m = Some (mark i False (m_currBuffs m - 1) m)"
    using assms(3) i nonnull ctx pool_slots [OF assms(1)]
    by (simp add: bufferSendIn_def shows_slot_def Let_def mark_def)
  show lent: "lent (mark i False (m_currBuffs m - 1) m) = lent m - {i}"
    using i by (simp add: lent_mark)
  have "unat (m_currBuffs m) = card (lent m)" "0 < card (lent m)"
    using assms(1,2) lent_bounds(1) [of m] by (auto simp: pool_ok_def card_gt_0_iff)
  moreover from this have "m_currBuffs m \<noteq> 0" by auto
  ultimately have "unat (m_currBuffs m - 1) = card (lent m) - 1"
    using unat_minus_one [of "m_currBuffs m"] by simp
  with lent assms(2) show "pool_ok (mark i False (m_currBuffs m - 1) m)"
    by (intro pool_ok_mark [OF assms(1) i(1)]) (simp add: lent_bounds(1))
qed

section \<open>Setting the pool up\<close>

lemma init_bin_simps [simp]: "length (init_bin mem mgr sz k c base) = k" "sum_list (map ab_size (init_bin mem mgr sz k c base)) = sz * k"
  by (induction k arbitrary: c base) (simp_all add: make_struct_def)

lemma chain_append: "chain base (as @ bs) = (chain base as \<and> chain (base + sum_list (map ab_size as)) bs)"
  by (induction as arbitrary: base) (simp_all add: add.assoc)

lemma chain_init_bin: "chain base (init_bin mem mgr sz k c base)"
  by (induction k arbitrary: c base) (simp_all add: make_struct_def)

lemma chain_init_bins: "chain base (init_bins mem mgr bins c base)"
  by (induction bins arbitrary: c base) (simp_all add: chain_append chain_init_bin)

definition fresh_slot :: "u16 \<Rightarrow> u16 \<Rightarrow> AllocatedBuffer \<Rightarrow> bool" where
  "fresh_slot mgr c s \<longleftrightarrow> buf_addr (ab_buff s) = ab_memory s \<and> buf_size (ab_buff s) = ab_size s \<and>
     buf_context (ab_buff s) = push_bit 16 (ucast mgr) OR ucast c \<and> length (buf_memory (ab_buff s)) = ab_size s \<and>
     \<not> ab_allocated s"

lemma init_bin_nth: "i < k \<Longrightarrow> fresh_slot mgr (c + of_nat i) (init_bin mem mgr sz k c base ! i)"
proof (induction k arbitrary: i c base)
  case (Suc k)
  then show ?case
    using Suc.IH [of "i - 1" "c + 1" "base + sz"]
    by (cases i) (simp_all add: make_struct_def fresh_slot_def ac_simps)
qed simp

lemma init_bins_nth: "i < length (init_bins mem mgr bins c base) \<Longrightarrow> fresh_slot mgr (c + of_nat i) (init_bins mem mgr bins c base ! i)"
proof (induction bins arbitrary: i c base)
  case (Cons bin bins)
  let ?n = "unat (bin_numBuffers bin)"
  show ?case
  proof (cases "i < ?n")
    case True
    then show ?thesis by (simp add: nth_append init_bin_nth)
  next
    case False
    then have "of_nat i = bin_numBuffers bin + of_nat (i - ?n)" by (simp add: of_nat_diff)
    with False Cons show ?thesis
      using Cons.IH [of "i - ?n" "c + bin_numBuffers bin" "base + bin_bufferSize bin * ?n"]
      by (simp add: nth_append add.assoc)
  qed
qed simp

text \<open>The sums the first loop computes.\<close>

definition total_buffers :: "BufferBin list \<Rightarrow> nat" where
  "total_buffers bins = sum_list (map (\<lambda>bin. unat (bin_numBuffers bin)) bins)"

definition total_memory :: "BufferBin list \<Rightarrow> nat" where
  "total_memory bins = sum_list (map (\<lambda>bin. bin_bufferSize bin * unat (bin_numBuffers bin)) bins)"

lemma totals_simps [simp]:
  "total_buffers [] = 0" "total_buffers (bin # bins) = unat (bin_numBuffers bin) + total_buffers bins"
  "total_memory [] = 0" "total_memory (bin # bins) = bin_bufferSize bin * unat (bin_numBuffers bin) + total_memory bins"
  by (simp_all add: total_buffers_def total_memory_def)

lemma count_structs_totals:
  assumes "unat n + total_buffers bins < 2 ^ 16"
  shows "count_structs k bins n sz = Some (n + of_nat (total_buffers bins), sz + total_memory bins + k * total_buffers bins)"
  using assms
proof (induction bins arbitrary: n sz)
  case (Cons bin bins)
  let ?b = "bin_numBuffers bin"
  have sum: "unat (n + ?b) = unat n + unat ?b"
    using Cons.prems unat_add_lem [of n ?b] by simp
  have "uint ?b \<le> 0xFFFF - uint n"
  proof -
    have "unat n + unat ?b \<le> 0xFFFF" using Cons.prems by simp
    with uint_nat [of n] uint_nat [of ?b] show ?thesis by linarith
  qed
  show ?case
  proof (cases "?b = 0")
    case True
    then show ?thesis using Cons.IH [of n sz] Cons.prems by simp
  next
    case False
    have "unat (n + ?b) + total_buffers bins < 2 ^ 16" using Cons.prems sum by simp
    note rest = Cons.IH [OF this]
    have "n + ?b + of_nat (total_buffers bins) = n + of_nat (unat ?b + total_buffers bins)" by simp
    with False \<open>uint ?b \<le> 0xFFFF - uint n\<close> rest show ?thesis by (simp add: distrib_left)
  qed
qed simp

lemma init_bins_sums [simp]:
  "length (init_bins mem mgr bins c base) = total_buffers bins"
  "sum_list (map ab_size (init_bins mem mgr bins c base)) = total_memory bins"
  by (induction bins arbitrary: c base) simp_all

lemma setup_pool:
  assumes "total_buffers bins < 2 ^ 16" "alloc (total_memory bins + k * total_buffers bins) = (memory, total_memory bins + k * total_buffers bins)"
    and "memory \<noteq> 0" "\<forall>bin \<in> set bins. bin_numBuffers bin = 0 \<or> 0 < bin_bufferSize bin"
  shows "\<exists>m. BufferManager_setup k alloc mem mgr bins BufferManager_new = Some m \<and> pool_ok m \<and> lent m = {} \<and>
     map ab_size (slots m) = concat (map (\<lambda>bin. replicate (unat (bin_numBuffers bin)) (bin_bufferSize bin)) bins)"
proof -
  let ?ss = "init_bins mem mgr bins 0 (memory + k * total_buffers bins)"
  have n: "unat (of_nat (total_buffers bins) :: u16) = total_buffers bins"
    using assms(1) by (simp add: unsigned_of_nat take_bit_nat_eq_self)
  let ?m = "BufferManager_new\<lparr>m_setup := True, m_mgrId := mgr, m_bufferBins := bins, m_buffers := Some ?ss,
    m_numStructs := of_nat (total_buffers bins)\<rparr>"
  have set: "BufferManager_setup k alloc mem mgr bins BufferManager_new = Some ?m"
    using count_structs_totals [of 0 bins k 0] assms n by (simp add: BufferManager_setup_def ac_simps)
  have ss: "slots ?m = ?ss" by (simp add: slots_def)
  have fresh: "fresh_slot mgr (of_nat i) (?ss ! i)" if "i < total_buffers bins" for i
    using init_bins_nth [of i mem mgr bins 0 "memory + k * total_buffers bins"] that by simp
  have lent: "lent ?m = {}"
    using fresh by (auto simp: lent_def ss fresh_slot_def)
  have "map ab_size (init_bin mem mgr sz j c base) = replicate j sz" for j sz c base
    by (induction j arbitrary: c base) (simp_all add: make_struct_def)
  then have sizes: "map ab_size (init_bins mem mgr bins c base) =
      concat (map (\<lambda>bin. replicate (unat (bin_numBuffers bin)) (bin_bufferSize bin)) bins)" for c base
    by (induction bins arbitrary: c base) simp_all
  have "0 < n" if "n \<in> set (map ab_size ?ss)" for n
    using that assms(4) unfolding sizes by (auto simp: unat_gt_0)
  then have "0 < ab_size (?ss ! i)" if "i < total_buffers bins" for i
    using that by simp
  moreover have "\<exists>base > 0. chain base ?ss"
    using chain_init_bins assms(3) by (intro exI [of _ "memory + k * total_buffers bins"]) simp
  ultimately have "pool_ok ?m"
    unfolding pool_ok_def ss lent
    using n fresh
    by (auto simp: slot_ok_def fresh_slot_def context_of_def BufferManager_new_def)
  then show ?thesis
    using set lent ss sizes by auto
qed

section \<open>Lending\<close>

text \<open>
  What a borrower relies on: a request is always answered, by the empty buffer or by a fresh loan of the size asked for;
  a loan can be given back, also shrunk or with its start moved inside the memory, and then it is free again.
\<close>

locale buffer_pool =
  fixes get :: "nat \<Rightarrow> 'm \<Rightarrow> (Fw_Buffer \<times> 'm) option" and put :: "Fw_Buffer \<Rightarrow> 'm \<Rightarrow> 'm option"
    and ok :: "'m \<Rightarrow> bool" and loans :: "'m \<Rightarrow> nat set" and lends :: "'m \<Rightarrow> nat \<Rightarrow> Fw_Buffer \<Rightarrow> bool"
  assumes get_answers: "ok m \<Longrightarrow> \<exists>b m'. get n m = Some (b, m') \<and> ok m' \<and> lends m' = lends m \<and>
      (b = Fw_Buffer_empty \<and> loans m' = loans m \<or>
       (\<exists>i. i \<notin> loans m \<and> loans m' = insert i (loans m) \<and> lends m i b \<and> buf_addr b \<noteq> 0 \<and> buf_size b = n))"
    and put_takes: "ok m \<Longrightarrow> i \<in> loans m \<Longrightarrow> lends m i b \<Longrightarrow>
      \<exists>m'. put b m = Some m' \<and> ok m' \<and> lends m' = lends m \<and> loans m' = loans m - {i}"
    and lends_resized: "lends m i b \<Longrightarrow> n \<le> buf_size b \<Longrightarrow> lends m i (b\<lparr>buf_size := n, buf_memory := mem\<rparr>)"
begin

text \<open>Borrowing a buffer, filling it, and giving it back leaves the pool as it was.\<close>

lemma borrow_and_return:
  assumes "ok m" "get n m = Some (b, m1)" "buf_addr b \<noteq> 0"
  shows "\<exists>m2. put (b\<lparr>buf_size := n, buf_memory := mem\<rparr>) m1 = Some m2 \<and> ok m2 \<and> lends m2 = lends m \<and> loans m2 = loans m"
proof -
  obtain i where i: "i \<notin> loans m" "loans m1 = insert i (loans m)" "lends m i b" "buf_size b = n" "ok m1" "lends m1 = lends m"
    using get_answers [OF assms(1), of n] assms(2,3) by (auto simp: Fw_Buffer_empty_def)
  have "lends m1 i (b\<lparr>buf_size := n, buf_memory := mem\<rparr>)"
    using lends_resized [of m1 i b n mem] i by simp
  from put_takes [OF i(5) _ this] i show ?thesis by auto
qed

end

lemma shows_slot_mark [simp]: "shows_slot (mark i b n m) = shows_slot m" "shows_slot (m\<lparr>m_highWater := x\<rparr>) = shows_slot m"
  "shows_slot (m\<lparr>m_noBuffs := y\<rparr>) = shows_slot m"
proof -
  have "ab_size ((slots m)[i := (slots m ! i)\<lparr>ab_allocated := b\<rparr>] ! j) = ab_size (slots m ! j)"
    "ab_memory ((slots m)[i := (slots m ! i)\<lparr>ab_allocated := b\<rparr>] ! j) = ab_memory (slots m ! j)" if "j < length (slots m)" for j
    using that by (cases "i = j"; simp)+
  moreover have "m_mgrId (mark i b n m) = m_mgrId m" by (simp add: mark_def)
  ultimately show "shows_slot (mark i b n m) = shows_slot m"
    by (auto simp: shows_slot_def fun_eq_iff)
qed (simp_all add: shows_slot_def fun_eq_iff)

lemma granted_shows:
  assumes "pool_ok m" "i < length (slots m)" "sz \<le> ab_size (slots m ! i)"
  shows "shows_slot m i ((ab_buff (slots m ! i))\<lparr>buf_size := sz\<rparr>)" "buf_addr (ab_buff (slots m ! i)) \<noteq> 0"
  using assms slot_positive [OF assms(1,2)] by (auto simp: shows_slot_def pool_ok_def slot_ok_def)

interpretation pool: buffer_pool bufferGetCallee bufferSendIn pool_ok lent shows_slot
proof
  fix m n
  assume ok: "pool_ok m"
  show "\<exists>b m'. bufferGetCallee n m = Some (b, m') \<and> pool_ok m' \<and> shows_slot m' = shows_slot m \<and>
      (b = Fw_Buffer_empty \<and> lent m' = lent m \<or>
       (\<exists>i. i \<notin> lent m \<and> lent m' = insert i (lent m) \<and> shows_slot m i b \<and> buf_addr b \<noteq> 0 \<and> buf_size b = n))"
  proof (cases "find_buffer n (slots m) 0")
    case None
    with get_refused [OF ok None] ok show ?thesis by simp
  next
    case (Some i)
    note g = get_granted [OF ok Some]
    from g(1) obtain hw where "bufferGetCallee n m = Some ((ab_buff (slots m ! i))\<lparr>buf_size := n\<rparr>,
        (mark i True (m_currBuffs m + 1) m)\<lparr>m_highWater := hw\<rparr>)" by blast
    with g granted_shows [OF ok g(4,5)] show ?thesis by auto
  qed
next
  fix m i b
  assume "pool_ok m" "i \<in> lent m" "shows_slot m i b"
  from send_accepted [OF this]
  show "\<exists>m'. bufferSendIn b m = Some m' \<and> pool_ok m' \<and> shows_slot m' = shows_slot m \<and> lent m' = lent m - {i}"
    by auto
qed (auto simp: shows_slot_def)

section \<open>Properties\<close>

text \<open>
  The life of a pool: it is set up, buffers are lent and parts of them given back. \<open>lending m ls\<close>: the manager is in state
  \<open>m\<close> and the buffers \<open>ls\<close> are out.
\<close>

definition part_of :: "Fw_Buffer \<Rightarrow> Fw_Buffer \<Rightarrow> bool" where
  "part_of b' b \<longleftrightarrow> buf_context b' = buf_context b \<and> buf_addr b \<le> buf_addr b' \<and>
     buf_addr b' + buf_size b' \<le> buf_addr b + buf_size b \<and> (buf_addr b' = buf_addr b \<or> 0 < buf_size b')"

inductive lending :: "BufferManager \<Rightarrow> Fw_Buffer list \<Rightarrow> bool" where
  set_up: "total_buffers bins < 2 ^ 16 \<Longrightarrow> \<forall>bin \<in> set bins. bin_numBuffers bin = 0 \<or> 0 < bin_bufferSize bin \<Longrightarrow>
     BufferManager_setup k alloc mem mgr bins BufferManager_new = Some m \<Longrightarrow> lending m []"
| lend: "lending m ls \<Longrightarrow> bufferGetCallee n m = Some (b, m') \<Longrightarrow> buf_addr b \<noteq> 0 \<Longrightarrow> lending m' (b # ls)"
| refuse: "lending m ls \<Longrightarrow> bufferGetCallee n m = Some (b, m') \<Longrightarrow> buf_addr b = 0 \<Longrightarrow> lending m' ls"
| give_back: "lending m (ls @ b # ls') \<Longrightarrow> part_of b' b \<Longrightarrow> bufferSendIn b' m = Some m' \<Longrightarrow> lending m' (ls @ ls')"

definition slot_of :: "Fw_Buffer \<Rightarrow> nat" where
  "slot_of b = unat (buf_context b AND 0xFFFF)"

definition out_ok :: "BufferManager \<Rightarrow> Fw_Buffer list \<Rightarrow> bool" where
  "out_ok m ls \<longleftrightarrow> pool_ok m \<and> distinct (map slot_of ls) \<and> slot_of ` set ls = lent m \<and>
     (\<forall>b \<in> set ls. buf_context b = context_of (m_mgrId m) (slot_of b) \<and> buf_addr b = ab_memory (slots m ! slot_of b) \<and>
        buf_size b \<le> ab_size (slots m ! slot_of b))"

lemma setup_fits:
  assumes "total_buffers bins < 2 ^ 16" "BufferManager_setup k alloc mem mgr bins BufferManager_new = Some m"
  shows "\<exists>memory. alloc (total_memory bins + k * total_buffers bins) = (memory, total_memory bins + k * total_buffers bins) \<and> memory \<noteq> 0"
  using assms count_structs_totals [of 0 bins k 0]
  by (cases "alloc (total_memory bins + k * total_buffers bins)") (auto simp: BufferManager_setup_def bind_eq_Some_conv)

lemma slots_fixed [simp]:
  "i < length (slots m) \<Longrightarrow> ab_memory (slots (mark j b n m) ! i) = ab_memory (slots m ! i)"
  "i < length (slots m) \<Longrightarrow> ab_size (slots (mark j b n m) ! i) = ab_size (slots m ! i)"
  "m_mgrId (mark j b n m) = m_mgrId m"
  by (cases "i = j"; simp)+ (simp add: mark_def)

lemma out_ok_geometry:
  assumes "out_ok m ls" "pool_ok m'" "lent m' = slot_of ` set ls'" "distinct (map slot_of ls')"
    and "set ls' \<subseteq> set ls" "m_mgrId m' = m_mgrId m"
    and "\<And>i. i < length (slots m) \<Longrightarrow> ab_memory (slots m' ! i) = ab_memory (slots m ! i)"
    and "\<And>i. i < length (slots m) \<Longrightarrow> ab_size (slots m' ! i) = ab_size (slots m ! i)"
  shows "out_ok m' ls'"
proof -
  have "slot_of b < length (slots m)" if "b \<in> set ls" for b
    using assms(1) that by (auto simp: out_ok_def lent_def)
  with assms show ?thesis
    by (auto simp: out_ok_def)
qed

lemma part_of_shows:
  assumes "out_ok m ls" "b \<in> set ls" "part_of b' b"
  shows "slot_of b \<in> lent m" "shows_slot m (slot_of b) b'"
proof -
  show lent: "slot_of b \<in> lent m" using assms(1,2) by (auto simp: out_ok_def)
  then have i: "slot_of b < length (slots m)" by (simp add: lent_def)
  then have "0 < ab_size (slots m ! slot_of b)"
    using assms(1) by (simp add: out_ok_def pool_ok_def)
  then show "shows_slot m (slot_of b) b'"
    using assms i by (auto simp: out_ok_def shows_slot_def part_of_def)
qed

lemma lending_ok: "lending m ls \<Longrightarrow> out_ok m ls"
proof (induction rule: lending.induct)
  case (set_up bins k alloc mem mgr m)
  then show ?case
    using setup_fits [OF set_up(1,3)] setup_pool [OF set_up(1) _ _ set_up(2), of alloc k _ mem mgr] by (auto simp: out_ok_def)
next
  case (lend m ls n b m')
  have ok: "pool_ok m" using lend.IH by (simp add: out_ok_def)
  obtain i where i: "find_buffer n (slots m) 0 = Some i"
    using lend(2,3) get_refused [OF ok, of n] by (cases "find_buffer n (slots m) 0") (auto simp: Fw_Buffer_empty_def)
  note g = get_granted [OF ok i]
  obtain hw where hw: "b = (ab_buff (slots m ! i))\<lparr>buf_size := n\<rparr>" "m' = (mark i True (m_currBuffs m + 1) m)\<lparr>m_highWater := hw\<rparr>"
    using g(1) lend(2) by auto
  have ctx: "buf_context b = context_of (m_mgrId m) i" "buf_addr b = ab_memory (slots m ! i)" "buf_size b = n"
    using ok g(4) hw(1) by (simp_all add: pool_ok_def slot_ok_def)
  have "slot_of b = i"
    using context_index(1) [of i "m_numStructs m" "m_mgrId m"] g(4) ok ctx(1) by (simp add: slot_of_def pool_ok_def)
  moreover have "slot_of b' < length (slots m)" if "b' \<in> set ls" for b'
    using lend.IH that by (auto simp: out_ok_def lent_def)
  ultimately show ?case
    using lend.IH g hw ctx by (auto simp: out_ok_def simp del: slots_mark)
next
  case (refuse m ls n b m')
  have ok: "pool_ok m" using refuse.IH by (simp add: out_ok_def)
  have "find_buffer n (slots m) 0 = None"
  proof (cases "find_buffer n (slots m) 0")
    case (Some i)
    from get_granted(1) [OF ok Some] granted_shows(2) [OF ok get_granted(4,5) [OF ok Some]] refuse(2,3) show ?thesis by auto
  qed
  from get_refused [OF ok this] refuse(2) have "m' = m\<lparr>m_noBuffs := m_noBuffs m + 1\<rparr>" by simp
  with refuse.IH show ?case by (simp add: out_ok_def)
next
  case (give_back m ls b ls' b' m')
  let ?i = "slot_of b"
  have part: "?i \<in> lent m" "shows_slot m ?i b'"
    using part_of_shows [OF give_back.IH _ give_back(2)] by simp_all
  have ok: "pool_ok m" using give_back.IH by (simp add: out_ok_def)
  note s = send_accepted [OF ok part]
  have "lent m = insert ?i (slot_of ` set (ls @ ls'))" "?i \<notin> slot_of ` set (ls @ ls')"
    using give_back.IH unfolding out_ok_def by (auto simp: image_Un)
  then have "lent m' = slot_of ` set (ls @ ls')"
    using give_back(3) s(1,3) by simp
  moreover have "distinct (map slot_of (ls @ ls'))"
    using give_back.IH by (auto simp: out_ok_def)
  ultimately show ?case
    using out_ok_geometry [OF give_back.IH, of m' "ls @ ls'"] s give_back(3) by (auto simp del: slots_mark)
qed

text \<open>
  C29: However buffers are lent and given back, in whole or in part and in any order: no assertion of the manager fails; the
  memories of the buffers that are out do not overlap; the counter of lent buffers is exact; and a request is
  refused only when no free buffer is large enough.
\<close>

theorem pool_safe:
  assumes "lending m ls"
  shows "unat (m_currBuffs m) = length ls \<and>
    (\<forall>i j. i < length ls \<longrightarrow> j < length ls \<longrightarrow> i \<noteq> j \<longrightarrow> buf_addr (ls ! i) + buf_size (ls ! i) \<le> buf_addr (ls ! j) \<or>
       buf_addr (ls ! j) + buf_size (ls ! j) \<le> buf_addr (ls ! i)) \<and>
    (\<forall>b b'. b \<in> set ls \<longrightarrow> part_of b' b \<longrightarrow> bufferSendIn b' m \<noteq> None) \<and>
    (\<exists>b m'. bufferGetCallee n m = Some (b, m') \<and>
       (buf_addr b = 0 \<longleftrightarrow> list_all (\<lambda>s. ab_allocated s \<or> ab_size s < n) (slots m)))"
proof (intro conjI allI impI)
  have out: "out_ok m ls" by (rule lending_ok [OF assms])
  then have ok: "pool_ok m" by (simp add: out_ok_def)
  have "card (set (map slot_of ls)) = length ls"
    using out distinct_card [of "map slot_of ls"] by (simp add: out_ok_def)
  then show "unat (m_currBuffs m) = length ls"
    using out by (simp add: out_ok_def pool_ok_def)
  show "bufferSendIn b' m \<noteq> None" if "b \<in> set ls" "part_of b' b" for b b'
    using send_accepted(1) [OF ok part_of_shows [OF out that]] by simp
  show "\<exists>b m'. bufferGetCallee n m = Some (b, m') \<and>
      (buf_addr b = 0 \<longleftrightarrow> list_all (\<lambda>s. ab_allocated s \<or> ab_size s < n) (slots m))"
  proof (cases "find_buffer n (slots m) 0")
    case None
    with get_refused [OF ok None] show ?thesis
      by (auto simp: Fw_Buffer_empty_def list_all_iff dest: find_buffer_None)
  next
    case (Some i)
    note g = get_granted [OF ok Some]
    have "\<not> list_all (\<lambda>s. ab_allocated s \<or> ab_size s < n) (slots m)"
      using g(3,4,5) by (auto simp: list_all_length lent_def)
    with g(1) granted_shows(2) [OF ok g(4,5)] show ?thesis by auto
  qed
  fix i j
  assume ij: "i < length ls" "j < length ls" "i \<noteq> j"
  let ?a = "slot_of (ls ! i)" and ?b = "slot_of (ls ! j)"
  have slots: "?a < length (slots m)" "?b < length (slots m)" "?a \<noteq> ?b"
    using out ij nth_eq_iff_index_eq [of "map slot_of ls" i j] by (auto simp: out_ok_def lent_def)
  obtain base where "chain base (slots m)" using ok by (auto simp: pool_ok_def)
  then have "ab_memory (slots m ! ?a) + ab_size (slots m ! ?a) \<le> ab_memory (slots m ! ?b) \<or>
      ab_memory (slots m ! ?b) + ab_size (slots m ! ?b) \<le> ab_memory (slots m ! ?a)"
    using chain_before slots by (meson nat_neq_iff)
  moreover have "buf_addr (ls ! k) = ab_memory (slots m ! slot_of (ls ! k))" "buf_size (ls ! k) \<le> ab_size (slots m ! slot_of (ls ! k))"
    if "k < length ls" for k
    using out that by (simp_all add: out_ok_def)
  ultimately show "buf_addr (ls ! i) + buf_size (ls ! i) \<le> buf_addr (ls ! j) \<or>
      buf_addr (ls ! j) + buf_size (ls ! j) \<le> buf_addr (ls ! i)"
    using ij by fastforce
qed

text \<open>The bins of the communication buffer manager of the deployment.\<close>

definition comms_bins :: "BufferBin list" where
  "comms_bins = [\<lparr>bin_bufferSize = 2048, bin_numBuffers = 20\<rparr>, \<lparr>bin_bufferSize = 3000, bin_numBuffers = 30\<rparr>]
     @ replicate 8 \<lparr>bin_bufferSize = 0, bin_numBuffers = 0\<rparr>"

definition comms_manager :: BufferManager where
  "comms_manager = the (BufferManager_setup 64 (\<lambda>n. (4096, n)) (\<lambda>_. 0) 200 comms_bins BufferManager_new)"

lemma comms_totals [simp]: "total_buffers comms_bins = 50" "total_memory comms_bins = 130960"
  by (simp_all add: comms_bins_def total_buffers_def total_memory_def sum_list_replicate)

lemma comms_manager_setup:
  "BufferManager_setup 64 (\<lambda>n. (4096, n)) (\<lambda>_. 0) 200 comms_bins BufferManager_new = Some comms_manager"
  "pool_ok comms_manager" "lent comms_manager = {}"
  "map ab_size (slots comms_manager) = replicate 20 2048 @ replicate 30 3000"
proof -
  have "\<forall>bin \<in> set comms_bins. bin_numBuffers bin = 0 \<or> 0 < bin_bufferSize bin"
    by (auto simp: comms_bins_def)
  then obtain m where "BufferManager_setup 64 (\<lambda>n. (4096, n)) (\<lambda>_. 0) 200 comms_bins BufferManager_new = Some m"
    "pool_ok m" "lent m = {}"
    "map ab_size (slots m) = concat (map (\<lambda>bin. replicate (unat (bin_numBuffers bin)) (bin_bufferSize bin)) comms_bins)"
    using setup_pool [of comms_bins "\<lambda>n. (4096, n)" 64 4096 "\<lambda>_. 0" 200] by auto
  moreover have "concat (map (\<lambda>bin. replicate (unat (bin_numBuffers bin)) (bin_bufferSize bin)) comms_bins) =
      replicate 20 2048 @ replicate 30 3000"
    by (simp add: comms_bins_def)
  ultimately show "BufferManager_setup 64 (\<lambda>n. (4096, n)) (\<lambda>_. 0) 200 comms_bins BufferManager_new = Some comms_manager"
    "pool_ok comms_manager" "lent comms_manager = {}"
    "map ab_size (slots comms_manager) = replicate 20 2048 @ replicate 30 3000"
    by (simp_all add: comms_manager_def)
qed

lemma comms_lending: "lending comms_manager []"
  by (rule lending.set_up [OF _ _ comms_manager_setup(1)]) (simp, auto simp: comms_bins_def)

theorem pool_safe_witness:
  "lending comms_manager [] \<and> unat (m_currBuffs comms_manager) = 0 \<and>
   (\<exists>b m'. bufferGetCallee 100 comms_manager = Some (b, m'))"
  using pool_safe [OF comms_lending, of 100] comms_lending by auto

end
