(* ===== verification/Apid_Manager.thy ===== *)
theory Apid_Manager
  imports Fprime_Types
begin

text \<open>
  The sequence counts of space packets: \<^verbatim>\<open>Svc/Ccsds/ApidManager/ApidManager.cpp\<close>, a table with one entry for every application
  identifier in use, and what it promises: a map from identifiers to the next count.
\<close>

section \<open>The component\<close>

record ApidSequenceEntry =
  entry_apid :: u16
  entry_count :: u16

type_synonym apid_table = "ApidSequenceEntry list"

definition INVALID_UNINITIALIZED :: u16 where
  "INVALID_UNINITIALIZED = 0x0800"

definition SEQUENCE_COUNT_ERROR :: u16 where
  "SEQUENCE_COUNT_ERROR = 0xFFFF"

text \<open>The number of constants of the enumeration \<^verbatim>\<open>ComCfg.Apid\<close>\<close>

definition MAX_TRACKED_APIDS :: nat where
  "MAX_TRACKED_APIDS = 11"

definition ApidManager_new :: apid_table where
  "ApidManager_new = replicate MAX_TRACKED_APIDS \<lparr>entry_apid = INVALID_UNINITIALIZED, entry_count = 0\<rparr>"

datatype apid_event = UnexpectedSequenceCount u16 u16 | ApidTableFull u16

definition next_seq :: "u16 \<Rightarrow> u16" where
  "next_seq seqCount = of_nat ((unat seqCount + 1) mod 2 ^ 14)"

text \<open>The two loops of \<^verbatim>\<open>getAndIncrementSeqCount\<close>: the entry of the identifier, then the first unused entry.\<close>

fun count_entry :: "u16 \<Rightarrow> apid_table \<Rightarrow> (u16 \<times> apid_table) option" where
  "count_entry apid [] = None"
| "count_entry apid (e # es) =
     (if entry_apid e = apid then Some (entry_count e, e\<lparr>entry_count := next_seq (entry_count e)\<rparr> # es)
      else map_option (apsnd ((#) e)) (count_entry apid es))"

fun claim_entry :: "u16 \<Rightarrow> apid_table \<Rightarrow> (u16 \<times> apid_table) option" where
  "claim_entry apid [] = None"
| "claim_entry apid (e # es) =
     (if entry_apid e = INVALID_UNINITIALIZED
      then Some (entry_count e, e\<lparr>entry_apid := apid, entry_count := next_seq (entry_count e)\<rparr> # es)
      else map_option (apsnd ((#) e)) (claim_entry apid es))"

definition getAndIncrementSeqCount :: "u16 \<Rightarrow> apid_table \<Rightarrow> u16 \<times> apid_table \<times> apid_event list" where
  "getAndIncrementSeqCount apid t =
     (case count_entry apid t of Some (seqCount, t') \<Rightarrow> (seqCount, t', [])
      | None \<Rightarrow> (case claim_entry apid t of Some (seqCount, t') \<Rightarrow> (seqCount, t', [])
         | None \<Rightarrow> (SEQUENCE_COUNT_ERROR, t, [ApidTableFull apid])))"

fun setNextSeqCount :: "u16 \<Rightarrow> u16 \<Rightarrow> apid_table \<Rightarrow> apid_table option" where
  "setNextSeqCount apid seqCount [] = do { FW_ASSERT False; Some [] }"
| "setNextSeqCount apid seqCount (e # es) =
     (if entry_apid e = apid then Some (e\<lparr>entry_count := seqCount\<rparr> # es)
      else map_option ((#) e) (setNextSeqCount apid seqCount es))"

definition validateApidSeqCountIn :: "u16 \<Rightarrow> u16 \<Rightarrow> apid_table \<Rightarrow> (u16 \<times> apid_table \<times> apid_event list) option" where
  "validateApidSeqCountIn apid receivedSeqCount t = do {
     let (expectedSequenceCount, t, es) = getAndIncrementSeqCount apid t;
     if receivedSeqCount \<noteq> expectedSequenceCount \<and> receivedSeqCount \<noteq> SEQUENCE_COUNT_ERROR then do {
       t \<leftarrow> setNextSeqCount apid (receivedSeqCount + 1) t;
       Some (receivedSeqCount, t, es @ [UnexpectedSequenceCount receivedSeqCount expectedSequenceCount])
     }
     else Some (receivedSeqCount, t, es)
   }"

definition getApidSeqCountIn :: "u16 \<Rightarrow> u16 \<Rightarrow> apid_table \<Rightarrow> u16 \<times> apid_table \<times> apid_event list" where
  "getApidSeqCountIn apid unused t = getAndIncrementSeqCount apid t"

section \<open>The map it keeps\<close>

text \<open>The count an identifier gets next.\<close>

definition tracked :: "apid_table \<Rightarrow> u16 set" where
  "tracked t = entry_apid ` set t - {INVALID_UNINITIALIZED}"

definition upcoming :: "apid_table \<Rightarrow> u16 \<Rightarrow> u16" where
  "upcoming t apid = (case find (\<lambda>e. entry_apid e = apid) t of None \<Rightarrow> 0 | Some e \<Rightarrow> entry_count e)"

definition unused_entries :: "apid_table \<Rightarrow> nat" where
  "unused_entries t = length (filter (\<lambda>e. entry_apid e = INVALID_UNINITIALIZED) t)"

definition table_ok :: "apid_table \<Rightarrow> bool" where
  "table_ok t \<longleftrightarrow> unused_entries t + card (tracked t) = MAX_TRACKED_APIDS \<and>
     (\<forall>e \<in> set t. entry_apid e = INVALID_UNINITIALIZED \<longrightarrow> entry_count e = 0)"

lemma upcoming_simps [simp]:
  "upcoming [] apid = 0" "upcoming (e # es) apid = (if entry_apid e = apid then entry_count e else upcoming es apid)"
  by (simp_all add: upcoming_def)

lemma table_simps [simp]:
  "tracked [] = {}"
  "tracked (e # es) = (if entry_apid e = INVALID_UNINITIALIZED then tracked es else insert (entry_apid e) (tracked es))"
  "unused_entries [] = 0"
  "unused_entries (e # es) = (if entry_apid e = INVALID_UNINITIALIZED then 1 else 0) + unused_entries es"
  by (auto simp: tracked_def unused_entries_def)

lemma upcoming_untracked: "apid \<notin> tracked t \<Longrightarrow> apid \<noteq> INVALID_UNINITIALIZED \<Longrightarrow> upcoming t apid = 0"
  by (induction t) (auto split: if_splits)

lemma table_ok_new [simp]: "table_ok ApidManager_new" "tracked ApidManager_new = {}"
  by (auto simp: table_ok_def ApidManager_new_def tracked_def unused_entries_def MAX_TRACKED_APIDS_def)

lemma count_entry_spec:
  assumes "apid \<noteq> INVALID_UNINITIALIZED"
  shows "count_entry apid t = None \<Longrightarrow> apid \<notin> tracked t"
    and "count_entry apid t = Some (c, t') \<Longrightarrow> c = upcoming t apid \<and> tracked t' = tracked t \<and> apid \<in> tracked t \<and>
      upcoming t' = (upcoming t)(apid := next_seq c) \<and> unused_entries t' = unused_entries t \<and>
      (\<forall>e \<in> set t'. entry_apid e = INVALID_UNINITIALIZED \<longrightarrow> e \<in> set t)"
  using assms
  by (induction t arbitrary: t') (auto simp: fun_eq_iff split: if_splits)

lemma claim_entry_spec:
  assumes "apid \<noteq> INVALID_UNINITIALIZED" "apid \<notin> tracked t" "\<forall>e \<in> set t. entry_apid e = INVALID_UNINITIALIZED \<longrightarrow> entry_count e = 0"
  shows "claim_entry apid t = None \<Longrightarrow> unused_entries t = 0"
    and "claim_entry apid t = Some (c, t') \<Longrightarrow> c = 0 \<and> tracked t' = insert apid (tracked t) \<and>
      (\<forall>a. a \<noteq> INVALID_UNINITIALIZED \<longrightarrow> upcoming t' a = ((upcoming t)(apid := next_seq c)) a) \<and>
      unused_entries t = Suc (unused_entries t') \<and>
      (\<forall>e \<in> set t'. entry_apid e = INVALID_UNINITIALIZED \<longrightarrow> e \<in> set t)"
  using assms
  by (induction t arbitrary: t') (auto split: if_splits)

lemma tracked_finite [simp]: "finite (tracked t)"
  by (simp add: tracked_def)

lemma get_count:
  assumes "table_ok t" "apid \<noteq> INVALID_UNINITIALIZED" "apid \<in> tracked t \<or> card (tracked t) < MAX_TRACKED_APIDS"
  shows "\<exists>t'. getAndIncrementSeqCount apid t = (upcoming t apid, t', []) \<and> table_ok t' \<and> tracked t' = insert apid (tracked t) \<and>
    (\<forall>a. a \<noteq> INVALID_UNINITIALIZED \<longrightarrow> upcoming t' a = (if a = apid then next_seq (upcoming t apid) else upcoming t a))"
proof (cases "count_entry apid t")
  case None
  have new: "apid \<notin> tracked t" using count_entry_spec(1) [OF assms(2) None] .
  then have "unused_entries t \<noteq> 0" using assms(1,3) by (simp add: table_ok_def)
  then obtain c t' where claim: "claim_entry apid t = Some (c, t')"
    using claim_entry_spec(1) [OF assms(2) new] assms(1) by (cases "claim_entry apid t") (auto simp: table_ok_def)
  have "\<forall>e \<in> set t. entry_apid e = INVALID_UNINITIALIZED \<longrightarrow> entry_count e = 0" using assms(1) by (simp add: table_ok_def)
  from claim_entry_spec(2) [OF assms(2) new this claim] show ?thesis
    using None claim new assms(1,2) upcoming_untracked [OF new assms(2)]
    by (auto simp: getAndIncrementSeqCount_def table_ok_def)
next
  case (Some r)
  obtain c t' where r: "r = (c, t')" by (cases r)
  from count_entry_spec(2) [OF assms(2) Some [unfolded r]] show ?thesis
    using Some r assms(1) by (auto simp: getAndIncrementSeqCount_def table_ok_def insert_absorb)
qed

lemma get_full:
  assumes "table_ok t" "apid \<noteq> INVALID_UNINITIALIZED" "apid \<notin> tracked t" "card (tracked t) = MAX_TRACKED_APIDS"
  shows "getAndIncrementSeqCount apid t = (SEQUENCE_COUNT_ERROR, t, [ApidTableFull apid])"
proof -
  have "count_entry apid t \<noteq> Some (c, t')" for c t'
    using count_entry_spec(2) [OF assms(2)] assms(3) by blast
  then have "count_entry apid t = None" by (metis not_Some_eq surj_pair)
  moreover have "unused_entries t = 0" "\<forall>e \<in> set t. entry_apid e = INVALID_UNINITIALIZED \<longrightarrow> entry_count e = 0"
    using assms(1,4) by (simp_all add: table_ok_def)
  then have "claim_entry apid t \<noteq> Some (c, t')" for c t'
    using claim_entry_spec(2) [OF assms(2,3)] by (metis Zero_not_Suc)
  then have "claim_entry apid t = None" by (metis not_Some_eq surj_pair)
  ultimately show ?thesis by (simp add: getAndIncrementSeqCount_def)
qed

lemma set_next_spec:
  assumes "apid \<noteq> INVALID_UNINITIALIZED"
  shows "apid \<notin> tracked t \<Longrightarrow> setNextSeqCount apid c t = None"
    and "apid \<in> tracked t \<Longrightarrow> \<exists>t'. setNextSeqCount apid c t = Some t' \<and> tracked t' = tracked t \<and>
      upcoming t' = (upcoming t)(apid := c) \<and> unused_entries t' = unused_entries t \<and>
      (\<forall>e \<in> set t'. entry_apid e = INVALID_UNINITIALIZED \<longrightarrow> e \<in> set t)"
  using assms
proof (induction t)
  case (Cons e es)
  {
    case 1
    with Cons(1) show ?case by (auto split: if_splits)
  next
    case 2
    show ?case
    proof (cases "entry_apid e = apid")
      case True
      with 2 show ?thesis by auto
    next
      case False
      then have "apid \<in> tracked es" using 2 by (simp split: if_splits)
      from Cons(2) [OF this 2(2)] False show ?thesis
        by (auto simp: fun_eq_iff)
    qed
  }
qed simp_all

section \<open>Histories\<close>

text \<open>A sequence of requests: the counts given out and the events.\<close>

fun request_all :: "u16 list \<Rightarrow> apid_table \<Rightarrow> u16 list \<times> apid_event list" where
  "request_all [] t = ([], [])"
| "request_all (a # as) t =
     (case getApidSeqCountIn a 0 t of (c, t', es) \<Rightarrow> (case request_all as t' of (cs, es') \<Rightarrow> (c # cs, es @ es')))"

lemma next_seq_of_nat: "next_seq (of_nat (k mod 2 ^ 14)) = of_nat (Suc k mod 2 ^ 14)"
proof -
  have "unat (of_nat (k mod 2 ^ 14) :: u16) = k mod 2 ^ 14"
    by (simp add: unsigned_of_nat take_bit_nat_eq_self less_trans [of _ "2 ^ 14"])
  then show ?thesis by (simp add: next_seq_def mod_Suc_eq)
qed

lemma room_for:
  assumes "a \<in> A" "finite A" "card (tracked t \<union> A) \<le> MAX_TRACKED_APIDS"
  shows "a \<in> tracked t \<or> card (tracked t) < MAX_TRACKED_APIDS"
proof (rule disjCI)
  assume "\<not> card (tracked t) < MAX_TRACKED_APIDS"
  then have "card (tracked t \<union> A) \<le> card (tracked t)" using assms(3) by simp
  then have "tracked t \<union> A = tracked t"
    using assms(2) by (intro card_seteq [symmetric]) auto
  then show "a \<in> tracked t" using assms(1) by auto
qed

lemma request_all_counts:
  assumes "table_ok t" "INVALID_UNINITIALIZED \<notin> set as" "card (tracked t \<union> set as) \<le> MAX_TRACKED_APIDS"
    and "\<And>a. a \<noteq> INVALID_UNINITIALIZED \<Longrightarrow> upcoming t a = of_nat (n a mod 2 ^ 14)"
  shows "request_all as t = (map (\<lambda>i. of_nat ((n (as ! i) + count_list (take i as) (as ! i)) mod 2 ^ 14)) [0..<length as], [])"
  using assms
proof (induction as arbitrary: t n)
  case (Cons a as)
  have valid: "a \<noteq> INVALID_UNINITIALIZED" using Cons.prems(2) by auto
  have "a \<in> tracked t \<or> card (tracked t) < MAX_TRACKED_APIDS"
    using room_for [of a "set (a # as)" t] Cons.prems(3) by simp
  from get_count [OF Cons.prems(1) valid this] obtain t' where t': "getAndIncrementSeqCount a t = (upcoming t a, t', [])"
    "table_ok t'" "tracked t' = insert a (tracked t)"
    "\<And>b. b \<noteq> INVALID_UNINITIALIZED \<Longrightarrow> upcoming t' b = (if b = a then next_seq (upcoming t a) else upcoming t b)"
    by blast
  let ?n = "n(a := Suc (n a))"
  have "upcoming t' b = of_nat (?n b mod 2 ^ 14)" if "b \<noteq> INVALID_UNINITIALIZED" for b
    using t'(4) [OF that] Cons.prems(4) that next_seq_of_nat [of "n a"] by simp
  moreover have "tracked t' \<union> set as = tracked t \<union> set (a # as)" using t'(3) by auto
  ultimately have "request_all as t' = (map (\<lambda>i. of_nat ((?n (as ! i) + count_list (take i as) (as ! i)) mod 2 ^ 14)) [0..<length as], [])"
    using Cons.IH [of t' ?n] t'(2) Cons.prems(2,3) by simp
  moreover have "map (\<lambda>i. f ((a # as) ! i) (take i (a # as))) [0..<Suc (length as)] =
      f a [] # map (\<lambda>i. f (as ! i) (a # take i as)) [0..<length as]" for f :: "u16 \<Rightarrow> u16 list \<Rightarrow> u16"
    by (simp add: map_upt_Suc del: upt_Suc)
  note this [of "\<lambda>x ys. of_nat ((n x + count_list ys x) mod 2 ^ 14)"]
  ultimately show ?case
    using t'(1) Cons.prems(4) [OF valid] by (auto simp: getApidSeqCountIn_def fun_upd_def simp del: upt_Suc intro!: map_cong)
qed simp

lemma validate_received:
  assumes "table_ok t" "apid \<noteq> INVALID_UNINITIALIZED" "received < 2 ^ 14"
  shows "if apid \<in> tracked t \<or> card (tracked t) < MAX_TRACKED_APIDS
    then \<exists>t'. validateApidSeqCountIn apid received t =
        Some (received, t', if received = upcoming t apid then [] else [UnexpectedSequenceCount received (upcoming t apid)]) \<and>
      table_ok t' \<and> tracked t' = insert apid (tracked t) \<and>
      (\<forall>a. a \<noteq> INVALID_UNINITIALIZED \<longrightarrow> upcoming t' a =
        (if a \<noteq> apid then upcoming t a else if received = upcoming t apid then next_seq received else received + 1))
    else validateApidSeqCountIn apid received t = None"
proof -
  have "(2 ^ 14 :: u16) = 0x4000" by simp
  then have ne: "received \<noteq> SEQUENCE_COUNT_ERROR" using assms(3) by (auto simp: SEQUENCE_COUNT_ERROR_def)
  show ?thesis
  proof (cases "apid \<in> tracked t \<or> card (tracked t) < MAX_TRACKED_APIDS")
    case True
    from get_count [OF assms(1,2) True] obtain t' where t': "getAndIncrementSeqCount apid t = (upcoming t apid, t', [])"
      "table_ok t'" "tracked t' = insert apid (tracked t)"
      "\<forall>a. a \<noteq> INVALID_UNINITIALIZED \<longrightarrow> upcoming t' a = (if a = apid then next_seq (upcoming t apid) else upcoming t a)"
      by blast
    show ?thesis
    proof (cases "received = upcoming t apid")
      case True
      with \<open>apid \<in> tracked t \<or> _\<close> t' show ?thesis by (simp add: validateApidSeqCountIn_def)
    next
      case False
      have "apid \<in> tracked t'" using t'(3) by simp
      from set_next_spec(2) [OF assms(2) this, of "received + 1"] obtain u where
        "setNextSeqCount apid (received + 1) t' = Some u" "tracked u = tracked t'" "upcoming u = (upcoming t')(apid := received + 1)"
        "unused_entries u = unused_entries t'" "\<forall>e \<in> set u. entry_apid e = INVALID_UNINITIALIZED \<longrightarrow> e \<in> set t'"
        by blast
      with False \<open>apid \<in> tracked t \<or> _\<close> t' ne show ?thesis
        by (simp add: validateApidSeqCountIn_def table_ok_def)
    qed
  next
    case False
    have "card (tracked t) \<le> MAX_TRACKED_APIDS" using assms(1) by (simp add: table_ok_def)
    with False get_full [OF assms(1,2)] set_next_spec(1) [OF assms(2), of t] ne show ?thesis
      by (simp add: validateApidSeqCountIn_def)
  qed
qed

lemma validate_count:
  assumes "table_ok t" "apid \<noteq> INVALID_UNINITIALIZED" "upcoming t apid < 2 ^ 14"
    and "apid \<in> tracked t \<or> card (tracked t) < MAX_TRACKED_APIDS"
  shows "\<exists>t'. validateApidSeqCountIn apid (upcoming t apid) t = Some (upcoming t apid, t', []) \<and> table_ok t' \<and>
    tracked t' = insert apid (tracked t) \<and>
    (\<forall>a. a \<noteq> INVALID_UNINITIALIZED \<longrightarrow> upcoming t' a = (if a = apid then next_seq (upcoming t apid) else upcoming t a))"
  using validate_received [OF assms(1-3)] assms(4) by auto

section \<open>Properties\<close>

text \<open>
  Packets are numbered per application: in any interleaving of requests of at most eleven applications, the \<open>n\<close>-th request of
  an application gets the count \<open>n\<close> (from 0 on, modulo \<open>2\<^sup>1\<^sup>4\<close>), whatever the others do, and no event is reported.
\<close>

theorem numbering_per_application:
  assumes "INVALID_UNINITIALIZED \<notin> set apids" "card (set apids) \<le> MAX_TRACKED_APIDS"
  shows "request_all apids ApidManager_new =
    (map (\<lambda>i. of_nat (count_list (take i apids) (apids ! i) mod 2 ^ 14)) [0..<length apids], [])"
proof -
  have "upcoming ApidManager_new a = of_nat (0 mod 2 ^ 14)" if "a \<noteq> INVALID_UNINITIALIZED" for a
    using upcoming_untracked [of a ApidManager_new] that by simp
  from request_all_counts [OF table_ok_new(1) assms(1), of "\<lambda>_. 0"] this assms(2) show ?thesis by simp
qed

theorem numbering_per_application_witness:
  "fst (request_all [0, 3, 0, 0, 3] ApidManager_new) = [0, 0, 1, 2, 1]"
proof -
  have "card (set [0, 3, 0, 0, 3 :: u16]) \<le> length [0, 3, 0, 0, 3 :: u16]" by (rule card_length)
  then have "card (set [0, 3, 0, 0, 3 :: u16]) \<le> MAX_TRACKED_APIDS" by (simp add: MAX_TRACKED_APIDS_def)
  from numbering_per_application [OF _ this] show ?thesis
    by (simp add: INVALID_UNINITIALIZED_def upt_rec)
qed

text \<open>
  Validation follows the sender: a packet with the expected count passes in silence and the next count, modulo \<open>2\<^sup>1\<^sup>4\<close>, is
  expected; any other count is reported once with the expected one, and its successor is expected next, without the
  reduction: after a packet 16383 out of sequence the next packet in sequence, with count 0, is reported, too. A twelfth
  application does not fit the table, and the assertion behind the report stops the program.
\<close>

theorem validation_follows_sender:
  assumes "table_ok t" "apid \<noteq> INVALID_UNINITIALIZED" "received < 2 ^ 14"
  shows "if apid \<in> tracked t \<or> card (tracked t) < MAX_TRACKED_APIDS
    then \<exists>t'. validateApidSeqCountIn apid received t =
        Some (received, t', if received = upcoming t apid then [] else [UnexpectedSequenceCount received (upcoming t apid)]) \<and>
      table_ok t' \<and> tracked t' = insert apid (tracked t) \<and>
      (\<forall>a. a \<noteq> INVALID_UNINITIALIZED \<longrightarrow> upcoming t' a =
        (if a \<noteq> apid then upcoming t a else if received = upcoming t apid then next_seq received else received + 1))
    else validateApidSeqCountIn apid received t = None"
  by (rule validate_received [OF assms])

theorem validation_follows_sender_witness:
  "\<exists>t'. validateApidSeqCountIn 0 16383 ApidManager_new = Some (16383, t', [UnexpectedSequenceCount 16383 0]) \<and> upcoming t' 0 = 16384"
proof -
  have "upcoming ApidManager_new 0 = 0" by (rule upcoming_untracked) (simp_all add: INVALID_UNINITIALIZED_def)
  then show ?thesis
    using validation_follows_sender [of ApidManager_new 0 16383]
    by (auto simp: INVALID_UNINITIALIZED_def MAX_TRACKED_APIDS_def)
qed

text \<open>
  The two directions share their counts. The deployment connects the deframer of the uplink and the framer of the downlink to the same
  manager: a packet of an application that goes down between two of its packets that come up makes the second one, in
  sequence, be reported as unexpected; and the packet that goes down next continues the numbers of the packets that came up,
  not those that went down.
\<close>

theorem directions_share_counts:
  assumes "table_ok t" "apid \<noteq> INVALID_UNINITIALIZED" "upcoming t apid < 2 ^ 14" "received < 2 ^ 14"
    and "apid \<in> tracked t \<or> card (tracked t) < MAX_TRACKED_APIDS"
  shows "(\<exists>t1 t2. getApidSeqCountIn apid unused t = (upcoming t apid, t1, []) \<and>
      validateApidSeqCountIn apid (upcoming t apid) t1 =
        Some (upcoming t apid, t2, [UnexpectedSequenceCount (upcoming t apid) (next_seq (upcoming t apid))])) \<and>
    (\<exists>t1 t2 es. validateApidSeqCountIn apid received t = Some (received, t1, es) \<and>
      getApidSeqCountIn apid unused t1 = (if received = upcoming t apid then next_seq received else received + 1, t2, []))"
proof (rule conjI)
  let ?c = "upcoming t apid"
  obtain t1 where t1: "getAndIncrementSeqCount apid t = (?c, t1, [])" "table_ok t1" "tracked t1 = insert apid (tracked t)"
    "upcoming t1 apid = next_seq ?c"
    using get_count [OF assms(1,2,5)] assms(2) by auto
  have "?c \<noteq> next_seq ?c"
  proof
    assume same: "?c = next_seq ?c"
    have "unat (next_seq ?c) = (unat ?c + 1) mod 2 ^ 14"
      by (simp add: next_seq_def unsigned_of_nat take_bit_nat_eq_self less_trans [of _ "2 ^ 14"])
    moreover have "unat ?c < 2 ^ 14" using assms(3) by (simp add: word_less_nat_alt)
    ultimately show False using same by (auto simp: mod_Suc split: if_splits)
  qed
  then show "\<exists>t1 t2. getApidSeqCountIn apid unused t = (?c, t1, []) \<and>
      validateApidSeqCountIn apid ?c t1 = Some (?c, t2, [UnexpectedSequenceCount ?c (next_seq ?c)])"
    using validate_received [OF t1(2) assms(2,3)] t1 by (auto simp: getApidSeqCountIn_def)
  obtain u es where u: "validateApidSeqCountIn apid received t = Some (received, u, es)" "table_ok u" "tracked u = insert apid (tracked t)"
    "upcoming u apid = (if received = ?c then next_seq received else received + 1)"
    using validate_received [OF assms(1,2,4)] assms(2,5) by auto
  from get_count [OF u(2) assms(2)] u(3,4)
  have "\<exists>t2. getAndIncrementSeqCount apid u = (if received = ?c then next_seq received else received + 1, t2, [])" by auto
  with u(1) show "\<exists>t1 t2 es. validateApidSeqCountIn apid received t = Some (received, t1, es) \<and>
      getApidSeqCountIn apid unused t1 = (if received = ?c then next_seq received else received + 1, t2, [])"
    unfolding getApidSeqCountIn_def by blast
qed

theorem directions_share_counts_witness:
  "\<exists>t1 t2 es. validateApidSeqCountIn 3 100 ApidManager_new = Some (100, t1, es) \<and> getApidSeqCountIn 3 0 t1 = (101, t2, [])"
proof -
  have "upcoming ApidManager_new 3 = 0" by (rule upcoming_untracked) (simp_all add: INVALID_UNINITIALIZED_def)
  then show ?thesis
    using directions_share_counts [of ApidManager_new 3 100 0]
    by (simp add: INVALID_UNINITIALIZED_def MAX_TRACKED_APIDS_def)
qed

end
