(* ===== verification/Serialization.thy ===== *)
theory Serialization
  imports Fprime_Types
begin

text \<open>
  Serialization buffers: \<^verbatim>\<open>Fw::LinearBufferBase\<close> (\<^verbatim>\<open>lib/fprime/Fw/Types/Serializable.cpp\<close>) with the operations that the
  framing components use, in their default big-endian mode, and the serialization of structures field by field.

  The memory is a list as long as the capacity; the empty list stands for a buffer with no memory, which is what
  \<^verbatim>\<open>getSerializer\<close> of an invalid buffer gives. So a write that finds room has an address.
\<close>

section \<open>The class\<close>

record LinearBuffer =
  lb_mem :: bytes
  m_serLoc :: nat
  m_deserLoc :: nat

definition getCapacity :: "LinearBuffer \<Rightarrow> nat" where
  "getCapacity s = length (lb_mem s)"

definition getSize :: "LinearBuffer \<Rightarrow> nat" where
  "getSize s = m_serLoc s"

text \<open>\<^verbatim>\<open>memcpy\<close> into the buffer, at the serialization pointer, which moves behind the bytes.\<close>

definition store_bytes :: "bytes \<Rightarrow> LinearBuffer \<Rightarrow> LinearBuffer" where
  "store_bytes bs s = s\<lparr>lb_mem := take (m_serLoc s) (lb_mem s) @ bs @ drop (m_serLoc s + length bs) (lb_mem s),
     m_serLoc := m_serLoc s + length bs, m_deserLoc := 0\<rparr>"

definition serializeFrom_U8 :: "u8 \<Rightarrow> LinearBuffer \<Rightarrow> SerializeStatus \<times> LinearBuffer" where
  "serializeFrom_U8 v s =
     (if m_serLoc s + 1 - 1 \<ge> getCapacity s then (FW_SERIALIZE_NO_ROOM_LEFT, s) else (FW_SERIALIZE_OK, store_bytes [v] s))"

definition serializeFrom_U16 :: "u16 \<Rightarrow> LinearBuffer \<Rightarrow> SerializeStatus \<times> LinearBuffer" where
  "serializeFrom_U16 v s =
     (if m_serLoc s + 2 - 1 \<ge> getCapacity s then (FW_SERIALIZE_NO_ROOM_LEFT, s)
      else (FW_SERIALIZE_OK, store_bytes [ucast (drop_bit 8 v), ucast v] s))"

text \<open>\<^verbatim>\<open>serializeFrom(buff, length, OMIT_LENGTH)\<close>\<close>

definition serializeFrom_bytes :: "bytes \<Rightarrow> LinearBuffer \<Rightarrow> SerializeStatus \<times> LinearBuffer" where
  "serializeFrom_bytes buff s =
     (if m_serLoc s + length buff > getCapacity s then (FW_SERIALIZE_NO_ROOM_LEFT, s) else (FW_SERIALIZE_OK, store_bytes buff s))"

text \<open>The check at the start of every deserialization of \<open>n\<close> bytes, which is also all of \<^verbatim>\<open>deserializeSkip\<close>.\<close>

definition deserializeSkip :: "nat \<Rightarrow> LinearBuffer \<Rightarrow> SerializeStatus \<times> LinearBuffer" where
  "deserializeSkip n s =
     (if getSize s = m_deserLoc s then (FW_DESERIALIZE_BUFFER_EMPTY, s)
      else if getSize s - m_deserLoc s < n then (FW_DESERIALIZE_SIZE_MISMATCH, s)
      else (FW_SERIALIZE_OK, s\<lparr>m_deserLoc := m_deserLoc s + n\<rparr>))"

definition deserializeTo_U8 :: "LinearBuffer \<Rightarrow> SerializeStatus \<times> u8 option \<times> LinearBuffer" where
  "deserializeTo_U8 s = (case deserializeSkip 1 s of (status, s') \<Rightarrow>
     (status, if status = FW_SERIALIZE_OK then Some (lb_mem s ! m_deserLoc s) else None, s'))"

definition deserializeTo_U16 :: "LinearBuffer \<Rightarrow> SerializeStatus \<times> u16 option \<times> LinearBuffer" where
  "deserializeTo_U16 s = (case deserializeSkip 2 s of (status, s') \<Rightarrow>
     (status, if status = FW_SERIALIZE_OK
        then Some (ucast (lb_mem s ! (m_deserLoc s + 1)) OR push_bit 8 (ucast (lb_mem s ! m_deserLoc s))) else None, s'))"

definition resetSer :: "LinearBuffer \<Rightarrow> LinearBuffer" where
  "resetSer s = s\<lparr>m_deserLoc := 0, m_serLoc := 0\<rparr>"

definition resetDeser :: "LinearBuffer \<Rightarrow> LinearBuffer" where
  "resetDeser s = s\<lparr>m_deserLoc := 0\<rparr>"

definition serializeSkip :: "nat \<Rightarrow> LinearBuffer \<Rightarrow> SerializeStatus \<times> LinearBuffer" where
  "serializeSkip n s = (let newSerLoc = m_serLoc s + n in
     if newSerLoc \<le> getCapacity s then (FW_SERIALIZE_OK, s\<lparr>m_serLoc := newSerLoc\<rparr>) else (FW_SERIALIZE_NO_ROOM_LEFT, s))"

definition moveSerToOffset :: "nat \<Rightarrow> LinearBuffer \<Rightarrow> SerializeStatus \<times> LinearBuffer" where
  "moveSerToOffset offset s = serializeSkip offset (resetSer s)"

definition moveDeserToOffset :: "nat \<Rightarrow> LinearBuffer \<Rightarrow> SerializeStatus \<times> LinearBuffer" where
  "moveDeserToOffset offset s = deserializeSkip offset (resetDeser s)"

definition setBuffLen :: "nat \<Rightarrow> LinearBuffer \<Rightarrow> SerializeStatus \<times> LinearBuffer" where
  "setBuffLen n s = (if getCapacity s < n then (FW_SERIALIZE_NO_ROOM_LEFT, s) else (FW_SERIALIZE_OK, s\<lparr>m_serLoc := n, m_deserLoc := 0\<rparr>))"

text \<open>\<^verbatim>\<open>setBuff\<close>; \<open>src\<close> is the data of a buffer, \<open>None\<close> for a null pointer.\<close>

definition setBuff :: "bytes option \<Rightarrow> nat \<Rightarrow> LinearBuffer \<Rightarrow> (SerializeStatus \<times> LinearBuffer) option" where
  "setBuff src n s =
     (if getCapacity s < n then Some (FW_SERIALIZE_NO_ROOM_LEFT, s)
      else do {
        bs \<leftarrow> src;
        FW_ASSERT (lb_mem s \<noteq> []);
        Some (FW_SERIALIZE_OK, s\<lparr>lb_mem := take n bs @ drop n (lb_mem s), m_serLoc := n, m_deserLoc := 0\<rparr>)
      })"

text \<open>\<^verbatim>\<open>Fw::Buffer::getSerializer\<close> and \<^verbatim>\<open>getDeserializer\<close>\<close>

definition getSerializer :: "Fw_Buffer \<Rightarrow> LinearBuffer" where
  "getSerializer b = \<lparr>lb_mem = (if isValid b then buf_data b else []), m_serLoc = 0, m_deserLoc = 0\<rparr>"

definition getDeserializer :: "Fw_Buffer \<Rightarrow> LinearBuffer option" where
  "getDeserializer b =
     (if isValid b then do {
        let (status, s) = setBuffLen (buf_size b) \<lparr>lb_mem = buf_data b, m_serLoc = 0, m_deserLoc = 0\<rparr>;
        FW_ASSERT (status = FW_SERIALIZE_OK);
        Some s
      }
      else Some \<lparr>lb_mem = [], m_serLoc = 0, m_deserLoc = 0\<rparr>)"

section \<open>Structures\<close>

text \<open>
  The serialization functions that the build generates for the structures of \<^verbatim>\<open>Types.fpp\<close> write and read the fields in the order
  of their declaration, up to the first error.
\<close>

datatype field = U8 u8 | U16 u16

fun serializeFrom_struct :: "field list \<Rightarrow> LinearBuffer \<Rightarrow> SerializeStatus \<times> LinearBuffer" where
  "serializeFrom_struct [] s = (FW_SERIALIZE_OK, s)"
| "serializeFrom_struct (f # fs) s =
     (case (case f of U8 v \<Rightarrow> serializeFrom_U8 v s | U16 v \<Rightarrow> serializeFrom_U16 v s) of (status, s') \<Rightarrow>
        if status = FW_SERIALIZE_OK then serializeFrom_struct fs s' else (status, s'))"

datatype width = W8 | W16

fun deserializeTo_struct :: "width list \<Rightarrow> LinearBuffer \<Rightarrow> SerializeStatus \<times> field list \<times> LinearBuffer" where
  "deserializeTo_struct [] s = (FW_SERIALIZE_OK, [], s)"
| "deserializeTo_struct (W8 # ws) s =
     (case deserializeTo_U8 s of (status, v, s') \<Rightarrow> (case v of None \<Rightarrow> (status, [], s')
        | Some x \<Rightarrow> (case deserializeTo_struct ws s' of (status, fs, s'') \<Rightarrow> (status, U8 x # fs, s''))))"
| "deserializeTo_struct (W16 # ws) s =
     (case deserializeTo_U16 s of (status, v, s') \<Rightarrow> (case v of None \<Rightarrow> (status, [], s')
        | Some x \<Rightarrow> (case deserializeTo_struct ws s' of (status, fs, s'') \<Rightarrow> (status, U16 x # fs, s''))))"

fun field_bytes :: "field \<Rightarrow> bytes" where
  "field_bytes (U8 v) = [v]"
| "field_bytes (U16 v) = be16 v"

fun field_width :: "field \<Rightarrow> width" where
  "field_width (U8 v) = W8"
| "field_width (U16 v) = W16"

definition struct_bytes :: "field list \<Rightarrow> bytes" where
  "struct_bytes fs = concat (map field_bytes fs)"

lemma struct_bytes_simps [simp]: "struct_bytes [] = []" "struct_bytes (f # fs) = field_bytes f @ struct_bytes fs"
  by (simp_all add: struct_bytes_def)

section \<open>What the operations do\<close>

text \<open>What has been serialized so far, and the room that is left.\<close>

definition written :: "LinearBuffer \<Rightarrow> bytes" where
  "written s = take (m_serLoc s) (lb_mem s)"

definition buffer_ok :: "LinearBuffer \<Rightarrow> bool" where
  "buffer_ok s \<longleftrightarrow> m_deserLoc s \<le> m_serLoc s \<and> m_serLoc s \<le> length (lb_mem s)"

lemma be16_bytes: "[ucast (drop_bit 8 v), ucast v] = be16 v"
  unfolding be16_def and_255 by (auto intro!: bit_word_eqI simp: bit_simps)

lemma store_bytes_simps [simp]:
  "m_serLoc (store_bytes bs s) = m_serLoc s + length bs" "m_deserLoc (store_bytes bs s) = 0"
  "m_serLoc s + length bs \<le> length (lb_mem s) \<Longrightarrow> length (lb_mem (store_bytes bs s)) = length (lb_mem s)"
  "m_serLoc s + length bs \<le> length (lb_mem s) \<Longrightarrow> written (store_bytes bs s) = written s @ bs"
  by (simp_all add: store_bytes_def written_def)

lemma serialize_simps:
  "m_serLoc s + 1 \<le> length (lb_mem s) \<Longrightarrow> serializeFrom_U8 v s = (FW_SERIALIZE_OK, store_bytes [v] s)"
  "m_serLoc s + 2 \<le> length (lb_mem s) \<Longrightarrow> serializeFrom_U16 w s = (FW_SERIALIZE_OK, store_bytes (be16 w) s)"
  "m_serLoc s + length bs \<le> length (lb_mem s) \<Longrightarrow> serializeFrom_bytes bs s = (FW_SERIALIZE_OK, store_bytes bs s)"
  by (simp_all add: serializeFrom_U8_def serializeFrom_U16_def serializeFrom_bytes_def getCapacity_def be16_bytes)

lemma store_bytes_append: "m_serLoc s + length as + length bs \<le> length (lb_mem s) \<Longrightarrow>
  store_bytes bs (store_bytes as s) = store_bytes (as @ bs) s"
  by (simp add: store_bytes_def ac_simps)

lemma serialize_struct:
  "fs \<noteq> [] \<Longrightarrow> m_serLoc s + length (struct_bytes fs) \<le> length (lb_mem s) \<Longrightarrow>
   serializeFrom_struct fs s = (FW_SERIALIZE_OK, store_bytes (struct_bytes fs) s)"
proof (induction fs arbitrary: s)
  case (Cons f fs)
  let ?s = "store_bytes (field_bytes f) s"
  have one: "(case f of U8 v \<Rightarrow> serializeFrom_U8 v s | U16 v \<Rightarrow> serializeFrom_U16 v s) = (FW_SERIALIZE_OK, ?s)"
    using Cons.prems(2) by (cases f) (simp_all add: serialize_simps)
  show ?case
  proof (cases "fs = []")
    case True
    with one show ?thesis by simp
  next
    case False
    have "m_serLoc ?s + length (struct_bytes fs) \<le> length (lb_mem ?s)"
      using Cons.prems(2) by simp
    with Cons.IH [OF False] one Cons.prems(2) show ?thesis
      by (simp add: store_bytes_append)
  qed
qed simp

lemma serialize_struct_refused:
  assumes "m_serLoc s \<le> length (lb_mem s)" "length (lb_mem s) < m_serLoc s + length (struct_bytes fs)"
  shows "\<exists>s'. serializeFrom_struct fs s = (FW_SERIALIZE_NO_ROOM_LEFT, s') \<and> length (lb_mem s') = length (lb_mem s) \<and>
    m_serLoc s \<le> m_serLoc s' \<and> take (m_serLoc s) (written s') = written s"
  using assms
proof (induction fs arbitrary: s)
  case (Cons f fs)
  let ?s = "store_bytes (field_bytes f) s"
  let ?first = "case f of U8 v \<Rightarrow> serializeFrom_U8 v s | U16 v \<Rightarrow> serializeFrom_U16 v s"
  show ?case
  proof (cases "m_serLoc s + length (field_bytes f) \<le> length (lb_mem s)")
    case True
    then have "?first = (FW_SERIALIZE_OK, ?s)"
      by (cases f) (simp_all add: serialize_simps)
    moreover obtain s' where "serializeFrom_struct fs ?s = (FW_SERIALIZE_NO_ROOM_LEFT, s')"
      "length (lb_mem s') = length (lb_mem s)" "m_serLoc ?s \<le> m_serLoc s'" "take (m_serLoc ?s) (written s') = written ?s"
      using Cons.IH [of ?s] Cons.prems True by auto
    moreover from this have "take (m_serLoc s) (take (m_serLoc ?s) (written s')) = take (m_serLoc s) (written s @ field_bytes f)"
      using True by simp
    then have "take (m_serLoc s) (written s') = written s"
      using Cons.prems(1) by (simp add: min_def written_def split: if_splits)
    ultimately show ?thesis by simp
  next
    case False
    then have "?first = (FW_SERIALIZE_NO_ROOM_LEFT, s)"
      by (cases f) (simp_all add: serializeFrom_U8_def serializeFrom_U16_def getCapacity_def)
    then show ?thesis by (simp add: written_def)
  qed
qed simp

lemma of_be16_or: "ucast lo OR push_bit 8 (ucast hi) = of_be16 hi lo"
  by (simp add: of_be16_def or.commute)

text \<open>Reading back what lies at the deserialization pointer.\<close>

lemma deserialize_struct:
  assumes "buffer_ok s" "prefix (struct_bytes fs) (drop (m_deserLoc s) (written s))"
  shows "\<exists>s'. deserializeTo_struct (map field_width fs) s = (FW_SERIALIZE_OK, fs, s') \<and>
    s' = s\<lparr>m_deserLoc := m_deserLoc s + length (struct_bytes fs)\<rparr>"
  using assms
proof (induction fs arbitrary: s)
  case (Cons f fs)
  let ?s = "s\<lparr>m_deserLoc := m_deserLoc s + length (field_bytes f)\<rparr>"
  obtain rest where rest: "drop (m_deserLoc s) (written s) = field_bytes f @ struct_bytes fs @ rest"
    using Cons.prems(2) by (auto simp: prefix_def)
  have len: "m_deserLoc s + length (field_bytes f) \<le> m_serLoc s" "m_serLoc s \<le> length (lb_mem s)"
    using arg_cong [OF rest, of length] Cons.prems(1) by (auto simp: written_def buffer_ok_def)
  have nth: "lb_mem s ! (m_deserLoc s + i) = field_bytes f ! i" if "i < length (field_bytes f)" for i
    using arg_cong [OF rest, of "\<lambda>xs. xs ! i"] that len by (simp add: written_def nth_append)
  have "buffer_ok ?s" using len by (simp add: buffer_ok_def)
  moreover have "drop (m_deserLoc ?s) (written ?s) = struct_bytes fs @ rest"
    using arg_cong [OF rest, of "drop (length (field_bytes f))"] by (simp add: written_def add.commute)
  ultimately obtain s' where s': "deserializeTo_struct (map field_width fs) ?s = (FW_SERIALIZE_OK, fs, s')"
    "s' = ?s\<lparr>m_deserLoc := m_deserLoc ?s + length (struct_bytes fs)\<rparr>"
    using Cons.IH [of ?s] by auto
  show ?case
  proof (cases f)
    case (U8 v)
    with nth [of 0] len s' show ?thesis
      by (simp add: deserializeTo_U8_def deserializeSkip_def getSize_def)
  next
    case (U16 v)
    obtain hi lo where v: "be16 v = [hi, lo]" by (simp add: be16_def)
    with U16 nth [of 0] nth [of 1] len s' show ?thesis
      by (simp add: deserializeTo_U16_def deserializeSkip_def getSize_def of_be16_or of_be16_be16 [OF v])
  qed
qed simp

section \<open>Properties\<close>

text \<open>
  Serialization round trip: whatever fields fit behind what is already in the buffer are written there, nothing else of the
  buffer changes, and reading the same types back from that position gives the same fields; what does not fit is refused with
  \<^verbatim>\<open>FW_SERIALIZE_NO_ROOM_LEFT\<close> and never written outside the buffer.
\<close>

theorem serialization_roundtrip:
  assumes "buffer_ok s" "fs \<noteq> []"
  shows "case serializeFrom_struct fs s of (status, s') \<Rightarrow>
    length (lb_mem s') = length (lb_mem s) \<and> written s = take (m_serLoc s) (written s') \<and>
    (if m_serLoc s + length (struct_bytes fs) \<le> getCapacity s
     then status = FW_SERIALIZE_OK \<and> drop (m_serLoc s') (lb_mem s') = drop (m_serLoc s') (lb_mem s) \<and>
       m_serLoc s' = m_serLoc s + length (struct_bytes fs) \<and>
       fst (snd (deserializeTo_struct (map field_width fs) (snd (moveDeserToOffset (m_serLoc s) s')))) = fs
     else status = FW_SERIALIZE_NO_ROOM_LEFT)"
proof (cases "m_serLoc s + length (struct_bytes fs) \<le> getCapacity s")
  case True
  then have fits: "m_serLoc s + length (struct_bytes fs) \<le> length (lb_mem s)" by (simp add: getCapacity_def)
  let ?s = "store_bytes (struct_bytes fs) s"
  have some: "0 < length (struct_bytes fs)"
    using assms(2) by (cases fs; cases "hd fs") simp_all
  let ?t = "?s\<lparr>m_deserLoc := m_serLoc s\<rparr>"
  have move: "moveDeserToOffset (m_serLoc s) ?s = (FW_SERIALIZE_OK, ?t)"
    using some by (simp add: moveDeserToOffset_def resetDeser_def deserializeSkip_def getSize_def)
  have "written ?t = written s @ struct_bytes fs" "length (written s) = m_serLoc s"
    using fits by (simp_all add: written_def) (simp_all add: store_bytes_def)
  then have "prefix (struct_bytes fs) (drop (m_deserLoc ?t) (written ?t))" by simp
  moreover have "buffer_ok ?t" using fits by (simp add: buffer_ok_def)
  ultimately obtain u where "deserializeTo_struct (map field_width fs) ?t = (FW_SERIALIZE_OK, fs, u)"
    using deserialize_struct by blast
  then show ?thesis
    using serialize_struct [OF assms(2) fits] fits True move by (simp add: written_def) (simp add: store_bytes_def)
next
  case False
  moreover have "m_serLoc s \<le> length (lb_mem s)" using assms(1) by (simp add: buffer_ok_def)
  ultimately show ?thesis
    using serialize_struct_refused [of s fs] by (auto simp: getCapacity_def)
qed

theorem serialization_roundtrip_witness:
  "fst (serializeFrom_struct [U16 0x1234, U8 7] \<lparr>lb_mem = [0, 0, 0], m_serLoc = 0, m_deserLoc = 0\<rparr>) = FW_SERIALIZE_OK"
  using serialization_roundtrip [of "\<lparr>lb_mem = [0, 0, 0], m_serLoc = 0, m_deserLoc = 0\<rparr>" "[U16 0x1234, U8 7]"]
  by (auto simp: buffer_ok_def getCapacity_def split: prod.splits)

end
