(* ===== verification/Tm_Framer.thy ===== *)
theory Tm_Framer
  imports Serialization Crc16
begin

text \<open>
  The telemetry framer \<^verbatim>\<open>Svc/Ccsds/TmFramer/TmFramer.cpp\<close>: it puts every packet into a transfer frame of fixed size, with
  header, idle fill and checksum, in a buffer that it owns while no frame is under way.

  A port call may come back to the component before it returns, as the radio does when it returns a frame at once. So the
  functions behind the ports work on the pair of the component's state and the world of the other components.
\<close>

section \<open>The component\<close>

datatype BufferOwnershipState = NOT_OWNED | OWNED

record TmFramer =
  m_frameBuffer :: bytes
  tm_address :: nat
  tm_bufferState :: BufferOwnershipState
  m_masterFrameCount :: u8
  m_virtualFrameCount :: u8

definition TmFramer_new :: "nat \<Rightarrow> bytes \<Rightarrow> TmFramer" where
  "TmFramer_new address garbage = \<lparr>m_frameBuffer = garbage, tm_address = address, tm_bufferState = OWNED,
     m_masterFrameCount = 0, m_virtualFrameCount = 0\<rparr>"

record 'w tm_ports =
  tm_dataOut :: "Fw_Buffer \<Rightarrow> FrameContext \<Rightarrow> TmFramer \<times> 'w \<Rightarrow> (TmFramer \<times> 'w) option"
  tm_dataReturnOut :: "Fw_Buffer \<Rightarrow> FrameContext \<Rightarrow> TmFramer \<times> 'w \<Rightarrow> (TmFramer \<times> 'w) option"
  tm_comStatusOut :: "(bool \<Rightarrow> TmFramer \<times> 'w \<Rightarrow> (TmFramer \<times> 'w) option) option"

definition TMHeader :: "u16 \<Rightarrow> u8 \<Rightarrow> u8 \<Rightarrow> u16 \<Rightarrow> field list" where
  "TMHeader globalVcId masterFrameCount virtualFrameCount dataFieldStatus =
     [U16 globalVcId, U8 masterFrameCount, U8 virtualFrameCount, U16 dataFieldStatus]"

definition TMTrailer :: "u16 \<Rightarrow> field list" where
  "TMTrailer fecf = [U16 fecf]"

definition SpacePacketHeader :: "u16 \<Rightarrow> u16 \<Rightarrow> u16 \<Rightarrow> field list" where
  "SpacePacketHeader packetIdentification packetSequenceControl packetDataLength =
     [U16 packetIdentification, U16 packetSequenceControl, U16 packetDataLength]"

definition IDLE_DATA_PATTERN :: u8 where
  "IDLE_DATA_PATTERN = 0x44"

text \<open>The loop of \<^verbatim>\<open>fill_with_idle_packet\<close>: \<open>n\<close> bytes, the status of each write ignored.\<close>

fun idle_loop :: "nat \<Rightarrow> LinearBuffer \<Rightarrow> LinearBuffer" where
  "idle_loop 0 s = s"
| "idle_loop (Suc n) s = idle_loop n (snd (serializeFrom_U8 IDLE_DATA_PATTERN s))"

definition fill_with_idle_packet :: "LinearBuffer \<Rightarrow> LinearBuffer option" where
  "fill_with_idle_packet serializer = do {
     let endIndex = (of_nat (TmFrameFixedSize - 2) :: u16);
     let startIndex = (of_nat (getSize serializer) :: u16);
     let idlePacketSize = endIndex - startIndex;
     let lengthToken = idlePacketSize - 6 - 1;
     FW_ASSERT (idlePacketSize \<ge> 7);
     FW_ASSERT (idlePacketSize \<le> of_nat TmFrameFixedSize);
     let serializer = snd (serializeFrom_struct (SpacePacketHeader SPP_IDLE_PACKET (push_bit 14 0x3) lengthToken) serializer);
     Some (idle_loop (unat endIndex - unat (startIndex + 6)) serializer)
   }"

definition TmFramer_dataIn :: "'w tm_ports \<Rightarrow> Fw_Buffer \<Rightarrow> FrameContext \<Rightarrow> TmFramer \<times> 'w \<Rightarrow> (TmFramer \<times> 'w) option" where
  "TmFramer_dataIn p data context = (\<lambda>(t, w). do {
     FW_ASSERT (buf_size data \<le> TmFrameFixedSize - 6 - 2);
     FW_ASSERT (tm_bufferState t = OWNED);
     let globalVcId = push_bit 1 (ucast (ctx_vcId context)) OR push_bit 4 SpacecraftId;
     let dataFieldStatus = push_bit 11 0x3;
     let header = TMHeader globalVcId (m_masterFrameCount t) (m_virtualFrameCount t) dataFieldStatus;
     let t = t\<lparr>m_masterFrameCount := m_masterFrameCount t + 1, m_virtualFrameCount := m_virtualFrameCount t + 1\<rparr>;
     let (status, s) = serializeFrom_struct header \<lparr>lb_mem = m_frameBuffer t, m_serLoc = 0, m_deserLoc = 0\<rparr>;
     FW_ASSERT (status = FW_SERIALIZE_OK);
     let (status, s) = serializeFrom_bytes (buf_data data) s;
     FW_ASSERT (status = FW_SERIALIZE_OK);
     s \<leftarrow> fill_with_idle_packet s;
     let crc = CRC16_compute (take (TmFrameFixedSize - 2) (lb_mem s));
     let s = snd (moveSerToOffset (TmFrameFixedSize - 2) s);
     let (status, s) = serializeFrom_struct (TMTrailer crc) s;
     FW_ASSERT (status = FW_SERIALIZE_OK);
     let t = t\<lparr>m_frameBuffer := lb_mem s, tm_bufferState := NOT_OWNED\<rparr>;
     let frameBuffer = \<lparr>buf_addr = tm_address t, buf_size = TmFrameFixedSize, buf_context = 0xFFFFFFFF, buf_memory = lb_mem s\<rparr>;
     (t, w) \<leftarrow> tm_dataOut p frameBuffer context (t, w);
     tm_dataReturnOut p data context (t, w)
   })"

definition TmFramer_comStatusIn :: "'w tm_ports \<Rightarrow> bool \<Rightarrow> TmFramer \<times> 'w \<Rightarrow> (TmFramer \<times> 'w) option" where
  "TmFramer_comStatusIn p condition s = (case tm_comStatusOut p of None \<Rightarrow> Some s | Some out \<Rightarrow> out condition s)"

definition TmFramer_dataReturnIn :: "Fw_Buffer \<Rightarrow> FrameContext \<Rightarrow> TmFramer \<times> 'w \<Rightarrow> (TmFramer \<times> 'w) option" where
  "TmFramer_dataReturnIn frameBuffer context = (\<lambda>(t, w). do {
     FW_ASSERT (buf_addr frameBuffer \<ge> tm_address t);
     FW_ASSERT (buf_addr frameBuffer < tm_address t + TmFrameFixedSize);
     Some (t\<lparr>tm_bufferState := OWNED\<rparr>, w)
   })"

section \<open>The frame\<close>

text \<open>The frame of the standard (CCSDS 132.0-B): six bytes of header, the data field of packet and idle packet, the checksum.\<close>

definition idle_packet :: "nat \<Rightarrow> bytes" where
  "idle_packet n = struct_bytes (SpacePacketHeader SPP_IDLE_PACKET 0xC000 (of_nat (n - 7))) @ replicate (n - 6) IDLE_DATA_PATTERN"

definition tm_frame_header :: "u8 \<Rightarrow> u8 \<Rightarrow> bytes" where
  "tm_frame_header vcid count = struct_bytes (TMHeader (push_bit 4 SpacecraftId OR push_bit 1 (ucast vcid)) count count 0x1800)"

definition tm_frame :: "u8 \<Rightarrow> u8 \<Rightarrow> bytes \<Rightarrow> bytes" where
  "tm_frame vcid count data =
     (let body = tm_frame_header vcid count @ data @ idle_packet (1016 - length data) in body @ be16 (CRC16_compute body))"

lemma struct_lengths [simp]:
  "length (struct_bytes (SpacePacketHeader a b c)) = 6" "length (struct_bytes (TMHeader d e f g)) = 6"
  "length (struct_bytes (TMTrailer h)) = 2" "length (tm_frame_header i j) = 6" "6 \<le> n \<Longrightarrow> length (idle_packet n) = n"
  by (simp_all add: SpacePacketHeader_def TMHeader_def TMTrailer_def tm_frame_header_def idle_packet_def)

lemma length_tm_frame [simp]: "length data \<le> 1009 \<Longrightarrow> length (tm_frame vcid count data) = 1024"
  by (simp add: tm_frame_def Let_def)

section \<open>What the framer writes\<close>

lemma idle_loop_stores:
  "m_serLoc s + n \<le> length (lb_mem s) \<Longrightarrow> 0 < n \<Longrightarrow> idle_loop n s = store_bytes (replicate n IDLE_DATA_PATTERN) s"
proof (induction n arbitrary: s)
  case (Suc n)
  then have "serializeFrom_U8 IDLE_DATA_PATTERN s = (FW_SERIALIZE_OK, store_bytes [IDLE_DATA_PATTERN] s)"
    by (simp add: serialize_simps)
  with Suc show ?case by (cases "n = 0") (simp_all add: store_bytes_append)
qed simp

lemma fill_stores:
  assumes "length (lb_mem s) = 1024" "m_serLoc s + n = 1022" "7 \<le> n"
  shows "fill_with_idle_packet s = Some (store_bytes (idle_packet n) s)"
proof -
  have start: "unat (of_nat (getSize s) :: u16) = m_serLoc s" "m_serLoc s < 65536"
    using assms(2) by (simp_all add: getSize_def unsigned_of_nat take_bit_nat_eq_self)
  have "(of_nat (m_serLoc s + n) :: u16) = 1022" unfolding assms(2) by simp
  then have size: "(1022 - of_nat (getSize s) :: u16) = of_nat n"
    by (simp add: getSize_def algebra_simps)
  have n: "unat (of_nat n :: u16) = n"
    using assms(2) by (simp add: unsigned_of_nat take_bit_nat_eq_self)
  have "of_nat n - 6 - 1 = (of_nat (n - 7) :: u16)"
    using assms(3) by (simp add: of_nat_diff)
  moreover have "unat (of_nat (getSize s) + 6 :: u16) = m_serLoc s + 6"
    using start unat_add_lem [of "of_nat (getSize s) :: u16" 6] assms(2,3) by simp
  moreover have "1016 - m_serLoc s = n - 6" using assms(2,3) by simp
  moreover have "serializeFrom_struct (SpacePacketHeader a b c) s =
      (FW_SERIALIZE_OK, store_bytes (struct_bytes (SpacePacketHeader a b c)) s)" for a b c
    using assms by (intro serialize_struct) (simp add: SpacePacketHeader_def, simp)
  ultimately show ?thesis
    using assms n size
    by (simp add: fill_with_idle_packet_def TmFrameFixedSize_def word_le_nat_alt idle_loop_stores store_bytes_append idle_packet_def)
qed

lemma framer_frame:
  assumes "length (m_frameBuffer t) = 1024" "tm_bufferState t = OWNED" "m_virtualFrameCount t = m_masterFrameCount t"
    and "buf_size data \<le> 1009" "length (buf_data data) = buf_size data"
  shows "TmFramer_dataIn p data context (t, w) = do {
      let frame = tm_frame (ctx_vcId context) (m_masterFrameCount t) (buf_data data);
      (t, w) \<leftarrow> tm_dataOut p \<lparr>buf_addr = tm_address t, buf_size = 1024, buf_context = 0xFFFFFFFF, buf_memory = frame\<rparr> context
        (t\<lparr>m_masterFrameCount := m_masterFrameCount t + 1, m_virtualFrameCount := m_virtualFrameCount t + 1,
           m_frameBuffer := frame, tm_bufferState := NOT_OWNED\<rparr>, w);
      tm_dataReturnOut p data context (t, w)
    }"
proof -
  let ?s = "\<lparr>lb_mem = m_frameBuffer t, m_serLoc = 0, m_deserLoc = 0\<rparr>"
  let ?body = "tm_frame_header (ctx_vcId context) (m_masterFrameCount t) @ buf_data data @ idle_packet (1016 - buf_size data)"
  have "push_bit 1 (ucast v) OR push_bit 4 SpacecraftId = (push_bit 4 SpacecraftId OR push_bit 1 (ucast v) :: u16)" for v :: u8
    by (rule or.commute)
  then have head: "serializeFrom_struct (TMHeader (push_bit 1 (ucast (ctx_vcId context)) OR push_bit 4 SpacecraftId)
      (m_masterFrameCount t) (m_virtualFrameCount t) (push_bit 11 0x3)) ?s =
      (FW_SERIALIZE_OK, store_bytes (tm_frame_header (ctx_vcId context) (m_masterFrameCount t)) ?s)"
    using assms(1,3) unfolding tm_frame_header_def
    by (subst serialize_struct) (simp_all add: TMHeader_def)
  have body: "fill_with_idle_packet (store_bytes (buf_data data) (store_bytes (tm_frame_header v c) ?s)) =
      Some (store_bytes (tm_frame_header v c @ buf_data data @ idle_packet (1016 - buf_size data)) ?s)" for v c
    using assms by (subst fill_stores [where n = "1016 - buf_size data"]) (simp_all add: store_bytes_append)
  have len: "length ?body = 1022" using assms(4,5) by simp
  have crc: "serializeFrom_struct (TMTrailer c) (snd (moveSerToOffset 1022 (store_bytes ?body ?s))) =
      (FW_SERIALIZE_OK, \<lparr>lb_mem = ?body @ be16 c, m_serLoc = 1024, m_deserLoc = 0\<rparr>)" for c
  proof -
    have "snd (moveSerToOffset 1022 (store_bytes ?body ?s)) = store_bytes ?body ?s"
      using len assms(1) by (simp add: moveSerToOffset_def resetSer_def serializeSkip_def getCapacity_def store_bytes_def)
    moreover have "struct_bytes (TMTrailer c) = be16 c" by (simp add: TMTrailer_def)
    ultimately show ?thesis
      using len assms(1) by (subst serialize_struct) (simp_all add: TMTrailer_def store_bytes_def)
  qed
  have mem: "take 1022 (lb_mem (store_bytes ?body ?s)) = ?body"
    using len by (simp add: store_bytes_def)
  show ?thesis
    using assms head body crc mem len
    by (simp add: TmFramer_dataIn_def TmFrameFixedSize_def Let_def serialize_simps tm_frame_def)
qed

lemma framer_refuses:
  assumes "length (m_frameBuffer t) = 1024" "1009 < buf_size data" "length (buf_data data) = buf_size data"
  shows "TmFramer_dataIn p data context (t, w) = None"
proof (cases "buf_size data \<le> 1016")
  case True
  let ?s = "\<lparr>lb_mem = m_frameBuffer t, m_serLoc = 0, m_deserLoc = 0\<rparr>"
  have head: "serializeFrom_struct (TMHeader a b c d) ?s = (FW_SERIALIZE_OK, store_bytes (struct_bytes (TMHeader a b c d)) ?s)" for a b c d
    using assms(1) by (intro serialize_struct) (simp add: TMHeader_def, simp)
  have "fill_with_idle_packet s = None" if "m_serLoc s = buf_size data + 6" for s
  proof -
    have "(1022 - of_nat (getSize s) :: u16) = of_nat (1022 - (buf_size data + 6))"
      using that True by (simp add: getSize_def of_nat_diff)
    then have "unat (1022 - of_nat (getSize s) :: u16) = 1016 - buf_size data"
      by (simp add: unsigned_of_nat take_bit_nat_eq_self)
    moreover have "\<not> 7 \<le> 1016 - buf_size data" using assms(2) by simp
    ultimately show ?thesis
      by (simp add: fill_with_idle_packet_def TmFrameFixedSize_def word_le_nat_alt Let_def FW_ASSERT_def)
  qed
  then show ?thesis
    using assms True by (simp add: TmFramer_dataIn_def TmFrameFixedSize_def Let_def head serialize_simps)
qed (simp add: TmFramer_dataIn_def TmFrameFixedSize_def)

section \<open>The ground station\<close>

text \<open>
  What a receiver of the standard does with a frame: it checks length and checksum and takes the packets of the data field
  apart by their length fields; idle packets are dropped.
\<close>

definition packet_length :: "bytes \<Rightarrow> nat" where
  "packet_length bs = unat (of_be16 (bs ! 4) (bs ! 5)) + 7"

definition packet_apid :: "bytes \<Rightarrow> u16" where
  "packet_apid bs = of_be16 (bs ! 0) (bs ! 1) AND 0x07FF"

function unpack :: "bytes \<Rightarrow> bytes list option" where
  "unpack bs =
     (if bs = [] then Some []
      else if length bs < 7 \<or> length bs < packet_length bs then None
      else map_option ((#) (take (packet_length bs) bs)) (unpack (drop (packet_length bs) bs)))"
  by pat_completeness auto
termination by (relation "measure length") (auto simp: packet_length_def)

declare unpack.simps [simp del]

definition ground_packets :: "bytes \<Rightarrow> bytes list option" where
  "ground_packets f =
     (if length f = 1024 \<and> of_be16 (f ! 1022) (f ! 1023) = CRC16_compute (take 1022 f)
      then map_option (filter (\<lambda>p. packet_apid p \<noteq> 0x07FF)) (unpack (drop 6 (take 1022 f)))
      else None)"

definition packet_ok :: "bytes \<Rightarrow> bool" where
  "packet_ok p \<longleftrightarrow> 7 \<le> length p \<and> packet_length p = length p \<and> packet_apid p \<noteq> 0x07FF"

lemma unpack_Cons:
  assumes "7 \<le> length p" "packet_length p = length p"
  shows "unpack (p @ rest) = map_option ((#) p) (unpack rest)"
proof -
  have "packet_length (p @ rest) = length p"
    using assms by (simp add: packet_length_def nth_append)
  with assms show ?thesis
    by (subst unpack.simps) auto
qed

lemma idle_packet_unpacks:
  assumes "7 \<le> n" "n \<le> 1016"
  shows "unpack (idle_packet n) = Some [idle_packet n]" "packet_apid (idle_packet n) = 0x07FF"
proof -
  obtain a b where len: "be16 (of_nat (n - 7)) = [a, b]" by (simp add: be16_def)
  have "unat (of_nat (n - 7) :: u16) = n - 7"
    using assms by (simp add: unsigned_of_nat take_bit_nat_eq_self del: of_nat_diff)
  moreover have shape: "idle_packet n = [7, 255, 192, 0, a, b] @ replicate (n - 6) IDLE_DATA_PATTERN"
    unfolding idle_packet_def SpacePacketHeader_def struct_bytes_simps field_bytes.simps len
    by (simp add: be16_def SPP_IDLE_PACKET_def)
  ultimately have "packet_length (idle_packet n) = n"
    using of_be16_be16 [OF len] assms by (simp add: packet_length_def numeral_eq_Suc)
  then show "unpack (idle_packet n) = Some [idle_packet n]"
    using unpack_Cons [of "idle_packet n" "[]"] assms by (simp add: unpack.simps [of "[]"])
  show "packet_apid (idle_packet n) = 0x07FF"
    unfolding shape by (simp add: packet_apid_def of_be16_def)
qed

lemma unpack_packets:
  "\<forall>p \<in> set ps. packet_ok p \<Longrightarrow> unpack (concat ps @ rest) = map_option ((@) ps) (unpack rest)"
  by (induction ps; cases "unpack rest") (auto simp: unpack_Cons packet_ok_def)

lemma tm_frame_crc:
  assumes "length data \<le> 1009"
  shows "take 1022 (tm_frame vcid count data) = tm_frame_header vcid count @ data @ idle_packet (1016 - length data)"
    "of_be16 (tm_frame vcid count data ! 1022) (tm_frame vcid count data ! 1023) =
       CRC16_compute (tm_frame_header vcid count @ data @ idle_packet (1016 - length data))"
proof -
  let ?body = "tm_frame_header vcid count @ data @ idle_packet (1016 - length data)"
  obtain a b where ab: "be16 (CRC16_compute ?body) = [a, b]" by (simp add: be16_def)
  have f: "tm_frame vcid count data = ?body @ [a, b]" by (simp add: tm_frame_def Let_def ab)
  have len: "length ?body = 1022" using assms by simp
  show "take 1022 (tm_frame vcid count data) = ?body"
    unfolding f using len by (simp only: take_append) simp
  have "tm_frame vcid count data ! 1022 = a" "tm_frame vcid count data ! 1023 = b"
    unfolding f using len by (simp_all only: nth_append) simp_all
  then show "of_be16 (tm_frame vcid count data ! 1022) (tm_frame vcid count data ! 1023) = CRC16_compute ?body"
    using of_be16_be16 [OF ab] by simp
qed

lemma tm_frame_packets:
  assumes "\<forall>p \<in> set ps. packet_ok p" "length (concat ps) \<le> 1009"
  shows "ground_packets (tm_frame vcid count (concat ps)) = Some ps"
proof -
  let ?idle = "idle_packet (1016 - length (concat ps))"
  note crc = tm_frame_crc [OF assms(2), of vcid count]
  have idle: "unpack ?idle = Some [?idle]" "packet_apid ?idle = 0x07FF"
    using idle_packet_unpacks [of "1016 - length (concat ps)"] assms(2) by simp_all
  have "drop 6 (tm_frame_header vcid count @ concat ps @ ?idle) = concat ps @ ?idle"
    by (subst drop_append) simp
  moreover have "filter (\<lambda>p. packet_apid p \<noteq> 0x07FF) ps = ps"
    using assms(1) by (simp add: packet_ok_def filter_id_conv)
  ultimately show ?thesis
    using crc idle assms unpack_packets [OF assms(1), of ?idle] by (simp add: ground_packets_def)
qed

section \<open>Properties\<close>

text \<open>The invariant of the component.\<close>

definition framer_ok :: "TmFramer \<Rightarrow> bool" where
  "framer_ok t \<longleftrightarrow> length (m_frameBuffer t) = TmFrameFixedSize \<and> m_virtualFrameCount t = m_masterFrameCount t"

text \<open>
  C19: Framing for the ground: space packets of together at most 1009 bytes go out in one frame of exactly 1024 bytes, from which
  a receiver of the standard gets back exactly these packets, in order, with the channel of the context and the next frame
  count; the frame buffer is then not owned. More than 1009 bytes fail an assertion.
\<close>

theorem framing_for_the_ground:
  assumes "framer_ok t" "tm_bufferState t = OWNED" "length (buf_data data) = buf_size data"
    and "\<forall>p \<in> set ps. packet_ok p" "buf_data data = concat ps"
  shows "if buf_size data \<le> 1009
    then \<exists>f t'. TmFramer_dataIn p data context (t, w) = do {
        (t, w) \<leftarrow> tm_dataOut p f context (t', w);
        tm_dataReturnOut p data context (t, w)
      } \<and> buf_size f = 1024 \<and> buf_addr f = tm_address t \<and> ground_packets (buf_data f) = Some ps \<and>
      of_be16 (buf_data f ! 0) (buf_data f ! 1) = push_bit 4 SpacecraftId OR push_bit 1 (ucast (ctx_vcId context)) \<and>
      buf_data f ! 2 = m_masterFrameCount t \<and>
      framer_ok t' \<and> tm_bufferState t' = NOT_OWNED \<and> m_masterFrameCount t' = m_masterFrameCount t + 1 \<and> tm_address t' = tm_address t
    else TmFramer_dataIn p data context (t, w) = None"
proof (cases "buf_size data \<le> 1009")
  case True
  let ?frame = "tm_frame (ctx_vcId context) (m_masterFrameCount t) (concat ps)"
  let ?v = "push_bit 4 SpacecraftId OR push_bit 1 (ucast (ctx_vcId context)) :: u16"
  have small: "length (concat ps) \<le> 1009" using True assms(3,5) by simp
  obtain a b where ab: "be16 ?v = [a, b]" by (simp add: be16_def)
  have start: "?frame = a # b # m_masterFrameCount t # drop 3 ?frame"
    unfolding tm_frame_def tm_frame_header_def TMHeader_def struct_bytes_simps field_bytes.simps ab Let_def by simp
  then have "?frame ! 0 = a" "?frame ! 1 = b" "?frame ! 2 = m_masterFrameCount t"
    by (metis nth_Cons_0, metis One_nat_def nth_Cons_0 nth_Cons_Suc, metis Suc_1 One_nat_def nth_Cons_0 nth_Cons_Suc)
  moreover have "TmFramer_dataIn p data context (t, w) = do {
      (t, w) \<leftarrow> tm_dataOut p \<lparr>buf_addr = tm_address t, buf_size = 1024, buf_context = 0xFFFFFFFF, buf_memory = ?frame\<rparr> context
        (t\<lparr>m_masterFrameCount := m_masterFrameCount t + 1, m_virtualFrameCount := m_virtualFrameCount t + 1,
           m_frameBuffer := ?frame, tm_bufferState := NOT_OWNED\<rparr>, w);
      tm_dataReturnOut p data context (t, w)
    }"
    using framer_frame [of t data p "context" w] assms True by (simp add: framer_ok_def TmFrameFixedSize_def Let_def)
  ultimately show ?thesis
    unfolding if_P [OF True] using tm_frame_packets [OF assms(4) small] small assms(1) of_be16_be16 [OF ab]
    by (intro exI [of _ "\<lparr>buf_addr = tm_address t, buf_size = 1024, buf_context = 0xFFFFFFFF, buf_memory = ?frame\<rparr>"]
        exI [of _ "t\<lparr>m_masterFrameCount := m_masterFrameCount t + 1, m_virtualFrameCount := m_virtualFrameCount t + 1,
           m_frameBuffer := ?frame, tm_bufferState := NOT_OWNED\<rparr>"])
       (simp add: buf_data_def framer_ok_def TmFrameFixedSize_def)
next
  case False
  then show ?thesis
    using framer_refuses [of t data] assms by (simp add: framer_ok_def TmFrameFixedSize_def)
qed

text \<open>One packet of seven bytes, and a link that keeps what it is given.\<close>

definition bench_packet :: bytes where
  "bench_packet = [0, 1, 192, 0, 0, 0, 42]"

definition bench_link :: "bytes list tm_ports" where
  "bench_link = \<lparr>tm_dataOut = \<lambda>b _ (t, w). Some (t, w @ [buf_data b]), tm_dataReturnOut = \<lambda>_ _. Some, tm_comStatusOut = None\<rparr>"

theorem framing_for_the_ground_witness:
  "\<exists>t' f. TmFramer_dataIn bench_link \<lparr>buf_addr = 8, buf_size = 7, buf_context = 0, buf_memory = bench_packet\<rparr> FrameContext_default
     (TmFramer_new 4096 (replicate 1024 0), []) = Some (t', [f]) \<and> ground_packets f = Some [bench_packet]"
proof -
  have "framer_ok (TmFramer_new 4096 (replicate 1024 0))" "tm_bufferState (TmFramer_new 4096 (replicate 1024 0)) = OWNED"
    by (simp_all add: framer_ok_def TmFramer_new_def TmFrameFixedSize_def)
  moreover have "packet_ok bench_packet"
    by (simp add: packet_ok_def packet_length_def packet_apid_def bench_packet_def of_be16_def)
  ultimately show ?thesis
    using framing_for_the_ground [of "TmFramer_new 4096 (replicate 1024 0)"
        "\<lparr>buf_addr = 8, buf_size = 7, buf_context = 0, buf_memory = bench_packet\<rparr>" "[bench_packet]" bench_link FrameContext_default "[]"]
    by (auto simp: buf_data_def bench_packet_def bench_link_def)
qed

end
