(* ===== verification/Space_Packets.thy ===== *)
theory Space_Packets
  imports Apid_Manager Tm_Framer
begin

text \<open>
  Space packets: the framer \<^verbatim>\<open>Svc/Ccsds/SpacePacketFramer/SpacePacketFramer.cpp\<close> of the downlink and the deframer
  \<^verbatim>\<open>Svc/Ccsds/SpacePacketDeframer/SpacePacketDeframer.cpp\<close> of the uplink. Both keep no state; what is behind their ports is a
  parameter, with a world of its own.
\<close>

section \<open>The framer\<close>

record 'w packet_ports =
  sp_bufferAllocate :: "nat \<Rightarrow> 'w \<Rightarrow> (Fw_Buffer \<times> 'w) option"
  sp_bufferDeallocate :: "Fw_Buffer \<Rightarrow> 'w \<Rightarrow> 'w option"
  sp_getApidSeqCount :: "u16 \<Rightarrow> u16 \<Rightarrow> 'w \<Rightarrow> (u16 \<times> 'w) option"
  sp_dataOut :: "Fw_Buffer \<Rightarrow> FrameContext \<Rightarrow> 'w \<Rightarrow> 'w option"
  sp_dataReturnOut :: "Fw_Buffer \<Rightarrow> FrameContext \<Rightarrow> 'w \<Rightarrow> 'w option"
  sp_comStatusOut :: "(bool \<Rightarrow> 'w \<Rightarrow> 'w option) option"

definition ApidMask :: u16 where "ApidMask = 0x07FF"
definition SeqCountMask :: u16 where "SeqCountMask = 0x3FFF"

definition SpacePacketFramer_dataIn :: "'w packet_ports \<Rightarrow> Fw_Buffer \<Rightarrow> FrameContext \<Rightarrow> 'w \<Rightarrow> 'w option" where
  "SpacePacketFramer_dataIn p data context w = do {
     let frameSize = 6 + buf_size data;
     FW_ASSERT (buf_size data \<le> 2 ^ 64 - 1 - 6);
     FW_ASSERT (buf_size data > 0);
     (frameBuffer, w) \<leftarrow> sp_bufferAllocate p frameSize w;
     let frameSerializer = getSerializer frameBuffer;
     let apid = ctx_apid context;
     FW_ASSERT (drop_bit 11 apid = 0);
     let packetIdentification = 0 OR (apid AND ApidMask);
     (sequenceCount, w) \<leftarrow> sp_getApidSeqCount p apid 0 w;
     let packetSequenceControl = push_bit 14 0x3 OR (sequenceCount AND SeqCountMask);
     FW_ASSERT (buf_size data \<le> 65535);
     let packetDataLength = (of_nat (buf_size data - 1) :: u16);
     let (status, s) = serializeFrom_struct (SpacePacketHeader packetIdentification packetSequenceControl packetDataLength) frameSerializer;
     FW_ASSERT (status = FW_SERIALIZE_OK);
     let (status, s) = serializeFrom_bytes (buf_data data) s;
     FW_ASSERT (status = FW_SERIALIZE_OK);
     w \<leftarrow> sp_dataOut p (frameBuffer\<lparr>buf_memory := lb_mem s @ drop (length (lb_mem s)) (buf_memory frameBuffer)\<rparr>) context w;
     sp_dataReturnOut p data context w
   }"

definition SpacePacketFramer_comStatusIn :: "'w packet_ports \<Rightarrow> bool \<Rightarrow> 'w \<Rightarrow> 'w option" where
  "SpacePacketFramer_comStatusIn p condition w = (case sp_comStatusOut p of None \<Rightarrow> Some w | Some out \<Rightarrow> out condition w)"

definition SpacePacketFramer_dataReturnIn :: "'w packet_ports \<Rightarrow> Fw_Buffer \<Rightarrow> FrameContext \<Rightarrow> 'w \<Rightarrow> 'w option" where
  "SpacePacketFramer_dataReturnIn p frameBuffer context w = sp_bufferDeallocate p frameBuffer w"

section \<open>The deframer\<close>

record 'w unpack_ports =
  sd_dataOut :: "Fw_Buffer \<Rightarrow> FrameContext \<Rightarrow> 'w \<Rightarrow> 'w option"
  sd_dataReturnOut :: "Fw_Buffer \<Rightarrow> FrameContext \<Rightarrow> 'w \<Rightarrow> 'w option"
  sd_validateApidSeqCount :: "u16 \<Rightarrow> u16 \<Rightarrow> 'w \<Rightarrow> (u16 \<times> 'w) option"
  sd_errorNotify :: "(unit \<Rightarrow> 'w \<Rightarrow> 'w option) option"
  sd_InvalidLength :: "u16 \<Rightarrow> nat \<Rightarrow> 'w \<Rightarrow> 'w"

definition SpacePacketDeframer_dataIn :: "'w unpack_ports \<Rightarrow> Fw_Buffer \<Rightarrow> FrameContext \<Rightarrow> 'w \<Rightarrow> 'w option" where
  "SpacePacketDeframer_dataIn p data context w = do {
     FW_ASSERT (buf_size data > 6);
     deserializer \<leftarrow> getDeserializer data;
     (case deserializeTo_struct [W16, W16, W16] deserializer of
       (FW_SERIALIZE_OK, [U16 packetIdentification, U16 packetSequenceControl, U16 packetDataLength], s) \<Rightarrow>
         let pkt_length = packetDataLength + 1 in
         if unat pkt_length > buf_size data - 6 then do {
           let w = sd_InvalidLength p pkt_length (buf_size data - 6) w;
           w \<leftarrow> (case sd_errorNotify p of None \<Rightarrow> Some w | Some notify \<Rightarrow> notify () w);
           sd_dataReturnOut p data context w
         }
         else do {
           let apid = packetIdentification AND ApidMask;
           let contextCopy = context\<lparr>ctx_apid := apid\<rparr>;
           let receivedSequenceCount = packetSequenceControl AND SeqCountMask;
           (r, w) \<leftarrow> sd_validateApidSeqCount p apid receivedSequenceCount w;
           let contextCopy = contextCopy\<lparr>ctx_sequenceCount := receivedSequenceCount\<rparr>;
           sd_dataOut p (data\<lparr>buf_addr := buf_addr data + 6, buf_memory := drop 6 (buf_memory data), buf_size := unat pkt_length\<rparr>)
             contextCopy w
         }
     | _ \<Rightarrow> None)
   }"

definition SpacePacketDeframer_dataReturnIn :: "'w unpack_ports \<Rightarrow> Fw_Buffer \<Rightarrow> FrameContext \<Rightarrow> 'w \<Rightarrow> 'w option" where
  "SpacePacketDeframer_dataReturnIn p data context w = sd_dataReturnOut p data context w"

section \<open>Packets\<close>

text \<open>The packet of the standard (CCSDS 133.0-B), unsegmented and without secondary header.\<close>

definition space_packet :: "u16 \<Rightarrow> u16 \<Rightarrow> bytes \<Rightarrow> bytes" where
  "space_packet apid sequence data =
     struct_bytes (SpacePacketHeader (apid AND ApidMask) (push_bit 14 0x3 OR (sequence AND SeqCountMask)) (of_nat (length data - 1))) @ data"

lemma length_space_packet [simp]: "length (space_packet apid sequence data) = 6 + length data"
  by (simp add: space_packet_def)

lemma drop_space_packet [simp]: "drop 6 (space_packet apid sequence data) = data"
  by (simp add: space_packet_def)

lemma framer_packet:
  assumes "0 < buf_size data" "buf_size data \<le> 65535" "length (buf_data data) = buf_size data" "drop_bit 11 (ctx_apid context) = 0"
    and "sp_bufferAllocate p (6 + buf_size data) w = Some (b, w1)" "buf_addr b \<noteq> 0" "buf_size b = 6 + buf_size data"
    "buf_size b \<le> length (buf_memory b)" and "sp_getApidSeqCount p (ctx_apid context) 0 w1 = Some (n, w2)"
  shows "SpacePacketFramer_dataIn p data context w = do {
      w \<leftarrow> sp_dataOut p (b\<lparr>buf_memory := space_packet (ctx_apid context) n (buf_data data) @ drop (buf_size b) (buf_memory b)\<rparr>) context w2;
      sp_dataReturnOut p data context w
    }"
proof -
  let ?s = "\<lparr>lb_mem = buf_data b, m_serLoc = 0, m_deserLoc = 0\<rparr>"
  have len: "length (buf_data b) = 6 + buf_size data" using assms(7,8) by (simp add: buf_data_def)
  have s: "getSerializer b = ?s" using assms(6,7) by (simp add: getSerializer_def isValid_def)
  have "serializeFrom_struct (SpacePacketHeader x y z) ?s = (FW_SERIALIZE_OK, store_bytes (struct_bytes (SpacePacketHeader x y z)) ?s)" for x y z
    using len by (intro serialize_struct) (simp add: SpacePacketHeader_def, simp)
  moreover have "serializeFrom_bytes (buf_data data) (store_bytes (struct_bytes (SpacePacketHeader x y z)) ?s) =
      (FW_SERIALIZE_OK, \<lparr>lb_mem = struct_bytes (SpacePacketHeader x y z) @ buf_data data, m_serLoc = 6 + buf_size data, m_deserLoc = 0\<rparr>)" for x y z
    using len assms(3) by (subst serialize_simps) (simp_all add: store_bytes_append, simp add: store_bytes_def)
  ultimately show ?thesis
    using assms s by (simp add: SpacePacketFramer_dataIn_def Let_def space_packet_def)
qed

lemma FW_ASSERT_None: "(Option.bind (FW_ASSERT b) f = None) = (b \<longrightarrow> f () = None)"
  by (simp add: FW_ASSERT_def)

text \<open>A manager that has no buffer answers with the empty one: the framer does not check that.\<close>

lemma framer_without_buffer:
  assumes "sp_bufferAllocate p (6 + buf_size data) w = Some (b, w1)" "\<not> isValid b"
  shows "SpacePacketFramer_dataIn p data context w = None"
proof -
  have "serializeFrom_struct (SpacePacketHeader x y z) (getSerializer b) = (FW_SERIALIZE_NO_ROOM_LEFT, getSerializer b)" for x y z
    using assms(2) by (simp add: getSerializer_def SpacePacketHeader_def serializeFrom_U16_def getCapacity_def)
  then show ?thesis
    using assms(1) by (auto simp: SpacePacketFramer_dataIn_def Let_def FW_ASSERT_None bind_eq_None_conv)
qed

lemma packet_struct:
  "map field_width [U16 a, U16 b, U16 c] = [W16, W16, W16]" "struct_bytes [U16 a, U16 b, U16 c] = struct_bytes (SpacePacketHeader a b c)"
  by (simp_all add: SpacePacketHeader_def)

text \<open>What the deframer does with a buffer that starts with a header.\<close>

lemma deframer_header:
  assumes "isValid b" "buf_size b \<le> length (buf_memory b)" "buf_data b = struct_bytes (SpacePacketHeader x y z) @ rest" "rest \<noteq> []"
  shows "SpacePacketDeframer_dataIn p b context w =
     (if unat (z + 1) > buf_size b - 6 then do {
        w \<leftarrow> (case sd_errorNotify p of None \<Rightarrow> Some (sd_InvalidLength p (z + 1) (buf_size b - 6) w)
              | Some notify \<Rightarrow> notify () (sd_InvalidLength p (z + 1) (buf_size b - 6) w));
        sd_dataReturnOut p b context w
      }
      else do {
        (r, w) \<leftarrow> sd_validateApidSeqCount p (x AND ApidMask) (y AND SeqCountMask) w;
        sd_dataOut p (b\<lparr>buf_addr := buf_addr b + 6, buf_memory := drop 6 (buf_memory b), buf_size := unat (z + 1)\<rparr>)
          (context\<lparr>ctx_apid := x AND ApidMask, ctx_sequenceCount := y AND SeqCountMask\<rparr>) w
      })"
proof -
  let ?s = "\<lparr>lb_mem = buf_data b, m_serLoc = buf_size b, m_deserLoc = 0\<rparr>"
  have len: "length (buf_data b) = buf_size b" using assms(2) by (simp add: buf_data_def)
  then have size: "6 < buf_size b" using assms(3,4) by (cases rest) auto
  have "getDeserializer b = Some ?s"
    using assms(1) len by (simp add: getDeserializer_def setBuffLen_def getCapacity_def)
  moreover obtain s where "deserializeTo_struct [W16, W16, W16] ?s = (FW_SERIALIZE_OK, [U16 x, U16 y, U16 z], s)"
    using deserialize_struct [of ?s "[U16 x, U16 y, U16 z]"] assms(3) len
    unfolding packet_struct by (auto simp: buffer_ok_def written_def)
  ultimately show ?thesis
    using size by (simp add: SpacePacketDeframer_dataIn_def Let_def)
qed

section \<open>Fields\<close>

lemma mask_bits: "ApidMask = mask 11" "SeqCountMask = mask 14"
  by (simp_all add: ApidMask_def SeqCountMask_def mask_eq_exp_minus_1)

lemma apid_field: "drop_bit 11 a = 0 \<Longrightarrow> a AND ApidMask = a"
  unfolding mask_bits by (simp flip: take_bit_eq_mask) (metis bits_ident push_bit_of_0 add.left_neutral)

lemma apid_valid: "drop_bit 11 a = 0 \<Longrightarrow> a \<noteq> INVALID_UNINITIALIZED"
  by (auto simp: INVALID_UNINITIALIZED_def)

lemma seq_field: "(0xC000 OR (s AND SeqCountMask)) AND SeqCountMask = s AND SeqCountMask"
  unfolding SeqCountMask_def by (simp add: bit.conj_disj_distrib2 and.assoc)

lemma seq_small: "s < 2 ^ 14 \<Longrightarrow> s AND SeqCountMask = s"
  unfolding mask_bits by (simp add: take_bit_eq_mod mod_word_less flip: take_bit_eq_mask)

lemma length_field:
  assumes "0 < n" "n \<le> 65535"
  shows "unat (of_nat (n - 1) + 1 :: u16) = n"
proof -
  have "of_nat (n - 1) + 1 = (of_nat n :: u16)" using assms(1) by (cases n) simp_all
  then show ?thesis using assms(2) by (simp add: unsigned_of_nat take_bit_nat_eq_self)
qed

lemma deframer_packet:
  assumes "buf_addr b \<noteq> 0" "buf_size b \<le> length (buf_memory b)" "buf_data b = space_packet apid sequence data @ extra"
    and "0 < length data" "length data \<le> 65535" "drop_bit 11 apid = 0"
    and "sd_validateApidSeqCount p apid (sequence AND SeqCountMask) w = Some (r, w1)"
  shows "SpacePacketDeframer_dataIn p b context w =
      sd_dataOut p (b\<lparr>buf_addr := buf_addr b + 6, buf_memory := drop 6 (buf_memory b), buf_size := length data\<rparr>)
        (context\<lparr>ctx_apid := apid, ctx_sequenceCount := sequence AND SeqCountMask\<rparr>) w1"
    "take (length data) (drop 6 (buf_memory b)) = data"
proof -
  have size: "buf_size b = 6 + length data + length extra"
    using arg_cong [OF assms(3), of length] assms(2) by (simp add: buf_data_def)
  then have valid: "isValid b" using assms(1) by (simp add: isValid_def)
  have shape: "buf_data b = struct_bytes (SpacePacketHeader (apid AND ApidMask) (push_bit 14 0x3 OR (sequence AND SeqCountMask))
      (of_nat (length data - 1))) @ data @ extra"
    using assms(3) by (simp add: space_packet_def)
  have "data @ extra \<noteq> []" using assms(4) by auto
  note head = deframer_header [OF valid assms(2) shape this]
  show "SpacePacketDeframer_dataIn p b context w =
      sd_dataOut p (b\<lparr>buf_addr := buf_addr b + 6, buf_memory := drop 6 (buf_memory b), buf_size := length data\<rparr>)
        (context\<lparr>ctx_apid := apid, ctx_sequenceCount := sequence AND SeqCountMask\<rparr>) w1"
    unfolding head length_field [OF assms(4,5)] using assms(6,7) size by (simp add: apid_field seq_field)
  have "take (length data) (drop 6 (buf_data b)) = data"
    unfolding assms(3) by (simp add: space_packet_def)
  then show "take (length data) (drop 6 (buf_memory b)) = data"
    using size by (simp add: buf_data_def drop_take min_def)
qed

section \<open>Streams of packets\<close>

text \<open>A sending and a receiving side, each with the sequence counts of its own manager.\<close>

record sender =
  sn_table :: apid_table
  sn_packets :: "bytes list"

record receiver =
  rc_table :: apid_table
  rc_events :: "apid_event list"
  rc_data :: "(u16 \<times> bytes) list"

definition sender_ports :: "sender packet_ports" where
  "sender_ports = \<lparr>sp_bufferAllocate = \<lambda>n w. Some (\<lparr>buf_addr = 64, buf_size = n, buf_context = 0, buf_memory = replicate n 0\<rparr>, w),
     sp_bufferDeallocate = \<lambda>_. Some,
     sp_getApidSeqCount = \<lambda>apid unused w. (case getApidSeqCountIn apid unused (sn_table w) of (n, t, _) \<Rightarrow> Some (n, w\<lparr>sn_table := t\<rparr>)),
     sp_dataOut = \<lambda>b _ w. Some (w\<lparr>sn_packets := sn_packets w @ [buf_data b]\<rparr>), sp_dataReturnOut = \<lambda>_ _. Some, sp_comStatusOut = None\<rparr>"

definition receiver_ports :: "receiver unpack_ports" where
  "receiver_ports = \<lparr>sd_dataOut = \<lambda>b ctx w. Some (w\<lparr>rc_data := rc_data w @ [(ctx_apid ctx, buf_data b)]\<rparr>),
     sd_dataReturnOut = \<lambda>_ _. Some,
     sd_validateApidSeqCount = \<lambda>apid n w. do {
       (r, t, es) \<leftarrow> validateApidSeqCountIn apid n (rc_table w);
       Some (r, w\<lparr>rc_table := t, rc_events := rc_events w @ es\<rparr>)
     },
     sd_errorNotify = None, sd_InvalidLength = \<lambda>_ _ w. w\<rparr>"

definition send_message :: "u16 \<times> bytes \<Rightarrow> sender \<Rightarrow> sender option" where
  "send_message m = SpacePacketFramer_dataIn sender_ports \<lparr>buf_addr = 32, buf_size = length (snd m), buf_context = 0, buf_memory = snd m\<rparr>
     (FrameContext_default\<lparr>ctx_apid := fst m\<rparr>)"

definition receive_packet :: "bytes \<Rightarrow> receiver \<Rightarrow> receiver option" where
  "receive_packet bs = SpacePacketDeframer_dataIn receiver_ports \<lparr>buf_addr = 32, buf_size = length bs, buf_context = 0, buf_memory = bs\<rparr>
     FrameContext_default"

fun run_all :: "('a \<Rightarrow> 'w \<Rightarrow> 'w option) \<Rightarrow> 'a list \<Rightarrow> 'w \<Rightarrow> 'w option" where
  "run_all f [] w = Some w"
| "run_all f (x # xs) w = do { w \<leftarrow> f x w; run_all f xs w }"

definition message_ok :: "u16 \<times> bytes \<Rightarrow> bool" where
  "message_ok m \<longleftrightarrow> drop_bit 11 (fst m) = 0 \<and> 0 < length (snd m) \<and> length (snd m) \<le> 65535"

text \<open>Two tables that agree.\<close>

definition in_step :: "apid_table \<Rightarrow> apid_table \<Rightarrow> bool" where
  "in_step t u \<longleftrightarrow> table_ok t \<and> table_ok u \<and> tracked t = tracked u \<and>
     (\<forall>a. a \<noteq> INVALID_UNINITIALIZED \<longrightarrow> upcoming t a = upcoming u a \<and> upcoming u a < 2 ^ 14)"

lemma next_seq_small: "next_seq c < 2 ^ 14"
proof -
  have "unat (next_seq c) = (unat c + 1) mod 2 ^ 14"
    by (simp add: next_seq_def unsigned_of_nat take_bit_nat_eq_self less_trans [of _ "2 ^ 14"])
  then have "unat (next_seq c) < unat (2 ^ 14 :: u16)" by simp
  then show ?thesis by (simp only: word_less_nat_alt)
qed

lemma message_step:
  assumes "message_ok m" "in_step (sn_table s) (rc_table r)" "fst m \<in> tracked (sn_table s) \<or> card (tracked (sn_table s)) < MAX_TRACKED_APIDS"
  shows "\<exists>t u p. send_message m s = Some (s\<lparr>sn_table := t, sn_packets := sn_packets s @ [p]\<rparr>) \<and>
    receive_packet p r = Some (r\<lparr>rc_table := u, rc_data := rc_data r @ [m]\<rparr>) \<and> in_step t u \<and>
    tracked t = insert (fst m) (tracked (sn_table s))"
proof -
  obtain apid data where m: "m = (apid, data)" by (cases m)
  have ok: "drop_bit 11 apid = 0" "0 < length data" "length data \<le> 65535" "apid \<noteq> INVALID_UNINITIALIZED"
    using assms(1) apid_valid by (auto simp: message_ok_def m)
  let ?c = "upcoming (sn_table s) apid"
  have same: "upcoming (rc_table r) apid = ?c" "?c < 2 ^ 14" "tracked (rc_table r) = tracked (sn_table s)"
    using assms(2) ok(4) by (simp_all add: in_step_def)
  have tabs: "table_ok (sn_table s)" "table_ok (rc_table r)" using assms(2) by (simp_all add: in_step_def)
  obtain t where t: "getAndIncrementSeqCount apid (sn_table s) = (?c, t, [])" "table_ok t" "tracked t = insert apid (tracked (sn_table s))"
    "\<forall>a. a \<noteq> INVALID_UNINITIALIZED \<longrightarrow> upcoming t a = (if a = apid then next_seq ?c else upcoming (sn_table s) a)"
    using get_count [OF tabs(1) ok(4)] assms(3) by (auto simp: m)
  obtain u where u: "validateApidSeqCountIn apid ?c (rc_table r) = Some (?c, u, [])" "table_ok u" "tracked u = insert apid (tracked (sn_table s))"
    "\<forall>a. a \<noteq> INVALID_UNINITIALIZED \<longrightarrow> upcoming u a = (if a = apid then next_seq ?c else upcoming (rc_table r) a)"
    using validate_count [of "rc_table r" apid] tabs(2) ok(4) assms(3) same by (auto simp: m)
  let ?p = "space_packet apid ?c data"
  have "send_message m s = Some (s\<lparr>sn_table := t, sn_packets := sn_packets s @ [?p]\<rparr>)"
    unfolding send_message_def m fst_conv snd_conv
    by (subst framer_packet [where n = ?c and ?w2.0 = "s\<lparr>sn_table := t\<rparr>" and ?w1.0 = s and
          b = "\<lparr>buf_addr = 64, buf_size = 6 + length data, buf_context = 0, buf_memory = replicate (6 + length data) 0\<rparr>"])
       (use ok t(1) in \<open>simp_all add: sender_ports_def getApidSeqCountIn_def buf_data_def\<close>)
  moreover have "receive_packet ?p r = Some (r\<lparr>rc_table := u, rc_data := rc_data r @ [m]\<rparr>)"
    unfolding receive_packet_def
    using deframer_packet(1) [of "\<lparr>buf_addr = 32, buf_size = length ?p, buf_context = 0, buf_memory = ?p\<rparr>" apid ?c data "[]" receiver_ports r ?c
        "r\<lparr>rc_table := u\<rparr>" FrameContext_default] ok u(1) seq_small [OF same(2)]
    by (simp add: receiver_ports_def m buf_data_def)
  moreover have "in_step t u"
    using t(2-4) u(2-4) assms(2) next_seq_small by (auto simp: in_step_def)
  ultimately show ?thesis using t(3) m by auto
qed

lemma stream_in_step:
  assumes "list_all message_ok ms" "in_step (sn_table s) (rc_table r)" "card (tracked (sn_table s) \<union> fst ` set ms) \<le> MAX_TRACKED_APIDS"
  shows "\<exists>s' ps r'. run_all send_message ms s = Some s' \<and> sn_packets s' = sn_packets s @ ps \<and>
    run_all receive_packet ps r = Some r' \<and> rc_data r' = rc_data r @ ms \<and> rc_events r' = rc_events r"
  using assms
proof (induction ms arbitrary: s r)
  case (Cons m ms)
  have "message_ok m" using Cons.prems(1) by simp
  moreover have "fst m \<in> tracked (sn_table s) \<or> card (tracked (sn_table s)) < MAX_TRACKED_APIDS"
    using room_for [of "fst m" "fst ` set (m # ms)" "sn_table s"] Cons.prems(3) by simp
  ultimately obtain t u p where step: "send_message m s = Some (s\<lparr>sn_table := t, sn_packets := sn_packets s @ [p]\<rparr>)"
    "receive_packet p r = Some (r\<lparr>rc_table := u, rc_data := rc_data r @ [m]\<rparr>)" "in_step t u"
    "tracked t = insert (fst m) (tracked (sn_table s))"
    using message_step [OF _ Cons.prems(2)] by blast
  let ?s = "s\<lparr>sn_table := t, sn_packets := sn_packets s @ [p]\<rparr>" and ?r = "r\<lparr>rc_table := u, rc_data := rc_data r @ [m]\<rparr>"
  have "card (tracked (sn_table ?s) \<union> fst ` set ms) \<le> MAX_TRACKED_APIDS"
    using Cons.prems(3) step(4) by simp
  then obtain s' ps r' where "run_all send_message ms ?s = Some s'" "sn_packets s' = sn_packets ?s @ ps"
    "run_all receive_packet ps ?r = Some r'" "rc_data r' = rc_data ?r @ ms" "rc_events r' = rc_events ?r"
    using Cons.IH [of ?s ?r] Cons.prems(1) step(3) by auto
  with step(1,2) show ?case
    by (intro exI [of _ s'] exI [of _ "p # ps"] exI [of _ r']) simp
qed simp

section \<open>Properties\<close>

text \<open>
  C18: Space packets carry messages unchanged and in sequence: whatever messages of 1 to 65535 bytes from at most eleven applications
  are framed one after the other, deframing the packets gives back each message with its application, in order, and the
  manager of the receiving side sees every count it expects.
\<close>

theorem packets_carry_messages:
  assumes "list_all message_ok ms" "card (fst ` set ms) \<le> MAX_TRACKED_APIDS"
  shows "\<exists>s r. run_all send_message ms \<lparr>sn_table = ApidManager_new, sn_packets = []\<rparr> = Some s \<and>
    run_all receive_packet (sn_packets s) \<lparr>rc_table = ApidManager_new, rc_events = [], rc_data = []\<rparr> = Some r \<and>
    rc_data r = ms \<and> rc_events r = []"
proof -
  have "in_step ApidManager_new ApidManager_new"
    using upcoming_untracked [of _ ApidManager_new] by (simp add: in_step_def)
  with stream_in_step [OF assms(1), of "\<lparr>sn_table = ApidManager_new, sn_packets = []\<rparr>"
      "\<lparr>rc_table = ApidManager_new, rc_events = [], rc_data = []\<rparr>"] assms(2) show ?thesis
    by auto
qed

theorem packets_carry_messages_witness:
  "\<exists>s r. run_all send_message [(0, [1, 2]), (3, [4])] \<lparr>sn_table = ApidManager_new, sn_packets = []\<rparr> = Some s \<and>
    run_all receive_packet (sn_packets s) \<lparr>rc_table = ApidManager_new, rc_events = [], rc_data = []\<rparr> = Some r \<and>
    rc_data r = [(0, [1, 2]), (3, [4])] \<and> rc_events r = []"
  by (rule packets_carry_messages) (simp_all add: message_ok_def MAX_TRACKED_APIDS_def)

end
