(* ===== verification/Packet_Router.thy ===== *)
theory Packet_Router
  imports Serialization
begin

text \<open>
  The router \<^verbatim>\<open>Svc/FprimeRouter/FprimeRouter.cpp\<close> behind the deframers: commands are copied into a \<^verbatim>\<open>Fw::ComBuffer\<close>
  (\<^verbatim>\<open>Fw/Com/ComBuffer.cpp\<close>), files and packets of unknown applications into a buffer of their own, and the packet goes back in
  every case. The router keeps no state; what is behind its ports is a parameter, with a world of its own.
\<close>

section \<open>Communication buffers\<close>

definition FW_COM_BUFFER_MAX_SIZE :: nat where
  "FW_COM_BUFFER_MAX_SIZE = 512"

text \<open>A fresh buffer; the member \<^verbatim>\<open>m_bufferData\<close> is not initialised.\<close>

definition ComBuffer_new :: "(nat \<Rightarrow> u8) \<Rightarrow> LinearBuffer" where
  "ComBuffer_new garbage = \<lparr>lb_mem = map garbage [0..<FW_COM_BUFFER_MAX_SIZE], m_serLoc = 0, m_deserLoc = 0\<rparr>"

section \<open>The component\<close>

definition FW_PACKET_COMMAND :: u16 where "FW_PACKET_COMMAND = 0x0000"
definition FW_PACKET_FILE :: u16 where "FW_PACKET_FILE = 0x0003"

datatype AllocationReason = FILE_UPLINK | USER_BUFFER

datatype router_event = SerializationError SerializeStatus | AllocationError AllocationReason

text \<open>The ports; those that the code asks for before it calls them may be unconnected.\<close>

record 'w router_ports =
  rt_commandOut :: "LinearBuffer \<Rightarrow> u32 \<Rightarrow> 'w \<Rightarrow> 'w option"
  rt_fileOut :: "(Fw_Buffer \<Rightarrow> 'w \<Rightarrow> 'w option) option"
  rt_unknownDataOut :: "(Fw_Buffer \<Rightarrow> FrameContext \<Rightarrow> 'w \<Rightarrow> 'w option) option"
  rt_bufferAllocate :: "nat \<Rightarrow> 'w \<Rightarrow> (Fw_Buffer \<times> 'w) option"
  rt_bufferDeallocate :: "Fw_Buffer \<Rightarrow> 'w \<Rightarrow> 'w option"
  rt_dataReturnOut :: "Fw_Buffer \<Rightarrow> FrameContext \<Rightarrow> 'w \<Rightarrow> 'w option"
  rt_log :: "router_event \<Rightarrow> 'w \<Rightarrow> 'w"

definition route_command :: "'w router_ports \<Rightarrow> (nat \<Rightarrow> u8) \<Rightarrow> Fw_Buffer \<Rightarrow> 'w \<Rightarrow> 'w option" where
  "route_command p garbage packetBuffer w = do {
     (status, com) \<leftarrow> setBuff (if buf_addr packetBuffer = 0 then None else Some (buf_data packetBuffer)) (buf_size packetBuffer)
       (ComBuffer_new garbage);
     if status = FW_SERIALIZE_OK then rt_commandOut p com 0 w
     else Some (rt_log p (SerializationError status) w)
   }"

text \<open>The copy of a packet in a buffer of its own, which is the same code for files and for unknown packets.\<close>

definition route_copy :: "'w router_ports \<Rightarrow> AllocationReason \<Rightarrow> (Fw_Buffer \<Rightarrow> 'w \<Rightarrow> 'w option) \<Rightarrow> Fw_Buffer \<Rightarrow> 'w \<Rightarrow> 'w option" where
  "route_copy p reason out packetBuffer w = do {
     (packetBufferCopy, w) \<leftarrow> rt_bufferAllocate p (buf_size packetBuffer) w;
     if isValid packetBufferCopy then do {
       let copySerializer = getSerializer packetBufferCopy;
       let (status, s) = serializeFrom_bytes (buf_data packetBuffer) copySerializer;
       FW_ASSERT (status = FW_SERIALIZE_OK);
       out (packetBufferCopy\<lparr>buf_memory := lb_mem s @ drop (length (lb_mem s)) (buf_memory packetBufferCopy)\<rparr>) w
     }
     else Some (rt_log p (AllocationError reason) w)
   }"

definition FprimeRouter_dataIn :: "'w router_ports \<Rightarrow> (nat \<Rightarrow> u8) \<Rightarrow> Fw_Buffer \<Rightarrow> FrameContext \<Rightarrow> 'w \<Rightarrow> 'w option" where
  "FprimeRouter_dataIn p garbage packetBuffer context w = do {
     let packetType = ctx_apid context;
     w \<leftarrow> (if packetType = FW_PACKET_COMMAND then route_command p garbage packetBuffer w
       else if packetType = FW_PACKET_FILE then
         (case rt_fileOut p of None \<Rightarrow> Some w | Some out \<Rightarrow> route_copy p FILE_UPLINK out packetBuffer w)
       else
         (case rt_unknownDataOut p of None \<Rightarrow> Some w
          | Some out \<Rightarrow> route_copy p USER_BUFFER (\<lambda>b. out b context) packetBuffer w));
     rt_dataReturnOut p packetBuffer context w
   }"

definition FprimeRouter_cmdResponseIn :: "u32 \<Rightarrow> u32 \<Rightarrow> 'r \<Rightarrow> 'w \<Rightarrow> 'w option" where
  "FprimeRouter_cmdResponseIn opcode cmdSeq response w = Some w"

definition FprimeRouter_fileBufferReturnIn :: "'w router_ports \<Rightarrow> Fw_Buffer \<Rightarrow> 'w \<Rightarrow> 'w option" where
  "FprimeRouter_fileBufferReturnIn p fwBuffer w = rt_bufferDeallocate p fwBuffer w"

section \<open>What becomes of a packet\<close>

lemma command_routed:
  assumes "buf_addr b \<noteq> 0" "length (buf_data b) = buf_size b"
  shows "route_command p garbage b w =
    (if buf_size b \<le> FW_COM_BUFFER_MAX_SIZE
     then rt_commandOut p \<lparr>lb_mem = buf_data b @ drop (buf_size b) (map garbage [0..<FW_COM_BUFFER_MAX_SIZE]), m_serLoc = buf_size b, m_deserLoc = 0\<rparr> 0 w
     else Some (rt_log p (SerializationError FW_SERIALIZE_NO_ROOM_LEFT) w))"
  using assms
  by (simp add: route_command_def setBuff_def ComBuffer_new_def getCapacity_def) (simp add: FW_COM_BUFFER_MAX_SIZE_def)

lemma copy_routed:
  assumes "length (buf_data b) = buf_size b" "0 < buf_size b" "rt_bufferAllocate p (buf_size b) w = Some (copy, w1)"
    and "buf_addr copy \<noteq> 0" "buf_size copy = buf_size b" "buf_size copy \<le> length (buf_memory copy)"
  shows "route_copy p reason out b w = out (copy\<lparr>buf_memory := buf_data b @ drop (buf_size b) (buf_memory copy)\<rparr>) w1"
proof -
  have valid: "isValid copy" using assms(2,4,5) by (simp add: isValid_def)
  have "getSerializer copy = \<lparr>lb_mem = buf_data copy, m_serLoc = 0, m_deserLoc = 0\<rparr>" "length (buf_data copy) = buf_size b"
    using valid assms(5,6) by (simp_all add: getSerializer_def buf_data_def)
  then show ?thesis
    using assms(1,3) valid by (simp add: route_copy_def serializeFrom_bytes_def getCapacity_def store_bytes_def)
qed

lemma copy_refused:
  "rt_bufferAllocate p (buf_size b) w = Some (copy, w1) \<Longrightarrow> \<not> isValid copy \<Longrightarrow>
   route_copy p reason out b w = Some (rt_log p (AllocationError reason) w1)"
  by (simp add: route_copy_def)

end
