(* ===== verification/Uplink.thy ===== *)
theory Uplink
  imports Tc_Frames Buffer_Manager Space_Packets Packet_Router
begin

text \<open>
  The uplink behind the radio, wired as in \<^verbatim>\<open>Svc/Subtopologies/ComCcsds/ComCcsds.fpp\<close>: the frame accumulator takes its
  buffers from the communication buffer manager and sends frames to the telecommand deframer; their data go to the space packet
  deframer, which checks the sequence count, and to the router, which passes commands and copies of files on. Every packet goes
  the same way back, to the manager; the copies of files stay out until the file uplink returns them.
\<close>

section \<open>The connections\<close>

text \<open>What the router hands out: commands for the dispatcher, files for the file uplink, and its events.\<close>

datatype uplink_output = Command_out bytes | File_out bytes | Router_event router_event

datatype uplink_report = Tc_event tc_event | Apid_event apid_event | Packet_length u16 nat | Frame_length nat | No_buffer

record uplink =
  up_pool :: BufferManager
  up_counts :: apid_table
  up_trace :: "uplink_output list"
  up_files :: "Fw_Buffer list"
  up_reports :: "uplink_report list"

definition uplink_start :: "BufferManager \<Rightarrow> uplink" where
  "uplink_start m = \<lparr>up_pool = m, up_counts = ApidManager_new, up_trace = [], up_files = [], up_reports = []\<rparr>"

definition add_report :: "uplink_report \<Rightarrow> uplink \<Rightarrow> uplink" where
  "add_report e w = w\<lparr>up_reports := up_reports w @ [e]\<rparr>"

definition uplink_deallocate :: "Fw_Buffer \<Rightarrow> uplink \<Rightarrow> uplink option" where
  "uplink_deallocate b w = map_option (\<lambda>m. w\<lparr>up_pool := m\<rparr>) (bufferSendIn b (up_pool w))"

definition uplink_allocate :: "nat \<Rightarrow> uplink \<Rightarrow> (Fw_Buffer \<times> uplink) option" where
  "uplink_allocate n w = map_option (\<lambda>(b, m). (b, w\<lparr>up_pool := m\<rparr>)) (bufferGetCallee n (up_pool w))"

text \<open>The way back: through the space packet deframer, the telecommand deframer and the accumulator to the manager.\<close>

definition uplink_return :: "Fw_Buffer \<Rightarrow> FrameContext \<Rightarrow> uplink \<Rightarrow> uplink option" where
  "uplink_return b ctx w = accumulator_dataReturnIn \<lparr>acc_bufferAllocate = uplink_allocate,
     acc_bufferDeallocate = uplink_deallocate, acc_dataOut = \<lambda>_ _. Some, acc_dataReturnOut = \<lambda>_ _. Some,
     acc_FrameDetectionSizeError = \<lambda>_ w. w, acc_NoBufferAvailable = \<lambda>w. w\<rparr> b ctx w"

definition return_ports :: "uplink tc_ports" where
  "return_ports = \<lparr>tc_dataOut = \<lambda>_ _. Some, tc_dataReturnOut = uplink_return, tc_errorNotify = None,
     tc_log = \<lambda>e. add_report (Tc_event e)\<rparr>"

definition unpack_return_ports :: "uplink unpack_ports" where
  "unpack_return_ports = \<lparr>sd_dataOut = \<lambda>_ _. Some, sd_dataReturnOut = TcDeframer_dataReturnIn return_ports,
     sd_validateApidSeqCount = \<lambda>apid n w. do {
       (r, t, es) \<leftarrow> validateApidSeqCountIn apid n (up_counts w);
       Some (r, fold (\<lambda>e. add_report (Apid_event e)) es (w\<lparr>up_counts := t\<rparr>))
     },
     sd_errorNotify = None, sd_InvalidLength = \<lambda>n m. add_report (Packet_length n m)\<rparr>"

text \<open>The way up.\<close>

definition uplink_router :: "uplink router_ports" where
  "uplink_router = \<lparr>rt_commandOut = \<lambda>com _ w. Some (w\<lparr>up_trace := up_trace w @ [Command_out (written com)]\<rparr>),
     rt_fileOut = Some (\<lambda>b w. Some (w\<lparr>up_trace := up_trace w @ [File_out (buf_data b)], up_files := up_files w @ [b]\<rparr>)),
     rt_unknownDataOut = None, rt_bufferAllocate = uplink_allocate, rt_bufferDeallocate = uplink_deallocate,
     rt_dataReturnOut = SpacePacketDeframer_dataReturnIn unpack_return_ports,
     rt_log = \<lambda>e w. w\<lparr>up_trace := up_trace w @ [Router_event e]\<rparr>\<rparr>"

text \<open>The parameter \<open>g\<close> is what lies on the stack where the router puts its communication buffer.\<close>

definition uplink_unpack :: "(uplink \<Rightarrow> nat \<Rightarrow> u8) \<Rightarrow> uplink unpack_ports" where
  "uplink_unpack g = unpack_return_ports\<lparr>sd_dataOut := \<lambda>b ctx w. FprimeRouter_dataIn uplink_router (g w) b ctx w\<rparr>"

definition deframer_ports :: "(uplink \<Rightarrow> nat \<Rightarrow> u8) \<Rightarrow> uplink tc_ports" where
  "deframer_ports g = return_ports\<lparr>tc_dataOut := SpacePacketDeframer_dataIn (uplink_unpack g)\<rparr>"

definition uplink_ports :: "(uplink \<Rightarrow> nat \<Rightarrow> u8) \<Rightarrow> TcDeframer \<Rightarrow> uplink accumulator_ports" where
  "uplink_ports g d = \<lparr>acc_bufferAllocate = uplink_allocate, acc_bufferDeallocate = uplink_deallocate,
     acc_dataOut = TcDeframer_dataIn (deframer_ports g) d, acc_dataReturnOut = \<lambda>b _. uplink_deallocate b,
     acc_FrameDetectionSizeError = \<lambda>n. add_report (Frame_length n),
     acc_NoBufferAvailable = add_report No_buffer\<rparr>"

text \<open>
  One packet of the receive queue in \<^verbatim>\<open>LoRaRadioAdapter::run_handler\<close>, with its ports connected to the manager and the
  accumulator; and the return of the \<open>k\<close>-th file that is out. A history is a sequence of both.
\<close>

definition radio_packet :: "(uplink \<Rightarrow> nat \<Rightarrow> u8) \<Rightarrow> TcDeframer \<Rightarrow> bytes \<Rightarrow> CircularBuffer \<Rightarrow> uplink \<Rightarrow> (CircularBuffer \<times> uplink) option" where
  "radio_packet g d payload r w = do {
     let needed = length payload;
     (buffer, w) \<leftarrow> uplink_allocate needed w;
     if \<not> isValid buffer \<or> buf_size buffer < needed then
       (if isValid buffer then map_option (Pair r) (uplink_deallocate buffer w) else Some (r, w))
     else accumulator_dataIn tc_detect (uplink_ports g d)
       (buffer\<lparr>buf_memory := payload @ drop needed (buf_memory buffer), buf_size := needed\<rparr>) FrameContext_default r w
   }"

definition file_returned :: "nat \<Rightarrow> uplink \<Rightarrow> uplink option" where
  "file_returned k w =
     (if k < length (up_files w) then FprimeRouter_fileBufferReturnIn uplink_router (up_files w ! k)
        (w\<lparr>up_files := take k (up_files w) @ drop (Suc k) (up_files w)\<rparr>)
      else Some w)"

datatype uplink_step = Radio bytes | File_returned nat

fun run_uplink :: "(uplink \<Rightarrow> nat \<Rightarrow> u8) \<Rightarrow> TcDeframer \<Rightarrow> uplink_step list \<Rightarrow> CircularBuffer \<Rightarrow> uplink \<Rightarrow> (CircularBuffer \<times> uplink) option" where
  "run_uplink g d [] r w = Some (r, w)"
| "run_uplink g d (Radio payload # steps) r w = do {
     (r, w) \<leftarrow> radio_packet g d payload r w;
     run_uplink g d steps r w
   }"
| "run_uplink g d (File_returned k # steps) r w = do {
     w \<leftarrow> file_returned k w;
     run_uplink g d steps r w
   }"

fun packets_of :: "uplink_step list \<Rightarrow> bytes list" where
  "packets_of [] = []"
| "packets_of (Radio payload # steps) = payload # packets_of steps"
| "packets_of (File_returned k # steps) = packets_of steps"

section \<open>Loans\<close>

text \<open>What no operation of the manager changes: its number, and the places and sizes of the memories.\<close>

definition geometry :: "BufferManager \<Rightarrow> u16 \<times> (nat \<times> nat) list" where
  "geometry m = (m_mgrId m, map (\<lambda>s. (ab_memory s, ab_size s)) (slots m))"

lemma geometry_simps [simp]:
  "geometry (mark i b n m) = geometry m" "geometry (m\<lparr>m_highWater := x\<rparr>) = geometry m" "geometry (m\<lparr>m_noBuffs := y\<rparr>) = geometry m"
proof -
  have "map (\<lambda>s. (ab_memory s, ab_size s)) (slots (mark i b n m)) = map (\<lambda>s. (ab_memory s, ab_size s)) (slots m)"
    by (rule nth_equalityI; simp) (metis slots_fixed(1,2) slots_mark)
  then show "geometry (mark i b n m) = geometry m" by (simp add: geometry_def)
qed (simp_all add: geometry_def)

lemma shows_slot_geometry: "geometry m = geometry m' \<Longrightarrow> shows_slot m = shows_slot m'"
proof -
  assume g: "geometry m = geometry m'"
  have len: "length (slots m) = length (slots m')"
    using arg_cong [OF g, of "\<lambda>x. length (snd x)"] by (simp add: geometry_def)
  have "(ab_memory (slots m ! i), ab_size (slots m ! i)) = (ab_memory (slots m' ! i), ab_size (slots m' ! i))"
    if "i < length (slots m)" for i
    using arg_cong [OF g, of "\<lambda>x. snd x ! i"] that len by (simp add: geometry_def del: prod.inject)
  then have "shows_slot m i b = shows_slot m' i b" for i b
    using len arg_cong [OF g, of fst] unfolding shows_slot_def geometry_def fst_conv
    by (cases "i < length (slots m)") (simp_all only: prod.inject simp_thms)
  then show ?thesis by (intro ext)
qed

text \<open>The slots outside \<open>L\<close> that are large enough for whatever the ring can hold.\<close>

definition spare :: "u16 \<times> (nat \<times> nat) list \<Rightarrow> nat set \<Rightarrow> nat set" where
  "spare G L = {i. i < length (snd G) \<and> i \<notin> L \<and> frameAccumulatorSize \<le> snd (snd G ! i)}"

lemma spare_insert: "spare G (insert i L) = spare G L - {i}"
  by (auto simp: spare_def)

lemma spare_finite: "finite (spare G L)"
  by (auto simp: spare_def)

text \<open>
  The state of the uplink: the slots \<open>L\<close> are lent to others, every file that is out shows a slot of its own, and nothing else is
  lent.
\<close>

definition up_state :: "u16 \<times> (nat \<times> nat) list \<Rightarrow> nat set \<Rightarrow> uplink \<Rightarrow> bool" where
  "up_state G L w \<longleftrightarrow> pool_ok (up_pool w) \<and> geometry (up_pool w) = G \<and> distinct (map slot_of (up_files w)) \<and>
     L \<inter> slot_of ` set (up_files w) = {} \<and> lent (up_pool w) = L \<union> slot_of ` set (up_files w) \<and>
     (\<forall>b \<in> set (up_files w). shows_slot (up_pool w) (slot_of b) b)"

abbreviation up_lent :: "uplink \<Rightarrow> nat set" where
  "up_lent w \<equiv> lent (up_pool w)"

lemma up_state_updates [simp]:
  "up_state G L (w\<lparr>up_trace := t\<rparr>) = up_state G L w" "up_state G L (w\<lparr>up_reports := es\<rparr>) = up_state G L w"
  "up_state G L (w\<lparr>up_counts := c\<rparr>) = up_state G L w"
  by (simp_all add: up_state_def)

lemma report_simps [simp]:
  "up_pool (add_report e w) = up_pool w" "up_counts (add_report e w) = up_counts w" "up_trace (add_report e w) = up_trace w"
  "up_files (add_report e w) = up_files w" "up_state G L (add_report e w) = up_state G L w"
  by (simp_all add: add_report_def)

lemma slot_of_shows: "pool_ok m \<Longrightarrow> shows_slot m i b \<Longrightarrow> slot_of b = i"
  using context_index(1) [of i "m_numStructs m" "m_mgrId m"] by (simp add: shows_slot_def slot_of_def pool_ok_def)

lemma pool_lends:
  assumes "up_state G L w" "spare G (up_lent w) \<noteq> {}" "n \<le> frameAccumulatorSize"
  shows "\<exists>i b m. uplink_allocate n w = Some (b, w\<lparr>up_pool := m\<rparr>) \<and> i \<notin> up_lent w \<and> lent m = insert i (up_lent w) \<and>
    up_state G (insert i L) (w\<lparr>up_pool := m\<rparr>) \<and> shows_slot m i b \<and> buf_addr b = ab_memory (slots m ! i) \<and>
    buf_addr b \<noteq> 0 \<and> buf_size b = n \<and> n \<le> length (buf_memory b)"
proof -
  let ?m = "up_pool w"
  have ok: "pool_ok ?m" "geometry ?m = G" using assms(1) by (simp_all add: up_state_def)
  obtain j where "j < length (slots ?m)" "j \<notin> lent ?m" "frameAccumulatorSize \<le> ab_size (slots ?m ! j)"
    using assms(2) ok(2) by (auto simp: spare_def geometry_def)
  with assms(3) find_buffer_None [of n "slots ?m" 0] obtain i where i: "find_buffer n (slots ?m) 0 = Some i"
    by (cases "find_buffer n (slots ?m) 0") (fastforce simp: lent_def in_set_conv_nth)+
  note g = get_granted [OF ok(1) i] and s = granted_shows [OF ok(1) get_granted(4,5) [OF ok(1) i]]
  let ?b = "(ab_buff (slots ?m ! i))\<lparr>buf_size := n\<rparr>"
  obtain hw where hw: "bufferGetCallee n ?m = Some (?b, (mark i True (m_currBuffs ?m + 1) ?m)\<lparr>m_highWater := hw\<rparr>)"
    using g(1) by blast
  let ?m' = "(mark i True (m_currBuffs ?m + 1) ?m)\<lparr>m_highWater := hw\<rparr>"
  have "up_state G (insert i L) (w\<lparr>up_pool := ?m'\<rparr>)"
    using g(2,3,6) ok assms(1) by (auto simp: up_state_def)
  moreover have "buf_addr ?b = ab_memory (slots ?m' ! i)"
    using ok(1) g(4) by (simp add: pool_ok_def slot_ok_def)
  moreover have "n \<le> length (buf_memory ?b)"
    using ok(1) g(4,5) by (simp add: pool_ok_def slot_ok_def)
  ultimately show ?thesis
    using hw g(3,6) s by (intro exI [of _ i] exI [of _ ?b] exI [of _ ?m']) (simp add: uplink_allocate_def)
qed

lemma pool_takes:
  assumes "up_state G (insert i L) w" "i \<notin> L" "shows_slot (up_pool w) i b"
  shows "\<exists>m. uplink_deallocate b w = Some (w\<lparr>up_pool := m\<rparr>) \<and> up_state G L (w\<lparr>up_pool := m\<rparr>) \<and> lent m = up_lent w - {i}"
proof -
  have ok: "pool_ok (up_pool w)" "i \<in> up_lent w" "i \<notin> slot_of ` set (up_files w)"
    using assms(1) by (auto simp: up_state_def)
  from send_accepted [OF ok(1,2) assms(3)] ok(3) assms(1,2) show ?thesis
    by (auto simp: uplink_deallocate_def up_state_def)
qed

lemma file_leaves:
  assumes "up_state G (insert i L) w" "i \<notin> L" "shows_slot (up_pool w) i b"
  shows "up_state G L (w\<lparr>up_files := up_files w @ [b]\<rparr>)"
proof -
  have "slot_of b = i" using slot_of_shows [OF _ assms(3)] assms(1) by (simp add: up_state_def)
  with assms show ?thesis by (auto simp: up_state_def)
qed

lemma file_comes_back:
  assumes "up_state G L w"
  shows "\<exists>w'. file_returned k w = Some w' \<and> up_state G L w' \<and> up_trace w' = up_trace w \<and> up_counts w' = up_counts w \<and>
    up_lent w' \<subseteq> up_lent w"
proof (cases "k < length (up_files w)")
  case True
  let ?b = "up_files w ! k" and ?rest = "take k (up_files w) @ drop (Suc k) (up_files w)"
  let ?w = "w\<lparr>up_files := ?rest\<rparr>"
  have files: "up_files w = take k (up_files w) @ ?b # drop (Suc k) (up_files w)" using True by (simp add: id_take_nth_drop)
  have "slot_of ` set (up_files w) = insert (slot_of ?b) (slot_of ` set ?rest)" "set ?rest \<subseteq> set (up_files w)"
    "distinct (map slot_of ?rest)" "slot_of ?b \<notin> slot_of ` set ?rest" "?b \<in> set (up_files w)"
    using assms arg_cong [OF files, of "\<lambda>xs. distinct (map slot_of xs)"] arg_cong [OF files, of set] True
    by (auto simp: up_state_def)
  then have "up_state G (insert (slot_of ?b) L) ?w" "slot_of ?b \<notin> L" "shows_slot (up_pool ?w) (slot_of ?b) ?b"
    using assms unfolding up_state_def by auto
  from pool_takes [OF this] show ?thesis
    using True by (auto simp: file_returned_def FprimeRouter_fileBufferReturnIn_def uplink_router_def)
qed (simp add: file_returned_def assms)

section \<open>Messages\<close>

text \<open>What the router makes of a message, and the message that a frame of the ground carries: one packet, and padding.\<close>

definition message_output :: "u16 \<times> bytes \<Rightarrow> uplink_output list" where
  "message_output m =
     (if fst m = FW_PACKET_COMMAND then
        (if length (snd m) \<le> FW_COM_BUFFER_MAX_SIZE then [Command_out (snd m)]
         else [Router_event (SerializationError FW_SERIALIZE_NO_ROOM_LEFT)])
      else if fst m = FW_PACKET_FILE then [File_out (snd m)] else [])"

definition tc_payload :: "bytes \<Rightarrow> bytes" where
  "tc_payload f = drop 5 (butlast (butlast f))"

definition frame_message :: "bytes \<Rightarrow> u16 \<times> bytes" where
  "frame_message f = (let packet = tc_payload f in
     (of_be16 (packet ! 0) (packet ! 1) AND ApidMask, take (unat (of_be16 (packet ! 4) (packet ! 5) + 1)) (drop 6 packet)))"

lemma tc_payload_frame [simp]: "tc_payload (tc_frame vc sequence data) = data"
  by (simp add: tc_payload_def tc_frame_def Let_def be16_def butlast_append)

lemma frame_message_packet:
  assumes "drop_bit 11 apid = 0" "0 < length data" "length data \<le> 65535"
  shows "frame_message (tc_frame vc sequence (space_packet apid count data @ pad)) = (apid, data)"
proof -
  obtain a b where ab: "be16 (apid AND ApidMask) = [a, b]" by (simp add: be16_def)
  obtain c d where cd: "be16 (push_bit 14 0x3 OR (count AND SeqCountMask)) = [c, d]" by (simp add: be16_def)
  obtain e f where ef: "be16 (of_nat (length data - 1)) = [e, f]" by (simp add: be16_def)
  have "space_packet apid count data @ pad = a # b # c # d # e # f # data @ pad"
    using ab cd ef by (simp add: space_packet_def SpacePacketHeader_def)
  then show ?thesis
    using of_be16_be16 [OF ab] of_be16_be16 [OF ef] length_field [OF assms(2,3)] apid_field [OF assms(1)]
    by (simp add: frame_message_def Let_def numeral_eq_Suc and.assoc)
qed

text \<open>The frames the chain passes on, for a deframer with settings \<open>d\<close>.\<close>

definition carries :: "TcDeframer \<Rightarrow> bytes \<Rightarrow> bool" where
  "carries d f \<longleftrightarrow> (\<exists>vc sequence apid count data pad. f = tc_frame vc sequence (space_packet apid count data @ pad) \<and>
     0 < length data \<and> length data + length pad \<le> 1011 \<and> drop_bit 11 apid = 0 \<and> vc < 64 \<and> (m_acceptAllVcid d \<or> m_vcId d = ucast vc))"

definition is_file :: "bytes \<Rightarrow> bool" where
  "is_file f \<longleftrightarrow> fst (frame_message f) = FW_PACKET_FILE"

text \<open>
  The uplink can take the frames \<open>fs\<close>: there are \<open>n\<close> buffers and one for every file, and the table of sequence counts has room for every
  application.
\<close>

definition uplink_ready :: "nat \<Rightarrow> TcDeframer \<Rightarrow> u16 \<times> (nat \<times> nat) list \<Rightarrow> nat set \<Rightarrow> bytes list \<Rightarrow> uplink \<Rightarrow> bool" where
  "uplink_ready n d G L fs w \<longleftrightarrow> up_state G L w \<and> list_all (carries d) fs \<and>
     n + length (filter is_file fs) \<le> card (spare G (up_lent w)) \<and>
     table_ok (up_counts w) \<and> card (tracked (up_counts w) \<union> fst ` frame_message ` set fs) \<le> MAX_TRACKED_APIDS"

section \<open>The router in its place\<close>

lemma card_spare_insert: "card (spare G (insert i L)) \<ge> card (spare G L) - 1"
  by (cases "i \<in> spare G L") (simp_all add: spare_insert spare_finite)

lemma routed:
  assumes "up_state G (insert i L) w" "i \<notin> L" "buf_addr b \<noteq> 0" "length (buf_data b) = buf_size b" "0 < buf_size b"
    and "ctx_apid ctx = FW_PACKET_FILE \<longrightarrow> spare G (up_lent w) \<noteq> {} \<and> buf_size b \<le> frameAccumulatorSize"
    and "shows_slot (up_pool w) i b"
  shows "\<exists>w'. FprimeRouter_dataIn uplink_router garbage b ctx w = Some w' \<and> up_state G L w' \<and>
    up_trace w' = up_trace w @ message_output (ctx_apid ctx, buf_data b) \<and> up_counts w' = up_counts w \<and>
    card (spare G (up_lent w - {i})) \<le> card (spare G (up_lent w')) + (if ctx_apid ctx = FW_PACKET_FILE then 1 else 0)"
proof -
  let ?effect = "if ctx_apid ctx = FW_PACKET_COMMAND then route_command uplink_router garbage b w
    else if ctx_apid ctx = FW_PACKET_FILE then (case rt_fileOut uplink_router of None \<Rightarrow> Some w | Some out \<Rightarrow> route_copy uplink_router FILE_UPLINK out b w)
    else (case rt_unknownDataOut uplink_router of None \<Rightarrow> Some w | Some out \<Rightarrow> route_copy uplink_router USER_BUFFER (\<lambda>b. out b ctx) b w)"
  have "\<exists>w1. ?effect = Some w1 \<and> up_state G (insert i L) w1 \<and> up_trace w1 = up_trace w @ message_output (ctx_apid ctx, buf_data b) \<and>
      up_counts w1 = up_counts w \<and> shows_slot (up_pool w1) i b \<and> geometry (up_pool w1) = geometry (up_pool w) \<and>
      card (spare G (up_lent w - {i})) \<le> card (spare G (up_lent w1 - {i})) + (if ctx_apid ctx = FW_PACKET_FILE then 1 else 0)"
  proof (cases "ctx_apid ctx = FW_PACKET_FILE")
    case False
    then show ?thesis
      using assms(1,3,4,7) command_routed [OF assms(3,4), of uplink_router garbage w]
      by (auto simp: uplink_router_def message_output_def written_def FW_PACKET_FILE_def FW_PACKET_COMMAND_def)
  next
    case isfile: True
    obtain j c m where loan: "uplink_allocate (buf_size b) w = Some (c, w\<lparr>up_pool := m\<rparr>)" "j \<notin> up_lent w" "lent m = insert j (up_lent w)"
      "up_state G (insert j (insert i L)) (w\<lparr>up_pool := m\<rparr>)" "shows_slot m j c" "buf_addr c \<noteq> 0" "buf_size c = buf_size b"
      "buf_size b \<le> length (buf_memory c)"
      using pool_lends [OF assms(1)] assms(6) isfile by metis
    let ?c = "c\<lparr>buf_memory := buf_data b @ drop (buf_size b) (buf_memory c)\<rparr>"
    let ?w = "w\<lparr>up_pool := m, up_files := up_files w @ [?c], up_trace := up_trace w @ [File_out (buf_data b)]\<rparr>"
    have data: "buf_data ?c = buf_data b" using loan(7) assms(4) by (simp add: buf_data_def)
    have "rt_bufferAllocate uplink_router (buf_size b) w = Some (c, w\<lparr>up_pool := m\<rparr>)"
      using loan(1) by (simp add: uplink_router_def)
    note copy = copy_routed [OF assms(4,5) this loan(6,7), of FILE_UPLINK]
    have "?effect = Some ?w"
      using isfile copy loan(7,8) data by (simp add: FW_PACKET_FILE_def FW_PACKET_COMMAND_def) (simp add: uplink_router_def)
    moreover have "j \<notin> insert i L" using loan(2) assms(1) by (auto simp: up_state_def)
    then have "up_state G (insert i L) (w\<lparr>up_pool := m, up_files := up_files w @ [?c]\<rparr>)"
      using file_leaves [OF loan(4)] loan(5) by (simp add: shows_slot_def)
    then have "up_state G (insert i L) ?w" by (simp add: up_state_def)
    moreover have "geometry m = geometry (up_pool w)" using loan(4) assms(1) by (simp add: up_state_def)
    moreover from this have "shows_slot m i b" using assms(7) shows_slot_geometry by metis
    moreover have "lent m - {i} = insert j (up_lent w - {i})"
      using loan(3) \<open>j \<notin> insert i L\<close> by auto
    then have "card (spare G (up_lent w - {i})) \<le> card (spare G (lent m - {i})) + 1"
      using card_spare_insert [of G "up_lent w - {i}" j] by simp
    ultimately show ?thesis
      using isfile by (auto simp: message_output_def FW_PACKET_FILE_def FW_PACKET_COMMAND_def)
  qed
  then obtain w1 where w1: "?effect = Some w1" "up_state G (insert i L) w1" "up_trace w1 = up_trace w @ message_output (ctx_apid ctx, buf_data b)"
    "up_counts w1 = up_counts w" "shows_slot (up_pool w1) i b"
    "card (spare G (up_lent w - {i})) \<le> card (spare G (up_lent w1 - {i})) + (if ctx_apid ctx = FW_PACKET_FILE then 1 else 0)"
    by blast
  obtain m where m: "uplink_deallocate b w1 = Some (w1\<lparr>up_pool := m\<rparr>)" "up_state G L (w1\<lparr>up_pool := m\<rparr>)" "lent m = up_lent w1 - {i}"
    using pool_takes [OF w1(2) assms(2) w1(5)] by blast
  have "rt_dataReturnOut uplink_router b ctx w1 = Some (w1\<lparr>up_pool := m\<rparr>)"
    using m(1) by (simp add: uplink_router_def SpacePacketDeframer_dataReturnIn_def unpack_return_ports_def TcDeframer_dataReturnIn_def
        return_ports_def uplink_return_def accumulator_dataReturnIn_def)
  then show ?thesis
    using w1 m(2,3) by (simp add: FprimeRouter_dataIn_def Let_def)
qed

section \<open>The whole chain\<close>

text \<open>The packet in a borrowed buffer still shows the slot it was borrowed from.\<close>

definition packet_field :: "Fw_Buffer \<Rightarrow> nat \<Rightarrow> Fw_Buffer" where
  "packet_field b n = b\<lparr>buf_addr := buf_addr b + 11, buf_memory := drop 11 (buf_memory b), buf_size := n\<rparr>"

lemma packet_field_shows:
  assumes "shows_slot m i b" "buf_addr b = ab_memory (slots m ! i)" "n + 11 < buf_size b"
  shows "shows_slot m i (packet_field (b\<lparr>buf_memory := mem, buf_size := k\<rparr>) n)"
  using assms by (auto simp: shows_slot_def packet_field_def)

lemma report_fold [simp]:
  "up_pool (fold (\<lambda>e. add_report (f e)) es w) = up_pool w" "up_counts (fold (\<lambda>e. add_report (f e)) es w) = up_counts w"
  "up_trace (fold (\<lambda>e. add_report (f e)) es w) = up_trace w" "up_files (fold (\<lambda>e. add_report (f e)) es w) = up_files w"
  "up_state G L (fold (\<lambda>e. add_report (f e)) es w) = up_state G L w"
  by (induction es arbitrary: w) simp_all

text \<open>A frame from the telecommand deframer to the router and back.\<close>

lemma frame_passes:
  assumes "m_spacecraftId d = SpacecraftId" "0 < length data" "length data + length pad \<le> 1011" "drop_bit 11 apid = 0" "vc < 64"
      "m_acceptAllVcid d \<or> m_vcId d = ucast vc"
    and "up_state G (insert i L) w" "i \<notin> L" "apid = FW_PACKET_FILE \<longrightarrow> spare G (up_lent w) \<noteq> {}"
    and "shows_slot (up_pool w) i b" "buf_addr b = ab_memory (slots (up_pool w) ! i)" "buf_addr b \<noteq> 0"
      "f = tc_frame vc sequence (space_packet apid count data @ pad)" "buf_size b = length f" "length f \<le> length (buf_memory b)"
    and "table_ok (up_counts w)" "apid \<in> tracked (up_counts w) \<or> card (tracked (up_counts w)) < MAX_TRACKED_APIDS"
  shows "\<exists>w'. TcDeframer_dataIn (deframer_ports g) d (b\<lparr>buf_memory := f @ drop (length f) (buf_memory b), buf_size := length f\<rparr>) ctx w = Some w' \<and>
    up_state G L w' \<and> up_trace w' = up_trace w @ message_output (apid, data) \<and>
    table_ok (up_counts w') \<and> tracked (up_counts w') = insert apid (tracked (up_counts w)) \<and>
    card (spare G (up_lent w - {i})) \<le> card (spare G (up_lent w')) + (if apid = FW_PACKET_FILE then 1 else 0)"
proof -
  let ?b = "b\<lparr>buf_memory := f @ drop (length f) (buf_memory b), buf_size := length f\<rparr>"
  let ?packet = "space_packet apid count data @ pad"
  let ?d = "data_field ?b (length ?packet)" and ?p = "packet_field ?b (length data)"
  have "length ?packet \<le> 1017" "0 < length ?packet" "buf_size ?b = length ?packet + 7" "buf_data ?b = tc_frame vc sequence ?packet"
    using assms(3,13) by (simp_all add: buf_data_def)
  note field = deframe_frame [OF this(2,1) assms(5,1,6) this(3,4)]
  have d: "buf_addr ?d \<noteq> 0" "buf_size ?d \<le> length (buf_memory ?d)" "buf_size ?d = length ?packet"
    using assms(13) by (simp_all add: data_field_def)
  let ?r = "count AND SeqCountMask"
  have "?r < 2 ^ 14" unfolding SeqCountMask_def
    by (rule le_less_trans [OF word_and_le1]) simp
  then obtain t es where t: "validateApidSeqCountIn apid ?r (up_counts w) = Some (?r, t, es)" "table_ok t"
    "tracked t = insert apid (tracked (up_counts w))"
    using validate_received [OF assms(16) apid_valid [OF assms(4)], of ?r] assms(17) by auto
  let ?w = "fold (\<lambda>e. add_report (Apid_event e)) es (w\<lparr>up_counts := t\<rparr>)"
  let ?ctx = "ctx\<lparr>ctx_apid := apid, ctx_sequenceCount := ?r\<rparr>"
  have "sd_validateApidSeqCount (uplink_unpack g) apid ?r w = Some (?r, ?w)"
    using t(1) by (simp add: uplink_unpack_def unpack_return_ports_def)
  note unpacked = deframer_packet [OF d(1,2) field(2) assms(2) _ assms(4) this]
  have place: "?d\<lparr>buf_addr := buf_addr ?d + 6, buf_memory := drop 6 (buf_memory ?d), buf_size := length data\<rparr> = ?p"
    by (simp add: data_field_def packet_field_def add.commute del: drop_append)
  have content: "buf_data ?p = data"
    using unpacked(2) assms(3) by (simp add: buf_data_def packet_field_def data_field_def del: drop_append)
  have "shows_slot (up_pool ?w) i ?p"
    using packet_field_shows [OF assms(10,11), of "length data"] assms(13,14) by simp
  moreover have "up_state G (insert i L) ?w" using assms(7) by simp
  moreover have "length (buf_data ?p) = buf_size ?p" "0 < buf_size ?p" "buf_addr ?p \<noteq> 0" "buf_size ?p \<le> frameAccumulatorSize"
    using content assms(2,3,12) by (simp_all add: packet_field_def frameAccumulatorSize_def)
  ultimately obtain w' where "FprimeRouter_dataIn uplink_router (g ?w) ?p ?ctx ?w = Some w'" "up_state G L w'"
    "up_trace w' = up_trace ?w @ message_output (ctx_apid ?ctx, buf_data ?p)" "up_counts w' = up_counts ?w"
    "card (spare G (up_lent ?w - {i})) \<le> card (spare G (up_lent w')) + (if ctx_apid ?ctx = FW_PACKET_FILE then 1 else 0)"
    using routed [of G i L ?w ?p ?ctx "g ?w"] assms(8,9) by auto
  moreover have "TcDeframer_dataIn (deframer_ports g) d ?b ctx w = FprimeRouter_dataIn uplink_router (g ?w) ?p ?ctx ?w"
    unfolding field(1) using unpacked(1) assms(3) place by (simp add: deframer_ports_def) (simp add: uplink_unpack_def)
  ultimately show ?thesis
    using t(2,3) content by simp
qed

lemma uplink_sink:
  assumes "m_spacecraftId d = SpacecraftId" "0 < n"
  shows "frame_sink (uplink_ports g d) (uplink_ready n d G L) (message_output \<circ> frame_message) up_trace frameAccumulatorSize"
proof
  fix w f fs
  assume ready: "uplink_ready n d G L (f # fs) w" and size: "length f \<le> frameAccumulatorSize"
  then obtain vc sequence apid count data pad where f: "f = tc_frame vc sequence (space_packet apid count data @ pad)" "0 < length data"
    "length data + length pad \<le> 1011" "drop_bit 11 apid = 0" "vc < 64" "m_acceptAllVcid d \<or> m_vcId d = ucast vc"
    by (auto simp: uplink_ready_def carries_def)
  have message: "frame_message f = (apid, data)"
    unfolding f(1) using f(2,3,4) by (intro frame_message_packet) simp_all
  let ?files = "length (filter is_file (f # fs))"
  have state: "up_state G L w" "n + ?files \<le> card (spare G (up_lent w))" "table_ok (up_counts w)"
    "card (tracked (up_counts w) \<union> fst ` frame_message ` set (f # fs)) \<le> MAX_TRACKED_APIDS" "list_all (carries d) fs"
    using ready by (simp_all add: uplink_ready_def)
  then have "spare G (up_lent w) \<noteq> {}" using assms(2) by auto
  from pool_lends [OF state(1) this size]
  obtain i b m where loan: "uplink_allocate (length f) w = Some (b, w\<lparr>up_pool := m\<rparr>)" "i \<notin> up_lent w" "lent m = insert i (up_lent w)"
    "up_state G (insert i L) (w\<lparr>up_pool := m\<rparr>)" "shows_slot m i b" "buf_addr b = ab_memory (slots m ! i)" "buf_addr b \<noteq> 0"
    "buf_size b = length f" "length f \<le> length (buf_memory b)"
    by metis
  let ?w = "w\<lparr>up_pool := m\<rparr>"
  have left: "?files \<le> card (spare G (up_lent ?w))"
    using state(2) card_spare_insert [of G "up_lent w" i] loan(3) assms(2) by simp
  have "i \<notin> L" using loan(2) state(1) by (auto simp: up_state_def)
  moreover have "apid = FW_PACKET_FILE \<longrightarrow> spare G (up_lent ?w) \<noteq> {}"
    using left message by (auto simp: is_file_def)
  moreover have "apid \<in> tracked (up_counts ?w) \<or> card (tracked (up_counts ?w)) < MAX_TRACKED_APIDS"
    using room_for [of apid "fst ` frame_message ` set (f # fs)" "up_counts w"] state(4) message by auto
  moreover have "shows_slot (up_pool ?w) i b" "buf_addr b = ab_memory (slots (up_pool ?w) ! i)" "table_ok (up_counts ?w)"
    using loan(5,6) state(3) by simp_all
  ultimately obtain w' where w': "TcDeframer_dataIn (deframer_ports g) d (b\<lparr>buf_memory := f @ drop (length f) (buf_memory b), buf_size := length f\<rparr>)
      FrameContext_default ?w = Some w'" "up_state G L w'" "up_trace w' = up_trace ?w @ message_output (apid, data)"
    "table_ok (up_counts w')" "tracked (up_counts w') = insert apid (tracked (up_counts w))"
    "card (spare G (up_lent ?w - {i})) \<le> card (spare G (up_lent w')) + (if apid = FW_PACKET_FILE then 1 else 0)"
    using frame_passes [OF assms(1) f(2,3,4,5,6) loan(4) _ _ _ _ loan(7) f(1) loan(8,9), of g FrameContext_default] by auto
  have "up_lent ?w - {i} = up_lent w" using loan(2,3) by simp
  then have "n + length (filter is_file fs) \<le> card (spare G (up_lent w'))"
    using w'(6) state(2) message by (simp add: is_file_def split: if_splits)
  then have "uplink_ready n d G L fs w'"
    using w'(2,4,5) state(4,5) message by (simp add: uplink_ready_def)
  moreover have "isValid b" using loan(7,8) f(1) by (simp add: isValid_def)
  ultimately show "\<exists>b w1 w2. acc_bufferAllocate (uplink_ports g d) (length f) w = Some (b, w1) \<and> isValid b \<and>
      acc_dataOut (uplink_ports g d) (b\<lparr>buf_memory := f @ drop (length f) (buf_memory b), buf_size := length f\<rparr>)
        FrameContext_default w1 = Some w2 \<and> uplink_ready n d G L fs w2 \<and>
      up_trace w2 = up_trace w @ (message_output \<circ> frame_message) f"
    using loan(1) w'(1,3) message
    by (intro exI [of _ b] exI [of _ ?w] exI [of _ w']) (simp add: uplink_ports_def)
qed (simp add: uplink_ports_def uplink_ready_def)

lemma uplink_accumulator:
  assumes "m_spacecraftId d = SpacecraftId" "0 < n"
  shows "accumulator tc_detect tc_decide frameAccumulatorSize (uplink_ports g d) (uplink_ready n d G L) (message_output \<circ> frame_message) up_trace"
  using uplink_sink [OF assms] by (intro accumulator.intro) (rule tc.frame_detector_axioms)

text \<open>The deployment leaves the deframer as its constructor sets it up.\<close>

interpretation up: accumulator tc_detect tc_decide frameAccumulatorSize "uplink_ports g (TcDeframer_new v)"
    "uplink_ready (Suc n) (TcDeframer_new v) G L" "message_output \<circ> frame_message" up_trace for g v n G L
  by (rule uplink_accumulator) (simp_all add: TcDeframer_new_def)

section \<open>Histories\<close>

text \<open>The ring is one of the deployment, and nothing can be detected in it until more bytes come.\<close>

definition ring_waits :: "CircularBuffer \<Rightarrow> bool" where
  "ring_waits r \<longleftrightarrow> ring_ok r \<and> m_store_size r = frameAccumulatorSize \<and>
     scan tc_decide frameAccumulatorSize (contents r) = Some ([], contents r)"

lemma radio_packet_feeds:
  assumes "m_spacecraftId d = SpacecraftId" "ring_waits r" "uplink_ready 2 d G L (fs @ gs) w"
    and "0 < length pkt" "length pkt \<le> frameAccumulatorSize"
    and "feed tc_decide frameAccumulatorSize (contents r) pkt = Some (fs, rest)"
  shows "\<exists>r' w'. radio_packet g d pkt r w = Some (r', w') \<and> ring_waits r' \<and> contents r' = rest \<and>
    uplink_ready 2 d G L gs w' \<and> up_trace w' = up_trace w @ concat (map (message_output \<circ> frame_message) fs)"
proof -
  have state: "up_state G L w" "2 \<le> card (spare G (up_lent w))" using assms(3) by (simp_all add: uplink_ready_def)
  then have "spare G (up_lent w) \<noteq> {}" by auto
  from pool_lends [OF state(1) this assms(5)]
  obtain i b m where loan: "uplink_allocate (length pkt) w = Some (b, w\<lparr>up_pool := m\<rparr>)" "i \<notin> up_lent w" "lent m = insert i (up_lent w)"
    "up_state G (insert i L) (w\<lparr>up_pool := m\<rparr>)" "shows_slot m i b" "buf_addr b \<noteq> 0" "buf_size b = length pkt"
    by metis
  let ?b = "b\<lparr>buf_memory := pkt @ drop (length pkt) (buf_memory b), buf_size := length pkt\<rparr>" and ?w = "w\<lparr>up_pool := m\<rparr>"
  define n where "n = (if i \<in> spare G (up_lent w) then 1 else 2 :: nat)"
  have "n + length (filter is_file (fs @ gs)) \<le> card (spare G (up_lent ?w))"
    using assms(3) loan(3) by (auto simp: uplink_ready_def n_def spare_insert card_Diff_singleton)
  then have ready: "uplink_ready n d G (insert i L) (fs @ gs) ?w"
    using assms(3) loan(4) by (simp add: uplink_ready_def)
  have "buf_data ?b = pkt" by (simp add: buf_data_def)
  with assms(6) have fed: "feed tc_decide frameAccumulatorSize (contents r) (buf_data ?b) = Some (fs, rest)" by simp
  have ring: "ring_ok r" "m_store_size r = frameAccumulatorSize" "scan tc_decide frameAccumulatorSize (contents r) = Some ([], contents r)"
    using assms(2) by (simp_all add: ring_waits_def)
  have "0 < n" by (simp add: n_def)
  obtain r' w' where run: "processBuffer tc_detect (uplink_ports g d) ?b r ?w = Some (r', w')" "ring_waits r'" "contents r' = rest"
    "uplink_ready n d G (insert i L) gs w'" "up_trace w' = up_trace w @ concat (map (message_output \<circ> frame_message) fs)"
    using accumulator.processBuffer_feeds [OF uplink_accumulator [OF assms(1) \<open>0 < n\<close>, of g] ring(1,2) ready ring(3) fed]
    by (auto simp: ring_waits_def)
  have loaned: "up_state G (insert i L) w'" "i \<notin> L" using run(4) loan(2) state(1) by (auto simp: uplink_ready_def up_state_def)
  have "shows_slot m i ?b" using loan(5,7) by (simp add: shows_slot_def)
  moreover have "geometry m = geometry (up_pool w')" using loan(4) loaned(1) by (simp add: up_state_def)
  ultimately have "shows_slot (up_pool w') i ?b" using shows_slot_geometry by metis
  then obtain m' where home: "uplink_deallocate ?b w' = Some (w'\<lparr>up_pool := m'\<rparr>)" "up_state G L (w'\<lparr>up_pool := m'\<rparr>)"
    "lent m' = up_lent w' - {i}"
    using pool_takes [OF loaned] by blast
  have enough: "n + length (filter is_file gs) \<le> card (spare G (up_lent w'))"
    using run(4) by (simp only: uplink_ready_def)
  have lent: "up_lent w' = insert i (lent m')" "i \<notin> lent m'"
    using home(3) loaned(1) by (auto simp: up_state_def)
  have "2 + length (filter is_file gs) \<le> card (spare G (lent m'))"
  proof (cases "i \<in> spare G (up_lent w)")
    case True
    then have "i \<in> spare G (lent m')" using lent(2) by (simp add: spare_def)
    then have "card (spare G (lent m')) = Suc (card (spare G (up_lent w')))"
      unfolding lent(1) spare_insert by (rule card.remove [OF spare_finite, THEN trans]) simp
    with enough True show ?thesis by (simp add: n_def)
  next
    case False
    have "card (spare G (up_lent w')) \<le> card (spare G (lent m'))"
      unfolding lent(1) spare_insert by (intro card_mono spare_finite) blast
    with enough False show ?thesis by (simp add: n_def)
  qed
  then have "uplink_ready 2 d G L gs (w'\<lparr>up_pool := m'\<rparr>)"
    using run(4) home(2) by (simp add: uplink_ready_def)
  moreover have "radio_packet g d pkt r w = Some (r', w'\<lparr>up_pool := m'\<rparr>)"
    using loan(1,6,7) run(1) assms(4) home(1)
    by (simp add: radio_packet_def isValid_def accumulator_dataIn_def) (simp add: uplink_ports_def)
  ultimately show ?thesis using run by auto
qed

lemma file_return_ready:
  assumes "uplink_ready n d G L fs w"
  shows "\<exists>w'. file_returned k w = Some w' \<and> uplink_ready n d G L fs w' \<and> up_trace w' = up_trace w"
proof -
  have "up_state G L w" using assms by (simp add: uplink_ready_def)
  from file_comes_back [OF this, of k] obtain w' where w': "file_returned k w = Some w'" "up_state G L w'" "up_trace w' = up_trace w"
    "up_counts w' = up_counts w" "up_lent w' \<subseteq> up_lent w"
    by blast
  have "spare G (up_lent w) \<subseteq> spare G (up_lent w')" using w'(5) by (auto simp: spare_def)
  from card_mono [OF spare_finite this] assms w' show ?thesis by (auto simp: uplink_ready_def)
qed

lemma uplink_runs:
  assumes "m_spacecraftId d = SpacecraftId" "ring_waits r" "uplink_ready 2 d G L fs w"
    and "\<forall>p \<in> set (packets_of steps). 0 < length p \<and> length p \<le> frameAccumulatorSize"
    and "feed tc_decide frameAccumulatorSize (contents r) (concat (packets_of steps)) = Some (fs, rest)"
  shows "\<exists>r' w'. run_uplink g d steps r w = Some (r', w') \<and> ring_ok r' \<and> contents r' = rest \<and> up_state G L w' \<and>
    up_trace w' = up_trace w @ concat (map (message_output \<circ> frame_message) fs)"
  using assms(2-5)
proof (induction steps arbitrary: r w fs)
  case Nil
  then show ?case by (simp add: ring_waits_def uplink_ready_def)
next
  case (Cons step steps)
  show ?case
  proof (cases step)
    case (Radio p)
    then obtain fs1 rest1 fs2 where f: "feed tc_decide frameAccumulatorSize (contents r) p = Some (fs1, rest1)"
      "feed tc_decide frameAccumulatorSize rest1 (concat (packets_of steps)) = Some (fs2, rest)" "fs = fs1 @ fs2"
      using Cons.prems(4) by (auto simp: feed_append bind_eq_Some_conv)
    have "uplink_ready 2 d G L (fs1 @ fs2) w" "0 < length p" "length p \<le> frameAccumulatorSize"
      using Cons.prems(2,3) f(3) Radio by simp_all
    from radio_packet_feeds [OF assms(1) Cons.prems(1) this f(1)] obtain r1 w1 where one: "radio_packet g d p r w = Some (r1, w1)"
      "ring_waits r1" "contents r1 = rest1" "uplink_ready 2 d G L fs2 w1"
      "up_trace w1 = up_trace w @ concat (map (message_output \<circ> frame_message) fs1)"
      by blast
    with Cons.IH [OF one(2,4)] f Cons.prems(3) Radio show ?thesis by (auto simp: comp_def)
  next
    case (File_returned k)
    obtain w1 where one: "file_returned k w = Some w1" "uplink_ready 2 d G L fs w1" "up_trace w1 = up_trace w"
      using file_return_ready [OF Cons.prems(2), of k] by blast
    with Cons.IH [OF Cons.prems(1) one(2)] Cons.prems(3,4) File_returned show ?thesis by auto
  qed
qed

lemma configured_ring:
  assumes "accumulator_configure allocate frameAccumulatorSize CircularBuffer_new = Some r"
    and "allocate frameAccumulatorSize = (Some memory, frameAccumulatorSize)" "length memory = frameAccumulatorSize"
  shows "ring_waits r" "contents r = []"
  using assms ring_ok_setup [of frameAccumulatorSize memory] tc.scan_Nil
  by (auto simp: accumulator_configure_def frameAccumulatorSize_def ring_waits_def)

text \<open>A message of the ground: the application, the data, and what its packet and frame add.\<close>

record ground_message =
  gm_apid :: u16
  gm_data :: bytes
  gm_count :: u16
  gm_channel :: u8
  gm_sequence :: u8
  gm_padding :: bytes

definition frame_of :: "ground_message \<Rightarrow> bytes" where
  "frame_of m = tc_frame (gm_channel m) (gm_sequence m) (space_packet (gm_apid m) (gm_count m) (gm_data m) @ gm_padding m)"

definition ground_ok :: "TcDeframer \<Rightarrow> ground_message \<Rightarrow> bool" where
  "ground_ok d m \<longleftrightarrow> 0 < length (gm_data m) \<and> length (gm_data m) + length (gm_padding m) \<le> 1011 \<and> drop_bit 11 (gm_apid m) = 0 \<and>
     gm_channel m < 64 \<and> (m_acceptAllVcid d \<or> m_vcId d = ucast (gm_channel m))"

lemma frame_of_message: "ground_ok d m \<Longrightarrow> frame_message (frame_of m) = (gm_apid m, gm_data m)"
  unfolding frame_of_def ground_ok_def by (rule frame_message_packet) simp_all

lemma frame_of_carries: "ground_ok d m \<Longrightarrow> carries d (frame_of m)"
  unfolding frame_of_def ground_ok_def carries_def by blast

lemma frames_of_fed:
  assumes "list_all (ground_ok d) ms"
  shows "feed tc_decide frameAccumulatorSize [] (concat (map frame_of ms)) = Some (map frame_of ms, [])"
proof -
  let ?fs = "map (\<lambda>m. (gm_channel m, gm_sequence m, space_packet (gm_apid m) (gm_count m) (gm_data m) @ gm_padding m)) ms"
  have "list_all (\<lambda>(vc, sequence, data). length data \<le> 1017) ?fs"
    using assms by (auto simp: list_all_iff ground_ok_def)
  from tc_frames_fed [OF this] show ?thesis by (simp add: comp_def frame_of_def [abs_def])
qed

text \<open>
  The uplink can take the messages \<open>ms\<close>: large buffers are free for every file and two more, and the table of sequence counts
  has room for every application.
\<close>

definition uplink_takes :: "TcDeframer \<Rightarrow> nat set \<Rightarrow> ground_message list \<Rightarrow> uplink \<Rightarrow> bool" where
  "uplink_takes d L ms w \<longleftrightarrow> up_state (geometry (up_pool w)) L w \<and> table_ok (up_counts w) \<and> list_all (ground_ok d) ms \<and>
     2 + length (filter (\<lambda>m. gm_apid m = FW_PACKET_FILE) ms) \<le> card (spare (geometry (up_pool w)) (lent (up_pool w))) \<and>
     card (tracked (up_counts w) \<union> gm_apid ` set ms) \<le> MAX_TRACKED_APIDS"

lemma ground_messages_routed:
  assumes "m_spacecraftId d = SpacecraftId" "uplink_takes d L ms w"
    and "accumulator_configure allocate frameAccumulatorSize CircularBuffer_new = Some r"
    and "allocate frameAccumulatorSize = (Some memory, frameAccumulatorSize)" "length memory = frameAccumulatorSize"
    and "concat (packets_of steps) = concat (map frame_of ms)"
    and "\<forall>p \<in> set (packets_of steps). 0 < length p \<and> length p \<le> frameAccumulatorSize"
  shows "\<exists>r' w'. run_uplink g d steps r w = Some (r', w') \<and> ring_ok r' \<and> contents r' = [] \<and>
    up_trace w' = up_trace w @ concat (map (\<lambda>m. message_output (gm_apid m, gm_data m)) ms) \<and> up_state (geometry (up_pool w)) L w'"
proof -
  note ring = configured_ring [OF assms(3,4,5)]
  have ok: "list_all (ground_ok d) ms" using assms(2) by (simp add: uplink_takes_def)
  have message: "frame_message (frame_of m) = (gm_apid m, gm_data m)" "carries d (frame_of m)" if "m \<in> set ms" for m
    using ok that frame_of_message [of d m] frame_of_carries [of d m] by (auto simp: list_all_iff)
  have "filter is_file (map frame_of ms) = map frame_of (filter (\<lambda>m. gm_apid m = FW_PACKET_FILE) ms)"
    using message(1) by (auto simp: filter_map is_file_def intro!: arg_cong [where f = "map frame_of"] filter_cong)
  moreover have "fst ` frame_message ` set (map frame_of ms) = gm_apid ` set ms"
    using message(1) by (force simp: image_iff)
  moreover have "list_all (carries d) (map frame_of ms)" using message(2) by (simp add: list_all_iff)
  ultimately have "uplink_ready 2 d (geometry (up_pool w)) L (map frame_of ms) w"
    using assms(2) by (simp add: uplink_ready_def uplink_takes_def)
  moreover have "feed tc_decide frameAccumulatorSize (contents r) (concat (packets_of steps)) = Some (map frame_of ms, [])"
    using frames_of_fed [OF ok] assms(6) ring(2) by simp
  ultimately obtain r' w' where run: "run_uplink g d steps r w = Some (r', w')" "ring_ok r'" "contents r' = []"
    "up_state (geometry (up_pool w)) L w'" "up_trace w' = up_trace w @ concat (map (message_output \<circ> frame_message) (map frame_of ms))"
    using uplink_runs [OF assms(1) ring(1) _ assms(7)] by blast
  have "map (message_output \<circ> frame_message) (map frame_of ms) = map (\<lambda>m. message_output (gm_apid m, gm_data m)) ms"
    using message(1) by simp
  with run show ?thesis by metis
qed

section \<open>Properties\<close>

text \<open>
  C12: The uplink delivers: whatever packets the radio cuts the stream of frames into, and whenever the file uplink
  returns files, if every packet is one the ring can hold, the ring is as \<^verbatim>\<open>configure\<close> left it, and large buffers are free for
  every file and two more, then the router passes on exactly the commands and the files of the messages, in order, apart from
  commands that are too long, which it reports; the ring is empty again, no assertion of any component fails, and every buffer
  is back but for the files that are out.
\<close>

theorem uplink_delivers:
  assumes "m_spacecraftId d = SpacecraftId"
    and "accumulator_configure allocate frameAccumulatorSize CircularBuffer_new = Some r"
    and "allocate frameAccumulatorSize = (Some memory, frameAccumulatorSize)" "length memory = frameAccumulatorSize"
    and "up_state (geometry (up_pool w)) L w" "table_ok (up_counts w)"
    and "2 + length (filter (\<lambda>m. gm_apid m = FW_PACKET_FILE) ms) \<le> card (spare (geometry (up_pool w)) (lent (up_pool w)))"
    and "card (tracked (up_counts w) \<union> gm_apid ` set ms) \<le> MAX_TRACKED_APIDS"
    and "concat (packets_of steps) = concat (map frame_of ms)" "list_all (ground_ok d) ms"
    and "\<forall>p \<in> set (packets_of steps). 0 < length p \<and> length p \<le> frameAccumulatorSize"
  shows "\<exists>r' w'. run_uplink g d steps r w = Some (r', w') \<and> ring_ok r' \<and> contents r' = [] \<and>
    up_trace w' = up_trace w @ concat (map (\<lambda>m. message_output (gm_apid m, gm_data m)) ms) \<and>
    pool_ok (up_pool w') \<and> lent (up_pool w') = L \<union> slot_of ` set (up_files w') \<and> distinct (map slot_of (up_files w'))"
proof -
  have "uplink_takes d L ms w" using assms(5-8,10) by (simp add: uplink_takes_def)
  from ground_messages_routed [OF assms(1) this assms(2-4,9,11)] show ?thesis by (simp only: up_state_def) blast
qed

text \<open>The configured ring and the manager of the deployment, and one command in two packets.\<close>

definition comms_ring :: CircularBuffer where
  "comms_ring = \<lparr>m_store = Some (replicate 2048 0), m_store_size = 2048, m_head_idx = 0, m_allocated_size = 0, m_high_water_mark = 0\<rparr>"

lemma comms_spare: "50 = length (snd (geometry comms_manager))" "20 \<le> card (spare (geometry comms_manager) {})"
proof -
  have sizes: "map snd (snd (geometry comms_manager)) = replicate 20 2048 @ replicate 30 3000"
    using comms_manager_setup(4) by (simp add: geometry_def comp_def)
  from arg_cong [OF this, of length] show len: "50 = length (snd (geometry comms_manager))" by simp
  have "snd (snd (geometry comms_manager) ! i) = 2048" if "i < 20" for i
    using arg_cong [OF sizes, of "\<lambda>xs. xs ! i"] len that by (simp add: nth_append)
  then have "{..<20} \<subseteq> spare (geometry comms_manager) {}"
    using len by (auto simp: spare_def frameAccumulatorSize_def)
  from card_mono [OF spare_finite this] show "20 \<le> card (spare (geometry comms_manager) {})" by simp
qed

definition bench_message :: ground_message where
  "bench_message = \<lparr>gm_apid = FW_PACKET_COMMAND, gm_data = [0, 0, 0, 1], gm_count = 0, gm_channel = 1, gm_sequence = 0, gm_padding = []\<rparr>"

lemma bench_setup:
  "accumulator_configure (\<lambda>n. (Some (replicate n 0), n)) frameAccumulatorSize CircularBuffer_new = Some comms_ring"
  "ground_ok (TcDeframer_new 0) bench_message" "up_state (geometry comms_manager) {} (uplink_start comms_manager)"
  using comms_manager_setup(2,3)
  by (simp_all add: accumulator_configure_def CircularBuffer_setup_def CircularBuffer_new_def comms_ring_def frameAccumulatorSize_def
      ground_ok_def bench_message_def TcDeframer_new_def FW_PACKET_COMMAND_def up_state_def uplink_start_def)

theorem uplink_delivers_witness:
  "\<exists>r' w'. run_uplink (\<lambda>_ _. 0) (TcDeframer_new 0) [Radio (take 4 (frame_of bench_message)), File_returned 0, Radio (drop 4 (frame_of bench_message))]
     comms_ring (uplink_start comms_manager) = Some (r', w') \<and> contents r' = [] \<and> up_trace w' = [Command_out [0, 0, 0, 1]]"
proof -
  let ?w = "uplink_start comms_manager"
  have len: "length (frame_of bench_message) = 17" by (simp add: frame_of_def bench_message_def)
  then have parts: "frame_of bench_message \<noteq> []" "4 < length (frame_of bench_message)" by auto
  have "up_state (geometry (up_pool ?w)) {} ?w" using bench_setup(3) by (simp add: uplink_start_def)
  moreover have "2 + length (filter (\<lambda>m. gm_apid m = FW_PACKET_FILE) [bench_message]) \<le> card (spare (geometry (up_pool ?w)) (lent (up_pool ?w)))"
    using comms_spare(2) comms_manager_setup(3)
    by (simp add: bench_message_def uplink_start_def FW_PACKET_FILE_def FW_PACKET_COMMAND_def)
  ultimately show ?thesis
    using bench_setup(1,2) uplink_delivers [where d = "TcDeframer_new 0" and r = comms_ring and w = ?w and L = "{}" and ms = "[bench_message]" and g = "\<lambda>_ _. 0"
        and allocate = "\<lambda>n. (Some (replicate n 0), n)" and memory = "replicate frameAccumulatorSize 0"
        and steps = "[Radio (take 4 (frame_of bench_message)), File_returned 0, Radio (drop 4 (frame_of bench_message))]"] parts len
    by (simp add: TcDeframer_new_def uplink_start_def frameAccumulatorSize_def MAX_TRACKED_APIDS_def message_output_def bench_message_def
        FW_COM_BUFFER_MAX_SIZE_def del: run_uplink.simps) blast
qed

text \<open>An empty packet borrows a buffer of size 0 that is not valid: the adapter drops it and does not give it back.\<close>

lemma empty_packet_step:
  assumes "pool_ok (up_pool w)" "card (up_lent w) < length (slots (up_pool w))"
  shows "\<exists>w'. radio_packet g d [] r w = Some (r, w') \<and> pool_ok (up_pool w') \<and> length (slots (up_pool w')) = length (slots (up_pool w)) \<and>
    card (up_lent w') = Suc (card (up_lent w))"
proof -
  let ?m = "up_pool w"
  have finite: "finite (up_lent w)" "up_lent w \<subseteq> {..<length (slots ?m)}" using lent_bounds(1) [of ?m] by (auto simp: lent_def)
  then have "up_lent w \<noteq> {..<length (slots ?m)}" using assms(2) by auto
  then obtain i where "i < length (slots ?m)" "i \<notin> up_lent w" using finite(2) by auto
  then have "slots ?m ! i \<in> set (slots ?m)" "\<not> ab_allocated (slots ?m ! i)" by (auto simp: lent_def)
  with find_buffer_None [of 0 "slots ?m" 0] obtain j where j: "find_buffer 0 (slots ?m) 0 = Some j" by fastforce
  note g = get_granted [OF assms(1) j]
  let ?m' = "\<lambda>hw. (mark j True (m_currBuffs ?m + 1) ?m)\<lparr>m_highWater := hw\<rparr>"
  obtain hw where "bufferGetCallee 0 ?m = Some ((ab_buff (slots ?m ! j))\<lparr>buf_size := 0\<rparr>, ?m' hw)"
    using g(1) by blast
  then have "radio_packet g d [] r w = Some (r, w\<lparr>up_pool := ?m' hw\<rparr>)"
    by (simp add: radio_packet_def uplink_allocate_def isValid_def)
  with g(2,3,6) finite(1) show ?thesis by simp
qed

lemma empty_packets_lend:
  assumes "pool_ok (up_pool w)" "card (up_lent w) + k \<le> length (slots (up_pool w))"
  shows "\<exists>w'. run_uplink g d (replicate k (Radio [])) r w = Some (r, w') \<and> pool_ok (up_pool w') \<and>
    length (slots (up_pool w')) = length (slots (up_pool w)) \<and> card (up_lent w') = card (up_lent w) + k"
  using assms
proof (induction k arbitrary: w)
  case (Suc k)
  obtain w1 where one: "radio_packet g d [] r w = Some (r, w1)" "pool_ok (up_pool w1)" "length (slots (up_pool w1)) = length (slots (up_pool w))"
    "card (up_lent w1) = Suc (card (up_lent w))"
    using empty_packet_step [OF Suc.prems(1), of g d r] Suc.prems(2) by auto
  with Suc.IH [of w1] Suc.prems(2) show ?case by auto
qed auto

text \<open>
  C32: Empty packets use up the pool: every packet of length 0 that the radio receives takes a buffer out of the pool for good,
  without any effect on the ring, and after as many of them as there were free buffers every request is refused.
\<close>

theorem empty_packets_exhaust_pool:
  assumes "pool_ok (up_pool w)" "k = length (slots (up_pool w)) - card (lent (up_pool w))"
  shows "\<exists>w'. run_uplink g d (replicate k (Radio [])) r w = Some (r, w') \<and> pool_ok (up_pool w') \<and>
    (\<forall>n. \<exists>w''. uplink_allocate n w' = Some (Fw_Buffer_empty, w''))"
proof -
  have "card (lent (up_pool w)) + k \<le> length (slots (up_pool w))"
    using lent_bounds(2) [of "up_pool w"] assms(2) by simp
  from empty_packets_lend [OF assms(1) this, of g d r] obtain w' where run: "run_uplink g d (replicate k (Radio [])) r w = Some (r, w')"
    "pool_ok (up_pool w')" "card (up_lent w') = length (slots (up_pool w'))"
    using lent_bounds(2) [of "up_pool w"] assms(2) by auto
  moreover have "lent (up_pool w') \<subseteq> {..<length (slots (up_pool w'))}" by (auto simp: lent_def)
  ultimately have "lent (up_pool w') = {..<length (slots (up_pool w'))}"
    by (metis card_lessThan card_subset_eq finite_lessThan)
  then have "find_buffer n (slots (up_pool w')) 0 = None" for n
    using find_buffer_Some [of n "slots (up_pool w')" 0] by (cases "find_buffer n (slots (up_pool w')) 0") (auto simp: lent_def)
  then have "\<exists>w''. uplink_allocate n w' = Some (Fw_Buffer_empty, w'')" for n
    using get_refused [OF run(2)] by (simp add: uplink_allocate_def)
  with run(1,2) show ?thesis by blast
qed

theorem empty_packets_exhaust_pool_witness:
  "\<exists>w'. run_uplink (\<lambda>_ _. 0) (TcDeframer_new 0) (replicate 50 (Radio [])) comms_ring (uplink_start comms_manager) = Some (comms_ring, w') \<and>
     (\<forall>n. \<exists>w''. uplink_allocate n w' = Some (Fw_Buffer_empty, w''))"
proof -
  have "50 = length (slots (up_pool (uplink_start comms_manager))) - card (lent (up_pool (uplink_start comms_manager)))"
    using comms_spare(1) comms_manager_setup(3) by (simp add: uplink_start_def geometry_def)
  from empty_packets_exhaust_pool [OF _ this, of "\<lambda>_ _. 0" "TcDeframer_new 0" comms_ring] show ?thesis
    using comms_manager_setup(2) by (auto simp: uplink_start_def)
qed

end
