(* ===== verification/Serial_Values.thy ===== *)
theory Serial_Values
  imports Serialization
begin

text \<open>
  The rest of \<^verbatim>\<open>Fw::LinearBufferBase\<close> (\<^verbatim>\<open>lib/fprime/Fw/Types/Serializable.cpp\<close>): integers of every width in both byte
  orders, booleans, floating point numbers, buffers with and without their length, and the copies between buffers.

  A signed integer is an \<open>int\<close>, a floating point number or a pointer its bit pattern, which is what \<^verbatim>\<open>memcpy\<close> and
  \<^verbatim>\<open>reinterpret_cast\<close> give.
\<close>

section \<open>Integers\<close>

datatype Endianness = BIG | LITTLE

text \<open>The common shape of all operations on integers: the check for room, then the bytes one by one.\<close>

definition put_bytes :: "bytes \<Rightarrow> LinearBuffer \<Rightarrow> SerializeStatus \<times> LinearBuffer" where
  "put_bytes bs s =
     (if m_serLoc s + length bs - 1 \<ge> getCapacity s then (FW_SERIALIZE_NO_ROOM_LEFT, s) else (FW_SERIALIZE_OK, store_bytes bs s))"

definition get_bytes :: "nat \<Rightarrow> (bytes \<Rightarrow> 'a) \<Rightarrow> LinearBuffer \<Rightarrow> SerializeStatus \<times> 'a option \<times> LinearBuffer" where
  "get_bytes n f s = (case deserializeSkip n s of (status, s') \<Rightarrow>
     (status, if status = FW_SERIALIZE_OK then Some (f (take n (drop (m_deserLoc s) (lb_mem s)))) else None, s'))"

definition serialize_U8 :: "u8 \<Rightarrow> LinearBuffer \<Rightarrow> SerializeStatus \<times> LinearBuffer" where
  "serialize_U8 val = put_bytes [val]"

definition serialize_I8 :: "int \<Rightarrow> LinearBuffer \<Rightarrow> SerializeStatus \<times> LinearBuffer" where
  "serialize_I8 val = serialize_U8 (word_of_int val)"

definition U16_bytes :: "Endianness \<Rightarrow> u16 \<Rightarrow> bytes" where
  "U16_bytes mode val = (case mode of
       BIG \<Rightarrow> [ucast (drop_bit 8 val), ucast val]
     | LITTLE \<Rightarrow> [ucast val, ucast (drop_bit 8 val)])"

definition serialize_U16 :: "Endianness \<Rightarrow> u16 \<Rightarrow> LinearBuffer \<Rightarrow> SerializeStatus \<times> LinearBuffer" where
  "serialize_U16 mode val = put_bytes (U16_bytes mode val)"

definition serialize_I16 :: "Endianness \<Rightarrow> int \<Rightarrow> LinearBuffer \<Rightarrow> SerializeStatus \<times> LinearBuffer" where
  "serialize_I16 mode val = serialize_U16 mode (word_of_int val)"

definition U32_bytes :: "Endianness \<Rightarrow> u32 \<Rightarrow> bytes" where
  "U32_bytes mode val = (case mode of
       BIG \<Rightarrow> [ucast (drop_bit 24 val), ucast (drop_bit 16 val), ucast (drop_bit 8 val), ucast val]
     | LITTLE \<Rightarrow> [ucast val, ucast (drop_bit 8 val), ucast (drop_bit 16 val), ucast (drop_bit 24 val)])"

definition serialize_U32 :: "Endianness \<Rightarrow> u32 \<Rightarrow> LinearBuffer \<Rightarrow> SerializeStatus \<times> LinearBuffer" where
  "serialize_U32 mode val = put_bytes (U32_bytes mode val)"

definition serialize_I32 :: "Endianness \<Rightarrow> int \<Rightarrow> LinearBuffer \<Rightarrow> SerializeStatus \<times> LinearBuffer" where
  "serialize_I32 mode val = serialize_U32 mode (word_of_int val)"

definition U64_bytes :: "Endianness \<Rightarrow> u64 \<Rightarrow> bytes" where
  "U64_bytes mode val = (case mode of
       BIG \<Rightarrow> [ucast (drop_bit 56 val), ucast (drop_bit 48 val), ucast (drop_bit 40 val), ucast (drop_bit 32 val),
          ucast (drop_bit 24 val), ucast (drop_bit 16 val), ucast (drop_bit 8 val), ucast val]
     | LITTLE \<Rightarrow> [ucast val, ucast (drop_bit 8 val), ucast (drop_bit 16 val), ucast (drop_bit 24 val),
          ucast (drop_bit 32 val), ucast (drop_bit 40 val), ucast (drop_bit 48 val), ucast (drop_bit 56 val)])"

definition serialize_U64 :: "Endianness \<Rightarrow> u64 \<Rightarrow> LinearBuffer \<Rightarrow> SerializeStatus \<times> LinearBuffer" where
  "serialize_U64 mode val = put_bytes (U64_bytes mode val)"

definition serialize_I64 :: "Endianness \<Rightarrow> int \<Rightarrow> LinearBuffer \<Rightarrow> SerializeStatus \<times> LinearBuffer" where
  "serialize_I64 mode val = serialize_U64 mode (word_of_int val)"

definition serialize_F64 :: "Endianness \<Rightarrow> u64 \<Rightarrow> LinearBuffer \<Rightarrow> SerializeStatus \<times> LinearBuffer" where
  "serialize_F64 mode bits = serialize_U64 mode bits"

definition serialize_F32 :: "Endianness \<Rightarrow> u32 \<Rightarrow> LinearBuffer \<Rightarrow> SerializeStatus \<times> LinearBuffer" where
  "serialize_F32 mode bits = serialize_U32 mode bits"

definition FW_SERIALIZE_TRUE_VALUE :: u8 where "FW_SERIALIZE_TRUE_VALUE = 0xFF"
definition FW_SERIALIZE_FALSE_VALUE :: u8 where "FW_SERIALIZE_FALSE_VALUE = 0x00"

definition serialize_bool :: "bool \<Rightarrow> LinearBuffer \<Rightarrow> SerializeStatus \<times> LinearBuffer" where
  "serialize_bool val = put_bytes [if val then FW_SERIALIZE_TRUE_VALUE else FW_SERIALIZE_FALSE_VALUE]"

definition serialize_pointer :: "Endianness \<Rightarrow> u64 \<Rightarrow> LinearBuffer \<Rightarrow> SerializeStatus \<times> LinearBuffer" where
  "serialize_pointer mode val s =
     (if m_serLoc s + 8 - 1 \<ge> getCapacity s then (FW_SERIALIZE_NO_ROOM_LEFT, s) else serialize_U64 mode val s)"

definition deserialize_U8 :: "LinearBuffer \<Rightarrow> SerializeStatus \<times> u8 option \<times> LinearBuffer" where
  "deserialize_U8 = get_bytes 1 (\<lambda>b. b ! 0)"

definition deserialize_I8 :: "LinearBuffer \<Rightarrow> SerializeStatus \<times> int option \<times> LinearBuffer" where
  "deserialize_I8 = get_bytes 1 (\<lambda>b. sint (b ! 0))"

definition U16_of :: "Endianness \<Rightarrow> bytes \<Rightarrow> u16" where
  "U16_of mode b = (case mode of
       BIG \<Rightarrow> push_bit 0 (ucast (b ! 1)) OR push_bit 8 (ucast (b ! 0))
     | LITTLE \<Rightarrow> push_bit 0 (ucast (b ! 0)) OR push_bit 8 (ucast (b ! 1)))"

definition deserialize_U16 :: "Endianness \<Rightarrow> LinearBuffer \<Rightarrow> SerializeStatus \<times> u16 option \<times> LinearBuffer" where
  "deserialize_U16 mode = get_bytes 2 (U16_of mode)"

definition deserialize_I16 :: "Endianness \<Rightarrow> LinearBuffer \<Rightarrow> SerializeStatus \<times> int option \<times> LinearBuffer" where
  "deserialize_I16 mode s = (case deserialize_U16 mode s of (res, v, s) \<Rightarrow> (res, map_option sint v, s))"

definition U32_of :: "Endianness \<Rightarrow> bytes \<Rightarrow> u32" where
  "U32_of mode b = (case mode of
       BIG \<Rightarrow> push_bit 0 (ucast (b ! 3)) OR push_bit 8 (ucast (b ! 2)) OR push_bit 16 (ucast (b ! 1)) OR push_bit 24 (ucast (b ! 0))
     | LITTLE \<Rightarrow> push_bit 0 (ucast (b ! 0)) OR push_bit 8 (ucast (b ! 1)) OR push_bit 16 (ucast (b ! 2)) OR push_bit 24 (ucast (b ! 3)))"

definition deserialize_U32 :: "Endianness \<Rightarrow> LinearBuffer \<Rightarrow> SerializeStatus \<times> u32 option \<times> LinearBuffer" where
  "deserialize_U32 mode = get_bytes 4 (U32_of mode)"

definition deserialize_I32 :: "Endianness \<Rightarrow> LinearBuffer \<Rightarrow> SerializeStatus \<times> int option \<times> LinearBuffer" where
  "deserialize_I32 mode s = (case deserialize_U32 mode s of (res, v, s) \<Rightarrow> (res, map_option sint v, s))"

definition U64_of :: "Endianness \<Rightarrow> bytes \<Rightarrow> u64" where
  "U64_of mode b = (case mode of
       BIG \<Rightarrow> push_bit 0 (ucast (b ! 7)) OR push_bit 8 (ucast (b ! 6)) OR push_bit 16 (ucast (b ! 5)) OR push_bit 24 (ucast (b ! 4)) OR
         push_bit 32 (ucast (b ! 3)) OR push_bit 40 (ucast (b ! 2)) OR push_bit 48 (ucast (b ! 1)) OR push_bit 56 (ucast (b ! 0))
     | LITTLE \<Rightarrow> push_bit 0 (ucast (b ! 0)) OR push_bit 8 (ucast (b ! 1)) OR push_bit 16 (ucast (b ! 2)) OR push_bit 24 (ucast (b ! 3)) OR
         push_bit 32 (ucast (b ! 4)) OR push_bit 40 (ucast (b ! 5)) OR push_bit 48 (ucast (b ! 6)) OR push_bit 56 (ucast (b ! 7)))"

definition deserialize_U64 :: "Endianness \<Rightarrow> LinearBuffer \<Rightarrow> SerializeStatus \<times> u64 option \<times> LinearBuffer" where
  "deserialize_U64 mode = get_bytes 8 (U64_of mode)"

definition deserialize_I64 :: "Endianness \<Rightarrow> LinearBuffer \<Rightarrow> SerializeStatus \<times> int option \<times> LinearBuffer" where
  "deserialize_I64 mode s = (case deserialize_U64 mode s of (res, v, s) \<Rightarrow> (res, map_option sint v, s))"

definition deserialize_F64 :: "Endianness \<Rightarrow> LinearBuffer \<Rightarrow> SerializeStatus \<times> u64 option \<times> LinearBuffer" where
  "deserialize_F64 mode = deserialize_U64 mode"

definition deserialize_F32 :: "Endianness \<Rightarrow> LinearBuffer \<Rightarrow> SerializeStatus \<times> u32 option \<times> LinearBuffer" where
  "deserialize_F32 mode = deserialize_U32 mode"

text \<open>A byte that is no boolean stays where it is.\<close>

definition deserialize_bool :: "LinearBuffer \<Rightarrow> SerializeStatus \<times> bool option \<times> LinearBuffer" where
  "deserialize_bool s = (case deserialize_U8 s of
       (status, None, s') \<Rightarrow> (status, None, s')
     | (status, Some b, s') \<Rightarrow>
         if FW_SERIALIZE_TRUE_VALUE = b then (status, Some True, s')
         else if FW_SERIALIZE_FALSE_VALUE = b then (status, Some False, s')
         else (FW_DESERIALIZE_FORMAT_ERROR, None, s))"

definition deserialize_pointer :: "Endianness \<Rightarrow> LinearBuffer \<Rightarrow> SerializeStatus \<times> u64 option \<times> LinearBuffer" where
  "deserialize_pointer mode = deserialize_U64 mode"

section \<open>Buffers\<close>

datatype LengthMode = INCLUDE_LENGTH | OMIT_LENGTH

text \<open>The length is stored in 16 bits (\<^verbatim>\<open>FwSizeStoreType\<close>), whatever it is.\<close>

definition serialize_buff :: "bytes \<Rightarrow> LengthMode \<Rightarrow> Endianness \<Rightarrow> LinearBuffer \<Rightarrow> SerializeStatus \<times> LinearBuffer" where
  "serialize_buff buff lengthMode endianMode s =
     (let (stat, s) = (if lengthMode = INCLUDE_LENGTH then serialize_U16 endianMode (of_nat (length buff)) s else (FW_SERIALIZE_OK, s)) in
      if stat \<noteq> FW_SERIALIZE_OK then (stat, s)
      else if m_serLoc s + length buff > getCapacity s then (FW_SERIALIZE_NO_ROOM_LEFT, s)
      else (FW_SERIALIZE_OK, store_bytes buff s))"

definition serialize_LinearBuffer :: "LinearBuffer \<Rightarrow> Endianness \<Rightarrow> LinearBuffer \<Rightarrow> (SerializeStatus \<times> LinearBuffer) option" where
  "serialize_LinearBuffer val mode s =
     (if m_serLoc s + getSize val + 2 > getCapacity s then Some (FW_SERIALIZE_NO_ROOM_LEFT, s)
      else let (stat, s) = serialize_U16 mode (of_nat (getSize val)) s in
        if stat \<noteq> FW_SERIALIZE_OK then Some (stat, s)
        else do {
          FW_ASSERT (lb_mem s \<noteq> []);
          FW_ASSERT (lb_mem val \<noteq> []);
          Some (FW_SERIALIZE_OK, store_bytes (take (getSize val) (lb_mem val)) s)
        })"

definition serializeSize :: "nat \<Rightarrow> Endianness \<Rightarrow> LinearBuffer \<Rightarrow> SerializeStatus \<times> LinearBuffer" where
  "serializeSize n mode s =
     (let status = (if n > 65535 then FW_SERIALIZE_FORMAT_ERROR else FW_SERIALIZE_OK) in
      if status = FW_SERIALIZE_OK then serialize_U16 mode (of_nat n) s else (status, s))"

definition getDeserializeSizeLeft :: "LinearBuffer \<Rightarrow> nat option" where
  "getDeserializeSizeLeft s = do {
     FW_ASSERT (m_serLoc s \<ge> m_deserLoc s);
     Some (m_serLoc s - m_deserLoc s)
   }"

text \<open>The assertion tests the position itself, converted to a 32-bit integer.\<close>

definition getSerializeSizeLeft :: "LinearBuffer \<Rightarrow> nat option" where
  "getSerializeSizeLeft s = do {
     FW_ASSERT ((of_nat (m_serLoc s) :: u32) \<noteq> 0);
     Some (getCapacity s - m_serLoc s)
   }"

text \<open>The bytes read into the destination, and the length that is returned.\<close>

definition deserialize_buff :: "nat \<Rightarrow> LengthMode \<Rightarrow> Endianness \<Rightarrow> LinearBuffer \<Rightarrow> (SerializeStatus \<times> bytes option \<times> nat \<times> LinearBuffer) option" where
  "deserialize_buff n lengthMode endianMode s = do {
     FW_ASSERT (lb_mem s \<noteq> []);
     if lengthMode = INCLUDE_LENGTH then
       (case deserialize_U16 endianMode s of
          (stat, None, s) \<Rightarrow> Some (stat, None, n, s)
        | (stat, Some storedLength, s) \<Rightarrow> do {
            left \<leftarrow> getDeserializeSizeLeft s;
            if unat storedLength > left \<or> unat storedLength > n then Some (FW_DESERIALIZE_SIZE_MISMATCH, None, n, s)
            else let n = unat storedLength in
              Some (FW_SERIALIZE_OK, Some (take n (drop (m_deserLoc s) (lb_mem s))), n, s\<lparr>m_deserLoc := m_deserLoc s + n\<rparr>)
          })
     else do {
       left \<leftarrow> getDeserializeSizeLeft s;
       if n > left then Some (FW_DESERIALIZE_SIZE_MISMATCH, None, n, s)
       else Some (FW_SERIALIZE_OK, Some (take n (drop (m_deserLoc s) (lb_mem s))), n, s\<lparr>m_deserLoc := m_deserLoc s + n\<rparr>)
     }
   }"

text \<open>Both buffers change: the result holds the source and the destination.\<close>

definition deserialize_LinearBuffer :: "LinearBuffer \<Rightarrow> Endianness \<Rightarrow> LinearBuffer \<Rightarrow> (SerializeStatus \<times> LinearBuffer \<times> LinearBuffer) option" where
  "deserialize_LinearBuffer val mode s = do {
     FW_ASSERT (lb_mem val \<noteq> []);
     (case deserialize_U16 mode s of
        (stat, None, s) \<Rightarrow> Some (stat, s, val)
      | (stat, Some storedLength, s) \<Rightarrow> do {
          let n = unat storedLength;
          left \<leftarrow> (if n > getCapacity val then Some 0 else getDeserializeSizeLeft s);
          if n > getCapacity val \<or> n > left then Some (FW_DESERIALIZE_SIZE_MISMATCH, s, val)
          else do {
            FW_ASSERT (lb_mem s \<noteq> []);
            let val = val\<lparr>lb_mem := take n (drop (m_deserLoc s) (lb_mem s)) @ drop n (lb_mem val)\<rparr>;
            let (stat, val) = setBuffLen n val;
            if stat \<noteq> FW_SERIALIZE_OK then Some (stat, s, val)
            else Some (FW_SERIALIZE_OK, s\<lparr>m_deserLoc := m_deserLoc s + n\<rparr>, val)
          }
        })
   }"

definition deserializeSize :: "Endianness \<Rightarrow> LinearBuffer \<Rightarrow> SerializeStatus \<times> nat option \<times> LinearBuffer" where
  "deserializeSize mode s = (case deserialize_U16 mode s of (status, storedSize, s) \<Rightarrow> (status, map_option unat storedSize, s))"

text \<open>The memory behind the deserialization pointer; a null pointer if there is no memory.\<close>

definition buffAddrLeft :: "LinearBuffer \<Rightarrow> bytes option" where
  "buffAddrLeft s = (if lb_mem s = [] then None else Some (drop (m_deserLoc s) (lb_mem s)))"

definition copyRaw :: "LinearBuffer \<Rightarrow> nat \<Rightarrow> LinearBuffer \<Rightarrow> (SerializeStatus \<times> LinearBuffer \<times> LinearBuffer) option" where
  "copyRaw dest n s =
     (if getCapacity dest < n then Some (FW_SERIALIZE_NO_ROOM_LEFT, s, dest)
      else do {
        left \<leftarrow> getDeserializeSizeLeft s;
        if left < n then Some (FW_DESERIALIZE_SIZE_MISMATCH, s, dest)
        else do {
          (stat, dest) \<leftarrow> setBuff (buffAddrLeft s) n dest;
          if stat = FW_SERIALIZE_OK then Some (stat, s\<lparr>m_deserLoc := m_deserLoc s + n\<rparr>, dest) else Some (stat, s, dest)
        }
      })"

definition copyRawOffset :: "LinearBuffer \<Rightarrow> nat \<Rightarrow> LinearBuffer \<Rightarrow> (SerializeStatus \<times> LinearBuffer \<times> LinearBuffer) option" where
  "copyRawOffset dest n s =
     (if getCapacity dest < n + getSize dest then Some (FW_SERIALIZE_NO_ROOM_LEFT, s, dest)
      else do {
        left \<leftarrow> getDeserializeSizeLeft s;
        if left < n then Some (FW_DESERIALIZE_SIZE_MISMATCH, s, dest)
        else let (stat, dest) = serialize_buff (take n (drop (m_deserLoc s) (lb_mem s))) OMIT_LENGTH BIG dest in
          if stat = FW_SERIALIZE_OK then Some (stat, s\<lparr>m_deserLoc := m_deserLoc s + n\<rparr>, dest) else Some (stat, s, dest)
      })"

definition copyFrom :: "LinearBuffer \<Rightarrow> LinearBuffer \<Rightarrow> LinearBuffer option" where
  "copyFrom src s = do {
     let s = s\<lparr>m_serLoc := m_serLoc src, m_deserLoc := m_deserLoc src\<rparr>;
     FW_ASSERT (lb_mem src \<noteq> []);
     FW_ASSERT (lb_mem s \<noteq> []);
     FW_ASSERT (getSize src \<le> getCapacity s);
     Some (s\<lparr>lb_mem := take (m_serLoc s) (lb_mem src) @ drop (m_serLoc s) (lb_mem s)\<rparr>)
   }"

text \<open>The class \<^verbatim>\<open>ExternalSerializeBuffer\<close>, over the \<open>n\<close> bytes of memory at an address; \<open>None\<close> is a null pointer.\<close>

definition ExternalSerializeBuffer_clear :: "LinearBuffer \<Rightarrow> LinearBuffer" where
  "ExternalSerializeBuffer_clear s = (resetDeser (resetSer s))\<lparr>lb_mem := []\<rparr>"

definition setExtBuffer :: "bytes option \<Rightarrow> nat \<Rightarrow> LinearBuffer \<Rightarrow> LinearBuffer option" where
  "setExtBuffer buffPtr n s = do {
     memory \<leftarrow> buffPtr;
     Some ((ExternalSerializeBuffer_clear s)\<lparr>lb_mem := take n memory\<rparr>)
   }"

section \<open>Values of every type\<close>

text \<open>The overloads of \<^verbatim>\<open>serializeFrom\<close> and \<^verbatim>\<open>deserializeTo\<close>: a value with its type, and the type alone.\<close>

datatype serial_value =
    V_U8 u8 | V_I8 int | V_U16 u16 | V_I16 int | V_U32 u32 | V_I32 int | V_U64 u64 | V_I64 int
  | V_F32 u32 | V_F64 u64 | V_bool bool | V_pointer u64 | V_buff LengthMode bytes | V_size nat

datatype serial_type =
    T_U8 | T_I8 | T_U16 | T_I16 | T_U32 | T_I32 | T_U64 | T_I64 | T_F32 | T_F64 | T_bool | T_pointer | T_buff LengthMode nat | T_size

fun put_value :: "Endianness \<Rightarrow> serial_value \<Rightarrow> LinearBuffer \<Rightarrow> SerializeStatus \<times> LinearBuffer" where
  "put_value mode (V_U8 v) = serialize_U8 v"
| "put_value mode (V_I8 v) = serialize_I8 v"
| "put_value mode (V_U16 v) = serialize_U16 mode v"
| "put_value mode (V_I16 v) = serialize_I16 mode v"
| "put_value mode (V_U32 v) = serialize_U32 mode v"
| "put_value mode (V_I32 v) = serialize_I32 mode v"
| "put_value mode (V_U64 v) = serialize_U64 mode v"
| "put_value mode (V_I64 v) = serialize_I64 mode v"
| "put_value mode (V_F32 v) = serialize_F32 mode v"
| "put_value mode (V_F64 v) = serialize_F64 mode v"
| "put_value mode (V_bool v) = serialize_bool v"
| "put_value mode (V_pointer v) = serialize_pointer mode v"
| "put_value mode (V_buff l v) = serialize_buff v l mode"
| "put_value mode (V_size v) = serializeSize v mode"

definition tagged :: "('a \<Rightarrow> serial_value) \<Rightarrow> SerializeStatus \<times> 'a option \<times> LinearBuffer \<Rightarrow> (SerializeStatus \<times> serial_value option \<times> LinearBuffer) option" where
  "tagged f r = (case r of (status, v, s) \<Rightarrow> Some (status, map_option f v, s))"

fun get_value :: "Endianness \<Rightarrow> serial_type \<Rightarrow> LinearBuffer \<Rightarrow> (SerializeStatus \<times> serial_value option \<times> LinearBuffer) option" where
  "get_value mode T_U8 s = tagged V_U8 (deserialize_U8 s)"
| "get_value mode T_I8 s = tagged V_I8 (deserialize_I8 s)"
| "get_value mode T_U16 s = tagged V_U16 (deserialize_U16 mode s)"
| "get_value mode T_I16 s = tagged V_I16 (deserialize_I16 mode s)"
| "get_value mode T_U32 s = tagged V_U32 (deserialize_U32 mode s)"
| "get_value mode T_I32 s = tagged V_I32 (deserialize_I32 mode s)"
| "get_value mode T_U64 s = tagged V_U64 (deserialize_U64 mode s)"
| "get_value mode T_I64 s = tagged V_I64 (deserialize_I64 mode s)"
| "get_value mode T_F32 s = tagged V_F32 (deserialize_F32 mode s)"
| "get_value mode T_F64 s = tagged V_F64 (deserialize_F64 mode s)"
| "get_value mode T_bool s = tagged V_bool (deserialize_bool s)"
| "get_value mode T_pointer s = tagged V_pointer (deserialize_pointer mode s)"
| "get_value mode (T_buff l n) s = (case deserialize_buff n l mode s of None \<Rightarrow> None
     | Some (status, v, _, s) \<Rightarrow> Some (status, map_option (V_buff l) v, s))"
| "get_value mode T_size s = tagged V_size (deserializeSize mode s)"

text \<open>A sequence of values, each with its byte order, up to the first error.\<close>

fun put_values :: "(Endianness \<times> serial_value) list \<Rightarrow> LinearBuffer \<Rightarrow> SerializeStatus \<times> LinearBuffer" where
  "put_values [] s = (FW_SERIALIZE_OK, s)"
| "put_values ((mode, v) # vs) s = (case put_value mode v s of (status, s') \<Rightarrow>
     if status = FW_SERIALIZE_OK then put_values vs s' else (status, s'))"

fun get_values :: "(Endianness \<times> serial_type) list \<Rightarrow> LinearBuffer \<Rightarrow> (SerializeStatus \<times> serial_value list \<times> LinearBuffer) option" where
  "get_values [] s = Some (FW_SERIALIZE_OK, [], s)"
| "get_values ((mode, t) # ts) s = (case get_value mode t s of
       Some (status, Some v, s') \<Rightarrow> map_option (\<lambda>(status, vs, s''). (status, v # vs, s'')) (get_values ts s')
     | Some (status, None, s') \<Rightarrow> Some (status, [], s')
     | None \<Rightarrow> None)"

text \<open>What a value looks like in memory, and which values their types can hold.\<close>

fun value_bytes :: "Endianness \<Rightarrow> serial_value \<Rightarrow> bytes" where
  "value_bytes mode (V_U8 v) = [v]"
| "value_bytes mode (V_I8 v) = [word_of_int v]"
| "value_bytes mode (V_U16 v) = U16_bytes mode v"
| "value_bytes mode (V_I16 v) = U16_bytes mode (word_of_int v)"
| "value_bytes mode (V_U32 v) = U32_bytes mode v"
| "value_bytes mode (V_I32 v) = U32_bytes mode (word_of_int v)"
| "value_bytes mode (V_U64 v) = U64_bytes mode v"
| "value_bytes mode (V_I64 v) = U64_bytes mode (word_of_int v)"
| "value_bytes mode (V_F32 v) = U32_bytes mode v"
| "value_bytes mode (V_F64 v) = U64_bytes mode v"
| "value_bytes mode (V_bool v) = [if v then 0xFF else 0]"
| "value_bytes mode (V_pointer v) = U64_bytes mode v"
| "value_bytes mode (V_buff l v) = (if l = INCLUDE_LENGTH then U16_bytes mode (of_nat (length v)) @ v else v)"
| "value_bytes mode (V_size v) = U16_bytes mode (of_nat v)"

fun value_ok :: "serial_value \<Rightarrow> bool" where
  "value_ok (V_I8 v) = (- (2 ^ 7) \<le> v \<and> v < 2 ^ 7)"
| "value_ok (V_I16 v) = (- (2 ^ 15) \<le> v \<and> v < 2 ^ 15)"
| "value_ok (V_I32 v) = (- (2 ^ 31) \<le> v \<and> v < 2 ^ 31)"
| "value_ok (V_I64 v) = (- (2 ^ 63) \<le> v \<and> v < 2 ^ 63)"
| "value_ok (V_buff l v) = (l = INCLUDE_LENGTH \<longrightarrow> length v < 2 ^ 16)"
| "value_ok (V_size v) = (v < 2 ^ 16)"
| "value_ok _ = True"

fun type_of_value :: "serial_value \<Rightarrow> serial_type" where
  "type_of_value (V_U8 _) = T_U8" | "type_of_value (V_I8 _) = T_I8"
| "type_of_value (V_U16 _) = T_U16" | "type_of_value (V_I16 _) = T_I16"
| "type_of_value (V_U32 _) = T_U32" | "type_of_value (V_I32 _) = T_I32"
| "type_of_value (V_U64 _) = T_U64" | "type_of_value (V_I64 _) = T_I64"
| "type_of_value (V_F32 _) = T_F32" | "type_of_value (V_F64 _) = T_F64"
| "type_of_value (V_bool _) = T_bool" | "type_of_value (V_pointer _) = T_pointer"
| "type_of_value (V_buff l v) = T_buff l (length v)" | "type_of_value (V_size _) = T_size"

definition values_bytes :: "(Endianness \<times> serial_value) list \<Rightarrow> bytes" where
  "values_bytes vs = concat (map (\<lambda>(mode, v). value_bytes mode v) vs)"

lemma values_bytes_simps [simp]: "values_bytes [] = []" "values_bytes ((mode, v) # vs) = value_bytes mode v @ values_bytes vs"
  by (simp_all add: values_bytes_def)

section \<open>Integers and their bytes\<close>

lemma length_int_bytes [simp]: "length (U16_bytes mode a) = 2" "length (U32_bytes mode b) = 4" "length (U64_bytes mode c) = 8"
  by (cases mode; simp add: U16_bytes_def U32_bytes_def U64_bytes_def)+

lemma U16_split [simp]: "U16_of mode (U16_bytes mode v) = v"
  by (cases mode; simp add: U16_of_def U16_bytes_def; rule bit_word_eqI; auto simp: bit_simps)

lemma U32_split [simp]: "U32_of mode (U32_bytes mode v) = v"
  by (cases mode; simp add: U32_of_def U32_bytes_def; rule bit_word_eqI; rename_tac n;
      case_tac "16 \<le> n"; case_tac "24 \<le> n"; auto simp: bit_simps)

text \<open>A byte of a word, put back in its place.\<close>

lemma byte_in_place: "push_bit k (ucast (ucast (drop_bit k v) :: u8) :: u64) = v AND push_bit k 0xFF" for v :: u64
proof -
  have "(0xFF :: u64) = mask 8" by (simp add: mask_eq_exp_minus_1)
  then show ?thesis unfolding \<open>0xFF = mask 8\<close> by (auto intro!: bit_word_eqI simp: bit_simps)
qed

lemma low_byte: "ucast (ucast v :: u8) = v AND 0xFF" for v :: u64
  using byte_in_place [of 0 v] by simp

lemma U64_of_bytes:
  "U64_of BIG [h, g, f, e, d, c, b, a] = ucast a OR push_bit 8 (ucast b) OR push_bit 16 (ucast c) OR push_bit 24 (ucast d) OR
     push_bit 32 (ucast e) OR push_bit 40 (ucast f) OR push_bit 48 (ucast g) OR push_bit 56 (ucast h)"
  "U64_of LITTLE [a, b, c, d, e, f, g, h] = ucast a OR push_bit 8 (ucast b) OR push_bit 16 (ucast c) OR push_bit 24 (ucast d) OR
     push_bit 32 (ucast e) OR push_bit 40 (ucast f) OR push_bit 48 (ucast g) OR push_bit 56 (ucast h)"
  by (simp_all add: U64_of_def)

lemma U64_split [simp]: "U64_of mode (U64_bytes mode v) = v"
proof -
  have ones: "(0xFFFFFFFFFFFFFFFF :: u64) = - 1" by simp
  show ?thesis
    by (cases mode) (simp_all only: U64_bytes_def Endianness.case U64_of_bytes byte_in_place,
      simp_all only: low_byte flip: bit.conj_disj_distrib, simp_all add: ones)
qed

lemma read_int [simp]: "U16_of mode (take 2 (U16_bytes mode a @ rest)) = a" "U32_of mode (take 4 (U32_bytes mode b @ rest)) = b"
  "U64_of mode (take 8 (U64_bytes mode c @ rest)) = c"
  by simp_all

section \<open>One value\<close>

definition value_length :: "serial_type \<Rightarrow> nat" where
  "value_length t = (case t of T_U8 \<Rightarrow> 1 | T_I8 \<Rightarrow> 1 | T_bool \<Rightarrow> 1 | T_U16 \<Rightarrow> 2 | T_I16 \<Rightarrow> 2 | T_size \<Rightarrow> 2 | T_U32 \<Rightarrow> 4 | T_I32 \<Rightarrow> 4
     | T_F32 \<Rightarrow> 4 | T_U64 \<Rightarrow> 8 | T_I64 \<Rightarrow> 8 | T_F64 \<Rightarrow> 8 | T_pointer \<Rightarrow> 8 | T_buff l n \<Rightarrow> (if l = INCLUDE_LENGTH then 2 else 0) + n)"

lemma length_value_bytes: "length (value_bytes mode v) = value_length (type_of_value v)"
  by (cases v) (simp_all add: value_length_def)

lemmas put_defs = serialize_U8_def serialize_I8_def serialize_U16_def serialize_I16_def serialize_U32_def serialize_I32_def
  serialize_U64_def serialize_I64_def serialize_F32_def serialize_F64_def serialize_bool_def serialize_pointer_def serializeSize_def

lemmas get_defs = deserialize_U8_def deserialize_I8_def deserialize_U16_def deserialize_I16_def deserialize_U32_def deserialize_I32_def
  deserialize_U64_def deserialize_I64_def deserialize_F32_def deserialize_F64_def deserialize_bool_def deserialize_pointer_def deserializeSize_def

lemma put_value_fits:
  assumes "value_ok v" "m_serLoc s + length (value_bytes mode v) \<le> length (lb_mem s)"
  shows "put_value mode v s = (FW_SERIALIZE_OK, store_bytes (value_bytes mode v) s)"
  using assms
  by (cases v) (auto simp: put_defs put_bytes_def getCapacity_def serialize_buff_def store_bytes_append FW_SERIALIZE_TRUE_VALUE_def
      FW_SERIALIZE_FALSE_VALUE_def split: if_splits)

lemma put_value_refused:
  assumes "value_ok v" "length (lb_mem s) < m_serLoc s + length (value_bytes mode v)" "m_serLoc s \<le> length (lb_mem s)"
  shows "\<exists>s'. put_value mode v s = (FW_SERIALIZE_NO_ROOM_LEFT, s') \<and> length (lb_mem s') = length (lb_mem s) \<and>
    m_serLoc s \<le> m_serLoc s' \<and> take (m_serLoc s) (written s') = written s"
proof (cases "\<exists>b. v = V_buff INCLUDE_LENGTH b \<and> m_serLoc s + 2 \<le> length (lb_mem s)")
  case True
  then obtain b where b: "v = V_buff INCLUDE_LENGTH b" "m_serLoc s + 2 \<le> length (lb_mem s)" by blast
  let ?s = "store_bytes (U16_bytes mode (of_nat (length b))) s"
  have "put_value mode v s = (FW_SERIALIZE_NO_ROOM_LEFT, ?s)"
    using b assms(2) by (simp add: serialize_buff_def serialize_U16_def put_bytes_def getCapacity_def)
  moreover have "take (m_serLoc s) (written ?s) = written s" using b(2) by (simp add: written_def store_bytes_def)
  ultimately show ?thesis using b(2) by simp
next
  case False
  then have "put_value mode v s = (FW_SERIALIZE_NO_ROOM_LEFT, s)"
    using assms by (cases v) (auto simp: put_defs put_bytes_def getCapacity_def serialize_buff_def split: if_splits)
  then show ?thesis by (simp add: written_def)
qed

lemma get_bytes_written:
  assumes "buffer_ok s" "drop (m_deserLoc s) (written s) = bs @ rest" "length bs = n" "0 < n"
  shows "get_bytes n f s = (FW_SERIALIZE_OK, Some (f bs), s\<lparr>m_deserLoc := m_deserLoc s + n\<rparr>)"
proof -
  have len: "m_serLoc s - m_deserLoc s = n + length rest" "m_serLoc s \<le> length (lb_mem s)"
    using arg_cong [OF assms(2), of length] assms(1,3) by (simp_all add: written_def buffer_ok_def)
  moreover have "take n (drop (m_deserLoc s) (written s)) = bs" using assms(2,3) by simp
  then have "take n (drop (m_deserLoc s) (lb_mem s)) = bs"
    using len by (simp add: written_def drop_take min_def)
  ultimately show ?thesis
    using assms(4) by (simp add: get_bytes_def deserializeSkip_def getSize_def)
qed

lemma get_value_written:
  assumes "buffer_ok s" "lb_mem s \<noteq> []" "value_ok v" "drop (m_deserLoc s) (written s) = value_bytes mode v @ rest"
  shows "get_value mode (type_of_value v) s =
    Some (FW_SERIALIZE_OK, Some v, s\<lparr>m_deserLoc := m_deserLoc s + length (value_bytes mode v)\<rparr>)"
proof (cases "\<exists>l b. v = V_buff l b")
  case True
  then obtain l b where v: "v = V_buff l b" by blast
  have whole: "take (length b) (drop (m_deserLoc s + k) (lb_mem s)) = b" "m_deserLoc s + k + length b \<le> m_serLoc s" "m_deserLoc s + k \<le> m_serLoc s"
    if "k \<le> length (value_bytes mode v)" "drop k (value_bytes mode v) = b" for k
  proof -
    have d: "drop (m_deserLoc s + k) (written s) = b @ rest"
      using arg_cong [OF assms(4), of "drop k"] that by (simp add: add.commute)
    have "length (drop (m_deserLoc s) (written s)) = length (value_bytes mode v) + length rest" using assms(4) by simp
    moreover have "length (value_bytes mode v) = k + length b" using arg_cong [OF that(2), of length] that(1) by simp
    ultimately show n: "m_deserLoc s + k + length b \<le> m_serLoc s" "m_deserLoc s + k \<le> m_serLoc s"
      using assms(1) by (auto simp: written_def buffer_ok_def)
    have "take (length b) (drop (m_deserLoc s + k) (written s)) = b" using d by simp
    then show "take (length b) (drop (m_deserLoc s + k) (lb_mem s)) = b"
      using n(1) by (simp add: written_def drop_take min_absorb1)
  qed
  show ?thesis
  proof (cases l)
    case INCLUDE_LENGTH
    have "deserialize_U16 mode s = (FW_SERIALIZE_OK, Some (of_nat (length b)), s\<lparr>m_deserLoc := m_deserLoc s + 2\<rparr>)"
      using get_bytes_written [OF assms(1), of "U16_bytes mode (of_nat (length b))" "b @ rest" 2 "U16_of mode"] assms(4) v INCLUDE_LENGTH
      by (simp add: deserialize_U16_def)
    with whole [of 2] v INCLUDE_LENGTH assms(2,3) show ?thesis
      by (auto simp: deserialize_buff_def getDeserializeSizeLeft_def unsigned_of_nat take_bit_nat_eq_self Let_def)
  next
    case OMIT_LENGTH
    with whole [of 0] v assms(2) show ?thesis
      by (simp add: deserialize_buff_def getDeserializeSizeLeft_def)
  qed
next
  case False
  note g = get_bytes_written [OF assms(1,4) refl]
  show ?thesis
    using False assms(3) g [where ?'a = u8] g [where ?'a = int] g [where ?'a = u16] g [where ?'a = u32] g [where ?'a = u64]
    by (cases v) (auto simp: get_defs tagged_def signed_of_int signed_take_bit_int_eq_self unsigned_of_nat take_bit_nat_eq_self
        FW_SERIALIZE_TRUE_VALUE_def FW_SERIALIZE_FALSE_VALUE_def)
qed

section \<open>Sequences of values\<close>

lemma put_values_fits:
  "list_all (value_ok \<circ> snd) vs \<Longrightarrow> vs \<noteq> [] \<Longrightarrow> m_serLoc s + length (values_bytes vs) \<le> length (lb_mem s) \<Longrightarrow>
   put_values vs s = (FW_SERIALIZE_OK, store_bytes (values_bytes vs) s)"
proof (induction vs arbitrary: s)
  case (Cons mv vs)
  obtain mode v where mv: "mv = (mode, v)" by (cases mv)
  have one: "put_value mode v s = (FW_SERIALIZE_OK, store_bytes (value_bytes mode v) s)"
    using Cons.prems by (intro put_value_fits) (simp_all add: mv)
  show ?case
  proof (cases "vs = []")
    case True
    with one show ?thesis by (simp add: mv)
  next
    case False
    with Cons one show ?thesis by (simp add: mv store_bytes_append)
  qed
qed simp

lemma put_values_refused:
  "list_all (value_ok \<circ> snd) vs \<Longrightarrow> m_serLoc s \<le> length (lb_mem s) \<Longrightarrow> length (lb_mem s) < m_serLoc s + length (values_bytes vs) \<Longrightarrow>
   \<exists>s'. put_values vs s = (FW_SERIALIZE_NO_ROOM_LEFT, s') \<and> length (lb_mem s') = length (lb_mem s) \<and>
     m_serLoc s \<le> m_serLoc s' \<and> take (m_serLoc s) (written s') = written s"
proof (induction vs arbitrary: s)
  case (Cons mv vs)
  obtain mode v where mv: "mv = (mode, v)" by (cases mv)
  have ok: "value_ok v" using Cons.prems(1) by (simp add: mv)
  show ?case
  proof (cases "m_serLoc s + length (value_bytes mode v) \<le> length (lb_mem s)")
    case True
    let ?s = "store_bytes (value_bytes mode v) s"
    obtain s' where s': "put_values vs ?s = (FW_SERIALIZE_NO_ROOM_LEFT, s')" "length (lb_mem s') = length (lb_mem s)"
      "m_serLoc ?s \<le> m_serLoc s'" "take (m_serLoc ?s) (written s') = written ?s"
      using Cons.IH [of ?s] Cons.prems True by (auto simp: mv)
    have "take (m_serLoc s) (take (m_serLoc ?s) (written s')) = take (m_serLoc s) (written s @ value_bytes mode v)"
      using s'(4) True by simp
    then have "take (m_serLoc s) (written s') = written s"
      using Cons.prems(2) by (simp add: min_def written_def split: if_splits)
    with s' put_value_fits [OF ok True] show ?thesis by (simp add: mv)
  next
    case False
    with put_value_refused [OF ok _ Cons.prems(2), of mode] show ?thesis by (auto simp: mv)
  qed
qed simp

lemma get_values_written:
  assumes "buffer_ok s" "lb_mem s \<noteq> []" "list_all (value_ok \<circ> snd) vs" "drop (m_deserLoc s) (written s) = values_bytes vs @ rest"
  shows "get_values (map (apsnd type_of_value) vs) s =
    Some (FW_SERIALIZE_OK, map snd vs, s\<lparr>m_deserLoc := m_deserLoc s + length (values_bytes vs)\<rparr>)"
  using assms
proof (induction vs arbitrary: s)
  case (Cons mv vs)
  obtain mode v where mv: "mv = (mode, v)" by (cases mv)
  let ?s = "s\<lparr>m_deserLoc := m_deserLoc s + length (value_bytes mode v)\<rparr>"
  have shape: "drop (m_deserLoc s) (written s) = value_bytes mode v @ values_bytes vs @ rest" using Cons.prems(4) by (simp add: mv)
  then have one: "get_value mode (type_of_value v) s = Some (FW_SERIALIZE_OK, Some v, ?s)"
    using Cons.prems by (intro get_value_written) (simp_all add: mv)
  have "m_deserLoc ?s \<le> m_serLoc s"
    using arg_cong [OF shape, of length] Cons.prems(1) by (auto simp: written_def buffer_ok_def)
  then have "buffer_ok ?s" using Cons.prems(1) by (simp add: buffer_ok_def)
  moreover have "drop (m_deserLoc ?s) (written ?s) = values_bytes vs @ rest"
    using arg_cong [OF shape, of "drop (length (value_bytes mode v))"] by (simp add: written_def add.commute)
  ultimately have "get_values (map (apsnd type_of_value) vs) ?s =
      Some (FW_SERIALIZE_OK, map snd vs, ?s\<lparr>m_deserLoc := m_deserLoc ?s + length (values_bytes vs)\<rparr>)"
    using Cons.IH [of ?s] Cons.prems(2,3) by simp
  with one show ?case by (simp add: mv add.assoc)
qed simp

section \<open>Every operation\<close>

text \<open>
  The operations of the class on one buffer, with the other buffer of a copy as argument, and what they leave: the status and
  the buffer.
\<close>

datatype buffer_op =
    Put Endianness serial_value | Get Endianness serial_type | Put_buffer Endianness LinearBuffer | Get_buffer Endianness LinearBuffer
  | Skip_ser nat | Skip_deser nat | Move_ser nat | Move_deser nat | Reset_ser | Reset_deser | Set_buff bytes nat | Set_len nat
  | Copy_out LinearBuffer nat | Append_out LinearBuffer nat | Copy_in LinearBuffer nat | Append_in LinearBuffer nat | Copy_from LinearBuffer

fun run_buffer_op :: "buffer_op \<Rightarrow> LinearBuffer \<Rightarrow> (SerializeStatus \<times> LinearBuffer) option" where
  "run_buffer_op (Put mode v) s = Some (put_value mode v s)"
| "run_buffer_op (Get mode t) s = map_option (\<lambda>(status, _, s). (status, s)) (get_value mode t s)"
| "run_buffer_op (Put_buffer mode val) s = serialize_LinearBuffer val mode s"
| "run_buffer_op (Get_buffer mode val) s = map_option (\<lambda>(status, s, _). (status, s)) (deserialize_LinearBuffer val mode s)"
| "run_buffer_op (Skip_ser n) s = Some (serializeSkip n s)"
| "run_buffer_op (Skip_deser n) s = Some (deserializeSkip n s)"
| "run_buffer_op (Move_ser n) s = Some (moveSerToOffset n s)"
| "run_buffer_op (Move_deser n) s = Some (moveDeserToOffset n s)"
| "run_buffer_op Reset_ser s = Some (FW_SERIALIZE_OK, resetSer s)"
| "run_buffer_op Reset_deser s = Some (FW_SERIALIZE_OK, resetDeser s)"
| "run_buffer_op (Set_buff src n) s = setBuff (Some src) n s"
| "run_buffer_op (Set_len n) s = Some (setBuffLen n s)"
| "run_buffer_op (Copy_out dest n) s = map_option (\<lambda>(status, s, _). (status, s)) (copyRaw dest n s)"
| "run_buffer_op (Append_out dest n) s = map_option (\<lambda>(status, s, _). (status, s)) (copyRawOffset dest n s)"
| "run_buffer_op (Copy_in src n) s = map_option (\<lambda>(status, _, s). (status, s)) (copyRaw s n src)"
| "run_buffer_op (Append_in src n) s = map_option (\<lambda>(status, _, s). (status, s)) (copyRawOffset s n src)"
| "run_buffer_op (Copy_from src) s = map_option (Pair FW_SERIALIZE_OK) (copyFrom src s)"

text \<open>
  A buffer with memory and pointers inside it, and arguments that are: other buffers are well formed, what is read from a
  pointer is there, and \<^verbatim>\<open>copyFrom\<close>, which is specified for destinations that are large enough, gets one.
\<close>

definition buffer_well_formed :: "LinearBuffer \<Rightarrow> bool" where
  "buffer_well_formed s \<longleftrightarrow> buffer_ok s \<and> lb_mem s \<noteq> []"

fun op_well_formed :: "buffer_op \<Rightarrow> LinearBuffer \<Rightarrow> bool" where
  "op_well_formed (Put_buffer mode val) s = buffer_well_formed val"
| "op_well_formed (Get_buffer mode val) s = buffer_well_formed val"
| "op_well_formed (Set_buff src n) s = (n \<le> length src)"
| "op_well_formed (Copy_out dest n) s = buffer_well_formed dest"
| "op_well_formed (Append_out dest n) s = buffer_well_formed dest"
| "op_well_formed (Copy_in src n) s = buffer_well_formed src"
| "op_well_formed (Append_in src n) s = buffer_well_formed src"
| "op_well_formed (Copy_from src) s = (buffer_well_formed src \<and> getSize src \<le> getCapacity s)"
| "op_well_formed _ s = True"

text \<open>What every operation keeps: the pointers inside the memory, and the size of the memory.\<close>

definition keeps_form :: "LinearBuffer \<Rightarrow> LinearBuffer \<Rightarrow> bool" where
  "keeps_form s s' \<longleftrightarrow> buffer_ok s' \<and> length (lb_mem s') = length (lb_mem s)"

lemma well_formed_kept: "buffer_well_formed s \<Longrightarrow> keeps_form s s' \<Longrightarrow> buffer_well_formed s'"
  by (auto simp: buffer_well_formed_def keeps_form_def)

lemma keeps_form_refl: "buffer_ok s \<Longrightarrow> keeps_form s s"
  by (simp add: keeps_form_def)

lemma store_keeps: "m_serLoc s + length bs \<le> length (lb_mem s) \<Longrightarrow> keeps_form s (store_bytes bs s)"
  by (simp add: keeps_form_def buffer_ok_def)

lemma put_bytes_keeps: "buffer_ok s \<Longrightarrow> bs \<noteq> [] \<Longrightarrow> keeps_form s (snd (put_bytes bs s))"
  by (cases bs) (auto simp: put_bytes_def getCapacity_def intro!: store_keeps keeps_form_refl)

lemma int_bytes_nonempty [simp]: "U16_bytes mode a \<noteq> []" "U32_bytes mode b \<noteq> []" "U64_bytes mode c \<noteq> []"
  by (cases mode; simp add: U16_bytes_def U32_bytes_def U64_bytes_def)+

lemma put_value_keeps: "buffer_ok s \<Longrightarrow> keeps_form s (snd (put_value mode v s))"
proof (cases "\<exists>l b. v = V_buff l b")
  case True
  assume ok: "buffer_ok s"
  from True obtain l b where v: "v = V_buff l b" by blast
  show ?thesis
  proof (cases l)
    case INCLUDE_LENGTH
    obtain status s1 where s1: "serialize_U16 mode (of_nat (length b)) s = (status, s1)" by fastforce
    have "keeps_form s s1" using put_bytes_keeps [OF ok, of "U16_bytes mode (of_nat (length b))"] s1 by (simp add: serialize_U16_def)
    then show ?thesis
      using v INCLUDE_LENGTH s1 store_keeps [of s1 b] by (auto simp: serialize_buff_def getCapacity_def keeps_form_def)
  next
    case OMIT_LENGTH
    then show ?thesis
      using v ok by (auto simp: serialize_buff_def getCapacity_def intro!: store_keeps keeps_form_refl)
  qed
next
  case False
  assume "buffer_ok s"
  with False show ?thesis
    by (cases v) (auto simp: put_defs intro!: put_bytes_keeps keeps_form_refl)
qed

text \<open>Moving the deserialization pointer to a place that is still inside.\<close>

lemma deser_keeps: "buffer_ok s \<Longrightarrow> m_deserLoc s + n \<le> m_serLoc s \<Longrightarrow> keeps_form s (s\<lparr>m_deserLoc := m_deserLoc s + n\<rparr>)"
  by (simp add: keeps_form_def buffer_ok_def)

lemma skip_keeps: "buffer_ok s \<Longrightarrow> keeps_form s (snd (deserializeSkip n s))"
  by (auto simp: deserializeSkip_def getSize_def buffer_ok_def keeps_form_def)

lemma get_bytes_keeps: "buffer_ok s \<Longrightarrow> get_bytes n f s = (status, v, s') \<Longrightarrow> keeps_form s s'"
  using skip_keeps [of s n] by (auto simp: get_bytes_def split: prod.splits)

lemma get_value_keeps:
  assumes "buffer_well_formed s"
  shows "\<exists>status v s'. get_value mode t s = Some (status, v, s') \<and> keeps_form s s'"
proof (cases "\<exists>l n. t = T_buff l n")
  case True
  then obtain l n where t: "t = T_buff l n" by blast
  have ok: "buffer_ok s" "lb_mem s \<noteq> []" using assms by (simp_all add: buffer_well_formed_def)
  show ?thesis
  proof (cases l)
    case INCLUDE_LENGTH
    obtain status v s1 where s1: "deserialize_U16 mode s = (status, v, s1)" by (metis prod_cases3)
    have keeps: "keeps_form s s1" using get_bytes_keeps [OF ok(1)] s1 by (simp add: deserialize_U16_def)
    show ?thesis
    proof (cases v)
      case None
      with t INCLUDE_LENGTH s1 keeps ok(2) show ?thesis by (simp add: deserialize_buff_def)
    next
      case (Some k)
      with t INCLUDE_LENGTH s1 keeps ok(2) show ?thesis
        by (auto simp: deserialize_buff_def getDeserializeSizeLeft_def keeps_form_def buffer_ok_def Let_def)
    qed
  next
    case OMIT_LENGTH
    with t ok show ?thesis
      by (auto simp: deserialize_buff_def getDeserializeSizeLeft_def keeps_form_def buffer_ok_def)
  qed
next
  case False
  have ok: "buffer_ok s" using assms by (simp add: buffer_well_formed_def)
  show ?thesis
    using False by (cases t) (auto simp: get_defs tagged_def keeps_form_refl [OF ok] split: prod.splits option.splits dest: get_bytes_keeps [OF ok])
qed

text \<open>The copies between two buffers.\<close>

lemma setBuff_keeps:
  assumes "buffer_well_formed d" "n \<le> length bs"
  shows "\<exists>status d'. setBuff (Some bs) n d = Some (status, d') \<and> keeps_form d d'"
  using assms by (auto simp: setBuff_def getCapacity_def buffer_well_formed_def keeps_form_def buffer_ok_def)

lemma copyRaw_keeps:
  assumes "buffer_well_formed s" "buffer_well_formed d"
  shows "\<exists>status s' d'. copyRaw d n s = Some (status, s', d') \<and> keeps_form s s' \<and> keeps_form d d'"
proof -
  have s: "buffer_ok s" "lb_mem s \<noteq> []" "m_deserLoc s \<le> m_serLoc s" and d: "buffer_ok d"
    using assms by (auto simp: buffer_well_formed_def buffer_ok_def)
  have "n \<le> m_serLoc s - m_deserLoc s \<Longrightarrow> n \<le> length (drop (m_deserLoc s) (lb_mem s))"
    using s(1) by (auto simp: buffer_ok_def)
  then obtain status d' where "n \<le> m_serLoc s - m_deserLoc s \<Longrightarrow>
      setBuff (Some (drop (m_deserLoc s) (lb_mem s))) n d = Some (status, d') \<and> keeps_form d d'"
    using setBuff_keeps [OF assms(2)] by metis
  then show ?thesis
    using s d deser_keeps [OF s(1), of n]
    by (auto simp: copyRaw_def getDeserializeSizeLeft_def buffAddrLeft_def keeps_form_refl)
qed

lemma copyRawOffset_keeps:
  assumes "buffer_well_formed s" "buffer_well_formed d"
  shows "\<exists>status s' d'. copyRawOffset d n s = Some (status, s', d') \<and> keeps_form s s' \<and> keeps_form d d'"
proof -
  have s: "buffer_ok s" "m_deserLoc s \<le> m_serLoc s" and d: "buffer_ok d"
    using assms by (auto simp: buffer_well_formed_def buffer_ok_def)
  obtain status d' where put: "serialize_buff (take n (drop (m_deserLoc s) (lb_mem s))) OMIT_LENGTH BIG d = (status, d')" by fastforce
  have "keeps_form d d'" using put_value_keeps [OF d, of BIG "V_buff OMIT_LENGTH (take n (drop (m_deserLoc s) (lb_mem s)))"] put by simp
  then show ?thesis
    using s d put deser_keeps [OF s(1), of n]
    by (auto simp: copyRawOffset_def getDeserializeSizeLeft_def keeps_form_refl)
qed

lemma serialize_LinearBuffer_keeps:
  assumes "buffer_well_formed s" "buffer_well_formed val"
  shows "\<exists>status s'. serialize_LinearBuffer val mode s = Some (status, s') \<and> keeps_form s s'"
proof -
  have s: "buffer_ok s" "lb_mem s \<noteq> []" and val: "lb_mem val \<noteq> []" "m_serLoc val \<le> length (lb_mem val)"
    using assms by (auto simp: buffer_well_formed_def buffer_ok_def)
  let ?s = "store_bytes (U16_bytes mode (of_nat (m_serLoc val))) s"
  show ?thesis
  proof (cases "m_serLoc s + m_serLoc val + 2 > length (lb_mem s)")
    case True
    with s show ?thesis by (simp add: serialize_LinearBuffer_def getCapacity_def getSize_def keeps_form_refl)
  next
    case False
    then have put: "serialize_U16 mode (of_nat (m_serLoc val)) s = (FW_SERIALIZE_OK, ?s)"
      by (simp add: serialize_U16_def put_bytes_def getCapacity_def)
    have len: "length (lb_mem ?s) = length (lb_mem s)" using False by simp
    then have "lb_mem ?s \<noteq> []" using s(2) by (metis length_0_conv)
    moreover have "keeps_form ?s (store_bytes (take (m_serLoc val) (lb_mem val)) ?s)"
      using False len by (intro store_keeps) simp
    ultimately show ?thesis
      using False put val len by (simp add: serialize_LinearBuffer_def getCapacity_def getSize_def keeps_form_def)
  qed
qed

lemma deserialize_LinearBuffer_keeps:
  assumes "buffer_well_formed s" "buffer_well_formed val"
  shows "\<exists>status s' val'. deserialize_LinearBuffer val mode s = Some (status, s', val') \<and> keeps_form s s' \<and> keeps_form val val'"
proof -
  have ok: "buffer_ok s" "lb_mem s \<noteq> []" "buffer_ok val" "lb_mem val \<noteq> []" using assms by (simp_all add: buffer_well_formed_def)
  obtain status v s1 where s1: "deserialize_U16 mode s = (status, v, s1)" by (metis prod_cases3)
  have keeps: "keeps_form s s1" using get_bytes_keeps [OF ok(1)] s1 by (simp add: deserialize_U16_def)
  then have form: "buffer_ok s1" "lb_mem s1 \<noteq> []" using ok(2) by (auto simp: keeps_form_def)
  show ?thesis
  proof (cases v)
    case None
    with s1 keeps ok show ?thesis by (simp add: deserialize_LinearBuffer_def keeps_form_refl)
  next
    case (Some k)
    let ?n = "unat k"
    show ?thesis
    proof (cases "?n > length (lb_mem val) \<or> ?n > m_serLoc s1 - m_deserLoc s1")
      case True
      with s1 Some keeps ok form show ?thesis
        by (auto simp: deserialize_LinearBuffer_def getDeserializeSizeLeft_def getCapacity_def keeps_form_refl buffer_ok_def Let_def)
    next
      case False
      with s1 Some keeps ok form show ?thesis
        by (auto simp: deserialize_LinearBuffer_def getDeserializeSizeLeft_def getCapacity_def setBuffLen_def buffer_ok_def keeps_form_def Let_def)
    qed
  qed
qed

lemma copyFrom_keeps:
  assumes "buffer_well_formed s" "buffer_well_formed src" "getSize src \<le> getCapacity s"
  shows "\<exists>s'. copyFrom src s = Some s' \<and> keeps_form s s'"
  using assms by (auto simp: copyFrom_def buffer_well_formed_def buffer_ok_def keeps_form_def getSize_def getCapacity_def)

lemma pointer_ops_keep:
  assumes "buffer_ok s"
  shows "keeps_form s (snd (serializeSkip n s))" "keeps_form s (snd (moveSerToOffset n s))" "keeps_form s (snd (moveDeserToOffset n s))"
    "keeps_form s (resetSer s)" "keeps_form s (resetDeser s)" "keeps_form s (snd (setBuffLen n s))"
  using assms
  by (auto simp: keeps_form_def buffer_ok_def serializeSkip_def moveSerToOffset_def moveDeserToOffset_def resetSer_def resetDeser_def
      setBuffLen_def getCapacity_def deserializeSkip_def getSize_def Let_def)

lemma buffer_op_keeps:
  assumes "buffer_well_formed s" "op_well_formed c s"
  shows "\<exists>status s'. run_buffer_op c s = Some (status, s') \<and> keeps_form s s'"
proof -
  have ok: "buffer_ok s" using assms(1) by (simp add: buffer_well_formed_def)
  note simple = put_value_keeps [OF ok] pointer_ops_keep [OF ok] skip_keeps [OF ok]
  show ?thesis
  proof (cases c)
    case (Put mode v)
    then show ?thesis using simple(1) by (metis run_buffer_op.simps(1) prod.collapse)
  next
    case (Get mode t)
    with get_value_keeps [OF assms(1), of mode t] show ?thesis by auto
  next
    case (Put_buffer mode val)
    with serialize_LinearBuffer_keeps [OF assms(1)] assms(2) show ?thesis by simp
  next
    case (Get_buffer mode val)
    with deserialize_LinearBuffer_keeps [OF assms(1), of val mode] assms(2) show ?thesis by auto
  next
    case (Skip_ser n)
    then show ?thesis using simple(2) by (metis run_buffer_op.simps(5) prod.collapse)
  next
    case (Skip_deser n)
    then show ?thesis using simple(8) by (metis run_buffer_op.simps(6) prod.collapse)
  next
    case (Move_ser n)
    then show ?thesis using simple(3) by (metis run_buffer_op.simps(7) prod.collapse)
  next
    case (Move_deser n)
    then show ?thesis using simple(4) by (metis run_buffer_op.simps(8) prod.collapse)
  next
    case (Set_buff src n)
    with setBuff_keeps [OF assms(1)] assms(2) show ?thesis by simp
  next
    case (Set_len n)
    then show ?thesis using simple(7) by (metis run_buffer_op.simps(12) prod.collapse)
  next
    case (Copy_out dest n)
    with copyRaw_keeps [OF assms(1), of dest n] assms(2) show ?thesis by auto
  next
    case (Append_out dest n)
    with copyRawOffset_keeps [OF assms(1), of dest n] assms(2) show ?thesis by auto
  next
    case (Copy_in src n)
    with copyRaw_keeps [OF _ assms(1), of src n] assms(2) show ?thesis by auto
  next
    case (Append_in src n)
    with copyRawOffset_keeps [OF _ assms(1), of src n] assms(2) show ?thesis by auto
  next
    case (Copy_from src)
    with copyFrom_keeps [OF assms(1), of src] assms(2) show ?thesis by auto
  qed (use simple in simp_all)
qed

section \<open>Properties\<close>

text \<open>A program on one buffer: a sequence of operations, whatever their statuses.\<close>

fun run_buffer_ops :: "buffer_op list \<Rightarrow> LinearBuffer \<Rightarrow> (SerializeStatus list \<times> LinearBuffer) option" where
  "run_buffer_ops [] s = Some ([], s)"
| "run_buffer_ops (c # cs) s = do {
     (status, s) \<leftarrow> run_buffer_op c s;
     (statuses, s) \<leftarrow> run_buffer_ops cs s;
     Some (status # statuses, s)
   }"

lemma op_well_formed_cong: "length (lb_mem s) = length (lb_mem s') \<Longrightarrow> op_well_formed c s = op_well_formed c s'"
  by (cases c) (simp_all add: getCapacity_def)



text \<open>
  C39: Serialization round trip: whatever values of any types and byte orders fit behind what is already in the buffer are written
  there in their representation, and reading the same types back from that position gives the same values and ends
  behind them; what does not fit is refused with \<^verbatim>\<open>FW_SERIALIZE_NO_ROOM_LEFT\<close>, and what was in the buffer is kept.
\<close>

theorem values_roundtrip:
  assumes "buffer_well_formed s" "list_all (value_ok \<circ> snd) vs"
  shows "case put_values vs s of (status, s') \<Rightarrow>
    getCapacity s' = getCapacity s \<and> take (m_serLoc s) (written s') = written s \<and>
    (if m_serLoc s + length (values_bytes vs) \<le> getCapacity s
     then status = FW_SERIALIZE_OK \<and> written s' = written s @ values_bytes vs \<and>
       get_values (map (apsnd type_of_value) vs) (s'\<lparr>m_deserLoc := m_serLoc s\<rparr>) =
         Some (FW_SERIALIZE_OK, map snd vs, s'\<lparr>m_deserLoc := m_serLoc s'\<rparr>)
     else status = FW_SERIALIZE_NO_ROOM_LEFT)"
proof (cases "m_serLoc s + length (values_bytes vs) \<le> getCapacity s")
  case True
  have ok: "m_serLoc s \<le> length (lb_mem s)" "lb_mem s \<noteq> []" using assms(1) by (simp_all add: buffer_well_formed_def buffer_ok_def)
  have fits: "m_serLoc s + length (values_bytes vs) \<le> length (lb_mem s)" using True by (simp add: getCapacity_def)
  obtain s' where s': "put_values vs s = (FW_SERIALIZE_OK, s')" "length (lb_mem s') = length (lb_mem s)"
    "written s' = written s @ values_bytes vs" "m_serLoc s' = m_serLoc s + length (values_bytes vs)"
    using put_values_fits [OF assms(2) _ fits] fits by (cases "vs = []") auto
  let ?t = "s'\<lparr>m_deserLoc := m_serLoc s\<rparr>"
  have w: "length (written s) = m_serLoc s" using ok(1) by (simp add: written_def)
  have "buffer_ok ?t" "lb_mem ?t \<noteq> []" using s'(2,4) fits ok(2) by (auto simp: buffer_ok_def)
  moreover have "drop (m_deserLoc ?t) (written ?t) = values_bytes vs @ []" using s'(3) w by (simp add: written_def)
  ultimately have "get_values (map (apsnd type_of_value) vs) ?t = Some (FW_SERIALIZE_OK, map snd vs, s'\<lparr>m_deserLoc := m_serLoc s'\<rparr>)"
    using get_values_written [of ?t vs "[]"] assms(2) s'(4) by simp
  with s' w True show ?thesis by (simp add: getCapacity_def)
next
  case False
  moreover have "m_serLoc s \<le> length (lb_mem s)" using assms(1) by (simp add: buffer_well_formed_def buffer_ok_def)
  ultimately show ?thesis
    using put_values_refused [OF assms(2), of s] by (auto simp: getCapacity_def)
qed

theorem values_roundtrip_witness:
  "fst (put_values [(LITTLE, V_I16 (- 2)), (BIG, V_bool True)] \<lparr>lb_mem = [0, 0, 0], m_serLoc = 0, m_deserLoc = 0\<rparr>) = FW_SERIALIZE_OK"
  using values_roundtrip [of "\<lparr>lb_mem = [0, 0, 0], m_serLoc = 0, m_deserLoc = 0\<rparr>" "[(LITTLE, V_I16 (- 2)), (BIG, V_bool True)]"]
  by (auto simp: buffer_well_formed_def buffer_ok_def getCapacity_def split: prod.splits)

section \<open>Where the class fails\<close>

text \<open>A byte string with 65536 bytes or more is stored with its length modulo \<open>2\<^sup>1\<^sup>6\<close>, and the status says that all went well.\<close>

lemma long_length_truncated:
  assumes "m_serLoc s + 2 + length bs \<le> getCapacity s"
  shows "serialize_buff bs INCLUDE_LENGTH mode s = (FW_SERIALIZE_OK, store_bytes (U16_bytes mode (of_nat (length bs mod 2 ^ 16)) @ bs) s)"
proof -
  have "(of_nat (length bs) :: u16) = of_nat (length bs mod 2 ^ 16)" by (rule word_of_nat_eq_iff [THEN iffD2]) (simp add: take_bit_eq_mod)
  with assms show ?thesis
    by (simp add: serialize_buff_def serialize_U16_def put_bytes_def getCapacity_def store_bytes_append)
qed

text \<open>The room left in an empty buffer cannot be asked for: the assertion is about the position, which is 0.\<close>

lemma room_left_of_empty: "getSerializeSizeLeft s \<noteq> None \<longleftrightarrow> \<not> 2 ^ 32 dvd m_serLoc s"
  by (simp add: getSerializeSizeLeft_def word_of_nat_eq_0_iff)

end
