(* ===== verification/Cmd_Dispatcher.thy ===== *)
theory Cmd_Dispatcher
  imports Serial_Values Packet_Router "HOL-Library.Multiset"
begin

text \<open>
  The command dispatcher \<^verbatim>\<open>Svc/CmdDispatcher/CommandDispatcherImpl.cpp\<close> behind the router, with the packets of
  \<^verbatim>\<open>Fw/Cmd/CmdPacket.cpp\<close>: the table of registered operation codes, the tracker of the commands in execution, and
  all handlers. A handler returns what it sends on its ports and reports, in order; \<open>None\<close> is a failed assertion.
\<close>

section \<open>Command packets\<close>

definition FW_CMD_ARG_BUFFER_MAX_SIZE :: nat where
  "FW_CMD_ARG_BUFFER_MAX_SIZE = FW_COM_BUFFER_MAX_SIZE - 4 - 2"

record CmdPacket =
  cp_type :: u16
  cp_opcode :: u32
  cp_argBuffer :: LinearBuffer

definition CmdPacket_new :: "(nat \<Rightarrow> u8) \<Rightarrow> CmdPacket" where
  "CmdPacket_new garbage = \<lparr>cp_type = FW_PACKET_COMMAND, cp_opcode = 0,
     cp_argBuffer = \<lparr>lb_mem = map garbage [0..<FW_CMD_ARG_BUFFER_MAX_SIZE], m_serLoc = 0, m_deserLoc = 0\<rparr>\<rparr>"

definition ComPacket_deserializeBase :: "CmdPacket \<Rightarrow> LinearBuffer \<Rightarrow> SerializeStatus \<times> CmdPacket \<times> LinearBuffer" where
  "ComPacket_deserializeBase pkt buffer = (case deserialize_U16 BIG buffer of
       (stat, Some serVal, buffer) \<Rightarrow> (stat, pkt\<lparr>cp_type := serVal\<rparr>, buffer)
     | (stat, None, buffer) \<Rightarrow> (stat, pkt, buffer))"

definition CmdPacket_deserializeFrom :: "CmdPacket \<Rightarrow> LinearBuffer \<Rightarrow> (SerializeStatus \<times> CmdPacket \<times> LinearBuffer) option" where
  "CmdPacket_deserializeFrom pkt buffer =
     (let (stat, pkt, buffer) = ComPacket_deserializeBase pkt buffer in
      if stat \<noteq> FW_SERIALIZE_OK then Some (stat, pkt, buffer)
      else if cp_type pkt \<noteq> FW_PACKET_COMMAND then Some (FW_DESERIALIZE_TYPE_MISMATCH, pkt, buffer)
      else (case deserialize_U32 BIG buffer of
          (stat, None, buffer) \<Rightarrow> Some (stat, pkt, buffer)
        | (stat, Some opcode, buffer) \<Rightarrow> do {
            let pkt = pkt\<lparr>cp_opcode := opcode\<rparr>;
            left \<leftarrow> getDeserializeSizeLeft buffer;
            if left \<noteq> 0 then do {
              (stat, buffer, args) \<leftarrow> copyRaw (cp_argBuffer pkt) left buffer;
              Some (stat, pkt\<lparr>cp_argBuffer := args\<rparr>, buffer)
            }
            else Some (stat, pkt, buffer)
          }))"

section \<open>The component\<close>

datatype CmdResponse = CMD_OK | INVALID_OPCODE | VALIDATION_ERROR | CMD_FORMAT_ERROR | EXECUTION_ERROR | CMD_BUSY

record DispatchEntry =
  de_used :: bool
  de_opcode :: u32
  de_port :: nat

record SequenceTracker =
  st_used :: bool
  st_seq :: u32
  st_opCode :: u32
  st_context :: u32
  st_callerPort :: nat

record CmdDispatcher =
  m_entryTable :: "DispatchEntry list"
  m_sequenceTracker :: "SequenceTracker list"
  cd_seq :: u32
  m_numCmdsDispatched :: u32
  m_numCmdErrors :: u32
  m_numCmdsDropped :: u32

definition CMD_DISPATCHER_DISPATCH_TABLE_SIZE :: nat where "CMD_DISPATCHER_DISPATCH_TABLE_SIZE = 100"
definition CMD_DISPATCHER_SEQUENCER_TABLE_SIZE :: nat where "CMD_DISPATCHER_SEQUENCER_TABLE_SIZE = 25"

definition CmdDispatcher_new :: CmdDispatcher where
  "CmdDispatcher_new = \<lparr>m_entryTable = replicate CMD_DISPATCHER_DISPATCH_TABLE_SIZE \<lparr>de_used = False, de_opcode = 0, de_port = 0\<rparr>,
     m_sequenceTracker = replicate CMD_DISPATCHER_SEQUENCER_TABLE_SIZE
       \<lparr>st_used = False, st_seq = 0, st_opCode = 0, st_context = 0, st_callerPort = 0\<rparr>,
     cd_seq = 0, m_numCmdsDispatched = 0, m_numCmdErrors = 0, m_numCmdsDropped = 0\<rparr>"

datatype cmd_event =
    OpCodeRegistered u32 nat nat
  | OpCodeDispatched u32 nat
  | OpCodeCompleted u32
  | OpCodeError u32 CmdResponse
  | MalformedCommand SerializeStatus
  | InvalidCommand u32
  | TooManyCommands u32
  | NoOpReceived
  | NoOpStringReceived bytes
  | TestCmd1Args int u32 u8
  | OpCodeReregistered u32 nat
  | CommandDroppedQueueOverflow u32 u32

text \<open>What goes out: commands to components, statuses to the senders of commands, responses to its own commands, events, telemetry, pings.\<close>

datatype dispatcher_output =
    compCmdSend nat u32 u32 bytes
  | seqCmdStatus nat u32 u32 CmdResponse
  | cmdResponse_out u32 u32 CmdResponse
  | Cmd_log cmd_event
  | Cmd_telemetry u32 u32 u32
  | pingOut u32

text \<open>Which ports are connected, and how many ports for statuses there are.\<close>

record dispatcher_ports =
  compCmdSend_connected :: "nat \<Rightarrow> bool"
  seqCmdStatus_connected :: "nat \<Rightarrow> bool"
  num_seqCmdStatus :: nat

text \<open>The loop over the table of operation codes: the rest of the table, whether a slot was found, and the events.\<close>

fun reg_loop :: "nat \<Rightarrow> u32 \<Rightarrow> nat \<Rightarrow> bool \<Rightarrow> DispatchEntry list \<Rightarrow> (DispatchEntry list \<times> bool \<times> dispatcher_output list) option" where
  "reg_loop portNum opCode slot slotFound [] = Some ([], slotFound, [])"
| "reg_loop portNum opCode slot slotFound (e # es) =
     (if \<not> de_used e \<and> \<not> slotFound then
        map_option (\<lambda>(es', found, out). (e\<lparr>de_opcode := opCode, de_port := portNum, de_used := True\<rparr> # es', found,
          Cmd_log (OpCodeRegistered opCode portNum slot) # out)) (reg_loop portNum opCode (Suc slot) True es)
      else if de_used e \<and> de_opcode e = opCode \<and> de_port e = portNum \<and> \<not> slotFound then
        map_option (\<lambda>(es', found, out). (e # es', found, Cmd_log (OpCodeReregistered opCode portNum) # out))
          (reg_loop portNum opCode (Suc slot) True es)
      else if de_used e then do {
        FW_ASSERT (de_opcode e \<noteq> opCode);
        map_option (\<lambda>(es', found, out). (e # es', found, out)) (reg_loop portNum opCode (Suc slot) slotFound es)
      }
      else map_option (\<lambda>(es', found, out). (e # es', found, out)) (reg_loop portNum opCode (Suc slot) slotFound es))"

definition compCmdReg :: "nat \<Rightarrow> u32 \<Rightarrow> CmdDispatcher \<Rightarrow> (CmdDispatcher \<times> dispatcher_output list) option" where
  "compCmdReg portNum opCode c = do {
     (table, slotFound, out) \<leftarrow> reg_loop portNum opCode 0 False (m_entryTable c);
     FW_ASSERT slotFound;
     Some (c\<lparr>m_entryTable := table\<rparr>, out)
   }"

text \<open>The first slot of a table with a property, as the search loops find it.\<close>

fun first_slot :: "('a \<Rightarrow> bool) \<Rightarrow> 'a list \<Rightarrow> nat option" where
  "first_slot P [] = None"
| "first_slot P (x # xs) = (if P x then Some 0 else map_option Suc (first_slot P xs))"

definition compCmdStat :: "dispatcher_ports \<Rightarrow> u32 \<Rightarrow> u32 \<Rightarrow> CmdResponse \<Rightarrow> CmdDispatcher \<Rightarrow> (CmdDispatcher \<times> dispatcher_output list) option" where
  "compCmdStat p opCode cmdSeq response c = do {
     let (c, out) = (if response = CMD_OK then (c, [Cmd_log (OpCodeCompleted opCode)])
       else (c\<lparr>m_numCmdErrors := m_numCmdErrors c + 1\<rparr>, [Cmd_log (OpCodeError opCode response)]));
     (case first_slot (\<lambda>s. st_seq s = cmdSeq \<and> st_used s) (m_sequenceTracker c) of
        None \<Rightarrow> Some (c, out)
      | Some pending \<Rightarrow> do {
          let s = m_sequenceTracker c ! pending;
          FW_ASSERT (opCode = st_opCode s);
          FW_ASSERT (st_callerPort s < num_seqCmdStatus p);
          let c = c\<lparr>m_sequenceTracker := (m_sequenceTracker c)[pending := s\<lparr>st_used := False\<rparr>]\<rparr>;
          Some (c, out @ (if seqCmdStatus_connected p (st_callerPort s)
            then [seqCmdStatus (st_callerPort s) opCode (st_context s) response] else []))
        })
   }"

definition report_status :: "dispatcher_ports \<Rightarrow> nat \<Rightarrow> u32 \<Rightarrow> u32 \<Rightarrow> CmdResponse \<Rightarrow> dispatcher_output list" where
  "report_status p portNum opCode ctx response =
     (if seqCmdStatus_connected p portNum then [seqCmdStatus portNum opCode ctx response] else [])"

text \<open>Tracking a command in the first free slot; \<open>None\<close> if there is none. A sender without a status port is not tracked.\<close>

definition track :: "dispatcher_ports \<Rightarrow> nat \<Rightarrow> u32 \<Rightarrow> u32 \<Rightarrow> CmdDispatcher \<Rightarrow> CmdDispatcher option" where
  "track p portNum opCode ctx c =
     (if seqCmdStatus_connected p portNum then
        map_option (\<lambda>pending. c\<lparr>m_sequenceTracker := (m_sequenceTracker c)[pending :=
            \<lparr>st_used = True, st_seq = cd_seq c, st_opCode = opCode, st_context = ctx, st_callerPort = portNum\<rparr>]\<rparr>)
          (first_slot (\<lambda>s. \<not> st_used s) (m_sequenceTracker c))
      else Some c)"

definition seqCmdBuff :: "dispatcher_ports \<Rightarrow> (nat \<Rightarrow> u8) \<Rightarrow> nat \<Rightarrow> LinearBuffer \<Rightarrow> u32 \<Rightarrow> CmdDispatcher \<Rightarrow> (CmdDispatcher \<times> dispatcher_output list) option" where
  "seqCmdBuff p garbage portNum data ctx c = do {
     (stat, cmdPkt, _) \<leftarrow> CmdPacket_deserializeFrom (CmdPacket_new garbage) data;
     let opCode = cp_opcode cmdPkt;
     if stat \<noteq> FW_SERIALIZE_OK then
       Some (c, Cmd_log (MalformedCommand stat) # report_status p portNum opCode ctx VALIDATION_ERROR)
     else
       (case first_slot (\<lambda>e. de_used e \<and> opCode = de_opcode e) (m_entryTable c) of
          Some entry \<Rightarrow>
            let port = de_port (m_entryTable c ! entry) in
            if compCmdSend_connected p port then
              (case track p portNum opCode ctx c of
                 None \<Rightarrow> Some (c, Cmd_log (TooManyCommands opCode) # report_status p portNum opCode ctx EXECUTION_ERROR)
               | Some c \<Rightarrow> Some (c\<lparr>m_numCmdsDispatched := m_numCmdsDispatched c + 1, cd_seq := cd_seq c + 1\<rparr>,
                   [compCmdSend port opCode (cd_seq c) (written (cp_argBuffer cmdPkt)), Cmd_log (OpCodeDispatched opCode port)]))
            else Some (c\<lparr>m_numCmdErrors := m_numCmdErrors c + 1, cd_seq := cd_seq c + 1\<rparr>,
              Cmd_log (InvalidCommand opCode) # report_status p portNum opCode ctx INVALID_OPCODE)
        | None \<Rightarrow> Some (c\<lparr>m_numCmdErrors := m_numCmdErrors c + 1, cd_seq := cd_seq c + 1\<rparr>,
            Cmd_log (InvalidCommand opCode) # report_status p portNum opCode ctx INVALID_OPCODE))
   }"

definition dispatcher_run :: "CmdDispatcher \<Rightarrow> dispatcher_output list" where
  "dispatcher_run c = [Cmd_telemetry (m_numCmdsDropped c) (m_numCmdErrors c) (m_numCmdsDispatched c)]"

definition CMD_NO_OP :: "u32 \<Rightarrow> u32 \<Rightarrow> dispatcher_output list" where
  "CMD_NO_OP opCode cmdSeq = [Cmd_log NoOpReceived, cmdResponse_out opCode cmdSeq CMD_OK]"

definition CMD_NO_OP_STRING :: "u32 \<Rightarrow> u32 \<Rightarrow> bytes \<Rightarrow> dispatcher_output list" where
  "CMD_NO_OP_STRING opCode cmdSeq arg1 = [Cmd_log (NoOpStringReceived arg1), cmdResponse_out opCode cmdSeq CMD_OK]"

definition CMD_TEST_CMD_1 :: "u32 \<Rightarrow> u32 \<Rightarrow> int \<Rightarrow> u32 \<Rightarrow> u8 \<Rightarrow> dispatcher_output list" where
  "CMD_TEST_CMD_1 opCode cmdSeq arg1 arg2 arg3 = [Cmd_log (TestCmd1Args arg1 arg2 arg3), cmdResponse_out opCode cmdSeq CMD_OK]"

definition CMD_CLEAR_TRACKING :: "u32 \<Rightarrow> u32 \<Rightarrow> CmdDispatcher \<Rightarrow> CmdDispatcher \<times> dispatcher_output list" where
  "CMD_CLEAR_TRACKING opCode cmdSeq c =
     (c\<lparr>m_sequenceTracker := map (\<lambda>s. s\<lparr>st_used := False\<rparr>) (m_sequenceTracker c)\<rparr>, [cmdResponse_out opCode cmdSeq CMD_OK])"

definition dispatcher_pingIn :: "u32 \<Rightarrow> dispatcher_output list" where
  "dispatcher_pingIn key = [pingOut key]"

definition seqCmdBuff_overflowHook :: "(nat \<Rightarrow> u8) \<Rightarrow> LinearBuffer \<Rightarrow> u32 \<Rightarrow> CmdDispatcher \<Rightarrow> (CmdDispatcher \<times> dispatcher_output list) option" where
  "seqCmdBuff_overflowHook garbage data ctx c = do {
     (stat, cmdPkt, _) \<leftarrow> CmdPacket_deserializeFrom (CmdPacket_new garbage) data;
     let opcode = (if stat = FW_SERIALIZE_OK then cp_opcode cmdPkt else 0);
     Some (c\<lparr>m_numCmdsDropped := m_numCmdsDropped c + 1\<rparr>, [Cmd_log (CommandDroppedQueueOverflow opcode ctx)])
   }"

text \<open>
  The calls the dispatcher gets, one handler after the other; the parameter \<open>g\<close> is what lies on the stack where a handler puts
  its packet.
\<close>

datatype dispatcher_call =
    Register nat u32
  | Command nat LinearBuffer u32
  | Completed u32 u32 CmdResponse
  | Telemetry
  | Ping u32
  | Overflow LinearBuffer u32
  | No_op u32 u32
  | No_op_string u32 u32 bytes
  | Test_cmd_1 u32 u32 int u32 u8
  | Clear_tracking u32 u32

fun dispatcher_handle :: "dispatcher_ports \<Rightarrow> (CmdDispatcher \<Rightarrow> nat \<Rightarrow> u8) \<Rightarrow> dispatcher_call \<Rightarrow> CmdDispatcher \<Rightarrow>
    (CmdDispatcher \<times> dispatcher_output list) option" where
  "dispatcher_handle p g (Register portNum opCode) c = compCmdReg portNum opCode c"
| "dispatcher_handle p g (Command portNum data ctx) c = seqCmdBuff p (g c) portNum data ctx c"
| "dispatcher_handle p g (Completed opCode cmdSeq response) c = compCmdStat p opCode cmdSeq response c"
| "dispatcher_handle p g Telemetry c = Some (c, dispatcher_run c)"
| "dispatcher_handle p g (Ping key) c = Some (c, dispatcher_pingIn key)"
| "dispatcher_handle p g (Overflow data ctx) c = seqCmdBuff_overflowHook (g c) data ctx c"
| "dispatcher_handle p g (No_op opCode cmdSeq) c = Some (c, CMD_NO_OP opCode cmdSeq)"
| "dispatcher_handle p g (No_op_string opCode cmdSeq arg) c = Some (c, CMD_NO_OP_STRING opCode cmdSeq arg)"
| "dispatcher_handle p g (Test_cmd_1 opCode cmdSeq a b d) c = Some (c, CMD_TEST_CMD_1 opCode cmdSeq a b d)"
| "dispatcher_handle p g (Clear_tracking opCode cmdSeq) c = Some (CMD_CLEAR_TRACKING opCode cmdSeq c)"

fun run_dispatcher :: "dispatcher_ports \<Rightarrow> (CmdDispatcher \<Rightarrow> nat \<Rightarrow> u8) \<Rightarrow> dispatcher_call list \<Rightarrow> CmdDispatcher \<Rightarrow>
    (CmdDispatcher \<times> dispatcher_output list) option" where
  "run_dispatcher p g [] c = Some (c, [])"
| "run_dispatcher p g (call # calls) c = do {
     (c, out) \<leftarrow> dispatcher_handle p g call c;
     (c, outs) \<leftarrow> run_dispatcher p g calls c;
     Some (c, out @ outs)
   }"

section \<open>Packets\<close>

text \<open>What the bytes of a packet mean: the status, the operation code and the arguments.\<close>

definition decode_command :: "bytes \<Rightarrow> SerializeStatus \<times> u32 \<times> bytes" where
  "decode_command bs =
     (if bs = [] then (FW_DESERIALIZE_BUFFER_EMPTY, 0, [])
      else if length bs < 2 then (FW_DESERIALIZE_SIZE_MISMATCH, 0, [])
      else if U16_of BIG (take 2 bs) \<noteq> FW_PACKET_COMMAND then (FW_DESERIALIZE_TYPE_MISMATCH, 0, [])
      else if length bs = 2 then (FW_DESERIALIZE_BUFFER_EMPTY, 0, [])
      else if length bs < 6 then (FW_DESERIALIZE_SIZE_MISMATCH, 0, [])
      else (FW_SERIALIZE_OK, U32_of BIG (take 4 (drop 2 bs)), drop 6 bs))"

text \<open>A communication buffer as it comes out of a port: not read yet, and with its bytes inside.\<close>

definition com_ok :: "LinearBuffer \<Rightarrow> bool" where
  "com_ok s \<longleftrightarrow> m_deserLoc s = 0 \<and> m_serLoc s \<le> length (lb_mem s) \<and> length (lb_mem s) = FW_COM_BUFFER_MAX_SIZE"

lemma decode_packet:
  assumes "com_ok s"
  shows "\<exists>status pkt s'. CmdPacket_deserializeFrom (CmdPacket_new garbage) s = Some (status, pkt, s') \<and>
    decode_command (written s) = (status, cp_opcode pkt, written (cp_argBuffer pkt))"
proof -
  have s: "m_deserLoc s = 0" "m_serLoc s \<le> length (lb_mem s)" "m_serLoc s \<le> 512" "lb_mem s \<noteq> []"
    using assms by (auto simp: com_ok_def FW_COM_BUFFER_MAX_SIZE_def)
  have len: "length (written s) = m_serLoc s" using s(2) by (simp add: written_def)
  have parts: "take 2 (lb_mem s) = take 2 (written s)" if "2 \<le> m_serLoc s" using that s by (simp add: written_def)
  show ?thesis
  proof (cases "m_serLoc s < 6")
    case True
    then show ?thesis
      using s len parts
      by (auto simp: CmdPacket_deserializeFrom_def ComPacket_deserializeBase_def deserialize_U16_def deserialize_U32_def get_bytes_def
          deserializeSkip_def getSize_def decode_command_def CmdPacket_new_def written_def)
  next
    case False
    have "take 4 (drop 2 (lb_mem s)) = take 4 (drop 2 (written s))" "drop 6 (written s) = take (m_serLoc s - 6) (drop 6 (lb_mem s))"
      using False s by (simp_all add: written_def drop_take min_def)
    then show ?thesis
      using False s len parts
      by (auto simp: CmdPacket_deserializeFrom_def ComPacket_deserializeBase_def deserialize_U16_def deserialize_U32_def get_bytes_def
          deserializeSkip_def getSize_def decode_command_def CmdPacket_new_def getDeserializeSizeLeft_def copyRaw_def getCapacity_def
          buffAddrLeft_def setBuff_def FW_CMD_ARG_BUFFER_MAX_SIZE_def FW_COM_BUFFER_MAX_SIZE_def Let_def written_def numeral_2_eq_2)
  qed
qed

section \<open>The tables\<close>

text \<open>What a table of operation codes and a tracker hold.\<close>

definition routes :: "DispatchEntry list \<Rightarrow> u32 \<Rightarrow> nat option" where
  "routes t opCode = map_option de_port (find (\<lambda>e. de_used e \<and> de_opcode e = opCode) t)"

definition pendings :: "SequenceTracker list \<Rightarrow> u32 \<Rightarrow> (u32 \<times> u32 \<times> nat) option" where
  "pendings t q = map_option (\<lambda>s. (st_opCode s, st_context s, st_callerPort s)) (find (\<lambda>s. st_used s \<and> st_seq s = q) t)"

lemma routes_simps [simp]:
  "routes [] q = None" "routes (e # es) q = (if de_used e \<and> de_opcode e = q then Some (de_port e) else routes es q)"
  by (simp_all add: routes_def)

lemma pendings_simps [simp]:
  "pendings [] q = None"
  "pendings (s # ss) q = (if st_used s \<and> st_seq s = q then Some (st_opCode s, st_context s, st_callerPort s) else pendings ss q)"
  by (simp_all add: pendings_def)

lemma first_slot_None: "first_slot P xs = None \<longleftrightarrow> (\<forall>x \<in> set xs. \<not> P x)"
  by (induction xs) auto

lemma first_slot_Some: "first_slot P xs = Some i \<Longrightarrow> i < length xs \<and> P (xs ! i)"
  by (induction xs arbitrary: i) (auto split: if_splits)

lemma first_slot_route: "map_option (\<lambda>i. de_port (t ! i)) (first_slot (\<lambda>e. de_used e \<and> q = de_opcode e) t) = routes t q"
  by (induction t) (auto simp: option.map_comp comp_def)

lemma first_slot_pending:
  "map_option (\<lambda>i. (st_opCode (t ! i), st_context (t ! i), st_callerPort (t ! i))) (first_slot (\<lambda>s. st_seq s = q \<and> st_used s) t) = pendings t q"
  by (induction t) (auto simp: option.map_comp comp_def)

text \<open>The used entries of the table of operation codes come first, and no code occurs twice.\<close>

definition entries_ok :: "DispatchEntry list \<Rightarrow> bool" where
  "entries_ok t \<longleftrightarrow> (\<exists>us fs. t = us @ fs \<and> list_all de_used us \<and> list_all (\<lambda>e. \<not> de_used e) fs \<and> distinct (map de_opcode us)) \<and>
     length t = CMD_DISPATCHER_DISPATCH_TABLE_SIZE"

lemma routes_used: "list_all de_used us \<Longrightarrow> list_all (\<lambda>e. \<not> de_used e) fs \<Longrightarrow> routes (us @ fs) = map_of (map (\<lambda>e. (de_opcode e, de_port e)) us)"
proof (induction us)
  case Nil
  then show ?case by (induction fs) (auto simp: fun_eq_iff)
qed (auto simp: fun_eq_iff)

lemma reg_loop_free: "list_all (\<lambda>e. \<not> de_used e) fs \<Longrightarrow> reg_loop port q n True fs = Some (fs, True, [])"
  by (induction fs arbitrary: n) simp_all

lemma reg_loop_rest:
  "list_all de_used us \<Longrightarrow> list_all (\<lambda>e. \<not> de_used e) fs \<Longrightarrow> q \<notin> de_opcode ` set us \<Longrightarrow>
   reg_loop port q n True (us @ fs) = Some (us @ fs, True, [])"
  by (induction us arbitrary: n) (auto simp: reg_loop_free)

lemma reg_loop_new:
  "list_all de_used us \<Longrightarrow> list_all (\<lambda>e. \<not> de_used e) fs \<Longrightarrow> q \<notin> de_opcode ` set us \<Longrightarrow>
   reg_loop port q n False (us @ fs) = (case fs of [] \<Rightarrow> Some (us, False, [])
     | f # fs' \<Rightarrow> Some (us @ f\<lparr>de_opcode := q, de_port := port, de_used := True\<rparr> # fs', True, [Cmd_log (OpCodeRegistered q port (n + length us))]))"
  by (induction us arbitrary: n) (auto simp: reg_loop_free split: list.splits)

lemma reg_loop_known:
  "list_all de_used us \<Longrightarrow> list_all (\<lambda>e. \<not> de_used e) fs \<Longrightarrow> distinct (map de_opcode us) \<Longrightarrow> e \<in> set us \<Longrightarrow> de_opcode e = q \<Longrightarrow>
   reg_loop port q n False (us @ fs) = (if de_port e = port then Some (us @ fs, True, [Cmd_log (OpCodeReregistered q port)]) else None)"
proof (induction us arbitrary: n)
  case (Cons u us)
  show ?case
  proof (cases "de_opcode u = q")
    case True
    then have "u = e" "q \<notin> de_opcode ` set us" using Cons.prems by (auto simp: image_iff)
    with True Cons.prems show ?thesis by (auto simp: reg_loop_rest)
  next
    case False
    with Cons show ?thesis by auto
  qed
qed simp

lemma routes_free: "list_all (\<lambda>e. \<not> de_used e) fs \<Longrightarrow> routes fs q = None"
  by (induction fs) simp_all

lemma routes_new:
  "list_all (\<lambda>e. \<not> de_used e) fs \<Longrightarrow> list_all (\<lambda>e. \<not> de_used e) fs' \<Longrightarrow> routes (us @ fs) (de_opcode f) = None \<Longrightarrow> de_used f \<Longrightarrow>
   routes (us @ f # fs') = (routes (us @ fs))(de_opcode f \<mapsto> de_port f)"
  by (induction us) (auto simp: fun_eq_iff routes_free split: if_splits)

text \<open>Registration is an update of the map of routes.\<close>

lemma register_routes:
  assumes "entries_ok (m_entryTable c)"
  shows "(case routes (m_entryTable c) opCode of
       Some port' \<Rightarrow> compCmdReg port opCode c =
         (if port' = port then Some (c, [Cmd_log (OpCodeReregistered opCode port)]) else None)
     | None \<Rightarrow> (let n = card (dom (routes (m_entryTable c))) in
         if n < CMD_DISPATCHER_DISPATCH_TABLE_SIZE then \<exists>t. compCmdReg port opCode c = Some (c\<lparr>m_entryTable := t\<rparr>, [Cmd_log (OpCodeRegistered opCode port n)]) \<and>
           entries_ok t \<and> routes t = (routes (m_entryTable c))(opCode \<mapsto> port)
         else compCmdReg port opCode c = None))"
proof -
  obtain us fs where t: "m_entryTable c = us @ fs" "list_all de_used us" "list_all (\<lambda>e. \<not> de_used e) fs" "distinct (map de_opcode us)"
    "length us + length fs = CMD_DISPATCHER_DISPATCH_TABLE_SIZE"
    using assms by (auto simp: entries_ok_def)
  note r = routes_used [OF t(2,3)]
  have card: "card (dom (routes (us @ fs))) = length us"
    unfolding r dom_map_of_conv_image_fst using distinct_card [OF t(4)] by (simp add: image_image)
  show ?thesis
  proof (cases "opCode \<in> de_opcode ` set us")
    case True
    then obtain e where e: "e \<in> set us" "de_opcode e = opCode" by blast
    then have "routes (us @ fs) opCode = Some (de_port e)"
      unfolding r using t(4) by (intro map_of_is_SomeI) (auto simp: comp_def)
    moreover have "c\<lparr>m_entryTable := us @ fs\<rparr> = c" using t(1) by simp
    ultimately show ?thesis
      using reg_loop_known [OF t(2,3,4) e, of port 0] t(1) by (auto simp: compCmdReg_def)
  next
    case False
    then have none: "routes (us @ fs) opCode = None" unfolding r by (simp add: map_of_eq_None_iff image_image)
    note new = reg_loop_new [OF t(2,3) False, of port 0]
    show ?thesis
    proof (cases fs)
      case Nil
      then show ?thesis using new none card t(1,5) by (simp add: compCmdReg_def Let_def)
    next
      case (Cons f fs')
      let ?us = "us @ [f\<lparr>de_opcode := opCode, de_port := port, de_used := True\<rparr>]"
      have ok: "list_all de_used ?us" "list_all (\<lambda>e. \<not> de_used e) fs'" "distinct (map de_opcode ?us)" "length ?us + length fs' = length us + length fs"
        using t(2-4) False Cons by auto
      then have "entries_ok (?us @ fs')"
        using t(5) unfolding entries_ok_def by (intro conjI exI [of _ ?us] exI [of _ fs']) simp_all
      moreover have "routes (?us @ fs') = (routes (us @ fs))(opCode \<mapsto> port)"
        using routes_new [OF t(3) ok(2), of us "f\<lparr>de_opcode := opCode, de_port := port, de_used := True\<rparr>"] none by simp
      ultimately show ?thesis
        using new none card t(1,5) Cons by (auto simp: compCmdReg_def Let_def)
    qed
  qed
qed

text \<open>The tracker holds every sequence number once.\<close>

definition tracker_ok :: "SequenceTracker list \<Rightarrow> bool" where
  "tracker_ok t \<longleftrightarrow> distinct (map st_seq (filter st_used t)) \<and> length t = CMD_DISPATCHER_SEQUENCER_TABLE_SIZE"

lemma pendings_None: "pendings t q = None \<longleftrightarrow> (\<forall>s \<in> set t. st_used s \<longrightarrow> st_seq s \<noteq> q)"
  by (induction t) auto

lemma pendings_dom: "dom (pendings t) = st_seq ` set (filter st_used t)"
  unfolding dom_def pendings_None by auto

lemma pendings_card: "distinct (map st_seq (filter st_used t)) \<Longrightarrow> card (dom (pendings t)) = length (filter st_used t)"
  unfolding pendings_dom using distinct_card [of "map st_seq (filter st_used t)"] by simp

lemma no_free_slot: "first_slot (\<lambda>s. \<not> st_used s) t = None \<longleftrightarrow> length (filter st_used t) = length t"
proof (induction t)
  case (Cons s t)
  moreover have "length (filter st_used t) \<noteq> Suc (length t)" using length_filter_le [of st_used t] by linarith
  ultimately show ?case by auto
qed simp

lemma tracker_insert:
  "i < length t \<Longrightarrow> \<not> st_used (t ! i) \<Longrightarrow> st_used s \<Longrightarrow> st_seq s \<notin> dom (pendings t) \<Longrightarrow>
   pendings (t[i := s]) = (pendings t)(st_seq s \<mapsto> (st_opCode s, st_context s, st_callerPort s))"
proof (induction t arbitrary: i)
  case (Cons x t)
  then show ?case by (cases i) (auto simp: fun_eq_iff dom_def split: if_splits)
qed simp

lemma used_insert:
  "i < length t \<Longrightarrow> \<not> st_used (t ! i) \<Longrightarrow> st_used s \<Longrightarrow> mset (filter st_used (t[i := s])) = add_mset s (mset (filter st_used t))"
proof (induction t arbitrary: i)
  case (Cons x t)
  then show ?case by (cases i) auto
qed simp

lemma used_remove:
  "i < length t \<Longrightarrow> st_used (t ! i) \<Longrightarrow> \<not> st_used s \<Longrightarrow> add_mset (t ! i) (mset (filter st_used (t[i := s]))) = mset (filter st_used t)"
proof (induction t arbitrary: i)
  case (Cons x t)
  then show ?case by (cases i) (auto simp: add_mset_commute)
qed simp

lemma tracker_remove:
  "i < length t \<Longrightarrow> st_used (t ! i) \<Longrightarrow> \<not> st_used s \<Longrightarrow> distinct (map st_seq (filter st_used t)) \<Longrightarrow>
   pendings (t[i := s]) = (pendings t)(st_seq (t ! i) := None)"
proof (induction t arbitrary: i)
  case (Cons x t)
  show ?case
  proof (cases i)
    case 0
    then have "st_seq x \<notin> dom (pendings t)" using Cons.prems by (auto simp: pendings_dom)
    with 0 Cons.prems show ?thesis by (auto simp: fun_eq_iff dom_def)
  next
    case (Suc j)
    have "st_seq (t ! j) \<noteq> st_seq x" if "st_used x"
      using Cons.prems that Suc by (auto simp: image_iff)
    moreover have "pendings (t[j := s]) = (pendings t)(st_seq (t ! j) := None)"
      using Cons.IH [of j] Cons.prems Suc by (simp add: fun_upd_def split: if_splits)
    ultimately show ?thesis using Suc by (auto simp: fun_eq_iff)
  qed
qed simp

lemma distinct_mset_map: "mset xs = mset ys \<Longrightarrow> distinct (map f xs) = distinct (map f ys)"
  by (metis mset_eq_imp_distinct_iff mset_map)

lemma tracker_ok_insert:
  assumes "tracker_ok t" "i < length t" "\<not> st_used (t ! i)" "st_used s" "st_seq s \<notin> dom (pendings t)"
  shows "tracker_ok (t[i := s])"
proof -
  have "mset (filter st_used (t[i := s])) = mset (s # filter st_used t)" using used_insert [OF assms(2-4)] by simp
  from distinct_mset_map [OF this, of st_seq] show ?thesis
    using assms(1,5) by (auto simp: tracker_ok_def pendings_dom)
qed

lemma tracker_ok_remove:
  assumes "tracker_ok t" "i < length t" "st_used (t ! i)" "\<not> st_used s"
  shows "tracker_ok (t[i := s])"
proof -
  have "mset (filter st_used t) = mset (t ! i # filter st_used (t[i := s]))" using used_remove [OF assms(2-4)] by simp
  from distinct_mset_map [OF this, of st_seq] show ?thesis
    using assms(1) by (simp add: tracker_ok_def)
qed

section \<open>The abstract dispatcher\<close>

text \<open>Two maps: from operation codes to ports, and from the sequence numbers in execution to the command with its sender.\<close>

record dispatcher_spec =
  ds_routes :: "u32 \<Rightarrow> nat option"
  ds_pending :: "u32 \<Rightarrow> (u32 \<times> u32 \<times> nat) option"
  ds_next :: u32
  ds_dispatched :: u32
  ds_errors :: u32
  ds_dropped :: u32

definition spec_new :: dispatcher_spec where
  "spec_new = \<lparr>ds_routes = \<lambda>_. None, ds_pending = \<lambda>_. None, ds_next = 0, ds_dispatched = 0, ds_errors = 0, ds_dropped = 0\<rparr>"

definition spec_register :: "nat \<Rightarrow> u32 \<Rightarrow> dispatcher_spec \<Rightarrow> (dispatcher_spec \<times> dispatcher_output list) option" where
  "spec_register port opCode a = (case ds_routes a opCode of
       Some port' \<Rightarrow> if port' = port then Some (a, [Cmd_log (OpCodeReregistered opCode port)]) else None
     | None \<Rightarrow> let n = card (dom (ds_routes a)) in
         if n < CMD_DISPATCHER_DISPATCH_TABLE_SIZE
         then Some (a\<lparr>ds_routes := (ds_routes a)(opCode \<mapsto> port)\<rparr>, [Cmd_log (OpCodeRegistered opCode port n)]) else None)"

definition spec_command :: "dispatcher_ports \<Rightarrow> nat \<Rightarrow> bytes \<Rightarrow> u32 \<Rightarrow> dispatcher_spec \<Rightarrow> dispatcher_spec \<times> dispatcher_output list" where
  "spec_command p port bs ctx a = (case decode_command bs of (status, opCode, args) \<Rightarrow>
     if status \<noteq> FW_SERIALIZE_OK then (a, Cmd_log (MalformedCommand status) # report_status p port opCode ctx VALIDATION_ERROR)
     else (case ds_routes a opCode of
         Some target \<Rightarrow>
           if \<not> compCmdSend_connected p target then
             (a\<lparr>ds_errors := ds_errors a + 1, ds_next := ds_next a + 1\<rparr>, Cmd_log (InvalidCommand opCode) # report_status p port opCode ctx INVALID_OPCODE)
           else if seqCmdStatus_connected p port \<and> card (dom (ds_pending a)) = CMD_DISPATCHER_SEQUENCER_TABLE_SIZE then
             (a, Cmd_log (TooManyCommands opCode) # report_status p port opCode ctx EXECUTION_ERROR)
           else (a\<lparr>ds_pending := (if seqCmdStatus_connected p port then (ds_pending a)(ds_next a \<mapsto> (opCode, ctx, port)) else ds_pending a),
               ds_dispatched := ds_dispatched a + 1, ds_next := ds_next a + 1\<rparr>,
             [compCmdSend target opCode (ds_next a) args, Cmd_log (OpCodeDispatched opCode target)])
       | None \<Rightarrow> (a\<lparr>ds_errors := ds_errors a + 1, ds_next := ds_next a + 1\<rparr>,
           Cmd_log (InvalidCommand opCode) # report_status p port opCode ctx INVALID_OPCODE)))"

definition spec_completed :: "dispatcher_ports \<Rightarrow> u32 \<Rightarrow> u32 \<Rightarrow> CmdResponse \<Rightarrow> dispatcher_spec \<Rightarrow> (dispatcher_spec \<times> dispatcher_output list) option" where
  "spec_completed p opCode q response a = do {
     let (a, out) = (if response = CMD_OK then (a, [Cmd_log (OpCodeCompleted opCode)])
       else (a\<lparr>ds_errors := ds_errors a + 1\<rparr>, [Cmd_log (OpCodeError opCode response)]));
     (case ds_pending a q of
        None \<Rightarrow> Some (a, out)
      | Some (opCode', ctx, port) \<Rightarrow>
          if opCode = opCode' \<and> port < num_seqCmdStatus p
          then Some (a\<lparr>ds_pending := (ds_pending a)(q := None)\<rparr>, out @ report_status p port opCode ctx response) else None)
   }"

fun spec_handle :: "dispatcher_ports \<Rightarrow> dispatcher_call \<Rightarrow> dispatcher_spec \<Rightarrow> (dispatcher_spec \<times> dispatcher_output list) option" where
  "spec_handle p (Register port opCode) a = spec_register port opCode a"
| "spec_handle p (Command port data ctx) a = Some (spec_command p port (written data) ctx a)"
| "spec_handle p (Completed opCode q response) a = spec_completed p opCode q response a"
| "spec_handle p Telemetry a = Some (a, [Cmd_telemetry (ds_dropped a) (ds_errors a) (ds_dispatched a)])"
| "spec_handle p (Ping key) a = Some (a, [pingOut key])"
| "spec_handle p (Overflow data ctx) a = (case decode_command (written data) of (_, opCode, _) \<Rightarrow>
     Some (a\<lparr>ds_dropped := ds_dropped a + 1\<rparr>, [Cmd_log (CommandDroppedQueueOverflow opCode ctx)]))"
| "spec_handle p (No_op opCode q) a = Some (a, CMD_NO_OP opCode q)"
| "spec_handle p (No_op_string opCode q arg) a = Some (a, CMD_NO_OP_STRING opCode q arg)"
| "spec_handle p (Test_cmd_1 opCode q x y z) a = Some (a, CMD_TEST_CMD_1 opCode q x y z)"
| "spec_handle p (Clear_tracking opCode q) a = Some (a\<lparr>ds_pending := \<lambda>_. None\<rparr>, [cmdResponse_out opCode q CMD_OK])"

fun run_spec :: "dispatcher_ports \<Rightarrow> dispatcher_call list \<Rightarrow> dispatcher_spec \<Rightarrow> (dispatcher_spec \<times> dispatcher_output list) option" where
  "run_spec p [] a = Some (a, [])"
| "run_spec p (call # calls) a = do {
     (a, out) \<leftarrow> spec_handle p call a;
     (a, outs) \<leftarrow> run_spec p calls a;
     Some (a, out @ outs)
   }"

lemma run_spec_append:
  "run_spec p (xs @ ys) a = do { (a, out) \<leftarrow> run_spec p xs a; (a, outs) \<leftarrow> run_spec p ys a; Some (a, out @ outs) }"
  by (induction xs arbitrary: a) (auto split: bind_splits)

section \<open>The simulation\<close>

text \<open>
  What a state of the dispatcher stands for, and the invariant; every pending sequence number is below the next one, which holds as
  long as the counter has not wrapped around.
\<close>

definition dispatcher_abs :: "CmdDispatcher \<Rightarrow> dispatcher_spec" where
  "dispatcher_abs c = \<lparr>ds_routes = routes (m_entryTable c), ds_pending = pendings (m_sequenceTracker c), ds_next = cd_seq c,
     ds_dispatched = m_numCmdsDispatched c, ds_errors = m_numCmdErrors c, ds_dropped = m_numCmdsDropped c\<rparr>"

definition dispatcher_ok :: "CmdDispatcher \<Rightarrow> bool" where
  "dispatcher_ok c \<longleftrightarrow> entries_ok (m_entryTable c) \<and> tracker_ok (m_sequenceTracker c) \<and>
     (\<forall>q \<in> dom (pendings (m_sequenceTracker c)). q < cd_seq c)"

fun com_call_ok :: "dispatcher_call \<Rightarrow> bool" where
  "com_call_ok (Command port data ctx) = com_ok data"
| "com_call_ok (Overflow data ctx) = com_ok data"
| "com_call_ok _ = True"

text \<open>One handler does what the abstract machine does, keeps the invariant, and counts at most one further.\<close>

definition simulates :: "(CmdDispatcher \<times> dispatcher_output list) option \<Rightarrow> (dispatcher_spec \<times> dispatcher_output list) option \<Rightarrow> nat \<Rightarrow> bool" where
  "simulates r r' n \<longleftrightarrow> (case r of None \<Rightarrow> r' = None
     | Some (c, out) \<Rightarrow> r' = Some (dispatcher_abs c, out) \<and> dispatcher_ok c \<and> unat (cd_seq c) \<le> n)"

lemma dispatcher_new: "dispatcher_ok CmdDispatcher_new" "dispatcher_abs CmdDispatcher_new = spec_new" "cd_seq CmdDispatcher_new = 0"
proof -
  let ?es = "replicate CMD_DISPATCHER_DISPATCH_TABLE_SIZE \<lparr>de_used = False, de_opcode = 0, de_port = 0\<rparr>"
  have "entries_ok ?es" unfolding entries_ok_def by (intro conjI exI [of _ "[]"] exI [of _ ?es]) (simp_all add: list_all_iff)
  then show "dispatcher_ok CmdDispatcher_new"
    by (auto simp: dispatcher_ok_def CmdDispatcher_new_def tracker_ok_def pendings_dom)
  have "routes ?es = (\<lambda>_. None)" by (simp add: fun_eq_iff routes_free list_all_iff)
  moreover have "pendings (replicate k \<lparr>st_used = False, st_seq = 0, st_opCode = 0, st_context = 0, st_callerPort = 0\<rparr>) = (\<lambda>_. None)" for k
    by (simp add: fun_eq_iff pendings_None)
  ultimately show "dispatcher_abs CmdDispatcher_new = spec_new"
    by (simp add: dispatcher_abs_def spec_new_def CmdDispatcher_new_def)
qed (simp add: CmdDispatcher_new_def)

lemma register_simulates:
  assumes "dispatcher_ok c" "unat (cd_seq c) \<le> n"
  shows "simulates (compCmdReg port opCode c) (spec_register port opCode (dispatcher_abs c)) n"
proof -
  have "entries_ok (m_entryTable c)" using assms(1) by (simp add: dispatcher_ok_def)
  note reg = register_routes [OF this, where opCode = opCode and port = port]
  show ?thesis
  proof (cases "routes (m_entryTable c) opCode")
    case (Some port')
    with reg assms show ?thesis by (simp add: simulates_def spec_register_def dispatcher_abs_def)
  next
    case None
    with reg assms show ?thesis
      by (auto simp: simulates_def spec_register_def dispatcher_abs_def dispatcher_ok_def Let_def split: if_splits)
  qed
qed

lemma status_reported: "(if seqCmdStatus_connected p port then [seqCmdStatus port opCode ctx response] else []) =
    report_status p port opCode ctx response"
  by (simp add: report_status_def)

lemma completed_simulates:
  assumes "dispatcher_ok c" "unat (cd_seq c) \<le> n"
  shows "simulates (compCmdStat p opCode q response c) (spec_completed p opCode q response (dispatcher_abs c)) n"
proof -
  define c' where "c' = (if response = CMD_OK then c else c\<lparr>m_numCmdErrors := m_numCmdErrors c + 1\<rparr>)"
  define out where "out = (if response = CMD_OK then [Cmd_log (OpCodeCompleted opCode)] else [Cmd_log (OpCodeError opCode response)])"
  have same: "m_sequenceTracker c' = m_sequenceTracker c" "m_entryTable c' = m_entryTable c" "cd_seq c' = cd_seq c" by (simp_all add: c'_def)
  let ?t = "m_sequenceTracker c"
  have first: "map_option (\<lambda>i. (st_opCode (?t ! i), st_context (?t ! i), st_callerPort (?t ! i)))
      (first_slot (\<lambda>s. st_seq s = q \<and> st_used s) ?t) = pendings ?t q"
    by (rule first_slot_pending)
  have abs: "spec_completed p opCode q response (dispatcher_abs c) = (case ds_pending (dispatcher_abs c') q of None \<Rightarrow> Some (dispatcher_abs c', out)
      | Some (opCode', ctx, port) \<Rightarrow> if opCode = opCode' \<and> port < num_seqCmdStatus p
          then Some ((dispatcher_abs c')\<lparr>ds_pending := (ds_pending (dispatcher_abs c'))(q := None)\<rparr>, out @ report_status p port opCode ctx response) else None)"
    by (cases "response = CMD_OK") (simp_all add: spec_completed_def c'_def out_def dispatcher_abs_def split: option.splits)
  have conc: "compCmdStat p opCode q response c = (case first_slot (\<lambda>s. st_seq s = q \<and> st_used s) ?t of None \<Rightarrow> Some (c', out)
      | Some i \<Rightarrow> do {
          FW_ASSERT (opCode = st_opCode (?t ! i));
          FW_ASSERT (st_callerPort (?t ! i) < num_seqCmdStatus p);
          Some (c'\<lparr>m_sequenceTracker := ?t[i := (?t ! i)\<lparr>st_used := False\<rparr>]\<rparr>, out @ report_status p (st_callerPort (?t ! i)) opCode (st_context (?t ! i)) response)
        })"
    by (cases "response = CMD_OK") (simp_all add: compCmdStat_def c'_def out_def report_status_def Let_def split: option.splits)
  have ok: "dispatcher_ok c'" using assms(1) same by (simp add: dispatcher_ok_def)
  show ?thesis
  proof (cases "first_slot (\<lambda>s. st_seq s = q \<and> st_used s) ?t")
    case None
    with first have "pendings ?t q = None" by simp
    with None ok assms(2) same show ?thesis unfolding abs conc by (simp add: simulates_def dispatcher_abs_def)
  next
    case (Some i)
    have i: "i < length ?t" "st_seq (?t ! i) = q" "st_used (?t ! i)" using first_slot_Some [OF Some] by simp_all
    have p: "pendings ?t q = Some (st_opCode (?t ! i), st_context (?t ! i), st_callerPort (?t ! i))" using first Some by simp
    let ?t' = "?t[i := (?t ! i)\<lparr>st_used := False\<rparr>]"
    have tracker: "tracker_ok ?t" using assms(1) by (simp add: dispatcher_ok_def)
    then have "pendings ?t' = (pendings ?t)(q := None)"
      using tracker_remove [OF i(1,3), of "(?t ! i)\<lparr>st_used := False\<rparr>"] i(2) by (simp add: tracker_ok_def)
    moreover have "tracker_ok ?t'" by (rule tracker_ok_remove [OF tracker i(1,3)]) simp
    ultimately show ?thesis
      using Some p ok assms(2) same unfolding abs conc
      by (auto simp: simulates_def dispatcher_abs_def dispatcher_ok_def FW_ASSERT_def)
  qed
qed

lemma next_number:
  assumes "unat (cd_seq c) \<le> n" "n < 2 ^ 32 - 1"
  shows "unat (cd_seq c + 1) = Suc (unat (cd_seq c))" "q < cd_seq c \<Longrightarrow> q < cd_seq c + 1" "cd_seq c < cd_seq c + 1"
proof -
  have "unat (cd_seq c) + 1 < 2 ^ 32" using assms by simp
  then show n: "unat (cd_seq c + 1) = Suc (unat (cd_seq c))" using unat_add_lem [of "cd_seq c" 1] by simp
  show "q < cd_seq c \<Longrightarrow> q < cd_seq c + 1" "cd_seq c < cd_seq c + 1"
    unfolding word_less_nat_alt n by simp_all
qed

text \<open>A command that is tracked, or whose sender does not want to know.\<close>

lemma track_pending:
  assumes "dispatcher_ok c"
  shows "(if seqCmdStatus_connected p port \<and> card (dom (pendings (m_sequenceTracker c))) = CMD_DISPATCHER_SEQUENCER_TABLE_SIZE
     then track p port opCode ctx c = None
     else \<exists>t. track p port opCode ctx c = Some (c\<lparr>m_sequenceTracker := t\<rparr>) \<and> tracker_ok t \<and>
       pendings t = (if seqCmdStatus_connected p port then (pendings (m_sequenceTracker c))(cd_seq c \<mapsto> (opCode, ctx, port))
         else pendings (m_sequenceTracker c)))"
proof -
  let ?t = "m_sequenceTracker c"
  have ok: "tracker_ok ?t" "cd_seq c \<notin> dom (pendings ?t)" using assms by (auto simp: dispatcher_ok_def)
  then have full: "first_slot (\<lambda>s. \<not> st_used s) ?t = None \<longleftrightarrow> card (dom (pendings ?t)) = CMD_DISPATCHER_SEQUENCER_TABLE_SIZE"
    by (simp add: no_free_slot pendings_card tracker_ok_def)
  show ?thesis
  proof (cases "seqCmdStatus_connected p port")
    case False
    then have "track p port opCode ctx c = Some (c\<lparr>m_sequenceTracker := ?t\<rparr>)" by (simp add: track_def)
    with False ok(1) show ?thesis by (auto intro!: exI [of _ ?t])
  next
    case True
    show ?thesis
    proof (cases "first_slot (\<lambda>s. \<not> st_used s) ?t")
      case None
      with True full show ?thesis by (simp add: track_def)
    next
      case (Some i)
      let ?s = "\<lparr>st_used = True, st_seq = cd_seq c, st_opCode = opCode, st_context = ctx, st_callerPort = port\<rparr>"
      have i: "i < length ?t" "\<not> st_used (?t ! i)" using first_slot_Some [OF Some] by simp_all
      show ?thesis
        using True Some full tracker_insert [OF i, of ?s] tracker_ok_insert [OF ok(1) i, of ?s] ok(2)
        by (auto simp: track_def intro!: exI [of _ "?t[i := ?s]"])
    qed
  qed
qed

lemma command_simulates:
  assumes "dispatcher_ok c" "unat (cd_seq c) \<le> n" "n < 2 ^ 32 - 1" "com_ok data"
  shows "simulates (seqCmdBuff p garbage port data ctx c) (Some (spec_command p port (written data) ctx (dispatcher_abs c))) (Suc n)"
proof -
  obtain status pkt s' where pkt: "CmdPacket_deserializeFrom (CmdPacket_new garbage) data = Some (status, pkt, s')"
    "decode_command (written data) = (status, cp_opcode pkt, written (cp_argBuffer pkt))"
    using decode_packet [OF assms(4)] by blast
  let ?op = "cp_opcode pkt"
  have bounds: "unat (cd_seq c) \<le> Suc n" "unat (cd_seq c + 1) \<le> Suc n" "\<And>q. q < cd_seq c \<Longrightarrow> q < cd_seq c + 1" "cd_seq c < cd_seq c + 1"
    using assms(2) next_number [OF assms(2,3)] by simp_all
  have inv: "entries_ok (m_entryTable c)" "tracker_ok (m_sequenceTracker c)" "\<And>q. q \<in> dom (pendings (m_sequenceTracker c)) \<Longrightarrow> q < cd_seq c"
    using assms(1) by (simp_all add: dispatcher_ok_def)
  have route: "map_option (\<lambda>i. de_port (m_entryTable c ! i)) (first_slot (\<lambda>e. de_used e \<and> ?op = de_opcode e) (m_entryTable c)) =
      routes (m_entryTable c) ?op" by (rule first_slot_route)
  show ?thesis
  proof (cases "status = FW_SERIALIZE_OK")
    case False
    with pkt assms(1) bounds(1) show ?thesis
      by (simp add: seqCmdBuff_def spec_command_def simulates_def)
  next
    case ok: True
    have wrong: "simulates (Some (c\<lparr>m_numCmdErrors := m_numCmdErrors c + 1, cd_seq := cd_seq c + 1\<rparr>, out))
        (Some ((dispatcher_abs c)\<lparr>ds_errors := ds_errors (dispatcher_abs c) + 1, ds_next := ds_next (dispatcher_abs c) + 1\<rparr>, out)) (Suc n)" for out
      using inv bounds by (auto simp: simulates_def dispatcher_ok_def dispatcher_abs_def)
    show ?thesis
    proof (cases "first_slot (\<lambda>e. de_used e \<and> ?op = de_opcode e) (m_entryTable c)")
      case None
      with route have "routes (m_entryTable c) ?op = None" by simp
      with None ok pkt wrong show ?thesis by (simp add: seqCmdBuff_def spec_command_def dispatcher_abs_def Let_def)
    next
      case (Some i)
      define target where "target = de_port (m_entryTable c ! i)"
      have r: "routes (m_entryTable c) ?op = Some target" using route Some by (simp add: target_def)
      show ?thesis
      proof (cases "compCmdSend_connected p target")
        case False
        with Some ok pkt wrong r show ?thesis by (simp add: seqCmdBuff_def spec_command_def dispatcher_abs_def target_def Let_def)
      next
        case True
        have conc: "seqCmdBuff p garbage port data ctx c = (case track p port ?op ctx c of
             None \<Rightarrow> Some (c, Cmd_log (TooManyCommands ?op) # report_status p port ?op ctx EXECUTION_ERROR)
           | Some c \<Rightarrow> Some (c\<lparr>m_numCmdsDispatched := m_numCmdsDispatched c + 1, cd_seq := cd_seq c + 1\<rparr>,
               [compCmdSend target ?op (cd_seq c) (written (cp_argBuffer pkt)), Cmd_log (OpCodeDispatched ?op target)]))"
          using Some ok pkt True unfolding target_def by (simp add: seqCmdBuff_def Let_def)
        note t = track_pending [OF assms(1), of p port ?op ctx]
        show ?thesis
        proof (cases "seqCmdStatus_connected p port \<and> card (dom (pendings (m_sequenceTracker c))) = CMD_DISPATCHER_SEQUENCER_TABLE_SIZE")
          case full: True
          with t ok pkt r True assms(1) bounds(1) show ?thesis
            unfolding conc by (simp add: spec_command_def simulates_def) (simp add: dispatcher_abs_def)
        next
          case room: False
          then obtain t' where t': "track p port ?op ctx c = Some (c\<lparr>m_sequenceTracker := t'\<rparr>)" "tracker_ok t'"
            "pendings t' = (if seqCmdStatus_connected p port then (pendings (m_sequenceTracker c))(cd_seq c \<mapsto> (?op, ctx, port))
              else pendings (m_sequenceTracker c))"
            using t by (auto split: if_splits)
          have "q < cd_seq c + 1" if "q \<in> dom (pendings t')" for q
            using that t'(3) inv(3) [of q] bounds(3,4) by (auto split: if_splits)
          with t'(1,2) inv(1) bounds(2) room ok pkt r True t'(3) show ?thesis
            unfolding conc by (auto simp: spec_command_def simulates_def dispatcher_abs_def dispatcher_ok_def)
        qed
      qed
    qed
  qed
qed

lemma overflow_simulates:
  assumes "dispatcher_ok c" "unat (cd_seq c) \<le> n" "com_ok data"
  shows "simulates (seqCmdBuff_overflowHook garbage data ctx c) (spec_handle p (Overflow data ctx) (dispatcher_abs c)) n"
proof -
  obtain status pkt s' where pkt: "CmdPacket_deserializeFrom (CmdPacket_new garbage) data = Some (status, pkt, s')"
    "decode_command (written data) = (status, cp_opcode pkt, written (cp_argBuffer pkt))"
    using decode_packet [OF assms(3)] by blast
  then have "status \<noteq> FW_SERIALIZE_OK \<Longrightarrow> cp_opcode pkt = 0"
    by (auto simp: decode_command_def split: if_splits)
  with pkt assms(1,2) show ?thesis
    by (auto simp: seqCmdBuff_overflowHook_def simulates_def dispatcher_abs_def dispatcher_ok_def)
qed

lemma call_simulates:
  assumes "dispatcher_ok c" "unat (cd_seq c) \<le> n" "n < 2 ^ 32 - 1" "com_call_ok call"
  shows "simulates (dispatcher_handle p g call c) (spec_handle p call (dispatcher_abs c)) (Suc n)"
proof -
  have weaken: "simulates r r' n \<Longrightarrow> simulates r r' (Suc n)" for r r'
    by (auto simp: simulates_def split: option.splits)
  have same: "simulates (Some (c, out)) (Some (dispatcher_abs c, out)) (Suc n)" for out
    using assms(1,2) by (simp add: simulates_def)
  show ?thesis
  proof (cases call)
    case (Register port opCode)
    with register_simulates [OF assms(1,2)] show ?thesis by (simp add: weaken)
  next
    case (Command port data ctx)
    with command_simulates [OF assms(1-3)] assms(4) show ?thesis by simp
  next
    case (Completed opCode q response)
    with completed_simulates [OF assms(1,2)] show ?thesis by (simp add: weaken)
  next
    case Telemetry
    with same show ?thesis by (simp add: dispatcher_run_def) (simp add: dispatcher_abs_def)
  next
    case (Ping key)
    with same show ?thesis by (simp add: dispatcher_pingIn_def)
  next
    case (Overflow data ctx)
    with overflow_simulates [OF assms(1,2), of data] assms(4) show ?thesis by (simp add: weaken del: spec_handle.simps)
  next
    case (Clear_tracking opCode q)
    have "pendings (map (\<lambda>s. s\<lparr>st_used := False\<rparr>) t) = (\<lambda>_. None)" for t
      by (simp add: fun_eq_iff pendings_None)
    moreover have "tracker_ok (map (\<lambda>s. s\<lparr>st_used := False\<rparr>) (m_sequenceTracker c))"
      using assms(1) by (simp add: dispatcher_ok_def tracker_ok_def comp_def)
    ultimately show ?thesis
      using assms(1,2) Clear_tracking by (simp add: simulates_def CMD_CLEAR_TRACKING_def dispatcher_abs_def dispatcher_ok_def)
  qed (use same in simp_all)
qed

lemma history_simulates:
  assumes "dispatcher_ok c" "unat (cd_seq c) \<le> n" "n + length calls < 2 ^ 32" "list_all com_call_ok calls"
  shows "simulates (run_dispatcher p g calls c) (run_spec p calls (dispatcher_abs c)) (n + length calls)"
  using assms
proof (induction calls arbitrary: c n)
  case Nil
  then show ?case by (simp add: simulates_def)
next
  case (Cons call calls)
  have "simulates (dispatcher_handle p g call c) (spec_handle p call (dispatcher_abs c)) (Suc n)"
    using Cons.prems by (intro call_simulates) auto
  then show ?case
  proof (cases "dispatcher_handle p g call c")
    case (Some r)
    obtain c1 out where r: "r = (c1, out)" by (cases r)
    with \<open>simulates _ _ _\<close> Some have one: "spec_handle p call (dispatcher_abs c) = Some (dispatcher_abs c1, out)" "dispatcher_ok c1" "unat (cd_seq c1) \<le> Suc n"
      by (simp_all add: simulates_def)
    from Cons.IH [OF one(2,3)] Cons.prems(3,4) Some r one(1) show ?thesis
      by (auto simp: simulates_def split: option.splits)
  qed (simp add: simulates_def)
qed

section \<open>Properties\<close>

text \<open>
  C15: The dispatcher is two maps. In every history of fewer than \<open>2\<^sup>3\<^sup>2\<close> calls, whatever they are, the tables of
  \<^verbatim>\<open>CommandDispatcherImpl\<close> do what the abstract dispatcher does with a map from operation codes to ports and a map from
  sequence numbers to the commands in execution: the same commands, statuses, events and telemetry go out in the same order, an
  assertion fails exactly when the abstract dispatcher rejects a call, and the tables hold what the maps hold.
\<close>

theorem dispatcher_is_two_maps:
  assumes "length calls < 2 ^ 32" "list_all com_call_ok calls"
  shows "map_option (apfst dispatcher_abs) (run_dispatcher p g calls CmdDispatcher_new) = run_spec p calls spec_new"
proof -
  have "simulates (run_dispatcher p g calls CmdDispatcher_new) (run_spec p calls spec_new) (0 + length calls)"
    using history_simulates [of CmdDispatcher_new 0 calls p g] dispatcher_new assms by simp
  then show ?thesis by (auto simp: simulates_def split: option.splits)
qed

definition bench_dispatcher :: dispatcher_ports where
  "bench_dispatcher = \<lparr>compCmdSend_connected = \<lambda>_. True, seqCmdStatus_connected = \<lambda>i. i < 2, num_seqCmdStatus = 5\<rparr>"

text \<open>A communication buffer with the packet of operation \<open>0x0105\<close> and one byte of arguments.\<close>

definition bench_command :: LinearBuffer where
  "bench_command = \<lparr>lb_mem = [0, 0, 0, 0, 1, 5, 7] @ replicate 505 0, m_serLoc = 7, m_deserLoc = 0\<rparr>"

lemma bench_command:
  "com_ok bench_command" "decode_command (written bench_command) = (FW_SERIALIZE_OK, 0x0105, [7])"
  by (simp_all add: com_ok_def bench_command_def FW_COM_BUFFER_MAX_SIZE_def written_def decode_command_def FW_PACKET_COMMAND_def
      U16_of_def U32_of_def numeral_2_eq_2 [symmetric])

theorem dispatcher_is_two_maps_witness:
  "map_option (apfst dispatcher_abs) (run_dispatcher bench_dispatcher (\<lambda>_ _. 0) [Register 3 0x0105, Command 1 bench_command 9, Completed 0x0105 0 CMD_OK] CmdDispatcher_new) =
     Some (spec_new\<lparr>ds_routes := [0x0105 \<mapsto> 3], ds_dispatched := 1, ds_next := 1\<rparr>,
       [Cmd_log (OpCodeRegistered 0x0105 3 0), compCmdSend 3 0x0105 0 [7], Cmd_log (OpCodeDispatched 0x0105 3),
        Cmd_log (OpCodeCompleted 0x0105), seqCmdStatus 1 0x0105 9 CMD_OK])"
  using dispatcher_is_two_maps [of "[Register 3 0x0105, Command 1 bench_command 9, Completed 0x0105 0 CMD_OK]" bench_dispatcher "\<lambda>_ _. 0"]
  by (simp add: bench_command spec_register_def spec_command_def spec_completed_def spec_new_def CMD_DISPATCHER_DISPATCH_TABLE_SIZE_def
      CMD_DISPATCHER_SEQUENCER_TABLE_SIZE_def bench_dispatcher_def report_status_def del: run_dispatcher.simps)

text \<open>The statuses that went out, the commands that wait in the tracker, and the commands whose senders want a status.\<close>

fun status_reports :: "dispatcher_output list \<Rightarrow> (nat \<times> u32 \<times> u32) multiset" where
  "status_reports [] = {#}"
| "status_reports (seqCmdStatus port opCode ctx response # out) = add_mset (port, opCode, ctx) (status_reports out)"
| "status_reports (_ # out) = status_reports out"

definition waiting :: "CmdDispatcher \<Rightarrow> (nat \<times> u32 \<times> u32) multiset" where
  "waiting c = mset (map (\<lambda>s. (st_callerPort s, st_opCode s, st_context s)) (filter st_used (m_sequenceTracker c)))"

fun asked :: "dispatcher_ports \<Rightarrow> dispatcher_call list \<Rightarrow> (nat \<times> u32 \<times> u32) multiset" where
  "asked p [] = {#}"
| "asked p (Command port data ctx # calls) =
     (if seqCmdStatus_connected p port then add_mset (port, fst (snd (decode_command (written data))), ctx) (asked p calls) else asked p calls)"
| "asked p (_ # calls) = asked p calls"

lemma answered_append [simp]: "status_reports (out @ out') = status_reports out + status_reports out'"
  by (induction out rule: status_reports.induct) simp_all

lemma answered_status [simp]: "status_reports (report_status p port opCode ctx r) = (if seqCmdStatus_connected p port then {#(port, opCode, ctx)#} else {#})"
  by (simp add: report_status_def)

lemma asked_Cons: "asked p (call # calls) = asked p [call] + asked p calls"
  by (cases call) simp_all

definition senders_connected :: "dispatcher_ports \<Rightarrow> CmdDispatcher \<Rightarrow> bool" where
  "senders_connected p c \<longleftrightarrow> (\<forall>s \<in> set (filter st_used (m_sequenceTracker c)). seqCmdStatus_connected p (st_callerPort s))"

text \<open>The account of one handler: what is answered now and waits now was asked for now or waited before.\<close>

definition accounts :: "dispatcher_ports \<Rightarrow> (nat \<times> u32 \<times> u32) multiset \<Rightarrow> CmdDispatcher \<Rightarrow> CmdDispatcher \<times> dispatcher_output list \<Rightarrow> bool" where
  "accounts p new c r \<longleftrightarrow> status_reports (snd r) + waiting (fst r) = waiting c + new \<and> senders_connected p (fst r)"

lemma account_unchanged:
  "senders_connected p c \<Longrightarrow> m_sequenceTracker c' = m_sequenceTracker c \<Longrightarrow> status_reports out = new \<Longrightarrow> accounts p new c (c', out)"
  by (simp add: accounts_def senders_connected_def waiting_def)

lemma account_register:
  "senders_connected p c \<Longrightarrow> compCmdReg port opCode c = Some r \<Longrightarrow> accounts p {#} c r"
proof -
  have quiet: "reg_loop port opCode n found es = Some (es', found', out) \<Longrightarrow> status_reports out = {#}" for n found es es' found' out
    by (induction es arbitrary: n found es' found' out) (auto split: if_splits simp: FW_ASSERT_def)
  assume "senders_connected p c" "compCmdReg port opCode c = Some r"
  then show ?thesis
    by (auto simp: compCmdReg_def bind_eq_Some_conv FW_ASSERT_def split: if_splits intro!: account_unchanged dest: quiet)
qed

lemma account_completed:
  assumes "senders_connected p c" "compCmdStat p opCode q response c = Some r"
  shows "accounts p {#} c r"
proof -
  define c' where "c' = (if response = CMD_OK then c else c\<lparr>m_numCmdErrors := m_numCmdErrors c + 1\<rparr>)"
  define out where "out = (if response = CMD_OK then [Cmd_log (OpCodeCompleted opCode)] else [Cmd_log (OpCodeError opCode response)])"
  have same: "m_sequenceTracker c' = m_sequenceTracker c" by (simp add: c'_def)
  have quiet: "status_reports out = {#}" by (simp add: out_def)
  let ?t = "m_sequenceTracker c"
  show ?thesis
  proof (cases "first_slot (\<lambda>s. st_seq s = q \<and> st_used s) ?t")
    case None
    then have "r = (c', out)"
      using assms(2) by (cases "response = CMD_OK") (simp_all add: compCmdStat_def c'_def out_def)
    with account_unchanged [OF assms(1) same quiet] show ?thesis by simp
  next
    case (Some i)
    let ?s = "(?t ! i)\<lparr>st_used := False\<rparr>"
    have i: "i < length ?t" "st_used (?t ! i)" using first_slot_Some [OF Some] by simp_all
    then have in_use: "?t ! i \<in> set (filter st_used ?t)" by simp
    with assms(1) have conn: "seqCmdStatus_connected p (st_callerPort (?t ! i))" by (simp add: senders_connected_def)
    have r: "opCode = st_opCode (?t ! i)" "r = (c'\<lparr>m_sequenceTracker := ?t[i := ?s]\<rparr>, out @ [seqCmdStatus (st_callerPort (?t ! i)) opCode (st_context (?t ! i)) response])"
      using assms(2) Some conn
      by (cases "response = CMD_OK"; simp add: compCmdStat_def c'_def out_def Let_def FW_ASSERT_def split: if_splits)+
    have rest: "add_mset (?t ! i) (mset (filter st_used (?t[i := ?s]))) = mset (filter st_used ?t)" using used_remove [OF i, of ?s] by simp
    from arg_cong [OF rest, of "image_mset (\<lambda>s. (st_callerPort s, st_opCode s, st_context s))"] arg_cong [OF rest, of set_mset] assms(1) r quiet
    show ?thesis by (auto simp: accounts_def waiting_def senders_connected_def)
  qed
qed

lemma account_track:
  assumes "senders_connected p c" "track p port opCode ctx c = Some c'"
  shows "waiting c' = waiting c + (if seqCmdStatus_connected p port then {#(port, opCode, ctx)#} else {#})" "senders_connected p c'"
proof -
  let ?t = "m_sequenceTracker c" and ?s = "\<lparr>st_used = True, st_seq = cd_seq c, st_opCode = opCode, st_context = ctx, st_callerPort = port\<rparr>"
  have "waiting c' = waiting c + (if seqCmdStatus_connected p port then {#(port, opCode, ctx)#} else {#}) \<and> senders_connected p c'"
  proof (cases "seqCmdStatus_connected p port")
    case True
    then obtain i where i: "first_slot (\<lambda>s. \<not> st_used s) ?t = Some i" "c' = c\<lparr>m_sequenceTracker := ?t[i := ?s]\<rparr>"
      using assms(2) by (auto simp: track_def)
    have rest: "mset (filter st_used (?t[i := ?s])) = add_mset ?s (mset (filter st_used ?t))"
      using first_slot_Some [OF i(1)] used_insert [of i ?t ?s] by simp
    from arg_cong [OF rest, of "image_mset (\<lambda>s. (st_callerPort s, st_opCode s, st_context s))"] arg_cong [OF rest, of set_mset] assms(1) i(2) True
    show ?thesis by (auto simp: waiting_def senders_connected_def)
  qed (use assms in \<open>simp add: track_def\<close>)
  then show "waiting c' = waiting c + (if seqCmdStatus_connected p port then {#(port, opCode, ctx)#} else {#})" "senders_connected p c'"
    by simp_all
qed

lemma account_command:
  assumes "senders_connected p c" "com_ok data" "seqCmdBuff p garbage port data ctx c = Some r"
  shows "accounts p (asked p [Command port data ctx]) c r"
proof -
  obtain status pkt s' where pkt: "CmdPacket_deserializeFrom (CmdPacket_new garbage) data = Some (status, pkt, s')"
    "decode_command (written data) = (status, cp_opcode pkt, written (cp_argBuffer pkt))"
    using decode_packet [OF assms(2)] by blast
  have plain: "accounts p (asked p [Command port data ctx]) c (c', Cmd_log e # report_status p port (cp_opcode pkt) ctx response)"
    if "m_sequenceTracker c' = m_sequenceTracker c" for c' e response
    by (rule account_unchanged [OF assms(1) that]) (simp add: pkt(2))
  show ?thesis
  proof (cases "\<exists>i. status = FW_SERIALIZE_OK \<and> first_slot (\<lambda>e. de_used e \<and> cp_opcode pkt = de_opcode e) (m_entryTable c) = Some i \<and>
      compCmdSend_connected p (de_port (m_entryTable c ! i))")
    case False
    then show ?thesis
      using assms(3) pkt(1) plain by (auto simp: seqCmdBuff_def Let_def split: if_splits option.splits)
  next
    case True
    then show ?thesis
      using assms(3) pkt plain account_track [OF assms(1), of port "cp_opcode pkt" ctx]
      by (cases "track p port (cp_opcode pkt) ctx c") (auto simp: seqCmdBuff_def Let_def accounts_def waiting_def senders_connected_def)
  qed
qed

text \<open>Every call but the command to clear the tracker keeps the account.\<close>

fun clears :: "dispatcher_call \<Rightarrow> bool" where
  "clears (Clear_tracking opCode q) = True"
| "clears _ = False"

lemma account_call:
  assumes "senders_connected p c" "com_call_ok call" "\<not> clears call" "dispatcher_handle p g call c = Some r"
  shows "accounts p (asked p [call]) c r"
proof (cases call)
  case (Command port data ctx)
  with account_command [OF assms(1)] assms(2,4) show ?thesis by simp
next
  case (Overflow data ctx)
  then show ?thesis
    using assms(1,4) by (auto simp: seqCmdBuff_overflowHook_def bind_eq_Some_conv Let_def intro!: account_unchanged)
qed (use assms in \<open>auto simp: dispatcher_run_def dispatcher_pingIn_def CMD_NO_OP_def CMD_NO_OP_STRING_def CMD_TEST_CMD_1_def
    intro: account_register account_completed account_unchanged\<close>)

lemma account_history:
  assumes "senders_connected p c" "list_all com_call_ok calls" "list_all (\<lambda>call. \<not> clears call) calls" "run_dispatcher p g calls c = Some r"
  shows "accounts p (asked p calls) c r"
  using assms
proof (induction calls arbitrary: c r)
  case Nil
  then show ?case by (auto intro: account_unchanged)
next
  case (Cons call calls)
  obtain c1 out c2 outs where r: "dispatcher_handle p g call c = Some (c1, out)" "run_dispatcher p g calls c1 = Some (c2, outs)" "r = (c2, out @ outs)"
    using Cons.prems(4) by (auto simp: bind_eq_Some_conv)
  have one: "accounts p (asked p [call]) c (c1, out)" using account_call [OF Cons.prems(1) _ _ r(1)] Cons.prems(2,3) by simp
  then have rest: "accounts p (asked p calls) c1 (c2, outs)" using Cons.IH [OF _ _ _ r(2)] Cons.prems(2,3) by (simp add: accounts_def)
  from one have "status_reports out + waiting c1 = waiting c + asked p [call]" by (simp add: accounts_def)
  then have "status_reports out + (status_reports outs + waiting c2) = waiting c + (asked p [call] + asked p calls)"
    using rest by (simp add: accounts_def add.assoc [symmetric])
  with rest show ?case unfolding r(3) accounts_def asked_Cons [of p call calls] by (simp only: fst_conv snd_conv answered_append add.assoc)
qed

text \<open>
  C16: Every command is answered exactly once. In every history without \<^verbatim>\<open>CMD_CLEAR_TRACKING\<close>, however long, the statuses that the
  dispatcher has sent together with the commands that wait in its tracker are exactly the commands that came through ports with
  a status port, each with its port, its operation code and its context: no status is lost, sent twice, or sent to another sender,
  whether the command is malformed, unknown, refused because the tracker is full, or carried out.
\<close>

theorem commands_accounted:
  assumes "run_dispatcher p g calls CmdDispatcher_new = Some (c, out)" "list_all com_call_ok calls" "list_all (\<lambda>call. \<not> clears call) calls"
  shows "status_reports out + waiting c = asked p calls"
proof -
  have "senders_connected p CmdDispatcher_new" "waiting CmdDispatcher_new = {#}"
    by (simp_all add: senders_connected_def waiting_def CmdDispatcher_new_def)
  with account_history [OF _ assms(2,3,1)] show ?thesis by (simp add: accounts_def)
qed

theorem commands_accounted_witness:
  "\<exists>c out. run_dispatcher bench_dispatcher (\<lambda>_ _. 0) [Command 0 bench_command 8, Register 3 0x0105, Command 1 bench_command 9] CmdDispatcher_new = Some (c, out) \<and>
     status_reports out + waiting c = {#(0, 0x0105, 8), (1, 0x0105, 9)#}"
proof -
  let ?calls = "[Command 0 bench_command 8, Register 3 0x0105, Command 1 bench_command 9]"
  have "run_spec bench_dispatcher ?calls spec_new \<noteq> None"
    by (simp add: bench_command spec_register_def spec_command_def spec_new_def CMD_DISPATCHER_DISPATCH_TABLE_SIZE_def)
  moreover have "simulates (run_dispatcher bench_dispatcher (\<lambda>_ _. 0) ?calls CmdDispatcher_new) (run_spec bench_dispatcher ?calls spec_new) (0 + length ?calls)"
    using history_simulates [of CmdDispatcher_new 0 ?calls] dispatcher_new bench_command by simp
  ultimately obtain c out where "run_dispatcher bench_dispatcher (\<lambda>_ _. 0) ?calls CmdDispatcher_new = Some (c, out)"
    by (auto simp: simulates_def split: option.splits)
  with commands_accounted [OF this] show ?thesis by (simp add: bench_command bench_dispatcher_def)
qed

text \<open>
  The sender of \<^verbatim>\<open>CMD_CLEAR_TRACKING\<close> never gets a status. The dispatcher tracks the command, passes it to itself and clears the
  whole tracker before it answers; when the answer comes back there is no entry for it any more, so no status goes out, neither
  for this command nor for any other that was in execution.
\<close>

theorem clear_tracking_silent:
  assumes "length calls + 3 < 2 ^ 32" "list_all com_call_ok calls" "run_spec p calls spec_new = Some (a, out)"
    and "com_ok data" "decode_command (written data) = (FW_SERIALIZE_OK, opCode, args)"
    and "ds_routes a opCode = Some target" "compCmdSend_connected p target"
    and "card (dom (ds_pending a)) < CMD_DISPATCHER_SEQUENCER_TABLE_SIZE"
  shows "\<exists>c. run_dispatcher p g (calls @ [Command port data ctx, Clear_tracking opCode (ds_next a), Completed opCode (ds_next a) CMD_OK]) CmdDispatcher_new =
      Some (c, out @ [compCmdSend target opCode (ds_next a) args, Cmd_log (OpCodeDispatched opCode target),
        cmdResponse_out opCode (ds_next a) CMD_OK, Cmd_log (OpCodeCompleted opCode)]) \<and>
    waiting c = {#}"
proof -
  let ?last = "[Command port data ctx, Clear_tracking opCode (ds_next a), Completed opCode (ds_next a) CMD_OK]"
  have spec: "\<exists>a'. run_spec p (calls @ ?last) spec_new = Some (a', out @ [compCmdSend target opCode (ds_next a) args, Cmd_log (OpCodeDispatched opCode target),
        cmdResponse_out opCode (ds_next a) CMD_OK, Cmd_log (OpCodeCompleted opCode)]) \<and> ds_pending a' = Map.empty"
    using assms(3,5-8) by (simp add: run_spec_append spec_command_def spec_completed_def)
  have "simulates (run_dispatcher p g (calls @ ?last) CmdDispatcher_new) (run_spec p (calls @ ?last) spec_new) (0 + length (calls @ ?last))"
    using history_simulates [of CmdDispatcher_new 0 "calls @ ?last" p g] dispatcher_new assms(1,2,4) by simp
  with spec obtain c where run: "run_dispatcher p g (calls @ ?last) CmdDispatcher_new = Some (c, out @ [compCmdSend target opCode (ds_next a) args,
      Cmd_log (OpCodeDispatched opCode target), cmdResponse_out opCode (ds_next a) CMD_OK, Cmd_log (OpCodeCompleted opCode)])"
    "pendings (m_sequenceTracker c) = Map.empty"
    by (auto simp: simulates_def dispatcher_abs_def split: option.splits)
  from run(2) have "filter st_used (m_sequenceTracker c) = []"
    by (metis dom_empty image_is_empty pendings_dom set_empty)
  with run(1) show ?thesis by (simp add: waiting_def filter_empty_conv)
qed

theorem clear_tracking_silent_witness:
  "\<exists>c. run_dispatcher bench_dispatcher (\<lambda>_ _. 0) [Register 3 0x0105, Command 1 bench_command 9, Clear_tracking 0x0105 0, Completed 0x0105 0 CMD_OK]
      CmdDispatcher_new =
    Some (c, [Cmd_log (OpCodeRegistered 0x0105 3 0), compCmdSend 3 0x0105 0 [7], Cmd_log (OpCodeDispatched 0x0105 3),
      cmdResponse_out 0x0105 0 CMD_OK, Cmd_log (OpCodeCompleted 0x0105)]) \<and> waiting c = {#}"
proof -
  have "run_spec bench_dispatcher [Register 3 0x0105] spec_new = Some (spec_new\<lparr>ds_routes := [0x0105 \<mapsto> 3]\<rparr>, [Cmd_log (OpCodeRegistered 0x0105 3 0)])"
    by (simp add: spec_register_def spec_new_def CMD_DISPATCHER_DISPATCH_TABLE_SIZE_def)
  from clear_tracking_silent [OF _ _ this bench_command, of 3 "\<lambda>_ _. 0" 1 9] show ?thesis
    by (simp add: spec_new_def bench_dispatcher_def CMD_DISPATCHER_SEQUENCER_TABLE_SIZE_def del: run_dispatcher.simps)
qed

end
