(* ===== verification/Commanding.thy ===== *)
theory Commanding
  imports Uplink Cmd_Dispatcher
begin

text \<open>
  From the radio to the components, as \<^verbatim>\<open>Top/topology.fpp\<close> connects the router of the uplink with the command dispatcher: the
  commands in the trace of the uplink arrive, in order, on the port of the dispatcher that belongs to the router.
\<close>

section \<open>The connection\<close>

text \<open>The communication buffer that the router fills with the bytes of a command; what lay in it before remains behind them.\<close>

definition com_buffer :: "(nat \<Rightarrow> u8) \<Rightarrow> bytes \<Rightarrow> LinearBuffer" where
  "com_buffer garbage bs = \<lparr>lb_mem = bs @ drop (length bs) (map garbage [0..<FW_COM_BUFFER_MAX_SIZE]), m_serLoc = length bs, m_deserLoc = 0\<rparr>"

fun command_calls :: "nat \<Rightarrow> (nat \<Rightarrow> u8) \<Rightarrow> uplink_output list \<Rightarrow> dispatcher_call list" where
  "command_calls port garbage [] = []"
| "command_calls port garbage (Command_out bs # trace) = Command port (com_buffer garbage bs) 0 # command_calls port garbage trace"
| "command_calls port garbage (_ # trace) = command_calls port garbage trace"

text \<open>The router passes on just this buffer.\<close>

lemma router_passes:
  "buf_addr b \<noteq> 0 \<Longrightarrow> length (buf_data b) = buf_size b \<Longrightarrow> buf_size b \<le> FW_COM_BUFFER_MAX_SIZE \<Longrightarrow>
   route_command p garbage b w = rt_commandOut p (com_buffer garbage (buf_data b)) 0 w"
  by (simp add: command_routed com_buffer_def)

lemma com_buffer_ok:
  "length bs \<le> FW_COM_BUFFER_MAX_SIZE \<Longrightarrow> com_ok (com_buffer garbage bs)" "written (com_buffer garbage bs) = bs"
  by (simp_all add: com_ok_def com_buffer_def written_def)

lemma command_calls_append [simp]: "command_calls port garbage (xs @ ys) = command_calls port garbage xs @ command_calls port garbage ys"
  by (induction port garbage xs rule: command_calls.induct) simp_all

section \<open>Commands\<close>

text \<open>The packet of a command, and what the dispatcher sends out for commands that it can carry out.\<close>

definition command_packet :: "u32 \<Rightarrow> bytes \<Rightarrow> bytes" where
  "command_packet opCode args = U16_bytes BIG FW_PACKET_COMMAND @ U32_bytes BIG opCode @ args"

fun dispatched :: "(u32 \<Rightarrow> nat) \<Rightarrow> u32 \<Rightarrow> (u32 \<times> bytes) list \<Rightarrow> dispatcher_output list" where
  "dispatched route n [] = []"
| "dispatched route n ((opCode, args) # cs) =
     compCmdSend (route opCode) opCode n args # Cmd_log (OpCodeDispatched opCode (route opCode)) # dispatched route (n + 1) cs"

lemma command_packet_decodes [simp]: "decode_command (command_packet opCode args) = (FW_SERIALIZE_OK, opCode, args)"
proof -
  obtain a b where ab: "U16_bytes BIG FW_PACKET_COMMAND = [a, b]" by (simp add: U16_bytes_def)
  obtain c d e f where cf: "U32_bytes BIG opCode = [c, d, e, f]" by (simp add: U32_bytes_def)
  have "U16_of BIG [a, b] = FW_PACKET_COMMAND" "U32_of BIG [c, d, e, f] = opCode"
    using U16_split [of BIG FW_PACKET_COMMAND] U32_split [of BIG opCode] unfolding ab cf by simp_all
  then show ?thesis by (simp add: decode_command_def command_packet_def ab cf numeral_eq_Suc)
qed

text \<open>The message of a command, and the commands of a sequence of messages.\<close>

definition commands_of :: "ground_message list \<Rightarrow> ground_message list" where
  "commands_of ms = filter (\<lambda>m. gm_apid m = FW_PACKET_COMMAND) ms"

definition carries_command :: "ground_message \<Rightarrow> u32 \<times> bytes \<Rightarrow> bool" where
  "carries_command m c \<longleftrightarrow> gm_data m = command_packet (fst c) (snd c) \<and> length (snd c) \<le> FW_CMD_ARG_BUFFER_MAX_SIZE"

lemma length_command_packet [simp]: "length (command_packet opCode args) = length args + 6"
  by (simp add: command_packet_def)

lemma trace_commands:
  assumes "list_all2 carries_command (commands_of ms) cs"
  shows "command_calls port garbage (concat (map (\<lambda>m. message_output (gm_apid m, gm_data m)) ms)) =
      map (\<lambda>c. Command port (com_buffer garbage (command_packet (fst c) (snd c))) 0) cs"
  using assms
proof (induction ms arbitrary: cs)
  case (Cons m ms)
  show ?case
  proof (cases "gm_apid m = FW_PACKET_COMMAND")
    case True
    then obtain c cs' where c: "cs = c # cs'" "carries_command m c" "list_all2 carries_command (commands_of ms) cs'"
      using Cons.prems by (auto simp: commands_of_def list_all2_Cons1)
    then have "length (gm_data m) \<le> FW_COM_BUFFER_MAX_SIZE"
      by (simp add: carries_command_def FW_CMD_ARG_BUFFER_MAX_SIZE_def FW_COM_BUFFER_MAX_SIZE_def)
    with True have "message_output (gm_apid m, gm_data m) = [Command_out (gm_data m)]" by (simp add: message_output_def)
    with Cons.IH [OF c(3)] c(1,2) show ?thesis by (simp add: carries_command_def)
  next
    case False
    then have "command_calls port garbage (message_output (gm_apid m, gm_data m)) = []" "commands_of (m # ms) = commands_of ms"
      by (simp_all add: message_output_def commands_of_def)
    with Cons show ?thesis by simp
  qed
qed (simp add: commands_of_def)

text \<open>The abstract dispatcher carries commands out as long as its tracker has room.\<close>

lemma spec_dispatches:
  assumes "\<forall>c \<in> set cs. length (snd c) \<le> FW_CMD_ARG_BUFFER_MAX_SIZE \<and>
      (\<exists>target. ds_routes a (fst c) = Some target \<and> compCmdSend_connected p target)"
    and "card (dom (ds_pending a)) + length cs \<le> CMD_DISPATCHER_SEQUENCER_TABLE_SIZE"
  shows "\<exists>a'. run_spec p (map (\<lambda>c. Command port (com_buffer garbage (command_packet (fst c) (snd c))) 0) cs) a =
    Some (a', dispatched (\<lambda>opCode. the (ds_routes a opCode)) (ds_next a) cs)"
  using assms
proof (induction cs arbitrary: a)
  case (Cons c cs)
  obtain opCode args where c: "c = (opCode, args)" by (cases c)
  obtain target where target: "ds_routes a opCode = Some target" "compCmdSend_connected p target" using Cons.prems(1) c by auto
  define a1 where "a1 = a\<lparr>ds_pending := (if seqCmdStatus_connected p port then (ds_pending a)(ds_next a \<mapsto> (opCode, 0, port)) else ds_pending a),
    ds_dispatched := ds_dispatched a + 1, ds_next := ds_next a + 1\<rparr>"
  have "spec_command p port (command_packet opCode args) 0 a =
      (a1, [compCmdSend target opCode (ds_next a) args, Cmd_log (OpCodeDispatched opCode target)])"
    using target Cons.prems(2) by (simp add: spec_command_def a1_def)
  moreover have "card (dom (ds_pending a1)) \<le> Suc (card (dom (ds_pending a)))"
    by (simp add: a1_def card_insert_if)
  moreover have "ds_routes a1 = ds_routes a" "ds_next a1 = ds_next a + 1" by (simp_all add: a1_def)
  moreover have "\<exists>a'. run_spec p (map (\<lambda>c. Command port (com_buffer garbage (command_packet (fst c) (snd c))) 0) cs) a1 =
      Some (a', dispatched (\<lambda>opCode. the (ds_routes a1 opCode)) (ds_next a1) cs)"
    using Cons.IH [of a1] Cons.prems calculation(2,3) by simp
  ultimately show ?case using target c by (auto simp: com_buffer_ok)
qed simp

section \<open>Properties\<close>

text \<open>
  C10: Commands from the ground reach the components. If the uplink can take a stream of frames, however the radio cuts it and
  whenever files are returned, and if after any earlier history the dispatcher knows the operation codes of the commands among
  its messages and its tracker has room for them, then the dispatcher sends every command, in the order of the frames and numbered
  in this order, to the component that registered its code, with exactly the arguments of the message; nothing is refused and no
  assertion fails on the way.
\<close>

theorem ground_commands_reach_components:
  assumes "m_spacecraftId d = SpacecraftId" "uplink_takes d L ms w" "up_trace w = []"
    and "accumulator_configure allocate frameAccumulatorSize CircularBuffer_new = Some r"
    and "allocate frameAccumulatorSize = (Some memory, frameAccumulatorSize)" "length memory = frameAccumulatorSize"
    and "concat (packets_of steps) = concat (map frame_of ms)"
    and "\<forall>p \<in> set (packets_of steps). 0 < length p \<and> length p \<le> frameAccumulatorSize"
    and "list_all2 carries_command (commands_of ms) cs"
    and "length calls + length cs < 2 ^ 32" "list_all com_call_ok calls" "run_spec p calls spec_new = Some (a, out)"
    and "\<forall>(opCode, args) \<in> set cs. \<exists>target. ds_routes a opCode = Some target \<and> compCmdSend_connected p target"
    and "card (dom (ds_pending a)) + length cs \<le> CMD_DISPATCHER_SEQUENCER_TABLE_SIZE"
  shows "\<exists>r' w' c. run_uplink g d steps r w = Some (r', w') \<and>
    run_dispatcher p h (calls @ command_calls port garbage (up_trace w')) CmdDispatcher_new =
      Some (c, out @ dispatched (\<lambda>opCode. the (ds_routes a opCode)) (ds_next a) cs)"
proof -
  let ?cmds = "map (\<lambda>c. Command port (com_buffer garbage (command_packet (fst c) (snd c))) 0) cs"
  obtain r' w' where up: "run_uplink g d steps r w = Some (r', w')" "up_trace w' = concat (map (\<lambda>m. message_output (gm_apid m, gm_data m)) ms)"
    using ground_messages_routed [OF assms(1,2,4-8), where g = g] assms(3) by auto
  have cmds: "command_calls port garbage (up_trace w') = ?cmds" unfolding up(2) by (rule trace_commands [OF assms(9)])
  have short: "length (snd c) \<le> FW_CMD_ARG_BUFFER_MAX_SIZE" if "c \<in> set cs" for c
    using assms(9) that by (auto simp: list_all2_conv_all_nth in_set_conv_nth carries_command_def)
  then have ok: "list_all com_call_ok (calls @ ?cmds)"
    using assms(11) by (auto simp: list_all_iff FW_CMD_ARG_BUFFER_MAX_SIZE_def FW_COM_BUFFER_MAX_SIZE_def intro!: com_buffer_ok(1))
  obtain a' where "run_spec p ?cmds a = Some (a', dispatched (\<lambda>opCode. the (ds_routes a opCode)) (ds_next a) cs)"
    using spec_dispatches [of cs a p port garbage] short assms(13,14) by (auto simp: case_prod_unfold)
  then have spec: "run_spec p (calls @ ?cmds) spec_new = Some (a', out @ dispatched (\<lambda>opCode. the (ds_routes a opCode)) (ds_next a) cs)"
    using assms(12) by (simp add: run_spec_append)
  have "simulates (run_dispatcher p h (calls @ ?cmds) CmdDispatcher_new) (run_spec p (calls @ ?cmds) spec_new) (0 + length (calls @ ?cmds))"
    using history_simulates [of CmdDispatcher_new 0 "calls @ ?cmds" p h] dispatcher_new ok assms(10) by simp
  with spec obtain c where "run_dispatcher p h (calls @ ?cmds) CmdDispatcher_new = Some (c, out @ dispatched (\<lambda>opCode. the (ds_routes a opCode)) (ds_next a) cs)"
    by (auto simp: simulates_def split: option.splits)
  with up(1) cmds show ?thesis by auto
qed

text \<open>One command in two packets, for the operation that a component has registered.\<close>

definition bench_order :: ground_message where
  "bench_order = bench_message\<lparr>gm_data := command_packet 0x0105 [7]\<rparr>"

theorem ground_commands_reach_components_witness:
  "\<exists>r' w' c. run_uplink (\<lambda>_ _. 0) (TcDeframer_new 0) [Radio (take 4 (frame_of bench_order)), Radio (drop 4 (frame_of bench_order))]
     comms_ring (uplink_start comms_manager) = Some (r', w') \<and>
   run_dispatcher bench_dispatcher (\<lambda>_ _. 0) ([Register 3 0x0105] @ command_calls 1 (\<lambda>_. 0) (up_trace w')) CmdDispatcher_new =
     Some (c, [Cmd_log (OpCodeRegistered 0x0105 3 0), compCmdSend 3 0x0105 0 [7], Cmd_log (OpCodeDispatched 0x0105 3)])"
proof -
  let ?w = "uplink_start comms_manager" and ?steps = "[Radio (take 4 (frame_of bench_order)), Radio (drop 4 (frame_of bench_order))]"
    and ?a = "spec_new\<lparr>ds_routes := [0x0105 \<mapsto> 3]\<rparr>"
  have len: "length (frame_of bench_order) = 20" by (simp add: frame_of_def bench_order_def bench_message_def)
  then have steps: "concat (packets_of ?steps) = concat (map frame_of [bench_order])"
    "\<forall>p \<in> set (packets_of ?steps). 0 < length p \<and> length p \<le> frameAccumulatorSize"
    by (auto simp: frameAccumulatorSize_def)
  have takes: "uplink_takes (TcDeframer_new 0) {} [bench_order] ?w"
    using bench_setup(2,3) comms_spare(2) comms_manager_setup(3)
    by (simp add: uplink_takes_def ground_ok_def bench_order_def bench_message_def uplink_start_def FW_PACKET_FILE_def FW_PACKET_COMMAND_def
        MAX_TRACKED_APIDS_def)
  have command: "list_all2 carries_command (commands_of [bench_order]) [(0x0105, [7])]"
    by (simp add: commands_of_def carries_command_def bench_order_def bench_message_def FW_CMD_ARG_BUFFER_MAX_SIZE_def FW_COM_BUFFER_MAX_SIZE_def)
  have registered: "run_spec bench_dispatcher [Register 3 0x0105] spec_new = Some (?a, [Cmd_log (OpCodeRegistered 0x0105 3 0)])"
    by (simp add: spec_register_def spec_new_def CMD_DISPATCHER_DISPATCH_TABLE_SIZE_def)
  have start: "m_spacecraftId (TcDeframer_new 0) = SpacecraftId" "up_trace ?w = []"
    by (simp_all add: TcDeframer_new_def uplink_start_def)
  have room: "\<forall>(opCode, args) \<in> set [(0x0105, [7])]. \<exists>target. ds_routes ?a opCode = Some target \<and> compCmdSend_connected bench_dispatcher target"
    "card (dom (ds_pending ?a)) + length [(0x0105 :: u32, [7 :: u8])] \<le> CMD_DISPATCHER_SEQUENCER_TABLE_SIZE"
    by (simp_all add: bench_dispatcher_def spec_new_def CMD_DISPATCHER_SEQUENCER_TABLE_SIZE_def)
  from ground_commands_reach_components [OF start(1) takes start(2) bench_setup(1) refl _ steps command _ _ registered room,
      of "\<lambda>_ _. 0" "\<lambda>_ _. 0" 1 "\<lambda>_. 0"]
  show ?thesis by (simp add: spec_new_def del: run_uplink.simps run_dispatcher.simps command_calls.simps)
qed

end
