(* ===== verification/Cfdp_Checksum.thy ===== *)
theory Cfdp_Checksum
  imports Fprime_Types "HOL-Library.Multiset"
begin

text \<open>
  The checksum of the CCSDS file delivery protocol, \<^verbatim>\<open>lib/fprime/CFDP/Checksum/Checksum.cpp\<close>: its class adds the pieces of a
  file as they come, each with its offset. The lengths are natural numbers; they are those of packets, far below \<open>2\<^sup>3\<^sup>2\<close>.
\<close>

section \<open>The class\<close>

definition addByteAtOffset :: "u8 \<Rightarrow> nat \<Rightarrow> u32 \<Rightarrow> u32 option" where
  "addByteAtOffset byte offset acc = do {
     FW_ASSERT (offset < 4);
     Some (acc + push_bit (8 * (3 - offset)) (ucast byte))
   }"

definition addWordAligned :: "bytes \<Rightarrow> u32 \<Rightarrow> u32 option" where
  "addWordAligned word acc = do {
     acc \<leftarrow> addByteAtOffset (word ! 0) 0 acc;
     acc \<leftarrow> addByteAtOffset (word ! 1) 1 acc;
     acc \<leftarrow> addByteAtOffset (word ! 2) 2 acc;
     addByteAtOffset (word ! 3) 3 acc
   }"

fun unaligned_loop :: "bytes \<Rightarrow> nat \<Rightarrow> u32 \<Rightarrow> u32 option" where
  "unaligned_loop [] offset acc = Some acc"
| "unaligned_loop (byte # word) offset acc = do {
     acc \<leftarrow> addByteAtOffset byte offset acc;
     unaligned_loop word (if offset + 1 = 4 then 0 else offset + 1) acc
   }"

definition addWordUnaligned :: "bytes \<Rightarrow> u8 \<Rightarrow> u32 \<Rightarrow> u32 option" where
  "addWordUnaligned word position acc = do {
     FW_ASSERT (length word < 4);
     unaligned_loop word (unat (position mod 4)) acc
   }"

text \<open>The words in the middle; what is left has fewer than four bytes.\<close>

fun middle_loop :: "bytes \<Rightarrow> u32 \<Rightarrow> (bytes \<times> u32) option" where
  "middle_loop data acc =
     (if 4 \<le> length data then do {
        acc \<leftarrow> addWordAligned (take 4 data) acc;
        middle_loop (drop 4 data) acc
      }
      else Some (data, acc))"

declare middle_loop.simps [simp del]

definition Checksum_update :: "bytes \<Rightarrow> u32 \<Rightarrow> u32 \<Rightarrow> u32 option" where
  "Checksum_update data offset acc = do {
     let offsetMod4 = unat (offset mod 4);
     let wordLength = min (length data) (4 - offsetMod4);
     (rest, acc) \<leftarrow> (if offsetMod4 \<noteq> 0
       then map_option (Pair (drop wordLength data)) (addWordUnaligned (take wordLength data) (ucast offset) acc)
       else Some (data, acc));
     (rest, acc) \<leftarrow> middle_loop rest acc;
     if rest \<noteq> [] then addWordUnaligned rest (ucast (offset + of_nat (length data - length rest))) acc
     else Some acc
   }"

fun Checksum_updates :: "(u32 \<times> bytes) list \<Rightarrow> u32 \<Rightarrow> u32 option" where
  "Checksum_updates [] acc = Some acc"
| "Checksum_updates ((offset, data) # pieces) acc = do {
     acc \<leftarrow> Checksum_update data offset acc;
     Checksum_updates pieces acc
   }"

section \<open>The reference\<close>

text \<open>Every byte of the file counts by its place in its word of four, the first one most.\<close>

fun file_sum :: "nat \<Rightarrow> bytes \<Rightarrow> u32" where
  "file_sum offset [] = 0"
| "file_sum offset (b # bs) = push_bit (8 * (3 - offset mod 4)) (ucast b) + file_sum (Suc offset) bs"

lemma file_sum_append: "file_sum offset (xs @ ys) = file_sum offset xs + file_sum (offset + length xs) ys"
  by (induction xs arbitrary: offset) simp_all

lemma file_sum_mod: "i mod 4 = j mod 4 \<Longrightarrow> file_sum i bs = file_sum j bs"
proof (induction bs arbitrary: i j)
  case (Cons b bs)
  have "Suc i mod 4 = Suc j mod 4" using Cons.prems by (metis mod_Suc_eq)
  from Cons.IH [OF this] Cons.prems show ?case by (simp only: file_sum.simps)
qed simp

lemma aligned_sum:
  assumes "length word = 4" "n mod 4 = 0"
  shows "addWordAligned word acc = Some (acc + file_sum n word)"
proof -
  obtain a b c d where word: "word = [a, b, c, d]"
    using assms(1) by (auto simp: numeral_eq_Suc length_Suc_conv)
  have "file_sum n word = file_sum 0 word" using assms(2) by (intro file_sum_mod) simp
  also have "\<dots> = push_bit 24 (ucast a) + (push_bit 16 (ucast b) + (push_bit 8 (ucast c) + ucast d))"
    unfolding word by simp
  finally show ?thesis
    unfolding word by (simp add: addWordAligned_def addByteAtOffset_def add.assoc)
qed

lemma unaligned_sum: "k < 4 \<Longrightarrow> n mod 4 = k \<Longrightarrow> unaligned_loop word k acc = Some (acc + file_sum n word)"
proof (induction word arbitrary: k n acc)
  case (Cons b word)
  have "Suc n mod 4 = (if k + 1 = 4 then 0 else k + 1)" using Cons.prems by (auto simp: mod_Suc)
  with Cons show ?case by (simp add: addByteAtOffset_def add.assoc)
qed simp

lemma middle_sum:
  "n mod 4 = 0 \<Longrightarrow> \<exists>full rest. middle_loop data acc = Some (rest, acc + file_sum n full) \<and> data = full @ rest \<and>
     length rest < 4 \<and> length full mod 4 = 0"
proof (induction data acc arbitrary: n rule: middle_loop.induct)
  case (1 data acc)
  show ?case
  proof (cases "4 \<le> length data")
    case True
    have word: "addWordAligned (take 4 data) acc = Some (acc + file_sum n (take 4 data))"
      using True 1(2) by (intro aligned_sum) simp_all
    have next4: "(n + 4) mod 4 = 0" using 1(2) by presburger
    obtain d rest where ih: "middle_loop (drop 4 data) (acc + file_sum n (take 4 data)) =
        Some (rest, acc + file_sum n (take 4 data) + file_sum (n + 4) d)" "drop 4 data = d @ rest" "length rest < 4" "length d mod 4 = 0"
      using 1(1) [OF True word next4] by (elim exE conjE)
    have "data = (take 4 data @ d) @ rest" using ih(2) by (metis append.assoc append_take_drop_id)
    moreover have "length (take 4 data @ d) mod 4 = 0" using True ih(4) by simp
    moreover have "file_sum n (take 4 data @ d) = file_sum n (take 4 data) + file_sum (n + 4) d" using True by (simp add: file_sum_append)
    ultimately show ?thesis
      using True word ih(1,3) by (subst middle_loop.simps) (auto simp: add.assoc intro!: exI [of _ "take 4 data @ d"])
  next
    case False
    then show ?thesis by (subst middle_loop.simps) auto
  qed
qed

text \<open>The position in the file, narrowed to a byte, keeps its place in the word.\<close>

lemma position_mod: "unat ((ucast (offset + of_nat k) :: u8) mod 4) = (unat (offset :: u32) + k) mod 4"
proof -
  have "unat (offset + of_nat k) mod 4 = (unat offset + k) mod 4"
    by (simp add: unat_word_ariths unsigned_of_nat take_bit_eq_mod mod_mod_cancel mod_simps)
  then show ?thesis by (simp add: unat_mod unsigned_ucast_eq take_bit_eq_mod mod_mod_cancel)
qed

lemma update_sum:
  assumes "length data < 2 ^ 32"
  shows "Checksum_update data offset acc = Some (acc + file_sum (unat offset) data)"
proof -
  define o4 where "o4 = unat (offset mod 4)"
  define l where "l = min (length data) (4 - o4)"
  have o4: "o4 = unat offset mod 4" "o4 < 4" by (simp_all add: o4_def unat_mod)
  define first rest where "first = (if o4 \<noteq> 0 then take l data else [])" and "rest = (if o4 \<noteq> 0 then drop l data else data)"
  have data: "data = first @ rest" "length first = (if o4 \<noteq> 0 then l else 0)" by (simp_all add: first_def rest_def l_def)
  have step1: "(if o4 \<noteq> 0 then map_option (Pair (drop l data)) (addWordUnaligned (take l data) (ucast offset) acc) else Some (data, acc)) =
      Some (rest, acc + file_sum (unat offset) first)"
  proof (cases "o4 = 0")
    case False
    have "unat ((ucast offset :: u8) mod 4) = o4" using position_mod [of offset 0] o4(1) by simp
    with False o4 show ?thesis
      by (simp add: addWordUnaligned_def unaligned_sum [of _ "unat offset"] first_def rest_def l_def)
  qed (simp add: first_def rest_def)
  have "rest = [] \<or> (unat offset + length first) mod 4 = 0"
  proof (cases "o4 = 0 \<or> length data \<le> 4 - o4")
    case False
    then have "length first = 4 - o4" using data(2) by (simp add: l_def)
    moreover have "(u + (4 - u mod 4)) mod 4 = 0" for u :: nat by presburger
    ultimately show ?thesis using o4(1) by simp
  qed (use o4 data in \<open>auto simp: rest_def l_def\<close>)
  then obtain full last where middle: "middle_loop rest (acc + file_sum (unat offset) first) =
      Some (last, acc + file_sum (unat offset) first + file_sum (unat offset + length first) full)"
    "rest = full @ last" "length last < 4"
    using middle_sum [of "unat offset + length first" rest] by (fastforce simp: middle_loop.simps [of "[]"])
  have len: "length data - length last = length first + length full" using data(1) middle(2) by simp
  have "addWordUnaligned last (ucast (offset + of_nat (length data - length last))) a = Some (a + file_sum (unat offset + length first + length full) last)" for a
    using middle(3) position_mod [of offset "length first + length full"]
    by (simp add: addWordUnaligned_def len unaligned_sum [of _ "unat offset + length first + length full"] add.assoc)
  moreover have "file_sum (unat offset) data = file_sum (unat offset) first + (file_sum (unat offset + length first) full +
      file_sum (unat offset + length first + length full) last)"
    by (subst data(1), subst middle(2)) (simp add: file_sum_append add.assoc)
  ultimately show ?thesis
    using step1 middle(1) unfolding Checksum_update_def Let_def o4_def [symmetric] l_def [symmetric]
    by (cases "last = []") (simp_all add: add.assoc)
qed

text \<open>The pieces of a file with their offsets.\<close>

fun pieces :: "nat \<Rightarrow> bytes list \<Rightarrow> (u32 \<times> bytes) list" where
  "pieces offset [] = []"
| "pieces offset (c # cs) = (of_nat offset, c) # pieces (offset + length c) cs"

definition piece_sum :: "u32 \<times> bytes \<Rightarrow> u32" where
  "piece_sum p = file_sum (unat (fst p)) (snd p)"

lemma updates_sum:
  "\<forall>p \<in> set ps. length (snd p) < 2 ^ 32 \<Longrightarrow> Checksum_updates ps acc = Some (acc + (\<Sum>p \<in># mset ps. piece_sum p))"
  by (induction ps acc rule: Checksum_updates.induct) (auto simp: update_sum piece_sum_def add.assoc)

lemma pieces_sum: "offset + length (concat cs) < 2 ^ 32 \<Longrightarrow> (\<Sum>p \<in># mset (pieces offset cs). piece_sum p) = file_sum offset (concat cs)"
  by (induction cs arbitrary: offset) (simp_all add: piece_sum_def file_sum_append unsigned_of_nat take_bit_nat_eq_self add.assoc)

lemma pieces_short: "p \<in> set (pieces offset cs) \<Longrightarrow> length (snd p) \<le> length (concat cs)"
  by (induction cs arbitrary: offset) (auto, fastforce)

section \<open>Properties\<close>



end
