(* ===== verification/File_Packets.thy ===== *)
theory File_Packets
  imports Serial_Values Packet_Router Cfdp_Checksum
begin

text \<open>
  The packets that carry files, \<^verbatim>\<open>lib/fprime/Fw/FilePacket\<close>. The C++ union is a datatype with the common header in every
  constructor; a path name and the data of a packet, in C++ a pointer into the buffer with a length, are the bytes pointed to.
\<close>

section \<open>Packets\<close>

definition T_START :: u8 where "T_START = 0"
definition T_DATA :: u8 where "T_DATA = 1"
definition T_END :: u8 where "T_END = 2"
definition T_CANCEL :: u8 where "T_CANCEL = 3"
definition T_NONE :: u8 where "T_NONE = 255"

lemmas packet_types = T_START_def T_DATA_def T_END_def T_CANCEL_def T_NONE_def

text \<open>The longest names that the components of files keep.\<close>

definition FW_LOG_STRING_MAX_SIZE :: nat where "FW_LOG_STRING_MAX_SIZE = 200"

record PacketHeader =
  ph_type :: u8
  ph_sequenceIndex :: u32

record PathName =
  pn_length :: u8
  pn_value :: bytes

datatype FilePacket =
    StartPacket PacketHeader u32 PathName PathName
  | DataPacket PacketHeader u32 u16 bytes
  | EndPacket PacketHeader u32
  | CancelPacket PacketHeader
  | NoPacket

primrec packet_header :: "FilePacket \<Rightarrow> PacketHeader" where
  "packet_header (StartPacket h n s d) = h"
| "packet_header (DataPacket h off n bs) = h"
| "packet_header (EndPacket h c) = h"
| "packet_header (CancelPacket h) = h"
| "packet_header NoPacket = \<lparr>ph_type = T_NONE, ph_sequenceIndex = 0\<rparr>"

text \<open>\<^verbatim>\<open>initialize\<close>; a C string ends before its first zero byte, and a path name has at most 255 characters.\<close>

definition c_string :: "bytes \<Rightarrow> bytes" where
  "c_string bs = takeWhile (\<lambda>b. b \<noteq> 0) bs"

definition string_length :: "bytes \<Rightarrow> nat \<Rightarrow> nat" where
  "string_length source buffer_size = length (takeWhile (\<lambda>b. b \<noteq> 0) (take buffer_size source))"

definition PathName_initialize :: "bytes \<Rightarrow> PathName" where
  "PathName_initialize val = \<lparr>pn_length = of_nat (string_length val 255), pn_value = take (string_length val 255) val\<rparr>"

definition StartPacket_initialize :: "u32 \<Rightarrow> bytes \<Rightarrow> bytes \<Rightarrow> FilePacket" where
  "StartPacket_initialize fileSize sourcePath destinationPath =
     StartPacket \<lparr>ph_type = T_START, ph_sequenceIndex = 0\<rparr> fileSize (PathName_initialize sourcePath) (PathName_initialize destinationPath)"

definition DataPacket_initialize :: "u32 \<Rightarrow> u32 \<Rightarrow> u16 \<Rightarrow> bytes \<Rightarrow> FilePacket" where
  "DataPacket_initialize sequenceIndex byteOffset dataSize data =
     DataPacket \<lparr>ph_type = T_DATA, ph_sequenceIndex = sequenceIndex\<rparr> byteOffset dataSize data"

definition EndPacket_initialize :: "u32 \<Rightarrow> u32 \<Rightarrow> FilePacket" where
  "EndPacket_initialize sequenceIndex checksum = EndPacket \<lparr>ph_type = T_END, ph_sequenceIndex = sequenceIndex\<rparr> checksum"

definition CancelPacket_initialize :: "u32 \<Rightarrow> FilePacket" where
  "CancelPacket_initialize sequenceIndex = CancelPacket \<lparr>ph_type = T_CANCEL, ph_sequenceIndex = sequenceIndex\<rparr>"

section \<open>Writing\<close>

text \<open>The next write, unless the one before failed.\<close>

definition and_write :: "SerializeStatus \<times> LinearBuffer \<Rightarrow> (LinearBuffer \<Rightarrow> SerializeStatus \<times> LinearBuffer) \<Rightarrow> SerializeStatus \<times> LinearBuffer" where
  "and_write r f = (case r of (status, s) \<Rightarrow> if status \<noteq> FW_SERIALIZE_OK then (status, s) else f s)"

definition Header_toSerialBuffer :: "PacketHeader \<Rightarrow> LinearBuffer \<Rightarrow> SerializeStatus \<times> LinearBuffer" where
  "Header_toSerialBuffer h s = and_write (serialize_U8 (ph_type h) s) (serialize_U32 BIG (ph_sequenceIndex h))"

text \<open>\<^verbatim>\<open>SerialBuffer::pushBytes\<close>\<close>

definition pushBytes :: "bytes \<Rightarrow> nat \<Rightarrow> LinearBuffer \<Rightarrow> SerializeStatus \<times> LinearBuffer" where
  "pushBytes addr n = serialize_buff (take n addr) OMIT_LENGTH BIG"

definition PathName_toSerialBuffer :: "PathName \<Rightarrow> LinearBuffer \<Rightarrow> SerializeStatus \<times> LinearBuffer" where
  "PathName_toSerialBuffer p s = and_write (serialize_U8 (pn_length p) s) (pushBytes (pn_value p) (unat (pn_length p)))"

text \<open>\<^verbatim>\<open>FilePacket::toBuffer\<close> with the \<^verbatim>\<open>toBuffer\<close> and \<^verbatim>\<open>toSerialBuffer\<close> of each packet, on the memory of the buffer.\<close>

fun FilePacket_toSerialBuffer :: "FilePacket \<Rightarrow> LinearBuffer \<Rightarrow> (SerializeStatus \<times> LinearBuffer) option" where
  "FilePacket_toSerialBuffer (StartPacket h fileSize src dst) s = do {
     FW_ASSERT (ph_type h = T_START);
     Some (and_write (and_write (and_write (Header_toSerialBuffer h s) (serialize_U32 BIG fileSize))
       (PathName_toSerialBuffer src)) (PathName_toSerialBuffer dst))
   }"
| "FilePacket_toSerialBuffer (DataPacket h byteOffset dataSize data) s = do {
     FW_ASSERT (ph_type h = T_DATA);
     Some (and_write (and_write (and_write (Header_toSerialBuffer h s) (serialize_U32 BIG byteOffset))
       (serialize_U16 BIG dataSize)) (pushBytes data (unat dataSize)))
   }"
| "FilePacket_toSerialBuffer (EndPacket h checksum) s = do {
     FW_ASSERT (ph_type h = T_END);
     Some (and_write (Header_toSerialBuffer h s) (serialize_U32 BIG checksum))
   }"
| "FilePacket_toSerialBuffer (CancelPacket h) s = Some (Header_toSerialBuffer h s)"
| "FilePacket_toSerialBuffer NoPacket s = None"

definition FilePacket_toBuffer :: "FilePacket \<Rightarrow> bytes \<Rightarrow> (SerializeStatus \<times> LinearBuffer) option" where
  "FilePacket_toBuffer pkt mem = FilePacket_toSerialBuffer pkt \<lparr>lb_mem = mem, m_serLoc = 0, m_deserLoc = 0\<rparr>"

definition PathName_bufferSize :: "PathName \<Rightarrow> nat" where
  "PathName_bufferSize p = 1 + unat (pn_length p)"

definition Header_bufferSize :: nat where
  "Header_bufferSize = 1 + 4"

fun FilePacket_bufferSize :: "FilePacket \<Rightarrow> nat" where
  "FilePacket_bufferSize (StartPacket h fileSize src dst) = Header_bufferSize + 4 + PathName_bufferSize src + PathName_bufferSize dst"
| "FilePacket_bufferSize (DataPacket h byteOffset dataSize data) = Header_bufferSize + 4 + 2 + unat dataSize"
| "FilePacket_bufferSize (EndPacket h checksum) = Header_bufferSize + 4"
| "FilePacket_bufferSize (CancelPacket h) = Header_bufferSize"
| "FilePacket_bufferSize NoPacket = 0"

section \<open>Reading\<close>

text \<open>The next read, unless the one before failed.\<close>

type_synonym 'a reading = "(SerializeStatus \<times> 'a option \<times> LinearBuffer) option"

definition and_read :: "'a reading \<Rightarrow> ('a \<Rightarrow> LinearBuffer \<Rightarrow> 'b reading) \<Rightarrow> 'b reading" where
  "and_read r f = (case r of None \<Rightarrow> None | Some (status, None, s) \<Rightarrow> Some (status, None, s) | Some (status, Some v, s) \<Rightarrow> f v s)"

definition Header_fromSerialBuffer :: "LinearBuffer \<Rightarrow> PacketHeader reading" where
  "Header_fromSerialBuffer s = and_read (Some (deserialize_U8 s)) (\<lambda>type s.
     and_read (Some (deserialize_U32 BIG s)) (\<lambda>sequenceIndex s.
       Some (FW_SERIALIZE_OK, Some \<lparr>ph_type = type, ph_sequenceIndex = sequenceIndex\<rparr>, s)))"

text \<open>\<^verbatim>\<open>SerialBuffer::popBytes\<close>\<close>

definition popBytes :: "nat \<Rightarrow> LinearBuffer \<Rightarrow> bytes reading" where
  "popBytes n s = map_option (\<lambda>(status, bs, _, s). (status, bs, s)) (deserialize_buff n OMIT_LENGTH BIG s)"

definition PathName_fromSerialBuffer :: "LinearBuffer \<Rightarrow> PathName reading" where
  "PathName_fromSerialBuffer s = and_read (Some (deserialize_U8 s)) (\<lambda>len s.
     and_read (popBytes (unat len) s) (\<lambda>bytes s.
       Some (FW_SERIALIZE_OK, Some \<lparr>pn_length = len, pn_value = bytes\<rparr>, s)))"

definition StartPacket_fromSerialBuffer :: "PacketHeader \<Rightarrow> LinearBuffer \<Rightarrow> FilePacket reading" where
  "StartPacket_fromSerialBuffer h s = do {
     FW_ASSERT (ph_type h = T_START);
     and_read (Some (deserialize_U32 BIG s)) (\<lambda>fileSize s.
       and_read (PathName_fromSerialBuffer s) (\<lambda>src s.
         and_read (PathName_fromSerialBuffer s) (\<lambda>dst s.
           Some (FW_SERIALIZE_OK, Some (StartPacket h fileSize src dst), s))))
   }"

definition fixedLengthSize :: nat where
  "fixedLengthSize = Header_bufferSize + 4 + 2"

definition DataPacket_fromSerialBuffer :: "PacketHeader \<Rightarrow> LinearBuffer \<Rightarrow> FilePacket reading" where
  "DataPacket_fromSerialBuffer h s = do {
     FW_ASSERT (ph_type h = T_DATA);
     and_read (Some (deserialize_U32 BIG s)) (\<lambda>byteOffset s.
       and_read (Some (deserialize_U16 BIG s)) (\<lambda>dataSize s. do {
         left \<leftarrow> getDeserializeSizeLeft s;
         if left \<noteq> unat dataSize then Some (FW_DESERIALIZE_SIZE_MISMATCH, None, s)
         else Some (FW_SERIALIZE_OK, Some (DataPacket h byteOffset dataSize (take (unat dataSize) (drop fixedLengthSize (lb_mem s)))), s)
       }))
   }"

definition EndPacket_fromSerialBuffer :: "PacketHeader \<Rightarrow> LinearBuffer \<Rightarrow> FilePacket reading" where
  "EndPacket_fromSerialBuffer h s = do {
     FW_ASSERT (ph_type h = T_END);
     and_read (Some (deserialize_U32 BIG s)) (\<lambda>checksum s. Some (FW_SERIALIZE_OK, Some (EndPacket h checksum), s))
   }"

definition CancelPacket_fromSerialBuffer :: "PacketHeader \<Rightarrow> LinearBuffer \<Rightarrow> FilePacket reading" where
  "CancelPacket_fromSerialBuffer h s = do {
     FW_ASSERT (ph_type h = T_CANCEL);
     left \<leftarrow> getDeserializeSizeLeft s;
     if left \<noteq> 0 then Some (FW_DESERIALIZE_SIZE_MISMATCH, None, s) else Some (FW_SERIALIZE_OK, Some (CancelPacket h), s)
   }"

definition FilePacket_fromSerialBuffer :: "LinearBuffer \<Rightarrow> FilePacket reading" where
  "FilePacket_fromSerialBuffer s = and_read (Header_fromSerialBuffer s) (\<lambda>h s.
     if ph_type h = T_START then StartPacket_fromSerialBuffer h s
     else if ph_type h = T_DATA then DataPacket_fromSerialBuffer h s
     else if ph_type h = T_END then EndPacket_fromSerialBuffer h s
     else if ph_type h = T_CANCEL then CancelPacket_fromSerialBuffer h s
     else if ph_type h = T_NONE then Some (FW_DESERIALIZE_TYPE_MISMATCH, None, s)
     else None)"

text \<open>\<^verbatim>\<open>FilePacket::fromBuffer\<close>, on the memory of the buffer: the status, and the packet if it is good.\<close>

definition FilePacket_fromBuffer :: "bytes \<Rightarrow> (SerializeStatus \<times> FilePacket option) option" where
  "FilePacket_fromBuffer mem = do {
     let (status, s) = setBuffLen (length mem) \<lparr>lb_mem = mem, m_serLoc = 0, m_deserLoc = 0\<rparr>;
     FW_ASSERT (status = FW_SERIALIZE_OK);
     (status, pkt, _) \<leftarrow> FilePacket_fromSerialBuffer s;
     Some (status, pkt)
   }"

section \<open>The layout\<close>

definition path_name_ok :: "PathName \<Rightarrow> bool" where
  "path_name_ok p \<longleftrightarrow> length (pn_value p) = unat (pn_length p)"

fun file_packet_ok :: "FilePacket \<Rightarrow> bool" where
  "file_packet_ok (StartPacket h fileSize src dst) \<longleftrightarrow> ph_type h = T_START \<and> path_name_ok src \<and> path_name_ok dst"
| "file_packet_ok (DataPacket h byteOffset dataSize data) \<longleftrightarrow> ph_type h = T_DATA \<and> length data = unat dataSize"
| "file_packet_ok (EndPacket h checksum) \<longleftrightarrow> ph_type h = T_END"
| "file_packet_ok (CancelPacket h) \<longleftrightarrow> ph_type h = T_CANCEL"
| "file_packet_ok NoPacket \<longleftrightarrow> False"

text \<open>The values that a packet consists of.\<close>

definition header_values :: "PacketHeader \<Rightarrow> serial_value list" where
  "header_values h = [V_U8 (ph_type h), V_U32 (ph_sequenceIndex h)]"

definition path_values :: "PathName \<Rightarrow> serial_value list" where
  "path_values p = [V_U8 (pn_length p), V_buff OMIT_LENGTH (pn_value p)]"

fun packet_values :: "FilePacket \<Rightarrow> serial_value list" where
  "packet_values (StartPacket h fileSize src dst) = header_values h @ V_U32 fileSize # path_values src @ path_values dst"
| "packet_values (DataPacket h byteOffset dataSize data) = header_values h @ [V_U32 byteOffset, V_U16 dataSize, V_buff OMIT_LENGTH data]"
| "packet_values (EndPacket h checksum) = header_values h @ [V_U32 checksum]"
| "packet_values (CancelPacket h) = header_values h"
| "packet_values NoPacket = []"

abbreviation in_order :: "serial_value list \<Rightarrow> (Endianness \<times> serial_value) list" where
  "in_order vs \<equiv> map (Pair BIG) vs"

definition file_packet_bytes :: "FilePacket \<Rightarrow> bytes" where
  "file_packet_bytes pkt = values_bytes (in_order (packet_values pkt))"

text \<open>The writers of the packets write these values.\<close>

lemma put_values_append: "put_values (vs @ ws) s = and_write (put_values vs s) (put_values ws)"
  by (induction vs arbitrary: s) (auto simp: and_write_def split: prod.splits)

lemma put_one: "put_values [(mode, v)] s = put_value mode v s"
  by (simp split: prod.splits)

lemma put_values_Cons: "put_values (mv # vs) s = and_write (put_value (fst mv) (snd mv) s) (put_values vs)"
  using put_values_append [of "[mv]" vs s] by (cases mv) (simp only: put_one append.simps fst_conv snd_conv)

lemma and_write_assoc: "and_write (and_write r f) g = and_write r (\<lambda>s. and_write (f s) g)"
  by (auto simp: and_write_def split: prod.splits)

lemma put_parts:
  "Header_toSerialBuffer h s = put_values (in_order (header_values h)) s"
  "path_name_ok p \<Longrightarrow> PathName_toSerialBuffer p s = put_values (in_order (path_values p)) s"
  "length data = unat n \<Longrightarrow> pushBytes data (unat (n :: u16)) s = put_values [(BIG, V_buff OMIT_LENGTH data)] s"
  by (simp_all add: Header_toSerialBuffer_def PathName_toSerialBuffer_def pushBytes_def header_values_def path_values_def path_name_ok_def put_values_Cons
      and_write_def split: prod.splits)

lemma packet_written:
  assumes "file_packet_ok pkt"
  shows "FilePacket_toSerialBuffer pkt s = Some (put_values (in_order (packet_values pkt)) s)"
proof -
  have eta: "put_values [(BIG, v)] = put_value BIG v" for v by (rule ext) (rule put_one)
  have puts: "serialize_U32 BIG n = put_values [(BIG, V_U32 n)]" "serialize_U16 BIG k = put_values [(BIG, V_U16 k)]" for n k
    unfolding eta by simp_all
  show ?thesis
  proof (cases pkt)
    case (StartPacket h fileSize src dst)
    with assms have "PathName_toSerialBuffer src = put_values (in_order (path_values src))" "PathName_toSerialBuffer dst = put_values (in_order (path_values dst))"
      by (auto intro!: ext put_parts(2))
    with StartPacket assms show ?thesis
      by (simp add: put_parts(1) puts flip: put_values_append)
  next
    case (DataPacket h off n data)
    with assms have "pushBytes data (unat n) = put_values [(BIG, V_buff OMIT_LENGTH data)]" by (auto intro!: ext put_parts(3))
    with DataPacket assms show ?thesis
      by (simp add: put_parts(1) puts flip: put_values_append)
  qed (use assms in \<open>simp_all add: put_parts(1) puts flip: put_values_append\<close>)
qed

lemma packet_values_ok: "file_packet_ok pkt \<Longrightarrow> list_all (value_ok \<circ> snd) (in_order (packet_values pkt)) \<and> packet_values pkt \<noteq> []"
  by (cases pkt) (auto simp: header_values_def path_values_def)

lemma length_file_packet_bytes: "file_packet_ok pkt \<Longrightarrow> length (file_packet_bytes pkt) = FilePacket_bufferSize pkt"
  by (cases pkt) (auto simp: file_packet_bytes_def header_values_def path_values_def path_name_ok_def PathName_bufferSize_def Header_bufferSize_def)

text \<open>Reading one value where it lies.\<close>

definition reads :: "LinearBuffer \<Rightarrow> bytes \<Rightarrow> bool" where
  "reads s bs \<longleftrightarrow> buffer_ok s \<and> lb_mem s \<noteq> [] \<and> drop (m_deserLoc s) (written s) = bs"

lemma reads_length: "reads s bs \<Longrightarrow> m_serLoc s = m_deserLoc s + length bs \<and> m_serLoc s \<le> length (lb_mem s)"
  by (auto simp: reads_def buffer_ok_def written_def)

lemma reads_next: "reads s (bs @ rest) \<Longrightarrow> reads (s\<lparr>m_deserLoc := m_deserLoc s + length bs\<rparr>) rest"
proof -
  assume r: "reads s (bs @ rest)"
  from r have "drop (length bs) (drop (m_deserLoc s) (written s)) = rest" by (simp add: reads_def)
  then have "drop (m_deserLoc s + length bs) (written s) = rest" by (simp add: add.commute)
  with reads_length [OF r] r show ?thesis by (simp add: reads_def buffer_ok_def written_def)
qed

lemma read_int_bytes:
  assumes "reads s (bs @ rest)" "length bs = n" "0 < n"
  shows "\<exists>s'. get_bytes n f s = (FW_SERIALIZE_OK, Some (f bs), s') \<and> lb_mem s' = lb_mem s \<and> m_deserLoc s' = m_deserLoc s + n \<and> reads s' rest"
  using reads_next [OF assms(1)] get_bytes_written [of s bs rest n f] assms
  by (intro exI [of _ "s\<lparr>m_deserLoc := m_deserLoc s + n\<rparr>"]) (simp add: reads_def)

lemma read_U8: "reads s (v # rest) \<Longrightarrow> \<exists>s'. deserialize_U8 s = (FW_SERIALIZE_OK, Some v, s') \<and> lb_mem s' = lb_mem s \<and> m_deserLoc s' = m_deserLoc s + 1 \<and> reads s' rest"
  using read_int_bytes [of s "[v]" rest 1 "\<lambda>b. b ! 0"] by (simp add: deserialize_U8_def)

lemma read_U16: "reads s (U16_bytes BIG v @ rest) \<Longrightarrow> \<exists>s'. deserialize_U16 BIG s = (FW_SERIALIZE_OK, Some v, s') \<and> lb_mem s' = lb_mem s \<and> m_deserLoc s' = m_deserLoc s + 2 \<and> reads s' rest"
  using read_int_bytes [of s "U16_bytes BIG v" rest 2 "U16_of BIG"] by (simp add: deserialize_U16_def)

lemma read_U32: "reads s (U32_bytes BIG v @ rest) \<Longrightarrow> \<exists>s'. deserialize_U32 BIG s = (FW_SERIALIZE_OK, Some v, s') \<and> lb_mem s' = lb_mem s \<and> m_deserLoc s' = m_deserLoc s + 4 \<and> reads s' rest"
  using read_int_bytes [of s "U32_bytes BIG v" rest 4 "U32_of BIG"] by (simp add: deserialize_U32_def)

lemma read_bytes: "reads s (bs @ rest) \<Longrightarrow> \<exists>s'. popBytes (length bs) s = Some (FW_SERIALIZE_OK, Some bs, s') \<and> reads s' rest"
proof -
  assume r: "reads s (bs @ rest)"
  then have "take (length bs) (drop (m_deserLoc s) (written s)) = bs" by (simp add: reads_def)
  then have "take (length bs) (drop (m_deserLoc s) (lb_mem s)) = bs"
    using reads_length [OF r] by (simp add: written_def drop_take min_def)
  with reads_length [OF r] reads_next [OF r] r show ?thesis
    by (simp add: popBytes_def deserialize_buff_def getDeserializeSizeLeft_def reads_def)
qed

lemma read_path: "reads s (values_bytes (in_order (path_values p)) @ rest) \<Longrightarrow> path_name_ok p \<Longrightarrow>
  \<exists>s'. PathName_fromSerialBuffer s = Some (FW_SERIALIZE_OK, Some p, s') \<and> reads s' rest"
proof -
  assume r: "reads s (values_bytes (in_order (path_values p)) @ rest)" and p: "path_name_ok p"
  from r have "reads s (pn_length p # pn_value p @ rest)" by (simp add: path_values_def)
  from read_U8 [OF this] obtain s1 where s1: "deserialize_U8 s = (FW_SERIALIZE_OK, Some (pn_length p), s1)" "reads s1 (pn_value p @ rest)" by blast
  from read_bytes [OF s1(2)] s1(1) p show ?thesis
    by (auto simp: PathName_fromSerialBuffer_def and_read_def path_name_ok_def)
qed

lemma read_header: "reads s (values_bytes (in_order (header_values h)) @ rest) \<Longrightarrow>
  \<exists>s'. Header_fromSerialBuffer s = Some (FW_SERIALIZE_OK, Some h, s') \<and> reads s' rest \<and> lb_mem s' = lb_mem s \<and> m_deserLoc s' = m_deserLoc s + 5"
proof -
  assume "reads s (values_bytes (in_order (header_values h)) @ rest)"
  then have "reads s (ph_type h # U32_bytes BIG (ph_sequenceIndex h) @ rest)" by (simp add: header_values_def)
  from read_U8 [OF this] obtain s1 where s1: "deserialize_U8 s = (FW_SERIALIZE_OK, Some (ph_type h), s1)" "lb_mem s1 = lb_mem s"
    "m_deserLoc s1 = m_deserLoc s + 1" "reads s1 (U32_bytes BIG (ph_sequenceIndex h) @ rest)" by blast
  from read_U32 [OF s1(4)] s1 show ?thesis by (auto simp: Header_fromSerialBuffer_def and_read_def)
qed

lemma packet_read:
  assumes "file_packet_ok pkt" "reads s (file_packet_bytes pkt)" "m_deserLoc s = 0"
  shows "\<exists>s'. FilePacket_fromSerialBuffer s = Some (FW_SERIALIZE_OK, Some pkt, s')"
proof -
  define h where "h = packet_header pkt"
  obtain rest where rest: "file_packet_bytes pkt = values_bytes (in_order (header_values h)) @ rest"
    "rest = values_bytes (in_order (drop 2 (packet_values pkt)))"
    using assms(1) by (cases pkt) (simp_all add: file_packet_bytes_def h_def header_values_def)
  from assms(2) read_header [of s h rest] obtain s1 where s1: "Header_fromSerialBuffer s = Some (FW_SERIALIZE_OK, Some h, s1)" "reads s1 rest"
    "lb_mem s1 = lb_mem s" "m_deserLoc s1 = 5"
    unfolding rest(1) using assms(3) by auto
  show ?thesis
  proof (cases pkt)
    case (StartPacket h' fileSize src dst)
    have "reads s1 (U32_bytes BIG fileSize @ values_bytes (in_order (path_values src)) @ values_bytes (in_order (path_values dst)) @ [])"
      using s1(2) unfolding rest(2) StartPacket by (simp add: header_values_def values_bytes_def)
    from read_U32 [OF this] obtain s2 where s2: "deserialize_U32 BIG s1 = (FW_SERIALIZE_OK, Some fileSize, s2)"
      "reads s2 (values_bytes (in_order (path_values src)) @ values_bytes (in_order (path_values dst)) @ [])" by blast
    from read_path [OF s2(2)] StartPacket assms(1) obtain s3 where s3: "PathName_fromSerialBuffer s2 = Some (FW_SERIALIZE_OK, Some src, s3)"
      "reads s3 (values_bytes (in_order (path_values dst)) @ [])" by auto
    from read_path [OF s3(2)] StartPacket assms(1) obtain s4 where "PathName_fromSerialBuffer s3 = Some (FW_SERIALIZE_OK, Some dst, s4)" by auto
    with s1(1) s2(1) s3(1) StartPacket assms(1) show ?thesis
      by (simp add: FilePacket_fromSerialBuffer_def and_read_def StartPacket_fromSerialBuffer_def h_def)
  next
    case (DataPacket h' off n data)
    have "reads s1 (U32_bytes BIG off @ U16_bytes BIG n @ data @ [])"
      using s1(2) unfolding rest(2) DataPacket by (simp add: header_values_def)
    from read_U32 [OF this] obtain s2 where s2: "deserialize_U32 BIG s1 = (FW_SERIALIZE_OK, Some off, s2)" "lb_mem s2 = lb_mem s1"
      "m_deserLoc s2 = m_deserLoc s1 + 4" "reads s2 (U16_bytes BIG n @ data @ [])" by blast
    from read_U16 [OF s2(4)] obtain s3 where s3: "deserialize_U16 BIG s2 = (FW_SERIALIZE_OK, Some n, s3)" "lb_mem s3 = lb_mem s2"
      "m_deserLoc s3 = m_deserLoc s2 + 2" "reads s3 data" by auto
    have left: "m_serLoc s3 = 11 + length data" "m_deserLoc s3 = 11"
      using reads_length [OF s3(4)] s3(3) s2(3) s1(4) by simp_all
    have "drop 11 (written s3) = data" using s3(4) left(2) by (simp add: reads_def)
    then have "take (length data) (drop 11 (lb_mem s3)) = data" using left by (simp add: written_def drop_take)
    with s1(1,3) s2(1) s3(1) DataPacket assms(1) left show ?thesis
      by (simp add: FilePacket_fromSerialBuffer_def and_read_def DataPacket_fromSerialBuffer_def h_def getDeserializeSizeLeft_def fixedLengthSize_def
          Header_bufferSize_def packet_types)
  next
    case (EndPacket h' c)
    have "reads s1 (U32_bytes BIG c @ [])" using s1(2) unfolding rest(2) EndPacket by (simp add: header_values_def)
    from read_U32 [OF this] obtain s2 where "deserialize_U32 BIG s1 = (FW_SERIALIZE_OK, Some c, s2)" by blast
    with s1(1) EndPacket assms(1) show ?thesis
      by (simp add: FilePacket_fromSerialBuffer_def and_read_def EndPacket_fromSerialBuffer_def h_def packet_types)
  next
    case (CancelPacket h')
    have "reads s1 []" using s1(2) unfolding rest(2) CancelPacket by (simp add: header_values_def)
    from reads_length [OF this] s1(1) CancelPacket assms(1) show ?thesis
      by (simp add: FilePacket_fromSerialBuffer_def and_read_def CancelPacket_fromSerialBuffer_def h_def getDeserializeSizeLeft_def packet_types)
  qed (use assms in simp)
qed

text \<open>What the receiver makes of the bytes of a packet.\<close>

lemma packet_received: "file_packet_ok pkt \<Longrightarrow> FilePacket_fromBuffer (file_packet_bytes pkt) = Some (FW_SERIALIZE_OK, Some pkt)"
proof -
  assume ok: "file_packet_ok pkt"
  let ?s = "\<lparr>lb_mem = file_packet_bytes pkt, m_serLoc = length (file_packet_bytes pkt), m_deserLoc = 0\<rparr>"
  have "0 < length (file_packet_bytes pkt)"
    using ok unfolding length_file_packet_bytes [OF ok] by (cases pkt) (simp_all add: Header_bufferSize_def)
  then have "reads ?s (file_packet_bytes pkt)" by (simp add: reads_def buffer_ok_def written_def)
  from packet_read [OF ok this] show ?thesis
    by (auto simp: FilePacket_fromBuffer_def setBuffLen_def getCapacity_def)
qed

section \<open>Transfers\<close>

text \<open>The bytes of a packet with the type of file packets in front.\<close>

definition file_bytes :: "FilePacket \<Rightarrow> bytes" where
  "file_bytes pkt = U16_bytes BIG FW_PACKET_FILE @ file_packet_bytes pkt"

text \<open>
  The data packets of a file that has been cut into the chunks \<open>cs\<close>, as their numbers, offsets and bytes; a transfer in which they
  come in the order \<open>ps\<close>.
\<close>

definition numbered :: "bytes list \<Rightarrow> (u32 \<times> u32 \<times> bytes) list" where
  "numbered cs = zip (map of_nat [1..<Suc (length cs)]) (pieces 0 cs)"

fun data_packet :: "u32 \<times> u32 \<times> bytes \<Rightarrow> FilePacket" where
  "data_packet (i, off, c) = DataPacket_initialize i off (of_nat (length c)) c"

definition transfer :: "bytes \<Rightarrow> bytes \<Rightarrow> bytes list \<Rightarrow> (u32 \<times> u32 \<times> bytes) list \<Rightarrow> FilePacket list" where
  "transfer src dst cs ps = StartPacket_initialize (of_nat (length (concat cs))) src dst # map data_packet ps @
     [EndPacket_initialize (of_nat (Suc (length cs))) (file_sum 0 (concat cs))]"

definition cuts_ok :: "bytes list \<Rightarrow> bool" where
  "cuts_ok cs \<longleftrightarrow> (\<forall>c \<in> set cs. length c < 2 ^ 16) \<and> length (concat cs) < 2 ^ 32 \<and> Suc (length cs) < 2 ^ 32"

section \<open>Properties\<close>

text \<open>
  File packets survive the way through a buffer. A packet with consistent lengths written to a buffer of at least the size
  that \<^verbatim>\<open>bufferSize\<close> gives takes exactly that many bytes, and reading those bytes gives the packet back; a smaller buffer is
  refused.
\<close>

theorem file_packets_roundtrip:
  assumes "file_packet_ok pkt"
  shows "if FilePacket_bufferSize pkt \<le> length mem
    then \<exists>s. FilePacket_toBuffer pkt mem = Some (FW_SERIALIZE_OK, s) \<and> getSize s = FilePacket_bufferSize pkt \<and>
      FilePacket_fromBuffer (written s) = Some (FW_SERIALIZE_OK, Some pkt)
    else \<exists>s. FilePacket_toBuffer pkt mem = Some (FW_SERIALIZE_NO_ROOM_LEFT, s)"
proof -
  let ?s = "\<lparr>lb_mem = mem, m_serLoc = 0, m_deserLoc = 0\<rparr>"
  note w = packet_written [OF assms] and ok = packet_values_ok [OF assms] and len = length_file_packet_bytes [OF assms, unfolded file_packet_bytes_def]
  show ?thesis
  proof (cases "FilePacket_bufferSize pkt \<le> length mem")
    case True
    have "put_values (in_order (packet_values pkt)) ?s = (FW_SERIALIZE_OK, store_bytes (file_packet_bytes pkt) ?s)"
      using put_values_fits [of "in_order (packet_values pkt)" ?s] ok len True by (simp add: file_packet_bytes_def)
    moreover have "written (store_bytes (file_packet_bytes pkt) ?s) = file_packet_bytes pkt"
      using len True by (simp add: file_packet_bytes_def written_def store_bytes_def)
    ultimately show ?thesis
      using True w len packet_received [OF assms] by (simp add: FilePacket_toBuffer_def getSize_def file_packet_bytes_def)
  next
    case False
    then show ?thesis
      using put_values_refused [of "in_order (packet_values pkt)" ?s] ok len w by (auto simp: FilePacket_toBuffer_def)
  qed
qed

theorem file_packets_roundtrip_witness:
  "\<exists>s. FilePacket_toBuffer (StartPacket_initialize 5 [0x61, 0] [0x62, 0x63, 0]) (replicate 20 0) = Some (FW_SERIALIZE_OK, s) \<and>
     FilePacket_fromBuffer (written s) = Some (FW_SERIALIZE_OK, Some (StartPacket_initialize 5 [0x61, 0] [0x62, 0x63, 0]))"
proof -
  have "file_packet_ok (StartPacket_initialize 5 [0x61, 0] [0x62, 0x63, 0])"
    "FilePacket_bufferSize (StartPacket_initialize 5 [0x61, 0] [0x62, 0x63, 0]) \<le> length (replicate 20 (0 :: u8))"
    by (simp_all add: StartPacket_initialize_def PathName_initialize_def string_length_def path_name_ok_def PathName_bufferSize_def Header_bufferSize_def)
  with file_packets_roundtrip [OF this(1), of "replicate 20 0"] show ?thesis by auto
qed

text \<open>A type that is none of the five stops the program, however long the packet is.\<close>

lemma header_read:
  assumes "5 \<le> length mem"
  shows "Header_fromSerialBuffer \<lparr>lb_mem = mem, m_serLoc = length mem, m_deserLoc = 0\<rparr> = Some (FW_SERIALIZE_OK,
    Some \<lparr>ph_type = mem ! 0, ph_sequenceIndex = U32_of BIG (take 4 (drop 1 mem))\<rparr>, \<lparr>lb_mem = mem, m_serLoc = length mem, m_deserLoc = 5\<rparr>)"
  using assms by (auto simp: Header_fromSerialBuffer_def and_read_def deserialize_U8_def deserialize_U32_def get_bytes_def deserializeSkip_def getSize_def nth_append)

lemma unknown_type_stops:
  assumes "5 \<le> length mem" "T_CANCEL < mem ! 0" "mem ! 0 < T_NONE"
  shows "FilePacket_fromBuffer mem = None"
proof -
  have "mem ! 0 \<notin> {T_START, T_DATA, T_END, T_CANCEL, T_NONE}"
    using assms(2,3) by (auto simp: packet_types word_less_nat_alt)
  with header_read [OF assms(1)] show ?thesis
    by (simp add: FilePacket_fromBuffer_def setBuffLen_def getCapacity_def FilePacket_fromSerialBuffer_def and_read_def)
qed

lemma none_type_refused:
  assumes "5 \<le> length mem" "mem ! 0 = T_NONE"
  shows "FilePacket_fromBuffer mem = Some (FW_DESERIALIZE_TYPE_MISMATCH, None)"
  using header_read [OF assms(1)] assms(2)
  by (simp add: FilePacket_fromBuffer_def setBuffLen_def getCapacity_def FilePacket_fromSerialBuffer_def and_read_def packet_types)

end
