(* ===== verification/Os_File.thy ===== *)
theory Os_File
  imports Fprime_Types
begin

text \<open>
  Files of the operating system layer: \<^verbatim>\<open>lib/fprime/Os/File.cpp\<close>, which checks the mode and delegates, and its delegate for
  POSIX, \<^verbatim>\<open>Os/Posix/File.cpp\<close>. The kernel behind the delegate is a parameter. The incremental checksum and \<^verbatim>\<open>readline\<close>, which
  the link does not use, are left out.
\<close>

section \<open>The interface\<close>

datatype file_status =
    OP_OK | DOESNT_EXIST | NO_SPACE | NO_PERMISSION | BAD_SIZE | NOT_OPENED | FILE_EXISTS | NOT_SUPPORTED | INVALID_MODE
  | INVALID_ARGUMENT | NO_MORE_RESOURCES | OTHER_ERROR | MAX_STATUS

datatype open_mode = OPEN_NO_MODE | OPEN_READ | OPEN_CREATE | OPEN_WRITE | OPEN_SYNC_WRITE | OPEN_APPEND | MAX_OPEN_MODE
datatype OverwriteType = NO_OVERWRITE | OVERWRITE
datatype SeekType = RELATIVE | ABSOLUTE
datatype WaitType = NO_WAIT | WAIT

text \<open>
  What a delegate provides, on a world of its own. A write gives the number of bytes written, a read the bytes.
\<close>

record 'w file_interface =
  fi_open :: "bytes \<Rightarrow> open_mode \<Rightarrow> OverwriteType \<Rightarrow> 'w \<Rightarrow> (file_status \<times> 'w) option"
  fi_close :: "'w \<Rightarrow> 'w"
  fi_size :: "'w \<Rightarrow> (file_status \<times> nat \<times> 'w) option"
  fi_position :: "'w \<Rightarrow> file_status \<times> nat \<times> 'w"
  fi_preallocate :: "nat \<Rightarrow> nat \<Rightarrow> 'w \<Rightarrow> (file_status \<times> 'w) option"
  fi_seek :: "int \<Rightarrow> SeekType \<Rightarrow> 'w \<Rightarrow> file_status \<times> 'w"
  fi_flush :: "'w \<Rightarrow> file_status \<times> 'w"
  fi_read :: "nat \<Rightarrow> WaitType \<Rightarrow> 'w \<Rightarrow> file_status \<times> bytes \<times> 'w"
  fi_write :: "bytes \<Rightarrow> WaitType \<Rightarrow> 'w \<Rightarrow> file_status \<times> nat \<times> 'w"

section \<open>Os::File\<close>

definition INITIAL_CRC :: u32 where
  "INITIAL_CRC = 0xFFFFFFFF"

record Os_File =
  of_mode :: open_mode
  of_path :: "bytes option"
  of_crc :: u32

definition Os_File_new :: Os_File where
  "Os_File_new = \<lparr>of_mode = OPEN_NO_MODE, of_path = None, of_crc = INITIAL_CRC\<rparr>"

definition isOpen :: "Os_File \<Rightarrow> bool option" where
  "isOpen f = do { FW_ASSERT (of_mode f \<noteq> MAX_OPEN_MODE); Some (of_mode f \<noteq> OPEN_NO_MODE) }"

definition file_open :: "'w file_interface \<Rightarrow> bytes \<Rightarrow> open_mode \<Rightarrow> OverwriteType \<Rightarrow> Os_File \<Rightarrow> 'w \<Rightarrow> (file_status \<times> Os_File \<times> 'w) option" where
  "file_open d filepath requested_mode overwrite f w = do {
     FW_ASSERT (requested_mode \<noteq> OPEN_NO_MODE \<and> requested_mode \<noteq> MAX_OPEN_MODE);
     opened \<leftarrow> isOpen f;
     if opened then Some (INVALID_MODE, f, w)
     else do {
       (status, w) \<leftarrow> fi_open d filepath requested_mode overwrite w;
       Some (status, if status = OP_OK then f\<lparr>of_mode := requested_mode, of_path := Some filepath, of_crc := INITIAL_CRC\<rparr> else f, w)
     }
   }"

definition file_close :: "'w file_interface \<Rightarrow> Os_File \<Rightarrow> 'w \<Rightarrow> (Os_File \<times> 'w) option" where
  "file_close d f w = do {
     FW_ASSERT (of_mode f \<noteq> MAX_OPEN_MODE);
     Some (f\<lparr>of_mode := OPEN_NO_MODE, of_path := None\<rparr>, fi_close d w)
   }"

definition file_size :: "'w file_interface \<Rightarrow> Os_File \<Rightarrow> nat \<Rightarrow> 'w \<Rightarrow> (file_status \<times> nat \<times> 'w) option" where
  "file_size d f size_result w = do {
     FW_ASSERT (of_mode f \<noteq> MAX_OPEN_MODE);
     if of_mode f = OPEN_NO_MODE then Some (NOT_OPENED, size_result, w) else fi_size d w
   }"

definition file_position :: "'w file_interface \<Rightarrow> Os_File \<Rightarrow> nat \<Rightarrow> 'w \<Rightarrow> (file_status \<times> nat \<times> 'w) option" where
  "file_position d f position_result w = do {
     FW_ASSERT (of_mode f \<noteq> MAX_OPEN_MODE);
     if of_mode f = OPEN_NO_MODE then Some (NOT_OPENED, position_result, w) else Some (fi_position d w)
   }"

definition file_preallocate :: "'w file_interface \<Rightarrow> Os_File \<Rightarrow> nat \<Rightarrow> nat \<Rightarrow> 'w \<Rightarrow> (file_status \<times> 'w) option" where
  "file_preallocate d f offset len w = do {
     FW_ASSERT (of_mode f \<noteq> MAX_OPEN_MODE);
     if of_mode f = OPEN_NO_MODE then Some (NOT_OPENED, w)
     else if of_mode f = OPEN_READ then Some (INVALID_MODE, w)
     else fi_preallocate d offset len w
   }"

definition file_seek :: "'w file_interface \<Rightarrow> Os_File \<Rightarrow> int \<Rightarrow> SeekType \<Rightarrow> 'w \<Rightarrow> (file_status \<times> 'w) option" where
  "file_seek d f offset seekType w = do {
     FW_ASSERT (seekType = RELATIVE \<or> offset \<ge> 0);
     FW_ASSERT (of_mode f \<noteq> MAX_OPEN_MODE);
     if of_mode f = OPEN_NO_MODE then Some (NOT_OPENED, w) else Some (fi_seek d offset seekType w)
   }"

text \<open>Offsets above the largest signed value take three steps.\<close>

definition file_seek_absolute :: "'w file_interface \<Rightarrow> Os_File \<Rightarrow> nat \<Rightarrow> 'w \<Rightarrow> (file_status \<times> 'w) option" where
  "file_seek_absolute d f offset w =
     (if offset \<le> 2 ^ 63 - 1 then file_seek d f (int offset) ABSOLUTE w
      else do {
        let half_offset = int (offset div 2);
        let is_odd = (offset mod 2 = 1);
        (status, w) \<leftarrow> file_seek d f half_offset ABSOLUTE w;
        (status, w) \<leftarrow> (if status = OP_OK then file_seek d f half_offset RELATIVE w else Some (status, w));
        if status = OP_OK then file_seek d f (if is_odd then 1 else 0) RELATIVE w else Some (status, w)
      })"

definition file_flush :: "'w file_interface \<Rightarrow> Os_File \<Rightarrow> 'w \<Rightarrow> (file_status \<times> 'w) option" where
  "file_flush d f w = do {
     FW_ASSERT (of_mode f \<noteq> MAX_OPEN_MODE);
     Some (if of_mode f = OPEN_NO_MODE then (NOT_OPENED, w) else if of_mode f = OPEN_READ then (INVALID_MODE, w) else fi_flush d w)
   }"

definition file_read :: "'w file_interface \<Rightarrow> Os_File \<Rightarrow> nat \<Rightarrow> WaitType \<Rightarrow> 'w \<Rightarrow> (file_status \<times> bytes \<times> 'w) option" where
  "file_read d f n wait w = do {
     FW_ASSERT (of_mode f \<noteq> MAX_OPEN_MODE);
     Some (if of_mode f = OPEN_NO_MODE then (NOT_OPENED, [], w) else if of_mode f \<noteq> OPEN_READ then (INVALID_MODE, [], w)
       else fi_read d n wait w)
   }"

definition file_write :: "'w file_interface \<Rightarrow> Os_File \<Rightarrow> bytes \<Rightarrow> WaitType \<Rightarrow> 'w \<Rightarrow> (file_status \<times> nat \<times> 'w) option" where
  "file_write d f buffer wait w = do {
     FW_ASSERT (of_mode f \<noteq> MAX_OPEN_MODE);
     Some (if of_mode f = OPEN_NO_MODE then (NOT_OPENED, 0, w) else if of_mode f = OPEN_READ then (INVALID_MODE, 0, w)
       else fi_write d buffer wait w)
   }"

section \<open>The delegate for POSIX\<close>

datatype errno = E_OK | EINTR | ENOSPC | EFBIG | ENOENT | EPERM | EACCES | EEXIST | EBADF | ENOSYS | EOPNOTSUPP | EINVAL | E_other nat

primrec errno_to_file_status :: "errno \<Rightarrow> file_status" where
  "errno_to_file_status E_OK = OP_OK"
| "errno_to_file_status ENOSPC = NO_SPACE"
| "errno_to_file_status EFBIG = NO_SPACE"
| "errno_to_file_status ENOENT = DOESNT_EXIST"
| "errno_to_file_status EPERM = NO_PERMISSION"
| "errno_to_file_status EACCES = NO_PERMISSION"
| "errno_to_file_status EEXIST = FILE_EXISTS"
| "errno_to_file_status EBADF = NOT_OPENED"
| "errno_to_file_status ENOSYS = NOT_SUPPORTED"
| "errno_to_file_status EOPNOTSUPP = NOT_SUPPORTED"
| "errno_to_file_status EINVAL = INVALID_ARGUMENT"
| "errno_to_file_status EINTR = OTHER_ERROR"
| "errno_to_file_status (E_other n) = OTHER_ERROR"

datatype open_flag = O_RDONLY | O_WRONLY | O_CREAT | O_TRUNC | O_EXCL | O_APPEND | O_SYNC
datatype seek_from = SEEK_SET | SEEK_CUR | SEEK_END

text \<open>The calls of the kernel: what they return, the error number they leave, and for \<open>read\<close> the bytes.\<close>

record 'k kernel =
  sys_open :: "bytes \<Rightarrow> open_flag set \<Rightarrow> 'k \<Rightarrow> int \<times> errno \<times> 'k"
  sys_close :: "int \<Rightarrow> 'k \<Rightarrow> 'k"
  sys_lseek :: "int \<Rightarrow> int \<Rightarrow> seek_from \<Rightarrow> 'k \<Rightarrow> int \<times> errno \<times> 'k"
  sys_read :: "int \<Rightarrow> nat \<Rightarrow> 'k \<Rightarrow> int \<times> errno \<times> bytes \<times> 'k"
  sys_write :: "int \<Rightarrow> bytes \<Rightarrow> 'k \<Rightarrow> int \<times> errno \<times> 'k"
  sys_fsync :: "int \<Rightarrow> 'k \<Rightarrow> int \<times> errno \<times> 'k"
  sys_fallocate :: "int \<Rightarrow> int \<Rightarrow> int \<Rightarrow> 'k \<Rightarrow> errno \<times> 'k"

text \<open>The delegate keeps the file descriptor; -1 is none. Its world is the descriptor with that of the kernel.\<close>

type_synonym 'k posix = "int \<times> 'k"

definition INVALID_FILE_DESCRIPTOR :: int where "INVALID_FILE_DESCRIPTOR = - 1"
definition OFF_T_MAX_LIMIT :: nat where "OFF_T_MAX_LIMIT = 2 ^ 63 - 1"
definition SSIZE_T_MAX_LIMIT :: nat where "SSIZE_T_MAX_LIMIT = 2 ^ 63 - 1"

definition mode_flags :: "open_mode \<Rightarrow> OverwriteType \<Rightarrow> open_flag set option" where
  "mode_flags requested_mode overwrite = (case requested_mode of
       OPEN_READ \<Rightarrow> Some {O_RDONLY}
     | OPEN_WRITE \<Rightarrow> Some {O_WRONLY, O_CREAT}
     | OPEN_SYNC_WRITE \<Rightarrow> Some {O_WRONLY, O_CREAT, O_SYNC}
     | OPEN_CREATE \<Rightarrow> Some ({O_WRONLY, O_CREAT, O_TRUNC} \<union> (if overwrite = OVERWRITE then {} else {O_EXCL}))
     | OPEN_APPEND \<Rightarrow> Some {O_WRONLY, O_CREAT, O_APPEND}
     | _ \<Rightarrow> None)"

definition posix_open :: "'k kernel \<Rightarrow> bytes \<Rightarrow> open_mode \<Rightarrow> OverwriteType \<Rightarrow> 'k posix \<Rightarrow> (file_status \<times> 'k posix) option" where
  "posix_open k filepath requested_mode overwrite w = do {
     flags \<leftarrow> mode_flags requested_mode overwrite;
     let (descriptor, e, s) = sys_open k filepath flags (snd w);
     Some (if descriptor = INVALID_FILE_DESCRIPTOR then errno_to_file_status e else OP_OK, (descriptor, s))
   }"

definition posix_close :: "'k kernel \<Rightarrow> 'k posix \<Rightarrow> 'k posix" where
  "posix_close k w = (if fst w \<noteq> INVALID_FILE_DESCRIPTOR then (INVALID_FILE_DESCRIPTOR, sys_close k (fst w) (snd w)) else w)"

definition posix_position :: "'k kernel \<Rightarrow> 'k posix \<Rightarrow> file_status \<times> nat \<times> 'k posix" where
  "posix_position k w = (case sys_lseek k (fst w) 0 SEEK_CUR (snd w) of (actual, e, s) \<Rightarrow>
     (if actual = - 1 then errno_to_file_status e else OP_OK, nat (actual mod 2 ^ 64), (fst w, s)))"

definition posix_size :: "'k kernel \<Rightarrow> 'k posix \<Rightarrow> (file_status \<times> nat \<times> 'k posix) option" where
  "posix_size k w = (case posix_position k w of (status, current_position, w) \<Rightarrow>
     if status = OP_OK then do {
       FW_ASSERT (current_position \<le> OFF_T_MAX_LIMIT);
       let (end_of_file, e, s) = sys_lseek k (fst w) 0 SEEK_END (snd w);
       let (_, _, s) = sys_lseek k (fst w) (int current_position) SEEK_SET s;
       Some (if end_of_file = - 1 then errno_to_file_status e else OP_OK, nat (end_of_file mod 2 ^ 64), (fst w, s))
     }
     else Some (status, 0, w))"

definition posix_seek :: "'k kernel \<Rightarrow> int \<Rightarrow> SeekType \<Rightarrow> 'k posix \<Rightarrow> file_status \<times> 'k posix" where
  "posix_seek k offset seekType w =
     (if offset > int OFF_T_MAX_LIMIT then (BAD_SIZE, w)
      else (case sys_lseek k (fst w) offset (if seekType = ABSOLUTE then SEEK_SET else SEEK_CUR) (snd w) of (actual, e, s) \<Rightarrow>
        (if actual = - 1 then errno_to_file_status e
         else if seekType = ABSOLUTE \<and> actual \<noteq> offset then OTHER_ERROR
         else OP_OK, (fst w, s))))"

definition posix_flush :: "'k kernel \<Rightarrow> 'k posix \<Rightarrow> file_status \<times> 'k posix" where
  "posix_flush k w = (case sys_fsync k (fst w) (snd w) of (r, e, s) \<Rightarrow> (if r = - 1 then errno_to_file_status e else OP_OK, (fst w, s)))"

text \<open>
  The loops of \<^verbatim>\<open>read\<close> and \<^verbatim>\<open>write\<close> make at most two rounds for every byte; \<open>n\<close> counts the rounds that are left. A call that fails is
  repeated unless it was interrupted.
\<close>

fun read_loop :: "'k kernel \<Rightarrow> int \<Rightarrow> WaitType \<Rightarrow> nat \<Rightarrow> nat \<Rightarrow> bytes \<Rightarrow> 'k \<Rightarrow> file_status \<times> bytes \<times> 'k" where
  "read_loop k fd wait n 0 got s = (OP_OK, got, s)"
| "read_loop k fd wait n (Suc rounds) got s =
     (if length got < n then
        (case sys_read k fd (n - length got) s of (read_size, e, bs, s) \<Rightarrow>
           if read_size = - 1 then
             (if e \<noteq> EINTR then read_loop k fd wait n rounds got s else (errno_to_file_status e, got, s))
           else if read_size = 0 then (OP_OK, got, s)
           else if wait = NO_WAIT then (OP_OK, got @ bs, s)
           else read_loop k fd wait n rounds (got @ bs) s)
      else (OP_OK, got, s))"

fun write_loop :: "'k kernel \<Rightarrow> int \<Rightarrow> bytes \<Rightarrow> nat \<Rightarrow> nat \<Rightarrow> 'k \<Rightarrow> file_status \<times> nat \<times> 'k" where
  "write_loop k fd buffer 0 accumulated s = (OP_OK, accumulated, s)"
| "write_loop k fd buffer (Suc rounds) accumulated s =
     (if accumulated < length buffer then
        (case sys_write k fd (drop accumulated buffer) s of (write_size, e, s) \<Rightarrow>
           if write_size < 0 then
             (if e \<noteq> EINTR then write_loop k fd buffer rounds accumulated s else (errno_to_file_status e, accumulated, s))
           else write_loop k fd buffer rounds (accumulated + nat write_size) s)
      else (OP_OK, accumulated, s))"

definition rounds_for :: "nat \<Rightarrow> nat" where
  "rounds_for n = (if n > (2 ^ 64 - 1) div 2 then 2 ^ 64 - 1 else n * 2)"

definition posix_read :: "'k kernel \<Rightarrow> nat \<Rightarrow> WaitType \<Rightarrow> 'k posix \<Rightarrow> file_status \<times> bytes \<times> 'k posix" where
  "posix_read k n wait w =
     (if n > SSIZE_T_MAX_LIMIT then (BAD_SIZE, [], w)
      else (case read_loop k (fst w) wait n (rounds_for n) [] (snd w) of (status, bs, s) \<Rightarrow> (status, bs, (fst w, s))))"

definition posix_write :: "'k kernel \<Rightarrow> bytes \<Rightarrow> WaitType \<Rightarrow> 'k posix \<Rightarrow> file_status \<times> nat \<times> 'k posix" where
  "posix_write k buffer wait w =
     (if length buffer > SSIZE_T_MAX_LIMIT then (BAD_SIZE, length buffer, w)
      else (case write_loop k (fst w) buffer (rounds_for (length buffer)) 0 (snd w) of (status, accumulated, s) \<Rightarrow>
        if wait = WAIT then
          (case sys_fsync k (fst w) s of (r, e, s) \<Rightarrow> (if r = - 1 then errno_to_file_status e else status, accumulated, (fst w, s)))
        else (status, accumulated, (fst w, s))))"

text \<open>\<^verbatim>\<open>preallocate\<close>: the kernel's call, or zeros written one by one where there is none.\<close>

fun zero_loop :: "'k kernel \<Rightarrow> nat \<Rightarrow> file_status \<Rightarrow> 'k posix \<Rightarrow> file_status \<times> 'k posix" where
  "zero_loop k 0 status w = (status, w)"
| "zero_loop k (Suc n) status w = (case posix_write k [0] NO_WAIT w of (status, write_size, w) \<Rightarrow>
     if status \<noteq> OP_OK \<or> write_size \<noteq> 1 then (status, w) else zero_loop k n status w)"

definition posix_preallocate :: "'k kernel \<Rightarrow> nat \<Rightarrow> nat \<Rightarrow> 'k posix \<Rightarrow> (file_status \<times> 'k posix) option" where
  "posix_preallocate k offset len w =
     (if len > OFF_T_MAX_LIMIT \<or> offset > OFF_T_MAX_LIMIT \<or> OFF_T_MAX_LIMIT - len < offset then Some (BAD_SIZE, w)
      else (case sys_fallocate k (fst w) (int offset) (int len) (snd w) of (e, s) \<Rightarrow>
        let status = errno_to_file_status e; w = (fst w, s) in
        if status \<noteq> NOT_SUPPORTED then Some (status, w)
        else do {
          (status, file_size, w) \<leftarrow> posix_size k w;
          if status \<noteq> OP_OK then Some (status, w)
          else let (status, file_position, w) = posix_position k w in
            if file_position > 2 ^ 63 - 1 \<or> file_size > 2 ^ 63 - 1 then Some (BAD_SIZE, w)
            else if status = OP_OK \<and> file_size < offset + len then
              let (status, w) = posix_seek k (int file_size) ABSOLUTE w in
              if status = OP_OK then
                let (status, w) = zero_loop k (offset + len - file_size) status w in
                Some (if status = OP_OK then posix_seek k (int file_position) ABSOLUTE w else (status, w))
              else Some (status, w)
            else Some (status, w)
        }))"

definition posix_interface :: "'k kernel \<Rightarrow> 'k posix file_interface" where
  "posix_interface k = \<lparr>fi_open = posix_open k, fi_close = posix_close k, fi_size = posix_size k, fi_position = posix_position k,
     fi_preallocate = posix_preallocate k, fi_seek = posix_seek k, fi_flush = posix_flush k, fi_read = posix_read k, fi_write = posix_write k\<rparr>"

section \<open>Files that work\<close>

text \<open>
  What users of a file rely on. A view of the world is the stored files with the path and the position of the open one;
  writing replaces bytes from the position on, and fills a gap behind the end with zeros.
\<close>

type_synonym file_view = "(bytes \<Rightarrow> bytes option) \<times> (bytes \<times> nat) option"

definition overwrite_at :: "nat \<Rightarrow> bytes \<Rightarrow> bytes \<Rightarrow> bytes" where
  "overwrite_at pos bs old = (if bs = [] then old
     else take pos (old @ replicate (pos - length old) 0) @ bs @ drop (pos + length bs) old)"

definition or_empty :: "bytes option \<Rightarrow> bytes" where
  "or_empty f = (case f of None \<Rightarrow> [] | Some bs \<Rightarrow> bs)"

lemma or_empty_simps [simp]: "or_empty None = []" "or_empty (Some bs) = bs"
  by (simp_all add: or_empty_def)

lemma overwrite_at_Nil [simp]: "overwrite_at pos [] old = old"
  by (simp add: overwrite_at_def)

lemma overwrite_at_append: "overwrite_at (pos + length as) bs (overwrite_at pos as old) = overwrite_at pos (as @ bs) old"
proof (cases "as = [] \<or> bs = []")
  case False
  let ?start = "take pos (old @ replicate (pos - length old) 0)"
  have "length ?start = pos" by simp
  with False show ?thesis by (simp add: overwrite_at_def add.assoc add.commute add.left_commute)
qed auto

lemma length_overwrite [simp]: "bs \<noteq> [] \<Longrightarrow> length (overwrite_at pos bs old) = max (length old) (pos + length bs)"
  by (simp add: overwrite_at_def)

lemma nth_overwrite: "bs \<noteq> [] \<Longrightarrow> i < max (length old) (pos + length bs) \<Longrightarrow> overwrite_at pos bs old ! i =
    (if pos \<le> i \<and> i < pos + length bs then bs ! (i - pos) else if i < length old then old ! i else 0)"
proof -
  have "min (length old) pos + (pos - length old) = pos" by simp
  then show "bs \<noteq> [] \<Longrightarrow> i < max (length old) (pos + length bs) \<Longrightarrow> ?thesis"
    by (auto simp: overwrite_at_def nth_append)
qed

text \<open>Writes to places that do not overlap commute.\<close>

lemma overwrite_commute:
  assumes "p + length as \<le> q"
  shows "overwrite_at p as (overwrite_at q bs old) = overwrite_at q bs (overwrite_at p as old)"
proof (cases "as = [] \<or> bs = []")
  case False
  show ?thesis
  proof (rule nth_equalityI)
    fix i
    assume "i < length (overwrite_at p as (overwrite_at q bs old))"
    with False assms show "overwrite_at p as (overwrite_at q bs old) ! i = overwrite_at q bs (overwrite_at p as old) ! i"
      by (auto simp: nth_overwrite)
  qed (use False in simp)
qed auto

locale file_world =
  fixes d :: "'w file_interface" and good :: "'w \<Rightarrow> bool" and view :: "'w \<Rightarrow> file_view"
  assumes seek_absolute: "good w \<Longrightarrow> view w = (F, Some (path, pos)) \<Longrightarrow> off < 2 ^ 32 \<Longrightarrow>
      \<exists>w'. fi_seek d (int off) ABSOLUTE w = (OP_OK, w') \<and> good w' \<and> view w' = (F, Some (path, off))"
    and close_file: "good w \<Longrightarrow> good (fi_close d w) \<and> view (fi_close d w) = (fst (view w), None)"

text \<open>For writing, and for reading what is there.\<close>

locale file_store = file_world d good view
  for d :: "'w file_interface" and good :: "'w \<Rightarrow> bool" and view :: "'w \<Rightarrow> file_view" +
  fixes writable :: "bytes set"
  assumes open_write: "good w \<Longrightarrow> snd (view w) = None \<Longrightarrow> path \<in> writable \<Longrightarrow>
      \<exists>w'. fi_open d path OPEN_WRITE NO_OVERWRITE w = Some (OP_OK, w') \<and> good w' \<and>
        view w' = ((fst (view w))(path \<mapsto> or_empty (fst (view w) path)), Some (path, 0))"
    and write_bytes: "good w \<Longrightarrow> view w = (F, Some (path, pos)) \<Longrightarrow> F path = Some old \<Longrightarrow> length bs < 2 ^ 32 \<Longrightarrow>
      \<exists>w'. fi_write d bs NO_WAIT w = (OP_OK, length bs, w') \<and> good w' \<and>
        view w' = (F(path \<mapsto> overwrite_at pos bs old), Some (path, pos + length bs))"

locale file_source = file_world d good view
  for d :: "'w file_interface" and good :: "'w \<Rightarrow> bool" and view :: "'w \<Rightarrow> file_view" +
  fixes readable :: "bytes set"
  assumes open_read: "good w \<Longrightarrow> view w = (F, None) \<Longrightarrow> path \<in> readable \<Longrightarrow> F path = Some bs \<Longrightarrow>
      \<exists>w'. fi_open d path OPEN_READ NO_OVERWRITE w = Some (OP_OK, w') \<and> good w' \<and> view w' = (F, Some (path, 0))"
    and size_of: "good w \<Longrightarrow> view w = (F, Some (path, pos)) \<Longrightarrow> F path = Some bs \<Longrightarrow> length bs < 2 ^ 32 \<Longrightarrow> pos < 2 ^ 32 \<Longrightarrow>
      \<exists>w'. fi_size d w = Some (OP_OK, length bs, w') \<and> good w' \<and> view w' = (F, Some (path, pos))"
    and read_bytes: "good w \<Longrightarrow> view w = (F, Some (path, pos)) \<Longrightarrow> F path = Some bs \<Longrightarrow> n < 2 ^ 32 \<Longrightarrow> pos + n \<le> length bs \<Longrightarrow>
      \<exists>w'. fi_read d n WAIT w = (OP_OK, take n (drop pos bs), w') \<and> good w' \<and> view w' = (F, Some (path, pos + n))"

section \<open>POSIX provides them\<close>

text \<open>
  What POSIX documents of the calls when no error occurs, for a kernel whose view shows the files, and the descriptor, path and position of
  the one that is open: a write may take any part of what it is given, but not nothing.
\<close>

type_synonym kernel_view = "(bytes \<Rightarrow> bytes option) \<times> (int \<times> bytes \<times> nat) option"

definition posix_world :: "'k kernel \<Rightarrow> ('k \<Rightarrow> kernel_view) \<Rightarrow> bool" where
  "posix_world k kview \<longleftrightarrow>
     (\<forall>s F fd path pos off. kview s = (F, Some (fd, path, pos)) \<and> off < 2 ^ 63 \<longrightarrow>
        (\<exists>e s'. sys_lseek k fd (int off) SEEK_SET s = (int off, e, s') \<and> kview s' = (F, Some (fd, path, off)))) \<and>
     (\<forall>s F fd path pos. kview s = (F, Some (fd, path, pos)) \<longrightarrow> kview (sys_close k fd s) = (F, None))"

definition posix_kernel :: "'k kernel \<Rightarrow> ('k \<Rightarrow> kernel_view) \<Rightarrow> bytes set \<Rightarrow> bool" where
  "posix_kernel k kview writable \<longleftrightarrow> posix_world k kview \<and>
     (\<forall>s path. snd (kview s) = None \<and> path \<in> writable \<longrightarrow> (\<exists>fd e s'. sys_open k path {O_WRONLY, O_CREAT} s = (fd, e, s') \<and> 0 \<le> fd \<and>
        kview s' = ((fst (kview s))(path \<mapsto> or_empty (fst (kview s) path)), Some (fd, path, 0)))) \<and>
     (\<forall>s F fd path pos bs. kview s = (F, Some (fd, path, pos)) \<and> bs \<noteq> [] \<longrightarrow>
        (\<exists>n e s'. sys_write k fd bs s = (int n, e, s') \<and> 0 < n \<and> n \<le> length bs \<and>
          kview s' = (F(path \<mapsto> overwrite_at pos (take n bs) (or_empty (F path))), Some (fd, path, pos + n))))"

text \<open>A read gives any part of what is there, but not nothing unless the position is at the end.\<close>

definition posix_reader :: "'k kernel \<Rightarrow> ('k \<Rightarrow> kernel_view) \<Rightarrow> bytes set \<Rightarrow> bool" where
  "posix_reader k kview readable \<longleftrightarrow> posix_world k kview \<and>
     (\<forall>s F path bs. kview s = (F, None) \<and> path \<in> readable \<and> F path = Some bs \<longrightarrow>
        (\<exists>fd e s'. sys_open k path {O_RDONLY} s = (fd, e, s') \<and> 0 \<le> fd \<and> kview s' = (F, Some (fd, path, 0)))) \<and>
     (\<forall>s F fd path pos bs. kview s = (F, Some (fd, path, pos)) \<and> F path = Some bs \<longrightarrow>
        (\<exists>e s'. sys_lseek k fd 0 SEEK_CUR s = (int pos, e, s') \<and> kview s' = (F, Some (fd, path, pos))) \<and>
        (\<exists>e s' pos'. sys_lseek k fd 0 SEEK_END s = (int (length bs), e, s') \<and> kview s' = (F, Some (fd, path, pos')))) \<and>
     (\<forall>s F fd path pos bs n. kview s = (F, Some (fd, path, pos)) \<and> F path = Some bs \<and> 0 < n \<and> pos < length bs \<longrightarrow>
        (\<exists>m e s'. sys_read k fd n s = (int m, e, take m (drop pos bs), s') \<and> 0 < m \<and> m \<le> n \<and> pos + m \<le> length bs \<and>
          kview s' = (F, Some (fd, path, pos + m))))"

definition posix_view :: "('k \<Rightarrow> kernel_view) \<Rightarrow> 'k posix \<Rightarrow> file_view" where
  "posix_view kview w = map_prod id (map_option snd) (kview (snd w))"

definition posix_good :: "('k \<Rightarrow> kernel_view) \<Rightarrow> 'k posix \<Rightarrow> bool" where
  "posix_good kview w \<longleftrightarrow> (case snd (kview (snd w)) of None \<Rightarrow> fst w = INVALID_FILE_DESCRIPTOR | Some (fd, _) \<Rightarrow> fst w = fd \<and> 0 \<le> fd)"

text \<open>However the kernel splits a write, the loop writes everything.\<close>

lemma write_loop_complete:
  assumes "posix_kernel k kview writable"
    and "kview s = (F, Some (fd, path, pos))" "acc \<le> length buffer" "length buffer - acc \<le> rounds"
  shows "\<exists>s'. write_loop k fd buffer rounds acc s = (OP_OK, length buffer, s') \<and>
    (if acc = length buffer then s' = s
     else kview s' = (F(path \<mapsto> overwrite_at pos (drop acc buffer) (or_empty (F path))), Some (fd, path, pos + (length buffer - acc))))"
  using assms(2-4)
proof (induction rounds arbitrary: acc s F pos)
  case (Suc rounds)
  show ?case
  proof (cases "acc = length buffer")
    case False
    then have rest: "drop acc buffer \<noteq> []" using Suc.prems(2) by simp
    with assms(1) Suc.prems(1) obtain n e s1 where one: "sys_write k fd (drop acc buffer) s = (int n, e, s1)" "0 < n" "n \<le> length buffer - acc"
      "kview s1 = (F(path \<mapsto> overwrite_at pos (take n (drop acc buffer)) (or_empty (F path))), Some (fd, path, pos + n))"
      unfolding posix_kernel_def by (metis length_drop)
    let ?F = "F(path \<mapsto> overwrite_at pos (take n (drop acc buffer)) (or_empty (F path)))"
    have len: "length (take n (drop acc buffer)) = n" using one(3) by simp
    have le: "acc + n \<le> length buffer" "length buffer - (acc + n) \<le> rounds" using Suc.prems(2,3) one(2,3) False by linarith+
    obtain s2 where s2: "write_loop k fd buffer rounds (acc + n) s1 = (OP_OK, length buffer, s2)"
      "if acc + n = length buffer then s2 = s1
       else kview s2 = (?F(path \<mapsto> overwrite_at (pos + n) (drop (acc + n) buffer) (or_empty (?F path))), Some (fd, path, pos + n + (length buffer - (acc + n))))"
      using Suc.IH [OF one(4) le] by blast
    have "take n (drop acc buffer) @ drop (acc + n) buffer = drop acc buffer"
      by (metis add.commute append_take_drop_id drop_drop)
    note parts = this
    have whole: "overwrite_at (pos + n) (drop (acc + n) buffer) (overwrite_at pos (take n (drop acc buffer)) old) = overwrite_at pos (drop acc buffer) old" for old
      using overwrite_at_append [of pos "take n (drop acc buffer)" "drop (acc + n) buffer" old] len
      by (simp add: parts)
    have "kview s2 = (F(path \<mapsto> overwrite_at pos (drop acc buffer) (or_empty (F path))), Some (fd, path, pos + (length buffer - acc)))"
    proof (cases "acc + n = length buffer")
      case True
      then show ?thesis using s2(2) one(3,4) by simp
    next
      case False
      then show ?thesis using s2(2) whole one(3) by simp
    qed
    with False one(1) s2(1) Suc.prems(2) show ?thesis by simp
  qed simp
qed simp

lemma posix_files:
  assumes "posix_world k kview"
  shows "file_world (posix_interface k) (posix_good kview) (posix_view kview)"
proof
  fix w F path pos and off :: nat
  assume w: "posix_good kview w" "posix_view kview w = (F, Some (path, pos))" "off < 2 ^ 32"
  then have kw: "kview (snd w) = (F, Some (fst w, path, pos))" "0 \<le> fst w"
    by (cases "kview (snd w)"; auto simp: posix_view_def posix_good_def)+
  have "off < 2 ^ 63" using w(3) by simp
  with assms kw(1) obtain e s' where "sys_lseek k (fst w) (int off) SEEK_SET (snd w) = (int off, e, s')" "kview s' = (F, Some (fst w, path, off))"
    unfolding posix_world_def by metis
  with w(3) kw(2) show "\<exists>w'. fi_seek (posix_interface k) (int off) ABSOLUTE w = (OP_OK, w') \<and> posix_good kview w' \<and>
      posix_view kview w' = (F, Some (path, off))"
    by (simp add: posix_interface_def posix_seek_def posix_good_def posix_view_def OFF_T_MAX_LIMIT_def)
next
  fix w
  assume w: "posix_good kview w"
  show "posix_good kview (fi_close (posix_interface k) w) \<and> posix_view kview (fi_close (posix_interface k) w) = (fst (posix_view kview w), None)"
  proof (cases "snd (kview (snd w))")
    case None
    with w show ?thesis
      by (cases "kview (snd w)") (simp add: posix_interface_def posix_close_def posix_good_def posix_view_def)
  next
    case (Some x)
    then obtain F fd path pos where kw: "kview (snd w) = (F, Some (fd, path, pos))" by (cases "kview (snd w)"; cases x) auto
    with assms have "kview (sys_close k fd (snd w)) = (F, None)" unfolding posix_world_def by metis
    with w kw show ?thesis by (simp add: posix_interface_def posix_close_def posix_good_def posix_view_def INVALID_FILE_DESCRIPTOR_def)
  qed
qed

lemma posix_store:
  assumes "posix_kernel k kview writable"
  shows "file_store (posix_interface k) (posix_good kview) (posix_view kview) writable"
proof (intro file_store.intro posix_files file_store_axioms.intro)
  show "posix_world k kview" using assms by (simp add: posix_kernel_def)
next
  fix w path
  assume w: "posix_good kview w" "snd (posix_view kview w) = None" "path \<in> writable"
  then have "snd (kview (snd w)) = None" by (simp add: posix_view_def)
  with assms w(3) obtain fd e s' where "sys_open k path {O_WRONLY, O_CREAT} (snd w) = (fd, e, s')" "0 \<le> fd"
    "kview s' = ((fst (kview (snd w)))(path \<mapsto> or_empty (fst (kview (snd w)) path)), Some (fd, path, 0))"
    unfolding posix_kernel_def by metis
  then show "\<exists>w'. fi_open (posix_interface k) path OPEN_WRITE NO_OVERWRITE w = Some (OP_OK, w') \<and> posix_good kview w' \<and>
      posix_view kview w' = ((fst (posix_view kview w))(path \<mapsto> or_empty (fst (posix_view kview w) path)), Some (path, 0))"
    by (simp add: posix_interface_def posix_open_def mode_flags_def posix_good_def posix_view_def INVALID_FILE_DESCRIPTOR_def)
next
  fix w F path pos old and bs :: bytes
  assume w: "posix_good kview w" "posix_view kview w = (F, Some (path, pos))" "F path = Some old" "length bs < 2 ^ 32"
  then have kw: "kview (snd w) = (F, Some (fst w, path, pos))" "0 \<le> fst w"
    by (cases "kview (snd w)"; auto simp: posix_view_def posix_good_def)+
  have "length bs - 0 \<le> rounds_for (length bs)" using w(4) by (simp add: rounds_for_def)
  from write_loop_complete [OF assms kw(1) le0 this] obtain s' where loop: "write_loop k (fst w) bs (rounds_for (length bs)) 0 (snd w) = (OP_OK, length bs, s')"
    "if 0 = length bs then s' = snd w
     else kview s' = (F(path \<mapsto> overwrite_at pos (drop 0 bs) (or_empty (F path))), Some (fst w, path, pos + (length bs - 0)))"
    by blast
  have "kview s' = (F(path \<mapsto> overwrite_at pos bs old), Some (fst w, path, pos + length bs))"
  proof (cases "bs = []")
    case True
    with loop(2) kw(1) w(3) show ?thesis by (simp add: fun_upd_idem)
  next
    case False
    with loop(2) w(3) show ?thesis by simp
  qed
  with loop(1) w(4) kw(2) show "\<exists>w'. fi_write (posix_interface k) bs NO_WAIT w = (OP_OK, length bs, w') \<and> posix_good kview w' \<and>
      posix_view kview w' = (F(path \<mapsto> overwrite_at pos bs old), Some (path, pos + length bs))"
    by (simp add: posix_interface_def posix_write_def posix_good_def posix_view_def SSIZE_T_MAX_LIMIT_def)
qed

lemma reader_calls:
  assumes "posix_reader k kview readable" "kview s = (F, Some (fd, path, pos))" "F path = Some bs"
  shows "\<exists>e s'. sys_lseek k fd 0 SEEK_CUR s = (int pos, e, s') \<and> kview s' = (F, Some (fd, path, pos))"
    and "\<exists>e s' pos'. sys_lseek k fd 0 SEEK_END s = (int (length bs), e, s') \<and> kview s' = (F, Some (fd, path, pos'))"
    and "off < 2 ^ 63 \<Longrightarrow> \<exists>e s'. sys_lseek k fd (int off) SEEK_SET s = (int off, e, s') \<and> kview s' = (F, Some (fd, path, off))"
    and "0 < n \<Longrightarrow> pos < length bs \<Longrightarrow> \<exists>m e s'. sys_read k fd n s = (int m, e, take m (drop pos bs), s') \<and> 0 < m \<and> m \<le> n \<and>
      pos + m \<le> length bs \<and> kview s' = (F, Some (fd, path, pos + m))"
proof -
  show "\<exists>e s'. sys_lseek k fd 0 SEEK_CUR s = (int pos, e, s') \<and> kview s' = (F, Some (fd, path, pos))"
    "\<exists>e s' pos'. sys_lseek k fd 0 SEEK_END s = (int (length bs), e, s') \<and> kview s' = (F, Some (fd, path, pos'))"
    using assms unfolding posix_reader_def by blast+
  show "\<exists>e s'. sys_lseek k fd (int off) SEEK_SET s = (int off, e, s') \<and> kview s' = (F, Some (fd, path, off))" if "off < 2 ^ 63"
    using assms(1) [unfolded posix_reader_def posix_world_def, THEN conjunct1, THEN conjunct1] assms(2) that by simp
  show "\<exists>m e s'. sys_read k fd n s = (int m, e, take m (drop pos bs), s') \<and> 0 < m \<and> m \<le> n \<and>
      pos + m \<le> length bs \<and> kview s' = (F, Some (fd, path, pos + m))" if "0 < n" "pos < length bs"
    using assms that unfolding posix_reader_def by blast
qed

lemma read_loop_complete:
  assumes "posix_reader k kview readable" "F path = Some bs" "pos + n \<le> length bs"
    and "kview s = (F, Some (fd, path, pos + length got))" "got = take (length got) (drop pos bs)" "length got \<le> n" "n - length got \<le> rounds"
  shows "\<exists>s'. read_loop k fd WAIT n rounds got s = (OP_OK, take n (drop pos bs), s') \<and> kview s' = (F, Some (fd, path, pos + n))"
  using assms(4-7)
proof (induction rounds arbitrary: got s)
  case (Suc rounds)
  show ?case
  proof (cases "length got = n")
    case False
    then have "0 < n - length got" "pos + length got < length bs" using Suc.prems(3) assms(3) by linarith+
    with reader_calls(4) [OF assms(1) Suc.prems(1) assms(2)] obtain m e s1 where one: "sys_read k fd (n - length got) s = (int m, e, take m (drop (pos + length got) bs), s1)"
      "0 < m" "m \<le> n - length got" "pos + length got + m \<le> length bs" "kview s1 = (F, Some (fd, path, pos + length got + m))"
      by blast
    let ?got = "got @ take m (drop (pos + length got) bs)"
    have len: "length ?got = length got + m" using one(4) by simp
    have "take (length got + m) (drop pos bs) = ?got"
      using Suc.prems(2) by (simp only: take_add drop_drop) (simp add: add.commute)
    with len have "?got = take (length ?got) (drop pos bs)" by simp
    with Suc.IH [of s1 ?got] one len Suc.prems(4) False Suc.prems(3) show ?thesis by (simp add: add.assoc)
  qed (use Suc.prems in simp)
qed simp

lemma posix_source:
  assumes "posix_reader k kview readable"
  shows "file_source (posix_interface k) (posix_good kview) (posix_view kview) readable"
proof (intro file_source.intro posix_files file_source_axioms.intro)
  show "posix_world k kview" using assms by (simp add: posix_reader_def)
next
  fix w F path bs
  assume w: "posix_good kview w" "posix_view kview w = (F, None)" "path \<in> readable" "F path = Some bs"
  then have "kview (snd w) = (F, None)" by (cases "kview (snd w)") (simp add: posix_view_def)
  with assms w(3,4) obtain fd e s' where "sys_open k path {O_RDONLY} (snd w) = (fd, e, s')" "0 \<le> fd" "kview s' = (F, Some (fd, path, 0))"
    unfolding posix_reader_def by metis
  then show "\<exists>w'. fi_open (posix_interface k) path OPEN_READ NO_OVERWRITE w = Some (OP_OK, w') \<and> posix_good kview w' \<and>
      posix_view kview w' = (F, Some (path, 0))"
    by (simp add: posix_interface_def posix_open_def mode_flags_def posix_good_def posix_view_def INVALID_FILE_DESCRIPTOR_def)
next
  fix w F path and pos :: nat and bs
  assume w: "posix_good kview w" "posix_view kview w = (F, Some (path, pos))" "F path = Some bs" "length bs < 2 ^ 32" "pos < 2 ^ 32"
  then have kw: "kview (snd w) = (F, Some (fst w, path, pos))" "0 \<le> fst w"
    by (cases "kview (snd w)"; auto simp: posix_view_def posix_good_def)+
  from reader_calls(1) [OF assms kw(1) w(3)] obtain e1 s1 where s1: "sys_lseek k (fst w) 0 SEEK_CUR (snd w) = (int pos, e1, s1)"
    "kview s1 = (F, Some (fst w, path, pos))" by blast
  from reader_calls(2) [OF assms s1(2) w(3)] obtain e2 s2 pos' where s2: "sys_lseek k (fst w) 0 SEEK_END s1 = (int (length bs), e2, s2)"
    "kview s2 = (F, Some (fst w, path, pos'))" by blast
  have "pos < 2 ^ 63" using w(5) by simp
  with reader_calls(3) [OF assms s2(2) w(3)] obtain e3 s3 where s3: "sys_lseek k (fst w) (int pos) SEEK_SET s2 = (int pos, e3, s3)"
    "kview s3 = (F, Some (fst w, path, pos))" by blast
  from s1 s2 s3 w(4,5) kw(2) show "\<exists>w'. fi_size (posix_interface k) w = Some (OP_OK, length bs, w') \<and> posix_good kview w' \<and>
      posix_view kview w' = (F, Some (path, pos))"
    by (simp add: posix_interface_def posix_size_def posix_position_def posix_good_def posix_view_def OFF_T_MAX_LIMIT_def)
next
  fix w F path and pos n :: nat and bs
  assume w: "posix_good kview w" "posix_view kview w = (F, Some (path, pos))" "F path = Some bs" "n < 2 ^ 32" "pos + n \<le> length bs"
  then have kw: "kview (snd w) = (F, Some (fst w, path, pos))" "0 \<le> fst w"
    by (cases "kview (snd w)"; auto simp: posix_view_def posix_good_def)+
  have "n - length ([] :: bytes) \<le> rounds_for n" using w(4) by (simp add: rounds_for_def)
  with read_loop_complete [of k kview readable F path bs pos n "snd w" "fst w" "[]" "rounds_for n"] assms w(3,5) kw(1)
  obtain s' where "read_loop k (fst w) WAIT n (rounds_for n) [] (snd w) = (OP_OK, take n (drop pos bs), s')" "kview s' = (F, Some (fst w, path, pos + n))"
    by auto
  with w(4) kw(2) show "\<exists>w'. fi_read (posix_interface k) n WAIT w = (OP_OK, take n (drop pos bs), w') \<and> posix_good kview w' \<and>
      posix_view kview w' = (F, Some (path, pos + n))"
    by (simp add: posix_interface_def posix_read_def posix_good_def posix_view_def SSIZE_T_MAX_LIMIT_def)
qed

text \<open>A disk whose kernel writes at most \<open>Suc limit\<close> bytes at a time.\<close>

record disk =
  dk_files :: "bytes \<Rightarrow> bytes option"
  dk_open :: "(bytes \<times> nat) option"

definition disk_kernel :: "nat \<Rightarrow> disk kernel" where
  "disk_kernel limit = \<lparr>
     sys_open = \<lambda>path flags s. (3, E_OK, s\<lparr>dk_files := (dk_files s)(path \<mapsto> or_empty (dk_files s path)), dk_open := Some (path, 0)\<rparr>),
     sys_close = \<lambda>fd s. s\<lparr>dk_open := None\<rparr>,
     sys_lseek = \<lambda>fd off from s. (case dk_open s of None \<Rightarrow> (- 1, EBADF, s)
       | Some (path, pos) \<Rightarrow> (let new = (case from of SEEK_SET \<Rightarrow> off | SEEK_CUR \<Rightarrow> int pos + off | SEEK_END \<Rightarrow> int (length (or_empty (dk_files s path))) + off) in
           (new, E_OK, s\<lparr>dk_open := Some (path, nat new)\<rparr>))),
     sys_read = \<lambda>fd n s. (case dk_open s of None \<Rightarrow> (- 1, EBADF, [], s)
       | Some (path, pos) \<Rightarrow> (let bs = take n (drop pos (or_empty (dk_files s path))) in
           (int (length bs), E_OK, bs, s\<lparr>dk_open := Some (path, pos + length bs)\<rparr>))),
     sys_write = \<lambda>fd bs s. (case dk_open s of None \<Rightarrow> (- 1, EBADF, s)
       | Some (path, pos) \<Rightarrow> (let part = take (Suc limit) bs in
           (int (length part), E_OK, s\<lparr>dk_files := (dk_files s)(path \<mapsto> overwrite_at pos part (or_empty (dk_files s path))),
              dk_open := Some (path, pos + length part)\<rparr>))),
     sys_fsync = \<lambda>fd s. (0, E_OK, s),
     sys_fallocate = \<lambda>fd off len s. (ENOSYS, s)\<rparr>"

definition disk_view :: "disk \<Rightarrow> kernel_view" where
  "disk_view s = (dk_files s, map_option (Pair 3) (dk_open s))"

lemma disk_is_posix: "posix_kernel (disk_kernel limit) disk_view UNIV"
  unfolding posix_kernel_def posix_world_def
proof (intro conjI allI impI)
  fix s :: disk and F fd path pos and bs :: bytes
  assume s: "disk_view s = (F, Some (fd, path, pos)) \<and> bs \<noteq> []"
  let ?n = "min (length bs) (Suc limit)"
  show "\<exists>n e s'. sys_write (disk_kernel limit) fd bs s = (int n, e, s') \<and> 0 < n \<and> n \<le> length bs \<and>
      disk_view s' = (F(path \<mapsto> overwrite_at pos (take n bs) (or_empty (F path))), Some (fd, path, pos + n))"
    using s by (intro exI [of _ ?n] exI [of _ E_OK]) (auto simp: disk_kernel_def disk_view_def Let_def min_def)
qed (auto simp: disk_kernel_def disk_view_def)

lemma disk_is_reader: "posix_reader (disk_kernel limit) disk_view UNIV"
  unfolding posix_reader_def posix_world_def
proof (intro conjI allI impI)
  fix s :: disk and F fd path pos bs and n :: nat
  assume s: "disk_view s = (F, Some (fd, path, pos)) \<and> F path = Some bs \<and> 0 < n \<and> pos < length bs"
  let ?m = "length (take n (drop pos bs))"
  show "\<exists>m e s'. sys_read (disk_kernel limit) fd n s = (int m, e, take m (drop pos bs), s') \<and> 0 < m \<and> m \<le> n \<and> pos + m \<le> length bs \<and>
      disk_view s' = (F, Some (fd, path, pos + m))"
    using s by (intro exI [of _ ?m] exI [of _ E_OK]) (auto simp: disk_kernel_def disk_view_def Let_def min_def)
qed (auto simp: disk_kernel_def disk_view_def fun_upd_idem)

interpretation disk_read: file_source "posix_interface (disk_kernel limit)" "posix_good disk_view" "posix_view disk_view" UNIV
  by (rule posix_source [OF disk_is_reader])

interpretation disk: file_store "posix_interface (disk_kernel limit)" "posix_good disk_view" "posix_view disk_view" UNIV
  by (rule posix_store [OF disk_is_posix])

text \<open>A write that the kernel keeps refusing is reported as a success, and one that is interrupted as an error.\<close>

lemma write_loop_refused:
  assumes "\<And>bs s. bs \<noteq> [] \<Longrightarrow> \<exists>e s'. sys_write k fd bs s = (- 1, e, s') \<and> e \<noteq> EINTR"
  shows "acc < length buffer \<Longrightarrow> \<exists>s'. write_loop k fd buffer rounds acc s = (OP_OK, acc, s')"
proof (induction rounds arbitrary: s)
  case (Suc rounds)
  then obtain e s1 where "sys_write k fd (drop acc buffer) s = (- 1, e, s1)" "e \<noteq> EINTR" using assms [of "drop acc buffer" s] by auto
  with Suc show ?case by simp
qed simp

lemma refused_write_ok:
  assumes "\<And>bs s. bs \<noteq> [] \<Longrightarrow> \<exists>e s'. sys_write k fd bs s = (- 1, e, s') \<and> e \<noteq> EINTR" "bs \<noteq> []" "length bs \<le> SSIZE_T_MAX_LIMIT"
  shows "\<exists>s'. posix_write k bs NO_WAIT (fd, s) = (OP_OK, 0, (fd, s'))"
proof -
  obtain s' where "write_loop k fd bs (rounds_for (length bs)) 0 s = (OP_OK, 0, s')"
    using write_loop_refused [OF assms(1), of 0 bs] assms(2) by auto
  with assms(3) show ?thesis by (simp add: posix_write_def)
qed

lemma interrupted_write_fails:
  assumes "bs \<noteq> []" "length bs \<le> SSIZE_T_MAX_LIMIT" "sys_write k fd bs s = (- 1, EINTR, s')"
  shows "posix_write k bs NO_WAIT (fd, s) = (OTHER_ERROR, 0, (fd, s'))"
proof -
  obtain n where "rounds_for (length bs) = Suc n"
    using assms(1,2) by (cases "rounds_for (length bs)") (auto simp: rounds_for_def SSIZE_T_MAX_LIMIT_def)
  with assms show ?thesis by (simp add: posix_write_def)
qed

end
