(* ===== verification/File_Uplink.thy ===== *)
theory File_Uplink
  imports File_Packets Os_File
begin

text \<open>
  The component \<^verbatim>\<open>Svc/FileUplink\<close> behind the router, which puts the packets of files together: its state machine with the modes
  START and DATA, the file it writes, and its warnings. The operating system's files are the interface of \<^verbatim>\<open>Os_File\<close>. An event is the call of
  its log function; how often it goes out is up to the throttles of the autocoded base.
\<close>

section \<open>The component\<close>

definition FW_PACKET_UNKNOWN :: u16 where "FW_PACKET_UNKNOWN = 0x00FF"

datatype ReceiveMode = START | DATA

record FileUplink =
  m_receiveMode :: ReceiveMode
  m_lastSequenceIndex :: u32
  m_lastPacketWriteStatus :: file_status
  file_total :: u32
  file_name :: bytes
  osFile :: Os_File
  file_checksum :: u32
  m_received_files_counter :: u32
  m_received_packet_count :: u32
  m_warning_count :: u32

text \<open>The size is not initialised.\<close>

definition FileUplink_new :: "u32 \<Rightarrow> FileUplink" where
  "FileUplink_new garbage = \<lparr>m_receiveMode = START, m_lastSequenceIndex = 0, m_lastPacketWriteStatus = MAX_STATUS, file_total = garbage,
     file_name = [], osFile = Os_File_new, file_checksum = 0, m_received_files_counter = 0, m_received_packet_count = 0, m_warning_count = 0\<rparr>"

datatype file_event =
    InvalidPacketReceived u16
  | DecodeError SerializeStatus
  | InvalidReceiveMode u8 ReceiveMode
  | FileOpenError bytes
  | PacketOutOfBounds u32 bytes
  | PacketOutOfOrder u32 u32
  | PacketDuplicate u32
  | FileWriteError bytes
  | BadChecksum bytes u32 u32
  | FileReceived bytes
  | UplinkCanceled

datatype receiver_output =
    File_log file_event
  | Throttles_cleared
  | FilesReceived u32
  | PacketsReceived u32
  | Warnings u32
  | bufferSendOut Fw_Buffer
  | Receiver_ping u32

text \<open>The component, the world of its files, and what it has sent so far.\<close>

record 'w file_receiver =
  rv_component :: FileUplink
  rv_world :: 'w
  rv_sent :: "receiver_output list"

definition rv_set :: "(FileUplink \<Rightarrow> FileUplink) \<Rightarrow> 'w file_receiver \<Rightarrow> 'w file_receiver" where
  "rv_set f s = s\<lparr>rv_component := f (rv_component s)\<rparr>"

definition rv_send :: "receiver_output \<Rightarrow> 'w file_receiver \<Rightarrow> 'w file_receiver" where
  "rv_send x s = s\<lparr>rv_sent := rv_sent s @ [x]\<rparr>"

definition packetReceived :: "'w file_receiver \<Rightarrow> 'w file_receiver" where
  "packetReceived s = (let n = m_received_packet_count (rv_component s) + 1 in
     rv_send (PacketsReceived n) (rv_set (\<lambda>u. u\<lparr>m_received_packet_count := n\<rparr>) s))"

definition fileReceived :: "'w file_receiver \<Rightarrow> 'w file_receiver" where
  "fileReceived s = (let n = m_received_files_counter (rv_component s) + 1 in
     rv_send (FilesReceived n) (rv_set (\<lambda>u. u\<lparr>m_received_files_counter := n\<rparr>) s))"

text \<open>The methods of \<^verbatim>\<open>Warnings\<close>: the event, and the count of warnings.\<close>

definition warn :: "file_event \<Rightarrow> 'w file_receiver \<Rightarrow> 'w file_receiver" where
  "warn e s = (let n = m_warning_count (rv_component s) + 1 in
     rv_send (Warnings n) (rv_set (\<lambda>u. u\<lparr>m_warning_count := n\<rparr>) (rv_send (File_log e) s)))"

text \<open>\<^verbatim>\<open>FileUplink::File\<close>\<close>

definition File_open :: "'w file_interface \<Rightarrow> u32 \<Rightarrow> PathName \<Rightarrow> 'w file_receiver \<Rightarrow> (file_status \<times> 'w file_receiver) option" where
  "File_open d fileSize destinationPath s = do {
     let path = c_string (pn_value destinationPath);
     (status, f, w) \<leftarrow> file_open d path OPEN_WRITE NO_OVERWRITE (osFile (rv_component s)) (rv_world s);
     Some (status, (rv_set (\<lambda>u. u\<lparr>file_name := take FW_LOG_STRING_MAX_SIZE path, file_total := fileSize, file_checksum := 0, osFile := f\<rparr>) s)\<lparr>rv_world := w\<rparr>)
   }"

definition File_write :: "'w file_interface \<Rightarrow> bytes \<Rightarrow> u32 \<Rightarrow> u32 \<Rightarrow> 'w file_receiver \<Rightarrow> (file_status \<times> 'w file_receiver) option" where
  "File_write d data byteOffset len s = do {
     let u = rv_component s;
     (status, w) \<leftarrow> file_seek d (osFile u) (uint byteOffset) ABSOLUTE (rv_world s);
     let s = s\<lparr>rv_world := w\<rparr>;
     if status \<noteq> OP_OK then Some (status, s)
     else do {
       (status, intLength, w) \<leftarrow> file_write d (osFile u) (take (unat len) data) NO_WAIT w;
       let s = s\<lparr>rv_world := w\<rparr>;
       if status \<noteq> OP_OK then Some (status, s)
       else do {
         FW_ASSERT (of_nat intLength = len);
         checksum \<leftarrow> Checksum_update (take (unat len) data) byteOffset (file_checksum u);
         Some (OP_OK, rv_set (\<lambda>u. u\<lparr>file_checksum := checksum\<rparr>) s)
       }
     }
   }"

definition close_osFile :: "'w file_interface \<Rightarrow> 'w file_receiver \<Rightarrow> 'w file_receiver option" where
  "close_osFile d s = do {
     (f, w) \<leftarrow> file_close d (osFile (rv_component s)) (rv_world s);
     Some ((rv_set (\<lambda>u. u\<lparr>osFile := f\<rparr>) s)\<lparr>rv_world := w\<rparr>)
   }"

definition goToStartMode :: "'w file_interface \<Rightarrow> 'w file_receiver \<Rightarrow> 'w file_receiver option" where
  "goToStartMode d s = do {
     s \<leftarrow> close_osFile d s;
     Some (rv_set (\<lambda>u. u\<lparr>m_receiveMode := START, m_lastSequenceIndex := 0, m_lastPacketWriteStatus := MAX_STATUS\<rparr>) s)
   }"

definition goToDataMode :: "'w file_receiver \<Rightarrow> 'w file_receiver" where
  "goToDataMode = rv_set (\<lambda>u. u\<lparr>m_receiveMode := DATA, m_lastSequenceIndex := 0, m_lastPacketWriteStatus := MAX_STATUS\<rparr>)"

definition handleStartPacket :: "'w file_interface \<Rightarrow> u32 \<Rightarrow> PathName \<Rightarrow> 'w file_receiver \<Rightarrow> 'w file_receiver option" where
  "handleStartPacket d fileSize destinationPath s = do {
     let s = packetReceived (rv_send Throttles_cleared s);
     let mode = m_receiveMode (rv_component s);
     s \<leftarrow> (if mode \<noteq> START then map_option (warn (InvalidReceiveMode T_START mode)) (close_osFile d s) else Some s);
     (status, s) \<leftarrow> File_open d fileSize destinationPath s;
     if status = OP_OK then Some (goToDataMode s)
     else goToStartMode d (warn (FileOpenError (file_name (rv_component s))) s)
   }"

definition checkSequenceIndex :: "u32 \<Rightarrow> 'w file_receiver \<Rightarrow> 'w file_receiver" where
  "checkSequenceIndex sequenceIndex s = (let lastIndex = m_lastSequenceIndex (rv_component s) in
     rv_set (\<lambda>u. u\<lparr>m_lastSequenceIndex := sequenceIndex\<rparr>)
       (if sequenceIndex \<noteq> lastIndex + 1 then warn (PacketOutOfOrder sequenceIndex lastIndex) s else s))"

text \<open>A duplicate is skipped only when the packet before was written.\<close>

definition handleDataPacket :: "'w file_interface \<Rightarrow> u32 \<Rightarrow> u32 \<Rightarrow> u16 \<Rightarrow> bytes \<Rightarrow> 'w file_receiver \<Rightarrow> 'w file_receiver option" where
  "handleDataPacket d sequenceIndex byteOffset dataSize data s = do {
     let s = packetReceived s;
     let u = rv_component s;
     if m_receiveMode u \<noteq> DATA then Some (warn (InvalidReceiveMode T_DATA (m_receiveMode u)) s)
     else if m_lastPacketWriteStatus u = OP_OK \<and> sequenceIndex = m_lastSequenceIndex u then Some (warn (PacketDuplicate sequenceIndex) s)
     else do {
       let s = checkSequenceIndex sequenceIndex s;
       if byteOffset + ucast dataSize > file_total u then Some (warn (PacketOutOfBounds sequenceIndex (file_name u)) s)
       else do {
         (status, s) \<leftarrow> File_write d data byteOffset (ucast dataSize) s;
         let s = (if status \<noteq> OP_OK then warn (FileWriteError (file_name u)) s else s);
         Some (rv_set (\<lambda>u. u\<lparr>m_lastPacketWriteStatus := status\<rparr>) s)
       }
     }
   }"

definition compareChecksums :: "u32 \<Rightarrow> 'w file_receiver \<Rightarrow> 'w file_receiver" where
  "compareChecksums stored s = (let computed = file_checksum (rv_component s) in
     if computed \<noteq> stored then warn (BadChecksum (file_name (rv_component s)) computed stored) s else s)"

definition handleEndPacket :: "'w file_interface \<Rightarrow> u32 \<Rightarrow> u32 \<Rightarrow> 'w file_receiver \<Rightarrow> 'w file_receiver option" where
  "handleEndPacket d sequenceIndex checksum s =
     (let s = packetReceived s; u = rv_component s in
      goToStartMode d
        (if m_receiveMode u = DATA then
           rv_send (File_log (FileReceived (file_name u))) (compareChecksums checksum (checkSequenceIndex sequenceIndex (fileReceived s)))
         else warn (InvalidReceiveMode T_END (m_receiveMode u)) s))"

definition handleCancelPacket :: "'w file_interface \<Rightarrow> 'w file_receiver \<Rightarrow> 'w file_receiver option" where
  "handleCancelPacket d s = goToStartMode d (rv_send (File_log UplinkCanceled) (packetReceived s))"

primrec handle_packet :: "'w file_interface \<Rightarrow> FilePacket \<Rightarrow> 'w file_receiver \<Rightarrow> 'w file_receiver option" where
  "handle_packet d (StartPacket h fileSize src dst) s = handleStartPacket d fileSize dst s"
| "handle_packet d (DataPacket h byteOffset dataSize data) s = handleDataPacket d (ph_sequenceIndex h) byteOffset dataSize data s"
| "handle_packet d (EndPacket h checksum) s = handleEndPacket d (ph_sequenceIndex h) checksum s"
| "handle_packet d (CancelPacket h) s = handleCancelPacket d s"
| "handle_packet d NoPacket s = None"

definition FileUplink_bufferSendIn :: "'w file_interface \<Rightarrow> Fw_Buffer \<Rightarrow> 'w file_receiver \<Rightarrow> 'w file_receiver option" where
  "FileUplink_bufferSendIn d buffer s =
     (if buf_size buffer < 2 then Some (rv_send (bufferSendOut buffer) (rv_send (File_log (InvalidPacketReceived FW_PACKET_UNKNOWN)) s))
      else do {
        ser \<leftarrow> getDeserializer buffer;
        let (status, packetType, _) = deserialize_U16 BIG ser;
        FW_ASSERT (status = FW_SERIALIZE_OK);
        packetType \<leftarrow> packetType;
        if packetType \<noteq> FW_PACKET_FILE then
          Some (rv_send (bufferSendOut buffer) (rv_send (File_log (InvalidPacketReceived packetType)) s))
        else do {
          (status, pkt) \<leftarrow> FilePacket_fromBuffer (drop 2 (buf_data buffer));
          s \<leftarrow> (case pkt of None \<Rightarrow> Some (rv_send (File_log (DecodeError status)) s) | Some pkt \<Rightarrow> handle_packet d pkt s);
          Some (rv_send (bufferSendOut buffer) s)
        }
      })"

definition FileUplink_pingIn :: "u32 \<Rightarrow> 'w file_receiver \<Rightarrow> 'w file_receiver" where
  "FileUplink_pingIn key = rv_send (Receiver_ping key)"

datatype receiver_call = Packet_in Fw_Buffer | Ping_in u32

fun run_receiver :: "'w file_interface \<Rightarrow> receiver_call list \<Rightarrow> 'w file_receiver \<Rightarrow> 'w file_receiver option" where
  "run_receiver d [] s = Some s"
| "run_receiver d (Packet_in buffer # calls) s = do { s \<leftarrow> FileUplink_bufferSendIn d buffer s; run_receiver d calls s }"
| "run_receiver d (Ping_in key # calls) s = run_receiver d calls (FileUplink_pingIn key s)"

definition receiver_start :: "u32 \<Rightarrow> 'w \<Rightarrow> 'w file_receiver" where
  "receiver_start garbage w = \<lparr>rv_component = FileUplink_new garbage, rv_world = w, rv_sent = []\<rparr>"

section \<open>What goes out\<close>

lemma rv_simps [simp]:
  "rv_component (rv_send x s) = rv_component s" "rv_world (rv_send x s) = rv_world s" "rv_sent (rv_send x s) = rv_sent s @ [x]"
  "rv_component (rv_set f s) = f (rv_component s)" "rv_world (rv_set f s) = rv_world s" "rv_sent (rv_set f s) = rv_sent s"
  by (simp_all add: rv_send_def rv_set_def)

text \<open>The events and the buffers that were given back.\<close>

fun logged :: "receiver_output list \<Rightarrow> file_event list" where
  "logged [] = []"
| "logged (File_log e # out) = e # logged out"
| "logged (_ # out) = logged out"

fun returned :: "receiver_output list \<Rightarrow> Fw_Buffer list" where
  "returned [] = []"
| "returned (bufferSendOut b # out) = b # returned out"
| "returned (_ # out) = returned out"

lemma sent_append [simp]: "logged (out @ out') = logged out @ logged out'" "returned (out @ out') = returned out @ returned out'"
  by (induction out rule: logged.induct; simp) (induction out rule: returned.induct; simp)

lemma sent_simps [simp]:
  "logged (rv_sent (packetReceived s)) = logged (rv_sent s)" "returned (rv_sent (packetReceived s)) = returned (rv_sent s)"
  "logged (rv_sent (fileReceived s)) = logged (rv_sent s)" "returned (rv_sent (fileReceived s)) = returned (rv_sent s)"
  "logged (rv_sent (warn e s)) = logged (rv_sent s) @ [e]" "returned (rv_sent (warn e s)) = returned (rv_sent s)"
  "rv_world (packetReceived s) = rv_world s" "rv_world (fileReceived s) = rv_world s" "rv_world (warn e s) = rv_world s"
  "rv_sent (goToDataMode s) = rv_sent s" "rv_world (goToDataMode s) = rv_world s"
  by (simp_all add: packetReceived_def fileReceived_def warn_def goToDataMode_def Let_def)

lemma component_simps [simp]:
  "m_receiveMode (rv_component (packetReceived s)) = m_receiveMode (rv_component s)" "m_receiveMode (rv_component (warn e s)) = m_receiveMode (rv_component s)"
  "m_receiveMode (rv_component (fileReceived s)) = m_receiveMode (rv_component s)" "osFile (rv_component (fileReceived s)) = osFile (rv_component s)"
  "osFile (rv_component (packetReceived s)) = osFile (rv_component s)" "osFile (rv_component (warn e s)) = osFile (rv_component s)"
  by (simp_all add: packetReceived_def warn_def fileReceived_def Let_def)

text \<open>The mode says whether the file is open; the buffers given back are as stated.\<close>

definition mode_ok :: "FileUplink \<Rightarrow> bool" where
  "mode_ok u \<longleftrightarrow> of_mode (osFile u) = (if m_receiveMode u = DATA then OPEN_WRITE else OPEN_NO_MODE)"

definition keeps_buffers :: "'w file_receiver \<Rightarrow> 'w file_receiver \<Rightarrow> bool" where
  "keeps_buffers s s' \<longleftrightarrow> mode_ok (rv_component s') \<and> returned (rv_sent s') = returned (rv_sent s)"

lemma mode_ok_simps [simp]:
  "mode_ok (rv_component (packetReceived s)) = mode_ok (rv_component s)" "mode_ok (rv_component (fileReceived s)) = mode_ok (rv_component s)"
  "mode_ok (rv_component (warn e s)) = mode_ok (rv_component s)" "mode_ok (u\<lparr>m_lastSequenceIndex := i\<rparr>) = mode_ok u"
  "mode_ok (u\<lparr>m_lastPacketWriteStatus := st\<rparr>) = mode_ok u" "mode_ok (u\<lparr>file_checksum := c\<rparr>) = mode_ok u"
  by (simp_all add: mode_ok_def)

lemma check_simps [simp]:
  "mode_ok (rv_component (checkSequenceIndex i s)) = mode_ok (rv_component s)" "returned (rv_sent (checkSequenceIndex i s)) = returned (rv_sent s)"
  "mode_ok (rv_component (compareChecksums c s)) = mode_ok (rv_component s)" "returned (rv_sent (compareChecksums c s)) = returned (rv_sent s)"
  by (simp_all add: checkSequenceIndex_def compareChecksums_def Let_def)

lemma close_keeps: "close_osFile d s = Some s' \<Longrightarrow> of_mode (osFile (rv_component s')) = OPEN_NO_MODE \<and>
  rv_sent s' = rv_sent s \<and> m_receiveMode (rv_component s') = m_receiveMode (rv_component s)"
  by (auto simp: close_osFile_def file_close_def bind_eq_Some_conv)

lemma start_mode_keeps: "goToStartMode d s = Some s' \<Longrightarrow> keeps_buffers s s'"
  by (auto simp: goToStartMode_def keeps_buffers_def mode_ok_def bind_eq_Some_conv dest!: close_keeps)

lemma open_keeps:
  assumes "File_open d n path s = Some (status, s')" "of_mode (osFile (rv_component s)) = OPEN_NO_MODE"
  shows "rv_sent s' = rv_sent s \<and> of_mode (osFile (rv_component s')) = (if status = OP_OK then OPEN_WRITE else OPEN_NO_MODE)"
  using assms by (auto simp: File_open_def file_open_def isOpen_def bind_eq_Some_conv Let_def split: if_splits)

lemma write_keeps:
  assumes "File_write d data off n s = Some (status, s')"
  shows "mode_ok (rv_component s') = mode_ok (rv_component s) \<and> rv_sent s' = rv_sent s"
proof -
  let ?u = "rv_component s"
  obtain st1 w1 where seek: "file_seek d (osFile ?u) (uint off) ABSOLUTE (rv_world s) = Some (st1, w1)"
    using assms by (cases "file_seek d (osFile ?u) (uint off) ABSOLUTE (rv_world s)") (auto simp: File_write_def Let_def)
  show ?thesis
  proof (cases "st1 = OP_OK")
    case False
    with assms seek show ?thesis by (auto simp: File_write_def Let_def)
  next
    case True
    obtain st2 k w2 where wr: "file_write d (osFile ?u) (take (unat n) data) NO_WAIT w1 = Some (st2, k, w2)"
      using assms seek True by (cases "file_write d (osFile ?u) (take (unat n) data) NO_WAIT w1") (auto simp: File_write_def Let_def)
    show ?thesis
    proof (cases "st2 = OP_OK")
      case False
      with assms seek True wr show ?thesis by (auto simp: File_write_def Let_def)
    next
      case ok: True
      with assms seek True wr show ?thesis by (auto simp: File_write_def Let_def bind_eq_Some_conv FW_ASSERT_def mode_ok_def split: if_splits)
    qed
  qed
qed

lemma start_keeps:
  assumes "mode_ok (rv_component s)" "handleStartPacket d n dst s = Some s'"
  shows "keeps_buffers s s'"
proof -
  define s0 where "s0 = packetReceived (rv_send Throttles_cleared s)"
  define first where "first = (if m_receiveMode (rv_component s0) \<noteq> START
      then map_option (warn (InvalidReceiveMode T_START (m_receiveMode (rv_component s0)))) (close_osFile d s0) else Some s0)"
  have s0: "mode_ok (rv_component s0)" "returned (rv_sent s0) = returned (rv_sent s)" using assms(1) by (simp_all add: s0_def)
  have h: "Option.bind first (\<lambda>s. Option.bind (File_open d n dst s) (\<lambda>(status, s). if status = OP_OK then Some (goToDataMode s)
      else goToStartMode d (warn (FileOpenError (file_name (rv_component s))) s))) = Some s'"
    using assms(2) unfolding handleStartPacket_def s0_def first_def Let_def .
  then obtain s1 status s2 where s12: "first = Some s1" "File_open d n dst s1 = Some (status, s2)"
    by (cases first; cases "File_open d n dst (the first)") auto
  have s1: "of_mode (osFile (rv_component s1)) = OPEN_NO_MODE" "returned (rv_sent s1) = returned (rv_sent s)"
    using s12(1) s0 by (auto simp: first_def mode_ok_def dest!: close_keeps split: if_splits)
  have last: "(if status = OP_OK then Some (goToDataMode s2) else goToStartMode d (warn (FileOpenError (file_name (rv_component s2))) s2)) = Some s'"
    using h s12 by simp
  from open_keeps [OF s12(2) s1(1)] s1(2) last show ?thesis
    by (cases "status = OP_OK") (auto simp: keeps_buffers_def mode_ok_def goToDataMode_def dest!: start_mode_keeps)
qed

lemma data_keeps:
  assumes "mode_ok (rv_component s)" "handleDataPacket d i off n data s = Some s'"
  shows "keeps_buffers s s'"
  using assms by (auto simp: handleDataPacket_def keeps_buffers_def bind_eq_Some_conv Let_def dest!: write_keeps split: if_splits)

lemma packet_keeps:
  assumes "mode_ok (rv_component s)" "handle_packet d pkt s = Some s'"
  shows "keeps_buffers s s'"
proof (cases pkt)
  case (EndPacket h c)
  with assms have "goToStartMode d (if m_receiveMode (rv_component (packetReceived s)) = DATA then
       rv_send (File_log (FileReceived (file_name (rv_component (packetReceived s))))) (compareChecksums c (checkSequenceIndex (ph_sequenceIndex h) (fileReceived (packetReceived s))))
     else warn (InvalidReceiveMode T_END (m_receiveMode (rv_component (packetReceived s)))) (packetReceived s)) = Some s'"
    by (simp only: handleEndPacket_def Let_def handle_packet.simps)
  from start_mode_keeps [OF this] show ?thesis by (simp add: keeps_buffers_def split: if_splits)
next
  case (CancelPacket h)
  with assms(2) have "goToStartMode d (rv_send (File_log UplinkCanceled) (packetReceived s)) = Some s'" by (simp add: handleCancelPacket_def)
  from start_mode_keeps [OF this] show ?thesis by (simp add: keeps_buffers_def)
qed (use assms start_keeps data_keeps in auto)

text \<open>A buffer is given back behind what its packet caused: an event, or the handling of the packet.\<close>

lemma receive_cases:
  assumes "FileUplink_bufferSendIn d b s = Some s'"
  shows "\<exists>s1. s' = rv_send (bufferSendOut b) s1 \<and> ((\<exists>e. s1 = rv_send (File_log e) s) \<or> (\<exists>pkt. handle_packet d pkt s = Some s1))"
proof (cases "buf_size b < 2")
  case True
  with assms show ?thesis by (auto simp: FileUplink_bufferSendIn_def)
next
  case False
  then obtain ser where ser: "getDeserializer b = Some ser" using assms by (cases "getDeserializer b") (auto simp: FileUplink_bufferSendIn_def)
  obtain status packetType rest where type: "deserialize_U16 BIG ser = (status, packetType, rest)" by (cases "deserialize_U16 BIG ser")
  obtain v where v: "packetType = Some v" "status = FW_SERIALIZE_OK"
    using assms False ser type by (cases packetType; cases "status = FW_SERIALIZE_OK") (auto simp: FileUplink_bufferSendIn_def FW_ASSERT_def)
  show ?thesis
  proof (cases "v = FW_PACKET_FILE")
    case True
    then obtain status' pkt where "FilePacket_fromBuffer (drop 2 (buf_data b)) = Some (status', pkt)"
      using assms False ser type v by (cases "FilePacket_fromBuffer (drop 2 (buf_data b))") (auto simp: FileUplink_bufferSendIn_def)
    with True show ?thesis
      using assms False ser type v by (cases pkt) (auto simp: FileUplink_bufferSendIn_def bind_eq_Some_conv)
  next
    case other: False
    with False ser type v assms show ?thesis by (auto simp: FileUplink_bufferSendIn_def)
  qed
qed

lemma receive_keeps:
  assumes "mode_ok (rv_component s)" "FileUplink_bufferSendIn d b s = Some s'"
  shows "mode_ok (rv_component s') \<and> returned (rv_sent s') = returned (rv_sent s) @ [b]"
proof -
  obtain s1 where s1: "s' = rv_send (bufferSendOut b) s1" "(\<exists>e. s1 = rv_send (File_log e) s) \<or> (\<exists>pkt. handle_packet d pkt s = Some s1)"
    using receive_cases [OF assms(2)] by blast
  then have "keeps_buffers s s1" using packet_keeps [OF assms(1)] assms(1) by (auto simp: keeps_buffers_def)
  with s1(1) show ?thesis by (simp add: keeps_buffers_def)
qed

section \<open>Receiving a file\<close>

text \<open>A buffer that holds a file packet, with the type in front.\<close>

definition holds :: "Fw_Buffer \<Rightarrow> FilePacket \<Rightarrow> bool" where
  "holds b pkt \<longleftrightarrow> buf_addr b \<noteq> 0 \<and> buf_size b \<le> length (buf_memory b) \<and> buf_data b = U16_bytes BIG FW_PACKET_FILE @ file_packet_bytes pkt"

text \<open>A buffer in which some bytes are handed over, whatever its address and context.\<close>

definition hands_over :: "Fw_Buffer \<Rightarrow> bytes \<Rightarrow> bool" where
  "hands_over b bs \<longleftrightarrow> buf_addr b \<noteq> 0 \<and> buf_size b \<le> length (buf_memory b) \<and> buf_data b = bs"

lemma handed_over: "list_all2 hands_over bs (map file_bytes pkts) \<Longrightarrow> list_all2 holds bs pkts"
  by (auto simp: list.rel_map hands_over_def holds_def file_bytes_def elim!: list_all2_mono)

lemma file_packet_received:
  assumes "isValid b" "buf_size b \<le> length (buf_memory b)" "buf_data b = U16_bytes BIG FW_PACKET_FILE @ mem"
  shows "FileUplink_bufferSendIn d b s = Option.bind (FilePacket_fromBuffer mem) (\<lambda>(status, pkt).
    map_option (rv_send (bufferSendOut b)) (case pkt of None \<Rightarrow> Some (rv_send (File_log (DecodeError status)) s) | Some pkt \<Rightarrow> handle_packet d pkt s))"
proof -
  have size: "buf_size b = length (buf_data b)" using assms(2) by (simp add: buf_data_def)
  have "length (buf_data b) = 2 + length mem" using assms(3) by simp
  then have two: "2 \<le> buf_size b" using size by simp
  let ?s = "\<lparr>lb_mem = buf_data b, m_serLoc = buf_size b, m_deserLoc = 0\<rparr>"
  have ser: "getDeserializer b = Some ?s"
    using assms(1) size by (simp add: getDeserializer_def setBuffLen_def getCapacity_def)
  have "reads ?s (U16_bytes BIG FW_PACKET_FILE @ mem)"
    using assms(3) size two by (auto simp: reads_def buffer_ok_def written_def)
  from read_U16 [OF this] obtain s1 where "deserialize_U16 BIG ?s = (FW_SERIALIZE_OK, Some FW_PACKET_FILE, s1)" by blast
  moreover have "drop 2 (buf_data b) = mem" using assms(3) by simp
  ultimately show ?thesis
    using two ser by (auto simp: FileUplink_bufferSendIn_def map_conv_bind_option comp_def intro!: arg_cong [where f = "Option.bind _"] split: option.splits)
qed

lemma packet_handled:
  assumes "holds b pkt" "file_packet_ok pkt"
  shows "FileUplink_bufferSendIn d b s = map_option (rv_send (bufferSendOut b)) (handle_packet d pkt s)"
proof -
  have b: "buf_size b \<le> length (buf_memory b)" "buf_data b = U16_bytes BIG FW_PACKET_FILE @ file_packet_bytes pkt" using assms(1) by (simp_all add: holds_def)
  from b(1) have "buf_size b = length (buf_data b)" by (simp add: buf_data_def)
  with b assms(1) have "isValid b" by (simp add: isValid_def holds_def)
  moreover note b
  ultimately show ?thesis using packet_received [OF assms(2)] by (simp add: file_packet_received)
qed

text \<open>What the receiver says of the order of the numbers.\<close>

fun order_events :: "u32 \<Rightarrow> u32 list \<Rightarrow> file_event list" where
  "order_events lastIndex [] = []"
| "order_events lastIndex (i # is) = (if i \<noteq> lastIndex + 1 then [PacketOutOfOrder i lastIndex] else []) @ order_events i is"

lemma no_order_events: "order_events (of_nat n) (map of_nat [Suc n..<Suc (n + k)]) = []"
proof (induction k arbitrary: n)
  case (Suc k)
  have "[Suc n..<Suc (n + Suc k)] = Suc n # [Suc (Suc n)..<Suc (Suc n + k)]" by (simp add: upt_conv_Cons)
  with Suc.IH [of "Suc n"] show ?case by simp
qed simp

text \<open>The pieces of a file written in any order give the file.\<close>

definition put_piece :: "u32 \<times> bytes \<Rightarrow> bytes \<Rightarrow> bytes" where
  "put_piece p = overwrite_at (unat (fst p)) (snd p)"

lemma length_pieces [simp]: "length (pieces off cs) = length cs"
  by (induction cs arbitrary: off) simp_all

lemma piece_place: "p \<in> set (pieces off cs) \<Longrightarrow> off + length (concat cs) < 2 ^ 32 \<Longrightarrow>
    off \<le> unat (fst p) \<and> unat (fst p) + length (snd p) \<le> off + length (concat cs) \<and> snd p \<in> set cs"
proof (induction cs arbitrary: off)
  case (Cons c cs)
  show ?case
  proof (cases "p = (of_nat off, c)")
    case True
    with Cons.prems(2) show ?thesis by (simp add: unat_of_nat)
  next
    case False
    with Cons.IH [of "off + length c"] Cons.prems show ?thesis by auto
  qed
qed simp

lemma pieces_commute: "p \<in> set (pieces off cs) \<Longrightarrow> q \<in> set (pieces off cs) \<Longrightarrow> off + length (concat cs) < 2 ^ 32 \<Longrightarrow>
    put_piece p (put_piece q old) = put_piece q (put_piece p old)"
proof (induction cs arbitrary: off)
  case (Cons c cs)
  let ?first = "(of_nat off :: u32, c)"
  have apart: "put_piece ?first (put_piece r old) = put_piece r (put_piece ?first old)" if "r \<in> set (pieces (off + length c) cs)" for r
  proof -
    have "off + length c \<le> unat (fst r)" using piece_place [OF that] Cons.prems(3) by simp
    moreover have "unat (of_nat off :: u32) = off" using Cons.prems(3) by (simp add: unat_of_nat)
    ultimately show ?thesis by (auto simp: put_piece_def intro!: overwrite_commute)
  qed
  from Cons.prems Cons.IH [of "off + length c"] apart [of p] apart [of q] show ?case by auto
qed simp

lemma fold_pieces: "off + length (concat cs) < 2 ^ 32 \<Longrightarrow> fold put_piece (pieces off cs) (overwrite_at 0 sofar old) =
    overwrite_at 0 (sofar @ concat cs) old" if "off = length sofar"
  using that
proof (induction cs arbitrary: off sofar)
  case (Cons c cs)
  have "put_piece (of_nat off, c) (overwrite_at 0 sofar old) = overwrite_at 0 (sofar @ c) old"
    using overwrite_at_append [of 0 sofar c old] Cons.prems by (simp add: put_piece_def unat_of_nat)
  with Cons.IH [of "off + length c" "sofar @ c"] Cons.prems show ?case by simp
qed simp

lemma pieces_any_order:
  assumes "mset ps = mset (pieces 0 cs)" "length (concat cs) < 2 ^ 32"
  shows "fold put_piece ps old = overwrite_at 0 (concat cs) old"
proof -
  have "fold put_piece ps = fold put_piece (pieces 0 cs)"
    using pieces_commute [of _ 0 cs] mset_eq_setD [OF assms(1)] assms by (intro fold_multiset_equiv) (auto simp: fun_eq_iff)
  with fold_pieces [of 0 "[]" cs old] assms(2) show ?thesis by simp
qed

lemma path_initialize_ok: "path_name_ok (PathName_initialize bs)" "c_string (pn_value (PathName_initialize bs)) = c_string (take 255 bs)"
proof -
  have "string_length bs 255 \<le> min (length bs) 255"
    using length_takeWhile_le [of _ "take 255 bs"] by (simp add: string_length_def)
  then have short: "string_length bs 255 \<le> 255" and len: "string_length bs 255 \<le> length bs" by simp_all
  show "path_name_ok (PathName_initialize bs)"
    using short len by (simp add: path_name_ok_def PathName_initialize_def unat_of_nat)
  have "take (string_length bs 255) bs = take (string_length bs 255) (take 255 bs)" using short by (simp add: min_absorb1)
  also have "\<dots> = takeWhile (\<lambda>b. b \<noteq> 0) (take 255 bs)" by (simp only: string_length_def flip: takeWhile_eq_take)
  finally have "take (string_length bs 255) bs = takeWhile (\<lambda>b. b \<noteq> 0) (take 255 bs)" .
  then show "c_string (pn_value (PathName_initialize bs)) = c_string (take 255 bs)"
    by (simp add: PathName_initialize_def c_string_def)
qed

section \<open>The steps of a transfer\<close>

text \<open>The file is open, and the pieces \<open>ps\<close> have been written into it.\<close>

definition receiving :: "(bytes \<Rightarrow> bytes option) \<Rightarrow> bytes \<Rightarrow> nat \<Rightarrow> u32 \<Rightarrow> (u32 \<times> bytes) list \<Rightarrow> FileUplink \<Rightarrow> file_view \<Rightarrow> bool" where
  "receiving F path len i ps u v \<longleftrightarrow> m_receiveMode u = DATA \<and> of_mode (osFile u) = OPEN_WRITE \<and> m_lastSequenceIndex u = i \<and>
     file_total u = of_nat len \<and> file_name u = take FW_LOG_STRING_MAX_SIZE path \<and> file_checksum u = (\<Sum>p \<in># mset ps. piece_sum p) \<and>
     (\<exists>pos. v = (F(path \<mapsto> fold put_piece ps (or_empty (F path))), Some (path, pos)))"

definition at_rest :: "FileUplink \<Rightarrow> bool" where
  "at_rest u \<longleftrightarrow> m_receiveMode u = START \<and> of_mode (osFile u) = OPEN_NO_MODE"

text \<open>The packet of the last number may come again only if it was not written.\<close>

definition awaits :: "u32 set \<Rightarrow> FileUplink \<Rightarrow> bool" where
  "awaits is u \<longleftrightarrow> m_lastPacketWriteStatus u = OP_OK \<longrightarrow> m_lastSequenceIndex u \<notin> is"

context file_store
begin

lemma start_step:
  assumes "at_rest (rv_component s)" "good (rv_world s)" "view (rv_world s) = (F, None)" "c_string (pn_value dst) = path" "path \<in> writable"
  shows "\<exists>s'. handleStartPacket d (of_nat len) dst s = Some s' \<and> good (rv_world s') \<and>
    receiving F path len 0 [] (rv_component s') (view (rv_world s')) \<and> awaits is (rv_component s') \<and>
    logged (rv_sent s') = logged (rv_sent s) \<and> returned (rv_sent s') = returned (rv_sent s)"
proof -
  from open_write [OF assms(2) _ assms(5)] assms(3) obtain w where
    w: "fi_open d path OPEN_WRITE NO_OVERWRITE (rv_world s) = Some (OP_OK, w)" "good w" "view w = (F(path \<mapsto> or_empty (F path)), Some (path, 0))"
    by auto
  then show ?thesis
    using assms(1,4) by (simp add: handleStartPacket_def at_rest_def File_open_def file_open_def isOpen_def Let_def receiving_def goToDataMode_def packetReceived_def awaits_def)
qed

text \<open>A write into the open file, wherever it goes.\<close>

lemma write_step:
  assumes "of_mode (osFile (rv_component s)) = OPEN_WRITE" "good (rv_world s)" "view (rv_world s) = (F, Some (path, pos))" "F path = Some old"
    "length c < 2 ^ 16"
  shows "\<exists>w'. File_write d c off (of_nat (length c)) s =
      Some (OP_OK, (rv_set (\<lambda>u. u\<lparr>file_checksum := file_checksum u + piece_sum (off, c)\<rparr>) s)\<lparr>rv_world := w'\<rparr>) \<and> good w' \<and>
    (\<exists>pos'. view w' = (F(path \<mapsto> put_piece (off, c) old), Some (path, pos')))"
proof -
  have small: "unat off < 2 ^ 32" "length c < 2 ^ 32" using unsigned_less [of off] assms(5) by simp_all
  from seek_absolute [OF assms(2,3) small(1)] obtain w1 where w1: "fi_seek d (uint off) ABSOLUTE (rv_world s) = (OP_OK, w1)" "good w1"
    "view w1 = (F, Some (path, unat off))" by auto
  from write_bytes [OF w1(2,3) assms(4) small(2)] obtain w2 where w2: "fi_write d c NO_WAIT w1 = (OP_OK, length c, w2)" "good w2"
    "view w2 = (F(path \<mapsto> overwrite_at (unat off) c old), Some (path, unat off + length c))" by auto
  have len: "unat (of_nat (length c) :: u32) = length c" using small(2) by (simp add: unat_of_nat)
  have whole: "File_write d c off (of_nat (length c)) s =
      Some (OP_OK, rv_set (\<lambda>u. u\<lparr>file_checksum := file_checksum (rv_component s) + piece_sum (off, c)\<rparr>) (s\<lparr>rv_world := w2\<rparr>))"
    using w1 w2(1) len assms(1) update_sum [OF small(2)]
    by (simp add: File_write_def file_seek_def file_write_def piece_sum_def Let_def)
  show ?thesis
    unfolding whole by (rule exI [of _ w2]) (use w2(2,3) in \<open>simp add: rv_set_def put_piece_def\<close>)
qed

lemma data_step:
  assumes "receiving F path len i ps (rv_component s) (view (rv_world s))" "good (rv_world s)" "awaits (insert j is) (rv_component s)"
    "length c < 2 ^ 16" "unat off + length c \<le> len" "len < 2 ^ 32" "j \<notin> is"
  shows "\<exists>s'. handle_packet d (data_packet (j, off, c)) s = Some s' \<and> good (rv_world s') \<and>
    receiving F path len j (ps @ [(off, c)]) (rv_component s') (view (rv_world s')) \<and> awaits is (rv_component s') \<and>
    logged (rv_sent s') = logged (rv_sent s) @ order_events i [j] \<and> returned (rv_sent s') = returned (rv_sent s)"
proof -
  define s0 where "s0 = packetReceived s"
  have s0: "receiving F path len i ps (rv_component s0) (view (rv_world s0))" "awaits (insert j is) (rv_component s0)" "rv_world s0 = rv_world s"
    "logged (rv_sent s0) = logged (rv_sent s)" "returned (rv_sent s0) = returned (rv_sent s)"
    using assms(1,3) by (auto simp: s0_def receiving_def packetReceived_def awaits_def Let_def)
  define s1 where "s1 = checkSequenceIndex j s0"
  have s1: "receiving F path len j ps (rv_component s1) (view (rv_world s1))" "rv_world s1 = rv_world s"
    "logged (rv_sent s1) = logged (rv_sent s) @ order_events i [j]" "returned (rv_sent s1) = returned (rv_sent s)"
    using s0 by (auto simp: s1_def checkSequenceIndex_def receiving_def warn_def Let_def)
  obtain w' where w': "File_write d c off (of_nat (length c)) s1 =
      Some (OP_OK, (rv_set (\<lambda>u. u\<lparr>file_checksum := file_checksum u + piece_sum (off, c)\<rparr>) s1)\<lparr>rv_world := w'\<rparr>)" "good w'"
    "\<exists>pos'. view w' = (F(path \<mapsto> put_piece (off, c) (fold put_piece ps (or_empty (F path)))), Some (path, pos'))"
    using write_step [of s1 "F(path \<mapsto> fold put_piece ps (or_empty (F path)))" path _ _ c off] s1(1,2) assms(2,4)
    by (fastforce simp: receiving_def)
  have n: "ucast (of_nat (length c) :: u16) = (of_nat (length c) :: u32)" using assms(4)
    by (simp add: word_unat_eq_iff unsigned_ucast_eq unsigned_of_nat take_bit_eq_mod)
  have "unat (off + of_nat (length c)) = unat off + length c"
    using assms(4-6) by (simp add: unat_word_ariths unat_of_nat)
  then have bound: "\<not> off + of_nat (length c) > (of_nat len :: u32)"
    using assms(5,6) by (simp add: word_less_nat_alt unat_of_nat)
  have "handle_packet d (data_packet (j, off, c)) s =
      Some (rv_set (\<lambda>u. u\<lparr>m_lastPacketWriteStatus := OP_OK\<rparr>)
        ((rv_set (\<lambda>u. u\<lparr>file_checksum := file_checksum u + piece_sum (off, c)\<rparr>) s1)\<lparr>rv_world := w'\<rparr>))"
    using w'(1) s0(1,2) bound n
    by (simp add: DataPacket_initialize_def handleDataPacket_def receiving_def awaits_def Let_def flip: s0_def) (auto simp: s1_def)
  with w'(2,3) s1 assms(7) show ?thesis by (auto simp: receiving_def awaits_def)
qed

lemma end_step:
  assumes "receiving F path len i ps (rv_component s) (view (rv_world s))" "good (rv_world s)" "c = (\<Sum>p \<in># mset ps. piece_sum p)"
  shows "\<exists>s'. handle_packet d (EndPacket_initialize j c) s = Some s' \<and> good (rv_world s') \<and>
    at_rest (rv_component s') \<and> view (rv_world s') = (F(path \<mapsto> fold put_piece ps (or_empty (F path))), None) \<and>
    logged (rv_sent s') = logged (rv_sent s) @ order_events i [j] @ [FileReceived (take FW_LOG_STRING_MAX_SIZE path)] \<and>
    returned (rv_sent s') = returned (rv_sent s)"
  using close_file [OF assms(2)] assms(1,3)
  by (auto simp: EndPacket_initialize_def handleEndPacket_def goToStartMode_def close_osFile_def file_close_def FW_ASSERT_def receiving_def
      at_rest_def packetReceived_def fileReceived_def checkSequenceIndex_def compareChecksums_def warn_def Let_def)

text \<open>The packets, each in a buffer.\<close>

lemma receive_step:
  assumes "holds b pkt" "file_packet_ok pkt" "handle_packet d pkt s = Some s1"
    "run_receiver d (map Packet_in bs) (rv_send (bufferSendOut b) s1) = Some s'"
  shows "run_receiver d (map Packet_in (b # bs)) s = Some s'"
  using assms packet_handled [OF assms(1,2), of d s] by simp

lemma transfer_steps:
  assumes "receiving F path len i ps (rv_component s) (view (rv_world s))" "good (rv_world s)"
    "awaits (fst ` set qs) (rv_component s)" "distinct (map fst qs)"
    "\<forall>(j, off, c) \<in> set qs. length c < 2 ^ 16 \<and> unat off + length c \<le> len" "len < 2 ^ 32"
    "list_all2 holds bs (map data_packet qs @ [EndPacket_initialize j (\<Sum>p \<in># mset (ps @ map snd qs). piece_sum p)])"
  shows "\<exists>s'. run_receiver d (map Packet_in bs) s = Some s' \<and> good (rv_world s') \<and> at_rest (rv_component s') \<and>
    view (rv_world s') = (F(path \<mapsto> fold put_piece (ps @ map snd qs) (or_empty (F path))), None) \<and>
    logged (rv_sent s') = logged (rv_sent s) @ order_events i (map fst qs @ [j]) @ [FileReceived (take FW_LOG_STRING_MAX_SIZE path)] \<and>
    returned (rv_sent s') = returned (rv_sent s) @ bs"
  using assms
proof (induction qs arbitrary: i ps s bs)
  case Nil
  let ?sum = "\<Sum>p \<in># mset ps. piece_sum p"
  from Nil obtain b where b: "bs = [b]" "holds b (EndPacket_initialize j ?sum)" by (auto simp: list_all2_Cons2)
  from end_step [OF Nil.prems(1,2) refl] obtain s1 where s1: "handle_packet d (EndPacket_initialize j ?sum) s = Some s1" "good (rv_world s1)"
    "at_rest (rv_component s1)" "view (rv_world s1) = (F(path \<mapsto> fold put_piece ps (or_empty (F path))), None)"
    "logged (rv_sent s1) = logged (rv_sent s) @ order_events i [j] @ [FileReceived (take FW_LOG_STRING_MAX_SIZE path)]"
    "returned (rv_sent s1) = returned (rv_sent s)" by blast
  have "file_packet_ok (EndPacket_initialize j ?sum)" by (simp add: EndPacket_initialize_def)
  from receive_step [OF b(2) this s1(1), of "[]"] s1 b(1) show ?case by (auto simp: fun_upd_def)
next
  case (Cons q qs)
  obtain j' off c where q: "q = (j', off, c)" by (cases q)
  let ?ps = "ps @ [(off, c)]"
  obtain b bs' where b: "bs = b # bs'" "holds b (data_packet q)"
    "list_all2 holds bs' (map data_packet qs @ [EndPacket_initialize j (\<Sum>p \<in># mset (?ps @ map snd qs). piece_sum p)])"
    using Cons.prems(7) q by (auto simp: list_all2_Cons2)
  have c: "length c < 2 ^ 16" "unat off + length c \<le> len" "j' \<notin> fst ` set qs" "awaits (insert j' (fst ` set qs)) (rv_component s)"
    using Cons.prems(3-5) q by auto
  from data_step [OF Cons.prems(1,2) c(4,1,2) Cons.prems(6) c(3)] obtain s1 where s1: "handle_packet d (data_packet q) s = Some s1"
    "good (rv_world s1)" "receiving F path len j' ?ps (rv_component s1) (view (rv_world s1))" "awaits (fst ` set qs) (rv_component s1)"
    "logged (rv_sent s1) = logged (rv_sent s) @ order_events i [j']" "returned (rv_sent s1) = returned (rv_sent s)"
    unfolding q by blast
  let ?s = "rv_send (bufferSendOut b) s1"
  from Cons.IH [of j' ?ps ?s bs'] s1(2-4) Cons.prems(4-6) b(3) obtain s' where s':
    "run_receiver d (map Packet_in bs') ?s = Some s'" "good (rv_world s')" "at_rest (rv_component s')"
    "view (rv_world s') = (F(path \<mapsto> fold put_piece (?ps @ map snd qs) (or_empty (F path))), None)"
    "logged (rv_sent s') = logged (rv_sent ?s) @ order_events j' (map fst qs @ [j]) @ [FileReceived (take FW_LOG_STRING_MAX_SIZE path)]"
    "returned (rv_sent s') = returned (rv_sent ?s) @ bs'"
    by (auto simp: fun_upd_def)
  have "file_packet_ok (data_packet q)" using c(1) by (simp add: q DataPacket_initialize_def unat_of_nat)
  from receive_step [OF b(2) this s1(1) s'(1)] s' s1(5,6) b(1) show ?case by (auto simp: q fun_upd_def)
qed

lemma transfer_received:
  assumes "at_rest (rv_component s)" "good (rv_world s)" "view (rv_world s) = (F, None)"
    "c_string (take 255 dst) = path" "path \<in> writable" "cuts_ok cs" "mset ps = mset (numbered cs)" "list_all2 holds bs (transfer src dst cs ps)"
  shows "\<exists>s'. run_receiver d (map Packet_in bs) s = Some s' \<and> good (rv_world s') \<and> at_rest (rv_component s') \<and>
    view (rv_world s') = (F(path \<mapsto> overwrite_at 0 (concat cs) (or_empty (F path))), None) \<and>
    logged (rv_sent s') = logged (rv_sent s) @ order_events 0 (map fst ps @ [of_nat (Suc (length cs))]) @
      [FileReceived (take FW_LOG_STRING_MAX_SIZE path)] \<and>
    returned (rv_sent s') = returned (rv_sent s) @ bs"
proof -
  let ?n = "length (concat cs)"
  have lens: "?n < 2 ^ 32" "Suc (length cs) < 2 ^ 32" "\<forall>c \<in> set cs. length c < 2 ^ 16" using assms(6) by (auto simp: cuts_ok_def)
  have same: "set ps = set (numbered cs)" using assms(7) by (rule mset_eq_setD)
  have "image_mset snd (mset ps) = mset (pieces 0 cs)" "image_mset fst (mset ps) = mset (map of_nat [1..<Suc (length cs)])"
    unfolding assms(7) by (simp_all add: numbered_def del: upt_Suc flip: mset_map)
  then have parts: "mset (map snd ps) = mset (pieces 0 cs)" "mset (map fst ps) = mset (map (of_nat :: nat \<Rightarrow> u32) [1..<Suc (length cs)])" by simp_all
  have "inj_on (of_nat :: nat \<Rightarrow> u32) (set [1..<Suc (length cs)])"
    using lens(2) by (intro inj_onI) (auto simp: word_of_nat_eq_iff take_bit_nat_eq_self)
  then have dist: "distinct (map fst ps)"
    using mset_eq_imp_distinct_iff [OF parts(2)] by (simp add: distinct_map)
  have inside: "\<forall>(j, off, c) \<in> set ps. length c < 2 ^ 16 \<and> unat off + length c \<le> ?n"
    using piece_place [of _ 0 cs] lens by (fastforce simp: same numbered_def dest: set_zip_rightD)
  have sum: "file_sum 0 (concat cs) = (\<Sum>p \<in># mset ([] @ map snd ps). piece_sum p)"
    using pieces_sum [of 0 cs] lens(1) parts(1) by simp
  obtain b bs' where b: "bs = b # bs'" "holds b (StartPacket_initialize (of_nat ?n) src dst)"
    "list_all2 holds bs' (map data_packet ps @ [EndPacket_initialize (of_nat (Suc (length cs))) (\<Sum>p \<in># mset ([] @ map snd ps). piece_sum p)])"
    using assms(8) unfolding transfer_def sum by (auto simp: list_all2_Cons2)
  have path: "c_string (pn_value (PathName_initialize dst)) = path" using assms(4) by (simp add: path_initialize_ok)
  from start_step [OF assms(1-3) path assms(5), of ?n "fst ` set ps"] obtain s1 where s1: "handleStartPacket d (of_nat ?n) (PathName_initialize dst) s = Some s1"
    "good (rv_world s1)" "receiving F path ?n 0 [] (rv_component s1) (view (rv_world s1))" "awaits (fst ` set ps) (rv_component s1)"
    "logged (rv_sent s1) = logged (rv_sent s)" "returned (rv_sent s1) = returned (rv_sent s)" by blast
  let ?s = "rv_send (bufferSendOut b) s1"
  from transfer_steps [of F path ?n 0 "[]" ?s ps bs' "of_nat (Suc (length cs))"] b(3) s1(2-4) lens(1) dist inside obtain s' where s':
    "run_receiver d (map Packet_in bs') ?s = Some s'" "good (rv_world s')" "at_rest (rv_component s')"
    "view (rv_world s') = (F(path \<mapsto> fold put_piece ([] @ map snd ps) (or_empty (F path))), None)"
    "logged (rv_sent s') = logged (rv_sent ?s) @ order_events 0 (map fst ps @ [of_nat (Suc (length cs))]) @ [FileReceived (take FW_LOG_STRING_MAX_SIZE path)]"
    "returned (rv_sent s') = returned (rv_sent ?s) @ bs'"
    by (auto simp: fun_upd_def)
  have "file_packet_ok (StartPacket_initialize (of_nat ?n) src dst)" by (simp add: StartPacket_initialize_def path_initialize_ok)
  from receive_step [OF b(2) this _ s'(1)] s1(1) have "run_receiver d (map Packet_in bs) s = Some s'"
    by (simp add: StartPacket_initialize_def b(1))
  with s' s1(5,6) b(1) pieces_any_order [OF parts(1) lens(1)] show ?thesis by (auto simp: fun_upd_def)
qed

end

section \<open>Any history\<close>

lemma run_keeps:
  assumes "mode_ok (rv_component s)" "run_receiver d calls s = Some s'"
  shows "mode_ok (rv_component s') \<and>
    returned (rv_sent s') = returned (rv_sent s) @ concat (map (\<lambda>c. case c of Packet_in b \<Rightarrow> [b] | Ping_in key \<Rightarrow> []) calls)"
  using assms
proof (induction d calls s rule: run_receiver.induct)
  case (2 d b calls s)
  then obtain s1 where "FileUplink_bufferSendIn d b s = Some s1" "run_receiver d calls s1 = Some s'" by (auto simp: bind_eq_Some_conv)
  with 2 receive_keeps [OF 2(2)] show ?case by fastforce
qed (simp_all add: FileUplink_pingIn_def)

lemma overwrite_start: "overwrite_at 0 bs old = bs @ drop (length bs) old"
  by (simp add: overwrite_at_def)

lemma numbers_in_order: "order_events 0 (map fst (numbered cs) @ [of_nat (Suc (length cs))]) = []"
proof -
  have "map fst (numbered cs) @ [of_nat (Suc (length cs))] = map of_nat ([1..<Suc (length cs)] @ [Suc (length cs)])"
    by (simp add: numbered_def del: upt_Suc)
  also have "[1..<Suc (length cs)] @ [Suc (length cs)] = [Suc 0..<Suc (0 + Suc (length cs))]" by simp
  finally show ?thesis using no_order_events [of 0 "Suc (length cs)"] by simp
qed

text \<open>A buffer for a packet.\<close>

definition carrying :: "FilePacket \<Rightarrow> Fw_Buffer" where
  "carrying pkt = (let bs = U16_bytes BIG FW_PACKET_FILE @ file_packet_bytes pkt in \<lparr>buf_addr = 1, buf_size = length bs, buf_context = 0, buf_memory = bs\<rparr>)"

lemma carrying_holds: "holds (carrying pkt) pkt"
  by (simp add: carrying_def holds_def Let_def buf_data_def)

section \<open>Writes that fail, and packets outside the file\<close>

definition refuses_writes :: "'k kernel \<Rightarrow> int \<Rightarrow> bool" where
  "refuses_writes k fd \<longleftrightarrow> (\<forall>bs s. bs \<noteq> [] \<longrightarrow> (\<exists>e s'. sys_write k fd bs s = (- 1, e, s') \<and> e \<noteq> EINTR))"

definition interrupts_writes :: "'k kernel \<Rightarrow> int \<Rightarrow> bool" where
  "interrupts_writes k fd \<longleftrightarrow> (\<forall>bs s. bs \<noteq> [] \<longrightarrow> (\<exists>s'. sys_write k fd bs s = (- 1, EINTR, s')))"

lemma data_packet_ok: "length c < 2 ^ 16 \<Longrightarrow> file_packet_ok (data_packet (i, off, c))"
  by (simp add: DataPacket_initialize_def unat_of_nat)

lemma ucast_length: "length c < 2 ^ 16 \<Longrightarrow> ucast (of_nat (length c) :: u16) = (of_nat (length c) :: u32)"
  by (simp add: word_unat_eq_iff unsigned_ucast_eq unsigned_of_nat take_bit_eq_mod)

text \<open>A data packet with a new number, up to the write: what remains is the check of its place, and the write.\<close>

definition data_checked :: "'w file_interface \<Rightarrow> Fw_Buffer \<Rightarrow> u32 \<Rightarrow> u32 \<Rightarrow> bytes \<Rightarrow> 'w file_receiver \<Rightarrow> 'w file_receiver \<Rightarrow> bool" where
  "data_checked d b i off c s s1 \<longleftrightarrow>
     logged (rv_sent s1) = logged (rv_sent s) @ order_events (m_lastSequenceIndex (rv_component s)) [i] \<and>
     returned (rv_sent s1) = returned (rv_sent s) \<and> rv_world s1 = rv_world s \<and> osFile (rv_component s1) = osFile (rv_component s) \<and>
     m_receiveMode (rv_component s1) = DATA \<and>
     FileUplink_bufferSendIn d b s = map_option (rv_send (bufferSendOut b))
       (if off + of_nat (length c) > file_total (rv_component s) then Some (warn (PacketOutOfBounds i (file_name (rv_component s))) s1)
        else Option.bind (File_write d c off (of_nat (length c)) s1) (\<lambda>(status, s2).
          Some (rv_set (\<lambda>u. u\<lparr>m_lastPacketWriteStatus := status\<rparr>) (if status \<noteq> OP_OK then warn (FileWriteError (file_name (rv_component s))) s2 else s2))))"

lemma data_packet_handled:
  assumes "m_receiveMode (rv_component s) = DATA" "i \<noteq> m_lastSequenceIndex (rv_component s)" "holds b (data_packet (i, off, c))" "length c < 2 ^ 16"
  shows "\<exists>s1. data_checked d b i off c s s1"
proof -
  define s0 where "s0 = packetReceived s"
  have s0: "rv_component s0 = (rv_component s)\<lparr>m_received_packet_count := m_received_packet_count (rv_component s) + 1\<rparr>" "rv_world s0 = rv_world s"
    "logged (rv_sent s0) = logged (rv_sent s)" "returned (rv_sent s0) = returned (rv_sent s)"
    by (simp_all add: s0_def packetReceived_def Let_def)
  define s1 where "s1 = checkSequenceIndex i s0"
  have handled: "FileUplink_bufferSendIn d b s = map_option (rv_send (bufferSendOut b)) (handleDataPacket d i off (of_nat (length c)) c s)"
    using packet_handled [OF assms(3) data_packet_ok [OF assms(4)]] by (simp add: DataPacket_initialize_def)
  show ?thesis
    by (rule exI [of _ s1])
      (use s0 assms(1,2,4) in \<open>auto simp: data_checked_def s1_def checkSequenceIndex_def handled handleDataPacket_def ucast_length Let_def simp flip: s0_def cong: if_cong\<close>)
qed

lemma seek_done:
  assumes "of_mode f = OPEN_WRITE" "sys_lseek k fd (uint (off :: u32)) SEEK_SET ks = (uint off, e, ks')"
  shows "file_seek (posix_interface k) f (uint off) ABSOLUTE (fd, ks) = Some (OP_OK, (fd, ks'))"
proof -
  have "0 \<le> uint off" by simp
  then have "uint off \<noteq> - 1" "uint off < 2 ^ 32" using unsigned_less [of off, where ?'a = int] by (linarith, simp)
  with assms show ?thesis by (simp add: file_seek_def posix_interface_def posix_seek_def OFF_T_MAX_LIMIT_def)
qed

lemma refused_write:
  assumes "refuses_writes k fd" "of_mode (osFile (rv_component s)) = OPEN_WRITE" "rv_world s = (fd, ks)"
    "sys_lseek k fd (uint off) SEEK_SET ks = (uint off, e, ks')" "c \<noteq> []" "length c < 2 ^ 16"
  shows "File_write (posix_interface k) c off (of_nat (length c)) s = None"
proof -
  obtain ks2 where "posix_write k c NO_WAIT (fd, ks') = (OP_OK, 0, (fd, ks2))"
    using refused_write_ok [of k fd c ks'] assms(1,5,6) by (auto simp: refuses_writes_def SSIZE_T_MAX_LIMIT_def)
  moreover have "unat (of_nat (length c) :: u32) = length c" "of_nat (length c) \<noteq> (0 :: u32)"
    using assms(5,6) by (auto simp: unat_of_nat word_unat_eq_iff)
  ultimately show ?thesis
    using assms(2,3) seek_done [OF assms(2,4)] by (simp add: File_write_def file_write_def Let_def) (simp add: posix_interface_def)
qed

lemma interrupted_write:
  assumes "interrupts_writes k fd" "of_mode (osFile (rv_component s)) = OPEN_WRITE" "rv_world s = (fd, ks)"
    "sys_lseek k fd (uint off) SEEK_SET ks = (uint off, e, ks')" "c \<noteq> []" "length c < 2 ^ 16"
  shows "\<exists>w. File_write (posix_interface k) c off (of_nat (length c)) s = Some (OTHER_ERROR, s\<lparr>rv_world := w\<rparr>)"
proof -
  obtain ks2 where ks2: "sys_write k fd c ks' = (- 1, EINTR, ks2)" using assms(1,5) unfolding interrupts_writes_def by blast
  have "posix_write k c NO_WAIT (fd, ks') = (OTHER_ERROR, 0, (fd, ks2))"
    using interrupted_write_fails [OF assms(5) _ ks2] assms(6) by (simp add: SSIZE_T_MAX_LIMIT_def)
  moreover have "unat (of_nat (length c) :: u32) = length c" using assms(6) by (simp add: unat_of_nat)
  ultimately show ?thesis
    using assms(2,3) seek_done [OF assms(2,4)]
    by (intro exI [of _ "(fd, ks2)"]) (simp add: File_write_def file_write_def Let_def, simp add: posix_interface_def)
qed

section \<open>Properties\<close>

text \<open>
  C8: Every buffer that the file receiver gets goes back to the router, once and in order, whatever it holds, and the file is open
  exactly while a transfer is under way: in every state that it reaches from the start, with any file system behind it.
\<close>

theorem receiver_returns_buffers:
  assumes "run_receiver d calls (receiver_start garbage w) = Some s"
  shows "returned (rv_sent s) = concat (map (\<lambda>c. case c of Packet_in b \<Rightarrow> [b] | Ping_in key \<Rightarrow> []) calls) \<and>
    of_mode (osFile (rv_component s)) = (if m_receiveMode (rv_component s) = DATA then OPEN_WRITE else OPEN_NO_MODE)"
  using run_keeps [OF _ assms] by (simp add: receiver_start_def FileUplink_new_def Os_File_new_def mode_ok_def)

theorem receiver_returns_buffers_witness:
  "\<exists>s. run_receiver (posix_interface (disk_kernel 0)) [Ping_in 1, Packet_in Fw_Buffer_empty]
      (receiver_start 0 (-1, \<lparr>dk_files = Map.empty, dk_open = None\<rparr>)) = Some s \<and>
    returned (rv_sent s) = [Fw_Buffer_empty]"
  using receiver_returns_buffers [of "posix_interface (disk_kernel 0)" "[Ping_in 1, Packet_in Fw_Buffer_empty]"
      0 "(-1, \<lparr>dk_files = Map.empty, dk_open = None\<rparr>)"]
  by (simp add: FileUplink_bufferSendIn_def Fw_Buffer_empty_def)

text \<open>
  C13: A file arrives as it was sent. When the packets of a transfer come in buffers, between the start and the end the data packets
  in any order, the file at the destination holds the chunks of the file in front of what was there behind their length, the checksum
  is right, only numbers out of order are warned of, none if the packets come in order, all buffers are given back, and the receiver is ready for
  the next file, on every POSIX file system that reports no errors, however it splits the writes. A destination is cut at 255 characters and at its first zero byte.
\<close>

theorem files_received_intact:
  assumes "posix_kernel k kview writable"
    and "at_rest (rv_component s)" "posix_good kview (rv_world s)" "posix_view kview (rv_world s) = (F, None)"
    and "c_string (take 255 dst) = path" "path \<in> writable" "cuts_ok cs" "mset ps = mset (numbered cs)" "list_all2 holds bs (transfer src dst cs ps)"
  shows "\<exists>s'. run_receiver (posix_interface k) (map Packet_in bs) s = Some s' \<and> posix_good kview (rv_world s') \<and>
    at_rest (rv_component s') \<and>
    posix_view kview (rv_world s') = (F(path \<mapsto> concat cs @ drop (length (concat cs)) (or_empty (F path))), None) \<and>
    logged (rv_sent s') = logged (rv_sent s) @ order_events 0 (map fst ps @ [of_nat (Suc (length cs))]) @ [FileReceived (take FW_LOG_STRING_MAX_SIZE path)] \<and>
    (ps = numbered cs \<longrightarrow> order_events 0 (map fst ps @ [of_nat (Suc (length cs))]) = []) \<and>
    returned (rv_sent s') = returned (rv_sent s) @ bs"
  using file_store.transfer_received [OF posix_store [OF assms(1)] assms(2-9)] numbers_in_order [of cs]
  by (simp add: overwrite_start)

theorem files_received_intact_witness:
  "\<exists>s'. run_receiver (posix_interface (disk_kernel 0)) (map (Packet_in \<circ> carrying) (transfer [0x73] [0x64] [[1, 2], [3]] [(2, 2, [3]), (1, 0, [1, 2])]))
      (receiver_start 0 (-1, \<lparr>dk_files = [[0x64] \<mapsto> [9, 9, 9, 9, 9]], dk_open = None\<rparr>)) = Some s' \<and>
    logged (rv_sent s') = [PacketOutOfOrder 2 0, PacketOutOfOrder 1 2, PacketOutOfOrder 3 1, FileReceived [0x64]] \<and>
    dk_files (snd (rv_world s')) [0x64] = Some [1, 2, 3, 9, 9]"
proof -
  let ?s = "receiver_start 0 (-1, \<lparr>dk_files = [[0x64] \<mapsto> [9, 9, 9, 9, 9]], dk_open = None\<rparr>)"
  let ?ps = "[(2, 2, [3]), (1, 0, [1, 2])] :: (u32 \<times> u32 \<times> bytes) list"
  let ?pkts = "transfer [0x73] [0x64] [[1, 2], [3]] ?ps"
  have "\<exists>s'. run_receiver (posix_interface (disk_kernel 0)) (map Packet_in (map carrying ?pkts)) ?s = Some s' \<and> posix_good disk_view (rv_world s') \<and>
    at_rest (rv_component s') \<and>
    posix_view disk_view (rv_world s') = ([[0x64] \<mapsto> [9, 9, 9, 9, 9]]([0x64] \<mapsto> concat [[1, 2], [3]] @ drop (length (concat [[1, 2 :: u8], [3]])) (or_empty (Some [9, 9, 9, 9, 9]))), None) \<and>
    logged (rv_sent s') = logged (rv_sent ?s) @ order_events 0 (map fst ?ps @ [of_nat (Suc (length [[1, 2 :: u8], [3]]))]) @ [FileReceived (take FW_LOG_STRING_MAX_SIZE [0x64])] \<and>
    (?ps = numbered [[1, 2], [3]] \<longrightarrow> order_events 0 (map fst ?ps @ [of_nat (Suc (length [[1, 2 :: u8], [3]]))]) = []) \<and>
    returned (rv_sent s') = returned (rv_sent ?s) @ map carrying ?pkts"
    using files_received_intact [OF disk_is_posix, of ?s "[[0x64] \<mapsto> [9, 9, 9, 9, 9]]" "[0x64]" "[0x64]" "[[1, 2], [3]]" ?ps "map carrying ?pkts" "[0x73]" 0]
    by (simp add: receiver_start_def FileUplink_new_def Os_File_new_def at_rest_def posix_good_def posix_view_def disk_view_def INVALID_FILE_DESCRIPTOR_def
        c_string_def cuts_ok_def numbered_def upt_rec list.rel_map list_all2_same carrying_holds)
  then show ?thesis
    by (auto simp: receiver_start_def posix_view_def disk_view_def FW_LOG_STRING_MAX_SIZE_def prod_eq_iff)
qed

text \<open>
  C34: What becomes of a data packet that cannot be written. If the kernel refuses every write, because the disk is full or the device fails,
  the delegate reports a success with no bytes written, and the assertion on the length in \<^verbatim>\<open>File::write\<close> stops the program.
  Only an interrupted write is reported: then the failure is warned of, the buffer goes back, and the packet may come again.
\<close>

theorem failed_writes:
  assumes "m_receiveMode (rv_component s) = DATA" "of_mode (osFile (rv_component s)) = OPEN_WRITE" "rv_world s = (fd, ks)"
    and "holds b (data_packet (i, off, c))" "c \<noteq> []" "length c < 2 ^ 16" "i \<noteq> m_lastSequenceIndex (rv_component s)"
    and "off + of_nat (length c) \<le> file_total (rv_component s)" "sys_lseek k fd (uint off) SEEK_SET ks = (uint off, e, ks')"
  shows "(refuses_writes k fd \<longrightarrow> FileUplink_bufferSendIn (posix_interface k) b s = None) \<and>
    (interrupts_writes k fd \<longrightarrow> (\<exists>s'. FileUplink_bufferSendIn (posix_interface k) b s = Some s' \<and>
       logged (rv_sent s') = logged (rv_sent s) @ order_events (m_lastSequenceIndex (rv_component s)) [i] @ [FileWriteError (file_name (rv_component s))] \<and>
       returned (rv_sent s') = returned (rv_sent s) @ [b] \<and>
       m_receiveMode (rv_component s') = DATA \<and> m_lastPacketWriteStatus (rv_component s') = OTHER_ERROR))"
proof -
  obtain s1 where "data_checked (posix_interface k) b i off c s s1" using data_packet_handled [OF assms(1,7,4,6)] ..
  moreover have "\<not> off + of_nat (length c) > file_total (rv_component s)" using assms(8) by (simp add: not_less)
  ultimately have s1: "of_mode (osFile (rv_component s1)) = OPEN_WRITE" "rv_world s1 = (fd, ks)"
    "logged (rv_sent s1) = logged (rv_sent s) @ order_events (m_lastSequenceIndex (rv_component s)) [i]"
    "returned (rv_sent s1) = returned (rv_sent s)" "m_receiveMode (rv_component s1) = DATA"
    "FileUplink_bufferSendIn (posix_interface k) b s = map_option (rv_send (bufferSendOut b))
      (Option.bind (File_write (posix_interface k) c off (of_nat (length c)) s1) (\<lambda>(status, s2).
         Some (rv_set (\<lambda>u. u\<lparr>m_lastPacketWriteStatus := status\<rparr>) (if status \<noteq> OP_OK then warn (FileWriteError (file_name (rv_component s))) s2 else s2))))"
    using assms(2,3) by (simp_all add: data_checked_def)
  show ?thesis
    using refused_write [OF _ s1(1,2) assms(9,5,6)] interrupted_write [OF _ s1(1,2) assms(9,5,6)] s1(3-6)
    by auto
qed

definition full_disk :: "disk kernel" where
  "full_disk = (disk_kernel 0)\<lparr>sys_write := \<lambda>fd bs s. (- 1, ENOSPC, s)\<rparr>"

theorem failed_writes_witness:
  "FileUplink_bufferSendIn (posix_interface full_disk) (carrying (data_packet (1, 0, [7])))
     \<lparr>rv_component = (FileUplink_new 1)\<lparr>m_receiveMode := DATA, osFile := Os_File_new\<lparr>of_mode := OPEN_WRITE\<rparr>\<rparr>,
      rv_world = (3, \<lparr>dk_files = [[0x64] \<mapsto> []], dk_open = Some ([0x64], 0)\<rparr>), rv_sent = []\<rparr> = None"
  using failed_writes [of "\<lparr>rv_component = (FileUplink_new 1)\<lparr>m_receiveMode := DATA, osFile := Os_File_new\<lparr>of_mode := OPEN_WRITE\<rparr>\<rparr>,
      rv_world = (3, \<lparr>dk_files = [[0x64] \<mapsto> []], dk_open = Some ([0x64], 0)\<rparr>), rv_sent = []\<rparr>" 3 "\<lparr>dk_files = [[0x64] \<mapsto> []], dk_open = Some ([0x64], 0)\<rparr>"
      "carrying (data_packet (1, 0, [7]))" 1 0 "[7]" full_disk E_OK "\<lparr>dk_files = [[0x64] \<mapsto> []], dk_open = Some ([0x64], 0)\<rparr>"]
  by (simp add: FileUplink_new_def full_disk_def disk_kernel_def refuses_writes_def carrying_holds del: data_packet.simps)

text \<open>
  The check of the declared size is made modulo \<open>2\<^sup>32\<close>: a data packet is refused, with a warning and the file left alone, if and
  only if the last bits of its end are above the size. Otherwise it is written at its offset, so that a packet at the far end of the address
  range makes the file longer than declared.
\<close>

theorem declared_size_modulo:
  assumes "posix_kernel k kview writable"
    and "m_receiveMode (rv_component s) = DATA" "of_mode (osFile (rv_component s)) = OPEN_WRITE"
    and "posix_good kview (rv_world s)" "posix_view kview (rv_world s) = (F, Some (path, pos))" "F path = Some old"
    and "holds b (data_packet (i, off, c))" "c \<noteq> []" "length c < 2 ^ 16" "i \<noteq> m_lastSequenceIndex (rv_component s)"
  shows "\<exists>s'. FileUplink_bufferSendIn (posix_interface k) b s = Some s' \<and>
    (if (unat off + length c) mod 2 ^ 32 > unat (file_total (rv_component s))
     then rv_world s' = rv_world s \<and>
       logged (rv_sent s') = logged (rv_sent s) @ order_events (m_lastSequenceIndex (rv_component s)) [i] @ [PacketOutOfBounds i (file_name (rv_component s))]
     else logged (rv_sent s') = logged (rv_sent s) @ order_events (m_lastSequenceIndex (rv_component s)) [i] \<and>
       (\<exists>pos' new. posix_view kview (rv_world s') = (F(path \<mapsto> new), Some (path, pos')) \<and> new = overwrite_at (unat off) c old \<and>
         length new = max (length old) (unat off + length c)))"
proof -
  let ?refused = "off + of_nat (length c) > file_total (rv_component s)"
  have refused: "?refused \<longleftrightarrow> (unat off + length c) mod 2 ^ 32 > unat (file_total (rv_component s))"
    by (simp add: word_less_nat_alt unat_word_ariths unat_of_nat mod_simps)
  obtain s1 where s1: "data_checked (posix_interface k) b i off c s s1" using data_packet_handled [OF assms(2,10,7,9)] ..
  then have s1': "of_mode (osFile (rv_component s1)) = OPEN_WRITE" "rv_world s1 = rv_world s" using assms(3) by (simp_all add: data_checked_def)
  show ?thesis
  proof (cases ?refused)
    case True
    with s1 refused show ?thesis by (simp add: data_checked_def)
  next
    case False
    obtain w' pos' where "File_write (posix_interface k) c off (of_nat (length c)) s1 =
        Some (OP_OK, (rv_set (\<lambda>u. u\<lparr>file_checksum := file_checksum u + piece_sum (off, c)\<rparr>) s1)\<lparr>rv_world := w'\<rparr>)"
      "posix_view kview w' = (F(path \<mapsto> put_piece (off, c) old), Some (path, pos'))"
      using file_store.write_step [OF posix_store [OF assms(1)], of s1 F path pos old c off] s1' assms(4-6,9) by auto
    with False s1 refused assms(8) show ?thesis by (simp add: put_piece_def data_checked_def)
  qed
qed

theorem declared_size_modulo_witness:
  "\<exists>s'. FileUplink_bufferSendIn (posix_interface (disk_kernel 5)) (carrying (data_packet (1, 0xFFFFFFFF, [7, 8])))
      \<lparr>rv_component = (FileUplink_new 10)\<lparr>m_receiveMode := DATA, osFile := Os_File_new\<lparr>of_mode := OPEN_WRITE\<rparr>\<rparr>,
       rv_world = (3, \<lparr>dk_files = [[0x64] \<mapsto> []], dk_open = Some ([0x64], 0)\<rparr>), rv_sent = []\<rparr> = Some s' \<and>
    logged (rv_sent s') = [] \<and> length (or_empty (dk_files (snd (rv_world s')) [0x64])) = 2 ^ 32 + 1"
proof -
  let ?s = "\<lparr>rv_component = (FileUplink_new 10)\<lparr>m_receiveMode := DATA, osFile := Os_File_new\<lparr>of_mode := OPEN_WRITE\<rparr>\<rparr>,
       rv_world = (3, \<lparr>dk_files = [[0x64] \<mapsto> []], dk_open = Some ([0x64], 0)\<rparr>), rv_sent = []\<rparr>"
  have "\<exists>s'. FileUplink_bufferSendIn (posix_interface (disk_kernel 5)) (carrying (data_packet (1, 0xFFFFFFFF, [7, 8]))) ?s = Some s' \<and>
    logged (rv_sent s') = [] \<and> (\<exists>pos' new. posix_view disk_view (rv_world s') = ([[0x64] \<mapsto> []]([0x64] \<mapsto> new), Some ([0x64], pos')) \<and> length new = 2 ^ 32 + 1)"
    using declared_size_modulo [OF disk_is_posix, of ?s "[[0x64] \<mapsto> []]" "[0x64]" 0 "[]" "carrying (data_packet (1, 0xFFFFFFFF, [7, 8]))" 1 "0xFFFFFFFF" "[7, 8]" 5]
    by (simp add: FileUplink_new_def posix_good_def posix_view_def disk_view_def carrying_holds del: data_packet.simps)
      (auto intro!: exI [of _ "overwrite_at 4294967295 [7, 8 :: u8] []"])
  then show ?thesis by (auto simp: posix_view_def disk_view_def prod_eq_iff)
qed

text \<open>
  A packet of a file whose type byte is not one of the five that are defined stops the program, in any state and whatever else it holds,
  if it is long enough for the header; with the type NONE it is only reported as one that cannot be read.
\<close>

theorem unknown_type_stops_receiver:
  assumes "isValid b" "buf_size b \<le> length (buf_memory b)" "buf_data b = U16_bytes BIG FW_PACKET_FILE @ mem" "5 \<le> length mem" "T_CANCEL < mem ! 0"
  shows "FileUplink_bufferSendIn d b s = (if mem ! 0 = T_NONE
    then Some (rv_send (bufferSendOut b) (rv_send (File_log (DecodeError FW_DESERIALIZE_TYPE_MISMATCH)) s)) else None)"
proof -
  have "mem ! 0 < T_NONE \<or> mem ! 0 = T_NONE"
    using unsigned_less [of "mem ! 0", where ?'a = nat] by (auto simp: T_NONE_def word_less_nat_alt word_unat_eq_iff)
  then show ?thesis
    using file_packet_received [OF assms(1-3), of d s] unknown_type_stops [OF assms(4,5)] none_type_refused [OF assms(4)] by auto
qed

theorem unknown_type_stops_receiver_witness:
  "FileUplink_bufferSendIn (posix_interface (disk_kernel 0)) \<lparr>buf_addr = 1, buf_size = 7, buf_context = 0, buf_memory = [0, 3, 4, 0, 0, 0, 0]\<rparr>
     (receiver_start 0 (-1, \<lparr>dk_files = Map.empty, dk_open = None\<rparr>)) = None"
  using unknown_type_stops_receiver [of "\<lparr>buf_addr = 1, buf_size = 7, buf_context = 0, buf_memory = [0, 3, 4, 0, 0, 0, 0]\<rparr>" "[4, 0, 0, 0, 0]"]
  by (simp add: isValid_def buf_data_def U16_bytes_def FW_PACKET_FILE_def packet_types)

end
