(* ===== verification/File_Transfer.thy ===== *)
theory File_Transfer
  imports Uplink File_Uplink
begin

text \<open>
  From the radio to the disk, as \<^verbatim>\<open>Top/topology.fpp\<close> connects the router of the uplink with the file receiver: the files in the
  trace of the uplink arrive, in order, in the buffers that the router has filled.
\<close>

section \<open>The connection\<close>

fun files_of :: "uplink_output list \<Rightarrow> bytes list" where
  "files_of [] = []"
| "files_of (File_out bs # trace) = bs # files_of trace"
| "files_of (_ # trace) = files_of trace"

lemma files_of_append [simp]: "files_of (xs @ ys) = files_of xs @ files_of ys"
  by (induction xs rule: files_of.induct) simp_all

text \<open>The router hands over such a buffer when the manager has one for it.\<close>

lemma router_hands_over:
  assumes "length (buf_data b) = buf_size b" "0 < buf_size b" "rt_bufferAllocate p (buf_size b) w = Some (copy, w1)"
    and "buf_addr copy \<noteq> 0" "buf_size copy = buf_size b" "buf_size copy \<le> length (buf_memory copy)"
  shows "\<exists>b'. route_copy p FILE_UPLINK out b w = out b' w1 \<and> hands_over b' (buf_data b)"
  using copy_routed [OF assms] assms by (intro exI conjI) (auto simp: hands_over_def buf_data_def)

section \<open>Files among the messages\<close>

definition file_messages :: "ground_message list \<Rightarrow> ground_message list" where
  "file_messages ms = filter (\<lambda>m. gm_apid m = FW_PACKET_FILE) ms"

lemma trace_files: "files_of (concat (map (\<lambda>m. message_output (gm_apid m, gm_data m)) ms)) = map gm_data (file_messages ms)"
  by (induction ms) (simp_all add: file_messages_def message_output_def FW_PACKET_FILE_def FW_PACKET_COMMAND_def)

section \<open>Properties\<close>

text \<open>
  C11: A file goes from the ground to the disk. If the uplink can take a stream of frames, however the radio cuts it and whenever buffers
  of files are returned, and the files among its messages are the packets of one transfer, the data packets in any order, then the
  uplink hands over as many buffers as the transfer has packets, and a receiver at rest that gets them stores the file, on every POSIX
  file system that reports no errors, and is at rest again with all buffers given back.
\<close>

theorem ground_files_reach_the_disk:
  assumes "m_spacecraftId d = SpacecraftId" "uplink_takes d L ms w" "up_trace w = []"
    and "accumulator_configure allocate frameAccumulatorSize CircularBuffer_new = Some r"
    and "allocate frameAccumulatorSize = (Some memory, frameAccumulatorSize)" "length memory = frameAccumulatorSize"
    and "concat (packets_of steps) = concat (map frame_of ms)"
    and "\<forall>p \<in> set (packets_of steps). 0 < length p \<and> length p \<le> frameAccumulatorSize"
    and "map gm_data (file_messages ms) = map file_bytes (transfer src dst cs ps)" "cuts_ok cs" "mset ps = mset (numbered cs)"
    and "posix_kernel k kview writable" "c_string (take 255 dst) = path" "path \<in> writable"
    and "at_rest (rv_component s)" "posix_good kview (rv_world s)" "posix_view kview (rv_world s) = (F, None)"
  shows "\<exists>r' w'. run_uplink g d steps r w = Some (r', w') \<and> length (files_of (up_trace w')) = length ps + 2 \<and>
    (\<forall>bs. list_all2 hands_over bs (files_of (up_trace w')) \<longrightarrow>
      (\<exists>s'. run_receiver (posix_interface k) (map Packet_in bs) s = Some s' \<and> at_rest (rv_component s') \<and>
         posix_view kview (rv_world s') = (F(path \<mapsto> concat cs @ drop (length (concat cs)) (or_empty (F path))), None) \<and>
         returned (rv_sent s') = returned (rv_sent s) @ bs))"
proof -
  obtain r' w' where up: "run_uplink g d steps r w = Some (r', w')" "up_trace w' = concat (map (\<lambda>m. message_output (gm_apid m, gm_data m)) ms)"
    using ground_messages_routed [OF assms(1,2,4-8), where g = g] assms(3) by auto
  have files: "files_of (up_trace w') = map file_bytes (transfer src dst cs ps)" unfolding up(2) trace_files assms(9) ..
  have "\<exists>s'. run_receiver (posix_interface k) (map Packet_in bs) s = Some s' \<and> at_rest (rv_component s') \<and>
      posix_view kview (rv_world s') = (F(path \<mapsto> concat cs @ drop (length (concat cs)) (or_empty (F path))), None) \<and>
      returned (rv_sent s') = returned (rv_sent s) @ bs"
    if "list_all2 hands_over bs (files_of (up_trace w'))" for bs
    using file_store.transfer_received [OF posix_store [OF assms(12)] assms(15-17,13,14,10,11) handed_over [OF that [unfolded files]]]
    unfolding overwrite_start by blast
  moreover have "length (files_of (up_trace w')) = length ps + 2" by (simp add: files transfer_def)
  ultimately show ?thesis using up(1) by blast
qed

text \<open>A file of three bytes in two pieces that have been exchanged, with a frame for every packet of the radio.\<close>

definition bench_transfer :: "ground_message list" where
  "bench_transfer = map (\<lambda>pkt. bench_message\<lparr>gm_apid := FW_PACKET_FILE, gm_data := file_bytes pkt\<rparr>)
     (transfer [0x73] [0x64] [[1, 2], [3]] [(2, 2, [3]), (1, 0, [1, 2])])"

theorem ground_files_reach_the_disk_witness:
  "\<exists>r' w'. run_uplink (\<lambda>_ _. 0) (TcDeframer_new 0) (map (Radio \<circ> frame_of) bench_transfer) comms_ring (uplink_start comms_manager) = Some (r', w') \<and>
     (\<exists>s'. run_receiver (posix_interface (disk_kernel 0)) (map Packet_in (map (\<lambda>bs. \<lparr>buf_addr = 1, buf_size = length bs, buf_context = 0, buf_memory = bs\<rparr>)
         (files_of (up_trace w')))) (receiver_start 0 (-1, \<lparr>dk_files = Map.empty, dk_open = None\<rparr>)) = Some s' \<and>
       dk_files (snd (rv_world s')) [0x64] = Some [1, 2, 3])"
proof -
  let ?w = "uplink_start comms_manager" and ?steps = "map (Radio \<circ> frame_of) bench_transfer" and ?s = "receiver_start 0 (-1 :: int, \<lparr>dk_files = Map.empty, dk_open = None\<rparr>)"
  let ?ps = "[(2, 2, [3]), (1, 0, [1, 2])] :: (u32 \<times> u32 \<times> bytes) list" and ?cs = "[[1, 2], [3]] :: bytes list"
  let ?pkts = "transfer [0x73] [0x64] ?cs ?ps"
  have sizes: "\<forall>pkt \<in> set ?pkts. 0 < length (file_bytes pkt) \<and> length (file_bytes pkt) \<le> 20"
    by (simp add: transfer_def file_bytes_def file_packet_bytes_def StartPacket_initialize_def DataPacket_initialize_def EndPacket_initialize_def
        PathName_initialize_def string_length_def header_values_def path_values_def)
  have packets: "packets_of (map (Radio \<circ> frame_of) ms) = map frame_of ms" for ms by (induction ms) simp_all
  have "length (frame_of m) = length (gm_data m) + length (gm_padding m) + 13" for m by (simp add: frame_of_def)
  moreover have short: "\<forall>m \<in> set bench_transfer. 0 < length (gm_data m) \<and> length (gm_data m) \<le> 20 \<and> gm_padding m = []"
    using sizes by (simp add: bench_transfer_def bench_message_def)
  ultimately have frames: "\<forall>f \<in> set (map frame_of bench_transfer). 0 < length f \<and> length f \<le> frameAccumulatorSize"
    unfolding frameAccumulatorSize_def by (auto simp flip: length_greater_0_conv)
  have steps: "concat (packets_of ?steps) = concat (map frame_of bench_transfer)"
    "\<forall>p \<in> set (packets_of ?steps). 0 < length p \<and> length p \<le> frameAccumulatorSize"
    unfolding packets using frames by simp_all
  have "list_all (ground_ok (TcDeframer_new 0)) bench_transfer"
    using short by (auto simp: list_all_iff ground_ok_def) (auto simp: bench_transfer_def bench_message_def TcDeframer_new_def FW_PACKET_FILE_def)
  moreover have "length (filter (\<lambda>m. gm_apid m = FW_PACKET_FILE) bench_transfer) = 4" "gm_apid ` set bench_transfer = {FW_PACKET_FILE}"
    by (simp_all add: bench_transfer_def transfer_def)
  ultimately have takes: "uplink_takes (TcDeframer_new 0) {} bench_transfer ?w"
    using bench_setup(3) comms_spare(2) comms_manager_setup(3)
    by (simp add: uplink_takes_def uplink_start_def MAX_TRACKED_APIDS_def)
  have start: "m_spacecraftId (TcDeframer_new 0) = SpacecraftId" "up_trace ?w = []"
    by (simp_all add: TcDeframer_new_def uplink_start_def)
  have messages: "map gm_data (file_messages bench_transfer) = map file_bytes ?pkts"
    by (simp add: bench_transfer_def file_messages_def transfer_def)
  have cuts: "cuts_ok ?cs" "mset ?ps = mset (numbered ?cs)" "c_string (take 255 [0x64]) = [0x64]" "([0x64] :: bytes) \<in> UNIV"
    by (simp_all add: cuts_ok_def numbered_def upt_rec c_string_def)
  have rest: "at_rest (rv_component ?s)" "posix_good disk_view (rv_world ?s)" "posix_view disk_view (rv_world ?s) = (Map.empty, None)"
    by (simp_all add: receiver_start_def FileUplink_new_def Os_File_new_def at_rest_def posix_good_def posix_view_def disk_view_def INVALID_FILE_DESCRIPTOR_def)
  obtain r' w' where w': "run_uplink (\<lambda>_ _. 0) (TcDeframer_new 0) ?steps comms_ring ?w = Some (r', w')"
    "\<forall>bs. list_all2 hands_over bs (files_of (up_trace w')) \<longrightarrow> (\<exists>s'. run_receiver (posix_interface (disk_kernel 0)) (map Packet_in bs) ?s = Some s' \<and> at_rest (rv_component s') \<and>
       posix_view disk_view (rv_world s') = ([[0x64] \<mapsto> concat ?cs @ drop (length (concat ?cs)) []], None) \<and> returned (rv_sent s') = returned (rv_sent ?s) @ bs)"
    using ground_files_reach_the_disk [OF start(1) takes start(2) bench_setup(1) refl length_replicate steps messages cuts(1,2) disk_is_posix cuts(3,4) rest, of "\<lambda>_ _. 0" 0]
    unfolding or_empty_simps by blast
  let ?bs = "map (\<lambda>bs. \<lparr>buf_addr = 1, buf_size = length bs, buf_context = 0, buf_memory = bs\<rparr>) (files_of (up_trace w'))"
  have "list_all2 hands_over ?bs (files_of (up_trace w'))" by (simp add: list.rel_map list_all2_same hands_over_def buf_data_def)
  with w'(2) obtain s' where "run_receiver (posix_interface (disk_kernel 0)) (map Packet_in ?bs) ?s = Some s'"
    "posix_view disk_view (rv_world s') = ([[0x64] \<mapsto> [1, 2, 3]], None)" by fastforce
  then show ?thesis using w'(1) by (auto simp: posix_view_def disk_view_def prod_eq_iff)
qed

end
