(* ===== verification/File_Downlink.thy ===== *)
theory File_Downlink
  imports File_Packets Os_File Cmd_Dispatcher
begin

text \<open>
  The component \<^verbatim>\<open>Svc/FileDownlink\<close>, which sends files to the queue of outgoing messages, one packet at a time: each next packet
  goes out when the buffer of the one before comes back. Its queue of requests is an \<^verbatim>\<open>Os::Queue\<close> on which all messages have the same
  priority: a list that holds at most as many entries as it was created for.
\<close>

section \<open>Data\<close>

definition FILEDOWNLINK_COMMAND_FAILURES_DISABLED :: bool where "FILEDOWNLINK_COMMAND_FAILURES_DISABLED = True"
definition FILEDOWNLINK_INTERNAL_BUFFER_SIZE :: nat where "FILEDOWNLINK_INTERNAL_BUFFER_SIZE = FW_COM_BUFFER_MAX_SIZE"
definition FILE_ENTRY_FILENAME_LEN :: nat where "FILE_ENTRY_FILENAME_LEN = 101"

datatype DownlinkMode = DL_IDLE | DL_DOWNLINK | DL_CANCEL | DL_WAIT | DL_COOLDOWN
datatype CallerSource = FROM_COMMAND | FROM_PORT
datatype SendFileStatus = STATUS_OK | STATUS_ERROR | STATUS_INVALID | STATUS_BUSY
datatype BufferType = FILE_PACKET | CANCEL_PACKET

record FileEntry =
  fe_srcFilename :: bytes
  fe_destFilename :: bytes
  fe_offset :: u32
  fe_length :: u32
  fe_source :: CallerSource
  fe_opCode :: u32
  fe_cmdSeq :: u32
  fe_context :: u32

datatype downlink_event =
    DownlinkFileOpenError bytes
  | FileReadError bytes file_status
  | FileSent bytes bytes
  | DownlinkCanceled bytes bytes
  | DownlinkTimeout bytes bytes
  | DownlinkPartialWarning u32 u32 u32 bytes bytes
  | DownlinkPartialFail bytes bytes u32 u32
  | SendDataFail bytes u32
  | SendStarted u32 bytes bytes

text \<open>
  The buffer \<open>dn_buffer\<close> points to the first of the two memories of the component, whose addresses are parameters; its own field for the
  memory is a view of it.
\<close>

record FileDownlink =
  dn_configured :: bool
  dn_queue :: "FileEntry list"
  dn_depth :: nat
  dn_memoryStore :: "BufferType \<Rightarrow> bytes"
  dn_address :: "BufferType \<Rightarrow> nat"
  dn_mode :: DownlinkMode
  dn_sourceName :: bytes
  dn_destName :: bytes
  dn_osFile :: Os_File
  dn_size :: u32
  dn_checksum :: u32
  dn_sent_file_count :: u32
  dn_sent_packet_count :: u32
  dn_warning_count :: u32
  dn_sequenceIndex :: u32
  dn_timeout :: u32
  dn_cooldown :: u32
  dn_curTimer :: u32
  dn_cycleTime :: u32
  dn_buffer :: Fw_Buffer
  dn_byteOffset :: u32
  dn_endOffset :: u32
  dn_lastCompletedType :: u8
  dn_lastBufferId :: u32
  dn_curEntry :: FileEntry
  dn_cntxId :: u32

definition FileEntry_zero :: FileEntry where
  "FileEntry_zero = \<lparr>fe_srcFilename = [], fe_destFilename = [], fe_offset = 0, fe_length = 0, fe_source = FROM_COMMAND, fe_opCode = 0, fe_cmdSeq = 0,
     fe_context = 0\<rparr>"

text \<open>The times are set by \<^verbatim>\<open>configure\<close>, without which the component does not start.\<close>

definition FileDownlink_new :: "(BufferType \<Rightarrow> nat) \<Rightarrow> (BufferType \<Rightarrow> bytes) \<Rightarrow> u32 \<Rightarrow> FileDownlink" where
  "FileDownlink_new address garbage time = \<lparr>dn_configured = False, dn_queue = [], dn_depth = 0, dn_memoryStore = garbage, dn_address = address,
     dn_mode = DL_IDLE, dn_sourceName = [], dn_destName = [], dn_osFile = Os_File_new, dn_size = 0, dn_checksum = 0,
     dn_sent_file_count = 0, dn_sent_packet_count = 0, dn_warning_count = 0, dn_sequenceIndex = 0, dn_timeout = time, dn_cooldown = time,
     dn_curTimer = 0, dn_cycleTime = time, dn_buffer = Fw_Buffer_empty, dn_byteOffset = 0, dn_endOffset = 0, dn_lastCompletedType = T_NONE,
     dn_lastBufferId = 0, dn_curEntry = FileEntry_zero, dn_cntxId = 0\<rparr>"

definition FileDownlink_configure :: "u32 \<Rightarrow> u32 \<Rightarrow> u32 \<Rightarrow> nat \<Rightarrow> FileDownlink \<Rightarrow> FileDownlink" where
  "FileDownlink_configure timeout cooldown cycleTime fileQueueDepth c = c\<lparr>dn_timeout := timeout, dn_cooldown := cooldown, dn_cycleTime := cycleTime,
     dn_configured := True, dn_queue := [], dn_depth := fileQueueDepth\<rparr>"

definition FileDownlink_preamble :: "FileDownlink \<Rightarrow> FileDownlink option" where
  "FileDownlink_preamble c = do { FW_ASSERT (dn_configured c); Some c }"

datatype downlink_output =
    Down_log downlink_event
  | FilesSent u32
  | PacketsSent u32
  | DownlinkWarnings u32
  | Down_buffer Fw_Buffer
  | Down_response u32 u32 CmdResponse
  | FileComplete nat SendFileStatus u32
  | SendFile_answer SendFileStatus u32
  | Down_ping u32

record 'w file_sender =
  sn_component :: FileDownlink
  sn_world :: 'w
  sn_sent :: "downlink_output list"

definition sn_set :: "(FileDownlink \<Rightarrow> FileDownlink) \<Rightarrow> 'w file_sender \<Rightarrow> 'w file_sender" where
  "sn_set f s = s\<lparr>sn_component := f (sn_component s)\<rparr>"

definition sn_send :: "downlink_output \<Rightarrow> 'w file_sender \<Rightarrow> 'w file_sender" where
  "sn_send x s = s\<lparr>sn_sent := sn_sent s @ [x]\<rparr>"

definition sender_start :: "FileDownlink \<Rightarrow> 'w \<Rightarrow> 'w file_sender" where
  "sender_start c w = \<lparr>sn_component = c, sn_world = w, sn_sent = []\<rparr>"

definition fileSent :: "'w file_sender \<Rightarrow> 'w file_sender" where
  "fileSent s = (let n = dn_sent_file_count (sn_component s) + 1 in sn_send (FilesSent n) (sn_set (\<lambda>c. c\<lparr>dn_sent_file_count := n\<rparr>) s))"

definition packetSent :: "'w file_sender \<Rightarrow> 'w file_sender" where
  "packetSent s = (let n = dn_sent_packet_count (sn_component s) + 1 in sn_send (PacketsSent n) (sn_set (\<lambda>c. c\<lparr>dn_sent_packet_count := n\<rparr>) s))"

definition downlink_warn :: "downlink_event \<Rightarrow> 'w file_sender \<Rightarrow> 'w file_sender" where
  "downlink_warn e s = (let n = dn_warning_count (sn_component s) + 1 in
     sn_send (DownlinkWarnings n) (sn_set (\<lambda>c. c\<lparr>dn_warning_count := n\<rparr>) (sn_send (Down_log e) s)))"

section \<open>The outgoing file\<close>

datatype FileSystem_status =
    FS_OP_OK | FS_ALREADY_EXISTS | FS_NO_SPACE | FS_NO_PERMISSION | FS_NOT_DIR | FS_IS_DIR | FS_NOT_EMPTY | FS_INVALID_PATH | FS_DOESNT_EXIST
  | FS_FILE_LIMIT | FS_BUSY | FS_NO_MORE_FILES | FS_BUFFER_TOO_SMALL | FS_EXDEV_ERROR | FS_OVERFLOW_ERROR | FS_NOT_SUPPORTED | FS_OTHER_ERROR

definition handleFileError :: "file_status \<Rightarrow> FileSystem_status" where
  "handleFileError fileStatus = (case fileStatus of
       NO_SPACE \<Rightarrow> FS_NO_SPACE | NO_PERMISSION \<Rightarrow> FS_NO_PERMISSION | DOESNT_EXIST \<Rightarrow> FS_DOESNT_EXIST | _ \<Rightarrow> FS_OTHER_ERROR)"

text \<open>
  \<^verbatim>\<open>Os::FileSystem::getFileSize\<close> opens the file with an \<^verbatim>\<open>Os::File\<close> of its own and closes it in the destructor. The sender calls it while
  the component's own file is closed, so that the other one stands in its place in the world.
\<close>

definition getFileSize :: "'w file_interface \<Rightarrow> bytes \<Rightarrow> 'w \<Rightarrow> (FileSystem_status \<times> nat \<times> 'w) option" where
  "getFileSize d path w = do {
     (status, f, w) \<leftarrow> file_open d path OPEN_READ NO_OVERWRITE Os_File_new w;
     if status \<noteq> OP_OK then Some (handleFileError status, 0, w)
     else do {
       (status, n, w) \<leftarrow> file_size d f 0 w;
       (_, w) \<leftarrow> file_close d f w;
       Some (if status \<noteq> OP_OK then handleFileError status else FS_OP_OK, n, w)
     }
   }"

definition Outgoing_open :: "'w file_interface \<Rightarrow> bytes \<Rightarrow> bytes \<Rightarrow> 'w file_sender \<Rightarrow> (file_status \<times> 'w file_sender) option" where
  "Outgoing_open d sourceFileName destFileName s = do {
     let s = sn_set (\<lambda>c. c\<lparr>dn_sourceName := take FW_LOG_STRING_MAX_SIZE sourceFileName, dn_destName := take FW_LOG_STRING_MAX_SIZE destFileName\<rparr>) s;
     (status, file_size, w) \<leftarrow> getFileSize d sourceFileName (sn_world s);
     let s = s\<lparr>sn_world := w\<rparr>;
     if status \<noteq> FS_OP_OK then Some (BAD_SIZE, s)
     else if unat (of_nat file_size :: u32) \<noteq> file_size then Some (BAD_SIZE, s)
     else do {
       let s = sn_set (\<lambda>c. c\<lparr>dn_size := of_nat file_size, dn_checksum := 0\<rparr>) s;
       (status, f, w) \<leftarrow> file_open d sourceFileName OPEN_READ NO_OVERWRITE (dn_osFile (sn_component s)) w;
       Some (status, (sn_set (\<lambda>c. c\<lparr>dn_osFile := f\<rparr>) s)\<lparr>sn_world := w\<rparr>)
     }
   }"

text \<open>The bytes that were read, and with them the status.\<close>

definition Outgoing_read :: "'w file_interface \<Rightarrow> u32 \<Rightarrow> u32 \<Rightarrow> 'w file_sender \<Rightarrow> (file_status \<times> bytes \<times> 'w file_sender) option" where
  "Outgoing_read d byteOffset len s = do {
     let f = dn_osFile (sn_component s);
     (status, w) \<leftarrow> file_seek d f (uint byteOffset) ABSOLUTE (sn_world s);
     let s = s\<lparr>sn_world := w\<rparr>;
     if status \<noteq> OP_OK then Some (status, [], s)
     else do {
       (status, data, w) \<leftarrow> file_read d f (unat len) WAIT w;
       let s = s\<lparr>sn_world := w\<rparr>;
       if status \<noteq> OP_OK then Some (status, data, s)
       else if of_nat (length data) \<noteq> len then Some (BAD_SIZE, data, s)
       else do {
         checksum \<leftarrow> Checksum_update data byteOffset (dn_checksum (sn_component s));
         Some (OP_OK, data, sn_set (\<lambda>c. c\<lparr>dn_checksum := checksum\<rparr>) s)
       }
     }
   }"

section \<open>Packets\<close>

definition maxDataSize :: u32 where
  "maxDataSize = of_nat (FILEDOWNLINK_INTERNAL_BUFFER_SIZE - 11 - 2)"

definition getBuffer :: "BufferType \<Rightarrow> FileDownlink \<Rightarrow> Fw_Buffer \<times> FileDownlink" where
  "getBuffer type c = (\<lparr>buf_addr = dn_address c type, buf_size = FILEDOWNLINK_INTERNAL_BUFFER_SIZE, buf_context = dn_lastBufferId c,
     buf_memory = dn_memoryStore c type\<rparr>, c\<lparr>dn_lastBufferId := dn_lastBufferId c + 1\<rparr>)"

text \<open>The memory of a buffer after the type and the packet have been written into it.\<close>

definition packet_into :: "FilePacket \<Rightarrow> Fw_Buffer \<Rightarrow> bytes option" where
  "packet_into pkt b = do {
     let (status, s) = serialize_U16 BIG FW_PACKET_FILE (getSerializer b);
     FW_ASSERT (status = FW_SERIALIZE_OK);
     (status, p) \<leftarrow> FilePacket_toBuffer pkt (drop 2 (lb_mem s));
     FW_ASSERT (status = FW_SERIALIZE_OK);
     Some (take 2 (lb_mem s) @ lb_mem p @ drop (buf_size b) (buf_memory b))
   }"

definition sendFilePacket :: "FilePacket \<Rightarrow> 'w file_sender \<Rightarrow> 'w file_sender option" where
  "sendFilePacket pkt s = do {
     let b = dn_buffer (sn_component s);
     let bufferSize = FilePacket_bufferSize pkt + 2;
     FW_ASSERT (buf_addr b \<noteq> 0);
     FW_ASSERT (bufferSize \<le> buf_size b);
     mem \<leftarrow> packet_into pkt b;
     let s = sn_set (\<lambda>c. c\<lparr>dn_memoryStore := (dn_memoryStore c)(FILE_PACKET := mem)\<rparr>) s;
     let s = sn_send (Down_buffer (b\<lparr>buf_memory := mem, buf_size := bufferSize\<rparr>)) s;
     Some (packetSent (sn_set (\<lambda>c. c\<lparr>dn_buffer := b\<lparr>buf_memory := mem, buf_size := FILEDOWNLINK_INTERNAL_BUFFER_SIZE\<rparr>\<rparr>) s))
   }"

definition sendStartPacket :: "'w file_sender \<Rightarrow> 'w file_sender option" where
  "sendStartPacket s = (let c = sn_component s in sendFilePacket (StartPacket_initialize (dn_size c) (dn_sourceName c) (dn_destName c)) s)"

definition sendEndPacket :: "'w file_sender \<Rightarrow> 'w file_sender option" where
  "sendEndPacket s = (let c = sn_component s in sendFilePacket (EndPacket_initialize (dn_sequenceIndex c) (dn_checksum c)) s)"

definition sendCancelPacket :: "'w file_sender \<Rightarrow> 'w file_sender option" where
  "sendCancelPacket s = do {
     let pkt = CancelPacket_initialize (dn_sequenceIndex (sn_component s));
     let (b, c) = getBuffer CANCEL_PACKET (sn_component s);
     FW_ASSERT (FilePacket_bufferSize pkt + 2 \<le> buf_size b);
     mem \<leftarrow> packet_into pkt b;
     let s = s\<lparr>sn_component := c\<lparr>dn_memoryStore := (dn_memoryStore c)(CANCEL_PACKET := mem)\<rparr>\<rparr>;
     Some (packetSent (sn_send (Down_buffer (b\<lparr>buf_memory := mem\<rparr>)) s))
   }"

definition sendDataPacket :: "'w file_interface \<Rightarrow> 'w file_sender \<Rightarrow> (file_status \<times> 'w file_sender) option" where
  "sendDataPacket d s = do {
     let byteOffset = dn_byteOffset (sn_component s);
     let endOffset = dn_endOffset (sn_component s);
     FW_ASSERT (byteOffset < endOffset);
     let dataSize = (if byteOffset + maxDataSize > endOffset then endOffset - byteOffset else maxDataSize);
     let s = (if dataSize + byteOffset = endOffset then sn_set (\<lambda>c. c\<lparr>dn_lastCompletedType := T_DATA\<rparr>) s else s);
     (status, data, s) \<leftarrow> Outgoing_read d byteOffset dataSize s;
     if status \<noteq> OP_OK then Some (status, downlink_warn (FileReadError (dn_sourceName (sn_component s)) status) s)
     else do {
       let pkt = DataPacket_initialize (dn_sequenceIndex (sn_component s)) byteOffset (ucast dataSize) data;
       let s = sn_set (\<lambda>c. c\<lparr>dn_sequenceIndex := dn_sequenceIndex c + 1\<rparr>) s;
       s \<leftarrow> sendFilePacket pkt s;
       Some (OP_OK, sn_set (\<lambda>c. c\<lparr>dn_byteOffset := byteOffset + dataSize\<rparr>) s)
     }
   }"

section \<open>Handlers\<close>

text \<open>The ports for completed files that are connected are the parameter \<open>ports\<close>.\<close>

definition statusToCmdResp :: "SendFileStatus \<Rightarrow> CmdResponse" where
  "statusToCmdResp status = (case status of STATUS_OK \<Rightarrow> CMD_OK | STATUS_ERROR \<Rightarrow> EXECUTION_ERROR | STATUS_INVALID \<Rightarrow> VALIDATION_ERROR | STATUS_BUSY \<Rightarrow> CMD_BUSY)"

definition sendResponse :: "nat list \<Rightarrow> SendFileStatus \<Rightarrow> 'w file_sender \<Rightarrow> 'w file_sender" where
  "sendResponse ports resp s = (let e = dn_curEntry (sn_component s) in
     if fe_source e = FROM_COMMAND then sn_send (Down_response (fe_opCode e) (fe_cmdSeq e) (statusToCmdResp resp)) s
     else fold (\<lambda>i. sn_send (FileComplete i resp (fe_context e))) ports s)"

definition enterCooldown :: "'w file_interface \<Rightarrow> 'w file_sender \<Rightarrow> 'w file_sender option" where
  "enterCooldown d s = do {
     (f, w) \<leftarrow> file_close d (dn_osFile (sn_component s)) (sn_world s);
     Some ((sn_set (\<lambda>c. c\<lparr>dn_osFile := f, dn_mode := DL_COOLDOWN, dn_lastCompletedType := T_NONE, dn_curTimer := 0\<rparr>) s)\<lparr>sn_world := w\<rparr>)
   }"

definition unless_disabled :: "SendFileStatus \<Rightarrow> SendFileStatus" where
  "unless_disabled status = (if FILEDOWNLINK_COMMAND_FAILURES_DISABLED then STATUS_OK else status)"

definition sendFile :: "'w file_interface \<Rightarrow> nat list \<Rightarrow> bytes \<Rightarrow> bytes \<Rightarrow> u32 \<Rightarrow> u32 \<Rightarrow> 'w file_sender \<Rightarrow> 'w file_sender option" where
  "sendFile d ports sourceFilename destFilename startOffset len s = do {
     (status, s) \<leftarrow> Outgoing_open d sourceFilename destFilename s;
     let src = dn_sourceName (sn_component s);
     let dst = dn_destName (sn_component s);
     let n = dn_size (sn_component s);
     if status \<noteq> OP_OK then
       Some (sendResponse ports (unless_disabled STATUS_ERROR)
         (downlink_warn (DownlinkFileOpenError src) (sn_set (\<lambda>c. c\<lparr>dn_mode := DL_IDLE\<rparr>) s)))
     else if startOffset \<ge> n then do {
       s \<leftarrow> enterCooldown d s;
       Some (sendResponse ports (unless_disabled STATUS_INVALID) (sn_send (Down_log (DownlinkPartialFail src dst startOffset n)) s))
     }
     else do {
       let (len, s) = (if startOffset + len > n
         then (n - startOffset, sn_send (Down_log (DownlinkPartialWarning startOffset len n src dst)) s) else (len, s));
       let (b, c) = getBuffer FILE_PACKET (sn_component s);
       s \<leftarrow> sendStartPacket (s\<lparr>sn_component := c\<lparr>dn_buffer := b\<rparr>\<rparr>);
       let s = sn_set (\<lambda>c. c\<lparr>dn_mode := DL_WAIT, dn_sequenceIndex := 1, dn_curTimer := 0, dn_byteOffset := startOffset, dn_lastCompletedType := T_START\<rparr>) s;
       Some (if len > 0
         then sn_set (\<lambda>c. c\<lparr>dn_endOffset := startOffset + len\<rparr>) (sn_send (Down_log (SendStarted len src dst)) s)
         else sn_set (\<lambda>c. c\<lparr>dn_endOffset := n\<rparr>) (sn_send (Down_log (SendStarted (n - startOffset) src dst)) s))
     }
   }"

definition finishHelper :: "'w file_interface \<Rightarrow> nat list \<Rightarrow> bool \<Rightarrow> 'w file_sender \<Rightarrow> 'w file_sender option" where
  "finishHelper d ports cancel s = do {
     let src = dn_sourceName (sn_component s);
     let dst = dn_destName (sn_component s);
     let s = (if \<not> cancel then sn_send (Down_log (FileSent src dst)) (fileSent s) else sn_send (Down_log (DownlinkCanceled src dst)) s);
     s \<leftarrow> enterCooldown d s;
     Some (sendResponse ports STATUS_OK s)
   }"

definition waits_again :: "'w file_sender \<Rightarrow> 'w file_sender" where
  "waits_again = sn_set (\<lambda>c. c\<lparr>dn_mode := DL_WAIT, dn_curTimer := 0\<rparr>)"

definition downlinkPacket :: "'w file_interface \<Rightarrow> nat list \<Rightarrow> 'w file_sender \<Rightarrow> 'w file_sender option" where
  "downlinkPacket d ports s = do {
     let c = sn_component s;
     FW_ASSERT (dn_lastCompletedType c \<noteq> T_NONE);
     FW_ASSERT (dn_mode c = DL_CANCEL \<or> dn_mode c = DL_DOWNLINK);
     if dn_mode c = DL_CANCEL \<and> dn_lastCompletedType c = T_START then
       map_option (\<lambda>s. waits_again (sn_set (\<lambda>c. c\<lparr>dn_lastCompletedType := T_CANCEL\<rparr>) s)) (sendCancelPacket s)
     else if dn_mode c = DL_DOWNLINK \<and> dn_lastCompletedType c = T_START then do {
       (status, s) \<leftarrow> sendDataPacket d s;
       if status \<noteq> OP_OK then do {
         s \<leftarrow> enterCooldown d (sn_send (Down_log (SendDataFail (dn_sourceName (sn_component s)) (dn_byteOffset (sn_component s)))) s);
         Some (sendResponse ports (unless_disabled STATUS_ERROR) s)
       }
       else Some (waits_again s)
     }
     else if dn_lastCompletedType c = T_DATA then
       map_option (\<lambda>s. waits_again (sn_set (\<lambda>c. c\<lparr>dn_lastCompletedType := T_END\<rparr>) s)) (sendEndPacket s)
     else Some (waits_again s)
   }"

definition FileDownlink_bufferReturn :: "'w file_interface \<Rightarrow> nat list \<Rightarrow> Fw_Buffer \<Rightarrow> 'w file_sender \<Rightarrow> 'w file_sender option" where
  "FileDownlink_bufferReturn d ports fwBuffer s = do {
     let c = sn_component s;
     if dn_lastBufferId c \<noteq> buf_context fwBuffer + 1 \<or> dn_mode c = DL_IDLE then Some s
     else do {
       FW_ASSERT (dn_mode c = DL_WAIT \<or> dn_mode c = DL_CANCEL);
       if dn_lastCompletedType c = T_END \<or> dn_lastCompletedType c = T_CANCEL then finishHelper d ports (dn_lastCompletedType c = T_CANCEL) s
       else downlinkPacket d ports (if dn_mode c = DL_WAIT then sn_set (\<lambda>c. c\<lparr>dn_mode := DL_DOWNLINK\<rparr>) s else s)
     }
   }"

definition FileDownlink_run :: "'w file_interface \<Rightarrow> nat list \<Rightarrow> 'w file_sender \<Rightarrow> 'w file_sender option" where
  "FileDownlink_run d ports s = (let c = sn_component s in case dn_mode c of
       DL_IDLE \<Rightarrow> (case dn_queue c of [] \<Rightarrow> Some s
         | e # rest \<Rightarrow> sendFile d ports (fe_srcFilename e) (fe_destFilename e) (fe_offset e) (fe_length e)
             (sn_set (\<lambda>c. c\<lparr>dn_queue := rest, dn_curEntry := e\<rparr>) s))
     | DL_COOLDOWN \<Rightarrow> Some (sn_set (\<lambda>c. if dn_curTimer c \<ge> dn_cooldown c then c\<lparr>dn_curTimer := 0, dn_mode := DL_IDLE\<rparr>
           else c\<lparr>dn_curTimer := dn_curTimer c + dn_cycleTime c\<rparr>) s)
     | DL_WAIT \<Rightarrow>
         if dn_curTimer c \<ge> dn_timeout c then do {
           s \<leftarrow> enterCooldown d (sn_send (Down_log (DownlinkTimeout (dn_sourceName c) (dn_destName c))) (sn_set (\<lambda>c. c\<lparr>dn_curTimer := 0\<rparr>) s));
           Some (sendResponse ports (unless_disabled STATUS_ERROR) s)
         }
         else Some (sn_set (\<lambda>c. c\<lparr>dn_curTimer := dn_curTimer c + dn_cycleTime c\<rparr>) s)
     | _ \<Rightarrow> Some s)"

text \<open>The request is put into the queue, if it has room.\<close>

definition enqueue_entry :: "FileEntry \<Rightarrow> FileDownlink \<Rightarrow> bool \<times> FileDownlink" where
  "enqueue_entry e c = (if length (dn_queue c) < dn_depth c then (True, c\<lparr>dn_queue := dn_queue c @ [e]\<rparr>) else (False, c))"

definition new_entry :: "bytes \<Rightarrow> bytes \<Rightarrow> u32 \<Rightarrow> u32 \<Rightarrow> CallerSource \<Rightarrow> u32 \<Rightarrow> u32 \<Rightarrow> u32 \<Rightarrow> FileEntry option" where
  "new_entry sourceFilename destFilename offset len source opCode cmdSeq context = do {
     FW_ASSERT (length (c_string sourceFilename) < FILE_ENTRY_FILENAME_LEN);
     FW_ASSERT (length (c_string destFilename) < FILE_ENTRY_FILENAME_LEN);
     Some \<lparr>fe_srcFilename = c_string sourceFilename, fe_destFilename = c_string destFilename, fe_offset = offset, fe_length = len,
       fe_source = source, fe_opCode = opCode, fe_cmdSeq = cmdSeq, fe_context = context\<rparr>
   }"

definition FileDownlink_SendFile :: "bytes \<Rightarrow> bytes \<Rightarrow> u32 \<Rightarrow> u32 \<Rightarrow> 'w file_sender \<Rightarrow> 'w file_sender option" where
  "FileDownlink_SendFile sourceFilename destFilename offset len s = do {
     let context = dn_cntxId (sn_component s);
     e \<leftarrow> new_entry sourceFilename destFilename offset len FROM_PORT 0 0 context;
     let (sent, c) = enqueue_entry e ((sn_component s)\<lparr>dn_cntxId := context + 1\<rparr>);
     Some (sn_send (if sent then SendFile_answer STATUS_OK context else SendFile_answer STATUS_ERROR 0xFFFFFFFF) (s\<lparr>sn_component := c\<rparr>))
   }"

definition SendPartial_cmdHandler :: "u32 \<Rightarrow> u32 \<Rightarrow> bytes \<Rightarrow> bytes \<Rightarrow> u32 \<Rightarrow> u32 \<Rightarrow> 'w file_sender \<Rightarrow> 'w file_sender option" where
  "SendPartial_cmdHandler opCode cmdSeq sourceFilename destFilename startOffset len s = do {
     e \<leftarrow> new_entry sourceFilename destFilename startOffset len FROM_COMMAND opCode cmdSeq 0xFFFFFFFF;
     let (sent, c) = enqueue_entry e (sn_component s);
     let s = s\<lparr>sn_component := c\<rparr>;
     Some (if sent then s else sn_send (Down_response opCode cmdSeq EXECUTION_ERROR) s)
   }"

definition SendFile_cmdHandler :: "u32 \<Rightarrow> u32 \<Rightarrow> bytes \<Rightarrow> bytes \<Rightarrow> 'w file_sender \<Rightarrow> 'w file_sender option" where
  "SendFile_cmdHandler opCode cmdSeq sourceFilename destFilename = SendPartial_cmdHandler opCode cmdSeq sourceFilename destFilename 0 0"

definition Cancel_cmdHandler :: "u32 \<Rightarrow> u32 \<Rightarrow> 'w file_sender \<Rightarrow> 'w file_sender" where
  "Cancel_cmdHandler opCode cmdSeq s = sn_send (Down_response opCode cmdSeq CMD_OK)
     (sn_set (\<lambda>c. if dn_mode c = DL_DOWNLINK \<or> dn_mode c = DL_WAIT then c\<lparr>dn_mode := DL_CANCEL\<rparr> else c) s)"

definition FileDownlink_pingIn :: "u32 \<Rightarrow> 'w file_sender \<Rightarrow> 'w file_sender" where
  "FileDownlink_pingIn key = sn_send (Down_ping key)"

datatype sender_call =
    Down_run
  | Down_request bytes bytes u32 u32
  | Buffer_back Fw_Buffer
  | Down_pinged u32
  | Cmd_SendFile u32 u32 bytes bytes
  | Cmd_SendPartial u32 u32 bytes bytes u32 u32
  | Cmd_Cancel u32 u32

primrec sender_step :: "'w file_interface \<Rightarrow> nat list \<Rightarrow> sender_call \<Rightarrow> 'w file_sender \<Rightarrow> 'w file_sender option" where
  "sender_step d ports Down_run s = FileDownlink_run d ports s"
| "sender_step d ports (Down_request src dst offset len) s = FileDownlink_SendFile src dst offset len s"
| "sender_step d ports (Buffer_back b) s = FileDownlink_bufferReturn d ports b s"
| "sender_step d ports (Down_pinged key) s = Some (FileDownlink_pingIn key s)"
| "sender_step d ports (Cmd_SendFile opCode cmdSeq src dst) s = SendFile_cmdHandler opCode cmdSeq src dst s"
| "sender_step d ports (Cmd_SendPartial opCode cmdSeq src dst offset len) s = SendPartial_cmdHandler opCode cmdSeq src dst offset len s"
| "sender_step d ports (Cmd_Cancel opCode cmdSeq) s = Some (Cancel_cmdHandler opCode cmdSeq s)"

fun run_sender :: "'w file_interface \<Rightarrow> nat list \<Rightarrow> sender_call list \<Rightarrow> 'w file_sender \<Rightarrow> 'w file_sender option" where
  "run_sender d ports [] s = Some s"
| "run_sender d ports (x # xs) s = do { s \<leftarrow> sender_step d ports x s; run_sender d ports xs s }"

section \<open>What goes out\<close>

lemma sn_simps [simp]:
  "sn_component (sn_send x s) = sn_component s" "sn_world (sn_send x s) = sn_world s" "sn_sent (sn_send x s) = sn_sent s @ [x]"
  "sn_component (sn_set f s) = f (sn_component s)" "sn_world (sn_set f s) = sn_world s" "sn_sent (sn_set f s) = sn_sent s"
  by (simp_all add: sn_send_def sn_set_def)

text \<open>The buffers, the events and the commands that are answered.\<close>

fun buffers_out :: "downlink_output list \<Rightarrow> Fw_Buffer list" where
  "buffers_out [] = []"
| "buffers_out (Down_buffer b # out) = b # buffers_out out"
| "buffers_out (_ # out) = buffers_out out"

fun downlink_events :: "downlink_output list \<Rightarrow> downlink_event list" where
  "downlink_events [] = []"
| "downlink_events (Down_log e # out) = e # downlink_events out"
| "downlink_events (_ # out) = downlink_events out"

fun responses :: "downlink_output list \<Rightarrow> (u32 \<times> u32 \<times> CmdResponse) list" where
  "responses [] = []"
| "responses (Down_response opCode cmdSeq r # out) = (opCode, cmdSeq, r) # responses out"
| "responses (_ # out) = responses out"

lemma out_append [simp]:
  "buffers_out (out @ out') = buffers_out out @ buffers_out out'" "downlink_events (out @ out') = downlink_events out @ downlink_events out'"
  "responses (out @ out') = responses out @ responses out'"
proof -
  show "buffers_out (out @ out') = buffers_out out @ buffers_out out'" by (induction out rule: buffers_out.induct) simp_all
  show "downlink_events (out @ out') = downlink_events out @ downlink_events out'" by (induction out rule: downlink_events.induct) simp_all
  show "responses (out @ out') = responses out @ responses out'" by (induction out rule: responses.induct) simp_all
qed

lemma sent_counters [simp]:
  "sn_world (packetSent s) = sn_world s" "sn_world (fileSent s) = sn_world s" "sn_world (downlink_warn e s) = sn_world s"
  "responses (sn_sent (packetSent s)) = responses (sn_sent s)" "responses (sn_sent (fileSent s)) = responses (sn_sent s)"
  "responses (sn_sent (downlink_warn e s)) = responses (sn_sent s)"
  by (simp_all add: packetSent_def fileSent_def downlink_warn_def Let_def)

section \<open>A packet in the buffer\<close>

lemma packet_written_into:
  assumes "file_packet_ok pkt" "FilePacket_bufferSize pkt + 2 \<le> buf_size b" "buf_size b \<le> length (buf_memory b)" "buf_addr b \<noteq> 0"
  shows "packet_into pkt b = Some (file_bytes pkt @ drop (FilePacket_bufferSize pkt + 2) (buf_memory b))"
proof -
  let ?n = "FilePacket_bufferSize pkt" and ?mem = "buf_data b"
  have valid: "isValid b" using assms(2,4) by (simp add: isValid_def)
  have size: "length ?mem = buf_size b" using assms(3) by (simp add: buf_data_def)
  let ?s = "\<lparr>lb_mem = U16_bytes BIG FW_PACKET_FILE @ drop 2 ?mem, m_serLoc = 2, m_deserLoc = 0\<rparr>"
  have first: "serialize_U16 BIG FW_PACKET_FILE (getSerializer b) = (FW_SERIALIZE_OK, ?s)"
    using valid size assms(2) by (simp add: getSerializer_def serialize_U16_def put_bytes_def getCapacity_def store_bytes_def numeral_2_eq_2)
  have len: "length (file_packet_bytes pkt) = ?n" by (rule length_file_packet_bytes [OF assms(1)])
  let ?t = "\<lparr>lb_mem = drop 2 ?mem, m_serLoc = 0, m_deserLoc = 0\<rparr>"
  have "put_values (in_order (packet_values pkt)) ?t = (FW_SERIALIZE_OK, store_bytes (file_packet_bytes pkt) ?t)"
    using put_values_fits [of "in_order (packet_values pkt)" ?t] packet_values_ok [OF assms(1)] len assms(2) size
    by (simp add: file_packet_bytes_def)
  then have second: "FilePacket_toBuffer pkt (drop 2 ?mem) = Some (FW_SERIALIZE_OK, store_bytes (file_packet_bytes pkt) ?t)"
    using packet_written [OF assms(1), of ?t] by (simp add: FilePacket_toBuffer_def)
  have rest: "drop (?n + 2) ?mem @ drop (buf_size b) (buf_memory b) = drop (?n + 2) (buf_memory b)"
    using assms(2) size by (metis append_take_drop_id buf_data_def drop_append diff_is_0_eq drop0)
  show ?thesis
    using first second len rest by (simp add: packet_into_def store_bytes_def file_bytes_def add.commute)
qed

text \<open>The buffer of the component is at hand, whole and with the identifier that it was given last.\<close>

definition buffer_ready :: "FileDownlink \<Rightarrow> bool" where
  "buffer_ready c \<longleftrightarrow> buf_addr (dn_buffer c) \<noteq> 0 \<and> buf_size (dn_buffer c) = FILEDOWNLINK_INTERNAL_BUFFER_SIZE \<and>
     length (buf_memory (dn_buffer c)) = FILEDOWNLINK_INTERNAL_BUFFER_SIZE \<and> buf_context (dn_buffer c) + 1 = dn_lastBufferId c"

definition with_packet :: "FilePacket \<Rightarrow> FileDownlink \<Rightarrow> FileDownlink" where
  "with_packet pkt c = (let mem = file_bytes pkt @ drop (FilePacket_bufferSize pkt + 2) (buf_memory (dn_buffer c)) in
     c\<lparr>dn_memoryStore := (dn_memoryStore c)(FILE_PACKET := mem), dn_buffer := (dn_buffer c)\<lparr>buf_memory := mem\<rparr>,
       dn_sent_packet_count := dn_sent_packet_count c + 1\<rparr>)"

lemma length_file_bytes: "file_packet_ok pkt \<Longrightarrow> length (file_bytes pkt) = FilePacket_bufferSize pkt + 2"
  by (simp add: file_bytes_def length_file_packet_bytes)

lemma packet_sent:
  assumes "buffer_ready (sn_component s)" "file_packet_ok pkt" "FilePacket_bufferSize pkt + 2 \<le> FILEDOWNLINK_INTERNAL_BUFFER_SIZE"
  shows "\<exists>s'. sendFilePacket pkt s = Some s' \<and> sn_component s' = with_packet pkt (sn_component s) \<and> sn_world s' = sn_world s \<and>
    map buf_data (buffers_out (sn_sent s')) = map buf_data (buffers_out (sn_sent s)) @ [file_bytes pkt] \<and>
    downlink_events (sn_sent s') = downlink_events (sn_sent s) \<and> responses (sn_sent s') = responses (sn_sent s)"
proof -
  let ?c = "sn_component s"
  have "packet_into pkt (dn_buffer ?c) = Some (file_bytes pkt @ drop (FilePacket_bufferSize pkt + 2) (buf_memory (dn_buffer ?c)))"
    using assms by (intro packet_written_into) (simp_all add: buffer_ready_def)
  with assms show ?thesis
    by (simp add: sendFilePacket_def packetSent_def with_packet_def buffer_ready_def buf_data_def length_file_bytes Let_def)
qed

lemma with_packet_simps [simp]:
  "dn_mode (with_packet pkt c) = dn_mode c" "dn_osFile (with_packet pkt c) = dn_osFile c" "dn_sequenceIndex (with_packet pkt c) = dn_sequenceIndex c"
  "dn_byteOffset (with_packet pkt c) = dn_byteOffset c" "dn_endOffset (with_packet pkt c) = dn_endOffset c" "dn_checksum (with_packet pkt c) = dn_checksum c"
  "dn_sourceName (with_packet pkt c) = dn_sourceName c" "dn_destName (with_packet pkt c) = dn_destName c" "dn_size (with_packet pkt c) = dn_size c"
  "dn_lastCompletedType (with_packet pkt c) = dn_lastCompletedType c" "dn_curEntry (with_packet pkt c) = dn_curEntry c"
  "dn_queue (with_packet pkt c) = dn_queue c" "dn_lastBufferId (with_packet pkt c) = dn_lastBufferId c" "dn_depth (with_packet pkt c) = dn_depth c"
  by (simp_all add: with_packet_def Let_def)

lemma with_packet_ready [simp]:
  "file_packet_ok pkt \<Longrightarrow> FilePacket_bufferSize pkt + 2 \<le> FILEDOWNLINK_INTERNAL_BUFFER_SIZE \<Longrightarrow> buffer_ready c \<Longrightarrow> buffer_ready (with_packet pkt c)"
  by (auto simp: buffer_ready_def with_packet_def Let_def length_file_bytes)

section \<open>A file goes out\<close>

text \<open>The bytes of a file as the sender cuts them.\<close>

fun file_cuts :: "bytes \<Rightarrow> bytes list" where
  "file_cuts bs = (if bs = [] then [] else take 499 bs # file_cuts (drop 499 bs))"

declare file_cuts.simps [simp del]

lemma file_cuts_Nil [simp]: "file_cuts [] = []"
  by (simp add: file_cuts.simps)

lemma concat_file_cuts [simp]: "concat (file_cuts bs) = bs"
  by (induction bs rule: file_cuts.induct) (subst file_cuts.simps, simp)

lemma file_cuts_short: "c \<in> set (file_cuts bs) \<Longrightarrow> length c \<le> 499"
proof (induction bs rule: file_cuts.induct)
  case (1 bs)
  then show ?case by (cases "bs = []") (auto simp: file_cuts.simps [of bs])
qed

lemma length_file_cuts: "length (file_cuts bs) \<le> length bs"
proof (induction bs rule: file_cuts.induct)
  case (1 bs)
  then show ?case by (cases bs) (auto simp: file_cuts.simps [of "_ # _"])
qed

lemma run_sender_append: "run_sender d ports (xs @ ys) s = do { s \<leftarrow> run_sender d ports xs s; run_sender d ports ys s }"
  by (induction xs arbitrary: s) (simp_all split: Option.bind_split)

definition sending :: "bytes \<Rightarrow> bytes \<Rightarrow> bytes \<Rightarrow> FileEntry \<Rightarrow> nat \<Rightarrow> nat \<Rightarrow> FileDownlink \<Rightarrow> bool" where
  "sending src dst bs e i off c \<longleftrightarrow> dn_mode c = DL_WAIT \<and> of_mode (dn_osFile c) = OPEN_READ \<and> dn_sequenceIndex c = of_nat i \<and>
     dn_byteOffset c = of_nat off \<and> dn_endOffset c = of_nat (length bs) \<and> dn_checksum c = file_sum 0 (take off bs) \<and>
     dn_sourceName c = src \<and> dn_destName c = dst \<and> dn_curEntry c = e \<and> dn_lastCompletedType c = (if off < length bs then T_START else T_DATA) \<and>
     buffer_ready c"

text \<open>What a step adds to the output.\<close>

definition adds :: "bytes list \<Rightarrow> downlink_event list \<Rightarrow> (u32 \<times> u32 \<times> CmdResponse) list \<Rightarrow> downlink_output list \<Rightarrow> downlink_output list \<Rightarrow> bool" where
  "adds ps es rs out out' \<longleftrightarrow> map buf_data (buffers_out out') = map buf_data (buffers_out out) @ ps \<and>
     downlink_events out' = downlink_events out @ es \<and> responses out' = responses out @ rs"

lemma adds_trans: "adds ps es rs out out1 \<Longrightarrow> adds ps' es' rs' out1 out2 \<Longrightarrow> adds (ps @ ps') (es @ es') (rs @ rs') out out2"
  by (simp add: adds_def)

lemma start_packet_ok:
  "length src \<le> 200 \<Longrightarrow> length dst \<le> 200 \<Longrightarrow> file_packet_ok (StartPacket_initialize n src dst) \<and>
   FilePacket_bufferSize (StartPacket_initialize n src dst) + 2 \<le> FILEDOWNLINK_INTERNAL_BUFFER_SIZE"
proof -
  assume len: "length src \<le> 200" "length dst \<le> 200"
  have short: "string_length bs 255 \<le> length bs" for bs
    using length_takeWhile_le [of _ "take 255 bs"] by (simp add: string_length_def)
  have "file_packet_ok (StartPacket_initialize n src dst)"
    using short [of src] short [of dst] len by (simp add: StartPacket_initialize_def path_name_ok_def PathName_initialize_def unat_of_nat)
  moreover have "FilePacket_bufferSize (StartPacket_initialize n src dst) + 2 \<le> FILEDOWNLINK_INTERNAL_BUFFER_SIZE"
    using short [of src] short [of dst] len
    by (simp add: StartPacket_initialize_def PathName_bufferSize_def Header_bufferSize_def PathName_initialize_def unat_of_nat
        FILEDOWNLINK_INTERNAL_BUFFER_SIZE_def FW_COM_BUFFER_MAX_SIZE_def)
  ultimately show ?thesis by simp
qed

definition sender_at_rest :: "FileDownlink \<Rightarrow> bool" where
  "sender_at_rest c \<longleftrightarrow> dn_mode c = DL_IDLE \<and> dn_queue c = [] \<and> 0 < dn_depth c \<and> of_mode (dn_osFile c) = OPEN_NO_MODE \<and>
     length (dn_memoryStore c FILE_PACKET) = FILEDOWNLINK_INTERNAL_BUFFER_SIZE \<and> dn_address c FILE_PACKET \<noteq> 0"

lemma c_string_twice: "c_string (c_string bs) = c_string bs"
  by (simp add: c_string_def takeWhile_idem)

context file_source
begin

lemma size_known:
  assumes "good w" "view w = (F, None)" "path \<in> readable" "F path = Some bs" "length bs < 2 ^ 32"
  shows "\<exists>w'. getFileSize d path w = Some (FS_OP_OK, length bs, w') \<and> good w' \<and> view w' = (F, None)"
proof -
  from open_read [OF assms(1-4)] obtain w1 where w1: "fi_open d path OPEN_READ NO_OVERWRITE w = Some (OP_OK, w1)" "good w1"
    "view w1 = (F, Some (path, 0))" by blast
  from size_of [OF w1(2,3) assms(4,5)] obtain w2 where w2: "fi_size d w1 = Some (OP_OK, length bs, w2)" "good w2" "view w2 = (F, Some (path, 0))"
    by auto
  show ?thesis
    using w1(1) w2 close_file [OF w2(2)]
    by (simp add: getFileSize_def file_open_def file_size_def file_close_def isOpen_def Os_File_new_def)
qed

lemma file_opened:
  assumes "good (sn_world s)" "view (sn_world s) = (F, None)" "path \<in> readable" "F path = Some bs" "length bs < 2 ^ 32"
    "of_mode (dn_osFile (sn_component s)) = OPEN_NO_MODE"
  shows "\<exists>f w. Outgoing_open d path dst s = Some (OP_OK, (sn_set (\<lambda>c. c\<lparr>dn_sourceName := take FW_LOG_STRING_MAX_SIZE path,
      dn_destName := take FW_LOG_STRING_MAX_SIZE dst, dn_size := of_nat (length bs), dn_checksum := 0, dn_osFile := f\<rparr>) s)\<lparr>sn_world := w\<rparr>) \<and>
    of_mode f = OPEN_READ \<and> good w \<and> view w = (F, Some (path, 0))"
proof -
  from size_known [OF assms(1-5)] obtain w1 where w1: "getFileSize d path (sn_world s) = Some (FS_OP_OK, length bs, w1)" "good w1" "view w1 = (F, None)"
    by blast
  from open_read [OF w1(2,3) assms(3,4)] obtain w2 where w2: "fi_open d path OPEN_READ NO_OVERWRITE w1 = Some (OP_OK, w2)" "good w2"
    "view w2 = (F, Some (path, 0))" by blast
  show ?thesis
    using w1(1) w2 assms(5,6)
    by (intro exI [of _ "(dn_osFile (sn_component s))\<lparr>of_mode := OPEN_READ, of_path := Some path, of_crc := INITIAL_CRC\<rparr>"] exI [of _ w2])
      (simp add: Outgoing_open_def file_open_def isOpen_def unat_of_nat sn_set_def)
qed

lemma bytes_read:
  assumes "good (sn_world s)" "view (sn_world s) = (F, Some (path, pos))" "F path = Some bs" "off + n \<le> length bs" "length bs < 2 ^ 32"
    "of_mode (dn_osFile (sn_component s)) = OPEN_READ"
  shows "\<exists>w. Outgoing_read d (of_nat off) (of_nat n) s = Some (OP_OK, take n (drop off bs),
      (sn_set (\<lambda>c. c\<lparr>dn_checksum := dn_checksum c + file_sum off (take n (drop off bs))\<rparr>) s)\<lparr>sn_world := w\<rparr>) \<and>
    good w \<and> view w = (F, Some (path, off + n))"
proof -
  have small: "off < 2 ^ 32" "n < 2 ^ 32" "length (take n (drop off bs)) = n" using assms(4,5) by simp_all
  have words: "uint (of_nat off :: u32) = int off" "unat (of_nat n :: u32) = n" "unat (of_nat off :: u32) = off"
    using small by (simp_all add: unat_of_nat uint_nat)
  from seek_absolute [OF assms(1,2) small(1)] obtain w1 where w1: "fi_seek d (int off) ABSOLUTE (sn_world s) = (OP_OK, w1)" "good w1"
    "view w1 = (F, Some (path, off))" by blast
  from read_bytes [OF w1(2,3) assms(3) small(2) assms(4)] obtain w2 where w2: "fi_read d n WAIT w1 = (OP_OK, take n (drop off bs), w2)" "good w2"
    "view w2 = (F, Some (path, off + n))" by blast
  have "length (take n (drop off bs)) < 2 ^ 32" using small by simp
  from update_sum [OF this, of "of_nat off"] show ?thesis
    using w1(1) w2 assms(6) words small(3)
    by (intro exI [of _ w2]) (simp add: Outgoing_read_def file_seek_def file_read_def sn_set_def)
qed

text \<open>The request is taken from the queue and the start packet goes out.\<close>

lemma request_starts:
  assumes "dn_mode (sn_component s) = DL_IDLE" "dn_queue (sn_component s) = e # rest" "of_mode (dn_osFile (sn_component s)) = OPEN_NO_MODE"
    and "good (sn_world s)" "view (sn_world s) = (F, None)" "fe_srcFilename e = path" "path \<in> readable" "F path = Some bs"
    and "length bs < 2 ^ 32" "fe_offset e = off" "fe_length e = len" "length path \<le> 100" "fe_destFilename e = dst" "length dst \<le> 100"
    and "length (dn_memoryStore (sn_component s) FILE_PACKET) = FILEDOWNLINK_INTERNAL_BUFFER_SIZE" "dn_address (sn_component s) FILE_PACKET \<noteq> 0"
    and "off < of_nat (length bs)" "off + len \<le> of_nat (length bs)"
  shows "\<exists>s' c. FileDownlink_run d ports s = Some s' \<and>
    sn_component s' = c\<lparr>dn_mode := DL_WAIT, dn_sequenceIndex := 1, dn_curTimer := 0, dn_byteOffset := off, dn_lastCompletedType := T_START,
      dn_endOffset := (if len > 0 then off + len else of_nat (length bs))\<rparr> \<and>
    buffer_ready c \<and> of_mode (dn_osFile c) = OPEN_READ \<and> dn_checksum c = 0 \<and> dn_sourceName c = path \<and> dn_destName c = dst \<and> dn_curEntry c = e \<and>
    dn_lastBufferId c = dn_lastBufferId (sn_component s) + 1 \<and> good (sn_world s') \<and> view (sn_world s') = (F, Some (path, 0)) \<and>
    adds [file_bytes (StartPacket_initialize (of_nat (length bs)) path dst)]
      [SendStarted (if len > 0 then len else of_nat (length bs) - off) path dst] [] (sn_sent s) (sn_sent s')"
proof -
  let ?s0 = "sn_set (\<lambda>c. c\<lparr>dn_queue := rest, dn_curEntry := e\<rparr>) s" and ?n = "of_nat (length bs) :: u32"
  obtain f w where opened: "Outgoing_open d path dst ?s0 = Some (OP_OK, (sn_set (\<lambda>c. c\<lparr>dn_sourceName := path,
      dn_destName := dst, dn_size := ?n, dn_checksum := 0, dn_osFile := f\<rparr>) ?s0)\<lparr>sn_world := w\<rparr>)"
    "of_mode f = OPEN_READ" "good w" "view w = (F, Some (path, 0))"
    using file_opened [of ?s0 F path bs dst] assms(3-5,7-9,12,14) by (auto simp: FW_LOG_STRING_MAX_SIZE_def)
  define s1 where "s1 = (sn_set (\<lambda>c. c\<lparr>dn_sourceName := path, dn_destName := dst, dn_size := ?n, dn_checksum := 0, dn_osFile := f\<rparr>) ?s0)\<lparr>sn_world := w\<rparr>"
  define b where "b = fst (getBuffer FILE_PACKET (sn_component s1))"
  define s2 where "s2 = s1\<lparr>sn_component := (snd (getBuffer FILE_PACKET (sn_component s1)))\<lparr>dn_buffer := b\<rparr>\<rparr>"
  have s1: "dn_sourceName (sn_component s1) = path" "dn_destName (sn_component s1) = dst" "dn_size (sn_component s1) = ?n" by (simp_all add: s1_def)
  have "buffer_ready (sn_component s2)"
    using assms(15,16) by (simp add: buffer_ready_def s2_def b_def getBuffer_def s1_def)
  moreover note start_packet_ok [of path dst ?n]
  ultimately obtain s3 where s3: "sendStartPacket s2 = Some s3" "sn_component s3 = with_packet (StartPacket_initialize ?n path dst) (sn_component s2)"
    "sn_world s3 = w" "map buf_data (buffers_out (sn_sent s3)) = map buf_data (buffers_out (sn_sent s)) @ [file_bytes (StartPacket_initialize ?n path dst)]"
    "downlink_events (sn_sent s3) = downlink_events (sn_sent s)" "responses (sn_sent s3) = responses (sn_sent s)" "buffer_ready (sn_component s3)"
    using packet_sent [of s2 "StartPacket_initialize ?n path dst"] assms(12,14)
    by (auto simp: sendStartPacket_def s2_def getBuffer_def s1_def Let_def)
  have fits: "\<not> ?n \<le> off" "\<not> ?n < off + len" using assms(17,18) by simp_all
  define s4 where "s4 = sn_set (\<lambda>c. c\<lparr>dn_endOffset := if len > 0 then off + len else ?n\<rparr>)
      (sn_send (Down_log (SendStarted (if len > 0 then len else ?n - off) path dst))
      (sn_set (\<lambda>c. c\<lparr>dn_mode := DL_WAIT, dn_sequenceIndex := 1, dn_curTimer := 0, dn_byteOffset := off, dn_lastCompletedType := T_START\<rparr>) s3))"
  have run: "FileDownlink_run d ports s = Some s4"
    using assms(1,2,6,10,11,13) fits opened(1) s1 s3(1)
    by (simp add: FileDownlink_run_def sendFile_def s1_def [symmetric] Let_def s2_def b_def case_prod_unfold s4_def)
  have comp: "sn_component s4 = (sn_component s3)\<lparr>dn_mode := DL_WAIT, dn_sequenceIndex := 1, dn_curTimer := 0, dn_byteOffset := off,
      dn_lastCompletedType := T_START, dn_endOffset := (if len > 0 then off + len else ?n)\<rparr>"
    by (simp add: s4_def)
  have "adds [file_bytes (StartPacket_initialize ?n path dst)] [SendStarted (if len > 0 then len else ?n - off) path dst] [] (sn_sent s) (sn_sent s4)"
    using s3(4-6) by (simp add: s4_def adds_def)
  moreover have "sn_world s4 = w" using s3(3) by (simp add: s4_def)
  moreover have kept: "of_mode (dn_osFile (sn_component s2)) = OPEN_READ" "dn_checksum (sn_component s2) = 0" "dn_sourceName (sn_component s2) = path"
    "dn_destName (sn_component s2) = dst" "dn_curEntry (sn_component s2) = e" "dn_lastBufferId (sn_component s2) = dn_lastBufferId (sn_component s) + 1"
    using opened(2) by (simp_all add: s2_def s1_def getBuffer_def)
  ultimately show ?thesis
    using opened(3,4) s3(2,7) by (intro exI [of _ s4] exI [of _ "sn_component s3"] conjI) (simp_all only: run comp with_packet_simps)
qed

lemma start_goes_out:
  assumes "dn_mode (sn_component s) = DL_IDLE" "dn_queue (sn_component s) = e # rest" "of_mode (dn_osFile (sn_component s)) = OPEN_NO_MODE"
    and "good (sn_world s)" "view (sn_world s) = (F, None)" "fe_srcFilename e = path" "path \<in> readable" "F path = Some bs"
    and "0 < length bs" "length bs < 2 ^ 32" "fe_offset e = 0" "fe_length e = 0" "length path \<le> 100" "fe_destFilename e = dst" "length dst \<le> 100"
    and "length (dn_memoryStore (sn_component s) FILE_PACKET) = FILEDOWNLINK_INTERNAL_BUFFER_SIZE" "dn_address (sn_component s) FILE_PACKET \<noteq> 0"
  shows "\<exists>s'. FileDownlink_run d ports s = Some s' \<and> sending path dst bs e 1 0 (sn_component s') \<and> good (sn_world s') \<and>
    view (sn_world s') = (F, Some (path, 0)) \<and> dn_lastBufferId (sn_component s') = dn_lastBufferId (sn_component s) + 1 \<and>
    adds [file_bytes (StartPacket_initialize (of_nat (length bs)) path dst)] [SendStarted (of_nat (length bs)) path dst] [] (sn_sent s) (sn_sent s')"
proof -
  have "(of_nat (length bs) :: u32) \<noteq> 0" using assms(9,10) by (auto simp: word_unat_eq_iff unat_of_nat)
  then have "(0 :: u32) < of_nat (length bs)" by (simp add: word_gt_0)
  from request_starts [OF assms(1-8,10-17) this, of ports] obtain s' c where s': "FileDownlink_run d ports s = Some s'"
    "sn_component s' = c\<lparr>dn_mode := DL_WAIT, dn_sequenceIndex := 1, dn_curTimer := 0, dn_byteOffset := 0, dn_lastCompletedType := T_START,
      dn_endOffset := of_nat (length bs)\<rparr>" "buffer_ready c" "of_mode (dn_osFile c) = OPEN_READ" "dn_checksum c = 0" "dn_sourceName c = path"
    "dn_destName c = dst" "dn_curEntry c = e" "dn_lastBufferId c = dn_lastBufferId (sn_component s) + 1" "good (sn_world s')"
    "view (sn_world s') = (F, Some (path, 0))"
    "adds [file_bytes (StartPacket_initialize (of_nat (length bs)) path dst)] [SendStarted (of_nat (length bs)) path dst] [] (sn_sent s) (sn_sent s')"
    by auto
  with assms(9) show ?thesis by (simp add: sending_def buffer_ready_def)
qed

text \<open>The next piece goes out when the buffer comes back.\<close>

lemma piece_goes_out:
  assumes "sending src dst bs e i off (sn_component s)" "good (sn_world s)" "view (sn_world s) = (F, Some (path, pos))" "F path = Some bs"
    and "off < length bs" "length bs + 499 < 2 ^ 32" "buf_context b + 1 = dn_lastBufferId (sn_component s)"
  shows "\<exists>s'. FileDownlink_bufferReturn d ports b s = Some s' \<and> sending src dst bs e (Suc i) (min (off + 499) (length bs)) (sn_component s') \<and>
    good (sn_world s') \<and> (\<exists>pos'. view (sn_world s') = (F, Some (path, pos'))) \<and> dn_lastBufferId (sn_component s') = dn_lastBufferId (sn_component s) \<and>
    adds [file_bytes (data_packet (of_nat i, of_nat off, take 499 (drop off bs)))] [] [] (sn_sent s) (sn_sent s')"
proof -
  let ?len = "length bs" and ?k = "min 499 (length bs - off)"
  have k: "take 499 (drop off bs) = take ?k (drop off bs)" "off + ?k = min (off + 499) ?len" "0 < ?k" "?k \<le> 499" "off + ?k \<le> ?len"
    using assms(5) by (auto simp: min_def)
  have un: "unat (of_nat off :: u32) = off" "unat (of_nat ?len :: u32) = ?len" "unat (of_nat ?k :: u32) = ?k" "unat (maxDataSize) = 499"
    "maxDataSize = 499"
    using assms(5,6) by (simp_all add: unat_of_nat maxDataSize_def FILEDOWNLINK_INTERNAL_BUFFER_SIZE_def FW_COM_BUFFER_MAX_SIZE_def)
  have sums: "unat (of_nat off + maxDataSize) = off + 499" "unat (of_nat ?k + of_nat off :: u32) = ?k + off"
    using assms(6) k(5) un by (simp_all add: unat_word_ariths)
  have last: "of_nat ?k + of_nat off = (of_nat ?len :: u32) \<longleftrightarrow> off + ?k = ?len" "(of_nat off :: u32) < of_nat ?len"
    using sums(2) un assms(5) by (auto simp: word_unat_eq_iff word_less_nat_alt)
  have amount: "(if of_nat off + maxDataSize > (of_nat ?len :: u32) then of_nat ?len - of_nat off else maxDataSize) = (of_nat ?k :: u32)"
  proof (cases "off + 499 > ?len")
    case True
    then have "of_nat off + maxDataSize > (of_nat ?len :: u32)" "?k = ?len - off" using sums(1) un by (simp_all add: word_less_nat_alt)
    with assms(5) show ?thesis by (simp add: of_nat_diff)
  next
    case False
    then have "\<not> of_nat off + maxDataSize > (of_nat ?len :: u32)" "?k = 499" using sums(1) un by (simp_all add: word_less_nat_alt)
    with un(5) show ?thesis by simp
  qed
  define s0 where "s0 = sn_set (\<lambda>c. c\<lparr>dn_mode := DL_DOWNLINK\<rparr>) s"
  define s1 where "s1 = (if off + ?k = ?len then sn_set (\<lambda>c. c\<lparr>dn_lastCompletedType := T_DATA\<rparr>) s0 else s0)"
  let ?data = "take ?k (drop off bs)"
  let ?pkt = "DataPacket_initialize (of_nat i) (of_nat off) (of_nat ?k) ?data"
  have s1: "good (sn_world s1)" "view (sn_world s1) = (F, Some (path, pos))" "of_mode (dn_osFile (sn_component s1)) = OPEN_READ"
    using assms(1-3) by (auto simp: s1_def s0_def sending_def)
  from assms(6) have len: "?len < 2 ^ 32" by simp
  obtain w where w: "Outgoing_read d (of_nat off) (of_nat ?k) s1 = Some (OP_OK, ?data,
      (sn_set (\<lambda>c. c\<lparr>dn_checksum := dn_checksum c + file_sum off ?data\<rparr>) s1)\<lparr>sn_world := w\<rparr>)" "good w" "view w = (F, Some (path, off + ?k))"
    using bytes_read [OF s1(1,2) assms(4) k(5) len s1(3)] by blast
  define s2 where "s2 = sn_set (\<lambda>c. c\<lparr>dn_sequenceIndex := dn_sequenceIndex c + 1\<rparr>)
      ((sn_set (\<lambda>c. c\<lparr>dn_checksum := dn_checksum c + file_sum off ?data\<rparr>) s1)\<lparr>sn_world := w\<rparr>)"
  have pkt: "file_packet_ok ?pkt" "FilePacket_bufferSize ?pkt + 2 \<le> FILEDOWNLINK_INTERNAL_BUFFER_SIZE"
    using k(4,5) by (simp_all add: DataPacket_initialize_def unat_of_nat Header_bufferSize_def FILEDOWNLINK_INTERNAL_BUFFER_SIZE_def FW_COM_BUFFER_MAX_SIZE_def)
  have ready: "buffer_ready (sn_component s2)" using assms(1) by (simp add: s2_def s1_def s0_def sending_def buffer_ready_def)
  from packet_sent [OF this pkt] obtain s3 where s3: "sendFilePacket ?pkt s2 = Some s3" "sn_component s3 = with_packet ?pkt (sn_component s2)"
    "sn_world s3 = w" "map buf_data (buffers_out (sn_sent s3)) = map buf_data (buffers_out (sn_sent s)) @ [file_bytes ?pkt]"
    "downlink_events (sn_sent s3) = downlink_events (sn_sent s)" "responses (sn_sent s3) = responses (sn_sent s)"
    by (auto simp: s2_def s1_def s0_def)
  have c0: "dn_byteOffset (sn_component s0) = of_nat off" "dn_endOffset (sn_component s0) = of_nat ?len" "dn_sequenceIndex (sn_component s2) = of_nat i + 1"
    "dn_sequenceIndex (sn_component s1) = of_nat i"
    using assms(1) by (auto simp: s0_def s1_def s2_def sending_def)
  have short: "ucast (of_nat ?k :: u32) = (of_nat ?k :: u16)" "of_nat off + of_nat ?k = (of_nat (off + ?k) :: u32)"
    using k(4) by (simp_all add: word_unat_eq_iff unsigned_ucast_eq unsigned_of_nat take_bit_eq_mod)
  have sent: "sendDataPacket d s0 = Some (OP_OK, sn_set (\<lambda>c. c\<lparr>dn_byteOffset := of_nat (off + ?k)\<rparr>) s3)"
    using w(1) s3(1) last short
    unfolding sendDataPacket_def Let_def c0(1,2) amount by (simp add: s1_def [symmetric] s2_def [symmetric] FW_ASSERT_def c0(4))
  have "dn_mode (sn_component s0) = DL_DOWNLINK" "dn_lastCompletedType (sn_component s0) = T_START"
    using assms(1,5) by (simp_all add: s0_def sending_def)
  then have run: "FileDownlink_bufferReturn d ports b s = Some (waits_again (sn_set (\<lambda>c. c\<lparr>dn_byteOffset := of_nat (off + ?k)\<rparr>) s3))"
    using sent assms(1,5,7) by (simp add: FileDownlink_bufferReturn_def downlinkPacket_def sending_def packet_types s0_def [symmetric] Let_def)
  have whole: "take (off + ?k) bs = take off bs @ ?data" by (simp add: take_add)
  have sum: "dn_checksum (sn_component s2) = file_sum 0 (take (off + ?k) bs)"
    using assms(1,5) by (simp add: whole file_sum_append s2_def s1_def s0_def sending_def)
  have kind: "dn_lastCompletedType (sn_component s2) = (if off + ?k < ?len then T_START else T_DATA)"
    using assms(1,5) k(5) by (simp add: s2_def s1_def s0_def sending_def)
  have rest: "of_mode (dn_osFile (sn_component s2)) = OPEN_READ" "dn_sequenceIndex (sn_component s2) = of_nat (Suc i)"
    "dn_endOffset (sn_component s2) = of_nat ?len" "dn_sourceName (sn_component s2) = src" "dn_destName (sn_component s2) = dst"
    "dn_curEntry (sn_component s2) = e" "dn_lastBufferId (sn_component s2) = dn_lastBufferId (sn_component s)"
    using assms(1) by (simp_all add: s2_def s1_def s0_def sending_def)
  have again: "buffer_ready (c\<lparr>dn_byteOffset := x, dn_mode := y, dn_curTimer := z\<rparr>) = buffer_ready c" for c x y z
    by (simp add: buffer_ready_def)
  have comp: "sn_component (waits_again (sn_set (\<lambda>c. c\<lparr>dn_byteOffset := of_nat (off + ?k)\<rparr>) s3)) =
      (with_packet ?pkt (sn_component s2))\<lparr>dn_byteOffset := of_nat (off + ?k), dn_mode := DL_WAIT, dn_curTimer := 0\<rparr>"
    by (simp add: waits_again_def s3(2))
  have "sending src dst bs e (Suc i) (off + ?k) (sn_component (waits_again (sn_set (\<lambda>c. c\<lparr>dn_byteOffset := of_nat (off + ?k)\<rparr>) s3)))"
    unfolding comp sending_def again using sum kind rest with_packet_ready [OF pkt ready] by simp
  moreover have "data_packet (of_nat i, of_nat off, take 499 (drop off bs)) = ?pkt" using k by simp
  ultimately show ?thesis
    using run w(2,3) s3(2-6) k(2) rest(7) by (simp add: adds_def waits_again_def)
qed

lemma pieces_go_out:
  assumes "sending src dst bs e i off (sn_component s)" "good (sn_world s)" "view (sn_world s) = (F, Some (path, pos))" "F path = Some bs"
    and "off \<le> length bs" "length bs + 499 < 2 ^ 32" "length rs = length (file_cuts (drop off bs))"
    and "\<forall>b \<in> set rs. buf_context b + 1 = dn_lastBufferId (sn_component s)"
  shows "\<exists>s'. run_sender d ports (map Buffer_back rs) s = Some s' \<and> sending src dst bs e (i + length rs) (length bs) (sn_component s') \<and>
    good (sn_world s') \<and> (\<exists>pos'. view (sn_world s') = (F, Some (path, pos'))) \<and> dn_lastBufferId (sn_component s') = dn_lastBufferId (sn_component s) \<and>
    adds (map (\<lambda>p. file_bytes (data_packet p)) (zip (map of_nat [i..<i + length rs]) (pieces off (file_cuts (drop off bs))))) [] [] (sn_sent s) (sn_sent s')"
  using assms
proof (induction rs arbitrary: i off s pos)
  case Nil
  then have "off = length bs" by (cases "drop off bs = []") (auto simp: file_cuts.simps [of "drop off bs"])
  with Nil show ?case by (auto simp: adds_def)
next
  case (Cons b rs)
  let ?off = "min (off + 499) (length bs)"
  have more: "drop off bs \<noteq> []" using Cons.prems(7) by auto
  then have off: "off < length bs" by simp
  have dropped: "drop ?off bs = drop (off + 499) bs" by (cases "off + 499 \<le> length bs") simp_all
  have cuts: "file_cuts (drop off bs) = take 499 (drop off bs) # file_cuts (drop ?off bs)"
    using more by (subst file_cuts.simps) (simp add: dropped add.commute)
  have ctx: "buf_context b + 1 = dn_lastBufferId (sn_component s)" using Cons.prems(8) by simp
  obtain s1 pos1 where s1: "FileDownlink_bufferReturn d ports b s = Some s1" "sending src dst bs e (Suc i) ?off (sn_component s1)"
    "good (sn_world s1)" "view (sn_world s1) = (F, Some (path, pos1))" "dn_lastBufferId (sn_component s1) = dn_lastBufferId (sn_component s)"
    "adds [file_bytes (data_packet (of_nat i, of_nat off, take 499 (drop off bs)))] [] [] (sn_sent s) (sn_sent s1)"
    using piece_goes_out [OF Cons.prems(1-4) off Cons.prems(6) ctx] by blast
  have left: "?off \<le> length bs" "length rs = length (file_cuts (drop ?off bs))" "\<forall>b \<in> set rs. buf_context b + 1 = dn_lastBufferId (sn_component s1)"
    using Cons.prems(7,8) s1(5) by (auto simp: cuts)
  obtain s2 where s2: "run_sender d ports (map Buffer_back rs) s1 = Some s2" "sending src dst bs e (Suc i + length rs) (length bs) (sn_component s2)"
    "good (sn_world s2)" "\<exists>pos'. view (sn_world s2) = (F, Some (path, pos'))" "dn_lastBufferId (sn_component s2) = dn_lastBufferId (sn_component s1)"
    "adds (map (\<lambda>p. file_bytes (data_packet p)) (zip (map of_nat [Suc i..<Suc i + length rs]) (pieces ?off (file_cuts (drop ?off bs))))) [] [] (sn_sent s1) (sn_sent s2)"
    using Cons.IH [OF s1(2-4) Cons.prems(4) left(1) Cons.prems(6) left(2,3)] by blast
  have next_off: "off + length (take 499 (drop off bs)) = ?off" using off by (auto simp: min_def)
  have numbers: "[i..<i + length (b # rs)] = i # [Suc i..<Suc i + length rs]" by (simp add: upt_conv_Cons del: upt_Suc)
  show ?case
    using s1(1,5) s2(1-5) adds_trans [OF s1(6) s2(6)] unfolding cuts pieces.simps next_off numbers by simp
qed

lemma end_goes_out:
  assumes "sending src dst bs e i (length bs) (sn_component s)" "buf_context b + 1 = dn_lastBufferId (sn_component s)"
  shows "\<exists>s'. FileDownlink_bufferReturn d ports b s = Some s' \<and> sn_world s' = sn_world s \<and>
    sn_component s' = (with_packet (EndPacket_initialize (of_nat i) (file_sum 0 bs)) ((sn_component s)\<lparr>dn_mode := DL_DOWNLINK\<rparr>))
      \<lparr>dn_lastCompletedType := T_END, dn_mode := DL_WAIT, dn_curTimer := 0\<rparr> \<and>
    adds [file_bytes (EndPacket_initialize (of_nat i) (file_sum 0 bs))] [] [] (sn_sent s) (sn_sent s')"
proof -
  define s0 where "s0 = sn_set (\<lambda>c. c\<lparr>dn_mode := DL_DOWNLINK\<rparr>) s"
  let ?pkt = "EndPacket_initialize (of_nat i) (file_sum 0 bs)"
  have ready: "buffer_ready (sn_component s0)" using assms(1) by (simp add: sending_def s0_def buffer_ready_def)
  have c0: "dn_sequenceIndex (sn_component s0) = of_nat i" "dn_checksum (sn_component s0) = file_sum 0 bs" "dn_mode (sn_component s0) = DL_DOWNLINK"
    "dn_lastCompletedType (sn_component s0) = T_DATA" "dn_lastCompletedType (sn_component s) = T_DATA" "dn_mode (sn_component s) = DL_WAIT"
    using assms(1) by (simp_all add: sending_def s0_def)
  have pkt: "file_packet_ok ?pkt" "FilePacket_bufferSize ?pkt + 2 \<le> FILEDOWNLINK_INTERNAL_BUFFER_SIZE"
    by (simp_all add: EndPacket_initialize_def Header_bufferSize_def FILEDOWNLINK_INTERNAL_BUFFER_SIZE_def FW_COM_BUFFER_MAX_SIZE_def)
  from packet_sent [OF ready pkt] obtain s1 where s1: "sendFilePacket ?pkt s0 = Some s1" "sn_component s1 = with_packet ?pkt (sn_component s0)"
    "sn_world s1 = sn_world s0" "map buf_data (buffers_out (sn_sent s1)) = map buf_data (buffers_out (sn_sent s0)) @ [file_bytes ?pkt]"
    "downlink_events (sn_sent s1) = downlink_events (sn_sent s0)" "responses (sn_sent s1) = responses (sn_sent s0)" by blast
  have "FileDownlink_bufferReturn d ports b s = downlinkPacket d ports s0"
    using assms(2) c0(5,6) by (simp add: FileDownlink_bufferReturn_def packet_types s0_def)
  also have "\<dots> = Some (waits_again (sn_set (\<lambda>c. c\<lparr>dn_lastCompletedType := T_END\<rparr>) s1))"
    using s1(1) c0(1-4) by (simp add: downlinkPacket_def sendEndPacket_def packet_types Let_def)
  finally show ?thesis
    using s1(2-6) by (simp add: waits_again_def adds_def s0_def)
qed

text \<open>When the last buffer comes back, the file is closed and the command is answered.\<close>

lemma downlink_finished:
  assumes "dn_mode (sn_component s) = DL_WAIT" "dn_lastCompletedType (sn_component s) = T_END" "buf_context b + 1 = dn_lastBufferId (sn_component s)"
    and "of_mode (dn_osFile (sn_component s)) = OPEN_READ" "fe_source (dn_curEntry (sn_component s)) = FROM_COMMAND" "good (sn_world s)"
  shows "\<exists>s'. FileDownlink_bufferReturn d ports b s = Some s' \<and> good (sn_world s') \<and> view (sn_world s') = (fst (view (sn_world s)), None) \<and>
    dn_mode (sn_component s') = DL_COOLDOWN \<and> of_mode (dn_osFile (sn_component s')) = OPEN_NO_MODE \<and> dn_queue (sn_component s') = dn_queue (sn_component s) \<and>
    adds [] [FileSent (dn_sourceName (sn_component s)) (dn_destName (sn_component s))]
      [(fe_opCode (dn_curEntry (sn_component s)), fe_cmdSeq (dn_curEntry (sn_component s)), CMD_OK)] (sn_sent s) (sn_sent s')"
  using assms close_file [OF assms(6)]
  by (simp add: FileDownlink_bufferReturn_def packet_types finishHelper_def enterCooldown_def fileSent_def Let_def sendResponse_def
      statusToCmdResp_def file_close_def adds_def)

text \<open>All of it: the request, the packets, the answer.\<close>

lemma file_goes_out:
  assumes "sender_at_rest (sn_component s)" "good (sn_world s)" "view (sn_world s) = (F, None)"
    and "c_string src = path" "c_string dst = dest" "path \<in> readable" "F path = Some bs" "bs \<noteq> []" "length bs + 499 < 2 ^ 32"
    and "length path \<le> 100" "length dest \<le> 100" "length rs = length (file_cuts bs) + 2" "\<forall>b \<in> set rs. buf_context b = dn_lastBufferId (sn_component s)"
  shows "\<exists>s'. run_sender d ports (Cmd_SendFile opCode cmdSeq src dst # Down_run # map Buffer_back rs) s = Some s' \<and>
    good (sn_world s') \<and> view (sn_world s') = (F, None) \<and> dn_mode (sn_component s') = DL_COOLDOWN \<and>
    of_mode (dn_osFile (sn_component s')) = OPEN_NO_MODE \<and>
    adds (map file_bytes (transfer path dest (file_cuts bs) (numbered (file_cuts bs)))) [SendStarted (of_nat (length bs)) path dest, FileSent path dest]
      [(opCode, cmdSeq, CMD_OK)] (sn_sent s) (sn_sent s')"
proof -
  let ?n = "length (file_cuts bs)" and ?id = "dn_lastBufferId (sn_component s)" and ?last = "EndPacket_initialize (of_nat (Suc (length (file_cuts bs)))) (file_sum 0 bs)"
  define e where "e = \<lparr>fe_srcFilename = path, fe_destFilename = dest, fe_offset = 0, fe_length = 0, fe_source = FROM_COMMAND,
    fe_opCode = opCode, fe_cmdSeq = cmdSeq, fe_context = 0xFFFFFFFF\<rparr>"
  define s1 where "s1 = sn_set (\<lambda>c. c\<lparr>dn_queue := [e]\<rparr>) s"
  have asked: "SendFile_cmdHandler opCode cmdSeq src dst s = Some s1"
    using assms(1,4,5,10,11) by (simp add: SendFile_cmdHandler_def SendPartial_cmdHandler_def new_entry_def FILE_ENTRY_FILENAME_LEN_def
        enqueue_entry_def sender_at_rest_def s1_def e_def sn_set_def)
  obtain s2 where s2: "FileDownlink_run d ports s1 = Some s2" "sending path dest bs e 1 0 (sn_component s2)" "good (sn_world s2)"
    "view (sn_world s2) = (F, Some (path, 0))" "dn_lastBufferId (sn_component s2) = ?id + 1"
    "adds [file_bytes (StartPacket_initialize (of_nat (length bs)) path dest)] [SendStarted (of_nat (length bs)) path dest] [] (sn_sent s) (sn_sent s2)"
    using start_goes_out [of s1 e "[]" F path bs dest ports] assms(1-3,6-11) by (auto simp: s1_def e_def sender_at_rest_def)
  obtain rs' b1 b2 where rs: "rs = rs' @ [b1, b2]"
    using assms(12) by (cases rs rule: rev_cases) (auto, metis append_butlast_last_id length_0_conv nat.distinct(1) append.assoc append_Cons append_Nil)
  have len: "length rs' = length (file_cuts (drop 0 bs))" using assms(12) rs by simp
  have ctx: "\<forall>b \<in> set rs'. buf_context b + 1 = dn_lastBufferId (sn_component s2)" "buf_context b1 = ?id" "buf_context b2 = ?id"
    using assms(13) s2(5) by (auto simp: rs)
  obtain s3 pos where s3: "run_sender d ports (map Buffer_back rs') s2 = Some s3" "sending path dest bs e (Suc ?n) (length bs) (sn_component s3)"
    "good (sn_world s3)" "view (sn_world s3) = (F, Some (path, pos))" "dn_lastBufferId (sn_component s3) = ?id + 1"
    "adds (map (\<lambda>p. file_bytes (data_packet p)) (numbered (file_cuts bs))) [] [] (sn_sent s2) (sn_sent s3)"
    using pieces_go_out [OF s2(2-4) assms(7) _ assms(9) len ctx(1), of ports] len s2(5) by (auto simp: numbered_def)
  obtain s4 where s4: "FileDownlink_bufferReturn d ports b1 s3 = Some s4" "sn_world s4 = sn_world s3"
    "sn_component s4 = (with_packet ?last ((sn_component s3)\<lparr>dn_mode := DL_DOWNLINK\<rparr>))\<lparr>dn_lastCompletedType := T_END, dn_mode := DL_WAIT, dn_curTimer := 0\<rparr>"
    "adds [file_bytes ?last] [] [] (sn_sent s3) (sn_sent s4)"
    using end_goes_out [OF s3(2)] ctx(2) s3(5) by auto
  have c4: "dn_mode (sn_component s4) = DL_WAIT" "dn_lastCompletedType (sn_component s4) = T_END" "buf_context b2 + 1 = dn_lastBufferId (sn_component s4)"
    "of_mode (dn_osFile (sn_component s4)) = OPEN_READ" "fe_source (dn_curEntry (sn_component s4)) = FROM_COMMAND" "good (sn_world s4)"
    "dn_curEntry (sn_component s4) = e" "dn_sourceName (sn_component s4) = path" "dn_destName (sn_component s4) = dest"
    using s3(2,3,5) ctx(3) by (simp_all add: s4(2,3) sending_def e_def)
  obtain s5 where s5: "FileDownlink_bufferReturn d ports b2 s4 = Some s5" "good (sn_world s5)" "view (sn_world s5) = (F, None)"
    "dn_mode (sn_component s5) = DL_COOLDOWN" "of_mode (dn_osFile (sn_component s5)) = OPEN_NO_MODE"
    "adds [] [FileSent path dest] [(opCode, cmdSeq, CMD_OK)] (sn_sent s4) (sn_sent s5)"
    using downlink_finished [OF c4(1-6), of ports] c4(7-9) s3(4) s4(2) by (auto simp: e_def)
  have "run_sender d ports (Cmd_SendFile opCode cmdSeq src dst # Down_run # map Buffer_back rs) s = Some s5"
    using asked s2(1) s3(1) s4(1) s5(1) by (simp add: rs run_sender_append)
  moreover have "adds (map file_bytes (transfer path dest (file_cuts bs) (numbered (file_cuts bs)))) [SendStarted (of_nat (length bs)) path dest, FileSent path dest]
      [(opCode, cmdSeq, CMD_OK)] (sn_sent s) (sn_sent s5)"
    using adds_trans [OF adds_trans [OF adds_trans [OF s2(6) s3(6)] s4(4)] s5(6)] by (simp add: transfer_def o_def)
  ultimately show ?thesis using s5(2-5) by blast
qed

end

end
