(* ===== verification/File_Loop.thy ===== *)
theory File_Loop
  imports File_Downlink File_Uplink
begin

text \<open>
  What users of the file sender of \<^verbatim>\<open>Svc/FileDownlink\<close> see over a history of calls, and the way of a file from the sender
  to the receiver of \<^verbatim>\<open>Svc/FileUplink\<close>.
\<close>

section \<open>Commands and their answers\<close>

fun commands_in :: "sender_call list \<Rightarrow> (u32 \<times> u32) list" where
  "commands_in [] = []"
| "commands_in (Cmd_SendFile opCode cmdSeq src dst # calls) = (opCode, cmdSeq) # commands_in calls"
| "commands_in (Cmd_SendPartial opCode cmdSeq src dst offset len # calls) = (opCode, cmdSeq) # commands_in calls"
| "commands_in (Cmd_Cancel opCode cmdSeq # calls) = (opCode, cmdSeq) # commands_in calls"
| "commands_in (_ # calls) = commands_in calls"

definition commands_answered :: "downlink_output list \<Rightarrow> (u32 \<times> u32) multiset" where
  "commands_answered out = mset (map (\<lambda>(opCode, cmdSeq, r). (opCode, cmdSeq)) (responses out))"

definition of_command :: "FileEntry \<Rightarrow> (u32 \<times> u32) multiset" where
  "of_command e = (if fe_source e = FROM_COMMAND then {#(fe_opCode e, fe_cmdSeq e)#} else {#})"

text \<open>The commands in the queue, with that of the file on its way.\<close>

definition unanswered :: "FileDownlink \<Rightarrow> (u32 \<times> u32) multiset" where
  "unanswered c = (if dn_mode c = DL_IDLE \<or> dn_mode c = DL_COOLDOWN then {#} else of_command (dn_curEntry c)) +
     (\<Sum>e \<leftarrow> dn_queue c. of_command e)"

definition account :: "'w file_sender \<Rightarrow> (u32 \<times> u32) multiset" where
  "account s = commands_answered (sn_sent s) + unanswered (sn_component s)"

definition same_work :: "'w file_sender \<Rightarrow> 'w file_sender \<Rightarrow> bool" where
  "same_work s s' \<longleftrightarrow> dn_curEntry (sn_component s') = dn_curEntry (sn_component s) \<and> dn_queue (sn_component s') = dn_queue (sn_component s) \<and>
     dn_mode (sn_component s') = dn_mode (sn_component s) \<and> commands_answered (sn_sent s') = commands_answered (sn_sent s)"

lemma answered_simps [simp]:
  "commands_answered [] = {#}" "commands_answered (out @ out') = commands_answered out + commands_answered out'"
  "commands_answered (Down_response opCode cmdSeq r # out) = add_mset (opCode, cmdSeq) (commands_answered out)" "commands_answered (Down_log e # out) = commands_answered out"
  "commands_answered (Down_buffer b # out) = commands_answered out" "commands_answered (FilesSent n # out) = commands_answered out" "commands_answered (PacketsSent n # out) = commands_answered out"
  "commands_answered (DownlinkWarnings n # out) = commands_answered out" "commands_answered (FileComplete i st n # out) = commands_answered out"
  "commands_answered (SendFile_answer st n # out) = commands_answered out" "commands_answered (Down_ping n # out) = commands_answered out"
  by (simp_all add: commands_answered_def)

lemma kept_trans: "same_work s s1 \<Longrightarrow> same_work s1 s2 \<Longrightarrow> same_work s s2"
  by (simp add: same_work_def)

lemma kept_open: "Outgoing_open d src dst s = Some (status, s') \<Longrightarrow> same_work s s'"
  by (auto simp: Outgoing_open_def same_work_def Let_def split: Option.bind_split_asm prod.split_asm if_split_asm)

lemma kept_read: "Outgoing_read d off len s = Some (status, data, s') \<Longrightarrow> same_work s s'"
  by (auto simp: Outgoing_read_def same_work_def Let_def split: Option.bind_split_asm prod.split_asm if_split_asm)

lemma kept_send: "sendFilePacket pkt s = Some s' \<Longrightarrow> same_work s s'"
  by (auto simp: sendFilePacket_def same_work_def packetSent_def Let_def FW_ASSERT_def split: Option.bind_split_asm if_split_asm)

lemma kept_cancel: "sendCancelPacket s = Some s' \<Longrightarrow> same_work s s'"
  by (auto simp: sendCancelPacket_def getBuffer_def same_work_def packetSent_def Let_def FW_ASSERT_def split: Option.bind_split_asm if_split_asm)

lemma kept_data: "sendDataPacket d s = Some (status, s') \<Longrightarrow> same_work s s'"
proof -
  assume sent: "sendDataPacket d s = Some (status, s')"
  let ?b = "dn_byteOffset (sn_component s)" and ?e = "dn_endOffset (sn_component s)"
  define n where "n = (if ?b + maxDataSize > ?e then ?e - ?b else maxDataSize)"
  define s0 where "s0 = (if n + ?b = ?e then sn_set (\<lambda>c. c\<lparr>dn_lastCompletedType := T_DATA\<rparr>) s else s)"
  obtain st data s1 where read: "Outgoing_read d ?b n s0 = Some (st, data, s1)"
    using sent unfolding sendDataPacket_def Let_def n_def [symmetric] s0_def [symmetric]
    by (auto simp: FW_ASSERT_def split: Option.bind_split_asm if_split_asm)
  have s0: "same_work s s0" by (simp add: s0_def same_work_def)
  note s1 = kept_trans [OF s0 kept_read [OF read]]
  have set1: "same_work s (sn_set (\<lambda>c. c\<lparr>dn_sequenceIndex := dn_sequenceIndex c + 1\<rparr>) s1)" using s1 by (simp add: same_work_def)
  show "same_work s s'"
  proof (cases "st = OP_OK")
    case True
    then obtain pkt s2 where "sendFilePacket pkt (sn_set (\<lambda>c. c\<lparr>dn_sequenceIndex := dn_sequenceIndex c + 1\<rparr>) s1) = Some s2"
      "s' = sn_set (\<lambda>c. c\<lparr>dn_byteOffset := ?b + n\<rparr>) s2"
      using sent read unfolding sendDataPacket_def Let_def n_def [symmetric] s0_def [symmetric]
      by (auto simp: FW_ASSERT_def split: Option.bind_split_asm if_split_asm)
    with kept_trans [OF set1 kept_send] show ?thesis by (simp add: same_work_def)
  next
    case False
    then have "s' = downlink_warn (FileReadError (dn_sourceName (sn_component s1)) st) s1"
      using sent read unfolding sendDataPacket_def Let_def n_def [symmetric] s0_def [symmetric]
      by (auto simp: FW_ASSERT_def split: if_split_asm)
    with s1 show ?thesis by (simp add: same_work_def downlink_warn_def Let_def)
  qed
qed

text \<open>The commands of a component that is at work.\<close>

definition busy :: "'w file_sender \<Rightarrow> (u32 \<times> u32) multiset" where
  "busy s = commands_answered (sn_sent s) + of_command (dn_curEntry (sn_component s)) + (\<Sum>e \<leftarrow> dn_queue (sn_component s). of_command e)"

lemma kept_busy: "same_work s s' \<Longrightarrow> busy s' = busy s"
  by (simp add: same_work_def busy_def)

lemma account_busy: "dn_mode (sn_component s) \<noteq> DL_IDLE \<Longrightarrow> dn_mode (sn_component s) \<noteq> DL_COOLDOWN \<Longrightarrow> account s = busy s"
  by (simp add: account_def busy_def unanswered_def)

lemma fold_completes:
  "sn_component (fold (\<lambda>i. sn_send (FileComplete i r n)) ports s) = sn_component s"
  "commands_answered (sn_sent (fold (\<lambda>i. sn_send (FileComplete i r n)) ports s)) = commands_answered (sn_sent s)"
  by (induction ports arbitrary: s) simp_all

lemma response_counts:
  "dn_mode (sn_component s) = DL_IDLE \<or> dn_mode (sn_component s) = DL_COOLDOWN \<Longrightarrow> account (sendResponse ports r s) = busy s"
  by (auto simp: sendResponse_def Let_def fold_completes account_def busy_def unanswered_def of_command_def ac_simps)

lemma cooldown_counts: "enterCooldown d s = Some s1 \<Longrightarrow> busy s1 = busy s \<and> dn_mode (sn_component s1) = DL_COOLDOWN"
  by (auto simp: enterCooldown_def busy_def split: Option.bind_split_asm)

lemma ended_counts: "enterCooldown d s = Some s1 \<Longrightarrow> account (sendResponse ports r s1) = busy s"
  using cooldown_counts [of d s s1] response_counts [of s1 ports r] by simp

lemma waits_counts: "busy (waits_again s) = busy s \<and> account (waits_again s) = busy s"
  by (simp add: waits_again_def busy_def account_def unanswered_def)

lemma log_counts: "busy (sn_send (Down_log e) s) = busy s" "busy (fileSent s) = busy s" "busy (downlink_warn e s) = busy s"
  by (simp_all add: busy_def fileSent_def downlink_warn_def Let_def)

lemma warned: "dn_mode (sn_component (downlink_warn e s)) = dn_mode (sn_component s)"
  by (simp add: downlink_warn_def Let_def)

lemma set_counts: "dn_curEntry (f (sn_component s)) = dn_curEntry (sn_component s) \<Longrightarrow> dn_queue (f (sn_component s)) = dn_queue (sn_component s) \<Longrightarrow>
    busy (sn_set f s) = busy s"
  by (simp add: busy_def)

lemma finish_counts: "finishHelper d ports cancel s = Some s' \<Longrightarrow> account s' = busy s"
  by (auto simp: finishHelper_def Let_def ended_counts log_counts split: Option.bind_split_asm if_split_asm)

lemma packet_counts: "downlinkPacket d ports s = Some s' \<Longrightarrow> account s' = busy s"
  by (auto simp: downlinkPacket_def sendEndPacket_def Let_def FW_ASSERT_def waits_counts set_counts ended_counts log_counts
      dest!: kept_send kept_cancel kept_data kept_busy split: Option.bind_split_asm if_split_asm)

lemma return_counts: "FileDownlink_bufferReturn d ports b s = Some s' \<Longrightarrow> account s' = account s"
  by (auto simp: FileDownlink_bufferReturn_def Let_def FW_ASSERT_def account_busy set_counts dest!: finish_counts packet_counts
      split: Option.bind_split_asm if_split_asm)

lemma file_counts:
  assumes "sendFile d ports src dst off len s = Some s'"
  shows "account s' = busy s"
proof -
  obtain status s1 where opened: "Outgoing_open d src dst s = Some (status, s1)"
    using assms by (auto simp: sendFile_def split: Option.bind_split_asm)
  have s1: "busy s1 = busy s" by (rule kept_busy [OF kept_open [OF opened]])
  let ?n = "dn_size (sn_component s1)"
  consider "status \<noteq> OP_OK" | "status = OP_OK" "off \<ge> ?n" | "status = OP_OK" "\<not> off \<ge> ?n" by blast
  then show ?thesis
  proof cases
    case 1
    then show ?thesis
      using assms opened s1 by (auto simp: sendFile_def Let_def log_counts set_counts warned response_counts)
  next
    case 2
    then obtain s2 where s2: "enterCooldown d s1 = Some s2" "s' = sendResponse ports (unless_disabled STATUS_INVALID)
        (sn_send (Down_log (DownlinkPartialFail (dn_sourceName (sn_component s1)) (dn_destName (sn_component s1)) off ?n)) s2)"
      using assms opened by (auto simp: sendFile_def Let_def split: Option.bind_split_asm)
    with s1 cooldown_counts [OF s2(1)] show ?thesis by (simp add: response_counts log_counts)
  next
    case 3
    define s2 where "s2 = (if off + len > ?n then sn_send (Down_log (DownlinkPartialWarning off len ?n (dn_sourceName (sn_component s1)) (dn_destName (sn_component s1)))) s1 else s1)"
    define s3 where "s3 = s2\<lparr>sn_component := (snd (getBuffer FILE_PACKET (sn_component s2)))\<lparr>dn_buffer := fst (getBuffer FILE_PACKET (sn_component s2))\<rparr>\<rparr>"
    obtain s4 where s4: "sendStartPacket s3 = Some s4" "busy s' = busy s4" "dn_mode (sn_component s') = DL_WAIT"
      using assms opened 3 unfolding sendFile_def
      by (cases "off + len > ?n") (auto simp: Let_def s3_def s2_def case_prod_unfold busy_def split: Option.bind_split_asm if_split_asm)
    have "busy s3 = busy s" using s1 by (simp add: s3_def s2_def busy_def getBuffer_def)
    with s4 kept_busy [OF kept_send, of _ s3 s4] show ?thesis by (simp add: account_busy sendStartPacket_def Let_def)
  qed
qed

lemma run_counts: "FileDownlink_run d ports s = Some s' \<Longrightarrow> account s' = account s"
proof (cases "dn_mode (sn_component s)")
  case DL_IDLE
  assume ran: "FileDownlink_run d ports s = Some s'"
  show ?thesis
  proof (cases "dn_queue (sn_component s)")
    case Nil
    with ran DL_IDLE show ?thesis by (simp add: FileDownlink_run_def)
  next
    case (Cons e rest)
    let ?s = "sn_set (\<lambda>c. c\<lparr>dn_queue := rest, dn_curEntry := e\<rparr>) s"
    have "account s = busy ?s" using DL_IDLE Cons by (simp add: account_def busy_def unanswered_def ac_simps)
    moreover have "sendFile d ports (fe_srcFilename e) (fe_destFilename e) (fe_offset e) (fe_length e) ?s = Some s'"
      using ran DL_IDLE Cons by (simp add: FileDownlink_run_def)
    ultimately show ?thesis using file_counts by metis
  qed
next
  case DL_WAIT
  assume ran: "FileDownlink_run d ports s = Some s'"
  show ?thesis
  proof (cases "dn_curTimer (sn_component s) \<ge> dn_timeout (sn_component s)")
    case True
    with ran DL_WAIT show ?thesis
      by (auto simp: FileDownlink_run_def Let_def ended_counts log_counts set_counts account_busy split: Option.bind_split_asm)
  next
    case False
    with ran DL_WAIT show ?thesis by (auto simp: FileDownlink_run_def Let_def account_def unanswered_def)
  qed
qed (auto simp: FileDownlink_run_def Let_def account_def unanswered_def split: if_splits)

lemma asked_counts:
  assumes "SendPartial_cmdHandler opCode cmdSeq src dst off len s = Some s'"
  shows "account s' = add_mset (opCode, cmdSeq) (account s)"
  using assms by (auto simp: SendPartial_cmdHandler_def new_entry_def enqueue_entry_def FW_ASSERT_def account_def unanswered_def of_command_def
      ac_simps split: Option.bind_split_asm if_split_asm)

lemma request_counts: "FileDownlink_SendFile src dst off len s = Some s' \<Longrightarrow> account s' = account s"
  by (auto simp: FileDownlink_SendFile_def new_entry_def enqueue_entry_def FW_ASSERT_def account_def unanswered_def of_command_def Let_def
      split: Option.bind_split_asm if_split_asm)

lemma cancel_counts: "Some (Cancel_cmdHandler opCode cmdSeq s) = Some s' \<Longrightarrow> account s' = add_mset (opCode, cmdSeq) (account s)"
  by (auto simp: Cancel_cmdHandler_def account_def unanswered_def)

lemma ping_counts: "Some (FileDownlink_pingIn key s) = Some s' \<Longrightarrow> account s' = account s"
  by (auto simp: FileDownlink_pingIn_def account_def)

lemma step_counts: "sender_step d ports x s = Some s' \<Longrightarrow> account s' = account s + mset (commands_in [x])"
  by (cases x) (simp_all add: run_counts return_counts request_counts asked_counts SendFile_cmdHandler_def cancel_counts ping_counts)

lemma history_counts: "run_sender d ports calls s = Some s' \<Longrightarrow> account s' = account s + mset (commands_in calls)"
proof (induction calls arbitrary: s)
  case (Cons x calls)
  then obtain s1 where "sender_step d ports x s = Some s1" "run_sender d ports calls s1 = Some s'" by (auto split: Option.bind_split_asm)
  moreover have "mset (commands_in (x # calls)) = mset (commands_in [x]) + mset (commands_in calls)" by (cases x) simp_all
  ultimately show ?case using Cons.IH step_counts [of d ports x s s1] by (simp add: ac_simps)
qed simp

section \<open>Properties\<close>

text \<open>A bench for the examples: a configured sender, and a disk on which there is one file.\<close>

definition bench_sender :: FileDownlink where
  "bench_sender = FileDownlink_configure 10 5 1 3 (FileDownlink_new (\<lambda>_. 1) (\<lambda>_. replicate FILEDOWNLINK_INTERNAL_BUFFER_SIZE 0) 0)"

definition bench_disk :: "bytes \<Rightarrow> bytes \<Rightarrow> disk posix" where
  "bench_disk path bs = (-1, \<lparr>dk_files = [path \<mapsto> bs], dk_open = None\<rparr>)"

lemma bench_simps:
  "sender_at_rest bench_sender" "dn_lastBufferId bench_sender = 0" "posix_good disk_view (bench_disk path bs)"
  "posix_view disk_view (bench_disk path bs) = ([path \<mapsto> bs], None)"
  by (simp_all add: bench_sender_def sender_at_rest_def FileDownlink_configure_def FileDownlink_new_def Os_File_new_def bench_disk_def
      posix_good_def posix_view_def disk_view_def INVALID_FILE_DESCRIPTOR_def)

lemma long_cancel_refused:
  assumes "5 < length mem" "mem ! 0 = T_CANCEL"
  shows "FilePacket_fromBuffer mem = Some (FW_DESERIALIZE_SIZE_MISMATCH, None)"
  using header_read [of mem] assms
  by (simp add: FilePacket_fromBuffer_def setBuffLen_def getCapacity_def FilePacket_fromSerialBuffer_def and_read_def packet_types
      CancelPacket_fromSerialBuffer_def getDeserializeSizeLeft_def)

lemma cuts_accepted: "length bs + 499 < 2 ^ 32 \<Longrightarrow> cuts_ok (file_cuts bs)"
  using length_file_cuts [of bs] by (auto simp: cuts_ok_def dest!: file_cuts_short)

lemma nothing_left: "\<not> dn_byteOffset (sn_component s) < dn_endOffset (sn_component s) \<Longrightarrow> sendDataPacket d s = None"
  by (simp add: sendDataPacket_def)

lemma response_sent: "sn_component (sendResponse ports r s) = sn_component s" "downlink_events (sn_sent (sendResponse ports r s)) = downlink_events (sn_sent s)"
proof -
  have "downlink_events (sn_sent (fold (\<lambda>i. sn_send (FileComplete i r n)) ports s)) = downlink_events (sn_sent s)" for n
    by (induction ports arbitrary: s) simp_all
  then show "sn_component (sendResponse ports r s) = sn_component s" "downlink_events (sn_sent (sendResponse ports r s)) = downlink_events (sn_sent s)"
    by (simp_all add: sendResponse_def Let_def fold_completes)
qed

text \<open>
  C17: Every command to send files is answered once. In any history of a configured sender, with any files, the commands that were
  answered are, with those in the queue and that of the file on its way, the commands that arrived, each as often as it arrived.
\<close>

theorem downlink_commands_answered:
  assumes "run_sender d ports calls (sender_start (FileDownlink_configure timeout cooldown cycleTime depth (FileDownlink_new address garbage time)) w) = Some s"
  shows "commands_answered (sn_sent s) + unanswered (sn_component s) = mset (commands_in calls)"
  using history_counts [OF assms]
  by (simp add: account_def unanswered_def sender_start_def FileDownlink_configure_def FileDownlink_new_def)

theorem downlink_commands_answered_witness:
  "\<exists>s. run_sender (posix_interface (disk_kernel 0)) [] [Cmd_Cancel 7 1, Cmd_SendFile 5 2 [0x73] [0x64]] (sender_start bench_sender (bench_disk [0x73] [1])) = Some s \<and>
     commands_answered (sn_sent s) + unanswered (sn_component s) = {#(7, 1), (5, 2)#}"
proof -
  have "\<exists>s. run_sender (posix_interface (disk_kernel 0)) [] [Cmd_Cancel 7 1, Cmd_SendFile 5 2 [0x73] [0x64]] (sender_start bench_sender (bench_disk [0x73] [1])) = Some s"
    by (simp add: SendFile_cmdHandler_def SendPartial_cmdHandler_def new_entry_def FW_ASSERT_def c_string_def FILE_ENTRY_FILENAME_LEN_def case_prod_unfold Let_def)
  then show ?thesis
    using downlink_commands_answered [of "posix_interface (disk_kernel 0)" "[]" "[Cmd_Cancel 7 1, Cmd_SendFile 5 2 [0x73] [0x64]]" 10 5 1 3 "\<lambda>_. 1"
        "\<lambda>_. replicate FILEDOWNLINK_INTERNAL_BUFFER_SIZE 0" 0 "bench_disk [0x73] [1]"]
    by (auto simp: bench_sender_def)
qed

text \<open>
  C35: A buffer that comes back late stops the program. When the time for the last buffer has run out, the sender reports it, answers the
  command and cools down; if that buffer then comes back before the sender is idle again, an assertion fails, though
  the comment in front of it says that such a buffer is ignored. Only an idle sender ignores it.
\<close>

theorem late_return_stops:
  assumes "dn_mode (sn_component s) = DL_WAIT" "dn_timeout (sn_component s) \<le> dn_curTimer (sn_component s)"
    and "of_mode (dn_osFile (sn_component s)) = OPEN_READ" "buf_context b + 1 = dn_lastBufferId (sn_component s)"
  shows "\<exists>s'. FileDownlink_run d ports s = Some s' \<and> dn_mode (sn_component s') = DL_COOLDOWN \<and>
    downlink_events (sn_sent s') = downlink_events (sn_sent s) @ [DownlinkTimeout (dn_sourceName (sn_component s)) (dn_destName (sn_component s))] \<and>
    FileDownlink_bufferReturn d ports b s' = None \<and>
    (let idle = sn_set (\<lambda>c. c\<lparr>dn_mode := DL_IDLE\<rparr>) s' in FileDownlink_bufferReturn d ports b idle = Some idle)"
proof -
  obtain s' where s': "FileDownlink_run d ports s = Some s'" "dn_mode (sn_component s') = DL_COOLDOWN"
    "dn_lastBufferId (sn_component s') = dn_lastBufferId (sn_component s)"
    "downlink_events (sn_sent s') = downlink_events (sn_sent s) @ [DownlinkTimeout (dn_sourceName (sn_component s)) (dn_destName (sn_component s))]"
    using assms(1-3) by (simp add: FileDownlink_run_def Let_def enterCooldown_def file_close_def response_sent)
  then have "FileDownlink_bufferReturn d ports b s' = None" using assms(4) by (simp add: FileDownlink_bufferReturn_def Let_def FW_ASSERT_def)
  moreover have "(let idle = sn_set (\<lambda>c. c\<lparr>dn_mode := DL_IDLE\<rparr>) s' in FileDownlink_bufferReturn d ports b idle = Some idle)"
    by (simp add: FileDownlink_bufferReturn_def Let_def)
  ultimately show ?thesis using s'(1,2,4) by blast
qed

theorem late_return_stops_witness:
  "\<exists>s'. FileDownlink_run (posix_interface (disk_kernel 0)) [] (sn_set (\<lambda>c. c\<lparr>dn_mode := DL_WAIT, dn_curTimer := 10, dn_lastBufferId := 1,
       dn_osFile := Os_File_new\<lparr>of_mode := OPEN_READ\<rparr>\<rparr>) (sender_start bench_sender (bench_disk [0x73] [1]))) = Some s' \<and>
     FileDownlink_bufferReturn (posix_interface (disk_kernel 0)) [] (Fw_Buffer_empty\<lparr>buf_context := 0\<rparr>) s' = None"
  using late_return_stops [of "sn_set (\<lambda>c. c\<lparr>dn_mode := DL_WAIT, dn_curTimer := 10, dn_lastBufferId := 1, dn_osFile := Os_File_new\<lparr>of_mode := OPEN_READ\<rparr>\<rparr>)
      (sender_start bench_sender (bench_disk [0x73] [1]))" "Fw_Buffer_empty\<lparr>buf_context := 0\<rparr>" "posix_interface (disk_kernel 0)" "[]"]
  by (auto simp: sender_start_def bench_sender_def FileDownlink_configure_def FileDownlink_new_def)

text \<open>
  C36: A part that ends behind the largest offset is taken for one that fits. The check that cuts a part at the end of the file adds
  the offset and the length in 32 bits; if the sum wraps around, the transfer starts without a warning, and the first buffer that comes back
  stops the program at the assertion of \<^verbatim>\<open>sendDataPacket\<close>, on every POSIX file system that reports no errors.
\<close>

theorem wrapped_part_stops:
  assumes "posix_reader k kview readable" "sender_at_rest (sn_component s)" "posix_good kview (sn_world s)" "posix_view kview (sn_world s) = (F, None)"
    and "c_string src = path" "c_string dst = dest" "path \<in> readable" "F path = Some bs" "length bs < 2 ^ 32"
    and "length path \<le> 100" "length dest \<le> 100" "unat off < length bs" "2 ^ 32 \<le> unat off + unat len"
  shows "\<exists>s'. run_sender (posix_interface k) ports [Cmd_SendPartial opCode cmdSeq src dst off len, Down_run] s = Some s' \<and>
    downlink_events (sn_sent s') = downlink_events (sn_sent s) @ [SendStarted len path dest] \<and>
    (\<forall>b. buf_context b = dn_lastBufferId (sn_component s) \<longrightarrow> FileDownlink_bufferReturn (posix_interface k) ports b s' = None)"
proof -
  define e where "e = \<lparr>fe_srcFilename = path, fe_destFilename = dest, fe_offset = off, fe_length = len, fe_source = FROM_COMMAND,
    fe_opCode = opCode, fe_cmdSeq = cmdSeq, fe_context = 0xFFFFFFFF\<rparr>"
  define s1 where "s1 = sn_set (\<lambda>c. c\<lparr>dn_queue := [e]\<rparr>) s"
  have asked: "SendPartial_cmdHandler opCode cmdSeq src dst off len s = Some s1"
    using assms(2,5,6,10,11) by (simp add: SendPartial_cmdHandler_def new_entry_def FILE_ENTRY_FILENAME_LEN_def
        enqueue_entry_def sender_at_rest_def s1_def e_def sn_set_def)
  have bound: "unat (off + len) = unat off + unat len - 2 ^ 32"
    using assms(13) unsigned_less [of off, where ?'a = nat] unsigned_less [of len, where ?'a = nat] by (simp add: unat_word_ariths le_mod_geq)
  have wraps: "off < of_nat (length bs)" "off + len \<le> of_nat (length bs)" "off + len < off" "0 < len"
    using bound assms(9,12,13) unsigned_less [of off, where ?'a = nat] unsigned_less [of len, where ?'a = nat]
    by (simp_all add: word_less_nat_alt word_le_nat_alt unat_of_nat)
  obtain s2 c where s2: "FileDownlink_run (posix_interface k) ports s1 = Some s2"
    "sn_component s2 = c\<lparr>dn_mode := DL_WAIT, dn_sequenceIndex := 1, dn_curTimer := 0, dn_byteOffset := off, dn_lastCompletedType := T_START, dn_endOffset := off + len\<rparr>"
    "dn_lastBufferId c = dn_lastBufferId (sn_component s) + 1" "downlink_events (sn_sent s2) = downlink_events (sn_sent s) @ [SendStarted len path dest]"
    using file_source.request_starts [OF posix_source [OF assms(1)], of s1 e "[]" F path bs off len dest ports] assms(2-4,7-11) wraps
    by (auto simp: s1_def e_def sender_at_rest_def adds_def)
  have "FileDownlink_bufferReturn (posix_interface k) ports b s2 = None" if "buf_context b = dn_lastBufferId (sn_component s)" for b
    using that s2(2,3) wraps(3) by (simp add: FileDownlink_bufferReturn_def downlinkPacket_def nothing_left packet_types Let_def)
  with asked s2(1,4) show ?thesis by simp
qed

theorem wrapped_part_stops_witness:
  "run_sender (posix_interface (disk_kernel 0)) [] [Cmd_SendPartial 5 2 [0x73] [0x64] 1 0xFFFFFFFF, Down_run, Buffer_back (Fw_Buffer_empty\<lparr>buf_context := 0\<rparr>)]
     (sender_start bench_sender (bench_disk [0x73] [1, 2])) = None"
  using wrapped_part_stops [OF disk_is_reader, of "sender_start bench_sender (bench_disk [0x73] [1, 2])" "[[0x73] \<mapsto> [1, 2]]" "[0x73]" "[0x73]" "[0x64]" "[0x64]"
      "[1, 2]" 1 "0xFFFFFFFF" 0 "[]" 5 2]
  by (auto simp: sender_start_def bench_simps c_string_def split: Option.bind_split)

text \<open>
  C37: The cancel packet is not understood. When a transfer is cancelled, the sender sends the cancel packet in a buffer of 512 bytes
  instead of the seven that it needs; a receiver of the same program refuses it for its size, and goes on waiting for the rest of the file.
\<close>

theorem cancel_not_understood:
  fixes r :: "'v file_receiver"
  assumes "dn_mode (sn_component s) = DL_WAIT" "dn_lastCompletedType (sn_component s) = T_START" "buf_context b + 1 = dn_lastBufferId (sn_component s)"
    and "length (dn_memoryStore (sn_component s) CANCEL_PACKET) = FILEDOWNLINK_INTERNAL_BUFFER_SIZE" "dn_address (sn_component s) CANCEL_PACKET \<noteq> 0"
  shows "\<exists>s' sb. run_sender d ports [Cmd_Cancel opCode cmdSeq, Buffer_back b] s = Some s' \<and>
    buffers_out (sn_sent s') = buffers_out (sn_sent s) @ [sb] \<and> buf_size sb = FILEDOWNLINK_INTERNAL_BUFFER_SIZE \<and>
    take 7 (buf_data sb) = file_bytes (CancelPacket_initialize (dn_sequenceIndex (sn_component s))) \<and>
    (\<forall>fb. hands_over fb (buf_data sb) \<longrightarrow> FileUplink_bufferSendIn e fb r =
      Some (rv_send (bufferSendOut fb) (rv_send (File_log (DecodeError FW_DESERIALIZE_SIZE_MISMATCH)) r)))"
proof -
  let ?c = "sn_component s" and ?pkt = "CancelPacket_initialize (dn_sequenceIndex (sn_component s))" and ?N = FILEDOWNLINK_INTERNAL_BUFFER_SIZE
  define sb where "sb = \<lparr>buf_addr = dn_address ?c CANCEL_PACKET, buf_size = ?N, buf_context = dn_lastBufferId ?c,
    buf_memory = file_bytes ?pkt @ drop 7 (dn_memoryStore ?c CANCEL_PACKET)\<rparr>"
  have N: "?N = 512" by (simp add: FILEDOWNLINK_INTERNAL_BUFFER_SIZE_def FW_COM_BUFFER_MAX_SIZE_def)
  have size: "FilePacket_bufferSize ?pkt = 5" "file_packet_ok ?pkt" by (simp_all add: CancelPacket_initialize_def Header_bufferSize_def)
  have seven: "length (file_bytes ?pkt) = 7" using length_file_bytes [OF size(2)] size(1) by simp
  let ?b = "\<lparr>buf_addr = dn_address ?c CANCEL_PACKET, buf_size = ?N, buf_context = dn_lastBufferId ?c, buf_memory = dn_memoryStore ?c CANCEL_PACKET\<rparr>"
  have "packet_into ?pkt ?b = Some (buf_memory sb)"
    using packet_written_into [OF size(2), of ?b] size(1) assms(4,5) N by (simp add: sb_def)
  then obtain s' where s': "run_sender d ports [Cmd_Cancel opCode cmdSeq, Buffer_back b] s = Some s'" "buffers_out (sn_sent s') = buffers_out (sn_sent s) @ [sb]"
    using assms(1-3) size(1) N
    by (simp add: Cancel_cmdHandler_def FileDownlink_bufferReturn_def downlinkPacket_def packet_types sendCancelPacket_def getBuffer_def
        packetSent_def waits_again_def sb_def Let_def)
  have data: "buf_data sb = file_bytes ?pkt @ drop 7 (dn_memoryStore ?c CANCEL_PACKET)"
    using assms(4) seven N by (simp add: sb_def buf_data_def)
  let ?mem = "file_packet_bytes ?pkt @ drop 7 (dn_memoryStore ?c CANCEL_PACKET)"
  have mem: "5 < length ?mem" "?mem ! 0 = T_CANCEL"
    using assms(4) N length_file_packet_bytes [OF size(2)] size(1) by (simp_all add: CancelPacket_initialize_def file_packet_bytes_def header_values_def)
  have "FileUplink_bufferSendIn e fb r = Some (rv_send (bufferSendOut fb) (rv_send (File_log (DecodeError FW_DESERIALIZE_SIZE_MISMATCH)) r))"
    if "hands_over fb (buf_data sb)" for fb
  proof -
    have fb: "buf_size fb \<le> length (buf_memory fb)" "buf_data fb = U16_bytes BIG FW_PACKET_FILE @ ?mem" "buf_addr fb \<noteq> 0"
      using that by (simp_all add: hands_over_def data file_bytes_def)
    have "buf_size fb = length (buf_data fb)" using fb(1) by (simp add: buf_data_def)
    then have "isValid fb" using fb(2,3) by (simp add: isValid_def)
    with fb(1,2) long_cancel_refused [OF mem] show ?thesis by (simp add: file_packet_received)
  qed
  moreover have "take 7 (buf_data sb) = file_bytes ?pkt" using seven by (simp add: data)
  ultimately show ?thesis using s' by (intro exI conjI) (auto simp: sb_def)
qed

theorem cancel_not_understood_witness:
  "\<exists>s' sb. run_sender (posix_interface (disk_kernel 0)) [] [Cmd_Cancel 6 3, Buffer_back (Fw_Buffer_empty\<lparr>buf_context := 0\<rparr>)]
      (sn_set (\<lambda>c. c\<lparr>dn_mode := DL_WAIT, dn_lastCompletedType := T_START, dn_lastBufferId := 1\<rparr>) (sender_start bench_sender (bench_disk [0x73] [1]))) = Some s' \<and>
    buffers_out (sn_sent s') = [sb] \<and> buf_size sb = 512"
proof -
  let ?s = "sn_set (\<lambda>c. c\<lparr>dn_mode := DL_WAIT, dn_lastCompletedType := T_START, dn_lastBufferId := 1\<rparr>) (sender_start bench_sender (bench_disk [0x73] [1]))"
  have "buffers_out (sn_sent ?s) = []" "FILEDOWNLINK_INTERNAL_BUFFER_SIZE = 512"
    by (simp_all add: sender_start_def FILEDOWNLINK_INTERNAL_BUFFER_SIZE_def FW_COM_BUFFER_MAX_SIZE_def)
  then show ?thesis
    using cancel_not_understood [of ?s "Fw_Buffer_empty\<lparr>buf_context := 0\<rparr>" "posix_interface (disk_kernel 0)" "[]" 6 3 undefined "undefined :: nat file_receiver"]
    by (simp add: sender_start_def bench_sender_def FileDownlink_configure_def FileDownlink_new_def del: run_sender.simps) blast
qed



end
