(* ===== verification/Com_Aggregator.thy ===== *)
theory Com_Aggregator
  imports Serialization Tm_Framer
begin

text \<open>
  The aggregator \<^verbatim>\<open>Svc/ComAggregator/ComAggregator.{fpp,hpp,cpp}\<close>: it collects packets in a buffer until the buffer is full or a
  timeout comes, sends it, and waits for the status of the link. It is an active component: the calls of its ports put signals
  into a queue, from which its thread dispatches them to the state machine one by one.

  Port functions work on the pair of the component and the world of the others, as for the framer.
\<close>

section \<open>The component\<close>

definition AggregationSize :: nat where
  "AggregationSize = TmFrameFixedSize - 6 - 6 - 1 - 2"

datatype AggregationState = WAIT_STATUS | FILL

datatype AggregationSignal = Timeout | Fill Fw_Buffer FrameContext | Status bool

record ComAggregator =
  ag_state :: AggregationState
  m_frameSerializer :: LinearBuffer
  ag_address :: nat
  ag_size :: nat
  ag_bufferState :: BufferOwnershipState
  m_lastContext :: FrameContext
  m_held :: "Fw_Buffer \<times> FrameContext"
  m_allow_timeout :: bool
  ag_queue :: "AggregationSignal list"

definition ComAggregator_new :: "nat \<Rightarrow> bytes \<Rightarrow> ComAggregator" where
  "ComAggregator_new address garbage = \<lparr>ag_state = WAIT_STATUS,
     m_frameSerializer = \<lparr>lb_mem = garbage, m_serLoc = 0, m_deserLoc = 0\<rparr>, ag_address = address, ag_size = AggregationSize,
     ag_bufferState = OWNED, m_lastContext = FrameContext_default, m_held = (Fw_Buffer_empty, FrameContext_default),
     m_allow_timeout = False, ag_queue = []\<rparr>"

record 'w aggregator_ports =
  ag_dataOut :: "Fw_Buffer \<Rightarrow> FrameContext \<Rightarrow> ComAggregator \<times> 'w \<Rightarrow> (ComAggregator \<times> 'w) option"
  ag_dataReturnOut :: "Fw_Buffer \<Rightarrow> FrameContext \<Rightarrow> ComAggregator \<times> 'w \<Rightarrow> (ComAggregator \<times> 'w) option"
  ag_comStatusOut :: "bool \<Rightarrow> ComAggregator \<times> 'w \<Rightarrow> (ComAggregator \<times> 'w) option"

subsection \<open>Port handlers\<close>

definition ag_preamble :: "'w aggregator_ports \<Rightarrow> ComAggregator \<times> 'w \<Rightarrow> (ComAggregator \<times> 'w) option" where
  "ag_preamble p = ag_comStatusOut p True"

definition ag_comStatusIn :: "bool \<Rightarrow> ComAggregator \<Rightarrow> ComAggregator" where
  "ag_comStatusIn condition g = g\<lparr>ag_queue := ag_queue g @ [Status condition]\<rparr>"

definition ag_dataIn :: "Fw_Buffer \<Rightarrow> FrameContext \<Rightarrow> ComAggregator \<Rightarrow> ComAggregator" where
  "ag_dataIn data context g = g\<lparr>ag_queue := ag_queue g @ [Fill data context]\<rparr>"

definition ag_dataReturnIn :: "Fw_Buffer \<Rightarrow> FrameContext \<Rightarrow> ComAggregator \<Rightarrow> ComAggregator option" where
  "ag_dataReturnIn data context g = do {
     FW_ASSERT (ag_bufferState g = NOT_OWNED);
     Some (g\<lparr>ag_bufferState := OWNED\<rparr>)
   }"

definition ag_timeout :: "ComAggregator \<Rightarrow> ComAggregator" where
  "ag_timeout g = (if m_allow_timeout g then g\<lparr>ag_queue := ag_queue g @ [Timeout]\<rparr> else g)"

subsection \<open>Actions and guards\<close>

definition doFill :: "'w aggregator_ports \<Rightarrow> Fw_Buffer \<times> FrameContext \<Rightarrow> ComAggregator \<times> 'w \<Rightarrow> (ComAggregator \<times> 'w) option" where
  "doFill p v = (\<lambda>(g, w). do {
     let (status, s) = serializeFrom_bytes (buf_data (fst v)) (m_frameSerializer g);
     FW_ASSERT (status = FW_SERIALIZE_OK);
     gw \<leftarrow> ag_dataReturnOut p (fst v) (snd v) (g\<lparr>m_frameSerializer := s, m_lastContext := snd v\<rparr>, w);
     ag_comStatusOut p True gw
   })"

definition doClear :: "'w aggregator_ports \<Rightarrow> ComAggregator \<times> 'w \<Rightarrow> (ComAggregator \<times> 'w) option" where
  "doClear p = (\<lambda>(g, w).
     let g = g\<lparr>m_allow_timeout := True, m_frameSerializer := resetSer (m_frameSerializer g), ag_size := AggregationSize\<rparr> in
     if isValid (fst (m_held g)) then do {
       (g, w) \<leftarrow> doFill p (m_held g) (g, w);
       Some (g\<lparr>m_held := (Fw_Buffer_empty, FrameContext_default)\<rparr>, w)
     }
     else Some (g, w))"

definition doSend :: "'w aggregator_ports \<Rightarrow> ComAggregator \<times> 'w \<Rightarrow> (ComAggregator \<times> 'w) option" where
  "doSend p = (\<lambda>(g, w).
     if getSize (m_frameSerializer g) > 0 then
       ag_dataOut p \<lparr>buf_addr = ag_address g, buf_size = getSize (m_frameSerializer g), buf_context = 0xFFFFFFFF,
           buf_memory = lb_mem (m_frameSerializer g)\<rparr> (m_lastContext g)
         (g\<lparr>ag_bufferState := NOT_OWNED, ag_size := getSize (m_frameSerializer g), m_allow_timeout := False\<rparr>, w)
     else Some (g, w))"

definition doHold :: "Fw_Buffer \<times> FrameContext \<Rightarrow> ComAggregator \<times> 'w \<Rightarrow> (ComAggregator \<times> 'w) option" where
  "doHold v = (\<lambda>(g, w). do {
     FW_ASSERT (\<not> isValid (fst (m_held g)));
     Some (g\<lparr>m_held := v\<rparr>, w)
   })"

definition isFull :: "Fw_Buffer \<times> FrameContext \<Rightarrow> ComAggregator \<Rightarrow> bool option" where
  "isFull v g = do {
     FW_ASSERT (buf_size (fst v) \<le> AggregationSize);
     let remaining = getCapacity (m_frameSerializer g) - getSize (m_frameSerializer g);
     Some (remaining < buf_size (fst v))
   }"

definition willFill :: "Fw_Buffer \<times> FrameContext \<Rightarrow> ComAggregator \<Rightarrow> bool option" where
  "willFill v g = do {
     FW_ASSERT (buf_size (fst v) \<le> AggregationSize);
     let remaining = getCapacity (m_frameSerializer g) - getSize (m_frameSerializer g);
     Some (remaining = buf_size (fst v))
   }"

definition isNotEmpty :: "ComAggregator \<Rightarrow> bool" where
  "isNotEmpty g \<longleftrightarrow> getSize (m_frameSerializer g) > 0"

text \<open>The end of a transition.\<close>

definition enter :: "AggregationState \<Rightarrow> ComAggregator \<times> 'w \<Rightarrow> (ComAggregator \<times> 'w) option" where
  "enter st = (\<lambda>(g, w). Some (g\<lparr>ag_state := st\<rparr>, w))"

subsection \<open>The state machine\<close>

definition IS_FULL_THEN_SEND :: "'w aggregator_ports \<Rightarrow> Fw_Buffer \<times> FrameContext \<Rightarrow> ComAggregator \<times> 'w \<Rightarrow> (ComAggregator \<times> 'w) option" where
  "IS_FULL_THEN_SEND p v gw = do {
     full \<leftarrow> isFull v (fst gw);
     if full then do { gw \<leftarrow> doHold v gw; gw \<leftarrow> doSend p gw; enter WAIT_STATUS gw }
     else do {
       fills \<leftarrow> willFill v (fst gw);
       if fills then do { gw \<leftarrow> doFill p v gw; gw \<leftarrow> doSend p gw; enter WAIT_STATUS gw }
       else do { gw \<leftarrow> doFill p v gw; enter FILL gw }
     }
   }"

fun dispatch :: "'w aggregator_ports \<Rightarrow> AggregationSignal \<Rightarrow> ComAggregator \<times> 'w \<Rightarrow> (ComAggregator \<times> 'w) option" where
  "dispatch p signal (g, w) = (case ag_state g of
       WAIT_STATUS \<Rightarrow> (case signal of
           Timeout \<Rightarrow> Some (g, w)
         | Fill b ctx \<Rightarrow> doHold (b, ctx) (g, w)
         | Status good \<Rightarrow> if good then do { gw \<leftarrow> doClear p (g, w); enter FILL gw } else enter WAIT_STATUS (g, w))
     | FILL \<Rightarrow> (case signal of
           Timeout \<Rightarrow> if isNotEmpty g then do { gw \<leftarrow> doSend p (g, w); enter WAIT_STATUS gw } else Some (g, w)
         | Fill b ctx \<Rightarrow> IS_FULL_THEN_SEND p (b, ctx) (g, w)
         | Status good \<Rightarrow> do { FW_ASSERT False; Some (g, w) }))"

text \<open>One round of the component's thread.\<close>

definition dispatch_next :: "'w aggregator_ports \<Rightarrow> ComAggregator \<times> 'w \<Rightarrow> (ComAggregator \<times> 'w) option" where
  "dispatch_next p = (\<lambda>(g, w). case ag_queue g of [] \<Rightarrow> Some (g, w)
     | signal # q \<Rightarrow> dispatch p signal (g\<lparr>ag_queue := q\<rparr>, w))"

section \<open>The contract of the neighbours\<close>

text \<open>
  The traffic at the ports: frames handed down, buffers returned and statuses handed up, and whether the link has sent its initial
  status.
\<close>

record traffic =
  sent :: "bytes list"
  returned :: "Fw_Buffer list"
  granted :: nat
  greeted :: bool

definition no_traffic :: traffic where
  "no_traffic = \<lparr>sent = [], returned = [], granted = 0, greeted = False\<rparr>"

definition packet_fits :: "Fw_Buffer \<Rightarrow> bool" where
  "packet_fits b \<longleftrightarrow> isValid b \<and> buf_size b \<le> AggregationSize \<and> length (buf_data b) = buf_size b"

definition frame_fits :: "bytes \<Rightarrow> bool" where
  "frame_fits f \<longleftrightarrow> 0 < length f \<and> length f \<le> AggregationSize"

text \<open>
  What the aggregator relies on: the link takes every frame of the right size, returns its buffer and answers with one status, which
  can only be good when it \<open>can_send\<close> the frame; the stack above takes buffers and statuses. What else \<open>moves\<close> in the world is no
  traffic of the aggregator, except that the link greets once.
\<close>

locale aggregator_neighbours =
  fixes p :: "'w aggregator_ports" and tr :: "'w \<Rightarrow> traffic" and moves :: "'w \<Rightarrow> 'w \<Rightarrow> bool" and ok :: "'w \<Rightarrow> bool"
    and can_send :: "bytes \<Rightarrow> bool"
  assumes takes_frame: "ok w \<Longrightarrow> ag_bufferState g = NOT_OWNED \<Longrightarrow> packet_fits b \<Longrightarrow>
      \<exists>good w'. ag_dataOut p b ctx (g, w) = Some (g\<lparr>ag_queue := ag_queue g @ [Status good], ag_bufferState := OWNED\<rparr>, w') \<and> ok w' \<and>
        tr w' = (tr w)\<lparr>sent := sent (tr w) @ [buf_data b]\<rparr> \<and> (good \<longrightarrow> can_send (buf_data b))"
    and takes_buffer: "ok w \<Longrightarrow> \<exists>w'. ag_dataReturnOut p b ctx (g, w) = Some (g, w') \<and> ok w' \<and>
        tr w' = (tr w)\<lparr>returned := returned (tr w) @ [b]\<rparr>"
    and takes_status: "ok w \<Longrightarrow> \<exists>w'. ag_comStatusOut p True (g, w) = Some (g, w') \<and> ok w' \<and>
        tr w' = (tr w)\<lparr>granted := Suc (granted (tr w))\<rparr>"
    and moves_ok: "moves w w' \<Longrightarrow> ok w \<Longrightarrow> ok w' \<and> (tr w' = tr w \<or> tr w' = (tr w)\<lparr>greeted := True\<rparr>)"

section \<open>Histories\<close>

definition fills :: "AggregationSignal list \<Rightarrow> Fw_Buffer list" where
  "fills hs = concat (map (\<lambda>s. case s of Fill b ctx \<Rightarrow> [b] | _ \<Rightarrow> []) hs)"

definition verdicts :: "AggregationSignal list \<Rightarrow> bool list" where
  "verdicts hs = concat (map (\<lambda>s. case s of Status good \<Rightarrow> [good] | _ \<Rightarrow> []) hs)"

definition goods :: "AggregationSignal list \<Rightarrow> nat" where
  "goods hs = length (filter id (verdicts hs))"

lemma history_simps [simp]:
  "fills [] = []" "fills (Timeout # hs) = fills hs" "fills (Fill b ctx # hs) = b # fills hs" "fills (Status good # hs) = fills hs"
  "verdicts [] = []" "verdicts (Timeout # hs) = verdicts hs" "verdicts (Fill b ctx # hs) = verdicts hs"
  "verdicts (Status good # hs) = good # verdicts hs"
  "goods [] = 0" "goods (Timeout # hs) = goods hs" "goods (Fill b ctx # hs) = goods hs"
  "goods (Status good # hs) = (if good then 1 else 0) + goods hs"
  "fills (hs @ hs') = fills hs @ fills hs'" "verdicts (hs @ hs') = verdicts hs @ verdicts hs'" "goods (hs @ hs') = goods hs + goods hs'"
  by (simp_all add: fills_def verdicts_def goods_def)

text \<open>
  The histories of the component: \<open>hs\<close> are the signals dispatched so far. The stack above hands over a packet for every status it was
  granted, the rate group ticks, and the greeting of the link comes in as a status.
\<close>

inductive aggregator_history :: "'w aggregator_ports \<Rightarrow> ('w \<Rightarrow> traffic) \<Rightarrow> ('w \<Rightarrow> 'w \<Rightarrow> bool) \<Rightarrow> ComAggregator \<times> 'w \<Rightarrow>
    AggregationSignal list \<Rightarrow> ComAggregator \<Rightarrow> 'w \<Rightarrow> bool" for p tr moves start where
  preamble: "ag_preamble p start = Some (g, w) \<Longrightarrow> aggregator_history p tr moves start [] g w"
| fill: "aggregator_history p tr moves start hs g w \<Longrightarrow> packet_fits b \<Longrightarrow> length (fills (hs @ ag_queue g)) < granted (tr w) \<Longrightarrow>
    aggregator_history p tr moves start hs (ag_dataIn b ctx g) w"
| tick: "aggregator_history p tr moves start hs g w \<Longrightarrow> aggregator_history p tr moves start hs (ag_timeout g) w"
| greeting: "aggregator_history p tr moves start hs g w \<Longrightarrow> moves w w' \<Longrightarrow> \<not> greeted (tr w) \<Longrightarrow> greeted (tr w') \<Longrightarrow>
    aggregator_history p tr moves start hs (ag_comStatusIn True g) w'"
| move: "aggregator_history p tr moves start hs g w \<Longrightarrow> moves w w' \<Longrightarrow> greeted (tr w') = greeted (tr w) \<Longrightarrow>
    aggregator_history p tr moves start hs g w'"
| step: "aggregator_history p tr moves start hs g w \<Longrightarrow> ag_queue g = s # q \<Longrightarrow> dispatch_next p (g, w) = Some (g', w') \<Longrightarrow>
    aggregator_history p tr moves start (hs @ [s]) g' w'"

subsection \<open>The invariant\<close>

text \<open>What has been accepted and not been sent.\<close>

definition pending :: "ComAggregator \<Rightarrow> bytes" where
  "pending g = (case ag_state g of FILL \<Rightarrow> written (m_frameSerializer g)
     | WAIT_STATUS \<Rightarrow> if isValid (fst (m_held g)) then buf_data (fst (m_held g)) else [])"

definition held_buffers :: "ComAggregator \<Rightarrow> Fw_Buffer list" where
  "held_buffers g = (if isValid (fst (m_held g)) then [fst (m_held g)] else [])"

definition aggregator_ok :: "ComAggregator \<Rightarrow> bool" where
  "aggregator_ok g \<longleftrightarrow> ag_address g \<noteq> 0 \<and> ag_bufferState g = OWNED \<and> length (lb_mem (m_frameSerializer g)) = AggregationSize \<and>
     m_serLoc (m_frameSerializer g) \<le> AggregationSize \<and> (isValid (fst (m_held g)) \<longrightarrow> packet_fits (fst (m_held g)))"

text \<open>A signal that the contract of the communication stack allows: a packet for every status, a status for every frame and one more.\<close>

definition lawful_signal :: "AggregationSignal list \<Rightarrow> traffic \<Rightarrow> AggregationSignal \<Rightarrow> bool" where
  "lawful_signal hs x s = (case s of Timeout \<Rightarrow> True
     | Fill b ctx \<Rightarrow> packet_fits b \<and> length (fills hs) < granted x
     | Status good \<Rightarrow> length (verdicts hs) < Suc (length (sent x)))"

definition serving :: "AggregationSignal list \<Rightarrow> ComAggregator \<Rightarrow> traffic \<Rightarrow> bool" where
  "serving hs g x \<longleftrightarrow> aggregator_ok g \<and> concat (sent x) @ pending g = concat (map buf_data (fills hs)) \<and>
     returned x @ held_buffers g = fills hs \<and> list_all frame_fits (sent x) \<and>
     granted x = length (fills hs) + (if isValid (fst (m_held g)) then 0 else 1) \<and>
     length (sent x) \<le> length (verdicts hs) \<and> length (verdicts hs) \<le> Suc (length (sent x)) \<and>
     length (sent x) + (if ag_state g = FILL then 1 else 0) \<le> goods hs \<and>
     (ag_state g = FILL \<longrightarrow> \<not> isValid (fst (m_held g)) \<and> length (verdicts hs) = Suc (length (sent x)))"

text \<open>Ready to send: what is in the store has not been sent, and the link has answered.\<close>

definition sendable :: "AggregationSignal list \<Rightarrow> ComAggregator \<Rightarrow> traffic \<Rightarrow> bool" where
  "sendable hs g x \<longleftrightarrow> aggregator_ok g \<and> 0 < m_serLoc (m_frameSerializer g) \<and>
     concat (sent x) @ written (m_frameSerializer g) @ concat (map buf_data (held_buffers g)) = concat (map buf_data (fills hs)) \<and>
     returned x @ held_buffers g = fills hs \<and> list_all frame_fits (sent x) \<and>
     granted x = length (fills hs) + (if isValid (fst (m_held g)) then 0 else 1) \<and>
     length (verdicts hs) = Suc (length (sent x)) \<and> length (sent x) < goods hs"

lemmas service_defs = serving_def pending_def held_buffers_def aggregator_ok_def

lemma serving_queue [simp]: "serving hs (g\<lparr>ag_queue := q\<rparr>) x = serving hs g x" "sendable hs (g\<lparr>ag_queue := q\<rparr>) x = sendable hs g x"
  "serving hs (g\<lparr>m_allow_timeout := b\<rparr>) x = serving hs g x"
  by (simp_all add: service_defs sendable_def split: AggregationState.split)

lemma serving_greeted [simp]: "serving hs g (x\<lparr>greeted := k\<rparr>) = serving hs g x"
  by (simp add: serving_def)

lemma written_fits: "aggregator_ok g \<Longrightarrow> 0 < m_serLoc (m_frameSerializer g) \<Longrightarrow> frame_fits (written (m_frameSerializer g))"
  by (simp add: aggregator_ok_def frame_fits_def written_def)

lemma packet_size: "packet_fits b \<Longrightarrow> 0 < buf_size b \<and> isValid b \<and> length (buf_data b) = buf_size b \<and> buf_size b \<le> AggregationSize"
  by (simp add: isValid_def packet_fits_def)

lemma empty_invalid [simp]: "\<not> isValid Fw_Buffer_empty"
  by (simp add: isValid_def Fw_Buffer_empty_def)

lemma resetSer_simps [simp]: "written (resetSer s) = []" "m_serLoc (resetSer s) = 0" "lb_mem (resetSer s) = lb_mem s"
  by (simp_all add: written_def resetSer_def)

subsection \<open>The steps keep it\<close>

context aggregator_neighbours
begin

lemma fill_takes:
  assumes "ok w" "packet_fits (fst v)" "length (lb_mem (m_frameSerializer g)) = AggregationSize"
    "m_serLoc (m_frameSerializer g) + buf_size (fst v) \<le> AggregationSize"
  shows "\<exists>w'. doFill p v (g, w) = Some (g\<lparr>m_frameSerializer := store_bytes (buf_data (fst v)) (m_frameSerializer g),
      m_lastContext := snd v\<rparr>, w') \<and> ok w' \<and> tr w' = (tr w)\<lparr>returned := returned (tr w) @ [fst v], granted := Suc (granted (tr w))\<rparr>"
proof -
  let ?g = "g\<lparr>m_frameSerializer := store_bytes (buf_data (fst v)) (m_frameSerializer g), m_lastContext := snd v\<rparr>"
  have "serializeFrom_bytes (buf_data (fst v)) (m_frameSerializer g) = (FW_SERIALIZE_OK, store_bytes (buf_data (fst v)) (m_frameSerializer g))"
    using assms(2-4) by (simp add: serialize_simps packet_fits_def)
  moreover obtain w1 where one: "ag_dataReturnOut p (fst v) (snd v) (?g, w) = Some (?g, w1)" "ok w1"
    "tr w1 = (tr w)\<lparr>returned := returned (tr w) @ [fst v]\<rparr>"
    using takes_buffer [OF assms(1)] by blast
  moreover obtain w2 where "ag_comStatusOut p True (?g, w1) = Some (?g, w2)" "ok w2" "tr w2 = (tr w1)\<lparr>granted := Suc (granted (tr w1))\<rparr>"
    using takes_status [OF one(2)] by blast
  ultimately show ?thesis by (auto simp: doFill_def)
qed

lemma send_takes:
  assumes "ok w" "aggregator_ok g" "0 < m_serLoc (m_frameSerializer g)"
  shows "\<exists>good w'. doSend p (g, w) = Some (g\<lparr>ag_size := getSize (m_frameSerializer g), m_allow_timeout := False,
        ag_queue := ag_queue g @ [Status good]\<rparr>, w') \<and> ok w' \<and>
      tr w' = (tr w)\<lparr>sent := sent (tr w) @ [written (m_frameSerializer g)]\<rparr> \<and> (good \<longrightarrow> can_send (written (m_frameSerializer g)))"
proof -
  let ?b = "\<lparr>buf_addr = ag_address g, buf_size = getSize (m_frameSerializer g), buf_context = 0xFFFFFFFF, buf_memory = lb_mem (m_frameSerializer g)\<rparr>"
  let ?g = "g\<lparr>ag_bufferState := NOT_OWNED, ag_size := getSize (m_frameSerializer g), m_allow_timeout := False\<rparr>"
  have b: "packet_fits ?b" "buf_data ?b = written (m_frameSerializer g)"
    using assms(2,3) by (simp_all add: isValid_def aggregator_ok_def getSize_def buf_data_def written_def packet_fits_def)
  moreover have "ag_bufferState ?g = NOT_OWNED" by simp
  ultimately obtain good w' where sent: "ag_dataOut p ?b (m_lastContext g) (?g, w) =
      Some (?g\<lparr>ag_queue := ag_queue ?g @ [Status good], ag_bufferState := OWNED\<rparr>, w')" "ok w'"
    "tr w' = (tr w)\<lparr>sent := sent (tr w) @ [written (m_frameSerializer g)]\<rparr>" "good \<longrightarrow> can_send (written (m_frameSerializer g))"
    using takes_frame [OF assms(1), of ?g ?b] by metis
  moreover have "?g\<lparr>ag_queue := ag_queue ?g @ [Status good], ag_bufferState := OWNED\<rparr> =
      g\<lparr>ag_size := getSize (m_frameSerializer g), m_allow_timeout := False, ag_queue := ag_queue g @ [Status good]\<rparr>"
    using assms(2) by (simp add: aggregator_ok_def)
  ultimately show ?thesis using assms(3) by (auto simp: doSend_def getSize_def)
qed

text \<open>What a dispatch may do to the queue: nothing, or one frame goes out and its answer comes in.\<close>

definition answered :: "ComAggregator \<Rightarrow> 'w \<Rightarrow> ComAggregator \<Rightarrow> 'w \<Rightarrow> bool" where
  "answered g w g' w' \<longleftrightarrow> granted (tr w) \<le> granted (tr w') \<and> greeted (tr w') = greeted (tr w) \<and>
     (ag_queue g' = ag_queue g \<and> sent (tr w') = sent (tr w) \<or>
      (\<exists>good f. ag_queue g' = ag_queue g @ [Status good] \<and> sent (tr w') = sent (tr w) @ [f] \<and> (good \<longrightarrow> can_send f)))"

definition serves :: "AggregationSignal list \<Rightarrow> ComAggregator \<Rightarrow> 'w \<Rightarrow> (ComAggregator \<times> 'w) option \<Rightarrow> bool" where
  "serves hs g w r \<longleftrightarrow> (\<exists>g' w'. r = Some (g', w') \<and> ok w' \<and> serving hs g' (tr w') \<and> answered g w g' w')"

lemma send_and_wait:
  assumes "ok w" "sendable hs g (tr w)"
  shows "serves hs g w (do { gw \<leftarrow> doSend p (g, w); enter WAIT_STATUS gw })"
proof -
  have g: "aggregator_ok g" "0 < m_serLoc (m_frameSerializer g)"
    using assms(2) by (simp_all add: sendable_def)
  obtain good w' where sent: "doSend p (g, w) = Some (g\<lparr>ag_size := getSize (m_frameSerializer g), m_allow_timeout := False,
        ag_queue := ag_queue g @ [Status good]\<rparr>, w')" "ok w'"
    "tr w' = (tr w)\<lparr>sent := sent (tr w) @ [written (m_frameSerializer g)]\<rparr>" "good \<longrightarrow> can_send (written (m_frameSerializer g))"
    using send_takes [OF assms(1) g] by blast
  let ?g = "g\<lparr>ag_size := getSize (m_frameSerializer g), m_allow_timeout := False,
     ag_queue := ag_queue g @ [Status good], ag_state := WAIT_STATUS\<rparr>"
  have "serving hs ?g (tr w')"
    using assms(2) sent(3) written_fits [OF g]
    by (auto simp: service_defs sendable_def split: if_splits)
  with sent show ?thesis by (simp add: serves_def answered_def enter_def)
qed

end

context aggregator_neighbours
begin

lemma serves_trans:
  "serves hs g1 w1 r \<Longrightarrow> ag_queue g1 = ag_queue g \<Longrightarrow> sent (tr w1) = sent (tr w) \<Longrightarrow> granted (tr w) \<le> granted (tr w1) \<Longrightarrow>
    greeted (tr w1) = greeted (tr w) \<Longrightarrow> serves hs g w r"
  unfolding serves_def answered_def by auto

text \<open>A packet that fits goes into the store.\<close>

lemma fill_serves:
  assumes "ok w" "serving hs g (tr w)" "ag_state g = FILL" "packet_fits b"
    "m_serLoc (m_frameSerializer g) + buf_size b \<le> AggregationSize"
  shows "\<exists>g' w'. doFill p (b, ctx) (g, w) = Some (g', w') \<and> ok w' \<and> g'\<lparr>ag_state := FILL\<rparr> = g' \<and> ag_queue g' = ag_queue g \<and>
    sent (tr w') = sent (tr w) \<and> granted (tr w) \<le> granted (tr w') \<and> greeted (tr w') = greeted (tr w) \<and>
    serving (hs @ [Fill b ctx]) g' (tr w') \<and> sendable (hs @ [Fill b ctx]) g' (tr w')"
proof -
  let ?g = "g\<lparr>m_frameSerializer := store_bytes (buf_data b) (m_frameSerializer g), m_lastContext := ctx\<rparr>"
  have g: "aggregator_ok g" "\<not> isValid (fst (m_held g))" using assms(2,3) by (simp_all add: serving_def)
  obtain w' where filled: "doFill p (b, ctx) (g, w) = Some (?g, w')" "ok w'"
    "tr w' = (tr w)\<lparr>returned := returned (tr w) @ [b], granted := Suc (granted (tr w))\<rparr>"
    using fill_takes [of w "(b, ctx)" g] assms(1,4,5) g(1) by (auto simp: aggregator_ok_def)
  have "serving (hs @ [Fill b ctx]) ?g (tr w')" "sendable (hs @ [Fill b ctx]) ?g (tr w')"
    using assms(2,3,5) g filled(3) packet_size [OF assms(4)]
    by (auto simp: service_defs sendable_def)
  moreover have "?g\<lparr>ag_state := FILL\<rparr> = ?g" using assms(3) by (cases g) simp
  ultimately show ?thesis using filled by auto
qed

lemma clear_serves:
  assumes "ok w" "serving hs g (tr w)" "ag_state g = WAIT_STATUS" "length (verdicts hs) = length (sent (tr w))"
  shows "serves (hs @ [Status True]) g w (do { gw \<leftarrow> doClear p (g, w); enter FILL gw })"
proof -
  let ?g = "g\<lparr>m_allow_timeout := True, m_frameSerializer := resetSer (m_frameSerializer g), ag_size := AggregationSize\<rparr>"
  have g: "aggregator_ok g" using assms(2) by (simp add: serving_def)
  show ?thesis
  proof (cases "isValid (fst (m_held g))")
    case False
    then have "serving (hs @ [Status True]) (?g\<lparr>ag_state := FILL\<rparr>) (tr w)"
      using assms by (auto simp: service_defs)
    with False assms(1) show ?thesis
      by (simp add: serves_def answered_def doClear_def enter_def Let_def)
  next
    case held: True
    have fits: "packet_fits (fst (m_held g))" using g held by (simp add: aggregator_ok_def)
    let ?h = "?g\<lparr>m_frameSerializer := store_bytes (buf_data (fst (m_held g))) (m_frameSerializer ?g), m_lastContext := snd (m_held g)\<rparr>"
    obtain w' where filled: "doFill p (m_held g) (?g, w) = Some (?h, w')" "ok w'"
      "tr w' = (tr w)\<lparr>returned := returned (tr w) @ [fst (m_held g)], granted := Suc (granted (tr w))\<rparr>"
      using fill_takes [OF assms(1) fits, of ?g] fits g by (auto simp: aggregator_ok_def packet_fits_def)
    have "serving (hs @ [Status True]) (?h\<lparr>m_held := (Fw_Buffer_empty, FrameContext_default), ag_state := FILL\<rparr>) (tr w')"
      using assms(2-4) held g packet_size [OF fits] filled(3)
      by (auto simp: service_defs)
    with filled held show ?thesis
      by (simp add: serves_def answered_def doClear_def enter_def Let_def)
  qed
qed

lemma waiting_step:
  assumes "ok w" "serving hs g (tr w)" "lawful_signal hs (tr w) s" "ag_state g = WAIT_STATUS"
  shows "serves (hs @ [s]) g w (dispatch p s (g, w))"
proof (cases s)
  case Timeout
  with assms show ?thesis by (simp add: serving_def serves_def answered_def)
next
  case (Fill b ctx)
  have "\<not> isValid (fst (m_held g))"
    using assms(2,3) Fill by (auto simp: serving_def lawful_signal_def)
  with assms Fill show ?thesis
    by (auto simp: serves_def answered_def doHold_def service_defs lawful_signal_def packet_fits_def)
next
  case (Status good)
  have waiting: "length (verdicts hs) = length (sent (tr w))"
    using assms(2,3) Status by (simp add: serving_def lawful_signal_def)
  show ?thesis
  proof (cases good)
    case True
    with clear_serves [OF assms(1,2,4) waiting] assms(4) Status show ?thesis by simp
  next
    case False
    with assms Status waiting show ?thesis
      by (auto simp: serves_def answered_def enter_def service_defs)
  qed
qed

lemma filling_step:
  assumes "ok w" "serving hs g (tr w)" "lawful_signal hs (tr w) s" "ag_state g = FILL"
  shows "serves (hs @ [s]) g w (dispatch p s (g, w))"
proof (cases s)
  case Timeout
  show ?thesis
  proof (cases "isNotEmpty g")
    case True
    then have "sendable (hs @ [s]) g (tr w)"
      using assms(2,4) Timeout by (auto simp: isNotEmpty_def getSize_def service_defs sendable_def)
    from send_and_wait [OF assms(1) this] True Timeout assms(4) show ?thesis by auto
  next
    case False
    with assms Timeout show ?thesis by (auto simp: serves_def answered_def serving_def)
  qed
next
  case (Fill b ctx)
  have fits: "packet_fits b" using assms(3) Fill by (simp add: lawful_signal_def)
  then have size: "buf_size b \<le> AggregationSize" by (simp add: packet_fits_def)
  have g: "aggregator_ok g" "\<not> isValid (fst (m_held g))" using assms(2,4) by (simp_all add: serving_def)
  let ?room = "AggregationSize - m_serLoc (m_frameSerializer g)"
  have guards: "isFull (b, ctx) g = Some (?room < buf_size b)" "willFill (b, ctx) g = Some (?room = buf_size b)"
    using size g(1) by (simp_all add: isFull_def willFill_def getCapacity_def getSize_def aggregator_ok_def)
  show ?thesis
  proof (cases "?room < buf_size b")
    case True
    let ?g = "g\<lparr>m_held := (b, ctx)\<rparr>"
    have "0 < m_serLoc (m_frameSerializer g)" using True size by simp
    then have "sendable (hs @ [s]) ?g (tr w)"
      using assms(2,4) Fill g fits by (auto simp: service_defs sendable_def packet_fits_def)
    from serves_trans [OF send_and_wait [OF assms(1) this], of g] show ?thesis
      using Fill assms(4) guards True g(2) by (simp add: IS_FULL_THEN_SEND_def doHold_def)
  next
    case False
    moreover have "m_serLoc (m_frameSerializer g) \<le> AggregationSize" using g(1) by (simp add: aggregator_ok_def)
    ultimately have "m_serLoc (m_frameSerializer g) + buf_size b \<le> AggregationSize" by linarith
    from fill_serves [OF assms(1,2,4) fits this, of ctx] obtain g' w' where
      filled: "doFill p (b, ctx) (g, w) = Some (g', w')" "ok w'" "g'\<lparr>ag_state := FILL\<rparr> = g'"
      and same: "ag_queue g' = ag_queue g" "sent (tr w') = sent (tr w)" "granted (tr w) \<le> granted (tr w')" "greeted (tr w') = greeted (tr w)"
      and after: "serving (hs @ [s]) g' (tr w')" "sendable (hs @ [s]) g' (tr w')"
      unfolding Fill by blast
    show ?thesis
    proof (cases "?room = buf_size b")
      case True
      from serves_trans [OF send_and_wait [OF filled(2) after(2)] same] show ?thesis
        using Fill assms(4) guards True False filled(1) by (simp add: IS_FULL_THEN_SEND_def)
    next
      case ne: False
      have "dispatch p s (g, w) = enter FILL (g', w')"
        using Fill assms(4) guards ne False filled(1) by (simp add: IS_FULL_THEN_SEND_def)
      with filled same after(1) show ?thesis by (simp add: enter_def serves_def answered_def)
    qed
  qed
next
  case (Status good)
  with assms(2-4) show ?thesis by (simp add: serving_def lawful_signal_def)
qed

lemma dispatch_serves:
  assumes "ok w" "serving hs g (tr w)" "lawful_signal hs (tr w) s"
  shows "serves (hs @ [s]) g w (dispatch p s (g, w))"
  using waiting_step [OF assms] filling_step [OF assms] by (cases "ag_state g") auto

text \<open>The invariant of the histories.\<close>

definition lawful_queue :: "AggregationSignal list \<Rightarrow> AggregationSignal list \<Rightarrow> traffic \<Rightarrow> bool" where
  "lawful_queue hs q x \<longleftrightarrow> list_all packet_fits (fills (hs @ q)) \<and> length (fills (hs @ q)) \<le> granted x \<and>
     length (verdicts (hs @ q)) = length (sent x) + (if greeted x then 1 else 0) \<and>
     goods (hs @ q) \<le> length (filter can_send (sent x)) + (if greeted x then 1 else 0)"

definition in_service :: "AggregationSignal list \<Rightarrow> ComAggregator \<Rightarrow> 'w \<Rightarrow> bool" where
  "in_service hs g w \<longleftrightarrow> ok w \<and> serving hs g (tr w) \<and> lawful_queue hs (ag_queue g) (tr w)"

lemma lawful_shift: "lawful_queue hs (s # q) x = lawful_queue (hs @ [s]) q x"
  by (simp add: lawful_queue_def del: history_simps)

lemma lawful_answered:
  "lawful_queue hs (ag_queue g) (tr w) \<Longrightarrow> answered g w g' w' \<Longrightarrow> lawful_queue hs (ag_queue g') (tr w')"
  unfolding lawful_queue_def answered_def by auto

lemma next_serves:
  assumes "in_service hs g w" "ag_queue g = s # q"
  obtains g' w' where "dispatch_next p (g, w) = Some (g', w')" "in_service (hs @ [s]) g' w'"
proof -
  have "lawful_signal hs (tr w) s"
    using assms by (cases s) (auto simp: in_service_def lawful_queue_def lawful_signal_def split: if_splits)
  then have "serves (hs @ [s]) (g\<lparr>ag_queue := q\<rparr>) w (dispatch p s (g\<lparr>ag_queue := q\<rparr>, w))"
    using dispatch_serves [of w hs "g\<lparr>ag_queue := q\<rparr>" s] assms(1) by (simp add: in_service_def)
  then obtain g' w' where moved: "dispatch p s (g\<lparr>ag_queue := q\<rparr>, w) = Some (g', w')" "ok w'" "serving (hs @ [s]) g' (tr w')"
    "answered (g\<lparr>ag_queue := q\<rparr>) w g' w'"
    by (auto simp: serves_def)
  moreover have "lawful_queue (hs @ [s]) (ag_queue (g\<lparr>ag_queue := q\<rparr>)) (tr w)"
    using assms lawful_shift [of hs s q] by (simp add: in_service_def)
  ultimately have "lawful_queue (hs @ [s]) (ag_queue g') (tr w')"
    using lawful_answered by blast
  with moved assms(2) that show thesis by (simp add: dispatch_next_def in_service_def)
qed

lemma history_in_service:
  assumes "aggregator_history p tr moves (ComAggregator_new address mem, w0) hs g w"
    and "ok w0" "tr w0 = no_traffic" "address \<noteq> 0" "length mem = AggregationSize"
  shows "in_service hs g w"
  using assms(1)
proof (induction rule: aggregator_history.induct)
  case (preamble g w)
  obtain w' where "ag_comStatusOut p True (ComAggregator_new address mem, w0) = Some (ComAggregator_new address mem, w')" "ok w'"
    "tr w' = (tr w0)\<lparr>granted := Suc (granted (tr w0))\<rparr>"
    using takes_status [OF assms(2)] by blast
  with preamble assms(3-5) show ?case
    by (auto simp: ag_preamble_def in_service_def lawful_queue_def service_defs ComAggregator_new_def no_traffic_def)
next
  case (step hs g w s q g' w')
  then show ?case using next_serves by (metis option.inject prod.inject)
next
  case (greeting hs g w w')
  then have "ok w'" "tr w' = (tr w)\<lparr>greeted := True\<rparr>"
    using moves_ok [OF greeting(2)] by (auto simp: in_service_def)
  with greeting show ?case
    by (auto simp: in_service_def lawful_queue_def ag_comStatusIn_def)
next
  case (move hs g w w')
  then have "ok w'" "tr w' = tr w"
    using moves_ok [OF move(2)] by (auto simp: in_service_def)
  with move show ?case by (simp add: in_service_def)
qed (auto simp: in_service_def lawful_queue_def ag_dataIn_def ag_timeout_def)

end

end
