(* ===== verification/Downlink.thy ===== *)
theory Downlink
  imports Link_History Com_Aggregator
begin

text \<open>
  The downlink: aggregator, telemetry framer and radio adapter, connected as in \<^verbatim>\<open>Top/topology.fpp\<close> of the deployment and
  \<^verbatim>\<open>ComCcsds.fpp\<close>. What the stack above the aggregator sees is kept as \<open>traffic\<close>. Calls are synchronous up to the queue of the
  aggregator, whose handlers its own thread runs one at a time.

  \<open>None\<close> stands for a failed assertion, an exception that nothing catches, or a call that does not return.
\<close>

section \<open>The wiring\<close>

record 'w link =
  lk_adapter :: LoRaRadioAdapter
  lk_sys :: "'w asys"
  lk_traffic :: traffic

text \<open>
  The ports of the framer towards the aggregator. Its \<^verbatim>\<open>dataOut\<close>, which the handlers of statuses and of returned frames do not use, is
  connected below.
\<close>

definition framer_upper_ports :: "(ComAggregator \<times> 'w link) tm_ports" where
  "framer_upper_ports = \<lparr>tm_dataOut = (\<lambda>b ctx x. None),
     tm_dataReturnOut = (\<lambda>b ctx (t, (g, l)). map_option (\<lambda>g. (t, (g, l))) (ag_dataReturnIn b ctx g)),
     tm_comStatusOut = Some (\<lambda>good (t, (g, l)). Some (t, (ag_comStatusIn good g, l)))\<rparr>"

text \<open>The calls of the adapter's ports reach the framer; allocation and received packets belong to the uplink.\<close>

fun from_radio :: "port_call list \<Rightarrow> TmFramer \<times> ComAggregator \<times> 'w link \<Rightarrow> (TmFramer \<times> ComAggregator \<times> 'w link) option" where
  "from_radio [] x = Some x"
| "from_radio (DataReturnOut pn b ctx # cs) x = do { x \<leftarrow> TmFramer_dataReturnIn b ctx x; from_radio cs x }"
| "from_radio (ComStatusOut pn good # cs) x = do { x \<leftarrow> TmFramer_comStatusIn framer_upper_ports good x; from_radio cs x }"
| "from_radio (c # cs) x = from_radio cs x"

definition new_calls :: "'w asys \<Rightarrow> 'w asys \<Rightarrow> port_call list" where
  "new_calls s s' = map fst (drop (length (port_log (app s))) (port_log (app s')))"

text \<open>A handler of the adapter runs, then its calls take effect; it makes them last and gets nothing back from these components.\<close>

definition on_radio :: "('w, unit) adapter_op \<Rightarrow> TmFramer \<times> ComAggregator \<times> 'w link \<Rightarrow> (TmFramer \<times> ComAggregator \<times> 'w link) option" where
  "on_radio m = (\<lambda>(t, g, l). case m (lk_adapter l, lk_sys l) of
       Some (Ret _ (a, s)) \<Rightarrow> from_radio (new_calls (lk_sys l) s) (t, g, l\<lparr>lk_adapter := a, lk_sys := s\<rparr>)
     | _ \<Rightarrow> None)"

definition framer_ports :: "'w board \<Rightarrow> (ComAggregator \<times> 'w link) tm_ports" where
  "framer_ports bd = framer_upper_ports\<lparr>tm_dataOut := (\<lambda>b ctx. on_radio (dataIn_handler bd 0 b ctx))\<rparr>"

definition on_framer :: "(TmFramer \<times> ComAggregator \<times> 'w link \<Rightarrow> (TmFramer \<times> ComAggregator \<times> 'w link) option) \<Rightarrow>
    ComAggregator \<times> TmFramer \<times> 'w link \<Rightarrow> (ComAggregator \<times> TmFramer \<times> 'w link) option" where
  "on_framer m = (\<lambda>(g, t, l). map_option (\<lambda>(t, g, l). (g, t, l)) (m (t, g, l)))"

definition note_traffic :: "(traffic \<Rightarrow> traffic) \<Rightarrow> ComAggregator \<times> TmFramer \<times> 'w link \<Rightarrow> ComAggregator \<times> TmFramer \<times> 'w link" where
  "note_traffic f = (\<lambda>(g, t, l). (g, t, l\<lparr>lk_traffic := f (lk_traffic l)\<rparr>))"

definition downlink_ports :: "'w board \<Rightarrow> (TmFramer \<times> 'w link) aggregator_ports" where
  "downlink_ports bd = \<lparr>
     ag_dataOut = (\<lambda>b ctx x. on_framer (TmFramer_dataIn (framer_ports bd) b ctx) (note_traffic (\<lambda>v. v\<lparr>sent := sent v @ [buf_data b]\<rparr>) x)),
     ag_dataReturnOut = (\<lambda>b ctx x. Some (note_traffic (\<lambda>v. v\<lparr>returned := returned v @ [b]\<rparr>) x)),
     ag_comStatusOut = (\<lambda>good x. Some (note_traffic (\<lambda>v. if good then v\<lparr>granted := Suc (granted v)\<rparr> else v) x))\<rparr>"

text \<open>The scheduler tick of the radio.\<close>

definition radio_tick :: "'w board \<Rightarrow> ComAggregator \<times> TmFramer \<times> 'w link \<Rightarrow> (ComAggregator \<times> TmFramer \<times> 'w link) option" where
  "radio_tick bd = on_framer (on_radio (run_handler bd 0 0))"

text \<open>What the contract of the aggregator talks about.\<close>

definition downlink_traffic :: "TmFramer \<times> 'w link \<Rightarrow> traffic" where
  "downlink_traffic = (\<lambda>(t, l). (lk_traffic l)\<lparr>greeted := m_initialStatusSent (lk_adapter l)\<rparr>)"

definition board_works :: "'w board \<Rightarrow> 'w \<Rightarrow> bool" where
  "board_works bd w \<longleftrightarrow> (\<exists>okw budget. good_board bd okw budget \<and> okw w)"

definition downlink_ok :: "'w board \<Rightarrow> TmFramer \<times> 'w link \<Rightarrow> bool" where
  "downlink_ok bd = (\<lambda>(t, l). framer_ok t \<and> tm_bufferState t = OWNED \<and> adapter_inv (lk_adapter l) (lk_sys l) \<and>
     ready (lk_adapter l) \<and> board_works bd (world (lk_sys l)))"

section \<open>The laws of the link\<close>

lemma from_radio_statuses: "from_radio (map fst calls) = from_radio (statuses calls)"
proof (induction calls)
  case (Cons c calls)
  have skip: "statuses (c # calls) = (case fst c of ComStatusOut pn good \<Rightarrow> [fst c] | DataReturnOut pn b ctx \<Rightarrow> [fst c] | _ \<Rightarrow> []) @ statuses calls"
    by (simp add: statuses_def split: port_call.split)
  show ?case
    unfolding skip by (rule ext) (cases "fst c"; simp add: Cons)
qed (simp add: statuses_def)

lemma new_calls_append: "map fst (port_log (app s')) = map fst (port_log (app s)) @ cs \<Longrightarrow> new_calls s s' = cs"
  by (simp add: new_calls_def drop_map [symmetric] append_eq_conv_conj)

lemma frame_answered:
  assumes "downlink_ok bd (t, l)"
  obtains a s good where "dataIn_handler bd 0 b ctx (lk_adapter l, lk_sys l) = Some (Ret () (a, s))"
    "new_calls (lk_sys l) s = [DataReturnOut 0 b ctx, ComStatusOut 0 good]" "good \<Longrightarrow> frame_length b \<le> 255"
    "adapter_inv a s" "ready a" "board_works bd (world s)" "m_initialStatusSent a = m_initialStatusSent (lk_adapter l)"
proof -
  obtain okw budget where bd: "good_board bd okw budget" "okw (world (lk_sys l))"
    using assms by (auto simp: downlink_ok_def board_works_def)
  have inv: "adapter_inv (lk_adapter l) (lk_sys l)" "ready (lk_adapter l)" using assms by (simp_all add: downlink_ok_def)
  have "twp (dataIn_handler bd 0 b ctx) (\<lambda>_ (a, s). \<exists>good. new_calls (lk_sys l) s = [DataReturnOut 0 b ctx, ComStatusOut 0 good] \<and>
      (good \<longrightarrow> frame_length b \<le> 255) \<and> adapter_inv a s \<and> ready a \<and> board_works bd (world s) \<and>
      m_initialStatusSent a = m_initialStatusSent (lk_adapter l)) (lk_adapter l, lk_sys l)"
  proof (rule twp_both [OF twp_dataIn [OF bd inv] wp_dataIn_post [OF inv(1)]], goal_cases)
    case (1 _ as)
    then show ?case
      using bd(1) by (cases as) (auto simp: new_calls_append frame_length_def board_works_def)
  qed
  then show thesis using that by (auto simp: twp_def)
qed

lemma tick_answered:
  fixes l :: "'w link"
  assumes "downlink_ok bd (t, l)"
  obtains a s where "run_handler bd 0 0 (lk_adapter l, lk_sys l) = Some (Ret () (a, s))"
    "from_radio (new_calls (lk_sys l) s) =
      (from_radio (if m_initialStatusSent (lk_adapter l) then [] else [ComStatusOut 0 True]) :: TmFramer \<times> ComAggregator \<times> 'w link \<Rightarrow> _)"
    "adapter_inv a s" "ready a" "board_works bd (world s)" "m_initialStatusSent a"
proof -
  obtain okw budget where bd: "good_board bd okw budget" "okw (world (lk_sys l))"
    using assms by (auto simp: downlink_ok_def board_works_def)
  have inv: "adapter_inv (lk_adapter l) (lk_sys l)" "ready (lk_adapter l)" using assms by (simp_all add: downlink_ok_def)
  have "twp (run_handler bd 0 0) (\<lambda>_ (a, s). from_radio (new_calls (lk_sys l) s) =
        (from_radio (if m_initialStatusSent (lk_adapter l) then [] else [ComStatusOut 0 True]) :: TmFramer \<times> ComAggregator \<times> 'w link \<Rightarrow> _) \<and>
      adapter_inv a s \<and> ready a \<and> board_works bd (world s) \<and> m_initialStatusSent a) (lk_adapter l, lk_sys l)"
  proof (rule twp_both [OF twp_run [OF bd inv] wp_run_post [OF inv(1)]], goal_cases)
    case (1 _ as)
    then obtain a s where as: "as = (a, s)" "tick (\<not> m_initialStatusSent (lk_adapter l)) (lk_sys l) s" "adapter_inv a s" "ready a"
      "okw (world s)" "m_initialStatusSent a"
      by (cases as) (simp split: if_splits)
    then obtain calls where "port_log (app s) = port_log (app (lk_sys l)) @ calls"
      "statuses calls = (if \<not> m_initialStatusSent (lk_adapter l) then [ComStatusOut 0 True] else [])"
      by (auto simp: tick_def)
    with as bd(1) show ?case
      by (auto simp: new_calls_append [where cs = "map fst calls"] from_radio_statuses board_works_def)
  qed
  then obtain a s where "run_handler bd 0 0 (lk_adapter l, lk_sys l) = Some (Ret () (a, s))"
    "from_radio (new_calls (lk_sys l) s) =
      (from_radio (if m_initialStatusSent (lk_adapter l) then [] else [ComStatusOut 0 True]) :: TmFramer \<times> ComAggregator \<times> 'w link \<Rightarrow> _)"
    "adapter_inv a s" "ready a" "board_works bd (world s)" "m_initialStatusSent a"
    unfolding twp_def by (auto split del: if_split)
  then show thesis by (rule that)
qed

lemma framer_takes:
  fixes g :: ComAggregator and l :: "'w link"
  assumes "downlink_ok bd (t, l)" "ag_bufferState g = NOT_OWNED" "packet_fits b"
  shows "\<exists>good t' l'. TmFramer_dataIn (framer_ports bd) b ctx (t, g, l) =
      Some (t', g\<lparr>ag_queue := ag_queue g @ [Status good], ag_bufferState := OWNED\<rparr>, l') \<and>
    downlink_ok bd (t', l') \<and> lk_traffic l' = lk_traffic l \<and> m_initialStatusSent (lk_adapter l') = m_initialStatusSent (lk_adapter l) \<and> \<not> good"
proof -
  have t: "length (m_frameBuffer t) = 1024" "tm_bufferState t = OWNED" "m_virtualFrameCount t = m_masterFrameCount t"
    using assms(1) by (simp_all add: downlink_ok_def framer_ok_def TmFrameFixedSize_def)
  have b: "buf_size b \<le> 1009" "length (buf_data b) = buf_size b"
    using assms(3) by (simp_all add: packet_fits_def AggregationSize_def TmFrameFixedSize_def)
  let ?frame = "tm_frame (ctx_vcId ctx) (m_masterFrameCount t) (buf_data b)"
  let ?f = "\<lparr>buf_addr = tm_address t, buf_size = 1024, buf_context = 0xFFFFFFFF, buf_memory = ?frame\<rparr>"
  let ?t = "t\<lparr>m_masterFrameCount := m_masterFrameCount t + 1, m_virtualFrameCount := m_virtualFrameCount t + 1,
     m_frameBuffer := ?frame, tm_bufferState := NOT_OWNED\<rparr>"
  obtain a s good where radio: "dataIn_handler bd 0 ?f ctx (lk_adapter l, lk_sys l) = Some (Ret () (a, s))"
    "new_calls (lk_sys l) s = [DataReturnOut 0 ?f ctx, ComStatusOut 0 good]" "good \<Longrightarrow> frame_length ?f \<le> 255"
    "adapter_inv a s" "ready a" "board_works bd (world s)" "m_initialStatusSent a = m_initialStatusSent (lk_adapter l)"
    by (rule frame_answered [OF assms(1), of ?f ctx]) blast
  let ?l = "l\<lparr>lk_adapter := a, lk_sys := s\<rparr>"
  have bad: "\<not> good" using radio(3) b by (auto simp: frame_length_def)
  have "tm_dataOut (framer_ports bd) ?f ctx (?t, g, l) =
      Some (?t\<lparr>tm_bufferState := OWNED\<rparr>, g\<lparr>ag_queue := ag_queue g @ [Status good]\<rparr>, ?l)"
    using radio(1,2) by (simp add: framer_ports_def on_radio_def TmFramer_dataReturnIn_def TmFramer_comStatusIn_def
        framer_upper_ports_def TmFrameFixedSize_def ag_comStatusIn_def)
  moreover have "tm_dataReturnOut (framer_ports bd) b ctx (t2, g\<lparr>ag_queue := ag_queue g @ [Status good]\<rparr>, ?l) =
      Some (t2, g\<lparr>ag_queue := ag_queue g @ [Status good], ag_bufferState := OWNED\<rparr>, ?l)" for t2
    using assms(2) by (simp add: framer_ports_def framer_upper_ports_def ag_dataReturnIn_def)
  ultimately have "TmFramer_dataIn (framer_ports bd) b ctx (t, g, l) =
      Some (?t\<lparr>tm_bufferState := OWNED\<rparr>, g\<lparr>ag_queue := ag_queue g @ [Status good], ag_bufferState := OWNED\<rparr>, ?l)"
    using framer_frame [OF t b, of "framer_ports bd" ctx "(g, l)"] by (simp add: Let_def)
  moreover have "downlink_ok bd (?t\<lparr>tm_bufferState := OWNED\<rparr>, ?l)"
    using radio(4-6) b t by (simp add: downlink_ok_def framer_ok_def TmFrameFixedSize_def)
  ultimately show ?thesis using radio(7) bad by auto
qed

text \<open>What goes on beside the aggregator: ticks of the radio, and anything outside that leaves the board working.\<close>

definition link_moves :: "'w board \<Rightarrow> TmFramer \<times> 'w link \<Rightarrow> TmFramer \<times> 'w link \<Rightarrow> bool" where
  "link_moves bd x x' \<longleftrightarrow> (\<exists>g g'. radio_tick bd (g, x) = Some (g', x')) \<or>
     (\<exists>w. board_works bd w \<and> x' = (fst x, (snd x)\<lparr>lk_sys := (lk_sys (snd x))\<lparr>world := w\<rparr>\<rparr>))"

lemma radio_ticks:
  fixes l :: "'w link"
  assumes "downlink_ok bd (t, l)"
  shows "\<exists>l'. radio_tick bd (g, t, l) = Some (if m_initialStatusSent (lk_adapter l) then g else ag_comStatusIn True g, t, l') \<and>
    downlink_ok bd (t, l') \<and> lk_traffic l' = lk_traffic l \<and> m_initialStatusSent (lk_adapter l')"
proof -
  obtain a s where run: "run_handler bd 0 0 (lk_adapter l, lk_sys l) = Some (Ret () (a, s))"
    and calls: "from_radio (new_calls (lk_sys l) s) =
      (from_radio (if m_initialStatusSent (lk_adapter l) then [] else [ComStatusOut 0 True]) :: TmFramer \<times> ComAggregator \<times> 'w link \<Rightarrow> _)"
    and inv: "adapter_inv a s" "ready a" "board_works bd (world s)" "m_initialStatusSent a"
    by (rule tick_answered [OF assms])
  show ?thesis
    using assms inv
    by (intro exI [of _ "l\<lparr>lk_adapter := a, lk_sys := s\<rparr>"])
       (auto simp: radio_tick_def on_framer_def on_radio_def run calls TmFramer_comStatusIn_def framer_upper_ports_def downlink_ok_def)
qed

interpretation dl: aggregator_neighbours "downlink_ports bd" downlink_traffic "link_moves bd" "downlink_ok bd" "\<lambda>f. TmFrameFixedSize \<le> 255"
  for bd :: "'w board"
proof (unfold_locales, goal_cases)
  case (1 w g b ctx)
  obtain t l where w: "w = (t, l)" by fastforce
  let ?l = "l\<lparr>lk_traffic := (lk_traffic l)\<lparr>sent := sent (lk_traffic l) @ [buf_data b]\<rparr>\<rparr>"
  have "downlink_ok bd (t, ?l)" using 1(1) w by (simp add: downlink_ok_def)
  from framer_takes [OF this 1(2,3), of ctx] show ?case
    by (auto simp: w downlink_ports_def on_framer_def note_traffic_def downlink_traffic_def)
next
  case (2 w b ctx g)
  then show ?case by (cases w) (auto simp: downlink_ports_def note_traffic_def downlink_ok_def downlink_traffic_def)
next
  case (3 w g)
  then show ?case by (cases w) (auto simp: downlink_ports_def note_traffic_def downlink_ok_def downlink_traffic_def)
next
  case (4 w w')
  obtain t l where w: "w = (t, l)" by fastforce
  from 4(1) show ?case unfolding link_moves_def
  proof (elim disjE exE)
    fix g g' assume "radio_tick bd (g, w) = Some (g', w')"
    with radio_ticks [of bd t l g] 4(2) w show ?thesis
      by (auto simp: downlink_traffic_def)
  next
    fix w0 assume "board_works bd w0 \<and> w' = (fst w, (snd w)\<lparr>lk_sys := (lk_sys (snd w))\<lparr>world := w0\<rparr>\<rparr>)"
    with 4(2) w show ?thesis
      using adapter_inv_live [OF _ live_same_log, of "lk_adapter l" "lk_sys l" "(lk_sys l)\<lparr>world := w0\<rparr>"]
      by (auto simp: downlink_ok_def downlink_traffic_def)
  qed
qed


section \<open>Histories\<close>

text \<open>
  The downlink from the start of the deployment: the preamble of the aggregator's thread; then packets from the packet framer, one
  for every status granted; ticks of the rate groups for the aggregator and for the radio; one round of the aggregator's thread; and
  anything outside the program that leaves the board working.
\<close>

type_synonym 'w downlink_state = "ComAggregator \<times> TmFramer \<times> 'w link"

definition downlink_start :: "nat \<Rightarrow> bytes \<Rightarrow> nat \<Rightarrow> bytes \<Rightarrow> 'w asys \<Rightarrow> 'w downlink_state" where
  "downlink_start address1 mem1 address2 mem2 s = (ComAggregator_new address1 mem1, TmFramer_new address2 mem2,
     \<lparr>lk_adapter = LoRaRadioAdapter_new, lk_sys = s, lk_traffic = no_traffic\<rparr>)"

inductive downlink_history :: "'w board \<Rightarrow> 'w downlink_state \<Rightarrow> AggregationSignal list \<Rightarrow> 'w downlink_state \<Rightarrow> bool" for bd start where
  boots: "ag_preamble (downlink_ports bd) start = Some d \<Longrightarrow> downlink_history bd start [] d"
| packet: "downlink_history bd start hs (g, t, l) \<Longrightarrow> packet_fits b \<Longrightarrow> length (fills (hs @ ag_queue g)) < granted (lk_traffic l) \<Longrightarrow>
    downlink_history bd start hs (ag_dataIn b ctx g, t, l)"
| timeout: "downlink_history bd start hs (g, t, l) \<Longrightarrow> downlink_history bd start hs (ag_timeout g, t, l)"
| radio: "downlink_history bd start hs d \<Longrightarrow> radio_tick bd d = Some d' \<Longrightarrow> downlink_history bd start hs d'"
| outside: "downlink_history bd start hs (g, t, l) \<Longrightarrow> board_works bd w \<Longrightarrow>
    downlink_history bd start hs (g, t, l\<lparr>lk_sys := (lk_sys l)\<lparr>world := w\<rparr>\<rparr>)"
| thread: "downlink_history bd start hs (g, t, l) \<Longrightarrow> ag_queue g = s # q \<Longrightarrow> dispatch_next (downlink_ports bd) (g, t, l) = Some d \<Longrightarrow>
    downlink_history bd start (hs @ [s]) d"

lemma start_ok:
  assumes "board_works bd (world s)" "length mem2 = TmFrameFixedSize"
  shows "downlink_ok bd (snd (downlink_start address1 mem1 address2 mem2 s))"
    "downlink_traffic (snd (downlink_start address1 mem1 address2 mem2 s)) = no_traffic"
  using assms by (simp_all add: downlink_start_def downlink_ok_def framer_ok_def TmFramer_new_def downlink_traffic_def no_traffic_def
      LoRaRadioAdapter_new_def [THEN arg_cong, of m_initialStatusSent])

lemma history_serves:
  assumes "downlink_history bd (downlink_start address1 mem1 address2 mem2 s) hs d" "board_works bd (world s)"
    "address1 \<noteq> 0" "length mem1 = AggregationSize" "length mem2 = TmFrameFixedSize"
  shows "aggregator_history (downlink_ports bd) downlink_traffic (link_moves bd) (downlink_start address1 mem1 address2 mem2 s) hs (fst d) (snd d) \<and>
    dl.in_service bd hs (fst d) (snd d)"
    (is "?H hs (fst d) (snd d) \<and> _")
proof -
  let ?start = "downlink_start address1 mem1 address2 mem2 s"
  have start: "?start = (ComAggregator_new address1 mem1, snd ?start)" by (simp add: downlink_start_def)
  note ok = start_ok [OF assms(2,5), of address1 mem1 address2]
  have serves: "dl.in_service bd hs g w" if "?H hs g w" for hs g w
    using dl.history_in_service [of bd address1 mem1 "snd ?start" hs g w] that start ok assms(3,4) by simp
  have "?H hs (fst d) (snd d)" using assms(1)
  proof (induction rule: downlink_history.induct)
    case (boots d)
    then show ?case by (cases d) (auto intro: aggregator_history.preamble)
  next
    case (packet hs g t l b ctx)
    then show ?case by (auto intro!: aggregator_history.fill simp: downlink_traffic_def)
  next
    case (timeout hs g t l)
    then show ?case by (auto intro: aggregator_history.tick)
  next
    case (radio hs d d')
    obtain g t l where d: "d = (g, t, l)" by (cases d)
    have "downlink_ok bd (t, l)" using serves [OF radio.IH] d by (simp add: dl.in_service_def)
    from radio_ticks [OF this, of g] radio(2) d obtain l' where l':
      "d' = (if m_initialStatusSent (lk_adapter l) then g else ag_comStatusIn True g, t, l')" "m_initialStatusSent (lk_adapter l')"
      by auto
    moreover have "link_moves bd (t, l) (t, l')" using radio(2) d l' by (auto simp: link_moves_def)
    ultimately show ?case
      using radio.IH d by (auto simp: downlink_traffic_def intro: aggregator_history.greeting aggregator_history.move)
  next
    case (outside hs g t l w)
    then have "link_moves bd (t, l) (t, l\<lparr>lk_sys := (lk_sys l)\<lparr>world := w\<rparr>\<rparr>)" by (auto simp: link_moves_def)
    with outside show ?case by (auto simp: downlink_traffic_def intro: aggregator_history.move)
  next
    case (thread hs g t l s q d)
    then show ?case by (cases d) (auto intro: aggregator_history.step)
  qed
  with serves show ?thesis by blast
qed

text \<open>A frame that is too long for the radio is refused before anything is written to it.\<close>

lemma oversized_refused:
  assumes "adapter_inv a s" "m_started a" "255 < frame_length b"
  shows "\<exists>s'. dataIn_handler bd pn b ctx (a, s) = Some (Ret () (a, s')) \<and> io_log s' = io_log s"
proof -
  obtain n where n: "m_node a = Some n" "node_ok n" "a\<lparr>m_node := Some n\<rparr> = a"
    by (rule adapter_inv_node [OF assms(1,2)])
  have "send (node_platform bd) (take (buf_size b) (buf_memory b)) (n, s) = Some (Ret False (n, s))"
    using assms(3) by (auto simp: send_def bindM_def node_get_def getsM_def retM_def frame_length_def)
  then show ?thesis
    using assms(2) n by (simp add: dataIn_handler_def ensureNodeStarted_def bindM_def ad_get_def getsM_def retM_def on_node_def
        ad_port_def modifyM_def)
qed

section \<open>The bench\<close>

definition bench_packet_buffer :: Fw_Buffer where
  "bench_packet_buffer = \<lparr>buf_addr = 512, buf_size = 7, buf_context = 0, buf_memory = bench_packet\<rparr>"

abbreviation bench_downlink_start :: "bench downlink_state" where
  "bench_downlink_start \<equiv> downlink_start 8192 (replicate 1009 0) 4096 (replicate 1024 0) (bench_sys [])"

lemma bench_works: "board_works (bench_board (\<lambda>_ _. 0)) (world (bench_sys []))"
  using bench_board_good [of "\<lambda>_ _. 0"] bench_sys_okw [of "[]"] unfolding board_works_def by blast

text \<open>The radio comes up, one packet comes in, the timeout sends it.\<close>

lemma bench_downlink:
  "\<exists>d. downlink_history (bench_board (\<lambda>_ _. 0)) bench_downlink_start [Status True, Fill bench_packet_buffer FrameContext_default, Timeout] d \<and>
     length (sent (lk_traffic (snd (snd d)))) = 1"
proof -
  let ?bd = "bench_board (\<lambda>_ _. 0)" and ?start = bench_downlink_start
  let ?up = "\<lambda>hs d. downlink_history ?bd ?start hs d"
  have in_service: "dl.in_service ?bd hs (fst d) (snd d)" if "?up hs d" for hs d
    by (rule history_serves [OF that bench_works, THEN conjunct2]) (simp_all add: AggregationSize_def TmFrameFixedSize_def)
  let ?b = bench_packet_buffer
  obtain g t l where start: "?start = (g, t, l)" "g = ComAggregator_new 8192 (replicate 1009 0)" "lk_traffic l = no_traffic"
    "\<not> m_initialStatusSent (lk_adapter l)"
    by (simp add: downlink_start_def LoRaRadioAdapter_new_def [THEN arg_cong, of m_initialStatusSent])
  let ?l = "l\<lparr>lk_traffic := no_traffic\<lparr>granted := 1\<rparr>\<rparr>"
  have 0: "?up [] (g, t, ?l)"
    using start by (intro downlink_history.boots)
       (simp add: ag_preamble_def downlink_ports_def note_traffic_def no_traffic_def)
  then have "downlink_ok ?bd (t, ?l)" using in_service [OF 0] by (simp add: dl.in_service_def)
  from radio_ticks [OF this, of g] start obtain l1 where
    tick: "radio_tick ?bd (g, t, ?l) = Some (ag_comStatusIn True g, t, l1)" and l1: "lk_traffic l1 = no_traffic\<lparr>granted := 1\<rparr>"
    by auto
  from downlink_history.radio [OF 0 tick] have 1: "?up [] (ag_comStatusIn True g, t, l1)" .
  let ?g1 = "g\<lparr>m_allow_timeout := True, m_frameSerializer := resetSer (m_frameSerializer g), ag_size := AggregationSize, ag_state := FILL\<rparr>"
  have "dispatch_next (downlink_ports ?bd) (ag_comStatusIn True g, t, l1) = Some (?g1, t, l1)"
    using start(2) by (simp add: ag_comStatusIn_def dispatch_next_def ComAggregator_new_def doClear_def enter_def)
  then have 2: "?up [Status True] (?g1, t, l1)"
    using downlink_history.thread [OF 1, of "Status True" "[]"] start(2) by (simp add: ag_comStatusIn_def ComAggregator_new_def)
  have fits: "packet_fits ?b"
    by (simp add: packet_fits_def bench_packet_buffer_def isValid_def buf_data_def AggregationSize_def TmFrameFixedSize_def bench_packet_def)
  have 3: "?up [Status True] (ag_dataIn ?b FrameContext_default ?g1, t, l1)"
    using downlink_history.packet [OF 2 fits] start(2) l1 by (simp add: ComAggregator_new_def no_traffic_def)
  let ?g2 = "?g1\<lparr>m_frameSerializer := store_bytes (buf_data ?b) (m_frameSerializer ?g1), m_lastContext := FrameContext_default\<rparr>"
  let ?l2 = "l1\<lparr>lk_traffic := \<lparr>sent = [], returned = [?b], granted = 2, greeted = False\<rparr>\<rparr>"
  have size: "buf_size ?b = 7" "length (buf_data ?b) = 7"
    by (simp_all add: bench_packet_buffer_def buf_data_def bench_packet_def)
  have "dispatch_next (downlink_ports ?bd) (ag_dataIn ?b FrameContext_default ?g1, t, l1) = Some (?g2, t, ?l2)"
    using start(2) size l1
    by (simp add: ag_dataIn_def dispatch_next_def ComAggregator_new_def IS_FULL_THEN_SEND_def isFull_def willFill_def doFill_def enter_def
        AggregationSize_def TmFrameFixedSize_def getCapacity_def getSize_def resetSer_def serialize_simps downlink_ports_def note_traffic_def
        no_traffic_def)
  then have 4: "?up [Status True, Fill ?b FrameContext_default] (?g2, t, ?l2)"
    using downlink_history.thread [OF 3, of "Fill ?b FrameContext_default" "[]"] start(2) by (simp add: ag_dataIn_def ComAggregator_new_def)
  have timed: "ag_queue (ag_timeout ?g2) = [Timeout]" using start(2) by (simp add: ag_timeout_def ComAggregator_new_def)
  from downlink_history.timeout [OF 4] have 5: "?up [Status True, Fill ?b FrameContext_default] (ag_timeout ?g2, t, ?l2)" .
  let ?g3 = "(ag_timeout ?g2)\<lparr>ag_queue := []\<rparr>"
  have "downlink_ok ?bd (t, ?l2)" using in_service [OF 5] by (simp add: dl.in_service_def)
  moreover have "aggregator_ok ?g3" "0 < m_serLoc (m_frameSerializer ?g3)" and state: "ag_state ?g3 = FILL" "isNotEmpty ?g3"
    using start(2) size by (simp_all add: aggregator_ok_def ag_timeout_def ComAggregator_new_def store_bytes_def resetSer_def
        AggregationSize_def TmFrameFixedSize_def isNotEmpty_def getSize_def)
  ultimately obtain good w' where sent: "doSend (downlink_ports ?bd) (?g3, t, ?l2) = Some (?g3\<lparr>ag_size := getSize (m_frameSerializer ?g3),
      m_allow_timeout := False, ag_queue := ag_queue ?g3 @ [Status good]\<rparr>, w')"
    "downlink_traffic w' = (downlink_traffic (t, ?l2))\<lparr>sent := sent (downlink_traffic (t, ?l2)) @ [written (m_frameSerializer ?g3)]\<rparr>"
    using dl.send_takes [of ?bd "(t, ?l2)" ?g3] by blast
  have "dispatch_next (downlink_ports ?bd) (ag_timeout ?g2, t, ?l2) = doSend (downlink_ports ?bd) (?g3, t, ?l2) \<bind> enter WAIT_STATUS"
    using state timed by (simp add: dispatch_next_def)
  then have "\<exists>g'. dispatch_next (downlink_ports ?bd) (ag_timeout ?g2, t, ?l2) = Some (g', w')"
    using sent(1) by (simp add: enter_def)
  with downlink_history.thread [OF 5 timed] obtain g' where
    "?up ([Status True, Fill ?b FrameContext_default] @ [Timeout]) (g', w')"
    by blast
  moreover have "length (sent (lk_traffic (snd w'))) = 1"
    using arg_cong [OF sent(2), of sent] by (cases w') (simp add: downlink_traffic_def)
  ultimately show ?thesis by (intro exI [of _ "(g', w')"]) simp
qed

section \<open>Properties\<close>



text \<open>
  C2: The downlink is dead: in every history of the connected components, on a board that works, at most one frame is ever handed
  down, because the frames have 1024 bytes and the radio takes at most 255: the only good status ever is the initial one. After that
  frame the aggregator waits for ever, so that over its whole life the downlink accepts at most 2018 bytes. No assertion fails, and
  once the radio is up, a frame of that size is refused without any system call.
\<close>

theorem downlink_dead:
  assumes "downlink_history bd (downlink_start address1 mem1 address2 mem2 s) hs (g, t, l)" "board_works bd (world s)"
    and "address1 \<noteq> 0" "length mem1 = AggregationSize" "length mem2 = TmFrameFixedSize"
  shows "length (sent (lk_traffic l)) \<le> 1 \<and> (sent (lk_traffic l) \<noteq> [] \<longrightarrow> ag_state g = WAIT_STATUS) \<and>
    goods (hs @ ag_queue g) \<le> (if m_initialStatusSent (lk_adapter l) then 1 else 0) \<and>
    length (concat (map buf_data (fills hs))) \<le> 2018 \<and>
    (ag_queue g \<noteq> [] \<longrightarrow> dispatch_next (downlink_ports bd) (g, t, l) \<noteq> None) \<and>
    (m_initialStatusSent (lk_adapter l) \<longrightarrow> frame_length b = TmFrameFixedSize \<longrightarrow>
      (\<exists>s'. dataIn_handler bd 0 b ctx (lk_adapter l, lk_sys l) = Some (Ret () (lk_adapter l, s')) \<and> io_log s' = io_log (lk_sys l)))"
proof -
  have service: "dl.in_service bd hs g (t, l)"
    using history_serves [OF assms] by simp
  then have inv: "serving hs g (downlink_traffic (t, l))"
      "goods (hs @ ag_queue g) \<le> (if m_initialStatusSent (lk_adapter l) then 1 else 0)" "downlink_ok bd (t, l)"
    unfolding dl.in_service_def dl.lawful_queue_def by (simp_all add: downlink_traffic_def TmFrameFixedSize_def)
  have "dispatch_next (downlink_ports bd) (g, t, l) \<noteq> None" if "ag_queue g = s # q" for s q
    using dl.next_serves [OF service that] by (metis option.distinct(1))
  then have go_on: "ag_queue g \<noteq> [] \<longrightarrow> dispatch_next (downlink_ports bd) (g, t, l) \<noteq> None" by (cases "ag_queue g") auto
  have few: "length (sent (lk_traffic l)) + (if ag_state g = FILL then 1 else 0) \<le> 1"
  proof -
    have "length (sent (lk_traffic l)) + (if ag_state g = FILL then 1 else 0) \<le> goods hs"
      using inv(1) by (simp add: serving_def downlink_traffic_def)
    moreover have "goods hs \<le> 1" using inv(2) by (simp split: if_splits)
    ultimately show ?thesis by linarith
  qed
  then have stop: "sent (lk_traffic l) \<noteq> [] \<longrightarrow> ag_state g = WAIT_STATUS"
    by (cases "ag_state g") auto
  have "length (concat (sent (lk_traffic l))) \<le> 1009"
    using few inv(1) by (cases "sent (lk_traffic l)")
      (auto simp: serving_def downlink_traffic_def frame_fits_def AggregationSize_def TmFrameFixedSize_def)
  moreover have "length (pending g) \<le> 1009"
    using inv(1) by (auto simp: serving_def pending_def aggregator_ok_def packet_fits_def written_def AggregationSize_def TmFrameFixedSize_def
        split: AggregationState.split)
  moreover have "concat (map buf_data (fills hs)) = concat (sent (lk_traffic l)) @ pending g"
    using inv(1) by (simp add: serving_def downlink_traffic_def)
  ultimately have "length (concat (map buf_data (fills hs))) \<le> 2018" by simp
  moreover have "\<exists>s'. dataIn_handler bd 0 b ctx (lk_adapter l, lk_sys l) = Some (Ret () (lk_adapter l, s')) \<and> io_log s' = io_log (lk_sys l)"
    if "m_initialStatusSent (lk_adapter l)" "frame_length b = TmFrameFixedSize"
    using oversized_refused [of "lk_adapter l" "lk_sys l" b bd 0 ctx] that inv(3)
    by (auto simp: downlink_ok_def adapter_inv_def adapter_ok_def TmFrameFixedSize_def)
  ultimately show ?thesis using few stop go_on inv(2) by auto
qed

theorem downlink_dead_witness:
  "\<exists>g t l. downlink_history (bench_board (\<lambda>_ _. 0)) bench_downlink_start
       [Status True, Fill bench_packet_buffer FrameContext_default, Timeout] (g, t, l) \<and>
     length (sent (lk_traffic l)) = 1 \<and> ag_state g = WAIT_STATUS"
proof -
  obtain g t l where d: "downlink_history (bench_board (\<lambda>_ _. 0)) bench_downlink_start
      [Status True, Fill bench_packet_buffer FrameContext_default, Timeout] (g, t, l)" "length (sent (lk_traffic l)) = 1"
    using bench_downlink by auto
  have "sent (lk_traffic l) \<noteq> []" using d(2) by auto
  with downlink_dead [OF d(1) bench_works, THEN conjunct2, THEN conjunct1] d show ?thesis
    by (auto simp: AggregationSize_def TmFrameFixedSize_def)
qed

end
