(* ===== verification/Message_Queue.thy ===== *)
theory Message_Queue
  imports Circular_Buffer
begin

text \<open>
  The queue of fixed-size messages \<^verbatim>\<open>Types::Queue\<close> (\<^verbatim>\<open>lib/fprime/Utils/Types/Queue.{hpp,cpp}\<close>), which keeps its messages back to
  back in a ring buffer, and the proof that it is a first-in first-out queue of bounded depth that counts its highest fill.
\<close>

section \<open>The class\<close>

record Queue =
  m_internal :: CircularBuffer
  m_message_size :: nat

definition Queue_new :: Queue where
  "Queue_new = \<lparr>m_internal = CircularBuffer_new, m_message_size = 0\<rparr>"

definition Queue_setup :: "bytes option \<Rightarrow> nat \<Rightarrow> nat \<Rightarrow> nat \<Rightarrow> Queue \<Rightarrow> Queue option" where
  "Queue_setup storage storage_size depth message_size q = do {
     let total_needed_size = depth * message_size;
     FW_ASSERT (storage_size \<ge> total_needed_size);
     internal \<leftarrow> CircularBuffer_setup (map_option (take total_needed_size) storage) total_needed_size (m_internal q);
     Some (q\<lparr>m_internal := internal, m_message_size := message_size\<rparr>)
   }"

definition Queue_enqueue :: "bytes \<Rightarrow> nat \<Rightarrow> Queue \<Rightarrow> (SerializeStatus \<times> Queue) option" where
  "Queue_enqueue message sz q = do {
     FW_ASSERT (m_message_size q > 0);
     FW_ASSERT (m_message_size q = sz);
     (status, internal) \<leftarrow> serialize (take (m_message_size q) message) (m_internal q);
     Some (status, q\<lparr>m_internal := internal\<rparr>)
   }"

text \<open>The bytes are what is stored through the output parameter.\<close>

definition Queue_dequeue :: "nat \<Rightarrow> Queue \<Rightarrow> ((SerializeStatus \<times> bytes option) \<times> Queue) option" where
  "Queue_dequeue sz q = do {
     FW_ASSERT (m_message_size q > 0);
     FW_ASSERT (m_message_size q \<le> sz);
     (result, message) \<leftarrow> peek (m_message_size q) 0 (m_internal q);
     if result \<noteq> FW_SERIALIZE_OK then Some ((result, message), q)
     else do {
       (status, internal) \<leftarrow> rotate (m_message_size q) (m_internal q);
       Some ((status, message), q\<lparr>m_internal := internal\<rparr>)
     }
   }"

definition Queue_get_high_water_mark :: "Queue \<Rightarrow> nat option" where
  "Queue_get_high_water_mark q = do {
     FW_ASSERT (m_message_size q > 0);
     Some (get_high_water_mark (m_internal q) div m_message_size q)
   }"

definition Queue_clear_high_water_mark :: "Queue \<Rightarrow> Queue" where
  "Queue_clear_high_water_mark q = q\<lparr>m_internal := clear_high_water_mark (m_internal q)\<rparr>"

definition getQueueSize :: "Queue \<Rightarrow> nat option" where
  "getQueueSize q = do {
     FW_ASSERT (m_message_size q > 0);
     Some (get_allocated_size (m_internal q) div m_message_size q)
   }"

section \<open>Messages in a sequence of bytes\<close>

fun chunks :: "nat \<Rightarrow> nat \<Rightarrow> 'a list \<Rightarrow> 'a list list" where
  "chunks n 0 xs = []"
| "chunks n (Suc k) xs = take n xs # chunks n k (drop n xs)"

lemma length_chunks [simp]: "length (chunks n k xs) = k"
  by (induction k arbitrary: xs) auto

lemma chunks_snoc: "length xs = k * n \<Longrightarrow> length m = n \<Longrightarrow> chunks n (Suc k) (xs @ m) = chunks n k xs @ [m]"
proof (induction k arbitrary: xs)
  case (Suc k)
  have "take n (xs @ m) = take n xs" "drop n (xs @ m) = drop n xs @ m"
    using Suc.prems by simp_all
  then show ?case
    using Suc.IH [of "drop n xs"] Suc.prems by (simp only: chunks.simps(2) [of n "Suc k"] chunks.simps(2) [of n k xs]) simp
qed simp

definition messages :: "Queue \<Rightarrow> bytes list" where
  "messages q = chunks (m_message_size q) (m_allocated_size (m_internal q) div m_message_size q) (contents (m_internal q))"

text \<open>A queue of depth \<open>d\<close> for messages of \<open>n\<close> bytes.\<close>

definition queue_ok :: "nat \<Rightarrow> nat \<Rightarrow> Queue \<Rightarrow> bool" where
  "queue_ok d n q \<longleftrightarrow> m_message_size q = n \<and> 0 < n \<and> 0 < d \<and> ring_ok (m_internal q) \<and> m_store_size (m_internal q) = d * n \<and>
     n dvd m_allocated_size (m_internal q) \<and> n dvd m_high_water_mark (m_internal q)"

definition highest :: "Queue \<Rightarrow> nat" where
  "highest q = m_high_water_mark (m_internal q) div m_message_size q"

lemma length_messages: "queue_ok d n q \<Longrightarrow> length (messages q) = m_allocated_size (m_internal q) div n"
  by (simp add: messages_def queue_ok_def)

lemma length_messages_times: "queue_ok d n q \<Longrightarrow> n * length (messages q) = m_allocated_size (m_internal q)"
  using length_messages [of d n q] by (simp add: queue_ok_def)

lemma fill_bounded: "queue_ok d n q \<Longrightarrow> length (messages q) \<le> d"
proof -
  assume ok: "queue_ok d n q"
  then have "n * length (messages q) \<le> n * d"
    by (simp add: length_messages_times) (simp add: queue_ok_def ring_ok_def mult.commute)
  with ok show ?thesis by (simp add: queue_ok_def)
qed

lemma setup_ok:
  assumes "0 < d" "0 < n" "d * n \<le> sz" "sz \<le> length st"
  shows "\<exists>q. Queue_setup (Some st) sz d n Queue_new = Some q \<and> queue_ok d n q \<and> messages q = [] \<and> highest q = 0"
proof -
  obtain cb where cb: "CircularBuffer_setup (Some (take (d * n) st)) (d * n) CircularBuffer_new = Some cb" "ring_ok cb"
    "contents cb = []" "m_store_size cb = d * n"
    using ring_ok_setup [of "d * n" "take (d * n) st"] assms by auto
  moreover have "m_allocated_size cb = 0" using cb(3) length_contents [of cb] by simp
  moreover have "m_high_water_mark cb = 0"
    using cb(1) by (auto simp: CircularBuffer_setup_def)
  ultimately show ?thesis
    using assms by (simp add: Queue_setup_def Queue_new_def queue_ok_def messages_def highest_def)
qed

lemma store_loop_mark: "store_loop bs idx cb = Some cb' \<Longrightarrow> m_high_water_mark cb' = m_high_water_mark cb"
  by (induction bs idx cb rule: store_loop.induct) (auto simp: bind_eq_Some_conv)

lemma serialize_mark:
  "serialize bs cb = Some (FW_SERIALIZE_OK, cb') \<Longrightarrow> m_high_water_mark cb' = max (m_high_water_mark cb) (m_allocated_size cb')"
  by (auto simp: serialize_def bind_eq_Some_conv split: if_splits dest: store_loop_mark)

lemma enqueue_room:
  assumes "queue_ok d n q" "length m = n" "length (messages q) < d"
  shows "\<exists>q'. Queue_enqueue m n q = Some (FW_SERIALIZE_OK, q') \<and> queue_ok d n q' \<and> messages q' = messages q @ [m] \<and>
    highest q' = max (highest q) (length (messages q'))"
proof -
  let ?cb = "m_internal q"
  have ok: "ring_ok ?cb" "m_message_size q = n" "0 < n" "m_store_size ?cb = d * n" "n dvd m_allocated_size ?cb"
    "n dvd m_high_water_mark ?cb" "0 < d"
    using assms(1) by (simp_all add: queue_ok_def)
  have "n * Suc (length (messages q)) \<le> n * d" using assms(3) by (intro mult_le_mono2) simp
  then have "length (contents ?cb) + length m \<le> m_store_size ?cb"
    using ok assms(2) length_messages_times [OF assms(1)] by (simp add: mult.commute)
  then obtain cb' where cb': "serialize m ?cb = Some (FW_SERIALIZE_OK, cb')" "ring_ok cb'" "contents cb' = contents ?cb @ m"
    "m_store_size cb' = m_store_size ?cb"
    using serialize_contents(2) [OF ok(1)] by blast
  have size: "m_allocated_size cb' = m_allocated_size ?cb + n"
    using arg_cong [OF cb'(3), of length] assms(2) by simp
  note mark = serialize_mark [OF cb'(1)]
  let ?q = "q\<lparr>m_internal := cb'\<rparr>"
  have new: "queue_ok d n ?q"
    using ok cb' size mark by (auto simp: queue_ok_def max_def)
  moreover have "Queue_enqueue m n q = Some (FW_SERIALIZE_OK, ?q)"
    using ok assms(2) cb'(1) by (simp add: Queue_enqueue_def)
  moreover have grown: "messages ?q = messages q @ [m]"
    using ok assms(2) cb'(3) size chunks_snoc [of "contents ?cb" "m_allocated_size ?cb div n" n m]
    by (simp add: messages_def del: chunks.simps)
  moreover have "highest ?q = max (highest q) (length (messages ?q))"
  proof -
    have "mono (\<lambda>x. x div n)" by (simp add: mono_def div_le_mono)
    from max_of_mono [OF this] show ?thesis
      using length_messages [OF new] ok mark by (simp add: highest_def)
  qed
  ultimately show ?thesis by blast
qed

lemma enqueue_full:
  assumes "queue_ok d n q" "length m = n" "length (messages q) = d"
  shows "Queue_enqueue m n q = Some (FW_SERIALIZE_NO_ROOM_LEFT, q)"
proof -
  let ?cb = "m_internal q"
  have "m_store_size ?cb < length (contents ?cb) + length m"
    using assms length_messages_times [OF assms(1)] by (simp add: queue_ok_def mult.commute)
  with serialize_contents(1) [of ?cb m] assms show ?thesis
    by (simp add: Queue_enqueue_def queue_ok_def)
qed

lemma dequeue_first:
  assumes "queue_ok d n q" "messages q = m # ms" "n \<le> sz"
  shows "\<exists>q'. Queue_dequeue sz q = Some ((FW_SERIALIZE_OK, Some m), q') \<and> queue_ok d n q' \<and> messages q' = ms \<and> highest q' = highest q"
proof -
  let ?cb = "m_internal q"
  have ok: "ring_ok ?cb" "m_message_size q = n" "0 < n" "0 < d" "m_store_size ?cb = d * n" "n dvd m_allocated_size ?cb"
    "n dvd m_high_water_mark ?cb"
    using assms(1) by (simp_all add: queue_ok_def)
  have fill: "m_allocated_size ?cb div n = Suc (length ms)" "m_allocated_size ?cb = n * Suc (length ms)"
    using length_messages [OF assms(1)] length_messages_times [OF assms(1)] assms(2) by simp_all
  then have split: "m = take n (contents ?cb)" "ms = chunks n (length ms) (drop n (contents ?cb))"
    using assms(2) ok(2) by (simp_all add: messages_def)
  have le: "n \<le> length (contents ?cb)" using fill by simp
  let ?cb' = "?cb\<lparr>m_head_idx := (m_head_idx ?cb + n) mod m_store_size ?cb, m_allocated_size := m_allocated_size ?cb - n\<rparr>"
  let ?q = "q\<lparr>m_internal := ?cb'\<rparr>"
  have "Queue_dequeue sz q = Some ((FW_SERIALIZE_OK, Some m), ?q)"
    using ok assms(3) le split(1) peek_contents [OF ok(1), of n 0] rotate_contents(1) [OF ok(1), of n]
    by (simp add: Queue_dequeue_def)
  moreover have "queue_ok d n ?q"
    using ok rotate_contents(2) [OF ok(1) le] by (simp add: queue_ok_def)
  moreover have "messages ?q = ms"
  proof -
    have "messages ?q = chunks n (length ms) (drop n (contents ?cb))"
      using ok(2,3) rotate_contents(3) [OF ok(1) le] fill(2) by (simp add: messages_def)
    with split(2) show ?thesis by simp
  qed
  moreover have "highest ?q = highest q" by (simp add: highest_def)
  ultimately show ?thesis by blast
qed

lemma dequeue_empty:
  assumes "queue_ok d n q" "messages q = []" "n \<le> sz"
  shows "Queue_dequeue sz q = Some ((FW_DESERIALIZE_BUFFER_EMPTY, None), q)"
proof -
  have "m_allocated_size (m_internal q) = 0" using length_messages_times [OF assms(1)] assms(2) by simp
  then show ?thesis
    using assms peek_contents [of "m_internal q" n 0] by (simp add: Queue_dequeue_def queue_ok_def)
qed

section \<open>The interface\<close>

text \<open>
  What a user of such a queue relies on, with the messages it holds and its highest fill since the mark was cleared as the abstract
  state. Every law is about a queue of depth \<open>d\<close> for messages of \<open>n\<close> bytes.
\<close>

locale message_fifo =
  fixes enq :: "bytes \<Rightarrow> nat \<Rightarrow> 'q \<Rightarrow> (SerializeStatus \<times> 'q) option"
    and deq :: "nat \<Rightarrow> 'q \<Rightarrow> ((SerializeStatus \<times> bytes option) \<times> 'q) option"
    and fill mark :: "'q \<Rightarrow> nat option" and clear :: "'q \<Rightarrow> 'q"
    and ok :: "nat \<Rightarrow> nat \<Rightarrow> 'q \<Rightarrow> bool" and items :: "'q \<Rightarrow> bytes list" and peak :: "'q \<Rightarrow> nat"
  assumes enq_room: "ok d n q \<Longrightarrow> length m = n \<Longrightarrow> length (items q) < d \<Longrightarrow>
      \<exists>q'. enq m n q = Some (FW_SERIALIZE_OK, q') \<and> ok d n q' \<and> items q' = items q @ [m] \<and> peak q' = max (peak q) (length (items q'))"
    and enq_full: "ok d n q \<Longrightarrow> length m = n \<Longrightarrow> length (items q) = d \<Longrightarrow> enq m n q = Some (FW_SERIALIZE_NO_ROOM_LEFT, q)"
    and deq_first: "ok d n q \<Longrightarrow> items q = m # ms \<Longrightarrow> n \<le> sz \<Longrightarrow>
      \<exists>q'. deq sz q = Some ((FW_SERIALIZE_OK, Some m), q') \<and> ok d n q' \<and> items q' = ms \<and> peak q' = peak q"
    and deq_empty: "ok d n q \<Longrightarrow> items q = [] \<Longrightarrow> n \<le> sz \<Longrightarrow> deq sz q = Some ((FW_DESERIALIZE_BUFFER_EMPTY, None), q)"
    and fill_items: "ok d n q \<Longrightarrow> fill q = Some (length (items q))"
    and bounded: "ok d n q \<Longrightarrow> length (items q) \<le> d"
    and mark_peak: "ok d n q \<Longrightarrow> mark q = Some (peak q)"
    and clear_peak: "ok d n q \<Longrightarrow> ok d n (clear q) \<and> items (clear q) = items q \<and> peak (clear q) = 0"
begin

lemma enq_cases:
  assumes "ok d n q" "length m = n"
  shows "\<exists>q'. enq m n q = Some (if length (items q) < d then FW_SERIALIZE_OK else FW_SERIALIZE_NO_ROOM_LEFT, q') \<and> ok d n q' \<and>
    items q' = (if length (items q) < d then items q @ [m] else items q)"
  using enq_room [OF assms] enq_full [OF assms] bounded [OF assms(1)] assms(1) by (cases "length (items q) < d") auto

end

interpretation mq: message_fifo Queue_enqueue Queue_dequeue getQueueSize Queue_get_high_water_mark Queue_clear_high_water_mark
  queue_ok messages highest
proof
  fix d n q
  assume ok: "queue_ok d n q"
  show "getQueueSize q = Some (length (messages q))"
    using ok by (simp add: getQueueSize_def length_messages [OF ok] get_allocated_size_def queue_ok_def)
  show "Queue_get_high_water_mark q = Some (highest q)"
    using ok by (simp add: Queue_get_high_water_mark_def highest_def get_high_water_mark_def queue_ok_def)
  have "contents (cb\<lparr>m_high_water_mark := 0\<rparr>) = contents cb" "ring_ok (cb\<lparr>m_high_water_mark := 0\<rparr>) = ring_ok cb" for cb
    by (simp_all add: contents_def ring_ok_def)
  then show "queue_ok d n (Queue_clear_high_water_mark q) \<and> messages (Queue_clear_high_water_mark q) = messages q \<and>
      highest (Queue_clear_high_water_mark q) = 0"
    using ok by (simp add: Queue_clear_high_water_mark_def clear_high_water_mark_def queue_ok_def messages_def highest_def)
qed (simp_all add: enqueue_room enqueue_full dequeue_first dequeue_empty fill_bounded)

section \<open>Sequences of operations\<close>

datatype message_op = Put bytes | Get | Fill_level | Peak | Clear_peak

datatype message_result = Stored SerializeStatus | Taken SerializeStatus "bytes option" | Number nat | Done

text \<open>The bounded queue of messages with its mark: the result of an operation and the new state.\<close>

fun fifo_step :: "nat \<Rightarrow> message_op \<Rightarrow> bytes list \<times> nat \<Rightarrow> message_result \<times> (bytes list \<times> nat)" where
  "fifo_step d (Put m) (ms, h) = (if length ms < d then (Stored FW_SERIALIZE_OK, ms @ [m], max h (Suc (length ms)))
     else (Stored FW_SERIALIZE_NO_ROOM_LEFT, ms, h))"
| "fifo_step d Get (ms, h) = (case ms of [] \<Rightarrow> (Taken FW_DESERIALIZE_BUFFER_EMPTY None, ms, h)
     | m # ms' \<Rightarrow> (Taken FW_SERIALIZE_OK (Some m), ms', h))"
| "fifo_step d Fill_level (ms, h) = (Number (length ms), ms, h)"
| "fifo_step d Peak (ms, h) = (Number h, ms, h)"
| "fifo_step d Clear_peak (ms, h) = (Done, ms, 0)"

fun Queue_step :: "nat \<Rightarrow> message_op \<Rightarrow> Queue \<Rightarrow> (message_result \<times> Queue) option" where
  "Queue_step n (Put m) q = do { (st, q) \<leftarrow> Queue_enqueue m n q; Some (Stored st, q) }"
| "Queue_step n Get q = do { ((st, m), q) \<leftarrow> Queue_dequeue n q; Some (Taken st m, q) }"
| "Queue_step n Fill_level q = do { k \<leftarrow> getQueueSize q; Some (Number k, q) }"
| "Queue_step n Peak q = do { k \<leftarrow> Queue_get_high_water_mark q; Some (Number k, q) }"
| "Queue_step n Clear_peak q = Some (Done, Queue_clear_high_water_mark q)"

fun fifo_run :: "nat \<Rightarrow> message_op list \<Rightarrow> bytes list \<times> nat \<Rightarrow> message_result list \<times> (bytes list \<times> nat)" where
  "fifo_run d [] s = ([], s)"
| "fifo_run d (c # cs) s = (case fifo_step d c s of (r, s') \<Rightarrow> case fifo_run d cs s' of (rs, s'') \<Rightarrow> (r # rs, s''))"

fun Queue_run :: "nat \<Rightarrow> message_op list \<Rightarrow> Queue \<Rightarrow> (message_result list \<times> Queue) option" where
  "Queue_run n [] q = Some ([], q)"
| "Queue_run n (c # cs) q = do { (r, q) \<leftarrow> Queue_step n c q; (rs, q) \<leftarrow> Queue_run n cs q; Some (r # rs, q) }"

fun put_sizes :: "nat \<Rightarrow> message_op \<Rightarrow> bool" where
  "put_sizes n (Put m) = (length m = n)"
| "put_sizes n _ = True"

lemma Queue_step_simulates:
  assumes "queue_ok d n q" "put_sizes n c" "fifo_step d c (messages q, highest q) = (r, ms, h)"
  shows "\<exists>q'. Queue_step n c q = Some (r, q') \<and> queue_ok d n q' \<and> messages q' = ms \<and> highest q' = h"
proof (cases c)
  case (Put m)
  then show ?thesis
    using assms mq.enq_room [OF assms(1), of m] mq.enq_full [OF assms(1), of m] mq.bounded [OF assms(1)]
    by (cases "length (messages q) < d") auto
next
  case Get
  then show ?thesis
    using assms mq.deq_empty [OF assms(1), of n] mq.deq_first [OF assms(1) _ order_refl] by (cases "messages q") fastforce+
qed (use assms mq.fill_items [OF assms(1)] mq.mark_peak [OF assms(1)] mq.clear_peak [OF assms(1)] in auto)

lemma Queue_run_simulates:
  "queue_ok d n q \<Longrightarrow> list_all (put_sizes n) cs \<Longrightarrow> fifo_run d cs (messages q, highest q) = (rs, ms, h) \<Longrightarrow>
    \<exists>q'. Queue_run n cs q = Some (rs, q') \<and> queue_ok d n q' \<and> messages q' = ms \<and> highest q' = h"
proof (induction cs arbitrary: q rs)
  case (Cons c cs)
  obtain r ms1 h1 where one: "fifo_step d c (messages q, highest q) = (r, ms1, h1)" by (metis prod_cases3)
  obtain rs1 where rest: "fifo_run d cs (ms1, h1) = (rs1, ms, h)" "rs = r # rs1"
    using Cons.prems(3) one by (auto split: prod.splits)
  obtain q1 where "Queue_step n c q = Some (r, q1)" "queue_ok d n q1" "messages q1 = ms1" "highest q1 = h1"
    using Queue_step_simulates [OF Cons.prems(1) _ one] Cons.prems(2) by auto
  with Cons.IH [of q1 rs1] rest Cons.prems(2) show ?case by auto
qed simp

section \<open>Properties\<close>

text \<open>
  The message queue is a bounded first-in first-out queue: from its set-up on, every sequence of operations with messages of the
  right size succeeds without a failed assertion and gives what a list of at most \<open>d\<close> messages gives, with the highest fill since
  the mark was last cleared, however the messages wrap around the memory.
\<close>

theorem message_queue_is_fifo:
  assumes "0 < d" "0 < n" "d * n \<le> sz" "sz \<le> length memory" "list_all (put_sizes n) cs"
  shows "\<exists>q q'. Queue_setup (Some memory) sz d n Queue_new = Some q \<and> Queue_run n cs q = Some (fst (fifo_run d cs ([], 0)), q') \<and>
    (messages q', highest q') = snd (fifo_run d cs ([], 0)) \<and> queue_ok d n q'"
proof -
  obtain q where q: "Queue_setup (Some memory) sz d n Queue_new = Some q" "queue_ok d n q" "messages q = []" "highest q = 0"
    using setup_ok [OF assms(1-4)] by blast
  obtain rs ms h where "fifo_run d cs ([], 0) = (rs, ms, h)" by (metis prod_cases3)
  with q Queue_run_simulates [OF q(2) assms(5)] show ?thesis by auto
qed

theorem message_queue_is_fifo_witness:
  "\<exists>q q'. Queue_setup (Some [0, 0, 0, 0, 0]) 5 2 2 Queue_new = Some q \<and>
    Queue_run 2 [Put [1, 2], Put [3, 4], Put [5, 6], Get, Put [7, 8], Get, Clear_peak, Peak] q =
      Some ([Stored FW_SERIALIZE_OK, Stored FW_SERIALIZE_OK, Stored FW_SERIALIZE_NO_ROOM_LEFT, Taken FW_SERIALIZE_OK (Some [1, 2]),
        Stored FW_SERIALIZE_OK, Taken FW_SERIALIZE_OK (Some [3, 4]), Done, Number 0], q') \<and> messages q' = [[7, 8]]"
proof -
  let ?cs = "[Put [1, 2], Put [3, 4], Put [5, 6], Get, Put [7, 8], Get, Clear_peak, Peak]"
  have run: "fifo_run 2 ?cs ([], 0) = ([Stored FW_SERIALIZE_OK, Stored FW_SERIALIZE_OK, Stored FW_SERIALIZE_NO_ROOM_LEFT,
      Taken FW_SERIALIZE_OK (Some [1, 2]), Stored FW_SERIALIZE_OK, Taken FW_SERIALIZE_OK (Some [3, 4]), Done, Number 0], [[7, 8]], 0)"
    by simp
  from message_queue_is_fifo [of 2 2 5 "[0, 0, 0, 0, 0]" ?cs, unfolded run fst_conv snd_conv] show ?thesis
    by (fastforce simp del: Queue_run.simps)
qed

end
