(* ===== verification/Com_Queue.thy ===== *)
theory Com_Queue
  imports Message_Queue Serialization
begin

text \<open>
  The queue of outgoing messages \<^verbatim>\<open>Svc/ComQueue/ComQueue.{fpp,hpp,cpp}\<close>: it keeps packets and file buffers, one queue per port, and
  hands one message at a time to the framer, by priority and in turn within a priority, each time the link reports that it is ready.

  Port functions work on the pair of the component and the world of the others, as for the aggregator: a neighbour may call back
  \<^verbatim>\<open>dataReturnIn\<close>, which is synchronous, before it returns.
\<close>

section \<open>The component\<close>

definition COM_PORT_COUNT :: nat where "COM_PORT_COUNT = 2"
definition BUFFER_PORT_COUNT :: nat where "BUFFER_PORT_COUNT = 1"
definition TOTAL_PORT_COUNT :: nat where "TOTAL_PORT_COUNT = COM_PORT_COUNT + BUFFER_PORT_COUNT"

datatype BufferState = BUFFER_OWNED | BUFFER_UNOWNED
datatype SendState = READY | WAITING
datatype QueueType = COM_QUEUE | BUFFER_QUEUE

record QueueConfigurationEntry =
  qe_depth :: nat
  qe_priority :: int

record QueueMetadata =
  qm_depth :: nat
  qm_priority :: int
  qm_index :: nat
  qm_msgSize :: nat

definition QueueConfigurationTable_new :: "QueueConfigurationEntry list" where
  "QueueConfigurationTable_new = replicate TOTAL_PORT_COUNT \<lparr>qe_depth = 0, qe_priority = 0\<rparr>"

record ComQueue =
  m_dequeued_com_buffer :: LinearBuffer
  cq_address :: nat
  m_queues :: "Queue list"
  m_prioritizedList :: "QueueMetadata list"
  m_throttle :: "bool list"
  cq_state :: SendState
  cq_buffer_state :: BufferState
  m_allocationId :: int
  cq_allocator :: bool
  m_allocation :: nat

text \<open>
  The constructor leaves the list of metadata uninitialized. \<open>address\<close> is where the buffer for the message to be sent keeps its bytes;
  \<open>cq_allocator\<close> tells whether the pointer to the allocator is set.
\<close>

definition ComQueue_new :: "nat \<Rightarrow> LinearBuffer \<Rightarrow> QueueMetadata list \<Rightarrow> ComQueue" where
  "ComQueue_new address com garbage = \<lparr>m_dequeued_com_buffer = com, cq_address = address,
     m_queues = replicate TOTAL_PORT_COUNT Queue_new, m_prioritizedList = garbage, m_throttle = replicate TOTAL_PORT_COUNT False,
     cq_state = WAITING, cq_buffer_state = BUFFER_OWNED, m_allocationId = - 1, cq_allocator = False, m_allocation = 0\<rparr>"

text \<open>
  The queues store the objects byte by byte. How the compiler lays the two classes out is a parameter: their sizes, the bytes of an
  object, and the object that bytes are.
\<close>

record object_layout =
  com_size :: nat
  com_object :: "LinearBuffer \<Rightarrow> bytes"
  com_of :: "bytes \<Rightarrow> LinearBuffer"
  buffer_size :: nat
  buffer_object :: "Fw_Buffer \<Rightarrow> bytes"
  buffer_of :: "bytes \<Rightarrow> Fw_Buffer"

record 'w queue_ports =
  cq_dataOut :: "Fw_Buffer \<Rightarrow> FrameContext \<Rightarrow> ComQueue \<times> 'w \<Rightarrow> (ComQueue \<times> 'w) option"
  cq_bufferReturnOut :: "nat \<Rightarrow> (Fw_Buffer \<Rightarrow> 'w \<Rightarrow> 'w option) option"
  cq_QueueOverflow :: "QueueType \<Rightarrow> u32 \<Rightarrow> 'w \<Rightarrow> 'w"
  cq_comQueueDepth :: "u32 list \<Rightarrow> 'w \<Rightarrow> 'w"
  cq_buffQueueDepth :: "u32 list \<Rightarrow> 'w \<Rightarrow> 'w"

text \<open>Calling an output port that is not connected fails an assertion of the generated code.\<close>

definition bufferReturnOut :: "'w queue_ports \<Rightarrow> nat \<Rightarrow> Fw_Buffer \<Rightarrow> 'w \<Rightarrow> 'w option" where
  "bufferReturnOut p port b w = (case cq_bufferReturnOut p port of None \<Rightarrow> None | Some out \<Rightarrow> out b w)"

subsection \<open>Configuration\<close>

text \<open>
  The inner loop of \<^verbatim>\<open>configure\<close>, over the entries of the table, with the list, the next free position and the total so far. The first
  assertion about the depth is the division in the code's overflow check, which by zero stops the program.
\<close>

definition message_size :: "object_layout \<Rightarrow> nat \<Rightarrow> nat" where
  "message_size L entryIndex = (if entryIndex < COM_PORT_COUNT then com_size L else buffer_size L)"

fun entry_loop :: "object_layout \<Rightarrow> int \<Rightarrow> nat \<Rightarrow> QueueConfigurationEntry list \<Rightarrow> QueueMetadata list \<times> nat \<times> nat \<Rightarrow>
    (QueueMetadata list \<times> nat \<times> nat) option" where
  "entry_loop L currentPriority entryIndex [] acc = Some acc"
| "entry_loop L currentPriority entryIndex (e # es) (pl, k, totalAllocation) = do {
     FW_ASSERT (qe_priority e < int TOTAL_PORT_COUNT);
     if currentPriority = qe_priority e then do {
       let entry = \<lparr>qm_depth = qe_depth e, qm_priority = qe_priority e, qm_index = entryIndex, qm_msgSize = message_size L entryIndex\<rparr>;
       FW_ASSERT (qm_depth entry \<noteq> 0);
       FW_ASSERT ((2 ^ 64 - 1) div qm_depth entry \<ge> qm_msgSize entry);
       FW_ASSERT (2 ^ 64 - 1 - qm_depth entry * qm_msgSize entry \<ge> totalAllocation);
       entry_loop L currentPriority (entryIndex + 1) es (pl[k := entry], k + 1, totalAllocation + qm_depth entry * qm_msgSize entry)
     }
     else entry_loop L currentPriority (entryIndex + 1) es (pl, k, totalAllocation)
   }"

fun priority_loop :: "object_layout \<Rightarrow> QueueConfigurationEntry list \<Rightarrow> int list \<Rightarrow> QueueMetadata list \<times> nat \<times> nat \<Rightarrow>
    (QueueMetadata list \<times> nat \<times> nat) option" where
  "priority_loop L entries [] acc = Some acc"
| "priority_loop L entries (pr # prs) acc = do { acc \<leftarrow> entry_loop L pr 0 entries acc; priority_loop L entries prs acc }"

text \<open>The second loop, which hands the memory out; \<open>mem\<close> is its content, by address, and 0 the null pointer.\<close>

definition memory_at :: "(nat \<Rightarrow> u8) \<Rightarrow> nat \<Rightarrow> nat \<Rightarrow> bytes option" where
  "memory_at mem address n = (if address = 0 then None else Some (map mem [address..<address + n]))"

fun setup_loop :: "(nat \<Rightarrow> u8) \<Rightarrow> nat \<Rightarrow> nat \<Rightarrow> QueueMetadata list \<Rightarrow> nat \<times> Queue list \<Rightarrow> (nat \<times> Queue list) option" where
  "setup_loop mem address totalAllocation [] acc = Some acc"
| "setup_loop mem address totalAllocation (m # ms) (offset, qs) = do {
     let allocationSize = qm_depth m * qm_msgSize m;
     FW_ASSERT (qm_index m < TOTAL_PORT_COUNT);
     FW_ASSERT (allocationSize + offset \<le> totalAllocation);
     if allocationSize > 0 then do {
       queue \<leftarrow> Queue_setup (memory_at mem (address + offset) allocationSize) allocationSize (qm_depth m) (qm_msgSize m) (qs ! qm_index m);
       setup_loop mem address totalAllocation ms (offset + allocationSize, qs[qm_index m := queue])
     }
     else setup_loop mem address totalAllocation ms (offset + allocationSize, qs)
   }"

text \<open>The allocator gives an address and the size it granted, which replaces the size that was asked for.\<close>

definition ComQueue_configure :: "object_layout \<Rightarrow> QueueConfigurationEntry list \<Rightarrow> int \<Rightarrow> (nat \<Rightarrow> nat \<times> nat) \<Rightarrow> (nat \<Rightarrow> u8) \<Rightarrow>
    ComQueue \<Rightarrow> ComQueue option" where
  "ComQueue_configure L entries allocationId alloc mem q = do {
     (pl, k, totalAllocation) \<leftarrow> priority_loop L entries [0..int TOTAL_PORT_COUNT - 1] (m_prioritizedList q, 0, 0);
     let (address, totalAllocation) = alloc totalAllocation;
     (allocationOffset, qs) \<leftarrow> setup_loop mem address totalAllocation pl (0, m_queues q);
     FW_ASSERT (allocationOffset = totalAllocation);
     Some (q\<lparr>cq_allocator := True, m_allocationId := allocationId, m_allocation := address, m_prioritizedList := pl, m_queues := qs\<rparr>)
   }"

text \<open>What \<^verbatim>\<open>cleanup\<close> gives back to the allocator: identifier and address.\<close>

definition ComQueue_cleanup :: "ComQueue \<Rightarrow> (int \<times> nat) option" where
  "ComQueue_cleanup q = (if cq_allocator q \<and> m_allocation q \<noteq> 0 then Some (m_allocationId q, m_allocation q) else None)"

subsection \<open>Sending\<close>

text \<open>The two functions that send, with their common end.\<close>

definition send_out :: "'w queue_ports \<Rightarrow> Fw_Buffer \<Rightarrow> u16 \<Rightarrow> nat \<Rightarrow> ComQueue \<times> 'w \<Rightarrow> (ComQueue \<times> 'w) option" where
  "send_out p b descriptor queueIndex = (\<lambda>(q, w). do {
     let context = FrameContext_default\<lparr>ctx_apid := descriptor, ctx_comQueueIndex := queueIndex\<rparr>;
     FW_ASSERT (cq_buffer_state q = BUFFER_OWNED);
     (q, w) \<leftarrow> cq_dataOut p b context (q\<lparr>cq_buffer_state := BUFFER_UNOWNED\<rparr>, w);
     Some (q\<lparr>cq_state := WAITING\<rparr>, w)
   })"

definition sendComBuffer :: "'w queue_ports \<Rightarrow> nat \<Rightarrow> ComQueue \<times> 'w \<Rightarrow> (ComQueue \<times> 'w) option" where
  "sendComBuffer p queueIndex = (\<lambda>(q, w). do {
     FW_ASSERT (cq_state q = READY);
     let comBuffer = m_dequeued_com_buffer q;
     let outBuffer = \<lparr>buf_addr = cq_address q, buf_size = getSize comBuffer, buf_context = 0xFFFFFFFF, buf_memory = lb_mem comBuffer\<rparr>;
     let (status, descriptor, comBuffer) = deserializeTo_U16 comBuffer;
     FW_ASSERT (status = FW_SERIALIZE_OK);
     descriptor \<leftarrow> descriptor;
     send_out p outBuffer descriptor queueIndex (q\<lparr>m_dequeued_com_buffer := comBuffer\<rparr>, w)
   })"

definition sendBuffer :: "'w queue_ports \<Rightarrow> Fw_Buffer \<Rightarrow> nat \<Rightarrow> ComQueue \<times> 'w \<Rightarrow> (ComQueue \<times> 'w) option" where
  "sendBuffer p buffer queueIndex = (\<lambda>(q, w). do {
     FW_ASSERT (cq_state q = READY);
     deserializer \<leftarrow> getDeserializer buffer;
     let (status, descriptor, _) = deserializeTo_U16 deserializer;
     FW_ASSERT (status = FW_SERIALIZE_OK);
     descriptor \<leftarrow> descriptor;
     send_out p buffer descriptor queueIndex (q, w)
   })"

text \<open>One dequeued message: the body of the first loop of \<^verbatim>\<open>processQueue\<close> for a queue that is not empty.\<close>

definition dispatch_entry :: "'w queue_ports \<Rightarrow> object_layout \<Rightarrow> QueueMetadata \<Rightarrow> ComQueue \<times> 'w \<Rightarrow> (ComQueue \<times> 'w) option" where
  "dispatch_entry p L entry = (\<lambda>(q, w).
     if qm_index entry < COM_PORT_COUNT then do {
       FW_ASSERT (cq_buffer_state q = BUFFER_OWNED);
       ((dequeue_status, bs), queue) \<leftarrow> Queue_dequeue (com_size L) (m_queues q ! qm_index entry);
       FW_ASSERT (dequeue_status = FW_SERIALIZE_OK);
       bs \<leftarrow> bs;
       sendComBuffer p (qm_index entry) (q\<lparr>m_queues := (m_queues q)[qm_index entry := queue], m_dequeued_com_buffer := com_of L bs\<rparr>, w)
     }
     else do {
       ((dequeue_status, bs), queue) \<leftarrow> Queue_dequeue (buffer_size L) (m_queues q ! qm_index entry);
       FW_ASSERT (dequeue_status = FW_SERIALIZE_OK);
       bs \<leftarrow> bs;
       sendBuffer p (buffer_of L bs) (qm_index entry) (q\<lparr>m_queues := (m_queues q)[qm_index entry := queue]\<rparr>, w)
     })"

text \<open>
  The first loop, from position \<open>priorityIndex\<close> of the list; it gives the position at which it stopped and the priority of what it
  sent. The second loop moves the entry behind the others of its priority.
\<close>

fun walk_loop :: "'w queue_ports \<Rightarrow> object_layout \<Rightarrow> nat \<Rightarrow> QueueMetadata list \<Rightarrow> ComQueue \<times> 'w \<Rightarrow> (nat \<times> int \<times> ComQueue \<times> 'w) option" where
  "walk_loop p L priorityIndex [] qw = Some (priorityIndex, 0, qw)"
| "walk_loop p L priorityIndex (entry # es) qw = do {
     n \<leftarrow> getQueueSize (m_queues (fst qw) ! qm_index entry);
     if n = 0 then walk_loop p L (priorityIndex + 1) es qw
     else do {
       (q, w) \<leftarrow> dispatch_entry p L entry qw;
       Some (priorityIndex, qm_priority entry, q\<lparr>m_throttle := (m_throttle q)[qm_index entry := False]\<rparr>, w)
     }
   }"

function rotate_loop :: "nat \<Rightarrow> int \<Rightarrow> QueueMetadata list \<Rightarrow> QueueMetadata list" where
  "rotate_loop priorityIndex sendPriority pl =
     (if priorityIndex < TOTAL_PORT_COUNT \<and> qm_priority (pl ! priorityIndex) = sendPriority
      then rotate_loop (priorityIndex + 1) sendPriority
        (pl[priorityIndex := pl ! (priorityIndex - 1), priorityIndex - 1 := pl ! priorityIndex])
      else pl)"
  by pat_completeness auto
termination
  by (relation "measure (\<lambda>(k, _). TOTAL_PORT_COUNT - k)") auto

declare rotate_loop.simps [simp del]

definition processQueue :: "'w queue_ports \<Rightarrow> object_layout \<Rightarrow> ComQueue \<times> 'w \<Rightarrow> (ComQueue \<times> 'w) option" where
  "processQueue p L = (\<lambda>(q, w). do {
     FW_ASSERT (cq_state q = READY);
     (priorityIndex, sendPriority, q, w) \<leftarrow> walk_loop p L 0 (m_prioritizedList q) (q, w);
     Some (q\<lparr>m_prioritizedList := rotate_loop (priorityIndex + 1) sendPriority (m_prioritizedList q)\<rparr>, w)
   })"

subsection \<open>Port handlers\<close>

definition ComQueue_enqueue :: "'w queue_ports \<Rightarrow> object_layout \<Rightarrow> nat \<Rightarrow> QueueType \<Rightarrow> bytes \<Rightarrow> nat \<Rightarrow> ComQueue \<times> 'w \<Rightarrow>
    (bool \<times> ComQueue \<times> 'w) option" where
  "ComQueue_enqueue p L queueNum queueType data sz = (\<lambda>(q, w). do {
     let expectedSize = (if queueType = COM_QUEUE then com_size L else buffer_size L);
     FW_ASSERT (queueType = COM_QUEUE \<or> queueNum \<ge> COM_PORT_COUNT);
     let portNum = queueNum - (if queueType = COM_QUEUE then 0 else COM_PORT_COUNT);
     FW_ASSERT (expectedSize = sz);
     (status, queue) \<leftarrow> Queue_enqueue data sz (m_queues q ! queueNum);
     let q = q\<lparr>m_queues := (m_queues q)[queueNum := queue]\<rparr>;
     let (rvStatus, q, w) = (if status = FW_SERIALIZE_NO_ROOM_LEFT
       then if \<not> m_throttle q ! queueNum
         then (False, q\<lparr>m_throttle := (m_throttle q)[queueNum := True]\<rparr>, cq_QueueOverflow p queueType (of_nat portNum) w)
         else (False, q, w)
       else (True, q, w));
     (q, w) \<leftarrow> (if cq_state q = READY then processQueue p L (q, w) else Some (q, w));
     Some (rvStatus, q, w)
   })"

definition comPacketQueueIn :: "'w queue_ports \<Rightarrow> object_layout \<Rightarrow> nat \<Rightarrow> LinearBuffer \<Rightarrow> ComQueue \<times> 'w \<Rightarrow> (ComQueue \<times> 'w) option" where
  "comPacketQueueIn p L portNum data qw = do {
     FW_ASSERT (portNum < COM_PORT_COUNT);
     (_, q, w) \<leftarrow> ComQueue_enqueue p L portNum COM_QUEUE (com_object L data) (com_size L) qw;
     Some (q, w)
   }"

definition bufferQueueIn :: "'w queue_ports \<Rightarrow> object_layout \<Rightarrow> nat \<Rightarrow> Fw_Buffer \<Rightarrow> ComQueue \<times> 'w \<Rightarrow> (ComQueue \<times> 'w) option" where
  "bufferQueueIn p L portNum fwBuffer qw = do {
     FW_ASSERT (2 ^ 15 - 1 - COM_PORT_COUNT > portNum);
     let queueNum = portNum + COM_PORT_COUNT;
     FW_ASSERT (portNum < BUFFER_PORT_COUNT);
     FW_ASSERT (queueNum < TOTAL_PORT_COUNT);
     (success, q, w) \<leftarrow> ComQueue_enqueue p L queueNum BUFFER_QUEUE (buffer_object L fwBuffer) (buffer_size L) qw;
     if \<not> success then do { w \<leftarrow> bufferReturnOut p portNum fwBuffer w; Some (q, w) }
     else Some (q, w)
   }"

definition ComQueue_comStatusIn :: "'w queue_ports \<Rightarrow> object_layout \<Rightarrow> bool \<Rightarrow> ComQueue \<times> 'w \<Rightarrow> (ComQueue \<times> 'w) option" where
  "ComQueue_comStatusIn p L condition = (\<lambda>(q, w). case cq_state q of
     WAITING \<Rightarrow> (if condition then do {
         (q, w) \<leftarrow> processQueue p L (q\<lparr>cq_state := READY\<rparr>, w);
         FW_ASSERT (cq_state q = WAITING \<or> cq_state q = READY);
         Some (q, w)
       }
       else Some (q\<lparr>cq_state := WAITING\<rparr>, w))
   | READY \<Rightarrow> None)"

fun take_marks :: "Queue list \<Rightarrow> (u32 list \<times> Queue list) option" where
  "take_marks [] = Some ([], [])"
| "take_marks (queue # qs) = do {
     n \<leftarrow> Queue_get_high_water_mark queue;
     (ns, qs') \<leftarrow> take_marks qs;
     Some (of_nat n # ns, Queue_clear_high_water_mark queue # qs')
   }"

definition ComQueue_run :: "'w queue_ports \<Rightarrow> ComQueue \<times> 'w \<Rightarrow> (ComQueue \<times> 'w) option" where
  "ComQueue_run p = (\<lambda>(q, w). do {
     (com, qs) \<leftarrow> take_marks (take COM_PORT_COUNT (m_queues q));
     let w = cq_comQueueDepth p com w;
     (buff, qs') \<leftarrow> take_marks (drop COM_PORT_COUNT (m_queues q));
     let w = cq_buffQueueDepth p buff w;
     Some (q\<lparr>m_queues := qs @ qs'\<rparr>, w)
   })"

definition ComQueue_dataReturnIn :: "'w queue_ports \<Rightarrow> Fw_Buffer \<Rightarrow> FrameContext \<Rightarrow> ComQueue \<times> 'w \<Rightarrow> (ComQueue \<times> 'w) option" where
  "ComQueue_dataReturnIn p data context = (\<lambda>(q, w). do {
     FW_ASSERT (cq_buffer_state q = BUFFER_UNOWNED);
     let q = q\<lparr>cq_buffer_state := BUFFER_OWNED\<rparr>;
     let bufferReturnPortNum = int (ctx_comQueueIndex context) - int COM_PORT_COUNT;
     FW_ASSERT (bufferReturnPortNum < int BUFFER_PORT_COUNT);
     if bufferReturnPortNum \<ge> 0 then do {
       FW_ASSERT (cq_bufferReturnOut p (nat bufferReturnPortNum) \<noteq> None);
       w \<leftarrow> bufferReturnOut p (nat bufferReturnPortNum) data w;
       Some (q, w)
     }
     else Some (q, w)
   })"

text \<open>The hook that runs when the port's own queue of calls is full.\<close>

definition bufferQueueIn_overflowHook :: "'w queue_ports \<Rightarrow> nat \<Rightarrow> Fw_Buffer \<Rightarrow> ComQueue \<times> 'w \<Rightarrow> (ComQueue \<times> 'w) option" where
  "bufferQueueIn_overflowHook p portNum fwBuffer = (\<lambda>(q, w). do {
     FW_ASSERT (portNum < BUFFER_PORT_COUNT);
     w \<leftarrow> bufferReturnOut p portNum fwBuffer w;
     Some (q, w)
   })"

text \<open>The calls of the component's ports, apart from \<^verbatim>\<open>dataReturnIn\<close>, one at a time as its thread takes them.\<close>

datatype queue_call = Com_packet nat LinearBuffer | File_buffer nat Fw_Buffer | Link_status bool | Run_tick | Dropped nat Fw_Buffer

fun ComQueue_call :: "'w queue_ports \<Rightarrow> object_layout \<Rightarrow> queue_call \<Rightarrow> ComQueue \<times> 'w \<Rightarrow> (ComQueue \<times> 'w) option" where
  "ComQueue_call p L (Com_packet port data) qw = comPacketQueueIn p L port data qw"
| "ComQueue_call p L (File_buffer port b) qw = bufferQueueIn p L port b qw"
| "ComQueue_call p L (Link_status condition) qw = ComQueue_comStatusIn p L condition qw"
| "ComQueue_call p L Run_tick qw = ComQueue_run p qw"
| "ComQueue_call p L (Dropped port b) qw = bufferQueueIn_overflowHook p port b qw"

end
