(* ===== verification/Queue_Lines.thy ===== *)
theory Queue_Lines
  imports Com_Queue "HOL-Library.Multiset"
begin

text \<open>
  What the queue of outgoing messages promises: a reference machine with one line of messages per port, first in first out, served by
  priority and in turn. Queue_Service shows that the component does what the machine does.
\<close>

section \<open>Messages\<close>

datatype message = Packet LinearBuffer | File_data Fw_Buffer

definition represent :: "object_layout \<Rightarrow> message \<Rightarrow> bytes" where
  "represent L m = (case m of Packet c \<Rightarrow> com_object L c | File_data b \<Rightarrow> buffer_object L b)"

text \<open>The bytes that go out, and the descriptor in them, which becomes the application identifier.\<close>

definition message_data :: "message \<Rightarrow> bytes" where
  "message_data m = (case m of Packet c \<Rightarrow> take (m_serLoc c) (lb_mem c) | File_data b \<Rightarrow> buf_data b)"

definition descriptor_at :: "message \<Rightarrow> nat" where
  "descriptor_at m = (case m of Packet c \<Rightarrow> m_deserLoc c | File_data b \<Rightarrow> 0)"

definition descriptor :: "message \<Rightarrow> u16" where
  "descriptor m = ucast (message_data m ! (descriptor_at m + 1)) OR push_bit 8 (ucast (message_data m ! descriptor_at m))"

definition well_formed :: "message \<Rightarrow> bool" where
  "well_formed m = (case m of Packet c \<Rightarrow> m_deserLoc c + 2 \<le> m_serLoc c \<and> m_serLoc c \<le> length (lb_mem c)
     | File_data b \<Rightarrow> isValid b \<and> 2 \<le> buf_size b \<and> buf_size b \<le> length (buf_memory b))"

text \<open>Copying the object there and back does not change it.\<close>

definition recoverable :: "object_layout \<Rightarrow> message \<Rightarrow> bool" where
  "recoverable L m = (case m of Packet c \<Rightarrow> length (com_object L c) = com_size L \<and> com_of L (com_object L c) = c
     | File_data b \<Rightarrow> length (buffer_object L b) = buffer_size L \<and> buffer_of L (buffer_object L b) = b)"

text \<open>A message that line \<open>i\<close> may get, when the neighbour takes what \<open>fits\<close> allows.\<close>

definition acceptable :: "object_layout \<Rightarrow> (u16 \<Rightarrow> bytes \<Rightarrow> bool) \<Rightarrow> nat \<Rightarrow> message \<Rightarrow> bool" where
  "acceptable L fits i m \<longleftrightarrow> (case m of Packet _ \<Rightarrow> i < COM_PORT_COUNT | File_data _ \<Rightarrow> COM_PORT_COUNT \<le> i) \<and> well_formed m \<and>
     recoverable L m \<and> fits (descriptor m) (message_data m)"

lemma acceptable_size: "acceptable L fits i m \<Longrightarrow> length (represent L m) = message_size L i"
  by (cases m) (auto simp: acceptable_def recoverable_def represent_def message_size_def)

section \<open>The reference machine\<close>

text \<open>What the neighbours see: data passed on with its line and identifier, and file buffers that come back.\<close>

datatype link_output = Passed nat u16 bytes | Back Fw_Buffer

record line_state =
  lines :: "message list list"
  order :: "nat list"
  idle :: bool

definition give_back :: "message \<Rightarrow> link_output list" where
  "give_back m = (case m of Packet _ \<Rightarrow> [] | File_data b \<Rightarrow> [Back b])"

definition pass :: "nat \<Rightarrow> message \<Rightarrow> link_output" where
  "pass i m = Passed i (descriptor m) (message_data m)"

definition arrange :: "(nat \<Rightarrow> int) \<Rightarrow> nat \<Rightarrow> nat list \<Rightarrow> nat list" where
  "arrange prio i js = (let after = tl (dropWhile (\<lambda>j. j \<noteq> i) js) in
     takeWhile (\<lambda>j. j \<noteq> i) js @ takeWhile (\<lambda>j. prio j = prio i) after @ i # dropWhile (\<lambda>j. prio j = prio i) after)"

text \<open>Sending the first message of the first line, in the present order, that has one; that line goes behind those of its priority.\<close>

definition serve :: "(nat \<Rightarrow> int) \<Rightarrow> line_state \<Rightarrow> link_output list \<times> line_state" where
  "serve prio s = (case filter (\<lambda>i. lines s ! i \<noteq> []) (order s) of [] \<Rightarrow> ([], s)
     | i # _ \<Rightarrow> (pass i (hd (lines s ! i)) # give_back (hd (lines s ! i)),
         s\<lparr>lines := (lines s)[i := tl (lines s ! i)], order := arrange prio i (order s), idle := False\<rparr>))"

definition arrive :: "(nat \<Rightarrow> nat) \<Rightarrow> (nat \<Rightarrow> int) \<Rightarrow> nat \<Rightarrow> message \<Rightarrow> line_state \<Rightarrow> link_output list \<times> line_state" where
  "arrive depth prio i m s = (if length (lines s ! i) < depth i then
       (let s = s\<lparr>lines := (lines s)[i := lines s ! i @ [m]]\<rparr> in if idle s then serve prio s else ([], s))
     else (give_back m, s))"

fun line_step :: "(nat \<Rightarrow> nat) \<Rightarrow> (nat \<Rightarrow> int) \<Rightarrow> queue_call \<Rightarrow> line_state \<Rightarrow> link_output list \<times> line_state" where
  "line_step depth prio (Com_packet port c) s = arrive depth prio port (Packet c) s"
| "line_step depth prio (File_buffer port b) s = arrive depth prio (port + COM_PORT_COUNT) (File_data b) s"
| "line_step depth prio (Link_status condition) s = (if condition then serve prio (s\<lparr>idle := True\<rparr>) else ([], s))"
| "line_step depth prio Run_tick s = ([], s)"
| "line_step depth prio (Dropped port b) s = ([Back b], s)"

fun line_run :: "(nat \<Rightarrow> nat) \<Rightarrow> (nat \<Rightarrow> int) \<Rightarrow> queue_call list \<Rightarrow> line_state \<Rightarrow> link_output list \<times> line_state" where
  "line_run depth prio [] s = ([], s)"
| "line_run depth prio (c # cs) s = (case line_step depth prio c s of (out, s') \<Rightarrow>
     case line_run depth prio cs s' of (out', s'') \<Rightarrow> (out @ out', s''))"

text \<open>The calls that a user may make; a status only comes while one is owed, which \<open>legal_calls\<close> adds.\<close>

fun call_ok :: "object_layout \<Rightarrow> (u16 \<Rightarrow> bytes \<Rightarrow> bool) \<Rightarrow> queue_call \<Rightarrow> bool" where
  "call_ok L fits (Com_packet port c) = (port < COM_PORT_COUNT \<and> acceptable L fits port (Packet c))"
| "call_ok L fits (File_buffer port b) = (port < BUFFER_PORT_COUNT \<and> acceptable L fits (port + COM_PORT_COUNT) (File_data b))"
| "call_ok L fits (Dropped port b) = (port < BUFFER_PORT_COUNT)"
| "call_ok L fits _ = True"

section \<open>The order of service\<close>

lemma arrange_split:
  assumes "i \<notin> set xs"
  shows "arrange prio i (xs @ i # ys) = xs @ takeWhile (\<lambda>j. prio j = prio i) ys @ i # dropWhile (\<lambda>j. prio j = prio i) ys"
proof -
  have "takeWhile (\<lambda>j. j \<noteq> i) (xs @ i # ys) = xs" "dropWhile (\<lambda>j. j \<noteq> i) (xs @ i # ys) = i # ys"
    using assms by (induction xs) auto
  then show ?thesis by (simp add: arrange_def)
qed

lemma sorted_after_equal:
  "sorted (map f (x # ys)) \<Longrightarrow> sorted (map f (takeWhile (\<lambda>y. f y = f x) ys @ x # dropWhile (\<lambda>y. f y = f x) ys))"
  for f :: "'a \<Rightarrow> int"
  by (induction ys) (auto dest: set_takeWhileD set_dropWhileD)

lemma set_parts: "set (takeWhile P ys) \<union> set (dropWhile P ys) = set ys"
  by (metis set_append takeWhile_dropWhile_id)

lemma arrange_order:
  assumes "distinct js" "i \<in> set js"
  shows "distinct (arrange prio i js)" "set (arrange prio i js) = set js" "sorted (map prio js) \<Longrightarrow> sorted (map prio (arrange prio i js))"
proof -
  obtain xs ys where js: "js = xs @ i # ys" using assms(2) by (meson split_list)
  have "i \<notin> set xs" using assms(1) js by simp
  note arr = arrange_split [OF this, of prio ys]
  have parts: "takeWhile (\<lambda>j. prio j = prio i) ys @ dropWhile (\<lambda>j. prio j = prio i) ys = ys" by simp
  have "mset (arrange prio i js) = mset (xs @ i # (takeWhile (\<lambda>j. prio j = prio i) ys @ dropWhile (\<lambda>j. prio j = prio i) ys))"
    using arr js by (simp del: takeWhile_dropWhile_id)
  then have same: "mset (arrange prio i js) = mset js" using js by simp
  show "set (arrange prio i js) = set js" by (rule mset_eq_setD [OF same])
  show "distinct (arrange prio i js)" using mset_eq_imp_distinct_iff [OF same] assms(1) by simp
  assume sorted: "sorted (map prio js)"
  then have "sorted (map prio (takeWhile (\<lambda>j. prio j = prio i) ys @ i # dropWhile (\<lambda>j. prio j = prio i) ys))"
    using js by (intro sorted_after_equal) (simp add: sorted_append)
  moreover have "set (takeWhile (\<lambda>j. prio j = prio i) ys @ i # dropWhile (\<lambda>j. prio j = prio i) ys) = set (i # ys)"
    using set_parts [of "\<lambda>j. prio j = prio i" ys] by auto
  ultimately show "sorted (map prio (arrange prio i js))"
    using sorted js unfolding arr js by (simp only: map_append sorted_append set_map) (auto simp: sorted_append)
qed

lemma equal_part: "sorted (map f (x # ys)) \<Longrightarrow> takeWhile (\<lambda>y. f y = f x) ys = filter (\<lambda>y. f y = f x) ys" for f :: "'a \<Rightarrow> int"
proof (induction ys)
  case (Cons y ys)
  show ?case
  proof (cases "f y = f x")
    case True
    then show ?thesis using Cons by simp
  next
    case False
    then have "\<forall>z \<in> set (y # ys). f z \<noteq> f x" using Cons.prems by fastforce
    then show ?thesis by (simp add: filter_empty_conv)
  qed
qed simp

lemma arrange_others:
  assumes "distinct js" "k \<in> set js" "\<not> P k"
  shows "filter P (arrange prio k js) = filter P js"
proof -
  obtain xs ys where js: "js = xs @ k # ys" using assms(2) by (meson split_list)
  have "filter P (takeWhile Q ys) @ filter P (dropWhile Q ys) = filter P ys" for Q
    by (simp flip: filter_append)
  moreover have "k \<notin> set xs" using assms(1) js by simp
  ultimately show ?thesis using js assms(3) arrange_split [of k xs prio ys] by simp
qed

lemma filter_one: "distinct zs \<Longrightarrow> j \<in> set zs \<Longrightarrow> filter (\<lambda>k. k = j) zs = [j]"
  by (induction zs) (auto simp: filter_empty_conv)

text \<open>A line that has been served goes behind every other of its priority.\<close>

lemma arrange_last:
  assumes "distinct js" "i \<in> set js" "j \<in> set js" "i \<noteq> j" "prio i = prio j" "sorted (map prio js)"
  shows "filter (\<lambda>k. k = i \<or> k = j) (arrange prio i js) = [j, i]"
proof -
  let ?P = "\<lambda>k. k = i \<or> k = j" and ?Q = "\<lambda>k. prio k = prio i"
  obtain xs ys where js: "js = xs @ i # ys" using assms(2) by (meson split_list)
  have i: "i \<notin> set xs" "i \<notin> set ys" using assms(1) js by simp_all
  have "takeWhile ?Q ys = filter ?Q ys"
    using assms(6) js by (intro equal_part) (simp add: sorted_append)
  moreover have "filter ?P (filter ?Q ys) = filter ?P ys"
    using assms(5) by (auto intro: filter_cong)
  ultimately have front: "filter ?P (takeWhile ?Q ys) = filter ?P ys" by simp
  have "filter ?P (takeWhile ?Q ys) @ filter ?P (dropWhile ?Q ys) = filter ?P ys"
    by (simp flip: filter_append)
  then have rest: "filter ?P (dropWhile ?Q ys) = []" using front by simp
  have "filter ?P (xs @ ys) = filter (\<lambda>k. k = j) (xs @ ys)"
    using i by (intro filter_cong) auto
  also have "\<dots> = [j]" by (rule filter_one) (use assms(1,3,4) js in auto)
  finally have "filter ?P xs @ filter ?P ys = [j]" by simp
  then show ?thesis
    unfolding js arrange_split [OF i(1)] filter_append using front rest by simp
qed

section \<open>What the machine guarantees\<close>

definition order_ok :: "(nat \<Rightarrow> int) \<Rightarrow> line_state \<Rightarrow> bool" where
  "order_ok prio s \<longleftrightarrow> length (lines s) = TOTAL_PORT_COUNT \<and> distinct (order s) \<and> set (order s) = {..<TOTAL_PORT_COUNT} \<and>
     sorted (map prio (order s))"

lemma order_ok_simps [simp]:
  "order_ok prio (s\<lparr>lines := (lines s)[i := ms]\<rparr>) = order_ok prio s" "order_ok prio (s\<lparr>idle := b\<rparr>) = order_ok prio s"
  by (simp_all add: order_ok_def)

lemma serve_cases:
  assumes "order_ok prio s"
  obtains (quiet) "\<forall>i < TOTAL_PORT_COUNT. lines s ! i = []" "serve prio s = ([], s)"
  | (sends) xs i ys m ms where "order s = xs @ i # ys" "i < TOTAL_PORT_COUNT" "i \<in> set (order s)" "\<forall>j \<in> set xs. lines s ! j = []"
      "lines s ! i = m # ms" "serve prio s = (pass i m # give_back m,
        s\<lparr>lines := (lines s)[i := ms], order := arrange prio i (order s), idle := False\<rparr>)"
proof (cases "filter (\<lambda>i. lines s ! i \<noteq> []) (order s)")
  case Nil
  then have "\<forall>i \<in> set (order s). lines s ! i = []" by (simp add: filter_empty_conv)
  then have "\<forall>i < TOTAL_PORT_COUNT. lines s ! i = []" using assms by (auto simp: order_ok_def)
  then show thesis using Nil quiet by (simp add: serve_def)
next
  case (Cons i js)
  then obtain xs ys where order: "order s = xs @ i # ys" "\<forall>j \<in> set xs. lines s ! j = []" "lines s ! i \<noteq> []"
    by (auto simp: filter_eq_Cons_iff)
  then obtain m ms where line: "lines s ! i = m # ms" by (cases "lines s ! i") auto
  have "i \<in> set (order s)" using order(1) by simp
  then show thesis
    using sends [OF order(1) _ _ order(2) line] assms Cons line by (auto simp: serve_def order_ok_def)
qed

lemma serve_order:
  assumes "order_ok prio s"
  shows "order_ok prio (snd (serve prio s))"
using assms
proof (cases rule: serve_cases)
  case (sends xs i ys m ms)
  then show ?thesis using assms arrange_order [of "order s" i prio] by (simp add: order_ok_def)
qed (use assms in simp)

lemma step_order: "order_ok prio s \<Longrightarrow> order_ok prio (snd (line_step depth prio c s))"
  by (cases c) (auto simp: arrive_def Let_def intro: serve_order)

lemma run_order: "order_ok prio s \<Longrightarrow> line_run depth prio cs s = (out, s') \<Longrightarrow> order_ok prio s'"
proof (induction cs arbitrary: s out)
  case (Cons c cs)
  then show ?case using step_order [OF Cons.prems(1), of depth c] by (auto split: prod.splits)
qed simp

subsection \<open>First in, first out\<close>

definition datum :: "message \<Rightarrow> u16 \<times> bytes" where
  "datum m = (descriptor m, message_data m)"

fun passed :: "nat \<Rightarrow> link_output list \<Rightarrow> (u16 \<times> bytes) list" where
  "passed i [] = []"
| "passed i (Passed j d bs # out) = (if j = i then (d, bs) # passed i out else passed i out)"
| "passed i (Back b # out) = passed i out"

fun backs :: "link_output list \<Rightarrow> Fw_Buffer list" where
  "backs [] = []"
| "backs (Passed j d bs # out) = backs out"
| "backs (Back b # out) = b # backs out"

lemma outputs_append [simp]: "passed i (xs @ ys) = passed i xs @ passed i ys" "backs (xs @ ys) = backs xs @ backs ys"
  by (induction xs rule: backs.induct) simp_all

text \<open>The message a call brings to line \<open>i\<close>, and whether there is room for it.\<close>

fun brings :: "nat \<Rightarrow> queue_call \<Rightarrow> message list" where
  "brings i (Com_packet port c) = (if port = i then [Packet c] else [])"
| "brings i (File_buffer port b) = (if port + COM_PORT_COUNT = i then [File_data b] else [])"
| "brings i _ = []"

fun admitted :: "(nat \<Rightarrow> nat) \<Rightarrow> (nat \<Rightarrow> int) \<Rightarrow> nat \<Rightarrow> queue_call list \<Rightarrow> line_state \<Rightarrow> message list" where
  "admitted depth prio i [] s = []"
| "admitted depth prio i (c # cs) s = (if length (lines s ! i) < depth i then brings i c else []) @
     admitted depth prio i cs (snd (line_step depth prio c s))"

lemma give_back_outputs [simp]: "passed i (give_back m) = []"
  by (cases m) (simp_all add: give_back_def)

lemma serve_fifo:
  assumes "order_ok prio s" "i < TOTAL_PORT_COUNT"
  shows "passed i (fst (serve prio s)) @ map datum (lines (snd (serve prio s)) ! i) = map datum (lines s ! i)"
using assms(1)
proof (cases rule: serve_cases)
  case (sends xs k ys m ms)
  then show ?thesis
    using assms by (cases "k = i") (simp_all add: pass_def datum_def order_ok_def)
qed simp

lemma arrive_fifo:
  assumes "order_ok prio s" "i < TOTAL_PORT_COUNT" "k < TOTAL_PORT_COUNT"
  shows "passed i (fst (arrive depth prio k m s)) @ map datum (lines (snd (arrive depth prio k m s)) ! i) =
    map datum (lines s ! i @ (if k = i \<and> length (lines s ! i) < depth i then [m] else []))"
proof (cases "length (lines s ! k) < depth k")
  case True
  let ?s = "s\<lparr>lines := (lines s)[k := lines s ! k @ [m]]\<rparr>"
  from serve_fifo [of prio ?s i] assms(1,2) have "passed i (fst (serve prio ?s)) @ map datum (lines (snd (serve prio ?s)) ! i) =
      map datum (lines s ! i @ (if k = i then [m] else []))"
    using assms by (simp add: nth_list_update order_ok_def)
  moreover have "passed i [] @ map datum (lines ?s ! i) = map datum (lines s ! i @ (if k = i then [m] else []))"
    using assms by (simp add: nth_list_update order_ok_def)
  ultimately show ?thesis
    using True by (cases "idle s") (auto simp: arrive_def)
next
  case False
  then show ?thesis by (cases "k = i") (simp_all add: arrive_def)
qed

lemma step_fifo:
  assumes "order_ok prio s" "i < TOTAL_PORT_COUNT" "call_ok L fits c"
  shows "passed i (fst (line_step depth prio c s)) @ map datum (lines (snd (line_step depth prio c s)) ! i) =
    map datum (lines s ! i @ (if length (lines s ! i) < depth i then brings i c else []))"
proof (cases c)
  case (Com_packet port c)
  then show ?thesis
    using arrive_fifo [OF assms(1,2), of port depth "Packet c"] assms(3) by (simp add: TOTAL_PORT_COUNT_def)
next
  case (File_buffer port b)
  then show ?thesis
    using arrive_fifo [OF assms(1,2), of "port + COM_PORT_COUNT" depth "File_data b"] assms(3) by (simp add: TOTAL_PORT_COUNT_def)
next
  case (Link_status good)
  then show ?thesis
    using serve_fifo [of prio "s\<lparr>idle := True\<rparr>" i] assms(1,2) by simp
qed simp_all

lemma run_fifo:
  "order_ok prio s \<Longrightarrow> i < TOTAL_PORT_COUNT \<Longrightarrow> list_all (call_ok L fits) cs \<Longrightarrow> line_run depth prio cs s = (out, s') \<Longrightarrow>
    passed i out @ map datum (lines s' ! i) = map datum (lines s ! i @ admitted depth prio i cs s)"
proof (induction cs arbitrary: s out)
  case (Cons c cs)
  obtain out1 s1 where one: "line_step depth prio c s = (out1, s1)" by fastforce
  then obtain out2 where rest: "line_run depth prio cs s1 = (out2, s')" "out = out1 @ out2"
    using Cons.prems(4) by (auto split: prod.splits)
  have "order_ok prio s1" using step_order [OF Cons.prems(1), of depth c] one by simp
  from Cons.IH [OF this Cons.prems(2) _ rest(1)] Cons.prems(3)
  have "passed i out2 @ map datum (lines s' ! i) = map datum (lines s1 ! i @ admitted depth prio i cs s1)" by simp
  with step_fifo [OF Cons.prems(1,2), of L fits c depth] Cons.prems(3) one rest(2) show ?case by simp
qed simp

subsection \<open>Every file buffer comes back\<close>

definition file_buffers :: "message list \<Rightarrow> Fw_Buffer list" where
  "file_buffers ms = concat (map (\<lambda>m. case m of Packet _ \<Rightarrow> [] | File_data b \<Rightarrow> [b]) ms)"

lemma file_buffers_simps [simp]:
  "file_buffers [] = []" "file_buffers (xs @ ys) = file_buffers xs @ file_buffers ys"
  "file_buffers (Packet c # ms) = file_buffers ms" "file_buffers (File_data b # ms) = b # file_buffers ms"
  by (simp_all add: file_buffers_def)

fun handed_in :: "queue_call \<Rightarrow> Fw_Buffer list" where
  "handed_in (File_buffer port b) = [b]"
| "handed_in (Dropped port b) = [b]"
| "handed_in _ = []"

definition kept :: "line_state \<Rightarrow> Fw_Buffer multiset" where
  "kept s = mset (concat (map file_buffers (lines s)))"

lemma kept_update:
  "i < length ls \<Longrightarrow> mset (concat (map file_buffers (ls[i := ms]))) + mset (file_buffers (ls ! i)) =
    mset (concat (map file_buffers ls)) + mset (file_buffers ms)"
proof (induction ls arbitrary: i)
  case (Cons l ls)
  then show ?case by (cases i) auto
qed simp

lemma give_back_backs: "mset (backs (give_back m)) + mset (file_buffers ms) = mset (file_buffers (m # ms))"
  by (cases m) (simp_all add: give_back_def)

lemma serve_kept:
  assumes "order_ok prio s"
  shows "mset (backs (fst (serve prio s))) + kept (snd (serve prio s)) = kept s"
using assms
proof (cases rule: serve_cases)
  case (sends xs i ys m ms)
  then have whole: "kept (snd (serve prio s)) + mset (file_buffers (m # ms)) = kept s + mset (file_buffers ms)"
    using kept_update [of i "lines s" ms] assms by (simp add: kept_def order_ok_def)
  have "kept (snd (serve prio s)) + (mset (backs (give_back m)) + mset (file_buffers ms)) = kept s + mset (file_buffers ms)"
    unfolding give_back_backs by (rule whole)
  then have "(mset (backs (give_back m)) + kept (snd (serve prio s))) + mset (file_buffers ms) = kept s + mset (file_buffers ms)"
    by (simp only: ac_simps)
  then show ?thesis using sends by (simp add: pass_def)
qed simp

lemma step_kept:
  assumes "order_ok prio s" "call_ok L fits c"
  shows "mset (backs (fst (line_step depth prio c s))) + kept (snd (line_step depth prio c s)) = kept s + mset (handed_in c)"
proof -
  have arrives: "mset (backs (fst (arrive depth prio k m s))) + kept (snd (arrive depth prio k m s)) = kept s + mset (file_buffers [m])"
    if "k < TOTAL_PORT_COUNT" for k m
  proof -
    let ?s = "s\<lparr>lines := (lines s)[k := lines s ! k @ [m]]\<rparr>"
    have "order_ok prio ?s" using assms(1) by simp
    note serve_kept [OF this]
    moreover have "kept ?s + mset (file_buffers (lines s ! k)) = kept s + mset (file_buffers (lines s ! k @ [m]))"
      using kept_update [of k "lines s"] that assms(1) by (simp add: kept_def order_ok_def)
    then have grown: "kept ?s = kept s + mset (file_buffers [m])" by simp
    ultimately have "mset (backs (fst (serve prio ?s))) + kept (snd (serve prio ?s)) = kept s + mset (file_buffers [m])" by simp
    with grown give_back_backs [of m "[]"] show ?thesis
      by (cases "length (lines s ! k) < depth k"; cases "idle s") (simp_all add: arrive_def)
  qed
  show ?thesis
  proof (cases c)
    case (Com_packet port c)
    then show ?thesis using arrives [of port "Packet c"] assms(2) by (simp add: TOTAL_PORT_COUNT_def)
  next
    case (File_buffer port b)
    then show ?thesis using arrives [of "port + COM_PORT_COUNT" "File_data b"] assms(2) by (simp add: TOTAL_PORT_COUNT_def)
  next
    case (Link_status good)
    have "order_ok prio (s\<lparr>idle := True\<rparr>)" "kept (s\<lparr>idle := True\<rparr>) = kept s"
      using assms(1) by (simp_all add: kept_def)
    then show ?thesis using serve_kept [of prio "s\<lparr>idle := True\<rparr>"] Link_status by simp
  qed simp_all
qed

lemma run_kept:
  "order_ok prio s \<Longrightarrow> list_all (call_ok L fits) cs \<Longrightarrow> line_run depth prio cs s = (out, s') \<Longrightarrow>
    mset (backs out) + kept s' = kept s + mset (concat (map handed_in cs))"
proof (induction cs arbitrary: s out)
  case (Cons c cs)
  obtain out1 s1 where one: "line_step depth prio c s = (out1, s1)" by fastforce
  then obtain out2 where rest: "line_run depth prio cs s1 = (out2, s')" "out = out1 @ out2"
    using Cons.prems(3) by (auto split: prod.splits)
  have "order_ok prio s1" using step_order [OF Cons.prems(1), of depth c] one by simp
  from Cons.IH [OF this _ rest(1)] Cons.prems(2)
  have "mset (backs out1) + (mset (backs out2) + kept s') = (mset (backs out1) + kept s1) + mset (concat (map handed_in cs))"
    by (simp add: add.assoc)
  also have "mset (backs out1) + kept s1 = kept s + mset (handed_in c)"
    using step_kept [OF Cons.prems(1), of L fits c depth] Cons.prems(2) one by simp
  finally show ?case using rest(2) by (simp add: add.assoc)
qed simp

subsection \<open>Priority and turns\<close>

text \<open>A step either passes nothing on and keeps the order, or serves from a state in which no fewer messages wait.\<close>

lemma step_serves:
  assumes "order_ok prio s" "call_ok L fits c"
  obtains (keeps) "\<forall>i. passed i (fst (line_step depth prio c s)) = []" "order (snd (line_step depth prio c s)) = order s"
  | (serves) s1 where "order_ok prio s1" "order s1 = order s" "\<forall>j < TOTAL_PORT_COUNT. lines s ! j \<noteq> [] \<longrightarrow> lines s1 ! j \<noteq> []"
      "line_step depth prio c s = serve prio s1"
proof -
  have arrives: thesis if step: "line_step depth prio c s = arrive depth prio k m s" and "k < TOTAL_PORT_COUNT" for k m
  proof (cases "length (lines s ! k) < depth k \<and> idle s")
    case True
    let ?s = "s\<lparr>lines := (lines s)[k := lines s ! k @ [m]]\<rparr>"
    have "order_ok prio ?s" "order ?s = order s" using assms(1) by simp_all
    moreover have "length (lines s) = TOTAL_PORT_COUNT" using assms(1) by (simp add: order_ok_def)
    then have "\<forall>j < TOTAL_PORT_COUNT. lines s ! j \<noteq> [] \<longrightarrow> lines ?s ! j \<noteq> []"
      using that(2) by (simp add: nth_list_update)
    moreover have "line_step depth prio c s = serve prio ?s" using step True by (simp add: arrive_def)
    ultimately show thesis by (rule serves)
  next
    case False
    then have "\<forall>i. passed i (fst (line_step depth prio c s)) = []" "order (snd (line_step depth prio c s)) = order s"
      by (auto simp: step arrive_def)
    then show thesis by (rule keeps)
  qed
  show thesis
  proof (cases c)
    case (Com_packet port m)
    with arrives [of port "Packet m"] assms(2) show thesis by (simp add: TOTAL_PORT_COUNT_def)
  next
    case (File_buffer port b)
    with arrives [of "port + COM_PORT_COUNT" "File_data b"] assms(2) show thesis by (simp add: TOTAL_PORT_COUNT_def)
  next
    case (Link_status good)
    have ok: "order_ok prio (s\<lparr>idle := True\<rparr>)" using assms(1) by simp
    show thesis
    proof (cases good)
      case True
      show thesis by (rule serves [OF ok]) (simp_all add: Link_status True)
    next
      case False
      show thesis by (rule keeps) (simp_all add: Link_status False)
    qed
  next
    case Run_tick
    show thesis by (rule keeps) (simp_all add: Run_tick)
  next
    case (Dropped port b)
    show thesis by (rule keeps) (simp_all add: Dropped)
  qed
qed

lemma serve_priority:
  assumes "order_ok prio s" "passed i (fst (serve prio s)) \<noteq> []" "j < TOTAL_PORT_COUNT" "prio j < prio i"
  shows "lines (snd (serve prio s)) ! j = []"
  using assms(1)
proof (cases rule: serve_cases)
  case (sends xs k ys m ms)
  then have "k = i" using assms(2) by (simp add: pass_def split: if_splits)
  moreover have "j \<in> set (order s)" using assms(1,3) by (simp add: order_ok_def)
  ultimately have "j \<in> set xs"
    using sends(1) assms(1,4) by (fastforce simp: order_ok_def sorted_append)
  moreover have "j \<noteq> i" using assms(4) by auto
  ultimately show ?thesis using sends \<open>k = i\<close> by simp
qed (use assms in simp)

lemma step_priority:
  assumes "order_ok prio s" "call_ok L fits c" "passed i (fst (line_step depth prio c s)) \<noteq> []" "j < TOTAL_PORT_COUNT" "prio j < prio i"
  shows "lines (snd (line_step depth prio c s)) ! j = []"
  using assms(1,2)
proof (cases rule: step_serves [where depth = depth])
  case (serves s1)
  then show ?thesis using serve_priority [of prio s1 i j] assms by simp
qed (use assms(3) in simp)

definition before :: "nat \<Rightarrow> nat \<Rightarrow> line_state \<Rightarrow> bool" where
  "before j i s \<longleftrightarrow> filter (\<lambda>k. k = i \<or> k = j) (order s) = [j, i]"

lemma serve_turns:
  assumes "order_ok prio s" "i \<noteq> j" "j < TOTAL_PORT_COUNT" "lines s ! j \<noteq> []" "passed j (fst (serve prio s)) = []"
  shows "before j i s \<Longrightarrow> passed i (fst (serve prio s)) = [] \<and> before j i (snd (serve prio s))"
    and "prio i = prio j \<Longrightarrow> passed i (fst (serve prio s)) \<noteq> [] \<Longrightarrow> before j i (snd (serve prio s))"
    and "length (passed i (fst (serve prio s))) \<le> 1"
proof -
  have ok: "distinct (order s)" "set (order s) = {..<TOTAL_PORT_COUNT}" "sorted (map prio (order s))"
    using assms(1) by (simp_all add: order_ok_def)
  have "(before j i s \<longrightarrow> passed i (fst (serve prio s)) = [] \<and> before j i (snd (serve prio s))) \<and>
    (prio i = prio j \<longrightarrow> passed i (fst (serve prio s)) \<noteq> [] \<longrightarrow> before j i (snd (serve prio s))) \<and>
    length (passed i (fst (serve prio s))) \<le> 1"
    using assms(1)
  proof (cases rule: serve_cases)
    case (sends xs k ys m ms)
    have k: "k \<noteq> j" using sends(6) assms(5) by (auto simp: pass_def)
    show ?thesis
    proof (cases "k = i")
      case True
      have "\<not> before j i s"
      proof
        assume "before j i s"
        then have "filter (\<lambda>k. k = i \<or> k = j) xs @ i # filter (\<lambda>k. k = i \<or> k = j) ys = [j, i]"
          using sends(1) True by (simp add: before_def)
        moreover have "i \<notin> set xs" using ok(1) sends(1) True by simp
        ultimately have "j \<in> set xs"
          using assms(2) by (cases "filter (\<lambda>k. k = i \<or> k = j) xs") (auto simp: filter_eq_Cons_iff)
        then show False using sends(4) assms(4) by simp
      qed
      moreover have "before j i (snd (serve prio s))" if "prio i = prio j"
        using arrange_last [OF ok(1), of i j prio] sends(3,6) True assms(2,3) ok(2,3) that by (simp add: before_def)
      ultimately show ?thesis using sends(6) True by (simp add: pass_def)
    next
      case False
      then have "filter (\<lambda>k. k = i \<or> k = j) (arrange prio k (order s)) = filter (\<lambda>k. k = i \<or> k = j) (order s)"
        using arrange_others [OF ok(1) sends(3), of "\<lambda>k. k = i \<or> k = j"] k by simp
      then show ?thesis using sends(6) False by (simp add: pass_def before_def)
    qed
  qed simp
  then show "before j i s \<Longrightarrow> passed i (fst (serve prio s)) = [] \<and> before j i (snd (serve prio s))"
    and "prio i = prio j \<Longrightarrow> passed i (fst (serve prio s)) \<noteq> [] \<Longrightarrow> before j i (snd (serve prio s))"
    and "length (passed i (fst (serve prio s))) \<le> 1"
    by simp_all
qed

lemma step_turns:
  assumes "order_ok prio s" "call_ok L fits c" "i \<noteq> j" "j < TOTAL_PORT_COUNT" "lines s ! j \<noteq> []"
    and "passed j (fst (line_step depth prio c s)) = []"
  shows "before j i s \<Longrightarrow> passed i (fst (line_step depth prio c s)) = [] \<and> before j i (snd (line_step depth prio c s))"
    and "prio i = prio j \<Longrightarrow> passed i (fst (line_step depth prio c s)) \<noteq> [] \<Longrightarrow> before j i (snd (line_step depth prio c s))"
    and "length (passed i (fst (line_step depth prio c s))) \<le> 1"
    and "lines (snd (line_step depth prio c s)) ! j \<noteq> []"
proof -
  have "map datum (lines (snd (line_step depth prio c s)) ! j) \<noteq> []"
    using step_fifo [OF assms(1,4,2), of depth] assms(5,6) by simp
  then show "lines (snd (line_step depth prio c s)) ! j \<noteq> []" by auto
  have "(before j i s \<longrightarrow> passed i (fst (line_step depth prio c s)) = [] \<and> before j i (snd (line_step depth prio c s))) \<and>
    (prio i = prio j \<longrightarrow> passed i (fst (line_step depth prio c s)) \<noteq> [] \<longrightarrow> before j i (snd (line_step depth prio c s))) \<and>
    length (passed i (fst (line_step depth prio c s))) \<le> 1"
    using assms(1,2)
  proof (cases rule: step_serves [where depth = depth])
    case keeps
    then show ?thesis by (simp add: before_def)
  next
    case (serves s1)
    have "before j i s1 = before j i s" using serves(2) by (simp add: before_def)
    with serve_turns [OF serves(1) assms(3,4)] serves(3,4) assms(4-6) show ?thesis by simp
  qed
  then show "before j i s \<Longrightarrow> passed i (fst (line_step depth prio c s)) = [] \<and> before j i (snd (line_step depth prio c s))"
    and "prio i = prio j \<Longrightarrow> passed i (fst (line_step depth prio c s)) \<noteq> [] \<Longrightarrow> before j i (snd (line_step depth prio c s))"
    and "length (passed i (fst (line_step depth prio c s))) \<le> 1"
    by simp_all
qed

text \<open>While line \<open>j\<close> waits, another one of its priority is served at most once, and not at all if \<open>j\<close> comes before it.\<close>

lemma run_turns:
  assumes "i \<noteq> j" "j < TOTAL_PORT_COUNT" "prio i = prio j"
  shows "order_ok prio s \<Longrightarrow> list_all (call_ok L fits) cs \<Longrightarrow> lines s ! j \<noteq> [] \<Longrightarrow> line_run depth prio cs s = (out, s') \<Longrightarrow>
    passed j out = [] \<Longrightarrow> length (passed i out) \<le> (if before j i s then 0 else 1)"
proof (induction cs arbitrary: s out)
  case (Cons c cs)
  obtain out1 s1 where one: "line_step depth prio c s = (out1, s1)" by fastforce
  then obtain out2 where rest: "line_run depth prio cs s1 = (out2, s')" "out = out1 @ out2"
    using Cons.prems(4) by (auto split: prod.splits)
  have ok: "call_ok L fits c" "order_ok prio s1" "passed j out1 = []" "passed j out2 = []"
    using step_order [OF Cons.prems(1), of depth c] one Cons.prems(2,5) rest(2) by simp_all
  note turns = step_turns [OF Cons.prems(1) ok(1) assms(1,2) Cons.prems(3), of depth, unfolded one fst_conv snd_conv, OF ok(3)]
  have "length (passed i out2) \<le> (if before j i s1 then 0 else 1)"
    using Cons.IH [OF ok(2) _ turns(4) rest(1) ok(4)] Cons.prems(2) by simp
  then show ?case
    using turns(1-3) assms(3) rest(2) by (cases "passed i out1") (auto split: if_splits)
qed simp

end
