(* ===== verification/Queue_Service.thy ===== *)
theory Queue_Service
  imports Queue_Lines
begin

text \<open>
  The queue of outgoing messages does exactly what the machine of Queue_Lines does, from its configuration on and with any neighbour
  that takes a message and gives its buffer back.
\<close>

section \<open>The component against the machine\<close>

definition queue_fits :: "object_layout \<Rightarrow> (nat \<Rightarrow> nat) \<Rightarrow> (u16 \<Rightarrow> bytes \<Rightarrow> bool) \<Rightarrow> nat \<Rightarrow> Queue \<Rightarrow> message list \<Rightarrow> bool" where
  "queue_fits L depth fits i queue ms \<longleftrightarrow> queue_ok (depth i) (message_size L i) queue \<and> messages queue = map (represent L) ms \<and>
     list_all (acceptable L fits i) ms"

definition in_line :: "object_layout \<Rightarrow> (nat \<Rightarrow> nat) \<Rightarrow> (nat \<Rightarrow> int) \<Rightarrow> (u16 \<Rightarrow> bytes \<Rightarrow> bool) \<Rightarrow> ComQueue \<Rightarrow> line_state \<Rightarrow> bool" where
  "in_line L depth prio fits q s \<longleftrightarrow>
     length (m_queues q) = TOTAL_PORT_COUNT \<and> length (m_throttle q) = TOTAL_PORT_COUNT \<and> order_ok prio s \<and>
     (\<forall>i < TOTAL_PORT_COUNT. queue_fits L depth fits i (m_queues q ! i) (lines s ! i)) \<and>
     map qm_index (m_prioritizedList q) = order s \<and> (\<forall>m \<in> set (m_prioritizedList q). qm_priority m = prio (qm_index m)) \<and>
     idle s = (cq_state q = READY) \<and> cq_buffer_state q = BUFFER_OWNED"

text \<open>Nothing waits while the link is free.\<close>

definition settled :: "line_state \<Rightarrow> bool" where
  "settled s \<longleftrightarrow> (idle s \<longrightarrow> (\<forall>i < TOTAL_PORT_COUNT. lines s ! i = []))"

subsection \<open>The order of service\<close>

lemma rotate_loop_rotates:
  "length (xs @ e # ys) = TOTAL_PORT_COUNT \<Longrightarrow> rotate_loop (Suc (length xs)) pr (xs @ e # ys) =
    xs @ takeWhile (\<lambda>m. qm_priority m = pr) ys @ e # dropWhile (\<lambda>m. qm_priority m = pr) ys"
proof (induction ys arbitrary: xs)
  case Nil
  then show ?case by (subst rotate_loop.simps) simp
next
  case (Cons y ys)
  have swap: "(xs @ e # y # ys)[Suc (length xs) := e, length xs := y] = (xs @ [y]) @ e # ys"
    by (simp add: list_update_append)
  show ?case
  proof (cases "qm_priority y = pr")
    case True
    have "rotate_loop (Suc (length xs)) pr (xs @ e # y # ys) = rotate_loop (Suc (length (xs @ [y]))) pr ((xs @ [y]) @ e # ys)"
      using True Cons.prems by (subst rotate_loop.simps) (simp add: nth_append swap [simplified])
    with Cons.IH [of "xs @ [y]"] Cons.prems True show ?thesis by simp
  next
    case False
    then show ?thesis by (subst rotate_loop.simps) (simp add: nth_append)
  qed
qed

lemma rotate_loop_end: "TOTAL_PORT_COUNT \<le> k \<Longrightarrow> rotate_loop k pr pl = pl"
  by (subst rotate_loop.simps) simp

subsection \<open>The neighbours\<close>

text \<open>
  The framer takes, in a state of the world that is ready, data that fits, and gives the buffer back before it returns; the owner of
  file buffers takes them back; reports do not change what was passed on.
\<close>

locale queue_neighbours =
  fixes p :: "'w queue_ports" and tr :: "'w \<Rightarrow> link_output list" and ok :: "'w \<Rightarrow> bool" and fits :: "u16 \<Rightarrow> bytes \<Rightarrow> bool"
  assumes data_taken: "ok w \<Longrightarrow> cq_buffer_state q = BUFFER_UNOWNED \<Longrightarrow> fits (ctx_apid ctx) (buf_data b) \<Longrightarrow>
      length (buf_data b) = buf_size b \<Longrightarrow> ctx_comQueueIndex ctx < TOTAL_PORT_COUNT \<Longrightarrow>
      \<exists>w'. cq_dataOut p b ctx (q, w) = ComQueue_dataReturnIn p b ctx (q, w') \<and>
        tr w' = tr w @ [Passed (ctx_comQueueIndex ctx) (ctx_apid ctx) (buf_data b)]"
    and buffer_taken_back: "\<exists>out. cq_bufferReturnOut p 0 = Some out \<and> (\<forall>b w. \<exists>w'. out b w = Some w' \<and> tr w' = tr w @ [Back b])"
    and reports: "tr (cq_QueueOverflow p t n w) = tr w" "tr (cq_comQueueDepth p ns w) = tr w" "tr (cq_buffQueueDepth p ns w) = tr w"
begin

lemma return_buffer: "\<exists>w'. bufferReturnOut p 0 b w = Some w' \<and> tr w' = tr w @ [Back b]"
  using buffer_taken_back by (auto simp: bufferReturnOut_def)

lemma send_out_passes:
  assumes "ok w" "cq_buffer_state q = BUFFER_OWNED" "fits d (buf_data b)" "length (buf_data b) = buf_size b" "i < TOTAL_PORT_COUNT"
  shows "\<exists>w'. send_out p b d i (q, w) = Some (q\<lparr>cq_buffer_state := BUFFER_OWNED, cq_state := WAITING\<rparr>, w') \<and>
    tr w' = tr w @ Passed i d (buf_data b) # (if i < COM_PORT_COUNT then [] else [Back b])"
proof -
  let ?ctx = "FrameContext_default\<lparr>ctx_apid := d, ctx_comQueueIndex := i\<rparr>" and ?q = "q\<lparr>cq_buffer_state := BUFFER_UNOWNED\<rparr>"
  obtain w1 where w1: "cq_dataOut p b ?ctx (?q, w) = ComQueue_dataReturnIn p b ?ctx (?q, w1)" "tr w1 = tr w @ [Passed i d (buf_data b)]"
    using data_taken [of w ?q ?ctx b] assms by auto
  obtain out w2 where w2: "cq_bufferReturnOut p 0 = Some out" "out b w1 = Some w2" "tr w2 = tr w1 @ [Back b]"
    using buffer_taken_back by blast
  show ?thesis
  proof (cases "i < COM_PORT_COUNT")
    case True
    then show ?thesis
      using w1 assms by (simp add: send_out_def ComQueue_dataReturnIn_def BUFFER_PORT_COUNT_def)
  next
    case False
    then have "i = COM_PORT_COUNT" using assms(5) by (simp add: TOTAL_PORT_COUNT_def BUFFER_PORT_COUNT_def)
    then show ?thesis
      using w1 w2 assms by (simp add: send_out_def ComQueue_dataReturnIn_def BUFFER_PORT_COUNT_def bufferReturnOut_def)
  qed
qed

lemma dispatch_passes:
  assumes "ok w" "cq_buffer_state q = BUFFER_OWNED" "cq_state q = READY" "i < TOTAL_PORT_COUNT" "qm_index entry = i"
    and "queue_fits L depth fits i (m_queues q ! i) (m # ms)"
  shows "\<exists>c queue w'. dispatch_entry p L entry (q, w) = Some (q\<lparr>m_queues := (m_queues q)[i := queue], m_dequeued_com_buffer := c,
      cq_buffer_state := BUFFER_OWNED, cq_state := WAITING\<rparr>, w') \<and> tr w' = tr w @ pass i m # give_back m \<and> queue_fits L depth fits i queue ms"
proof -
  have ok: "queue_ok (depth i) (message_size L i) (m_queues q ! i)" "messages (m_queues q ! i) = represent L m # map (represent L) ms"
    "acceptable L fits i m" "list_all (acceptable L fits i) ms"
    using assms(6) by (simp_all add: queue_fits_def)
  obtain queue where queue: "Queue_dequeue (message_size L i) (m_queues q ! i) = Some ((FW_SERIALIZE_OK, Some (represent L m)), queue)"
      "queue_ok (depth i) (message_size L i) queue" "messages queue = map (represent L) ms"
    using mq.deq_first [OF ok(1,2) order_refl] by blast
  then have rest: "queue_fits L depth fits i queue ms" using ok(4) by (simp add: queue_fits_def)
  show ?thesis
  proof (cases m)
    case (Packet c)
    then have acc: "i < COM_PORT_COUNT" "m_deserLoc c + 2 \<le> m_serLoc c" "m_serLoc c \<le> length (lb_mem c)" "com_of L (com_object L c) = c"
      "fits (descriptor m) (message_data m)"
      using ok(3) by (simp_all add: acceptable_def well_formed_def recoverable_def)
    let ?b = "\<lparr>buf_addr = cq_address q, buf_size = m_serLoc c, buf_context = 0xFFFFFFFF, buf_memory = lb_mem c\<rparr>"
    have read: "deserializeTo_U16 c = (FW_SERIALIZE_OK, Some (descriptor m), c\<lparr>m_deserLoc := m_deserLoc c + 2\<rparr>)"
      using Packet acc by (simp add: deserializeTo_U16_def deserializeSkip_def getSize_def descriptor_def message_data_def descriptor_at_def)
    have data: "buf_data ?b = message_data m" "length (buf_data ?b) = buf_size ?b"
      using Packet acc by (simp_all add: buf_data_def message_data_def)
    let ?q = "q\<lparr>m_queues := (m_queues q)[i := queue], m_dequeued_com_buffer := c\<lparr>m_deserLoc := m_deserLoc c + 2\<rparr>\<rparr>"
    obtain w' where "send_out p ?b (descriptor m) i (?q, w) = Some (?q\<lparr>cq_buffer_state := BUFFER_OWNED, cq_state := WAITING\<rparr>, w')"
        "tr w' = tr w @ [pass i m]"
      using send_out_passes [of w ?q "descriptor m" ?b i] assms acc data by (auto simp: pass_def)
    moreover have "dispatch_entry p L entry (q, w) = send_out p ?b (descriptor m) i (?q, w)"
      using assms queue(1) acc read Packet
      by (simp add: dispatch_entry_def message_size_def represent_def sendComBuffer_def getSize_def)
    ultimately show ?thesis
      using rest Packet by (auto simp: give_back_def intro!: exI [of _ "c\<lparr>m_deserLoc := m_deserLoc c + 2\<rparr>"] exI [of _ queue])
  next
    case (File_data b)
    then have acc: "\<not> i < COM_PORT_COUNT" "isValid b" "2 \<le> buf_size b" "buf_size b \<le> length (buf_memory b)"
      "buffer_of L (buffer_object L b) = b" "fits (descriptor m) (message_data m)"
      using ok(3) by (simp_all add: acceptable_def well_formed_def recoverable_def)
    have data: "buf_data b = message_data m" "length (buf_data b) = buf_size b"
      using File_data acc by (simp_all add: buf_data_def message_data_def)
    let ?s = "\<lparr>lb_mem = buf_data b, m_serLoc = buf_size b, m_deserLoc = 0\<rparr>"
    have reader: "getDeserializer b = Some ?s"
      using acc data by (simp add: getDeserializer_def setBuffLen_def getCapacity_def)
    have read: "deserializeTo_U16 ?s = (FW_SERIALIZE_OK, Some (descriptor m), ?s\<lparr>m_deserLoc := 2\<rparr>)"
      using File_data acc by (simp add: deserializeTo_U16_def deserializeSkip_def getSize_def descriptor_def message_data_def descriptor_at_def)
    let ?q = "q\<lparr>m_queues := (m_queues q)[i := queue]\<rparr>"
    obtain w' where "send_out p b (descriptor m) i (?q, w) = Some (?q\<lparr>cq_buffer_state := BUFFER_OWNED, cq_state := WAITING\<rparr>, w')"
        "tr w' = tr w @ pass i m # give_back m"
      using send_out_passes [of w ?q "descriptor m" b i] assms acc data File_data by (auto simp: pass_def give_back_def)
    moreover have "dispatch_entry p L entry (q, w) = send_out p b (descriptor m) i (?q, w)"
      using assms queue(1) acc reader read File_data
      by (simp add: dispatch_entry_def message_size_def represent_def sendBuffer_def)
    moreover have "?q = ?q\<lparr>m_dequeued_com_buffer := m_dequeued_com_buffer q\<rparr>" by simp
    ultimately show ?thesis
      using rest by (intro exI [of _ "m_dequeued_com_buffer q"] exI [of _ queue] exI [of _ w']) simp
  qed
qed

lemma taken_parts:
  assumes "\<forall>m \<in> set pl. qm_priority m = prio (qm_index m)"
  shows "map qm_index (takeWhile (\<lambda>m. qm_priority m = pr) pl) = takeWhile (\<lambda>j. prio j = pr) (map qm_index pl)"
    "map qm_index (dropWhile (\<lambda>m. qm_priority m = pr) pl) = dropWhile (\<lambda>j. prio j = pr) (map qm_index pl)"
  using assms by (induction pl) simp_all

lemma walk_skips:
  "\<forall>m \<in> set xs. getQueueSize (m_queues q ! qm_index m) = Some 0 \<Longrightarrow>
    walk_loop p L k (xs @ ys) (q, w) = walk_loop p L (k + length xs) ys (q, w)"
  by (induction xs arbitrary: k) simp_all

lemma queue_fill: "queue_fits L depth fits i queue ms \<Longrightarrow> getQueueSize queue = Some (length ms)"
  using mq.fill_items by (fastforce simp: queue_fits_def)

lemma process_serves:
  assumes "ok w" "in_line L depth prio fits q s" "idle s"
  shows "\<exists>q' w'. processQueue p L (q, w) = Some (q', w') \<and> tr w' = tr w @ fst (serve prio s) \<and>
    in_line L depth prio fits q' (snd (serve prio s)) \<and> settled (snd (serve prio s))"
proof -
  let ?pl = "m_prioritizedList q"
  have pl: "map qm_index ?pl = order s" "\<forall>m \<in> set ?pl. qm_priority m = prio (qm_index m)"
    and order: "order_ok prio s" "distinct (order s)" "set (order s) = {..<TOTAL_PORT_COUNT}"
    and fits: "\<And>i. i < TOTAL_PORT_COUNT \<Longrightarrow> queue_fits L depth fits i (m_queues q ! i) (lines s ! i)"
    and sizes: "length (m_queues q) = TOTAL_PORT_COUNT" "length (m_throttle q) = TOTAL_PORT_COUNT" "length (lines s) = TOTAL_PORT_COUNT"
    and state: "cq_state q = READY" "cq_buffer_state q = BUFFER_OWNED"
    using assms(2,3) by (simp_all add: in_line_def order_ok_def)
  have len: "length ?pl = TOTAL_PORT_COUNT"
    using distinct_card [OF order(2)] order(3) arg_cong [OF pl(1), of length] by simp
  have empty: "getQueueSize (m_queues q ! qm_index m) = Some 0" if "m \<in> set xs" "map qm_index xs = is" "set is \<subseteq> set (order s)"
      "\<forall>i \<in> set is. lines s ! i = []" for m xs "is"
    using that order(3) queue_fill [OF fits, of "qm_index m"] by (metis imageI image_set in_mono lessThan_iff list.size(3))
  from order(1) show ?thesis
  proof (cases rule: serve_cases)
    case quiet
    then have "walk_loop p L 0 ?pl (q, w) = Some (TOTAL_PORT_COUNT, 0, q, w)"
      using walk_skips [of ?pl q L 0 "[]" w] empty [OF _ pl(1)] order(3) len by simp
    then have "processQueue p L (q, w) = Some (q, w)"
      using state by (simp add: processQueue_def rotate_loop_end)
    then show ?thesis using quiet assms(2) by (simp add: settled_def)
  next
    case (sends xs i ys m ms)
    from sends(1) pl(1) obtain pxs e pys where split: "?pl = pxs @ e # pys" "map qm_index pxs = xs" "qm_index e = i" "map qm_index pys = ys"
      by (auto simp: map_eq_append_conv map_eq_Cons_conv)
    have i: "i \<notin> set xs" using order(2) sends(1) by simp
    obtain c queue w' where sent: "dispatch_entry p L e (q, w) = Some (q\<lparr>m_queues := (m_queues q)[i := queue], m_dequeued_com_buffer := c,
        cq_buffer_state := BUFFER_OWNED, cq_state := WAITING\<rparr>, w')" "tr w' = tr w @ pass i m # give_back m"
        "queue_fits L depth fits i queue ms"
      using dispatch_passes [OF assms(1) state(2,1) sends(2) split(3)] fits [OF sends(2)] sends(5) by metis
    let ?q = "q\<lparr>m_queues := (m_queues q)[i := queue], m_dequeued_com_buffer := c, cq_buffer_state := BUFFER_OWNED, cq_state := WAITING,
        m_throttle := (m_throttle q)[i := False]\<rparr>"
    have "walk_loop p L 0 ?pl (q, w) = walk_loop p L (length pxs) (e # pys) (q, w)"
      unfolding split(1) by (subst walk_skips) (use empty [OF _ split(2) _ sends(4)] sends(1) in auto)
    also have "\<dots> = Some (length pxs, qm_priority e, ?q, w')"
      using queue_fill [OF fits [OF sends(2)]] sends(5) split(3) sent(1) by simp
    finally have walked: "walk_loop p L 0 ?pl (q, w) = Some (length pxs, qm_priority e, ?q, w')" .
    let ?pl' = "pxs @ takeWhile (\<lambda>m. qm_priority m = qm_priority e) pys @ e # dropWhile (\<lambda>m. qm_priority m = qm_priority e) pys"
    have "rotate_loop (Suc (length pxs)) (qm_priority e) ?pl = ?pl'"
      using rotate_loop_rotates [of pxs e pys] len split(1) by simp
    then have result: "processQueue p L (q, w) = Some (?q\<lparr>m_prioritizedList := ?pl'\<rparr>, w')"
      using state walked by (simp add: processQueue_def)
    have all: "\<forall>m \<in> set pys. qm_priority m = prio (qm_index m)" "qm_priority e = prio i"
      using pl(2) split by auto
    then have "map qm_index ?pl' = arrange prio i (order s)"
      using split(2-4) sends(1) arrange_split [OF i] taken_parts [OF all(1), of "prio i"] by simp
    moreover have "set ?pl' = set ?pl"
      using set_parts [of "\<lambda>m. qm_priority m = qm_priority e" pys] split(1) by auto
    moreover have "order_ok prio (snd (serve prio s))" by (rule serve_order [OF order(1)])
    ultimately have "in_line L depth prio fits (?q\<lparr>m_prioritizedList := ?pl'\<rparr>) (snd (serve prio s))"
      using sends(2,6) pl sent(3) fits sizes
      by (auto simp: in_line_def nth_list_update simp del: map_append)
    then show ?thesis using result sent(2) sends(6) by (simp add: settled_def)
  qed
qed

lemma enqueue_stored:
  assumes "kind = (if i < COM_PORT_COUNT then COM_QUEUE else BUFFER_QUEUE)"
    and "Queue_enqueue bs (message_size L i) (m_queues q ! i) = Some (FW_SERIALIZE_OK, queue)"
  shows "ComQueue_enqueue p L i kind bs (message_size L i) (q, w) = do {
      (q, w) \<leftarrow> (if cq_state q = READY then processQueue p L (q\<lparr>m_queues := (m_queues q)[i := queue]\<rparr>, w)
        else Some (q\<lparr>m_queues := (m_queues q)[i := queue]\<rparr>, w));
      Some (True, q, w)
    }"
  using assms by (simp add: ComQueue_enqueue_def message_size_def)

lemma enqueue_refused:
  assumes "kind = (if i < COM_PORT_COUNT then COM_QUEUE else BUFFER_QUEUE)"
    and "Queue_enqueue bs (message_size L i) (m_queues q ! i) = Some (FW_SERIALIZE_NO_ROOM_LEFT, m_queues q ! i)" "cq_state q \<noteq> READY"
  shows "\<exists>n. ComQueue_enqueue p L i kind bs (message_size L i) (q, w) = Some (False,
      if m_throttle q ! i then (q, w) else (q\<lparr>m_throttle := (m_throttle q)[i := True]\<rparr>, cq_QueueOverflow p kind n w))"
  using assms by (auto simp: ComQueue_enqueue_def message_size_def)

text \<open>Every call of the component does what the machine does, given that a status only comes while the component waits.\<close>

lemma enqueue_arrives:
  assumes "ok w" "in_line L depth prio fits q s" "settled s" "i < TOTAL_PORT_COUNT" "acceptable L fits i m"
    and "kind = (if i < COM_PORT_COUNT then COM_QUEUE else BUFFER_QUEUE)"
  shows "\<exists>q' w'. ComQueue_enqueue p L i kind (represent L m) (message_size L i) (q, w) =
      Some (length (lines s ! i) < depth i, q', w') \<and>
    tr w' @ (if length (lines s ! i) < depth i then [] else give_back m) = tr w @ fst (arrive depth prio i m s) \<and>
    in_line L depth prio fits q' (snd (arrive depth prio i m s)) \<and> settled (snd (arrive depth prio i m s))"
proof -
  have fit: "queue_fits L depth fits i (m_queues q ! i) (lines s ! i)"
    and sizes: "length (m_queues q) = TOTAL_PORT_COUNT" "length (m_throttle q) = TOTAL_PORT_COUNT" "length (lines s) = TOTAL_PORT_COUNT"
    using assms(2,4) by (simp_all add: in_line_def order_ok_def)
  then have queue: "queue_ok (depth i) (message_size L i) (m_queues q ! i)" "messages (m_queues q ! i) = map (represent L) (lines s ! i)"
    "list_all (acceptable L fits i) (lines s ! i)"
    by (simp_all add: queue_fits_def)
  note stored = enqueue_stored [OF assms(6)] and refused = enqueue_refused [OF assms(6)]
  show ?thesis
  proof (cases "length (lines s ! i) < depth i")
    case True
    let ?s = "s\<lparr>lines := (lines s)[i := lines s ! i @ [m]]\<rparr>"
    obtain queue' where new: "Queue_enqueue (represent L m) (message_size L i) (m_queues q ! i) = Some (FW_SERIALIZE_OK, queue')"
        "queue_ok (depth i) (message_size L i) queue'" "messages queue' = messages (m_queues q ! i) @ [represent L m]"
      using mq.enq_room [OF queue(1) acceptable_size [OF assms(5)]] True queue(2) by auto
    let ?q = "q\<lparr>m_queues := (m_queues q)[i := queue']\<rparr>"
    have "queue_fits L depth fits i queue' (lines s ! i @ [m])"
      using new queue assms(5) by (simp add: queue_fits_def)
    then have mid: "in_line L depth prio fits ?q ?s"
      using assms(2,4) sizes by (auto simp: in_line_def nth_list_update)
    show ?thesis
    proof (cases "idle s")
      case busy: False
      then have "cq_state q \<noteq> READY" using assms(2) by (simp add: in_line_def)
      then show ?thesis
        using stored [OF new(1)] mid busy True by (simp add: arrive_def settled_def)
    next
      case idle: True
      then have "cq_state q = READY" using assms(2) by (simp add: in_line_def)
      moreover obtain q' w' where "processQueue p L (?q, w) = Some (q', w')" "tr w' = tr w @ fst (serve prio ?s)"
          "in_line L depth prio fits q' (snd (serve prio ?s))" "settled (snd (serve prio ?s))"
        using process_serves [OF assms(1) mid] idle by auto
      ultimately show ?thesis using stored [OF new(1)] idle True by (simp add: arrive_def)
    qed
  next
    case False
    then have full: "length (lines s ! i) = depth i"
      using mq.bounded [OF queue(1)] queue(2) by simp
    then have "lines s ! i \<noteq> []" using queue(1) by (auto simp: queue_ok_def)
    then have busy: "cq_state q \<noteq> READY" "\<not> idle s"
      using assms(2-4) by (auto simp: settled_def in_line_def)
    have "Queue_enqueue (represent L m) (message_size L i) (m_queues q ! i) = Some (FW_SERIALIZE_NO_ROOM_LEFT, m_queues q ! i)"
      using mq.enq_full [OF queue(1) acceptable_size [OF assms(5)]] queue(2) full by simp
    from refused [OF this busy(1)] obtain n where "ComQueue_enqueue p L i kind (represent L m) (message_size L i) (q, w) = Some (False,
        if m_throttle q ! i then (q, w) else (q\<lparr>m_throttle := (m_throttle q)[i := True]\<rparr>, cq_QueueOverflow p kind n w))" ..
    moreover have "in_line L depth prio fits (q\<lparr>m_throttle := (m_throttle q)[i := True]\<rparr>) s" "in_line L depth prio fits q s"
      using assms(2) by (simp_all add: in_line_def)
    ultimately show ?thesis
      using busy(2) False reports(1) assms(3) by (cases "m_throttle q ! i") (simp_all add: arrive_def)
  qed
qed

lemma marks_taken:
  "\<forall>j < length qs. queue_ok (d j) (n j) (qs ! j) \<Longrightarrow> \<exists>ns. take_marks qs = Some (ns, map Queue_clear_high_water_mark qs)"
proof (induction qs arbitrary: d n)
  case (Cons queue qs)
  have "queue_ok (d 0) (n 0) queue" "\<forall>j < length qs. queue_ok (d (Suc j)) (n (Suc j)) (qs ! j)"
    using Cons.prems by fastforce+
  with Cons.IH [of "\<lambda>j. d (Suc j)" "\<lambda>j. n (Suc j)"] mq.mark_peak [of "d 0" "n 0" queue] show ?case by auto
qed simp

lemma run_reports:
  assumes "in_line L depth prio fits q s"
  shows "\<exists>q' w'. ComQueue_run p (q, w) = Some (q', w') \<and> tr w' = tr w \<and> in_line L depth prio fits q' s"
proof -
  have queues: "\<forall>i < TOTAL_PORT_COUNT. queue_ok (depth i) (message_size L i) (m_queues q ! i)" "length (m_queues q) = TOTAL_PORT_COUNT"
    using assms by (simp_all add: in_line_def queue_fits_def)
  let ?a = "take COM_PORT_COUNT (m_queues q)" and ?b = "drop COM_PORT_COUNT (m_queues q)"
  obtain com where com: "take_marks ?a = Some (com, map Queue_clear_high_water_mark ?a)"
    using marks_taken [of ?a depth "message_size L"] queues by auto
  obtain buff where buff: "take_marks ?b = Some (buff, map Queue_clear_high_water_mark ?b)"
    using marks_taken [of ?b "\<lambda>j. depth (COM_PORT_COUNT + j)" "\<lambda>j. message_size L (COM_PORT_COUNT + j)"] queues
    by (auto simp: TOTAL_PORT_COUNT_def)
  have "map Queue_clear_high_water_mark ?a @ map Queue_clear_high_water_mark ?b = map Queue_clear_high_water_mark (m_queues q)"
    by (simp flip: map_append)
  then have "ComQueue_run p (q, w) = Some (q\<lparr>m_queues := map Queue_clear_high_water_mark (m_queues q)\<rparr>,
      cq_buffQueueDepth p buff (cq_comQueueDepth p com w))"
    using com buff by (simp add: ComQueue_run_def)
  moreover have "in_line L depth prio fits (q\<lparr>m_queues := map Queue_clear_high_water_mark (m_queues q)\<rparr>) s"
    using assms mq.clear_peak by (auto simp: in_line_def queue_fits_def)
  ultimately show ?thesis using reports by auto
qed

lemma call_steps:
  assumes "ok w" "in_line L depth prio fits q s" "settled s" "call_ok L fits c" "\<And>b. c = Link_status b \<Longrightarrow> \<not> idle s"
  shows "\<exists>q' w'. ComQueue_call p L c (q, w) = Some (q', w') \<and> tr w' = tr w @ fst (line_step depth prio c s) \<and>
    in_line L depth prio fits q' (snd (line_step depth prio c s)) \<and> settled (snd (line_step depth prio c s))"
proof (cases c)
  case (Com_packet port data)
  then have "port < COM_PORT_COUNT" "port < TOTAL_PORT_COUNT" "acceptable L fits port (Packet data)"
    using assms(4) by (auto simp: TOTAL_PORT_COUNT_def)
  moreover from this obtain q' w' where
      "ComQueue_enqueue p L port COM_QUEUE (com_object L data) (com_size L) (q, w) = Some (length (lines s ! port) < depth port, q', w')"
      "tr w' = tr w @ fst (arrive depth prio port (Packet data) s)"
      "in_line L depth prio fits q' (snd (arrive depth prio port (Packet data) s))" "settled (snd (arrive depth prio port (Packet data) s))"
    using enqueue_arrives [OF assms(1-3), of port "Packet data" COM_QUEUE]
    by (auto simp: represent_def message_size_def give_back_def split: if_splits)
  ultimately show ?thesis
    using Com_packet by (simp add: comPacketQueueIn_def)
next
  case (File_buffer port b)
  let ?i = "port + COM_PORT_COUNT" and ?room = "length (lines s ! (port + COM_PORT_COUNT)) < depth (port + COM_PORT_COUNT)"
  from File_buffer have port: "port = 0" "?i < TOTAL_PORT_COUNT" "acceptable L fits ?i (File_data b)"
    using assms(4) by (auto simp: TOTAL_PORT_COUNT_def BUFFER_PORT_COUNT_def)
  obtain q' w' where entered: "ComQueue_enqueue p L ?i BUFFER_QUEUE (buffer_object L b) (buffer_size L) (q, w) = Some (?room, q', w')"
      "tr w' @ (if ?room then [] else give_back (File_data b)) = tr w @ fst (arrive depth prio ?i (File_data b) s)"
      "in_line L depth prio fits q' (snd (arrive depth prio ?i (File_data b) s))" "settled (snd (arrive depth prio ?i (File_data b) s))"
    using enqueue_arrives [OF assms(1-3) port(2,3), of BUFFER_QUEUE] by (auto simp: represent_def message_size_def)
  obtain w'' where "bufferReturnOut p 0 b w' = Some w''" "tr w'' = tr w' @ [Back b]" using return_buffer by blast
  with entered port File_buffer show ?thesis
    by (cases ?room) (simp_all add: bufferQueueIn_def give_back_def BUFFER_PORT_COUNT_def TOTAL_PORT_COUNT_def COM_PORT_COUNT_def)
next
  case (Link_status condition)
  then have busy: "\<not> idle s" "cq_state q = WAITING"
    using assms(2,5) by (auto simp: in_line_def intro: SendState.exhaust)
  have "in_line L depth prio fits (q\<lparr>cq_state := READY\<rparr>) (s\<lparr>idle := True\<rparr>)"
    using assms(2) by (simp add: in_line_def)
  from process_serves [OF assms(1) this] obtain q' w' where served: "processQueue p L (q\<lparr>cq_state := READY\<rparr>, w) = Some (q', w')"
      "tr w' = tr w @ fst (serve prio (s\<lparr>idle := True\<rparr>))" "in_line L depth prio fits q' (snd (serve prio (s\<lparr>idle := True\<rparr>)))"
      "settled (snd (serve prio (s\<lparr>idle := True\<rparr>)))"
    by auto
  have "cq_state q' = WAITING \<or> cq_state q' = READY" by (cases "cq_state q'") auto
  moreover have "in_line L depth prio fits (q\<lparr>cq_state := WAITING\<rparr>) s"
    using assms(2) busy by (simp add: in_line_def)
  ultimately show ?thesis
    using Link_status busy(2) served assms(3) by (cases condition) (simp_all add: ComQueue_comStatusIn_def)
next
  case Run_tick
  with run_reports [OF assms(2), of w] assms(3) show ?thesis by auto
next
  case (Dropped port b)
  then show ?thesis
    using assms(2-4) return_buffer [of b w] by (auto simp: bufferQueueIn_overflowHook_def BUFFER_PORT_COUNT_def)
qed

end

section \<open>Histories\<close>

text \<open>
  The life of the component among its neighbours: calls one after the other, in between anything that does not pass messages on. A
  status of the link comes only while one is owed: one at the start and one for every message passed on.
\<close>

definition good_statuses :: "queue_call list \<Rightarrow> nat" where
  "good_statuses cs = length (filter (\<lambda>c. c = Link_status True) cs)"

definition passes :: "link_output list \<Rightarrow> nat" where
  "passes out = length (filter (\<lambda>x. case x of Passed _ _ _ \<Rightarrow> True | Back _ \<Rightarrow> False) out)"

definition status_owed :: "queue_call \<Rightarrow> queue_call list \<Rightarrow> link_output list \<Rightarrow> bool" where
  "status_owed c hs out \<longleftrightarrow> (case c of Link_status _ \<Rightarrow> good_statuses hs \<le> passes out | _ \<Rightarrow> True)"

inductive queue_history :: "'w queue_ports \<Rightarrow> object_layout \<Rightarrow> ('w \<Rightarrow> link_output list) \<Rightarrow> ('w \<Rightarrow> bool) \<Rightarrow> (u16 \<Rightarrow> bytes \<Rightarrow> bool) \<Rightarrow>
    ComQueue \<times> 'w \<Rightarrow> queue_call list \<Rightarrow> ComQueue \<Rightarrow> 'w \<Rightarrow> bool"
  for p L tr ok fits start where
  start: "queue_history p L tr ok fits start [] (fst start) (snd start)"
| call: "queue_history p L tr ok fits start hs q w \<Longrightarrow> ok w \<Longrightarrow> call_ok L fits c \<Longrightarrow> status_owed c hs (tr w) \<Longrightarrow>
     ComQueue_call p L c (q, w) = Some (q', w') \<Longrightarrow> queue_history p L tr ok fits start (hs @ [c]) q' w'"
| others: "queue_history p L tr ok fits start hs q w \<Longrightarrow> tr w' = tr w \<Longrightarrow> queue_history p L tr ok fits start hs q w'"

lemma counts_append [simp]: "good_statuses (cs @ ds) = good_statuses cs + good_statuses ds" "passes (out @ out') = passes out + passes out'"
  by (simp_all add: good_statuses_def passes_def)

lemma counts_simps [simp]: "good_statuses [] = 0" "passes [] = 0" "passes (give_back m) = 0" "passes (pass i m # out) = Suc (passes out)"
  by (simp_all add: good_statuses_def passes_def give_back_def pass_def split: message.split)

lemma line_run_append:
  "line_run depth prio (cs @ ds) s = (let (out, s') = line_run depth prio cs s; (out', s'') = line_run depth prio ds s' in (out @ out', s''))"
  by (induction cs arbitrary: s) (auto simp: Let_def split: prod.splits)

lemma serve_balance:
  "passes (fst (serve prio s)) + (if idle (snd (serve prio s)) then 1 else 0) = (if idle s then 1 else 0)" if "order_ok prio s" "idle s"
  using that(1) by (cases rule: serve_cases) (use that(2) in simp_all)

text \<open>The machine counts: it is idle exactly when one more good status has come than messages were passed on.\<close>

lemma step_balance:
  assumes "order_ok prio s" "\<And>b. c = Link_status b \<Longrightarrow> \<not> idle s"
  shows "good_statuses [c] + (if idle s then 1 else 0) =
    passes (fst (line_step depth prio c s)) + (if idle (snd (line_step depth prio c s)) then 1 else 0)"
proof -
  have ok: "order_ok prio (s\<lparr>lines := (lines s)[i := ms]\<rparr>)" "order_ok prio (s\<lparr>idle := True\<rparr>)" for i ms
    using assms(1) by simp_all
  have "passes (fst (arrive depth prio i m s)) + (if idle (snd (arrive depth prio i m s)) then 1 else 0) = (if idle s then 1 else 0)" for i m
    using serve_balance [OF ok(1) [of i "lines s ! i @ [m]"]] by (cases "idle s") (auto simp: arrive_def)
  then show ?thesis
    using assms(2) serve_balance [OF ok(2)] by (cases c) (auto simp: good_statuses_def passes_def)
qed

context queue_neighbours
begin

lemma history_follows:
  assumes "queue_history p L tr ok fits (q0, w0) hs q w" "in_line L depth prio fits q0 s0" "settled s0" "\<not> idle s0" "tr w0 = []"
  shows "\<exists>s. line_run depth prio hs s0 = (tr w, s) \<and> in_line L depth prio fits q s \<and> settled s \<and> list_all (call_ok L fits) hs \<and>
    good_statuses hs = passes (tr w) + (if idle s then 1 else 0)"
  using assms(1)
proof induction
  case start
  then show ?case using assms(2-5) by (intro exI [of _ s0]) simp
next
  case (call hs q w c q' w')
  from call.IH obtain s where s: "line_run depth prio hs s0 = (tr w, s)" "in_line L depth prio fits q s" "settled s"
    "list_all (call_ok L fits) hs" "good_statuses hs = passes (tr w) + (if idle s then 1 else 0)" by (elim exE conjE)
  have busy: "\<not> idle s" if "c = Link_status b" for b
    using call.hyps(4) that s(5) by (auto simp: status_owed_def)
  have "\<exists>q1 w1. ComQueue_call p L c (q, w) = Some (q1, w1) \<and> tr w1 = tr w @ fst (line_step depth prio c s) \<and>
      in_line L depth prio fits q1 (snd (line_step depth prio c s)) \<and> settled (snd (line_step depth prio c s))"
    by (rule call_steps [OF call.hyps(2) s(2,3) call.hyps(3)]) (rule busy)
  then obtain q1 w1 where "ComQueue_call p L c (q, w) = Some (q1, w1)" "tr w1 = tr w @ fst (line_step depth prio c s)"
      "in_line L depth prio fits q1 (snd (line_step depth prio c s))" "settled (snd (line_step depth prio c s))"
    by (elim exE conjE)
  moreover have "good_statuses (hs @ [c]) = passes (tr w @ fst (line_step depth prio c s)) + (if idle (snd (line_step depth prio c s)) then 1 else 0)"
    using step_balance [of prio s c depth] s(2,5) busy by (simp add: in_line_def)
  moreover have "line_run depth prio (hs @ [c]) s0 = (tr w @ fst (line_step depth prio c s), snd (line_step depth prio c s))"
    using s(1) by (simp add: line_run_append split: prod.split)
  moreover have "list_all (call_ok L fits) (hs @ [c])" using s(4) call.hyps(3) by simp
  moreover have "q1 = q'" "w1 = w'" using calculation(1) call.hyps(5) by simp_all
  ultimately show ?case by (intro exI [of _ "snd (line_step depth prio c s)"]) simp
next
  case (others hs q w w')
  then show ?case by simp
qed

end

end
