(* ===== verification/Queue_Setup.thy ===== *)
theory Queue_Setup
  imports Queue_Service
begin

text \<open>
  The configuration of the queue of outgoing messages: a valid table is accepted, the metadata are sorted by priority, every queue gets
  its part of the memory, and the component is ready to serve.
\<close>

section \<open>Sorting\<close>

lemma filter_groups: "distinct ks \<Longrightarrow> filter (\<lambda>x. f x = c) (concat (map (\<lambda>k. filter (\<lambda>x. f x = k) xs) ks)) =
    (if c \<in> set ks then filter (\<lambda>x. f x = c) xs else [])"
  by (induction ks) (auto simp: filter_empty_conv intro!: filter_cong)

lemma mset_groups: "distinct ks \<Longrightarrow> mset (concat (map (\<lambda>k. filter (\<lambda>x. f x = k) xs) ks)) = mset (filter (\<lambda>x. f x \<in> set ks) xs)"
proof (induction ks)
  case (Cons k ks)
  have "mset (filter (\<lambda>x. f x = k) xs) + mset (filter (\<lambda>x. f x \<in> set ks) xs) = mset (filter (\<lambda>x. f x \<in> set (k # ks)) xs)"
    using Cons.prems by (induction xs) auto
  with Cons show ?case by simp
qed simp

lemma sort_groups:
  fixes f :: "'a \<Rightarrow> int"
  assumes "sorted_wrt (<) ks" "\<forall>x \<in> set xs. f x \<in> set ks"
  shows "sort_key f xs = concat (map (\<lambda>k. filter (\<lambda>x. f x = k) xs) ks)"
proof (rule properties_for_sort_key)
  have "distinct ks" using assms(1) by (simp add: strict_sorted_iff)
  note groups = filter_groups [OF this] mset_groups [OF this]
  have "filter (\<lambda>x. f x \<in> set ks) xs = xs" using assms(2) by simp
  with groups(2) show "mset (concat (map (\<lambda>k. filter (\<lambda>x. f x = k) xs) ks)) = mset xs" by metis
  show "filter (\<lambda>x. f k = f x) (concat (map (\<lambda>k. filter (\<lambda>x. f x = k) xs) ks)) = filter (\<lambda>x. f k = f x) xs"
    if "k \<in> set (concat (map (\<lambda>k. filter (\<lambda>x. f x = k) xs) ks))" for k
    using groups(1) [of f "f k" xs] that assms(2) by (auto simp: eq_commute [of "f k"])
  show "sorted (map f (concat (map (\<lambda>k. filter (\<lambda>x. f x = k) xs) ks)))"
    using assms(1)
  proof (induction ks)
    case (Cons k ks)
    have "sorted (map f (filter (\<lambda>x. f x = k) xs))" by (induction xs) auto
    with Cons show ?case by (auto simp: sorted_append)
  qed simp
qed

section \<open>The loops\<close>

definition memory_of :: "QueueMetadata \<Rightarrow> nat" where
  "memory_of m = qm_depth m * qm_msgSize m"

fun metadata :: "object_layout \<Rightarrow> nat \<Rightarrow> QueueConfigurationEntry list \<Rightarrow> QueueMetadata list" where
  "metadata L i [] = []"
| "metadata L i (e # es) = \<lparr>qm_depth = qe_depth e, qm_priority = qe_priority e, qm_index = i, qm_msgSize = message_size L i\<rparr> #
     metadata L (i + 1) es"

lemma metadata_nth:
  "length (metadata L i es) = length es"
  "j < length es \<Longrightarrow> metadata L i es ! j = \<lparr>qm_depth = qe_depth (es ! j), qm_priority = qe_priority (es ! j), qm_index = i + j,
     qm_msgSize = message_size L (i + j)\<rparr>"
  by (induction es arbitrary: i j) (auto simp: nth_Cons split: nat.split)

lemma entry_loop_selects:
  assumes "\<forall>e \<in> set es. qe_priority e < int TOTAL_PORT_COUNT \<and> 0 < qe_depth e"
    and "sel = filter (\<lambda>m. qm_priority m = pr) (metadata L i es)" "k + length sel \<le> length pl"
    and "t + sum_list (map memory_of sel) \<le> 2 ^ 64 - 1"
  shows "entry_loop L pr i es (pl, k, t) =
    Some (take k pl @ sel @ drop (k + length sel) pl, k + length sel, t + sum_list (map memory_of sel))"
  using assms
proof (induction es arbitrary: i pl k t sel)
  case (Cons e es)
  let ?sel = "filter (\<lambda>m. qm_priority m = pr) (metadata L (i + 1) es)"
  let ?m = "\<lparr>qm_depth = qe_depth e, qm_priority = qe_priority e, qm_index = i, qm_msgSize = message_size L i\<rparr>"
  show ?case
  proof (cases "pr = qe_priority e")
    case True
    then have sel: "sel = ?m # ?sel" using Cons.prems(2) by simp
    have k: "k < length pl" "k + 1 + length ?sel \<le> length (pl[k := ?m])" using Cons.prems(3) sel by simp_all
    have fits: "memory_of ?m \<le> 2 ^ 64 - 1" "t \<le> 2 ^ 64 - 1 - memory_of ?m"
      "(t + memory_of ?m) + sum_list (map memory_of ?sel) \<le> 2 ^ 64 - 1"
      using Cons.prems(4) sel by simp_all
    have size: "memory_of ?m = qe_depth e * message_size L i" by (simp add: memory_of_def)
    have "message_size L i \<le> (2 ^ 64 - 1) div qe_depth e"
      using fits(1) Cons.prems(1) by (simp add: memory_of_def less_eq_div_iff_mult_less_eq mult.commute)
    moreover have "entry_loop L pr (i + 1) es (pl[k := ?m], k + 1, t + memory_of ?m) =
        Some (take (k + 1) (pl[k := ?m]) @ ?sel @ drop (k + 1 + length ?sel) (pl[k := ?m]), k + 1 + length ?sel,
          (t + memory_of ?m) + sum_list (map memory_of ?sel))"
      using Cons.IH [OF _ refl k(2) fits(3)] Cons.prems(1) by simp
    moreover have "take (k + 1) (pl[k := ?m]) = take k pl @ [?m]" using k(1) by (simp add: take_Suc_conv_app_nth)
    ultimately show ?thesis
      using True sel fits(2) Cons.prems(1) size by (simp add: add.assoc)
  next
    case False
    then show ?thesis using Cons.IH [of "?sel" "i + 1" k pl t] Cons.prems by simp
  qed
qed simp

lemma priority_loop_selects:
  assumes "\<forall>e \<in> set es. qe_priority e < int TOTAL_PORT_COUNT \<and> 0 < qe_depth e"
    and "sel = concat (map (\<lambda>pr. filter (\<lambda>m. qm_priority m = pr) (metadata L 0 es)) prs)" "k + length sel \<le> length pl"
    and "t + sum_list (map memory_of sel) \<le> 2 ^ 64 - 1"
  shows "priority_loop L es prs (pl, k, t) =
    Some (take k pl @ sel @ drop (k + length sel) pl, k + length sel, t + sum_list (map memory_of sel))"
  using assms(2-)
proof (induction prs arbitrary: pl k t sel)
  case (Cons pr prs)
  let ?one = "filter (\<lambda>m. qm_priority m = pr) (metadata L 0 es)"
  let ?rest = "concat (map (\<lambda>pr. filter (\<lambda>m. qm_priority m = pr) (metadata L 0 es)) prs)"
  have sel: "sel = ?one @ ?rest" using Cons.prems(1) by simp
  let ?pl = "take k pl @ ?one @ drop (k + length ?one) pl"
  have "entry_loop L pr 0 es (pl, k, t) = Some (?pl, k + length ?one, t + sum_list (map memory_of ?one))"
    using Cons.prems(2,3) sel by (intro entry_loop_selects [OF assms(1) refl]) simp_all
  moreover have "priority_loop L es prs (?pl, k + length ?one, t + sum_list (map memory_of ?one)) =
      Some (take (k + length ?one) ?pl @ ?rest @ drop (k + length ?one + length ?rest) ?pl, k + length ?one + length ?rest,
        t + sum_list (map memory_of ?one) + sum_list (map memory_of ?rest))"
    using Cons.prems(2,3) sel by (intro Cons.IH [OF refl]) simp_all
  moreover have "take (k + length ?one) ?pl = take k pl @ ?one" using Cons.prems(2) sel by simp
  moreover have "drop (k + length ?one + length ?rest) ?pl = drop (k + length sel) pl"
    using Cons.prems(2) sel by (simp add: ac_simps)
  ultimately show ?case using sel by (simp add: add.assoc)
qed simp

lemma setup_loop_hands_out:
  assumes "address \<noteq> 0"
  shows "\<forall>m \<in> set ms. qm_index m < TOTAL_PORT_COUNT \<and> 0 < qm_depth m \<and> 0 < qm_msgSize m \<and> qs ! qm_index m = Queue_new \<Longrightarrow>
    distinct (map qm_index ms) \<Longrightarrow> length qs = TOTAL_PORT_COUNT \<Longrightarrow> offset + sum_list (map memory_of ms) \<le> totalAllocation \<Longrightarrow>
    \<exists>qs'. setup_loop mem address totalAllocation ms (offset, qs) = Some (offset + sum_list (map memory_of ms), qs') \<and>
      length qs' = TOTAL_PORT_COUNT \<and> (\<forall>i. i \<notin> qm_index ` set ms \<longrightarrow> qs' ! i = qs ! i) \<and>
      (\<forall>m \<in> set ms. queue_ok (qm_depth m) (qm_msgSize m) (qs' ! qm_index m) \<and> messages (qs' ! qm_index m) = [])"
proof (induction ms arbitrary: offset qs)
  case (Cons m ms)
  let ?st = "map mem [address + offset..<address + offset + memory_of m]"
  obtain queue where queue: "Queue_setup (Some ?st) (memory_of m) (qm_depth m) (qm_msgSize m) Queue_new = Some queue"
      "queue_ok (qm_depth m) (qm_msgSize m) queue" "messages queue = []"
    using setup_ok [of "qm_depth m" "qm_msgSize m" "memory_of m" ?st] Cons.prems(1) by (auto simp: memory_of_def)
  let ?qs = "qs[qm_index m := queue]"
  have "\<forall>n \<in> set ms. qm_index n < TOTAL_PORT_COUNT \<and> 0 < qm_depth n \<and> 0 < qm_msgSize n \<and> ?qs ! qm_index n = Queue_new"
    using Cons.prems(1,2) by (auto simp: nth_list_update_neq image_iff)
  then obtain qs' where rest: "setup_loop mem address totalAllocation ms (offset + memory_of m, ?qs) =
        Some (offset + memory_of m + sum_list (map memory_of ms), qs')" "length qs' = TOTAL_PORT_COUNT"
      "\<forall>i. i \<notin> qm_index ` set ms \<longrightarrow> qs' ! i = ?qs ! i"
      "\<forall>n \<in> set ms. queue_ok (qm_depth n) (qm_msgSize n) (qs' ! qm_index n) \<and> messages (qs' ! qm_index n) = []"
    using Cons.IH [of ?qs "offset + memory_of m"] Cons.prems(2-4) by (auto simp: add.assoc)
  have "setup_loop mem address totalAllocation (m # ms) (offset, qs) = setup_loop mem address totalAllocation ms (offset + memory_of m, ?qs)"
    using Cons.prems(1,4) queue(1) assms by (simp add: memory_of_def memory_at_def add.commute)
  moreover have "qs' ! qm_index m = queue"
    using rest(3) Cons.prems(1-3) by (auto simp: image_iff)
  ultimately show ?case
    using rest queue(2,3) Cons.prems(1) by (auto simp: add.assoc)
qed simp

section \<open>A valid configuration\<close>

definition valid_table :: "object_layout \<Rightarrow> QueueConfigurationEntry list \<Rightarrow> bool" where
  "valid_table L entries \<longleftrightarrow> length entries = TOTAL_PORT_COUNT \<and> 0 < com_size L \<and> 0 < buffer_size L \<and>
     (\<forall>e \<in> set entries. 0 \<le> qe_priority e \<and> qe_priority e < int TOTAL_PORT_COUNT \<and> 0 < qe_depth e) \<and>
     sum_list (map memory_of (metadata L 0 entries)) \<le> 2 ^ 64 - 1"

definition depth_of :: "QueueConfigurationEntry list \<Rightarrow> nat \<Rightarrow> nat" where
  "depth_of entries i = qe_depth (entries ! i)"

definition priority_of :: "QueueConfigurationEntry list \<Rightarrow> nat \<Rightarrow> int" where
  "priority_of entries i = qe_priority (entries ! i)"

definition first_lines :: "QueueConfigurationEntry list \<Rightarrow> line_state" where
  "first_lines entries = \<lparr>lines = replicate TOTAL_PORT_COUNT [], order = sort_key (priority_of entries) [0..<TOTAL_PORT_COUNT], idle = False\<rparr>"

text \<open>The allocator grants what is asked for.\<close>

definition grants :: "(nat \<Rightarrow> nat \<times> nat) \<Rightarrow> nat \<Rightarrow> bool" where
  "grants alloc address \<longleftrightarrow> address \<noteq> 0 \<and> (\<forall>n. alloc n = (address, n))"

lemma metadata_indices: "map qm_index (metadata L i es) = [i..<i + length es]"
proof (induction es arbitrary: i)
  case (Cons e es)
  then show ?case using upt_conv_Cons [of i "i + length (e # es)"] by (simp del: upt_Suc)
qed simp

lemma sort_same: "\<forall>x \<in> set xs. f x = g x \<Longrightarrow> sort_key f xs = sort_key g xs" for f g :: "'a \<Rightarrow> int"
proof (induction xs)
  case (Cons x xs)
  have "insort_key f x ys = insort_key g x ys" if "\<forall>y \<in> insert x (set ys). f y = g y" for ys
    using that by (induction ys) auto
  from this [of "sort_key g xs"] Cons show ?case by (simp add: sort_key_simps)
qed simp

lemma sort_key_map: "map f (sort_key (\<lambda>x. g (f x)) xs) = sort_key g (map f xs)" for g :: "'b \<Rightarrow> int"
proof -
  have "map f (insort_key (\<lambda>x. g (f x)) x ys) = insort_key g (f x) (map f ys)" for x ys
    by (induction ys) simp_all
  then show ?thesis by (induction xs) (simp_all add: sort_key_simps)
qed

lemma configured:
  assumes "valid_table L entries" "grants alloc address" "length garbage = TOTAL_PORT_COUNT"
  shows "\<exists>q. ComQueue_configure L entries allocationId alloc mem (ComQueue_new com_address com garbage) = Some q \<and>
    m_prioritizedList q = sort_key qm_priority (metadata L 0 entries) \<and> ComQueue_cleanup q = Some (allocationId, address) \<and>
    in_line L (depth_of entries) (priority_of entries) fits q (first_lines entries)"
proof -
  let ?tab = "metadata L 0 entries" and ?ks = "[0..int TOTAL_PORT_COUNT - 1]"
  let ?pl = "sort_key qm_priority ?tab" and ?total = "sum_list (map memory_of (metadata L 0 entries))"
  have valid: "length entries = TOTAL_PORT_COUNT" "0 < com_size L" "0 < buffer_size L" "?total \<le> 2 ^ 64 - 1"
    "\<forall>e \<in> set entries. 0 \<le> qe_priority e \<and> qe_priority e < int TOTAL_PORT_COUNT \<and> 0 < qe_depth e"
    using assms(1) by (simp_all add: valid_table_def)
  have entry: "qm_index m < TOTAL_PORT_COUNT" "qm_depth m = depth_of entries (qm_index m)" "qm_priority m = priority_of entries (qm_index m)"
      "qm_msgSize m = message_size L (qm_index m)" "0 < qm_depth m" "0 < qm_msgSize m" "qm_priority m \<in> set ?ks" if "m \<in> set ?tab" for m
  proof -
    from that obtain j where "j < length entries" "m = ?tab ! j" by (auto simp: in_set_conv_nth metadata_nth(1))
    then have j: "j < TOTAL_PORT_COUNT" "m = \<lparr>qm_depth = qe_depth (entries ! j), qm_priority = qe_priority (entries ! j), qm_index = j,
        qm_msgSize = message_size L j\<rparr>" "entries ! j \<in> set entries"
      using valid(1) by (simp_all add: metadata_nth(2))
    then show "qm_index m < TOTAL_PORT_COUNT" "qm_depth m = depth_of entries (qm_index m)" "qm_priority m = priority_of entries (qm_index m)"
      "qm_msgSize m = message_size L (qm_index m)" "0 < qm_depth m" "0 < qm_msgSize m" "qm_priority m \<in> set ?ks"
      using valid(2,3,5) by (auto simp: depth_of_def priority_of_def message_size_def)
  qed
  have sorted: "?pl = concat (map (\<lambda>pr. filter (\<lambda>m. qm_priority m = pr) ?tab) ?ks)"
    using entry(7) by (intro sort_groups) simp_all
  have same: "mset ?pl = mset ?tab" "sum_list (map memory_of ?pl) = ?total" "set ?pl = set ?tab" "length ?pl = TOTAL_PORT_COUNT"
    by (simp_all add: sum_mset_sum_list [symmetric] valid(1) metadata_nth(1) flip: mset_map) (simp flip: sum_mset_sum_list)
  have "priority_loop L entries ?ks (garbage, 0, 0) = Some (?pl, length ?pl, ?total)"
    using priority_loop_selects [of entries ?pl L ?ks 0 garbage 0] sorted valid(4,5) same(2,4) assms(3) by simp
  moreover obtain qs where "setup_loop mem address ?total ?pl (0, replicate TOTAL_PORT_COUNT Queue_new) = Some (?total, qs)"
      and qs: "length qs = TOTAL_PORT_COUNT"
        "\<forall>m \<in> set ?tab. queue_ok (qm_depth m) (qm_msgSize m) (qs ! qm_index m) \<and> messages (qs ! qm_index m) = []"
  proof -
    have "distinct (map qm_index ?pl)"
    proof -
      have "mset (map qm_index ?pl) = mset (map qm_index ?tab)" by simp
      moreover have "distinct (map qm_index ?tab)" by (simp only: metadata_indices distinct_upt)
      ultimately show ?thesis using mset_eq_imp_distinct_iff by blast
    qed
    with setup_loop_hands_out [of address ?pl "replicate TOTAL_PORT_COUNT Queue_new" 0 ?total mem] assms(2) entry same(2,3) that
    show thesis by (fastforce simp: grants_def)
  qed
  ultimately have run: "ComQueue_configure L entries allocationId alloc mem (ComQueue_new com_address com garbage) =
      Some ((ComQueue_new com_address com garbage)\<lparr>cq_allocator := True, m_allocationId := allocationId, m_allocation := address,
        m_prioritizedList := ?pl, m_queues := qs\<rparr>)"
    using assms(2) by (simp add: ComQueue_configure_def ComQueue_new_def grants_def)
  have "sort_key qm_priority ?tab = sort_key (\<lambda>m. priority_of entries (qm_index m)) ?tab"
    using entry(3) by (intro sort_same) blast
  then have index: "map qm_index ?pl = order (first_lines entries)"
    using sort_key_map [of qm_index "priority_of entries" ?tab] metadata_indices [of L 0 entries] valid(1) by (simp add: first_lines_def)
  have "queue_fits L (depth_of entries) fits i (qs ! i) []" if "i < TOTAL_PORT_COUNT" for i
  proof -
    from that have "i \<in> qm_index ` set ?tab" using metadata_indices [of L 0 entries] valid(1) by (simp flip: set_map)
    then show ?thesis using qs(2) entry(2,4) by (auto simp: queue_fits_def)
  qed
  with run index qs(1) entry(3) same(3) assms(2) show ?thesis
    by (auto simp: grants_def ComQueue_cleanup_def in_line_def order_ok_def first_lines_def ComQueue_new_def lessThan_atLeast0)
qed

text \<open>A queue of depth 0 makes the overflow check divide by zero.\<close>

lemma entry_refused:
  "e \<in> set es \<Longrightarrow> qe_priority e = pr \<and> qe_depth e = 0 \<or> int TOTAL_PORT_COUNT \<le> qe_priority e \<Longrightarrow> entry_loop L pr i es acc = None"
proof (induction es arbitrary: i acc)
  case (Cons x xs)
  show ?case
  proof (cases "e = x")
    case True
    then show ?thesis using Cons.prems(2) by (cases acc) (auto simp: bind_eq_None_conv)
  next
    case False
    then have "entry_loop L pr j xs acc' = None" for j acc' using Cons by simp
    then show ?thesis by (cases acc) (auto simp: bind_eq_None_conv)
  qed
qed simp

lemma priority_refused:
  "pr \<in> set prs \<Longrightarrow> \<forall>acc. entry_loop L pr 0 es acc = None \<Longrightarrow> priority_loop L es prs acc = None"
proof (induction prs arbitrary: acc)
  case (Cons k ks)
  show ?case
  proof (cases "entry_loop L k 0 es acc")
    case (Some acc')
    then have "pr \<noteq> k" using Cons.prems(2) by (metis option.distinct(1))
    then show ?thesis using Some Cons by simp
  qed simp
qed simp

lemma depth_zero_stops:
  assumes "e \<in> set entries" "0 \<le> qe_priority e" "qe_depth e = 0"
  shows "ComQueue_configure L entries allocationId alloc mem q = None"
proof -
  have "\<exists>pr \<in> set [0..int TOTAL_PORT_COUNT - 1]. \<forall>acc. entry_loop L pr 0 entries acc = None"
  proof (cases "qe_priority e < int TOTAL_PORT_COUNT")
    case True
    then show ?thesis using assms by (intro bexI [of _ "qe_priority e"] allI entry_refused [OF assms(1)]) simp_all
  next
    case False
    then show ?thesis
      by (intro bexI [of _ 0] allI entry_refused [OF assms(1)]) (simp_all add: TOTAL_PORT_COUNT_def COM_PORT_COUNT_def)
  qed
  then have "priority_loop L entries [0..int TOTAL_PORT_COUNT - 1] acc = None" for acc
    using priority_refused by blast
  then show ?thesis by (simp add: ComQueue_configure_def)
qed

section \<open>Properties\<close>

text \<open>
  C31: Configuration: with a valid table and an allocator that grants the memory, every queue is set up and empty with its depth and message
  size, the metadata become the stable sort of the table by priority, and the memory is given back by the clean-up. But a depth of 0,
  which the header describes as disabling a queue and which is the initial value of every entry, stops the program.
\<close>

theorem configure_outcomes:
  assumes "grants alloc address" "length garbage = TOTAL_PORT_COUNT"
  shows "(valid_table L entries \<longrightarrow> (\<exists>q. ComQueue_configure L entries allocationId alloc mem (ComQueue_new com_address com garbage) = Some q \<and>
      m_prioritizedList q = sort_key qm_priority (metadata L 0 entries) \<and> ComQueue_cleanup q = Some (allocationId, address) \<and>
      (\<forall>i < TOTAL_PORT_COUNT. queue_ok (qe_depth (entries ! i)) (message_size L i) (m_queues q ! i) \<and> messages (m_queues q ! i) = []))) \<and>
    ((\<exists>e \<in> set entries. 0 \<le> qe_priority e \<and> qe_depth e = 0) \<longrightarrow>
      ComQueue_configure L entries allocationId alloc mem (ComQueue_new com_address com garbage) = None)"
proof (intro conjI impI)
  assume "valid_table L entries"
  from configured [OF this assms, of allocationId mem com_address com "\<lambda>_ _. True"] obtain q where
    q: "ComQueue_configure L entries allocationId alloc mem (ComQueue_new com_address com garbage) = Some q"
      "m_prioritizedList q = sort_key qm_priority (metadata L 0 entries)" "ComQueue_cleanup q = Some (allocationId, address)"
      "in_line L (depth_of entries) (priority_of entries) (\<lambda>_ _. True) q (first_lines entries)" by blast
  then have "\<forall>i < TOTAL_PORT_COUNT. queue_ok (qe_depth (entries ! i)) (message_size L i) (m_queues q ! i) \<and> messages (m_queues q ! i) = []"
    by (simp add: in_line_def queue_fits_def depth_of_def first_lines_def)
  with q show "\<exists>q. ComQueue_configure L entries allocationId alloc mem (ComQueue_new com_address com garbage) = Some q \<and>
      m_prioritizedList q = sort_key qm_priority (metadata L 0 entries) \<and> ComQueue_cleanup q = Some (allocationId, address) \<and>
      (\<forall>i < TOTAL_PORT_COUNT. queue_ok (qe_depth (entries ! i)) (message_size L i) (m_queues q ! i) \<and> messages (m_queues q ! i) = [])"
    by blast
next
  assume "\<exists>e \<in> set entries. 0 \<le> qe_priority e \<and> qe_depth e = 0"
  then show "ComQueue_configure L entries allocationId alloc mem (ComQueue_new com_address com garbage) = None"
    using depth_zero_stops by blast
qed

text \<open>The table of the deployment, and the sizes of the two classes on the bench.\<close>

definition comms_table :: "QueueConfigurationEntry list" where
  "comms_table = QueueConfigurationTable_new[0 := \<lparr>qe_depth = 200, qe_priority = 0\<rparr>, 1 := \<lparr>qe_depth = 500, qe_priority = 2\<rparr>,
     2 := \<lparr>qe_depth = 100, qe_priority = 1\<rparr>]"

lemma comms_table_entries:
  "comms_table = [\<lparr>qe_depth = 200, qe_priority = 0\<rparr>, \<lparr>qe_depth = 500, qe_priority = 2\<rparr>, \<lparr>qe_depth = 100, qe_priority = 1\<rparr>]"
  by (simp add: comms_table_def QueueConfigurationTable_new_def TOTAL_PORT_COUNT_def COM_PORT_COUNT_def BUFFER_PORT_COUNT_def numeral_3_eq_3)

lemma comms_table_valid: "com_size L = 528 \<Longrightarrow> buffer_size L = 32 \<Longrightarrow> valid_table L comms_table"
  by (simp add: valid_table_def comms_table_entries memory_of_def message_size_def TOTAL_PORT_COUNT_def COM_PORT_COUNT_def BUFFER_PORT_COUNT_def)

definition bench_sizes :: object_layout where
  "bench_sizes = \<lparr>com_size = 528, com_object = \<lambda>_. [], com_of = \<lambda>_. resetSer \<lparr>lb_mem = [], m_serLoc = 0, m_deserLoc = 0\<rparr>,
     buffer_size = 32, buffer_object = \<lambda>_. [], buffer_of = \<lambda>_. Fw_Buffer_empty\<rparr>"

theorem configure_outcomes_witness:
  "(\<exists>q. ComQueue_configure bench_sizes comms_table 0 (\<lambda>n. (4096, n)) (\<lambda>_. 0)
       (ComQueue_new 64 \<lparr>lb_mem = [], m_serLoc = 0, m_deserLoc = 0\<rparr> (metadata bench_sizes 0 comms_table)) = Some q \<and>
     queue_ok 500 528 (m_queues q ! 1)) \<and>
   ComQueue_configure bench_sizes QueueConfigurationTable_new 0 (\<lambda>n. (4096, n)) (\<lambda>_. 0)
       (ComQueue_new 64 \<lparr>lb_mem = [], m_serLoc = 0, m_deserLoc = 0\<rparr> (metadata bench_sizes 0 comms_table)) = None"
proof -
  have "grants (\<lambda>n. (4096, n)) 4096" "length (metadata bench_sizes 0 comms_table) = TOTAL_PORT_COUNT"
    by (simp_all add: grants_def metadata_nth(1) comms_table_entries TOTAL_PORT_COUNT_def COM_PORT_COUNT_def BUFFER_PORT_COUNT_def)
  note outcomes = configure_outcomes [OF this, of bench_sizes _ 0 "\<lambda>_. 0" 64 "\<lparr>lb_mem = [], m_serLoc = 0, m_deserLoc = 0\<rparr>"]
  have "valid_table bench_sizes comms_table" by (rule comms_table_valid) (simp_all add: bench_sizes_def)
  then obtain q where q: "ComQueue_configure bench_sizes comms_table 0 (\<lambda>n. (4096, n)) (\<lambda>_. 0)
       (ComQueue_new 64 \<lparr>lb_mem = [], m_serLoc = 0, m_deserLoc = 0\<rparr> (metadata bench_sizes 0 comms_table)) = Some q"
     "\<forall>i < TOTAL_PORT_COUNT. queue_ok (qe_depth (comms_table ! i)) (message_size bench_sizes i) (m_queues q ! i)"
    using outcomes [of comms_table] by blast
  have "queue_ok 500 528 (m_queues q ! 1)"
    using q(2) [rule_format, of 1] by (simp add: comms_table_entries message_size_def bench_sizes_def TOTAL_PORT_COUNT_def COM_PORT_COUNT_def BUFFER_PORT_COUNT_def)
  moreover have "\<exists>e \<in> set QueueConfigurationTable_new. 0 \<le> qe_priority e \<and> qe_depth e = 0"
    by (simp add: QueueConfigurationTable_new_def TOTAL_PORT_COUNT_def COM_PORT_COUNT_def)
  ultimately show ?thesis using q(1) outcomes [of QueueConfigurationTable_new] by blast
qed

end
