(* ===== verification/Packet_Downlink.thy ===== *)
theory Packet_Downlink
  imports Queue_Setup Space_Packets Buffer_Manager Com_Aggregator
begin

text \<open>
  The upper half of the downlink, wired as in \<^verbatim>\<open>Svc/Subtopologies/ComCcsds/ComCcsds.fpp\<close>: the queue of outgoing messages hands its
  messages to the space packet framer, which takes a buffer from the buffer manager and a count from the sequence counts, and puts
  the packet into the queue of the aggregator. The framer gives the message back at once, which the queue passes on to the owner of
  file buffers.
\<close>

section \<open>The connections\<close>

text \<open>The other components, and what was passed on and given back so far.\<close>

record packet_world =
  pk_pool :: BufferManager
  pk_counts :: apid_table
  pk_aggregator :: ComAggregator
  pk_trace :: "link_output list"

definition file_ports :: "packet_world queue_ports" where
  "file_ports = \<lparr>cq_dataOut = (\<lambda>_ _ _. None),
     cq_bufferReturnOut = (\<lambda>port. if port = 0 then Some (\<lambda>b w. Some (w\<lparr>pk_trace := pk_trace w @ [Back b]\<rparr>)) else None),
     cq_QueueOverflow = (\<lambda>_ _ w. w), cq_comQueueDepth = (\<lambda>_ w. w), cq_buffQueueDepth = (\<lambda>_ w. w)\<rparr>"

definition packet_stage :: "(ComQueue \<times> packet_world) packet_ports" where
  "packet_stage = \<lparr>
     sp_bufferAllocate = (\<lambda>n (q, w). do { (b, m) \<leftarrow> bufferGetCallee n (pk_pool w); Some (b, q, w\<lparr>pk_pool := m\<rparr>) }),
     sp_bufferDeallocate = (\<lambda>b (q, w). do { m \<leftarrow> bufferSendIn b (pk_pool w); Some (q, w\<lparr>pk_pool := m\<rparr>) }),
     sp_getApidSeqCount = (\<lambda>apid unused (q, w). case getApidSeqCountIn apid unused (pk_counts w) of
       (n, t, _) \<Rightarrow> Some (n, q, w\<lparr>pk_counts := t\<rparr>)),
     sp_dataOut = (\<lambda>b ctx (q, w). Some (q, w\<lparr>pk_aggregator := ag_dataIn b ctx (pk_aggregator w)\<rparr>)),
     sp_dataReturnOut = ComQueue_dataReturnIn file_ports,
     sp_comStatusOut = None\<rparr>"

definition packet_queue_ports :: "packet_world queue_ports" where
  "packet_queue_ports = file_ports\<lparr>cq_dataOut := (\<lambda>b ctx (q, w). SpacePacketFramer_dataIn packet_stage b ctx
     (q, w\<lparr>pk_trace := pk_trace w @ [Passed (ctx_comQueueIndex ctx) (ctx_apid ctx) (buf_data b)]\<rparr>))\<rparr>"

text \<open>
  The framer works as long as the pool has a buffer for the largest packet that the aggregator takes; it takes data with an
  application identifier of 11 bits that leave room for the header.
\<close>

definition pool_has_room :: "packet_world \<Rightarrow> bool" where
  "pool_has_room w \<longleftrightarrow> pool_ok (pk_pool w) \<and> (\<exists>s \<in> set (slots (pk_pool w)). \<not> ab_allocated s \<and> AggregationSize \<le> ab_size s)"

definition fits_packet :: "u16 \<Rightarrow> bytes \<Rightarrow> bool" where
  "fits_packet apid data \<longleftrightarrow> drop_bit 11 apid = 0 \<and> 0 < length data \<and> 6 + length data \<le> AggregationSize"

section \<open>The laws of the connection\<close>

lemma return_same: "ComQueue_dataReturnIn file_ports = ComQueue_dataReturnIn packet_queue_ports"
proof -
  have same: "cq_bufferReturnOut packet_queue_ports = cq_bufferReturnOut file_ports" by (simp add: packet_queue_ports_def)
  show ?thesis unfolding ComQueue_dataReturnIn_def bufferReturnOut_def same ..
qed

lemma stage_simps [simp]:
  "sp_dataReturnOut packet_stage = ComQueue_dataReturnIn packet_queue_ports"
  "sp_dataOut packet_stage b ctx (q, w) = Some (q, w\<lparr>pk_aggregator := ag_dataIn b ctx (pk_aggregator w)\<rparr>)"
  "cq_dataOut packet_queue_ports b ctx (q, w) = SpacePacketFramer_dataIn packet_stage b ctx
     (q, w\<lparr>pk_trace := pk_trace w @ [Passed (ctx_comQueueIndex ctx) (ctx_apid ctx) (buf_data b)]\<rparr>)"
  by (simp add: packet_stage_def return_same) (simp_all add: packet_stage_def packet_queue_ports_def)

lemma room_granted:
  assumes "pool_has_room w" "n \<le> AggregationSize"
  obtains b m where "bufferGetCallee n (pk_pool w) = Some (b, m)" "buf_addr b \<noteq> 0" "buf_size b = n" "n \<le> length (buf_memory b)" "pool_ok m"
proof -
  let ?m = "pk_pool w"
  have ok: "pool_ok ?m" using assms(1) by (simp add: pool_has_room_def)
  obtain s where "s \<in> set (slots ?m)" "\<not> ab_allocated s" "AggregationSize \<le> ab_size s"
    using assms(1) by (auto simp: pool_has_room_def)
  then obtain i where i: "find_buffer n (slots ?m) 0 = Some i"
    using find_buffer_None [of n "slots ?m" 0 s] assms(2) by (cases "find_buffer n (slots ?m) 0") auto
  note granted = get_granted [OF ok i]
  obtain hw where hw: "bufferGetCallee n ?m = Some ((ab_buff (slots ?m ! i))\<lparr>buf_size := n\<rparr>,
      (mark i True (m_currBuffs ?m + 1) ?m)\<lparr>m_highWater := hw\<rparr>)"
    using granted(1) by blast
  have "buf_addr (ab_buff (slots ?m ! i)) \<noteq> 0" by (rule granted_shows(2) [OF ok granted(4,5)])
  moreover have "n \<le> length (buf_memory (ab_buff (slots ?m ! i)))"
    using ok granted(4,5) by (simp add: pool_ok_def slot_ok_def)
  ultimately show thesis using that [OF hw] granted(2) by simp
qed

lemma data_overwritten: "length bs = buf_size b \<Longrightarrow> buf_data (b\<lparr>buf_memory := bs @ rest\<rparr>) = bs"
  by (simp add: buf_data_def)

text \<open>A message that fits becomes one space packet in the queue of the aggregator.\<close>

lemma message_framed:
  assumes "pool_has_room w" "fits_packet (ctx_apid ctx) (buf_data b)" "length (buf_data b) = buf_size b"
  shows "\<exists>n packet m t. cq_dataOut packet_queue_ports b ctx (q, w) = ComQueue_dataReturnIn packet_queue_ports b ctx (q,
      w\<lparr>pk_trace := pk_trace w @ [Passed (ctx_comQueueIndex ctx) (ctx_apid ctx) (buf_data b)],
        pk_pool := m, pk_counts := t, pk_aggregator := ag_dataIn packet ctx (pk_aggregator w)\<rparr>) \<and>
    buf_data packet = space_packet (ctx_apid ctx) n (buf_data b) \<and> packet_fits packet"
proof -
  let ?w = "w\<lparr>pk_trace := pk_trace w @ [Passed (ctx_comQueueIndex ctx) (ctx_apid ctx) (buf_data b)]\<rparr>"
  have size: "6 + buf_size b \<le> AggregationSize" "0 < buf_size b" "drop_bit 11 (ctx_apid ctx) = 0"
    using assms(2,3) by (auto simp: fits_packet_def)
  obtain fb m where fb: "bufferGetCallee (6 + buf_size b) (pk_pool w) = Some (fb, m)" "buf_addr fb \<noteq> 0" "buf_size fb = 6 + buf_size b"
      "6 + buf_size b \<le> length (buf_memory fb)"
    using room_granted [OF assms(1) size(1)] by metis
  obtain n t es where count: "getApidSeqCountIn (ctx_apid ctx) 0 (pk_counts w) = (n, t, es)" by (metis prod_cases3)
  let ?p = "fb\<lparr>buf_memory := space_packet (ctx_apid ctx) n (buf_data b) @ drop (buf_size fb) (buf_memory fb)\<rparr>"
  have "SpacePacketFramer_dataIn packet_stage b ctx (q, ?w) = do {
      w \<leftarrow> sp_dataOut packet_stage ?p ctx (q, ?w\<lparr>pk_pool := m, pk_counts := t\<rparr>);
      sp_dataReturnOut packet_stage b ctx w
    }"
    using fb size assms(3) count
    by (intro framer_packet [where ?w1.0 = "(q, ?w\<lparr>pk_pool := m\<rparr>)"]) (simp_all add: packet_stage_def AggregationSize_def TmFrameFixedSize_def)
  then have "cq_dataOut packet_queue_ports b ctx (q, w) = ComQueue_dataReturnIn packet_queue_ports b ctx (q,
      w\<lparr>pk_trace := pk_trace w @ [Passed (ctx_comQueueIndex ctx) (ctx_apid ctx) (buf_data b)],
        pk_pool := m, pk_counts := t, pk_aggregator := ag_dataIn ?p ctx (pk_aggregator w)\<rparr>)"
    by simp
  moreover have data: "buf_data ?p = space_packet (ctx_apid ctx) n (buf_data b)"
    using fb(3) assms(3) by (intro data_overwritten) simp
  moreover have "packet_fits ?p"
    unfolding packet_fits_def data using fb size assms(3) by (simp add: isValid_def)
  ultimately show ?thesis by blast
qed

interpretation framing: queue_neighbours packet_queue_ports pk_trace pool_has_room fits_packet
proof
  fix w and q :: ComQueue and ctx :: FrameContext and b
  assume "pool_has_room w" "cq_buffer_state q = BUFFER_UNOWNED" "fits_packet (ctx_apid ctx) (buf_data b)"
    "length (buf_data b) = buf_size b" "ctx_comQueueIndex ctx < TOTAL_PORT_COUNT"
  with message_framed [of w ctx b q]
  show "\<exists>w'. cq_dataOut packet_queue_ports b ctx (q, w) = ComQueue_dataReturnIn packet_queue_ports b ctx (q, w') \<and>
      pk_trace w' = pk_trace w @ [Passed (ctx_comQueueIndex ctx) (ctx_apid ctx) (buf_data b)]"
    by fastforce
qed (simp_all add: packet_queue_ports_def file_ports_def)

section \<open>Histories from a configuration\<close>

lemma history_machine:
  assumes "queue_neighbours p tr ok fits" "valid_table L entries" "grants alloc address" "length garbage = TOTAL_PORT_COUNT"
    and "ComQueue_configure L entries allocationId alloc mem (ComQueue_new com_address com garbage) = Some q0" "tr w0 = []"
    and "queue_history p L tr ok fits (q0, w0) hs q w"
  shows "\<exists>s. line_run (depth_of entries) (priority_of entries) hs (first_lines entries) = (tr w, s) \<and>
    in_line L (depth_of entries) (priority_of entries) fits q s \<and> settled s \<and> list_all (call_ok L fits) hs \<and>
    good_statuses hs = passes (tr w) + (if idle s then 1 else 0) \<and> order_ok (priority_of entries) (first_lines entries)"
proof -
  have start: "in_line L (depth_of entries) (priority_of entries) fits q0 (first_lines entries)"
    using configured [OF assms(2-4), of allocationId mem com_address com fits] assms(5) by auto
  have "settled (first_lines entries)" "\<not> idle (first_lines entries)" by (simp_all add: settled_def first_lines_def)
  from queue_neighbours.history_follows [OF assms(1,7) start this assms(6)] start show ?thesis by (auto simp: in_line_def)
qed

section \<open>A run on the bench\<close>

text \<open>The two classes as bytes: the positions and the memory of a packet; address and size of a buffer, whose bytes are in the memory.\<close>

definition bench_memory :: "nat \<Rightarrow> u8" where
  "bench_memory a = (if a = 101 then 3 else 0)"

definition bench_layout :: object_layout where
  "bench_layout = \<lparr>com_size = 528,
     com_object = \<lambda>c. of_nat (m_serLoc c) # of_nat (m_deserLoc c) # lb_mem c @ replicate 14 0,
     com_of = \<lambda>bs. \<lparr>lb_mem = take 512 (drop 2 bs), m_serLoc = unat (bs ! 0), m_deserLoc = unat (bs ! 1)\<rparr>,
     buffer_size = 32,
     buffer_object = \<lambda>b. of_nat (buf_addr b) # of_nat (buf_size b) # replicate 30 0,
     buffer_of = \<lambda>bs. \<lparr>buf_addr = unat (bs ! 0), buf_size = unat (bs ! 1), buf_context = 0xFFFFFFFF,
       buf_memory = map bench_memory [unat (bs ! 0)..<unat (bs ! 0) + unat (bs ! 1)]\<rparr>\<rparr>"

definition bench_event :: LinearBuffer where
  "bench_event = \<lparr>lb_mem = [0, 2] @ replicate 510 7, m_serLoc = 20, m_deserLoc = 0\<rparr>"

definition bench_file :: Fw_Buffer where
  "bench_file = \<lparr>buf_addr = 100, buf_size = 10, buf_context = 0xFFFFFFFF, buf_memory = map bench_memory [100..<110]\<rparr>"

definition bench_packet_world :: packet_world where
  "bench_packet_world = \<lparr>pk_pool = comms_manager, pk_counts = ApidManager_new,
     pk_aggregator = ComAggregator_new 8192 (replicate 1009 0), pk_trace = []\<rparr>"

definition bench_queue :: ComQueue where
  "bench_queue = the (ComQueue_configure bench_layout comms_table 0 (\<lambda>n. (4096, n)) (\<lambda>_. 0)
     (ComQueue_new 64 bench_event (metadata bench_layout 0 comms_table)))"

definition bench_calls :: "queue_call list" where
  "bench_calls = [Com_packet 0 bench_event, File_buffer 0 bench_file, Link_status True, Link_status True]"

lemma port_counts: "TOTAL_PORT_COUNT = 3" "COM_PORT_COUNT = 2" "BUFFER_PORT_COUNT = 1"
  by (simp_all add: TOTAL_PORT_COUNT_def COM_PORT_COUNT_def BUFFER_PORT_COUNT_def)

lemma bench_configured:
  "grants (\<lambda>n. (4096, n)) 4096" "length (metadata bench_layout 0 comms_table) = TOTAL_PORT_COUNT" "valid_table bench_layout comms_table"
  "ComQueue_configure bench_layout comms_table 0 (\<lambda>n. (4096, n)) (\<lambda>_. 0)
     (ComQueue_new 64 bench_event (metadata bench_layout 0 comms_table)) = Some bench_queue"
proof -
  show grants: "grants (\<lambda>n. (4096, n)) 4096" "length (metadata bench_layout 0 comms_table) = TOTAL_PORT_COUNT"
    "valid_table bench_layout comms_table"
    by (simp_all add: grants_def metadata_nth(1) comms_table_entries port_counts)
       (rule comms_table_valid [unfolded comms_table_entries]; simp add: bench_layout_def)
  show "ComQueue_configure bench_layout comms_table 0 (\<lambda>n. (4096, n)) (\<lambda>_. 0)
     (ComQueue_new 64 bench_event (metadata bench_layout 0 comms_table)) = Some bench_queue"
    using configured [OF grants(3,1,2), of 0 "\<lambda>_. 0" 64 bench_event "\<lambda>_ _. True"] by (auto simp: bench_queue_def)
qed

lemma bench_room: "pool_has_room (w\<lparr>pk_pool := comms_manager\<rparr>)"
proof -
  have "length (map ab_size (slots comms_manager)) = 50" "map ab_size (slots comms_manager) ! 0 = 2048"
    unfolding comms_manager_setup(4) by (simp_all add: nth_append)
  then have first: "0 < length (slots comms_manager)" "ab_size (slots comms_manager ! 0) = 2048" by simp_all
  moreover from first(1) have "\<not> ab_allocated (slots comms_manager ! 0)"
    using comms_manager_setup(3) by (auto simp: lent_def)
  ultimately show ?thesis
    using comms_manager_setup(2) nth_mem [of 0 "slots comms_manager"]
    by (auto simp: pool_has_room_def AggregationSize_def TmFrameFixedSize_def intro!: bexI [of _ "slots comms_manager ! 0"])
qed

lemma bench_messages:
  "acceptable bench_layout fits_packet 0 (Packet bench_event)" "acceptable bench_layout fits_packet 2 (File_data bench_file)"
  by (simp_all add: acceptable_def well_formed_def recoverable_def bench_layout_def bench_event_def bench_file_def fits_packet_def
      message_data_def descriptor_def descriptor_at_def buf_data_def isValid_def port_counts AggregationSize_def TmFrameFixedSize_def
      bench_memory_def upt_rec nth_append)

lemma bench_table [simp]:
  "depth_of comms_table 0 = 200" "depth_of comms_table (Suc 0) = 500" "depth_of comms_table 2 = 100"
  "priority_of comms_table 0 = 0" "priority_of comms_table (Suc 0) = 2" "priority_of comms_table 2 = 1"
  by (simp_all add: depth_of_def priority_of_def comms_table_entries)

lemma bench_lines: "first_lines comms_table = \<lparr>lines = [[], [], []], order = [0, 2, 1], idle = False\<rparr>"
proof -
  have "[0..<TOTAL_PORT_COUNT] = [0, 1, 2]" by (simp add: port_counts upt_rec)
  moreover have "replicate TOTAL_PORT_COUNT [] = [[], [], []]" by (simp add: port_counts numeral_3_eq_3)
  ultimately show ?thesis by (simp add: first_lines_def)
qed

lemma bench_queue_grows:
  assumes "queue_history packet_queue_ports bench_layout pk_trace pool_has_room fits_packet (bench_queue, bench_packet_world) hs q w"
    and "call_ok bench_layout fits_packet c"
    and "status_owed c hs (fst (line_run (depth_of comms_table) (priority_of comms_table) hs (first_lines comms_table)))"
  shows "\<exists>q' w'. queue_history packet_queue_ports bench_layout pk_trace pool_has_room fits_packet (bench_queue, bench_packet_world) (hs @ [c]) q' w'"
proof -
  let ?w = "w\<lparr>pk_pool := comms_manager\<rparr>"
  have moved: "queue_history packet_queue_ports bench_layout pk_trace pool_has_room fits_packet (bench_queue, bench_packet_world) hs q ?w"
    by (rule queue_history.others [OF assms(1)]) simp
  obtain s where s: "line_run (depth_of comms_table) (priority_of comms_table) hs (first_lines comms_table) = (pk_trace ?w, s)"
      "in_line bench_layout (depth_of comms_table) (priority_of comms_table) fits_packet q s" "settled s"
      "good_statuses hs = passes (pk_trace ?w) + (if idle s then 1 else 0)"
    using history_machine [OF framing.queue_neighbours_axioms bench_configured(3,1,2,4) _ moved] by (auto simp: bench_packet_world_def)
  have owed: "status_owed c hs (pk_trace ?w)" using assms(3) s(1) by simp
  then have "\<not> idle s" if "c = Link_status b" for b using that s(4) by (simp add: status_owed_def split: if_splits)
  with framing.call_steps [OF bench_room s(2,3) assms(2)] obtain q' w' where
    "ComQueue_call packet_queue_ports bench_layout c (q, ?w) = Some (q', w')" by blast
  from queue_history.call [OF moved bench_room assms(2) owed this] show ?thesis by blast
qed

lemma bench_run:
  "line_run (depth_of comms_table) (priority_of comms_table) (take 0 bench_calls) (first_lines comms_table) = ([], \<lparr>lines = [[], [], []], order = [0, 2, 1], idle = False\<rparr>)"
  "line_run (depth_of comms_table) (priority_of comms_table) (take 1 bench_calls) (first_lines comms_table) =
    ([], \<lparr>lines = [[Packet bench_event], [], []], order = [0, 2, 1], idle = False\<rparr>)"
  "line_run (depth_of comms_table) (priority_of comms_table) (take 2 bench_calls) (first_lines comms_table) =
    ([], \<lparr>lines = [[Packet bench_event], [], [File_data bench_file]], order = [0, 2, 1], idle = False\<rparr>)"
  "line_run (depth_of comms_table) (priority_of comms_table) (take 3 bench_calls) (first_lines comms_table) =
    ([pass 0 (Packet bench_event)], \<lparr>lines = [[], [], [File_data bench_file]], order = [0, 2, 1], idle = False\<rparr>)"
  "line_run (depth_of comms_table) (priority_of comms_table) (take 4 bench_calls) (first_lines comms_table) =
    ([pass 0 (Packet bench_event), pass 2 (File_data bench_file), Back bench_file], \<lparr>lines = [[], [], []], order = [0, 2, 1], idle = False\<rparr>)"
  by (simp_all add: bench_calls_def bench_lines arrive_def serve_def arrange_def give_back_def port_counts del: add_2_eq_Suc')

lemma bench_queue_history:
  "\<exists>q w. queue_history packet_queue_ports bench_layout pk_trace pool_has_room fits_packet (bench_queue, bench_packet_world) bench_calls q w"
proof -
  let ?H = "\<lambda>k. \<exists>q w. queue_history packet_queue_ports bench_layout pk_trace pool_has_room fits_packet (bench_queue, bench_packet_world)
    (take k bench_calls) q w"
  have grow: "?H (Suc k)" if "?H k" "k < length bench_calls" "call_ok bench_layout fits_packet (bench_calls ! k)"
    "status_owed (bench_calls ! k) (take k bench_calls)
      (fst (line_run (depth_of comms_table) (priority_of comms_table) (take k bench_calls) (first_lines comms_table)))" for k
    using bench_queue_grows [of "take k bench_calls" _ _ "bench_calls ! k"] that by (auto simp: take_Suc_conv_app_nth)
  have "?H 0" using queue_history.start by (metis take0)
  then have "?H (Suc 0)"
    by (rule grow) (simp_all add: bench_calls_def bench_messages port_counts status_owed_def)
  then have "?H (Suc (Suc 0))"
    by (rule grow) (simp_all add: bench_calls_def bench_messages port_counts status_owed_def del: add_2_eq_Suc')
  then have "?H (Suc (Suc (Suc 0)))"
    by (rule grow) (simp_all add: bench_calls_def status_owed_def good_statuses_def)
  then have "?H (Suc (Suc (Suc (Suc 0))))"
    by (rule grow) (use bench_run(4) in \<open>simp_all add: bench_calls_def status_owed_def good_statuses_def numeral_3_eq_3\<close>)
  then show ?thesis by (simp add: bench_calls_def)
qed

section \<open>Properties\<close>

text \<open>
  C4: The queue of outgoing messages does what the machine with one line per port does, with any neighbours that keep the contract: in every
  history from a valid configuration on, what was passed on and given back is exactly the output of the machine, the queues hold the
  messages of its lines, the component is ready exactly when the machine is idle, and no legal call fails an assertion.
\<close>

theorem com_queue_serves:
  assumes "queue_neighbours p tr ok fits" "valid_table L entries" "grants alloc address" "length garbage = TOTAL_PORT_COUNT"
    and "ComQueue_configure L entries allocationId alloc mem (ComQueue_new com_address com garbage) = Some q0" "tr w0 = []"
    and "queue_history p L tr ok fits (q0, w0) hs q w"
  shows "\<exists>s. line_run (depth_of entries) (priority_of entries) hs (first_lines entries) = (tr w, s) \<and>
    (\<forall>i < TOTAL_PORT_COUNT. messages (m_queues q ! i) = map (represent L) (lines s ! i)) \<and> (cq_state q = READY) = idle s \<and>
    (\<forall>c. ok w \<longrightarrow> call_ok L fits c \<longrightarrow> status_owed c hs (tr w) \<longrightarrow> ComQueue_call p L c (q, w) \<noteq> None)"
proof -
  obtain s where s: "line_run (depth_of entries) (priority_of entries) hs (first_lines entries) = (tr w, s)"
      "in_line L (depth_of entries) (priority_of entries) fits q s" "settled s"
      "good_statuses hs = passes (tr w) + (if idle s then 1 else 0)"
    using history_machine [OF assms] by blast
  have "ComQueue_call p L c (q, w) \<noteq> None" if "ok w" "call_ok L fits c" "status_owed c hs (tr w)" for c
    using queue_neighbours.call_steps [OF assms(1) that(1) s(2,3) that(2)] that(3) s(4) by (fastforce simp: status_owed_def)
  with s show ?thesis by (intro exI [of _ s]) (auto simp: in_line_def queue_fits_def)
qed

theorem com_queue_serves_witness:
  "\<exists>q w. queue_history packet_queue_ports bench_layout pk_trace pool_has_room fits_packet (bench_queue, bench_packet_world) bench_calls q w \<and>
     pk_trace w = [pass 0 (Packet bench_event), pass 2 (File_data bench_file), Back bench_file] \<and> cq_state q = WAITING"
proof -
  obtain q w where h: "queue_history packet_queue_ports bench_layout pk_trace pool_has_room fits_packet (bench_queue, bench_packet_world)
      bench_calls q w" using bench_queue_history by blast
  have "take 4 bench_calls = bench_calls" by (simp add: bench_calls_def)
  with com_queue_serves [OF framing.queue_neighbours_axioms bench_configured(3,1,2,4) _ h] bench_run(5)
  have "pk_trace w = [pass 0 (Packet bench_event), pass 2 (File_data bench_file), Back bench_file]" "cq_state q \<noteq> READY"
    by (auto simp: bench_packet_world_def)
  with h show ?thesis by (metis SendState.exhaust)
qed

text \<open>
  C5: First in, first out on every port, and nothing gets lost: what was passed on from a line, followed by what waits there, is what the
  line admitted, in order, where a message is admitted when fewer than the configured number wait. Nothing waits while the link is
  free. Of all file buffers handed in, every one has been given back once or waits once.
\<close>

theorem messages_in_order:
  assumes "queue_neighbours p tr ok fits" "valid_table L entries" "grants alloc address" "length garbage = TOTAL_PORT_COUNT"
    and "ComQueue_configure L entries allocationId alloc mem (ComQueue_new com_address com garbage) = Some q0" "tr w0 = []"
    and "queue_history p L tr ok fits (q0, w0) hs q w"
  shows "\<exists>waiting. length waiting = TOTAL_PORT_COUNT \<and>
    (\<forall>i < TOTAL_PORT_COUNT. messages (m_queues q ! i) = map (represent L) (waiting ! i) \<and>
      passed i (tr w) @ map datum (waiting ! i) =
        map datum (admitted (depth_of entries) (priority_of entries) i hs (first_lines entries)) \<and>
      (cq_state q = READY \<longrightarrow> waiting ! i = [])) \<and>
    mset (backs (tr w)) + mset (concat (map file_buffers waiting)) = mset (concat (map handed_in hs))"
proof -
  obtain s where s: "line_run (depth_of entries) (priority_of entries) hs (first_lines entries) = (tr w, s)"
      "in_line L (depth_of entries) (priority_of entries) fits q s" "settled s" "list_all (call_ok L fits) hs"
      "order_ok (priority_of entries) (first_lines entries)"
    using history_machine [OF assms] by blast
  have "passed i (tr w) @ map datum (lines s ! i) = map datum (admitted (depth_of entries) (priority_of entries) i hs (first_lines entries))"
    if "i < TOTAL_PORT_COUNT" for i
    using run_fifo [OF s(5) that s(4,1)] that by (simp add: first_lines_def)
  moreover have "mset (backs (tr w)) + kept s = mset (concat (map handed_in hs))"
    using run_kept [OF s(5,4,1)] by (simp add: first_lines_def kept_def)
  ultimately show ?thesis
    using s(2,3) by (intro exI [of _ "lines s"]) (auto simp: in_line_def queue_fits_def settled_def order_ok_def kept_def)
qed

theorem messages_in_order_witness:
  "\<exists>q w waiting. queue_history packet_queue_ports bench_layout pk_trace pool_has_room fits_packet (bench_queue, bench_packet_world)
       bench_calls q w \<and>
     passed 0 (pk_trace w) @ map datum (waiting ! 0) = [datum (Packet bench_event)] \<and>
     passed 2 (pk_trace w) @ map datum (waiting ! 2) = [datum (File_data bench_file)] \<and>
     mset (backs (pk_trace w)) + mset (concat (map file_buffers waiting)) = {#bench_file#}"
proof -
  obtain q w where h: "queue_history packet_queue_ports bench_layout pk_trace pool_has_room fits_packet (bench_queue, bench_packet_world)
      bench_calls q w" using bench_queue_history by blast
  obtain waiting where waiting: "\<forall>i < TOTAL_PORT_COUNT. passed i (pk_trace w) @ map datum (waiting ! i) =
        map datum (admitted (depth_of comms_table) (priority_of comms_table) i bench_calls (first_lines comms_table))"
      "mset (backs (pk_trace w)) + mset (concat (map file_buffers waiting)) = mset (concat (map handed_in bench_calls))"
    using messages_in_order [OF framing.queue_neighbours_axioms bench_configured(3,1,2,4) _ h] by (auto simp: bench_packet_world_def)
  have "admitted (depth_of comms_table) (priority_of comms_table) 0 bench_calls (first_lines comms_table) = [Packet bench_event]"
    "admitted (depth_of comms_table) (priority_of comms_table) 2 bench_calls (first_lines comms_table) = [File_data bench_file]"
    "concat (map handed_in bench_calls) = [bench_file]"
    by (simp_all add: bench_calls_def bench_lines arrive_def serve_def arrange_def give_back_def port_counts del: add_2_eq_Suc')
  with waiting(2) waiting(1) [rule_format, of 0] waiting(1) [rule_format, of 2] h show ?thesis
    by (intro exI [of _ q] exI [of _ w] exI [of _ waiting]) (simp add: port_counts)
qed

text \<open>
  C6: Priority and turns: after a call that passes on a message of port \<open>i\<close>, no message of a port with a smaller priority value waits;
  and while messages of port \<open>j\<close> wait and none of them is passed on, any other port with the same priority value gets at most one
  message through.
\<close>

theorem priority_and_turns:
  assumes "queue_neighbours p tr ok fits" "valid_table L entries" "grants alloc address" "length garbage = TOTAL_PORT_COUNT"
    and "ComQueue_configure L entries allocationId alloc mem (ComQueue_new com_address com garbage) = Some q0" "tr w0 = []"
    and "queue_history p L tr ok fits (q0, w0) (hs @ cs) q w"
    and "line_run (depth_of entries) (priority_of entries) hs (first_lines entries) = (out, s)" "j < TOTAL_PORT_COUNT"
  shows "\<exists>out'. tr w = out @ out' \<and>
    (length cs = 1 \<and> passed i out' \<noteq> [] \<and> priority_of entries j < priority_of entries i \<longrightarrow> messages (m_queues q ! j) = []) \<and>
    (i \<noteq> j \<and> priority_of entries i = priority_of entries j \<and> lines s ! j \<noteq> [] \<and> passed j out' = [] \<longrightarrow> length (passed i out') \<le> 1)"
proof -
  let ?d = "depth_of entries" and ?pr = "priority_of entries"
  obtain s' where s': "line_run ?d ?pr (hs @ cs) (first_lines entries) = (tr w, s')" "in_line L ?d ?pr fits q s'"
      "list_all (call_ok L fits) (hs @ cs)" "order_ok ?pr (first_lines entries)"
    using history_machine [OF assms(1-7)] by blast
  then obtain out' where out': "line_run ?d ?pr cs s = (out', s')" "tr w = out @ out'"
    using assms(8) by (auto simp: line_run_append split: prod.splits)
  have ok: "order_ok ?pr s" by (rule run_order [OF s'(4) assms(8)])
  have "messages (m_queues q ! j) = []" if one: "length cs = 1" "passed i out' \<noteq> []" "?pr j < ?pr i"
  proof -
    obtain c where c: "cs = [c]" using one(1) by (auto simp: length_Suc_conv)
    with out'(1) have "line_step ?d ?pr c s = (out', s')" by (auto split: prod.splits)
    then have "lines s' ! j = []"
      using step_priority [OF ok, of L fits c i ?d j] s'(3) c one assms(9) by simp
    then show ?thesis using s'(2) assms(9) by (simp add: in_line_def queue_fits_def)
  qed
  moreover have "length (passed i out') \<le> 1" if "i \<noteq> j" "?pr i = ?pr j" "lines s ! j \<noteq> []" "passed j out' = []"
    using run_turns [OF that(1) assms(9) that(2) ok _ that(3) out'(1) that(4), of L fits] s'(3) by (simp split: if_splits)
  ultimately show ?thesis using out'(2) by blast
qed

theorem priority_and_turns_witness:
  "\<exists>q w. queue_history packet_queue_ports bench_layout pk_trace pool_has_room fits_packet (bench_queue, bench_packet_world) bench_calls q w \<and>
     passed 2 (pk_trace w) = [datum (File_data bench_file)] \<and> messages (m_queues q ! 0) = []"
proof -
  obtain q w where h: "queue_history packet_queue_ports bench_layout pk_trace pool_has_room fits_packet (bench_queue, bench_packet_world)
      bench_calls q w" using bench_queue_history by blast
  have calls: "take 3 bench_calls @ [Link_status True] = bench_calls" "take 4 bench_calls = bench_calls" by (simp_all add: bench_calls_def)
  from h have split: "queue_history packet_queue_ports bench_layout pk_trace pool_has_room fits_packet (bench_queue, bench_packet_world)
      (take 3 bench_calls @ [Link_status True]) q w" unfolding calls(1) .
  have empty: "pk_trace bench_packet_world = []" by (simp add: bench_packet_world_def)
  have trace: "pk_trace w = [pass 0 (Packet bench_event), pass 2 (File_data bench_file), Back bench_file]"
    using history_machine [OF framing.queue_neighbours_axioms bench_configured(3,1,2,4) empty h] bench_run(5) unfolding calls(2) by auto
  obtain out' where out': "pk_trace w = [pass 0 (Packet bench_event)] @ out'"
      "length [Link_status True] = 1 \<and> passed 2 out' \<noteq> [] \<and> priority_of comms_table 0 < priority_of comms_table 2 \<longrightarrow>
        messages (m_queues q ! 0) = []"
    using priority_and_turns [OF framing.queue_neighbours_axioms bench_configured(3,1,2,4) empty split bench_run(4), of 0 2]
      port_counts(1) by (metis zero_less_numeral)
  have "out' = [pass 2 (File_data bench_file), Back bench_file]" using out'(1) trace by simp
  then have sent: "passed 2 out' = [datum (File_data bench_file)]" by (simp add: pass_def datum_def)
  then have "messages (m_queues q ! 0) = []" using out'(2) by simp
  moreover have "passed 2 (pk_trace w) = [datum (File_data bench_file)]" unfolding out'(1) using sent by (simp add: pass_def)
  ultimately show ?thesis using h by blast
qed

end
