(* ===== verification/Time_On_Air.thy ===== *)
theory Time_On_Air
  imports SX128x_Api "HOL-Library.Monad_Syntax"
begin

text \<open>
  The functions of the driver (\<^verbatim>\<open>SX128x.cpp\<close>) that compute with doubles: the time on air of a packet, and the conversions at the
  end of the ranging and frequency measurements.

  A double is a real number, and every operation rounds its exact result by the parameter \<open>rnd\<close>. Integers and the constants with
  few digits convert exactly. \<open>None\<close> is a result that C++ leaves undefined: a quotient that is no number, or a value that does not
  fit the integer it is stored in.
\<close>

section \<open>Arithmetic\<close>

definition fdiv :: "(real \<Rightarrow> real) \<Rightarrow> real \<Rightarrow> real \<Rightarrow> real option" where
  "fdiv rnd x y = (if y = 0 then None else Some (rnd (x / y)))"

definition to_uint16 :: "int \<Rightarrow> u16 option" where
  "to_uint16 n = (if 0 \<le> n \<and> n < 2 ^ 16 then Some (of_int n) else None)"

text \<open>
  What IEEE 754 promises of double precision, rounding to nearest: a relative error of at most \<open>2\<^sup>-\<^sup>5\<^sup>3\<close> above the smallest normal
  number, and the number itself when it has a double, as quarters of moderate integers have.
\<close>

definition ieee_double :: "(real \<Rightarrow> real) \<Rightarrow> bool" where
  "ieee_double rnd \<longleftrightarrow> (\<forall>x. 1 / 2 ^ 1022 \<le> \<bar>x\<bar> \<longrightarrow> \<bar>rnd x - x\<bar> \<le> \<bar>x\<bar> / 2 ^ 53) \<and>
     (\<forall>n. \<bar>n\<bar> \<le> 2 ^ 50 \<longrightarrow> rnd (of_int n / 4) = of_int n / 4)"

section \<open>Time on air\<close>

definition lora_bandwidth_khz :: "RadioLoRaBandwidths_t \<Rightarrow> int" where
  "lora_bandwidth_khz bw = (case bw of LORA_BW_0200 \<Rightarrow> 203 | LORA_BW_0400 \<Rightarrow> 406 | LORA_BW_0800 \<Rightarrow> 812
     | LORA_BW_1600 \<Rightarrow> 1625 | LORA_BW_RAW _ \<Rightarrow> 0)"

text \<open>The symbols of a packet: \<open>bits\<close> and \<open>divisor\<close> are those of one of the three cases, \<open>tail\<close> the symbols behind the preamble.\<close>

definition lora_symbols :: "(real \<Rightarrow> real) \<Rightarrow> int \<Rightarrow> int \<Rightarrow> int \<Rightarrow> int \<Rightarrow> real \<Rightarrow> real option" where
  "lora_symbols rnd bits divisor CR preamble tail = do {
     let nPayload = max (of_int bits) 0;
     nPayload \<leftarrow> fdiv rnd nPayload (of_int divisor);
     let nPayload = of_int \<lceil>nPayload\<rceil>;
     let nPayload = rnd (nPayload * of_int (CR + 4));
     Some (rnd (rnd (rnd (nPayload + of_int preamble) + tail) + 8))
   }"

definition time_on_air_lora :: "(real \<Rightarrow> real) \<Rightarrow> LoRaModulation \<Rightarrow> LoRaPacket \<Rightarrow> u16 option" where
  "time_on_air_lora rnd modparams pktparams = do {
     let SF = uint (drop_bit 4 (RadioLoRaSpreadingFactors_value (mod_LoRa_SpreadingFactor modparams)));
     let crc = (if pkt_LoRa_Crc pktparams = LORA_CRC_ON then 16 else 0);
     let header = (if pkt_LoRa_HeaderType pktparams = LORA_PACKET_VARIABLE_LENGTH then 20 else 0);
     let payload = 8 * uint (pkt_LoRa_PayloadLength pktparams);
     let CR = uint (RadioLoRaCodingRates_value (mod_LoRa_CodingRate modparams));
     let preamble = uint (pkt_LoRa_PreambleLength pktparams);
     let bw = lora_bandwidth_khz (mod_LoRa_Bandwidth modparams);
     nPayload \<leftarrow> (if SF < 7 then lora_symbols rnd (payload + crc - 4 * SF + header) (4 * SF) CR preamble 6.25
       else if SF > 10 then lora_symbols rnd (payload + crc - 4 * SF + 8 + header) (4 * (SF - 2)) CR preamble 4.25
       else lora_symbols rnd (payload + crc - 4 * SF + 8 + header) (4 * SF) CR preamble 4.25);
     ts \<leftarrow> fdiv rnd (of_int (2 ^ nat SF)) (of_int bw);
     let tPayload = rnd (nPayload * ts);
     to_uint16 \<lceil>tPayload\<rceil>
   }"

definition flrc_rate :: "RadioFlrcBitrates_t \<Rightarrow> int option" where
  "flrc_rate r = (case r of FLRC_BR_1_300_BW_1_2 \<Rightarrow> Some 1300 | FLRC_BR_1_040_BW_1_2 \<Rightarrow> Some 1040 | FLRC_BR_0_650_BW_0_6 \<Rightarrow> Some 650
     | FLRC_BR_0_520_BW_0_6 \<Rightarrow> Some 520 | FLRC_BR_0_325_BW_0_3 \<Rightarrow> Some 325 | FLRC_BR_0_260_BW_0_3 \<Rightarrow> Some 260 | FLRC_BR_RAW _ \<Rightarrow> None)"

text \<open>The division by the bit rate, and the rounding up: an unknown rate leaves \<^verbatim>\<open>tPayload\<close> at zero.\<close>

definition over_rate :: "(real \<Rightarrow> real) \<Rightarrow> int \<Rightarrow> int option \<Rightarrow> u16 option" where
  "over_rate rnd BitCount rate = do {
     tPayload \<leftarrow> (case rate of None \<Rightarrow> Some 0 | Some r \<Rightarrow> fdiv rnd (of_int BitCount) (of_int r));
     to_uint16 \<lceil>tPayload\<rceil>
   }"

definition time_on_air_flrc :: "(real \<Rightarrow> real) \<Rightarrow> FlrcModulation \<Rightarrow> FlrcPacket \<Rightarrow> u16 option" where
  "time_on_air_flrc rnd modparams pktparams = do {
     let BitCount = 4 + uint (drop_bit 4 (RadioPreambleLengths_value (pkt_Flrc_PreambleLength pktparams))) * 4;
     let BitCount = BitCount + 32;
     let BitCount = BitCount + 21;
     let BitCount = BitCount + (if pkt_Flrc_HeaderType pktparams = RADIO_PACKET_VARIABLE_LENGTH then 16 else 0);
     let crc = uint (drop_bit 4 (RadioCrcTypes_value (pkt_Flrc_CrcLength pktparams))) * 8;
     let payload = uint (pkt_Flrc_PayloadLength pktparams) * 8;
     BitCountCoded \<leftarrow> (case mod_Flrc_CodingRate modparams of
         FLRC_CR_3_4 \<Rightarrow> map_option floor (fdiv rnd (rnd (of_int (6 + crc + payload) * 4)) 3)
       | FLRC_CR_1_0 \<Rightarrow> Some (crc + payload)
       | FLRC_CR_1_2 \<Rightarrow> Some (push_bit 1 (6 + crc + payload)));
     over_rate rnd (BitCount + BitCountCoded) (flrc_rate (mod_Flrc_BitrateBandwidth modparams))
   }"

definition gfsk_rate :: "RadioGfskBleBitrates_t \<Rightarrow> int option" where
  "gfsk_rate r = (case r of GFSK_BLE_BR_2_000_BW_2_4 \<Rightarrow> Some 2000 | GFSK_BLE_BR_1_600_BW_2_4 \<Rightarrow> Some 1600
     | GFSK_BLE_BR_1_000_BW_2_4 \<Rightarrow> Some 1000 | GFSK_BLE_BR_1_000_BW_1_2 \<Rightarrow> Some 1000
     | GFSK_BLE_BR_0_800_BW_2_4 \<Rightarrow> Some 800 | GFSK_BLE_BR_0_800_BW_1_2 \<Rightarrow> Some 800
     | GFSK_BLE_BR_0_500_BW_1_2 \<Rightarrow> Some 500 | GFSK_BLE_BR_0_500_BW_0_6 \<Rightarrow> Some 500
     | GFSK_BLE_BR_0_400_BW_1_2 \<Rightarrow> Some 400 | GFSK_BLE_BR_0_400_BW_0_6 \<Rightarrow> Some 400
     | GFSK_BLE_BR_0_250_BW_0_6 \<Rightarrow> Some 250 | GFSK_BLE_BR_0_250_BW_0_3 \<Rightarrow> Some 250
     | GFSK_BLE_BR_0_125_BW_0_3 \<Rightarrow> Some 125 | GFSK_BLE_BR_RAW _ \<Rightarrow> None)"

definition time_on_air_gfsk :: "(real \<Rightarrow> real) \<Rightarrow> GfskModulation \<Rightarrow> GfskPacket \<Rightarrow> u16 option" where
  "time_on_air_gfsk rnd modparams pktparams = (
     let BitCount = 4 + uint (drop_bit 4 (RadioPreambleLengths_value (pkt_Gfsk_PreambleLength pktparams))) * 4;
         BitCount = BitCount + 8 + uint (drop_bit 1 (RadioSyncWordLengths_value (pkt_Gfsk_SyncWordLength pktparams))) * 8;
         BitCount = BitCount + (if pkt_Gfsk_HeaderType pktparams = RADIO_PACKET_VARIABLE_LENGTH then 8 else 0);
         BitCount = BitCount + uint (pkt_Gfsk_PayloadLength pktparams) * 8;
         BitCount = BitCount + uint (drop_bit 4 (RadioCrcTypes_value (pkt_Gfsk_CrcLength pktparams))) * 8
     in over_rate rnd BitCount (gfsk_rate (mod_Gfsk_BitrateBandwidth modparams)))"

definition GetTimeOnAir :: "(real \<Rightarrow> real) \<Rightarrow> ModulationParams_t \<Rightarrow> PacketParams_t \<Rightarrow> u16 option" where
  "GetTimeOnAir rnd modparams pktparams =
     (if mod_PacketType modparams = PACKET_TYPE_LORA then time_on_air_lora rnd (mod_LoRa modparams) (pkt_LoRa pktparams)
      else if mod_PacketType modparams = PACKET_TYPE_FLRC then time_on_air_flrc rnd (mod_Flrc modparams) (pkt_Flrc pktparams)
      else if mod_PacketType modparams = PACKET_TYPE_GFSK then time_on_air_gfsk rnd (mod_Gfsk modparams) (pkt_Gfsk pktparams)
      else Some 2000)"

text \<open>The member function without arguments.\<close>

definition GetTimeOnAir_current :: "(real \<Rightarrow> real) \<Rightarrow> ('cb, 'e, u16 option) drv" where
  "GetTimeOnAir_current rnd = bindM (get_field CurrentModParams) (\<lambda>m. bindM (get_field CurrentPacketParams) (\<lambda>p.
     retM (GetTimeOnAir rnd m p)))"

section \<open>Measurements\<close>

definition ranging_distance :: "(real \<Rightarrow> real) \<Rightarrow> ranging_result \<Rightarrow> real option" where
  "ranging_distance rnd r = (case r of Ranging_none \<Rightarrow> Some 0
     | Ranging_raw c w \<Rightarrow> do { q \<leftarrow> fdiv rnd (of_int c) (of_int w); Some (rnd (q * 36621.09375)) }
     | Ranging_filtered v \<Rightarrow> fdiv rnd (rnd (of_int (uint v) * 20)) 100)"

definition frequency_error_hz :: "(real \<Rightarrow> real) \<Rightarrow> (int \<times> int) option \<Rightarrow> real option" where
  "frequency_error_hz rnd r = (case r of None \<Rightarrow> Some 0
     | Some (c, w) \<Rightarrow> do { q \<leftarrow> fdiv rnd 1600 (of_int w); fdiv rnd (rnd (rnd 1.55 * of_int c)) (rnd (q * 1000)) })"

section \<open>Exactness\<close>

text \<open>The reference: quarter symbols in integer arithmetic, and the time as a fraction of milliseconds.\<close>

definition ceil_div :: "int \<Rightarrow> int \<Rightarrow> int" where
  "ceil_div a b = - (- a div b)"

definition lora_quarters :: "int \<Rightarrow> int \<Rightarrow> int \<Rightarrow> int \<Rightarrow> int \<Rightarrow> int" where
  "lora_quarters bits divisor CR preamble quarters = 4 * (ceil_div (max bits 0) divisor * (CR + 4) + preamble + 8) + quarters"

lemma ceil_div_real: "ceil_div a b = \<lceil>real_of_int a / real_of_int b\<rceil>"
  by (simp add: ceil_div_def ceiling_def flip: floor_divide_of_int_eq [where ?'a = real])

lemma ieee_exact: "ieee_double rnd \<Longrightarrow> \<bar>n\<bar> \<le> 2 ^ 50 \<Longrightarrow> rnd (of_int n / 4) = of_int n / 4"
  by (simp add: ieee_double_def)

lemma ieee_int: "ieee_double rnd \<Longrightarrow> \<bar>n\<bar> \<le> 2 ^ 48 \<Longrightarrow> rnd (of_int n) = of_int n"
  using ieee_exact [of rnd "4 * n"] by simp

lemma ieee_near:
  assumes "ieee_double rnd" "x = 0 \<or> 1 / 2 ^ 100 \<le> \<bar>x\<bar>"
  shows "\<bar>rnd x - x\<bar> \<le> \<bar>x\<bar> / 2 ^ 53"
proof (cases "x = 0")
  case True
  with ieee_int [OF assms(1), of 0] show ?thesis by simp
next
  case False
  have "1 / 2 ^ 1022 \<le> (1 :: real) / 2 ^ 100"
    by (intro divide_left_mono power_increasing) simp_all
  with False assms have "1 / 2 ^ 1022 \<le> \<bar>x\<bar>" by linarith
  with assms(1) show ?thesis by (simp add: ieee_double_def)
qed

text \<open>A value within less than \<open>1 / b\<close> of \<open>a / b\<close>, rounded up.\<close>

lemma ceiling_near:
  fixes x :: real
  assumes "0 < b" "\<bar>x - real_of_int a / real_of_int b\<bar> < 1 / real_of_int b"
  shows "\<lceil>x\<rceil> = ceil_div a b \<or> b dvd a \<and> \<lceil>x\<rceil> = ceil_div a b + 1"
proof -
  let ?q = "ceil_div a b" and ?r = "- a mod b"
  have a: "a = ?q * b - ?r" using div_mult_mod_eq [of "- a" b] unfolding ceil_div_def mult_minus_left by linarith
  have r: "0 \<le> ?r" "?r \<le> b - 1" using assms(1) pos_mod_bound [of b "- a"] by simp_all
  have eq: "real_of_int a / real_of_int b = real_of_int ?q - real_of_int ?r / real_of_int b"
    using assms(1) by (subst a) (simp add: field_simps)
  show ?thesis
  proof (cases "?r = 0")
    case True
    then have "b dvd a" using mod_eq_0_iff_dvd [of "- a" b] by simp
    moreover have "1 / real_of_int b \<le> 1" using assms(1) by simp
    then have "real_of_int ?q - 1 < x" "x < real_of_int ?q + 1" using assms(2) eq True by simp_all
    then have "\<lceil>x\<rceil> = ?q \<or> \<lceil>x\<rceil> = ?q + 1" by linarith
    ultimately show ?thesis by blast
  next
    case False
    have "1 \<le> ?r" using False r(1) by linarith
    then have "1 / real_of_int b \<le> real_of_int ?r / real_of_int b"
      using assms(1) by (intro divide_right_mono) simp_all
    moreover have "real_of_int ?r / real_of_int b + 1 / real_of_int b \<le> 1"
    proof -
      have "real_of_int ?r + 1 \<le> real_of_int b" using r(2) by linarith
      then show ?thesis using assms(1) by (simp add: field_simps)
    qed
    ultimately have "real_of_int ?q - 1 < x" "x \<le> real_of_int ?q"
      using assms(2) unfolding eq by linarith+
    then show ?thesis by linarith
  qed
qed


text \<open>A quotient of integers of moderate size: exact when it is an integer, and close enough otherwise.\<close>

lemma quotient_exact:
  assumes "ieee_double rnd" "0 < b" "b \<le> 2 ^ 40" "0 \<le> a" "a \<le> 2 ^ 40"
  shows "\<lceil>rnd (of_int a / of_int b)\<rceil> = ceil_div a b" "\<lfloor>rnd (of_int a / of_int b)\<rfloor> = a div b"
    "\<bar>rnd (of_int a / of_int b) - of_int a / of_int b\<bar> \<le> of_int a / of_int b / 2 ^ 53"
proof -
  let ?x = "real_of_int a / real_of_int b"
  have large: "?x = 0 \<or> 1 / 2 ^ 100 \<le> \<bar>?x\<bar>"
  proof (cases "a = 0")
    case False
    then have "1 / 2 ^ 40 \<le> ?x" using assms(2-5) by (intro frac_le) simp_all
    moreover have "1 / 2 ^ 100 \<le> (1 :: real) / 2 ^ 40" by (intro divide_left_mono power_increasing) simp_all
    ultimately show ?thesis by linarith
  qed simp
  from ieee_near [OF assms(1) large] show near: "\<bar>rnd ?x - ?x\<bar> \<le> ?x / 2 ^ 53"
    using assms(2,4) by simp
  have "real_of_int a < 2 ^ 53" using assms(5) by simp
  then have "real_of_int a / 2 ^ 53 / real_of_int b < 1 / real_of_int b"
    using assms(2) by (intro divide_strict_right_mono) simp_all
  then have close: "\<bar>rnd ?x - ?x\<bar> < 1 / real_of_int b" using near by (simp add: field_simps)
  have exact: "rnd ?x = ?x" if "b dvd a"
  proof -
    have "?x = of_int (a div b)" using that assms(2) by (simp add: real_of_int_div)
    moreover have "a div b \<le> a" using zdiv_mono2 [of a 1 b] assms(2,4) by simp
    ultimately show ?thesis
      using ieee_int [OF assms(1), of "a div b"] assms(2,4,5) by (simp add: pos_imp_zdiv_nonneg_iff)
  qed
  show "\<lceil>rnd ?x\<rceil> = ceil_div a b"
    using ceiling_near [OF assms(2) close] exact by (auto simp: ceil_div_real)
  show "\<lfloor>rnd ?x\<rfloor> = a div b"
  proof -
    obtain n d where nd: "a = int n" "b = int d" using assms(2,4) by (metis zero_le_imp_eq_int less_imp_le)
    then show ?thesis
      using floor_unique_near [of d "rnd ?x" n] assms(2) close exact
      by (simp add: zdiv_int [symmetric] zmod_int [symmetric] dvd_eq_mod_eq_0)
  qed
qed


text \<open>The symbols of a LoRa packet are exact.\<close>

lemma quarter_sums:
  assumes "ieee_double rnd" "0 \<le> s" "s \<le> 2 ^ 21" "0 \<le> p" "p \<le> 2 ^ 8" "0 \<le> q" "q \<le> 2 ^ 10"
  shows "rnd (of_int s) = of_int s" "rnd (of_int s + of_int p) = of_int (s + p)"
    "rnd (of_int (s + p) + of_int q / 4) = of_int (4 * (s + p) + q) / 4"
    "rnd (of_int (4 * (s + p) + q) / 4 + 8) = of_int (4 * (s + p + 8) + q) / 4"
proof -
  show "rnd (of_int s) = of_int s" "rnd (of_int s + of_int p) = of_int (s + p)"
    using ieee_int [OF assms(1), of s] ieee_int [OF assms(1), of "s + p"] assms(2-5) by simp_all
  have sums: "of_int (s + p) + of_int q / 4 = real_of_int (4 * (s + p) + q) / 4"
    "real_of_int (4 * (s + p) + q) / 4 + 8 = real_of_int (4 * (s + p + 8) + q) / 4"
    by simp_all
  show "rnd (of_int (s + p) + of_int q / 4) = of_int (4 * (s + p) + q) / 4"
    "rnd (of_int (4 * (s + p) + q) / 4 + 8) = of_int (4 * (s + p + 8) + q) / 4"
    unfolding sums using assms(2-7) by (intro ieee_exact [OF assms(1)], simp)+
qed

lemma lora_symbols_exact:
  assumes "ieee_double rnd" "0 < divisor" "divisor \<le> 2 ^ 10" "bits \<le> 2 ^ 12" "0 \<le> CR" "CR \<le> 2 ^ 8" "0 \<le> preamble" "preamble \<le> 2 ^ 8"
    "0 \<le> quarters" "quarters \<le> 2 ^ 10"
  shows "lora_symbols rnd bits divisor CR preamble (of_int quarters / 4) = Some (of_int (lora_quarters bits divisor CR preamble quarters) / 4)"
    "0 \<le> lora_quarters bits divisor CR preamble quarters" "lora_quarters bits divisor CR preamble quarters \<le> 2 ^ 24"
proof -
  let ?n = "ceil_div (max bits 0) divisor"
  have n: "0 \<le> ?n" "?n \<le> 2 ^ 12"
  proof -
    have "real_of_int (max bits 0) / real_of_int divisor \<le> 2 ^ 12"
      using assms(2,4) by (simp add: field_simps)
    moreover have "0 \<le> real_of_int (max bits 0) / real_of_int divisor" using assms(2) by simp
    moreover from calculation(1) have "\<lceil>real_of_int (max bits 0) / real_of_int divisor\<rceil> \<le> 2 ^ 12"
      by (intro ceiling_le) simp
    ultimately show "0 \<le> ?n" "?n \<le> 2 ^ 12" unfolding ceil_div_real by linarith+
  qed
  let ?s = "?n * (CR + 4)"
  have "?s \<le> 2 ^ 12 * (2 ^ 8 + 4)" using n assms(5,6) by (intro mult_mono) simp_all
  moreover have "0 \<le> ?s" using n assms(5) by (intro mult_nonneg_nonneg) simp_all
  ultimately have s: "0 \<le> ?s" "?s \<le> 2 ^ 21" by simp_all
  have mx: "max (real_of_int bits) 0 = real_of_int (max bits 0)" by (simp add: of_int_max)
  have ceil: "\<lceil>rnd (max (of_int bits) 0 / of_int divisor)\<rceil> = ?n"
    unfolding mx using quotient_exact(1) [of rnd divisor "max bits 0"] assms(1-4) by simp
  have steps: "rnd (of_int ?n * of_int (CR + 4)) = of_int ?s" "rnd (of_int ?s + of_int preamble) = of_int (?s + preamble)"
    "rnd (of_int (?s + preamble) + of_int quarters / 4) = of_int (4 * (?s + preamble) + quarters) / 4"
    "rnd (of_int (4 * (?s + preamble) + quarters) / 4 + 8) = of_int (4 * (?s + preamble + 8) + quarters) / 4"
    using quarter_sums [OF assms(1) s assms(7-10)] by (simp_all only: of_int_mult)
  have "lora_symbols rnd bits divisor CR preamble (of_int quarters / 4) =
      Some (rnd (rnd (rnd (rnd (of_int ?n * of_int (CR + 4)) + of_int preamble) + of_int quarters / 4) + 8))"
    using assms(2) by (simp add: lora_symbols_def fdiv_def ceil Let_def)
  also have "\<dots> = Some (of_int (4 * (?s + preamble + 8) + quarters) / 4)" unfolding steps ..
  finally show "lora_symbols rnd bits divisor CR preamble (of_int quarters / 4) =
      Some (of_int (lora_quarters bits divisor CR preamble quarters) / 4)"
    by (simp only: lora_quarters_def)
  show "0 \<le> lora_quarters bits divisor CR preamble quarters" "lora_quarters bits divisor CR preamble quarters \<le> 2 ^ 24"
    using s assms(7-10) by (simp_all add: lora_quarters_def)
qed


text \<open>The product of the exact number of symbols and the rounded symbol time, rounded.\<close>

lemma symbol_time:
  assumes "ieee_double rnd" "0 < bw" "bw \<le> 2 ^ 12" "0 \<le> q" "q \<le> 2 ^ 24" "0 \<le> p" "p \<le> 2 ^ 12"
  shows "\<bar>rnd (of_int q / 4 * rnd (of_int p / of_int bw)) - of_int (q * p) / of_int (4 * bw)\<bar> < 1 / of_int (4 * bw)"
proof -
  let ?t = "real_of_int p / real_of_int bw" and ?n = "real_of_int q / 4"
  have t: "\<bar>rnd ?t - ?t\<bar> \<le> ?t / 2 ^ 53"
    using quotient_exact(3) [of rnd bw p] assms by simp
  let ?e = "?n * ?t" and ?y = "?n * rnd ?t"
  have e: "?e = of_int (q * p) / of_int (4 * bw)" by simp
  have n: "0 \<le> ?n" and e0: "0 \<le> ?e" using assms(2,4,6) by simp_all
  have "\<bar>?y - ?e\<bar> = ?n * \<bar>rnd ?t - ?t\<bar>" unfolding right_diff_distrib [symmetric] abs_mult using n by (simp only: abs_of_nonneg)
  also have "\<dots> \<le> ?n * (?t / 2 ^ 53)" using t n by (rule mult_left_mono)
  finally have y: "\<bar>?y - ?e\<bar> \<le> ?e / 2 ^ 53" by simp
  have "?y = 0 \<or> 1 / 2 ^ 100 \<le> \<bar>?y\<bar>"
  proof (cases "q * p = 0")
    case True
    then have zero: "?e = 0" by auto
    from y have "?y = 0" unfolding zero by simp
    then show ?thesis by blast
  next
    case False
    then have "1 \<le> q * p" using assms(4,6) by (metis mult_nonneg_nonneg int_one_le_iff_zero_less order_le_less)
    then have one: "1 \<le> real_of_int (q * p)" using of_int_le_iff [of 1 "q * p", where ?'a = real] by simp
    have bw: "0 < real_of_int (4 * bw)" "real_of_int (4 * bw) \<le> 2 ^ 14" using assms(2,3) by simp_all
    have "1 / 2 ^ 14 \<le> ?e" unfolding e by (rule frac_le [OF _ one bw]) (use one in linarith)
    moreover have "?e - ?e / 2 ^ 53 \<le> ?y" using y by linarith
    moreover have "?e / 2 ^ 53 \<le> ?e / 2" using e0 by simp
    ultimately have "1 / 2 ^ 15 \<le> ?y" by simp
    moreover have "1 / 2 ^ 100 \<le> (1 :: real) / 2 ^ 15" by (intro divide_left_mono power_increasing) simp_all
    ultimately show ?thesis by linarith
  qed
  from ieee_near [OF assms(1) this] have r: "\<bar>rnd ?y - ?y\<bar> \<le> \<bar>?y\<bar> / 2 ^ 53" .
  have "\<bar>c - a\<bar> \<le> 3 * a / 2 ^ 53" if "\<bar>b - a\<bar> \<le> a / 2 ^ 53" "\<bar>c - b\<bar> \<le> \<bar>b\<bar> / 2 ^ 53" "0 \<le> a" for a b c :: real
  proof -
    have "a / 2 ^ 53 \<le> a" using that(3) by simp
    then have "\<bar>b\<bar> \<le> 2 * a" using that(1,3) by linarith
    then have "\<bar>b\<bar> / 2 ^ 53 \<le> 2 * a / 2 ^ 53" by (rule divide_right_mono) simp
    with that(1,2) have "\<bar>c - a\<bar> \<le> a / 2 ^ 53 + 2 * a / 2 ^ 53" by linarith
    then show ?thesis by simp
  qed
  from this [OF y r e0] have "\<bar>rnd ?y - ?e\<bar> \<le> 3 * ?e / 2 ^ 53" .
  moreover have "3 * ?e / 2 ^ 53 < 1 / of_int (4 * bw)"
  proof -
    have "q * p \<le> 2 ^ 24 * 2 ^ 12" using assms(4-7) by (intro mult_mono) simp_all
    then have "3 * real_of_int (q * p) / 2 ^ 53 < 1" using of_int_le_iff [of "q * p" "2 ^ 36", where ?'a = real] by simp
    then have "3 * real_of_int (q * p) / 2 ^ 53 / of_int (4 * bw) < 1 / of_int (4 * bw)"
      using assms(2) by (intro divide_strict_right_mono) simp_all
    then show ?thesis unfolding e by simp
  qed
  ultimately show ?thesis unfolding e by linarith
qed


section \<open>Properties\<close>

text \<open>The exact time of a packet as a fraction of milliseconds; the quotient by the bit rate of the code is that by bits per millisecond.\<close>

definition lora_fraction :: "LoRaModulation \<Rightarrow> LoRaPacket \<Rightarrow> int \<times> int" where
  "lora_fraction m p =
     (let SF = uint (drop_bit 4 (RadioLoRaSpreadingFactors_value (mod_LoRa_SpreadingFactor m)));
          bits = 8 * uint (pkt_LoRa_PayloadLength p) + (if pkt_LoRa_Crc p = LORA_CRC_ON then 16 else 0) - 4 * SF
            + (if pkt_LoRa_HeaderType p = LORA_PACKET_VARIABLE_LENGTH then 20 else 0);
          CR = uint (RadioLoRaCodingRates_value (mod_LoRa_CodingRate m));
          q = (if SF < 7 then lora_quarters bits (4 * SF) CR (uint (pkt_LoRa_PreambleLength p)) 25
               else if SF > 10 then lora_quarters (bits + 8) (4 * (SF - 2)) CR (uint (pkt_LoRa_PreambleLength p)) 17
               else lora_quarters (bits + 8) (4 * SF) CR (uint (pkt_LoRa_PreambleLength p)) 17)
      in (q * 2 ^ nat SF, 4 * lora_bandwidth_khz (mod_LoRa_Bandwidth m)))"

definition lora_known :: "LoRaModulation \<Rightarrow> bool" where
  "lora_known m \<longleftrightarrow> (case mod_LoRa_SpreadingFactor m of LORA_SF_RAW _ \<Rightarrow> False | _ \<Rightarrow> True) \<and>
     (case mod_LoRa_Bandwidth m of LORA_BW_RAW _ \<Rightarrow> False | _ \<Rightarrow> True) \<and> (case mod_LoRa_CodingRate m of LORA_CR_RAW _ \<Rightarrow> False | _ \<Rightarrow> True)"

lemma lora_known_values:
  assumes "lora_known m"
  obtains "uint (drop_bit 4 (RadioLoRaSpreadingFactors_value (mod_LoRa_SpreadingFactor m))) \<in> {5..12}"
    "lora_bandwidth_khz (mod_LoRa_Bandwidth m) \<in> {203..1625}" "uint (RadioLoRaCodingRates_value (mod_LoRa_CodingRate m)) \<in> {1..7}"
  using assms unfolding lora_known_def lora_bandwidth_khz_def
  by (cases "mod_LoRa_SpreadingFactor m"; cases "mod_LoRa_Bandwidth m"; cases "mod_LoRa_CodingRate m") simp_all

definition flrc_bits :: "FlrcModulation \<Rightarrow> FlrcPacket \<Rightarrow> int" where
  "flrc_bits m p =
     (let crc = uint (drop_bit 4 (RadioCrcTypes_value (pkt_Flrc_CrcLength p))) * 8; payload = uint (pkt_Flrc_PayloadLength p) * 8
      in 57 + uint (drop_bit 4 (RadioPreambleLengths_value (pkt_Flrc_PreambleLength p))) * 4 +
         (if pkt_Flrc_HeaderType p = RADIO_PACKET_VARIABLE_LENGTH then 16 else 0) +
         (case mod_Flrc_CodingRate m of FLRC_CR_3_4 \<Rightarrow> (6 + crc + payload) * 4 div 3 | FLRC_CR_1_0 \<Rightarrow> crc + payload
            | FLRC_CR_1_2 \<Rightarrow> (6 + crc + payload) * 2))"

definition gfsk_bits :: "GfskPacket \<Rightarrow> int" where
  "gfsk_bits p = 12 + uint (drop_bit 4 (RadioPreambleLengths_value (pkt_Gfsk_PreambleLength p))) * 4 +
     uint (drop_bit 1 (RadioSyncWordLengths_value (pkt_Gfsk_SyncWordLength p))) * 8 +
     (if pkt_Gfsk_HeaderType p = RADIO_PACKET_VARIABLE_LENGTH then 8 else 0) + uint (pkt_Gfsk_PayloadLength p) * 8 +
     uint (drop_bit 4 (RadioCrcTypes_value (pkt_Gfsk_CrcLength p))) * 8"

text \<open>The parameters for which the code has a rate; \<open>d = 0\<close> otherwise.\<close>

definition air_fraction :: "ModulationParams_t \<Rightarrow> PacketParams_t \<Rightarrow> int \<times> int" where
  "air_fraction m p =
     (if mod_PacketType m = PACKET_TYPE_LORA \<and> lora_known (mod_LoRa m) then lora_fraction (mod_LoRa m) (pkt_LoRa p)
      else if mod_PacketType m = PACKET_TYPE_FLRC
        then (flrc_bits (mod_Flrc m) (pkt_Flrc p), case_option 0 id (flrc_rate (mod_Flrc_BitrateBandwidth (mod_Flrc m))))
      else if mod_PacketType m = PACKET_TYPE_GFSK
        then (gfsk_bits (pkt_Gfsk p), case_option 0 id (gfsk_rate (mod_Gfsk_BitrateBandwidth (mod_Gfsk m))))
      else (0, 0))"

lemma byte_bounds: "0 \<le> uint (b :: u8)" "uint b \<le> 255"
  using uint_lt2p [of b] by simp_all

lemma enum_bounds:
  "0 \<le> uint (drop_bit 4 (RadioCrcTypes_value c))" "uint (drop_bit 4 (RadioCrcTypes_value c)) \<le> 3"
  "0 \<le> uint (drop_bit 4 (RadioPreambleLengths_value l))" "uint (drop_bit 4 (RadioPreambleLengths_value l)) \<le> 7"
  "0 \<le> uint (drop_bit 1 (RadioSyncWordLengths_value s))" "uint (drop_bit 1 (RadioSyncWordLengths_value s)) \<le> 4"
  by (cases c; simp; fail | cases l; simp; fail | cases s; simp; fail)+

lemma to_uint16_fits: "0 \<le> n \<Longrightarrow> n \<le> 65535 \<Longrightarrow> \<exists>r. to_uint16 n = Some r \<and> uint r = n"
  by (simp add: to_uint16_def uint_word_of_int_eq take_bit_int_eq_self)

lemma over_rate_exact:
  assumes "ieee_double rnd" "0 \<le> n" "n \<le> 5000" "rate = Some d" "125 \<le> d" "d \<le> 2000"
  shows "\<exists>r. over_rate rnd n rate = Some r \<and> uint r = ceil_div n d"
proof -
  have c: "\<lceil>rnd (of_int n / of_int d)\<rceil> = ceil_div n d"
    using quotient_exact(1) [OF assms(1), of d n] assms by simp
  have "ceil_div n d \<le> 5000" "0 \<le> ceil_div n d"
    using assms(2,3,5) unfolding ceil_div_real by (simp_all add: ceiling_le_iff field_simps)
  moreover have "over_rate rnd n rate = to_uint16 (ceil_div n d)"
    using assms(4,5) by (simp add: over_rate_def fdiv_def c)
  ultimately show ?thesis using to_uint16_fits [of "ceil_div n d"] by simp
qed

lemma rate_bounds:
  "flrc_rate f = Some d \<Longrightarrow> 125 \<le> d \<and> d \<le> 2000" "gfsk_rate g = Some d \<Longrightarrow> 125 \<le> d \<and> d \<le> 2000"
  by (cases f; simp add: flrc_rate_def) (cases g; simp add: gfsk_rate_def)

lemma flrc_exact:
  assumes "ieee_double rnd" "flrc_rate (mod_Flrc_BitrateBandwidth m) = Some d"
  shows "\<exists>r. time_on_air_flrc rnd m p = Some r \<and> uint r = ceil_div (flrc_bits m p) d"
proof -
  let ?c = "uint (drop_bit 4 (RadioCrcTypes_value (pkt_Flrc_CrcLength p))) * 8" and ?p = "uint (pkt_Flrc_PayloadLength p) * 8"
  have b: "0 \<le> ?c" "?c \<le> 24" "0 \<le> ?p" "?p \<le> 2040"
    using byte_bounds [of "pkt_Flrc_PayloadLength p"] enum_bounds(1,2) [of "pkt_Flrc_CrcLength p"] by simp_all
  have "rnd (of_int (6 + ?c + ?p) * 4) = of_int ((6 + ?c + ?p) * 4)"
    using ieee_int [OF assms(1), of "(6 + ?c + ?p) * 4"] b by simp
  moreover have "\<lfloor>rnd (of_int ((6 + ?c + ?p) * 4) / of_int 3)\<rfloor> = (6 + ?c + ?p) * 4 div 3"
    using b by (intro quotient_exact(2) [OF assms(1)]) simp_all
  ultimately have three: "map_option floor (fdiv rnd (rnd (of_int (6 + ?c + ?p) * 4)) 3) = Some ((6 + ?c + ?p) * 4 div 3)"
    by (simp add: fdiv_def)
  have same: "time_on_air_flrc rnd m p = over_rate rnd (flrc_bits m p) (flrc_rate (mod_Flrc_BitrateBandwidth m))"
    by (cases "mod_Flrc_CodingRate m"; simp only: time_on_air_flrc_def Let_def three RadioFlrcCodingRates_t.case;
        simp add: flrc_bits_def Let_def push_bit_eq_mult algebra_simps)
  have "0 \<le> flrc_bits m p" "flrc_bits m p \<le> 5000"
    using b enum_bounds(3,4) [of "pkt_Flrc_PreambleLength p"]
    by (cases "mod_Flrc_CodingRate m"; simp add: flrc_bits_def Let_def; linarith)+
  from over_rate_exact [OF assms(1) this assms(2)] rate_bounds(1) [OF assms(2)] show ?thesis
    unfolding same by simp
qed

lemma gfsk_exact:
  assumes "ieee_double rnd" "gfsk_rate (mod_Gfsk_BitrateBandwidth m) = Some d"
  shows "\<exists>r. time_on_air_gfsk rnd m p = Some r \<and> uint r = ceil_div (gfsk_bits p) d"
proof -
  have "0 \<le> gfsk_bits p" "gfsk_bits p \<le> 5000"
    using byte_bounds [of "pkt_Gfsk_PayloadLength p"] enum_bounds(1,2) [of "pkt_Gfsk_CrcLength p"]
      enum_bounds(3,4) [of "pkt_Gfsk_PreambleLength p"] enum_bounds(5,6) [of "pkt_Gfsk_SyncWordLength p"]
    by (simp_all add: gfsk_bits_def)
  from over_rate_exact [OF assms(1) this assms(2)] rate_bounds(2) [OF assms(2)] show ?thesis
    by (simp add: time_on_air_gfsk_def gfsk_bits_def Let_def)
qed


lemma lora_quarters_bound:
  assumes "b \<le> 2100" "20 \<le> dv" "CR \<in> {1..7}" "p \<le> 255" "quarters \<le> 25"
  shows "lora_quarters b dv CR p quarters \<le> 6000"
proof -
  have "real_of_int (max b 0) / real_of_int dv \<le> 2100 / 20" using assms(1,2) by (intro frac_le) simp_all
  then have n: "ceil_div (max b 0) dv \<le> 105" unfolding ceil_div_real by (simp add: ceiling_le_iff)
  have "ceil_div (max b 0) dv * (CR + 4) \<le> 105 * 11"
  proof (cases "0 \<le> ceil_div (max b 0) dv")
    case True
    with n assms(3) show ?thesis by (intro mult_mono) simp_all
  next
    case False
    then have "ceil_div (max b 0) dv * (CR + 4) \<le> 0" using assms(3) by (intro mult_nonpos_nonneg) simp_all
    then show ?thesis by simp
  qed
  with assms(4,5) show ?thesis by (simp add: lora_quarters_def)
qed

lemma ceil_div_range:
  assumes "a \<le> 6000 * 2 ^ 12" "812 \<le> d" "0 \<le> a"
  shows "0 \<le> ceil_div a d" "ceil_div a d \<le> 65000"
proof -
  have "real_of_int a / real_of_int d \<le> 6000 * 2 ^ 12 / 812" using assms by (intro frac_le) simp_all
  also have "\<dots> \<le> (65000 :: real)" by simp
  finally have "real_of_int a / real_of_int d \<le> 65000" .
  then show "ceil_div a d \<le> 65000" unfolding ceil_div_real by (simp add: ceiling_le_iff)
  have "0 \<le> real_of_int a / real_of_int d" using assms(2,3) by simp
  then show "0 \<le> ceil_div a d" unfolding ceil_div_real by linarith
qed

lemma rounded_result:
  assumes "c = e \<or> P \<and> c = e + 1" "0 \<le> e" "e \<le> 65000"
  shows "\<exists>r. to_uint16 c = Some r \<and> (uint r = e \<or> P \<and> uint r = e + 1)"
proof -
  have "0 \<le> c" "c \<le> 65535" using assms by auto
  from to_uint16_fits [OF this] assms(1) show ?thesis by auto
qed

lemma lora_exact:
  assumes "ieee_double rnd" "lora_known m"
  shows "\<exists>r n d. time_on_air_lora rnd m p = Some r \<and> lora_fraction m p = (n, d) \<and>
    (uint r = ceil_div n d \<or> d dvd n \<and> uint r = ceil_div n d + 1)"
proof -
  let ?SF = "uint (drop_bit 4 (RadioLoRaSpreadingFactors_value (mod_LoRa_SpreadingFactor m)))"
  let ?CR = "uint (RadioLoRaCodingRates_value (mod_LoRa_CodingRate m))" and ?bw = "lora_bandwidth_khz (mod_LoRa_Bandwidth m)"
  let ?pre = "uint (pkt_LoRa_PreambleLength p)"
  let ?bits = "8 * uint (pkt_LoRa_PayloadLength p) + (if pkt_LoRa_Crc p = LORA_CRC_ON then 16 else 0) - 4 * ?SF
     + (if pkt_LoRa_HeaderType p = LORA_PACKET_VARIABLE_LENGTH then 20 else 0)"
  have known: "?SF \<in> {5..12}" "?bw \<in> {203..1625}" "?CR \<in> {1..7}" using lora_known_values [OF assms(2)] by blast+
  have bits: "?bits \<le> 2090"
    using byte_bounds [of "pkt_LoRa_PayloadLength p"] known(1) by simp
  obtain b dv quarters where sym: "b \<le> 2100" "20 \<le> dv" "dv \<le> 48" "0 \<le> quarters" "quarters \<le> 25"
    and code: "(if ?SF < 7 then lora_symbols rnd ?bits (4 * ?SF) ?CR ?pre 6.25
       else if ?SF > 10 then lora_symbols rnd (8 * uint (pkt_LoRa_PayloadLength p) + (if pkt_LoRa_Crc p = LORA_CRC_ON then 16 else 0) - 4 * ?SF + 8
     + (if pkt_LoRa_HeaderType p = LORA_PACKET_VARIABLE_LENGTH then 20 else 0)) (4 * (?SF - 2)) ?CR ?pre 4.25
       else lora_symbols rnd (8 * uint (pkt_LoRa_PayloadLength p) + (if pkt_LoRa_Crc p = LORA_CRC_ON then 16 else 0) - 4 * ?SF + 8
     + (if pkt_LoRa_HeaderType p = LORA_PACKET_VARIABLE_LENGTH then 20 else 0)) (4 * ?SF) ?CR ?pre 4.25) =
       lora_symbols rnd b dv ?CR ?pre (of_int quarters / 4)"
    and ref: "lora_fraction m p = (lora_quarters b dv ?CR ?pre quarters * 2 ^ nat ?SF, 4 * ?bw)"
  proof -
    consider "?SF < 7" | "?SF > 10" | "7 \<le> ?SF" "?SF \<le> 10" by linarith
    then show thesis
    proof cases
      case 1
      show thesis by (rule that [of ?bits "4 * ?SF" 25]) (use 1 known bits in \<open>simp_all add: lora_fraction_def Let_def\<close>)
    next
      case 2
      show thesis by (rule that [of "?bits + 8" "4 * (?SF - 2)" 17])
          (use 2 known bits in \<open>simp_all add: lora_fraction_def Let_def algebra_simps\<close>)
    next
      case 3
      show thesis by (rule that [of "?bits + 8" "4 * ?SF" 17])
          (use 3 known bits in \<open>simp_all add: lora_fraction_def Let_def algebra_simps\<close>)
    qed
  qed
  let ?q = "lora_quarters b dv ?CR ?pre quarters"
  have q: "lora_symbols rnd b dv ?CR ?pre (of_int quarters / 4) = Some (of_int ?q / 4)" "0 \<le> ?q" "?q \<le> 2 ^ 24"
    using lora_symbols_exact [OF assms(1), of dv b ?CR ?pre quarters] sym known byte_bounds [of "pkt_LoRa_PreambleLength p"] by simp_all
  let ?x = "rnd (of_int ?q / 4 * rnd (of_int (2 ^ nat ?SF) / of_int ?bw))"
  have sf: "(2 :: int) ^ nat ?SF \<le> 2 ^ 12"
    using nat_mono [of ?SF 12] known(1) by (intro power_increasing) simp_all
  have result: "time_on_air_lora rnd m p = to_uint16 \<lceil>?x\<rceil>"
    using known unfolding time_on_air_lora_def Let_def code q(1) by (simp add: fdiv_def)
  have "\<bar>?x - of_int (?q * 2 ^ nat ?SF) / of_int (4 * ?bw)\<bar> < 1 / of_int (4 * ?bw)"
    using symbol_time [OF assms(1), of ?bw ?q "2 ^ nat ?SF"] known q sf by simp
  then have near: "\<lceil>?x\<rceil> = ceil_div (?q * 2 ^ nat ?SF) (4 * ?bw) \<or>
      4 * ?bw dvd ?q * 2 ^ nat ?SF \<and> \<lceil>?x\<rceil> = ceil_div (?q * 2 ^ nat ?SF) (4 * ?bw) + 1"
    using ceiling_near [of "4 * ?bw" ?x "?q * 2 ^ nat ?SF"] known by simp
  have range: "0 \<le> ceil_div (?q * 2 ^ nat ?SF) (4 * ?bw)" "ceil_div (?q * 2 ^ nat ?SF) (4 * ?bw) \<le> 65000"
  proof -
    have "?q \<le> 6000" using lora_quarters_bound [OF sym(1,2)] known sym(5) byte_bounds [of "pkt_LoRa_PreambleLength p"] by simp
    then have "?q * 2 ^ nat ?SF \<le> 6000 * 2 ^ 12" using q sf by (intro mult_mono) simp_all
    moreover have "812 \<le> 4 * ?bw" "0 \<le> ?q * 2 ^ nat ?SF" using known q by simp_all
    ultimately show "0 \<le> ceil_div (?q * 2 ^ nat ?SF) (4 * ?bw)" "ceil_div (?q * 2 ^ nat ?SF) (4 * ?bw) \<le> 65000"
      by (rule ceil_div_range)+
  qed
  from rounded_result [OF near range] show ?thesis
    unfolding result ref by blast
qed




section \<open>The accuracy of the measurements\<close>

text \<open>\<open>x\<close> is \<open>y\<close> up to \<open>k\<close> units of the relative rounding error.\<close>

definition near :: "real \<Rightarrow> real \<Rightarrow> real \<Rightarrow> bool" where
  "near k x y \<longleftrightarrow> \<bar>x - y\<bar> \<le> k * \<bar>y\<bar> / 2 ^ 53"

lemma near_exact: "0 \<le> k \<Longrightarrow> near k x x"
  by (simp add: near_def)

lemma near_times: "near k x y \<Longrightarrow> near k (x * c) (y * c)"
proof -
  assume "near k x y"
  then have "\<bar>x - y\<bar> * \<bar>c\<bar> \<le> k * \<bar>y\<bar> / 2 ^ 53 * \<bar>c\<bar>" unfolding near_def by (rule mult_right_mono) simp
  then show ?thesis by (simp add: near_def abs_mult left_diff_distrib [symmetric] mult.assoc)
qed

lemma near_size:
  assumes "near k x y" "0 \<le> k" "k \<le> 16"
  shows "\<bar>y\<bar> / 2 \<le> \<bar>x\<bar>" "\<bar>x\<bar> \<le> 2 * \<bar>y\<bar>"
proof -
  have "k * \<bar>y\<bar> / 2 ^ 53 \<le> 16 * \<bar>y\<bar> / 2 ^ 53" using assms(3) by (intro divide_right_mono mult_right_mono) simp_all
  also have "\<dots> \<le> \<bar>y\<bar> / 2" by simp
  finally show "\<bar>y\<bar> / 2 \<le> \<bar>x\<bar>" "\<bar>x\<bar> \<le> 2 * \<bar>y\<bar>" using assms(1) unfolding near_def by linarith+
qed

lemma near_rounded:
  assumes "ieee_double rnd" "near k x y" "0 \<le> k" "k \<le> 16" "y = 0 \<or> 1 / 2 ^ 90 \<le> \<bar>y\<bar>"
  shows "near (k + 2) (rnd x) y"
proof -
  have "x = 0 \<or> 1 / 2 ^ 100 \<le> \<bar>x\<bar>"
  proof (cases "y = 0")
    case True
    with assms(2) show ?thesis by (simp add: near_def)
  next
    case False
    then have "1 / 2 ^ 90 / 2 \<le> \<bar>y\<bar> / 2" using assms(5) by (intro divide_right_mono) simp_all
    then have "1 / 2 ^ 90 / 2 \<le> \<bar>x\<bar>" using near_size(1) [OF assms(2-4)] by (rule order_trans)
    then show ?thesis by simp
  qed
  from ieee_near [OF assms(1) this] have "\<bar>rnd x - x\<bar> \<le> \<bar>x\<bar> / 2 ^ 53" .
  also have "\<dots> \<le> 2 * \<bar>y\<bar> / 2 ^ 53" using near_size(2) [OF assms(2-4)] by (intro divide_right_mono) simp_all
  finally have "\<bar>rnd x - y\<bar> \<le> k * \<bar>y\<bar> / 2 ^ 53 + 2 * \<bar>y\<bar> / 2 ^ 53"
    using assms(2) unfolding near_def by linarith
  then show ?thesis unfolding near_def by (simp add: distrib_right add_divide_distrib)
qed

lemma near_quotient:
  assumes "near a x y" "near b x' y'" "0 \<le> a" "a \<le> 16" "0 \<le> b" "b \<le> 16" "y' \<noteq> 0"
  shows "near (2 * a + 2 * b) (x / x') (y / y')"
proof -
  have x': "\<bar>y'\<bar> / 2 \<le> \<bar>x'\<bar>" "x' \<noteq> 0" using near_size(1) [OF assms(2,5,6)] assms(7) by auto
  have "x / x' - y / y' = ((x - y) * y' - y * (x' - y')) / (x' * y')"
    using assms(7) x'(2) by (simp add: field_simps)
  then have "\<bar>x / x' - y / y'\<bar> = \<bar>(x - y) * y' - y * (x' - y')\<bar> / (\<bar>x'\<bar> * \<bar>y'\<bar>)"
    by (simp add: abs_mult)
  also have "\<dots> \<le> (a + b) * (\<bar>y\<bar> * \<bar>y'\<bar>) / 2 ^ 53 / (\<bar>x'\<bar> * \<bar>y'\<bar>)"
  proof (rule divide_right_mono)
    have "\<bar>x - y\<bar> * \<bar>y'\<bar> \<le> a * \<bar>y\<bar> / 2 ^ 53 * \<bar>y'\<bar>" "\<bar>y\<bar> * \<bar>x' - y'\<bar> \<le> \<bar>y\<bar> * (b * \<bar>y'\<bar> / 2 ^ 53)"
      by (rule mult_right_mono [OF assms(1) [unfolded near_def] abs_ge_zero], rule mult_left_mono [OF assms(2) [unfolded near_def] abs_ge_zero])
    moreover have "\<bar>(x - y) * y' - y * (x' - y')\<bar> \<le> \<bar>x - y\<bar> * \<bar>y'\<bar> + \<bar>y\<bar> * \<bar>x' - y'\<bar>"
      using abs_triangle_ineq4 [of "(x - y) * y'" "y * (x' - y')"] by (simp add: abs_mult)
    moreover have "(a + b) * (\<bar>y\<bar> * \<bar>y'\<bar>) / 2 ^ 53 = a * \<bar>y\<bar> / 2 ^ 53 * \<bar>y'\<bar> + \<bar>y\<bar> * (b * \<bar>y'\<bar> / 2 ^ 53)"
      by (simp add: field_simps)
    ultimately show "\<bar>(x - y) * y' - y * (x' - y')\<bar> \<le> (a + b) * (\<bar>y\<bar> * \<bar>y'\<bar>) / 2 ^ 53" by linarith
  qed simp
  also have "\<dots> = (a + b) * \<bar>y\<bar> / 2 ^ 53 / \<bar>x'\<bar>" using assms(7) by simp
  also have "\<dots> \<le> (a + b) * \<bar>y\<bar> / 2 ^ 53 / (\<bar>y'\<bar> / 2)"
    using x' assms(3,5,7) by (intro divide_left_mono mult_pos_pos) simp_all
  also have "\<dots> = (2 * a + 2 * b) * \<bar>y / y'\<bar> / 2 ^ 53" using assms(7) by (simp add: abs_divide field_simps)
  finally show ?thesis by (simp only: near_def)
qed

lemma near_close:
  assumes "near k x y" "k \<le> 32"
  shows "\<bar>x - y\<bar> \<le> \<bar>y\<bar> / 2 ^ 48"
proof -
  have "k * \<bar>y\<bar> / 2 ^ 53 \<le> 32 * \<bar>y\<bar> / 2 ^ 53" using assms(2) by (intro divide_right_mono mult_right_mono) simp_all
  also have "\<dots> = \<bar>y\<bar> / 2 ^ 48" by simp
  finally show ?thesis using assms(1) unfolding near_def by linarith
qed

definition exact_distance :: "ranging_result \<Rightarrow> real" where
  "exact_distance r = (case r of Ranging_none \<Rightarrow> 0 | Ranging_raw c w \<Rightarrow> of_int c * 150 / (2 ^ 12 * (of_int w / 10 ^ 6))
     | Ranging_filtered v \<Rightarrow> of_int (uint v) / 5)"

text \<open>
  The measurements come out accurate: with the bandwidths the driver knows and registers of 24 bits, the ranging distance and
  the frequency error that the double arithmetic computes differ from the formula of the data sheet by a relative error of at most
  \<open>2\<^sup>-\<^sup>4\<^sup>8\<close>; without a known bandwidth the ranging quotient is undefined.
\<close>

theorem measurements_accurate:
  assumes "ieee_double rnd" "w \<in> {203125, 406250, 812500, 1625000}" "\<bar>c\<bar> \<le> 2 ^ 24" "uint v < 2 ^ 24"
  shows "(\<exists>x. ranging_distance rnd (Ranging_raw c w) = Some x \<and> \<bar>x - exact_distance (Ranging_raw c w)\<bar> \<le> \<bar>exact_distance (Ranging_raw c w)\<bar> / 2 ^ 48) \<and>
    (\<exists>x. ranging_distance rnd (Ranging_filtered v) = Some x \<and> \<bar>x - of_int (uint v) / 5\<bar> \<le> of_int (uint v) / 5 / 2 ^ 48) \<and>
    (\<exists>x. frequency_error_hz rnd (Some (c, w)) = Some x \<and>
       \<bar>x - 1.55 * of_int c * of_int w / 1600000\<bar> \<le> \<bar>1.55 * of_int c * of_int w / 1600000\<bar> / 2 ^ 48) \<and>
    ranging_distance rnd (Ranging_raw c 0) = None"
proof (intro conjI)
  have w: "203125 \<le> real_of_int w" "real_of_int w \<le> 1625000" using assms(2) by auto
  have c: "of_int c = (0 :: real) \<or> 1 \<le> \<bar>real_of_int c\<bar>" "\<bar>real_of_int c\<bar> \<le> 2 ^ 24"
    using assms(3) by (auto simp flip: of_int_abs)
  have tiny: "1 / 2 ^ 90 \<le> (1 :: real) / 2 ^ 40" by (intro divide_left_mono power_increasing) simp_all
  have large: "y = 0 \<or> 1 / 2 ^ 90 \<le> \<bar>y\<bar>" if "y = 0 \<or> 1 / 2 ^ 40 \<le> \<bar>y\<bar>" for y :: real
    using that tiny by linarith
  let ?q = "real_of_int c / of_int w"
  have "?q = 0 \<or> 1 / 2 ^ 40 \<le> \<bar>?q\<bar>"
    using c w by (auto simp: abs_divide field_simps)
  from near_rounded [OF assms(1) near_exact _ _ large [OF this], of 0] have q: "near 2 (rnd ?q) ?q" by simp
  have "?q * 36621.09375 = 0 \<or> 1 / 2 ^ 40 \<le> \<bar>?q * 36621.09375\<bar>"
    using c w by (auto simp: abs_divide abs_mult field_simps)
  from near_rounded [OF assms(1) near_times [OF q] _ _ large [OF this]]
  have "near 4 (rnd (rnd ?q * 36621.09375)) (?q * 36621.09375)" by simp
  moreover have "?q * 36621.09375 = exact_distance (Ranging_raw c w)" by (simp add: exact_distance_def field_simps)
  moreover have "ranging_distance rnd (Ranging_raw c w) = Some (rnd (rnd ?q * 36621.09375))"
    using w by (simp add: ranging_distance_def fdiv_def)
  ultimately show "\<exists>x. ranging_distance rnd (Ranging_raw c w) = Some x \<and>
      \<bar>x - exact_distance (Ranging_raw c w)\<bar> \<le> \<bar>exact_distance (Ranging_raw c w)\<bar> / 2 ^ 48"
    using near_close by auto
  let ?n = "1.55 * real_of_int c" and ?d = "1600 / real_of_int w * 1000"
  have "near 2 (rnd 1.55) 1.55" using near_rounded [OF assms(1) near_exact, of 0 "1.55"] by simp
  from near_times [OF this] have "near 2 (rnd 1.55 * of_int c) ?n" .
  moreover have n: "?n = 0 \<or> 1 / 2 ^ 40 \<le> \<bar>?n\<bar>" "\<bar>?n\<bar> \<le> 2 ^ 25" using c by (auto simp: abs_mult)
  ultimately have num: "near 4 (rnd (rnd 1.55 * of_int c)) ?n"
    using near_rounded [OF assms(1) _ _ _ large [OF n(1)], of 2] by simp
  have d: "1 / 2 ^ 40 \<le> 1600 / real_of_int w" "1 / 2 ^ 40 \<le> ?d" "?d \<le> 2 ^ 4" using w by (simp_all add: field_simps)
  have "1600 / real_of_int w = 0 \<or> 1 / 2 ^ 40 \<le> \<bar>1600 / real_of_int w\<bar>" using d(1) by linarith
  from near_rounded [OF assms(1) near_exact _ _ large [OF this], of 0]
  have "near 2 (rnd (1600 / of_int w)) (1600 / of_int w)" by simp
  from near_times [OF this] have "near 2 (rnd (1600 / of_int w) * 1000) ?d" .
  moreover have "?d = 0 \<or> 1 / 2 ^ 40 \<le> \<bar>?d\<bar>" using d(2) by linarith
  ultimately have den: "near 4 (rnd (rnd (1600 / of_int w) * 1000)) ?d"
    using near_rounded [OF assms(1) _ _ _ large, of 2 "rnd (1600 / of_int w) * 1000" ?d] by (simp del: times_divide_eq_left)
  have "?d \<noteq> 0" using w by simp
  from near_quotient [OF num den _ _ _ _ this]
  have quot: "near 16 (rnd (rnd 1.55 * of_int c) / rnd (rnd (1600 / of_int w) * 1000)) (?n / ?d)" by simp
  have size: "?n / ?d = 0 \<or> 1 / 2 ^ 40 \<le> \<bar>?n / ?d\<bar>"
  proof (cases "real_of_int c = 0")
    case False
    then have "1 * 203125 \<le> \<bar>real_of_int c\<bar> * real_of_int w" using c(1) w(1) by (intro mult_mono) simp_all
    moreover have "\<bar>?n / ?d\<bar> = 1.55 * (\<bar>real_of_int c\<bar> * real_of_int w) / 1600000" using w(1) by (simp add: abs_mult abs_divide)
    ultimately show ?thesis by simp
  qed simp
  have "near (16 + 2) (rnd (rnd (rnd 1.55 * of_int c) / rnd (rnd (1600 / of_int w) * 1000))) (?n / ?d)"
    by (rule near_rounded [OF assms(1) quot _ _ large [OF size]]) simp_all
  from near_close [OF this] have "\<bar>rnd (rnd (rnd 1.55 * of_int c) / rnd (rnd (1600 / of_int w) * 1000)) - ?n / ?d\<bar> \<le> \<bar>?n / ?d\<bar> / 2 ^ 48"
    by simp
  moreover have "?n / ?d = 1.55 * of_int c * of_int w / 1600000" by simp
  moreover have "rnd (rnd (1600 / of_int w) * 1000) \<noteq> 0" using near_size(1) [OF den] d(2) by auto
  then have "frequency_error_hz rnd (Some (c, w)) = Some (rnd (rnd (rnd 1.55 * of_int c) / rnd (rnd (1600 / of_int w) * 1000)))"
    using w by (simp add: frequency_error_hz_def fdiv_def)
  ultimately show "\<exists>x. frequency_error_hz rnd (Some (c, w)) = Some x \<and>
      \<bar>x - 1.55 * of_int c * of_int w / 1600000\<bar> \<le> \<bar>1.55 * of_int c * of_int w / 1600000\<bar> / 2 ^ 48"
    by (simp only: option.inject ex_simps simp_thms)
  let ?v = "uint v"
  have v: "0 \<le> ?v" by simp
  have "rnd (of_int ?v * 20) = of_int (?v * 20)" using ieee_int [OF assms(1), of "?v * 20"] assms(4) v by simp
  then have value_of: "ranging_distance rnd (Ranging_filtered v) = Some (rnd (of_int (?v * 20) / of_int 100))"
    by (simp add: ranging_distance_def fdiv_def)
  have "\<bar>rnd (of_int (?v * 20) / of_int 100) - of_int (?v * 20) / of_int 100\<bar> \<le> of_int (?v * 20) / of_int 100 / 2 ^ 53"
    using assms(4) v by (intro quotient_exact(3) [OF assms(1)]) simp_all
  then have "near 1 (rnd (of_int (?v * 20) / of_int 100)) (of_int ?v / 5)" by (simp add: near_def)
  from near_close [OF this]
  have "\<bar>rnd (of_int (?v * 20) / of_int 100) - of_int ?v / 5\<bar> \<le> \<bar>of_int ?v / 5\<bar> / 2 ^ 48" by (rule order_trans) simp_all
  moreover have "\<bar>of_int ?v / 5\<bar> = (of_int ?v / 5 :: real)"
    by (intro abs_of_nonneg divide_nonneg_nonneg of_int_0_le_iff [THEN iffD2, OF v]) simp
  ultimately have "\<bar>rnd (of_int (?v * 20) / of_int 100) - of_int ?v / 5\<bar> \<le> of_int ?v / 5 / 2 ^ 48" by (simp only:)
  with value_of show "\<exists>x. ranging_distance rnd (Ranging_filtered v) = Some x \<and> \<bar>x - of_int (uint v) / 5\<bar> \<le> of_int (uint v) / 5 / 2 ^ 48"
    by blast
  show "ranging_distance rnd (Ranging_raw c 0) = None" by (simp add: ranging_distance_def fdiv_def)
qed

theorem measurements_accurate_witness:
  "\<exists>x. ranging_distance id (Ranging_raw 1000 1625000) = Some x \<and> \<bar>x - exact_distance (Ranging_raw 1000 1625000)\<bar> \<le>
     \<bar>exact_distance (Ranging_raw 1000 1625000)\<bar> / 2 ^ 48"
  by (rule measurements_accurate [of id 1625000 1000 0, THEN conjunct1]) (simp_all add: ieee_double_def)

end
