(* ===== verification/Spec2Isabelle.thy ===== *)
theory Spec2Isabelle
  imports Link_History Config_Properties Commanding File_Transfer File_Loop Space_Packets Downlink Packet_Downlink Time_On_Air
begin

text \<open>
  \<^bold>\<open>The SX1280 LoRa link.\<close> The repository connects an F Prime flight-software deployment with two SX1280 LoRa radios,
  one receiving and one transmitting, on the SPI bus of a Linux board. This development models the code under
  \<^verbatim>\<open>src/Sx1280Radio\<close> from the driver's register accesses up to the F Prime component, and of the vendored framework
  (\<^verbatim>\<open>src/lora-fprime-demo/lib/fprime\<close>, below \<^verbatim>\<open>FP\<close>) the components that the deployment connects to it: the path of a
  command from the air to the component that carries it out, that of a file from the air to the disk, and the path of telemetry from
  its packet to the radio.

  \<^bold>\<open>Parts and theories.\<close> From the bottom up, each part uses the ones before it:

  \<^item> \<^verbatim>\<open>Prelude\<close>, \<^verbatim>\<open>Effects\<close>: byte and word types, C++ integer division, and the effects of the code. A computation
    ends with a value, with an exception, by locking a mutex its thread already holds (\<open>Deadlock\<close>), or never (\<open>None\<close>).
    \<open>wp\<close> is partial correctness with exceptions and without deadlock, \<open>twp\<close> total correctness, \<open>halts\<close> says that code
    without loops always ends. Each has a collection of equations that the component proofs rewrite with.
  \<^item> \<^verbatim>\<open>SX128x_Types\<close>, \<^verbatim>\<open>SX128x_Bus\<close>, \<^verbatim>\<open>SX128x_Commands\<close>, \<^verbatim>\<open>SX128x_Irq\<close>, \<^verbatim>\<open>SX128x_Api\<close>: the driver
    \<^verbatim>\<open>ThirdParty/sx128x/SX128x.{hpp,cpp}\<close>. The record \<open>SX128x\<close> is the object with its two mutexes; the record \<open>hal\<close> holds
    the virtual methods a subclass provides. Every public operation is a definition of the name it has in the source.
    The datatype \<open>api_call\<close> lists them all, with \<open>run_api\<close>, so that the lock and termination theorems range over the whole
    interface. Laws of the virtual methods are the locales of \<^verbatim>\<open>SX128x_Bus\<close>; the driver's lemmas are proved inside.
  \<^item> \<^verbatim>\<open>Time_On_Air\<close>: the driver's functions on doubles, the time on air and the scaling of measurements: real numbers that every
    operation rounds, where \<open>ieee_double\<close> states what the standard promises of the rounding.
  \<^item> \<^verbatim>\<open>Linux_Hal\<close>: \<^verbatim>\<open>Hal/LinuxSx1280Radio.{hpp,cpp}\<close>, the subclass over \<^verbatim>\<open>spidev\<close> and \<^verbatim>\<open>libgpiod\<close>. The kernel is a
    parameter \<open>os\<close>, a function from calls and worlds to answers and worlds; every call is logged with its answer, and
    \<open>live\<close> computes from the log the multiset of open handles. The locales are interpreted on \<open>linux_hal\<close>, for every kernel.
  \<^item> \<^verbatim>\<open>Node_Config\<close>, \<^verbatim>\<open>Config_Properties\<close>: \<^verbatim>\<open>Config/NodeConfigYaml.cpp\<close> with the structures of \<^verbatim>\<open>NodeConfig.hpp\<close> and
    \<^verbatim>\<open>Sx1280Config.hpp\<close>: the hand-written reader for the configuration file, down to \<^verbatim>\<open>stoul\<close>, and the shipped file.
  \<^item> \<^verbatim>\<open>LoRa_Node\<close>: \<^verbatim>\<open>Node/LoRaNode.{hpp,cpp}\<close>: the two radios, their configuration, start, stop, send and poll.
  \<^item> \<^verbatim>\<open>LoRa_Adapter\<close>, \<^verbatim>\<open>Adapter_Properties\<close>, \<^verbatim>\<open>Link_History\<close>: \<^verbatim>\<open>ComAdapter/LoRaRadioAdapter.{hpp,cpp}\<close>, the component with its
    handlers \<^verbatim>\<open>dataIn\<close>, \<^verbatim>\<open>dataReturnIn\<close> and \<^verbatim>\<open>run\<close>; what its calls promise; and its histories: the inductive relation
    \<open>reaches\<close> over all sequences of calls, and the abstract machine \<open>conversation\<close> of the communication contract.

  The framework's part of the link, along the path up (\<^verbatim>\<open>Circular_Buffer\<close> to \<^verbatim>\<open>File_Transfer\<close>) and down:

  \<^item> \<^verbatim>\<open>Fprime_Types\<close>, \<^verbatim>\<open>Serialization\<close>: buffers, frame contexts, the assertion \<open>FW_ASSERT\<close>, and the linear buffer of
    \<^verbatim>\<open>FP/Fw/Types/Serializable.cpp\<close> with the big-endian fields of the autocoded structures; \<^verbatim>\<open>Serial_Values\<close> has all other
    operations of this class, values of every width in both byte orders, nested buffers and raw copies, as one interpreter.
  \<^item> \<^verbatim>\<open>Circular_Buffer\<close>, \<^verbatim>\<open>Crc16\<close>: \<^verbatim>\<open>FP/Utils/Types/CircularBuffer.cpp\<close>, \<^verbatim>\<open>FP/Utils/Hash/libcrc\<close> and
    \<^verbatim>\<open>FP/Svc/Ccsds/Utils/CRC16.hpp\<close>.
  \<^item> \<^verbatim>\<open>Buffer_Manager\<close>, \<^verbatim>\<open>Frame_Accumulator\<close>, \<^verbatim>\<open>Tc_Frames\<close>: the components \<^verbatim>\<open>FP/Svc/BufferManager\<close>,
    \<^verbatim>\<open>FP/Svc/FrameAccumulator\<close> with its detector for telecommand frames, and \<^verbatim>\<open>FP/Svc/Ccsds/TcDeframer\<close>.
  \<^item> \<^verbatim>\<open>Apid_Manager\<close>, \<^verbatim>\<open>Space_Packets\<close>: \<^verbatim>\<open>FP/Svc/Ccsds/ApidManager\<close>, \<^verbatim>\<open>SpacePacketFramer\<close> and \<^verbatim>\<open>SpacePacketDeframer\<close>.
  \<^item> \<^verbatim>\<open>Packet_Router\<close>, \<^verbatim>\<open>Cmd_Dispatcher\<close>: \<^verbatim>\<open>FP/Svc/FprimeRouter\<close>, and \<^verbatim>\<open>FP/Svc/CmdDispatcher\<close> with the command packets of
    \<^verbatim>\<open>FP/Fw/Cmd\<close>. Its reference is the machine \<open>dispatcher_spec\<close> with two maps in place of the tables.
  \<^item> \<^verbatim>\<open>Uplink\<close>, \<^verbatim>\<open>Commanding\<close>: these components connected as in \<^verbatim>\<open>FP/Svc/Subtopologies/ComCcsds/ComCcsds.fpp\<close>, from the adapter to
    the router and back to the buffer manager, and on to the dispatcher as in \<^verbatim>\<open>Top/topology.fpp\<close>.
  \<^item> \<^verbatim>\<open>Cfdp_Checksum\<close>, \<^verbatim>\<open>File_Packets\<close>, \<^verbatim>\<open>Os_File\<close>: \<^verbatim>\<open>FP/CFDP/Checksum\<close>, the packets of \<^verbatim>\<open>FP/Fw/FilePacket\<close>, and
    \<^verbatim>\<open>FP/Os/File.cpp\<close> with its POSIX delegate \<^verbatim>\<open>FP/Os/Posix/File.cpp\<close> over a kernel that is a parameter.
  \<^item> \<^verbatim>\<open>File_Uplink\<close>, \<^verbatim>\<open>File_Transfer\<close>: \<^verbatim>\<open>FP/Svc/FileUplink\<close>, which puts files together, and its connection to the uplink.
  \<^item> \<^verbatim>\<open>File_Downlink\<close>, \<^verbatim>\<open>File_Loop\<close>: \<^verbatim>\<open>FP/Svc/FileDownlink\<close> with \<^verbatim>\<open>getFileSize\<close> of \<^verbatim>\<open>FP/Os/FileSystem.cpp\<close>, which sends files
    piece by piece: its handlers are the cases of \<open>sender_call\<close>, its histories \<open>run_sender\<close>; its accounts and its connection to a receiver.
  \<^item> \<^verbatim>\<open>Tm_Framer\<close>, \<^verbatim>\<open>Com_Aggregator\<close>: \<^verbatim>\<open>FP/Svc/Ccsds/TmFramer\<close> and \<^verbatim>\<open>FP/Svc/ComAggregator\<close>, the latter with its state machine and
    the queue its thread works on.
  \<^item> \<^verbatim>\<open>Message_Queue\<close>, \<^verbatim>\<open>Com_Queue\<close>: \<^verbatim>\<open>FP/Utils/Types/Queue.cpp\<close> over the circular buffer, and \<^verbatim>\<open>FP/Svc/ComQueue\<close>, the queue of
    outgoing messages. \<^verbatim>\<open>Queue_Lines\<close> is its reference machine with one line of messages per port, \<^verbatim>\<open>Queue_Service\<close> the simulation and
    the histories, \<^verbatim>\<open>Queue_Setup\<close> the configuration.
  \<^item> \<^verbatim>\<open>Packet_Downlink\<close>: the queue of outgoing messages, the space packet framer with its buffers and counts, and the signals of the
    aggregator, connected.
  \<^item> \<^verbatim>\<open>Downlink\<close>: the aggregator, the telemetry framer and the radio adapter, connected, with their histories.

  In these theories an operation returns an option: \<open>None\<close> is a failed assertion, which stops the program. The output ports of a
  component are a record of functions on the state of the component, where a call may come back to it, and of the world of its
  neighbours; the wiring theories put other components there. What a component relies on is a locale (\<open>frame_sink\<close>, \<open>accumulator\<close>,
  \<open>aggregator_neighbours\<close>, \<open>queue_neighbours\<close>, \<open>message_fifo\<close>, \<open>file_world\<close> with \<open>file_store\<close> and \<open>file_source\<close>), interpreted on the connected components in the wiring theories, or
  on the component that provides it.

  \<^bold>\<open>What is shown.\<close> For the adapter: it refines the contract of the framing stack in every history, returns each
  frame, keeps no buffer, never deadlocks, and on a working board comes up and answers. For the node: starting is all or
  nothing and balanced, the frames of a configuration and of a payload reach the wire unchanged, a poll delivers at most
  one packet. For the driver on Linux: no operation deadlocks, every operation returns when the kernel answers and
  the busy line falls, the power amplifier follows the direction, interrupts are dispatched as a reference table says,
  and the numeric conversions are exact. For the configuration: round trip, the shipped file, error outcomes, widths.
  For the uplink: the ring is a bounded queue, the pool lends disjoint buffers, the checksum is the CCITT shift register, and whatever
  way a stream of telecommand frames is cut into LoRa packets, exactly their commands and files come out at the router and every
  command reaches the component that registered it; but a length field of zero stops the program, and packets of length zero use up
  the pool. A file is stored as it was sent, with its packets in any order; but a full disk, and a packet of an unknown type, stop the
  program. What the sender of files sends, the receiver stores, and every command to
  send files is answered once; but a late buffer and a part whose end wraps around stop the program, and a cancel packet is not
  understood. The dispatcher refines two maps and answers every command once, except the one that clears its tracker. Buffers are
  type safe under all operations of serialization, and what was written is read back. The queue of outgoing messages refines one
  line for each port, keeps the order on every port and the priorities between them. For the downlink: what a ground station of the standard
  reads is what was framed, packets are numbered for each application, the aggregator loses and reorders nothing with any link that
  keeps its contract; but the frames do not fit the radio, and with it the downlink stops for good at the first frame.

  \<^bold>\<open>Hypotheses.\<close> \<open>kernel_ok\<close>, \<open>good_kernel\<close> and \<open>good_board\<close> describe a working environment: calls succeed, and the
  number of times the busy line still reads high goes down with every read. They are only assumed where a statement says
  that something returns, as \<open>completes\<close>, \<open>node_completes\<close> and \<open>adapter_completes\<close>; a bench kernel that satisfies them is
  evaluated in the witnesses. All other statements hold for every kernel. \<open>posix_kernel\<close> states what
  POSIX promises of opening, seeking, writing and closing when no error occurs, \<open>posix_reader\<close> of opening, seeking, reading
  and closing; they leave open how much a write or a read takes.
  In the framework part the memory allocator and the
  addresses of the buffers are parameters: addresses are not null, and fresh memory has arbitrary contents.

  \<^bold>\<open>Loops.\<close> The busy-waits are \<open>partial_function (option)\<close>: \<open>None\<close> is a wait that never ends. All other loops are
  total functions; there is no fuel. The rounds that the loops of \<^verbatim>\<open>Os_File\<close> count are the bound in the code.

  \<^bold>\<open>Not modelled.\<close> \<^verbatim>\<open>GetDioStatus\<close>; threads: the mutexes are modelled, but one handler runs at a time, as
  the adapter is a passive component driven by one rate group, and the aggregator's thread and the rate group are interleaved by whole
  handlers; the depths of the message queues of the aggregator, the dispatcher and the sender of files; the smoke test and the deployment's set-up code; of the vendored
  framework, sequences, parameters, events and telemetry channels, the operating system layer but for its files
  (and of these the checksum of a file, \<^verbatim>\<open>readline\<close> and the duplication of handles) and the autocoded base classes.
\<close>

end
